(* ===== verification/Prelude.thy ===== *)
theory Prelude
  imports
    Complex_Main
    "HOL-Library.AList"
    "HOL-Library.List_Lexorder"
    "HOL-Library.Char_ord"
    "HOL-Library.Product_Lexorder"
begin

text \<open>
  Shared vocabulary of the development: Python dictionaries as insertion-ordered association
  lists, exception-and-state computations with the state visible after an exception, JSON
  values, decimal numerals, and the generic lemmas about them that the components use.

  Instants and durations are integers counting microseconds, the resolution of
  \<^verbatim>\<open>datetime\<close> and \<^verbatim>\<open>timedelta\<close>. A Python string is an Isabelle \<^typ>\<open>string\<close>; a \<^typ>\<open>char\<close>
  is read as a Latin-1 code point.
\<close>

named_theorems dict_simps \<open>lookup after an update or removal of a dictionary entry\<close>
named_theorems eff_simps \<open>evaluation of state-and-exception computations\<close>
named_theorems keeps_intros \<open>introduction rules for invariant preservation\<close>

type_synonym instant = int
type_synonym ('k, 'v) dict = "('k \<times> 'v) list"

section \<open>Insertion-ordered dictionaries\<close>

text \<open>
  \<^verbatim>\<open>d[k] = v\<close> keeps the position of an existing key and appends a new one, which is what
  \<^const>\<open>AList.update\<close> does; \<^verbatim>\<open>d.pop(k, None)\<close> is \<^const>\<open>AList.delete\<close>.
\<close>

abbreviation dget :: "('k, 'v) dict \<Rightarrow> 'k \<Rightarrow> 'v option" where
  "dget d k \<equiv> map_of d k"

definition dset :: "'k \<Rightarrow> 'v \<Rightarrow> ('k, 'v) dict \<Rightarrow> ('k, 'v) dict" where
  "dset k v d = AList.update k v d"

definition dpop :: "'k \<Rightarrow> ('k, 'v) dict \<Rightarrow> ('k, 'v) dict" where
  "dpop k d = AList.delete k d"

definition dmap :: "('v \<Rightarrow> 'w) \<Rightarrow> ('k, 'v) dict \<Rightarrow> ('k, 'w) dict" where
  "dmap f d = map (\<lambda>(k, v). (k, f v)) d"

definition dkeys_distinct :: "('k, 'v) dict \<Rightarrow> bool" where
  "dkeys_distinct d \<longleftrightarrow> distinct (map fst d)"

lemma dget_dset [simp, dict_simps]: "dget (dset k v d) k' = (if k' = k then Some v else dget d k')"
  by (simp add: dset_def update_conv')

lemma dget_dpop [simp, dict_simps]: "dget (dpop k d) k' = (if k' = k then None else dget d k')"
  by (simp add: dpop_def delete_conv')

lemma dget_dmap [simp, dict_simps]: "dget (dmap f d) k = map_option f (dget d k)"
  by (induction d) (auto simp: dmap_def)

lemma dset_code [simp]:
  "dset k v [] = [(k, v)]"
  "dset k v (p # ps) = (if fst p = k then (k, v) # ps else p # dset k v ps)"
  by (simp_all add: dset_def)

lemma dpop_code [simp]:
  "dpop k [] = []"
  "dpop k (p # ps) = (if fst p = k then dpop k ps else p # dpop k ps)"
  by (auto simp: dpop_def AList.delete_eq split: prod.splits)

lemma dmap_code [simp]: "dmap f [] = []" "dmap f (p # ps) = (fst p, f (snd p)) # dmap f ps"
  by (simp_all add: dmap_def case_prod_beta)

lemma dkeys_distinct_Nil [simp]: "dkeys_distinct []"
  by (simp add: dkeys_distinct_def)

lemma dkeys_distinct_dset [simp]: "dkeys_distinct d \<Longrightarrow> dkeys_distinct (dset k v d)"
  by (simp add: dkeys_distinct_def dset_def distinct_update)

lemma dkeys_distinct_dpop [simp]: "dkeys_distinct d \<Longrightarrow> dkeys_distinct (dpop k d)"
  by (simp add: dkeys_distinct_def dpop_def distinct_delete)

lemma dkeys_distinct_dmap [simp]: "dkeys_distinct (dmap f d) = dkeys_distinct d"
  by (simp add: dkeys_distinct_def dmap_def comp_def case_prod_beta)

lemma dget_in_set: "dkeys_distinct d \<Longrightarrow> (k, v) \<in> set d \<longleftrightarrow> dget d k = Some v"
  by (simp add: dkeys_distinct_def)

section \<open>Computations with state and exceptions\<close>

text \<open>
  A Python call that may raise and may change the state is a function from the state to the
  outcome and the state it leaves, so that what an exception leaves behind is visible.
\<close>

type_synonym ('s, 'e, 'a) eff = "'s \<Rightarrow> ('e + 'a) \<times> 's"

definition eret :: "'a \<Rightarrow> ('s, 'e, 'a) eff" where
  "eret a s = (Inr a, s)"

definition eraise :: "'e \<Rightarrow> ('s, 'e, 'a) eff" where
  "eraise e s = (Inl e, s)"

definition ebind :: "('s, 'e, 'a) eff \<Rightarrow> ('a \<Rightarrow> ('s, 'e, 'b) eff) \<Rightarrow> ('s, 'e, 'b) eff" where
  "ebind m f s = (case m s of (Inl e, s') \<Rightarrow> (Inl e, s') | (Inr a, s') \<Rightarrow> f a s')"

definition ecatch :: "('s, 'e, 'a) eff \<Rightarrow> ('e \<Rightarrow> ('s, 'e, 'a) eff) \<Rightarrow> ('s, 'e, 'a) eff" where
  "ecatch m h s = (case m s of (Inl e, s') \<Rightarrow> h e s' | (Inr a, s') \<Rightarrow> (Inr a, s'))"

text \<open>\<^verbatim>\<open>try: x = m except e: h else: k\<close>: the handler does not see exceptions of \<open>k\<close>.\<close>

definition etry :: "('s, 'e, 'a) eff \<Rightarrow> ('e \<Rightarrow> ('s, 'e, 'b) eff) \<Rightarrow> ('a \<Rightarrow> ('s, 'e, 'b) eff) \<Rightarrow> ('s, 'e, 'b) eff" where
  "etry m h k s = (case m s of (Inl e, s') \<Rightarrow> h e s' | (Inr a, s') \<Rightarrow> k a s')"

text \<open>\<^verbatim>\<open>try: m finally: f\<close>: an exception of \<open>f\<close> replaces the outcome of \<open>m\<close>.\<close>

definition efinally :: "('s, 'e, 'a) eff \<Rightarrow> ('s, 'e, 'b) eff \<Rightarrow> ('s, 'e, 'a) eff" where
  "efinally m f s =
     (case m s of (r, s1) \<Rightarrow> (case f s1 of (Inl e, s2) \<Rightarrow> (Inl e, s2) | (Inr _, s2) \<Rightarrow> (r, s2)))"

definition ewhen :: "bool \<Rightarrow> ('s, 'e, unit) eff \<Rightarrow> ('s, 'e, unit) eff" where
  "ewhen b m = (if b then m else eret ())"

primrec efor :: "('a \<Rightarrow> ('s, 'e, unit) eff) \<Rightarrow> 'a list \<Rightarrow> ('s, 'e, unit) eff" where
  "efor f [] = eret ()"
| "efor f (x # xs) = ebind (f x) (\<lambda>_. efor f xs)"

definition elift :: "('s \<Rightarrow> 'e + 'a) \<Rightarrow> ('s, 'e, 'a) eff" where
  "elift g s = (g s, s)"

lemmas [simp, eff_simps] = eret_def eraise_def

lemma ebind_eval [simp, eff_simps]:
  "m s = (Inl e, s') \<Longrightarrow> ebind m f s = (Inl e, s')"
  "m s = (Inr a, s') \<Longrightarrow> ebind m f s = f a s'"
  by (simp_all add: ebind_def)

lemma ebind_eret [simp, eff_simps]: "ebind (eret a) f = f a"
  by (rule ext) (simp add: ebind_def)

lemma ebind_InrE:
  assumes "ebind m f s = (Inr b, t)"
  obtains a s' where "m s = (Inr a, s')" and "f a s' = (Inr b, t)"
  using assms by (auto simp: ebind_def split: prod.splits sum.splits)

text \<open>An invariant is kept when it holds in the state left behind, by a return or by a raise.\<close>

definition keeps :: "('s \<Rightarrow> bool) \<Rightarrow> ('s, 'e, 'a) eff \<Rightarrow> bool" where
  "keeps I m \<longleftrightarrow> (\<forall>s. I s \<longrightarrow> I (snd (m s)))"

lemma keepsD: "keeps I m \<Longrightarrow> I s \<Longrightarrow> I (snd (m s))"
  by (simp add: keeps_def)

lemma keeps_eret [keeps_intros]: "keeps I (eret a)"
  by (simp add: keeps_def)

lemma keeps_eraise [keeps_intros]: "keeps I (eraise e)"
  by (simp add: keeps_def)

lemma keeps_elift [keeps_intros]: "keeps I (elift g)"
  by (simp add: keeps_def elift_def)

lemma keeps_ebind [keeps_intros]:
  assumes "keeps I m" and "\<And>a. keeps I (f a)"
  shows "keeps I (ebind m f)"
  using assms by (simp add: keeps_def ebind_def split: prod.split sum.split) (metis snd_conv)

lemma keeps_ecatch [keeps_intros]:
  assumes "keeps I m" and "\<And>e. keeps I (h e)"
  shows "keeps I (ecatch m h)"
  using assms by (simp add: keeps_def ecatch_def split: prod.split sum.split) (metis snd_conv)

lemma keeps_ewhen [keeps_intros]: "(b \<Longrightarrow> keeps I m) \<Longrightarrow> keeps I (ewhen b m)"
  by (simp add: ewhen_def keeps_eret)

lemma keeps_efor [keeps_intros]: "(\<And>x. x \<in> set xs \<Longrightarrow> keeps I (f x)) \<Longrightarrow> keeps I (efor f xs)"
  by (induction xs) (auto intro!: keeps_intros)

lemma keeps_if [keeps_intros]:
  "(b \<Longrightarrow> keeps I m) \<Longrightarrow> (\<not> b \<Longrightarrow> keeps I n) \<Longrightarrow> keeps I (if b then m else n)"
  by simp

lemma keeps_case_option [keeps_intros]:
  "(x = None \<Longrightarrow> keeps I m) \<Longrightarrow> (\<And>y. x = Some y \<Longrightarrow> keeps I (n y)) \<Longrightarrow>
   keeps I (case x of None \<Rightarrow> m | Some y \<Rightarrow> n y)"
  by (cases x) simp_all

section \<open>Replacing list elements\<close>

text \<open>\<^verbatim>\<open>xs[xs.index(x)] = y\<close> for an \<open>x\<close> that occurs in \<open>xs\<close>.\<close>

fun replace_first :: "'a \<Rightarrow> 'a \<Rightarrow> 'a list \<Rightarrow> 'a list" where
  "replace_first x y [] = []"
| "replace_first x y (z # zs) = (if z = x then y # zs else z # replace_first x y zs)"

lemma length_replace_first [simp]: "length (replace_first x y zs) = length zs"
  by (induction zs) auto

lemma map_replace_first: "f x = f y \<Longrightarrow> map f (replace_first x y zs) = map f zs"
  by (induction zs) auto

lemma set_replace_first_subset: "set (replace_first x y zs) \<subseteq> insert y (set zs)"
  by (induction zs) auto

lemma in_replace_first: "x \<in> set zs \<Longrightarrow> y \<in> set (replace_first x y zs)"
  by (induction zs) auto

lemma in_replace_first_other: "z \<in> set zs \<Longrightarrow> z \<noteq> x \<Longrightarrow> z \<in> set (replace_first x y zs)"
  by (induction zs) auto

lemma find_SomeD: "find P xs = Some x \<Longrightarrow> x \<in> set xs \<and> P x"
  by (induction xs) (auto split: if_splits)

section \<open>JSON values\<close>

datatype pyfloat = PyFinite rat | PyInf bool | PyNaN

datatype json =
    JNull
  | JBool bool
  | JInt int
  | JFloat pyfloat
  | JStr string
  | JList "json list"
  | JObj "(string \<times> json) list"

type_synonym jobj = "(string, json) dict"

text \<open>Python's \<^verbatim>\<open>==\<close> between a JSON value and a string or an integer: \<^verbatim>\<open>True == 1 == 1.0\<close>.\<close>

fun py_eq_str :: "json \<Rightarrow> string \<Rightarrow> bool" where
  "py_eq_str (JStr s) t \<longleftrightarrow> s = t"
| "py_eq_str _ t \<longleftrightarrow> False"

fun py_eq_int :: "json \<Rightarrow> int \<Rightarrow> bool" where
  "py_eq_int (JInt n) i \<longleftrightarrow> n = i"
| "py_eq_int (JBool b) i \<longleftrightarrow> (if b then 1 else 0) = i"
| "py_eq_int (JFloat (PyFinite q)) i \<longleftrightarrow> q = of_int i"
| "py_eq_int _ i \<longleftrightarrow> False"

text \<open>Python truthiness of a JSON value.\<close>

fun py_truthy :: "json \<Rightarrow> bool" where
  "py_truthy JNull \<longleftrightarrow> False"
| "py_truthy (JBool b) \<longleftrightarrow> b"
| "py_truthy (JInt n) \<longleftrightarrow> n \<noteq> 0"
| "py_truthy (JFloat (PyFinite q)) \<longleftrightarrow> q \<noteq> 0"
| "py_truthy (JFloat _) \<longleftrightarrow> True"
| "py_truthy (JStr s) \<longleftrightarrow> s \<noteq> []"
| "py_truthy (JList xs) \<longleftrightarrow> xs \<noteq> []"
| "py_truthy (JObj kvs) \<longleftrightarrow> kvs \<noteq> []"

fun is_jobj :: "json \<Rightarrow> bool" where
  "is_jobj (JObj _) \<longleftrightarrow> True"
| "is_jobj _ \<longleftrightarrow> False"

fun is_jstr :: "json \<Rightarrow> bool" where
  "is_jstr (JStr _) \<longleftrightarrow> True"
| "is_jstr _ \<longleftrightarrow> False"

section \<open>Strings and numerals\<close>

text \<open>\<^verbatim>\<open>str.isspace\<close> on Latin-1 code points, and \<^verbatim>\<open>str.strip()\<close>.\<close>

definition py_isspace :: "char \<Rightarrow> bool" where
  "py_isspace c \<longleftrightarrow> (let n = (of_char c :: nat) in
     (9 \<le> n \<and> n \<le> 13) \<or> (28 \<le> n \<and> n \<le> 32) \<or> n = 133 \<or> n = 160)"

definition py_strip :: "string \<Rightarrow> string" where
  "py_strip s = rev (dropWhile py_isspace (rev (dropWhile py_isspace s)))"

lemma length_dropWhile_le_list: "length (dropWhile P xs) \<le> length xs"
  by (induction xs) auto

lemma length_py_strip: "length (py_strip s) \<le> length s"
  unfolding py_strip_def
  by (metis length_dropWhile_le_list length_rev order_trans)

fun show_nat :: "nat \<Rightarrow> string" where
  "show_nat n = (if n < 10 then [char_of (48 + n)]
                 else show_nat (n div 10) @ [char_of (48 + n mod 10)])"

declare show_nat.simps [simp del]

definition show_int :: "int \<Rightarrow> string" where
  "show_int i = (if i < 0 then CHR ''-'' # show_nat (nat (- i)) else show_nat (nat i))"

definition digit_value :: "char \<Rightarrow> nat" where
  "digit_value c = of_char c - 48"

definition is_digit :: "char \<Rightarrow> bool" where
  "is_digit c \<longleftrightarrow> 48 \<le> (of_char c :: nat) \<and> (of_char c :: nat) \<le> 57"

definition read_nat :: "string \<Rightarrow> nat" where
  "read_nat s = foldl (\<lambda>n c. 10 * n + digit_value c) 0 s"

lemma digit_value_char_of [simp]: "d < 10 \<Longrightarrow> digit_value (char_of (48 + d)) = d"
  by (simp add: digit_value_def)

lemma is_digit_char_of [simp]: "d < 10 \<Longrightarrow> is_digit (char_of (48 + d :: nat))"
  by (simp add: is_digit_def)

lemma char_of_digits [simp]:
  "char_of (48 :: nat) = CHR ''0''"
  "char_of (49 :: nat) = CHR ''1''"
  "char_of (50 :: nat) = CHR ''2''"
  "char_of (51 :: nat) = CHR ''3''"
  "char_of (52 :: nat) = CHR ''4''"
  "char_of (53 :: nat) = CHR ''5''"
  "char_of (54 :: nat) = CHR ''6''"
  "char_of (55 :: nat) = CHR ''7''"
  "char_of (56 :: nat) = CHR ''8''"
  "char_of (57 :: nat) = CHR ''9''"
  by code_simp+

lemma read_nat_snoc [simp]: "read_nat (s @ [c]) = 10 * read_nat s + digit_value c"
  by (simp add: read_nat_def)

lemma read_nat_Nil [simp]: "read_nat [] = 0"
  by (simp add: read_nat_def)

lemma read_show_nat [simp]: "read_nat (show_nat n) = n"
proof (induction n rule: show_nat.induct)
  case (1 n)
  show ?case
  proof (cases "n < 10")
    case True
    then show ?thesis
      by (subst show_nat.simps) (simp add: read_nat_def)
  next
    case False
    with "1" show ?thesis
      by (subst show_nat.simps) simp
  qed
qed

lemma show_nat_digits: "\<forall>c \<in> set (show_nat n). is_digit c"
proof (induction n rule: show_nat.induct)
  case (1 n)
  then show ?case
    by (subst show_nat.simps) auto
qed

lemma show_nat_nonempty [simp]: "show_nat n \<noteq> []"
  by (subst show_nat.simps) simp

lemma show_nat_inject [simp]: "show_nat m = show_nat n \<longleftrightarrow> m = n"
  by (metis read_show_nat)

end
