(* ===== verification/Money.thy ===== *)
theory Money
  imports Prelude
begin

text \<open>
  Decimal amounts. Contract amounts are strings of the pattern
  \<^verbatim>\<open>^(0|[1-9][0-9]*)(\.[0-9]{1,4})?$\<close> of at most 32 characters; \<^verbatim>\<open>Decimal(s)\<close> of such a
  string is modelled exactly as an integer number of ten-thousandths. \<open>decimal_text\<close> is the
  planner's printer. The round trip printer/reader is proved here.
\<close>

definition decimal_amount_ok :: "string \<Rightarrow> bool" where
  "decimal_amount_ok s \<longleftrightarrow>
     (let ip = takeWhile is_digit s; rest = dropWhile is_digit s in
      length s \<le> 32 \<and> ip \<noteq> [] \<and> (ip = ''0'' \<or> hd ip \<noteq> CHR ''0'') \<and>
      (rest = [] \<or> (hd rest = CHR ''.'' \<and> list_all is_digit (tl rest) \<and>
                    1 \<le> length (tl rest) \<and> length (tl rest) \<le> 4)))"

definition decimal_units :: "string \<Rightarrow> int" where
  "decimal_units s =
     (let ip = takeWhile is_digit s; fp = tl (dropWhile is_digit s) in
      int (read_nat ip * 10000 + read_nat (take 4 (fp @ ''0000''))))"

definition pad4 :: "nat \<Rightarrow> string" where
  "pad4 n = [char_of (48 + n div 1000 mod 10), char_of (48 + n div 100 mod 10),
             char_of (48 + n div 10 mod 10), char_of (48 + n mod 10)]"

definition rstrip_zeros :: "string \<Rightarrow> string" where
  "rstrip_zeros s = rev (dropWhile (\<lambda>c. c = CHR ''0'') (rev s))"

definition decimal_text :: "int \<Rightarrow> string" where
  "decimal_text v =
     (let u = nat (max 0 v); ip = u div 10000; fp = u mod 10000 in
      if fp = 0 then show_nat ip else show_nat ip @ ''.'' @ rstrip_zeros (pad4 fp))"

lemma not_is_digit_dot [simp]: "\<not> is_digit CHR ''.''"
  by (simp add: is_digit_def)

lemma takeWhile_digits_dot:
  "list_all is_digit xs \<Longrightarrow> takeWhile is_digit (xs @ CHR ''.'' # ys) = xs"
  "list_all is_digit xs \<Longrightarrow> dropWhile is_digit (xs @ CHR ''.'' # ys) = CHR ''.'' # ys"
  "list_all is_digit xs \<Longrightarrow> takeWhile is_digit xs = xs"
  "list_all is_digit xs \<Longrightarrow> dropWhile is_digit xs = []"
  by (induction xs) auto

lemma show_nat_list_all [simp]: "list_all is_digit (show_nat n)"
  using show_nat_digits by (simp add: list_all_iff)

lemma read_pad4: "n < 10000 \<Longrightarrow> read_nat (pad4 n) = n"
proof -
  assume n: "n < 10000"
  have d: "n div 100 = n div 10 div 10" "n div 1000 = n div 10 div 10 div 10"
    by (simp_all add: div_mult2_eq [symmetric])
  have c: "n div 10 div 10 div 10 mod 10 = n div 10 div 10 div 10"
    using n by (simp add: div_mult2_eq [symmetric])
  have "read_nat (pad4 n) =
      10 * (10 * (10 * (n div 1000 mod 10) + n div 100 mod 10) + n div 10 mod 10) + n mod 10"
    unfolding pad4_def read_nat_def by simp
  also have "\<dots> = n" unfolding d c by simp
  finally show ?thesis .
qed

lemma length_pad4 [simp]: "length (pad4 n) = 4"
  by (simp add: pad4_def)

lemma rstrip_zeros_split: "\<exists>k. s = rstrip_zeros s @ replicate k CHR ''0''"
proof (induction s rule: rev_induct)
  case Nil
  then show ?case by (simp add: rstrip_zeros_def)
next
  case (snoc c s)
  show ?case
  proof (cases "c = CHR ''0''")
    case True
    from snoc obtain k where "s = rstrip_zeros s @ replicate k CHR ''0''" by blast
    then have "s @ [c] = rstrip_zeros s @ replicate (Suc k) CHR ''0''"
      using True by (metis append_assoc replicate_append_same replicate_Suc)
    moreover have "rstrip_zeros (s @ [c]) = rstrip_zeros s" using True by (simp add: rstrip_zeros_def)
    ultimately show ?thesis by metis
  next
    case False
    then show ?thesis by (auto simp: rstrip_zeros_def intro: exI [of _ 0])
  qed
qed

lemma take4_rstrip: "length s = 4 \<Longrightarrow> take 4 (rstrip_zeros s @ ''0000'') = s"
proof -
  assume len: "length s = 4"
  obtain k where k: "s = rstrip_zeros s @ replicate k CHR ''0''"
    using rstrip_zeros_split by blast
  let ?r = "rstrip_zeros s"
  have lk: "length ?r + k = 4" using k len by (metis length_append length_replicate)
  have "''0000'' = replicate (4::nat) CHR ''0''" by (simp add: numeral_eq_Suc)
  then have "take 4 (?r @ ''0000'') = ?r @ replicate k CHR ''0''"
    using lk by (simp add: min_def)
  then show ?thesis using k by simp
qed

lemma decimal_units_decimal_text:
  "0 \<le> v \<Longrightarrow> decimal_units (decimal_text v) = v"
proof -
  assume "0 \<le> v"
  define u where "u = nat v"
  have v: "v = int u" using \<open>0 \<le> v\<close> by (simp add: u_def)
  have dt: "decimal_text v = (if u mod 10000 = 0 then show_nat (u div 10000)
      else show_nat (u div 10000) @ CHR ''.'' # rstrip_zeros (pad4 (u mod 10000)))"
    by (simp add: decimal_text_def v Let_def)
  have zeros: "read_nat ''0000'' = 0" by (simp add: read_nat_def digit_value_def)
  show ?thesis
  proof (cases "u mod 10000 = 0")
    case True
    have "decimal_units (decimal_text v) = int (u div 10000 * 10000)"
      using True dt zeros by (simp add: decimal_units_def takeWhile_digits_dot)
    with True v show ?thesis by auto
  next
    case False
    have "decimal_units (decimal_text v) = int (u div 10000 * 10000 + read_nat (pad4 (u mod 10000)))"
      using False dt by (simp add: decimal_units_def takeWhile_digits_dot take4_rstrip Let_def del: take_append)
    with v show ?thesis by (simp add: read_pad4)
  qed
qed

lemma show_nat_hd: "show_nat n = ''0'' \<or> hd (show_nat n) \<noteq> CHR ''0''"
proof (induction n rule: show_nat.induct)
  case (1 n)
  show ?case
  proof (cases "n < 10")
    case True
    then have "n \<in> {0,1,2,3,4,5,6,7,8,9}" by auto
    then show ?thesis by (subst (1 2) show_nat.simps) auto
  next
    case False
    with 1 have "show_nat (n div 10) = ''0'' \<or> hd (show_nat (n div 10)) \<noteq> CHR ''0''" by simp
    moreover have "show_nat (n div 10) \<noteq> ''0''"
    proof
      assume "show_nat (n div 10) = ''0''"
      then have "read_nat (show_nat (n div 10)) = 0" by (simp add: read_nat_def digit_value_def)
      with False show False by simp
    qed
    ultimately show ?thesis
      using False by (subst (2) show_nat.simps) simp
  qed
qed

lemma rstrip_pad4_nonempty: "n < 10000 \<Longrightarrow> n \<noteq> 0 \<Longrightarrow> rstrip_zeros (pad4 n) \<noteq> []"
proof
  assume n: "n < 10000" "n \<noteq> 0" and e: "rstrip_zeros (pad4 n) = []"
  from take4_rstrip [of "pad4 n"] e have "pad4 n = ''0000''" by simp
  then have "read_nat (pad4 n) = 0" by (simp add: read_nat_def digit_value_def)
  with n show False by (simp add: read_pad4)
qed

lemma rstrip_pad4_digits: "list_all is_digit (rstrip_zeros (pad4 n))"
proof -
  have "list_all is_digit (pad4 n)" by (simp add: pad4_def)
  moreover have "set (rstrip_zeros (pad4 n)) \<subseteq> set (pad4 n)"
    by (auto simp: rstrip_zeros_def dest: set_dropWhileD)
  ultimately show ?thesis by (auto simp: list_all_iff)
qed

lemma length_rstrip_pad4: "length (rstrip_zeros (pad4 n)) \<le> 4"
proof -
  have "length (rstrip_zeros s) \<le> length s" for s
    by (simp add: rstrip_zeros_def) (metis length_dropWhile_le_list length_rev)
  from this [of "pad4 n"] show ?thesis by simp
qed

lemma decimal_text_pattern:
  "length (decimal_text v) \<le> 32 \<Longrightarrow> decimal_amount_ok (decimal_text v)"
proof -
  assume len: "length (decimal_text v) \<le> 32"
  define u where "u = nat (max 0 v)"
  have dt: "decimal_text v = (if u mod 10000 = 0 then show_nat (u div 10000)
      else show_nat (u div 10000) @ CHR ''.'' # rstrip_zeros (pad4 (u mod 10000)))"
    unfolding decimal_text_def u_def [symmetric] Let_def by simp
  show ?thesis
  proof (cases "u mod 10000 = 0")
    case True
    with dt len show_nat_hd show ?thesis
      by (auto simp: decimal_amount_ok_def takeWhile_digits_dot)
  next
    case False
    have "rstrip_zeros (pad4 (u mod 10000)) \<noteq> []"
      using False by (intro rstrip_pad4_nonempty) auto
    then have "Suc 0 \<le> length (rstrip_zeros (pad4 (u mod 10000)))"
      by (simp add: Suc_le_eq)
    with False dt len show_nat_hd show ?thesis
      by (auto simp: decimal_amount_ok_def takeWhile_digits_dot rstrip_pad4_digits length_rstrip_pad4)
  qed
qed

text \<open>
  Printing a non-negative amount and reading the text back gives the same amount, and the
  text satisfies the contract pattern whenever it fits the 32-character limit, so every
  \<^verbatim>\<open>MoneyRange\<close> the planner builds carries exactly the sums it computed.
\<close>

theorem decimal_text_roundtrip:
  "decimal_units (decimal_text (int n)) = int n \<and>
   (length (decimal_text (int n)) \<le> 32 \<longrightarrow> decimal_amount_ok (decimal_text (int n)))"
  using decimal_units_decimal_text decimal_text_pattern by simp

theorem decimal_text_roundtrip_witness:
  "decimal_text 1234500 = ''123.45'' \<and> decimal_units ''123.45'' = 1234500 \<and>
   decimal_amount_ok ''123.45''"
proof -
  have t: "decimal_text 1234500 = ''123.45''"
    by (simp add: decimal_text_def rstrip_zeros_def pad4_def show_nat.simps)
  show ?thesis using decimal_text_roundtrip [of 1234500] t by simp
qed

end
