(* ===== verification/V1_Models.thy ===== *)
theory V1_Models
  imports Money
begin

text \<open>
  The public models of the control plane, \<^verbatim>\<open>backend/moyuan_web/v1/models.py\<close>: enumerations,
  views and requests as datatypes and records, the request validators as executable predicates,
  and \<open>validate_run_input_values\<close>, the typed-input check behind a Run resume. Record fields carry
  a prefix (\<open>tv_\<close>, \<open>rv_\<close>, \<open>av_\<close>, \<dots>) because Isabelle has one name space for selectors.
\<close>

section \<open>Enumerations\<close>

datatype TripStatus = Trip_ACTIVE | Trip_ARCHIVED

datatype TripMemberRole = Role_OWNER | Role_EDITOR | Role_VIEWER

datatype RunLifecycle =
  QUEUED | RUNNING | WAITING_INPUT | CANCEL_REQUESTED | COMPLETED | FAILED | CANCELED

fun lifecycle_value :: "RunLifecycle \<Rightarrow> string" where
  "lifecycle_value QUEUED = ''queued''"
| "lifecycle_value RUNNING = ''running''"
| "lifecycle_value WAITING_INPUT = ''waiting_input''"
| "lifecycle_value CANCEL_REQUESTED = ''cancel_requested''"
| "lifecycle_value COMPLETED = ''completed''"
| "lifecycle_value FAILED = ''failed''"
| "lifecycle_value CANCELED = ''canceled''"

definition TERMINAL_RUN_STATES :: "RunLifecycle set" where
  "TERMINAL_RUN_STATES = {COMPLETED, FAILED, CANCELED}"

datatype RunCommandType =
  Trip_ask | Trip_plan | Trip_replan | Artifact_select | Artifact_publish | Artifact_revoke

datatype ArtifactStatus = CANDIDATE | SELECTED | VALIDATED | PUBLISHED | SUPERSEDED | REVOKED

fun artifact_status_value :: "ArtifactStatus \<Rightarrow> string" where
  "artifact_status_value CANDIDATE = ''candidate''"
| "artifact_status_value SELECTED = ''selected''"
| "artifact_status_value VALIDATED = ''validated''"
| "artifact_status_value PUBLISHED = ''published''"
| "artifact_status_value SUPERSEDED = ''superseded''"
| "artifact_status_value REVOKED = ''revoked''"

datatype EventType =
    Ev_run_accepted
  | Ev_run_lifecycle_changed
  | Ev_run_phase_changed
  | Ev_agent_activity
  | Ev_artifact_candidate_updated
  | Ev_artifact_published
  | Ev_citation_added
  | Ev_risk_detected
  | Ev_input_required
  | Ev_approval_required
  | Ev_run_completed
  | Ev_run_failed
  | Ev_run_canceled
  | Ev_heartbeat

section \<open>Actors, Trips and members\<close>

record Principal =
  pr_tenant_id :: string
  pr_user_id :: string
  pr_roles :: "string set"
  pr_authorization_epoch :: int

record TripCreateRequest =
  tc_title :: string
  tc_locale :: string
  tc_timezone :: string

text \<open>
  A patch field is absent (\<^term>\<open>None\<close>), an explicit JSON null (\<^term>\<open>Some None\<close>) or a value:
  \<^verbatim>\<open>model_dump(exclude_unset=True)\<close> keeps the last two.
\<close>

record TripPatchRequest =
  tp_title :: "string option option"
  tp_locale :: "string option option"
  tp_timezone :: "string option option"

definition opt_len_ok :: "nat \<Rightarrow> nat \<Rightarrow> string option option \<Rightarrow> bool" where
  "opt_len_ok lo hi v = (case v of Some (Some s) \<Rightarrow> lo \<le> length s \<and> length s \<le> hi | _ \<Rightarrow> True)"

definition trip_patch_require_change :: "TripPatchRequest \<Rightarrow> bool" where
  "trip_patch_require_change r \<longleftrightarrow>
     tp_title r \<noteq> None \<or> tp_locale r \<noteq> None \<or> tp_timezone r \<noteq> None"

definition trip_patch_valid :: "TripPatchRequest \<Rightarrow> bool" where
  "trip_patch_valid r \<longleftrightarrow>
     opt_len_ok 1 160 (tp_title r) \<and> opt_len_ok 2 32 (tp_locale r) \<and>
     opt_len_ok 1 64 (tp_timezone r) \<and> trip_patch_require_change r"

text \<open>
  \<open>title\<close>, \<open>locale\<close> and \<open>timezone\<close> are declared \<^verbatim>\<open>str\<close> in the source, but \<^verbatim>\<open>model_copy\<close> does not
  validate, so a stored view can hold Python's \<^verbatim>\<open>None\<close> there: the fields are options.
\<close>

record TripView =
  tv_trip_id :: string
  tv_tenant_id :: string
  tv_owner_id :: string
  tv_title :: "string option"
  tv_locale :: "string option"
  tv_timezone :: "string option"
  tv_status :: TripStatus
  tv_version :: int
  tv_current_artifact_id :: "string option"
  tv_current_artifact_version :: "int option"
  tv_created_at :: instant
  tv_updated_at :: instant

record TripMemberView =
  tm_trip_id :: string
  tm_tenant_id :: string
  tm_user_id :: string
  tm_role :: TripMemberRole
  tm_version :: int
  tm_created_at :: instant
  tm_updated_at :: instant

datatype MemberGrant = Grant_editor | Grant_viewer

fun grant_role :: "MemberGrant \<Rightarrow> TripMemberRole" where
  "grant_role Grant_editor = Role_EDITOR"
| "grant_role Grant_viewer = Role_VIEWER"

section \<open>Run commands and replan patches\<close>

record RunCommand =
  rc_type :: RunCommandType
  rc_message :: string
  rc_payload :: jobj

text \<open>A calendar date is its proleptic Gregorian ordinal.\<close>

record ReplanDatePatch =
  rd_start_date :: int
  rd_end_date :: int

definition replan_date_valid :: "ReplanDatePatch \<Rightarrow> bool" where
  "replan_date_valid p \<longleftrightarrow>
     \<not> rd_end_date p < rd_start_date p \<and> \<not> rd_end_date p - rd_start_date p > 30"

record ReplanBudgetPatch =
  rb_min_amount :: string
  rb_max_amount :: string
  rb_currency :: "string option"

definition currency_code_ok :: "string \<Rightarrow> bool" where
  "currency_code_ok s \<longleftrightarrow> length s = 3 \<and> list_all (\<lambda>c. c \<in> set ''ABCDEFGHIJKLMNOPQRSTUVWXYZ'') s"

definition replan_budget_valid :: "ReplanBudgetPatch \<Rightarrow> bool" where
  "replan_budget_valid p \<longleftrightarrow>
     decimal_amount_ok (rb_min_amount p) \<and> decimal_amount_ok (rb_max_amount p) \<and>
     (case rb_currency p of None \<Rightarrow> True | Some c \<Rightarrow> currency_code_ok c) \<and>
     \<not> decimal_units (rb_min_amount p) > decimal_units (rb_max_amount p)"

record ReplanPreferencePatch =
  rp_add :: "string list"
  rp_remove :: "string list"

text \<open>\<open>casefold\<close> is \<^verbatim>\<open>str.casefold\<close>; every statement holds for any such function.\<close>

definition patch_values_ok :: "(string \<Rightarrow> string) \<Rightarrow> string list \<Rightarrow> bool" where
  "patch_values_ok casefold values \<longleftrightarrow>
     \<not> list_ex (\<lambda>v. v = [] \<or> length v > 256) values \<and>
     card (set (map casefold values)) = length values"

definition replan_preference_valid :: "(string \<Rightarrow> string) \<Rightarrow> ReplanPreferencePatch \<Rightarrow> bool" where
  "replan_preference_valid casefold p \<longleftrightarrow>
     length (rp_add p) \<le> 20 \<and> length (rp_remove p) \<le> 20 \<and>
     patch_values_ok casefold (rp_add p) \<and> patch_values_ok casefold (rp_remove p)"

record ReplanPatch =
  rpt_dates :: "ReplanDatePatch option"
  rpt_budget :: "ReplanBudgetPatch option"
  rpt_preferences :: "ReplanPreferencePatch option"
  rpt_exclude_places :: "string list"
  rpt_retain_places :: "string list"

definition replan_require_change :: "(string \<Rightarrow> string) \<Rightarrow> ReplanPatch \<Rightarrow> bool" where
  "replan_require_change casefold p \<longleftrightarrow>
     (rpt_dates p \<noteq> None \<or> rpt_budget p \<noteq> None \<or>
      (case rpt_preferences p of None \<Rightarrow> False | Some q \<Rightarrow> rp_add q \<noteq> [] \<or> rp_remove q \<noteq> []) \<or>
      rpt_exclude_places p \<noteq> [] \<or> rpt_retain_places p \<noteq> []) \<and>
     set (map casefold (rpt_exclude_places p)) \<inter> set (map casefold (rpt_retain_places p)) = {}"

definition replan_patch_valid :: "(string \<Rightarrow> string) \<Rightarrow> ReplanPatch \<Rightarrow> bool" where
  "replan_patch_valid casefold p \<longleftrightarrow>
     (case rpt_dates p of None \<Rightarrow> True | Some d \<Rightarrow> replan_date_valid d) \<and>
     (case rpt_budget p of None \<Rightarrow> True | Some b \<Rightarrow> replan_budget_valid b) \<and>
     (case rpt_preferences p of None \<Rightarrow> True | Some q \<Rightarrow> replan_preference_valid casefold q) \<and>
     length (rpt_exclude_places p) \<le> 50 \<and> length (rpt_retain_places p) \<le> 50 \<and>
     patch_values_ok casefold (rpt_exclude_places p) \<and>
     patch_values_ok casefold (rpt_retain_places p) \<and>
     replan_require_change casefold p"

record RunCreateRequest =
  rq_command :: RunCommand
  rq_base_artifact_id :: "string option"
  rq_base_artifact_version :: "int option"

text \<open>
  \<open>validate_planning_base\<close>; \<open>patch_ok\<close> and \<open>ask_ok\<close> stand for the pydantic parse of the nested
  payloads (\<^verbatim>\<open>ReplanPatch.model_validate\<close>, \<^verbatim>\<open>AskPayload.model_validate\<close>).
\<close>

definition validate_planning_base ::
    "(jobj \<Rightarrow> bool) \<Rightarrow> (jobj \<Rightarrow> bool) \<Rightarrow> RunCreateRequest \<Rightarrow> bool" where
  "validate_planning_base patch_ok ask_ok r =
     (let c = rq_command r; ty = rc_type c in
      (if ty = Trip_replan then
         rq_base_artifact_id r \<noteq> None \<and> rq_base_artifact_version r \<noteq> None \<and>
         (case dget (rc_payload c) ''patch'' of Some (JObj o1) \<Rightarrow> patch_ok o1 | _ \<Rightarrow> False)
       else if ty \<in> {Trip_ask, Trip_plan} then
         \<not> (rq_base_artifact_id r \<noteq> None \<or> rq_base_artifact_version r \<noteq> None)
       else True) \<and>
      (ty = Trip_ask \<longrightarrow> ask_ok (rc_payload c)))"

section \<open>Typed run input\<close>

datatype InputType =
  In_text | In_date | In_number | In_single_select | In_multi_select | In_confirmation

record RunInputField =
  if_field_id :: string
  if_label :: string
  if_input_type :: InputType
  if_required :: bool
  if_options :: "string list"

record RunPendingInput =
  pi_request_id :: string
  pi_prompt :: string
  pi_fields :: "RunInputField list"
  pi_expires_at :: instant

datatype py_exception = ValueError | OverflowError

text \<open>
  \<^verbatim>\<open>float(n)\<close> of an int raises \<^verbatim>\<open>OverflowError\<close> when the nearest double would be infinite.
  \<open>date_iso s\<close> is \<^verbatim>\<open>date.fromisoformat(s).isoformat()\<close>, \<^term>\<open>None\<close> when that raises.
\<close>

definition float_overflows :: "int \<Rightarrow> bool" where
  "float_overflows n \<longleftrightarrow> \<bar>n\<bar> \<ge> 2 ^ 1024 - 2 ^ 970"

fun all_str_in :: "string list \<Rightarrow> json list \<Rightarrow> bool" where
  "all_str_in opts [] \<longleftrightarrow> True"
| "all_str_in opts (JStr s # xs) \<longleftrightarrow> s \<in> set opts \<and> all_str_in opts xs"
| "all_str_in opts (_ # xs) \<longleftrightarrow> False"

fun normalize_input ::
    "(string \<Rightarrow> string option) \<Rightarrow> RunInputField \<Rightarrow> json \<Rightarrow> py_exception + json" where
  "normalize_input date_iso fld v =
     (case if_input_type fld of
        In_text \<Rightarrow>
          (case v of
             JStr s \<Rightarrow> if py_strip s = [] \<or> length s > 2000 then Inl ValueError
                       else Inr (JStr (py_strip s))
           | _ \<Rightarrow> Inl ValueError)
      | In_date \<Rightarrow>
          (case v of
             JStr s \<Rightarrow> (case date_iso s of None \<Rightarrow> Inl ValueError | Some d \<Rightarrow> Inr (JStr d))
           | _ \<Rightarrow> Inl ValueError)
      | In_number \<Rightarrow>
          (case v of
             JInt n \<Rightarrow> if float_overflows n then Inl OverflowError else Inr (JInt n)
           | JFloat (PyFinite q) \<Rightarrow> Inr (JFloat (PyFinite q))
           | _ \<Rightarrow> Inl ValueError)
      | In_single_select \<Rightarrow>
          (case v of
             JStr s \<Rightarrow> if s \<in> set (if_options fld) then Inr (JStr s) else Inl ValueError
           | _ \<Rightarrow> Inl ValueError)
      | In_multi_select \<Rightarrow>
          (case v of
             JList xs \<Rightarrow> if \<not> all_str_in (if_options fld) xs \<or> \<not> distinct xs then Inl ValueError
                         else Inr (JList xs)
           | _ \<Rightarrow> Inl ValueError)
      | In_confirmation \<Rightarrow>
          (case v of JBool b \<Rightarrow> Inr (JBool b) | _ \<Rightarrow> Inl ValueError))"

text \<open>\<^verbatim>\<open>{field.field_id: field for field in pending.fields}\<close>: a later duplicate overrides.\<close>

definition input_fields :: "RunPendingInput \<Rightarrow> (string, RunInputField) dict" where
  "input_fields p = foldl (\<lambda>d f. dset (if_field_id f) f d) [] (pi_fields p)"

fun normalize_inputs ::
    "(string \<Rightarrow> string option) \<Rightarrow> (string, RunInputField) dict \<Rightarrow> jobj \<Rightarrow> jobj \<Rightarrow> py_exception + jobj"
where
  "normalize_inputs date_iso flds [] acc = Inr acc"
| "normalize_inputs date_iso flds ((fid, v) # vs) acc =
     (case dget flds fid of
        None \<Rightarrow> Inl ValueError
      | Some f \<Rightarrow>
          (case normalize_input date_iso f v of
             Inl e \<Rightarrow> Inl e
           | Inr w \<Rightarrow> normalize_inputs date_iso flds vs (dset fid w acc)))"

definition validate_run_input_values ::
    "(string \<Rightarrow> string option) \<Rightarrow> RunPendingInput \<Rightarrow> jobj \<Rightarrow> py_exception + jobj" where
  "validate_run_input_values date_iso pending values =
     (let flds = input_fields pending in
      if list_ex (\<lambda>(k, _). dget flds k = None) values then Inl ValueError
      else if list_ex (\<lambda>f. if_required f \<and> dget values (if_field_id f) = None) (pi_fields pending)
        then Inl ValueError
      else normalize_inputs date_iso flds values [])"

section \<open>Runs, events and Artifacts\<close>

record RunView =
  rv_run_id :: string
  rv_trip_id :: string
  rv_tenant_id :: string
  rv_actor_id :: string
  rv_trace_id :: string
  rv_lifecycle_state :: RunLifecycle
  rv_phase :: string
  rv_control_version :: int
  rv_command :: RunCommand
  rv_base_artifact_id :: "string option"
  rv_base_artifact_version :: "int option"
  rv_pending_input :: "RunPendingInput option"
  rv_result_artifact_id :: "string option"
  rv_result_artifact_version :: "int option"
  rv_public_error_code :: "string option"
  rv_created_at :: instant
  rv_updated_at :: instant

record RunEvent =
  ev_event_id :: string
  ev_seq :: int
  ev_type :: EventType
  ev_occurred_at :: instant
  ev_trip_id :: string
  ev_run_id :: string
  ev_trace_id :: string
  ev_data :: jobj

record ArtifactView =
  av_artifact_id :: string
  av_version :: int
  av_trip_id :: string
  av_tenant_id :: string
  av_artifact_type :: string
  av_schema_version :: int
  av_status :: ArtifactStatus
  av_content :: jobj
  av_created_by :: string
  av_created_at :: instant
  av_parent_version :: "int option"

record ArtifactPatchRequest =
  ap_base_version :: int
  ap_content :: jobj

datatype ArtifactCommandType = Cmd_select | Cmd_publish | Cmd_revoke

record ArtifactCommandRequest =
  ac_type :: ArtifactCommandType
  ac_base_version :: int

text \<open>\<open>qualify_command\<close> runs before the \<^verbatim>\<open>Literal\<close> check; \<^term>\<open>None\<close> is the rejected value.\<close>

definition qualify_command :: "string \<Rightarrow> string" where
  "qualify_command v = (if v \<in> {''select'', ''publish'', ''revoke''} then ''artifact.'' @ v else v)"

definition parse_artifact_command :: "string \<Rightarrow> ArtifactCommandType option" where
  "parse_artifact_command v =
     (let q = qualify_command v in
      if q = ''artifact.select'' then Some Cmd_select
      else if q = ''artifact.publish'' then Some Cmd_publish
      else if q = ''artifact.revoke'' then Some Cmd_revoke
      else None)"

section \<open>Properties of the input check\<close>

lemma dget_foldl_dset:
  "dget (foldl (\<lambda>d f. dset (g f) f d) d0 fs) k = Some f \<Longrightarrow> f \<in> set fs \<and> g f = k \<or> dget d0 k = Some f"
  by (induction fs arbitrary: d0) (fastforce split: if_splits)+

lemma input_fields_Some: "dget (input_fields p) k = Some f \<Longrightarrow> f \<in> set (pi_fields p) \<and> if_field_id f = k"
  unfolding input_fields_def by (drule dget_foldl_dset) simp

lemma normalize_inputs_keys:
  "normalize_inputs date_iso flds vs acc = Inr out \<Longrightarrow>
   dom (dget out) = dom (dget acc) \<union> fst ` set vs"
proof (induction vs arbitrary: acc)
  case (Cons p vs)
  obtain fid v where p: "p = (fid, v)" by force
  with Cons.prems obtain x where
    rest: "normalize_inputs date_iso flds vs (dset fid x acc) = Inr out"
    by (auto simp del: normalize_input.simps split: option.splits sum.splits)
  have "dom (dget (dset fid x acc)) = insert fid (dom (dget acc))" by auto
  with Cons.IH [OF rest] p show ?case by simp
qed simp

text \<open>The values an accepted field may hold, per input type.\<close>

fun input_well_typed :: "RunInputField \<Rightarrow> json \<Rightarrow> bool" where
  "input_well_typed f v =
     (case if_input_type f of
        In_text \<Rightarrow> (case v of JStr s \<Rightarrow> s \<noteq> [] \<and> length s \<le> 2000 | _ \<Rightarrow> False)
      | In_date \<Rightarrow> (case v of JStr _ \<Rightarrow> True | _ \<Rightarrow> False)
      | In_number \<Rightarrow> (case v of JInt _ \<Rightarrow> True | JFloat (PyFinite _) \<Rightarrow> True | _ \<Rightarrow> False)
      | In_single_select \<Rightarrow> (case v of JStr s \<Rightarrow> s \<in> set (if_options f) | _ \<Rightarrow> False)
      | In_multi_select \<Rightarrow>
          (case v of JList xs \<Rightarrow> all_str_in (if_options f) xs \<and> distinct xs | _ \<Rightarrow> False)
      | In_confirmation \<Rightarrow> (case v of JBool _ \<Rightarrow> True | _ \<Rightarrow> False))"

lemma normalize_input_well_typed:
  "normalize_input date_iso f v = Inr w \<Longrightarrow> input_well_typed f w"
  by (auto split: InputType.splits json.splits option.splits pyfloat.splits if_splits
      intro: order_trans [OF length_py_strip])

lemma normalize_inputs_well_typed:
  assumes "normalize_inputs date_iso flds vs acc = Inr out"
    and "\<And>k w. dget acc k = Some w \<Longrightarrow> \<exists>f. dget flds k = Some f \<and> input_well_typed f w"
    and "dget out k = Some w"
  shows "\<exists>f. dget flds k = Some f \<and> input_well_typed f w"
  using assms
proof (induction vs arbitrary: acc)
  case Nil
  then show ?case by simp
next
  case (Cons p vs)
  obtain fid v where p: "p = (fid, v)" by force
  with Cons.prems(1) obtain f x where f: "dget flds fid = Some f"
    and x: "normalize_input date_iso f v = Inr x"
    and rest: "normalize_inputs date_iso flds vs (dset fid x acc) = Inr out"
    by (auto simp del: normalize_input.simps split: option.splits sum.splits)
  show ?case
  proof (rule Cons.IH [OF rest])
    fix k w
    assume "dget (dset fid x acc) k = Some w"
    then show "\<exists>f. dget flds k = Some f \<and> input_well_typed f w"
      using f normalize_input_well_typed [OF x] Cons.prems(2)
      by (auto simp del: input_well_typed.simps split: if_splits)
  qed (rule Cons.prems(3))
qed

lemma validate_run_input_values_parts:
  assumes "validate_run_input_values date_iso pending values = Inr out"
  shows "dom (dget out) = fst ` set values"
    and "\<forall>f \<in> set (pi_fields pending). if_required f \<longrightarrow> dget out (if_field_id f) \<noteq> None"
    and "\<forall>k w. dget out k = Some w \<longrightarrow>
           (\<exists>f \<in> set (pi_fields pending). if_field_id f = k \<and> input_well_typed f w)"
proof -
  let ?flds = "input_fields pending"
  from assms have n: "normalize_inputs date_iso ?flds values [] = Inr out"
    and req: "\<not> list_ex (\<lambda>f. if_required f \<and> dget values (if_field_id f) = None) (pi_fields pending)"
    by (auto simp: validate_run_input_values_def Let_def split: if_splits)
  show keys: "dom (dget out) = fst ` set values"
    using normalize_inputs_keys [OF n] by simp
  show "\<forall>f \<in> set (pi_fields pending). if_required f \<longrightarrow> dget out (if_field_id f) \<noteq> None"
  proof (intro ballI impI)
    fix f
    assume "f \<in> set (pi_fields pending)" "if_required f"
    with req have "dget values (if_field_id f) \<noteq> None" by (auto simp: list_ex_iff)
    then have "if_field_id f \<in> fst ` set values" by (simp add: map_of_eq_None_iff)
    with keys show "dget out (if_field_id f) \<noteq> None" by blast
  qed
  show "\<forall>k w. dget out k = Some w \<longrightarrow>
      (\<exists>f \<in> set (pi_fields pending). if_field_id f = k \<and> input_well_typed f w)"
    using normalize_inputs_well_typed [OF n] input_fields_Some
    by (metis map_of.simps(1) option.distinct(1))
qed

definition demo_pending :: RunPendingInput where
  "demo_pending = \<lparr>pi_request_id = ''input_1'', pi_prompt = ''p'',
     pi_fields = [\<lparr>if_field_id = ''destination'', if_label = ''d'', if_input_type = In_text,
                   if_required = True, if_options = []\<rparr>,
                  \<lparr>if_field_id = ''adults'', if_label = ''a'', if_input_type = In_number,
                   if_required = False, if_options = []\<rparr>],
     pi_expires_at = 100\<rparr>"

text \<open>
  An accepted resume payload is well typed: it answers exactly the keys supplied, every key
  is a field of the pending request, every required field is answered, and each stored value has
  the type of its field (text stripped and at most 2000 characters, options taken from the list,
  finite numbers, booleans).
\<close>

theorem validate_run_input_values_sound:
  assumes "validate_run_input_values date_iso pending values = Inr out"
  shows "dom (dget out) = fst ` set values \<and>
         (\<forall>f \<in> set (pi_fields pending). if_required f \<longrightarrow> dget out (if_field_id f) \<noteq> None) \<and>
         (\<forall>k w. dget out k = Some w \<longrightarrow>
           (\<exists>f \<in> set (pi_fields pending). if_field_id f = k \<and> input_well_typed f w))"
  using validate_run_input_values_parts [OF assms] by blast

theorem validate_run_input_values_sound_witness:
  "validate_run_input_values Some demo_pending [(''destination'', JStr '' Xian '')] =
     Inr [(''destination'', JStr ''Xian'')] \<and>
   dom (dget [(''destination'', JStr ''Xian'')]) = {''destination''}"
proof -
  have v: "validate_run_input_values Some demo_pending [(''destination'', JStr '' Xian '')] =
     Inr [(''destination'', JStr ''Xian'')]"
    by (simp add: validate_run_input_values_def demo_pending_def input_fields_def py_strip_def
        py_isspace_def)
  show ?thesis using validate_run_input_values_sound [OF v] v by simp
qed

text \<open>
  The number branch is not total over its own error contract: an integer too large for a
  double leaves \<open>validate_run_input_values\<close> through \<^verbatim>\<open>OverflowError\<close>, which is not a \<^verbatim>\<open>ValueError\<close>.
\<close>

theorem number_input_overflow_escapes:
  "validate_run_input_values date_iso demo_pending
     [(''destination'', JStr ''Xian''), (''adults'', JInt (10 ^ 400))] = Inl OverflowError"
proof -
  have "float_overflows (10 ^ 400)" by (simp add: float_overflows_def)
  then show ?thesis
    by (simp add: validate_run_input_values_def demo_pending_def input_fields_def py_strip_def
        py_isspace_def del: power_numeral)
qed

end
