(* ===== verification/Platform_Store.thy ===== *)
theory Platform_Store
  imports V1_Models
begin

text \<open>
  The reference store of the product control plane, \<^verbatim>\<open>backend/moyuan_web/v1/store.py\<close>: the error
  classes, the execution lease, the request guards and every operation of
  \<^verbatim>\<open>InMemoryPlatformStore\<close>. Each operation runs under the store's single condition lock, so it is
  one atomic function on the store; \<open>now\<close> is the value of \<^verbatim>\<open>utc_now()\<close> and \<open>rid\<close>, \<open>eid\<close>, \<open>tid\<close>,
  \<open>aid\<close> are the values of \<^verbatim>\<open>new_public_id\<close> at that call. An operation that reads the clock twice
  takes both readings. Deep copies handed to callers are values here.
\<close>

section \<open>Errors and leases\<close>

datatype store_error =
    ResourceNotFound
  | ResourceForbidden
  | VersionConflict int
  | IdempotencyConflict
  | ArtifactTransitionConflict int ArtifactStatus ArtifactCommandType
  | ArtifactReadOnly string int
  | ArtifactContentInvalid int
  | RunExecutionBusy
  | RunExecutionLeaseLost
  | RunInputExpired
  | RunInputInvalid
  | StoreValueError
  | StoreOverflowError
  | StoreKeyError

record RunExecutionLease =
  le_run_id :: string
  le_owner :: string
  le_attempt :: int
  le_lease_until :: instant

record IdempotentRunResult =
  ir_run :: RunView
  ir_event :: "RunEvent option"
  ir_replayed :: bool

record IdempotentArtifactResult =
  ia_artifact :: ArtifactView
  ia_replayed :: bool

record platform_store =
  st_trips :: "(string, TripView) dict"
  st_runs :: "(string, RunView) dict"
  st_events :: "(string, RunEvent list) dict"
  st_artifacts :: "(string, ArtifactView list) dict"
  st_idempotency :: "(string \<times> string \<times> string, string \<times> string) dict"
  st_run_control_idempotency :: "(string \<times> string \<times> string \<times> string, string \<times> string) dict"
  st_artifact_idempotency :: "(string \<times> string \<times> string \<times> string, string \<times> ArtifactView) dict"
  st_members :: "(string \<times> string, TripMemberView) dict"
  st_execution_leases :: "(string, RunExecutionLease) dict"
  st_execution_attempts :: "(string, int) dict"

type_synonym 'a store_op = "(platform_store, store_error, 'a) eff"

definition empty_store :: platform_store where
  "empty_store = \<lparr>st_trips = [], st_runs = [], st_events = [], st_artifacts = [],
     st_idempotency = [], st_run_control_idempotency = [], st_artifact_idempotency = [],
     st_members = [], st_execution_leases = [], st_execution_attempts = []\<rparr>"

section \<open>Request guards\<close>

text \<open>Lease durations are microseconds: 0.05 s is 50000 and 3600 s is 3600000000.\<close>

definition validate_execution_lease_request :: "string \<Rightarrow> int \<Rightarrow> bool" where
  "validate_execution_lease_request owner lease_us \<longleftrightarrow>
     \<not> (owner = [] \<or> length owner > 128) \<and> 50000 \<le> lease_us \<and> lease_us \<le> 3600000000"

definition CONTRACT_MODELS :: "string list" where
  "CONTRACT_MODELS =
     [''TravelQuestion@1'', ''TravelAnswer@1'', ''TripBrief@1'', ''EvidenceBundle@1'',
      ''CandidateSet@1'', ''ItineraryPlan@1'', ''ConstraintReport@1'', ''SemanticRiskReport@1'',
      ''ValidationReport@1'', ''TripSnapshot@1'', ''ShareSnapshot@1'']"

definition contract_id :: "ArtifactView \<Rightarrow> string" where
  "contract_id a = av_artifact_type a @ ''@'' @ show_int (av_schema_version a)"

definition ensure_artifact_mutable :: "ArtifactView \<Rightarrow> store_error + unit" where
  "ensure_artifact_mutable cur =
     (if contract_id cur \<notin> set CONTRACT_MODELS
      then Inl (ArtifactReadOnly (av_artifact_type cur) (av_version cur)) else Inr ())"

text \<open>
  \<open>validate_contract c payload\<close> is the pydantic validation followed by \<^verbatim>\<open>model_dump(mode="json")\<close>;
  \<^term>\<open>None\<close> when it raises \<^verbatim>\<open>TypeError\<close> or \<^verbatim>\<open>ValueError\<close>.
\<close>

definition header_matches :: "ArtifactView \<Rightarrow> jobj \<Rightarrow> bool" where
  "header_matches cur content \<longleftrightarrow>
     (case dget content ''artifact_id'' of Some v \<Rightarrow> py_eq_str v (av_artifact_id cur) | None \<Rightarrow> False) \<and>
     (case dget content ''artifact_type'' of Some v \<Rightarrow> py_eq_str v (av_artifact_type cur) | None \<Rightarrow> False) \<and>
     (case dget content ''schema_version'' of Some v \<Rightarrow> py_eq_int v (av_schema_version cur) | None \<Rightarrow> False) \<and>
     (case dget content ''version'' of Some v \<Rightarrow> py_eq_int v (av_version cur + 1) | None \<Rightarrow> False)"

definition validate_artifact_patch_content ::
    "(string \<Rightarrow> jobj \<Rightarrow> jobj option) \<Rightarrow> ArtifactView \<Rightarrow> ArtifactPatchRequest \<Rightarrow> store_error + jobj" where
  "validate_artifact_patch_content validate_contract cur request =
     (case ensure_artifact_mutable cur of
        Inl e \<Rightarrow> Inl e
      | Inr _ \<Rightarrow>
          if \<not> header_matches cur (ap_content request)
          then Inl (ArtifactContentInvalid (av_version cur))
          else (case validate_contract (contract_id cur) (ap_content request) of
                  None \<Rightarrow> Inl (ArtifactContentInvalid (av_version cur))
                | Some dumped \<Rightarrow> Inr dumped))"

section \<open>Scoped lookups\<close>

definition assert_tenant :: "Principal \<Rightarrow> string \<Rightarrow> store_error + unit" where
  "assert_tenant p tenant = (if pr_tenant_id p \<noteq> tenant then Inl ResourceNotFound else Inr ())"

definition is_admin :: "Principal \<Rightarrow> bool" where
  "is_admin p \<longleftrightarrow> pr_roles p \<inter> {''admin'', ''tenant_admin''} \<noteq> {}"

definition trip_locked :: "platform_store \<Rightarrow> Principal \<Rightarrow> string \<Rightarrow> bool \<Rightarrow> store_error + TripView" where
  "trip_locked s p tid write =
     (case dget (st_trips s) tid of
        None \<Rightarrow> Inl ResourceNotFound
      | Some trip \<Rightarrow>
          (case assert_tenant p (tv_tenant_id trip) of
             Inl e \<Rightarrow> Inl e
           | Inr _ \<Rightarrow>
               if tv_owner_id trip = pr_user_id p \<or> is_admin p then Inr trip
               else (case dget (st_members s) (tid, pr_user_id p) of
                       None \<Rightarrow> Inl ResourceForbidden
                     | Some m \<Rightarrow> if write \<and> tm_role m \<noteq> Role_EDITOR then Inl ResourceForbidden
                                 else Inr trip)))"

definition run_locked :: "platform_store \<Rightarrow> Principal \<Rightarrow> string \<Rightarrow> store_error + RunView" where
  "run_locked s p run_id =
     (case dget (st_runs s) run_id of
        None \<Rightarrow> Inl ResourceNotFound
      | Some run \<Rightarrow>
          (case assert_tenant p (rv_tenant_id run) of
             Inl e \<Rightarrow> Inl e
           | Inr _ \<Rightarrow>
               (case trip_locked s p (rv_trip_id run) False of
                  Inl e \<Rightarrow> Inl e
                | Inr _ \<Rightarrow> Inr run)))"

definition assert_execution_lease_locked ::
    "platform_store \<Rightarrow> Principal \<Rightarrow> RunExecutionLease \<Rightarrow> string option \<Rightarrow> instant \<Rightarrow> store_error + RunView"
where
  "assert_execution_lease_locked s p lease trip_id now =
     (case run_locked s p (le_run_id lease) of
        Inl e \<Rightarrow> Inl e
      | Inr run \<Rightarrow>
          (case dget (st_execution_leases s) (le_run_id lease) of
             None \<Rightarrow> Inl RunExecutionLeaseLost
           | Some cur \<Rightarrow>
               if le_owner cur \<noteq> le_owner lease \<or> le_attempt cur \<noteq> le_attempt lease \<or>
                  le_lease_until cur \<le> now \<or> rv_lifecycle_state run \<notin> {QUEUED, RUNNING} \<or>
                  (case trip_id of None \<Rightarrow> False | Some t \<Rightarrow> rv_trip_id run \<noteq> t)
               then Inl RunExecutionLeaseLost
               else Inr run))"

text \<open>\<^verbatim>\<open>max(versions, key=version)\<close>: the first element of greatest version.\<close>

fun latest_version :: "ArtifactView \<Rightarrow> ArtifactView list \<Rightarrow> ArtifactView" where
  "latest_version best [] = best"
| "latest_version best (a # as) =
     latest_version (if av_version best < av_version a then a else best) as"

definition artifact_locked ::
    "platform_store \<Rightarrow> Principal \<Rightarrow> string \<Rightarrow> int option \<Rightarrow> bool \<Rightarrow> store_error + ArtifactView" where
  "artifact_locked s p aid version write =
     (case dget (st_artifacts s) aid of
        None \<Rightarrow> Inl ResourceNotFound
      | Some [] \<Rightarrow> Inl ResourceNotFound
      | Some (a # as) \<Rightarrow>
          (case (case version of
                   None \<Rightarrow> Some (latest_version a as)
                 | Some v \<Rightarrow> find (\<lambda>i. av_version i = v) (a # as)) of
             None \<Rightarrow> Inl ResourceNotFound
           | Some resolved \<Rightarrow>
               (case assert_tenant p (av_tenant_id resolved) of
                  Inl e \<Rightarrow> Inl e
                | Inr _ \<Rightarrow>
                    (case trip_locked s p (av_trip_id resolved) write of
                       Inl e \<Rightarrow> Inl e
                     | Inr _ \<Rightarrow> Inr resolved))))"

definition events_of :: "platform_store \<Rightarrow> string \<Rightarrow> RunEvent list" where
  "events_of s run_id = (case dget (st_events s) run_id of None \<Rightarrow> [] | Some es \<Rightarrow> es)"

definition append_event_locked ::
    "RunView \<Rightarrow> EventType \<Rightarrow> jobj \<Rightarrow> string \<Rightarrow> instant \<Rightarrow> string \<Rightarrow> platform_store \<Rightarrow> RunEvent \<times> platform_store"
where
  "append_event_locked run ty data trace_id occurred_at eid s =
     (let events = events_of s (rv_run_id run);
          event = \<lparr>ev_event_id = eid, ev_seq = int (length events) + 1, ev_type = ty,
                   ev_occurred_at = occurred_at, ev_trip_id = rv_trip_id run,
                   ev_run_id = rv_run_id run, ev_trace_id = trace_id, ev_data = data\<rparr>
      in (event, s\<lparr>st_events := dset (rv_run_id run) (events @ [event]) (st_events s)\<rparr>))"

section \<open>Trips and members\<close>

definition create_trip ::
    "Principal \<Rightarrow> TripCreateRequest \<Rightarrow> instant \<Rightarrow> string \<Rightarrow> TripView store_op" where
  "create_trip p request now tid s =
     (let trip = \<lparr>tv_trip_id = tid, tv_tenant_id = pr_tenant_id p, tv_owner_id = pr_user_id p,
                  tv_title = Some (tc_title request), tv_locale = Some (tc_locale request),
                  tv_timezone = Some (tc_timezone request), tv_status = Trip_ACTIVE,
                  tv_version = 1, tv_current_artifact_id = None,
                  tv_current_artifact_version = None, tv_created_at = now, tv_updated_at = now\<rparr>;
          member = \<lparr>tm_trip_id = tid, tm_tenant_id = pr_tenant_id p, tm_user_id = pr_user_id p,
                    tm_role = Role_OWNER, tm_version = 1, tm_created_at = now, tm_updated_at = now\<rparr>
      in (Inr trip, s\<lparr>st_trips := dset tid trip (st_trips s),
                      st_members := dset (tid, pr_user_id p) member (st_members s)\<rparr>))"

definition list_trips :: "platform_store \<Rightarrow> Principal \<Rightarrow> TripView list" where
  "list_trips s p =
     rev (sort_key (\<lambda>t. (tv_updated_at t, tv_trip_id t))
       (rev (filter (\<lambda>t. tv_tenant_id t = pr_tenant_id p \<and>
                (tv_owner_id t = pr_user_id p \<or> is_admin p \<or>
                 dget (st_members s) (tv_trip_id t, pr_user_id p) \<noteq> None))
          (map snd (st_trips s)))))"

definition get_trip :: "Principal \<Rightarrow> string \<Rightarrow> TripView store_op" where
  "get_trip p tid = elift (\<lambda>s. trip_locked s p tid False)"

definition apply_trip_patch :: "TripPatchRequest \<Rightarrow> TripView \<Rightarrow> TripView" where
  "apply_trip_patch r t =
     t\<lparr>tv_title := (case tp_title r of None \<Rightarrow> tv_title t | Some v \<Rightarrow> v),
       tv_locale := (case tp_locale r of None \<Rightarrow> tv_locale t | Some v \<Rightarrow> v),
       tv_timezone := (case tp_timezone r of None \<Rightarrow> tv_timezone t | Some v \<Rightarrow> v)\<rparr>"

definition patch_trip ::
    "Principal \<Rightarrow> string \<Rightarrow> TripPatchRequest \<Rightarrow> instant \<Rightarrow> TripView store_op" where
  "patch_trip p tid request now s =
     (case trip_locked s p tid True of
        Inl e \<Rightarrow> (Inl e, s)
      | Inr cur \<Rightarrow>
          let updated = (apply_trip_patch request cur)
                \<lparr>tv_version := tv_version cur + 1, tv_updated_at := now\<rparr>
          in (Inr updated, s\<lparr>st_trips := dset tid updated (st_trips s)\<rparr>))"

definition set_trip_status ::
    "Principal \<Rightarrow> string \<Rightarrow> TripStatus \<Rightarrow> instant \<Rightarrow> TripView store_op" where
  "set_trip_status p tid status now s =
     (case trip_locked s p tid True of
        Inl e \<Rightarrow> (Inl e, s)
      | Inr cur \<Rightarrow>
          let updated = cur\<lparr>tv_status := status, tv_version := tv_version cur + 1,
                            tv_updated_at := now\<rparr>
          in (Inr updated, s\<lparr>st_trips := dset tid updated (st_trips s)\<rparr>))"

definition list_trip_members ::
    "platform_store \<Rightarrow> Principal \<Rightarrow> string \<Rightarrow> store_error + TripMemberView list" where
  "list_trip_members s p tid =
     (case trip_locked s p tid False of
        Inl e \<Rightarrow> Inl e
      | Inr _ \<Rightarrow>
          Inr (sort_key (\<lambda>m. (tm_role m \<noteq> Role_OWNER, tm_user_id m))
            (map snd (filter (\<lambda>((mt, _), m). mt = tid \<and> tm_tenant_id m = pr_tenant_id p)
               (st_members s)))))"

definition member_record ::
    "Principal \<Rightarrow> string \<Rightarrow> string \<Rightarrow> MemberGrant \<Rightarrow> instant \<Rightarrow> TripMemberView option \<Rightarrow> TripMemberView" where
  "member_record p tid user_id grant now cur =
     \<lparr>tm_trip_id = tid, tm_tenant_id = pr_tenant_id p, tm_user_id = user_id,
      tm_role = grant_role grant,
      tm_version = (case cur of None \<Rightarrow> 1 | Some m \<Rightarrow> tm_version m + 1),
      tm_created_at = (case cur of None \<Rightarrow> now | Some m \<Rightarrow> tm_created_at m),
      tm_updated_at = now\<rparr>"

definition upsert_trip_member ::
    "Principal \<Rightarrow> string \<Rightarrow> string \<Rightarrow> MemberGrant \<Rightarrow> instant \<Rightarrow> TripMemberView store_op" where
  "upsert_trip_member p tid user_id grant now s =
     (if user_id = [] \<or> length user_id > 128 then (Inl ResourceNotFound, s)
      else case trip_locked s p tid True of
        Inl e \<Rightarrow> (Inl e, s)
      | Inr trip \<Rightarrow>
          if tv_owner_id trip \<noteq> pr_user_id p \<and> \<not> is_admin p then (Inl ResourceForbidden, s)
          else if user_id = tv_owner_id trip then (Inl (VersionConflict (tv_version trip)), s)
          else
            let member = member_record p tid user_id grant now (dget (st_members s) (tid, user_id))
            in (Inr member, s\<lparr>st_members := dset (tid, user_id) member (st_members s)\<rparr>))"

definition remove_trip_member :: "Principal \<Rightarrow> string \<Rightarrow> string \<Rightarrow> unit store_op" where
  "remove_trip_member p tid user_id s =
     (case trip_locked s p tid True of
        Inl e \<Rightarrow> (Inl e, s)
      | Inr trip \<Rightarrow>
          if tv_owner_id trip \<noteq> pr_user_id p \<and> \<not> is_admin p then (Inl ResourceForbidden, s)
          else if user_id = tv_owner_id trip then (Inl (VersionConflict (tv_version trip)), s)
          else if dget (st_members s) (tid, user_id) = None then (Inl ResourceNotFound, s)
          else (Inr (), s\<lparr>st_members := dpop (tid, user_id) (st_members s)\<rparr>))"

section \<open>Runs\<close>

definition current_snapshot :: "platform_store \<Rightarrow> TripView \<Rightarrow> ArtifactView option" where
  "current_snapshot s trip =
     (case tv_current_artifact_id trip of
        None \<Rightarrow> None
      | Some aid \<Rightarrow>
          find (\<lambda>i. Some (av_version i) = tv_current_artifact_version trip)
            (case dget (st_artifacts s) aid of None \<Rightarrow> [] | Some vs \<Rightarrow> vs))"

definition is_published_snapshot :: "ArtifactView \<Rightarrow> bool" where
  "is_published_snapshot a \<longleftrightarrow> av_artifact_type a = ''TripSnapshot'' \<and> av_status a = PUBLISHED"

text \<open>The command-specific guard of \<open>create_run\<close>: \<^term>\<open>Some v\<close> is \<^verbatim>\<open>VersionConflict(v)\<close>.\<close>

definition create_run_conflict ::
    "platform_store \<Rightarrow> TripView \<Rightarrow> RunCommand \<Rightarrow> string option \<Rightarrow> int option \<Rightarrow> int option" where
  "create_run_conflict s trip command base_id base_version =
     (let snap = current_snapshot s trip in
      if rc_type command = Trip_plan then
        (case snap of
           None \<Rightarrow> None
         | Some a \<Rightarrow> if is_published_snapshot a then Some (av_version a) else None)
      else if rc_type command = Trip_replan then
        (let current_version = (case tv_current_artifact_version trip of
                                  None \<Rightarrow> 1 | Some v \<Rightarrow> if v = 0 then 1 else v)
         in (case snap of
               None \<Rightarrow> Some current_version
             | Some a \<Rightarrow>
                 if \<not> is_published_snapshot a \<or> Some (av_artifact_id a) \<noteq> base_id \<or>
                    Some (av_version a) \<noteq> base_version
                 then Some current_version else None))
      else None)"

definition initial_run ::
    "Principal \<Rightarrow> string \<Rightarrow> RunCommand \<Rightarrow> string option \<Rightarrow> int option \<Rightarrow> string \<Rightarrow> instant \<Rightarrow> string \<Rightarrow> RunView"
where
  "initial_run p tid command base_id base_version trace_id now rid =
     \<lparr>rv_run_id = rid, rv_trip_id = tid, rv_tenant_id = pr_tenant_id p, rv_actor_id = pr_user_id p,
      rv_trace_id = trace_id, rv_lifecycle_state = QUEUED, rv_phase = ''accepted'',
      rv_control_version = 1, rv_command = command, rv_base_artifact_id = base_id,
      rv_base_artifact_version = base_version, rv_pending_input = None,
      rv_result_artifact_id = None, rv_result_artifact_version = None,
      rv_public_error_code = None, rv_created_at = now, rv_updated_at = now\<rparr>"

definition create_run ::
    "Principal \<Rightarrow> string \<Rightarrow> RunCommand \<Rightarrow> string option \<Rightarrow> int option \<Rightarrow> string \<Rightarrow> string \<Rightarrow> string \<Rightarrow>
     instant \<Rightarrow> string \<Rightarrow> string \<Rightarrow> IdempotentRunResult store_op" where
  "create_run p tid command base_id base_version idem_key request_hash trace_id now rid eid s =
     (case trip_locked s p tid True of
        Inl e \<Rightarrow> (Inl e, s)
      | Inr trip \<Rightarrow>
          if tv_status trip \<noteq> Trip_ACTIVE then (Inl (VersionConflict (tv_version trip)), s)
          else
            let scope = (pr_tenant_id p, pr_user_id p, idem_key) in
            case dget (st_idempotency s) scope of
              Some (existing_hash, existing_run_id) \<Rightarrow>
                if existing_hash \<noteq> request_hash then (Inl IdempotencyConflict, s)
                else (case dget (st_runs s) existing_run_id of
                        None \<Rightarrow> (Inl StoreKeyError, s)
                      | Some run \<Rightarrow>
                          (Inr \<lparr>ir_run = run, ir_event = None, ir_replayed = True\<rparr>, s))
            | None \<Rightarrow>
                (case create_run_conflict s trip command base_id base_version of
                   Some v \<Rightarrow> (Inl (VersionConflict v), s)
                 | None \<Rightarrow>
                     let run = initial_run p (tv_trip_id trip) command base_id base_version
                                 trace_id now rid;
                         s1 = s\<lparr>st_runs := dset rid run (st_runs s),
                                st_events := dset rid [] (st_events s)\<rparr>;
                         (event, s2) = append_event_locked run Ev_run_accepted
                           [(''lifecycle_state'', JStr (lifecycle_value QUEUED)),
                            (''phase'', JStr ''accepted''), (''control_version'', JInt 1)]
                           trace_id now eid s1
                     in (Inr \<lparr>ir_run = run, ir_event = Some event, ir_replayed = False\<rparr>,
                         s2\<lparr>st_idempotency := dset scope (request_hash, rid) (st_idempotency s2)\<rparr>)))"

definition get_run :: "Principal \<Rightarrow> string \<Rightarrow> RunView store_op" where
  "get_run p run_id = elift (\<lambda>s. run_locked s p run_id)"

definition claim_run_execution ::
    "Principal \<Rightarrow> string \<Rightarrow> string \<Rightarrow> int \<Rightarrow> instant \<Rightarrow> RunExecutionLease option store_op" where
  "claim_run_execution p run_id owner lease_us now s =
     (if \<not> validate_execution_lease_request owner lease_us then (Inl StoreValueError, s)
      else case run_locked s p run_id of
        Inl e \<Rightarrow> (Inl e, s)
      | Inr run \<Rightarrow>
          if rv_lifecycle_state run \<notin> {QUEUED, RUNNING} then (Inr None, s)
          else if (case dget (st_execution_leases s) run_id of
                     None \<Rightarrow> False | Some cur \<Rightarrow> le_lease_until cur > now)
          then (Inr None, s)
          else
            let attempt = (case dget (st_execution_attempts s) run_id of None \<Rightarrow> 0 | Some n \<Rightarrow> n) + 1;
                lease = \<lparr>le_run_id = run_id, le_owner = owner, le_attempt = attempt,
                         le_lease_until = now + lease_us\<rparr>
            in (Inr (Some lease),
                s\<lparr>st_execution_attempts := dset run_id attempt (st_execution_attempts s),
                  st_execution_leases := dset run_id lease (st_execution_leases s)\<rparr>))"

definition renew_run_execution ::
    "Principal \<Rightarrow> RunExecutionLease \<Rightarrow> int \<Rightarrow> instant \<Rightarrow> instant \<Rightarrow> RunExecutionLease option store_op" where
  "renew_run_execution p lease lease_us now now' s =
     (if \<not> validate_execution_lease_request (le_owner lease) lease_us then (Inl StoreValueError, s)
      else case assert_execution_lease_locked s p lease None now of
        Inl RunExecutionLeaseLost \<Rightarrow> (Inr None, s)
      | Inl e \<Rightarrow> (Inl e, s)
      | Inr _ \<Rightarrow>
          let renewed = \<lparr>le_run_id = le_run_id lease, le_owner = le_owner lease,
                         le_attempt = le_attempt lease, le_lease_until = now' + lease_us\<rparr>
          in (Inr (Some renewed),
              s\<lparr>st_execution_leases := dset (le_run_id lease) renewed (st_execution_leases s)\<rparr>))"

definition release_run_execution :: "Principal \<Rightarrow> RunExecutionLease \<Rightarrow> bool store_op" where
  "release_run_execution p lease s =
     (case run_locked s p (le_run_id lease) of
        Inl e \<Rightarrow> (Inl e, s)
      | Inr _ \<Rightarrow>
          (case dget (st_execution_leases s) (le_run_id lease) of
             None \<Rightarrow> (Inr False, s)
           | Some cur \<Rightarrow>
               if le_owner cur \<noteq> le_owner lease \<or> le_attempt cur \<noteq> le_attempt lease
               then (Inr False, s)
               else (Inr True, s\<lparr>st_execution_leases :=
                                   dpop (le_run_id lease) (st_execution_leases s)\<rparr>)))"

text \<open>The superseding loops over \<^verbatim>\<open>self._artifacts.values()\<close>, with their own filter each.\<close>

definition supersede_where :: "(ArtifactView \<Rightarrow> bool) \<Rightarrow> platform_store \<Rightarrow> platform_store" where
  "supersede_where P s =
     s\<lparr>st_artifacts := dmap (map (\<lambda>a. if P a then a\<lparr>av_status := SUPERSEDED\<rparr> else a)) (st_artifacts s)\<rparr>"

definition same_version_of :: "ArtifactView \<Rightarrow> ArtifactView \<Rightarrow> bool" where
  "same_version_of a c \<longleftrightarrow> av_artifact_id c = av_artifact_id a \<and> av_version c = av_version a"

text \<open>
  The publication part of \<open>mutate_run\<close>. It is a state-and-exception computation: the Artifact
  status changes are already made when the last \<open>trip_locked\<close> check raises.
\<close>

definition publish_result ::
    "Principal \<Rightarrow> RunView \<Rightarrow> ArtifactView \<Rightarrow> instant \<Rightarrow> unit store_op" where
  "publish_result p cur result now s =
     (case dget (st_artifacts s) (av_artifact_id result) of
        None \<Rightarrow> (Inl ResourceNotFound, s)
      | Some versions \<Rightarrow>
          (case find (\<lambda>i. av_version i = av_version result) versions of
             None \<Rightarrow> (Inl ResourceNotFound, s)
           | Some stored \<Rightarrow>
               if av_trip_id stored \<noteq> rv_trip_id cur then (Inl ResourceNotFound, s)
               else
                 let published = stored\<lparr>av_status := PUBLISHED\<rparr>;
                     s1 = s\<lparr>st_artifacts := dset (av_artifact_id result)
                             (replace_first stored published versions) (st_artifacts s)\<rparr>
                 in if av_artifact_type published = ''TripSnapshot'' then
                      let s2 = supersede_where (\<lambda>c. av_trip_id c = rv_trip_id cur \<and>
                            av_artifact_type c = ''TripSnapshot'' \<and> av_status c = PUBLISHED \<and>
                            \<not> same_version_of stored c) s1
                      in (case trip_locked s2 p (rv_trip_id cur) True of
                            Inl e \<Rightarrow> (Inl e, s2)
                          | Inr trip \<Rightarrow>
                              (Inr (), s2\<lparr>st_trips := dset (rv_trip_id cur)
                                 (trip\<lparr>tv_current_artifact_id := Some (av_artifact_id published),
                                       tv_current_artifact_version := Some (av_version published),
                                       tv_version := tv_version trip + 1,
                                       tv_updated_at := now\<rparr>) (st_trips s2)\<rparr>))
                    else (Inr (), s1)))"

record run_mutation =
  mu_lifecycle_state :: "RunLifecycle option"
  mu_phase :: "string option"
  mu_pending_input :: "RunPendingInput option"
  mu_result_artifact :: "ArtifactView option"
  mu_public_error_code :: "string option"

definition apply_mutation :: "run_mutation \<Rightarrow> instant \<Rightarrow> RunView \<Rightarrow> RunView" where
  "apply_mutation m now r =
     r\<lparr>rv_control_version := rv_control_version r + 1, rv_updated_at := now,
       rv_lifecycle_state := (case mu_lifecycle_state m of None \<Rightarrow> rv_lifecycle_state r | Some x \<Rightarrow> x),
       rv_phase := (case mu_phase m of None \<Rightarrow> rv_phase r | Some x \<Rightarrow> x),
       rv_pending_input := (case mu_pending_input m of None \<Rightarrow> rv_pending_input r | Some x \<Rightarrow> Some x),
       rv_public_error_code :=
         (case mu_public_error_code m of None \<Rightarrow> rv_public_error_code r | Some x \<Rightarrow> Some x),
       rv_result_artifact_id :=
         (case mu_result_artifact m of None \<Rightarrow> rv_result_artifact_id r
          | Some a \<Rightarrow> Some (av_artifact_id a)),
       rv_result_artifact_version :=
         (case mu_result_artifact m of None \<Rightarrow> rv_result_artifact_version r
          | Some a \<Rightarrow> Some (av_version a))\<rparr>"

definition check_lease_for ::
    "Principal \<Rightarrow> string \<Rightarrow> RunExecutionLease option \<Rightarrow> instant \<Rightarrow> platform_store \<Rightarrow> store_error + unit" where
  "check_lease_for p run_id lease now s =
     (case lease of
        None \<Rightarrow> Inr ()
      | Some l \<Rightarrow>
          if le_run_id l \<noteq> run_id then Inl RunExecutionLeaseLost
          else (case assert_execution_lease_locked s p l None now of
                  Inl e \<Rightarrow> Inl e | Inr _ \<Rightarrow> Inr ()))"

definition mutate_run ::
    "Principal \<Rightarrow> string \<Rightarrow> int \<Rightarrow> run_mutation \<Rightarrow> RunExecutionLease option \<Rightarrow> EventType \<Rightarrow> jobj \<Rightarrow>
     instant \<Rightarrow> instant \<Rightarrow> string \<Rightarrow> (RunView \<times> RunEvent) store_op" where
  "mutate_run p run_id expected m lease event_type event_data lease_now now eid s =
     (case run_locked s p run_id of
        Inl e \<Rightarrow> (Inl e, s)
      | Inr cur \<Rightarrow>
          (case check_lease_for p run_id lease lease_now s of
             Inl e \<Rightarrow> (Inl e, s)
           | Inr _ \<Rightarrow>
               if rv_control_version cur \<noteq> expected
               then (Inl (VersionConflict (rv_control_version cur)), s)
               else
                 (case (case mu_result_artifact m of
                          None \<Rightarrow> (Inr (), s)
                        | Some a \<Rightarrow> publish_result p cur a now s) of
                    (Inl e, s1) \<Rightarrow> (Inl e, s1)
                  | (Inr _, s1) \<Rightarrow>
                      let updated = apply_mutation m now cur;
                          s2 = s1\<lparr>st_runs := dset run_id updated (st_runs s1)\<rparr>;
                          s3 = (if rv_lifecycle_state updated \<in>
                                  TERMINAL_RUN_STATES \<union> {CANCEL_REQUESTED, WAITING_INPUT}
                                then s2\<lparr>st_execution_leases := dpop run_id (st_execution_leases s2)\<rparr>
                                else s2);
                          (event, s4) = append_event_locked updated event_type
                            (dset ''control_version'' (JInt (rv_control_version updated)) event_data)
                            (rv_trace_id updated) now eid s3
                      in (Inr (updated, event), s4))))"

definition resumed_run :: "string \<Rightarrow> jobj \<Rightarrow> instant \<Rightarrow> RunView \<Rightarrow> RunView" where
  "resumed_run request_id normalized now cur =
     cur\<lparr>rv_lifecycle_state := QUEUED, rv_phase := ''accepted'',
         rv_control_version := rv_control_version cur + 1,
         rv_command := (rv_command cur)\<lparr>rc_payload :=
           dset ''resume_input''
             (JObj [(''request_id'', JStr request_id), (''values'', JObj normalized)])
             (rc_payload (rv_command cur))\<rparr>,
         rv_pending_input := None, rv_updated_at := now\<rparr>"

definition resume_run ::
    "(string \<Rightarrow> string option) \<Rightarrow> Principal \<Rightarrow> string \<Rightarrow> int \<Rightarrow> string \<Rightarrow> jobj \<Rightarrow> string \<Rightarrow> string \<Rightarrow>
     instant \<Rightarrow> instant \<Rightarrow> string \<Rightarrow> IdempotentRunResult store_op" where
  "resume_run date_iso p run_id expected request_id values idem_key request_hash check_now now eid s =
     (case run_locked s p run_id of
        Inl e \<Rightarrow> (Inl e, s)
      | Inr cur \<Rightarrow>
          let scope = (pr_tenant_id p, pr_user_id p, ''run.resume'', idem_key) in
          case dget (st_run_control_idempotency s) scope of
            Some (existing_hash, existing_run_id) \<Rightarrow>
              if existing_hash \<noteq> request_hash \<or> existing_run_id \<noteq> run_id
              then (Inl IdempotencyConflict, s)
              else (Inr \<lparr>ir_run = cur, ir_event = None, ir_replayed = True\<rparr>, s)
          | None \<Rightarrow>
              if rv_control_version cur \<noteq> expected
              then (Inl (VersionConflict (rv_control_version cur)), s)
              else if rv_lifecycle_state cur \<noteq> WAITING_INPUT then (Inl RunInputInvalid, s)
              else (case rv_pending_input cur of
                None \<Rightarrow> (Inl RunInputInvalid, s)
              | Some pending \<Rightarrow>
                  if pi_request_id pending \<noteq> request_id then (Inl RunInputInvalid, s)
                  else if pi_expires_at pending \<le> check_now then (Inl RunInputExpired, s)
                  else (case validate_run_input_values date_iso pending values of
                    Inl ValueError \<Rightarrow> (Inl RunInputInvalid, s)
                  | Inl OverflowError \<Rightarrow> (Inl StoreOverflowError, s)
                  | Inr normalized \<Rightarrow>
                      let updated = resumed_run request_id normalized now cur;
                          s1 = s\<lparr>st_runs := dset run_id updated (st_runs s)\<rparr>;
                          (event, s2) = append_event_locked updated Ev_run_lifecycle_changed
                            [(''previous_state'', JStr (lifecycle_value WAITING_INPUT)),
                             (''lifecycle_state'', JStr (lifecycle_value QUEUED)),
                             (''reason_code'', JStr ''INPUT_SUPPLIED''),
                             (''control_version'', JInt (rv_control_version updated))]
                            (rv_trace_id updated) now eid s1
                      in (Inr \<lparr>ir_run = updated, ir_event = Some event, ir_replayed = False\<rparr>,
                          s2\<lparr>st_run_control_idempotency :=
                               dset scope (request_hash, run_id) (st_run_control_idempotency s2)\<rparr>))))"

definition list_events ::
    "Principal \<Rightarrow> string \<Rightarrow> int \<Rightarrow> RunEvent list store_op" where
  "list_events p run_id after_seq = elift (\<lambda>s.
     case run_locked s p run_id of
       Inl e \<Rightarrow> Inl e
     | Inr _ \<Rightarrow> Inr (filter (\<lambda>ev. ev_seq ev > max 0 after_seq) (events_of s run_id)))"

text \<open>The predicate \<open>wait_for_events\<close> waits for; a wait returns \<^verbatim>\<open>True\<close> when it holds in time.\<close>

definition event_available ::
    "platform_store \<Rightarrow> Principal \<Rightarrow> string \<Rightarrow> int \<Rightarrow> store_error + bool" where
  "event_available s p run_id after_seq =
     (case run_locked s p run_id of
        Inl e \<Rightarrow> Inl e
      | Inr cur \<Rightarrow> Inr (list_ex (\<lambda>ev. ev_seq ev > after_seq) (events_of s run_id) \<or>
                       rv_lifecycle_state cur \<in> {COMPLETED, FAILED, CANCELED}))"

section \<open>Artifacts\<close>

definition initial_artifact ::
    "Principal \<Rightarrow> string \<Rightarrow> string \<Rightarrow> string \<Rightarrow> int \<Rightarrow> jobj \<Rightarrow> ArtifactStatus \<Rightarrow> int option \<Rightarrow> instant \<Rightarrow>
     ArtifactView" where
  "initial_artifact p tid aid artifact_type schema_version content status parent_version now =
     \<lparr>av_artifact_id = aid, av_version = 1, av_trip_id = tid, av_tenant_id = pr_tenant_id p,
      av_artifact_type = artifact_type, av_schema_version = schema_version, av_status = status,
      av_content = content, av_created_by = pr_user_id p, av_created_at = now,
      av_parent_version = parent_version\<rparr>"

definition create_artifact ::
    "Principal \<Rightarrow> string \<Rightarrow> string option \<Rightarrow> string \<Rightarrow> int \<Rightarrow> jobj \<Rightarrow> ArtifactStatus \<Rightarrow> int option \<Rightarrow>
     RunExecutionLease option \<Rightarrow> instant \<Rightarrow> instant \<Rightarrow> string \<Rightarrow> ArtifactView store_op" where
  "create_artifact p tid artifact_id artifact_type schema_version content status parent_version
     lease lease_now now aid s =
     (case trip_locked s p tid True of
        Inl e \<Rightarrow> (Inl e, s)
      | Inr _ \<Rightarrow>
          (case (case lease of None \<Rightarrow> Inr () | Some l \<Rightarrow>
                   (case assert_execution_lease_locked s p l (Some tid) lease_now of
                      Inl e \<Rightarrow> Inl e | Inr _ \<Rightarrow> Inr ())) of
             Inl e \<Rightarrow> (Inl e, s)
           | Inr _ \<Rightarrow>
               let resolved = (case artifact_id of None \<Rightarrow> aid | Some i \<Rightarrow> if i = [] then aid else i) in
               case dget (st_artifacts s) resolved of
                 Some vs \<Rightarrow> (Inl (VersionConflict (int (length vs))), s)
               | None \<Rightarrow>
                   let artifact = initial_artifact p tid resolved artifact_type schema_version
                         content status parent_version now
                   in (Inr artifact,
                       s\<lparr>st_artifacts := dset resolved [artifact] (st_artifacts s)\<rparr>)))"

definition list_artifacts ::
    "platform_store \<Rightarrow> Principal \<Rightarrow> string \<Rightarrow> store_error + ArtifactView list" where
  "list_artifacts s p tid =
     (case trip_locked s p tid False of
        Inl e \<Rightarrow> Inl e
      | Inr _ \<Rightarrow>
          Inr (rev (sort_key (\<lambda>a. (av_created_at a, av_artifact_id a))
            (rev (filter (\<lambda>a. av_trip_id a = tid \<and> av_tenant_id a = pr_tenant_id p)
               (concat (map snd (st_artifacts s))))))))"

definition get_artifact :: "Principal \<Rightarrow> string \<Rightarrow> int option \<Rightarrow> ArtifactView store_op" where
  "get_artifact p aid version = elift (\<lambda>s. artifact_locked s p aid version False)"

definition next_version ::
    "ArtifactView \<Rightarrow> jobj \<Rightarrow> instant \<Rightarrow> ArtifactView" where
  "next_version cur content now =
     \<lparr>av_artifact_id = av_artifact_id cur, av_version = av_version cur + 1,
      av_trip_id = av_trip_id cur, av_tenant_id = av_tenant_id cur,
      av_artifact_type = av_artifact_type cur, av_schema_version = av_schema_version cur,
      av_status = CANDIDATE, av_content = content, av_created_by = av_created_by cur,
      av_created_at = now, av_parent_version = Some (av_version cur)\<rparr>"

definition patch_artifact ::
    "(string \<Rightarrow> jobj \<Rightarrow> jobj option) \<Rightarrow> Principal \<Rightarrow> string \<Rightarrow> ArtifactPatchRequest \<Rightarrow> instant \<Rightarrow>
     ArtifactView store_op" where
  "patch_artifact validate_contract p aid request now s =
     (case artifact_locked s p aid None True of
        Inl e \<Rightarrow> (Inl e, s)
      | Inr cur \<Rightarrow>
          (case ensure_artifact_mutable cur of
             Inl e \<Rightarrow> (Inl e, s)
           | Inr _ \<Rightarrow>
               if av_version cur \<noteq> ap_base_version request
               then (Inl (VersionConflict (av_version cur)), s)
               else (case validate_artifact_patch_content validate_contract cur request of
                       Inl e \<Rightarrow> (Inl e, s)
                     | Inr content \<Rightarrow>
                         let updated = next_version cur content now
                         in (case dget (st_artifacts s) aid of
                               None \<Rightarrow> (Inl StoreKeyError, s)
                             | Some vs \<Rightarrow>
                                 (Inr updated,
                                  s\<lparr>st_artifacts := dset aid (vs @ [updated]) (st_artifacts s)\<rparr>)))))"

fun artifact_transition :: "ArtifactCommandType \<Rightarrow> ArtifactStatus \<times> ArtifactStatus" where
  "artifact_transition Cmd_select = (CANDIDATE, SELECTED)"
| "artifact_transition Cmd_publish = (VALIDATED, PUBLISHED)"
| "artifact_transition Cmd_revoke = (PUBLISHED, REVOKED)"

text \<open>The Trip pointer and superseding effects after a command's status change.\<close>

definition command_effects ::
    "Principal \<Rightarrow> ArtifactView \<Rightarrow> ArtifactStatus \<Rightarrow> instant \<Rightarrow> unit store_op" where
  "command_effects p cur target now s =
     (if target = PUBLISHED then
        let s1 = supersede_where (\<lambda>c. av_trip_id c = av_trip_id cur \<and> av_status c = PUBLISHED \<and>
                                      \<not> same_version_of cur c) s
        in (case trip_locked s1 p (av_trip_id cur) True of
              Inl e \<Rightarrow> (Inl e, s1)
            | Inr trip \<Rightarrow>
                (Inr (), s1\<lparr>st_trips := dset (tv_trip_id trip)
                   (trip\<lparr>tv_current_artifact_id := Some (av_artifact_id cur),
                         tv_current_artifact_version := Some (av_version cur),
                         tv_version := tv_version trip + 1, tv_updated_at := now\<rparr>) (st_trips s1)\<rparr>))
      else if target = REVOKED then
        (case trip_locked s p (av_trip_id cur) True of
           Inl e \<Rightarrow> (Inl e, s)
         | Inr trip \<Rightarrow>
             if tv_current_artifact_id trip = Some (av_artifact_id cur) \<and>
                tv_current_artifact_version trip = Some (av_version cur)
             then (Inr (), s\<lparr>st_trips := dset (tv_trip_id trip)
                     (trip\<lparr>tv_current_artifact_id := None, tv_current_artifact_version := None,
                           tv_version := tv_version trip + 1, tv_updated_at := now\<rparr>) (st_trips s)\<rparr>)
             else (Inr (), s))
      else (Inr (), s))"

definition command_artifact ::
    "Principal \<Rightarrow> string \<Rightarrow> ArtifactCommandRequest \<Rightarrow> string \<Rightarrow> string \<Rightarrow> instant \<Rightarrow>
     IdempotentArtifactResult store_op" where
  "command_artifact p aid request idem_key request_hash now s =
     (case artifact_locked s p aid None True of
        Inl e \<Rightarrow> (Inl e, s)
      | Inr cur \<Rightarrow>
          (case ensure_artifact_mutable cur of
             Inl e \<Rightarrow> (Inl e, s)
           | Inr _ \<Rightarrow>
               let scope = (pr_tenant_id p, pr_user_id p, aid, idem_key) in
               case dget (st_artifact_idempotency s) scope of
                 Some (existing_hash, response) \<Rightarrow>
                   if existing_hash \<noteq> request_hash then (Inl IdempotencyConflict, s)
                   else (Inr \<lparr>ia_artifact = response, ia_replayed = True\<rparr>, s)
               | None \<Rightarrow>
                   if av_version cur \<noteq> ac_base_version request
                   then (Inl (VersionConflict (av_version cur)), s)
                   else
                     let (required, target) = artifact_transition (ac_type request) in
                     if av_status cur \<noteq> required
                     then (Inl (ArtifactTransitionConflict (av_version cur) (av_status cur) (ac_type request)), s)
                     else (case dget (st_artifacts s) aid of
                       None \<Rightarrow> (Inl StoreKeyError, s)
                     | Some vs \<Rightarrow>
                         let updated = cur\<lparr>av_status := target\<rparr>;
                             s1 = s\<lparr>st_artifacts := dset aid (replace_first cur updated vs) (st_artifacts s)\<rparr>
                         in (case command_effects p cur target now s1 of
                               (Inl e, s2) \<Rightarrow> (Inl e, s2)
                             | (Inr _, s2) \<Rightarrow>
                                 (Inr \<lparr>ia_artifact = updated, ia_replayed = False\<rparr>,
                                  s2\<lparr>st_artifact_idempotency :=
                                       dset scope (request_hash, updated) (st_artifact_idempotency s2)\<rparr>)))))"

end
