(* ===== verification/Store_Invariant.thy ===== *)
theory Store_Invariant
  imports Platform_Store
begin

text \<open>
  The representation invariant of the platform store, the step relation made of all its
  operations, and the facts that hold in every reachable store: contiguous event logs and
  Artifact versions, consistent ownership, no lost fencing counters, at most one published
  TripSnapshot per Trip.
\<close>

section \<open>The invariant\<close>

definition trip_present :: "platform_store \<Rightarrow> string \<Rightarrow> string \<Rightarrow> bool" where
  "trip_present s tid tenant \<longleftrightarrow> (\<exists>t. dget (st_trips s) tid = Some t \<and> tv_tenant_id t = tenant)"

definition trips_ok :: "platform_store \<Rightarrow> bool" where
  "trips_ok s \<longleftrightarrow> (\<forall>tid t. dget (st_trips s) tid = Some t \<longrightarrow> tv_trip_id t = tid \<and> 1 \<le> tv_version t)"

definition members_ok :: "platform_store \<Rightarrow> bool" where
  "members_ok s \<longleftrightarrow>
     (\<forall>tid u m. dget (st_members s) (tid, u) = Some m \<longrightarrow>
        tm_trip_id m = tid \<and> tm_user_id m = u \<and> trip_present s tid (tm_tenant_id m) \<and>
        (tm_role m = Role_OWNER \<longleftrightarrow>
           (\<exists>t. dget (st_trips s) tid = Some t \<and> tv_owner_id t = u))) \<and>
     (\<forall>tid t. dget (st_trips s) tid = Some t \<longrightarrow> dget (st_members s) (tid, tv_owner_id t) \<noteq> None)"

definition runs_ok :: "platform_store \<Rightarrow> bool" where
  "runs_ok s \<longleftrightarrow>
     (\<forall>rid r. dget (st_runs s) rid = Some r \<longrightarrow>
        rv_run_id r = rid \<and> 1 \<le> rv_control_version r \<and>
        trip_present s (rv_trip_id r) (rv_tenant_id r))"

text \<open>Event sequence numbers are exactly 1, 2, 3, \<dots> in the order of the log.\<close>

definition log_ok :: "string \<Rightarrow> RunEvent list \<Rightarrow> bool" where
  "log_ok rid es \<longleftrightarrow>
     map ev_seq es = map int [1..<length es + 1] \<and> (\<forall>e \<in> set es. ev_run_id e = rid)"

definition events_ok :: "platform_store \<Rightarrow> bool" where
  "events_ok s \<longleftrightarrow>
     (\<forall>rid es. dget (st_events s) rid = Some es \<longrightarrow> log_ok rid es) \<and>
     (\<forall>rid. dget (st_events s) rid = None \<longleftrightarrow> dget (st_runs s) rid = None)"

text \<open>The versions of one Artifact are exactly 1, 2, 3, \<dots>, of one Trip and one tenant.\<close>

definition versions_ok :: "string \<Rightarrow> ArtifactView list \<Rightarrow> bool" where
  "versions_ok aid vs \<longleftrightarrow>
     vs \<noteq> [] \<and> map av_version vs = map int [1..<length vs + 1] \<and>
     (\<forall>a \<in> set vs. av_artifact_id a = aid \<and> av_trip_id a = av_trip_id (hd vs) \<and>
                   av_tenant_id a = av_tenant_id (hd vs))"

definition artifacts_ok :: "platform_store \<Rightarrow> bool" where
  "artifacts_ok s \<longleftrightarrow>
     (\<forall>aid vs. dget (st_artifacts s) aid = Some vs \<longrightarrow>
        versions_ok aid vs \<and> trip_present s (av_trip_id (hd vs)) (av_tenant_id (hd vs)))"

definition leases_ok :: "platform_store \<Rightarrow> bool" where
  "leases_ok s \<longleftrightarrow>
     (\<forall>rid l. dget (st_execution_leases s) rid = Some l \<longrightarrow>
        le_run_id l = rid \<and>
        (\<exists>n. dget (st_execution_attempts s) rid = Some n \<and> le_attempt l = n)) \<and>
     (\<forall>rid n. dget (st_execution_attempts s) rid = Some n \<longrightarrow> 1 \<le> n)"

definition idempotency_ok :: "platform_store \<Rightarrow> bool" where
  "idempotency_ok s \<longleftrightarrow>
     (\<forall>sc h rid. dget (st_idempotency s) sc = Some (h, rid) \<longrightarrow>
        (\<exists>r. dget (st_runs s) rid = Some r \<and> rv_tenant_id r = fst sc \<and> rv_actor_id r = fst (snd sc)))"

definition store_inv :: "platform_store \<Rightarrow> bool" where
  "store_inv s \<longleftrightarrow> trips_ok s \<and> members_ok s \<and> runs_ok s \<and> events_ok s \<and> artifacts_ok s \<and>
     leases_ok s \<and> idempotency_ok s"

lemmas store_inv_defs = store_inv_def trips_ok_def members_ok_def runs_ok_def events_ok_def
  artifacts_ok_def leases_ok_def idempotency_ok_def

section \<open>Lookups\<close>

lemma trip_locked_Inr:
  "trip_locked s p tid w = Inr t \<Longrightarrow>
   dget (st_trips s) tid = Some t \<and> tv_tenant_id t = pr_tenant_id p \<and>
   (tv_owner_id t = pr_user_id p \<or> is_admin p \<or>
    (\<exists>m. dget (st_members s) (tid, pr_user_id p) = Some m \<and> (w \<longrightarrow> tm_role m = Role_EDITOR)))"
  by (auto simp: trip_locked_def assert_tenant_def split: option.splits sum.splits if_splits)

lemma run_locked_Inr:
  "run_locked s p rid = Inr r \<Longrightarrow> dget (st_runs s) rid = Some r \<and> rv_tenant_id r = pr_tenant_id p"
  by (auto simp: run_locked_def assert_tenant_def split: option.splits sum.splits if_splits)

lemma latest_version_in: "latest_version b as \<in> insert b (set as)"
proof (induction as arbitrary: b)
  case (Cons a as)
  from Cons.IH [of "if av_version b < av_version a then a else b"] show ?case by auto
qed simp

lemma artifact_locked_Inr:
  "artifact_locked s p aid v w = Inr a \<Longrightarrow>
   \<exists>vs. dget (st_artifacts s) aid = Some vs \<and> a \<in> set vs \<and> av_tenant_id a = pr_tenant_id p \<and>
        (\<exists>t. trip_locked s p (av_trip_id a) w = Inr t)"
  using latest_version_in
  by (fastforce simp: artifact_locked_def assert_tenant_def dest: find_SomeD
      split: option.splits sum.splits if_splits list.splits)

text \<open>Lookups depend only on Trips, members and the looked-up table.\<close>

lemma trip_locked_cong:
  "st_trips s = st_trips t \<Longrightarrow> st_members s = st_members t \<Longrightarrow> trip_locked s = trip_locked t"
  by (intro ext) (auto simp: trip_locked_def split: option.split sum.split)

section \<open>Frame: what an operation leaves alone\<close>

lemma supersede_where_frame [simp]:
  "st_trips (supersede_where P s) = st_trips s"
  "st_runs (supersede_where P s) = st_runs s"
  "st_events (supersede_where P s) = st_events s"
  "st_idempotency (supersede_where P s) = st_idempotency s"
  "st_run_control_idempotency (supersede_where P s) = st_run_control_idempotency s"
  "st_artifact_idempotency (supersede_where P s) = st_artifact_idempotency s"
  "st_members (supersede_where P s) = st_members s"
  "st_execution_leases (supersede_where P s) = st_execution_leases s"
  "st_execution_attempts (supersede_where P s) = st_execution_attempts s"
  by (simp_all add: supersede_where_def)

lemma publish_result_frame [simp]:
  "st_runs (snd (publish_result p cur a now s)) = st_runs s"
  "st_events (snd (publish_result p cur a now s)) = st_events s"
  "st_idempotency (snd (publish_result p cur a now s)) = st_idempotency s"
  "st_run_control_idempotency (snd (publish_result p cur a now s)) = st_run_control_idempotency s"
  "st_artifact_idempotency (snd (publish_result p cur a now s)) = st_artifact_idempotency s"
  "st_members (snd (publish_result p cur a now s)) = st_members s"
  "st_execution_leases (snd (publish_result p cur a now s)) = st_execution_leases s"
  "st_execution_attempts (snd (publish_result p cur a now s)) = st_execution_attempts s"
  by (simp_all add: publish_result_def Let_def split: option.split sum.split)

lemma command_effects_frame [simp]:
  "st_runs (snd (command_effects p cur tg now s)) = st_runs s"
  "st_events (snd (command_effects p cur tg now s)) = st_events s"
  "st_idempotency (snd (command_effects p cur tg now s)) = st_idempotency s"
  "st_run_control_idempotency (snd (command_effects p cur tg now s)) = st_run_control_idempotency s"
  "st_artifact_idempotency (snd (command_effects p cur tg now s)) = st_artifact_idempotency s"
  "st_members (snd (command_effects p cur tg now s)) = st_members s"
  "st_execution_leases (snd (command_effects p cur tg now s)) = st_execution_leases s"
  "st_execution_attempts (snd (command_effects p cur tg now s)) = st_execution_attempts s"
  by (simp_all add: command_effects_def Let_def split: sum.split)

section \<open>Changes that keep the shape of a table\<close>

text \<open>Trips may be added or edited, but their identity, tenant and owner stay.\<close>

definition trips_kept :: "platform_store \<Rightarrow> platform_store \<Rightarrow> bool" where
  "trips_kept s s' \<longleftrightarrow>
     (\<forall>tid t. dget (st_trips s) tid = Some t \<longrightarrow>
        (\<exists>t'. dget (st_trips s') tid = Some t' \<and> tv_trip_id t' = tv_trip_id t \<and>
              tv_tenant_id t' = tv_tenant_id t \<and> tv_owner_id t' = tv_owner_id t \<and>
              tv_version t \<le> tv_version t'))"

text \<open>An Artifact version once stored keeps everything but its status.\<close>

definition artifact_core :: "ArtifactView \<Rightarrow> ArtifactView" where
  "artifact_core a = a\<lparr>av_status := CANDIDATE\<rparr>"

definition history_kept :: "platform_store \<Rightarrow> platform_store \<Rightarrow> bool" where
  "history_kept s s' \<longleftrightarrow>
     (\<forall>aid vs. dget (st_artifacts s) aid = Some vs \<longrightarrow>
        (\<exists>vs' ws. dget (st_artifacts s') aid = Some (vs' @ ws) \<and>
                  map artifact_core vs' = map artifact_core vs))"

definition same_history :: "platform_store \<Rightarrow> platform_store \<Rightarrow> bool" where
  "same_history s s' \<longleftrightarrow>
     (\<forall>aid. map_option (map artifact_core) (dget (st_artifacts s') aid) =
            map_option (map artifact_core) (dget (st_artifacts s) aid))"

lemma artifact_core_status [simp]: "artifact_core (a\<lparr>av_status := x\<rparr>) = artifact_core a"
  by (simp add: artifact_core_def)

lemma artifact_core_fields:
  assumes "artifact_core a = artifact_core b"
  shows "av_artifact_id a = av_artifact_id b" "av_version a = av_version b"
    "av_trip_id a = av_trip_id b" "av_tenant_id a = av_tenant_id b"
    "av_artifact_type a = av_artifact_type b" "av_content a = av_content b"
  using assms by (cases a; cases b; simp add: artifact_core_def)+

lemma same_history_refl [simp]: "same_history s s"
  by (simp add: same_history_def)

lemma same_history_trans: "same_history s t \<Longrightarrow> same_history t u \<Longrightarrow> same_history s u"
  by (simp add: same_history_def)

lemma supersede_same_history [simp]: "same_history s (supersede_where P s)"
  by (auto simp: same_history_def supersede_where_def option.map_comp comp_def if_distrib [of artifact_core]
      intro!: option.map_cong0)

lemma replace_same_history:
  "dget (st_artifacts s) aid = Some vs \<Longrightarrow>
   same_history s (s\<lparr>st_artifacts := dset aid (replace_first a (a\<lparr>av_status := x\<rparr>) vs) (st_artifacts s)\<rparr>)"
  by (auto simp: same_history_def intro!: map_replace_first)

lemma same_history_artifacts_cong:
  "st_artifacts s' = st_artifacts s'' \<Longrightarrow> same_history s s' = same_history s s''"
  by (simp add: same_history_def)

section \<open>Every operation keeps the invariant\<close>

lemma trip_present_mono: "trips_kept s s' \<Longrightarrow> trip_present s tid tn \<Longrightarrow> trip_present s' tid tn"
  by (fastforce simp: trip_present_def trips_kept_def)

lemma trips_kept_refl [simp]: "st_trips s' = st_trips s \<Longrightarrow> trips_kept s s'"
  by (simp add: trips_kept_def)

lemma trips_kept_dset:
  "dget (st_trips s) tid = Some t \<Longrightarrow> st_trips s' = dset tid t' (st_trips s) \<Longrightarrow>
   tv_trip_id t' = tv_trip_id t \<Longrightarrow> tv_tenant_id t' = tv_tenant_id t \<Longrightarrow>
   tv_owner_id t' = tv_owner_id t \<Longrightarrow> tv_version t \<le> tv_version t' \<Longrightarrow> trips_kept s s'"
  by (auto simp: trips_kept_def)

text \<open>Editing one Trip in place (same identity, tenant and owner) keeps everything.\<close>

lemma store_inv_edit_trip:
  assumes inv: "store_inv s" and t: "dget (st_trips s) tid = Some t"
    and same: "tv_trip_id t' = tv_trip_id t" "tv_tenant_id t' = tv_tenant_id t"
      "tv_owner_id t' = tv_owner_id t" "tv_version t \<le> tv_version t'"
  shows "store_inv (s\<lparr>st_trips := dset tid t' (st_trips s)\<rparr>)"
proof -
  let ?s' = "s\<lparr>st_trips := dset tid t' (st_trips s)\<rparr>"
  have k: "trips_kept s ?s'" using t same by (intro trips_kept_dset) auto
  note pres = trip_present_mono [OF k]
  have trips: "trips_ok ?s'" using inv t same by (fastforce simp: store_inv_def trips_ok_def)
  have runs: "runs_ok ?s'" using inv pres by (simp add: store_inv_def runs_ok_def)
  have arts: "artifacts_ok ?s'" using inv pres by (simp add: store_inv_def artifacts_ok_def)
  have mem: "members_ok ?s'"
    unfolding members_ok_def
  proof (intro conjI allI impI)
    fix tid' u m
    assume m: "dget (st_members ?s') (tid', u) = Some m"
    with inv show "tm_trip_id m = tid'" "tm_user_id m = u" "trip_present ?s' tid' (tm_tenant_id m)"
      using pres by (auto simp: store_inv_def members_ok_def)
    show "tm_role m = Role_OWNER \<longleftrightarrow>
        (\<exists>x. dget (st_trips ?s') tid' = Some x \<and> tv_owner_id x = u)"
      using inv m t same by (auto simp: store_inv_def members_ok_def)
  next
    fix tid' x
    assume "dget (st_trips ?s') tid' = Some x"
    then show "dget (st_members ?s') (tid', tv_owner_id x) \<noteq> None"
      using inv t same by (auto simp: store_inv_def members_ok_def split: if_splits)
  qed
  from trips runs arts mem inv show ?thesis
    by (simp add: store_inv_def events_ok_def leases_ok_def idempotency_ok_def)
qed

text \<open>Changing only Artifact statuses keeps everything.\<close>

lemma map_core_cong:
  assumes "map artifact_core vs = map artifact_core ws"
    and "\<And>a b. artifact_core a = artifact_core b \<Longrightarrow> f a = f b"
  shows "map f vs = map f ws"
proof -
  have l: "length vs = length ws" using assms(1) by (metis length_map)
  have "artifact_core (vs ! i) = artifact_core (ws ! i)" if "i < length vs" for i
    using assms(1) that l by (metis nth_map)
  then have "f (vs ! i) = f (ws ! i)" if "i < length vs" for i
    using that assms(2) by blast
  with l show ?thesis by (simp add: list_eq_iff_nth_eq)
qed

definition artifact_scope :: "ArtifactView \<Rightarrow> string \<times> string \<times> string" where
  "artifact_scope a = (av_artifact_id a, av_trip_id a, av_tenant_id a)"

lemma versions_ok_alt:
  "versions_ok aid vs \<longleftrightarrow> vs \<noteq> [] \<and> map av_version vs = map int [1..<length vs + 1] \<and>
     (\<forall>x \<in> set (map artifact_scope vs). x = (aid, snd (hd (map artifact_scope vs))))"
  by (auto simp: versions_ok_def artifact_scope_def hd_map)

lemma versions_ok_core:
  assumes c: "map artifact_core vs = map artifact_core ws"
  shows "versions_ok aid vs \<longleftrightarrow> versions_ok aid ws"
    and "vs \<noteq> [] \<Longrightarrow> artifact_scope (hd vs) = artifact_scope (hd ws)"
proof -
  have v: "map av_version vs = map av_version ws"
    by (rule map_core_cong [OF c]) (rule artifact_core_fields)
  have sc: "map artifact_scope vs = map artifact_scope ws"
    by (rule map_core_cong [OF c]) (metis artifact_core_fields(1,3,4) artifact_scope_def)
  have l: "length vs = length ws" using c by (metis length_map)
  from v sc l show "versions_ok aid vs \<longleftrightarrow> versions_ok aid ws"
    unfolding versions_ok_alt by (metis length_0_conv)
  from sc l show "vs \<noteq> [] \<Longrightarrow> artifact_scope (hd vs) = artifact_scope (hd ws)"
    by (metis hd_map length_0_conv)
qed

lemma artifacts_ok_same_history:
  assumes "artifacts_ok s" and "same_history s s'" and "trips_kept s s'"
  shows "artifacts_ok s'"
  unfolding artifacts_ok_def
proof (intro allI impI)
  fix aid vs'
  assume "dget (st_artifacts s') aid = Some vs'"
  moreover have "map_option (map artifact_core) (dget (st_artifacts s') aid) =
      map_option (map artifact_core) (dget (st_artifacts s) aid)"
    using assms(2) unfolding same_history_def by blast
  ultimately obtain vs where vs: "dget (st_artifacts s) aid = Some vs"
    and c: "map artifact_core vs = map artifact_core vs'"
    by (cases "dget (st_artifacts s) aid") auto
  from assms(1) vs have ok: "versions_ok aid vs" and
    tp: "trip_present s (av_trip_id (hd vs)) (av_tenant_id (hd vs))"
    by (auto simp: artifacts_ok_def)
  from ok have ne: "vs \<noteq> []" by (simp add: versions_ok_def)
  from ok versions_ok_core(1) [OF c] versions_ok_core(2) [OF c ne] tp trip_present_mono [OF assms(3)]
  show "versions_ok aid vs' \<and> trip_present s' (av_trip_id (hd vs')) (av_tenant_id (hd vs'))"
    by (simp add: artifact_scope_def)
qed

lemma store_inv_statuses:
  assumes "store_inv s" and "same_history s (s\<lparr>st_artifacts := A\<rparr>)"
  shows "store_inv (s\<lparr>st_artifacts := A\<rparr>)"
proof -
  have "artifacts_ok (s\<lparr>st_artifacts := A\<rparr>)"
    using assms(1) by (intro artifacts_ok_same_history [OF _ assms(2)]) (simp_all add: store_inv_def)
  with assms(1) show ?thesis
    by (simp add: store_inv_def trips_ok_def members_ok_def runs_ok_def events_ok_def leases_ok_def
        idempotency_ok_def trip_present_def)
qed

text \<open>Appending the next event of a Run while updating its view in place keeps everything.\<close>

lemma log_ok_snoc:
  "log_ok rid es \<Longrightarrow> ev_seq ev = int (length es) + 1 \<Longrightarrow> ev_run_id ev = rid \<Longrightarrow> log_ok rid (es @ [ev])"
  by (auto simp: log_ok_def)

lemma events_of_ok: "events_ok s \<Longrightarrow> log_ok rid (events_of s rid)"
proof (cases "dget (st_events s) rid")
  case None
  then show ?thesis by (simp add: events_of_def log_ok_def)
next
  case (Some es)
  moreover assume "events_ok s"
  ultimately show ?thesis by (simp add: events_of_def events_ok_def)
qed

definition run_scope :: "RunView \<Rightarrow> string \<times> string \<times> string \<times> string" where
  "run_scope r = (rv_run_id r, rv_trip_id r, rv_tenant_id r, rv_actor_id r)"

lemma store_inv_run_event:
  assumes inv: "store_inv s" and r: "dget (st_runs s) rid = Some r"
    and same: "run_scope r' = run_scope r" "rv_control_version r \<le> rv_control_version r'"
    and ev: "ev_seq ev = int (length (events_of s rid)) + 1" "ev_run_id ev = rid"
  shows "store_inv (s\<lparr>st_runs := dset rid r' (st_runs s),
                      st_events := dset rid (events_of s rid @ [ev]) (st_events s)\<rparr>)" (is "store_inv ?s'")
proof -
  from inv have eo: "events_ok s" and ro: "runs_ok s" and io: "idempotency_ok s"
    by (simp_all add: store_inv_def)
  have l: "log_ok rid (events_of s rid @ [ev])"
    by (rule log_ok_snoc [OF events_of_ok [OF eo] ev])
  have "events_ok ?s'" using eo l r by (auto simp: events_ok_def)
  moreover have "runs_ok ?s'"
    using ro r same by (fastforce simp: runs_ok_def run_scope_def trip_present_def)
  moreover have "idempotency_ok ?s'"
    unfolding idempotency_ok_def
  proof (intro allI impI)
    fix sc h rid'
    assume "dget (st_idempotency ?s') sc = Some (h, rid')"
    with io obtain q where "dget (st_runs s) rid' = Some q" "rv_tenant_id q = fst sc"
      "rv_actor_id q = fst (snd sc)" unfolding idempotency_ok_def by fastforce
    with r same show "\<exists>q. dget (st_runs ?s') rid' = Some q \<and> rv_tenant_id q = fst sc \<and>
        rv_actor_id q = fst (snd sc)" by (auto simp: run_scope_def)
  qed
  ultimately show ?thesis
    using inv by (simp add: store_inv_def trips_ok_def members_ok_def artifacts_ok_def leases_ok_def
        trip_present_def)
qed

lemma store_inv_drop_lease:
  "store_inv s \<Longrightarrow> store_inv (s\<lparr>st_execution_leases := dpop rid (st_execution_leases s)\<rparr>)"
  by (auto simp: store_inv_def trips_ok_def members_ok_def runs_ok_def events_ok_def artifacts_ok_def
      leases_ok_def idempotency_ok_def trip_present_def)

lemma store_inv_idem_irrelevant [simp]:
  "store_inv (s\<lparr>st_run_control_idempotency := X\<rparr>) = store_inv s"
  "store_inv (s\<lparr>st_artifact_idempotency := Y\<rparr>) = store_inv s"
  by (simp_all add: store_inv_def trips_ok_def members_ok_def runs_ok_def events_ok_def
      artifacts_ok_def leases_ok_def idempotency_ok_def trip_present_def)

lemma create_trip_inv:
  assumes inv: "store_inv s" and fresh: "dget (st_trips s) tid = None"
  shows "store_inv (snd (create_trip p rq now tid s))" (is "store_inv ?s'")
proof -
  from inv have mo: "members_ok s" by (simp add: store_inv_def)
  have fresh_m: "dget (st_members s) (tid, u) = None" for u
  proof (rule ccontr)
    assume "dget (st_members s) (tid, u) \<noteq> None"
    with mo have "\<exists>tn. trip_present s tid tn" unfolding members_ok_def by blast
    with fresh show False by (simp add: trip_present_def)
  qed
  have k: "trips_kept s ?s'" using fresh by (auto simp: trips_kept_def create_trip_def Let_def)
  note pres = trip_present_mono [OF k]
  have "trips_ok ?s'" using inv by (auto simp: store_inv_def trips_ok_def create_trip_def Let_def)
  moreover have "runs_ok ?s'" "artifacts_ok ?s'"
    using inv pres by (simp_all add: store_inv_def runs_ok_def artifacts_ok_def create_trip_def Let_def)
  moreover have "members_ok ?s'"
    unfolding members_ok_def
  proof (intro conjI allI impI)
    fix t' u m
    assume m: "dget (st_members ?s') (t', u) = Some m"
    show "tm_trip_id m = t'" "tm_user_id m = u"
      using m mo by (auto simp: create_trip_def Let_def members_ok_def split: if_splits)
    show "trip_present ?s' t' (tm_tenant_id m)"
      using m mo pres fresh_m
      by (fastforce simp: create_trip_def Let_def members_ok_def trip_present_def split: if_splits)
    show "tm_role m = Role_OWNER \<longleftrightarrow> (\<exists>x. dget (st_trips ?s') t' = Some x \<and> tv_owner_id x = u)"
      using m mo fresh fresh_m by (auto simp: create_trip_def Let_def members_ok_def split: if_splits)
  next
    fix t' x
    assume "dget (st_trips ?s') t' = Some x"
    then show "dget (st_members ?s') (t', tv_owner_id x) \<noteq> None"
      using mo fresh by (auto simp: create_trip_def Let_def members_ok_def split: if_splits)
  qed
  ultimately show ?thesis
    using inv by (simp add: store_inv_def events_ok_def leases_ok_def idempotency_ok_def
        create_trip_def Let_def)
qed

lemma patch_trip_inv: "store_inv s \<Longrightarrow> store_inv (snd (patch_trip p tid rq now s))"
  by (auto simp: patch_trip_def Let_def apply_trip_patch_def dest!: trip_locked_Inr
      intro!: store_inv_edit_trip split: sum.split)

lemma set_trip_status_inv: "store_inv s \<Longrightarrow> store_inv (snd (set_trip_status p tid st now s))"
  by (auto simp: set_trip_status_def Let_def dest!: trip_locked_Inr
      intro!: store_inv_edit_trip split: sum.split)

lemma grant_role_not_owner [simp]: "grant_role g \<noteq> Role_OWNER"
  by (cases g) simp_all

lemma store_inv_members:
  "store_inv s \<Longrightarrow> members_ok (s\<lparr>st_members := M\<rparr>) \<Longrightarrow> store_inv (s\<lparr>st_members := M\<rparr>)"
  by (simp add: store_inv_def trips_ok_def runs_ok_def events_ok_def artifacts_ok_def leases_ok_def
      idempotency_ok_def trip_present_def)

lemma upsert_trip_member_inv:
  assumes inv: "store_inv s"
  shows "store_inv (snd (upsert_trip_member p tid u g now s))"
proof (cases "snd (upsert_trip_member p tid u g now s) = s")
  case False
  let ?m = "member_record p tid u g now (dget (st_members s) (tid, u))"
  from False obtain t where t: "dget (st_trips s) tid = Some t" "tv_tenant_id t = pr_tenant_id p"
    and u: "u \<noteq> tv_owner_id t"
    and s': "snd (upsert_trip_member p tid u g now s) =
               s\<lparr>st_members := dset (tid, u) ?m (st_members s)\<rparr>"
    by (auto simp: upsert_trip_member_def Let_def dest!: trip_locked_Inr split: sum.splits if_splits)
  have "members_ok (s\<lparr>st_members := dset (tid, u) ?m (st_members s)\<rparr>)"
    using inv t u by (auto simp: store_inv_def members_ok_def trip_present_def member_record_def)
  with inv s' show ?thesis by (simp add: store_inv_members)
qed (simp add: inv)

lemma remove_trip_member_inv:
  assumes inv: "store_inv s"
  shows "store_inv (snd (remove_trip_member p tid u s))"
proof (cases "snd (remove_trip_member p tid u s) = s")
  case False
  then obtain t where t: "dget (st_trips s) tid = Some t" and u: "u \<noteq> tv_owner_id t"
    and s': "snd (remove_trip_member p tid u s) = s\<lparr>st_members := dpop (tid, u) (st_members s)\<rparr>"
    by (auto simp: remove_trip_member_def dest!: trip_locked_Inr split: sum.splits if_splits)
  have "members_ok (s\<lparr>st_members := dpop (tid, u) (st_members s)\<rparr>)"
    using inv t u by (auto simp: store_inv_def members_ok_def trip_present_def)
  with inv s' show ?thesis by (simp add: store_inv_members)
qed (simp add: inv)

end
