(* ===== verification/Store_Steps.thy ===== *)
theory Store_Steps
  imports Store_Invariant
begin

text \<open>
  The remaining operations of the platform store keep its invariant; all of them together are a
  step relation, and the invariant holds in every reachable store.
\<close>

section \<open>Runs\<close>

lemma create_run_cases:
  assumes "create_run p tid c bi bv key h tr now rid eid s = (res, s')"
  obtains (refused) e where "res = Inl e" "s' = s"
  | (replayed) r where "res = Inr \<lparr>ir_run = r, ir_event = None, ir_replayed = True\<rparr>" "s' = s"
      "\<exists>rid0. dget (st_idempotency s) (pr_tenant_id p, pr_user_id p, key) = Some (h, rid0) \<and>
              dget (st_runs s) rid0 = Some r"
  | (created) trip ev where "trip_locked s p tid True = Inr trip" "tv_status trip = Trip_ACTIVE"
      "dget (st_idempotency s) (pr_tenant_id p, pr_user_id p, key) = None"
      "create_run_conflict s trip c bi bv = None"
      "res = Inr \<lparr>ir_run = initial_run p (tv_trip_id trip) c bi bv tr now rid,
                   ir_event = Some ev, ir_replayed = False\<rparr>"
      "ev_seq ev = 1" "ev_run_id ev = rid" "ev_type ev = Ev_run_accepted"
      "s' = s\<lparr>st_runs := dset rid (initial_run p (tv_trip_id trip) c bi bv tr now rid) (st_runs s),
             st_events := dset rid [ev] (dset rid [] (st_events s)),
             st_idempotency := dset (pr_tenant_id p, pr_user_id p, key) (h, rid) (st_idempotency s)\<rparr>"
proof (cases "trip_locked s p tid True")
  case (Inl e)
  with assms have "res = Inl e" "s' = s" by (simp_all add: create_run_def)
  then show ?thesis by (rule refused)
next
  case trip: (Inr trip)
  let ?sc = "(pr_tenant_id p, pr_user_id p, key)"
  show ?thesis
  proof (cases "tv_status trip = Trip_ACTIVE")
    case False
    with assms trip have "res = Inl (VersionConflict (tv_version trip))" "s' = s"
      by (simp_all add: create_run_def)
    then show ?thesis by (rule refused)
  next
    case active: True
    show ?thesis
    proof (cases "dget (st_idempotency s) ?sc")
      case (Some hr)
      obtain h0 rid0 where hr: "hr = (h0, rid0)" by force
      show ?thesis
        using assms trip active Some hr refused replayed
        by (cases "dget (st_runs s) rid0") (auto simp: create_run_def split: if_splits)
    next
      case None
      show ?thesis
      proof (cases "create_run_conflict s trip c bi bv")
        case (Some v)
        with assms trip active None have "res = Inl (VersionConflict v)" "s' = s"
          by (simp_all add: create_run_def)
        then show ?thesis by (rule refused)
      next
        case nc: None
        have ids [simp]: "rv_run_id (initial_run p t c bi bv tr now rid) = rid"
          "rv_trip_id (initial_run p t c bi bv tr now rid) = t" for t
          by (simp_all add: initial_run_def)
        let ?ev = "\<lparr>ev_event_id = eid, ev_seq = 1, ev_type = Ev_run_accepted, ev_occurred_at = now,
          ev_trip_id = tv_trip_id trip, ev_run_id = rid, ev_trace_id = tr,
          ev_data = [(''lifecycle_state'', JStr (lifecycle_value QUEUED)),
                     (''phase'', JStr ''accepted''), (''control_version'', JInt 1)]\<rparr>"
        show ?thesis
          by (rule created [OF trip active None nc, of ?ev])
            (use assms trip active None nc in
              \<open>simp_all add: create_run_def append_event_locked_def events_of_def Let_def\<close>)
      qed
    qed
  qed
qed
lemma create_run_inv:
  assumes inv: "store_inv s" and fresh: "dget (st_runs s) rid = None"
  shows "store_inv (snd (create_run p tid c bi bv key h tr now rid eid s))"
proof -
  obtain res s' where r: "create_run p tid c bi bv key h tr now rid eid s = (res, s')" by force
  then show ?thesis
  proof (cases rule: create_run_cases)
    case (created trip ev)
    note s' = created(9)
    let ?r = "initial_run p (tv_trip_id trip) c bi bv tr now rid"
    from created(1) inv have t: "dget (st_trips s) tid = Some trip" "tv_trip_id trip = tid"
      "tv_tenant_id trip = pr_tenant_id p"
      by (auto dest!: trip_locked_Inr simp: store_inv_def trips_ok_def)
    have "runs_ok s'"
      using inv t by (auto simp: s' store_inv_def runs_ok_def trip_present_def initial_run_def)
    moreover have "events_ok s'"
      using inv created(6,7) by (auto simp: s' store_inv_def events_ok_def log_ok_def)
    moreover have "idempotency_ok s'"
      using inv fresh by (fastforce simp: s' store_inv_def idempotency_ok_def initial_run_def)
    ultimately show ?thesis
      using inv r by (simp add: s' store_inv_def trips_ok_def members_ok_def artifacts_ok_def
          leases_ok_def trip_present_def)
  qed (use r inv in simp_all)
qed

lemma store_inv_leases:
  "store_inv s \<Longrightarrow> leases_ok s' \<Longrightarrow>
   s' = s\<lparr>st_execution_attempts := A, st_execution_leases := L\<rparr> \<Longrightarrow> store_inv s'"
  by (simp add: store_inv_def trips_ok_def members_ok_def runs_ok_def events_ok_def
      artifacts_ok_def idempotency_ok_def trip_present_def)

lemma leases_ok_claim:
  "leases_ok s \<Longrightarrow> 1 \<le> le_attempt l \<Longrightarrow> le_run_id l = rid \<Longrightarrow>
   leases_ok (s\<lparr>st_execution_attempts := dset rid (le_attempt l) (st_execution_attempts s),
               st_execution_leases := dset rid l (st_execution_leases s)\<rparr>)"
  by (auto simp: leases_ok_def)

definition next_attempt :: "platform_store \<Rightarrow> string \<Rightarrow> int" where
  "next_attempt s rid = (case dget (st_execution_attempts s) rid of None \<Rightarrow> 0 | Some n \<Rightarrow> n) + 1"

lemma next_attempt_pos: "leases_ok s \<Longrightarrow> 1 \<le> next_attempt s rid"
proof (cases "dget (st_execution_attempts s) rid")
  case (Some n)
  moreover assume "leases_ok s"
  ultimately have "1 \<le> n" by (simp add: leases_ok_def)
  with Some show ?thesis by (simp add: next_attempt_def)
qed (simp add: next_attempt_def)

lemma claim_run_execution_cases:
  assumes "claim_run_execution p rid ow us now s = (res, s')"
  obtains (refused) e where "res = Inl e" "s' = s"
  | (busy) "res = Inr None" "s' = s"
  | (claimed) r where "run_locked s p rid = Inr r" "rv_lifecycle_state r \<in> {QUEUED, RUNNING}"
      "\<And>cur. dget (st_execution_leases s) rid = Some cur \<Longrightarrow> le_lease_until cur \<le> now"
      "50000 \<le> us"
      "res = Inr (Some \<lparr>le_run_id = rid, le_owner = ow, le_attempt = next_attempt s rid,
                        le_lease_until = now + us\<rparr>)"
      "s' = s\<lparr>st_execution_attempts := dset rid (next_attempt s rid) (st_execution_attempts s),
             st_execution_leases := dset rid \<lparr>le_run_id = rid, le_owner = ow,
               le_attempt = next_attempt s rid, le_lease_until = now + us\<rparr> (st_execution_leases s)\<rparr>"
proof (cases "validate_execution_lease_request ow us")
  case False
  with assms have "res = Inl StoreValueError" "s' = s" by (simp_all add: claim_run_execution_def)
  then show ?thesis by (rule refused)
next
  case v: True
  show ?thesis
  proof (cases "run_locked s p rid")
    case (Inl e)
    with assms v have "res = Inl e" "s' = s" by (simp_all add: claim_run_execution_def)
    then show ?thesis by (rule refused)
  next
    case r: (Inr r)
    let ?held = "case dget (st_execution_leases s) rid of None \<Rightarrow> False | Some c \<Rightarrow> le_lease_until c > now"
    show ?thesis
    proof (cases "rv_lifecycle_state r \<in> {QUEUED, RUNNING} \<and> \<not> ?held")
      case True
      with v have "50000 \<le> us" "\<And>cur. dget (st_execution_leases s) rid = Some cur \<Longrightarrow> le_lease_until cur \<le> now"
        by (auto simp: validate_execution_lease_request_def)
      with True assms v r show ?thesis
        by (intro claimed [OF r]) (simp_all add: claim_run_execution_def next_attempt_def Let_def)
    next
      case False
      with assms v r have "res = Inr None" "s' = s"
        by (auto simp: claim_run_execution_def split: if_splits)
      then show ?thesis by (rule busy)
    qed
  qed
qed

lemma claim_run_execution_inv:
  assumes inv: "store_inv s"
  shows "store_inv (snd (claim_run_execution p rid ow us now s))"
proof -
  obtain res s' where r: "claim_run_execution p rid ow us now s = (res, s')" by force
  then show ?thesis
  proof (cases rule: claim_run_execution_cases)
    case (claimed x)
    from inv have lo: "leases_ok s" by (simp add: store_inv_def)
    have "leases_ok s'"
      using leases_ok_claim [OF lo, of "\<lparr>le_run_id = rid, le_owner = ow,
          le_attempt = next_attempt s rid, le_lease_until = now + us\<rparr>"] next_attempt_pos [OF lo]
      by (simp add: claimed(6))
    from store_inv_leases [OF inv this claimed(6)] have "store_inv s'" .
    with r show ?thesis by simp
  qed (use r inv in simp_all)
qed

lemma assert_lease_Inr:
  "assert_execution_lease_locked s p l tr now = Inr r \<Longrightarrow>
   run_locked s p (le_run_id l) = Inr r \<and> rv_lifecycle_state r \<in> {QUEUED, RUNNING} \<and>
   (\<exists>cur. dget (st_execution_leases s) (le_run_id l) = Some cur \<and> le_owner cur = le_owner l \<and>
          le_attempt cur = le_attempt l \<and> now < le_lease_until cur)"
  by (auto simp: assert_execution_lease_locked_def split: sum.splits option.splits if_splits)

lemma renew_run_execution_cases:
  assumes "renew_run_execution p l us now now' s = (res, s')"
  obtains (refused) e where "res = Inl e" "s' = s"
  | (lost) "res = Inr None" "s' = s" "assert_execution_lease_locked s p l None now = Inl RunExecutionLeaseLost"
  | (renewed) r where "assert_execution_lease_locked s p l None now = Inr r"
      "res = Inr (Some (l\<lparr>le_lease_until := now' + us\<rparr>))"
      "s' = s\<lparr>st_execution_leases := dset (le_run_id l) (l\<lparr>le_lease_until := now' + us\<rparr>) (st_execution_leases s)\<rparr>"
proof (cases "validate_execution_lease_request (le_owner l) us")
  case False
  with assms have "res = Inl StoreValueError" "s' = s" by (simp_all add: renew_run_execution_def)
  then show ?thesis by (rule refused)
next
  case v: True
  show ?thesis
  proof (cases "assert_execution_lease_locked s p l None now")
    case (Inl e)
    have "s' = s \<and> res = (if e = RunExecutionLeaseLost then Inr None else Inl e)"
      using assms v Inl by (cases e) (simp_all add: renew_run_execution_def)
    with refused lost Inl show ?thesis by (cases "e = RunExecutionLeaseLost") auto
  next
    case (Inr r)
    have l: "\<lparr>le_run_id = le_run_id l, le_owner = le_owner l, le_attempt = le_attempt l,
        le_lease_until = x\<rparr> = l\<lparr>le_lease_until := x\<rparr>" for x by (cases l) simp
    from assms v Inr have "(Inr (Some (l\<lparr>le_lease_until := now' + us\<rparr>)),
        s\<lparr>st_execution_leases := dset (le_run_id l) (l\<lparr>le_lease_until := now' + us\<rparr>)
           (st_execution_leases s)\<rparr>) = (res, s')"
      by (simp add: renew_run_execution_def Let_def l)
    then show ?thesis by (intro renewed [OF Inr]) (simp_all only: prod.inject)
  qed
qed

lemma renew_run_execution_inv:
  assumes inv: "store_inv s"
  shows "store_inv (snd (renew_run_execution p l us now now' s))"
proof -
  obtain res s' where r: "renew_run_execution p l us now now' s = (res, s')" by force
  then show ?thesis
  proof (cases rule: renew_run_execution_cases)
    case (renewed x)
    from assert_lease_Inr [OF renewed(1)] obtain cur where
      "dget (st_execution_leases s) (le_run_id l) = Some cur" "le_attempt cur = le_attempt l" by blast
    with inv have "leases_ok s'"
      by (auto simp: renewed(3) store_inv_def leases_ok_def)
    then have "store_inv s'"
      by (rule store_inv_leases [OF inv, where A = "st_execution_attempts s"]) (simp add: renewed(3))
    with r show ?thesis by simp
  qed (use r inv in simp_all)
qed

lemma release_run_execution_inv:
  "store_inv s \<Longrightarrow> store_inv (snd (release_run_execution p l s))"
  by (auto simp: release_run_execution_def store_inv_drop_lease split: sum.split option.split)

lemma supersede_inv: "store_inv s \<Longrightarrow> store_inv (supersede_where P s)"
  unfolding supersede_where_def
  by (rule store_inv_statuses) (simp_all add: supersede_same_history [unfolded supersede_where_def])

abbreviation restatus ::
    "string \<Rightarrow> ArtifactView \<Rightarrow> ArtifactStatus \<Rightarrow> ArtifactView list \<Rightarrow> platform_store \<Rightarrow> platform_store" where
  "restatus aid a x vs s \<equiv>
     s\<lparr>st_artifacts := dset aid (replace_first a (a\<lparr>av_status := x\<rparr>) vs) (st_artifacts s)\<rparr>"

lemma restatus_inv:
  "store_inv s \<Longrightarrow> dget (st_artifacts s) aid = Some vs \<Longrightarrow> store_inv (restatus aid a x vs s)"
  by (rule store_inv_statuses) (simp_all add: replace_same_history)

lemma trip_locked_frames [simp]:
  "trip_locked (supersede_where P s) = trip_locked s"
  "trip_locked (s\<lparr>st_artifacts := A\<rparr>) = trip_locked s"
  "trip_locked (s\<lparr>st_artifact_idempotency := I\<rparr>) = trip_locked s"
  by (rule trip_locked_cong; simp)+

lemma store_inv_edit_locked_trip:
  assumes "store_inv s" and "trip_locked s p tid w = Inr t" and "T = st_trips s"
    and "tv_trip_id t' = tv_trip_id t" "tv_tenant_id t' = tv_tenant_id t"
      "tv_owner_id t' = tv_owner_id t" "tv_version t \<le> tv_version t'"
  shows "store_inv (s\<lparr>st_trips := dset tid t' T\<rparr>)"
  unfolding assms(3)
  by (rule store_inv_edit_trip [OF assms(1)]) (use assms(2,4-7) in \<open>auto dest!: trip_locked_Inr\<close>)

text \<open>The four ways \<open>publish_result\<close> can end; \<open>denied\<close> leaves the statuses already changed.\<close>

abbreviation other_snapshots :: "string \<Rightarrow> ArtifactView \<Rightarrow> ArtifactView \<Rightarrow> bool" where
  "other_snapshots tid st \<equiv> \<lambda>c. av_trip_id c = tid \<and> av_artifact_type c = ''TripSnapshot'' \<and>
     av_status c = PUBLISHED \<and> \<not> same_version_of st c"

lemma publish_result_cases:
  assumes "publish_result p cur a now s = (res, s')"
  obtains (missing) "res = Inl ResourceNotFound" "s' = s"
  | (plain) vs st where "dget (st_artifacts s) (av_artifact_id a) = Some vs"
      "find (\<lambda>i. av_version i = av_version a) vs = Some st" "av_trip_id st = rv_trip_id cur"
      "av_artifact_type st \<noteq> ''TripSnapshot''" "res = Inr ()"
      "s' = restatus (av_artifact_id a) st PUBLISHED vs s"
  | (denied) vs st e where "dget (st_artifacts s) (av_artifact_id a) = Some vs"
      "find (\<lambda>i. av_version i = av_version a) vs = Some st" "av_trip_id st = rv_trip_id cur"
      "av_artifact_type st = ''TripSnapshot''" "trip_locked s p (rv_trip_id cur) True = Inl e"
      "res = Inl e" "s' = supersede_where (other_snapshots (rv_trip_id cur) st)
                            (restatus (av_artifact_id a) st PUBLISHED vs s)"
  | (published) vs st t where "dget (st_artifacts s) (av_artifact_id a) = Some vs"
      "find (\<lambda>i. av_version i = av_version a) vs = Some st" "av_trip_id st = rv_trip_id cur"
      "av_artifact_type st = ''TripSnapshot''" "trip_locked s p (rv_trip_id cur) True = Inr t"
      "res = Inr ()"
      "s' = (supersede_where (other_snapshots (rv_trip_id cur) st)
               (restatus (av_artifact_id a) st PUBLISHED vs s))
            \<lparr>st_trips := dset (rv_trip_id cur)
               (t\<lparr>tv_current_artifact_id := Some (av_artifact_id st),
                  tv_current_artifact_version := Some (av_version st),
                  tv_version := tv_version t + 1, tv_updated_at := now\<rparr>) (st_trips s)\<rparr>"
proof (cases "dget (st_artifacts s) (av_artifact_id a)")
  case None
  with assms missing show ?thesis by (simp add: publish_result_def)
next
  case vs: (Some vs)
  show ?thesis
  proof (cases "find (\<lambda>i. av_version i = av_version a) vs")
    case None
    with assms vs missing show ?thesis by (simp add: publish_result_def)
  next
    case st: (Some st)
    consider "av_trip_id st \<noteq> rv_trip_id cur"
      | "av_trip_id st = rv_trip_id cur" "av_artifact_type st \<noteq> ''TripSnapshot''"
      | e where "av_trip_id st = rv_trip_id cur" "av_artifact_type st = ''TripSnapshot''"
          "trip_locked s p (rv_trip_id cur) True = Inl e"
      | t where "av_trip_id st = rv_trip_id cur" "av_artifact_type st = ''TripSnapshot''"
          "trip_locked s p (rv_trip_id cur) True = Inr t"
      by (cases "trip_locked s p (rv_trip_id cur) True") auto
    then show ?thesis
    proof cases
      case 1
      with assms vs st missing show ?thesis by (simp add: publish_result_def)
    next
      case 2
      show ?thesis
        by (rule plain [OF vs st 2]) (use assms vs st 2 in \<open>auto simp: publish_result_def Let_def\<close>)
    next
      case 3
      show ?thesis
        by (rule denied [OF vs st 3]) (use assms vs st 3 in \<open>auto simp: publish_result_def Let_def\<close>)
    next
      case 4
      show ?thesis
        by (rule published [OF vs st 4]) (use assms vs st 4 in \<open>auto simp: publish_result_def Let_def\<close>)
    qed
  qed
qed

lemma publish_result_inv:
  assumes inv: "store_inv s"
  shows "store_inv (snd (publish_result p cur a now s))"
proof -
  obtain res s' where r: "publish_result p cur a now s = (res, s')" by force
  then have "store_inv s'"
  proof (cases rule: publish_result_cases)
    case (published vs st t)
    note inv2 = supersede_inv [OF restatus_inv [OF inv published(1)]]
    show ?thesis unfolding published(7)
      by (rule store_inv_edit_locked_trip [OF inv2, where p = p and w = True and t = t])
        (use published(5) in simp_all)
  qed (simp_all add: inv restatus_inv supersede_inv)
  with r show ?thesis by simp
qed

lemma apply_mutation_scope [simp]:
  "run_scope (apply_mutation m now r) = run_scope r"
  "rv_run_id (apply_mutation m now r) = rv_run_id r"
  "rv_trip_id (apply_mutation m now r) = rv_trip_id r"
  "rv_tenant_id (apply_mutation m now r) = rv_tenant_id r"
  "rv_control_version (apply_mutation m now r) = rv_control_version r + 1"
  by (simp_all add: apply_mutation_def run_scope_def)

definition mutation_result :: "Principal \<Rightarrow> RunView \<Rightarrow> run_mutation \<Rightarrow> instant \<Rightarrow> unit store_op" where
  "mutation_result p cur m now s =
     (case mu_result_artifact m of None \<Rightarrow> (Inr (), s) | Some a \<Rightarrow> publish_result p cur a now s)"

definition drops_lease :: "RunLifecycle \<Rightarrow> bool" where
  "drops_lease st \<longleftrightarrow> st \<in> TERMINAL_RUN_STATES \<union> {CANCEL_REQUESTED, WAITING_INPUT}"

lemma mutate_run_cases:
  assumes "mutate_run p rid ex m lo ty d lnow now eid s = (res, s')"
  obtains (refused) e where "res = Inl e" "s' = s"
  | (unpublished) cur e where "run_locked s p rid = Inr cur" "check_lease_for p rid lo lnow s = Inr ()"
      "rv_control_version cur = ex" "mutation_result p cur m now s = (Inl e, s')" "res = Inl e"
  | (mutated) cur s1 ev where "run_locked s p rid = Inr cur" "check_lease_for p rid lo lnow s = Inr ()"
      "rv_control_version cur = ex" "mutation_result p cur m now s = (Inr (), s1)"
      "res = Inr (apply_mutation m now cur, ev)"
      "ev_seq ev = int (length (events_of s1 (rv_run_id cur))) + 1" "ev_run_id ev = rv_run_id cur"
      "ev_type ev = ty" "ev_trip_id ev = rv_trip_id cur"
      "ev_data ev = dset ''control_version'' (JInt (rv_control_version cur + 1)) d"
      "s' = s1\<lparr>st_runs := dset rid (apply_mutation m now cur) (st_runs s1),
              st_execution_leases := (if drops_lease (rv_lifecycle_state (apply_mutation m now cur))
                then dpop rid (st_execution_leases s1) else st_execution_leases s1),
              st_events := dset (rv_run_id cur) (events_of s1 (rv_run_id cur) @ [ev]) (st_events s1)\<rparr>"
proof (cases "run_locked s p rid")
  case (Inl e)
  with assms have "res = Inl e" "s' = s" by (simp_all add: mutate_run_def)
  then show ?thesis by (rule refused)
next
  case cur: (Inr cur)
  show ?thesis
  proof (cases "check_lease_for p rid lo lnow s")
    case (Inl e)
    with assms cur have "res = Inl e" "s' = s" by (simp_all add: mutate_run_def)
    then show ?thesis by (rule refused)
  next
    case lease: (Inr u)
    show ?thesis
    proof (cases "rv_control_version cur = ex")
      case False
      with assms cur lease have "res = Inl (VersionConflict (rv_control_version cur))" "s' = s"
        by (simp_all add: mutate_run_def)
      then show ?thesis by (rule refused)
    next
      case ver: True
      obtain r1 s1 where p1: "mutation_result p cur m now s = (r1, s1)" by force
      show ?thesis
      proof (cases r1)
        case (Inl e)
        with assms cur lease ver p1 have "mutation_result p cur m now s = (Inl e, s')" "res = Inl e"
          by (simp_all add: mutate_run_def mutation_result_def)
        with cur lease ver show ?thesis by (intro unpublished) simp_all
      next
        case (Inr v)
        let ?u = "apply_mutation m now cur"
        let ?ev = "\<lparr>ev_event_id = eid, ev_seq = int (length (events_of s1 (rv_run_id cur))) + 1,
          ev_type = ty, ev_occurred_at = now, ev_trip_id = rv_trip_id cur, ev_run_id = rv_run_id cur,
          ev_trace_id = rv_trace_id ?u,
          ev_data = dset ''control_version'' (JInt (rv_control_version cur + 1)) d\<rparr>"
        have s': "res = Inr (?u, ?ev) \<and> s' = s1\<lparr>st_runs := dset rid ?u (st_runs s1),
              st_execution_leases := (if drops_lease (rv_lifecycle_state ?u)
                then dpop rid (st_execution_leases s1) else st_execution_leases s1),
              st_events := dset (rv_run_id cur) (events_of s1 (rv_run_id cur) @ [?ev]) (st_events s1)\<rparr>"
          using assms cur lease ver p1 Inr
          by (auto simp: mutate_run_def mutation_result_def [symmetric] append_event_locked_def
              events_of_def drops_lease_def Let_def)
        show ?thesis
          by (rule mutated [of cur s1 ?ev]) (use cur lease ver p1 Inr s' in simp_all)
      qed
    qed
  qed
qed

lemma mutation_result_inv: "store_inv s \<Longrightarrow> store_inv (snd (mutation_result p cur m now s))"
  by (simp add: mutation_result_def publish_result_inv split: option.split)

lemma mutation_result_frame [simp]:
  "st_runs (snd (mutation_result p cur m now s)) = st_runs s"
  "st_events (snd (mutation_result p cur m now s)) = st_events s"
  "st_members (snd (mutation_result p cur m now s)) = st_members s"
  "st_execution_leases (snd (mutation_result p cur m now s)) = st_execution_leases s"
  "st_execution_attempts (snd (mutation_result p cur m now s)) = st_execution_attempts s"
  "st_idempotency (snd (mutation_result p cur m now s)) = st_idempotency s"
  by (simp_all add: mutation_result_def split: option.split)

lemma locked_run_id: "store_inv s \<Longrightarrow> run_locked s p rid = Inr cur \<Longrightarrow> rv_run_id cur = rid"
  by (auto dest!: run_locked_Inr simp: store_inv_def runs_ok_def)

lemma mutate_run_inv:
  assumes inv: "store_inv s"
  shows "store_inv (snd (mutate_run p rid ex m lo ty d lnow now eid s))"
proof -
  obtain res s' where r: "mutate_run p rid ex m lo ty d lnow now eid s = (res, s')" by force
  then have "store_inv s'"
  proof (cases rule: mutate_run_cases)
    case (unpublished cur e)
    with mutation_result_inv [OF inv] show ?thesis by (metis snd_conv)
  next
    case (mutated cur s1 ev)
    have inv1: "store_inv s1" using mutation_result_inv [OF inv] mutated(4) by (metis snd_conv)
    have run1: "dget (st_runs s1) rid = Some cur"
      using mutated(1) mutation_result_frame(1) [of p cur m now s]
      by (auto simp: mutated(4) dest!: run_locked_Inr)
    have id: "rv_run_id cur = rid" by (rule locked_run_id [OF inv mutated(1)])
    let ?s2 = "s1\<lparr>st_runs := dset rid (apply_mutation m now cur) (st_runs s1),
                  st_events := dset rid (events_of s1 rid @ [ev]) (st_events s1)\<rparr>"
    have inv2: "store_inv ?s2"
      by (rule store_inv_run_event [OF inv1 run1]) (use mutated(6,7) id in simp_all)
    have "s' = (if drops_lease (rv_lifecycle_state (apply_mutation m now cur))
        then ?s2\<lparr>st_execution_leases := dpop rid (st_execution_leases ?s2)\<rparr> else ?s2)"
      by (simp add: mutated(11) id)
    with inv2 store_inv_drop_lease [OF inv2, of rid] show ?thesis by (simp split: if_splits)
  qed (simp add: inv)
  with r show ?thesis by simp
qed

lemma resume_run_cases:
  assumes "resume_run di p rid ex rq vals key h cnow now eid s = (res, s')"
  obtains (refused) e where "res = Inl e" "s' = s"
  | (replayed) cur where "run_locked s p rid = Inr cur"
      "dget (st_run_control_idempotency s) (pr_tenant_id p, pr_user_id p, ''run.resume'', key) = Some (h, rid)"
      "res = Inr \<lparr>ir_run = cur, ir_event = None, ir_replayed = True\<rparr>" "s' = s"
  | (resumed) cur pend norm ev where "run_locked s p rid = Inr cur"
      "dget (st_run_control_idempotency s) (pr_tenant_id p, pr_user_id p, ''run.resume'', key) = None"
      "rv_control_version cur = ex" "rv_lifecycle_state cur = WAITING_INPUT"
      "rv_pending_input cur = Some pend" "pi_request_id pend = rq" "cnow < pi_expires_at pend"
      "validate_run_input_values di pend vals = Inr norm"
      "res = Inr \<lparr>ir_run = resumed_run rq norm now cur, ir_event = Some ev, ir_replayed = False\<rparr>"
      "ev_seq ev = int (length (events_of s (rv_run_id cur))) + 1" "ev_run_id ev = rv_run_id cur"
      "s' = s\<lparr>st_runs := dset rid (resumed_run rq norm now cur) (st_runs s),
             st_events := dset (rv_run_id cur) (events_of s (rv_run_id cur) @ [ev]) (st_events s),
             st_run_control_idempotency := dset (pr_tenant_id p, pr_user_id p, ''run.resume'', key)
               (h, rid) (st_run_control_idempotency s)\<rparr>"
proof (cases "run_locked s p rid")
  case (Inl e)
  with assms have "res = Inl e" "s' = s" by (simp_all add: resume_run_def)
  then show ?thesis by (rule refused)
next
  case cur: (Inr cur)
  show ?thesis
  proof (cases "dget (st_run_control_idempotency s) (pr_tenant_id p, pr_user_id p, ''run.resume'', key)")
    case (Some hr)
    obtain h0 r0 where hr: "hr = (h0, r0)" by force
    show ?thesis
    proof (cases "h0 = h \<and> r0 = rid")
      case True
      show ?thesis
        by (rule replayed [OF cur]) (use assms cur Some hr True in \<open>simp_all add: resume_run_def\<close>)
    next
      case False
      with assms cur Some hr have "res = Inl IdempotencyConflict" "s' = s"
        by (auto simp: resume_run_def)
      then show ?thesis by (rule refused)
    qed
  next
    case None
    show ?thesis
    proof (cases "\<exists>pend norm. rv_control_version cur = ex \<and> rv_lifecycle_state cur = WAITING_INPUT \<and>
        rv_pending_input cur = Some pend \<and> pi_request_id pend = rq \<and> cnow < pi_expires_at pend \<and>
        validate_run_input_values di pend vals = Inr norm")
      case True
      then obtain pend norm where g: "rv_control_version cur = ex" "rv_lifecycle_state cur = WAITING_INPUT"
        "rv_pending_input cur = Some pend" "pi_request_id pend = rq" "cnow < pi_expires_at pend"
        "validate_run_input_values di pend vals = Inr norm" by blast
      have ids [simp]: "rv_run_id (resumed_run rq norm now cur) = rv_run_id cur"
        by (simp add: resumed_run_def)
      show ?thesis
        by (rule resumed [OF cur None g, of "fst (append_event_locked (resumed_run rq norm now cur)
              Ev_run_lifecycle_changed
              [(''previous_state'', JStr (lifecycle_value WAITING_INPUT)),
               (''lifecycle_state'', JStr (lifecycle_value QUEUED)),
               (''reason_code'', JStr ''INPUT_SUPPLIED''),
               (''control_version'', JInt (rv_control_version (resumed_run rq norm now cur)))]
              (rv_trace_id (resumed_run rq norm now cur)) now eid s)"])
          (use assms cur None g in \<open>simp_all add: resume_run_def append_event_locked_def events_of_def Let_def\<close>)
    next
      case False
      with assms cur None have "\<exists>e. res = Inl e \<and> s' = s"
        by (auto simp: resume_run_def Let_def split: if_splits option.splits sum.splits py_exception.splits)
      then show ?thesis using refused by blast
    qed
  qed
qed

lemma resume_run_inv:
  assumes inv: "store_inv s"
  shows "store_inv (snd (resume_run di p rid ex rq vals key h cnow now eid s))"
proof -
  obtain res s' where r: "resume_run di p rid ex rq vals key h cnow now eid s = (res, s')" by force
  then have "store_inv s'"
  proof (cases rule: resume_run_cases)
    case (resumed cur pend norm ev)
    have id: "rv_run_id cur = rid" by (rule locked_run_id [OF inv resumed(1)])
    have run: "dget (st_runs s) rid = Some cur" using resumed(1) by (auto dest!: run_locked_Inr)
    have "store_inv (s\<lparr>st_runs := dset rid (resumed_run rq norm now cur) (st_runs s),
             st_events := dset rid (events_of s rid @ [ev]) (st_events s)\<rparr>)"
      by (rule store_inv_run_event [OF inv run])
        (use resumed(10,11) id in \<open>simp_all add: run_scope_def resumed_run_def\<close>)
    then show ?thesis by (simp add: resumed(12) id)
  qed (simp_all add: inv)
  with r show ?thesis by simp
qed

section \<open>Artifacts\<close>

lemma store_inv_artifacts:
  "store_inv s \<Longrightarrow> artifacts_ok (s\<lparr>st_artifacts := A\<rparr>) \<Longrightarrow> store_inv (s\<lparr>st_artifacts := A\<rparr>)"
  by (simp add: store_inv_def trips_ok_def members_ok_def runs_ok_def events_ok_def leases_ok_def
      idempotency_ok_def trip_present_def)

lemma store_inv_put_versions:
  assumes "store_inv s" and "versions_ok aid vs"
    and "trip_present s (av_trip_id (hd vs)) (av_tenant_id (hd vs))"
  shows "store_inv (s\<lparr>st_artifacts := dset aid vs (st_artifacts s)\<rparr>)"
proof (rule store_inv_artifacts [OF assms(1)])
  have "artifacts_ok s" using assms(1) by (simp add: store_inv_def)
  with assms(2,3) show "artifacts_ok (s\<lparr>st_artifacts := dset aid vs (st_artifacts s)\<rparr>)"
    unfolding artifacts_ok_def by (simp add: trip_present_def)
qed

lemma create_artifact_cases:
  assumes "create_artifact p tid aidopt ty sv content st pv lo lnow now aid s = (res, s')"
  obtains (refused) e where "res = Inl e" "s' = s"
  | (created) t aid' where "trip_locked s p tid True = Inr t"
      "\<And>l. lo = Some l \<Longrightarrow> \<exists>r. assert_execution_lease_locked s p l (Some tid) lnow = Inr r"
      "aid' = (case aidopt of None \<Rightarrow> aid | Some i \<Rightarrow> if i = [] then aid else i)"
      "dget (st_artifacts s) aid' = None"
      "res = Inr (initial_artifact p tid aid' ty sv content st pv now)"
      "s' = s\<lparr>st_artifacts := dset aid' [initial_artifact p tid aid' ty sv content st pv now] (st_artifacts s)\<rparr>"
proof (cases "trip_locked s p tid True")
  case (Inl e)
  with assms have "res = Inl e" "s' = s" by (simp_all add: create_artifact_def)
  then show ?thesis by (rule refused)
next
  case t: (Inr t)
  let ?aid = "case aidopt of None \<Rightarrow> aid | Some i \<Rightarrow> if i = [] then aid else i"
  show ?thesis
  proof (cases "\<exists>l e. lo = Some l \<and> assert_execution_lease_locked s p l (Some tid) lnow = Inl e")
    case True
    with assms t have "\<exists>e. res = Inl e \<and> s' = s" by (auto simp: create_artifact_def)
    then show ?thesis using refused by blast
  next
    case False
    then have ok: "\<exists>r. assert_execution_lease_locked s p l (Some tid) lnow = Inr r" if "lo = Some l" for l
      using that by (cases "assert_execution_lease_locked s p l (Some tid) lnow") auto
    show ?thesis
    proof (cases "dget (st_artifacts s) ?aid")
      case None
      show ?thesis
        by (rule created [OF t ok refl None])
          (use assms t False ok None in
            \<open>auto simp: create_artifact_def Let_def split: option.splits sum.splits\<close>)
    next
      case (Some vs)
      with assms t ok have "\<exists>e. res = Inl e \<and> s' = s"
        by (auto simp: create_artifact_def Let_def split: option.splits sum.splits)
      then show ?thesis using refused by blast
    qed
  qed
qed

lemma create_artifact_inv:
  assumes inv: "store_inv s"
  shows "store_inv (snd (create_artifact p tid aidopt ty sv content st pv lo lnow now aid s))"
proof -
  obtain res s' where r: "create_artifact p tid aidopt ty sv content st pv lo lnow now aid s = (res, s')"
    by force
  then have "store_inv s'"
  proof (cases rule: create_artifact_cases)
    case (created t aid')
    have "trip_present s tid (pr_tenant_id p)"
      using created(1) by (auto dest!: trip_locked_Inr simp: trip_present_def)
    then show ?thesis
      unfolding created(6)
      by (intro store_inv_put_versions [OF inv]) (simp_all add: versions_ok_def initial_artifact_def)
  qed (simp add: inv)
  with r show ?thesis by simp
qed

text \<open>The latest version of a well-formed history is its last element.\<close>

lemma latest_version_ge: "av_version b \<le> av_version (latest_version b as)"
  by (induction as arbitrary: b) (auto, metis (no_types, lifting) less_imp_le order_trans)

lemma latest_version_max: "x \<in> insert b (set as) \<Longrightarrow> av_version x \<le> av_version (latest_version b as)"
proof (induction as arbitrary: b)
  case (Cons a as)
  show ?case
  proof (cases "x = a \<or> x = b")
    case True
    then show ?thesis
      using latest_version_ge [of "if av_version b < av_version a then a else b" as]
      by (auto split: if_splits)
  next
    case False
    with Cons show ?thesis by auto
  qed
qed simp

lemma versions_nth:
  "versions_ok aid vs \<Longrightarrow> i < length vs \<Longrightarrow> av_version (vs ! i) = int i + 1"
proof -
  assume v: "versions_ok aid vs" and i: "i < length vs"
  then have "map av_version vs ! i = map int [1..<length vs + 1] ! i" by (simp add: versions_ok_def)
  with i show ?thesis by (simp add: nth_upt del: upt_Suc)
qed

lemma versions_last:
  assumes "versions_ok aid vs"
  shows "av_version (last vs) = int (length vs)"
  using versions_nth [OF assms, of "length vs - 1"] assms
  by (cases vs) (auto simp: versions_ok_def last_conv_nth)

lemma versions_inj:
  assumes v: "versions_ok aid vs" and a: "a \<in> set vs" and b: "b \<in> set vs"
    and e: "av_version a = av_version b"
  shows "a = b"
proof -
  from a b obtain i j where "i < length vs" "a = vs ! i" "j < length vs" "b = vs ! j"
    by (metis in_set_conv_nth)
  with versions_nth [OF v] e show ?thesis by simp
qed

lemma latest_version_last:
  assumes "versions_ok aid (a # as)"
  shows "latest_version a as = last (a # as)"
proof (rule versions_inj [OF assms])
  show l: "latest_version a as \<in> set (a # as)" using latest_version_in by simp
  have "last (a # as) \<in> insert a (set as)" by (metis last_in_set list.discI list.simps(15))
  from latest_version_max [OF this] have "av_version (last (a # as)) \<le> av_version (latest_version a as)" .
  moreover from l obtain i where "i < length (a # as)" "latest_version a as = (a # as) ! i"
    by (metis in_set_conv_nth)
  then have "av_version (latest_version a as) \<le> av_version (last (a # as))"
    using versions_nth [OF assms] versions_last [OF assms] by simp
  ultimately show "av_version (latest_version a as) = av_version (last (a # as))" by simp
qed simp

lemma artifact_locked_latest:
  assumes inv: "store_inv s" and a: "artifact_locked s p aid None w = Inr cur"
  shows "\<exists>vs. dget (st_artifacts s) aid = Some vs \<and> versions_ok aid vs \<and> cur = last vs \<and> cur \<in> set vs \<and>
              av_artifact_id cur = aid \<and> trip_present s (av_trip_id (hd vs)) (av_tenant_id (hd vs)) \<and>
              av_version cur = int (length vs) \<and> (\<exists>t. trip_locked s p (av_trip_id cur) w = Inr t)"
proof -
  from a obtain vs where vs: "dget (st_artifacts s) aid = Some vs" "cur \<in> set vs"
    and t: "\<exists>t. trip_locked s p (av_trip_id cur) w = Inr t" by (auto dest!: artifact_locked_Inr)
  then have v: "versions_ok aid vs" "trip_present s (av_trip_id (hd vs)) (av_tenant_id (hd vs))"
    using inv by (auto simp: store_inv_def artifacts_ok_def)
  obtain x xs where xs: "vs = x # xs" using v(1) by (cases vs) (auto simp: versions_ok_def)
  have "cur = latest_version x xs"
    using a vs(1) by (auto simp: artifact_locked_def xs split: sum.splits)
  with latest_version_last v(1) xs have "cur = last vs" by simp
  moreover have "av_artifact_id cur = aid" using v(1) vs(2) by (simp add: versions_ok_def)
  ultimately show ?thesis using vs v t versions_last [OF v(1)] by auto
qed

lemma patch_artifact_cases:
  assumes "patch_artifact vc p aid rq now s = (res, s')"
  obtains (refused) e where "res = Inl e" "s' = s"
  | (patched) cur vs content where "artifact_locked s p aid None True = Inr cur"
      "ensure_artifact_mutable cur = Inr ()" "ap_base_version rq = av_version cur"
      "validate_artifact_patch_content vc cur rq = Inr content"
      "dget (st_artifacts s) aid = Some vs" "res = Inr (next_version cur content now)"
      "s' = s\<lparr>st_artifacts := dset aid (vs @ [next_version cur content now]) (st_artifacts s)\<rparr>"
proof (cases "artifact_locked s p aid None True")
  case (Inl e)
  with assms have "res = Inl e" "s' = s" by (simp_all add: patch_artifact_def)
  then show ?thesis by (rule refused)
next
  case cur: (Inr cur)
  obtain vs where vs: "dget (st_artifacts s) aid = Some vs"
    using artifact_locked_Inr [OF cur] by blast
  consider e where "ensure_artifact_mutable cur = Inl e"
    | "ensure_artifact_mutable cur = Inr ()" "ap_base_version rq \<noteq> av_version cur"
    | e where "ensure_artifact_mutable cur = Inr ()" "ap_base_version rq = av_version cur"
        "validate_artifact_patch_content vc cur rq = Inl e"
    | c where "ensure_artifact_mutable cur = Inr ()" "ap_base_version rq = av_version cur"
        "validate_artifact_patch_content vc cur rq = Inr c"
    by (cases "ensure_artifact_mutable cur"; cases "validate_artifact_patch_content vc cur rq") auto
  then show ?thesis
  proof cases
    case (4 c)
    show ?thesis
      by (rule patched [OF cur 4 vs])
        (use assms cur 4 vs in \<open>simp_all add: patch_artifact_def Let_def\<close>)
  qed (use assms cur refused in \<open>simp_all add: patch_artifact_def, fastforce+\<close>)
qed

lemma versions_ok_snoc:
  assumes "versions_ok aid vs" and "cur \<in> set vs" and "av_version cur = int (length vs)"
  shows "versions_ok aid (vs @ [next_version cur content now])"
proof -
  have n: "av_artifact_id (next_version cur content now) = av_artifact_id cur"
    "av_trip_id (next_version cur content now) = av_trip_id cur"
    "av_tenant_id (next_version cur content now) = av_tenant_id cur"
    "av_version (next_version cur content now) = int (length vs) + 1"
    using assms(3) by (simp_all add: next_version_def)
  from assms(1,2) have "av_artifact_id cur = aid" "av_trip_id cur = av_trip_id (hd vs)"
    "av_tenant_id cur = av_tenant_id (hd vs)" unfolding versions_ok_def by blast+
  moreover from assms(1) have "vs \<noteq> []" "map av_version vs = map int [1..<length vs + 1]"
    unfolding versions_ok_def by blast+
  moreover have "artifact_scope (next_version cur content now) = artifact_scope cur"
    using n by (simp add: artifact_scope_def)
  ultimately show ?thesis
    using assms(1) n unfolding versions_ok_alt by (auto simp: artifact_scope_def)
qed

lemma patch_artifact_inv:
  assumes inv: "store_inv s"
  shows "store_inv (snd (patch_artifact vc p aid rq now s))"
proof -
  obtain res s' where r: "patch_artifact vc p aid rq now s = (res, s')" by force
  then have "store_inv s'"
  proof (cases rule: patch_artifact_cases)
    case (patched cur vs content)
    from artifact_locked_latest [OF inv patched(1)] patched(5)
    have v: "versions_ok aid vs" "cur \<in> set vs" "av_version cur = int (length vs)"
      "trip_present s (av_trip_id (hd vs)) (av_tenant_id (hd vs))" by auto
    then have "vs \<noteq> []" by auto
    with v show ?thesis
      unfolding patched(7)
      by (intro store_inv_put_versions [OF inv versions_ok_snoc]) simp_all
  qed (simp add: inv)
  with r show ?thesis by simp
qed

lemma command_effects_inv:
  assumes inv: "store_inv s"
  shows "store_inv (snd (command_effects p cur tg now s))"
proof (cases "trip_locked s p (av_trip_id cur) True")
  case (Inl e)
  with inv show ?thesis by (simp add: command_effects_def Let_def supersede_inv)
next
  case (Inr t)
  have id: "tv_trip_id t = av_trip_id cur"
    using inv Inr by (auto dest!: trip_locked_Inr simp: store_inv_def trips_ok_def)
  from Inr inv show ?thesis
    by (auto simp: command_effects_def Let_def id supersede_inv
        intro!: store_inv_edit_locked_trip [where p = p and w = True and t = t])
qed

lemma command_artifact_cases:
  assumes "command_artifact p aid rq key h now s = (res, s')"
  obtains (refused) e where "res = Inl e" "s' = s"
  | (replayed) cur a where "artifact_locked s p aid None True = Inr cur"
      "dget (st_artifact_idempotency s) (pr_tenant_id p, pr_user_id p, aid, key) = Some (h, a)"
      "res = Inr \<lparr>ia_artifact = a, ia_replayed = True\<rparr>" "s' = s"
  | (applied) cur vs req tg res2 s2 where "artifact_locked s p aid None True = Inr cur"
      "ensure_artifact_mutable cur = Inr ()"
      "dget (st_artifact_idempotency s) (pr_tenant_id p, pr_user_id p, aid, key) = None"
      "ac_base_version rq = av_version cur" "artifact_transition (ac_type rq) = (req, tg)"
      "av_status cur = req" "dget (st_artifacts s) aid = Some vs"
      "command_effects p cur tg now (restatus aid cur tg vs s) = (res2, s2)"
      "(res, s') = (case res2 of Inl e \<Rightarrow> (Inl e, s2)
         | Inr _ \<Rightarrow> (Inr \<lparr>ia_artifact = cur\<lparr>av_status := tg\<rparr>, ia_replayed = False\<rparr>,
             s2\<lparr>st_artifact_idempotency := dset (pr_tenant_id p, pr_user_id p, aid, key)
                 (h, cur\<lparr>av_status := tg\<rparr>) (st_artifact_idempotency s2)\<rparr>))"
proof (cases "artifact_locked s p aid None True")
  case (Inl e)
  with assms have "res = Inl e" "s' = s" by (simp_all add: command_artifact_def)
  then show ?thesis by (rule refused)
next
  case cur: (Inr cur)
  let ?sc = "(pr_tenant_id p, pr_user_id p, aid, key)"
  obtain req tg where tr: "artifact_transition (ac_type rq) = (req, tg)" by force
  obtain vs where vs: "dget (st_artifacts s) aid = Some vs"
    using artifact_locked_Inr [OF cur] by blast
  obtain res2 s2 where ef: "command_effects p cur tg now (restatus aid cur tg vs s) = (res2, s2)" by force
  show ?thesis
  proof (cases "ensure_artifact_mutable cur")
    case (Inl e)
    with assms cur have "res = Inl e" "s' = s" by (simp_all add: command_artifact_def)
    then show ?thesis by (rule refused)
  next
    case m: (Inr u)
    show ?thesis
    proof (cases "dget (st_artifact_idempotency s) ?sc")
      case (Some hr)
      obtain h0 a where hr: "hr = (h0, a)" by force
      show ?thesis
        using assms cur m Some hr refused replayed [OF cur]
        by (auto simp: command_artifact_def split: if_splits)
    next
      case None
      show ?thesis
      proof (cases "ac_base_version rq = av_version cur \<and> av_status cur = req")
        case False
        with assms cur m None tr have "\<exists>e. res = Inl e \<and> s' = s"
          by (auto simp: command_artifact_def split: if_splits)
        then show ?thesis using refused by blast
      next
        case True
        with assms cur m None tr vs ef have
          "(res, s') = (case res2 of Inl e \<Rightarrow> (Inl e, s2)
             | Inr _ \<Rightarrow> (Inr \<lparr>ia_artifact = cur\<lparr>av_status := tg\<rparr>, ia_replayed = False\<rparr>,
               s2\<lparr>st_artifact_idempotency := dset ?sc (h, cur\<lparr>av_status := tg\<rparr>) (st_artifact_idempotency s2)\<rparr>))"
          by (auto simp: command_artifact_def Let_def split: sum.splits)
        with True m show ?thesis by (intro applied [OF cur _ None _ tr _ vs ef]) simp_all
      qed
    qed
  qed
qed

lemma command_artifact_inv:
  assumes inv: "store_inv s"
  shows "store_inv (snd (command_artifact p aid rq key h now s))"
proof -
  obtain res s' where r: "command_artifact p aid rq key h now s = (res, s')" by force
  then have "store_inv s'"
  proof (cases rule: command_artifact_cases)
    case (applied cur vs req tg res2 s2)
    have "store_inv s2"
      using command_effects_inv [OF restatus_inv [OF inv applied(7)], of p cur tg now] applied(8)
      by (metis snd_conv)
    with applied(9) show ?thesis by (cases res2) simp_all
  qed (simp_all add: inv)
  with r show ?thesis by simp
qed

end
