(* ===== verification/Lease_Contract.thy ===== *)
theory Lease_Contract
  imports Prelude
begin

text \<open>
  Two contracts that both stores of the repository promise their clients: a fenced execution
  lease and an optimistic compare-and-set on versioned records. The client's guarantees over any
  interleaving of steps are proved here once and used through interpretations.
\<close>

section \<open>Fenced leases\<close>

text \<open>
  \<open>holder s k\<close> is the current lease on \<open>k\<close> (owner, fencing attempt, expiry) and \<open>issued s k\<close> the
  number of attempts issued so far. A step either keeps a lease, possibly with a new expiry,
  drops it, or issues the next attempt.
\<close>

locale fenced_lease =
  fixes wf :: "'s \<Rightarrow> bool"
    and step :: "'s \<Rightarrow> 's \<Rightarrow> bool"
    and holder :: "'s \<Rightarrow> 'k \<Rightarrow> (string \<times> int \<times> instant) option"
    and issued :: "'s \<Rightarrow> 'k \<Rightarrow> int"
  assumes wf_step: "wf s \<Longrightarrow> step s s' \<Longrightarrow> wf s'"
    and holder_issued: "wf s \<Longrightarrow> holder s k = Some (w, a, u) \<Longrightarrow> a \<le> issued s k"
    and issued_step: "wf s \<Longrightarrow> step s s' \<Longrightarrow> issued s k \<le> issued s' k"
    and holder_step: "wf s \<Longrightarrow> step s s' \<Longrightarrow> holder s' k = Some (w, a, u) \<Longrightarrow>
          (\<exists>u0. holder s k = Some (w, a, u0)) \<or> a = issued s k + 1"
begin

lemma wf_steps: "step\<^sup>*\<^sup>* s s' \<Longrightarrow> wf s \<Longrightarrow> wf s'"
  by (induction rule: rtranclp_induct) (auto intro: wf_step)

lemma issued_steps: "step\<^sup>*\<^sup>* s s' \<Longrightarrow> wf s \<Longrightarrow> issued s k \<le> issued s' k"
proof (induction rule: rtranclp_induct)
  case (step y z)
  then have "wf y" using wf_steps by blast
  with issued_step step show ?case by (meson order_trans)
qed simp

text \<open>Once an issued attempt is not held, no later step makes it the holder again.\<close>

lemma stale_forever:
  assumes "step\<^sup>*\<^sup>* s s'" and "wf s" and "a \<le> issued s k"
    and "\<And>w u. holder s k \<noteq> Some (w, a, u)"
  shows "holder s' k \<noteq> Some (w, a, u)"
  using assms
proof (induction arbitrary: w u rule: rtranclp_induct)
  case (step y z)
  have wf: "wf y" using step wf_steps by blast
  have i: "a \<le> issued y k" using step issued_steps by (meson order_trans)
  show ?case
  proof
    assume "holder z k = Some (w, a, u)"
    from holder_step [OF wf step.hyps(2) this] i
    obtain u0 where "holder y k = Some (w, a, u0)" by auto
    with step show False by blast
  qed
qed simp

text \<open>A fencing attempt belongs to one owner for ever, and later leases carry no smaller attempt.\<close>

lemma attempts_ordered:
  assumes "step\<^sup>*\<^sup>* s s'" and "wf s" and "holder s k = Some (w, a, u)"
    and "holder s' k = Some (w', a', u')"
  shows "a \<le> a' \<and> (a = a' \<longrightarrow> w = w')"
  using assms
proof (induction arbitrary: w' a' u' rule: rtranclp_induct)
  case (step y z)
  have wf: "wf y" using step wf_steps by blast
  from holder_step [OF wf step.hyps(2) step.prems(3)] show ?case
  proof
    assume "\<exists>u0. holder y k = Some (w', a', u0)"
    with step show ?thesis by blast
  next
    assume "a' = issued y k + 1"
    moreover have "a \<le> issued s k" using holder_issued step.prems by blast
    moreover have "issued s k \<le> issued y k" using issued_steps step by blast
    ultimately show ?thesis by simp
  qed
qed simp

text \<open>A superseded attempt is never the current one again.\<close>

lemma superseded_forever:
  assumes "step\<^sup>*\<^sup>* s s'" and "wf s" and "holder s k = Some (w, a, u)" and "b < a"
  shows "holder s' k \<noteq> Some (w', b, u')"
  using stale_forever [OF assms(1,2), where a = b and k = k] assms holder_issued by fastforce

end

section \<open>Optimistic compare-and-set\<close>

text \<open>
  \<open>ver s k\<close> is the version of record \<open>k\<close>. Steps never lower it, and a successful compare-and-set
  \<open>cas k expected s s'\<close> finds the expected version and raises it.
\<close>

locale versioned_cas =
  fixes wf :: "'s \<Rightarrow> bool"
    and step :: "'s \<Rightarrow> 's \<Rightarrow> bool"
    and ver :: "'s \<Rightarrow> 'k \<Rightarrow> int option"
    and cas :: "'k \<Rightarrow> int \<Rightarrow> 's \<Rightarrow> 's \<Rightarrow> bool"
  assumes wf_step: "wf s \<Longrightarrow> step s s' \<Longrightarrow> wf s'"
    and ver_step: "wf s \<Longrightarrow> step s s' \<Longrightarrow> ver s k = Some v \<Longrightarrow> \<exists>v'. ver s' k = Some v' \<and> v \<le> v'"
    and cas_step: "wf s \<Longrightarrow> cas k e s s' \<Longrightarrow> step s s'"
    and cas_ver: "wf s \<Longrightarrow> cas k e s s' \<Longrightarrow> ver s k = Some e \<and> ver s' k = Some (e + 1)"
begin

lemma ver_steps:
  assumes "step\<^sup>*\<^sup>* s s'" and "wf s" and "ver s k = Some v"
  shows "wf s' \<and> (\<exists>v'. ver s' k = Some v' \<and> v \<le> v')"
  using assms
proof (induction rule: rtranclp_induct)
  case (step y z)
  then obtain v1 where "wf y" "ver y k = Some v1" "v \<le> v1" by blast
  with ver_step step.hyps(2) wf_step show ?case by (meson order_trans)
qed simp

text \<open>No lost update: of two writers that read the same version, at most one succeeds.\<close>

lemma no_lost_update:
  assumes "wf s" and "cas k e s s1" and "step\<^sup>*\<^sup>* s1 s2"
  shows "\<not> cas k e s2 s3"
proof
  assume c: "cas k e s2 s3"
  have w1: "wf s1" using assms wf_step cas_step by blast
  have "ver s1 k = Some (e + 1)" using assms cas_ver by blast
  from ver_steps [OF assms(3) w1 this] obtain v' where "wf s2" "ver s2 k = Some v'" "e + 1 \<le> v'"
    by blast
  with cas_ver c show False by fastforce
qed

end

end
