(* ===== verification/Store_Reach.thy ===== *)
theory Store_Reach
  imports Store_Steps Lease_Contract
begin

text \<open>
  The operations of the platform store as one step relation, the invariants of every reachable
  store, and what no step ever takes back: Trips, Run identities, event logs, Artifact histories
  and fencing counters only grow.
\<close>

section \<open>The step relation\<close>

text \<open>
  One rule per mutating operation, for any caller, arguments and clock; a raised error is a step
  too. Identifiers drawn by \<^verbatim>\<open>new_public_id\<close> are fresh, and no caller of \<open>create_artifact\<close> in the
  repository passes the status PUBLISHED.
\<close>

inductive store_step :: "platform_store \<Rightarrow> platform_store \<Rightarrow> bool" where
  create_trip: "dget (st_trips s) tid = None \<Longrightarrow> store_step s (snd (create_trip p tc now tid s))"
| patch_trip: "store_step s (snd (patch_trip p tid tp now s))"
| set_trip_status: "store_step s (snd (set_trip_status p tid st now s))"
| upsert_trip_member: "store_step s (snd (upsert_trip_member p tid u g now s))"
| remove_trip_member: "store_step s (snd (remove_trip_member p tid u s))"
| create_run: "dget (st_runs s) rid = None \<Longrightarrow>
    store_step s (snd (create_run p tid c bi bv key h tr now rid eid s))"
| claim_run_execution: "store_step s (snd (claim_run_execution p rid ow us now s))"
| renew_run_execution: "store_step s (snd (renew_run_execution p l us now now' s))"
| release_run_execution: "store_step s (snd (release_run_execution p l s))"
| mutate_run: "store_step s (snd (mutate_run p rid ex m lo ty d lnow now eid s))"
| resume_run: "store_step s (snd (resume_run di p rid ex rq vals key h cnow now eid s))"
| create_artifact: "st \<noteq> PUBLISHED \<Longrightarrow>
    store_step s (snd (create_artifact p tid aidopt ty' sv content st pv lo lnow now aid s))"
| patch_artifact: "store_step s (snd (patch_artifact vc p aid ap now s))"
| command_artifact: "store_step s (snd (command_artifact p aid ac key h now s))"

inductive store_reachable :: "platform_store \<Rightarrow> bool" where
  initial: "store_reachable empty_store"
| step: "store_reachable s \<Longrightarrow> store_step s s' \<Longrightarrow> store_reachable s'"

lemmas store_inv_ops = create_trip_inv patch_trip_inv set_trip_status_inv upsert_trip_member_inv
  remove_trip_member_inv create_run_inv claim_run_execution_inv renew_run_execution_inv
  release_run_execution_inv mutate_run_inv resume_run_inv create_artifact_inv patch_artifact_inv
  command_artifact_inv

lemma store_step_inv: "store_step s s' \<Longrightarrow> store_inv s \<Longrightarrow> store_inv s'"
  by (induction rule: store_step.induct) (simp_all add: store_inv_ops)

lemma empty_store_inv [simp]: "store_inv empty_store"
  by (simp add: store_inv_defs empty_store_def)

lemma store_reachable_inv: "store_reachable s \<Longrightarrow> store_inv s"
  by (induction rule: store_reachable.induct) (auto intro: store_step_inv)

section \<open>What every step keeps\<close>

definition runs_kept :: "platform_store \<Rightarrow> platform_store \<Rightarrow> bool" where
  "runs_kept s s' \<longleftrightarrow>
     (\<forall>rid r. dget (st_runs s) rid = Some r \<longrightarrow>
        (\<exists>r'. dget (st_runs s') rid = Some r' \<and> run_scope r' = run_scope r \<and>
              rv_control_version r \<le> rv_control_version r'))"

definition logs_kept :: "platform_store \<Rightarrow> platform_store \<Rightarrow> bool" where
  "logs_kept s s' \<longleftrightarrow> (\<forall>rid. \<exists>es. events_of s' rid = events_of s rid @ es)"

definition attempts_of :: "platform_store \<Rightarrow> string \<Rightarrow> int" where
  "attempts_of s rid = (case dget (st_execution_attempts s) rid of None \<Rightarrow> 0 | Some n \<Rightarrow> n)"

definition store_extends :: "platform_store \<Rightarrow> platform_store \<Rightarrow> bool" where
  "store_extends s s' \<longleftrightarrow> trips_kept s s' \<and> runs_kept s s' \<and> logs_kept s s' \<and> history_kept s s' \<and>
     (\<forall>rid. attempts_of s rid \<le> attempts_of s' rid)"

lemma history_kept_same: "same_history s s' \<Longrightarrow> history_kept s s'"
  unfolding history_kept_def same_history_def
proof (intro allI impI)
  fix aid vs
  assume h: "\<forall>aid. map_option (map artifact_core) (dget (st_artifacts s') aid) =
      map_option (map artifact_core) (dget (st_artifacts s) aid)" and "dget (st_artifacts s) aid = Some vs"
  then have "map_option (map artifact_core) (dget (st_artifacts s') aid) = Some (map artifact_core vs)"
    by simp
  then show "\<exists>vs' ws. dget (st_artifacts s') aid = Some (vs' @ ws) \<and>
      map artifact_core vs' = map artifact_core vs"
    by (cases "dget (st_artifacts s') aid") (auto intro: exI [of _ "[]"])
qed

lemma history_kept_trans:
  assumes "history_kept s t" and "history_kept t u"
  shows "history_kept s u"
  unfolding history_kept_def
proof (intro allI impI)
  fix aid vs
  assume "dget (st_artifacts s) aid = Some vs"
  with assms(1) obtain vs1 ws1 where 1: "dget (st_artifacts t) aid = Some (vs1 @ ws1)"
    "map artifact_core vs1 = map artifact_core vs" unfolding history_kept_def by blast
  with assms(2) obtain vs2 ws2 where 2: "dget (st_artifacts u) aid = Some (vs2 @ ws2)"
    "map artifact_core vs2 = map artifact_core (vs1 @ ws1)" unfolding history_kept_def by blast
  let ?n = "length vs1"
  have "map artifact_core (take ?n vs2) = map artifact_core vs"
    using 1(2) 2(2) map_eq_imp_length_eq [OF 1(2)] by (simp add: take_map [symmetric])
  moreover have "vs2 @ ws2 = take ?n vs2 @ (drop ?n vs2 @ ws2)" by simp
  ultimately show "\<exists>vs' ws. dget (st_artifacts u) aid = Some (vs' @ ws) \<and>
      map artifact_core vs' = map artifact_core vs" using 2(1) by metis
qed

lemma trips_kept_trans: "trips_kept s t \<Longrightarrow> trips_kept t u \<Longrightarrow> trips_kept s u"
  unfolding trips_kept_def
proof (intro allI impI)
  fix tid a
  let ?le = "\<lambda>x y. tv_trip_id y = tv_trip_id x \<and> tv_tenant_id y = tv_tenant_id x \<and>
      tv_owner_id y = tv_owner_id x \<and> tv_version x \<le> tv_version y"
  assume 1: "\<forall>tid x. dget (st_trips s) tid = Some x \<longrightarrow> (\<exists>y. dget (st_trips t) tid = Some y \<and> ?le x y)"
    and 2: "\<forall>tid x. dget (st_trips t) tid = Some x \<longrightarrow> (\<exists>y. dget (st_trips u) tid = Some y \<and> ?le x y)"
    and "dget (st_trips s) tid = Some a"
  then obtain b where b: "dget (st_trips t) tid = Some b" "?le a b" by blast
  with 2 obtain c where "dget (st_trips u) tid = Some c" "?le b c" by blast
  with b(2) show "\<exists>y. dget (st_trips u) tid = Some y \<and> ?le a y" by auto
qed

lemma runs_kept_trans: "runs_kept s t \<Longrightarrow> runs_kept t u \<Longrightarrow> runs_kept s u"
  unfolding runs_kept_def
proof (intro allI impI)
  fix rid a
  let ?le = "\<lambda>x y. run_scope y = run_scope x \<and> rv_control_version x \<le> rv_control_version y"
  assume 1: "\<forall>rid x. dget (st_runs s) rid = Some x \<longrightarrow> (\<exists>y. dget (st_runs t) rid = Some y \<and> ?le x y)"
    and 2: "\<forall>rid x. dget (st_runs t) rid = Some x \<longrightarrow> (\<exists>y. dget (st_runs u) rid = Some y \<and> ?le x y)"
    and "dget (st_runs s) rid = Some a"
  then obtain b where b: "dget (st_runs t) rid = Some b" "?le a b" by blast
  with 2 obtain c where "dget (st_runs u) rid = Some c" "?le b c" by blast
  with b(2) show "\<exists>y. dget (st_runs u) rid = Some y \<and> ?le a y" by auto
qed

lemma logs_kept_trans: "logs_kept s t \<Longrightarrow> logs_kept t u \<Longrightarrow> logs_kept s u"
  unfolding logs_kept_def by (metis append_assoc)

lemma store_extends_trans: "store_extends s t \<Longrightarrow> store_extends t u \<Longrightarrow> store_extends s u"
  unfolding store_extends_def
  by (metis trips_kept_trans runs_kept_trans logs_kept_trans history_kept_trans order_trans)

lemma store_extends_refl [simp]: "store_extends s s"
  by (auto simp: store_extends_def runs_kept_def logs_kept_def history_kept_same)

text \<open>A step that leaves Runs, events and Artifacts alone.\<close>

definition calm :: "platform_store \<Rightarrow> platform_store \<Rightarrow> bool" where
  "calm s s' \<longleftrightarrow> st_runs s' = st_runs s \<and> st_events s' = st_events s \<and>
     st_artifacts s' = st_artifacts s \<and> trips_kept s s' \<and>
     (\<forall>rid. attempts_of s rid \<le> attempts_of s' rid)"

lemma calm_extends: "calm s s' \<Longrightarrow> store_extends s s'"
  by (auto simp: calm_def store_extends_def runs_kept_def logs_kept_def events_of_def history_kept_def)

lemma calm_refl [simp]: "calm s s"
  by (simp add: calm_def)

lemma calm_attempts: "st_execution_attempts s' = st_execution_attempts s \<Longrightarrow>
   st_runs s' = st_runs s \<Longrightarrow> st_events s' = st_events s \<Longrightarrow> st_artifacts s' = st_artifacts s \<Longrightarrow>
   trips_kept s s' \<Longrightarrow> calm s s'"
  by (simp add: calm_def attempts_of_def)

lemma create_trip_calm: "dget (st_trips s) tid = None \<Longrightarrow> calm s (snd (create_trip p tc now tid s))"
  by (rule calm_attempts) (auto simp: create_trip_def Let_def trips_kept_def)

lemma patch_trip_calm: "calm s (snd (patch_trip p tid tp now s))"
  by (cases "trip_locked s p tid True")
    (auto simp: patch_trip_def Let_def apply_trip_patch_def trips_kept_def dest!: trip_locked_Inr
      intro!: calm_attempts)

lemma set_trip_status_calm: "calm s (snd (set_trip_status p tid st now s))"
  by (cases "trip_locked s p tid True")
    (auto simp: set_trip_status_def Let_def trips_kept_def dest!: trip_locked_Inr intro!: calm_attempts)

lemma upsert_trip_member_calm: "calm s (snd (upsert_trip_member p tid u g now s))"
  by (cases "trip_locked s p tid True") (auto simp: upsert_trip_member_def Let_def intro!: calm_attempts)

lemma remove_trip_member_calm: "calm s (snd (remove_trip_member p tid u s))"
  by (cases "trip_locked s p tid True") (auto simp: remove_trip_member_def intro!: calm_attempts)

lemma next_attempt_alt: "next_attempt s rid = attempts_of s rid + 1"
  by (simp add: next_attempt_def attempts_of_def)

lemma claim_run_execution_calm: "calm s (snd (claim_run_execution p rid ow us now s))"
proof -
  obtain res s' where r: "claim_run_execution p rid ow us now s = (res, s')" by force
  then have "calm s s'"
  proof (cases rule: claim_run_execution_cases)
    case (claimed x)
    have "attempts_of s r \<le> attempts_of s' r" for r
      using next_attempt_alt [of s rid] by (simp add: claimed(6) attempts_of_def)
    then show ?thesis by (simp add: calm_def claimed(6))
  qed simp_all
  with r show ?thesis by simp
qed

lemma renew_run_execution_calm: "calm s (snd (renew_run_execution p l us now now' s))"
proof -
  obtain res s' where r: "renew_run_execution p l us now now' s = (res, s')" by force
  then have "calm s s'"
    by (cases rule: renew_run_execution_cases) (simp_all add: calm_attempts)
  with r show ?thesis by simp
qed

lemma release_run_execution_calm: "calm s (snd (release_run_execution p l s))"
  by (auto simp: release_run_execution_def intro!: calm_attempts split: sum.split option.split)

lemmas calm_ops = create_trip_calm patch_trip_calm set_trip_status_calm upsert_trip_member_calm
  remove_trip_member_calm claim_run_execution_calm renew_run_execution_calm release_run_execution_calm

text \<open>Publication changes only statuses and the Trip pointer.\<close>

lemma restatus_same_history:
  "dget (st_artifacts s) aid = Some vs \<Longrightarrow> same_history s (restatus aid a x vs s)"
  by (rule replace_same_history)

lemma supersede_restatus_same_history:
  "dget (st_artifacts s) aid = Some vs \<Longrightarrow> same_history s (supersede_where P (restatus aid a x vs s))"
  by (rule same_history_trans [OF restatus_same_history supersede_same_history])

lemma trips_kept_locked:
  assumes "trip_locked s p tid w = Inr t" and "st_trips s' = dset tid t' (st_trips s)"
    and "tv_trip_id t' = tv_trip_id t" "tv_tenant_id t' = tv_tenant_id t"
      "tv_owner_id t' = tv_owner_id t" "tv_version t \<le> tv_version t'"
  shows "trips_kept s s'"
  using assms by (auto dest!: trip_locked_Inr intro!: trips_kept_dset)

lemma publish_result_history:
  "same_history s (snd (publish_result p cur a now s)) \<and> trips_kept s (snd (publish_result p cur a now s))"
proof -
  obtain res s' where r: "publish_result p cur a now s = (res, s')" by force
  then have "same_history s s' \<and> trips_kept s s'"
  proof (cases rule: publish_result_cases)
    case (plain vs st)
    with restatus_same_history [OF plain(1)] show ?thesis by simp
  next
    case (denied vs st e)
    with supersede_restatus_same_history [OF denied(1)] show ?thesis by simp
  next
    case (published vs st t)
    have "trips_kept s s'"
      by (rule trips_kept_locked [OF published(5), where t' = "t\<lparr>tv_current_artifact_id := Some (av_artifact_id st),
           tv_current_artifact_version := Some (av_version st), tv_version := tv_version t + 1,
           tv_updated_at := now\<rparr>"]) (simp_all add: published(7))
    moreover have "same_history s s'"
      using supersede_restatus_same_history [OF published(1)]
      by (simp add: published(7) same_history_def)
    ultimately show ?thesis by simp
  qed simp
  with r show ?thesis by simp
qed

lemma mutation_result_history:
  "same_history s (snd (mutation_result p cur m now s)) \<and> trips_kept s (snd (mutation_result p cur m now s))"
  using publish_result_history by (simp add: mutation_result_def split: option.split)

text \<open>A step that appends one event to one Run and updates its view.\<close>

lemma run_event_extends:
  assumes "dget (st_runs s) rid = Some r" and "run_scope r' = run_scope r"
    and "rv_control_version r \<le> rv_control_version r'"
    and "st_runs s' = dset rid r' (st_runs s)"
    and "st_events s' = dset rid (events_of s rid @ es) (st_events s)"
    and "same_history s s'" and "trips_kept s s'"
    and "st_execution_attempts s' = st_execution_attempts s"
  shows "store_extends s s'"
proof -
  have "events_of s' x = (if x = rid then events_of s rid @ es else events_of s x)" for x
    by (simp add: events_of_def [of s'] assms(5)) (simp add: events_of_def)
  then have "logs_kept s s'" by (simp add: logs_kept_def)
  moreover have "runs_kept s s'" using assms(1-4) by (simp add: runs_kept_def)
  ultimately show ?thesis
    using assms(6-8) by (simp add: store_extends_def history_kept_same attempts_of_def)
qed

lemma mutate_run_extends:
  assumes inv: "store_inv s"
  shows "store_extends s (snd (mutate_run p rid ex m lo ty d lnow now eid s))"
proof -
  obtain res s' where r: "mutate_run p rid ex m lo ty d lnow now eid s = (res, s')" by force
  then have "store_extends s s'"
  proof (cases rule: mutate_run_cases)
    case (unpublished cur e)
    have "s' = snd (mutation_result p cur m now s)" by (simp add: unpublished(4))
    then show ?thesis
      using mutation_result_history [of s p cur m now]
      by (simp add: store_extends_def runs_kept_def logs_kept_def events_of_def history_kept_same
          attempts_of_def)
  next
    case (mutated cur s1 ev)
    have s1: "s1 = snd (mutation_result p cur m now s)" by (simp add: mutated(4))
    have id: "rv_run_id cur = rid" by (rule locked_run_id [OF inv mutated(1)])
    have ev: "events_of s1 rid = events_of s rid" by (simp add: s1 events_of_def)
    have h: "same_history s s1" "trips_kept s s1"
      using mutation_result_history [of s p cur m now] by (simp_all add: s1)
    show ?thesis
    proof (rule run_event_extends [where rid = rid and r = cur and r' = "apply_mutation m now cur" and es = "[ev]"])
      show "dget (st_runs s) rid = Some cur" using mutated(1) by (auto dest!: run_locked_Inr)
      show "same_history s s'" using h(1) by (simp add: mutated(11) same_history_def)
      show "trips_kept s s'" using h(2) by (simp add: mutated(11) trips_kept_def)
    qed (simp_all add: mutated(11) id ev, simp_all add: s1)
  qed simp
  with r show ?thesis by simp
qed

lemma resume_run_extends:
  assumes inv: "store_inv s"
  shows "store_extends s (snd (resume_run di p rid ex rq vals key h cnow now eid s))"
proof -
  obtain res s' where r: "resume_run di p rid ex rq vals key h cnow now eid s = (res, s')" by force
  then have "store_extends s s'"
  proof (cases rule: resume_run_cases)
    case (resumed cur pend norm ev)
    have id: "rv_run_id cur = rid" by (rule locked_run_id [OF inv resumed(1)])
    show ?thesis
      by (rule run_event_extends [where rid = rid and r = cur and r' = "resumed_run rq norm now cur" and es = "[ev]"])
        (use resumed(1) in \<open>auto simp: resumed(12) id run_scope_def resumed_run_def same_history_def
          dest!: run_locked_Inr\<close>)
  qed simp_all
  with r show ?thesis by simp
qed

lemma create_run_extends:
  assumes inv: "store_inv s" and fresh: "dget (st_runs s) rid = None"
  shows "store_extends s (snd (create_run p tid c bi bv key h tr now rid eid s))"
proof -
  obtain res s' where r: "create_run p tid c bi bv key h tr now rid eid s = (res, s')" by force
  then have "store_extends s s'"
  proof (cases rule: create_run_cases)
    case (created trip ev)
    have no: "events_of s rid = []"
    proof -
      from inv fresh have "dget (st_events s) rid = None"
        unfolding store_inv_def events_ok_def by blast
      then show ?thesis by (simp add: events_of_def)
    qed
    have "events_of s' x = (if x = rid then [ev] else events_of s x)" for x
      by (simp add: created(9) events_of_def)
    with no have "logs_kept s s'" by (simp add: logs_kept_def)
    moreover have "runs_kept s s'" using fresh by (auto simp: created(9) runs_kept_def)
    ultimately show ?thesis
      by (simp add: store_extends_def history_kept_same same_history_def created(9) attempts_of_def)
  qed simp_all
  with r show ?thesis by simp
qed

lemma artifacts_only_extends:
  "history_kept s s' \<Longrightarrow> st_trips s' = st_trips s \<Longrightarrow> st_runs s' = st_runs s \<Longrightarrow> st_events s' = st_events s \<Longrightarrow>
   st_execution_attempts s' = st_execution_attempts s \<Longrightarrow> store_extends s s'"
  by (simp add: store_extends_def runs_kept_def logs_kept_def events_of_def attempts_of_def)

lemma create_artifact_extends:
  "store_extends s (snd (create_artifact p tid aidopt ty sv content st pv lo lnow now aid s))"
proof -
  obtain res s' where r: "create_artifact p tid aidopt ty sv content st pv lo lnow now aid s = (res, s')"
    by force
  then have "store_extends s s'"
  proof (cases rule: create_artifact_cases)
    case (created t aid')
    then show ?thesis by (intro artifacts_only_extends) (auto simp: history_kept_def)
  qed simp
  with r show ?thesis by simp
qed

lemma patch_artifact_extends: "store_extends s (snd (patch_artifact vc p aid ap now s))"
proof -
  obtain res s' where r: "patch_artifact vc p aid ap now s = (res, s')" by force
  then have "store_extends s s'"
  proof (cases rule: patch_artifact_cases)
    case (patched cur vs content)
    then show ?thesis by (intro artifacts_only_extends) (auto simp: history_kept_def)
  qed simp
  with r show ?thesis by simp
qed

lemma command_effects_history:
  assumes inv: "store_inv s"
  shows "same_history s (snd (command_effects p cur tg now s)) \<and>
         trips_kept s (snd (command_effects p cur tg now s))"
proof (cases "trip_locked s p (av_trip_id cur) True")
  case (Inl e)
  then show ?thesis by (simp add: command_effects_def Let_def)
next
  case (Inr t)
  have id: "tv_trip_id t = av_trip_id cur"
    using inv Inr by (auto dest!: trip_locked_Inr simp: store_inv_def trips_ok_def)
  have "same_history s (snd (command_effects p cur tg now s))"
    using supersede_same_history
    by (simp add: command_effects_def Inr Let_def same_history_def split: if_split)
  moreover have "trips_kept s (snd (command_effects p cur tg now s))"
    by (cases "tg = PUBLISHED \<or> tg = REVOKED")
      (auto simp: command_effects_def Inr Let_def id intro!: trips_kept_locked [OF Inr])
  ultimately show ?thesis by simp
qed

lemma command_artifact_extends:
  assumes inv: "store_inv s"
  shows "store_extends s (snd (command_artifact p aid ac key h now s))"
proof -
  obtain res s' where r: "command_artifact p aid ac key h now s = (res, s')" by force
  then have "store_extends s s'"
  proof (cases rule: command_artifact_cases)
    case (applied cur vs req tg res2 s2)
    let ?s1 = "restatus aid cur tg vs s"
    have s2: "s2 = snd (command_effects p cur tg now ?s1)" by (simp add: applied(8))
    have "same_history s s2"
      by (rule same_history_trans [OF restatus_same_history [OF applied(7), of cur tg]])
        (simp add: s2 command_effects_history [OF restatus_inv [OF inv applied(7)]])
    moreover have "trips_kept s s2"
      by (rule trips_kept_trans [of s ?s1])
        (simp_all add: s2 command_effects_history [OF restatus_inv [OF inv applied(7)]])
    ultimately have "store_extends s s2"
      by (simp add: store_extends_def history_kept_same runs_kept_def logs_kept_def events_of_def
          attempts_of_def s2)
    with applied(9) show ?thesis
      by (cases res2) (simp_all add: store_extends_def trips_kept_def runs_kept_def logs_kept_def
          events_of_def attempts_of_def history_kept_def)
  qed simp_all
  with r show ?thesis by simp
qed

lemma store_step_extends: "store_step s s' \<Longrightarrow> store_inv s \<Longrightarrow> store_extends s s'"
  by (induction rule: store_step.induct)
    (simp_all add: calm_ops [THEN calm_extends] mutate_run_extends resume_run_extends
      create_run_extends create_artifact_extends patch_artifact_extends command_artifact_extends)

lemma store_steps_extend:
  "store_step\<^sup>*\<^sup>* s s' \<Longrightarrow> store_inv s \<Longrightarrow> store_inv s' \<and> store_extends s s'"
proof (induction rule: rtranclp_induct)
  case (step y z)
  then show ?case using store_step_inv store_step_extends store_extends_trans by blast
qed simp

section \<open>Control versions count events\<close>

definition log_versioned :: "platform_store \<Rightarrow> bool" where
  "log_versioned s \<longleftrightarrow>
     (\<forall>rid r. dget (st_runs s) rid = Some r \<longrightarrow> rv_control_version r = int (length (events_of s rid)))"

lemma log_versioned_cong:
  "st_runs s' = st_runs s \<Longrightarrow> st_events s' = st_events s \<Longrightarrow> log_versioned s' = log_versioned s"
  by (simp add: log_versioned_def events_of_def)

lemma log_versioned_run_event:
  assumes "log_versioned s" and "dget (st_runs s) rid = Some r"
    and "rv_control_version r' = rv_control_version r + 1"
    and "st_runs s' = dset rid r' (st_runs s)"
    and "st_events s' = dset rid (events_of s rid @ [ev]) (st_events s)"
  shows "log_versioned s'"
proof -
  have "events_of s' x = (if x = rid then events_of s rid @ [ev] else events_of s x)" for x
    by (simp add: events_of_def [of s'] assms(5)) (simp add: events_of_def)
  with assms(1-4) show ?thesis by (simp add: log_versioned_def)
qed

lemma mutate_run_versioned:
  assumes inv: "store_inv s" and lv: "log_versioned s"
  shows "log_versioned (snd (mutate_run p rid ex m lo ty d lnow now eid s))"
proof -
  obtain res s' where r: "mutate_run p rid ex m lo ty d lnow now eid s = (res, s')" by force
  then have "log_versioned s'"
  proof (cases rule: mutate_run_cases)
    case (unpublished cur e)
    have "s' = snd (mutation_result p cur m now s)" by (simp add: unpublished(4))
    with lv show ?thesis by (metis log_versioned_cong mutation_result_frame(1,2))
  next
    case (mutated cur s1 ev)
    have s1: "s1 = snd (mutation_result p cur m now s)" by (simp add: mutated(4))
    have id: "rv_run_id cur = rid" by (rule locked_run_id [OF inv mutated(1)])
    have ev: "events_of s1 rid = events_of s rid" by (simp add: s1 events_of_def)
    show ?thesis
      by (rule log_versioned_run_event [OF lv, where rid = rid and r = cur
            and r' = "apply_mutation m now cur" and ev = ev])
        (use mutated(1) in \<open>auto simp: mutated(11) id ev dest!: run_locked_Inr\<close>, simp_all add: s1)
  qed (simp add: lv)
  with r show ?thesis by simp
qed

lemma resume_run_versioned:
  assumes inv: "store_inv s" and lv: "log_versioned s"
  shows "log_versioned (snd (resume_run di p rid ex rq vals key h cnow now eid s))"
proof -
  obtain res s' where r: "resume_run di p rid ex rq vals key h cnow now eid s = (res, s')" by force
  then have "log_versioned s'"
  proof (cases rule: resume_run_cases)
    case (resumed cur pend norm ev)
    have id: "rv_run_id cur = rid" by (rule locked_run_id [OF inv resumed(1)])
    show ?thesis
      by (rule log_versioned_run_event [OF lv, where rid = rid and r = cur
            and r' = "resumed_run rq norm now cur" and ev = ev])
        (use resumed(1) in \<open>auto simp: resumed(12) id resumed_run_def dest!: run_locked_Inr\<close>)
  qed (simp_all add: lv)
  with r show ?thesis by simp
qed

lemma create_run_versioned:
  assumes lv: "log_versioned s"
  shows "log_versioned (snd (create_run p tid c bi bv key h tr now rid eid s))"
proof -
  obtain res s' where r: "create_run p tid c bi bv key h tr now rid eid s = (res, s')" by force
  then have "log_versioned s'"
  proof (cases rule: create_run_cases)
    case (created trip ev)
    have "events_of s' x = (if x = rid then [ev] else events_of s x)" for x
      by (simp add: created(9) events_of_def)
    with lv show ?thesis by (simp add: log_versioned_def) (simp add: created(9) initial_run_def)
  qed (simp_all add: lv)
  with r show ?thesis by simp
qed

lemma calm_versioned: "calm s s' \<Longrightarrow> log_versioned s \<Longrightarrow> log_versioned s'"
  using log_versioned_cong [of s' s] by (simp add: calm_def)

lemma artifact_ops_frame [simp]:
  "st_runs (snd (create_artifact p tid aidopt ty sv content st pv lo lnow now aid s)) = st_runs s"
  "st_events (snd (create_artifact p tid aidopt ty sv content st pv lo lnow now aid s)) = st_events s"
  "st_runs (snd (patch_artifact vc p aid ap now s)) = st_runs s"
  "st_events (snd (patch_artifact vc p aid ap now s)) = st_events s"
proof -
  obtain res s' where r: "create_artifact p tid aidopt ty sv content st pv lo lnow now aid s = (res, s')"
    by force
  then have "st_runs s' = st_runs s \<and> st_events s' = st_events s"
    by (cases rule: create_artifact_cases) simp_all
  with r show "st_runs (snd (create_artifact p tid aidopt ty sv content st pv lo lnow now aid s)) = st_runs s"
    "st_events (snd (create_artifact p tid aidopt ty sv content st pv lo lnow now aid s)) = st_events s"
    by simp_all
next
  obtain res s' where r: "patch_artifact vc p aid ap now s = (res, s')" by force
  then have "st_runs s' = st_runs s \<and> st_events s' = st_events s"
    by (cases rule: patch_artifact_cases) simp_all
  with r show "st_runs (snd (patch_artifact vc p aid ap now s)) = st_runs s"
    "st_events (snd (patch_artifact vc p aid ap now s)) = st_events s" by simp_all
qed

lemma command_artifact_frame [simp]:
  "st_runs (snd (command_artifact p aid ac key h now s)) = st_runs s"
  "st_events (snd (command_artifact p aid ac key h now s)) = st_events s"
proof -
  obtain res s' where r: "command_artifact p aid ac key h now s = (res, s')" by force
  then have "st_runs s' = st_runs s \<and> st_events s' = st_events s"
  proof (cases rule: command_artifact_cases)
    case (applied cur vs req tg res2 s2)
    have "s2 = snd (command_effects p cur tg now (restatus aid cur tg vs s))" by (simp add: applied(8))
    with applied(9) show ?thesis by (cases res2) simp_all
  qed simp_all
  with r show "st_runs (snd (command_artifact p aid ac key h now s)) = st_runs s"
    "st_events (snd (command_artifact p aid ac key h now s)) = st_events s" by simp_all
qed

lemma store_step_versioned:
  "store_step s s' \<Longrightarrow> store_inv s \<Longrightarrow> log_versioned s \<Longrightarrow> log_versioned s'"
proof (induction rule: store_step.induct)
  case (create_artifact st s p tid aidopt ty sv content pv lo lnow now aid)
  then show ?case using log_versioned_cong by (metis artifact_ops_frame(1,2))
next
  case (patch_artifact s vc p aid ap now)
  then show ?case using log_versioned_cong by (metis artifact_ops_frame(3,4))
next
  case (command_artifact s p aid ac key h now)
  then show ?case using log_versioned_cong by (metis command_artifact_frame)
qed (simp_all add: calm_ops [THEN calm_versioned] mutate_run_versioned resume_run_versioned
      create_run_versioned)

lemma store_reachable_versioned: "store_reachable s \<Longrightarrow> log_versioned s"
proof (induction rule: store_reachable.induct)
  case initial
  then show ?case by (simp add: log_versioned_def empty_store_def)
next
  case (step s s')
  then show ?case using store_step_versioned store_reachable_inv by blast
qed

section \<open>One published TripSnapshot per Trip\<close>

definition published_snapshots :: "platform_store \<Rightarrow> string \<Rightarrow> ArtifactView set" where
  "published_snapshots s tid =
     {a. \<exists>aid vs. dget (st_artifacts s) aid = Some vs \<and> a \<in> set vs \<and> is_published_snapshot a \<and>
               av_trip_id a = tid}"

definition single_published :: "platform_store \<Rightarrow> bool" where
  "single_published s \<longleftrightarrow>
     (\<forall>tid. \<forall>a \<in> published_snapshots s tid. \<forall>b \<in> published_snapshots s tid. a = b)"

lemma single_published_cong: "st_artifacts s' = st_artifacts s \<Longrightarrow> single_published s' = single_published s"
  by (simp add: single_published_def published_snapshots_def)

lemma single_published_subset:
  "single_published s \<Longrightarrow> (\<And>tid. published_snapshots s' tid \<subseteq> published_snapshots s tid) \<Longrightarrow>
   single_published s'"
  unfolding single_published_def by blast

lemma published_restatus:
  assumes vs: "dget (st_artifacts s) aid = Some vs"
    and b: "b \<in> published_snapshots (restatus aid a x vs s) tid"
  shows "b = a\<lparr>av_status := x\<rparr> \<or> b \<in> published_snapshots s tid"
proof -
  from b obtain aid' ws where ws: "dget (st_artifacts (restatus aid a x vs s)) aid' = Some ws" "b \<in> set ws"
    and pub: "is_published_snapshot b" "av_trip_id b = tid" unfolding published_snapshots_def by blast
  show ?thesis
  proof (cases "aid' = aid")
    case True
    with ws have "b \<in> set (replace_first a (a\<lparr>av_status := x\<rparr>) vs)" by simp
    with set_replace_first_subset have "b = a\<lparr>av_status := x\<rparr> \<or> b \<in> set vs" by fast
    with vs pub show ?thesis unfolding published_snapshots_def by blast
  next
    case False
    with ws have "dget (st_artifacts s) aid' = Some ws" by simp
    with ws(2) pub show ?thesis unfolding published_snapshots_def by blast
  qed
qed

lemma published_is: "b \<in> published_snapshots s tid \<Longrightarrow> is_published_snapshot b \<and> av_trip_id b = tid"
  by (auto simp: published_snapshots_def)

text \<open>Giving one version a status that is not that of a published TripSnapshot publishes nothing new.\<close>

lemma restatus_unpublished:
  assumes sp: "single_published s" and vs: "dget (st_artifacts s) aid = Some vs"
    and x: "\<not> is_published_snapshot (a\<lparr>av_status := x\<rparr>)"
  shows "single_published (restatus aid a x vs s)"
  by (rule single_published_subset [OF sp]) (use published_restatus [OF vs] published_is x in blast)

lemma published_in_versions:
  assumes "store_inv s" and "dget (st_artifacts s) aid = Some vs" and "a \<in> set vs"
  shows "av_artifact_id a = aid \<and> (\<forall>b \<in> set vs. av_version b = av_version a \<longrightarrow> b = a)"
proof -
  from assms(1,2) have v: "versions_ok aid vs" by (simp add: store_inv_def artifacts_ok_def)
  then have "av_artifact_id a = aid" using assms(3) by (simp add: versions_ok_def)
  with versions_inj [OF v _ assms(3)] show ?thesis by blast
qed

text \<open>A superseding pass keeps of the published versions exactly those outside its filter.\<close>

lemma published_supersede:
  "published_snapshots (supersede_where P s) tid = {a \<in> published_snapshots s tid. \<not> P a}"
proof (intro set_eqI iffI)
  fix a
  assume "a \<in> published_snapshots (supersede_where P s) tid"
  then obtain aid vs b where vs: "dget (st_artifacts s) aid = Some vs" "b \<in> set vs"
    and a: "a = (if P b then b\<lparr>av_status := SUPERSEDED\<rparr> else b)"
    and pub: "is_published_snapshot a" "av_trip_id a = tid"
    by (auto simp: published_snapshots_def supersede_where_def)
  then have "\<not> P b" "a = b" by (auto simp: is_published_snapshot_def split: if_splits)
  with vs pub show "a \<in> {a \<in> published_snapshots s tid. \<not> P a}"
    by (auto simp: published_snapshots_def)
next
  fix a
  assume "a \<in> {a \<in> published_snapshots s tid. \<not> P a}"
  then show "a \<in> published_snapshots (supersede_where P s) tid"
    by (fastforce simp: published_snapshots_def supersede_where_def)
qed

text \<open>
  Publishing one version and superseding every other published TripSnapshot of its Trip leaves
  one: whatever else the filter catches does not matter.
\<close>

lemma publish_supersede_single:
  assumes sp: "single_published s" and inv: "store_inv s"
    and vs: "dget (st_artifacts s) aid = Some vs" and st: "st \<in> set vs"
    and P: "\<And>c. is_published_snapshot c \<Longrightarrow> av_trip_id c = av_trip_id st \<Longrightarrow> \<not> same_version_of st c \<Longrightarrow> P c"
  shows "single_published (supersede_where P (restatus aid st PUBLISHED vs s))"
  unfolding single_published_def
proof (intro allI ballI)
  fix tid a b
  let ?s1 = "restatus aid st PUBLISHED vs s"
  let ?st = "st\<lparr>av_status := PUBLISHED\<rparr>"
  assume "a \<in> published_snapshots (supersede_where P ?s1) tid"
    "b \<in> published_snapshots (supersede_where P ?s1) tid"
  then have ab: "a \<in> published_snapshots ?s1 tid" "\<not> P a" "b \<in> published_snapshots ?s1 tid" "\<not> P b"
    by (auto simp: published_supersede)
  have inv1: "store_inv ?s1" by (rule restatus_inv [OF inv vs])
  have st1: "dget (st_artifacts ?s1) aid = Some (replace_first st ?st vs)"
    "?st \<in> set (replace_first st ?st vs)" using in_replace_first [OF st] by simp_all
  have only: "c = ?st" if c: "c \<in> published_snapshots ?s1 (av_trip_id st)" "\<not> P c" for c
  proof -
    from c(1) obtain aid' ws where ws: "dget (st_artifacts ?s1) aid' = Some ws" "c \<in> set ws"
      and pub: "is_published_snapshot c" "av_trip_id c = av_trip_id st"
      unfolding published_snapshots_def by blast
    from P [OF pub] c(2) have sv: "same_version_of st c" by blast
    from published_in_versions [OF inv1 ws] have "av_artifact_id c = aid'" by blast
    moreover from published_in_versions [OF inv1 st1] have "av_artifact_id st = aid" by simp
    ultimately have "aid' = aid" using sv by (simp add: same_version_of_def)
    with ws st1 have "c \<in> set (replace_first st ?st vs)" by simp
    with published_in_versions [OF inv1 st1] sv show ?thesis by (simp add: same_version_of_def)
  qed
  show "a = b"
  proof (cases "tid = av_trip_id st")
    case True
    with ab only show ?thesis by metis
  next
    case False
    have "c \<in> published_snapshots s tid" if "c \<in> published_snapshots ?s1 tid" for c
    proof -
      from published_is [OF that] have "av_trip_id c = tid" by blast
      with False have "c \<noteq> ?st" by auto
      with published_restatus [OF vs that] show ?thesis by blast
    qed
    with ab sp show ?thesis unfolding single_published_def by blast
  qed
qed

lemma publish_result_single:
  assumes sp: "single_published s" and inv: "store_inv s"
  shows "single_published (snd (publish_result p cur a now s))"
proof -
  obtain res s' where r: "publish_result p cur a now s = (res, s')" by force
  have sup: "single_published (supersede_where (other_snapshots (rv_trip_id cur) st)
        (restatus (av_artifact_id a) st PUBLISHED vs s))"
    if "dget (st_artifacts s) (av_artifact_id a) = Some vs"
      "find (\<lambda>i. av_version i = av_version a) vs = Some st" "av_trip_id st = rv_trip_id cur" for vs st
    using that find_SomeD [OF that(2)]
    by (intro publish_supersede_single [OF sp inv that(1)]) (auto simp: is_published_snapshot_def)
  from r have "single_published s'"
  proof (cases rule: publish_result_cases)
    case (plain vs st)
    have "\<not> is_published_snapshot (st\<lparr>av_status := PUBLISHED\<rparr>)"
      using plain(4) by (simp add: is_published_snapshot_def)
    from restatus_unpublished [OF sp plain(1) this] show ?thesis by (simp add: plain(6))
  next
    case (denied vs st e)
    with sup show ?thesis by simp
  next
    case (published vs st t)
    from sup [OF published(1-3)] show ?thesis
      by (simp add: published(7) single_published_def published_snapshots_def)
  qed (simp add: sp)
  with r show ?thesis by simp
qed

lemma mutate_run_single:
  assumes sp: "single_published s" and inv: "store_inv s"
  shows "single_published (snd (mutate_run p rid ex m lo ty d lnow now eid s))"
proof -
  obtain res s' where r: "mutate_run p rid ex m lo ty d lnow now eid s = (res, s')" by force
  have "single_published (snd (mutation_result p cur m now s))" for cur
    using publish_result_single [OF sp inv] sp by (simp add: mutation_result_def split: option.split)
  then have m: "single_published t" if "mutation_result p cur m now s = (y, t)" for cur y t
    using that by (metis snd_conv)
  from r have "single_published s'"
  proof (cases rule: mutate_run_cases)
    case (unpublished cur e)
    with m show ?thesis by blast
  next
    case (mutated cur s1 ev)
    from m [OF mutated(4)] show ?thesis by (simp add: mutated(11) single_published_def published_snapshots_def)
  qed (simp add: sp)
  with r show ?thesis by simp
qed

lemma create_artifact_single:
  assumes sp: "single_published s" and st: "st \<noteq> PUBLISHED"
  shows "single_published (snd (create_artifact p tid aidopt ty sv content st pv lo lnow now aid s))"
proof -
  obtain res s' where r: "create_artifact p tid aidopt ty sv content st pv lo lnow now aid s = (res, s')"
    by force
  then have "single_published s'"
  proof (cases rule: create_artifact_cases)
    case (created t aid')
    show ?thesis
      by (rule single_published_subset [OF sp])
        (use st in \<open>auto simp: created(6) published_snapshots_def is_published_snapshot_def
          initial_artifact_def split: if_splits\<close>)
  qed (simp add: sp)
  with r show ?thesis by simp
qed

lemma patch_artifact_single:
  assumes sp: "single_published s"
  shows "single_published (snd (patch_artifact vc p aid ap now s))"
proof -
  obtain res s' where r: "patch_artifact vc p aid ap now s = (res, s')" by force
  then have "single_published s'"
  proof (cases rule: patch_artifact_cases)
    case (patched cur vs content)
    show ?thesis
      by (rule single_published_subset [OF sp])
        (use patched(5) in \<open>auto simp: patched(7) published_snapshots_def is_published_snapshot_def
          next_version_def split: if_splits\<close>)
  qed (simp add: sp)
  with r show ?thesis by simp
qed

lemma command_effects_artifacts:
  "st_artifacts (snd (command_effects p cur tg now s)) =
     (if tg = PUBLISHED then st_artifacts (supersede_where (\<lambda>c. av_trip_id c = av_trip_id cur \<and>
        av_status c = PUBLISHED \<and> \<not> same_version_of cur c) s) else st_artifacts s)"
  by (cases "trip_locked s p (av_trip_id cur) True")
    (simp_all add: command_effects_def Let_def)

lemma command_artifact_single:
  assumes sp: "single_published s" and inv: "store_inv s"
  shows "single_published (snd (command_artifact p aid ac key h now s))"
proof -
  obtain res s' where r: "command_artifact p aid ac key h now s = (res, s')" by force
  then have "single_published s'"
  proof (cases rule: command_artifact_cases)
    case (applied cur vs req tg res2 s2)
    let ?s1 = "restatus aid cur tg vs s"
    let ?P = "\<lambda>c. av_trip_id c = av_trip_id cur \<and> av_status c = PUBLISHED \<and> \<not> same_version_of cur c"
    have s2: "st_artifacts s2 = (if tg = PUBLISHED then st_artifacts (supersede_where ?P ?s1)
        else st_artifacts ?s1)"
      using command_effects_artifacts [of p cur tg now ?s1] by (simp add: applied(8))
    have cur: "cur \<in> set vs" using artifact_locked_latest [OF inv applied(1)] applied(7) by auto
    have "single_published s2"
    proof (cases "tg = PUBLISHED")
      case True
      have "single_published (supersede_where ?P (restatus aid cur PUBLISHED vs s))"
        by (rule publish_supersede_single [OF sp inv applied(7) cur]) (auto simp: is_published_snapshot_def)
      moreover have "st_artifacts s2 = st_artifacts (supersede_where ?P (restatus aid cur PUBLISHED vs s))"
        using True s2 by simp
      ultimately show ?thesis using single_published_cong by blast
    next
      case False
      then have "\<not> is_published_snapshot (cur\<lparr>av_status := tg\<rparr>)" by (simp add: is_published_snapshot_def)
      from restatus_unpublished [OF sp applied(7) this] s2 False show ?thesis
        by (metis (no_types, lifting) single_published_cong)
    qed
    moreover from applied(9) have "st_artifacts s' = st_artifacts s2" by (cases res2) simp_all
    ultimately show ?thesis by (metis single_published_cong)
  qed (simp_all add: sp)
  with r show ?thesis by simp
qed

lemma calm_single: "calm s s' \<Longrightarrow> single_published s \<Longrightarrow> single_published s'"
  using single_published_cong [of s' s] by (simp add: calm_def)

lemma create_run_artifacts: "st_artifacts (snd (create_run p tid c bi bv key h tr now rid eid s)) = st_artifacts s"
proof -
  obtain res s' where r: "create_run p tid c bi bv key h tr now rid eid s = (res, s')" by force
  then have "st_artifacts s' = st_artifacts s" by (cases rule: create_run_cases) simp_all
  with r show ?thesis by simp
qed

lemma resume_run_artifacts:
  "st_artifacts (snd (resume_run di p rid ex rq vals key h cnow now eid s)) = st_artifacts s"
proof -
  obtain res s' where r: "resume_run di p rid ex rq vals key h cnow now eid s = (res, s')" by force
  then have "st_artifacts s' = st_artifacts s" by (cases rule: resume_run_cases) simp_all
  with r show ?thesis by simp
qed

lemma store_step_single:
  "store_step s s' \<Longrightarrow> store_inv s \<Longrightarrow> single_published s \<Longrightarrow> single_published s'"
proof (induction rule: store_step.induct)
  case (create_run s rid p tid c bi bv key h tr now eid)
  then show ?case by (metis create_run_artifacts single_published_cong)
next
  case (resume_run s di p rid ex rq vals key h cnow now eid)
  then show ?case by (metis resume_run_artifacts single_published_cong)
qed (simp_all add: calm_ops [THEN calm_single] mutate_run_single create_artifact_single
      patch_artifact_single command_artifact_single)

lemma store_reachable_single: "store_reachable s \<Longrightarrow> single_published s"
proof (induction rule: store_reachable.induct)
  case initial
  then show ?case by (simp add: single_published_def published_snapshots_def empty_store_def)
next
  case (step s s')
  then show ?case using store_step_single store_reachable_inv by blast
qed

section \<open>The store keeps the lease and compare-and-set contracts\<close>

definition run_holder :: "platform_store \<Rightarrow> string \<Rightarrow> (string \<times> int \<times> instant) option" where
  "run_holder s rid =
     map_option (\<lambda>l. (le_owner l, le_attempt l, le_lease_until l)) (dget (st_execution_leases s) rid)"

definition leases_follow :: "platform_store \<Rightarrow> platform_store \<Rightarrow> bool" where
  "leases_follow s s' \<longleftrightarrow>
     (\<forall>rid w a u. run_holder s' rid = Some (w, a, u) \<longrightarrow>
        (\<exists>u0. run_holder s rid = Some (w, a, u0)) \<or> a = attempts_of s rid + 1)"

lemma leases_follow_same [simp]: "st_execution_leases s' = st_execution_leases s \<Longrightarrow> leases_follow s s'"
  by (simp add: leases_follow_def run_holder_def)

lemma leases_follow_drop:
  "st_execution_leases s' = dpop rid (st_execution_leases s) \<Longrightarrow> leases_follow s s'"
  by (auto simp: leases_follow_def run_holder_def split: if_splits)

lemma trip_ops_leases:
  "st_execution_leases (snd (create_trip p tc now tid s)) = st_execution_leases s"
  "st_execution_leases (snd (patch_trip p tid tp now s)) = st_execution_leases s"
  "st_execution_leases (snd (set_trip_status p tid st now s)) = st_execution_leases s"
  "st_execution_leases (snd (upsert_trip_member p tid u g now s)) = st_execution_leases s"
  "st_execution_leases (snd (remove_trip_member p tid u s)) = st_execution_leases s"
  by (simp_all add: create_trip_def patch_trip_def set_trip_status_def upsert_trip_member_def
      remove_trip_member_def Let_def split: sum.split)

lemma claim_leases_follow: "leases_follow s (snd (claim_run_execution p rid ow us now s))"
proof -
  obtain res s' where r: "claim_run_execution p rid ow us now s = (res, s')" by force
  then have "leases_follow s s'"
    by (cases rule: claim_run_execution_cases)
      (auto simp: leases_follow_def run_holder_def next_attempt_alt split: if_splits)
  with r show ?thesis by simp
qed

lemma renew_leases_follow: "leases_follow s (snd (renew_run_execution p l us now now' s))"
proof -
  obtain res s' where r: "renew_run_execution p l us now now' s = (res, s')" by force
  then have "leases_follow s s'"
  proof (cases rule: renew_run_execution_cases)
    case (renewed x)
    from assert_lease_Inr [OF renewed(1)] show ?thesis
      by (auto simp: renewed(3) leases_follow_def run_holder_def split: if_splits)
  qed simp_all
  with r show ?thesis by simp
qed

lemma release_leases_follow: "leases_follow s (snd (release_run_execution p l s))"
  by (auto simp: release_run_execution_def leases_follow_drop split: sum.split option.split)

lemma mutate_leases_follow: "leases_follow s (snd (mutate_run p rid ex m lo ty d lnow now eid s))"
proof -
  obtain res s' where r: "mutate_run p rid ex m lo ty d lnow now eid s = (res, s')" by force
  then have "leases_follow s s'"
  proof (cases rule: mutate_run_cases)
    case (unpublished cur e)
    have "s' = snd (mutation_result p cur m now s)" by (simp add: unpublished(4))
    then show ?thesis by simp
  next
    case (mutated cur s1 ev)
    have "s1 = snd (mutation_result p cur m now s)" by (simp add: mutated(4))
    then have "st_execution_leases s1 = st_execution_leases s" by simp
    then show ?thesis by (simp add: mutated(11) leases_follow_drop split: if_split)
  qed simp
  with r show ?thesis by simp
qed

lemma run_artifact_ops_leases:
  "st_execution_leases (snd (create_run p tid c bi bv key h tr now rid eid s)) = st_execution_leases s"
  "st_execution_leases (snd (resume_run di p rid ex rq vals key h cnow now eid s)) = st_execution_leases s"
  "st_execution_leases (snd (create_artifact p tid aidopt ty sv content st pv lo lnow now aid s)) =
     st_execution_leases s"
  "st_execution_leases (snd (patch_artifact vc p aid ap now s)) = st_execution_leases s"
  "st_execution_leases (snd (command_artifact p aid ac key h now s)) = st_execution_leases s"
proof -
  obtain res s' where r: "create_run p tid c bi bv key h tr now rid eid s = (res, s')" by force
  then have "st_execution_leases s' = st_execution_leases s" by (cases rule: create_run_cases) simp_all
  with r show "st_execution_leases (snd (create_run p tid c bi bv key h tr now rid eid s)) =
    st_execution_leases s" by simp
next
  obtain res s' where r: "resume_run di p rid ex rq vals key h cnow now eid s = (res, s')" by force
  then have "st_execution_leases s' = st_execution_leases s" by (cases rule: resume_run_cases) simp_all
  with r show "st_execution_leases (snd (resume_run di p rid ex rq vals key h cnow now eid s)) =
    st_execution_leases s" by simp
next
  obtain res s' where r: "create_artifact p tid aidopt ty sv content st pv lo lnow now aid s = (res, s')"
    by force
  then have "st_execution_leases s' = st_execution_leases s" by (cases rule: create_artifact_cases) simp_all
  with r show "st_execution_leases (snd (create_artifact p tid aidopt ty sv content st pv lo lnow now aid s)) =
    st_execution_leases s" by simp
next
  obtain res s' where r: "patch_artifact vc p aid ap now s = (res, s')" by force
  then have "st_execution_leases s' = st_execution_leases s" by (cases rule: patch_artifact_cases) simp_all
  with r show "st_execution_leases (snd (patch_artifact vc p aid ap now s)) = st_execution_leases s" by simp
next
  obtain res s' where r: "command_artifact p aid ac key h now s = (res, s')" by force
  then have "st_execution_leases s' = st_execution_leases s"
  proof (cases rule: command_artifact_cases)
    case (applied cur vs req tg res2 s2)
    have "s2 = snd (command_effects p cur tg now (restatus aid cur tg vs s))" by (simp add: applied(8))
    with applied(9) show ?thesis by (cases res2) simp_all
  qed simp_all
  with r show "st_execution_leases (snd (command_artifact p aid ac key h now s)) = st_execution_leases s"
    by simp
qed

lemma store_step_leases: "store_step s s' \<Longrightarrow> leases_follow s s'"
  by (induction rule: store_step.induct)
    (simp_all add: trip_ops_leases run_artifact_ops_leases claim_leases_follow renew_leases_follow
      release_leases_follow mutate_leases_follow)

interpretation run_lease: fenced_lease store_inv store_step run_holder attempts_of
proof
  fix s s' k w a u
  assume inv: "store_inv s"
  show "a \<le> attempts_of s k" if "run_holder s k = Some (w, a, u)"
    using that inv by (auto simp: run_holder_def store_inv_def leases_ok_def attempts_of_def)
  assume st: "store_step s s'"
  show "store_inv s'" by (rule store_step_inv [OF st inv])
  show "attempts_of s k \<le> attempts_of s' k"
    using store_step_extends [OF st inv] by (simp add: store_extends_def)
  show "(\<exists>u0. run_holder s k = Some (w, a, u0)) \<or> a = attempts_of s k + 1"
    if "run_holder s' k = Some (w, a, u)"
    using that store_step_leases [OF st] by (auto simp: leases_follow_def)
qed

definition run_version :: "platform_store \<Rightarrow> string \<Rightarrow> int option" where
  "run_version s rid = map_option rv_control_version (dget (st_runs s) rid)"

lemma runs_kept_version:
  assumes "runs_kept s s'" and "run_version s k = Some v"
  shows "\<exists>v'. run_version s' k = Some v' \<and> v \<le> v'"
proof -
  from assms(2) obtain r where "dget (st_runs s) k = Some r" "v = rv_control_version r"
    by (auto simp: run_version_def)
  with assms(1) show ?thesis unfolding runs_kept_def run_version_def by fastforce
qed

text \<open>A \<open>mutate_run\<close> call that returned.\<close>

definition run_cas :: "string \<Rightarrow> int \<Rightarrow> platform_store \<Rightarrow> platform_store \<Rightarrow> bool" where
  "run_cas rid e s s' \<longleftrightarrow>
     (\<exists>p m lo ty d lnow now eid r. mutate_run p rid e m lo ty d lnow now eid s = (Inr r, s'))"

lemma mutate_run_success:
  assumes inv: "store_inv s" and r: "mutate_run p rid ex m lo ty d lnow now eid s = (Inr (u, ev), s')"
  shows "\<exists>cur. run_locked s p rid = Inr cur \<and> dget (st_runs s) rid = Some cur \<and>
           check_lease_for p rid lo lnow s = Inr () \<and>
           rv_control_version cur = ex \<and> u = apply_mutation m now cur \<and>
           dget (st_runs s') rid = Some u \<and> events_of s' rid = events_of s rid @ [ev] \<and>
           ev_type ev = ty \<and> ev_run_id ev = rid \<and> ev_seq ev = int (length (events_of s rid)) + 1"
  using r
proof (cases rule: mutate_run_cases)
  case (mutated cur s1 ev')
  have s1: "s1 = snd (mutation_result p cur m now s)" by (simp add: mutated(4))
  have id: "rv_run_id cur = rid" by (rule locked_run_id [OF inv mutated(1)])
  have ev: "events_of s1 rid = events_of s rid" by (simp add: s1 events_of_def)
  have "dget (st_runs s) rid = Some cur" using mutated(1) by (auto dest!: run_locked_Inr)
  moreover have "dget (st_runs s') rid = Some (apply_mutation m now cur)" by (simp add: mutated(11))
  moreover have "events_of s' rid = events_of s rid @ [ev']"
    using ev by (simp add: mutated(11) id) (simp add: events_of_def)
  ultimately show ?thesis using mutated(1,2,3,5,6,7,8) id ev by auto
qed simp_all

interpretation run_versions: versioned_cas store_inv store_step run_version run_cas
proof
  fix s s' k v e
  assume inv: "store_inv s"
  show "store_inv s'" if "store_step s s'" by (rule store_step_inv [OF that inv])
  show "\<exists>v'. run_version s' k = Some v' \<and> v \<le> v'" if "store_step s s'" "run_version s k = Some v"
    using store_step_extends [OF that(1) inv] that(2) runs_kept_version
    unfolding store_extends_def by blast
  assume "run_cas k e s s'"
  then obtain p m lo ty d lnow now eid u ev where
    r: "mutate_run p k e m lo ty d lnow now eid s = (Inr (u, ev), s')" unfolding run_cas_def by fast
  show "store_step s s'" using store_step.mutate_run [of s p k e m lo ty d lnow now eid] by (simp add: r)
  show "run_version s k = Some e \<and> run_version s' k = Some (e + 1)"
    using mutate_run_success [OF inv r] by (auto simp: run_version_def)
qed

section \<open>Idempotency records are never lost\<close>

lemma calm_ops_idempotency:
  "st_idempotency (snd (create_trip p tc now tid s)) = st_idempotency s"
  "st_idempotency (snd (patch_trip p tid tp now s)) = st_idempotency s"
  "st_idempotency (snd (set_trip_status p tid st now s)) = st_idempotency s"
  "st_idempotency (snd (upsert_trip_member p tid u g now s)) = st_idempotency s"
  "st_idempotency (snd (remove_trip_member p tid u s)) = st_idempotency s"
  "st_idempotency (snd (release_run_execution p l s)) = st_idempotency s"
  by (simp_all add: create_trip_def patch_trip_def set_trip_status_def upsert_trip_member_def
      remove_trip_member_def release_run_execution_def Let_def split: sum.split option.split)

lemma lease_ops_idempotency:
  "st_idempotency (snd (claim_run_execution p rid ow us now s)) = st_idempotency s"
  "st_idempotency (snd (renew_run_execution p l us now now' s)) = st_idempotency s"
proof -
  obtain res s' where r: "claim_run_execution p rid ow us now s = (res, s')" by force
  then have "st_idempotency s' = st_idempotency s" by (cases rule: claim_run_execution_cases) simp_all
  with r show "st_idempotency (snd (claim_run_execution p rid ow us now s)) = st_idempotency s" by simp
next
  obtain res s' where r: "renew_run_execution p l us now now' s = (res, s')" by force
  then have "st_idempotency s' = st_idempotency s" by (cases rule: renew_run_execution_cases) simp_all
  with r show "st_idempotency (snd (renew_run_execution p l us now now' s)) = st_idempotency s" by simp
qed

lemma run_ops_idempotency:
  "st_idempotency (snd (mutate_run p rid ex m lo ty d lnow now eid s)) = st_idempotency s"
  "st_idempotency (snd (resume_run di p rid ex rq vals key h cnow now eid s)) = st_idempotency s"
proof -
  obtain res s' where r: "mutate_run p rid ex m lo ty d lnow now eid s = (res, s')" by force
  then have "st_idempotency s' = st_idempotency s"
  proof (cases rule: mutate_run_cases)
    case (unpublished cur e)
    have "s' = snd (mutation_result p cur m now s)" by (simp add: unpublished(4))
    then show ?thesis by simp
  next
    case (mutated cur s1 ev)
    have "s1 = snd (mutation_result p cur m now s)" by (simp add: mutated(4))
    then show ?thesis by (simp add: mutated(11))
  qed simp
  with r show "st_idempotency (snd (mutate_run p rid ex m lo ty d lnow now eid s)) = st_idempotency s"
    by simp
next
  obtain res s' where r: "resume_run di p rid ex rq vals key h cnow now eid s = (res, s')" by force
  then have "st_idempotency s' = st_idempotency s" by (cases rule: resume_run_cases) simp_all
  with r show "st_idempotency (snd (resume_run di p rid ex rq vals key h cnow now eid s)) =
    st_idempotency s" by simp
qed

lemma artifact_ops_idempotency:
  "st_idempotency (snd (create_artifact p tid aidopt ty sv content st pv lo lnow now aid s)) =
     st_idempotency s"
  "st_idempotency (snd (patch_artifact vc p aid ap now s)) = st_idempotency s"
  "st_idempotency (snd (command_artifact p aid ac key h now s)) = st_idempotency s"
proof -
  obtain res s' where r: "create_artifact p tid aidopt ty sv content st pv lo lnow now aid s = (res, s')"
    by force
  then have "st_idempotency s' = st_idempotency s" by (cases rule: create_artifact_cases) simp_all
  with r show "st_idempotency (snd (create_artifact p tid aidopt ty sv content st pv lo lnow now aid s)) =
    st_idempotency s" by simp
next
  obtain res s' where r: "patch_artifact vc p aid ap now s = (res, s')" by force
  then have "st_idempotency s' = st_idempotency s" by (cases rule: patch_artifact_cases) simp_all
  with r show "st_idempotency (snd (patch_artifact vc p aid ap now s)) = st_idempotency s" by simp
next
  obtain res s' where r: "command_artifact p aid ac key h now s = (res, s')" by force
  then have "st_idempotency s' = st_idempotency s"
  proof (cases rule: command_artifact_cases)
    case (applied cur vs req tg res2 s2)
    have "s2 = snd (command_effects p cur tg now (restatus aid cur tg vs s))" by (simp add: applied(8))
    with applied(9) show ?thesis by (cases res2) simp_all
  qed simp_all
  with r show "st_idempotency (snd (command_artifact p aid ac key h now s)) = st_idempotency s" by simp
qed

lemma create_run_idempotency:
  assumes "dget (st_idempotency s) sc = Some x"
  shows "dget (st_idempotency (snd (create_run p tid c bi bv key h tr now rid eid s))) sc = Some x"
proof -
  obtain res s' where r: "create_run p tid c bi bv key h tr now rid eid s = (res, s')" by force
  then have "dget (st_idempotency s') sc = Some x"
    by (cases rule: create_run_cases) (use assms in auto)
  with r show ?thesis by simp
qed

lemma store_step_idempotency:
  "store_step s s' \<Longrightarrow> dget (st_idempotency s) sc = Some x \<Longrightarrow> dget (st_idempotency s') sc = Some x"
  by (induction rule: store_step.induct)
    (simp_all add: calm_ops_idempotency lease_ops_idempotency run_ops_idempotency
      artifact_ops_idempotency create_run_idempotency)

lemma store_steps_idempotency:
  "store_step\<^sup>*\<^sup>* s s' \<Longrightarrow> dget (st_idempotency s) sc = Some x \<Longrightarrow> dget (st_idempotency s') sc = Some x"
  by (induction rule: rtranclp_induct) (auto intro: store_step_idempotency)

end
