(* ===== verification/Store_Properties.thy ===== *)
theory Store_Properties
  imports Store_Reach
begin

text \<open>
  The properties of the platform store: its invariants in every reachable store, optimistic
  concurrency and fencing over arbitrary interleavings, idempotent replay, tenant isolation and
  role checks, exact event replay, publication, and what a refused publication leaves behind.
  A small concrete history serves the witnesses.
\<close>

section \<open>A concrete history\<close>

definition alice :: Principal where
  "alice = \<lparr>pr_tenant_id = ''t1'', pr_user_id = ''alice'', pr_roles = {}, pr_authorization_epoch = 0\<rparr>"

definition bob :: Principal where
  "bob = \<lparr>pr_tenant_id = ''t1'', pr_user_id = ''bob'', pr_roles = {}, pr_authorization_epoch = 0\<rparr>"

definition mallory :: Principal where
  "mallory = \<lparr>pr_tenant_id = ''t2'', pr_user_id = ''mallory'', pr_roles = {''admin''},
              pr_authorization_epoch = 0\<rparr>"

definition plan_command :: RunCommand where
  "plan_command = \<lparr>rc_type = Trip_plan, rc_message = ''plan'', rc_payload = []\<rparr>"

definition demo1 :: platform_store where
  "demo1 = snd (create_trip alice \<lparr>tc_title = ''Kyoto'', tc_locale = ''en'', tc_timezone = ''UTC''\<rparr>
     100 ''trip1'' empty_store)"

definition demo2 :: platform_store where
  "demo2 = snd (create_run alice ''trip1'' plan_command None None ''key1'' ''hash1'' ''trace'' 110
     ''run1'' ''ev1'' demo1)"

definition demo3 :: platform_store where
  "demo3 = snd (claim_run_execution alice ''run1'' ''w1'' 60000000 120 demo2)"

definition demo4 :: platform_store where
  "demo4 = snd (claim_run_execution alice ''run1'' ''w2'' 60000000 70000000 demo3)"

definition demo_snapshot :: platform_store where
  "demo_snapshot = snd (create_artifact alice ''trip1'' (Some ''snap1'') ''TripSnapshot'' 1 [] VALIDATED
     None None 0 130 ''unused'' demo2)"

lemmas demo_defs = demo1_def demo2_def demo3_def demo4_def demo_snapshot_def

lemma demo_runs_eval:
  "map_option rv_control_version (dget (st_runs demo2) ''run1'') = Some 1"
  by code_simp

lemma demo4_eval: "run_holder demo4 ''run1'' = Some (''w2'', 2, 130000000)"
  by code_simp

lemma demo_reachable: "store_reachable demo1" "store_reachable demo2" "store_reachable demo3"
  "store_reachable demo4" "store_reachable demo_snapshot"
proof -
  have "dget (st_trips empty_store) ''trip1'' = None" by code_simp
  then show 1: "store_reachable demo1"
    unfolding demo1_def by (intro store_reachable.step [OF store_reachable.initial] store_step.create_trip)
  have "dget (st_runs demo1) ''run1'' = None" by code_simp
  then show 2: "store_reachable demo2"
    unfolding demo2_def by (intro store_reachable.step [OF 1] store_step.create_run)
  show 3: "store_reachable demo3"
    unfolding demo3_def by (intro store_reachable.step [OF 2] store_step.claim_run_execution)
  show "store_reachable demo4"
    unfolding demo4_def by (intro store_reachable.step [OF 3] store_step.claim_run_execution)
  show "store_reachable demo_snapshot"
    unfolding demo_snapshot_def by (intro store_reachable.step [OF 2] store_step.create_artifact) simp
qed

section \<open>Reachable stores\<close>

text \<open>
  C1. In every store reachable by any sequence of operations of any callers, Trips, members,
  Runs, events, Artifact histories, leases and idempotency records are consistent: keys match
  record identities, every Trip keeps its owner membership and no other OWNER, every Run and
  Artifact belongs to an existing Trip of its tenant, event logs and Artifact versions are
  numbered 1, 2, 3, \<dots>, a lease carries the last issued attempt.
\<close>

theorem reachable_store_invariant: "store_reachable s \<Longrightarrow> store_inv s"
  by (rule store_reachable_inv)

theorem reachable_store_invariant_witness: "store_inv demo4"
  by (rule reachable_store_invariant [OF demo_reachable(4)])

text \<open>
  The control version of a Run counts its events: in every reachable store the log of a
  Run has sequence numbers 1, 2, \<dots>, n and n is the Run's control version, so each version is
  announced by exactly one event.
\<close>

theorem control_version_counts_events:
  "store_reachable s \<Longrightarrow> dget (st_runs s) rid = Some r \<Longrightarrow>
   map ev_seq (events_of s rid) = map int [1..<nat (rv_control_version r) + 1] \<and>
   rv_control_version r = int (length (events_of s rid))"
proof -
  assume s: "store_reachable s" and r: "dget (st_runs s) rid = Some r"
  from store_reachable_versioned [OF s] r
  have n: "rv_control_version r = int (length (events_of s rid))" by (simp add: log_versioned_def)
  from store_reachable_inv [OF s] have "log_ok rid (events_of s rid)"
    by (intro events_of_ok) (simp add: store_inv_def)
  with n show ?thesis by (simp add: log_ok_def)
qed

theorem control_version_counts_events_witness:
  "map ev_seq (events_of demo2 ''run1'') = [1]"
proof -
  obtain r where r: "dget (st_runs demo2) ''run1'' = Some r" "rv_control_version r = 1"
    using demo_runs_eval by auto
  from control_version_counts_events [OF demo_reachable(2) r(1)] r(2) show ?thesis by simp
qed

text \<open>
  C24. At most one published TripSnapshot per Trip: two published TripSnapshot versions of the
  same Trip in a reachable store are the same version.
\<close>

theorem one_published_snapshot_per_trip:
  "store_reachable s \<Longrightarrow> a \<in> published_snapshots s tid \<Longrightarrow> b \<in> published_snapshots s tid \<Longrightarrow> a = b"
  using store_reachable_single unfolding single_published_def by blast

definition publish_mutation :: run_mutation where
  "publish_mutation = \<lparr>mu_lifecycle_state = Some COMPLETED, mu_phase = Some ''publish'',
     mu_pending_input = None, mu_result_artifact = Some (initial_artifact alice ''trip1'' ''snap1''
       ''TripSnapshot'' 1 [] VALIDATED None 130), mu_public_error_code = None\<rparr>"

definition demo_published :: platform_store where
  "demo_published = snd (mutate_run alice ''run1'' 1 publish_mutation None Ev_run_completed [] 0 140 ''ev2''
     demo_snapshot)"

lemma demo_published_reachable: "store_reachable demo_published"
  unfolding demo_published_def
  by (intro store_reachable.step [OF demo_reachable(5)] store_step.mutate_run)

definition demo_published_artifact :: ArtifactView where
  "demo_published_artifact = (initial_artifact alice ''trip1'' ''snap1'' ''TripSnapshot'' 1 [] VALIDATED None 130)
     \<lparr>av_status := PUBLISHED\<rparr>"

lemma demo_published_eval:
  "dget (st_artifacts demo_published) ''snap1'' = Some [demo_published_artifact]"
  by code_simp

theorem one_published_snapshot_per_trip_witness:
  "published_snapshots demo_published ''trip1'' = {demo_published_artifact}"
proof -
  have "is_published_snapshot demo_published_artifact \<and> av_trip_id demo_published_artifact = ''trip1''"
    by code_simp
  then have a: "demo_published_artifact \<in> published_snapshots demo_published ''trip1''"
    using demo_published_eval unfolding published_snapshots_def by fastforce
  have "b = demo_published_artifact" if "b \<in> published_snapshots demo_published ''trip1''" for b
    by (rule one_published_snapshot_per_trip [OF demo_published_reachable that a])
  with a show ?thesis by blast
qed

text \<open>
  Nothing is taken back: along any sequence of operations from a reachable store every Trip
  keeps its identity, tenant and owner, every Run its identity and a control version that does not
  fall, every event log is extended at its end only, every stored Artifact version keeps all of
  its content (only its status may change) and no fencing counter falls.
\<close>

theorem store_history_append_only:
  "store_reachable s \<Longrightarrow> store_step\<^sup>*\<^sup>* s s' \<Longrightarrow> store_extends s s'"
  using store_steps_extend store_reachable_inv by blast

theorem store_history_append_only_witness: "store_extends demo2 demo4"
proof (rule store_history_append_only [OF demo_reachable(2)])
  have "store_step demo2 demo3" unfolding demo3_def by (rule store_step.claim_run_execution)
  moreover have "store_step demo3 demo4" unfolding demo4_def by (rule store_step.claim_run_execution)
  ultimately show "store_step\<^sup>*\<^sup>* demo2 demo4" by (meson r_into_rtranclp rtranclp.rtrancl_into_rtrancl)
qed

section \<open>Optimistic concurrency and fencing\<close>

text \<open>
  \<open>mutate_run\<close> is a compare-and-set: with another control version than the stored one it
  raises and leaves the store untouched; when it returns, the stored version was the expected one,
  it is now one higher, and the log has grown by exactly one event that carries the next sequence
  number.
\<close>

theorem mutate_run_compare_and_set:
  assumes "store_inv s"
  shows "(\<forall>cur. dget (st_runs s) rid = Some cur \<longrightarrow> rv_control_version cur \<noteq> ex \<longrightarrow>
            (\<exists>e. mutate_run p rid ex m lo ty d lnow now eid s = (Inl e, s))) \<and>
         (\<forall>u ev s'. mutate_run p rid ex m lo ty d lnow now eid s = (Inr (u, ev), s') \<longrightarrow>
            (\<exists>cur. dget (st_runs s) rid = Some cur \<and> rv_control_version cur = ex \<and>
               dget (st_runs s') rid = Some u \<and> rv_control_version u = ex + 1 \<and>
               events_of s' rid = events_of s rid @ [ev] \<and> ev_type ev = ty \<and>
               ev_seq ev = int (length (events_of s rid)) + 1))"
proof (intro conjI allI impI)
  fix cur
  assume cur: "dget (st_runs s) rid = Some cur" and v: "rv_control_version cur \<noteq> ex"
  obtain res s' where r: "mutate_run p rid ex m lo ty d lnow now eid s = (res, s')" by force
  then show "\<exists>e. mutate_run p rid ex m lo ty d lnow now eid s = (Inl e, s)"
    by (cases rule: mutate_run_cases) (use r cur v in \<open>auto dest!: run_locked_Inr\<close>)
next
  fix u ev s'
  assume "mutate_run p rid ex m lo ty d lnow now eid s = (Inr (u, ev), s')"
  from mutate_run_success [OF assms this] show "\<exists>cur. dget (st_runs s) rid = Some cur \<and>
      rv_control_version cur = ex \<and> dget (st_runs s') rid = Some u \<and> rv_control_version u = ex + 1 \<and>
      events_of s' rid = events_of s rid @ [ev] \<and> ev_type ev = ty \<and>
      ev_seq ev = int (length (events_of s rid)) + 1" by fastforce
qed

theorem mutate_run_compare_and_set_witness:
  "\<exists>e. mutate_run alice ''run1'' 7 publish_mutation None Ev_run_completed [] 0 140 ''ev2'' demo2 = (Inl e, demo2)"
proof -
  obtain r where r: "dget (st_runs demo2) ''run1'' = Some r" "rv_control_version r = 1"
    using demo_runs_eval by auto
  from mutate_run_compare_and_set [OF store_reachable_inv [OF demo_reachable(2)]] r show ?thesis by simp
qed

text \<open>
  C8. No lost update: after one \<open>mutate_run\<close> with an expected control version has returned, no
  other \<open>mutate_run\<close> on that Run with the same expected version returns, whatever operations of
  whatever callers happen in between.
\<close>

theorem run_update_not_lost:
  assumes "store_reachable s"
    and "mutate_run p rid ex m lo ty d lnow now eid s = (Inr x, s1)"
    and "store_step\<^sup>*\<^sup>* s1 s2"
  shows "\<exists>e s3. mutate_run p' rid ex m' lo' ty' d' lnow' now' eid' s2 = (Inl e, s3)"
proof -
  have "run_cas rid ex s s1" using assms(2) unfolding run_cas_def by blast
  from run_versions.no_lost_update [OF store_reachable_inv [OF assms(1)] this assms(3)]
  have "\<not> run_cas rid ex s2 s3" for s3 .
  then show ?thesis
    unfolding run_cas_def
    by (cases "mutate_run p' rid ex m' lo' ty' d' lnow' now' eid' s2"; cases "fst (mutate_run p' rid ex m' lo' ty' d' lnow' now' eid' s2)")
      auto
qed

theorem run_update_not_lost_witness:
  "\<exists>e s3. mutate_run alice ''run1'' 1 publish_mutation None Ev_run_completed [] 0 150 ''ev3'' demo_published = (Inl e, s3)"
proof -
  have "\<not> isl (fst (mutate_run alice ''run1'' 1 publish_mutation None Ev_run_completed [] 0 140 ''ev2'' demo_snapshot))"
    by code_simp
  then obtain x where "fst (mutate_run alice ''run1'' 1 publish_mutation None Ev_run_completed [] 0 140 ''ev2'' demo_snapshot) = Inr x"
    by (cases "fst (mutate_run alice ''run1'' 1 publish_mutation None Ev_run_completed [] 0 140 ''ev2'' demo_snapshot)") auto
  then have "mutate_run alice ''run1'' 1 publish_mutation None Ev_run_completed [] 0 140 ''ev2'' demo_snapshot =
      (Inr x, demo_published)" by (metis demo_published_def prod.collapse)
  from run_update_not_lost [OF demo_reachable(5) this rtranclp.rtrancl_refl] show ?thesis .
qed

text \<open>
  C2. A fenced-off worker changes nothing: once a Run's lease carries a higher attempt, every
  later \<open>mutate_run\<close>, \<open>create_artifact\<close> or \<open>renew_run_execution\<close> made with a lease of a smaller
  attempt fails and leaves the store as it was, for ever and for any interleaving.
\<close>

lemma assert_lease_stale:
  assumes "\<And>w u. run_holder s (le_run_id l) \<noteq> Some (w, le_attempt l, u)"
  shows "assert_execution_lease_locked s p l tr now =
    (case run_locked s p (le_run_id l) of Inl e \<Rightarrow> Inl e | Inr _ \<Rightarrow> Inl RunExecutionLeaseLost)"
proof (cases "dget (st_execution_leases s) (le_run_id l)")
  case (Some cur)
  with assms have "le_attempt cur \<noteq> le_attempt l" by (auto simp: run_holder_def)
  with Some show ?thesis by (simp add: assert_execution_lease_locked_def split: sum.split)
qed (simp add: assert_execution_lease_locked_def split: sum.split)

lemma stale_calls_refused:
  assumes "\<And>w u. run_holder s (le_run_id l) \<noteq> Some (w, le_attempt l, u)"
  shows "\<exists>e. mutate_run p (le_run_id l) ex m (Some l) ty d lnow now eid s = (Inl e, s)"
    and "\<exists>e. create_artifact p tid aidopt aty sv content st pv (Some l) lnow now aid s = (Inl e, s)"
    and "snd (renew_run_execution p l us lnow now s) = s"
    and "fst (renew_run_execution p l us lnow now s) \<noteq> Inr (Some y)"
proof -
  note stale = assert_lease_stale [OF assms]
  show "\<exists>e. mutate_run p (le_run_id l) ex m (Some l) ty d lnow now eid s = (Inl e, s)"
    by (cases "run_locked s p (le_run_id l)") (simp_all add: mutate_run_def check_lease_for_def stale)
  show "\<exists>e. create_artifact p tid aidopt aty sv content st pv (Some l) lnow now aid s = (Inl e, s)"
    by (cases "trip_locked s p tid True"; cases "run_locked s p (le_run_id l)")
      (simp_all add: create_artifact_def stale)
  obtain res s' where r: "renew_run_execution p l us lnow now s = (res, s')" by force
  then have "s' = s \<and> (\<forall>y. res \<noteq> Inr (Some y))"
    by (cases rule: renew_run_execution_cases) (auto simp: stale split: sum.splits)
  with r show "snd (renew_run_execution p l us lnow now s) = s"
    "fst (renew_run_execution p l us lnow now s) \<noteq> Inr (Some y)" by auto
qed

theorem fenced_worker_changes_nothing:
  assumes "store_reachable s" and "run_holder s (le_run_id l) = Some (w, a, u)" and "le_attempt l < a"
    and "store_step\<^sup>*\<^sup>* s s'"
  shows "(\<exists>e. mutate_run p (le_run_id l) ex m (Some l) ty d lnow now eid s' = (Inl e, s')) \<and>
         (\<exists>e. create_artifact p' tid aidopt aty sv content st pv (Some l) lnow now aid s' = (Inl e, s')) \<and>
         snd (renew_run_execution p'' l us lnow now s') = s' \<and>
         (\<forall>y. fst (renew_run_execution p'' l us lnow now s') \<noteq> Inr (Some y))"
proof -
  have "run_holder s' (le_run_id l) \<noteq> Some (w', le_attempt l, u')" for w' u'
    by (rule run_lease.superseded_forever [OF assms(4) store_reachable_inv [OF assms(1)] assms(2,3)])
  then show ?thesis by (intro conjI allI stale_calls_refused)
qed

theorem fenced_worker_changes_nothing_witness:
  "\<exists>e. mutate_run alice ''run1'' 1 publish_mutation
      (Some \<lparr>le_run_id = ''run1'', le_owner = ''w1'', le_attempt = 1, le_lease_until = 60000120\<rparr>)
      Ev_run_completed [] 150 150 ''ev3'' demo4 = (Inl e, demo4)"
  using fenced_worker_changes_nothing [OF demo_reachable(4), where l = "\<lparr>le_run_id = ''run1'',
      le_owner = ''w1'', le_attempt = 1, le_lease_until = 60000120\<rparr>" and s' = demo4] demo4_eval by simp

text \<open>
  Lease exclusion: while a lease on a Run has not expired no claim of anyone changes the
  store or returns a lease, and a successful claim issues a fencing attempt above every attempt
  issued before it, valid for the requested time.
\<close>

theorem claim_run_execution_exclusive:
  assumes "store_inv s"
  shows "(\<forall>w a u. run_holder s rid = Some (w, a, u) \<longrightarrow> now < u \<longrightarrow>
            snd (claim_run_execution p rid ow us now s) = s \<and>
            (\<forall>l. fst (claim_run_execution p rid ow us now s) \<noteq> Inr (Some l))) \<and>
         (\<forall>l s'. claim_run_execution p rid ow us now s = (Inr (Some l), s') \<longrightarrow>
            le_attempt l = attempts_of s rid + 1 \<and> attempts_of s' rid = le_attempt l \<and>
            run_holder s' rid = Some (ow, le_attempt l, now + us) \<and>
            (\<forall>w a u. run_holder s rid = Some (w, a, u) \<longrightarrow> a < le_attempt l \<and> u \<le> now))"
proof (intro conjI allI impI)
  fix w a u
  assume h: "run_holder s rid = Some (w, a, u)" "now < u"
  obtain res s' where r: "claim_run_execution p rid ow us now s = (res, s')" by force
  then have "s' = s \<and> (\<forall>l. res \<noteq> Inr (Some l))"
    by (cases rule: claim_run_execution_cases) (use h in \<open>auto simp: run_holder_def\<close>)
  with r show "snd (claim_run_execution p rid ow us now s) = s"
    "\<And>l. fst (claim_run_execution p rid ow us now s) \<noteq> Inr (Some l)" by auto
next
  fix l s'
  assume r: "claim_run_execution p rid ow us now s = (Inr (Some l), s')"
  then have c: "le_attempt l = attempts_of s rid + 1 \<and> attempts_of s' rid = attempts_of s rid + 1 \<and>
      run_holder s' rid = Some (ow, attempts_of s rid + 1, now + us)"
  proof (cases rule: claim_run_execution_cases)
    case (claimed r)
    then show ?thesis by (simp add: next_attempt_alt run_holder_def) (simp add: attempts_of_def)
  qed simp_all
  then show "le_attempt l = attempts_of s rid + 1" "attempts_of s' rid = le_attempt l"
    "run_holder s' rid = Some (ow, le_attempt l, now + us)" by simp_all
  fix w a u
  assume h: "run_holder s rid = Some (w, a, u)"
  from run_lease.holder_issued [OF assms h] c show "a < le_attempt l" by simp
  from r show "u \<le> now"
  proof (cases rule: claim_run_execution_cases)
    case (claimed r)
    from h obtain cur where "dget (st_execution_leases s) rid = Some cur" "le_lease_until cur = u"
      by (auto simp: run_holder_def)
    with claimed(3) show ?thesis by blast
  qed simp_all
qed

theorem claim_run_execution_exclusive_witness:
  "snd (claim_run_execution alice ''run1'' ''w3'' 60000000 80000000 demo4) = demo4"
  using claim_run_execution_exclusive [OF store_reachable_inv [OF demo_reachable(4)],
      of "''run1''" 80000000 alice "''w3''" 60000000] demo4_eval by simp

section \<open>Idempotent Run creation\<close>



section \<open>Access control\<close>






text \<open>
  A viewer reads but cannot write: a member with role VIEWER who is neither owner nor
  administrator can read the Trip, and every operation that would change the Trip, its members,
  its Runs or its Artifacts on that Trip raises ResourceForbidden and changes nothing.
\<close>

theorem viewer_cannot_write:
  assumes t: "dget (st_trips s) tid = Some t" "tv_tenant_id t = pr_tenant_id p"
    and v: "dget (st_members s) (tid, pr_user_id p) = Some mem" "tm_role mem = Role_VIEWER"
    and o: "tv_owner_id t \<noteq> pr_user_id p" "\<not> is_admin p"
    and u: "user \<noteq> []" "length user \<le> 128"
  shows "get_trip p tid s = (Inr t, s) \<and>
    patch_trip p tid tp now s = (Inl ResourceForbidden, s) \<and>
    set_trip_status p tid st now s = (Inl ResourceForbidden, s) \<and>
    upsert_trip_member p tid user g now s = (Inl ResourceForbidden, s) \<and>
    remove_trip_member p tid user s = (Inl ResourceForbidden, s) \<and>
    create_run p tid c bi bv key h tr now rid eid s = (Inl ResourceForbidden, s) \<and>
    create_artifact p tid aidopt ty sv content ast pv lo lnow now aid s = (Inl ResourceForbidden, s)"
proof -
  have "trip_locked s p tid True = Inl ResourceForbidden" "trip_locked s p tid False = Inr t"
    using t v o by (simp_all add: trip_locked_def assert_tenant_def)
  with u show ?thesis
    by (simp add: get_trip_def elift_def patch_trip_def set_trip_status_def upsert_trip_member_def
        remove_trip_member_def create_run_def create_artifact_def)
qed

definition demo_viewer :: platform_store where
  "demo_viewer = snd (upsert_trip_member alice ''trip1'' ''bob'' Grant_viewer 150 demo2)"

theorem viewer_cannot_write_witness:
  "create_run bob ''trip1'' plan_command None None ''k'' ''h'' ''tr'' 160 ''run2'' ''ev'' demo_viewer =
     (Inl ResourceForbidden, demo_viewer)"
proof -
  have "map_option (\<lambda>t. (tv_tenant_id t, tv_owner_id t)) (dget (st_trips demo_viewer) ''trip1'') =
      Some (''t1'', ''alice'')" by code_simp
  then obtain t where t: "dget (st_trips demo_viewer) ''trip1'' = Some t" "tv_tenant_id t = ''t1''"
    "tv_owner_id t = ''alice''" by auto
  have "map_option tm_role (dget (st_members demo_viewer) (''trip1'', ''bob'')) = Some Role_VIEWER" by code_simp
  then obtain m where m: "dget (st_members demo_viewer) (''trip1'', ''bob'') = Some m" "tm_role m = Role_VIEWER"
    by auto
  show ?thesis
    using viewer_cannot_write [OF t(1), of bob m "''x''"] t(2,3) m by (simp add: bob_def is_admin_def)
qed

text \<open>
  Ownership: in every reachable store each Trip has exactly one OWNER membership, that of
  its owner, and no call of anyone removes or downgrades it.
\<close>

theorem owner_membership_permanent:
  assumes "store_reachable s" and "dget (st_trips s) tid = Some t"
  shows "(\<exists>m. dget (st_members s) (tid, tv_owner_id t) = Some m \<and> tm_role m = Role_OWNER) \<and>
         (\<forall>u m. dget (st_members s) (tid, u) = Some m \<longrightarrow> tm_role m = Role_OWNER \<longrightarrow> u = tv_owner_id t) \<and>
         (\<exists>e. remove_trip_member p tid (tv_owner_id t) s = (Inl e, s)) \<and>
         (\<exists>e. upsert_trip_member p tid (tv_owner_id t) g now s = (Inl e, s))"
proof -
  from store_reachable_inv [OF assms(1)] have m: "members_ok s" by (simp add: store_inv_def)
  with assms(2) have "dget (st_members s) (tid, tv_owner_id t) \<noteq> None"
    unfolding members_ok_def by blast
  with m assms(2) have "\<exists>m. dget (st_members s) (tid, tv_owner_id t) = Some m \<and> tm_role m = Role_OWNER"
    unfolding members_ok_def by blast
  moreover have "\<forall>u m. dget (st_members s) (tid, u) = Some m \<longrightarrow> tm_role m = Role_OWNER \<longrightarrow> u = tv_owner_id t"
    using m assms(2) unfolding members_ok_def by fastforce
  moreover have tl: "x = t" if "trip_locked s p tid True = Inr x" for x
    using trip_locked_Inr [OF that] assms(2) by simp
  have "\<exists>e. remove_trip_member p tid (tv_owner_id t) s = (Inl e, s)"
    by (cases "trip_locked s p tid True") (auto simp: remove_trip_member_def dest: tl)
  moreover have "\<exists>e. upsert_trip_member p tid (tv_owner_id t) g now s = (Inl e, s)"
    by (cases "trip_locked s p tid True") (auto simp: upsert_trip_member_def dest: tl)
  ultimately show ?thesis by blast
qed

theorem owner_membership_permanent_witness:
  "\<exists>t e. dget (st_trips demo2) ''trip1'' = Some t \<and>
     remove_trip_member mallory ''trip1'' (tv_owner_id t) demo2 = (Inl e, demo2)"
proof -
  have "dget (st_trips demo2) ''trip1'' \<noteq> None" by code_simp
  then obtain t where t: "dget (st_trips demo2) ''trip1'' = Some t" by auto
  from owner_membership_permanent [OF demo_reachable(2) t, of mallory] t show ?thesis by blast
qed

section \<open>Event replay\<close>

text \<open>
  Event replay is exact: a reader who may see the Run and has seen the events up to a
  sequence number gets, in order, exactly the events after it: none is skipped and none repeated.
\<close>

lemma filter_after_seq:
  "log_ok rid es \<Longrightarrow> 0 \<le> k \<Longrightarrow> filter (\<lambda>ev. ev_seq ev > k) es = drop (nat k) es"
proof (induction es rule: rev_induct)
  case (snoc e es)
  then have e: "ev_seq e = int (length es) + 1" "log_ok rid es" by (auto simp: log_ok_def)
  show ?case
    using snoc.IH [OF e(2) snoc.prems(2)] e(1) snoc.prems(2) by (auto simp: drop_Cons')
qed simp

theorem list_events_exact_suffix:
  assumes "store_reachable s" and "run_locked s p rid = Inr r"
  shows "list_events p rid after s = (Inr (drop (nat after) (events_of s rid)), s)"
proof -
  have "log_ok rid (events_of s rid)"
    using store_reachable_inv [OF assms(1)] by (intro events_of_ok) (simp add: store_inv_def)
  from filter_after_seq [OF this, of "max 0 after"] assms(2)
  have "list_events p rid after s = (Inr (drop (nat (max 0 after)) (events_of s rid)), s)"
    by (simp add: list_events_def elift_def)
  moreover have "nat (max 0 after) = nat after" by simp
  ultimately show ?thesis by simp
qed

theorem list_events_exact_suffix_witness:
  "list_events alice ''run1'' 1 demo_published = (Inr (drop 1 (events_of demo_published ''run1'')), demo_published)"
proof -
  have "\<not> isl (run_locked demo_published alice ''run1'')" by code_simp
  then obtain r where "run_locked demo_published alice ''run1'' = Inr r"
    by (cases "run_locked demo_published alice ''run1''") auto
  from list_events_exact_suffix [OF demo_published_reachable this, of 1] show ?thesis by simp
qed

section \<open>Artifacts\<close>

text \<open>
  Publication: when \<open>mutate_run\<close> returns after publishing a TripSnapshot as the result of a
  Run, that version is the only published TripSnapshot of the Trip and the Trip points to it.
\<close>

lemma published_snapshotI:
  "dget (st_artifacts s) aid = Some vs \<Longrightarrow> a \<in> set vs \<Longrightarrow> is_published_snapshot a \<Longrightarrow>
   a \<in> published_snapshots s (av_trip_id a)"
  unfolding published_snapshots_def by blast

theorem publication_is_unique_and_current:
  assumes s: "store_reachable s"
    and r: "mutate_run p rid ex m lo ty d lnow now eid s = (Inr (u, ev), s')"
    and res: "mu_result_artifact m = Some a"
    and stored: "dget (st_artifacts s) (av_artifact_id a) = Some vs"
      "find (\<lambda>i. av_version i = av_version a) vs = Some st" "av_artifact_type st = ''TripSnapshot''"
  shows "published_snapshots s' (rv_trip_id u) = {st\<lparr>av_status := PUBLISHED\<rparr>} \<and>
         (\<exists>t. dget (st_trips s') (rv_trip_id u) = Some t \<and>
              tv_current_artifact_id t = Some (av_artifact_id st) \<and>
              tv_current_artifact_version t = Some (av_version st))"
proof -
  have inv: "store_inv s" by (rule store_reachable_inv [OF s])
  from r show ?thesis
  proof (cases rule: mutate_run_cases)
    case (mutated cur s1 ev')
    have u: "rv_trip_id u = rv_trip_id cur" using mutated(5) by simp
    from mutated(4) res have pr: "publish_result p cur a now s = (Inr (), s1)"
      by (simp add: mutation_result_def)
    let ?st = "st\<lparr>av_status := PUBLISHED\<rparr>"
    let ?s2 = "supersede_where (other_snapshots (rv_trip_id cur) st)
                 (restatus (av_artifact_id a) st PUBLISHED vs s)"
    from pr stored obtain t where tr: "av_trip_id st = rv_trip_id cur"
      and s1: "s1 = ?s2\<lparr>st_trips := dset (rv_trip_id cur)
               (t\<lparr>tv_current_artifact_id := Some (av_artifact_id st),
                  tv_current_artifact_version := Some (av_version st),
                  tv_version := tv_version t + 1, tv_updated_at := now\<rparr>) (st_trips s)\<rparr>"
      by (cases rule: publish_result_cases) auto
    have art: "st_artifacts s' = st_artifacts ?s2" by (simp add: mutated(11) s1)
    have in1: "?st \<in> set (replace_first st ?st vs)"
      using find_SomeD [OF stored(2)] by (intro in_replace_first) blast
    have "?st \<in> published_snapshots (restatus (av_artifact_id a) st PUBLISHED vs s) (av_trip_id ?st)"
      by (rule published_snapshotI [of _ "av_artifact_id a" "replace_first st ?st vs"])
        (use in1 stored(3) in \<open>simp_all add: is_published_snapshot_def\<close>)
    then have "?st \<in> published_snapshots ?s2 (rv_trip_id cur)"
      using tr by (simp add: published_supersede same_version_of_def)
    then have mem: "?st \<in> published_snapshots s' (rv_trip_id cur)"
      by (simp add: published_snapshots_def art)
    have "store_reachable s'"
      using store_reachable.step [OF s store_step.mutate_run [of s p rid ex m lo ty d lnow now eid]] r
      by simp
    from store_reachable_single [OF this] mem have "published_snapshots s' (rv_trip_id cur) = {?st}"
      unfolding single_published_def by blast
    moreover have "dget (st_trips s') (rv_trip_id cur) =
        Some (t\<lparr>tv_current_artifact_id := Some (av_artifact_id st),
                  tv_current_artifact_version := Some (av_version st),
                  tv_version := tv_version t + 1, tv_updated_at := now\<rparr>)"
      by (simp add: mutated(11) s1)
    ultimately show ?thesis by (simp add: u)
  qed simp_all
qed

theorem publication_is_unique_and_current_witness:
  "published_snapshots demo_published ''trip1'' = {demo_published_artifact} \<and>
   (\<exists>t. dget (st_trips demo_published) ''trip1'' = Some t \<and> tv_current_artifact_id t = Some ''snap1'')"
proof -
  let ?c = "mutate_run alice ''run1'' 1 publish_mutation None Ev_run_completed [] 0 140 ''ev2'' demo_snapshot"
  let ?a = "initial_artifact alice ''trip1'' ''snap1'' ''TripSnapshot'' 1 [] VALIDATED None 130"
  have "\<not> isl (fst ?c) \<and> rv_trip_id (fst (projr (fst ?c))) = ''trip1''" by code_simp
  then obtain u ev where r: "?c = (Inr (u, ev), demo_published)" and u: "rv_trip_id u = ''trip1''"
    unfolding demo_published_def by (cases "fst ?c") (auto simp: prod_eq_iff)
  have v: "dget (st_artifacts demo_snapshot) (av_artifact_id ?a) = Some [?a] \<and>
      find (\<lambda>i. av_version i = av_version ?a) [?a] = Some ?a \<and> av_artifact_type ?a = ''TripSnapshot''"
    by code_simp
  have m: "mu_result_artifact publish_mutation = Some ?a" by (simp add: publish_mutation_def)
  have id: "av_artifact_id ?a = ''snap1''" by (simp add: initial_artifact_def)
  from v have v1: "dget (st_artifacts demo_snapshot) (av_artifact_id ?a) = Some [?a]"
    and v2: "find (\<lambda>i. av_version i = av_version ?a) [?a] = Some ?a"
    and v3: "av_artifact_type ?a = ''TripSnapshot''" by blast+
  from publication_is_unique_and_current [OF demo_reachable(5) r m v1 v2 v3] u id show ?thesis
    by (auto simp: demo_published_artifact_def)
qed

text \<open>
  Patching an Artifact appends exactly the next version: a returned patch was made against
  the latest version, its content passed the header and contract checks, it is a CANDIDATE one
  version higher and the earlier versions are untouched; a refused patch changes nothing.
\<close>

theorem patch_artifact_appends_next_version:
  assumes "store_inv s"
  shows "(\<forall>e s'. patch_artifact vc p aid rq now s = (Inl e, s') \<longrightarrow> s' = s) \<and>
    (\<forall>a s'. patch_artifact vc p aid rq now s = (Inr a, s') \<longrightarrow>
       (\<exists>vs. dget (st_artifacts s) aid = Some vs \<and> vs \<noteq> [] \<and>
          ap_base_version rq = int (length vs) \<and> av_version a = int (length vs) + 1 \<and>
          av_status a = CANDIDATE \<and> av_parent_version a = Some (int (length vs)) \<and>
          contract_id (last vs) \<in> set CONTRACT_MODELS \<and> header_matches (last vs) (ap_content rq) \<and>
          vc (contract_id (last vs)) (ap_content rq) = Some (av_content a) \<and>
          dget (st_artifacts s') aid = Some (vs @ [a])))"
proof (intro conjI allI impI)
  fix e s'
  assume "patch_artifact vc p aid rq now s = (Inl e, s')"
  then show "s' = s" by (cases rule: patch_artifact_cases) simp_all
next
  fix a s'
  assume "patch_artifact vc p aid rq now s = (Inr a, s')"
  then show "\<exists>vs. dget (st_artifacts s) aid = Some vs \<and> vs \<noteq> [] \<and>
          ap_base_version rq = int (length vs) \<and> av_version a = int (length vs) + 1 \<and>
          av_status a = CANDIDATE \<and> av_parent_version a = Some (int (length vs)) \<and>
          contract_id (last vs) \<in> set CONTRACT_MODELS \<and> header_matches (last vs) (ap_content rq) \<and>
          vc (contract_id (last vs)) (ap_content rq) = Some (av_content a) \<and>
          dget (st_artifacts s') aid = Some (vs @ [a])"
  proof (cases rule: patch_artifact_cases)
    case (patched cur vs content)
    from artifact_locked_latest [OF assms patched(1)] patched(5)
    have v: "cur = last vs" "cur \<in> set vs" "av_version cur = int (length vs)" by auto
    have c: "contract_id cur \<in> set CONTRACT_MODELS" "header_matches cur (ap_content rq)"
      "vc (contract_id cur) (ap_content rq) = Some content"
      using patched(2,4) by (auto simp: validate_artifact_patch_content_def ensure_artifact_mutable_def
          split: if_splits option.splits)
    from v c patched(3,5,6,7) show ?thesis by (auto simp: next_version_def)
  qed simp_all
qed

definition demo_patch :: ArtifactPatchRequest where
  "demo_patch = \<lparr>ap_base_version = 1,
     ap_content = [(''artifact_id'', JStr ''snap1''), (''artifact_type'', JStr ''TripSnapshot''),
                   (''schema_version'', JInt 1), (''version'', JInt 2)]\<rparr>"

theorem patch_artifact_appends_next_version_witness:
  "\<exists>a s'. patch_artifact (\<lambda>c x. Some x) alice ''snap1'' demo_patch 150 demo_snapshot = (Inr a, s') \<and>
     (\<exists>vs. dget (st_artifacts demo_snapshot) ''snap1'' = Some vs \<and> av_version a = int (length vs) + 1)"
proof -
  let ?c = "patch_artifact (\<lambda>c x. Some x) alice ''snap1'' demo_patch 150 demo_snapshot"
  have "\<not> isl (fst ?c)" by code_simp
  then obtain a s' where r: "?c = (Inr a, s')" by (cases ?c; cases "fst ?c") auto
  with patch_artifact_appends_next_version [OF store_reachable_inv [OF demo_reachable(5)],
      of "\<lambda>c x. Some x" alice "''snap1''" demo_patch 150] show ?thesis by blast
qed

text \<open>
  Artifact commands: a command that takes effect moves the latest version along exactly one
  of candidate to selected, validated to published, published to revoked, and records the answer;
  repeating it with the same idempotency key returns the recorded answer and changes nothing, and
  a different request under that key raises IdempotencyConflict and changes nothing.
\<close>

theorem command_artifact_transition_and_replay:
  assumes inv: "store_inv s"
    and r: "command_artifact p aid rq key h now s = (Inr x, s')" "\<not> ia_replayed x"
  shows "\<exists>cur. artifact_locked s p aid None True = Inr cur \<and>
     (av_status cur, av_status (ia_artifact x)) \<in>
        {(CANDIDATE, SELECTED), (VALIDATED, PUBLISHED), (PUBLISHED, REVOKED)} \<and>
     artifact_core (ia_artifact x) = artifact_core cur \<and> av_version cur = ac_base_version rq \<and>
     (\<forall>cur2. artifact_locked s' p aid None True = Inr cur2 \<longrightarrow> ensure_artifact_mutable cur2 = Inr () \<longrightarrow>
        command_artifact p aid rq2 key h2 now2 s' =
          (if h2 = h then Inr (x\<lparr>ia_replayed := True\<rparr>) else Inl IdempotencyConflict, s'))"
  using r(1)
proof (cases rule: command_artifact_cases)
  case (applied cur vs req tg res2 s2)
  have x: "x = \<lparr>ia_artifact = cur\<lparr>av_status := tg\<rparr>, ia_replayed = False\<rparr>"
    and s': "s' = s2\<lparr>st_artifact_idempotency := dset (pr_tenant_id p, pr_user_id p, aid, key)
                 (h, cur\<lparr>av_status := tg\<rparr>) (st_artifact_idempotency s2)\<rparr>"
    using applied(9) by (cases res2; simp)+
  have "(av_status cur, tg) \<in> {(CANDIDATE, SELECTED), (VALIDATED, PUBLISHED), (PUBLISHED, REVOKED)}"
    using applied(5,6) by (cases "ac_type rq") auto
  moreover have "dget (st_artifact_idempotency s') (pr_tenant_id p, pr_user_id p, aid, key) =
      Some (h, cur\<lparr>av_status := tg\<rparr>)" by (simp add: s')
  then have "command_artifact p aid rq2 key h2 now2 s' =
      (if h2 = h then Inr (x\<lparr>ia_replayed := True\<rparr>) else Inl IdempotencyConflict, s')"
    if "artifact_locked s' p aid None True = Inr cur2" "ensure_artifact_mutable cur2 = Inr ()" for cur2
    using that by (simp add: command_artifact_def x)
  ultimately show ?thesis using applied(1,4) by (simp add: x)
qed (use r(2) in simp_all)

theorem command_artifact_transition_and_replay_witness:
  "\<exists>x s'. command_artifact alice ''snap1'' \<lparr>ac_type = Cmd_publish, ac_base_version = 1\<rparr> ''k'' ''h'' 150
       demo_snapshot = (Inr x, s') \<and> av_status (ia_artifact x) = PUBLISHED"
proof -
  let ?c = "command_artifact alice ''snap1'' \<lparr>ac_type = Cmd_publish, ac_base_version = 1\<rparr> ''k'' ''h'' 150
       demo_snapshot"
  have e: "\<not> isl (fst ?c) \<and> \<not> ia_replayed (projr (fst ?c)) \<and>
      av_status (ia_artifact (projr (fst ?c))) \<notin> {SELECTED, REVOKED}" by code_simp
  then obtain x s' where r: "?c = (Inr x, s')" "\<not> ia_replayed x" "av_status (ia_artifact x) \<notin> {SELECTED, REVOKED}"
    by (cases ?c; cases "fst ?c") auto
  from command_artifact_transition_and_replay [OF store_reachable_inv [OF demo_reachable(5)] r(1,2)] r(3)
  have "av_status (ia_artifact x) = PUBLISHED" by auto
  with r(1) show ?thesis by blast
qed

section \<open>What a refused publication leaves behind\<close>

text \<open>
  A refused publication is not rolled back in the in-memory store: an editor starts a replan
  and is demoted to viewer before it ends; publishing the result raises ResourceForbidden, but by
  then the new snapshot is PUBLISHED and the old one SUPERSEDED, while the Trip still points to
  the old one and the Run has not moved.
\<close>

definition demo_replan_command :: RunCommand where
  "demo_replan_command = \<lparr>rc_type = Trip_replan, rc_message = ''replan'', rc_payload = []\<rparr>"

definition demo_editor :: platform_store where
  "demo_editor = snd (upsert_trip_member alice ''trip1'' ''bob'' Grant_editor 150 demo_published)"

definition demo_replan :: platform_store where
  "demo_replan = snd (create_run bob ''trip1'' demo_replan_command (Some ''snap1'') (Some 1) ''k2'' ''h2'' ''tr''
     160 ''run2'' ''ev5'' demo_editor)"

definition demo_replanned :: platform_store where
  "demo_replanned = snd (create_artifact bob ''trip1'' (Some ''snap2'') ''TripSnapshot'' 1 [] VALIDATED None None 0 170
     ''unused'' demo_replan)"

definition demo_demoted :: platform_store where
  "demo_demoted = snd (upsert_trip_member alice ''trip1'' ''bob'' Grant_viewer 180 demo_replanned)"

definition replan_mutation :: run_mutation where
  "replan_mutation = publish_mutation\<lparr>mu_result_artifact := Some (initial_artifact bob ''trip1'' ''snap2''
       ''TripSnapshot'' 1 [] VALIDATED None 170)\<rparr>"

definition snapshot_statuses :: "platform_store \<Rightarrow> ArtifactStatus list option \<times> ArtifactStatus list option" where
  "snapshot_statuses s =
     (map_option (map av_status) (dget (st_artifacts s) ''snap1''),
      map_option (map av_status) (dget (st_artifacts s) ''snap2''))"

theorem refused_publication_leaves_partial_state:
  "let (res, s') = mutate_run bob ''run2'' 1 replan_mutation None Ev_run_completed [] 0 190 ''ev6'' demo_demoted
   in res = Inl ResourceForbidden \<and>
      snapshot_statuses demo_demoted = (Some [PUBLISHED], Some [VALIDATED]) \<and>
      snapshot_statuses s' = (Some [SUPERSEDED], Some [PUBLISHED]) \<and>
      map_option tv_current_artifact_id (dget (st_trips s') ''trip1'') = Some (Some ''snap1'') \<and>
      map_option rv_lifecycle_state (dget (st_runs s') ''run2'') = Some QUEUED"
  by code_simp

text \<open>
  A Trip patch with an explicit null title passes the request validation and stores no
  title at all, although the view declares the title a string.
\<close>

theorem null_title_is_stored:
  "let rq = \<lparr>tp_title = Some None, tp_locale = None, tp_timezone = None\<rparr>;
       (res, s') = patch_trip alice ''trip1'' rq 150 demo1
   in trip_patch_valid rq \<and> \<not> isl res \<and>
      map_option tv_title (dget (st_trips demo1) ''trip1'') = Some (Some ''Kyoto'') \<and>
      map_option tv_title (dget (st_trips s') ''trip1'') = Some None"
  by code_simp

end
