(* ===== verification/Public_Events.thy ===== *)
theory Public_Events
  imports V1_Models
begin

text \<open>
  The public event projection of \<^verbatim>\<open>backend/moyuan_web/v1/runtime.py\<close>: the field whitelist per event
  type, the phase vocabulary and \<open>project_public_event_data\<close>. Python's \<^verbatim>\<open>str\<close>, \<^verbatim>\<open>int\<close> and
  \<^verbatim>\<open>str.lower\<close> on arbitrary values and the conversion of a duration to milliseconds through a
  double are arguments, gathered in \<open>py_lib\<close>. The two Chinese default texts are given in English.
\<close>

text \<open>\<^verbatim>\<open>ValueError\<close> for an event type without whitelist; whatever \<^verbatim>\<open>int(v)\<close> raises otherwise.\<close>

datatype projection_error = UnsupportedEventType | ConversionError

record py_lib =
  lib_str :: "json \<Rightarrow> string"
  lib_int :: "json \<Rightarrow> projection_error + int"
  lib_lower :: "string \<Rightarrow> string"
  lib_millis :: "int \<Rightarrow> int"

definition jget :: "jobj \<Rightarrow> string \<Rightarrow> json" where
  "jget d k = (case dget d k of None \<Rightarrow> JNull | Some v \<Rightarrow> v)"

text \<open>Python's \<^verbatim>\<open>a or b\<close>.\<close>

definition py_or :: "json \<Rightarrow> json \<Rightarrow> json" where
  "py_or a b = (if py_truthy a then a else b)"

fun PUBLIC_EVENT_DATA_FIELDS :: "EventType \<Rightarrow> string list option" where
  "PUBLIC_EVENT_DATA_FIELDS Ev_run_accepted =
     Some [''lifecycle_state'', ''phase'', ''control_version'']"
| "PUBLIC_EVENT_DATA_FIELDS Ev_run_lifecycle_changed =
     Some [''previous_state'', ''lifecycle_state'', ''reason_code'', ''control_version'']"
| "PUBLIC_EVENT_DATA_FIELDS Ev_run_phase_changed =
     Some [''previous_phase'', ''phase'', ''label'', ''progress_percent'', ''control_version'']"
| "PUBLIC_EVENT_DATA_FIELDS Ev_agent_activity =
     Some [''agent'', ''activity'', ''status'', ''duration_ms'', ''sources'', ''control_version'']"
| "PUBLIC_EVENT_DATA_FIELDS Ev_artifact_candidate_updated =
     Some [''artifact_ref'', ''status'', ''control_version'']"
| "PUBLIC_EVENT_DATA_FIELDS Ev_artifact_published =
     Some [''artifact_ref'', ''status'', ''control_version'']"
| "PUBLIC_EVENT_DATA_FIELDS Ev_citation_added =
     Some [''citation'', ''artifact_ref'', ''control_version'']"
| "PUBLIC_EVENT_DATA_FIELDS Ev_risk_detected =
     Some [''risk_id'', ''severity'', ''message'', ''artifact_ref'', ''control_version'']"
| "PUBLIC_EVENT_DATA_FIELDS Ev_input_required =
     Some [''request_id'', ''prompt'', ''fields'', ''expires_at'', ''control_version'']"
| "PUBLIC_EVENT_DATA_FIELDS Ev_approval_required =
     Some [''approval_id'', ''prompt'', ''artifact_ref'', ''expires_at'', ''control_version'']"
| "PUBLIC_EVENT_DATA_FIELDS Ev_run_completed =
     Some [''lifecycle_state'', ''snapshot_ref'', ''duration_ms'', ''control_version'']"
| "PUBLIC_EVENT_DATA_FIELDS Ev_run_failed =
     Some [''lifecycle_state'', ''failed_phase'', ''error'', ''control_version'']"
| "PUBLIC_EVENT_DATA_FIELDS Ev_run_canceled =
     Some [''lifecycle_state'', ''canceled_by'', ''reason'', ''control_version'']"
| "PUBLIC_EVENT_DATA_FIELDS Ev_heartbeat = None"

definition contract_phases :: "string list" where
  "contract_phases = [''accepted'', ''clarification'', ''research'', ''planning'', ''validation'',
     ''approval'', ''publishing'', ''finalizing'', ''finished'']"

definition contract_phase :: "py_lib \<Rightarrow> string \<Rightarrow> string" where
  "contract_phase lib phase =
     (let normalized = lib_lower lib (py_strip phase) in
      if normalized \<in> set contract_phases then normalized
      else if normalized = ''starting'' then ''accepted''
      else if normalized \<in> {''understanding'', ''intent'', ''clarify''} then ''clarification''
      else if normalized \<in> {''composing'', ''compose''} then ''finalizing''
      else if normalized = ''published'' then ''publishing''
      else if normalized \<in> {''completed'', ''failed'', ''canceled'', ''canceling''} then ''finished''
      else ''planning'')"

text \<open>\<^verbatim>\<open>phase or str(data.get("phase") or run.phase)\<close> and \<^verbatim>\<open>phase or run.phase\<close>.\<close>

definition opt_or :: "string option \<Rightarrow> string \<Rightarrow> string" where
  "opt_or o1 d = (case o1 of None \<Rightarrow> d | Some s \<Rightarrow> if s = [] then d else s)"

definition artifact_ref_data ::
    "py_lib \<Rightarrow> jobj \<Rightarrow> ArtifactView option \<Rightarrow> projection_error + json" where
  "artifact_ref_data lib data artifact =
     (case artifact of
        Some a \<Rightarrow> Inr (JObj [(''artifact_type'', JStr (av_artifact_type a)),
                            (''artifact_id'', JStr (av_artifact_id a)),
                            (''schema_version'', JInt (av_schema_version a)),
                            (''version'', JInt (av_version a))])
      | None \<Rightarrow>
          (case lib_int lib (py_or (jget data ''artifact_version'') (JInt 1)) of
             Inl e \<Rightarrow> Inl e
           | Inr version \<Rightarrow>
               (case lib_int lib (py_or (jget data ''schema_version'') (JInt 1)) of
                  Inl e \<Rightarrow> Inl e
                | Inr schema_version \<Rightarrow>
                    Inr (JObj
                      [(''artifact_type'', JStr (lib_str lib (py_or (jget data ''artifact_type'') (JStr [])))),
                       (''artifact_id'', JStr (lib_str lib (py_or (jget data ''artifact_id'') (JStr [])))),
                       (''schema_version'', JInt schema_version), (''version'', JInt version)]))))"

definition opt_json :: "('a \<Rightarrow> json) \<Rightarrow> 'a option \<Rightarrow> json" where
  "opt_json f v = (case v of None \<Rightarrow> JNull | Some x \<Rightarrow> f x)"

definition snapshot_ref_data :: "py_lib \<Rightarrow> jobj \<Rightarrow> RunView \<Rightarrow> projection_error + json" where
  "snapshot_ref_data lib data run =
     (case lib_int lib (py_or (jget data ''schema_version'') (JInt 1)) of
        Inl e \<Rightarrow> Inl e
      | Inr schema_version \<Rightarrow>
          (case lib_int lib (py_or (py_or (jget data ''artifact_version'')
                  (opt_json JInt (rv_result_artifact_version run))) (JInt 1)) of
             Inl e \<Rightarrow> Inl e
           | Inr version \<Rightarrow>
               Inr (JObj
                 [(''artifact_type'', JStr (lib_str lib (py_or (jget data ''artifact_type'') (JStr ''TripSnapshot'')))),
                  (''artifact_id'', JStr (lib_str lib (py_or (py_or (jget data ''artifact_id'')
                     (opt_json JStr (rv_result_artifact_id run))) (JStr [])))),
                  (''schema_version'', JInt schema_version), (''version'', JInt version)])))"

definition project_public_event_data ::
    "py_lib \<Rightarrow> EventType \<Rightarrow> jobj \<Rightarrow> RunView option \<Rightarrow> RunLifecycle option \<Rightarrow> string option \<Rightarrow>
     ArtifactView option \<Rightarrow> string option \<Rightarrow> instant \<Rightarrow> projection_error + jobj" where
  "project_public_event_data lib ty data run lifecycle_state phase artifact error_code now =
     (case PUBLIC_EVENT_DATA_FIELDS ty of
        None \<Rightarrow> Inl UnsupportedEventType
      | Some allowed \<Rightarrow>
          let projected = filter (\<lambda>(k, _). k \<in> set allowed) data in
          (case (ty, run) of
             (Ev_run_lifecycle_changed, Some r) \<Rightarrow>
               Inr [(''previous_state'', JStr (lifecycle_value (rv_lifecycle_state r))),
                    (''lifecycle_state'', JStr (lifecycle_value
                       (case lifecycle_state of None \<Rightarrow> rv_lifecycle_state r | Some st \<Rightarrow> st))),
                    (''reason_code'', JStr (take 128 (lib_str lib (py_or (py_or (jget data ''reason_code'')
                       (jget data ''reason'')) (JStr ''state_transition'')))))]
           | (Ev_run_phase_changed, Some r) \<Rightarrow>
               (case lib_int lib (py_or (py_or (jget data ''progress_percent'') (jget data ''progress''))
                       (JInt 0)) of
                  Inl e \<Rightarrow> Inl e
                | Inr percent \<Rightarrow>
                    Inr [(''previous_phase'', JStr (contract_phase lib (rv_phase r))),
                         (''phase'', JStr (contract_phase lib
                            (opt_or phase (lib_str lib (py_or (jget data ''phase'') (JStr (rv_phase r))))))),
                         (''progress_percent'', JInt (max 0 (min 100 percent))),
                         (''label'', JStr (take 256 (lib_str lib (py_or (jget data ''label'')
                            (JStr ''progress updated'')))))])
           | (Ev_artifact_candidate_updated, _) \<Rightarrow>
               (case artifact_ref_data lib data artifact of
                  Inl e \<Rightarrow> Inl e
                | Inr ref \<Rightarrow> Inr [(''artifact_ref'', ref),
                    (''status'', JStr (lib_str lib (py_or (jget data ''status'') (JStr ''candidate''))))])
           | (Ev_artifact_published, _) \<Rightarrow>
               (case artifact_ref_data lib data artifact of
                  Inl e \<Rightarrow> Inl e
                | Inr ref \<Rightarrow> Inr [(''artifact_ref'', ref),
                    (''status'', JStr (lib_str lib (py_or (jget data ''status'') (JStr ''candidate''))))])
           | (Ev_run_completed, Some r) \<Rightarrow>
               (case snapshot_ref_data lib data r of
                  Inl e \<Rightarrow> Inl e
                | Inr ref \<Rightarrow>
                    Inr [(''lifecycle_state'', JStr (lifecycle_value COMPLETED)),
                         (''snapshot_ref'', ref),
                         (''duration_ms'', JInt (max 0 (lib_millis lib (now - rv_created_at r))))])
           | (Ev_run_failed, Some r) \<Rightarrow>
               let code = take 64 (lib_str lib (py_or (py_or (opt_json JStr error_code)
                            (jget data ''error_code'')) (JStr ''RUN_EXECUTION_FAILED''))) in
               Inr [(''lifecycle_state'', JStr (lifecycle_value FAILED)),
                    (''failed_phase'', JStr (contract_phase lib (opt_or phase (rv_phase r)))),
                    (''error'', JObj [(''code'', JStr code),
                       (''message'', JStr ''This request could not be completed; please retry later.''),
                       (''retryable'', JBool (code \<noteq> ''VALIDATION_BLOCKED''))])]
           | (Ev_run_canceled, _) \<Rightarrow>
               Inr [(''lifecycle_state'', JStr (lifecycle_value CANCELED)),
                    (''canceled_by'', JStr (lib_str lib (py_or (jget data ''canceled_by'') (JStr ''user'')))),
                    (''reason'', JStr (take 2000 (lib_str lib (py_or (jget data ''reason'')
                       (JStr ''The user canceled this task.'')))))]
           | _ \<Rightarrow> Inr projected))"

section \<open>Properties\<close>

lemma contract_phase_in: "contract_phase lib p \<in> set contract_phases"
  by (simp add: contract_phase_def contract_phases_def Let_def)

text \<open>
  Public events are whitelisted: whatever internal data a caller supplies, the projected
  event data has only the keys that the event type allows, and an event type without a whitelist
  (heartbeat) is refused.
\<close>

theorem public_event_data_whitelisted:
  "(case project_public_event_data lib ty data run ls phase artifact ec now of
      Inl _ \<Rightarrow> True
    | Inr out \<Rightarrow> (\<exists>allowed. PUBLIC_EVENT_DATA_FIELDS ty = Some allowed \<and> fst ` set out \<subseteq> set allowed)) \<and>
   project_public_event_data lib Ev_heartbeat data run ls phase artifact ec now = Inl UnsupportedEventType"
  by (cases ty; cases run)
    (auto simp: project_public_event_data_def Let_def split: sum.split)

text \<open>
  A phase event always carries phases of the public vocabulary, a progress between 0 and 100
  and a bounded label.
\<close>

definition plain_lib :: py_lib where
  "plain_lib = \<lparr>lib_str = (\<lambda>v. case v of JStr s \<Rightarrow> s | _ \<Rightarrow> []),
     lib_int = (\<lambda>v. case v of JInt n \<Rightarrow> Inr n | _ \<Rightarrow> Inl ConversionError),
     lib_lower = (\<lambda>s. s), lib_millis = (\<lambda>d. d div 1000)\<rparr>"

theorem phase_event_in_range:
  assumes "project_public_event_data lib Ev_run_phase_changed data (Some r) ls phase artifact ec now = Inr out"
  shows "(\<exists>p. jget out ''phase'' = JStr p \<and> p \<in> set contract_phases) \<and>
         (\<exists>p. jget out ''previous_phase'' = JStr p \<and> p \<in> set contract_phases) \<and>
         (\<exists>n. jget out ''progress_percent'' = JInt n \<and> 0 \<le> n \<and> n \<le> 100) \<and>
         (\<exists>l. jget out ''label'' = JStr l \<and> length l \<le> 256)"
  using assms contract_phase_in
  by (auto simp: project_public_event_data_def jget_def Let_def split: sum.splits)

definition demo_run_view :: RunView where
  "demo_run_view = \<lparr>rv_run_id = ''r'', rv_trip_id = ''t'', rv_tenant_id = ''n'', rv_actor_id = ''a'',
     rv_trace_id = ''x'', rv_lifecycle_state = RUNNING, rv_phase = ''starting'', rv_control_version = 2,
     rv_command = \<lparr>rc_type = Trip_plan, rc_message = [], rc_payload = []\<rparr>, rv_base_artifact_id = None,
     rv_base_artifact_version = None, rv_pending_input = None, rv_result_artifact_id = None,
     rv_result_artifact_version = None, rv_public_error_code = None, rv_created_at = 0,
     rv_updated_at = 0\<rparr>"

theorem phase_event_in_range_witness:
  "\<exists>out n. project_public_event_data plain_lib Ev_run_phase_changed [(''progress'', JInt 250)]
      (Some demo_run_view) None (Some ''composing'') None None 5 = Inr out \<and>
    jget out ''progress_percent'' = JInt n \<and> 0 \<le> n \<and> n \<le> 100"
proof -
  let ?c = "project_public_event_data plain_lib Ev_run_phase_changed [(''progress'', JInt 250)]
      (Some demo_run_view) None (Some ''composing'') None None 5"
  have "\<not> isl ?c" by code_simp
  then obtain out where out: "?c = Inr out" by (cases ?c) auto
  from phase_event_in_range [OF out] out show ?thesis by blast
qed

end
