(* ===== verification/Run_Coordinator.thy ===== *)
theory Run_Coordinator
  imports Store_Properties Public_Events
begin

text \<open>
  The Run control plane, class \<open>RunCoordinator\<close> of \<^verbatim>\<open>backend/moyuan_web/v1/runtime.py\<close>. Its coroutines
  suspend only at store calls and while the executor runs, so a coroutine is a sequence of atomic
  store operations with arbitrary activity of everybody else in between. The world holds the
  store, the script of that activity (before each call: what the others did to the store, and
  whether \<^verbatim>\<open>CancelledError\<close> is thrown in at that await), the number of clock and identifier draws,
  and, as a ghost, every store value passed through. The whole-run executor, a protocol in the source, is a
  function that yields its progress reports and its outcome; a progress report that raises ends
  the execution with that exception.
\<close>

section \<open>Worlds and store calls\<close>

record ExecutionArtifact =
  ea_artifact_id :: "string option"
  ea_artifact_type :: string
  ea_schema_version :: int
  ea_content :: jobj
  ea_status :: ArtifactStatus

record ExecutionResult =
  er_artifact_type :: string
  er_schema_version :: int
  er_content :: jobj
  er_artifact_id :: "string option"
  er_supporting_artifacts :: "ExecutionArtifact list"
  er_publishable :: bool

datatype run_exc =
    StoreExc store_error
  | CancelledError
  | ExecutorError
  | ProjectionExc projection_error
  | CallbackError

record exec_script =
  xs_progress :: "(string \<times> string \<times> int) list"
  xs_outcome :: "run_exc + ExecutionResult"

record runtime_sys =
  sy_lib :: py_lib
  sy_clock :: "nat \<Rightarrow> instant"
  sy_uid :: "nat \<Rightarrow> string"
  sy_iso :: "instant \<Rightarrow> string"
  sy_executor :: "RunView \<Rightarrow> Principal \<Rightarrow> exec_script"

record world =
  w_store :: platform_store
  w_env :: "(bool \<times> (platform_store \<Rightarrow> platform_store)) list"
  w_tick :: nat
  w_trace :: "platform_store list"

type_synonym 'a co = "(world, run_exc, 'a) eff"

definition interfere :: "world \<Rightarrow> bool \<times> world" where
  "interfere w =
     (case w_env w of
        [] \<Rightarrow> (False, w)
      | (c, f) # es \<Rightarrow>
          (c, w\<lparr>w_store := f (w_store w), w_env := es, w_trace := w_trace w @ [f (w_store w)]\<rparr>))"

definition store_call ::
    "runtime_sys \<Rightarrow> (instant \<Rightarrow> instant \<Rightarrow> string \<Rightarrow> 'a store_op) \<Rightarrow> 'a co" where
  "store_call sy op w =
     (case interfere w of
        (True, w1) \<Rightarrow> (Inl CancelledError, w1)
      | (False, w1) \<Rightarrow>
          (case op (sy_clock sy (w_tick w1)) (sy_clock sy (w_tick w1 + 1)) (sy_uid sy (w_tick w1))
                  (w_store w1) of
             (r, s') \<Rightarrow> ((case r of Inl e \<Rightarrow> Inl (StoreExc e) | Inr a \<Rightarrow> Inr a),
                         w1\<lparr>w_store := s', w_tick := w_tick w1 + 2, w_trace := w_trace w1 @ [s']\<rparr>)))"

abbreviation read_run :: "runtime_sys \<Rightarrow> Principal \<Rightarrow> string \<Rightarrow> RunView co" where
  "read_run sy p rid \<equiv> store_call sy (\<lambda>_ _ _. get_run p rid)"

section \<open>Transitions\<close>

definition transition ::
    "runtime_sys \<Rightarrow> Principal \<Rightarrow> RunView \<Rightarrow> run_mutation \<Rightarrow> RunExecutionLease option \<Rightarrow> EventType \<Rightarrow>
     jobj \<Rightarrow> RunView co" where
  "transition sy p run m lease ty data w =
     (case project_public_event_data (sy_lib sy) ty data (Some run) (mu_lifecycle_state m) (mu_phase m)
             (mu_result_artifact m) (mu_public_error_code m) (sy_clock sy (w_tick w)) of
        Inl e \<Rightarrow> (Inl (ProjectionExc e), w)
      | Inr event_data \<Rightarrow>
          ebind (store_call sy (\<lambda>t1 t2 u.
              mutate_run p (rv_run_id run) (rv_control_version run) m lease ty event_data t1 t2 u))
            (\<lambda>(updated, _). eret updated) w)"

definition no_mutation :: run_mutation where
  "no_mutation = \<lparr>mu_lifecycle_state = None, mu_phase = None, mu_pending_input = None,
     mu_result_artifact = None, mu_public_error_code = None\<rparr>"

definition co_progress ::
    "runtime_sys \<Rightarrow> Principal \<Rightarrow> string \<Rightarrow> string \<Rightarrow> string \<Rightarrow> int \<Rightarrow> RunExecutionLease option \<Rightarrow> unit co" where
  "co_progress sy p rid phase label percent lease =
     ebind (read_run sy p rid) (\<lambda>cur.
       if rv_lifecycle_state cur \<in> TERMINAL_RUN_STATES \<union> {CANCEL_REQUESTED} then eraise CancelledError
       else ebind (transition sy p cur (no_mutation\<lparr>mu_phase := Some phase\<rparr>) lease Ev_run_phase_changed
              [(''phase'', JStr phase), (''label'', JStr (take 160 label)),
               (''progress'', JInt (max 0 (min 100 percent)))])
            (\<lambda>_. eret ()))"

fun input_type_value :: "InputType \<Rightarrow> string" where
  "input_type_value In_text = ''text''"
| "input_type_value In_date = ''date''"
| "input_type_value In_number = ''number''"
| "input_type_value In_single_select = ''single_select''"
| "input_type_value In_multi_select = ''multi_select''"
| "input_type_value In_confirmation = ''confirmation''"

text \<open>Prompt and labels are Chinese in the source.\<close>

definition input_field :: "string \<Rightarrow> string \<Rightarrow> InputType \<Rightarrow> bool \<Rightarrow> string list \<Rightarrow> RunInputField" where
  "input_field fid label ty req opts =
     \<lparr>if_field_id = fid, if_label = label, if_input_type = ty, if_required = req, if_options = opts\<rparr>"

definition required_input :: "RunView \<Rightarrow> string \<Rightarrow> instant \<Rightarrow> RunPendingInput option" where
  "required_input run request_id now =
     (let payload = rc_payload (rv_command run) in
      if rc_type (rv_command run) \<noteq> Trip_plan then None
      else if jget payload ''interactive'' \<noteq> JBool True then None
      else if is_jobj (jget payload ''trip_brief'') \<or> is_jobj (jget payload ''trip_request'') then None
      else if is_jobj (jget payload ''resume_input'') then None
      else Some \<lparr>pi_request_id = request_id,
        pi_prompt = ''Please supply destination, dates, travellers and budget to continue planning.'',
        pi_fields =
          [input_field ''destination'' ''destination'' In_text True [],
           input_field ''start_date'' ''start date'' In_date True [],
           input_field ''end_date'' ''end date'' In_date True [],
           input_field ''adults'' ''adults'' In_number True [],
           input_field ''seniors'' ''seniors'' In_number False [],
           input_field ''budget_min'' ''minimum budget'' In_number True [],
           input_field ''budget_max'' ''maximum budget'' In_number True [],
           input_field ''currency'' ''currency'' In_single_select True [''CNY'', ''USD'', ''EUR'', ''JPY'']],
        pi_expires_at = now + 1800000000\<rparr>)"

definition pending_dump :: "(instant \<Rightarrow> string) \<Rightarrow> RunPendingInput \<Rightarrow> jobj" where
  "pending_dump to_iso p =
     [(''request_id'', JStr (pi_request_id p)), (''prompt'', JStr (pi_prompt p)),
      (''fields'', JList (map (\<lambda>f. JObj [(''field_id'', JStr (if_field_id f)),
         (''label'', JStr (if_label f)), (''input_type'', JStr (input_type_value (if_input_type f))),
         (''required'', JBool (if_required f)), (''options'', JList (map JStr (if_options f)))])
         (pi_fields p))),
      (''expires_at'', JStr (to_iso (pi_expires_at p)))]"

section \<open>Ending a Run\<close>

definition finish_canceled :: "runtime_sys \<Rightarrow> Principal \<Rightarrow> string \<Rightarrow> unit co" where
  "finish_canceled sy p rid =
     ebind (read_run sy p rid) (\<lambda>cur.
       if rv_lifecycle_state cur \<in> TERMINAL_RUN_STATES then eret ()
       else ecatch
         (ebind (transition sy p cur
             (no_mutation\<lparr>mu_lifecycle_state := Some CANCELED, mu_phase := Some ''canceled''\<rparr>) None
             Ev_run_canceled [(''lifecycle_state'', JStr (lifecycle_value CANCELED))])
           (\<lambda>_. eret ()))
         (\<lambda>e. case e of StoreExc (VersionConflict _) \<Rightarrow> eret () | _ \<Rightarrow> eraise e))"

definition finish_failed ::
    "runtime_sys \<Rightarrow> Principal \<Rightarrow> string \<Rightarrow> string \<Rightarrow> RunExecutionLease option \<Rightarrow> unit co" where
  "finish_failed sy p rid error_code lease =
     ebind (read_run sy p rid) (\<lambda>cur.
       if rv_lifecycle_state cur \<in> TERMINAL_RUN_STATES \<union> {CANCEL_REQUESTED} then
         (if rv_lifecycle_state cur = CANCEL_REQUESTED then finish_canceled sy p rid else eret ())
       else ecatch
         (ebind (transition sy p cur
             (no_mutation\<lparr>mu_lifecycle_state := Some FAILED, mu_phase := Some ''failed'',
                         mu_public_error_code := Some error_code\<rparr>) lease Ev_run_failed
             [(''lifecycle_state'', JStr (lifecycle_value FAILED)), (''error_code'', JStr error_code)])
           (\<lambda>_. eret ()))
         (\<lambda>e. case e of StoreExc (VersionConflict _) \<Rightarrow> eret ()
             | StoreExc RunExecutionLeaseLost \<Rightarrow> eret () | _ \<Rightarrow> eraise e))"

section \<open>Executing a Run\<close>

definition run_executor ::
    "runtime_sys \<Rightarrow> Principal \<Rightarrow> RunView \<Rightarrow> RunExecutionLease option \<Rightarrow> ExecutionResult co" where
  "run_executor sy p run lease =
     (let script = sy_executor sy run p in
      ebind (efor (\<lambda>(phase, label, percent). co_progress sy p (rv_run_id run) phase label percent lease)
                (xs_progress script))
        (\<lambda>_. case xs_outcome script of Inl e \<Rightarrow> eraise e | Inr r \<Rightarrow> eret r))"

definition still_running :: "runtime_sys \<Rightarrow> Principal \<Rightarrow> string \<Rightarrow> RunView co" where
  "still_running sy p rid =
     ebind (read_run sy p rid) (\<lambda>cur.
       if rv_lifecycle_state cur \<noteq> RUNNING then eraise CancelledError else eret cur)"

definition store_artifact ::
    "runtime_sys \<Rightarrow> Principal \<Rightarrow> string \<Rightarrow> RunExecutionLease option \<Rightarrow> ExecutionArtifact \<Rightarrow> ArtifactView co" where
  "store_artifact sy p tid lease a =
     store_call sy (\<lambda>t1 t2 u. create_artifact p tid (ea_artifact_id a) (ea_artifact_type a)
       (ea_schema_version a) (ea_content a) (ea_status a) None lease t1 t2 u)"

definition publish_result_artifact ::
    "runtime_sys \<Rightarrow> Principal \<Rightarrow> RunView \<Rightarrow> RunExecutionLease option \<Rightarrow> ExecutionResult \<Rightarrow> ArtifactView \<Rightarrow> unit co"
where
  "publish_result_artifact sy p cur lease result artifact =
     (if \<not> er_publishable result then
        ebind (transition sy p cur (no_mutation\<lparr>mu_phase := Some ''validation''\<rparr>) lease
            Ev_artifact_candidate_updated
            [(''artifact_id'', JStr (av_artifact_id artifact)),
             (''artifact_version'', JInt (av_version artifact)),
             (''artifact_type'', JStr (av_artifact_type artifact)),
             (''schema_version'', JInt (av_schema_version artifact)),
             (''status'', JStr (artifact_status_value CANDIDATE))]) (\<lambda>cur2.
        ebind (transition sy p cur2
            (no_mutation\<lparr>mu_lifecycle_state := Some FAILED, mu_phase := Some ''validation'',
                        mu_public_error_code := Some ''VALIDATION_BLOCKED''\<rparr>) lease Ev_run_failed
            [(''lifecycle_state'', JStr (lifecycle_value FAILED)),
             (''error_code'', JStr ''VALIDATION_BLOCKED'')]) (\<lambda>_. eret ()))
      else
        ebind (transition sy p cur
            (no_mutation\<lparr>mu_phase := Some ''published'', mu_result_artifact := Some artifact\<rparr>) lease
            Ev_artifact_published
            [(''artifact_id'', JStr (av_artifact_id artifact)),
             (''artifact_version'', JInt (av_version artifact)),
             (''artifact_type'', JStr (av_artifact_type artifact)),
             (''status'', JStr (artifact_status_value PUBLISHED))]) (\<lambda>cur2.
        ebind (transition sy p cur2
            (no_mutation\<lparr>mu_lifecycle_state := Some COMPLETED, mu_phase := Some ''completed''\<rparr>) lease
            Ev_run_completed
            [(''lifecycle_state'', JStr (lifecycle_value COMPLETED)),
             (''artifact_id'', JStr (av_artifact_id artifact)),
             (''artifact_version'', JInt (av_version artifact)),
             (''artifact_type'', JStr (av_artifact_type artifact)),
             (''schema_version'', JInt (av_schema_version artifact))]) (\<lambda>_. eret ())))"

definition store_result ::
    "runtime_sys \<Rightarrow> string \<Rightarrow> Principal \<Rightarrow> RunExecutionLease option \<Rightarrow> ExecutionResult \<Rightarrow> unit co" where
  "store_result sy rid p lease result =
     ebind (still_running sy p rid) (\<lambda>cur1.
     ebind (efor (\<lambda>a. ebind (store_artifact sy p (rv_trip_id cur1) lease a) (\<lambda>_. eret ()))
             (er_supporting_artifacts result)) (\<lambda>_.
     ebind (still_running sy p rid) (\<lambda>cur2.
     ebind (store_artifact sy p (rv_trip_id cur2) lease
             \<lparr>ea_artifact_id = er_artifact_id result, ea_artifact_type = er_artifact_type result,
              ea_schema_version = er_schema_version result, ea_content = er_content result,
              ea_status = CANDIDATE\<rparr>) (\<lambda>artifact.
     ebind (still_running sy p rid) (\<lambda>cur3.
     publish_result_artifact sy p cur3 lease result artifact)))))"

definition execute_running ::
    "runtime_sys \<Rightarrow> string \<Rightarrow> Principal \<Rightarrow> RunExecutionLease option \<Rightarrow> RunView \<Rightarrow> unit co" where
  "execute_running sy rid p lease cur w =
     (case required_input cur (sy_uid sy (w_tick w)) (sy_clock sy (w_tick w)) of
        Some pending \<Rightarrow>
          ebind (transition sy p cur
              (no_mutation\<lparr>mu_lifecycle_state := Some WAITING_INPUT, mu_phase := Some ''clarification'',
                          mu_pending_input := Some pending\<rparr>) lease Ev_input_required
              (pending_dump (sy_iso sy) pending)) (\<lambda>_. eret ()) w
      | None \<Rightarrow> ebind (run_executor sy p cur lease) (store_result sy rid p lease) w)"

definition execute_body ::
    "runtime_sys \<Rightarrow> string \<Rightarrow> Principal \<Rightarrow> RunExecutionLease option \<Rightarrow> unit co" where
  "execute_body sy rid p lease =
     ebind (read_run sy p rid) (\<lambda>cur.
       if rv_lifecycle_state cur = QUEUED then
         ebind (transition sy p cur
             (no_mutation\<lparr>mu_lifecycle_state := Some RUNNING, mu_phase := Some ''starting''\<rparr>) lease
             Ev_run_lifecycle_changed [(''lifecycle_state'', JStr (lifecycle_value RUNNING))])
           (execute_running sy rid p lease)
       else if rv_lifecycle_state cur \<noteq> RUNNING then eret ()
       else execute_running sy rid p lease cur)"

definition execute_handler ::
    "runtime_sys \<Rightarrow> string \<Rightarrow> Principal \<Rightarrow> RunExecutionLease option \<Rightarrow> run_exc \<Rightarrow> unit co" where
  "execute_handler sy rid p lease e =
     (case e of
        CancelledError \<Rightarrow>
          (if lease = None then finish_canceled sy p rid
           else ebind (read_run sy p rid) (\<lambda>cur.
             if rv_lifecycle_state cur = CANCEL_REQUESTED then finish_canceled sy p rid
             else if rv_lifecycle_state cur \<in> TERMINAL_RUN_STATES then eret ()
             else eraise CancelledError))
      | StoreExc RunExecutionLeaseLost \<Rightarrow> eraise e
      | StoreExc (VersionConflict _) \<Rightarrow>
          ebind (read_run sy p rid) (\<lambda>cur.
            if rv_lifecycle_state cur = CANCEL_REQUESTED then finish_canceled sy p rid else eret ())
      | _ \<Rightarrow> finish_failed sy p rid ''RUN_EXECUTION_FAILED'' lease)"

definition execute_run ::
    "runtime_sys \<Rightarrow> string \<Rightarrow> Principal \<Rightarrow> RunExecutionLease option \<Rightarrow> unit co" where
  "execute_run sy rid p lease = ecatch (execute_body sy rid p lease) (execute_handler sy rid p lease)"

text \<open>
  \<open>execute_existing\<close>: \<open>lost\<close> is the value of the \<^verbatim>\<open>lease_lost\<close> event when the execution task is done;
  the heartbeat task's renewals are activity of others, made by \<open>heartbeat\<close>.
\<close>

definition execute_existing ::
    "runtime_sys \<Rightarrow> Principal \<Rightarrow> string \<Rightarrow> string \<Rightarrow> int \<Rightarrow> bool \<Rightarrow> RunView co" where
  "execute_existing sy p rid owner lease_us lost =
     ebind (read_run sy p rid) (\<lambda>cur.
       if rv_lifecycle_state cur \<notin> {QUEUED, RUNNING} then eret cur
       else ebind (store_call sy (\<lambda>t1 _ _. claim_run_execution p rid owner lease_us t1)) (\<lambda>claimed.
         case claimed of
           None \<Rightarrow>
             ebind (read_run sy p rid) (\<lambda>cur2.
               if rv_lifecycle_state cur2 \<in> {QUEUED, RUNNING} then eraise (StoreExc RunExecutionBusy)
               else eret cur2)
         | Some lease \<Rightarrow>
             ebind (efinally
                 (ecatch
                   (ebind (execute_run sy rid p (Some lease)) (\<lambda>_.
                      if lost then eraise (StoreExc RunExecutionLeaseLost) else eret ()))
                   (\<lambda>e. if e = CancelledError \<and> lost then eraise (StoreExc RunExecutionLeaseLost)
                        else eraise e))
                 (store_call sy (\<lambda>_ _ _. release_run_execution p lease)))
               (\<lambda>_. read_run sy p rid)))"

text \<open>One round of the heartbeat; \<^term>\<open>True\<close> is \<^verbatim>\<open>lease_lost.set()\<close> and the cancellation of the execution.\<close>

definition heartbeat :: "runtime_sys \<Rightarrow> Principal \<Rightarrow> RunExecutionLease \<Rightarrow> int \<Rightarrow> bool co" where
  "heartbeat sy p lease lease_us =
     ecatch
       (ebind (store_call sy (\<lambda>t1 t2 _. renew_run_execution p lease lease_us t1 t2))
         (\<lambda>renewed. eret (renewed = None)))
       (\<lambda>e. if e = CancelledError then eraise e else eret True)"

section \<open>Control requests\<close>

definition resume ::
    "runtime_sys \<Rightarrow> (string \<Rightarrow> string option) \<Rightarrow> Principal \<Rightarrow> string \<Rightarrow> int \<Rightarrow> string \<Rightarrow> jobj \<Rightarrow> string \<Rightarrow> string \<Rightarrow>
     IdempotentRunResult co" where
  "resume sy date_iso p rid expected request_id values idem_key request_hash =
     store_call sy (\<lambda>t1 t2 u.
       resume_run date_iso p rid expected request_id values idem_key request_hash t1 t2 u)"

datatype callback_result = Callback_ok | Callback_error | Callback_canceled

text \<open>
  \<open>cb\<close> is what \<^verbatim>\<open>self._cancel_run_tasks\<close> does and \<open>has_task\<close> whether a local execution task is
  registered, which is then canceled.
\<close>

definition cancel ::
    "runtime_sys \<Rightarrow> Principal \<Rightarrow> string \<Rightarrow> int \<Rightarrow> callback_result \<Rightarrow> bool \<Rightarrow> RunView co" where
  "cancel sy p rid expected cb has_task =
     ebind (read_run sy p rid) (\<lambda>cur.
       if rv_lifecycle_state cur \<in> TERMINAL_RUN_STATES then eret cur
       else ebind
         (if rv_lifecycle_state cur = CANCEL_REQUESTED then eret cur
          else transition sy p (cur\<lparr>rv_control_version := expected\<rparr>)
            (no_mutation\<lparr>mu_lifecycle_state := Some CANCEL_REQUESTED, mu_phase := Some ''canceling''\<rparr>) None
            Ev_run_lifecycle_changed
            [(''lifecycle_state'', JStr (lifecycle_value CANCEL_REQUESTED)),
             (''reason'', JStr ''user_requested'')])
         (\<lambda>updated.
           if cb = Callback_canceled then eraise CancelledError
           else ebind (ewhen (\<not> has_task \<and> cb = Callback_ok) (finish_canceled sy p rid)) (\<lambda>_.
             if cb = Callback_error then eraise CallbackError else eret updated)))"

end
