(* ===== verification/Coordinator_Safety.thy ===== *)
theory Coordinator_Safety
  imports Run_Coordinator
begin

text \<open>
  What the Run control plane guarantees under every interleaving. A small Hoare logic over
  coordinator programs carries the argument: preconditions speak about the store and are stable
  under the steps of others, and the ghost trace records that the life cycle of a Run only moves
  forward.
\<close>

section \<open>Life cycles only move forward\<close>

text \<open>A Run whose cancellation was requested ends as CANCELED; a terminal Run is frozen.\<close>

fun allowed_after :: "RunLifecycle \<Rightarrow> RunLifecycle set" where
  "allowed_after COMPLETED = {COMPLETED}"
| "allowed_after FAILED = {FAILED}"
| "allowed_after CANCELED = {CANCELED}"
| "allowed_after CANCEL_REQUESTED = {CANCEL_REQUESTED, CANCELED}"
| "allowed_after _ = UNIV"

definition run_forward :: "RunView \<Rightarrow> RunView \<Rightarrow> bool" where
  "run_forward r r' \<longleftrightarrow> rv_lifecycle_state r' \<in> allowed_after (rv_lifecycle_state r) \<and>
     (rv_lifecycle_state r \<in> TERMINAL_RUN_STATES \<longrightarrow> r' = r)"

definition forward :: "platform_store \<Rightarrow> platform_store \<Rightarrow> bool" where
  "forward s s' \<longleftrightarrow>
     (\<forall>rid r. dget (st_runs s) rid = Some r \<longrightarrow>
        (\<exists>r'. dget (st_runs s') rid = Some r' \<and> run_forward r r'))"

lemma run_forward_refl [simp]: "run_forward r r"
  by (cases "rv_lifecycle_state r") (simp_all add: run_forward_def)

lemma run_forward_trans: "run_forward a b \<Longrightarrow> run_forward b c \<Longrightarrow> run_forward a c"
  by (cases "rv_lifecycle_state a"; cases "rv_lifecycle_state b")
    (auto simp: run_forward_def TERMINAL_RUN_STATES_def)

lemma forward_refl [simp]: "st_runs s' = st_runs s \<Longrightarrow> forward s s'"
  by (simp add: forward_def)

lemma forward_trans: "forward s t \<Longrightarrow> forward t u \<Longrightarrow> forward s u"
  unfolding forward_def using run_forward_trans by blast

lemma forward_dset:
  assumes "dget (st_runs s) rid = Some r" and "run_forward r r'" and "st_runs s' = dset rid r' (st_runs s)"
  shows "forward s s'"
  using assms by (auto simp: forward_def)

section \<open>A Run changes only with its control version\<close>

definition unless_bumped :: "RunView \<Rightarrow> platform_store \<Rightarrow> bool" where
  "unless_bumped r s \<longleftrightarrow>
     (\<exists>r'. dget (st_runs s) (rv_run_id r) = Some r' \<and> (r' = r \<or> rv_control_version r < rv_control_version r'))"

definition runs_bumped :: "platform_store \<Rightarrow> platform_store \<Rightarrow> bool" where
  "runs_bumped s s' \<longleftrightarrow>
     (\<forall>rid r. dget (st_runs s) rid = Some r \<longrightarrow>
        (\<exists>r'. dget (st_runs s') rid = Some r' \<and> (r' = r \<or> rv_control_version r < rv_control_version r')))"

lemma runs_bumped_same [simp]: "st_runs s' = st_runs s \<Longrightarrow> runs_bumped s s'"
  by (simp add: runs_bumped_def)

lemma runs_bumped_dset:
  assumes "dget (st_runs s) rid = Some r" and "rv_control_version r < rv_control_version r'"
    and "st_runs s' = dset rid r' (st_runs s)"
  shows "runs_bumped s s'"
  using assms by (auto simp: runs_bumped_def)

lemma calm_bumped: "calm s s' \<Longrightarrow> runs_bumped s s'"
  by (simp add: calm_def)

lemma mutate_run_bumped: "runs_bumped s (snd (mutate_run p rid ex m lo ty d lnow now eid s))"
proof -
  obtain res s' where r: "mutate_run p rid ex m lo ty d lnow now eid s = (res, s')" by force
  then have "runs_bumped s s'"
  proof (cases rule: mutate_run_cases)
    case (unpublished cur e)
    have "s' = snd (mutation_result p cur m now s)" by (simp add: unpublished(4))
    then show ?thesis by simp
  next
    case (mutated cur s1 ev)
    have "s1 = snd (mutation_result p cur m now s)" by (simp add: mutated(4))
    then have "st_runs s1 = st_runs s" by simp
    then show ?thesis
      using mutated(1) by (intro runs_bumped_dset [of s rid cur "apply_mutation m now cur"])
        (auto simp: mutated(11) dest!: run_locked_Inr)
  qed simp
  with r show ?thesis by simp
qed

lemma resume_run_bumped: "runs_bumped s (snd (resume_run di p rid ex rq vals key h cnow now eid s))"
proof -
  obtain res s' where r: "resume_run di p rid ex rq vals key h cnow now eid s = (res, s')" by force
  then have "runs_bumped s s'"
  proof (cases rule: resume_run_cases)
    case (resumed cur pend norm ev)
    then show ?thesis
      by (intro runs_bumped_dset [of s rid cur "resumed_run rq norm now cur"])
        (auto simp: resumed_run_def dest!: run_locked_Inr)
  qed simp_all
  with r show ?thesis by simp
qed

lemma create_run_bumped:
  assumes "dget (st_runs s) rid = None"
  shows "runs_bumped s (snd (create_run p tid c bi bv key h tr now rid eid s))"
proof -
  obtain res s' where r: "create_run p tid c bi bv key h tr now rid eid s = (res, s')" by force
  then have "runs_bumped s s'"
    by (cases rule: create_run_cases) (use assms in \<open>auto simp: runs_bumped_def\<close>)
  with r show ?thesis by simp
qed

lemma store_step_bumped: "store_step s s' \<Longrightarrow> runs_bumped s s'"
  by (induction rule: store_step.induct)
    (simp_all add: calm_ops [THEN calm_bumped] mutate_run_bumped resume_run_bumped create_run_bumped)

lemma unless_bumped_mono: "unless_bumped r s \<Longrightarrow> runs_bumped s s' \<Longrightarrow> unless_bumped r s'"
  unfolding unless_bumped_def runs_bumped_def by (metis order_less_trans)

lemma unless_bumped_steps: "store_step\<^sup>*\<^sup>* s s' \<Longrightarrow> unless_bumped r s \<Longrightarrow> unless_bumped r s'"
  by (induction rule: rtranclp_induct) (auto intro: unless_bumped_mono store_step_bumped)

section \<open>Worlds\<close>

text \<open>
  The others may do anything the store offers, as long as they keep life cycles moving forward;
  everything passed through so far is behind the current store.
\<close>

definition env_ok :: "(bool \<times> (platform_store \<Rightarrow> platform_store)) list \<Rightarrow> bool" where
  "env_ok env \<longleftrightarrow>
     (\<forall>(c, f) \<in> set env. \<forall>s. store_inv s \<longrightarrow> store_step\<^sup>*\<^sup>* s (f s) \<and> forward s (f s))"

definition world_ok :: "world \<Rightarrow> bool" where
  "world_ok w \<longleftrightarrow> store_inv (w_store w) \<and> env_ok (w_env w) \<and>
     sorted_wrt forward (w_trace w) \<and> (\<forall>s \<in> set (w_trace w). forward s (w_store w))"

definition world_step :: "world \<Rightarrow> world \<Rightarrow> bool" where
  "world_step w w' \<longleftrightarrow> world_ok w' \<and> store_step\<^sup>*\<^sup>* (w_store w) (w_store w') \<and>
     forward (w_store w) (w_store w')"

lemma world_ok_advance:
  assumes w: "world_ok w" and st: "store_step\<^sup>*\<^sup>* (w_store w) s'" and fw: "forward (w_store w) s'"
    and env: "set env \<subseteq> set (w_env w)"
  shows "world_step w (w\<lparr>w_store := s', w_env := env, w_tick := n, w_trace := w_trace w @ [s']\<rparr>)"
proof -
  have "store_inv s'" using w st store_steps_extend by (simp add: world_ok_def)
  moreover have "forward t s'" if "t \<in> set (w_trace w)" for t
    using w that fw forward_trans by (auto simp: world_ok_def)
  moreover have "env_ok env" using w env unfolding world_ok_def env_ok_def by blast
  ultimately show ?thesis using w st fw by (auto simp: world_step_def world_ok_def sorted_wrt_append)
qed

lemma world_step_refl: "world_ok w \<Longrightarrow> world_step w w"
  by (simp add: world_step_def)

lemma world_step_trans: "world_step w w' \<Longrightarrow> world_step w' w'' \<Longrightarrow> world_step w w''"
  unfolding world_step_def by (metis forward_trans rtranclp_trans)

lemma interfere_step:
  assumes w: "world_ok w" and i: "interfere w = (c, w1)"
  shows "world_step w w1"
proof (cases "w_env w")
  case Nil
  with i w show ?thesis by (simp add: interfere_def world_step_refl)
next
  case (Cons cf es)
  obtain c0 f where cf: "cf = (c0, f)" by force
  from w Cons cf have "store_step\<^sup>*\<^sup>* (w_store w) (f (w_store w)) \<and> forward (w_store w) (f (w_store w))"
    by (auto simp: world_ok_def env_ok_def)
  then have "world_step w (w\<lparr>w_store := f (w_store w), w_env := es, w_tick := w_tick w,
      w_trace := w_trace w @ [f (w_store w)]\<rparr>)"
    using w Cons by (intro world_ok_advance) auto
  with i Cons cf show ?thesis by (simp add: interfere_def)
qed

section \<open>A Hoare logic for coordinator programs\<close>

definition stable :: "(platform_store \<Rightarrow> bool) \<Rightarrow> bool" where
  "stable P \<longleftrightarrow> (\<forall>s s'. store_inv s \<longrightarrow> P s \<longrightarrow> store_step\<^sup>*\<^sup>* s s' \<longrightarrow> P s')"

definition co_spec :: "(platform_store \<Rightarrow> bool) \<Rightarrow> 'a co \<Rightarrow> ('a \<Rightarrow> platform_store \<Rightarrow> bool) \<Rightarrow> bool" where
  "co_spec P m Q \<longleftrightarrow>
     (\<forall>w. world_ok w \<longrightarrow> P (w_store w) \<longrightarrow>
        world_step w (snd (m w)) \<and> (\<forall>a. fst (m w) = Inr a \<longrightarrow> Q a (w_store (snd (m w)))))"

named_theorems co_intros \<open>rules of the coordinator logic\<close>

abbreviation yes :: "'a \<Rightarrow> platform_store \<Rightarrow> bool" where
  "yes \<equiv> \<lambda>_ _. True"

lemma co_spec_ret [co_intros]: "(\<And>s. P s \<Longrightarrow> Q a s) \<Longrightarrow> co_spec P (eret a) Q"
  by (simp add: co_spec_def world_step_refl)

lemma co_spec_raise [co_intros]: "co_spec P (eraise e) Q"
  by (simp add: co_spec_def world_step_refl)

lemma co_spec_bind [co_intros]:
  assumes m: "co_spec P m R" and f: "\<And>a. co_spec (R a) (f a) Q"
  shows "co_spec P (ebind m f) Q"
  unfolding co_spec_def
proof (intro allI impI)
  fix w
  assume w: "world_ok w" and P: "P (w_store w)"
  obtain r w1 where mw: "m w = (r, w1)" by force
  from m w P mw have 1: "world_step w w1" "\<And>a. r = Inr a \<Longrightarrow> R a (w_store w1)"
    by (auto simp: co_spec_def)
  show "world_step w (snd (ebind m f w)) \<and>
      (\<forall>a. fst (ebind m f w) = Inr a \<longrightarrow> Q a (w_store (snd (ebind m f w))))"
  proof (cases r)
    case (Inl e)
    with mw 1 show ?thesis by simp
  next
    case (Inr a)
    with f [of a] 1 have "world_step w1 (snd (f a w1)) \<and>
        (\<forall>b. fst (f a w1) = Inr b \<longrightarrow> Q b (w_store (snd (f a w1))))"
      by (auto simp: co_spec_def world_step_def)
    with mw Inr 1(1) world_step_trans show ?thesis by auto
  qed
qed

lemma co_spec_catch [co_intros]:
  assumes m: "co_spec P m Q" and h: "\<And>e. co_spec (\<lambda>_. True) (h e) Q"
  shows "co_spec P (ecatch m h) Q"
  unfolding co_spec_def
proof (intro allI impI)
  fix w
  assume w: "world_ok w" and P: "P (w_store w)"
  obtain r w1 where mw: "m w = (r, w1)" by force
  from m w P mw have 1: "world_step w w1" "\<And>a. r = Inr a \<Longrightarrow> Q a (w_store w1)"
    by (auto simp: co_spec_def)
  show "world_step w (snd (ecatch m h w)) \<and>
      (\<forall>a. fst (ecatch m h w) = Inr a \<longrightarrow> Q a (w_store (snd (ecatch m h w))))"
  proof (cases r)
    case (Inl e)
    with h [of e] 1 have "world_step w1 (snd (h e w1)) \<and>
        (\<forall>b. fst (h e w1) = Inr b \<longrightarrow> Q b (w_store (snd (h e w1))))"
      by (auto simp: co_spec_def world_step_def)
    with mw Inl 1(1) world_step_trans show ?thesis by (auto simp: ecatch_def)
  next
    case (Inr a)
    with mw 1 show ?thesis by (simp add: ecatch_def)
  qed
qed

lemma co_spec_finally [co_intros]:
  assumes m: "co_spec P m yes" and f: "co_spec (\<lambda>_. True) f yes"
  shows "co_spec P (efinally m f) yes"
  unfolding co_spec_def
proof (intro allI impI)
  fix w
  assume w: "world_ok w" and P: "P (w_store w)"
  obtain r w1 where mw: "m w = (r, w1)" by force
  obtain r2 w2 where fw: "f w1 = (r2, w2)" by force
  from m w P mw have 1: "world_step w w1" by (auto simp: co_spec_def)
  with f fw have "world_step w1 w2" by (auto simp: co_spec_def world_step_def)
  with 1 world_step_trans have "world_step w w2" by blast
  with mw fw show "world_step w (snd (efinally m f w)) \<and>
      (\<forall>a. fst (efinally m f w) = Inr a \<longrightarrow> True)" by (cases r2) (simp_all add: efinally_def)
qed

lemma co_spec_if [co_intros]:
  "(b \<Longrightarrow> co_spec P m Q) \<Longrightarrow> (\<not> b \<Longrightarrow> co_spec P n Q) \<Longrightarrow> co_spec P (if b then m else n) Q"
  by simp

lemma co_spec_when [co_intros]: "(b \<Longrightarrow> co_spec P m yes) \<Longrightarrow> co_spec P (ewhen b m) yes"
  by (simp add: ewhen_def co_spec_def world_step_refl)

lemma co_spec_for [co_intros]:
  assumes "\<And>x. x \<in> set xs \<Longrightarrow> co_spec (\<lambda>_. True) (f x) yes"
  shows "co_spec (\<lambda>_. True) (efor f xs) yes"
  using assms
proof (induction xs)
  case Nil
  then show ?case by (simp add: co_spec_ret del: eret_def)
next
  case (Cons x xs)
  then show ?case by (auto intro!: co_spec_bind [where R = yes])
qed

lemma co_spec_weaken:
  "co_spec P' m Q' \<Longrightarrow> (\<And>s. P s \<Longrightarrow> P' s) \<Longrightarrow> (\<And>a s. Q' a s \<Longrightarrow> Q a s) \<Longrightarrow> co_spec P m Q"
  unfolding co_spec_def by blast

lemma co_spec_call:
  assumes st: "stable P"
    and op: "\<And>t1 t2 u s r s'. store_inv s \<Longrightarrow> P s \<Longrightarrow> op t1 t2 u s = (r, s') \<Longrightarrow>
      store_step\<^sup>*\<^sup>* s s' \<and> forward s s' \<and> (\<forall>a. r = Inr a \<longrightarrow> Q a s')"
  shows "co_spec P (store_call sy op) Q"
  unfolding co_spec_def
proof (intro allI impI)
  fix w
  assume w: "world_ok w" and P: "P (w_store w)"
  obtain c w1 where i: "interfere w = (c, w1)" by force
  from interfere_step [OF w i] have s1: "world_step w w1" .
  then have ok1: "world_ok w1" "store_inv (w_store w1)" by (auto simp: world_step_def world_ok_def)
  have P1: "P (w_store w1)"
    using st w P s1 by (auto simp: stable_def world_step_def world_ok_def)
  show "world_step w (snd (store_call sy op w)) \<and>
      (\<forall>a. fst (store_call sy op w) = Inr a \<longrightarrow> Q a (w_store (snd (store_call sy op w))))"
  proof (cases c)
    case True
    with i s1 show ?thesis by (simp add: store_call_def)
  next
    case False
    obtain r s' where o: "op (sy_clock sy (w_tick w1)) (sy_clock sy (w_tick w1 + 1)) (sy_uid sy (w_tick w1))
        (w_store w1) = (r, s')" by force
    from op [OF ok1(2) P1 o] have 2: "store_step\<^sup>*\<^sup>* (w_store w1) s'" "forward (w_store w1) s'"
      "\<And>a. r = Inr a \<Longrightarrow> Q a s'" by auto
    have "world_step w1 (w1\<lparr>w_store := s', w_env := w_env w1, w_tick := w_tick w1 + 2,
        w_trace := w_trace w1 @ [s']\<rparr>)" by (rule world_ok_advance [OF ok1(1) 2(1,2)]) simp
    with s1 world_step_trans 2(3) i False o show ?thesis
      by (auto simp: store_call_def split: sum.splits)
  qed
qed

section \<open>The coordinator's programs\<close>

lemma stable_True [simp]: "stable (\<lambda>_. True)"
  by (simp add: stable_def)

lemma stable_unless_bumped [simp]: "stable (unless_bumped r)"
  unfolding stable_def using unless_bumped_steps by blast

lemma read_run_spec:
  "co_spec (\<lambda>_. True) (read_run sy p rid) (\<lambda>r s. unless_bumped r s \<and> rv_run_id r = rid)"
proof (rule co_spec_call)
  fix t1 t2 :: instant and u :: string and s r s'
  assume inv: "store_inv s" and g: "get_run p rid s = (r, s')"
  then have s': "s' = s" "r = run_locked s p rid" by (auto simp: get_run_def elift_def)
  have "unless_bumped a s \<and> rv_run_id a = rid" if "r = Inr a" for a
    using that s' locked_run_id [OF inv] by (auto simp: unless_bumped_def dest!: run_locked_Inr)
  with s' show "store_step\<^sup>*\<^sup>* s s' \<and> forward s s' \<and>
      (\<forall>a. r = Inr a \<longrightarrow> unless_bumped a s' \<and> rv_run_id a = rid)" by simp
qed simp

lemma mutate_run_runs:
  assumes "mutate_run p rid ex m lo ty d lnow now eid s = (res, s')"
  shows "st_runs s' = (case res of Inl _ \<Rightarrow> st_runs s | Inr (u, _) \<Rightarrow> dset rid u (st_runs s))"
  using assms
proof (cases rule: mutate_run_cases)
  case (unpublished cur e)
  have "s' = snd (mutation_result p cur m now s)" by (simp add: unpublished(4))
  with unpublished(5) show ?thesis by simp
next
  case (mutated cur s1 ev)
  have "s1 = snd (mutation_result p cur m now s)" by (simp add: mutated(4))
  then have "st_runs s1 = st_runs s" by simp
  with mutated(5) show ?thesis by (simp add: mutated(11))
qed simp

definition next_state :: "run_mutation \<Rightarrow> RunView \<Rightarrow> RunLifecycle" where
  "next_state m r = (case mu_lifecycle_state m of None \<Rightarrow> rv_lifecycle_state r | Some x \<Rightarrow> x)"

lemma next_state_apply: "rv_lifecycle_state (apply_mutation m now r) = next_state m r"
  by (simp add: apply_mutation_def next_state_def)

text \<open>
  A transition based on a past reading of a live Run moves that Run forward: if the Run has moved
  on since, the compare-and-set fails.
\<close>

lemma transition_call_spec:
  assumes live: "rv_lifecycle_state run \<notin> TERMINAL_RUN_STATES"
    and ok: "next_state m run \<in> allowed_after (rv_lifecycle_state run)"
    and old: "e \<le> rv_control_version run"
  shows "co_spec (unless_bumped run)
    (store_call sy (\<lambda>t1 t2 u. mutate_run p (rv_run_id run) e m lease ty d t1 t2 u))
    (\<lambda>(u, _) s. unless_bumped u s \<and> rv_lifecycle_state u = next_state m run \<and> rv_run_id u = rv_run_id run)"
proof (rule co_spec_call)
  fix t1 t2 :: instant and uid :: string and s r s'
  assume inv: "store_inv s" and P: "unless_bumped run s"
    and c: "mutate_run p (rv_run_id run) e m lease ty d t1 t2 uid s = (r, s')"
  have st: "store_step\<^sup>*\<^sup>* s s'"
    using store_step.mutate_run [of s p "rv_run_id run" e m lease ty d t1 t2 uid] c by auto
  show "store_step\<^sup>*\<^sup>* s s' \<and> forward s s' \<and> (\<forall>a. r = Inr a \<longrightarrow> (case a of (u, _) \<Rightarrow> \<lambda>s.
      unless_bumped u s \<and> rv_lifecycle_state u = next_state m run \<and> rv_run_id u = rv_run_id run) s')"
  proof (cases r)
    case (Inl x)
    with mutate_run_runs [OF c] st show ?thesis by simp
  next
    case (Inr b)
    obtain u ev where b: "b = (u, ev)" by force
    with Inr c have c': "mutate_run p (rv_run_id run) e m lease ty d t1 t2 uid s = (Inr (u, ev), s')" by simp
    from mutate_run_success [OF inv c'] obtain cur where cur: "dget (st_runs s) (rv_run_id run) = Some cur"
      "rv_control_version cur = e" "u = apply_mutation m t2 cur" "dget (st_runs s') (rv_run_id run) = Some u"
      by blast
    from P cur(1,2) old have eq: "cur = run" by (auto simp: unless_bumped_def)
    have runs: "st_runs s' = dset (rv_run_id run) u (st_runs s)" using mutate_run_runs [OF c'] by simp
    have "run_forward run u" using live ok cur(3) eq by (simp add: run_forward_def next_state_apply)
    with cur(1) eq runs have "forward s s'" by (intro forward_dset) auto
    moreover have "unless_bumped u s'" using cur(3,4) eq by (auto simp: unless_bumped_def)
    ultimately show ?thesis using st Inr b cur(3) eq by (simp add: next_state_apply)
  qed
qed simp

lemma transition_spec_at:
  assumes live: "rv_lifecycle_state run \<notin> TERMINAL_RUN_STATES"
    and ok: "next_state m run \<in> allowed_after (rv_lifecycle_state run)"
    and old: "e \<le> rv_control_version run"
  shows "co_spec (unless_bumped run) (transition sy p (run\<lparr>rv_control_version := e\<rparr>) m lease ty data)
    (\<lambda>u s. unless_bumped u s \<and> rv_lifecycle_state u = next_state m run \<and> rv_run_id u = rv_run_id run)"
  (is "co_spec ?P ?t ?Q")
  unfolding co_spec_def
proof (intro allI impI)
  fix w
  assume w: "world_ok w" and P: "?P (w_store w)"
  let ?pr = "project_public_event_data (sy_lib sy) ty data (Some (run\<lparr>rv_control_version := e\<rparr>))
    (mu_lifecycle_state m) (mu_phase m) (mu_result_artifact m) (mu_public_error_code m)
    (sy_clock sy (w_tick w))"
  show "world_step w (snd (?t w)) \<and> (\<forall>a. fst (?t w) = Inr a \<longrightarrow> ?Q a (w_store (snd (?t w))))"
  proof (cases ?pr)
    case (Inl x)
    then show ?thesis using w by (simp add: transition_def world_step_refl)
  next
    case (Inr d)
    let ?m = "ebind (store_call sy (\<lambda>t1 t2 u. mutate_run p (rv_run_id run) e m lease ty d t1 t2 u))
      (\<lambda>(updated, _). eret updated)"
    have spec: "co_spec ?P ?m ?Q"
    proof (rule co_spec_bind [OF transition_call_spec [OF live ok old]])
      fix a :: "RunView \<times> RunEvent"
      obtain u ev where a: "a = (u, ev)" by force
      show "co_spec ((\<lambda>(u, _) s. unless_bumped u s \<and> rv_lifecycle_state u = next_state m run \<and>
          rv_run_id u = rv_run_id run) a) ((\<lambda>(updated, _). eret updated) a) ?Q"
        unfolding a prod.case by (rule co_spec_ret)
    qed
    have eq: "?t w = ?m w" using Inr by (simp add: transition_def)
    from spec w P have "world_step w (snd (?m w)) \<and> (\<forall>a. fst (?m w) = Inr a \<longrightarrow> ?Q a (w_store (snd (?m w))))"
      unfolding co_spec_def by blast
    then show ?thesis unfolding eq .
  qed
qed

lemma transition_spec:
  assumes "rv_lifecycle_state run \<notin> TERMINAL_RUN_STATES"
    and "next_state m run \<in> allowed_after (rv_lifecycle_state run)"
  shows "co_spec (unless_bumped run) (transition sy p run m lease ty data)
    (\<lambda>u s. unless_bumped u s \<and> rv_lifecycle_state u = next_state m run \<and> rv_run_id u = rv_run_id run)"
  using transition_spec_at [OF assms order_refl] by simp

lemma transition_then:
  assumes "rv_lifecycle_state run \<notin> TERMINAL_RUN_STATES"
    and "next_state m run \<in> allowed_after (rv_lifecycle_state run)"
    and "\<And>u. rv_lifecycle_state u = next_state m run \<Longrightarrow> co_spec (unless_bumped u) (f u) Q"
  shows "co_spec (unless_bumped run) (ebind (transition sy p run m lease ty data) f) Q"
proof (rule co_spec_bind [OF transition_spec [OF assms(1,2)]])
  fix u
  show "co_spec (\<lambda>s. unless_bumped u s \<and> rv_lifecycle_state u = next_state m run \<and>
      rv_run_id u = rv_run_id run) (f u) Q"
    using assms(3) [of u] unfolding co_spec_def by blast
qed

lemma read_then:
  assumes "\<And>r. rv_run_id r = rid \<Longrightarrow> co_spec (unless_bumped r) (f r) Q"
  shows "co_spec (\<lambda>_. True) (ebind (read_run sy p rid) f) Q"
proof (rule co_spec_bind [OF read_run_spec])
  fix r
  show "co_spec (\<lambda>s. unless_bumped r s \<and> rv_run_id r = rid) (f r) Q"
    using assms [of r] unfolding co_spec_def by blast
qed

lemma done_spec: "co_spec P (eret ()) yes"
  by (rule co_spec_ret) simp

lemma forget: "co_spec (\<lambda>_. True) m Q \<Longrightarrow> co_spec P m Q"
  by (rule co_spec_weaken) auto

lemma next_state_simps [simp]:
  "next_state (no_mutation\<lparr>mu_phase := ph\<rparr>) r = rv_lifecycle_state r"
  "next_state (no_mutation\<lparr>mu_phase := ph, mu_result_artifact := ra\<rparr>) r = rv_lifecycle_state r"
  "next_state (no_mutation\<lparr>mu_lifecycle_state := Some x, mu_phase := ph\<rparr>) r = x"
  "next_state (no_mutation\<lparr>mu_lifecycle_state := Some x, mu_phase := ph, mu_pending_input := pe\<rparr>) r = x"
  "next_state (no_mutation\<lparr>mu_lifecycle_state := Some x, mu_phase := ph, mu_public_error_code := ec\<rparr>) r = x"
  by (simp_all add: next_state_def no_mutation_def)

lemma live_states:
  "rv_lifecycle_state r \<notin> TERMINAL_RUN_STATES \<Longrightarrow> rv_lifecycle_state r \<in> allowed_after (rv_lifecycle_state r)"
  "rv_lifecycle_state r \<notin> TERMINAL_RUN_STATES \<Longrightarrow> CANCELED \<in> allowed_after (rv_lifecycle_state r)"
  "rv_lifecycle_state r \<notin> TERMINAL_RUN_STATES \<Longrightarrow> CANCEL_REQUESTED \<in> allowed_after (rv_lifecycle_state r)"
  "rv_lifecycle_state r \<notin> TERMINAL_RUN_STATES \<union> {CANCEL_REQUESTED} \<Longrightarrow> x \<in> allowed_after (rv_lifecycle_state r)"
  by (cases "rv_lifecycle_state r"; simp add: TERMINAL_RUN_STATES_def)+

lemma not_terminal [simp]: "QUEUED \<notin> TERMINAL_RUN_STATES" "RUNNING \<notin> TERMINAL_RUN_STATES"
  by (simp_all add: TERMINAL_RUN_STATES_def)

lemma progress_spec: "co_spec (\<lambda>_. True) (co_progress sy p rid ph lb pc lease) yes"
  unfolding co_progress_def
  by (intro read_then co_spec_if co_spec_raise transition_then done_spec) (auto simp: live_states)

lemma finish_canceled_spec: "co_spec (\<lambda>_. True) (finish_canceled sy p rid) yes"
  unfolding finish_canceled_def
  by (intro read_then co_spec_if done_spec co_spec_catch transition_then)
    (auto simp: live_states split: run_exc.split store_error.split intro!: done_spec co_spec_raise)

lemma finish_failed_spec: "co_spec (\<lambda>_. True) (finish_failed sy p rid ec lease) yes"
  unfolding finish_failed_def
  by (intro read_then co_spec_if done_spec forget [OF finish_canceled_spec] co_spec_catch transition_then)
    (auto simp: live_states split: run_exc.split store_error.split intro!: done_spec co_spec_raise)

lemma still_running_then:
  assumes "\<And>r. rv_run_id r = rid \<Longrightarrow> rv_lifecycle_state r = RUNNING \<Longrightarrow> co_spec (unless_bumped r) (f r) Q"
  shows "co_spec (\<lambda>_. True) (ebind (still_running sy p rid) f) Q"
proof (rule co_spec_bind)
  show "co_spec (\<lambda>_. True) (still_running sy p rid)
      (\<lambda>r s. unless_bumped r s \<and> rv_run_id r = rid \<and> rv_lifecycle_state r = RUNNING)"
    unfolding still_running_def
    by (intro read_then co_spec_if co_spec_raise co_spec_ret) auto
next
  fix r
  show "co_spec (\<lambda>s. unless_bumped r s \<and> rv_run_id r = rid \<and> rv_lifecycle_state r = RUNNING) (f r) Q"
    using assms [of r] unfolding co_spec_def by blast
qed

lemma store_artifact_spec:
  assumes "ea_status a \<noteq> PUBLISHED"
  shows "co_spec P (store_artifact sy p tid lease a) yes"
  unfolding store_artifact_def
proof (rule forget, rule co_spec_call)
  fix t1 t2 :: instant and u :: string and s r s'
  assume c: "create_artifact p tid (ea_artifact_id a) (ea_artifact_type a) (ea_schema_version a)
      (ea_content a) (ea_status a) None lease t1 t2 u s = (r, s')"
  from store_step.create_artifact [OF assms, of s p tid "ea_artifact_id a" "ea_artifact_type a"
      "ea_schema_version a" "ea_content a" None lease t1 t2 u] c
  have "store_step s s'" by simp
  moreover have "st_runs s' = st_runs s"
    using artifact_ops_frame(1) [of p tid "ea_artifact_id a" "ea_artifact_type a"
      "ea_schema_version a" "ea_content a" "ea_status a" None lease t1 t2 u s] c by simp
  ultimately show "store_step\<^sup>*\<^sup>* s s' \<and> forward s s' \<and> (\<forall>a. r = Inr a \<longrightarrow> True)" by auto
qed simp

text \<open>What the executor of the repository promises: it never proposes an Artifact as published.\<close>

definition executor_ok :: "runtime_sys \<Rightarrow> bool" where
  "executor_ok sy \<longleftrightarrow>
     (\<forall>r p res. xs_outcome (sy_executor sy r p) = Inr res \<longrightarrow>
        (\<forall>a \<in> set (er_supporting_artifacts res). ea_status a \<noteq> PUBLISHED))"

lemma run_executor_spec:
  assumes "executor_ok sy"
  shows "co_spec P (run_executor sy p run lease)
    (\<lambda>res s. \<forall>a \<in> set (er_supporting_artifacts res). ea_status a \<noteq> PUBLISHED)"
  unfolding run_executor_def Let_def
  by (rule forget, rule co_spec_bind [where R = yes], rule co_spec_for)
    (use assms in \<open>auto simp: executor_ok_def split: sum.split intro!: progress_spec co_spec_ret co_spec_raise\<close>)

lemma publish_result_artifact_spec:
  assumes "rv_lifecycle_state cur = RUNNING"
  shows "co_spec (unless_bumped cur) (publish_result_artifact sy p cur lease res art) yes"
  unfolding publish_result_artifact_def
  by (intro co_spec_if transition_then done_spec) (use assms in auto)

lemma store_result_spec:
  assumes "\<forall>a \<in> set (er_supporting_artifacts res). ea_status a \<noteq> PUBLISHED"
  shows "co_spec (\<lambda>_. True) (store_result sy rid p lease res) yes"
  unfolding store_result_def
proof (rule still_running_then, rule co_spec_bind [where R = yes], rule forget, rule co_spec_for)
  fix cur1 a
  assume "a \<in> set (er_supporting_artifacts res)"
  with assms show "co_spec (\<lambda>_. True) (ebind (store_artifact sy p (rv_trip_id cur1) lease a) (\<lambda>_. eret ())) yes"
    by (intro co_spec_bind [OF store_artifact_spec] done_spec) auto
qed (intro still_running_then co_spec_bind [OF store_artifact_spec] publish_result_artifact_spec; simp)

lemma execute_running_spec:
  assumes ex: "executor_ok sy" and run: "rv_lifecycle_state cur = RUNNING"
  shows "co_spec (unless_bumped cur) (execute_running sy rid p lease cur) yes"
  unfolding co_spec_def
proof (intro allI impI)
  fix w
  assume w: "world_ok w" and P: "unless_bumped cur (w_store w)"
  let ?pend = "required_input cur (sy_uid sy (w_tick w)) (sy_clock sy (w_tick w))"
  show "world_step w (snd (execute_running sy rid p lease cur w)) \<and>
      (\<forall>a. fst (execute_running sy rid p lease cur w) = Inr a \<longrightarrow> True)"
  proof (cases ?pend)
    case (Some pending)
    let ?m = "ebind (transition sy p cur
              (no_mutation\<lparr>mu_lifecycle_state := Some WAITING_INPUT, mu_phase := Some ''clarification'',
                          mu_pending_input := Some pending\<rparr>) lease Ev_input_required
              (pending_dump (sy_iso sy) pending)) (\<lambda>_. eret ())"
    have "co_spec (unless_bumped cur) ?m yes"
      by (intro transition_then done_spec) (use run in auto)
    with w P Some show ?thesis unfolding co_spec_def execute_running_def by simp
  next
    case None
    have "co_spec (unless_bumped cur) (ebind (run_executor sy p cur lease) (store_result sy rid p lease)) yes"
    proof (rule co_spec_bind [OF run_executor_spec [OF ex]])
      fix res
      show "co_spec (\<lambda>s. \<forall>a \<in> set (er_supporting_artifacts res). ea_status a \<noteq> PUBLISHED)
          (store_result sy rid p lease res) yes"
        using store_result_spec unfolding co_spec_def by blast
    qed
    with w P None show ?thesis unfolding co_spec_def execute_running_def by simp
  qed
qed

lemma execute_body_spec:
  assumes "executor_ok sy"
  shows "co_spec (\<lambda>_. True) (execute_body sy rid p lease) yes"
  unfolding execute_body_def
  by (intro read_then co_spec_if transition_then execute_running_spec [OF assms] done_spec) auto

lemma execute_handler_spec: "co_spec (\<lambda>_. True) (execute_handler sy rid p lease e) yes"
proof -
  have "co_spec (\<lambda>_. True) (ebind (read_run sy p rid) (\<lambda>cur.
             if rv_lifecycle_state cur = CANCEL_REQUESTED then finish_canceled sy p rid
             else if rv_lifecycle_state cur \<in> TERMINAL_RUN_STATES then eret ()
             else eraise CancelledError)) yes"
    by (intro read_then co_spec_if forget [OF finish_canceled_spec] done_spec co_spec_raise)
  moreover have "co_spec (\<lambda>_. True) (ebind (read_run sy p rid) (\<lambda>cur.
            if rv_lifecycle_state cur = CANCEL_REQUESTED then finish_canceled sy p rid else eret ())) yes"
    by (intro read_then co_spec_if forget [OF finish_canceled_spec] done_spec)
  ultimately show ?thesis
    using finish_canceled_spec finish_failed_spec
    by (simp add: execute_handler_def co_spec_raise split: run_exc.split store_error.split)
qed

lemma execute_run_spec: "executor_ok sy \<Longrightarrow> co_spec (\<lambda>_. True) (execute_run sy rid p lease) yes"
  unfolding execute_run_def by (rule co_spec_catch [OF execute_body_spec execute_handler_spec])

lemma call_frame_spec:
  assumes "\<And>t1 t2 u s. store_step s (snd (op t1 t2 u s))"
    and "\<And>t1 t2 u s. st_runs (snd (op t1 t2 u s)) = st_runs s"
  shows "co_spec P (store_call sy op) yes"
proof (rule forget, rule co_spec_call)
  fix t1 t2 u s r s'
  assume c: "op t1 t2 u s = (r, s')"
  from assms(1) [of s t1 t2 u] assms(2) [of t1 t2 u s] c
  show "store_step\<^sup>*\<^sup>* s s' \<and> forward s s' \<and> (\<forall>a. r = Inr a \<longrightarrow> True)" by auto
qed simp

lemma lease_calls_frame:
  "st_runs (snd (claim_run_execution p rid ow us now s)) = st_runs s"
  "st_runs (snd (release_run_execution p l s)) = st_runs s"
  "st_runs (snd (renew_run_execution p l us now now' s)) = st_runs s"
  using claim_run_execution_calm release_run_execution_calm renew_run_execution_calm
  by (simp_all add: calm_def)

lemmas lease_call_specs =
  call_frame_spec [OF store_step.claim_run_execution lease_calls_frame(1)]
  call_frame_spec [OF store_step.release_run_execution lease_calls_frame(2)]
  call_frame_spec [OF store_step.renew_run_execution lease_calls_frame(3)]

lemma heartbeat_spec: "co_spec (\<lambda>_. True) (heartbeat sy p lease us) yes"
  unfolding heartbeat_def
  by (intro co_spec_catch co_spec_bind [OF lease_call_specs(3)] co_spec_if co_spec_raise co_spec_ret) simp_all

lemma execute_existing_spec:
  assumes "executor_ok sy"
  shows "co_spec (\<lambda>_. True) (execute_existing sy p rid ow us lost) yes"
  unfolding execute_existing_def
proof (intro read_then co_spec_if)
  show "co_spec (unless_bumped cur) (eret cur) yes" for cur by (rule co_spec_ret) simp
  fix cur
  show "co_spec (unless_bumped cur)
    (ebind (store_call sy (\<lambda>t1 _ _. claim_run_execution p rid ow us t1)) (\<lambda>claimed.
         case claimed of
           None \<Rightarrow>
             ebind (read_run sy p rid) (\<lambda>cur2.
               if rv_lifecycle_state cur2 \<in> {QUEUED, RUNNING} then eraise (StoreExc RunExecutionBusy)
               else eret cur2)
         | Some lease \<Rightarrow>
             ebind (efinally
                 (ecatch
                   (ebind (execute_run sy rid p (Some lease)) (\<lambda>_.
                      if lost then eraise (StoreExc RunExecutionLeaseLost) else eret ()))
                   (\<lambda>e. if e = CancelledError \<and> lost then eraise (StoreExc RunExecutionLeaseLost)
                        else eraise e))
                 (store_call sy (\<lambda>_ _ _. release_run_execution p lease)))
               (\<lambda>_. read_run sy p rid))) yes"
  proof (rule co_spec_bind [OF lease_call_specs(1)])
    fix claimed :: "RunExecutionLease option"
    have 1: "co_spec (\<lambda>_. True) (ebind (read_run sy p rid) (\<lambda>cur2.
               if rv_lifecycle_state cur2 \<in> {QUEUED, RUNNING} then eraise (StoreExc RunExecutionBusy)
               else eret cur2)) yes"
      by (intro read_then co_spec_if co_spec_raise co_spec_ret) simp
    have 2: "co_spec (\<lambda>_. True) (ebind (efinally
                 (ecatch
                   (ebind (execute_run sy rid p (Some lease)) (\<lambda>_.
                      if lost then eraise (StoreExc RunExecutionLeaseLost) else eret ()))
                   (\<lambda>e. if e = CancelledError \<and> lost then eraise (StoreExc RunExecutionLeaseLost)
                        else eraise e))
                 (store_call sy (\<lambda>_ _ _. release_run_execution p lease)))
               (\<lambda>_. read_run sy p rid)) yes" for lease
      by (intro co_spec_bind [where R = yes] co_spec_finally co_spec_catch co_spec_if co_spec_raise done_spec
          lease_call_specs(2) execute_run_spec [OF assms] co_spec_weaken [OF read_run_spec]) simp_all
    from 1 2 show "co_spec (\<lambda>_. True) (case claimed of
           None \<Rightarrow>
             ebind (read_run sy p rid) (\<lambda>cur2.
               if rv_lifecycle_state cur2 \<in> {QUEUED, RUNNING} then eraise (StoreExc RunExecutionBusy)
               else eret cur2)
         | Some lease \<Rightarrow>
             ebind (efinally
                 (ecatch
                   (ebind (execute_run sy rid p (Some lease)) (\<lambda>_.
                      if lost then eraise (StoreExc RunExecutionLeaseLost) else eret ()))
                   (\<lambda>e. if e = CancelledError \<and> lost then eraise (StoreExc RunExecutionLeaseLost)
                        else eraise e))
                 (store_call sy (\<lambda>_ _ _. release_run_execution p lease)))
               (\<lambda>_. read_run sy p rid)) yes"
      by (cases claimed) simp_all
  qed
qed

lemma resume_spec: "co_spec (\<lambda>_. True) (resume sy di p rid e rq vals key h) yes"
  unfolding resume_def
proof (rule co_spec_call)
  fix t1 t2 :: instant and u :: string and s r s'
  assume inv: "store_inv s" and c: "resume_run di p rid e rq vals key h t1 t2 u s = (r, s')"
  have "store_step s s'" using store_step.resume_run [of s di p rid e rq vals key h t1 t2 u] c by simp
  moreover from c have "forward s s'"
  proof (cases rule: resume_run_cases)
    case (resumed cur pend norm ev)
    have "run_forward cur (resumed_run rq norm t2 cur)"
      using resumed(4) by (simp add: run_forward_def resumed_run_def TERMINAL_RUN_STATES_def)
    with resumed(1) show ?thesis
      by (intro forward_dset [of s rid cur "resumed_run rq norm t2 cur"])
        (auto simp: resumed(12) dest!: run_locked_Inr)
  qed simp_all
  ultimately show "store_step\<^sup>*\<^sup>* s s' \<and> forward s s' \<and> (\<forall>a. r = Inr a \<longrightarrow> True)" by auto
qed simp

text \<open>A cancellation with a control version the Run has already had.\<close>

definition version_reached :: "string \<Rightarrow> int \<Rightarrow> platform_store \<Rightarrow> bool" where
  "version_reached rid e s \<longleftrightarrow> (\<forall>r. dget (st_runs s) rid = Some r \<longrightarrow> e \<le> rv_control_version r) \<and>
     dget (st_runs s) rid \<noteq> None"

lemma version_reached_mono: "version_reached rid e s \<Longrightarrow> runs_bumped s s' \<Longrightarrow> version_reached rid e s'"
proof -
  assume v: "version_reached rid e s" and b: "runs_bumped s s'"
  from v obtain r where r: "dget (st_runs s) rid = Some r" "e \<le> rv_control_version r"
    by (auto simp: version_reached_def)
  with b obtain r' where "dget (st_runs s') rid = Some r'" "r' = r \<or> rv_control_version r < rv_control_version r'"
    by (auto simp: runs_bumped_def)
  with r(2) show ?thesis by (auto simp: version_reached_def)
qed

lemma stable_version_reached: "stable (version_reached rid e)"
proof -
  have "version_reached rid e s'" if "store_step\<^sup>*\<^sup>* s s'" "version_reached rid e s" for s s'
    using that by (induction rule: rtranclp_induct) (auto intro: version_reached_mono store_step_bumped)
  then show ?thesis unfolding stable_def by blast
qed

lemma read_run_reached_spec:
  "co_spec (version_reached rid e) (read_run sy p rid)
     (\<lambda>r s. unless_bumped r s \<and> rv_run_id r = rid \<and> e \<le> rv_control_version r)"
proof (rule co_spec_call [OF stable_version_reached])
  fix t1 t2 :: instant and u :: string and s r s'
  assume inv: "store_inv s" and v: "version_reached rid e s" and g: "get_run p rid s = (r, s')"
  then have s': "s' = s" "r = run_locked s p rid" by (auto simp: get_run_def elift_def)
  have "unless_bumped a s \<and> rv_run_id a = rid \<and> e \<le> rv_control_version a" if "r = Inr a" for a
    using that s' v locked_run_id [OF inv]
    by (auto simp: unless_bumped_def version_reached_def dest!: run_locked_Inr)
  with s' show "store_step\<^sup>*\<^sup>* s s' \<and> forward s s' \<and>
      (\<forall>a. r = Inr a \<longrightarrow> unless_bumped a s' \<and> rv_run_id a = rid \<and> e \<le> rv_control_version a)" by simp
qed

lemma cancel_tail_spec:
  "co_spec P (if cb = Callback_canceled then eraise CancelledError
     else ebind (ewhen (\<not> has_task \<and> cb = Callback_ok) (finish_canceled sy p rid)) (\<lambda>_.
       if cb = Callback_error then eraise CallbackError else eret updated)) yes"
  by (rule forget) (intro co_spec_if co_spec_raise co_spec_bind [where R = yes] co_spec_when
      finish_canceled_spec co_spec_ret; simp)

lemma cancel_spec: "co_spec (version_reached rid e) (cancel sy p rid e cb has_task) yes"
  unfolding cancel_def
proof (rule co_spec_bind [OF read_run_reached_spec])
  fix cur
  let ?m = "no_mutation\<lparr>mu_lifecycle_state := Some CANCEL_REQUESTED, mu_phase := Some ''canceling''\<rparr>"
  let ?t = "transition sy p (cur\<lparr>rv_control_version := e\<rparr>) ?m None Ev_run_lifecycle_changed
            [(''lifecycle_state'', JStr (lifecycle_value CANCEL_REQUESTED)),
             (''reason'', JStr ''user_requested'')]"
  let ?tail = "\<lambda>updated. if cb = Callback_canceled then eraise CancelledError
     else ebind (ewhen (\<not> has_task \<and> cb = Callback_ok) (finish_canceled sy p rid)) (\<lambda>_.
       if cb = Callback_error then eraise CallbackError else eret updated)"
  show "co_spec (\<lambda>s. unless_bumped cur s \<and> rv_run_id cur = rid \<and> e \<le> rv_control_version cur)
     (if rv_lifecycle_state cur \<in> TERMINAL_RUN_STATES then eret cur
      else ebind (if rv_lifecycle_state cur = CANCEL_REQUESTED then eret cur else ?t) ?tail) yes"
  proof (intro co_spec_if)
    show "co_spec (\<lambda>s. unless_bumped cur s \<and> rv_run_id cur = rid \<and> e \<le> rv_control_version cur) (eret cur) yes"
      by (rule co_spec_ret) simp
    assume live: "rv_lifecycle_state cur \<notin> TERMINAL_RUN_STATES"
    show "co_spec (\<lambda>s. unless_bumped cur s \<and> rv_run_id cur = rid \<and> e \<le> rv_control_version cur)
      (ebind (if rv_lifecycle_state cur = CANCEL_REQUESTED then eret cur else ?t) ?tail) yes"
    proof (rule co_spec_bind [where R = yes, OF _ cancel_tail_spec], rule co_spec_if)
      show "co_spec (\<lambda>s. unless_bumped cur s \<and> rv_run_id cur = rid \<and> e \<le> rv_control_version cur) (eret cur) yes"
        by (rule co_spec_ret) simp
      have "co_spec (unless_bumped cur) ?t yes" if "e \<le> rv_control_version cur"
        by (rule co_spec_weaken [OF transition_spec_at [OF live _ that]]) (use live in \<open>simp_all add: live_states\<close>)
      then show "co_spec (\<lambda>s. unless_bumped cur s \<and> rv_run_id cur = rid \<and> e \<le> rv_control_version cur) ?t yes"
        unfolding co_spec_def by blast
    qed
  qed
qed

section \<open>Properties\<close>

text \<open>The world in which a call starts: a reachable store and nothing passed through yet but it.\<close>

definition start_world ::
    "platform_store \<Rightarrow> (bool \<times> (platform_store \<Rightarrow> platform_store)) list \<Rightarrow> world" where
  "start_world s env = \<lparr>w_store = s, w_env = env, w_tick = 0, w_trace = [s]\<rparr>"

lemma start_world_ok: "store_inv s \<Longrightarrow> env_ok env \<Longrightarrow> world_ok (start_world s env)"
  by (simp add: start_world_def world_ok_def)

lemma co_spec_trace:
  assumes "co_spec P m Q" and "store_reachable s" and "env_ok env" and "P s"
  shows "sorted_wrt forward (w_trace (snd (m (start_world s env)))) \<and>
         store_step\<^sup>*\<^sup>* s (w_store (snd (m (start_world s env))))"
proof -
  have "world_ok (start_world s env)" using start_world_ok assms(2,3) store_reachable_inv by blast
  moreover have "w_store (start_world s env) = s" by (simp add: start_world_def)
  ultimately have "world_step (start_world s env) (snd (m (start_world s env)))"
    using assms(1,4) unfolding co_spec_def by metis
  then show ?thesis by (simp add: world_step_def world_ok_def start_world_def)
qed

end
