(* ===== verification/Coordinator_Liveness.thy ===== *)
theory Coordinator_Liveness
  imports Coordinator_Safety
begin

text \<open>
  The coordinator left alone: with nobody interfering, an in-process execution settles its Run
  whatever the executor does, provided the Artifact identifiers it proposes are new. A second
  small logic with a postcondition for exceptions carries the proof.
\<close>

section \<open>Undisturbed programs\<close>

definition qspec ::
    "(platform_store \<Rightarrow> bool) \<Rightarrow> 'a co \<Rightarrow> ('a \<Rightarrow> platform_store \<Rightarrow> bool) \<Rightarrow>
     (run_exc \<Rightarrow> platform_store \<Rightarrow> bool) \<Rightarrow> bool" where
  "qspec P m Q E \<longleftrightarrow>
     (\<forall>w. w_env w = [] \<longrightarrow> P (w_store w) \<longrightarrow>
        w_env (snd (m w)) = [] \<and>
        (case fst (m w) of Inl e \<Rightarrow> E e (w_store (snd (m w))) | Inr a \<Rightarrow> Q a (w_store (snd (m w)))))"

lemma qspecD:
  "qspec P m Q E \<Longrightarrow> w_env w = [] \<Longrightarrow> P (w_store w) \<Longrightarrow> w_env (snd (m w)) = [] \<and>
     (case fst (m w) of Inl e \<Rightarrow> E e (w_store (snd (m w))) | Inr a \<Rightarrow> Q a (w_store (snd (m w))))"
  by (simp add: qspec_def)

lemma qspec_ret: "(\<And>s. P s \<Longrightarrow> Q a s) \<Longrightarrow> qspec P (eret a) Q E"
  by (simp add: qspec_def)

lemma qspec_raise: "(\<And>s. P s \<Longrightarrow> E e s) \<Longrightarrow> qspec P (eraise e) Q E"
  by (simp add: qspec_def)

lemma qspec_bind:
  assumes m: "qspec P m R E" and f: "\<And>a. qspec (R a) (f a) Q E"
  shows "qspec P (ebind m f) Q E"
  unfolding qspec_def
proof (intro allI impI)
  fix w :: world
  assume w: "w_env w = []" "P (w_store w)"
  obtain r w1 where mw: "m w = (r, w1)" by force
  note 1 = qspecD [OF m w]
  show "w_env (snd (ebind m f w)) = [] \<and> (case fst (ebind m f w) of
      Inl e \<Rightarrow> E e (w_store (snd (ebind m f w))) | Inr a \<Rightarrow> Q a (w_store (snd (ebind m f w))))"
  proof (cases r)
    case (Inl e)
    with 1 mw show ?thesis by simp
  next
    case (Inr a)
    with 1 mw have "w_env w1 = []" "R a (w_store w1)" by auto
    note 2 = qspecD [OF f this]
    have "ebind m f w = f a w1" using Inr mw by simp
    then show ?thesis using 2 by (simp only:)
  qed
qed

lemma qspec_catch:
  assumes m: "qspec P m Q E'" and h: "\<And>e. qspec (E' e) (h e) Q E"
  shows "qspec P (ecatch m h) Q E"
  unfolding qspec_def
proof (intro allI impI)
  fix w :: world
  assume w: "w_env w = []" "P (w_store w)"
  obtain r w1 where mw: "m w = (r, w1)" by force
  note 1 = qspecD [OF m w]
  show "w_env (snd (ecatch m h w)) = [] \<and> (case fst (ecatch m h w) of
      Inl e \<Rightarrow> E e (w_store (snd (ecatch m h w))) | Inr a \<Rightarrow> Q a (w_store (snd (ecatch m h w))))"
  proof (cases r)
    case (Inl e)
    with 1 mw have "w_env w1 = []" "E' e (w_store w1)" by auto
    note 2 = qspecD [OF h this]
    have "ecatch m h w = h e w1" using Inl mw by (simp add: ecatch_def)
    then show ?thesis using 2 by (simp only:)
  next
    case (Inr a)
    with 1 mw show ?thesis by (simp add: ecatch_def)
  qed
qed

lemma qspec_if:
  "(b \<Longrightarrow> qspec P m Q E) \<Longrightarrow> (\<not> b \<Longrightarrow> qspec P n Q E) \<Longrightarrow> qspec P (if b then m else n) Q E"
  by simp

lemma qspec_weaken:
  assumes "qspec P' m Q' E'" and "\<And>s. P s \<Longrightarrow> P' s" and "\<And>a s. Q' a s \<Longrightarrow> Q a s"
    and "\<And>e s. E' e s \<Longrightarrow> E e s"
  shows "qspec P m Q E"
  unfolding qspec_def
proof (intro allI impI)
  fix w :: world
  assume "w_env w = []" "P (w_store w)"
  with qspecD [OF assms(1), of w] assms(2-4)
  show "w_env (snd (m w)) = [] \<and> (case fst (m w) of Inl e \<Rightarrow> E e (w_store (snd (m w)))
      | Inr a \<Rightarrow> Q a (w_store (snd (m w))))" by (auto split: sum.splits)
qed

lemma qspec_call:
  assumes "\<And>t1 t2 u s r s'. P s \<Longrightarrow> op t1 t2 u s = (r, s') \<Longrightarrow>
    (case r of Inl e \<Rightarrow> E (StoreExc e) s' | Inr a \<Rightarrow> Q a s')"
  shows "qspec P (store_call sy op) Q E"
  unfolding qspec_def
proof (intro allI impI)
  fix w :: world
  assume w: "w_env w = []" "P (w_store w)"
  obtain r s' where o: "op (sy_clock sy (w_tick w)) (sy_clock sy (w_tick w + 1)) (sy_uid sy (w_tick w))
      (w_store w) = (r, s')" by force
  from assms [OF w(2) o] w(1) o
  show "w_env (snd (store_call sy op w)) = [] \<and> (case fst (store_call sy op w) of
      Inl e \<Rightarrow> E e (w_store (snd (store_call sy op w)))
    | Inr a \<Rightarrow> Q a (w_store (snd (store_call sy op w))))"
    by (simp add: store_call_def interfere_def split: sum.splits)
qed

section \<open>The store seen by one actor\<close>

lemma trip_locked_kept:
  assumes "trips_kept s s'" and "st_members s' = st_members s" and "trip_locked s p tid w = Inr t"
  shows "\<exists>t'. trip_locked s' p tid w = Inr t'"
proof -
  from assms(3) have t: "dget (st_trips s) tid = Some t" by (auto dest!: trip_locked_Inr)
  with assms(1) obtain t' where t': "dget (st_trips s') tid = Some t'" "tv_tenant_id t' = tv_tenant_id t"
    "tv_owner_id t' = tv_owner_id t" unfolding trips_kept_def by blast
  from assms(3) t t' assms(2) show ?thesis
    by (auto simp: trip_locked_def assert_tenant_def split: if_splits option.splits)
qed

lemma run_locked_kept:
  assumes "run_locked s p rid = Inr r" and "trips_kept s s'" and "st_members s' = st_members s"
    and "dget (st_runs s') rid = Some r'" and "run_scope r' = run_scope r"
  shows "run_locked s' p rid = Inr r'"
proof -
  from assms(1) obtain t where r: "dget (st_runs s) rid = Some r" "rv_tenant_id r = pr_tenant_id p"
    "trip_locked s p (rv_trip_id r) False = Inr t"
    by (auto simp: run_locked_def assert_tenant_def split: option.splits if_splits sum.splits)
  from trip_locked_kept [OF assms(2,3) r(3)] obtain t' where
    "trip_locked s' p (rv_trip_id r) False = Inr t'" by blast
  with r assms(4,5) show ?thesis by (simp add: run_locked_def assert_tenant_def run_scope_def)
qed

text \<open>The Run is \<open>r\<close>, the actor can read it, and the identifiers in \<open>F\<close> name no Artifact yet.\<close>

definition sees :: "Principal \<Rightarrow> string \<Rightarrow> string set \<Rightarrow> RunView \<Rightarrow> platform_store \<Rightarrow> bool" where
  "sees p rid F r s \<longleftrightarrow> store_inv s \<and> run_locked s p rid = Inr r \<and>
     (\<forall>i \<in> F. dget (st_artifacts s) i = None)"

definition sees_in :: "Principal \<Rightarrow> string \<Rightarrow> string set \<Rightarrow> RunLifecycle set \<Rightarrow> platform_store \<Rightarrow> bool" where
  "sees_in p rid F S s \<longleftrightarrow> (\<exists>r. sees p rid F r s \<and> rv_lifecycle_state r \<in> S)"

abbreviation never :: "run_exc \<Rightarrow> platform_store \<Rightarrow> bool" where
  "never \<equiv> \<lambda>_ _. False"

text \<open>Exceptions that end in \<open>finish_failed\<close>.\<close>

fun plain_exc :: "run_exc \<Rightarrow> bool" where
  "plain_exc CancelledError \<longleftrightarrow> False"
| "plain_exc (StoreExc RunExecutionLeaseLost) \<longleftrightarrow> False"
| "plain_exc (StoreExc (VersionConflict _)) \<longleftrightarrow> False"
| "plain_exc _ \<longleftrightarrow> True"

lemma sees_id: "sees p rid F r s \<Longrightarrow> rv_run_id r = rid"
  by (auto simp: sees_def intro: locked_run_id)

lemma q_read:
  "qspec (sees_in p rid F S) (read_run sy p rid)
     (\<lambda>r s. sees p rid F r s \<and> rv_lifecycle_state r \<in> S) never"
  by (rule qspec_call) (auto simp: get_run_def elift_def sees_in_def sees_def)

lemma mutate_run_sees:
  assumes v: "sees p rid F r s" and m: "mu_result_artifact m = None"
    and c: "mutate_run p rid (rv_control_version r) m None ty d t1 t2 u s = (res, s')"
  shows "\<exists>x. res = Inr x \<and> sees p rid F (fst x) s' \<and> rv_lifecycle_state (fst x) = next_state m r"
proof -
  from v have inv: "store_inv s" and run: "run_locked s p rid = Inr r" by (auto simp: sees_def)
  have "\<not> isl (fst (mutate_run p rid (rv_control_version r) m None ty d t1 t2 u s))"
    using run m by (simp add: mutate_run_def check_lease_for_def append_event_locked_def Let_def)
  with c obtain up ev where res: "res = Inr (up, ev)" by (cases res) auto
  with c have c': "mutate_run p rid (rv_control_version r) m None ty d t1 t2 u s = (Inr (up, ev), s')" by simp
  from mutate_run_success [OF inv c'] run have up: "up = apply_mutation m t2 r"
    "dget (st_runs s') rid = Some up" by auto
  have ms: "st_members s' = st_members s" "st_artifacts s' = st_artifacts s" "trips_kept s s'"
    using c' m by (cases rule: mutate_run_cases; simp add: mutation_result_def)+
  have "store_inv s'" using mutate_run_inv [OF inv, of p rid "rv_control_version r" m None ty d t1 t2 u] c by simp
  moreover have "run_locked s' p rid = Inr up"
    by (rule run_locked_kept [OF run ms(3,1) up(2)]) (simp add: up(1))
  ultimately have "sees p rid F up s'" using v ms(2) by (simp add: sees_def)
  with res up(1) show ?thesis by (simp add: next_state_apply)
qed

lemma q_transition:
  assumes m: "mu_result_artifact m = None"
    and pr: "\<And>now. \<exists>d. project_public_event_data (sy_lib sy) ty data (Some r) (mu_lifecycle_state m)
        (mu_phase m) None (mu_public_error_code m) now = Inr d"
  shows "qspec (sees p rid F r) (transition sy p r m None ty data)
    (\<lambda>u s. sees p rid F u s \<and> rv_lifecycle_state u = next_state m r) never"
  unfolding qspec_def
proof (intro allI impI)
  fix w :: world
  assume w: "w_env w = []" "sees p rid F r (w_store w)"
  obtain d where d: "project_public_event_data (sy_lib sy) ty data (Some r) (mu_lifecycle_state m)
      (mu_phase m) None (mu_public_error_code m) (sy_clock sy (w_tick w)) = Inr d" using pr by blast
  let ?op = "\<lambda>t1 t2 u. mutate_run p (rv_run_id r) (rv_control_version r) m None ty d t1 t2 u"
  have "qspec (sees p rid F r) (store_call sy ?op)
      (\<lambda>x s. sees p rid F (fst x) s \<and> rv_lifecycle_state (fst x) = next_state m r) never"
  proof (rule qspec_call)
    fix t1 t2 u s res s'
    assume v: "sees p rid F r s" and c: "?op t1 t2 u s = (res, s')"
    from mutate_run_sees [OF v m, of ty d t1 t2 u] c sees_id [OF v]
    show "case res of Inl e \<Rightarrow> False
      | Inr x \<Rightarrow> sees p rid F (fst x) s' \<and> rv_lifecycle_state (fst x) = next_state m r" by auto
  qed
  then have "qspec (sees p rid F r) (ebind (store_call sy ?op) (\<lambda>(updated, _). eret updated))
      (\<lambda>u s. sees p rid F u s \<and> rv_lifecycle_state u = next_state m r) never"
    by (rule qspec_bind) (auto simp: split_beta intro!: qspec_ret)
  note 1 = qspecD [OF this w]
  have "transition sy p r m None ty data w = ebind (store_call sy ?op) (\<lambda>(updated, _). eret updated) w"
    using d m by (simp add: transition_def)
  then show "w_env (snd (transition sy p r m None ty data w)) = [] \<and>
    (case fst (transition sy p r m None ty data w) of Inl e \<Rightarrow> False
     | Inr u \<Rightarrow> sees p rid F u (w_store (snd (transition sy p r m None ty data w))) \<and>
        rv_lifecycle_state u = next_state m r)" using 1 by (simp only:)
qed

text \<open>Publishing a result may be refused, for want of write access or of the Artifact.\<close>

lemma publish_result_errors:
  assumes "publish_result p cur a now s = (Inl e, s')"
  shows "plain_exc (StoreExc e)"
  using assms
proof (cases rule: publish_result_cases)
  case (denied vs st e')
  then show ?thesis
    by (auto simp: trip_locked_def assert_tenant_def split: option.splits if_splits)
qed simp_all

lemma mutate_run_publish:
  assumes v: "sees p rid F r s" and m: "mu_result_artifact m = Some a" "mu_lifecycle_state m = None"
    and c: "mutate_run p rid (rv_control_version r) m None ty d t1 t2 u s = (res, s')"
  shows "case res of Inl e \<Rightarrow> plain_exc (StoreExc e) \<and> sees p rid {} r s'
    | Inr x \<Rightarrow> sees p rid {} (fst x) s' \<and> rv_lifecycle_state (fst x) = rv_lifecycle_state r"
proof -
  from v have inv: "store_inv s" and run: "run_locked s p rid = Inr r" by (auto simp: sees_def)
  have inv': "store_inv s'" using mutate_run_inv [OF inv, of p rid "rv_control_version r" m None ty d t1 t2 u] c by simp
  obtain r1 s1 where pr: "publish_result p r a t2 s = (r1, s1)" by force
  have tk: "trips_kept s s1" using publish_result_history [of s p r a t2] by (simp add: pr)
  have fr: "st_runs s1 = st_runs s" "st_members s1 = st_members s"
    using publish_result_frame [of p r a t2 s] by (simp_all add: pr)
  have dr: "dget (st_runs s) rid = Some r" using run by (auto dest!: run_locked_Inr)
  show ?thesis
  proof (cases r1)
    case (Inl e)
    with c run m pr have cs: "res = Inl e" "s' = s1" by (simp_all add: mutate_run_def check_lease_for_def)
    have "run_locked s' p rid = Inr r"
      by (rule run_locked_kept [OF run]) (use tk dr cs fr in simp_all)
    with publish_result_errors pr Inl cs inv' show ?thesis by (simp add: sees_def)
  next
    case (Inr y)
    have "\<not> isl (fst (mutate_run p rid (rv_control_version r) m None ty d t1 t2 u s))"
      using run m pr Inr by (simp add: mutate_run_def check_lease_for_def append_event_locked_def Let_def)
    with c obtain up ev where res: "res = Inr (up, ev)" by (cases res) auto
    with c have c': "mutate_run p rid (rv_control_version r) m None ty d t1 t2 u s = (Inr (up, ev), s')" by simp
    from mutate_run_success [OF inv c'] run have up: "up = apply_mutation m t2 r"
      "dget (st_runs s') rid = Some up" by auto
    have ms: "st_members s' = st_members s \<and> trips_kept s s'"
      using c'
    proof (cases rule: mutate_run_cases)
      case (mutated cur s1' ev')
      have "cur = r" using mutated(1) run by simp
      with mutated(4) m(1) pr have "s1' = s1" by (simp add: mutation_result_def)
      with tk fr show ?thesis by (simp add: mutated(11) trips_kept_def)
    qed simp_all
    have "run_locked s' p rid = Inr up"
      by (rule run_locked_kept [OF run _ _ up(2)]) (use ms up(1) in simp_all)
    with inv' res up(1) m(2) show ?thesis by (simp add: sees_def next_state_apply next_state_def)
  qed
qed

lemma q_transition_publish:
  assumes m: "mu_result_artifact m = Some a" "mu_lifecycle_state m = None"
    and pr: "\<And>now. \<exists>d. project_public_event_data (sy_lib sy) ty data (Some r) None (mu_phase m)
        (Some a) (mu_public_error_code m) now = Inr d"
  shows "qspec (sees p rid F r) (transition sy p r m None ty data)
    (\<lambda>u s. sees p rid {} u s \<and> rv_lifecycle_state u = rv_lifecycle_state r)
    (\<lambda>e s. plain_exc e \<and> sees p rid {} r s)"
  unfolding qspec_def
proof (intro allI impI)
  fix w :: world
  assume w: "w_env w = []" "sees p rid F r (w_store w)"
  obtain d where d: "project_public_event_data (sy_lib sy) ty data (Some r) None (mu_phase m)
      (Some a) (mu_public_error_code m) (sy_clock sy (w_tick w)) = Inr d" using pr by blast
  let ?op = "\<lambda>t1 t2 u. mutate_run p (rv_run_id r) (rv_control_version r) m None ty d t1 t2 u"
  let ?E = "\<lambda>e s. plain_exc e \<and> sees p rid {} r s"
  have "qspec (sees p rid F r) (store_call sy ?op)
      (\<lambda>x s. sees p rid {} (fst x) s \<and> rv_lifecycle_state (fst x) = rv_lifecycle_state r) ?E"
  proof (rule qspec_call)
    fix t1 t2 u s res s'
    assume v: "sees p rid F r s" and c: "?op t1 t2 u s = (res, s')"
    show "case res of Inl e \<Rightarrow> plain_exc (StoreExc e) \<and> sees p rid {} r s'
      | Inr x \<Rightarrow> sees p rid {} (fst x) s' \<and> rv_lifecycle_state (fst x) = rv_lifecycle_state r"
      using mutate_run_publish [OF v m] c sees_id [OF v] by blast
  qed
  then have "qspec (sees p rid F r) (ebind (store_call sy ?op) (\<lambda>(updated, _). eret updated))
      (\<lambda>u s. sees p rid {} u s \<and> rv_lifecycle_state u = rv_lifecycle_state r) ?E"
    by (rule qspec_bind) (auto simp: split_beta intro!: qspec_ret)
  note 1 = qspecD [OF this w]
  have "transition sy p r m None ty data w = ebind (store_call sy ?op) (\<lambda>(updated, _). eret updated) w"
    using d m by (simp add: transition_def)
  then show "w_env (snd (transition sy p r m None ty data w)) = [] \<and>
    (case fst (transition sy p r m None ty data w) of Inl e \<Rightarrow> ?E e (w_store (snd (transition sy p r m None ty data w)))
     | Inr u \<Rightarrow> sees p rid {} u (w_store (snd (transition sy p r m None ty data w))) \<and>
        rv_lifecycle_state u = rv_lifecycle_state r)" using 1 by (simp only:)
qed

lemma q_store_artifact:
  assumes id: "ea_artifact_id a = Some i" "i \<noteq> []" "i \<in> F"
  shows "qspec (sees p rid F r) (store_artifact sy p tid None a)
    (\<lambda>_ s. sees p rid (F - {i}) r s) (\<lambda>e s. plain_exc e \<and> sees p rid {} r s)"
  unfolding store_artifact_def
proof (rule qspec_call)
  fix t1 t2 :: instant and u :: string and s res s'
  assume v: "sees p rid F r s" and c: "create_artifact p tid (ea_artifact_id a) (ea_artifact_type a)
      (ea_schema_version a) (ea_content a) (ea_status a) None None t1 t2 u s = (res, s')"
  from v have run: "run_locked s p rid = Inr r" and inv: "store_inv s"
    and new: "dget (st_artifacts s) i = None" using id(3) by (auto simp: sees_def)
  have inv': "store_inv s'"
    using create_artifact_inv [OF inv, of p tid "ea_artifact_id a" "ea_artifact_type a"
      "ea_schema_version a" "ea_content a" "ea_status a" None None t1 t2 u] c by simp
  have dr: "dget (st_runs s) rid = Some r" using run by (auto dest!: run_locked_Inr)
  show "case res of Inl e \<Rightarrow> plain_exc (StoreExc e) \<and> sees p rid {} r s'
      | Inr _ \<Rightarrow> sees p rid (F - {i}) r s'"
  proof (cases "trip_locked s p tid True")
    case (Inl e)
    then have "res = Inl e" "s' = s" using c by (simp_all add: create_artifact_def)
    moreover have "plain_exc (StoreExc e)"
      using Inl by (auto simp: trip_locked_def assert_tenant_def split: option.splits if_splits)
    ultimately show ?thesis using v by (simp add: sees_def)
  next
    case (Inr t)
    let ?art = "initial_artifact p tid i (ea_artifact_type a) (ea_schema_version a) (ea_content a)
      (ea_status a) None t2"
    from c Inr new id(1,2) have res: "res = Inr ?art"
      and s': "s' = s\<lparr>st_artifacts := dset i [?art] (st_artifacts s)\<rparr>"
      by (auto simp: create_artifact_def Let_def)
    have "run_locked s' p rid = Inr r"
      by (rule run_locked_kept [OF run]) (use dr in \<open>simp_all add: s'\<close>)
    with v inv' res show ?thesis by (auto simp: sees_def s')
  qed
qed

section \<open>Undisturbed executions settle\<close>

text \<open>\<^verbatim>\<open>int(n)\<close> of an integer is that integer.\<close>

definition lib_ok :: "py_lib \<Rightarrow> bool" where
  "lib_ok lib \<longleftrightarrow> (\<forall>n. lib_int lib (JInt n) = Inr n)"

lemma py_or_int: "\<exists>k. py_or (JInt n) (JInt m) = JInt k" "\<exists>k. py_or (py_or (JInt n) v) (JInt m) = JInt k \<or> n = 0"
  by (auto simp: py_or_def)

lemma projections_succeed:
  "\<exists>d. project_public_event_data lib Ev_run_lifecycle_changed data (Some r) ls ph art ec now = Inr d"
  "\<exists>d. project_public_event_data lib Ev_run_failed data (Some r) ls ph art ec now = Inr d"
  "\<exists>d. project_public_event_data lib Ev_run_canceled data (Some r) ls ph art ec now = Inr d"
  "\<exists>d. project_public_event_data lib Ev_input_required data (Some r) ls ph art ec now = Inr d"
  "\<exists>d. project_public_event_data lib Ev_artifact_published data (Some r) ls ph (Some a) ec now = Inr d"
  by (simp_all add: project_public_event_data_def artifact_ref_data_def Let_def)

lemma projections_succeed_int:
  assumes "lib_ok lib"
  shows "\<exists>d. project_public_event_data lib Ev_run_phase_changed
      [(''phase'', x), (''label'', y), (''progress'', JInt n)] (Some r) ls ph art ec now = Inr d"
    and "\<exists>d. project_public_event_data lib Ev_artifact_candidate_updated
      [(''artifact_id'', x), (''artifact_version'', JInt n), (''artifact_type'', y),
       (''schema_version'', JInt k), (''status'', z)] (Some r) ls ph None ec now = Inr d"
    and "\<exists>d. project_public_event_data lib Ev_run_completed
      [(''lifecycle_state'', v), (''artifact_id'', x), (''artifact_version'', JInt n), (''artifact_type'', y),
       (''schema_version'', JInt k)] (Some r) ls ph art ec now = Inr d"
proof -
  have i: "lib_int lib (py_or (JInt a) (JInt b)) = Inr (if a = 0 then b else a)" for a b
    using assms by (simp add: py_or_def lib_ok_def)
  show "\<exists>d. project_public_event_data lib Ev_run_phase_changed
      [(''phase'', x), (''label'', y), (''progress'', JInt n)] (Some r) ls ph art ec now = Inr d"
  proof -
    have "py_or (jget [(''phase'', x), (''label'', y), (''progress'', JInt n)] ''progress_percent'')
        (jget [(''phase'', x), (''label'', y), (''progress'', JInt n)] ''progress'') = JInt n"
      by (simp add: jget_def py_or_def)
    then show ?thesis by (simp add: project_public_event_data_def Let_def i)
  qed
  show "\<exists>d. project_public_event_data lib Ev_artifact_candidate_updated
      [(''artifact_id'', x), (''artifact_version'', JInt n), (''artifact_type'', y),
       (''schema_version'', JInt k), (''status'', z)] (Some r) ls ph None ec now = Inr d"
    by (simp add: project_public_event_data_def artifact_ref_data_def jget_def i)
  have j: "\<exists>m. lib_int lib (py_or (py_or (JInt n) (opt_json JInt v')) (JInt 1)) = Inr m" for v'
    using assms by (cases v') (simp_all add: py_or_def lib_ok_def opt_json_def)
  then obtain m where "lib_int lib (py_or (py_or (JInt n) (opt_json JInt (rv_result_artifact_version r))) (JInt 1)) = Inr m"
    by blast
  then show "\<exists>d. project_public_event_data lib Ev_run_completed
      [(''lifecycle_state'', v), (''artifact_id'', x), (''artifact_version'', JInt n), (''artifact_type'', y),
       (''schema_version'', JInt k)] (Some r) ls ph art ec now = Inr d"
    by (simp add: project_public_event_data_def snapshot_ref_data_def jget_def i)
qed

lemma sees_inI: "sees p rid F r s \<Longrightarrow> rv_lifecycle_state r \<in> S \<Longrightarrow> sees_in p rid F S s"
  by (auto simp: sees_in_def)

lemma sees_in_mono: "sees_in p rid F S s \<Longrightarrow> F' \<subseteq> F \<Longrightarrow> S \<subseteq> S' \<Longrightarrow> sees_in p rid F' S' s"
  by (fastforce simp: sees_in_def sees_def)

lemma q_read_then:
  assumes "\<And>r. rv_lifecycle_state r \<in> S \<Longrightarrow> qspec (sees p rid F r) (f r) Q E"
  shows "qspec (sees_in p rid F S) (ebind (read_run sy p rid) f) Q E"
proof (rule qspec_bind)
  show "qspec (sees_in p rid F S) (read_run sy p rid) (\<lambda>r s. sees p rid F r s \<and> rv_lifecycle_state r \<in> S) E"
    by (rule qspec_weaken [OF q_read]) auto
  fix r
  show "qspec (\<lambda>s. sees p rid F r s \<and> rv_lifecycle_state r \<in> S) (f r) Q E"
    using assms [of r] unfolding qspec_def by blast
qed

lemma q_transition_then:
  assumes "mu_result_artifact m = None"
    and "\<And>now. \<exists>d. project_public_event_data (sy_lib sy) ty data (Some r) (mu_lifecycle_state m)
        (mu_phase m) None (mu_public_error_code m) now = Inr d"
    and "\<And>u. rv_lifecycle_state u = next_state m r \<Longrightarrow> qspec (sees p rid F u) (f u) Q E"
  shows "qspec (sees p rid F r) (ebind (transition sy p r m None ty data) f) Q E"
proof (rule qspec_bind)
  show "qspec (sees p rid F r) (transition sy p r m None ty data)
      (\<lambda>u s. sees p rid F u s \<and> rv_lifecycle_state u = next_state m r) E"
    by (rule qspec_weaken [OF q_transition [OF assms(1,2)]]) auto
  fix u
  show "qspec (\<lambda>s. sees p rid F u s \<and> rv_lifecycle_state u = next_state m r) (f u) Q E"
    using assms(3) [of u] unfolding qspec_def by blast
qed

lemma qspec_never: "qspec (\<lambda>_. False) m Q E"
  by (simp add: qspec_def)

lemma q_done: "(\<And>s. P s \<Longrightarrow> sees_in p rid F S s) \<Longrightarrow> qspec P (eret ()) (\<lambda>_. sees_in p rid F S) E"
  by (rule qspec_ret)

lemma mutation_fields [simp]:
  "mu_result_artifact (no_mutation\<lparr>mu_phase := ph\<rparr>) = None"
  "mu_result_artifact (no_mutation\<lparr>mu_lifecycle_state := ls, mu_phase := ph\<rparr>) = None"
  "mu_result_artifact (no_mutation\<lparr>mu_lifecycle_state := ls, mu_phase := ph, mu_pending_input := pe\<rparr>) = None"
  "mu_result_artifact (no_mutation\<lparr>mu_lifecycle_state := ls, mu_phase := ph, mu_public_error_code := ec\<rparr>) = None"
  by (simp_all add: no_mutation_def)

lemma q_progress:
  assumes "lib_ok (sy_lib sy)"
  shows "qspec (sees_in p rid F {RUNNING}) (co_progress sy p rid ph lb pc None)
    (\<lambda>_. sees_in p rid F {RUNNING}) never"
  unfolding co_progress_def
proof (rule q_read_then, rule qspec_if)
  fix r :: RunView
  assume r: "rv_lifecycle_state r \<in> {RUNNING}"
  show "qspec (sees p rid F r) (eraise CancelledError) (\<lambda>_. sees_in p rid F {RUNNING}) never"
    if "rv_lifecycle_state r \<in> TERMINAL_RUN_STATES \<union> {CANCEL_REQUESTED}"
    using r that by (auto simp: TERMINAL_RUN_STATES_def)
  show "qspec (sees p rid F r)
      (ebind (transition sy p r (no_mutation\<lparr>mu_phase := Some ph\<rparr>) None Ev_run_phase_changed
         [(''phase'', JStr ph), (''label'', JStr (take 160 lb)), (''progress'', JInt (max 0 (min 100 pc)))])
        (\<lambda>_. eret ())) (\<lambda>_. sees_in p rid F {RUNNING}) never"
    using projections_succeed_int(1) [OF assms] r
    by (intro q_transition_then q_done) (auto intro: sees_inI)
qed

lemma q_finish_canceled:
  "qspec (sees_in p rid F UNIV) (finish_canceled sy p rid) (\<lambda>_. sees_in p rid {} TERMINAL_RUN_STATES) never"
  unfolding finish_canceled_def
proof (rule q_read_then, rule qspec_if)
  fix r
  show "qspec (sees p rid F r) (eret ()) (\<lambda>_. sees_in p rid {} TERMINAL_RUN_STATES) never"
    if "rv_lifecycle_state r \<in> TERMINAL_RUN_STATES"
    using that by (intro q_done sees_in_mono [OF sees_inI]) auto
  show "qspec (sees p rid F r)
     (ecatch (ebind (transition sy p r
         (no_mutation\<lparr>mu_lifecycle_state := Some CANCELED, mu_phase := Some ''canceled''\<rparr>) None
         Ev_run_canceled [(''lifecycle_state'', JStr (lifecycle_value CANCELED))]) (\<lambda>_. eret ()))
       (\<lambda>e. case e of StoreExc (VersionConflict _) \<Rightarrow> eret () | _ \<Rightarrow> eraise e))
     (\<lambda>_. sees_in p rid {} TERMINAL_RUN_STATES) never"
    by (rule qspec_catch [OF _ qspec_never], intro q_transition_then q_done)
      (auto simp: projections_succeed TERMINAL_RUN_STATES_def intro: sees_in_mono [OF sees_inI])
qed

lemma q_finish_failed:
  "qspec (sees_in p rid F UNIV) (finish_failed sy p rid code None)
     (\<lambda>_. sees_in p rid {} TERMINAL_RUN_STATES) never"
  unfolding finish_failed_def
proof (rule q_read_then, intro qspec_if)
  fix r :: RunView
  show "qspec (sees p rid F r) (finish_canceled sy p rid) (\<lambda>_. sees_in p rid {} TERMINAL_RUN_STATES) never"
    by (rule qspec_weaken [OF q_finish_canceled]) (auto intro: sees_inI)
  show "qspec (sees p rid F r) (eret ()) (\<lambda>_. sees_in p rid {} TERMINAL_RUN_STATES) never"
    if "rv_lifecycle_state r \<in> TERMINAL_RUN_STATES \<union> {CANCEL_REQUESTED}" "rv_lifecycle_state r \<noteq> CANCEL_REQUESTED"
    using that by (intro q_done sees_in_mono [OF sees_inI]) auto
  show "qspec (sees p rid F r)
     (ecatch (ebind (transition sy p r
         (no_mutation\<lparr>mu_lifecycle_state := Some FAILED, mu_phase := Some ''failed'',
                     mu_public_error_code := Some code\<rparr>) None Ev_run_failed
         [(''lifecycle_state'', JStr (lifecycle_value FAILED)), (''error_code'', JStr code)]) (\<lambda>_. eret ()))
       (\<lambda>e. case e of StoreExc (VersionConflict _) \<Rightarrow> eret ()
             | StoreExc RunExecutionLeaseLost \<Rightarrow> eret () | _ \<Rightarrow> eraise e))
     (\<lambda>_. sees_in p rid {} TERMINAL_RUN_STATES) never"
    by (rule qspec_catch [OF _ qspec_never], intro q_transition_then q_done)
      (auto simp: projections_succeed TERMINAL_RUN_STATES_def intro: sees_in_mono [OF sees_inI])
qed

text \<open>
  What the executor may do: any progress reports, then any exception that is not a store conflict,
  or a result whose Artifacts have explicit, distinct and new identifiers.
\<close>

definition result_ids :: "ExecutionResult \<Rightarrow> string option list" where
  "result_ids res = map ea_artifact_id (er_supporting_artifacts res) @ [er_artifact_id res]"

definition executor_behaves :: "runtime_sys \<Rightarrow> Principal \<Rightarrow> string set \<Rightarrow> bool" where
  "executor_behaves sy p F \<longleftrightarrow>
     (\<forall>r. case xs_outcome (sy_executor sy r p) of
            Inl e \<Rightarrow> plain_exc e \<or> e = CancelledError
          | Inr res \<Rightarrow> distinct (result_ids res) \<and> set (result_ids res) \<subseteq> Some ` (F - {[]}))"

abbreviation stopped :: "Principal \<Rightarrow> string \<Rightarrow> run_exc \<Rightarrow> platform_store \<Rightarrow> bool" where
  "stopped p rid \<equiv> \<lambda>e s. (plain_exc e \<or> e = CancelledError) \<and> sees_in p rid {} {RUNNING} s"

lemma q_run_executor:
  assumes lib: "lib_ok (sy_lib sy)" and ex: "executor_behaves sy p F" and id: "rv_run_id r = rid"
  shows "qspec (sees_in p rid F {RUNNING}) (run_executor sy p r None)
    (\<lambda>res s. sees_in p rid F {RUNNING} s \<and> distinct (result_ids res) \<and>
       set (result_ids res) \<subseteq> Some ` (F - {[]})) (stopped p rid)"
proof -
  let ?sc = "sy_executor sy r p"
  have "qspec (sees_in p rid F {RUNNING})
      (efor (\<lambda>(phase, label, percent). co_progress sy p (rv_run_id r) phase label percent None) xs)
      (\<lambda>_. sees_in p rid F {RUNNING}) (stopped p rid)" for xs
  proof (induction xs)
    case Nil
    show ?case unfolding efor.simps by (rule qspec_ret)
  next
    case (Cons x xs)
    show ?case
      unfolding efor.simps
      by (rule qspec_bind [OF _ Cons.IH], cases x)
        (auto simp: id intro!: qspec_weaken [OF q_progress [OF lib]])
  qed
  note progress = this [of "xs_progress ?sc"]
  from ex have exr: "case xs_outcome ?sc of Inl e \<Rightarrow> plain_exc e \<or> e = CancelledError
      | Inr res \<Rightarrow> distinct (result_ids res) \<and> set (result_ids res) \<subseteq> Some ` (F - {[]})"
    unfolding executor_behaves_def by (rule spec)
  have "qspec (sees_in p rid F {RUNNING})
      (case xs_outcome ?sc of Inl e \<Rightarrow> eraise e | Inr res \<Rightarrow> eret res)
      (\<lambda>res s. sees_in p rid F {RUNNING} s \<and> distinct (result_ids res) \<and>
         set (result_ids res) \<subseteq> Some ` (F - {[]})) (stopped p rid)"
  proof (cases "xs_outcome ?sc")
    case (Inl e)
    with exr have "plain_exc e \<or> e = CancelledError" by simp
    then have "qspec (sees_in p rid F {RUNNING}) (eraise e) Q (stopped p rid)" for Q
      by (intro qspec_raise) (blast intro: sees_in_mono)
    with Inl show ?thesis by (simp only: sum.case)
  next
    case (Inr res)
    with exr have "distinct (result_ids res) \<and> set (result_ids res) \<subseteq> Some ` (F - {[]})" by simp
    then have "qspec (sees_in p rid F {RUNNING}) (eret res) (\<lambda>res s. sees_in p rid F {RUNNING} s \<and>
        distinct (result_ids res) \<and> set (result_ids res) \<subseteq> Some ` (F - {[]})) (stopped p rid)"
      by (intro qspec_ret) blast
    with Inr show ?thesis by (simp only: sum.case)
  qed
  with progress show ?thesis unfolding run_executor_def Let_def by (rule qspec_bind)
qed

lemma q_still_running:
  assumes "\<And>r. rv_lifecycle_state r = RUNNING \<Longrightarrow> qspec (sees p rid F r) (f r) Q E"
  shows "qspec (sees_in p rid F {RUNNING}) (ebind (still_running sy p rid) f) Q E"
proof (rule qspec_bind)
  show "qspec (sees_in p rid F {RUNNING}) (still_running sy p rid)
      (\<lambda>r s. sees p rid F r s \<and> rv_lifecycle_state r = RUNNING) E"
    unfolding still_running_def
    by (rule q_read_then, rule qspec_if) (auto intro!: qspec_ret simp del: eret_def)
  fix r
  show "qspec (\<lambda>s. sees p rid F r s \<and> rv_lifecycle_state r = RUNNING) (f r) Q E"
    using assms [of r] unfolding qspec_def by blast
qed

lemma q_store_artifact_in:
  assumes "ea_artifact_id a = Some i" "i \<noteq> []" "i \<in> F"
  shows "qspec (sees_in p rid F {RUNNING}) (store_artifact sy p tid None a)
    (\<lambda>_ s. sees_in p rid (F - {i}) {RUNNING} s) (stopped p rid)"
  unfolding qspec_def
proof (intro allI impI)
  fix w :: world
  assume w: "w_env w = []" "sees_in p rid F {RUNNING} (w_store w)"
  then obtain r where r: "sees p rid F r (w_store w)" "rv_lifecycle_state r = RUNNING" by (auto simp: sees_in_def)
  from qspecD [OF q_store_artifact [OF assms] w(1) r(1), of sy tid] r(2)
  show "w_env (snd (store_artifact sy p tid None a w)) = [] \<and>
      (case fst (store_artifact sy p tid None a w) of
         Inl e \<Rightarrow> stopped p rid e (w_store (snd (store_artifact sy p tid None a w)))
       | Inr _ \<Rightarrow> sees_in p rid (F - {i}) {RUNNING} (w_store (snd (store_artifact sy p tid None a w))))"
    by (auto split: sum.splits intro: sees_inI)
qed

lemma q_store_all:
  assumes "distinct ids" and "map ea_artifact_id as = map Some ids" and "set ids \<subseteq> F - {[]}"
  shows "qspec (sees_in p rid F {RUNNING})
    (efor (\<lambda>a. ebind (store_artifact sy p tid None a) (\<lambda>_. eret ())) as)
    (\<lambda>_. sees_in p rid (F - set ids) {RUNNING}) (stopped p rid)"
  using assms
proof (induction as arbitrary: ids F)
  case Nil
  then show ?case unfolding efor.simps by (auto intro!: qspec_ret simp del: eret_def)
next
  case (Cons a as)
  then obtain i js where ids: "ids = i # js" "ea_artifact_id a = Some i" "map ea_artifact_id as = map Some js"
    by (cases ids) auto
  with Cons.prems have i: "i \<noteq> []" "i \<in> F" "distinct js" "set js \<subseteq> (F - {i}) - {[]}" by auto
  have 1: "qspec (sees_in p rid F {RUNNING}) (ebind (store_artifact sy p tid None a) (\<lambda>_. eret ()))
      (\<lambda>_. sees_in p rid (F - {i}) {RUNNING}) (stopped p rid)"
    by (rule qspec_bind [OF q_store_artifact_in [OF ids(2) i(1,2)]]) (rule qspec_ret)
  have "F - set ids = F - {i} - set js" by (auto simp: ids(1))
  with Cons.IH [OF i(3) ids(3) i(4)] have 2: "qspec (sees_in p rid (F - {i}) {RUNNING})
      (efor (\<lambda>a. ebind (store_artifact sy p tid None a) (\<lambda>_. eret ())) as)
      (\<lambda>_. sees_in p rid (F - set ids) {RUNNING}) (stopped p rid)"
    by (simp only:)
  show ?case unfolding efor.simps by (rule qspec_bind [OF 1 2])
qed

lemma publishing_fields [simp]:
  "mu_result_artifact (no_mutation\<lparr>mu_phase := ph, mu_result_artifact := x\<rparr>) = x"
  "mu_lifecycle_state (no_mutation\<lparr>mu_phase := ph, mu_result_artifact := x\<rparr>) = None"
  by (simp_all add: no_mutation_def)

lemma q_publish_result:
  assumes lib: "lib_ok (sy_lib sy)" and r: "rv_lifecycle_state r = RUNNING"
  shows "qspec (sees p rid F r) (publish_result_artifact sy p r None res art)
    (\<lambda>_. sees_in p rid {} TERMINAL_RUN_STATES) (stopped p rid)"
  unfolding publish_result_artifact_def
proof (rule qspec_if)
  show "qspec (sees p rid F r)
      (ebind (transition sy p r (no_mutation\<lparr>mu_phase := Some ''validation''\<rparr>) None
          Ev_artifact_candidate_updated
          [(''artifact_id'', JStr (av_artifact_id art)), (''artifact_version'', JInt (av_version art)),
           (''artifact_type'', JStr (av_artifact_type art)),
           (''schema_version'', JInt (av_schema_version art)),
           (''status'', JStr (artifact_status_value CANDIDATE))]) (\<lambda>cur2.
       ebind (transition sy p cur2
          (no_mutation\<lparr>mu_lifecycle_state := Some FAILED, mu_phase := Some ''validation'',
                      mu_public_error_code := Some ''VALIDATION_BLOCKED''\<rparr>) None Ev_run_failed
          [(''lifecycle_state'', JStr (lifecycle_value FAILED)),
           (''error_code'', JStr ''VALIDATION_BLOCKED'')]) (\<lambda>_. eret ())))
      (\<lambda>_. sees_in p rid {} TERMINAL_RUN_STATES) (stopped p rid)"
    by (intro q_transition_then q_done)
      (auto simp: projections_succeed projections_succeed_int [OF lib] TERMINAL_RUN_STATES_def
        intro: sees_in_mono [OF sees_inI])
  have 2: "qspec (sees p rid {} u)
      (ebind (transition sy p u
          (no_mutation\<lparr>mu_lifecycle_state := Some COMPLETED, mu_phase := Some ''completed''\<rparr>) None
          Ev_run_completed
          [(''lifecycle_state'', JStr (lifecycle_value COMPLETED)),
           (''artifact_id'', JStr (av_artifact_id art)), (''artifact_version'', JInt (av_version art)),
           (''artifact_type'', JStr (av_artifact_type art)),
           (''schema_version'', JInt (av_schema_version art))]) (\<lambda>_. eret ()))
      (\<lambda>_. sees_in p rid {} TERMINAL_RUN_STATES) (stopped p rid)" for u
    by (intro q_transition_then q_done)
      (auto simp: projections_succeed_int [OF lib] TERMINAL_RUN_STATES_def intro: sees_inI)
  have 1: "qspec (sees p rid F r)
      (transition sy p r (no_mutation\<lparr>mu_phase := Some ''published'', mu_result_artifact := Some art\<rparr>) None
          Ev_artifact_published
          [(''artifact_id'', JStr (av_artifact_id art)), (''artifact_version'', JInt (av_version art)),
           (''artifact_type'', JStr (av_artifact_type art)),
           (''status'', JStr (artifact_status_value PUBLISHED))]) (sees p rid {}) (stopped p rid)"
    by (rule qspec_weaken, rule q_transition_publish)
      (auto simp: projections_succeed r intro: sees_inI)
  show "qspec (sees p rid F r)
      (ebind (transition sy p r (no_mutation\<lparr>mu_phase := Some ''published'', mu_result_artifact := Some art\<rparr>) None
          Ev_artifact_published
          [(''artifact_id'', JStr (av_artifact_id art)), (''artifact_version'', JInt (av_version art)),
           (''artifact_type'', JStr (av_artifact_type art)),
           (''status'', JStr (artifact_status_value PUBLISHED))]) (\<lambda>cur2.
       ebind (transition sy p cur2
          (no_mutation\<lparr>mu_lifecycle_state := Some COMPLETED, mu_phase := Some ''completed''\<rparr>) None
          Ev_run_completed
          [(''lifecycle_state'', JStr (lifecycle_value COMPLETED)),
           (''artifact_id'', JStr (av_artifact_id art)), (''artifact_version'', JInt (av_version art)),
           (''artifact_type'', JStr (av_artifact_type art)),
           (''schema_version'', JInt (av_schema_version art))]) (\<lambda>_. eret ())))
      (\<lambda>_. sees_in p rid {} TERMINAL_RUN_STATES) (stopped p rid)"
    by (rule qspec_bind [OF 1 2])
qed

lemma q_from_sees:
  assumes "qspec (sees_in p rid F {RUNNING}) m Q E" and "rv_lifecycle_state r = RUNNING"
  shows "qspec (sees p rid F r) m Q E"
  by (rule qspec_weaken [OF assms(1)]) (auto intro: sees_inI simp: assms(2))

lemma some_list_map: "set xs \<subseteq> Some ` A \<Longrightarrow> \<exists>js. xs = map Some js \<and> set js \<subseteq> A"
proof (induction xs)
  case (Cons x xs)
  then obtain js a where "xs = map Some js" "set js \<subseteq> A" "x = Some a" "a \<in> A" by auto
  then have "x # xs = map Some (a # js) \<and> set (a # js) \<subseteq> A" by simp
  then show ?case by (rule exI)
qed simp

lemma q_store_result:
  assumes lib: "lib_ok (sy_lib sy)" and ids: "distinct (result_ids res)"
    "set (result_ids res) \<subseteq> Some ` (F - {[]})"
  shows "qspec (sees_in p rid F {RUNNING}) (store_result sy rid p None res)
    (\<lambda>_. sees_in p rid {} TERMINAL_RUN_STATES) (stopped p rid)"
proof -
  from ids(2) obtain js where "result_ids res = map Some js" "set js \<subseteq> F - {[]}"
    using some_list_map by blast
  then obtain is1 i where js: "map ea_artifact_id (er_supporting_artifacts res) = map Some is1"
      "er_artifact_id res = Some i" "set is1 \<subseteq> F - {[]}" "i \<in> F" "i \<noteq> []" "js = is1 @ [i]"
    by (auto simp: result_ids_def append_eq_map_conv map_eq_append_conv)
  with ids(1) have d: "distinct is1" "i \<notin> set is1"
    by (auto simp: result_ids_def distinct_map)
  let ?art = "\<lparr>ea_artifact_id = er_artifact_id res, ea_artifact_type = er_artifact_type res,
      ea_schema_version = er_schema_version res, ea_content = er_content res, ea_status = CANDIDATE\<rparr>"
  have a: "ea_artifact_id ?art = Some i" by (simp add: js)
  have iF: "i \<in> F - set is1" using js d by simp
  show ?thesis
    unfolding store_result_def
    by (intro q_still_running q_from_sees qspec_bind [OF q_store_all [OF d(1) js(1,3)]]
        qspec_bind [OF q_store_artifact_in [OF a js(5) iF]] q_publish_result [OF lib])
qed

lemma q_execute_running:
  assumes lib: "lib_ok (sy_lib sy)" and ex: "executor_behaves sy p F" and r: "rv_lifecycle_state r = RUNNING"
  shows "qspec (sees p rid F r) (execute_running sy rid p None r)
    (\<lambda>_. sees_in p rid {} (TERMINAL_RUN_STATES \<union> {WAITING_INPUT})) (stopped p rid)"
  unfolding qspec_def
proof (intro allI impI)
  fix w :: world
  assume w: "w_env w = []" "sees p rid F r (w_store w)"
  let ?Q = "\<lambda>_. sees_in p rid {} (TERMINAL_RUN_STATES \<union> {WAITING_INPUT})"
  let ?goal = "\<lambda>x. w_env (snd x) = [] \<and>
    (case fst x of Inl e \<Rightarrow> stopped p rid e (w_store (snd x)) | Inr a \<Rightarrow> ?Q a (w_store (snd x)))"
  show "?goal (execute_running sy rid p None r w)"
  proof (cases "required_input r (sy_uid sy (w_tick w)) (sy_clock sy (w_tick w))")
    case (Some pending)
    let ?m = "ebind (transition sy p r
              (no_mutation\<lparr>mu_lifecycle_state := Some WAITING_INPUT, mu_phase := Some ''clarification'',
                          mu_pending_input := Some pending\<rparr>) None Ev_input_required
              (pending_dump (sy_iso sy) pending)) (\<lambda>_. eret ())"
    have "qspec (sees p rid F r) ?m ?Q (stopped p rid)"
      by (intro q_transition_then q_done) (auto simp: projections_succeed intro: sees_in_mono [OF sees_inI])
    from qspecD [OF this w] have "?goal (?m w)" by simp
    moreover have "execute_running sy rid p None r w = ?m w" using Some by (simp add: execute_running_def)
    ultimately show ?thesis by (simp only:)
  next
    case None
    let ?m = "ebind (run_executor sy p r None) (store_result sy rid p None)"
    have "qspec (sees p rid F r) ?m ?Q (stopped p rid)"
    proof (rule q_from_sees [OF qspec_bind [OF q_run_executor [OF lib ex sees_id [OF w(2)]]] r])
      fix res
      show "qspec (\<lambda>s. sees_in p rid F {RUNNING} s \<and> distinct (result_ids res) \<and>
          set (result_ids res) \<subseteq> Some ` (F - {[]})) (store_result sy rid p None res) ?Q (stopped p rid)"
      proof (cases "distinct (result_ids res) \<and> set (result_ids res) \<subseteq> Some ` (F - {[]})")
        case True
        show ?thesis
          by (rule qspec_weaken [OF q_store_result [OF lib conjunct1 [OF True] conjunct2 [OF True]]])
            (auto intro: sees_in_mono)
      qed (auto simp: qspec_def)
    qed
    from qspecD [OF this w] have "?goal (?m w)" by simp
    moreover have "execute_running sy rid p None r w = ?m w" using None by (simp add: execute_running_def)
    ultimately show ?thesis by (simp only:)
  qed
qed

lemma q_execute_run:
  assumes lib: "lib_ok (sy_lib sy)" and ex: "executor_behaves sy p F"
  shows "qspec (sees_in p rid F {QUEUED, RUNNING}) (execute_run sy rid p None)
    (\<lambda>_. sees_in p rid {} (TERMINAL_RUN_STATES \<union> {WAITING_INPUT})) never"
  unfolding execute_run_def
proof (rule qspec_catch)
  show "qspec (sees_in p rid F {QUEUED, RUNNING}) (execute_body sy rid p None)
      (\<lambda>_. sees_in p rid {} (TERMINAL_RUN_STATES \<union> {WAITING_INPUT})) (stopped p rid)"
    unfolding execute_body_def
    by (intro q_read_then qspec_if q_transition_then q_execute_running [OF lib ex])
      (auto simp: projections_succeed)
  fix e
  show "qspec (stopped p rid e) (execute_handler sy rid p None e)
      (\<lambda>_. sees_in p rid {} (TERMINAL_RUN_STATES \<union> {WAITING_INPUT})) never"
  proof (cases "plain_exc e")
    case True
    then have "execute_handler sy rid p None e = finish_failed sy p rid ''RUN_EXECUTION_FAILED'' None"
      by (cases e rule: plain_exc.cases) (simp_all add: execute_handler_def)
    moreover have "qspec (stopped p rid e) (finish_failed sy p rid ''RUN_EXECUTION_FAILED'' None)
      (\<lambda>_. sees_in p rid {} (TERMINAL_RUN_STATES \<union> {WAITING_INPUT})) never"
      by (rule qspec_weaken [OF q_finish_failed]) (blast intro: sees_in_mono)+
    ultimately show ?thesis by (simp only:)
  next
    case False
    show ?thesis
    proof (cases "e = CancelledError")
      case True
      then have "execute_handler sy rid p None e = finish_canceled sy p rid" by (simp add: execute_handler_def)
      moreover have "qspec (stopped p rid e) (finish_canceled sy p rid)
        (\<lambda>_. sees_in p rid {} (TERMINAL_RUN_STATES \<union> {WAITING_INPUT})) never"
        by (rule qspec_weaken [OF q_finish_canceled]) (blast intro: sees_in_mono)+
      ultimately show ?thesis by (simp only:)
    qed (use False in \<open>simp add: qspec_def\<close>)
  qed
qed

end
