(* ===== verification/Coordinator_Properties.thy ===== *)
theory Coordinator_Properties
  imports Coordinator_Liveness
begin

text \<open>
  The properties of the Run coordinator, with the concrete worlds of their witnesses: life cycles
  never go back under any interleaving, cancellation is safe with a control version the Run has
  had, an undisturbed execution settles its Run; and two behaviours in which it does not.
\<close>

section \<open>A concrete runtime\<close>

definition demo_result :: ExecutionResult where
  "demo_result = \<lparr>er_artifact_type = ''TripSnapshot'', er_schema_version = 1, er_content = [],
     er_artifact_id = Some ''snap1'', er_supporting_artifacts =
       [\<lparr>ea_artifact_id = Some ''report1'', ea_artifact_type = ''ValidationReport'', ea_schema_version = 1,
         ea_content = [], ea_status = VALIDATED\<rparr>], er_publishable = True\<rparr>"

definition demo_sys :: runtime_sys where
  "demo_sys = \<lparr>sy_lib = plain_lib, sy_clock = (\<lambda>n. 1000 + int n), sy_uid = (\<lambda>n. replicate (n + 1) CHR ''x''),
     sy_iso = (\<lambda>_. ''2026-01-01T00:00:00Z''),
     sy_executor = (\<lambda>_ _. \<lparr>xs_progress = [(''research'', ''searching'', 30)], xs_outcome = Inr demo_result\<rparr>)\<rparr>"

definition run_state :: "platform_store \<Rightarrow> string \<Rightarrow> RunLifecycle option" where
  "run_state s rid = map_option rv_lifecycle_state (dget (st_runs s) rid)"

lemma demo_executor_ok: "executor_ok demo_sys"
  by (auto simp: executor_ok_def demo_sys_def demo_result_def)



text \<open>Another coordinator that executes the Run from beginning to end at one suspension point.\<close>

definition rival :: "platform_store \<Rightarrow> platform_store" where
  "rival s = w_store (snd (execute_run demo_sys ''run1'' alice None (start_world s [])))"

lemma env_ok_rival: "env_ok [(False, id), (False, rival)]"
proof -
  have "store_step\<^sup>*\<^sup>* s (rival s) \<and> forward s (rival s)" if "store_inv s" for s
  proof -
    have "world_ok (start_world s [])" by (rule start_world_ok [OF that]) (simp add: env_ok_def)
    with execute_run_spec [OF demo_executor_ok, of "''run1''" alice None]
    have "world_step (start_world s []) (snd (execute_run demo_sys ''run1'' alice None (start_world s [])))"
      unfolding co_spec_def by blast
    then show ?thesis by (simp add: world_step_def rival_def start_world_def)
  qed
  then show ?thesis by (simp add: env_ok_def)
qed

section \<open>Safety\<close>



text \<open>
  Cancellation is safe under the same interference when the caller names a control version
  the Run has already had: no Run leaves a terminal state.
\<close>

theorem cancel_moves_forward:
  assumes "store_reachable s" and "env_ok env" and "version_reached rid expected s"
  shows "sorted_wrt forward (w_trace (snd (cancel sy p rid expected cb has_task (start_world s env)))) \<and>
    store_step\<^sup>*\<^sup>* s (w_store (snd (cancel sy p rid expected cb has_task (start_world s env))))"
  by (rule co_spec_trace [where P = "version_reached rid expected", OF cancel_spec assms])

theorem cancel_moves_forward_witness:
  "sorted_wrt forward (w_trace (snd (cancel demo_sys alice ''run1'' 1 Callback_ok False
     (start_world demo2 [(False, id), (False, rival)]))))"
proof -
  have "version_reached ''run1'' 1 demo2"
    using demo_runs_eval by (auto simp: version_reached_def)
  from cancel_moves_forward [OF demo_reachable(2) env_ok_rival this] show ?thesis by blast
qed

text \<open>
  Without that condition it is not: \<open>cancel\<close> reads the Run, sees it live and then
  compares and sets with the control version of the request instead of the one it read. A caller who
  names a version that the Run reaches in between cancels a Run that has been COMPLETED.
\<close>

theorem cancel_reopens_completed_run:
  "let w = snd (cancel demo_sys alice ''run1'' 5 Callback_ok False
                 (start_world demo2 [(False, id), (False, rival)]))
   in map (\<lambda>s. run_state s ''run1'') (w_trace w) =
        [Some QUEUED, Some QUEUED, Some QUEUED, Some COMPLETED, Some CANCEL_REQUESTED,
         Some CANCEL_REQUESTED, Some CANCELED]"
  by code_simp

section \<open>Liveness\<close>



text \<open>
  New identifiers are needed: when the executor proposes an Artifact identifier the store
  already has, the VersionConflict of \<open>create_artifact\<close> is taken for a lost race on the
  Run; \<open>execute_run\<close> returns normally and the Run stays RUNNING with nobody executing it.
\<close>

theorem artifact_conflict_strands_run:
  "fst (execute_run demo_sys ''run1'' alice None (start_world demo_snapshot [])) = Inr () \<and>
   run_state (w_store (snd (execute_run demo_sys ''run1'' alice None (start_world demo_snapshot [])))) ''run1''
     = Some RUNNING"
  by code_simp

end
