(* ===== verification/A2A_Models.thy ===== *)
theory A2A_Models
  imports Prelude
begin

text \<open>
  The values of the agent protocol: constants and application models of \<^verbatim>\<open>agent/travel_agent/a2a/constants.py\<close> and
  \<^verbatim>\<open>models.py\<close>, the fields of the protocol's wire types that the program reads or writes, and the curated
  registry of \<^verbatim>\<open>registry.py\<close>. A protobuf Struct or Value is the JSON it converts to.
\<close>

section \<open>Constants\<close>

definition TRAVEL_ARTIFACT_EXTENSION_URI :: string where
  "TRAVEL_ARTIFACT_EXTENSION_URI = ''urn:routepilot:a2a:extensions:travel-artifact:v1''"

definition INPUT_REQUEST_SCHEMA_URI :: string where
  "INPUT_REQUEST_SCHEMA_URI = ''urn:routepilot:a2a:input-request:v1''"

definition INPUT_RESPONSE_SCHEMA_URI :: string where
  "INPUT_RESPONSE_SCHEMA_URI = ''urn:routepilot:a2a:input-response:v1''"

definition PUBLIC_ERROR_SCHEMA_URI :: string where
  "PUBLIC_ERROR_SCHEMA_URI = ''urn:routepilot:a2a:public-error:v1''"

definition AUTH_REQUEST_SCHEMA_URI :: string where
  "AUTH_REQUEST_SCHEMA_URI = ''urn:routepilot:a2a:dependency-auth-request:v1''"

definition MAX_STRUCTURED_INPUT_BYTES :: int where "MAX_STRUCTURED_INPUT_BYTES = 192 * 1024"

definition MAX_REFERENCE_TASKS :: nat where "MAX_REFERENCE_TASKS = 10"

text \<open>In microseconds: 60 seconds and 30 minutes.\<close>

definition DEFAULT_TASK_TIMEOUT :: int where "DEFAULT_TASK_TIMEOUT = 60000000"

definition MAX_TASK_TIMEOUT :: int where "MAX_TASK_TIMEOUT = 1800000000"

definition schema_uri_of_interface :: "string \<Rightarrow> string" where
  "schema_uri_of_interface agent_interface_id = ''urn:routepilot:a2a:input:'' @ agent_interface_id @ '':v1''"

text \<open>\<^verbatim>\<open>contract.partition("@")\<close>: what precedes the first separator and what follows it.\<close>

definition artifact_schema_uri :: "string \<Rightarrow> string" where
  "artifact_schema_uri contract =
     (let name = takeWhile (\<lambda>c. c \<noteq> CHR ''@'') contract; version = drop (length name + 1) contract
      in ''urn:routepilot:schema:artifact:'' @ name @ '':v'' @ version)"

section \<open>Wire types\<close>

text \<open>Task states are the numbers of the protocol's enumeration.\<close>

definition TASK_SUBMITTED :: int where "TASK_SUBMITTED = 1"
definition TASK_WORKING :: int where "TASK_WORKING = 2"
definition TASK_COMPLETED :: int where "TASK_COMPLETED = 3"
definition TASK_FAILED :: int where "TASK_FAILED = 4"
definition TASK_CANCELED :: int where "TASK_CANCELED = 5"
definition TASK_INPUT_REQUIRED :: int where "TASK_INPUT_REQUIRED = 6"
definition TASK_REJECTED :: int where "TASK_REJECTED = 7"
definition TASK_AUTH_REQUIRED :: int where "TASK_AUTH_REQUIRED = 8"

lemmas state_numbers = TASK_SUBMITTED_def TASK_WORKING_def TASK_COMPLETED_def TASK_FAILED_def TASK_CANCELED_def TASK_INPUT_REQUIRED_def
  TASK_REJECTED_def TASK_AUTH_REQUIRED_def

datatype Role = Role_user | Role_agent | Role_unspecified

text \<open>\<open>pt_data\<close> is the data content of a part, or nothing when its content is text, bytes or a link.\<close>

record Part =
  pt_data :: "json option"
  pt_metadata :: jobj

record Message =
  ms_message_id :: string
  ms_task_id :: string
  ms_context_id :: string
  ms_role :: Role
  ms_parts :: "Part list"
  ms_metadata :: jobj
  ms_extensions :: "string list"
  ms_reference_task_ids :: "string list"

record TaskStatus =
  ts_state :: int
  ts_timestamp :: instant
  ts_message :: "Message option"

record Artifact =
  at_artifact_id :: string
  at_name :: string
  at_description :: string
  at_parts :: "Part list"
  at_metadata :: jobj
  at_extensions :: "string list"

record Task =
  tk_id :: string
  tk_context_id :: string
  tk_status :: TaskStatus
  tk_artifacts :: "Artifact list"
  tk_history :: "Message list"
  tk_metadata :: jobj

abbreviation tk_state :: "Task \<Rightarrow> int" where
  "tk_state t \<equiv> ts_state (tk_status t)"

datatype task_event =
    TaskStatusUpdateEvent (ev_task_id: string) (ev_context_id: string) TaskStatus (ev_metadata: jobj)
  | TaskArtifactUpdateEvent (ev_task_id: string) (ev_context_id: string) Artifact (ev_metadata: jobj)

record SendMessageRequest =
  sm_tenant :: string
  sm_message :: Message
  sm_accepted_output_modes :: "string list"
  sm_push_notification :: bool
  sm_history_length :: int
  sm_return_immediately :: bool
  sm_metadata :: jobj

section \<open>Application models\<close>

record A2AActor =
  aa_tenant_id :: string
  aa_actor_id :: string
  aa_roles :: "string set"
  aa_authorization_epoch :: int

record DispatchMetadata =
  dsp_dispatch_id :: string
  dsp_run_id :: string
  dsp_deadline :: "instant option"

definition DispatchMetadata_ok :: "DispatchMetadata \<Rightarrow> bool" where
  "DispatchMetadata_ok m \<longleftrightarrow> length (dsp_dispatch_id m) = 36 \<and> 3 \<le> length (dsp_run_id m) \<and> length (dsp_run_id m) \<le> 160"

record StructuredPartMetadata =
  sp_schema_uri :: string
  sp_schema_version :: int

record ArtifactInput =
  ai_contract :: string
  ai_payload :: jobj

record AgentInvocation =
  nv_goal :: string
  nv_artifacts :: "ArtifactInput list"
  nv_options :: jobj

definition AgentInvocation_ok :: "AgentInvocation \<Rightarrow> bool" where
  "AgentInvocation_ok v \<longleftrightarrow> 1 \<le> length (nv_goal v) \<and> length (nv_goal v) \<le> 4000 \<and>
     1 \<le> length (nv_artifacts v) \<and> length (nv_artifacts v) \<le> 8"

record InputField =
  nf_field_id :: string
  nf_label :: string
  nf_input_type :: string
  nf_required :: bool
  nf_options :: "string list"

record TypedInputRequest =
  iq_request_id :: string
  iq_prompt :: string
  iq_fields :: "InputField list"
  iq_expires_at :: "instant option"

record InputResponse =
  ip_request_id :: string
  ip_values :: jobj

definition InputResponse_ok :: "InputResponse \<Rightarrow> bool" where
  "InputResponse_ok r \<longleftrightarrow> 3 \<le> length (ip_request_id r) \<and> length (ip_request_id r) \<le> 128 \<and>
     1 \<le> length (ip_values r) \<and> length (ip_values r) \<le> 20"

record ArtifactOutput =
  ao_contract :: string
  ao_payload :: jobj
  ao_artifact_id :: "string option"
  ao_name :: string
  ao_description :: "string option"

text \<open>\<open>Unsupported\<close> is any other value an executor may return.\<close>

datatype agent_result =
    CompletedExecution "ArtifactOutput list"
  | InputRequiredExecution TypedInputRequest
  | AuthRequiredExecution string string
  | FailedExecution string string
  | Unsupported

record AgentExecutionContext =
  xc_tenant_id :: string
  xc_actor_id :: string
  xc_agent_interface_id :: string
  xc_task_id :: string
  xc_context_id :: string
  xc_run_id :: string
  xc_dispatch_id :: string
  xc_deadline :: instant
  xc_reference_task_ids :: "string list"

record RunTaskRef =
  rt_run_id :: string
  rt_tenant_id :: string
  rt_agent_interface_id :: string
  rt_task_id :: string
  rt_context_id :: string
  rt_dispatch_id :: string
  rt_status :: int
  rt_version :: int
  rt_deadline :: instant

text \<open>Datetimes of the model carry their zone, so only the comparison with the clock is left.\<close>

definition ensure_aware_future :: "instant \<Rightarrow> instant \<Rightarrow> instant option" where
  "ensure_aware_future v now = (if v \<le> now then None else Some v)"

section \<open>The registry\<close>

text \<open>The parameters of an agent card; the rest of the card is constant.\<close>

record AgentCard =
  card_url :: string
  card_name :: string
  card_description :: string
  card_skill_id :: string
  card_skill_name :: string
  card_tags :: "string list"

record AgentProfile =
  pf_interface_id :: string
  pf_skill_id :: string
  pf_required_input_contracts :: "string list"
  pf_allowed_output_contracts :: "string list"
  pf_card :: AgentCard

definition pf_invocation_schema_uri :: "AgentProfile \<Rightarrow> string" where
  "pf_invocation_schema_uri p = schema_uri_of_interface (pf_interface_id p)"

datatype registry_error = AlreadyRegistered string | UnknownInterface string | NoUniqueInterface string

type_synonym agent_registry = "(string, AgentProfile) dict"

definition register :: "AgentProfile \<Rightarrow> bool \<Rightarrow> agent_registry \<Rightarrow> registry_error + agent_registry" where
  "register p replace reg =
     (if dget reg (pf_interface_id p) \<noteq> None \<and> \<not> replace then Inl (AlreadyRegistered (pf_interface_id p))
      else Inr (dset (pf_interface_id p) p reg))"

definition get_profile :: "agent_registry \<Rightarrow> string \<Rightarrow> registry_error + AgentProfile" where
  "get_profile reg i = (case dget reg i of None \<Rightarrow> Inl (UnknownInterface i) | Some p \<Rightarrow> Inr p)"

definition list_profiles :: "agent_registry \<Rightarrow> AgentProfile list" where
  "list_profiles reg = map snd (sort_key fst reg)"

definition select_for_skill :: "agent_registry \<Rightarrow> string \<Rightarrow> registry_error + AgentProfile" where
  "select_for_skill reg skill =
     (case filter (\<lambda>p. pf_skill_id p = skill) (map snd reg) of [p] \<Rightarrow> Inr p | _ \<Rightarrow> Inl (NoUniqueInterface skill))"

definition rstrip_slash :: "string \<Rightarrow> string" where
  "rstrip_slash s = rev (dropWhile (\<lambda>c. c = CHR ''/'') (rev s))"

definition build_card :: "string \<Rightarrow> string \<Rightarrow> string \<Rightarrow> string \<Rightarrow> string \<Rightarrow> string \<Rightarrow> string list \<Rightarrow> AgentCard" where
  "build_card base_url interface_id name description skill_id skill_name tags =
     \<lparr>card_url = rstrip_slash base_url @ ''/agents/'' @ interface_id @ ''/rpc'', card_name = name, card_description = description,
      card_skill_id = skill_id, card_skill_name = skill_name, card_tags = tags\<rparr>"

definition specifications ::
    "(string \<times> string \<times> string \<times> string \<times> string \<times> string list \<times> string list \<times> string list) list" where
  "specifications =
     [(''answering'', ''RoutePilot Answering Agent'', ''Answers travel questions from bounded RAG and live-provider evidence.'',
       ''travel.answer.v1'', ''Grounded travel answering'', [''travel'', ''answering'', ''rag'', ''evidence''],
       [''TravelQuestion@1''], [''TravelAnswer@1'']),
      (''research'', ''RoutePilot Research Agent'', ''Retrieves grounded travel evidence and destination candidates.'',
       ''travel.research.v1'', ''Travel research'', [''travel'', ''research'', ''evidence''],
       [''TripBrief@1''], [''EvidenceBundle@1'', ''CandidateSet@1'']),
      (''planner'', ''RoutePilot Planner Agent'', ''Builds candidate itineraries from validated travel evidence.'',
       ''travel.plan.v1'', ''Itinerary planning'', [''travel'', ''planning'', ''itinerary''],
       [''TripBrief@1'', ''EvidenceBundle@1'', ''CandidateSet@1''], [''ItineraryPlan@1'']),
      (''validation'', ''RoutePilot Validation Service Agent'',
       ''Runs deterministic route, time, budget, hours and hard-constraint checks.'',
       ''travel.validate.v1'', ''Deterministic validation'', [''travel'', ''validation'', ''constraints''],
       [''TripBrief@1'', ''ItineraryPlan@1'', ''EvidenceBundle@1''], [''ConstraintReport@1'']),
      (''semantic-verifier'', ''RoutePilot Semantic Verifier Agent'',
       ''Reviews evidence coverage, assumptions, conflicts and semantic risks.'',
       ''travel.verify.v1'', ''Semantic verification'', [''travel'', ''verification'', ''risk''],
       [''TripBrief@1'', ''ItineraryPlan@1'', ''EvidenceBundle@1'', ''ConstraintReport@1''], [''SemanticRiskReport@1''])]"

definition specified_profile :: "string \<Rightarrow>
    string \<times> string \<times> string \<times> string \<times> string \<times> string list \<times> string list \<times> string list \<Rightarrow> AgentProfile" where
  "specified_profile base_url = (\<lambda>(interface_id, name, description, skill_id, skill_name, tags, required, allowed).
     \<lparr>pf_interface_id = interface_id, pf_skill_id = skill_id, pf_required_input_contracts = required,
      pf_allowed_output_contracts = allowed,
      pf_card = build_card base_url interface_id name description skill_id skill_name tags\<rparr>)"

primrec register_all :: "AgentProfile list \<Rightarrow> agent_registry \<Rightarrow> registry_error + agent_registry" where
  "register_all [] reg = Inr reg"
| "register_all (p # ps) reg = (case register p False reg of Inl e \<Rightarrow> Inl e | Inr reg' \<Rightarrow> register_all ps reg')"

definition build_default_registry :: "string \<Rightarrow> registry_error + agent_registry" where
  "build_default_registry base_url = register_all (map (specified_profile base_url) specifications) []"

lemma register_all_distinct:
  assumes "distinct (map pf_interface_id ps)" and "\<forall>p \<in> set ps. dget reg (pf_interface_id p) = None"
  shows "register_all ps reg = Inr (reg @ map (\<lambda>p. (pf_interface_id p, p)) ps)"
  using assms
proof (induction ps arbitrary: reg)
  case (Cons p ps)
  have "dset (pf_interface_id p) p reg = reg @ [(pf_interface_id p, p)]"
    using Cons.prems(2) by (induction reg) (auto split: if_splits)
  moreover have "\<forall>q \<in> set ps. dget (reg @ [(pf_interface_id p, p)]) (pf_interface_id q) = None"
    using Cons.prems by (auto simp: map_add_def image_iff)
  ultimately show ?case using Cons.IH [of "reg @ [(pf_interface_id p, p)]"] Cons.prems by (simp add: register_def)
qed simp

text \<open>The default registry is built without a clash, and every specified skill selects the agent specified for it.\<close>

lemma default_registry:
  "build_default_registry base_url =
     Inr (map (\<lambda>p. (pf_interface_id p, p)) (map (specified_profile base_url) specifications))"
  unfolding build_default_registry_def
  by (subst register_all_distinct) (simp_all add: specifications_def specified_profile_def)

lemma default_skill:
  assumes "build_default_registry base_url = Inr reg" and "p \<in> set (map (specified_profile base_url) specifications)"
  shows "select_for_skill reg (pf_skill_id p) = Inr p" "get_profile reg (pf_interface_id p) = Inr p"
  using assms
  by (auto simp: default_registry select_for_skill_def get_profile_def specifications_def specified_profile_def)

end
