(* ===== verification/A2A_Task_Store.thy ===== *)
theory A2A_Task_Store
  imports Lease_Contract A2A_Models
begin

text \<open>
  The A2A Task store, \<^verbatim>\<open>agent/travel_agent/a2a/store.py\<close>: inbox deduplication by dispatch,
  compare-and-set replacement and fenced execution leases of \<^verbatim>\<open>InMemoryAgentTaskStore\<close>.
  Cloning is the identity on values. Every operation runs under the store's condition lock.
\<close>

section \<open>Records\<close>

record VersionedEvent =
  ve_version :: int
  ve_event :: task_event

record TaskRecord =
  tr_tenant_id :: string
  tr_actor_id :: string
  tr_agent_interface_id :: string
  tr_run_id :: string
  tr_dispatch_id :: string
  tr_request_fingerprint :: string
  tr_task :: Task
  tr_invocation :: AgentInvocation
  tr_deadline :: instant
  tr_reference_task_ids :: "string list"
  tr_version :: int
  tr_created_at :: "instant option"
  tr_updated_at :: "instant option"
  tr_pending_input_request_id :: "string option"
  tr_execution_input :: "InputResponse option"
  tr_message_fingerprints :: "(string, string) dict"
  tr_events :: "VersionedEvent list"

datatype task_store_error =
  TaskMissing | TaskVersionConflict | TaskExecutionLeaseLost | DispatchConflict | TaskKeyError

type_synonym task_key = "string \<times> string \<times> string"

record TaskExecutionLease =
  tl_tenant_id :: string
  tl_agent_interface_id :: string
  tl_task_id :: string
  tl_owner :: string
  tl_attempt :: int
  tl_lease_until :: instant

record task_store =
  ts_records :: "(task_key, TaskRecord) dict"
  ts_dispatch_index :: "(task_key, task_key) dict"
  ts_execution_leases :: "(task_key, TaskExecutionLease) dict"
  ts_execution_attempts :: "(task_key, int) dict"

type_synonym 'a task_op = "(task_store, task_store_error, 'a) eff"

definition empty_task_store :: task_store where
  "empty_task_store = \<lparr>ts_records = [], ts_dispatch_index = [], ts_execution_leases = [],
     ts_execution_attempts = []\<rparr>"

section \<open>Operations\<close>

definition record_key :: "TaskRecord \<Rightarrow> task_key" where
  "record_key r = (tr_tenant_id r, tr_agent_interface_id r, tk_id (tr_task r))"

definition dispatch_key :: "TaskRecord \<Rightarrow> task_key" where
  "dispatch_key r = (tr_tenant_id r, tr_agent_interface_id r, tr_dispatch_id r)"

definition lease_key :: "TaskExecutionLease \<Rightarrow> task_key" where
  "lease_key l = (tl_tenant_id l, tl_agent_interface_id l, tl_task_id l)"

definition create_or_get :: "TaskRecord \<Rightarrow> (TaskRecord \<times> bool) task_op" where
  "create_or_get r s =
     (case dget (ts_dispatch_index s) (dispatch_key r) of
        Some existing_key \<Rightarrow>
          (case dget (ts_records s) existing_key of
             None \<Rightarrow> (Inl TaskKeyError, s)
           | Some existing \<Rightarrow>
               if tr_request_fingerprint existing \<noteq> tr_request_fingerprint r
               then (Inl DispatchConflict, s)
               else (Inr (existing, False), s))
      | None \<Rightarrow>
          if dget (ts_records s) (record_key r) \<noteq> None then (Inl DispatchConflict, s)
          else (Inr (r, True),
                s\<lparr>ts_records := dset (record_key r) r (ts_records s),
                  ts_dispatch_index := dset (dispatch_key r) (record_key r) (ts_dispatch_index s)\<rparr>))"

definition get_task :: "string \<Rightarrow> string \<Rightarrow> string \<Rightarrow> TaskRecord task_op" where
  "get_task tenant iface task_id = elift (\<lambda>s.
     case dget (ts_records s) (tenant, iface, task_id) of None \<Rightarrow> Inl TaskMissing | Some r \<Rightarrow> Inr r)"

definition get_by_dispatch :: "string \<Rightarrow> string \<Rightarrow> string \<Rightarrow> TaskRecord task_op" where
  "get_by_dispatch tenant iface dispatch_id = elift (\<lambda>s.
     case dget (ts_dispatch_index s) (tenant, iface, dispatch_id) of
       None \<Rightarrow> Inl TaskMissing
     | Some key \<Rightarrow> (case dget (ts_records s) key of None \<Rightarrow> Inl TaskMissing | Some r \<Rightarrow> Inr r))"

definition task_active :: "TaskRecord \<Rightarrow> bool" where
  "task_active r \<longleftrightarrow> tk_state (tr_task r) \<in> {1, 2}"

definition lease_current :: "task_store \<Rightarrow> task_key \<Rightarrow> TaskExecutionLease \<Rightarrow> instant \<Rightarrow> bool" where
  "lease_current s key l now \<longleftrightarrow>
     (case dget (ts_execution_leases s) key of
        None \<Rightarrow> False
      | Some active \<Rightarrow> tl_owner active = tl_owner l \<and> tl_attempt active = tl_attempt l \<and>
                       \<not> tl_lease_until active \<le> now)"

definition replace_task ::
    "TaskRecord \<Rightarrow> int \<Rightarrow> TaskExecutionLease option \<Rightarrow> instant \<Rightarrow> TaskRecord task_op" where
  "replace_task r expected lease now s =
     (let key = record_key r in
      case dget (ts_records s) key of
        None \<Rightarrow> (Inl TaskMissing, s)
      | Some current \<Rightarrow>
          if (case lease of None \<Rightarrow> False | Some l \<Rightarrow> \<not> lease_current s key l now)
          then (Inl TaskExecutionLeaseLost, s)
          else if tr_version current \<noteq> expected \<or> tr_version r \<noteq> expected + 1
          then (Inl TaskVersionConflict, s)
          else
            let s1 = s\<lparr>ts_records := dset key r (ts_records s)\<rparr>;
                s2 = (if task_active r then s1
                      else s1\<lparr>ts_execution_leases := dpop key (ts_execution_leases s1)\<rparr>)
            in (Inr r, s2))"

text \<open>Durations are microseconds: \<^verbatim>\<open>max(0.05, lease_seconds)\<close>.\<close>

definition claim_execution ::
    "string \<Rightarrow> string \<Rightarrow> string \<Rightarrow> string \<Rightarrow> int \<Rightarrow> instant \<Rightarrow> TaskExecutionLease option task_op" where
  "claim_execution tenant iface task_id owner lease_us now s =
     (let key = (tenant, iface, task_id) in
      case dget (ts_records s) key of
        None \<Rightarrow> (Inl TaskMissing, s)
      | Some r \<Rightarrow>
          if \<not> task_active r then (Inr None, s)
          else if (case dget (ts_execution_leases s) key of
                     None \<Rightarrow> False | Some active \<Rightarrow> tl_lease_until active > now)
          then (Inr None, s)
          else
            let attempt = (case dget (ts_execution_attempts s) key of None \<Rightarrow> 0 | Some n \<Rightarrow> n) + 1;
                lease = \<lparr>tl_tenant_id = tenant, tl_agent_interface_id = iface, tl_task_id = task_id,
                         tl_owner = owner, tl_attempt = attempt,
                         tl_lease_until = now + max 50000 lease_us\<rparr>
            in (Inr (Some lease),
                s\<lparr>ts_execution_attempts := dset key attempt (ts_execution_attempts s),
                  ts_execution_leases := dset key lease (ts_execution_leases s)\<rparr>))"

definition renew_execution ::
    "TaskExecutionLease \<Rightarrow> int \<Rightarrow> instant \<Rightarrow> TaskExecutionLease option task_op" where
  "renew_execution l lease_us now s =
     (let key = lease_key l in
      case dget (ts_records s) key of
        None \<Rightarrow> (Inr None, s)
      | Some r \<Rightarrow>
          if \<not> task_active r then (Inr None, s)
          else (case dget (ts_execution_leases s) key of
                  None \<Rightarrow> (Inr None, s)
                | Some active \<Rightarrow>
                    if tl_owner active \<noteq> tl_owner l \<or> tl_attempt active \<noteq> tl_attempt l \<or>
                       tl_lease_until active \<le> now
                    then (Inr None, s)
                    else
                      let renewed = active\<lparr>tl_lease_until := now + max 50000 lease_us\<rparr>
                      in (Inr (Some renewed),
                          s\<lparr>ts_execution_leases := dset key renewed (ts_execution_leases s)\<rparr>)))"

definition release_execution :: "TaskExecutionLease \<Rightarrow> unit task_op" where
  "release_execution l s =
     (let key = lease_key l in
      case dget (ts_execution_leases s) key of
        None \<Rightarrow> (Inr (), s)
      | Some active \<Rightarrow>
          if tl_owner active = tl_owner l \<and> tl_attempt active = tl_attempt l
          then (Inr (), s\<lparr>ts_execution_leases := dpop key (ts_execution_leases s)\<rparr>)
          else (Inr (), s))"

definition record_order :: "TaskRecord \<Rightarrow> instant \<times> string" where
  "record_order r =
     (case tr_created_at r of None \<Rightarrow> tr_deadline r | Some t \<Rightarrow> t, tk_id (tr_task r))"

definition list_tasks ::
    "task_store \<Rightarrow> string \<Rightarrow> string \<Rightarrow> string option \<Rightarrow> int option \<Rightarrow> TaskRecord list" where
  "list_tasks s tenant iface context_id state =
     sort_key record_order (map snd (filter (\<lambda>((t, i, _), r). t = tenant \<and> i = iface \<and>
        (case context_id of None \<Rightarrow> True | Some c \<Rightarrow> tk_context_id (tr_task r) = c) \<and>
        (case state of None \<Rightarrow> True | Some x \<Rightarrow> tk_state (tr_task r) = x)) (ts_records s)))"

definition list_for_run :: "task_store \<Rightarrow> string \<Rightarrow> string \<Rightarrow> TaskRecord list" where
  "list_for_run s tenant run_id =
     sort_key record_order (map snd (filter (\<lambda>((t, _, _), r). t = tenant \<and> tr_run_id r = run_id)
        (ts_records s)))"

text \<open>The predicate \<open>wait_for_change\<close> waits for, and what it answers: nothing when the waiting timed out.\<close>

definition task_changed :: "task_store \<Rightarrow> task_key \<Rightarrow> int \<Rightarrow> bool" where
  "task_changed s key after =
     (case dget (ts_records s) key of None \<Rightarrow> True | Some r \<Rightarrow> tr_version r > after)"

definition wait_for_change :: "string \<Rightarrow> string \<Rightarrow> string \<Rightarrow> int \<Rightarrow> TaskRecord option task_op" where
  "wait_for_change tenant iface task_id after = elift (\<lambda>s.
     if \<not> task_changed s (tenant, iface, task_id) after then Inr None
     else case dget (ts_records s) (tenant, iface, task_id) of None \<Rightarrow> Inl TaskMissing | Some r \<Rightarrow> Inr (Some r))"

section \<open>Steps and invariant\<close>

inductive task_step :: "task_store \<Rightarrow> task_store \<Rightarrow> bool" where
  create_or_get: "task_step s (snd (create_or_get r s))"
| replace_task: "task_step s (snd (replace_task r e lo now s))"
| claim_execution: "task_step s (snd (claim_execution tn ifc tid ow us now s))"
| renew_execution: "task_step s (snd (renew_execution l us now s))"
| release_execution: "task_step s (snd (release_execution l s))"

definition task_inv :: "task_store \<Rightarrow> bool" where
  "task_inv s \<longleftrightarrow>
     (\<forall>k r. dget (ts_records s) k = Some r \<longrightarrow> record_key r = k) \<and>
     (\<forall>d k. dget (ts_dispatch_index s) d = Some k \<longrightarrow>
        dget (ts_records s) k \<noteq> None \<and> fst d = fst k \<and> fst (snd d) = fst (snd k)) \<and>
     (\<forall>k l. dget (ts_execution_leases s) k = Some l \<longrightarrow> lease_key l = k \<and>
        dget (ts_execution_attempts s) k = Some (tl_attempt l)) \<and>
     (\<forall>k l. dget (ts_execution_leases s) k = Some l \<longrightarrow>
        (\<exists>r. dget (ts_records s) k = Some r \<and> task_active r))"

lemma task_inv_empty [simp]: "task_inv empty_task_store"
  by (simp add: task_inv_def empty_task_store_def)

lemma create_or_get_cases:
  assumes "create_or_get r s = (res, s')"
  obtains (unchanged) "s' = s" "\<And>x. res \<noteq> Inr (x, True)"
  | (created) "dget (ts_dispatch_index s) (dispatch_key r) = None"
      "dget (ts_records s) (record_key r) = None" "res = Inr (r, True)"
      "s' = s\<lparr>ts_records := dset (record_key r) r (ts_records s),
             ts_dispatch_index := dset (dispatch_key r) (record_key r) (ts_dispatch_index s)\<rparr>"
  using assms
  by (cases "dget (ts_dispatch_index s) (dispatch_key r)")
    (auto simp: create_or_get_def split: option.splits if_splits)

lemma replace_task_cases:
  assumes "replace_task r e lo now s = (res, s')"
  obtains (refused) x where "res = Inl x" "s' = s"
  | (replaced) cur where "dget (ts_records s) (record_key r) = Some cur"
      "\<And>l. lo = Some l \<Longrightarrow> lease_current s (record_key r) l now"
      "tr_version cur = e" "tr_version r = e + 1" "res = Inr r"
      "s' = s\<lparr>ts_records := dset (record_key r) r (ts_records s),
             ts_execution_leases := (if task_active r then ts_execution_leases s
               else dpop (record_key r) (ts_execution_leases s))\<rparr>"
proof (cases "dget (ts_records s) (record_key r)")
  case None
  with assms refused show ?thesis by (auto simp: replace_task_def)
next
  case (Some cur)
  let ?lost = "case lo of None \<Rightarrow> False | Some l \<Rightarrow> \<not> lease_current s (record_key r) l now"
  show ?thesis
  proof (cases "\<not> ?lost \<and> tr_version cur = e \<and> tr_version r = e + 1")
    case True
    show ?thesis
      by (rule replaced [OF Some]) (use assms Some True in \<open>auto simp: replace_task_def Let_def\<close>)
  next
    case False
    with assms Some have "\<exists>x. res = Inl x \<and> s' = s" by (auto simp: replace_task_def Let_def split: if_splits)
    with refused show ?thesis by blast
  qed
qed

lemma claim_execution_cases:
  assumes "claim_execution tn ifc tid ow us now s = (res, s')"
  obtains (none) "s' = s" "\<And>l. res \<noteq> Inr (Some l)"
  | (claimed) r att where "dget (ts_records s) (tn, ifc, tid) = Some r" "task_active r"
      "\<And>l. dget (ts_execution_leases s) (tn, ifc, tid) = Some l \<Longrightarrow> tl_lease_until l \<le> now"
      "att = (case dget (ts_execution_attempts s) (tn, ifc, tid) of None \<Rightarrow> 0 | Some n \<Rightarrow> n) + 1"
      "res = Inr (Some \<lparr>tl_tenant_id = tn, tl_agent_interface_id = ifc, tl_task_id = tid,
                        tl_owner = ow, tl_attempt = att, tl_lease_until = now + max 50000 us\<rparr>)"
      "s' = s\<lparr>ts_execution_attempts := dset (tn, ifc, tid) att (ts_execution_attempts s),
             ts_execution_leases := dset (tn, ifc, tid)
               \<lparr>tl_tenant_id = tn, tl_agent_interface_id = ifc, tl_task_id = tid, tl_owner = ow,
                tl_attempt = att, tl_lease_until = now + max 50000 us\<rparr> (ts_execution_leases s)\<rparr>"
proof (cases "dget (ts_records s) (tn, ifc, tid)")
  case None
  with assms none show ?thesis by (auto simp: claim_execution_def)
next
  case (Some r)
  let ?held = "case dget (ts_execution_leases s) (tn, ifc, tid) of None \<Rightarrow> False
    | Some l \<Rightarrow> tl_lease_until l > now"
  show ?thesis
  proof (cases "task_active r \<and> \<not> ?held")
    case True
    show ?thesis
      by (rule claimed [OF Some]) (use assms Some True in \<open>auto simp: claim_execution_def Let_def\<close>)
  next
    case False
    with assms Some have "s' = s \<and> res = Inr None" by (auto simp: claim_execution_def Let_def split: if_splits)
    with none show ?thesis by blast
  qed
qed

lemma renew_execution_cases:
  assumes "renew_execution l us now s = (res, s')"
  obtains (none) "s' = s" "res = Inr None"
  | (renewed) r active where "dget (ts_records s) (lease_key l) = Some r" "task_active r"
      "dget (ts_execution_leases s) (lease_key l) = Some active" "tl_owner active = tl_owner l"
      "tl_attempt active = tl_attempt l" "now < tl_lease_until active"
      "res = Inr (Some (active\<lparr>tl_lease_until := now + max 50000 us\<rparr>))"
      "s' = s\<lparr>ts_execution_leases := dset (lease_key l)
               (active\<lparr>tl_lease_until := now + max 50000 us\<rparr>) (ts_execution_leases s)\<rparr>"
proof (cases "\<exists>r active. dget (ts_records s) (lease_key l) = Some r \<and> task_active r \<and>
    dget (ts_execution_leases s) (lease_key l) = Some active \<and> tl_owner active = tl_owner l \<and>
    tl_attempt active = tl_attempt l \<and> now < tl_lease_until active")
  case True
  then obtain r active where a: "dget (ts_records s) (lease_key l) = Some r" "task_active r"
    "dget (ts_execution_leases s) (lease_key l) = Some active" "tl_owner active = tl_owner l"
    "tl_attempt active = tl_attempt l" "now < tl_lease_until active" by blast
  show ?thesis
    by (rule renewed [OF a]) (use assms a in \<open>simp_all add: renew_execution_def Let_def\<close>)
next
  case False
  with assms have "s' = s \<and> res = Inr None"
    by (auto simp: renew_execution_def Let_def split: option.splits if_splits)
  with none show ?thesis by blast
qed

lemma release_execution_cases:
  "snd (release_execution l s) = s \<or>
   snd (release_execution l s) = s\<lparr>ts_execution_leases := dpop (lease_key l) (ts_execution_leases s)\<rparr>"
  by (simp add: release_execution_def Let_def split: option.split)

lemma task_inv_records:
  assumes inv: "task_inv s" and new: "dget (ts_records s) (record_key r) = None"
  shows "task_inv (s\<lparr>ts_records := dset (record_key r) r (ts_records s),
               ts_dispatch_index := dset (dispatch_key r) (record_key r) (ts_dispatch_index s)\<rparr>)"
proof -
  have nl: "k \<noteq> record_key r" if "dget (ts_execution_leases s) k = Some l" for k l
  proof -
    from inv that have "\<exists>x. dget (ts_records s) k = Some x \<and> task_active x"
      unfolding task_inv_def by blast
    with new show ?thesis by auto
  qed
  have key: "fst (dispatch_key r) = fst (record_key r)" "fst (snd (dispatch_key r)) = fst (snd (record_key r))"
    by (simp_all add: record_key_def dispatch_key_def)
  show ?thesis
    using inv nl key unfolding task_inv_def by (auto simp del: split_paired_All split_paired_Ex)
qed

lemma task_inv_replace:
  "task_inv s \<Longrightarrow> dget (ts_records s) (record_key r) = Some cur \<Longrightarrow>
   task_inv (s\<lparr>ts_records := dset (record_key r) r (ts_records s),
               ts_execution_leases := (if task_active r then ts_execution_leases s
                 else dpop (record_key r) (ts_execution_leases s))\<rparr>)"
  unfolding task_inv_def by (auto split: if_splits)

lemma task_step_inv: "task_step s s' \<Longrightarrow> task_inv s \<Longrightarrow> task_inv s'"
proof (induction rule: task_step.induct)
  case (create_or_get s r)
  obtain res s' where c: "create_or_get r s = (res, s')" by force
  then have "task_inv s'"
    by (cases rule: create_or_get_cases) (use create_or_get in \<open>simp_all add: task_inv_records\<close>)
  with c show ?case by simp
next
  case (replace_task s r e lo now)
  obtain res s' where c: "replace_task r e lo now s = (res, s')" by force
  then have "task_inv s'"
  proof (cases rule: replace_task_cases)
    case (replaced cur)
    from task_inv_replace [OF replace_task replaced(1)] show ?thesis by (simp add: replaced(6))
  qed (simp add: replace_task)
  with c show ?case by simp
next
  case (claim_execution s tn ifc tid ow us now)
  obtain res s' where c: "claim_execution tn ifc tid ow us now s = (res, s')" by force
  then have "task_inv s'"
  proof (cases rule: claim_execution_cases)
    case (claimed r att)
    with claim_execution show ?thesis unfolding task_inv_def by (auto simp: lease_key_def)
  qed (simp add: claim_execution)
  with c show ?case by simp
next
  case (renew_execution s l us now)
  obtain res s' where c: "renew_execution l us now s = (res, s')" by force
  then have "task_inv s'"
  proof (cases rule: renew_execution_cases)
    case (renewed r active)
    from renew_execution renewed(3) have "lease_key active = lease_key l"
      "dget (ts_execution_attempts s) (lease_key l) = Some (tl_attempt active)"
      unfolding task_inv_def by blast+
    with renew_execution renewed(1,2,8) show ?thesis
      unfolding task_inv_def by (auto simp: lease_key_def)
  qed (simp add: renew_execution)
  with c show ?case by simp
next
  case (release_execution s l)
  have "task_inv (s\<lparr>ts_execution_leases := dpop (lease_key l) (ts_execution_leases s)\<rparr>)"
    using release_execution unfolding task_inv_def by auto
  with release_execution_cases [of l s] release_execution show ?case by auto
qed

section \<open>The store keeps the shared contracts\<close>

definition task_holder :: "task_store \<Rightarrow> task_key \<Rightarrow> (string \<times> int \<times> instant) option" where
  "task_holder s k =
     map_option (\<lambda>l. (tl_owner l, tl_attempt l, tl_lease_until l)) (dget (ts_execution_leases s) k)"

definition task_attempts :: "task_store \<Rightarrow> task_key \<Rightarrow> int" where
  "task_attempts s k = (case dget (ts_execution_attempts s) k of None \<Rightarrow> 0 | Some n \<Rightarrow> n)"

definition task_version :: "task_store \<Rightarrow> task_key \<Rightarrow> int option" where
  "task_version s k = map_option tr_version (dget (ts_records s) k)"

text \<open>What one step does to leases, attempts, versions and the dispatch index.\<close>

definition task_progress :: "task_store \<Rightarrow> task_store \<Rightarrow> bool" where
  "task_progress s s' \<longleftrightarrow>
     (\<forall>k w a u. task_holder s' k = Some (w, a, u) \<longrightarrow>
        (\<exists>u0. task_holder s k = Some (w, a, u0)) \<or> a = task_attempts s k + 1) \<and>
     (\<forall>k. task_attempts s k \<le> task_attempts s' k) \<and>
     (\<forall>k v. task_version s k = Some v \<longrightarrow> (\<exists>v'. task_version s' k = Some v' \<and> v \<le> v')) \<and>
     (\<forall>d k. dget (ts_dispatch_index s) d = Some k \<longrightarrow> dget (ts_dispatch_index s') d = Some k)"

lemma task_progress_refl [simp]: "task_progress s s"
  by (auto simp: task_progress_def)

lemma task_progress_leases:
  assumes "ts_records s' = ts_records s" and "ts_dispatch_index s' = ts_dispatch_index s"
    and "\<And>k. task_attempts s k \<le> task_attempts s' k"
    and "\<And>k w a u. task_holder s' k = Some (w, a, u) \<Longrightarrow>
        (\<exists>u0. task_holder s k = Some (w, a, u0)) \<or> a = task_attempts s k + 1"
  shows "task_progress s s'"
  using assms by (auto simp: task_progress_def task_version_def)

lemma replace_progress: "task_progress s (snd (replace_task r e lo now s))"
proof -
  obtain res s' where c: "replace_task r e lo now s = (res, s')" by force
  then have "task_progress s s'"
  proof (cases rule: replace_task_cases)
    case (replaced cur)
    have "\<exists>v'. task_version s' k = Some v' \<and> v \<le> v'" if "task_version s k = Some v" for k v
      using that replaced(1,3,4) by (auto simp: task_version_def replaced(6))
    moreover have "\<exists>u0. task_holder s k = Some (w, a, u0)" if "task_holder s' k = Some (w, a, u)" for k w a u
      using that by (auto simp: task_holder_def replaced(6) split: if_splits)
    moreover have "task_attempts s' = task_attempts s" "ts_dispatch_index s' = ts_dispatch_index s"
      by (auto simp: task_attempts_def replaced(6))
    ultimately show ?thesis by (auto simp: task_progress_def)
  qed simp
  with c show ?thesis by simp
qed

lemma create_progress: "task_progress s (snd (create_or_get r s))"
proof -
  obtain res s' where c: "create_or_get r s = (res, s')" by force
  then have "task_progress s s'"
    by (cases rule: create_or_get_cases)
      (auto simp: task_progress_def task_holder_def task_attempts_def task_version_def)
  with c show ?thesis by simp
qed

lemma task_step_progress: "task_step s s' \<Longrightarrow> task_progress s s'"
proof (induction rule: task_step.induct)
  case (claim_execution s tn ifc tid ow us now)
  obtain res s' where c: "claim_execution tn ifc tid ow us now s = (res, s')" by force
  then have "task_progress s s'"
  proof (cases rule: claim_execution_cases)
    case (claimed r att)
    have att: "att = task_attempts s (tn, ifc, tid) + 1" by (simp add: claimed(4) task_attempts_def)
    show ?thesis
    proof (rule task_progress_leases)
      show "task_attempts s k \<le> task_attempts s' k" for k
        using att by (simp add: claimed(6) task_attempts_def)
      show "(\<exists>u0. task_holder s k = Some (w, a, u0)) \<or> a = task_attempts s k + 1"
        if "task_holder s' k = Some (w, a, u)" for k w a u
        using that att by (auto simp: claimed(6) task_holder_def split: if_splits)
    qed (simp_all add: claimed(6))
  qed simp
  with c show ?case by simp
next
  case (renew_execution s l us now)
  obtain res s' where c: "renew_execution l us now s = (res, s')" by force
  then have "task_progress s s'"
  proof (cases rule: renew_execution_cases)
    case (renewed r active)
    show ?thesis
      by (rule task_progress_leases)
        (use renewed(3) in \<open>auto simp: renewed(8) task_holder_def task_attempts_def split: if_splits\<close>)
  qed simp
  with c show ?case by simp
next
  case (release_execution s l)
  have "task_progress s (s\<lparr>ts_execution_leases := dpop (lease_key l) (ts_execution_leases s)\<rparr>)"
    by (rule task_progress_leases) (auto simp: task_holder_def task_attempts_def split: if_splits)
  with release_execution_cases [of l s] show ?case by auto
qed (simp_all add: replace_progress create_progress)

interpretation task_lease: fenced_lease task_inv task_step task_holder task_attempts
proof
  fix s s' k w a u
  assume inv: "task_inv s"
  show "a \<le> task_attempts s k" if h: "task_holder s k = Some (w, a, u)"
  proof -
    from h obtain l where "dget (ts_execution_leases s) k = Some l" "tl_attempt l = a"
      by (auto simp: task_holder_def)
    with inv have "dget (ts_execution_attempts s) k = Some a" unfolding task_inv_def by blast
    then show ?thesis by (simp add: task_attempts_def)
  qed
  assume st: "task_step s s'"
  show "task_inv s'" by (rule task_step_inv [OF st inv])
  note progress = task_step_progress [OF st, unfolded task_progress_def]
  show "task_attempts s k \<le> task_attempts s' k" using progress by blast
  show "(\<exists>u0. task_holder s k = Some (w, a, u0)) \<or> a = task_attempts s k + 1"
    if "task_holder s' k = Some (w, a, u)" using progress that by blast
qed

definition task_cas :: "task_key \<Rightarrow> int \<Rightarrow> task_store \<Rightarrow> task_store \<Rightarrow> bool" where
  "task_cas k e s s' \<longleftrightarrow>
     (\<exists>r lo now x. record_key r = k \<and> replace_task r e lo now s = (Inr x, s'))"

interpretation task_versions: versioned_cas task_inv task_step task_version task_cas
proof
  fix s s' k v e
  assume inv: "task_inv s"
  show "task_inv s'" if "task_step s s'" by (rule task_step_inv [OF that inv])
  show "\<exists>v'. task_version s' k = Some v' \<and> v \<le> v'" if "task_step s s'" "task_version s k = Some v"
    using task_step_progress [OF that(1)] that(2) unfolding task_progress_def by blast
  assume "task_cas k e s s'"
  then obtain r lo now x where k: "record_key r = k" and c: "replace_task r e lo now s = (Inr x, s')"
    unfolding task_cas_def by blast
  show "task_step s s'" using task_step.replace_task [of s r e lo now] c by simp
  from c show "task_version s k = Some e \<and> task_version s' k = Some (e + 1)"
    by (cases rule: replace_task_cases) (auto simp: task_version_def k)
qed

section \<open>Properties\<close>

inductive task_reachable :: "task_store \<Rightarrow> bool" where
  initial: "task_reachable empty_task_store"
| step: "task_reachable s \<Longrightarrow> task_step s s' \<Longrightarrow> task_reachable s'"

lemma task_reachable_inv: "task_reachable s \<Longrightarrow> task_inv s"
  by (induction rule: task_reachable.induct) (auto intro: task_step_inv)

lemma task_steps_dispatch:
  "task_step\<^sup>*\<^sup>* s s' \<Longrightarrow> dget (ts_dispatch_index s) d = Some k \<Longrightarrow> dget (ts_dispatch_index s') d = Some k"
proof (induction rule: rtranclp_induct)
  case (step y z)
  with task_step_progress [OF step.hyps(2)] show ?case unfolding task_progress_def by blast
qed simp

definition demo_task :: TaskRecord where
  "demo_task = \<lparr>tr_tenant_id = ''t1'', tr_actor_id = ''alice'', tr_agent_interface_id = ''planner'',
     tr_run_id = ''run1'', tr_dispatch_id = ''d1'', tr_request_fingerprint = ''f1'',
     tr_task = \<lparr>tk_id = ''task1'', tk_context_id = ''c'',
       tk_status = \<lparr>ts_state = 1, ts_timestamp = 0, ts_message = None\<rparr>, tk_artifacts = [], tk_history = [], tk_metadata = []\<rparr>,
     tr_invocation = \<lparr>nv_goal = ''plan'', nv_artifacts = [\<lparr>ai_contract = ''TripBrief@1'', ai_payload = []\<rparr>], nv_options = []\<rparr>, tr_deadline = 1000, tr_reference_task_ids = [], tr_version = 1,
     tr_created_at = None, tr_updated_at = None, tr_pending_input_request_id = None,
     tr_execution_input = None, tr_message_fingerprints = [], tr_events = []\<rparr>"

definition tasks1 :: task_store where
  "tasks1 = snd (create_or_get demo_task empty_task_store)"

definition tasks2 :: task_store where
  "tasks2 = snd (claim_execution ''t1'' ''planner'' ''task1'' ''w1'' 1000000 10 tasks1)"

definition tasks3 :: task_store where
  "tasks3 = snd (claim_execution ''t1'' ''planner'' ''task1'' ''w2'' 1000000 2000000 tasks2)"

lemma tasks_reachable: "task_reachable tasks1" "task_reachable tasks2" "task_reachable tasks3"
proof -
  show 1: "task_reachable tasks1"
    unfolding tasks1_def by (intro task_reachable.step [OF task_reachable.initial] task_step.create_or_get)
  show 2: "task_reachable tasks2"
    unfolding tasks2_def by (intro task_reachable.step [OF 1] task_step.claim_execution)
  show "task_reachable tasks3"
    unfolding tasks3_def by (intro task_reachable.step [OF 2] task_step.claim_execution)
qed

text \<open>
  C30. One Task per dispatch: once a dispatch identifier has created a Task, every later
  \<open>create_or_get\<close> with that dispatch, under any interleaving of store operations, changes nothing:
  it returns the existing Task when the request fingerprint agrees and raises DispatchConflict
  otherwise.
\<close>

theorem dispatch_creates_one_task:
  assumes s: "task_reachable s" and c: "create_or_get r s = (Inr (x, True), s1)"
    and later: "task_step\<^sup>*\<^sup>* s1 s2" and same: "dispatch_key r2 = dispatch_key r"
  shows "\<exists>cur. dget (ts_records s2) (record_key r) = Some cur \<and>
           create_or_get r2 s2 =
             (if tr_request_fingerprint cur = tr_request_fingerprint r2 then Inr (cur, False)
              else Inl DispatchConflict, s2)"
proof -
  from c have d1: "dget (ts_dispatch_index s1) (dispatch_key r) = Some (record_key r)"
    by (cases rule: create_or_get_cases) auto
  have d2: "dget (ts_dispatch_index s2) (dispatch_key r) = Some (record_key r)"
    by (rule task_steps_dispatch [OF later d1])
  have "task_inv s1" using task_step_inv [OF task_step.create_or_get [of s r] task_reachable_inv [OF s]] c
    by simp
  with later have "task_inv s2" using task_lease.wf_steps by blast
  with d2 obtain cur where "dget (ts_records s2) (record_key r) = Some cur"
    unfolding task_inv_def by blast
  with d2 same show ?thesis by (simp add: create_or_get_def)
qed

theorem dispatch_creates_one_task_witness:
  "\<exists>cur. create_or_get demo_task tasks3 =
     (if tr_request_fingerprint cur = tr_request_fingerprint demo_task then Inr (cur, False)
      else Inl DispatchConflict, tasks3)"
proof -
  have "fst (create_or_get demo_task empty_task_store) = Inr (demo_task, True)" by code_simp
  then have c: "create_or_get demo_task empty_task_store = (Inr (demo_task, True), tasks1)"
    by (simp add: tasks1_def prod_eq_iff)
  have "task_step\<^sup>*\<^sup>* tasks1 tasks3"
    unfolding tasks3_def tasks2_def
    by (meson r_into_rtranclp rtranclp.rtrancl_into_rtrancl task_step.claim_execution)
  from dispatch_creates_one_task [OF task_reachable.initial c this refl] show ?thesis by blast
qed

text \<open>
  A superseded Task executor cannot write: once the execution lease of a Task carries a
  higher attempt, every later replacement made with a lease of a smaller attempt fails and leaves
  the store as it was, and every renewal with it returns no lease.
\<close>

theorem fenced_executor_cannot_replace:
  assumes s: "task_reachable s" and h: "task_holder s (record_key r) = Some (w, a, u)"
    and old: "tl_attempt l < a" and later: "task_step\<^sup>*\<^sup>* s s'" and k: "lease_key l = record_key r"
  shows "(\<exists>e. replace_task r expected (Some l) now s' = (Inl e, s')) \<and>
         renew_execution l us now s' = (Inr None, s')"
proof -
  have "task_holder s' (record_key r) \<noteq> Some (w', tl_attempt l, u')" for w' u'
    by (rule task_lease.superseded_forever [OF later task_reachable_inv [OF s] h old])
  then have st: "tl_attempt act \<noteq> tl_attempt l" if "dget (ts_execution_leases s') (record_key r) = Some act" for act
    using that by (auto simp: task_holder_def)
  have "\<not> lease_current s' (record_key r) l now"
    using st by (auto simp: lease_current_def split: option.split)
  then have "\<exists>e. replace_task r expected (Some l) now s' = (Inl e, s')"
    by (cases "dget (ts_records s') (record_key r)") (simp_all add: replace_task_def Let_def)
  moreover have "renew_execution l us now s' = (Inr None, s')"
    using st by (auto simp: renew_execution_def Let_def k split: option.split)
  ultimately show ?thesis by blast
qed

theorem fenced_executor_cannot_replace_witness:
  "\<exists>e. replace_task demo_task 0 (Some \<lparr>tl_tenant_id = ''t1'', tl_agent_interface_id = ''planner'',
      tl_task_id = ''task1'', tl_owner = ''w1'', tl_attempt = 1, tl_lease_until = 1000010\<rparr>) 2000001 tasks3 =
      (Inl e, tasks3)"
proof -
  let ?l = "\<lparr>tl_tenant_id = ''t1'', tl_agent_interface_id = ''planner'', tl_task_id = ''task1'',
    tl_owner = ''w1'', tl_attempt = 1, tl_lease_until = 1000010\<rparr>"
  have h: "task_holder tasks3 (record_key demo_task) = Some (''w2'', 2, 3000000)" by code_simp
  have k: "lease_key ?l = record_key demo_task" by code_simp
  from fenced_executor_cannot_replace [OF tasks_reachable(3) h _ rtranclp.rtrancl_refl k] show ?thesis by simp
qed

text \<open>
  No lost Task update: two replacements that expect the same version cannot both succeed,
  whatever happens between them.
\<close>

theorem task_update_not_lost:
  assumes s: "task_reachable s" and c: "replace_task r e lo now s = (Inr x, s1)"
    and later: "task_step\<^sup>*\<^sup>* s1 s2" and k: "record_key r2 = record_key r"
  shows "\<exists>err. replace_task r2 e lo2 now2 s2 = (Inl err, s2)"
proof -
  have "task_cas (record_key r) e s s1" using c unfolding task_cas_def by blast
  from task_versions.no_lost_update [OF task_reachable_inv [OF s] this later]
  have n: "\<not> task_cas (record_key r) e s2 s3" for s3 .
  obtain res s3 where c2: "replace_task r2 e lo2 now2 s2 = (res, s3)" by force
  then show ?thesis
  proof (cases rule: replace_task_cases)
    case (replaced cur)
    with n c2 k show ?thesis unfolding task_cas_def by blast
  qed (use c2 in simp)
qed

theorem task_update_not_lost_witness:
  "\<exists>err. replace_task (demo_task\<lparr>tr_version := 2\<rparr>) 1 None 20
     (snd (replace_task (demo_task\<lparr>tr_version := 2\<rparr>) 1 None 10 tasks1)) =
     (Inl err, snd (replace_task (demo_task\<lparr>tr_version := 2\<rparr>) 1 None 10 tasks1))"
proof -
  let ?c = "replace_task (demo_task\<lparr>tr_version := 2\<rparr>) 1 None 10 tasks1"
  have "\<not> isl (fst ?c)" by code_simp
  then obtain x where "?c = (Inr x, snd ?c)" by (cases ?c; cases "fst ?c") auto
  from task_update_not_lost [OF tasks_reachable(1) this rtranclp.rtrancl_refl refl] show ?thesis .
qed

end
