(* ===== verification/A2A_Service.thy ===== *)
theory A2A_Service
  imports A2A_Task_Store
begin

text \<open>
  The life cycle of agent Tasks, class \<open>TaskService\<close> of \<^verbatim>\<open>agent/travel_agent/a2a/service.py\<close>. Its coroutines suspend
  at store calls and while an executor runs. The world holds the Task store, the local jobs, a script of what happens
  at each suspension (what others did to the store and the jobs, and an exception thrown in there: a
  cancellation, a timeout, a failing connection), the number of clock and identifier draws, and, as a ghost, every
  store passed through. Executors, pydantic parsing, SHA-256 fingerprints, JSON sizes, page tokens and the validation of contracts
  are arguments. Messages of protocol errors are dropped.
\<close>

section \<open>Worlds\<close>

datatype agent_exc =
    TaskExc task_store_error
  | AgentCancelled
  | AgentTimeout
  | AgentError
  | InvalidParamsError
  | ContentTypeNotSupportedError
  | ExtensionSupportRequiredError
  | UnsupportedOperationError
  | TaskNotFoundError
  | TaskNotCancelableError
  | PushNotificationNotSupportedError
  | RegistryExc registry_error
  | PyTypeError
  | OutOfFuel

record agent_sys =
  as_clock :: "nat \<Rightarrow> instant"
  as_uuid :: "nat \<Rightarrow> string"
  as_iso :: "instant \<Rightarrow> string"
  as_fingerprint :: "Message \<Rightarrow> string"
  as_size :: "jobj \<Rightarrow> int"
  as_parse_dispatch :: "jobj \<Rightarrow> DispatchMetadata option"
  as_parse_part :: "jobj \<Rightarrow> StructuredPartMetadata option"
  as_parse_invocation :: "jobj \<Rightarrow> AgentInvocation option"
  as_parse_input :: "jobj \<Rightarrow> InputResponse option"
  as_decode_page :: "string \<Rightarrow> int option"
  as_encode_page :: "int \<Rightarrow> string"
  as_contract_valid :: "string \<Rightarrow> jobj \<Rightarrow> bool"
  as_registry :: agent_registry
  as_executor :: "string \<Rightarrow> AgentExecutionContext \<Rightarrow> AgentInvocation \<Rightarrow> InputResponse option \<Rightarrow> agent_exc + agent_result"
  as_service_id :: string
  as_lease_us :: int

text \<open>
  A local job is an asyncio task: its cancel token, whether it is done, and the launches that wait for it in its done
  callbacks. The table maps a Task to the number of its current job.
\<close>

record job =
  jb_key :: task_key
  jb_record :: TaskRecord
  jb_input :: "InputResponse option"
  jb_already_working :: bool
  jb_cancel :: bool
  jb_done :: bool
  jb_queue :: "(TaskRecord \<times> InputResponse option \<times> bool) list"

record job_table =
  jt_jobs :: "(task_key, nat) dict"
  jt_info :: "job list"

record agent_world =
  aw_store :: task_store
  aw_jobs :: job_table
  aw_env :: "(agent_exc option \<times> (task_store \<Rightarrow> task_store) \<times> (job_table \<Rightarrow> job_table)) list"
  aw_tick :: nat
  aw_trace :: "task_store list"

type_synonym 'a agent_co = "(agent_world, agent_exc, 'a) eff"

definition perform :: "agent_sys \<Rightarrow> (instant \<Rightarrow> 'a task_op) \<Rightarrow> 'a agent_co" where
  "perform sy op w =
     (case op (as_clock sy (aw_tick w)) (aw_store w) of
        (r, s') \<Rightarrow> ((case r of Inl e \<Rightarrow> Inl (TaskExc e) | Inr a \<Rightarrow> Inr a),
                    w\<lparr>aw_store := s', aw_tick := aw_tick w + 1, aw_trace := aw_trace w @ [s']\<rparr>))"

definition agent_call :: "agent_sys \<Rightarrow> (instant \<Rightarrow> 'a task_op) \<Rightarrow> 'a agent_co" where
  "agent_call sy op w =
     (case aw_env w of
        [] \<Rightarrow> perform sy op w
      | (x, f, g) # es \<Rightarrow>
          let w1 = w\<lparr>aw_store := f (aw_store w), aw_jobs := g (aw_jobs w), aw_env := es,
                     aw_trace := aw_trace w @ [f (aw_store w)]\<rparr>
          in (case x of Some e \<Rightarrow> (Inl e, w1) | None \<Rightarrow> perform sy op w1))"

definition utc_now :: "agent_sys \<Rightarrow> instant agent_co" where
  "utc_now sy w = (Inr (as_clock sy (aw_tick w)), w\<lparr>aw_tick := aw_tick w + 1\<rparr>)"

definition uuid4 :: "agent_sys \<Rightarrow> string agent_co" where
  "uuid4 sy w = (Inr (as_uuid sy (aw_tick w)), w\<lparr>aw_tick := aw_tick w + 1\<rparr>)"

abbreviation read_task :: "agent_sys \<Rightarrow> string \<Rightarrow> string \<Rightarrow> string \<Rightarrow> TaskRecord agent_co" where
  "read_task sy tenant iface task_id \<equiv> agent_call sy (\<lambda>_. get_task tenant iface task_id)"

abbreviation reread_task :: "agent_sys \<Rightarrow> TaskRecord \<Rightarrow> TaskRecord agent_co" where
  "reread_task sy r \<equiv> read_task sy (tr_tenant_id r) (tr_agent_interface_id r) (tk_id (tr_task r))"

definition find_profile :: "agent_sys \<Rightarrow> string \<Rightarrow> AgentProfile agent_co" where
  "find_profile sy i = (case get_profile (as_registry sy) i of Inl e \<Rightarrow> eraise (RegistryExc e) | Inr p \<Rightarrow> eret p)"

definition SETTLED_STATES :: "int set" where
  "SETTLED_STATES = {TASK_COMPLETED, TASK_FAILED, TASK_CANCELED, TASK_REJECTED, TASK_INPUT_REQUIRED, TASK_AUTH_REQUIRED}"

definition TERMINAL_STATES :: "int set" where
  "TERMINAL_STATES = {TASK_COMPLETED, TASK_FAILED, TASK_CANCELED, TASK_REJECTED}"

definition CANCELABLE_STATES :: "int set" where
  "CANCELABLE_STATES = {TASK_SUBMITTED, TASK_WORKING, TASK_INPUT_REQUIRED, TASK_AUTH_REQUIRED}"

abbreviation task_state :: "TaskRecord \<Rightarrow> int" where
  "task_state r \<equiv> tk_state (tr_task r)"

section \<open>Local jobs\<close>

definition launch :: "TaskRecord \<Rightarrow> InputResponse option \<Rightarrow> bool \<Rightarrow> job_table \<Rightarrow> job_table" where
  "launch r input_response already_working t =
     (if task_state r \<notin> {TASK_SUBMITTED, TASK_WORKING} then t
      else
        let start = t\<lparr>jt_jobs := dset (record_key r) (length (jt_info t)) (jt_jobs t),
              jt_info := jt_info t @ [\<lparr>jb_key = record_key r, jb_record = r, jb_input = input_response,
                jb_already_working = already_working, jb_cancel = False, jb_done = False, jb_queue = []\<rparr>]\<rparr>
        in case dget (jt_jobs t) (record_key r) of
             None \<Rightarrow> start
           | Some n \<Rightarrow>
               if jb_done (jt_info t ! n) then start
               else t\<lparr>jt_info := (jt_info t)[n := (jt_info t ! n)\<lparr>jb_queue :=
                      jb_queue (jt_info t ! n) @ [(r, input_response, already_working)]\<rparr>]\<rparr>)"

text \<open>The job ends; later the loop runs its done callbacks: the cleanup, then the queued launches.\<close>

definition job_ends :: "nat \<Rightarrow> job_table \<Rightarrow> job_table" where
  "job_ends n t = t\<lparr>jt_info := (jt_info t)[n := (jt_info t ! n)\<lparr>jb_done := True\<rparr>]\<rparr>"

definition done_callbacks :: "nat \<Rightarrow> job_table \<Rightarrow> job_table" where
  "done_callbacks n t =
     (let j = jt_info t ! n;
          t1 = t\<lparr>jt_info := (jt_info t)[n := j\<lparr>jb_queue := []\<rparr>],
                 jt_jobs := (if dget (jt_jobs t) (jb_key j) = Some n then dpop (jb_key j) (jt_jobs t) else jt_jobs t)\<rparr>
      in fold (\<lambda>(r, i, a). launch r i a) (jb_queue j) t1)"

definition cancel_local :: "task_key \<Rightarrow> job_table \<Rightarrow> job_table" where
  "cancel_local key t =
     (case dget (jt_jobs t) key of
        None \<Rightarrow> t
      | Some n \<Rightarrow> t\<lparr>jt_info := (jt_info t)[n := (jt_info t ! n)\<lparr>jb_cancel := True\<rparr>]\<rparr>)"

definition launch_task :: "TaskRecord \<Rightarrow> InputResponse option \<Rightarrow> bool \<Rightarrow> unit agent_co" where
  "launch_task r i a w = (Inr (), w\<lparr>aw_jobs := launch r i a (aw_jobs w)\<rparr>)"

text \<open>What every reader does with a Task that is submitted or working.\<close>

definition relaunch :: "TaskRecord \<Rightarrow> unit agent_co" where
  "relaunch r = launch_task r (tr_execution_input r) (task_state r = TASK_WORKING)"

section \<open>Transitions\<close>

definition safe_task_metadata :: "agent_sys \<Rightarrow> TaskRecord \<Rightarrow> int \<Rightarrow> jobj" where
  "safe_task_metadata sy r version =
     [(TRAVEL_ARTIFACT_EXTENSION_URI,
       JObj [(''agent_interface_id'', JStr (tr_agent_interface_id r)), (''dispatch_id'', JStr (tr_dispatch_id r)),
             (''run_id'', JStr (tr_run_id r)), (''task_version'', JInt version),
             (''deadline'', JStr (as_iso sy (tr_deadline r)))])]"

definition event_metadata :: "int \<Rightarrow> jobj" where
  "event_metadata version = [(TRAVEL_ARTIFACT_EXTENSION_URI, JObj [(''task_version'', JInt version)])]"

definition structured_message :: "string \<Rightarrow> TaskRecord \<Rightarrow> string \<Rightarrow> jobj \<Rightarrow> Message" where
  "structured_message message_id r schema_uri payload =
     \<lparr>ms_message_id = message_id, ms_task_id = tk_id (tr_task r), ms_context_id = tk_context_id (tr_task r), ms_role = Role_agent,
      ms_parts = [\<lparr>pt_data = Some (JObj payload),
                   pt_metadata = [(''schema_uri'', JStr schema_uri), (''schema_version'', JInt 1)]\<rparr>],
      ms_metadata = [], ms_extensions = [TRAVEL_ARTIFACT_EXTENSION_URI], ms_reference_task_ids = []\<rparr>"

definition status_event :: "Task \<Rightarrow> TaskStatus \<Rightarrow> int \<Rightarrow> VersionedEvent" where
  "status_event t status version = \<lparr>ve_version = version,
     ve_event = TaskStatusUpdateEvent (tk_id t) (tk_context_id t) status (event_metadata version)\<rparr>"

definition artifact_event :: "Task \<Rightarrow> int \<Rightarrow> Artifact \<Rightarrow> VersionedEvent" where
  "artifact_event t version a = \<lparr>ve_version = version,
     ve_event = TaskArtifactUpdateEvent (tk_id t) (tk_context_id t) a (event_metadata version)\<rparr>"

definition updated_record :: "agent_sys \<Rightarrow> TaskRecord \<Rightarrow> int \<Rightarrow> Message option \<Rightarrow> Artifact list \<Rightarrow> string option \<Rightarrow>
    instant \<Rightarrow> instant \<Rightarrow> TaskRecord" where
  "updated_record sy cur new_state status_message artifacts pending t1 t2 =
     (let version = tr_version cur + 1;
          status = \<lparr>ts_state = new_state, ts_timestamp = t1, ts_message = status_message\<rparr>;
          task = (tr_task cur)\<lparr>tk_status := status, tk_artifacts := tk_artifacts (tr_task cur) @ artifacts,
                   tk_metadata := safe_task_metadata sy cur version\<rparr>
      in cur\<lparr>tr_task := task, tr_version := version, tr_updated_at := Some t2, tr_pending_input_request_id := pending,
             tr_execution_input := (if new_state = TASK_WORKING then tr_execution_input cur else None),
             tr_events := tr_events cur @ map (artifact_event task version) artifacts @ [status_event task status version]\<rparr>)"

text \<open>
  The loop repeats when the version changed between its read and its write, so no more often than others act: as many
  rounds as the script has entries, and one more, are enough.
\<close>

primrec transition_loop :: "nat \<Rightarrow> agent_sys \<Rightarrow> TaskRecord \<Rightarrow> int set \<Rightarrow> int \<Rightarrow> Message option \<Rightarrow> Artifact list \<Rightarrow>
    string option \<Rightarrow> TaskExecutionLease option \<Rightarrow> TaskRecord agent_co" where
  "transition_loop 0 sy r allowed new_state msg artifacts pending lease = eraise OutOfFuel"
| "transition_loop (Suc n) sy r allowed new_state msg artifacts pending lease =
     etry (reread_task sy r)
       (\<lambda>e. if e = TaskExc TaskMissing then eret r else eraise e)
       (\<lambda>cur. if task_state cur \<notin> allowed then eret cur
         else ebind (utc_now sy) (\<lambda>t1. ebind (utc_now sy) (\<lambda>t2.
           ecatch (agent_call sy (replace_task (updated_record sy cur new_state msg artifacts pending t1 t2) (tr_version cur) lease))
             (\<lambda>e. if e = TaskExc TaskVersionConflict
                  then transition_loop n sy r allowed new_state msg artifacts pending lease else eraise e))))"

definition transition_task :: "agent_sys \<Rightarrow> TaskRecord \<Rightarrow> int set \<Rightarrow> int \<Rightarrow> Message option \<Rightarrow> Artifact list \<Rightarrow>
    string option \<Rightarrow> TaskExecutionLease option \<Rightarrow> TaskRecord agent_co" where
  "transition_task sy r allowed new_state msg artifacts pending lease w =
     transition_loop (length (aw_env w) + 1) sy r allowed new_state msg artifacts pending lease w"

definition fail_if_working :: "agent_sys \<Rightarrow> TaskRecord \<Rightarrow> string \<Rightarrow> string \<Rightarrow> TaskExecutionLease option \<Rightarrow> unit agent_co" where
  "fail_if_working sy r code message lease =
     ebind (uuid4 sy) (\<lambda>mid.
     ebind (transition_task sy r {TASK_WORKING, TASK_SUBMITTED} TASK_FAILED
       (Some (structured_message mid r PUBLIC_ERROR_SCHEMA_URI
          [(''code'', JStr code), (''message'', JStr message), (''retryable'', JBool False)])) [] None lease) (\<lambda>_. eret ()))"

section \<open>Executing a Task\<close>

definition output_artifact :: "TaskRecord \<Rightarrow> string \<Rightarrow> ArtifactOutput \<Rightarrow> Artifact" where
  "output_artifact r artifact_id out =
     \<lparr>at_artifact_id = artifact_id, at_name = ao_name out,
      at_description = (case ao_description out of None \<Rightarrow> [] | Some d \<Rightarrow> d),
      at_parts = [\<lparr>pt_data = Some (JObj (ao_payload out)),
                   pt_metadata = [(''schema_uri'', JStr (artifact_schema_uri (ao_contract out))), (''schema_version'', JInt 1)]\<rparr>],
      at_metadata = [(TRAVEL_ARTIFACT_EXTENSION_URI,
                      JObj [(''contract'', JStr (ao_contract out)), (''run_id'', JStr (tr_run_id r))])],
      at_extensions = [TRAVEL_ARTIFACT_EXTENSION_URI]\<rparr>"

primrec validated_output_artifacts ::
    "agent_sys \<Rightarrow> TaskRecord \<Rightarrow> AgentProfile \<Rightarrow> ArtifactOutput list \<Rightarrow> string set \<Rightarrow> Artifact list agent_co" where
  "validated_output_artifacts sy r p [] ids = eret []"
| "validated_output_artifacts sy r p (out # outs) ids =
     (if ao_contract out \<notin> set (pf_allowed_output_contracts p) then eraise AgentError
      else if \<not> as_contract_valid sy (ao_contract out) (ao_payload out) then eraise AgentError
      else ebind (case ao_artifact_id out of None \<Rightarrow> uuid4 sy | Some i \<Rightarrow> if i = [] then uuid4 sy else eret i) (\<lambda>i.
        if i \<in> ids then eraise AgentError
        else ebind (validated_output_artifacts sy r p outs (insert i ids)) (\<lambda>artifacts.
          eret (output_artifact r i out # artifacts))))"

definition input_request_dump :: "agent_sys \<Rightarrow> TypedInputRequest \<Rightarrow> jobj" where
  "input_request_dump sy q =
     [(''request_id'', JStr (iq_request_id q)), (''prompt'', JStr (iq_prompt q)),
      (''fields'', JList (map (\<lambda>f. JObj [(''field_id'', JStr (nf_field_id f)), (''label'', JStr (nf_label f)),
         (''input_type'', JStr (nf_input_type f)), (''required'', JBool (nf_required f)),
         (''options'', JList (map JStr (nf_options f)))]) (iq_fields q))),
      (''expires_at'', case iq_expires_at q of None \<Rightarrow> JNull | Some t \<Rightarrow> JStr (as_iso sy t))]"

fun apply_execution_result ::
    "agent_sys \<Rightarrow> TaskRecord \<Rightarrow> AgentProfile \<Rightarrow> agent_result \<Rightarrow> TaskExecutionLease \<Rightarrow> unit agent_co" where
  "apply_execution_result sy r p (CompletedExecution outs) lease =
     ebind (validated_output_artifacts sy r p outs {}) (\<lambda>artifacts.
     ebind (transition_task sy r {TASK_WORKING} TASK_COMPLETED None artifacts None (Some lease)) (\<lambda>_. eret ()))"
| "apply_execution_result sy r p (InputRequiredExecution q) lease =
     ebind (uuid4 sy) (\<lambda>mid.
     ebind (transition_task sy r {TASK_WORKING} TASK_INPUT_REQUIRED
       (Some (structured_message mid r INPUT_REQUEST_SCHEMA_URI (input_request_dump sy q))) [] (Some (iq_request_id q)) (Some lease))
     (\<lambda>_. eret ()))"
| "apply_execution_result sy r p (AuthRequiredExecution dependency message) lease =
     ebind (uuid4 sy) (\<lambda>mid.
     ebind (transition_task sy r {TASK_WORKING} TASK_AUTH_REQUIRED
       (Some (structured_message mid r AUTH_REQUEST_SCHEMA_URI [(''dependency'', JStr dependency), (''message'', JStr message)]))
       [] None (Some lease))
     (\<lambda>_. eret ()))"
| "apply_execution_result sy r p (FailedExecution code message) lease = fail_if_working sy r code message (Some lease)"
| "apply_execution_result sy r p Unsupported lease = eraise AgentError"

definition execution_context :: "TaskRecord \<Rightarrow> AgentExecutionContext" where
  "execution_context r =
     \<lparr>xc_tenant_id = tr_tenant_id r, xc_actor_id = tr_actor_id r, xc_agent_interface_id = tr_agent_interface_id r,
      xc_task_id = tk_id (tr_task r), xc_context_id = tk_context_id (tr_task r), xc_run_id = tr_run_id r,
      xc_dispatch_id = tr_dispatch_id r, xc_deadline = tr_deadline r, xc_reference_task_ids = tr_reference_task_ids r\<rparr>"

text \<open>
  The executor runs at one suspension, during which the heartbeat renews the lease; the deadline is an \<open>AgentTimeout\<close> and
  a heartbeat that finds the lease lost an \<open>AgentCancelled\<close> thrown in there.
\<close>

definition execute_with_heartbeat ::
    "agent_sys \<Rightarrow> AgentProfile \<Rightarrow> TaskRecord \<Rightarrow> InputResponse option \<Rightarrow> agent_result agent_co" where
  "execute_with_heartbeat sy p r input_response =
     ebind (agent_call sy (\<lambda>_. eret ())) (\<lambda>_.
       case as_executor sy (pf_interface_id p) (execution_context r) (tr_invocation r) input_response of
         Inl e \<Rightarrow> eraise e | Inr result \<Rightarrow> eret result)"

text \<open>One round of the heartbeat: \<^term>\<open>True\<close> sets the cancel token and cancels the execution.\<close>

definition heartbeat_execution :: "agent_sys \<Rightarrow> TaskExecutionLease \<Rightarrow> bool agent_co" where
  "heartbeat_execution sy lease =
     etry (agent_call sy (renew_execution lease (as_lease_us sy)))
       (\<lambda>e. if e = AgentCancelled then eraise e else eret True)
       (\<lambda>renewed. eret (renewed = None))"

definition execute_claimed ::
    "agent_sys \<Rightarrow> nat \<Rightarrow> TaskRecord \<Rightarrow> AgentProfile \<Rightarrow> InputResponse option \<Rightarrow> bool \<Rightarrow> TaskExecutionLease \<Rightarrow> unit agent_co" where
  "execute_claimed sy n r p input_response already_working lease =
     ebind (if already_working then reread_task sy r
            else transition_task sy r {TASK_SUBMITTED} TASK_WORKING None [] None (Some lease)) (\<lambda>cur.
       if task_state cur \<noteq> TASK_WORKING then eret ()
       else ebind (utc_now sy) (\<lambda>_.
         ebind (execute_with_heartbeat sy p cur
                  (case tr_execution_input cur of None \<Rightarrow> input_response | Some i \<Rightarrow> Some i)) (\<lambda>result w.
           if jb_cancel (jt_info (aw_jobs w) ! n) then (Inr (), w)
           else apply_execution_result sy cur p result lease w)))"

definition job_handler :: "agent_sys \<Rightarrow> TaskRecord \<Rightarrow> TaskExecutionLease option \<Rightarrow> agent_exc \<Rightarrow> unit agent_co" where
  "job_handler sy r lease e =
     (case e of
        AgentTimeout \<Rightarrow> fail_if_working sy r ''AGENT_DEADLINE_EXCEEDED'' ''The agent task exceeded its deadline.'' lease
      | TaskExc TaskExecutionLeaseLost \<Rightarrow> eret ()
      | AgentCancelled \<Rightarrow> eret ()
      | _ \<Rightarrow> fail_if_working sy r ''AGENT_EXECUTION_FAILED'' ''The agent task could not be completed.'' lease)"

text \<open>Job \<open>n\<close> of the table, with the number for its cancel token.\<close>

definition execute_job ::
    "agent_sys \<Rightarrow> nat \<Rightarrow> TaskRecord \<Rightarrow> AgentProfile \<Rightarrow> InputResponse option \<Rightarrow> bool \<Rightarrow> unit agent_co" where
  "execute_job sy n r p input_response already_working =
     ebind (uuid4 sy) (\<lambda>u.
     etry (agent_call sy (claim_execution (tr_tenant_id r) (tr_agent_interface_id r) (tk_id (tr_task r))
             (as_service_id sy @ '':'' @ u) (as_lease_us sy)))
       (job_handler sy r None)
       (\<lambda>claimed. case claimed of
            None \<Rightarrow> eret ()
          | Some lease \<Rightarrow>
              efinally
                (ecatch (execute_claimed sy n r p input_response already_working lease) (job_handler sy r (Some lease)))
                (agent_call sy (\<lambda>_. release_execution lease))))"

section \<open>Waiting\<close>

text \<open>
  A round per wait of at most a second. \<open>wait_until_settled\<close> has fuel; it needs no more rounds than the script has entries and
  the clock has readings before the deadline, and three more.
\<close>

primrec wait_until_settled :: "nat \<Rightarrow> agent_sys \<Rightarrow> TaskRecord \<Rightarrow> TaskRecord agent_co" where
  "wait_until_settled 0 sy cur = eraise OutOfFuel"
| "wait_until_settled (Suc n) sy cur =
     (if task_state cur \<in> SETTLED_STATES then eret cur
      else
        ebind (relaunch cur) (\<lambda>_.
        ebind (utc_now sy) (\<lambda>_.
        ebind (agent_call sy (\<lambda>_. wait_for_change (tr_tenant_id cur) (tr_agent_interface_id cur) (tk_id (tr_task cur)) (tr_version cur)))
          (\<lambda>changed. case changed of
             Some c \<Rightarrow> wait_until_settled n sy c
           | None \<Rightarrow>
               ebind (utc_now sy) (\<lambda>t.
               ebind (ewhen (t \<ge> tr_deadline cur)
                 (fail_if_working sy cur ''AGENT_DEADLINE_EXCEEDED'' ''The agent task exceeded its deadline.'' None)) (\<lambda>_.
               ebind (reread_task sy cur) (wait_until_settled n sy)))))))"

text \<open>
  A subscription, with the events it has yielded when the fuel is used up or the generator has ended, and whether it
  has ended.
\<close>

primrec subscribe :: "nat \<Rightarrow> agent_sys \<Rightarrow> TaskRecord \<Rightarrow> int \<Rightarrow> agent_world \<Rightarrow> task_event list \<times> bool \<times> agent_world" where
  "subscribe 0 sy cur cursor w = ([], False, w)"
| "subscribe (Suc n) sy cur cursor w =
     (let events = filter (\<lambda>e. ve_version e > cursor) (tr_events cur);
          cursor' = (if events = [] then cursor else Max (ve_version ` set events))
      in if task_state cur \<in> SETTLED_STATES then (map ve_event events, True, w)
         else
           (case agent_call sy (\<lambda>_. wait_for_change (tr_tenant_id cur) (tr_agent_interface_id cur) (tk_id (tr_task cur)) cursor') w of
              (Inl _, w1) \<Rightarrow> (map ve_event events, True, w1)
            | (Inr changed, w1) \<Rightarrow>
                (case subscribe n sy (case changed of None \<Rightarrow> cur | Some c \<Rightarrow> c) cursor' w1 of
                   (rest, ended, w2) \<Rightarrow> (map ve_event events @ rest, ended, w2))))"

end
