(* ===== verification/A2A_Requests.thy ===== *)
theory A2A_Requests
  imports A2A_Service
begin

text \<open>
  The requests agents answer: the rest of \<open>TaskService\<close> (sending, resuming, reading, cancelling) and the protocol
  handler \<open>RoutePilotA2ARequestHandler\<close> of \<^verbatim>\<open>agent/travel_agent/a2a/handler.py\<close> over it.
\<close>

section \<open>Validation of requests\<close>

definition lower_char :: "char \<Rightarrow> char" where
  "lower_char c = (let n = (of_char c :: nat) in if 65 \<le> n \<and> n \<le> 90 then char_of (n + 32) else c)"

definition is_hex :: "char \<Rightarrow> bool" where
  "is_hex c \<longleftrightarrow> is_digit c \<or> c \<in> set ''abcdef''"

text \<open>
  \<^verbatim>\<open>UUID(value)\<close> reads more notations than the canonical one, and \<^verbatim>\<open>value.lower()\<close> is the canonical notation of some UUID
  exactly if it has its shape. Both failures are the same protocol error.
\<close>

definition canonical_shape :: "string \<Rightarrow> bool" where
  "canonical_shape v \<longleftrightarrow> length v = 36 \<and> list_all (\<lambda>(i, c). if i \<in> set [8, 13, 18, 23] then c = CHR ''-'' else is_hex c) (enumerate 0 v)"

definition canonical_uuid :: "string \<Rightarrow> string agent_co" where
  "canonical_uuid v =
     (let l = map lower_char v in if canonical_shape l then eret l else eraise InvalidParamsError)"

definition assert_tenant_of :: "A2AActor \<Rightarrow> string \<Rightarrow> unit agent_co" where
  "assert_tenant_of actor request_tenant =
     (if request_tenant = [] \<or> request_tenant \<noteq> aa_tenant_id actor then eraise TaskNotFoundError else eret ())"

definition assert_extension :: "string set \<Rightarrow> Message \<Rightarrow> unit agent_co" where
  "assert_extension requested m =
     (if TRAVEL_ARTIFACT_EXTENSION_URI \<notin> requested \<or> TRAVEL_ARTIFACT_EXTENSION_URI \<notin> set (ms_extensions m)
      then eraise ExtensionSupportRequiredError else eret ())"

definition assert_configuration :: "SendMessageRequest \<Rightarrow> unit agent_co" where
  "assert_configuration q =
     (if sm_accepted_output_modes q \<noteq> [] \<and> ''application/json'' \<notin> set (sm_accepted_output_modes q)
      then eraise ContentTypeNotSupportedError
      else if sm_push_notification q then eraise UnsupportedOperationError
      else if sm_history_length q < 0 \<or> sm_history_length q > 100 then eraise InvalidParamsError
      else if sm_metadata q \<noteq> [] then eraise InvalidParamsError
      else eret ())"

definition dispatch_metadata :: "agent_sys \<Rightarrow> Message \<Rightarrow> DispatchMetadata agent_co" where
  "dispatch_metadata sy m =
     (if set (map fst (ms_metadata m)) \<noteq> {TRAVEL_ARTIFACT_EXTENSION_URI} then eraise InvalidParamsError
      else case dget (ms_metadata m) TRAVEL_ARTIFACT_EXTENSION_URI of
             Some (JObj payload) \<Rightarrow>
               (case as_parse_dispatch sy payload of
                  None \<Rightarrow> eraise InvalidParamsError
                | Some parsed \<Rightarrow> ebind (canonical_uuid (dsp_dispatch_id parsed)) (\<lambda>_. eret parsed))
           | _ \<Rightarrow> eraise InvalidParamsError)"

definition deadline_of :: "agent_sys \<Rightarrow> DispatchMetadata \<Rightarrow> instant agent_co" where
  "deadline_of sy m =
     ebind (utc_now sy) (\<lambda>now.
       let d = (case dsp_deadline m of None \<Rightarrow> now + DEFAULT_TASK_TIMEOUT | Some d \<Rightarrow> d) in
       case ensure_aware_future d now of
         None \<Rightarrow> eraise InvalidParamsError
       | Some d \<Rightarrow> if d - now > MAX_TASK_TIMEOUT then eraise InvalidParamsError else eret d)"

definition parse_structured_part :: "agent_sys \<Rightarrow> Message \<Rightarrow> string \<Rightarrow> jobj agent_co" where
  "parse_structured_part sy m schema_uri =
     (case ms_parts m of
        [part] \<Rightarrow>
          (case pt_data part of
             None \<Rightarrow> eraise ContentTypeNotSupportedError
           | Some data \<Rightarrow>
               (case as_parse_part sy (pt_metadata part) of
                  None \<Rightarrow> eraise InvalidParamsError
                | Some md \<Rightarrow>
                    if sp_schema_uri md \<noteq> schema_uri \<or> sp_schema_version md \<noteq> 1 then eraise InvalidParamsError
                    else (case data of
                            JObj payload \<Rightarrow>
                              if as_size sy payload > MAX_STRUCTURED_INPUT_BYTES then eraise InvalidParamsError else eret payload
                          | _ \<Rightarrow> eraise InvalidParamsError)))
      | _ \<Rightarrow> eraise InvalidParamsError)"

definition parse_invocation :: "agent_sys \<Rightarrow> AgentProfile \<Rightarrow> Message \<Rightarrow> AgentInvocation agent_co" where
  "parse_invocation sy p m =
     ebind (parse_structured_part sy m (pf_invocation_schema_uri p)) (\<lambda>payload.
       case as_parse_invocation sy payload of
         None \<Rightarrow> eraise InvalidParamsError
       | Some v \<Rightarrow>
           let contracts = map ai_contract (nv_artifacts v) in
           if \<not> distinct contracts then eraise InvalidParamsError
           else if \<not> set (pf_required_input_contracts p) \<subseteq> set contracts then eraise InvalidParamsError
           else if list_ex (\<lambda>a. \<not> as_contract_valid sy (ai_contract a) (ai_payload a)) (nv_artifacts v)
           then eraise InvalidParamsError
           else eret v)"

definition parse_input_response :: "agent_sys \<Rightarrow> Message \<Rightarrow> InputResponse agent_co" where
  "parse_input_response sy m =
     ebind (parse_structured_part sy m INPUT_RESPONSE_SCHEMA_URI) (\<lambda>payload.
       case as_parse_input sy payload of None \<Rightarrow> eraise InvalidParamsError | Some r \<Rightarrow> eret r)"

definition validate_references :: "agent_sys \<Rightarrow> A2AActor \<Rightarrow> AgentProfile \<Rightarrow> string \<Rightarrow> string list \<Rightarrow> unit agent_co" where
  "validate_references sy actor p run_id ids =
     (if length ids > MAX_REFERENCE_TASKS \<or> \<not> distinct ids then eraise InvalidParamsError
      else efor (\<lambda>i. etry (read_task sy (aa_tenant_id actor) (pf_interface_id p) i)
                  (\<lambda>e. if e = TaskExc TaskMissing then eraise InvalidParamsError else eraise e)
                  (\<lambda>r. if tr_run_id r \<noteq> run_id then eraise InvalidParamsError else eret ())) ids)"

section \<open>Sending\<close>

definition new_record :: "agent_sys \<Rightarrow> A2AActor \<Rightarrow> AgentProfile \<Rightarrow> Message \<Rightarrow> DispatchMetadata \<Rightarrow> AgentInvocation \<Rightarrow>
    instant \<Rightarrow> string \<Rightarrow> string \<Rightarrow> instant \<Rightarrow> TaskRecord" where
  "new_record sy actor p m md v deadline task_id context_id now =
     (let fp = as_fingerprint sy m;
          r = \<lparr>tr_tenant_id = aa_tenant_id actor, tr_actor_id = aa_actor_id actor, tr_agent_interface_id = pf_interface_id p,
               tr_run_id = dsp_run_id md, tr_dispatch_id = dsp_dispatch_id md, tr_request_fingerprint = fp,
               tr_task = \<lparr>tk_id = task_id, tk_context_id = context_id,
                 tk_status = \<lparr>ts_state = TASK_SUBMITTED, ts_timestamp = now, ts_message = None\<rparr>,
                 tk_artifacts = [], tk_history = [], tk_metadata = []\<rparr>,
               tr_invocation = v, tr_deadline = deadline, tr_reference_task_ids = ms_reference_task_ids m, tr_version = 1,
               tr_created_at = Some now, tr_updated_at = Some now, tr_pending_input_request_id = None,
               tr_execution_input = None, tr_message_fingerprints = [(ms_message_id m, fp)], tr_events = []\<rparr>
      in r\<lparr>tr_task := (tr_task r)\<lparr>tk_metadata := safe_task_metadata sy r 1\<rparr>\<rparr>)"

definition resumed_record :: "agent_sys \<Rightarrow> TaskRecord \<Rightarrow> InputResponse \<Rightarrow> string \<Rightarrow> string \<Rightarrow> instant \<Rightarrow> instant \<Rightarrow> TaskRecord" where
  "resumed_record sy cur response message_id fp t1 t2 =
     (let version = tr_version cur + 1;
          status = \<lparr>ts_state = TASK_WORKING, ts_timestamp = t1, ts_message = None\<rparr>;
          task = (tr_task cur)\<lparr>tk_status := status, tk_metadata := safe_task_metadata sy cur version\<rparr>
      in cur\<lparr>tr_task := task, tr_version := version, tr_updated_at := Some t2, tr_pending_input_request_id := None,
             tr_execution_input := Some response,
             tr_message_fingerprints := dset message_id fp (tr_message_fingerprints cur),
             tr_events := tr_events cur @ [status_event task status version]\<rparr>)"

text \<open>The loop of \<open>_resume_input\<close>; as many rounds as for transitions are enough.\<close>

primrec resume_loop :: "nat \<Rightarrow> agent_sys \<Rightarrow> A2AActor \<Rightarrow> AgentProfile \<Rightarrow> Message \<Rightarrow> string \<Rightarrow> InputResponse \<Rightarrow> TaskRecord agent_co" where
  "resume_loop 0 sy actor p m fp response = eraise OutOfFuel"
| "resume_loop (Suc n) sy actor p m fp response =
     ebind (read_task sy (aa_tenant_id actor) (pf_interface_id p) (ms_task_id m)) (\<lambda>cur.
       if task_state cur \<noteq> TASK_INPUT_REQUIRED then
         (if dget (tr_message_fingerprints cur) (ms_message_id m) = Some fp then eret cur else eraise InvalidParamsError)
       else ebind (utc_now sy) (\<lambda>t1. ebind (utc_now sy) (\<lambda>t2.
         etry (agent_call sy (replace_task (resumed_record sy cur response (ms_message_id m) fp t1 t2) (tr_version cur) None))
           (\<lambda>e. if e = TaskExc TaskVersionConflict then resume_loop n sy actor p m fp response else eraise e)
           (\<lambda>stored. ebind (launch_task stored (Some response) True) (\<lambda>_. eret stored)))))"

definition resume_input :: "agent_sys \<Rightarrow> A2AActor \<Rightarrow> AgentProfile \<Rightarrow> Message \<Rightarrow> DispatchMetadata \<Rightarrow> TaskRecord agent_co" where
  "resume_input sy actor p m md =
     etry (read_task sy (aa_tenant_id actor) (pf_interface_id p) (ms_task_id m))
       (\<lambda>e. if e = TaskExc TaskMissing then eraise TaskNotFoundError else eraise e)
       (\<lambda>cur.
          let fp = as_fingerprint sy m in
          case dget (tr_message_fingerprints cur) (ms_message_id m) of
            Some prior \<Rightarrow> if prior \<noteq> fp then eraise InvalidParamsError else eret cur
          | None \<Rightarrow>
              if task_state cur \<noteq> TASK_INPUT_REQUIRED then eraise InvalidParamsError
              else if ms_context_id m = [] \<or> ms_context_id m \<noteq> tk_context_id (tr_task cur) then eraise InvalidParamsError
              else if dsp_dispatch_id md \<noteq> tr_dispatch_id cur \<or> dsp_run_id md \<noteq> tr_run_id cur then eraise InvalidParamsError
              else ebind (parse_input_response sy m) (\<lambda>response.
                if Some (ip_request_id response) \<noteq> tr_pending_input_request_id cur then eraise InvalidParamsError
                else (\<lambda>w. resume_loop (length (aw_env w) + 1) sy actor p m fp response w)))"

definition create_task :: "agent_sys \<Rightarrow> A2AActor \<Rightarrow> AgentProfile \<Rightarrow> Message \<Rightarrow> DispatchMetadata \<Rightarrow> TaskRecord agent_co" where
  "create_task sy actor p m md =
     (if dsp_dispatch_id md \<noteq> ms_message_id m then eraise InvalidParamsError
      else
        ebind (parse_invocation sy p m) (\<lambda>v.
        ebind (deadline_of sy md) (\<lambda>deadline.
        ebind (validate_references sy actor p (dsp_run_id md) (ms_reference_task_ids m)) (\<lambda>_.
        ebind (uuid4 sy) (\<lambda>task_id.
          if length (ms_context_id m) > 96 then eraise InvalidParamsError
          else
            ebind (if ms_context_id m = [] then uuid4 sy else eret (ms_context_id m)) (\<lambda>context_id.
            ebind (utc_now sy) (\<lambda>now.
            etry (agent_call sy (\<lambda>_. create_or_get (new_record sy actor p m md v deadline task_id context_id now)))
              (\<lambda>e. if e = TaskExc DispatchConflict then eraise InvalidParamsError else eraise e)
              (\<lambda>(r, created).
                 ebind (ewhen (created \<or> task_state r \<in> {TASK_SUBMITTED, TASK_WORKING}) (relaunch r)) (\<lambda>_. eret r)))))))))"

definition send_message :: "nat \<Rightarrow> agent_sys \<Rightarrow> A2AActor \<Rightarrow> string \<Rightarrow> SendMessageRequest \<Rightarrow> string set \<Rightarrow> Task agent_co" where
  "send_message n sy actor iface q requested_extensions =
     ebind (assert_tenant_of actor (sm_tenant q)) (\<lambda>_.
     ebind (find_profile sy iface) (\<lambda>p.
     ebind (assert_configuration q) (\<lambda>_.
       let m = sm_message q in
       if ms_role m \<noteq> Role_user then eraise InvalidParamsError
       else
         ebind (canonical_uuid (ms_message_id m)) (\<lambda>_.
         ebind (assert_extension requested_extensions m) (\<lambda>_.
         ebind (dispatch_metadata sy m) (\<lambda>md.
         ebind (if ms_task_id m \<noteq> [] then resume_input sy actor p m md else create_task sy actor p m md) (\<lambda>r.
           if sm_return_immediately q then eret (tr_task r)
           else ebind (wait_until_settled n sy r) (\<lambda>settled. eret (tr_task settled)))))))))"

section \<open>Reading and cancelling\<close>

definition service_get_task :: "agent_sys \<Rightarrow> A2AActor \<Rightarrow> string \<Rightarrow> string \<Rightarrow> string \<Rightarrow> TaskRecord agent_co" where
  "service_get_task sy actor iface tenant task_id =
     ebind (assert_tenant_of actor tenant) (\<lambda>_.
     ebind (find_profile sy iface) (\<lambda>_.
     etry (read_task sy (aa_tenant_id actor) iface task_id)
       (\<lambda>e. if e = TaskExc TaskMissing then eraise TaskNotFoundError else eraise e)
       (\<lambda>r. ebind (ewhen (task_state r \<in> {TASK_SUBMITTED, TASK_WORKING}) (relaunch r)) (\<lambda>_. eret r))))"

definition service_list_tasks ::
    "agent_sys \<Rightarrow> A2AActor \<Rightarrow> string \<Rightarrow> string \<Rightarrow> string option \<Rightarrow> int option \<Rightarrow> TaskRecord list agent_co" where
  "service_list_tasks sy actor iface tenant context_id state =
     ebind (assert_tenant_of actor tenant) (\<lambda>_.
     ebind (find_profile sy iface) (\<lambda>_.
     ebind (agent_call sy (\<lambda>_. elift (\<lambda>s. Inr (list_tasks s (aa_tenant_id actor) iface context_id state)))) (\<lambda>records.
     ebind (efor (\<lambda>r. ewhen (task_state r \<in> {TASK_SUBMITTED, TASK_WORKING}) (relaunch r)) records) (\<lambda>_. eret records))))"

definition recover_dispatch :: "nat \<Rightarrow> agent_sys \<Rightarrow> A2AActor \<Rightarrow> string \<Rightarrow> string \<Rightarrow> string \<Rightarrow> bool \<Rightarrow> Task option agent_co" where
  "recover_dispatch n sy actor iface run_id dispatch_id wait =
     ebind (find_profile sy iface) (\<lambda>_.
     etry (agent_call sy (\<lambda>_. get_by_dispatch (aa_tenant_id actor) iface dispatch_id))
       (\<lambda>e. if e = TaskExc TaskMissing then eret None else eraise e)
       (\<lambda>r. if tr_run_id r \<noteq> run_id then eraise InvalidParamsError
            else
              ebind (ewhen (task_state r \<in> {TASK_SUBMITTED, TASK_WORKING}) (relaunch r)) (\<lambda>_.
              ebind (if wait then wait_until_settled n sy r else eret r) (\<lambda>settled. eret (Some (tr_task settled))))))"

definition cancel_local_task :: "task_key \<Rightarrow> unit agent_co" where
  "cancel_local_task key w = (Inr (), w\<lparr>aw_jobs := cancel_local key (aw_jobs w)\<rparr>)"

definition cancel_task :: "agent_sys \<Rightarrow> A2AActor \<Rightarrow> string \<Rightarrow> string \<Rightarrow> string \<Rightarrow> Task agent_co" where
  "cancel_task sy actor iface tenant task_id =
     ebind (service_get_task sy actor iface tenant task_id) (\<lambda>cur.
       if task_state cur \<notin> CANCELABLE_STATES then eraise TaskNotCancelableError
       else
         ebind (transition_task sy cur CANCELABLE_STATES TASK_CANCELED None [] None None) (\<lambda>canceled.
         ebind (cancel_local_task (aa_tenant_id actor, iface, task_id)) (\<lambda>_. eret (tr_task canceled))))"

primrec cancel_records :: "agent_sys \<Rightarrow> A2AActor \<Rightarrow> TaskRecord list \<Rightarrow> Task list agent_co" where
  "cancel_records sy actor [] = eret []"
| "cancel_records sy actor (r # rs) =
     ebind (if task_state r \<in> CANCELABLE_STATES
            then transition_task sy r CANCELABLE_STATES TASK_CANCELED None [] None None else eret r) (\<lambda>cur.
       if task_state cur = TASK_CANCELED then
         ebind (cancel_local_task (aa_tenant_id actor, tr_agent_interface_id cur, tk_id (tr_task cur))) (\<lambda>_.
         ebind (cancel_records sy actor rs) (\<lambda>ts. eret (tr_task cur # ts)))
       else cancel_records sy actor rs)"

definition cancel_run_tasks :: "agent_sys \<Rightarrow> A2AActor \<Rightarrow> string \<Rightarrow> Task list agent_co" where
  "cancel_run_tasks sy actor run_id =
     ebind (agent_call sy (\<lambda>_. elift (\<lambda>s. Inr (list_for_run s (aa_tenant_id actor) run_id)))) (cancel_records sy actor)"

definition run_task_ref :: "TaskRecord \<Rightarrow> RunTaskRef" where
  "run_task_ref r =
     \<lparr>rt_run_id = tr_run_id r, rt_tenant_id = tr_tenant_id r, rt_agent_interface_id = tr_agent_interface_id r,
      rt_task_id = tk_id (tr_task r), rt_context_id = tk_context_id (tr_task r), rt_dispatch_id = tr_dispatch_id r,
      rt_status = task_state r, rt_version = tr_version r, rt_deadline = tr_deadline r\<rparr>"

definition list_run_task_refs :: "agent_sys \<Rightarrow> A2AActor \<Rightarrow> string \<Rightarrow> RunTaskRef list agent_co" where
  "list_run_task_refs sy actor run_id =
     ebind (agent_call sy (\<lambda>_. elift (\<lambda>s. Inr (list_for_run s (aa_tenant_id actor) run_id)))) (\<lambda>rs. eret (map run_task_ref rs))"

section \<open>The protocol handler\<close>

text \<open>The authenticated actor of a request, or nothing when the server put none into its context.\<close>

definition actor_of :: "A2AActor option \<Rightarrow> A2AActor agent_co" where
  "actor_of context = (case context of None \<Rightarrow> eraise UnsupportedOperationError | Some actor \<Rightarrow> eret actor)"

definition page_offset :: "agent_sys \<Rightarrow> string \<Rightarrow> int agent_co" where
  "page_offset sy token =
     (if token = [] then eret 0
      else case as_decode_page sy token of
             None \<Rightarrow> eraise InvalidParamsError
           | Some offset \<Rightarrow> if offset < 0 then eraise InvalidParamsError else eret offset)"

definition project_task :: "Task \<Rightarrow> int option \<Rightarrow> bool \<Rightarrow> Task" where
  "project_task t history_length include_artifacts =
     (let t1 = (case history_length of
                  None \<Rightarrow> t
                | Some n \<Rightarrow>
                    if n = 0 then t\<lparr>tk_history := []\<rparr>
                    else if int (length (tk_history t)) > n
                    then t\<lparr>tk_history := drop (length (tk_history t) - nat n) (tk_history t)\<rparr> else t)
      in if include_artifacts then t1 else t1\<lparr>tk_artifacts := []\<rparr>)"

definition on_get_task :: "agent_sys \<Rightarrow> A2AActor option \<Rightarrow> string \<Rightarrow> string \<Rightarrow> string \<Rightarrow> int option \<Rightarrow> Task agent_co" where
  "on_get_task sy context iface tenant task_id history_length =
     (if task_id = [] then eraise InvalidParamsError
      else
        ebind (actor_of context) (\<lambda>actor.
        ebind (service_get_task sy actor iface tenant task_id) (\<lambda>r.
          case history_length of
            None \<Rightarrow> eret (project_task (tr_task r) None True)
          | Some n \<Rightarrow> if 0 \<le> n \<and> n \<le> 100 then eret (project_task (tr_task r) (Some n) True) else eraise InvalidParamsError)))"

record ListTasksRequest =
  lq_tenant :: string
  lq_page_size :: int
  lq_history_length :: int
  lq_status :: int
  lq_context_id :: string
  lq_status_timestamp_after :: "instant option"
  lq_page_token :: string
  lq_include_artifacts :: bool

record ListTasksResponse =
  lp_tasks :: "Task list"
  lp_next_page_token :: string
  lp_page_size :: int
  lp_total_size :: int

text \<open>
  \<^verbatim>\<open>status_timestamp_after.ToDatetime()\<close> is a datetime without a zone, which Python refuses to compare with the
  zoned \<^verbatim>\<open>updated_at\<close>.
\<close>

definition updated_after :: "instant option \<Rightarrow> TaskRecord list \<Rightarrow> TaskRecord list agent_co" where
  "updated_after after records =
     (case after of
        None \<Rightarrow> eret records
      | Some _ \<Rightarrow> if list_ex (\<lambda>r. tr_updated_at r \<noteq> None) records then eraise PyTypeError else eret [])"

definition on_list_tasks :: "agent_sys \<Rightarrow> A2AActor option \<Rightarrow> string \<Rightarrow> ListTasksRequest \<Rightarrow> ListTasksResponse agent_co" where
  "on_list_tasks sy context iface q =
     (let page_size = (if lq_page_size q = 0 then 50 else lq_page_size q) in
      if \<not> (1 \<le> page_size \<and> page_size \<le> 100) then eraise InvalidParamsError
      else if lq_history_length q < 0 \<or> lq_history_length q > 100 then eraise InvalidParamsError
      else
        ebind (actor_of context) (\<lambda>actor.
        ebind (service_list_tasks sy actor iface (lq_tenant q)
                 (if lq_context_id q = [] then None else Some (lq_context_id q))
                 (if lq_status q = 0 then None else Some (lq_status q))) (\<lambda>all.
        ebind (updated_after (lq_status_timestamp_after q) all) (\<lambda>records.
        ebind (page_offset sy (lq_page_token q)) (\<lambda>offset.
          let page = take (nat page_size) (drop (nat offset) records);
              next_offset = offset + int (length page)
          in eret \<lparr>lp_tasks = map (\<lambda>r. project_task (tr_task r) (Some (lq_history_length q)) (lq_include_artifacts q)) page,
                   lp_next_page_token = (if next_offset < int (length records) then as_encode_page sy next_offset else []),
                   lp_page_size = int (length page), lp_total_size = int (length records)\<rparr>)))))"

definition on_cancel_task :: "agent_sys \<Rightarrow> A2AActor option \<Rightarrow> string \<Rightarrow> string \<Rightarrow> string \<Rightarrow> Task agent_co" where
  "on_cancel_task sy context iface tenant task_id =
     (if task_id = [] then eraise InvalidParamsError
      else ebind (actor_of context) (\<lambda>actor. cancel_task sy actor iface tenant task_id))"

definition on_message_send ::
    "nat \<Rightarrow> agent_sys \<Rightarrow> A2AActor option \<Rightarrow> string \<Rightarrow> SendMessageRequest \<Rightarrow> string set \<Rightarrow> Task agent_co" where
  "on_message_send n sy context iface q requested =
     ebind (actor_of context) (\<lambda>actor. send_message n sy actor iface q requested)"

text \<open>
  The streaming requests: the Task as it is when the stream begins, the events the generator yields, whether it has ended,
  or the exception raised before the stream begins.
\<close>

definition stream_from ::
    "nat \<Rightarrow> agent_sys \<Rightarrow> TaskRecord \<Rightarrow> (Task \<times> task_event list \<times> bool) agent_co" where
  "stream_from n sy r w =
     (case subscribe n sy r (tr_version r) w of (events, ended, w1) \<Rightarrow> (Inr (tr_task r, events, ended), w1))"

definition on_message_send_stream ::
    "nat \<Rightarrow> agent_sys \<Rightarrow> A2AActor option \<Rightarrow> string \<Rightarrow> SendMessageRequest \<Rightarrow> string set \<Rightarrow> (Task \<times> task_event list \<times> bool) agent_co" where
  "on_message_send_stream n sy context iface q requested =
     ebind (actor_of context) (\<lambda>actor.
     ebind (send_message n sy actor iface (q\<lparr>sm_return_immediately := True\<rparr>) requested) (\<lambda>task.
     ebind (service_get_task sy actor iface (sm_tenant q) (tk_id task)) (stream_from n sy)))"

definition on_subscribe_to_task ::
    "nat \<Rightarrow> agent_sys \<Rightarrow> A2AActor option \<Rightarrow> string \<Rightarrow> string \<Rightarrow> string \<Rightarrow> (Task \<times> task_event list \<times> bool) agent_co" where
  "on_subscribe_to_task n sy context iface tenant task_id =
     ebind (actor_of context) (\<lambda>actor.
     ebind (service_get_task sy actor iface tenant task_id) (\<lambda>r.
       if task_state r \<in> TERMINAL_STATES then eraise UnsupportedOperationError else stream_from n sy r))"

text \<open>The four requests about push notifications.\<close>

definition on_push_notification_config :: "unit agent_co" where
  "on_push_notification_config = eraise PushNotificationNotSupportedError"

definition on_get_extended_agent_card :: "agent_sys \<Rightarrow> A2AActor option \<Rightarrow> string \<Rightarrow> AgentCard agent_co" where
  "on_get_extended_agent_card sy context iface =
     ebind (actor_of context) (\<lambda>_. ebind (find_profile sy iface) (\<lambda>p. eret (pf_card p)))"

end
