(* ===== verification/A2A_Safety.thy ===== *)
theory A2A_Safety
  imports A2A_Requests
begin

text \<open>
  What the Task service guarantees under every interleaving. The abstract life cycle of Tasks is a step relation on
  stores; every program of the service is a sequence of such steps, mixed with those of others. A small Hoare logic with
  stable preconditions carries the argument over the programs.
\<close>

section \<open>The life cycle of a Task\<close>

definition next_states :: "int \<Rightarrow> int set" where
  "next_states st =
     (if st = TASK_SUBMITTED then {TASK_WORKING, TASK_FAILED, TASK_CANCELED}
      else if st = TASK_WORKING then {TASK_COMPLETED, TASK_INPUT_REQUIRED, TASK_AUTH_REQUIRED, TASK_FAILED, TASK_CANCELED}
      else if st = TASK_INPUT_REQUIRED then {TASK_WORKING, TASK_CANCELED}
      else if st = TASK_AUTH_REQUIRED then {TASK_CANCELED} else {})"

definition same_task :: "TaskRecord \<Rightarrow> TaskRecord \<Rightarrow> bool" where
  "same_task r r' \<longleftrightarrow> tr_tenant_id r' = tr_tenant_id r \<and> tr_agent_interface_id r' = tr_agent_interface_id r \<and>
     tr_run_id r' = tr_run_id r \<and> tr_dispatch_id r' = tr_dispatch_id r \<and> tr_request_fingerprint r' = tr_request_fingerprint r \<and>
     tr_actor_id r' = tr_actor_id r \<and> tr_invocation r' = tr_invocation r \<and> tr_deadline r' = tr_deadline r \<and>
     tr_reference_task_ids r' = tr_reference_task_ids r \<and> tr_created_at r' = tr_created_at r \<and>
     tk_id (tr_task r') = tk_id (tr_task r) \<and> tk_context_id (tr_task r') = tk_context_id (tr_task r)"

definition task_move :: "TaskRecord \<Rightarrow> TaskRecord \<Rightarrow> bool" where
  "task_move r r' \<longleftrightarrow> same_task r r' \<and> tr_version r' = tr_version r + 1 \<and> task_state r' \<in> next_states (task_state r) \<and>
     (\<exists>artifacts. tk_artifacts (tr_task r') = tk_artifacts (tr_task r) @ artifacts \<and>
        (artifacts = [] \<or> task_state r' = TASK_COMPLETED) \<and>
        tr_events r' = tr_events r @ map (artifact_event (tr_task r') (tr_version r')) artifacts @
          [status_event (tr_task r') (tk_status (tr_task r')) (tr_version r')])"

definition fresh_task :: "TaskRecord \<Rightarrow> bool" where
  "fresh_task r \<longleftrightarrow> tr_version r = 1 \<and> task_state r = TASK_SUBMITTED \<and> tr_events r = [] \<and> tk_artifacts (tr_task r) = []"

inductive agent_step :: "task_store \<Rightarrow> task_store \<Rightarrow> bool" where
  leased: "task_step s s' \<Longrightarrow> ts_records s' = ts_records s \<Longrightarrow> agent_step s s'"
| created: "fresh_task r \<Longrightarrow> agent_step s (snd (create_or_get r s))"
| moved: "dget (ts_records s) (record_key r) = Some r \<Longrightarrow> task_move r r' \<Longrightarrow>
    agent_step s (snd (replace_task r' (tr_version r) lease now s))"

lemma agent_step_task_step: "agent_step s s' \<Longrightarrow> task_step s s'"
  by (induction rule: agent_step.induct) (auto intro: task_step.intros)

subsection \<open>Events rebuild the Task\<close>

definition event_artifacts :: "VersionedEvent \<Rightarrow> Artifact list" where
  "event_artifacts e = (case ve_event e of TaskArtifactUpdateEvent _ _ a _ \<Rightarrow> [a] | TaskStatusUpdateEvent _ _ _ _ \<Rightarrow> [])"

definition record_ok :: "TaskRecord \<Rightarrow> bool" where
  "record_ok r \<longleftrightarrow> 1 \<le> tr_version r \<and>
     task_state r \<in> {TASK_SUBMITTED, TASK_WORKING, TASK_COMPLETED, TASK_FAILED, TASK_CANCELED, TASK_INPUT_REQUIRED, TASK_AUTH_REQUIRED} \<and>
     sorted (map ve_version (tr_events r)) \<and> ve_version ` set (tr_events r) = {2..tr_version r} \<and>
     tk_artifacts (tr_task r) = concat (map event_artifacts (tr_events r)) \<and>
     (tr_events r \<noteq> [] \<longrightarrow> last (tr_events r) = status_event (tr_task r) (tk_status (tr_task r)) (tr_version r))"

definition tasks_ok :: "task_store \<Rightarrow> bool" where
  "tasks_ok s \<longleftrightarrow> task_inv s \<and> (\<forall>k r. dget (ts_records s) k = Some r \<longrightarrow> record_ok r)"

lemma tasks_okD: "tasks_ok s \<Longrightarrow> task_inv s" "tasks_ok s \<Longrightarrow> dget (ts_records s) k = Some r \<Longrightarrow> record_ok r"
  unfolding tasks_ok_def by blast+

lemma tasks_ok_key: "tasks_ok s \<Longrightarrow> dget (ts_records s) k = Some r \<Longrightarrow> record_key r = k"
  unfolding tasks_ok_def task_inv_def by blast

lemma same_task_key: "same_task r r' \<Longrightarrow> record_key r' = record_key r"
  by (simp add: same_task_def record_key_def)

lemma fresh_record_ok: "fresh_task r \<Longrightarrow> record_ok r"
  by (simp add: fresh_task_def record_ok_def)

lemma move_record_ok:
  assumes "record_ok r" and "task_move r r'"
  shows "record_ok r'"
proof -
  from assms(2) obtain artifacts where m: "tr_version r' = tr_version r + 1" "task_state r' \<in> next_states (task_state r)"
    "tk_artifacts (tr_task r') = tk_artifacts (tr_task r) @ artifacts"
    "tr_events r' = tr_events r @ map (artifact_event (tr_task r') (tr_version r')) artifacts @
       [status_event (tr_task r') (tk_status (tr_task r')) (tr_version r')]"
    by (auto simp: task_move_def)
  have v: "ve_version (artifact_event t n a) = n" "ve_version (status_event t x n) = n"
    "event_artifacts (artifact_event t n a) = [a]" "event_artifacts (status_event t x n) = []" for t n a x
    by (simp_all add: artifact_event_def status_event_def event_artifacts_def)
  have c: "concat (map event_artifacts (map (artifact_event t n) as)) = as" for t n as
    by (induction as) (simp_all add: v)
  have "ve_version ` set (tr_events r') = insert (tr_version r + 1) {2..tr_version r}"
    using assms(1) m(1,4) by (auto simp: record_ok_def v image_Un image_image)
  then have "ve_version ` set (tr_events r') = {2..tr_version r'}"
    using assms(1) m(1) by (auto simp: record_ok_def)
  moreover have "\<forall>e \<in> set (tr_events r). ve_version e \<le> tr_version r" using assms(1) by (auto simp: record_ok_def)
  then have "sorted (map ve_version (tr_events r'))"
    using assms(1) m(1,4) by (force simp: record_ok_def sorted_append v comp_def map_replicate_const)
  moreover have "task_state r' \<in> {TASK_SUBMITTED, TASK_WORKING, TASK_COMPLETED, TASK_FAILED, TASK_CANCELED, TASK_INPUT_REQUIRED, TASK_AUTH_REQUIRED}"
    using m(2) by (auto simp: next_states_def split: if_splits)
  moreover have "tk_artifacts (tr_task r') = concat (map event_artifacts (tr_events r'))"
    using assms(1) m(3,4) c by (simp add: record_ok_def v)
  ultimately show ?thesis using assms(1) m(1,4) by (simp add: record_ok_def)
qed

lemma create_or_get_records:
  "dget (ts_records (snd (create_or_get r s))) k = dget (ts_records s) k \<or>
   k = record_key r \<and> dget (ts_records s) k = None \<and> dget (ts_records (snd (create_or_get r s))) k = Some r"
proof -
  obtain res s' where c: "create_or_get r s = (res, s')" by force
  then have "dget (ts_records s') k = dget (ts_records s) k \<or>
      k = record_key r \<and> dget (ts_records s) k = None \<and> dget (ts_records s') k = Some r"
    by (cases rule: create_or_get_cases) auto
  with c show ?thesis by simp
qed

lemma agent_step_ok:
  assumes "agent_step s s'" and "tasks_ok s"
  shows "tasks_ok s'"
proof -
  have "task_inv s'" using assms agent_step_task_step task_step_inv tasks_okD by blast
  moreover have "record_ok x" if "dget (ts_records s') k = Some x" for k x
    using assms that
  proof (induction rule: agent_step.induct)
    case (leased s s')
    then show ?case using tasks_okD by metis
  next
    case (created r s)
    then show ?case using create_or_get_records [of r s k] fresh_record_ok tasks_okD(2) by (metis option.inject)
  next
    case (moved s r r' lease now)
    obtain res s' where c: "replace_task r' (tr_version r) lease now s = (res, s')" by force
    with moved(4) have "dget (ts_records s') k = Some x" by simp
    with c moved show ?case
      by (cases rule: replace_task_cases) (auto split: if_splits intro: tasks_okD(2) move_record_ok)
  qed
  ultimately show ?thesis by (simp add: tasks_ok_def)
qed

lemma agent_steps_ok: "agent_step\<^sup>*\<^sup>* s s' \<Longrightarrow> tasks_ok s \<Longrightarrow> tasks_ok s'"
  by (induction rule: rtranclp_induct) (auto intro: agent_step_ok)

section \<open>Tasks only move forward\<close>

definition record_forward :: "TaskRecord \<Rightarrow> TaskRecord \<Rightarrow> bool" where
  "record_forward r r' \<longleftrightarrow> same_task r r' \<and> (task_state r \<in> TERMINAL_STATES \<longrightarrow> r' = r) \<and>
     (r' = r \<or> tr_version r < tr_version r') \<and>
     (\<exists>new. tr_events r' = tr_events r @ new \<and> (\<forall>e \<in> set new. tr_version r < ve_version e \<and> ve_version e \<le> tr_version r'))"

definition tasks_forward :: "task_store \<Rightarrow> task_store \<Rightarrow> bool" where
  "tasks_forward s s' \<longleftrightarrow>
     (\<forall>k r. dget (ts_records s) k = Some r \<longrightarrow> (\<exists>r'. dget (ts_records s') k = Some r' \<and> record_forward r r'))"

lemma record_forward_refl [simp]: "record_forward r r"
  by (simp add: record_forward_def same_task_def)

lemma record_forward_version: "record_forward r r' \<Longrightarrow> tr_version r \<le> tr_version r'"
  by (auto simp: record_forward_def)

lemma same_task_trans: "same_task a b \<Longrightarrow> same_task b c \<Longrightarrow> same_task a c"
  by (simp add: same_task_def)

lemma record_forward_trans:
  assumes "record_forward a b" and "record_forward b c"
  shows "record_forward a c"
proof -
  obtain m where m: "tr_events b = tr_events a @ m" "\<forall>e \<in> set m. tr_version a < ve_version e \<and> ve_version e \<le> tr_version b"
    using assms(1) by (auto simp: record_forward_def)
  obtain n where n: "tr_events c = tr_events b @ n" "\<forall>e \<in> set n. tr_version b < ve_version e \<and> ve_version e \<le> tr_version c"
    using assms(2) by (auto simp: record_forward_def)
  note v = record_forward_version [OF assms(1)] record_forward_version [OF assms(2)]
  have "tr_events c = tr_events a @ (m @ n)" "\<forall>e \<in> set (m @ n). tr_version a < ve_version e \<and> ve_version e \<le> tr_version c"
    using m n v by auto
  then have "\<exists>new. tr_events c = tr_events a @ new \<and> (\<forall>e \<in> set new. tr_version a < ve_version e \<and> ve_version e \<le> tr_version c)"
    by blast
  moreover have "same_task a c" using assms same_task_trans unfolding record_forward_def by blast
  moreover have "c = a" if "task_state a \<in> TERMINAL_STATES" using that assms unfolding record_forward_def by metis
  moreover have "c = a \<or> tr_version a < tr_version c" using assms v unfolding record_forward_def by auto
  ultimately show ?thesis unfolding record_forward_def by blast
qed

lemma move_forward: "task_move r r' \<Longrightarrow> record_forward r r'"
  by (auto simp: task_move_def record_forward_def next_states_def TERMINAL_STATES_def state_numbers artifact_event_def status_event_def
      split: if_splits)

lemma tasks_forward_refl: "tasks_forward s s"
  by (simp add: tasks_forward_def)

lemma tasks_forward_trans: "tasks_forward s t \<Longrightarrow> tasks_forward t u \<Longrightarrow> tasks_forward s u"
  unfolding tasks_forward_def using record_forward_trans by blast

lemma agent_step_forward:
  assumes "agent_step s s'" and "tasks_ok s"
  shows "tasks_forward s s'"
  using assms
proof (induction rule: agent_step.induct)
  case (leased s s')
  then show ?case by (simp add: tasks_forward_def)
next
  case (created r s)
  then show ?case using create_or_get_records [of r s] unfolding tasks_forward_def by (metis option.distinct(1) record_forward_refl)
next
  case (moved s r r' lease now)
  obtain res s' where c: "replace_task r' (tr_version r) lease now s = (res, s')" by force
  have "record_key r' = record_key r" using moved(2) same_task_key by (simp add: task_move_def)
  with c moved have "tasks_forward s s'"
    by (cases rule: replace_task_cases) (auto simp: tasks_forward_def move_forward)
  with c show ?case by simp
qed

lemma agent_steps_forward: "agent_step\<^sup>*\<^sup>* s s' \<Longrightarrow> tasks_ok s \<Longrightarrow> tasks_forward s s'"
proof (induction rule: rtranclp_induct)
  case (step t u)
  then show ?case using agent_step_forward agent_steps_ok tasks_forward_trans by blast
qed (simp add: tasks_forward_refl)

section \<open>A logic of interleaved programs\<close>

definition agent_env_ok :: "(agent_exc option \<times> (task_store \<Rightarrow> task_store) \<times> (job_table \<Rightarrow> job_table)) list \<Rightarrow> bool" where
  "agent_env_ok env \<longleftrightarrow> (\<forall>(x, f, g) \<in> set env. \<forall>s. tasks_ok s \<longrightarrow> agent_step\<^sup>*\<^sup>* s (f s))"

definition agent_world_ok :: "agent_world \<Rightarrow> bool" where
  "agent_world_ok w \<longleftrightarrow> tasks_ok (aw_store w) \<and> agent_env_ok (aw_env w)"

definition agent_path :: "agent_world \<Rightarrow> agent_world \<Rightarrow> bool" where
  "agent_path w w' \<longleftrightarrow> agent_step\<^sup>*\<^sup>* (aw_store w) (aw_store w') \<and> set (aw_env w') \<subseteq> set (aw_env w) \<and>
     (\<exists>new. aw_trace w' = aw_trace w @ new \<and> sorted_wrt agent_step\<^sup>*\<^sup>* (aw_store w # new @ [aw_store w']))"

lemma agent_path_refl [simp]: "aw_store w' = aw_store w \<Longrightarrow> aw_env w' = aw_env w \<Longrightarrow> aw_trace w' = aw_trace w \<Longrightarrow> agent_path w w'"
  by (simp add: agent_path_def)

lemma agent_path_trans:
  assumes "agent_path u v" and "agent_path v w"
  shows "agent_path u w"
proof -
  obtain m where m: "aw_trace v = aw_trace u @ m" "sorted_wrt agent_step\<^sup>*\<^sup>* (aw_store u # m @ [aw_store v])"
    using assms(1) by (auto simp: agent_path_def)
  obtain n where n: "aw_trace w = aw_trace v @ n" "sorted_wrt agent_step\<^sup>*\<^sup>* (aw_store v # n @ [aw_store w])"
    using assms(2) by (auto simp: agent_path_def)
  have "sorted_wrt agent_step\<^sup>*\<^sup>* (aw_store u # (m @ n) @ [aw_store w])"
    using m(2) n(2) by (auto simp: sorted_wrt_append intro: rtranclp_trans)
  then have "\<exists>new. aw_trace w = aw_trace u @ new \<and> sorted_wrt agent_step\<^sup>*\<^sup>* (aw_store u # new @ [aw_store w])"
    using m(1) n(1) by (metis append.assoc)
  then show ?thesis using assms by (auto simp: agent_path_def intro: rtranclp_trans)
qed

lemma agent_path_ok: "agent_path w w' \<Longrightarrow> agent_world_ok w \<Longrightarrow> agent_world_ok w'"
  unfolding agent_path_def agent_world_ok_def agent_env_ok_def using agent_steps_ok by blast

definition aspec :: "(task_store \<Rightarrow> bool) \<Rightarrow> 'a agent_co \<Rightarrow> ('a \<Rightarrow> task_store \<Rightarrow> bool) \<Rightarrow> bool" where
  "aspec P m Q \<longleftrightarrow> (\<forall>w. agent_world_ok w \<longrightarrow> P (aw_store w) \<longrightarrow> agent_path w (snd (m w)) \<and>
     (case fst (m w) of Inl _ \<Rightarrow> True | Inr a \<Rightarrow> Q a (aw_store (snd (m w)))))"

abbreviation safe :: "'a agent_co \<Rightarrow> bool" where
  "safe m \<equiv> aspec (\<lambda>_. True) m (\<lambda>_ _. True)"

named_theorems aspecs \<open>specifications of programs of the Task service\<close>

lemma aspecI:
  assumes "\<And>w. agent_world_ok w \<Longrightarrow> P (aw_store w) \<Longrightarrow> agent_path w (snd (m w)) \<and>
     (case fst (m w) of Inl _ \<Rightarrow> True | Inr a \<Rightarrow> Q a (aw_store (snd (m w))))"
  shows "aspec P m Q"
  using assms by (simp add: aspec_def)

lemma aspec_ret: "(\<And>s. P s \<Longrightarrow> Q a s) \<Longrightarrow> aspec P (eret a) Q"
  by (simp add: aspec_def)

lemma safe_ret [aspecs]: "safe (eret a)"
  by (simp add: aspec_ret)

lemma aspec_raise [aspecs]: "aspec P (eraise e) Q"
  by (simp add: aspec_def)

lemma aspec_try:
  assumes "aspec P m R" and "\<And>e. aspec (\<lambda>_. True) (h e) Q" and "\<And>a. aspec (R a) (k a) Q"
  shows "aspec P (etry m h k) Q"
proof (rule aspecI)
  fix w
  assume w: "agent_world_ok w" "P (aw_store w)"
  obtain r w1 where m: "m w = (r, w1)" by force
  with assms(1) w have p: "agent_path w w1" "\<And>a. r = Inr a \<Longrightarrow> R a (aw_store w1)" by (auto simp: aspec_def)
  note ok = agent_path_ok [OF p(1) w(1)]
  show "agent_path w (snd (etry m h k w)) \<and> (case fst (etry m h k w) of Inl _ \<Rightarrow> True | Inr a \<Rightarrow> Q a (aw_store (snd (etry m h k w))))"
  proof (cases r)
    case (Inl e)
    with assms(2) [of e] ok have "agent_path w1 (snd (h e w1))" "case fst (h e w1) of Inl _ \<Rightarrow> True | Inr a \<Rightarrow> Q a (aw_store (snd (h e w1)))"
      by (auto simp: aspec_def)
    note p2 = this
    have "etry m h k w = h e w1" using Inl m by (simp add: etry_def)
    then show ?thesis using p2 agent_path_trans [OF p(1)] by (simp only:)
  next
    case (Inr a)
    with assms(3) [of a] ok p(2) have "agent_path w1 (snd (k a w1))" "case fst (k a w1) of Inl _ \<Rightarrow> True | Inr b \<Rightarrow> Q b (aw_store (snd (k a w1)))"
      by (auto simp: aspec_def)
    note p2 = this
    have "etry m h k w = k a w1" using Inr m by (simp add: etry_def)
    then show ?thesis using p2 agent_path_trans [OF p(1)] by (simp only:)
  qed
qed

lemma ebind_try: "ebind m f = etry m eraise f"
  by (rule ext) (simp add: ebind_def etry_def split: prod.split sum.split)

lemma ecatch_try: "ecatch m h = etry m h eret"
  by (rule ext) (simp add: ecatch_def etry_def split: prod.split sum.split)

lemma aspec_bind: "aspec P m R \<Longrightarrow> (\<And>a. aspec (R a) (k a) Q) \<Longrightarrow> aspec P (ebind m k) Q"
  unfolding ebind_try by (rule aspec_try) (auto intro: aspec_raise)

lemma aspec_catch: "aspec P m Q \<Longrightarrow> (\<And>e. aspec (\<lambda>_. True) (h e) Q) \<Longrightarrow> aspec P (ecatch m h) Q"
  unfolding ecatch_try by (rule aspec_try) (auto intro: aspec_ret)

lemma safe_bind [aspecs]: "safe m \<Longrightarrow> (\<And>a. safe (k a)) \<Longrightarrow> safe (ebind m k)"
  by (rule aspec_bind)

lemma safe_try [aspecs]: "safe m \<Longrightarrow> (\<And>e. safe (h e)) \<Longrightarrow> (\<And>a. safe (k a)) \<Longrightarrow> safe (etry m h k)"
  by (rule aspec_try)

lemma safe_catch [aspecs]: "safe m \<Longrightarrow> (\<And>e. safe (h e)) \<Longrightarrow> safe (ecatch m h)"
  by (rule aspec_catch)

lemma safe_finally [aspecs]:
  assumes "safe m" and "safe f"
  shows "safe (efinally m f)"
proof (rule aspecI)
  fix w
  assume w: "agent_world_ok w"
  obtain r w1 where m: "m w = (r, w1)" by force
  obtain r2 w2 where f: "f w1 = (r2, w2)" by force
  have "agent_path w w1" using assms(1) w m by (auto simp: aspec_def)
  moreover have "agent_path w1 w2" using assms(2) agent_path_ok [OF calculation w] f by (auto simp: aspec_def)
  ultimately have "agent_path w w2" by (rule agent_path_trans)
  with m f show "agent_path w (snd (efinally m f w)) \<and> (case fst (efinally m f w) of Inl _ \<Rightarrow> True | Inr a \<Rightarrow> True)"
    by (simp add: efinally_def split: sum.split)
qed

lemma safe_when [aspecs]: "safe m \<Longrightarrow> safe (ewhen b m)"
  by (simp add: ewhen_def safe_ret)

lemma safe_for [aspecs]: "(\<And>x. safe (f x)) \<Longrightarrow> safe (efor f xs)"
  by (induction xs) (auto intro: aspecs)

lemma safe_if [aspecs]: "(b \<Longrightarrow> safe m) \<Longrightarrow> (\<not> b \<Longrightarrow> safe n) \<Longrightarrow> safe (if b then m else n)"
  by simp

lemma safe_case_option [aspecs]: "(\<And>y. safe (n y)) \<Longrightarrow> safe m \<Longrightarrow> safe (case x of None \<Rightarrow> m | Some y \<Rightarrow> n y)"
  by (cases x) simp_all

lemma aspec_weaken: "aspec P m R \<Longrightarrow> (\<And>s. P' s \<Longrightarrow> P s) \<Longrightarrow> (\<And>a s. R a s \<Longrightarrow> Q a s) \<Longrightarrow> aspec P' m Q"
  by (fastforce simp: aspec_def split: sum.splits)

lemma safe_local [aspecs]: "safe (utc_now sy)" "safe (uuid4 sy)" "safe (launch_task r i a)" "safe (relaunch r)" "safe (cancel_local_task k)"
  by (simp_all add: aspec_def utc_now_def uuid4_def launch_task_def relaunch_def cancel_local_task_def)

subsection \<open>Store calls\<close>

definition task_stable :: "(task_store \<Rightarrow> bool) \<Rightarrow> bool" where
  "task_stable P \<longleftrightarrow> (\<forall>s s'. tasks_ok s \<longrightarrow> agent_step\<^sup>*\<^sup>* s s' \<longrightarrow> P s \<longrightarrow> P s')"

lemma task_stable_True [simp]: "task_stable (\<lambda>_. True)"
  by (simp add: task_stable_def)

lemma perform_path:
  assumes "agent_step\<^sup>*\<^sup>* (aw_store w) (snd (op (as_clock sy (aw_tick w)) (aw_store w)))"
  shows "agent_path w (snd (perform sy op w))"
    "aw_store (snd (perform sy op w)) = snd (op (as_clock sy (aw_tick w)) (aw_store w))"
    "fst (perform sy op w) = Inr a \<Longrightarrow> fst (op (as_clock sy (aw_tick w)) (aw_store w)) = Inr a"
  using assms by (auto simp: perform_def agent_path_def split: prod.splits sum.splits)

lemma aspec_call:
  assumes "task_stable P"
    and "\<And>s t. tasks_ok s \<Longrightarrow> P s \<Longrightarrow> agent_step\<^sup>*\<^sup>* s (snd (op t s))"
    and "\<And>s t a. tasks_ok s \<Longrightarrow> P s \<Longrightarrow> fst (op t s) = Inr a \<Longrightarrow> Q a (snd (op t s))"
  shows "aspec P (agent_call sy op) Q"
proof (rule aspecI)
  fix w
  assume w: "agent_world_ok w" "P (aw_store w)"
  have here: "agent_path v (snd (perform sy op v)) \<and>
      (case fst (perform sy op v) of Inl _ \<Rightarrow> True | Inr a \<Rightarrow> Q a (aw_store (snd (perform sy op v))))"
    if "agent_world_ok v" "P (aw_store v)" for v
  proof -
    from that have t: "tasks_ok (aw_store v)" by (simp add: agent_world_ok_def)
    note p = perform_path [where w = v and op = op and sy = sy, OF assms(2) [OF t that(2)]]
    show ?thesis using p assms(3) [OF t that(2)] by (auto split: sum.split)
  qed
  show "agent_path w (snd (agent_call sy op w)) \<and>
      (case fst (agent_call sy op w) of Inl _ \<Rightarrow> True | Inr a \<Rightarrow> Q a (aw_store (snd (agent_call sy op w))))"
  proof (cases "aw_env w")
    case Nil
    then have "agent_call sy op w = perform sy op w" by (simp add: agent_call_def)
    with here [OF w] show ?thesis by (simp only:)
  next
    case (Cons d es)
    obtain x f g where d: "d = (x, f, g)" by (cases d)
    define v where "v = w\<lparr>aw_store := f (aw_store w), aw_jobs := g (aw_jobs w), aw_env := es, aw_trace := aw_trace w @ [f (aw_store w)]\<rparr>"
    have s: "agent_step\<^sup>*\<^sup>* (aw_store w) (f (aw_store w))"
      using w(1) Cons d by (auto simp: agent_world_ok_def agent_env_ok_def)
    then have path: "agent_path w v" using Cons by (auto simp: agent_path_def v_def)
    have "P (aw_store v)" using assms(1) s w by (auto simp: task_stable_def agent_world_ok_def v_def)
    note pv = here [OF agent_path_ok [OF path w(1)] this]
    have "agent_call sy op w = (case x of Some e \<Rightarrow> (Inl e, v) | None \<Rightarrow> perform sy op v)"
      using Cons d by (cases x) (simp_all add: agent_call_def v_def Let_def)
    note call = this
    have "agent_path w (snd (perform sy op v))" using agent_path_trans [OF path] pv by blast
    then show ?thesis unfolding call using pv path by (cases x) (simp_all only: option.case prod.sel sum.case simp_thms)
  qed
qed

lemma safe_read [aspecs]: "safe (agent_call sy (\<lambda>_. elift g))"
  by (rule aspec_call) (simp_all add: elift_def)

lemma safe_pause [aspecs]: "safe (agent_call sy (\<lambda>_. eret a))"
  by (rule aspec_call) simp_all

lemma safe_leases [aspecs]:
  "safe (agent_call sy (claim_execution tn ifc tid ow us))"
  "safe (agent_call sy (renew_execution l us))"
  "safe (agent_call sy (\<lambda>_. release_execution l))"
proof -
  have "agent_step s (snd (claim_execution tn ifc tid ow us t s))" for s t
  proof -
    obtain res s' where c: "claim_execution tn ifc tid ow us t s = (res, s')" by force
    then have "ts_records s' = ts_records s" by (cases rule: claim_execution_cases) auto
    with c task_step.claim_execution [of s tn ifc tid ow us t] show ?thesis by (auto intro: agent_step.leased)
  qed
  then show "safe (agent_call sy (claim_execution tn ifc tid ow us))" by (intro aspec_call) auto
  have "agent_step s (snd (renew_execution l us t s))" for s t
  proof -
    obtain res s' where c: "renew_execution l us t s = (res, s')" by force
    then have "ts_records s' = ts_records s" by (cases rule: renew_execution_cases) auto
    with c task_step.renew_execution [of s l us t] show ?thesis by (auto intro: agent_step.leased)
  qed
  then show "safe (agent_call sy (renew_execution l us))" by (intro aspec_call) auto
  have "agent_step s (snd (release_execution l s))" for s
    using release_execution_cases [of l s] task_step.release_execution [of s l] by (auto intro!: agent_step.leased)
  then show "safe (agent_call sy (\<lambda>_. release_execution l))" by (intro aspec_call) auto
qed

lemma safe_create [aspecs]: "fresh_task r \<Longrightarrow> safe (agent_call sy (\<lambda>_. create_or_get r))"
  by (rule aspec_call) (auto intro: agent_step.created)

text \<open>A record that was read is the stored one or has been replaced by one of a higher version.\<close>

definition seen :: "TaskRecord \<Rightarrow> task_store \<Rightarrow> bool" where
  "seen r s \<longleftrightarrow> (\<exists>r'. dget (ts_records s) (record_key r) = Some r' \<and> record_forward r r')"

lemma seen_stable: "task_stable (seen r)"
  unfolding task_stable_def seen_def using agent_steps_forward record_forward_trans unfolding tasks_forward_def by blast

lemma read_seen: "aspec (\<lambda>_. True) (read_task sy tenant iface task_id) (\<lambda>r s. seen r s \<and> record_key r = (tenant, iface, task_id))"
proof (rule aspec_call)
  fix s t a
  assume s: "tasks_ok s" and "fst (get_task tenant iface task_id s) = Inr a"
  then have "dget (ts_records s) (tenant, iface, task_id) = Some a" by (simp add: get_task_def elift_def split: option.splits)
  with tasks_ok_key [OF s this] show "seen a (snd (get_task tenant iface task_id s)) \<and> record_key a = (tenant, iface, task_id)"
    by (auto simp: seen_def get_task_def elift_def)
qed (simp_all add: get_task_def elift_def)

lemma replace_move:
  assumes "task_move r r'"
  shows "aspec (seen r) (agent_call sy (replace_task r' (tr_version r) lease)) (\<lambda>_ _. True)"
proof (rule aspec_call)
  fix s t
  assume "tasks_ok s" and "seen r s"
  then obtain cur where cur: "dget (ts_records s) (record_key r) = Some cur" "record_forward r cur" by (auto simp: seen_def)
  have key: "record_key r' = record_key r" using assms same_task_key by (simp add: task_move_def)
  obtain res s' where c: "replace_task r' (tr_version r) lease t s = (res, s')" by force
  then show "agent_step\<^sup>*\<^sup>* s (snd (replace_task r' (tr_version r) lease t s))"
  proof (cases rule: replace_task_cases)
    case (refused x)
    with c show ?thesis by simp
  next
    case (replaced old)
    with cur key have "cur = r" by (auto simp: record_forward_def)
    with cur agent_step.moved [OF _ assms, of s lease t] show ?thesis by auto
  qed
qed (simp_all add: seen_stable)

section \<open>The programs\<close>

lemma updated_move:
  assumes "new_state \<in> next_states (task_state r)" and "artifacts = [] \<or> new_state = TASK_COMPLETED"
  shows "task_move r (updated_record sy r new_state msg artifacts pending t1 t2)"
  using assms by (auto simp: task_move_def same_task_def updated_record_def Let_def)

lemma resumed_move: "task_state r = TASK_INPUT_REQUIRED \<Longrightarrow> task_move r (resumed_record sy r response mid fp t1 t2)"
  by (simp add: task_move_def same_task_def resumed_record_def Let_def next_states_def state_numbers)

lemma aspec_time: "aspec P (utc_now sy) (\<lambda>_. P)"
  by (simp add: aspec_def utc_now_def)

lemma safe_transition_loop:
  assumes "\<And>st. st \<in> allowed \<Longrightarrow> new_state \<in> next_states st" and "artifacts = [] \<or> new_state = TASK_COMPLETED"
  shows "safe (transition_loop n sy r allowed new_state msg artifacts pending lease)"
proof (induction n)
  case (Suc n)
  have replacing: "aspec (seen cur) (ebind (utc_now sy) (\<lambda>t1. ebind (utc_now sy) (\<lambda>t2.
      ecatch (agent_call sy (replace_task (updated_record sy cur new_state msg artifacts pending t1 t2) (tr_version cur) lease))
        (\<lambda>e. if e = TaskExc TaskVersionConflict
             then transition_loop n sy r allowed new_state msg artifacts pending lease else eraise e)))) (\<lambda>_ _. True)"
    if "task_state cur \<in> allowed" for cur
    using assms that Suc.IH
    by (intro aspec_bind [OF aspec_time] aspec_catch replace_move updated_move) (auto intro: aspecs)
  show ?case
    unfolding transition_loop.simps
  proof (rule aspec_try [OF read_seen])
    fix cur
    show "aspec (\<lambda>s. seen cur s \<and> record_key cur = (tr_tenant_id r, tr_agent_interface_id r, tk_id (tr_task r)))
        (if task_state cur \<notin> allowed then eret cur else ebind (utc_now sy) (\<lambda>t1. ebind (utc_now sy) (\<lambda>t2.
          ecatch (agent_call sy (replace_task (updated_record sy cur new_state msg artifacts pending t1 t2) (tr_version cur) lease))
            (\<lambda>e. if e = TaskExc TaskVersionConflict
                 then transition_loop n sy r allowed new_state msg artifacts pending lease else eraise e)))) (\<lambda>_ _. True)"
      using replacing [of cur] by (auto intro: aspec_ret aspec_weaken)
  qed (auto intro: aspecs)
qed (unfold transition_loop.simps, rule aspec_raise)

lemma safe_transition:
  assumes "\<And>st. st \<in> allowed \<Longrightarrow> new_state \<in> next_states st" and "artifacts = [] \<or> new_state = TASK_COMPLETED"
  shows "safe (transition_task sy r allowed new_state msg artifacts pending lease)"
  using safe_transition_loop [OF assms] unfolding aspec_def transition_task_def by blast

lemma safe_fail [aspecs]: "safe (fail_if_working sy r code message lease)"
  unfolding fail_if_working_def
  by (intro aspecs safe_transition) (auto simp: next_states_def state_numbers)

lemma safe_outputs [aspecs]: "safe (validated_output_artifacts sy r p outs ids)"
  by (induction outs arbitrary: ids) (auto intro!: aspecs)

lemma safe_apply [aspecs]: "safe (apply_execution_result sy r p result lease)"
  by (cases result) (auto intro!: aspecs safe_transition simp: next_states_def state_numbers)

lemma safe_execute_with_heartbeat [aspecs]: "safe (execute_with_heartbeat sy p r i)"
  unfolding execute_with_heartbeat_def by (intro aspecs) (auto intro: aspecs split: sum.split)

lemma safe_heartbeat [aspecs]: "safe (heartbeat_execution sy l)"
  unfolding heartbeat_execution_def by (intro aspecs)

lemma safe_unless: "safe m \<Longrightarrow> safe (\<lambda>w. if b w then (Inr a, w) else m w)"
  by (simp add: aspec_def)

lemma safe_execute_claimed [aspecs]: "safe (execute_claimed sy n r p i a lease)"
  unfolding execute_claimed_def get_task_def
  by (intro aspecs safe_transition safe_unless) (auto simp: next_states_def state_numbers)

lemma safe_job_handler [aspecs]: "safe (job_handler sy r lease e)"
  unfolding job_handler_def by (auto intro: aspecs split: agent_exc.split task_store_error.split)

lemma safe_execute_job [aspecs]: "safe (execute_job sy n r p i a)"
  unfolding execute_job_def by (intro aspecs)

lemma safe_wait [aspecs]: "safe (wait_until_settled n sy r)"
proof (induction n arbitrary: r)
  case (Suc n)
  then show ?case unfolding wait_until_settled.simps wait_for_change_def get_task_def by (intro aspecs) auto
qed (unfold wait_until_settled.simps, rule aspec_raise)


subsection \<open>Requests\<close>

lemma safe_find_profile [aspecs]: "safe (find_profile sy i)"
  unfolding find_profile_def by (cases "get_profile (as_registry sy) i") (auto intro: aspecs simp del: eret_def eraise_def)

lemma safe_checks [aspecs]:
  "safe (canonical_uuid v)" "safe (assert_tenant_of actor tenant)" "safe (assert_extension req m)" "safe (assert_configuration q)"
  unfolding canonical_uuid_def assert_tenant_of_def assert_extension_def assert_configuration_def Let_def by (intro aspecs)+

lemma safe_case_sum [aspecs]: "(\<And>e. safe (m e)) \<Longrightarrow> (\<And>a. safe (n a)) \<Longrightarrow> safe (case x of Inl e \<Rightarrow> m e | Inr a \<Rightarrow> n a)"
  by (cases x) simp_all

lemma safe_case_prod [aspecs]: "(\<And>a b. safe (m a b)) \<Longrightarrow> safe (case x of (a, b) \<Rightarrow> m a b)"
  by (cases x) simp

lemma safe_case_json [aspecs]:
  "safe m \<Longrightarrow> (\<And>kvs. safe (n kvs)) \<Longrightarrow>
   safe (case x of JNull \<Rightarrow> m | JBool b \<Rightarrow> m | JInt i \<Rightarrow> m | JFloat f \<Rightarrow> m | JStr t \<Rightarrow> m | JList l \<Rightarrow> m | JObj kvs \<Rightarrow> n kvs)"
  by (cases x) simp_all

lemma safe_parsers [aspecs]:
  "safe (dispatch_metadata sy m)" "safe (deadline_of sy md)" "safe (parse_structured_part sy m uri)"
  unfolding dispatch_metadata_def deadline_of_def parse_structured_part_def Let_def
  by (auto intro!: aspecs simp del: eret_def eraise_def split: option.split json.split list.split)

lemma safe_parse_bodies [aspecs]: "safe (parse_invocation sy p m)" "safe (parse_input_response sy m)"
  unfolding parse_invocation_def parse_input_response_def Let_def by (intro aspecs)+

lemma safe_references [aspecs]: "safe (validate_references sy actor p run_id ids)"
  unfolding validate_references_def get_task_def by (intro aspecs)

lemma fresh_new_record: "fresh_task (new_record sy actor p m md v d tid cid now)"
  by (simp add: fresh_task_def new_record_def Let_def)

lemma safe_create_task [aspecs]: "safe (create_task sy actor p m md)"
  unfolding create_task_def by (intro aspecs fresh_new_record)

lemma safe_resume_loop [aspecs]: "safe (resume_loop n sy actor p m fp response)"
proof (induction n)
  case (Suc n)
  have replacing: "aspec (seen cur) (ebind (utc_now sy) (\<lambda>t1. ebind (utc_now sy) (\<lambda>t2.
      etry (agent_call sy (replace_task (resumed_record sy cur response (ms_message_id m) fp t1 t2) (tr_version cur) None))
        (\<lambda>e. if e = TaskExc TaskVersionConflict then resume_loop n sy actor p m fp response else eraise e)
        (\<lambda>stored. ebind (launch_task stored (Some response) True) (\<lambda>_. eret stored))))) (\<lambda>_ _. True)"
    if "task_state cur = TASK_INPUT_REQUIRED" for cur
    using that Suc.IH
    by (intro aspec_bind [OF aspec_time] aspec_try [OF replace_move [OF resumed_move]]) (auto intro: aspecs simp del: eret_def eraise_def)
  show ?case
    unfolding resume_loop.simps
  proof (rule aspec_bind [OF read_seen])
    fix cur
    show "aspec (\<lambda>s. seen cur s \<and> record_key cur = (aa_tenant_id actor, pf_interface_id p, ms_task_id m))
        (if task_state cur \<noteq> TASK_INPUT_REQUIRED
         then if dget (tr_message_fingerprints cur) (ms_message_id m) = Some fp then eret cur else eraise InvalidParamsError
         else ebind (utc_now sy) (\<lambda>t1. ebind (utc_now sy) (\<lambda>t2.
           etry (agent_call sy (replace_task (resumed_record sy cur response (ms_message_id m) fp t1 t2) (tr_version cur) None))
             (\<lambda>e. if e = TaskExc TaskVersionConflict then resume_loop n sy actor p m fp response else eraise e)
             (\<lambda>stored. ebind (launch_task stored (Some response) True) (\<lambda>_. eret stored))))) (\<lambda>_ _. True)"
      using replacing [of cur] by (auto intro: aspec_ret aspec_raise aspec_weaken simp del: eret_def eraise_def)
  qed
qed (unfold resume_loop.simps, rule aspec_raise)

lemma safe_fuel: "(\<And>n. safe (m n)) \<Longrightarrow> safe (\<lambda>w. m (f w) w)"
  unfolding aspec_def by blast

lemma safe_resume [aspecs]: "safe (resume_input sy actor p m md)"
  unfolding resume_input_def get_task_def Let_def by (intro aspecs safe_fuel [where f = "\<lambda>w. length (aw_env w) + 1"])

lemma safe_send [aspecs]: "safe (send_message n sy actor iface q req)"
  unfolding send_message_def Let_def by (intro aspecs)

lemma safe_get [aspecs]: "safe (service_get_task sy actor iface tenant task_id)"
  unfolding service_get_task_def get_task_def by (intro aspecs)

lemma safe_recover [aspecs]: "safe (recover_dispatch n sy actor iface run_id dispatch_id wait)"
  unfolding recover_dispatch_def get_by_dispatch_def by (intro aspecs)

lemma safe_cancel [aspecs]: "safe (cancel_task sy actor iface tenant task_id)"
  unfolding cancel_task_def
  by (intro aspecs safe_transition) (auto simp: CANCELABLE_STATES_def next_states_def state_numbers)

lemma safe_cancel_records [aspecs]: "safe (cancel_records sy actor rs)"
proof (induction rs)
  case (Cons r rs)
  then show ?case unfolding cancel_records.simps
    by (intro aspecs safe_transition) (auto simp: CANCELABLE_STATES_def next_states_def state_numbers)
qed (unfold cancel_records.simps, rule aspecs)

lemma safe_cancel_run [aspecs]: "safe (cancel_run_tasks sy actor run_id)"
  unfolding cancel_run_tasks_def by (intro aspecs)

end
