(* ===== verification/A2A_Progress.thy ===== *)
theory A2A_Progress
  imports A2A_Safety
begin

text \<open>
  That the loops of the Task service end: transitions after as many rounds as others act, waiting once the deadline has
  passed. Scripts here are quiet, they throw no exceptions in; what others do to the store stays arbitrary.
\<close>

section \<open>Quiet suspensions\<close>

definition quiet :: "agent_world \<Rightarrow> bool" where
  "quiet w \<longleftrightarrow> (\<forall>(x, f, g) \<in> set (aw_env w). x = None)"

text \<open>The world after what others do at the next suspension.\<close>

definition disturbed :: "agent_world \<Rightarrow> agent_world" where
  "disturbed w =
     (case aw_env w of
        [] \<Rightarrow> w
      | (x, f, g) # es \<Rightarrow> w\<lparr>aw_store := f (aw_store w), aw_jobs := g (aw_jobs w), aw_env := es,
                            aw_trace := aw_trace w @ [f (aw_store w)]\<rparr>)"

lemma agent_call_quiet: "quiet w \<Longrightarrow> agent_call sy op w = perform sy op (disturbed w)"
  by (cases "aw_env w") (auto simp: agent_call_def disturbed_def quiet_def Let_def)

lemma disturbed_env: "aw_env (disturbed w) = tl (aw_env w)" "aw_tick (disturbed w) = aw_tick w"
  by (cases "aw_env w"; auto simp: disturbed_def split: prod.split)+

lemma disturbed_path: "agent_world_ok w \<Longrightarrow> agent_path w (disturbed w)"
  by (cases "aw_env w") (auto simp: disturbed_def agent_path_def agent_world_ok_def agent_env_ok_def split: prod.split)

lemma disturbed_same: "aw_env w = [] \<Longrightarrow> disturbed w = w"
  by (simp add: disturbed_def)

text \<open>A world a program can go on from: what it relies on, and the Task is there.\<close>

definition agents_calm :: "TaskRecord \<Rightarrow> agent_world \<Rightarrow> bool" where
  "agents_calm r w \<longleftrightarrow> agent_world_ok w \<and> quiet w \<and> seen r (aw_store w)"

definition later :: "agent_world \<Rightarrow> agent_world \<Rightarrow> bool" where
  "later w w' \<longleftrightarrow> length (aw_env w') \<le> length (aw_env w) \<and> aw_tick w \<le> aw_tick w'"

lemma later_refl [simp]: "later w w"
  by (simp add: later_def)

lemma later_trans: "later u v \<Longrightarrow> later v w \<Longrightarrow> later u w"
  by (simp add: later_def)

lemma calm_path:
  assumes "agents_calm r w" and "agent_path w w'"
  shows "agents_calm r w'"
proof -
  have ok: "agent_world_ok w" and q: "quiet w" and s: "seen r (aw_store w)" using assms(1) by (simp_all add: agents_calm_def)
  have "quiet w'" using q assms(2) unfolding quiet_def agent_path_def by blast
  moreover have "seen r (aw_store w')"
    using seen_stable [of r] ok s assms(2) unfolding task_stable_def agent_path_def agent_world_ok_def by blast
  ultimately show ?thesis using agent_path_ok [OF assms(2) ok] by (simp add: agents_calm_def)
qed

lemma calm_disturbed: "agents_calm r w \<Longrightarrow> agents_calm r (disturbed w)"
  by (rule calm_path, assumption, rule disturbed_path) (simp add: agents_calm_def)

lemma calm_stored: "agents_calm r w \<Longrightarrow> \<exists>r'. dget (ts_records (aw_store w)) (record_key r) = Some r' \<and> record_forward r r' \<and> agents_calm r' w"
proof -
  assume c: "agents_calm r w"
  then obtain r' where r': "dget (ts_records (aw_store w)) (record_key r) = Some r'" "record_forward r r'"
    by (auto simp: agents_calm_def seen_def)
  moreover have "record_key r' = record_key r" using r'(2) same_task_key by (simp add: record_forward_def)
  ultimately have "seen r' (aw_store w)" by (auto simp: seen_def)
  with c r' show ?thesis by (auto simp: agents_calm_def)
qed

definition spent :: "agent_world \<Rightarrow> nat \<Rightarrow> agent_world" where
  "spent w n = w\<lparr>aw_tick := aw_tick w + n\<rparr>"

lemma spent_simps [simp]:
  "aw_store (spent w n) = aw_store w" "aw_env (spent w n) = aw_env w" "aw_tick (spent w n) = aw_tick w + n"
  "aw_jobs (spent w n) = aw_jobs w" "aw_trace (spent w n) = aw_trace w" "agents_calm r (spent w n) = agents_calm r w"
  "quiet (spent w n) = quiet w" "spent (spent w m) n = spent w (m + n)"
  by (simp_all add: spent_def agents_calm_def quiet_def agent_world_ok_def)

lemma draws [simp]:
  "utc_now sy w = (Inr (as_clock sy (aw_tick w)), spent w (Suc 0))" "uuid4 sy w = (Inr (as_uuid sy (aw_tick w)), spent w (Suc 0))"
  by (simp_all add: utc_now_def uuid4_def spent_def)

text \<open>Reading a Task that is there.\<close>

definition noted :: "agent_world \<Rightarrow> agent_world" where
  "noted w = w\<lparr>aw_tick := aw_tick w + 1, aw_trace := aw_trace w @ [aw_store w]\<rparr>"

lemma noted_simps [simp]:
  "aw_store (noted w) = aw_store w" "aw_env (noted w) = aw_env w" "aw_tick (noted w) = aw_tick w + 1" "aw_jobs (noted w) = aw_jobs w"
  "agents_calm r (noted w) = agents_calm r w"
  by (simp_all add: noted_def agents_calm_def quiet_def agent_world_ok_def)

lemma perform_reads: "perform sy (\<lambda>_. elift g) w = (case g (aw_store w) of Inl e \<Rightarrow> Inl (TaskExc e) | Inr a \<Rightarrow> Inr a, noted w)"
  by (simp add: perform_def elift_def noted_def split: sum.split)

lemma reread_calm:
  assumes "agents_calm r w"
  obtains cur where "reread_task sy r w = (Inr cur, noted (disturbed w))"
    "dget (ts_records (aw_store (disturbed w))) (record_key r) = Some cur" "record_forward r cur" "agents_calm cur (disturbed w)"
proof -
  obtain cur where cur: "dget (ts_records (aw_store (disturbed w))) (record_key r) = Some cur" "record_forward r cur" "agents_calm cur (disturbed w)"
    using calm_stored [OF calm_disturbed [OF assms]] by blast
  have "quiet w" using assms by (simp add: agents_calm_def)
  then have "reread_task sy r w = (Inr cur, noted (disturbed w))"
    using cur(1) by (simp add: agent_call_quiet get_task_def perform_reads record_key_def)
  with that cur show ?thesis by blast
qed

section \<open>Transitions return\<close>

lemma replace_unfenced:
  assumes "dget (ts_records s) (record_key r) = Some cur" and "task_move cur r"
  shows "\<exists>s'. replace_task r (tr_version cur) None now s = (Inr r, s') \<and> dget (ts_records s') (record_key r) = Some r"
  using assms by (auto simp: replace_task_def Let_def task_move_def)

lemma transition_returns:
  assumes "\<And>st. st \<in> allowed \<Longrightarrow> new_state \<in> next_states st" and "artifacts = [] \<or> new_state = TASK_COMPLETED"
    and "agents_calm r w" and "length (aw_env w) < n"
  shows "\<exists>r' w'. transition_loop n sy r allowed new_state msg artifacts pending None w = (Inr r', w') \<and> later w w' \<and>
    (aw_env w = [] \<longrightarrow> dget (ts_records (aw_store w')) (record_key r) = Some r' \<and> (task_state r' = new_state \<or> task_state r' \<notin> allowed))"
  using assms(3,4)
proof (induction n arbitrary: w)
  case (Suc n)
  obtain cur where cur: "reread_task sy r w = (Inr cur, noted (disturbed w))"
    "dget (ts_records (aw_store (disturbed w))) (record_key r) = Some cur" "record_forward r cur" "agents_calm cur (disturbed w)"
    by (rule reread_calm [OF Suc.prems(1)])
  let ?w1 = "noted (disturbed w)"
  have l1: "later w ?w1" "length (aw_env ?w1) \<le> length (aw_env w)" by (simp_all add: later_def disturbed_env)
  show ?case
  proof (cases "task_state cur \<in> allowed")
    case False
    with cur(1,2) l1 show ?thesis by (auto simp: etry_def)
  next
    case True
    let ?w2 = "spent ?w1 (Suc (Suc 0))"
    let ?new = "updated_record sy cur new_state msg artifacts pending (as_clock sy (aw_tick ?w1)) (as_clock sy (Suc (aw_tick ?w1)))"
    have move: "task_move cur ?new" by (rule updated_move [OF assms(1) [OF True] assms(2)])
    then have key: "record_key ?new = record_key cur" "record_key cur = record_key r"
      using cur(3) same_task_key by (auto simp: task_move_def record_forward_def)
    have c2: "agents_calm cur ?w2" using cur(4) by simp
    let ?d = "disturbed ?w2"
    obtain x where x: "dget (ts_records (aw_store ?d)) (record_key cur) = Some x" "record_forward cur x" "agents_calm x ?d"
      using calm_stored [OF calm_disturbed [OF c2]] by blast
    let ?op = "replace_task ?new (tr_version cur) None"
    have "quiet ?w2" using c2 by (simp add: agents_calm_def)
    then have loop: "transition_loop (Suc n) sy r allowed new_state msg artifacts pending None w =
        ecatch (perform sy ?op \<circ> disturbed) (\<lambda>e. if e = TaskExc TaskVersionConflict
          then transition_loop n sy r allowed new_state msg artifacts pending None else eraise e) ?w2"
      using cur(1) True by (simp add: etry_def agent_call_quiet ecatch_def)
    show ?thesis
    proof (cases "x = cur")
      case True
      from replace_unfenced [OF _ move] x(1) True key obtain s' where
        "?op (as_clock sy (aw_tick ?d)) (aw_store ?d) = (Inr ?new, s')" "dget (ts_records s') (record_key ?new) = Some ?new" by metis
      with loop key show ?thesis
        by (auto simp: ecatch_def perform_def later_def disturbed_env updated_record_def Let_def)
    next
      case False
      then have v: "tr_version cur < tr_version x" using x(2) by (simp add: record_forward_def)
      then have "?op (as_clock sy (aw_tick ?d)) (aw_store ?d) = (Inl TaskVersionConflict, aw_store ?d)"
        using x(1) key by (simp add: replace_task_def Let_def)
      then have go: "transition_loop (Suc n) sy r allowed new_state msg artifacts pending None w =
          transition_loop n sy r allowed new_state msg artifacts pending None (noted ?d)"
        using loop by (simp add: ecatch_def perform_def noted_def)
      have ne: "aw_env ?w2 \<noteq> []"
      proof
        assume "aw_env ?w2 = []"
        with x(1) cur(2) key(2) have "x = cur" by (simp add: disturbed_same)
        with False show False by simp
      qed
      then have "length (aw_env (noted ?d)) < n"
        using Suc.prems(2) by (cases "aw_env w"; cases "tl (aw_env w)") (simp_all add: disturbed_env)
      moreover have "agents_calm r (noted ?d)"
      proof -
        have "agents_calm r ?w2" using calm_disturbed [OF Suc.prems(1)] by simp
        then show ?thesis using calm_disturbed by simp
      qed
      ultimately obtain r' w' where "transition_loop n sy r allowed new_state msg artifacts pending None (noted ?d) = (Inr r', w')"
        "later (noted ?d) w'" using Suc.IH by blast
      moreover have "later w (noted ?d)" using l1 by (simp add: later_def disturbed_env)
      moreover have "aw_env w \<noteq> []" using ne by (auto simp: disturbed_env)
      ultimately show ?thesis using go later_trans by auto
    qed
  qed
qed simp

text \<open>
  Whatever the script throws in and whichever lease is used, the rounds are enough: the loop itself never runs out of them.
\<close>

lemma agent_call_cases:
  obtains (thrown) x f g es where "aw_env w = (Some x, f, g) # es" "agent_call sy op w = (Inl x, disturbed w)"
  | (performed) "agent_call sy op w = perform sy op (disturbed w)"
proof (cases "aw_env w")
  case Nil
  with performed show ?thesis by (simp add: agent_call_def disturbed_def)
next
  case (Cons d es)
  obtain x f g where d: "d = (x, f, g)" by (cases d)
  show ?thesis
    using Cons d thrown performed by (cases x) (auto simp: agent_call_def disturbed_def Let_def)
qed

lemma perform_error: "fst (perform sy op w) = Inl e \<Longrightarrow> \<exists>x. e = TaskExc x \<and> fst (op (as_clock sy (aw_tick w)) (aw_store w)) = Inl x"
  by (auto simp: perform_def split: prod.splits sum.splits)

lemma conflict_needs_others:
  assumes "dget (ts_records (aw_store w)) (record_key r) = Some cur" and "tr_version r = tr_version cur + 1"
    and "agent_call sy (replace_task r (tr_version cur) lease) w = (Inl (TaskExc TaskVersionConflict), w')"
  shows "aw_env w \<noteq> []"
proof
  assume e: "aw_env w = []"
  from assms(3) have "fst (replace_task r (tr_version cur) lease (as_clock sy (aw_tick w)) (aw_store w)) = Inl TaskVersionConflict"
    using perform_error [of sy "replace_task r (tr_version cur) lease" w] e by (simp add: agent_call_def)
  with assms(1,2) show False by (auto simp: replace_task_def Let_def split: if_splits)
qed

lemma agent_call_env: "aw_env (snd (agent_call sy op w)) = tl (aw_env w)"
  by (rule agent_call_cases [of w sy op]) (auto simp: disturbed_env perform_def split: prod.split)

lemma agent_call_error:
  assumes "fst (agent_call sy op w) = Inl e" and "\<forall>(x, f, g) \<in> set (aw_env w). x \<noteq> Some OutOfFuel"
  shows "e \<noteq> OutOfFuel"
  using assms by (cases rule: agent_call_cases [of w sy op]) (auto dest!: perform_error)

lemma reread_stored:
  assumes "agent_world_ok w" and "reread_task sy r w = (Inr cur, w1)"
  shows "dget (ts_records (aw_store w1)) (record_key cur) = Some cur" "agent_world_ok w1"
proof -
  have p: "reread_task sy r w = perform sy (\<lambda>_. get_task (tr_tenant_id r) (tr_agent_interface_id r) (tk_id (tr_task r))) (disturbed w)"
    using assms(2) by (cases rule: agent_call_cases [of w sy "\<lambda>_. get_task (tr_tenant_id r) (tr_agent_interface_id r) (tk_id (tr_task r))"]) auto
  have ok: "agent_world_ok (disturbed w)" by (rule agent_path_ok [OF disturbed_path [OF assms(1)] assms(1)])
  have w1: "w1 = noted (disturbed w)" "dget (ts_records (aw_store (disturbed w))) (tr_tenant_id r, tr_agent_interface_id r, tk_id (tr_task r)) = Some cur"
    using p assms(2) by (auto simp: get_task_def perform_reads split: option.splits)
  then show "dget (ts_records (aw_store w1)) (record_key cur) = Some cur"
    using tasks_ok_key [OF _ w1(2)] ok by (simp add: agent_world_ok_def)
  show "agent_world_ok w1" using ok by (simp add: w1(1) agent_world_ok_def)
qed

lemma transition_enough_fuel:
  assumes "agent_world_ok w" and "\<forall>(x, f, g) \<in> set (aw_env w). x \<noteq> Some OutOfFuel" and "length (aw_env w) < n"
    and "\<And>st. st \<in> allowed \<Longrightarrow> new_state \<in> next_states st" and "artifacts = [] \<or> new_state = TASK_COMPLETED"
  shows "fst (transition_loop n sy r allowed new_state msg artifacts pending lease w) \<noteq> Inl OutOfFuel"
  using assms(1-3)
proof (induction n arbitrary: w)
  case (Suc n)
  obtain res w1 where c: "reread_task sy r w = (res, w1)" by force
  have e1: "aw_env w1 = tl (aw_env w)" using agent_call_env [of sy _ w] c by (metis snd_conv)
  show ?case
  proof (cases "\<exists>cur. res = Inr cur \<and> task_state cur \<in> allowed")
    case False
    moreover have "res \<noteq> Inl OutOfFuel" using agent_call_error [OF _ Suc.prems(2)] c by (metis fst_conv)
    ultimately show ?thesis using c by (cases res) (auto simp: etry_def)
  next
    case True
    then obtain cur where cur: "res = Inr cur" "task_state cur \<in> allowed" by blast
    let ?w2 = "spent w1 (Suc (Suc 0))"
    let ?new = "updated_record sy cur new_state msg artifacts pending (as_clock sy (aw_tick w1)) (as_clock sy (Suc (aw_tick w1)))"
    obtain res2 w3 where c2: "agent_call sy (replace_task ?new (tr_version cur) lease) ?w2 = (res2, w3)" by force
    have loop: "transition_loop (Suc n) sy r allowed new_state msg artifacts pending lease w =
        (case res2 of Inl e \<Rightarrow> (if e = TaskExc TaskVersionConflict
          then transition_loop n sy r allowed new_state msg artifacts pending lease else eraise e) w3 | Inr a \<Rightarrow> (Inr a, w3))"
      using c cur c2 by (simp add: etry_def ecatch_def split: sum.split)
    have no: "\<forall>(x, f, g) \<in> set (aw_env ?w2). x \<noteq> Some OutOfFuel" using e1 Suc.prems(2) by (cases "aw_env w") auto
    show ?thesis
    proof (cases "res2 = Inl (TaskExc TaskVersionConflict)")
      case False
      moreover have "res2 \<noteq> Inl OutOfFuel" using agent_call_error [OF _ no] c2 by (metis fst_conv)
      ultimately show ?thesis using loop by (cases res2) auto
    next
      case True
      note stored = reread_stored [OF Suc.prems(1) c [unfolded cur(1)]]
      have move: "task_move cur ?new" by (rule updated_move [OF assms(4) [OF cur(2)] assms(5)])
      then have key: "record_key ?new = record_key cur" "tr_version ?new = tr_version cur + 1"
        using same_task_key by (auto simp: task_move_def)
      have "aw_env ?w2 \<noteq> []"
        by (rule conflict_needs_others [OF _ key(2) c2 [unfolded True]]) (simp add: key(1) stored(1))
      moreover have "aw_env w3 = tl (aw_env ?w2)" using agent_call_env [of sy _ ?w2] c2 by (metis snd_conv)
      moreover have "agent_world_ok w3"
      proof -
        have "aspec (seen cur) (agent_call sy (replace_task ?new (tr_version cur) lease)) (\<lambda>_ _. True)" by (rule replace_move [OF move])
        moreover have "agent_world_ok ?w2" "seen cur (aw_store ?w2)"
          using stored by (auto simp: agent_world_ok_def seen_def)
        ultimately have "agent_path ?w2 w3" using c2 unfolding aspec_def by (metis snd_conv)
        then show ?thesis using agent_path_ok \<open>agent_world_ok ?w2\<close> by blast
      qed
      moreover have "\<forall>(x, f, g) \<in> set (aw_env w3). x \<noteq> Some OutOfFuel"
        using no calculation(2) by (cases "aw_env ?w2") auto
      moreover have "length (aw_env w3) < n"
        using calculation(1,2) e1 Suc.prems(3) by (cases "aw_env w"; cases "aw_env w1") simp_all
      ultimately have "fst (transition_loop n sy r allowed new_state msg artifacts pending lease w3) \<noteq> Inl OutOfFuel"
        using Suc.IH [of w3] by blast
      then show ?thesis using loop True by simp
    qed
  qed
qed simp

section \<open>Waiting returns\<close>

lemma relaunch_world: "relaunch r w = (Inr (), w\<lparr>aw_jobs := launch r (tr_execution_input r) (task_state r = TASK_WORKING) (aw_jobs w)\<rparr>)"
  by (simp add: relaunch_def launch_task_def)

lemma fail_returns:
  assumes "agents_calm r w"
  shows "\<exists>w'. fail_if_working sy r code message None w = (Inr (), w') \<and> later w w' \<and> agents_calm r w' \<and>
    (aw_env w = [] \<longrightarrow> aw_env w' = [] \<and> (\<exists>r'. dget (ts_records (aw_store w')) (record_key r) = Some r' \<and>
       task_state r' \<notin> {TASK_SUBMITTED, TASK_WORKING}))"
proof -
  let ?msg = "Some (structured_message (as_uuid sy (aw_tick w)) r PUBLIC_ERROR_SCHEMA_URI
    [(''code'', JStr code), (''message'', JStr message), (''retryable'', JBool False)])"
  let ?w1 = "spent w (Suc 0)"
  have cw: "agents_calm r ?w1" "length (aw_env ?w1) < length (aw_env ?w1) + 1" using assms by simp_all
  have ns: "TASK_FAILED \<in> next_states st" if "st \<in> {TASK_WORKING, TASK_SUBMITTED}" for st
    using that by (auto simp: next_states_def)
  obtain r' w' where t: "transition_loop (length (aw_env ?w1) + 1) sy r {TASK_WORKING, TASK_SUBMITTED} TASK_FAILED ?msg [] None None ?w1 = (Inr r', w')"
    "later ?w1 w'" "aw_env ?w1 = [] \<longrightarrow> dget (ts_records (aw_store w')) (record_key r) = Some r' \<and>
       (task_state r' = TASK_FAILED \<or> task_state r' \<notin> {TASK_WORKING, TASK_SUBMITTED})"
    using transition_returns [OF ns disjI1 [OF refl] cw] by blast
  have f: "fail_if_working sy r code message None w = (Inr (), w')"
    unfolding fail_if_working_def ebind_def draws prod.case sum.case transition_task_def t(1) by simp
  have "agent_path w w'"
    using safe_fail [of sy r code message None] assms f unfolding aspec_def agents_calm_def by (metis snd_conv)
  then have "agents_calm r w'" using calm_path assms by blast
  moreover have "later w w'" using t(2) by (simp add: later_def)
  moreover have "TASK_FAILED \<notin> {TASK_SUBMITTED, TASK_WORKING}" by (simp add: state_numbers)
  ultimately show ?thesis using f t(2,3) by (auto simp: later_def)
qed

definition fresh :: "TaskRecord \<Rightarrow> agent_world \<Rightarrow> bool" where
  "fresh r w \<longleftrightarrow> dget (ts_records (aw_store w)) (record_key r) = Some r"

definition waiting :: "nat \<Rightarrow> TaskRecord \<Rightarrow> agent_world \<Rightarrow> nat" where
  "waiting N r w = length (aw_env w) + (N - aw_tick w) + (if fresh r w then 1 else 2)"

lemma wait_for_change_calm:
  assumes "agents_calm r w"
  obtains cur where "agent_call sy (\<lambda>_. wait_for_change (tr_tenant_id r) (tr_agent_interface_id r) (tk_id (tr_task r)) (tr_version r)) w =
      (Inr (if cur = r then None else Some cur), noted (disturbed w))"
    "dget (ts_records (aw_store (disturbed w))) (record_key r) = Some cur" "record_forward r cur" "agents_calm cur (disturbed w)"
proof -
  obtain cur where cur: "dget (ts_records (aw_store (disturbed w))) (record_key r) = Some cur" "record_forward r cur" "agents_calm cur (disturbed w)"
    using calm_stored [OF calm_disturbed [OF assms]] by blast
  have q: "quiet w" using assms by (simp add: agents_calm_def)
  have "tr_version cur > tr_version r \<longleftrightarrow> cur \<noteq> r" using cur(2) by (auto simp: record_forward_def)
  then have "agent_call sy (\<lambda>_. wait_for_change (tr_tenant_id r) (tr_agent_interface_id r) (tk_id (tr_task r)) (tr_version r)) w =
      (Inr (if cur = r then None else Some cur), noted (disturbed w))"
    using cur(1) by (simp add: agent_call_quiet [OF q] wait_for_change_def perform_reads task_changed_def record_key_def)
  with that cur show ?thesis by blast
qed

lemma unsettled_states: "record_ok r \<Longrightarrow> task_state r \<notin> SETTLED_STATES \<longleftrightarrow> task_state r \<in> {TASK_SUBMITTED, TASK_WORKING}"
  by (auto simp: record_ok_def SETTLED_STATES_def state_numbers)

lemma calm_record_ok: "agents_calm r w \<Longrightarrow> fresh r w \<Longrightarrow> record_ok r"
  unfolding agents_calm_def fresh_def agent_world_ok_def using tasks_okD(2) by blast

lemma waiting_returns:
  assumes "\<forall>n \<ge> N. tr_deadline r \<le> as_clock sy n" and "agents_calm r w" and "waiting N r w < fuel"
  shows "\<exists>r' w'. wait_until_settled fuel sy r w = (Inr r', w') \<and> same_task r r' \<and> task_state r' \<in> SETTLED_STATES"
  using assms
proof (induction fuel arbitrary: r w)
  case (Suc n)
  show ?case
  proof (cases "task_state r \<in> SETTLED_STATES")
    case True
    then show ?thesis by (simp add: same_task_def)
  next
    case False
    let ?v = "spent (w\<lparr>aw_jobs := launch r (tr_execution_input r) (task_state r = TASK_WORKING) (aw_jobs w)\<rparr>) (Suc 0)"
    have cv: "agents_calm r ?v" using Suc.prems(2) by (simp add: agents_calm_def quiet_def agent_world_ok_def)
    obtain cur where cur: "agent_call sy (\<lambda>_. wait_for_change (tr_tenant_id r) (tr_agent_interface_id r) (tk_id (tr_task r)) (tr_version r)) ?v =
        (Inr (if cur = r then None else Some cur), noted (disturbed ?v))"
      "dget (ts_records (aw_store (disturbed ?v))) (record_key r) = Some cur" "record_forward r cur" "agents_calm cur (disturbed ?v)"
      by (rule wait_for_change_calm [OF cv])
    let ?u = "noted (disturbed ?v)"
    have cu: "agents_calm cur ?u" using cur(4) by simp
    have key: "record_key cur = record_key r" and same: "same_task r cur" using cur(3) same_task_key by (auto simp: record_forward_def)
    have tick: "aw_tick ?u = aw_tick w + 2" and env: "aw_env ?u = tl (aw_env w)" by (simp_all add: disturbed_env)
    have go_on: "\<exists>r' w'. wait_until_settled n sy x y = (Inr r', w') \<and> same_task r r' \<and> task_state r' \<in> SETTLED_STATES"
      if x: "agents_calm x y" "same_task r x" "waiting N x y < waiting N r w" for x y
    proof -
      have "\<forall>n \<ge> N. tr_deadline x \<le> as_clock sy n" using Suc.prems(1) x(2) by (simp add: same_task_def)
      with Suc.IH [of x y] x Suc.prems(3) same_task_trans [OF x(2)] show ?thesis by fastforce
    qed
    show ?thesis
    proof (cases "cur = r")
      case False
      have step: "wait_until_settled (Suc n) sy r w = wait_until_settled n sy cur ?u"
        using \<open>task_state r \<notin> SETTLED_STATES\<close> cur(1) False by (simp add: relaunch_world ebind_def)
      have "fresh cur ?u" using cur(2) key by (simp add: fresh_def)
      moreover have "\<not> fresh r w" if "aw_env w = []"
        using that cur(2) False by (simp add: fresh_def disturbed_same)
      ultimately have "waiting N cur ?u < waiting N r w"
        using tick env by (cases "aw_env w") (auto simp: waiting_def)
      with go_on [OF cu same] step show ?thesis by simp
    next
      case True
      note cu = cu [unfolded True]
      have fr: "fresh r ?u" using cur(2) True by (simp add: fresh_def)
      have active: "task_state r \<in> {TASK_SUBMITTED, TASK_WORKING}"
        using unsettled_states [OF calm_record_ok [OF cu fr]] False by simp
      define t where "t = as_clock sy (aw_tick ?u)"
      define u1 where "u1 = spent ?u (Suc 0)"
      obtain u2 where u2: "ewhen (t \<ge> tr_deadline r)
          (fail_if_working sy r ''AGENT_DEADLINE_EXCEEDED'' ''The agent task exceeded its deadline.'' None) u1 = (Inr (), u2)"
        "later u1 u2" "agents_calm r u2"
        "t \<ge> tr_deadline r \<and> aw_env u1 = [] \<longrightarrow> aw_env u2 = [] \<and> (\<exists>r'. dget (ts_records (aw_store u2)) (record_key r) = Some r' \<and>
           task_state r' \<notin> {TASK_SUBMITTED, TASK_WORKING})"
      proof (cases "t \<ge> tr_deadline r")
        case True
        have "agents_calm r u1" using cu by (simp add: u1_def)
        from fail_returns [OF this, of sy "''AGENT_DEADLINE_EXCEEDED''" "''The agent task exceeded its deadline.''"] that True
        show ?thesis by (auto simp: ewhen_def)
      next
        case False
        with that [of u1] cu show ?thesis by (simp add: ewhen_def u1_def)
      qed
      obtain x where x: "reread_task sy r u2 = (Inr x, noted (disturbed u2))"
        "dget (ts_records (aw_store (disturbed u2))) (record_key r) = Some x" "record_forward r x" "agents_calm x (disturbed u2)"
        by (rule reread_calm [OF u2(3)])
      have step: "wait_until_settled (Suc n) sy r w = wait_until_settled n sy x (noted (disturbed u2))"
        using False cur(1) True u2(1) x(1) by (simp add: relaunch_world ebind_def t_def u1_def)
      have sx: "same_task r x" using x(3) by (simp add: record_forward_def)
      have fx: "fresh x (noted (disturbed u2))" using x(2) same_task_key [OF sx] by (simp add: fresh_def)
      have later2: "length (aw_env (disturbed u2)) \<le> length (aw_env u1)" "aw_tick u1 \<le> aw_tick (disturbed u2)"
        using u2(2) by (auto simp: later_def disturbed_env)
      show ?thesis
      proof (cases "task_state x \<in> SETTLED_STATES")
        case True
        moreover have "0 < n" using Suc.prems(3) by (cases n) (auto simp: waiting_def split: if_splits)
        ultimately show ?thesis using step sx by (cases n) auto
      next
        case nx: False
        have "waiting N x (noted (disturbed u2)) < waiting N r w"
        proof (cases "aw_env w")
          case (Cons d es)
          then show ?thesis using fx later2 tick env by (auto simp: waiting_def u1_def)
        next
          case Nil
          have "\<not> t \<ge> tr_deadline r"
          proof
            assume "t \<ge> tr_deadline r"
            then have "aw_env u2 = []" and "\<exists>r'. dget (ts_records (aw_store u2)) (record_key r) = Some r' \<and>
                task_state r' \<notin> {TASK_SUBMITTED, TASK_WORKING}" using u2(4) Nil env by (auto simp: u1_def)
            then have "task_state x \<notin> {TASK_SUBMITTED, TASK_WORKING}" using x(2) by (auto simp: disturbed_same)
            moreover have "record_ok x" by (rule calm_record_ok [OF _ fx]) (use x(4) in simp)
            ultimately show False using nx unsettled_states by blast
          qed
          moreover have "tr_deadline r \<le> t" if "N \<le> aw_tick ?u" using Suc.prems(1) that unfolding t_def by blast
          ultimately have "aw_tick ?u < N" by (meson not_less)
          then show ?thesis using fx later2 tick env Nil by (auto simp: waiting_def u1_def disturbed_env)
        qed
        with go_on [OF _ sx] x(4) step show ?thesis by simp
      qed
    qed
  qed
qed simp

end
