(* ===== verification/A2A_Outcome.thy ===== *)
theory A2A_Outcome
  imports A2A_Progress
begin

text \<open>
  What an undisturbed job does to its Task, and what a subscriber of a Task receives.
\<close>

section \<open>A job that holds its lease\<close>

text \<open>The script is empty, the Task is stored as \<open>cur\<close>, and the lease outlasts every reading of the clock.\<close>

definition holds :: "agent_sys \<Rightarrow> TaskExecutionLease \<Rightarrow> TaskRecord \<Rightarrow> agent_world \<Rightarrow> bool" where
  "holds sy l cur w \<longleftrightarrow> aw_env w = [] \<and> tasks_ok (aw_store w) \<and> dget (ts_records (aw_store w)) (record_key cur) = Some cur \<and>
     dget (ts_execution_leases (aw_store w)) (record_key cur) = Some l \<and> lease_key l = record_key cur \<and>
     (\<forall>n. as_clock sy n < tl_lease_until l)"

definition settled :: "TaskRecord \<Rightarrow> agent_world \<Rightarrow> bool" where
  "settled cur w \<longleftrightarrow> aw_env w = [] \<and> dget (ts_records (aw_store w)) (record_key cur) = Some cur \<and>
     dget (ts_execution_leases (aw_store w)) (record_key cur) = None"

lemma holds_spent [simp]: "holds sy l cur (spent w n) = holds sy l cur w"
  by (simp add: holds_def)

lemma holds_replace:
  assumes "holds sy l cur w" and "task_move cur r"
  shows "\<exists>w'. agent_call sy (replace_task r (tr_version cur) (Some l)) w = (Inr r, w') \<and> aw_jobs w' = aw_jobs w \<and>
    (if task_active r then holds sy l r w' else settled r w')"
proof -
  have h: "aw_env w = []" "tasks_ok (aw_store w)" "dget (ts_records (aw_store w)) (record_key cur) = Some cur"
    "dget (ts_execution_leases (aw_store w)) (record_key cur) = Some l" "lease_key l = record_key cur" "\<And>n. as_clock sy n < tl_lease_until l"
    using assms(1) by (auto simp: holds_def)
  have key: "record_key r = record_key cur" "tr_version r = tr_version cur + 1"
    using assms(2) same_task_key by (auto simp: task_move_def)
  let ?s = "aw_store w" and ?t = "as_clock sy (aw_tick w)"
  let ?s' = "(aw_store w)\<lparr>ts_records := dset (record_key r) r (ts_records (aw_store w)),
    ts_execution_leases := (if task_active r then ts_execution_leases (aw_store w) else dpop (record_key r) (ts_execution_leases (aw_store w)))\<rparr>"
  have "lease_current ?s (record_key r) l ?t" using h(4) h(6) [of "aw_tick w"] key by (simp add: lease_current_def)
  then have c: "replace_task r (tr_version cur) (Some l) ?t ?s = (Inr r, ?s')"
    using h(3) key by (simp add: replace_task_def Let_def)
  have "agent_step ?s ?s'" using agent_step.moved [OF h(3) assms(2), of "Some l" ?t] c by simp
  then have "tasks_ok ?s'" using agent_step_ok h(2) by blast
  then show ?thesis using c h key by (cases "task_active r") (simp_all add: agent_call_def perform_def holds_def settled_def)
qed

lemma holds_read:
  assumes "holds sy l cur w"
  shows "reread_task sy cur w = (Inr cur, noted w)" "holds sy l cur (noted w)" "aw_jobs (noted w) = aw_jobs w"
  using assms by (simp_all add: holds_def agent_call_def get_task_def perform_reads record_key_def)

lemma holds_transition:
  assumes "holds sy l cur w" and "task_state cur \<in> allowed" and "new_state \<in> next_states (task_state cur)"
    and "artifacts = [] \<or> new_state = TASK_COMPLETED"
  shows "\<exists>r w'. transition_task sy cur allowed new_state msg artifacts pending (Some l) w = (Inr r, w') \<and> aw_jobs w' = aw_jobs w \<and>
    task_move cur r \<and> task_state r = new_state \<and> tk_artifacts (tr_task r) = tk_artifacts (tr_task cur) @ artifacts \<and>
    (if task_active r then holds sy l r w' else settled r w')"
proof -
  note rd = holds_read [OF assms(1)]
  let ?w1 = "noted w"
  let ?w2 = "spent ?w1 (Suc (Suc 0))"
  let ?r = "updated_record sy cur new_state msg artifacts pending (as_clock sy (aw_tick ?w1)) (as_clock sy (Suc (aw_tick ?w1)))"
  have move: "task_move cur ?r" by (rule updated_move [OF assms(3,4)])
  have "holds sy l cur ?w2" using rd(2) by simp
  from holds_replace [OF this move] obtain w' where
    w': "agent_call sy (replace_task ?r (tr_version cur) (Some l)) ?w2 = (Inr ?r, w')" "aw_jobs w' = aw_jobs ?w2"
    "if task_active ?r then holds sy l ?r w' else settled ?r w'" by blast
  have e: "aw_env w = []" using assms(1) by (simp add: holds_def)
  have "transition_task sy cur allowed new_state msg artifacts pending (Some l) w = (Inr ?r, w')"
    using rd(1) assms(2) w'(1) e by (simp add: transition_task_def etry_def ecatch_def)
  moreover have "task_state ?r = new_state" "tk_artifacts (tr_task ?r) = tk_artifacts (tr_task cur) @ artifacts"
    by (simp_all add: updated_record_def Let_def)
  ultimately show ?thesis using w'(2,3) move by auto
qed

lemma working_next:
  "TASK_COMPLETED \<in> next_states TASK_WORKING" "TASK_INPUT_REQUIRED \<in> next_states TASK_WORKING"
  "TASK_AUTH_REQUIRED \<in> next_states TASK_WORKING" "TASK_FAILED \<in> next_states TASK_WORKING"
  "TASK_WORKING \<in> next_states TASK_SUBMITTED"
  by (simp_all add: next_states_def state_numbers)

lemma inactive: "task_active r \<longleftrightarrow> task_state r \<in> {TASK_SUBMITTED, TASK_WORKING}"
  by (auto simp: task_active_def state_numbers)

lemma holds_fail:
  assumes "holds sy l cur w" and "task_state cur = TASK_WORKING" and "same_task r cur"
  shows "\<exists>x w'. fail_if_working sy r code message (Some l) w = (Inr (), w') \<and> same_task cur x \<and> task_state x = TASK_FAILED \<and> settled x w'"
proof -
  let ?msg = "Some (structured_message (as_uuid sy (aw_tick w)) r PUBLIC_ERROR_SCHEMA_URI
    [(''code'', JStr code), (''message'', JStr message), (''retryable'', JBool False)])"
  have r: "transition_task sy r {TASK_WORKING, TASK_SUBMITTED} TASK_FAILED ?msg [] None (Some l) (spent w (Suc 0)) =
      transition_task sy cur {TASK_WORKING, TASK_SUBMITTED} TASK_FAILED ?msg [] None (Some l) (spent w (Suc 0))"
  proof -
    have e: "aw_env w = []" using assms(1) by (simp add: holds_def)
    have "reread_task sy r = reread_task sy cur" using assms(3) by (simp add: same_task_def)
    moreover have "reread_task sy cur (spent w (Suc 0)) = (Inr cur, noted (spent w (Suc 0)))"
      using holds_read(1) [of sy l cur "spent w (Suc 0)"] assms(1) by simp
    ultimately show ?thesis using e assms(2) by (simp add: transition_task_def etry_def ecatch_def split: prod.split sum.split)
  qed
  have "holds sy l cur (spent w (Suc 0))" using assms(1) by simp
  from holds_transition [OF this, of "{TASK_WORKING, TASK_SUBMITTED}" TASK_FAILED "[]" ?msg None]
  obtain x w' where x: "transition_task sy cur {TASK_WORKING, TASK_SUBMITTED} TASK_FAILED ?msg [] None (Some l) (spent w (Suc 0)) = (Inr x, w')"
    "task_move cur x" "task_state x = TASK_FAILED" "if task_active x then holds sy l x w' else settled x w'"
    using assms(2) working_next by auto
  have "\<not> task_active x" using x(3) by (simp add: inactive state_numbers)
  moreover have "fail_if_working sy r code message (Some l) w = (Inr (), w')"
    unfolding fail_if_working_def ebind_def draws prod.case sum.case r x(1) by simp
  ultimately show ?thesis using x by (auto simp: task_move_def)
qed

lemma outputs_spend:
  "\<exists>n res. validated_output_artifacts sy r p outs ids w = (res, spent w n) \<and> (\<forall>e. res = Inl e \<longrightarrow> e = AgentError)"
proof (induction outs arbitrary: ids w)
  case (Cons out outs)
  let ?draw = "case ao_artifact_id out of None \<Rightarrow> uuid4 sy | Some i \<Rightarrow> if i = [] then uuid4 sy else eret i"
  have z: "spent v 0 = v" for v by (simp add: spent_def)
  have "\<exists>i m. ?draw w = (Inr i, spent w m)"
    by (cases "ao_artifact_id out") (auto simp: z intro: exI [of _ 0])
  then obtain i m where d: "?draw w = (Inr i, spent w m)" by blast
  obtain n res where n: "validated_output_artifacts sy r p outs (insert i ids) (spent w m) = (res, spent (spent w m) n)"
    "\<forall>e. res = Inl e \<longrightarrow> e = AgentError" using Cons.IH by blast
  show ?case
  proof (cases "ao_contract out \<in> set (pf_allowed_output_contracts p) \<and> as_contract_valid sy (ao_contract out) (ao_payload out) \<and> i \<notin> ids")
    case True
    with d n show ?thesis by (cases res) (auto simp: ebind_def)
  next
    case False
    with d show ?thesis by (auto simp: ebind_def z intro: exI [of _ 0] exI [of _ m])
  qed
qed (auto simp: spent_def intro: exI [of _ 0])

text \<open>The states a Task may be left in by what its executor did.\<close>

fun result_states :: "agent_exc + agent_result \<Rightarrow> int set" where
  "result_states (Inr (CompletedExecution outs)) = {TASK_COMPLETED, TASK_FAILED}"
| "result_states (Inr (InputRequiredExecution q)) = {TASK_INPUT_REQUIRED}"
| "result_states (Inr (AuthRequiredExecution d m)) = {TASK_AUTH_REQUIRED}"
| "result_states _ = {TASK_FAILED}"

lemma settled_when:
  assumes "transition_task sy cur {TASK_WORKING} new_state msg artifacts pending (Some l) w = (Inr r, w')"
    and "task_move cur r" and "task_state r = new_state" and "if task_active r then holds sy l r w' else settled r w'"
    and "new_state \<notin> {TASK_SUBMITTED, TASK_WORKING}"
  shows "same_task cur r \<and> settled r w'"
  using assms by (auto simp: inactive task_move_def)

lemma holds_apply:
  assumes "holds sy l cur w" and "task_state cur = TASK_WORKING"
  shows "(\<exists>x w'. apply_execution_result sy cur p result l w = (Inr (), w') \<and> same_task cur x \<and>
      task_state x \<in> result_states (Inr result) \<and> settled x w') \<or>
    (\<exists>w'. apply_execution_result sy cur p result l w = (Inl AgentError, w') \<and> holds sy l cur w' \<and> TASK_FAILED \<in> result_states (Inr result))"
proof (cases result)
  case (CompletedExecution outs)
  obtain n res where o: "validated_output_artifacts sy cur p outs {} w = (res, spent w n)" "\<forall>e. res = Inl e \<longrightarrow> e = AgentError"
    using outputs_spend by blast
  show ?thesis
  proof (cases res)
    case (Inl e)
    with o assms(1) CompletedExecution show ?thesis by (simp add: ebind_def)
  next
    case (Inr artifacts)
    have "holds sy l cur (spent w n)" using assms(1) by simp
    from holds_transition [OF this, of "{TASK_WORKING}" TASK_COMPLETED artifacts None None]
    obtain r w' where r: "transition_task sy cur {TASK_WORKING} TASK_COMPLETED None artifacts None (Some l) (spent w n) = (Inr r, w')"
      "task_move cur r" "task_state r = TASK_COMPLETED" "if task_active r then holds sy l r w' else settled r w'"
      using assms(2) working_next by auto
    have "same_task cur r \<and> settled r w'" by (rule settled_when [OF r]) (simp add: state_numbers)
    with Inr o r CompletedExecution show ?thesis by (auto simp: ebind_def)
  qed
next
  case (InputRequiredExecution q)
  let ?msg = "Some (structured_message (as_uuid sy (aw_tick w)) cur INPUT_REQUEST_SCHEMA_URI (input_request_dump sy q))"
  have "holds sy l cur (spent w (Suc 0))" using assms(1) by simp
  from holds_transition [OF this, of "{TASK_WORKING}" TASK_INPUT_REQUIRED "[]" ?msg "Some (iq_request_id q)"]
  obtain r w' where r: "transition_task sy cur {TASK_WORKING} TASK_INPUT_REQUIRED ?msg [] (Some (iq_request_id q)) (Some l) (spent w (Suc 0)) = (Inr r, w')"
    "task_move cur r" "task_state r = TASK_INPUT_REQUIRED" "if task_active r then holds sy l r w' else settled r w'"
    using assms(2) working_next by auto
  have "same_task cur r \<and> settled r w'" by (rule settled_when [OF r]) (simp add: state_numbers)
  with r InputRequiredExecution show ?thesis by (auto simp: ebind_def)
next
  case (AuthRequiredExecution d m)
  let ?msg = "Some (structured_message (as_uuid sy (aw_tick w)) cur AUTH_REQUEST_SCHEMA_URI [(''dependency'', JStr d), (''message'', JStr m)])"
  have "holds sy l cur (spent w (Suc 0))" using assms(1) by simp
  from holds_transition [OF this, of "{TASK_WORKING}" TASK_AUTH_REQUIRED "[]" ?msg None]
  obtain r w' where r: "transition_task sy cur {TASK_WORKING} TASK_AUTH_REQUIRED ?msg [] None (Some l) (spent w (Suc 0)) = (Inr r, w')"
    "task_move cur r" "task_state r = TASK_AUTH_REQUIRED" "if task_active r then holds sy l r w' else settled r w'"
    using assms(2) working_next by auto
  have "same_task cur r \<and> settled r w'" by (rule settled_when [OF r]) (simp add: state_numbers)
  with r AuthRequiredExecution show ?thesis by (auto simp: ebind_def)
next
  case (FailedExecution code message)
  have "same_task cur cur" by (simp add: same_task_def)
  from holds_fail [OF assms this, of code message] FailedExecution show ?thesis by fastforce
next
  case Unsupported
  with assms(1) show ?thesis by simp
qed

lemma holds_noted [simp]: "holds sy l cur (noted w) = holds sy l cur w" "settled cur (noted w) = settled cur w"
  by (simp_all add: holds_def settled_def)

lemma claimed_holds:
  assumes "aw_env w = []" and "tasks_ok (aw_store w)" and "dget (ts_records (aw_store w)) (record_key r) = Some r"
    and "task_active r" and "dget (ts_execution_leases (aw_store w)) (record_key r) = None"
    and "\<forall>n. as_clock sy n < as_clock sy (aw_tick w) + max 50000 us"
  shows "\<exists>l w'. agent_call sy (claim_execution (tr_tenant_id r) (tr_agent_interface_id r) (tk_id (tr_task r)) owner us) w = (Inr (Some l), w') \<and>
    aw_jobs w' = aw_jobs w \<and> holds sy l r w'"
proof -
  let ?c = "claim_execution (tr_tenant_id r) (tr_agent_interface_id r) (tk_id (tr_task r)) owner us (as_clock sy (aw_tick w)) (aw_store w)"
  obtain res s' where c: "?c = (res, s')" by force
  have key: "(tr_tenant_id r, tr_agent_interface_id r, tk_id (tr_task r)) = record_key r" by (simp add: record_key_def)
  from c show ?thesis
  proof (cases rule: claim_execution_cases)
    case none
    moreover have "\<exists>l. fst ?c = Inr (Some l)" using assms(3-5) key by (simp add: claim_execution_def Let_def)
    ultimately show ?thesis using c by auto
  next
    case (claimed cur att)
    have st: "task_step (aw_store w) s'" using task_step.claim_execution [of "aw_store w"] c by (metis snd_conv)
    then have "agent_step (aw_store w) s'" by (rule agent_step.leased) (simp add: claimed(6))
    then have "tasks_ok s'" using agent_step_ok assms(2) by blast
    with c claimed key assms show ?thesis
      by (simp add: agent_call_def perform_def holds_def lease_key_def)
  qed
qed

lemma settled_release:
  assumes "settled x w" and "lease_key l = record_key x"
  shows "agent_call sy (\<lambda>_. release_execution l) w = (Inr (), noted w)"
  using assms by (simp add: settled_def agent_call_def perform_def release_execution_def Let_def noted_def)

lemma context_same:
  assumes "same_task r cur"
  shows "execution_context cur = execution_context r" "tr_invocation cur = tr_invocation r"
  using assms by (simp_all add: same_task_def execution_context_def)

lemma job_handler_fails:
  assumes "holds sy l cur w" and "task_state cur = TASK_WORKING" and "same_task r cur"
    and "e \<noteq> AgentCancelled" and "e \<noteq> TaskExc TaskExecutionLeaseLost"
  shows "\<exists>x w'. job_handler sy r (Some l) e w = (Inr (), w') \<and> same_task cur x \<and> task_state x = TASK_FAILED \<and> settled x w'"
  using assms(4,5) holds_fail [OF assms(1-3)]
  by (auto simp: job_handler_def split: agent_exc.split task_store_error.split)

lemma job_settles:
  assumes "aw_env w = []" and "tasks_ok (aw_store w)" and "dget (ts_records (aw_store w)) (record_key r) = Some r"
    and "task_state r = TASK_SUBMITTED" and "tr_execution_input r = None" and "dget (ts_execution_leases (aw_store w)) (record_key r) = None"
    and "\<forall>n. as_clock sy n < as_clock sy (Suc (aw_tick w)) + max 50000 (as_lease_us sy)"
    and "\<not> jb_cancel (jt_info (aw_jobs w) ! j)"
    and "as_executor sy (pf_interface_id p) (execution_context r) (tr_invocation r) i = out"
    and "out \<noteq> Inl AgentCancelled" and "out \<noteq> Inl (TaskExc TaskExecutionLeaseLost)"
  shows "\<exists>x w'. execute_job sy j r p i False w = (Inr (), w') \<and> same_task r x \<and> task_state x \<in> result_states out \<and> settled x w'"
proof -
  let ?w1 = "spent w (Suc 0)"
  have "task_active r" using assms(4) by (simp add: inactive)
  from claimed_holds [of ?w1 r sy "as_lease_us sy" "as_service_id sy @ '':'' @ as_uuid sy (aw_tick w)"] this assms(1-3,6,7)
  obtain l w2 where l: "agent_call sy (claim_execution (tr_tenant_id r) (tr_agent_interface_id r) (tk_id (tr_task r))
      (as_service_id sy @ '':'' @ as_uuid sy (aw_tick w)) (as_lease_us sy)) ?w1 = (Inr (Some l), w2)"
    "aw_jobs w2 = aw_jobs w" "holds sy l r w2" by auto
  from holds_transition [OF l(3), of "{TASK_SUBMITTED}" TASK_WORKING "[]" None None] assms(4) working_next
  obtain cur w3 where cur: "transition_task sy r {TASK_SUBMITTED} TASK_WORKING None [] None (Some l) w2 = (Inr cur, w3)"
    "aw_jobs w3 = aw_jobs w2" "task_move r cur" "task_state cur = TASK_WORKING" "if task_active cur then holds sy l cur w3 else settled cur w3"
    by auto
  have same: "same_task r cur" using cur(3) by (simp add: task_move_def)
  have h3: "holds sy l cur w3" using cur(4,5) by (simp add: inactive)
  have exec_in: "tr_execution_input cur = None"
  proof -
    have e: "aw_env w2 = []" using l(3) by (simp add: holds_def)
    have "reread_task sy r w2 = (Inr r, noted w2)" by (rule holds_read [OF l(3)])
    with cur(1) assms(4,5) e show ?thesis
      by (auto simp: transition_task_def etry_def ecatch_def agent_call_def perform_def replace_task_def Let_def updated_record_def
          split: option.splits if_splits prod.splits)
  qed
  let ?w4 = "noted (spent w3 (Suc 0))"
  have h4: "holds sy l cur ?w4" using h3 by simp
  have e3: "aw_env w3 = []" using h3 by (simp add: holds_def)
  have run: "execute_claimed sy j r p i False l w2 =
      (case out of Inl e \<Rightarrow> (Inl e, ?w4) | Inr result \<Rightarrow> apply_execution_result sy cur p result l ?w4)"
    using cur(1,2,4) l(2) e3 assms(8,9) context_same [OF same] exec_in
    by (simp add: execute_claimed_def ebind_def execute_with_heartbeat_def agent_call_def perform_def noted_def spent_def split: sum.split)
  have body: "\<exists>x w'. ecatch (execute_claimed sy j r p i False l) (job_handler sy r (Some l)) w2 = (Inr (), w') \<and> same_task cur x \<and>
      task_state x \<in> result_states out \<and> settled x w'"
  proof (cases out)
    case (Inl e)
    then have "ecatch (execute_claimed sy j r p i False l) (job_handler sy r (Some l)) w2 = job_handler sy r (Some l) e ?w4"
      using run by (simp add: ecatch_def)
    with job_handler_fails [OF h4 cur(4) same, of e] assms(10,11) Inl show ?thesis by auto
  next
    case (Inr result)
    from holds_apply [OF h4 cur(4), of p result] show ?thesis
    proof
      assume "\<exists>x w'. apply_execution_result sy cur p result l ?w4 = (Inr (), w') \<and> same_task cur x \<and>
        task_state x \<in> result_states (Inr result) \<and> settled x w'"
      with run Inr show ?thesis by (auto simp: ecatch_def)
    next
      assume "\<exists>w'. apply_execution_result sy cur p result l ?w4 = (Inl AgentError, w') \<and> holds sy l cur w' \<and> TASK_FAILED \<in> result_states (Inr result)"
      then obtain w' where w': "apply_execution_result sy cur p result l ?w4 = (Inl AgentError, w')" "holds sy l cur w'"
        "TASK_FAILED \<in> result_states (Inr result)" by blast
      then have "ecatch (execute_claimed sy j r p i False l) (job_handler sy r (Some l)) w2 = job_handler sy r (Some l) AgentError w'"
        using run Inr by (simp add: ecatch_def)
      moreover obtain x w'' where "job_handler sy r (Some l) AgentError w' = (Inr (), w'')" "same_task cur x" "task_state x = TASK_FAILED"
        "settled x w''" using job_handler_fails [OF w'(2) cur(4) same, of AgentError] by auto
      ultimately show ?thesis using w'(3) Inr by (intro exI [of _ x] exI [of _ w'']) simp
    qed
  qed
  then obtain x w' where x: "ecatch (execute_claimed sy j r p i False l) (job_handler sy r (Some l)) w2 = (Inr (), w')" "same_task cur x"
    "task_state x \<in> result_states out" "settled x w'" by blast
  have "lease_key l = record_key x" using h3 same_task_key [OF x(2)] by (simp add: holds_def)
  from settled_release [OF x(4) this] x(1) l(1)
  have "execute_job sy j r p i False w = (Inr (), noted w')"
    by (simp add: execute_job_def ebind_def etry_def efinally_def)
  moreover have "settled x (noted w')" using x(4) by simp
  ultimately show ?thesis using same_task_trans [OF same x(2)] x(3) by blast
qed

section \<open>Subscriptions\<close>

text \<open>
  A subscription yields, in order, exactly the events after the cursor of the last version of the Task it has seen.
\<close>

lemma events_after:
  assumes "tr_events c = tr_events r @ new" and "\<forall>e \<in> set new. tr_version r < ve_version e" and "\<forall>e \<in> set (tr_events r). ve_version e \<le> tr_version r"
    and "cursor' = (if filter (\<lambda>e. ve_version e > cursor) (tr_events r) = [] then cursor
      else Max (ve_version ` set (filter (\<lambda>e. ve_version e > cursor) (tr_events r))))"
  shows "filter (\<lambda>e. ve_version e > cursor) (tr_events c) =
    filter (\<lambda>e. ve_version e > cursor) (tr_events r) @ filter (\<lambda>e. ve_version e > cursor') (tr_events c)"
proof (cases "filter (\<lambda>e. ve_version e > cursor) (tr_events r) = []")
  case True
  with assms(4) show ?thesis by simp
next
  case False
  let ?vs = "ve_version ` set (filter (\<lambda>e. ve_version e > cursor) (tr_events r))"
  have ne: "?vs \<noteq> {}" "finite ?vs" using False by (auto simp del: set_filter)
  have m: "cursor' = Max ?vs" using assms(4) False by (simp del: set_filter)
  have in_vs: "cursor' \<in> ?vs" unfolding m by (rule Max_in [OF ne(2,1)])
  then have c: "cursor < cursor'" "cursor' \<le> tr_version r" using assms(3) by auto
  have "ve_version e \<le> cursor'" if "e \<in> set (tr_events r)" for e
  proof (cases "cursor < ve_version e")
    case True
    with that have "ve_version e \<in> ?vs" by auto
    then show ?thesis unfolding m using Max_ge [OF ne(2)] by blast
  qed (use c in simp)
  then have old: "filter (\<lambda>e. ve_version e > cursor') (tr_events r) = []" by (auto simp: filter_empty_conv not_less)
  have "filter (\<lambda>e. ve_version e > cursor) new = new" "filter (\<lambda>e. ve_version e > cursor') new = new"
    using assms(2) c by (auto simp: filter_id_conv)
  with old assms(1) show ?thesis by simp
qed

lemma wait_for_change_result:
  assumes "agent_world_ok w" and "seen r (aw_store w)"
    and "agent_call sy (\<lambda>_. wait_for_change (tr_tenant_id r) (tr_agent_interface_id r) (tk_id (tr_task r)) after) w = (Inr changed, w1)"
  shows "agent_world_ok w1 \<and> (\<forall>c. changed = Some c \<longrightarrow> record_forward r c \<and> seen c (aw_store w1)) \<and> seen r (aw_store w1)"
proof -
  let ?op = "\<lambda>_. wait_for_change (tr_tenant_id r) (tr_agent_interface_id r) (tk_id (tr_task r)) after"
  have "aspec (seen r) (agent_call sy ?op) (\<lambda>changed s. (\<forall>c. changed = Some c \<longrightarrow> record_forward r c \<and> seen c s) \<and> seen r s)"
  proof (rule aspec_call [OF seen_stable])
    fix s and t :: instant and changed
    assume s: "tasks_ok s" "seen r s" "fst (?op t s) = Inr changed"
    then obtain x where x: "dget (ts_records s) (record_key r) = Some x" "record_forward r x" by (auto simp: seen_def)
    moreover have "record_key x = record_key r" using x(2) same_task_key by (simp add: record_forward_def)
    ultimately have "seen x s" by (auto simp: seen_def)
    with s x show "(\<forall>c. changed = Some c \<longrightarrow> record_forward r c \<and> seen c (snd (?op t s))) \<and> seen r (snd (?op t s))"
      by (auto simp: wait_for_change_def elift_def record_key_def split: if_splits option.splits)
  qed (simp add: wait_for_change_def elift_def)
  then have "agent_path w (snd (agent_call sy ?op w)) \<and> (case fst (agent_call sy ?op w) of Inl _ \<Rightarrow> True
      | Inr changed \<Rightarrow> (\<forall>c. changed = Some c \<longrightarrow> record_forward r c \<and> seen c (aw_store (snd (agent_call sy ?op w)))) \<and>
          seen r (aw_store (snd (agent_call sy ?op w))))"
    using assms(1,2) unfolding aspec_def by blast
  then show ?thesis unfolding assms(3) fst_conv snd_conv sum.case using agent_path_ok assms(1) by blast
qed

lemma forward_events_le: "record_forward r c \<Longrightarrow> \<forall>e \<in> set (tr_events r). ve_version e \<le> tr_version r \<Longrightarrow>
    \<forall>e \<in> set (tr_events c). ve_version e \<le> tr_version c"
  using record_forward_version [of r c] by (fastforce simp: record_forward_def)

lemma wait_for_change_error:
  assumes "agents_calm r w"
  shows "\<not> isl (fst (agent_call sy (\<lambda>_. wait_for_change (tr_tenant_id r) (tr_agent_interface_id r) (tk_id (tr_task r)) after) w))"
proof -
  obtain x where "dget (ts_records (aw_store (disturbed w))) (record_key r) = Some x"
    using calm_stored [OF calm_disturbed [OF assms]] by blast
  moreover have "quiet w" using assms by (simp add: agents_calm_def)
  ultimately show ?thesis
    by (simp add: agent_call_quiet wait_for_change_def perform_reads record_key_def)
qed

lemma subscription_complete:
  assumes "agent_world_ok w" and "seen r (aw_store w)" and "\<forall>e \<in> set (tr_events r). ve_version e \<le> tr_version r"
    and "subscribe (Suc n) sy r cursor w = (events, ended, w')"
  shows "\<exists>final. record_forward r final \<and> events = map ve_event (filter (\<lambda>e. ve_version e > cursor) (tr_events final)) \<and>
    (quiet w \<and> ended \<longrightarrow> task_state final \<in> SETTLED_STATES)"
  using assms
proof (induction n arbitrary: r cursor w events)
  case 0
  have "agent_call sy (\<lambda>_. wait_for_change (tr_tenant_id r) (tr_agent_interface_id r) (tk_id (tr_task r)) after) w \<noteq> (Inl e, v)"
    if "quiet w" for after e v
    using wait_for_change_error [of r w sy after] that 0(1,2) by (auto simp: agents_calm_def)
  with 0(4) show ?case
    by (intro exI [of _ r]) (auto simp: Let_def split: if_splits sum.splits prod.splits)
next
  case (Suc n)
  let ?evs = "filter (\<lambda>e. ve_version e > cursor) (tr_events r)"
  define cursor' where "cursor' = (if ?evs = [] then cursor else Max (ve_version ` set ?evs))"
  obtain res w1 where call: "agent_call sy (\<lambda>_. wait_for_change (tr_tenant_id r) (tr_agent_interface_id r) (tk_id (tr_task r)) cursor') w = (res, w1)"
    by force
  show ?case
  proof (cases "task_state r \<in> SETTLED_STATES \<or> isl res")
    case True
    have "\<not> isl res" if "quiet w"
    proof -
      have "agents_calm r w" using that Suc.prems(1,2) by (simp add: agents_calm_def)
      from wait_for_change_error [OF this, of sy cursor'] call show ?thesis by simp
    qed
    with True Suc.prems(4) call show ?thesis
      by (intro exI [of _ r]) (auto simp: Let_def cursor'_def [symmetric] isl_def split: if_splits sum.splits)
  next
    case False
    then obtain changed where ch: "res = Inr changed" by (cases res) auto
    define c where "c = (case changed of None \<Rightarrow> r | Some c \<Rightarrow> c)"
    note wr = wait_for_change_result [OF Suc.prems(1,2) call [unfolded ch]]
    have c: "record_forward r c" "seen c (aw_store w1)" using wr by (auto simp: c_def split: option.split)
    obtain rest where rest: "subscribe (Suc n) sy c cursor' w1 = (rest, ended, w')" "events = map ve_event ?evs @ rest"
      using Suc.prems(4) False call ch
      by (auto simp: subscribe.simps(2) [of "Suc n"] Let_def cursor'_def [symmetric] c_def simp del: subscribe.simps split: prod.splits)
    have ok1: "agent_world_ok w1" using wr by blast
    from Suc.IH [OF ok1 c(2) forward_events_le [OF c(1) Suc.prems(3)] rest(1)]
    obtain final where f: "record_forward c final" "rest = map ve_event (filter (\<lambda>e. ve_version e > cursor') (tr_events final))"
      "quiet w1 \<and> ended \<longrightarrow> task_state final \<in> SETTLED_STATES" by blast
    have fwd: "record_forward r final" by (rule record_forward_trans [OF c(1) f(1)])
    then obtain new where new: "tr_events final = tr_events r @ new" "\<forall>e \<in> set new. tr_version r < ve_version e"
      by (auto simp: record_forward_def)
    have "quiet w1" if "quiet w"
      using that agent_call_env [of sy _ w] call unfolding quiet_def by (metis list.set_sel(2) snd_conv tl_Nil)
    with f(2,3) fwd rest(2) events_after [OF new Suc.prems(3) cursor'_def] show ?thesis
      by (intro exI [of _ final]) auto
  qed
qed

end
