(* ===== verification/A2A_Jobs.thy ===== *)
theory A2A_Jobs
  imports A2A_Service
begin

text \<open>
  The local jobs of the Task service: however launches, ends, done callbacks and cancellations interleave, at most one job
  per Task is unfinished, and a launch for a live Task is started or queued behind the unfinished job.
\<close>

definition jobs_ok :: "job_table \<Rightarrow> bool" where
  "jobs_ok t \<longleftrightarrow> (\<forall>k n. dget (jt_jobs t) k = Some n \<longrightarrow> n < length (jt_info t) \<and> jb_key (jt_info t ! n) = k) \<and>
     (\<forall>n < length (jt_info t). \<not> jb_done (jt_info t ! n) \<longrightarrow> dget (jt_jobs t) (jb_key (jt_info t ! n)) = Some n)"

inductive job_step :: "job_table \<Rightarrow> job_table \<Rightarrow> bool" where
  launched: "job_step t (launch r i a t)"
| ended: "n < length (jt_info t) \<Longrightarrow> job_step t (job_ends n t)"
| called_back: "n < length (jt_info t) \<Longrightarrow> jb_done (jt_info t ! n) \<Longrightarrow> job_step t (done_callbacks n t)"
| canceled: "job_step t (cancel_local k t)"

lemma jobs_ok_update:
  assumes "jobs_ok t" and "n < length (jt_info t)" and "jb_key j = jb_key (jt_info t ! n)" and "jb_done (jt_info t ! n) \<longrightarrow> jb_done j"
  shows "jobs_ok (t\<lparr>jt_info := (jt_info t)[n := j]\<rparr>)"
  using assms by (auto simp: jobs_ok_def nth_list_update)

lemma launch_ok:
  assumes "jobs_ok t"
  shows "jobs_ok (launch r i a t)"
proof (cases "task_state r \<notin> {TASK_SUBMITTED, TASK_WORKING}")
  case True
  with assms show ?thesis by (simp add: launch_def)
next
  case active: False
  let ?start = "t\<lparr>jt_jobs := dset (record_key r) (length (jt_info t)) (jt_jobs t),
      jt_info := jt_info t @ [\<lparr>jb_key = record_key r, jb_record = r, jb_input = i,
        jb_already_working = a, jb_cancel = False, jb_done = False, jb_queue = []\<rparr>]\<rparr>"
  have start: "jobs_ok ?start" if free: "\<And>n. dget (jt_jobs t) (record_key r) = Some n \<Longrightarrow> jb_done (jt_info t ! n)"
  proof -
    have "jb_key (jt_info t ! n) \<noteq> record_key r" if "n < length (jt_info t)" "\<not> jb_done (jt_info t ! n)" for n
      using assms that free [of n] unfolding jobs_ok_def by metis
    moreover have "n < length (jt_info t) \<and> jb_key (jt_info t ! n) = k" if "dget (jt_jobs t) k = Some n" for k n
      using assms that unfolding jobs_ok_def by blast
    moreover have "dget (jt_jobs t) (jb_key (jt_info t ! n)) = Some n" if "n < length (jt_info t)" "\<not> jb_done (jt_info t ! n)" for n
      using assms that unfolding jobs_ok_def by blast
    ultimately show ?thesis
      unfolding jobs_ok_def by (auto simp: nth_append less_Suc_eq simp del: split_paired_All split: if_splits)
  qed
  show ?thesis
  proof (cases "dget (jt_jobs t) (record_key r)")
    case None
    with start active show ?thesis by (simp add: launch_def Let_def)
  next
    case (Some n)
    then have n: "n < length (jt_info t)" using assms unfolding jobs_ok_def by blast
    show ?thesis
    proof (cases "jb_done (jt_info t ! n)")
      case True
      with start Some active show ?thesis by (simp add: launch_def Let_def)
    next
      case False
      with Some active jobs_ok_update [OF assms n] show ?thesis by (simp add: launch_def Let_def)
    qed
  qed
qed

lemma job_step_ok: "job_step t t' \<Longrightarrow> jobs_ok t \<Longrightarrow> jobs_ok t'"
proof (induction rule: job_step.induct)
  case (launched t r i a)
  then show ?case by (rule launch_ok)
next
  case (ended n t)
  then show ?case using jobs_ok_update [of t n "(jt_info t ! n)\<lparr>jb_done := True\<rparr>"] by (simp add: job_ends_def)
next
  case (called_back n t)
  let ?j = "jt_info t ! n"
  define t1 where "t1 = t\<lparr>jt_info := (jt_info t)[n := ?j\<lparr>jb_queue := []\<rparr>],
    jt_jobs := (if dget (jt_jobs t) (jb_key ?j) = Some n then dpop (jb_key ?j) (jt_jobs t) else jt_jobs t)\<rparr>"
  have "jobs_ok t1"
    unfolding jobs_ok_def
  proof (intro conjI allI impI)
    fix k m
    assume "dget (jt_jobs t1) k = Some m"
    then have "dget (jt_jobs t) k = Some m" by (auto simp: t1_def split: if_splits)
    then have "m < length (jt_info t)" "jb_key (jt_info t ! m) = k" using called_back(3) unfolding jobs_ok_def by blast+
    then show "m < length (jt_info t1)" "jb_key (jt_info t1 ! m) = k" by (cases "m = n"; simp add: t1_def)+
  next
    fix m
    assume m: "m < length (jt_info t1)" "\<not> jb_done (jt_info t1 ! m)"
    with called_back(1,2) have ne: "m \<noteq> n" by (auto simp: t1_def)
    with m have m': "m < length (jt_info t)" "\<not> jb_done (jt_info t ! m)" "jt_info t1 ! m = jt_info t ! m" by (simp_all add: t1_def)
    then have "dget (jt_jobs t) (jb_key (jt_info t ! m)) = Some m" using called_back(3) unfolding jobs_ok_def by blast
    with ne m'(3) show "dget (jt_jobs t1) (jb_key (jt_info t1 ! m)) = Some m" by (auto simp: t1_def)
  qed
  then have "jobs_ok (fold (\<lambda>(r, i, a). launch r i a) qs t1)" for qs
    by (induction qs arbitrary: t1) (auto simp: launch_ok)
  then show ?case by (simp add: done_callbacks_def Let_def t1_def)
next
  case (canceled t k)
  show ?case
  proof (cases "dget (jt_jobs t) k")
    case (Some n)
    then have "n < length (jt_info t)" using canceled unfolding jobs_ok_def by blast
    with Some jobs_ok_update [OF canceled this, of "(jt_info t ! n)\<lparr>jb_cancel := True\<rparr>"] show ?thesis by (simp add: cancel_local_def)
  qed (use canceled in \<open>simp add: cancel_local_def\<close>)
qed

lemma job_steps_ok: "job_step\<^sup>*\<^sup>* t t' \<Longrightarrow> jobs_ok t \<Longrightarrow> jobs_ok t'"
  by (induction rule: rtranclp_induct) (auto intro: job_step_ok)

lemma launch_registered:
  assumes "jobs_ok t" and "task_state r \<in> {TASK_SUBMITTED, TASK_WORKING}"
  shows "\<exists>n. dget (jt_jobs (launch r i a t)) (record_key r) = Some n \<and> \<not> jb_done (jt_info (launch r i a t) ! n) \<and>
    (jb_record (jt_info (launch r i a t) ! n) = r \<and> jb_input (jt_info (launch r i a t) ! n) = i \<or>
     (r, i, a) \<in> set (jb_queue (jt_info (launch r i a t) ! n)))"
proof (cases "\<exists>n. dget (jt_jobs t) (record_key r) = Some n \<and> \<not> jb_done (jt_info t ! n)")
  case True
  then obtain n where n: "dget (jt_jobs t) (record_key r) = Some n" "\<not> jb_done (jt_info t ! n)" by blast
  then have "n < length (jt_info t)" using assms(1) unfolding jobs_ok_def by blast
  with n assms(2) show ?thesis by (auto simp: launch_def Let_def)
next
  case False
  with assms(2) show ?thesis by (cases "dget (jt_jobs t) (record_key r)") (auto simp: launch_def Let_def)
qed

end
