(* ===== verification/A2A_Properties.thy ===== *)
theory A2A_Properties
  imports A2A_Outcome A2A_Jobs "HOL-Library.Code_Target_Nat"
begin

text \<open>
  The properties of the agent Task service, with the concrete Tasks of their witnesses: Tasks only move forward and are rebuilt
  by their events under every interleaving, jobs and waits end, subscribers and listings are complete; and where the service
  does not do what it means to.
\<close>

section \<open>Concrete Tasks\<close>

definition no_jobs :: job_table where
  "no_jobs = \<lparr>jt_jobs = [], jt_info = []\<rparr>"

definition one_job :: job_table where
  "one_job = launch demo_task None False no_jobs"

definition agent_start :: "task_store \<Rightarrow> job_table \<Rightarrow>
    (agent_exc option \<times> (task_store \<Rightarrow> task_store) \<times> (job_table \<Rightarrow> job_table)) list \<Rightarrow> agent_world" where
  "agent_start s jobs env = \<lparr>aw_store = s, aw_jobs = jobs, aw_env = env, aw_tick = 0, aw_trace = [s]\<rparr>"

definition plan_profile :: AgentProfile where
  "plan_profile = specified_profile ''http://x'' (specifications ! 2)"

definition plan_output :: ArtifactOutput where
  "plan_output = \<lparr>ao_contract = ''ItineraryPlan@1'', ao_payload = [], ao_artifact_id = Some ''plan1'', ao_name = ''plan'', ao_description = None\<rparr>"


definition demo_agents :: agent_sys where
  "demo_agents = \<lparr>as_clock = (\<lambda>n. 100 + 10 * int n), as_uuid = (\<lambda>n. replicate (n + 1) CHR ''u''), as_iso = (\<lambda>_. ''2026''),
     as_fingerprint = (\<lambda>m. ms_message_id m), as_size = (\<lambda>_. 1),
     as_parse_dispatch = (\<lambda>_. Some \<lparr>dsp_dispatch_id = ''d1'', dsp_run_id = ''run1'', dsp_deadline = None\<rparr>),
     as_parse_part = (\<lambda>_. Some \<lparr>sp_schema_uri = INPUT_RESPONSE_SCHEMA_URI, sp_schema_version = 1\<rparr>),
     as_parse_invocation = (\<lambda>_. None),
     as_parse_input = (\<lambda>o'. case dget o' ''request_id'' of Some (JStr i) \<Rightarrow> Some \<lparr>ip_request_id = i, ip_values = []\<rparr> | _ \<Rightarrow> None),
     as_decode_page = (\<lambda>t. Some (int (length t))), as_encode_page = (\<lambda>n. replicate (nat n) CHR ''p''),
     as_contract_valid = (\<lambda>_ _. True), as_registry = [(''planner'', plan_profile)],
     as_executor = (\<lambda>_ _ _ _. Inr (CompletedExecution [plan_output])), as_service_id = ''s1'', as_lease_us = 15000000\<rparr>"

definition bob_actor :: A2AActor where
  "bob_actor = \<lparr>aa_tenant_id = ''t1'', aa_actor_id = ''bob_actor'', aa_roles = {}, aa_authorization_epoch = 0\<rparr>"

lemma empty_tasks_ok: "tasks_ok empty_task_store"
  unfolding tasks_ok_def using task_inv_empty by (simp add: empty_task_store_def)

lemma reached_ok: "agent_step\<^sup>*\<^sup>* empty_task_store s \<Longrightarrow> tasks_ok s"
  using agent_steps_ok empty_tasks_ok by blast

lemma tasks1_reached: "agent_step\<^sup>*\<^sup>* empty_task_store tasks1" "tasks_ok tasks1" "dget (ts_records tasks1) (record_key demo_task) = Some demo_task"
proof -
  have "fresh_task demo_task" by (simp add: fresh_task_def demo_task_def state_numbers)
  then show s: "agent_step\<^sup>*\<^sup>* empty_task_store tasks1" unfolding tasks1_def by (blast intro: agent_step.created)
  show "tasks_ok tasks1" by (rule reached_ok [OF s])
  show "dget (ts_records tasks1) (record_key demo_task) = Some demo_task" by code_simp
qed

text \<open>Somebody else cancels the Task at one suspension.\<close>

definition cancels :: "task_store \<Rightarrow> task_store" where
  "cancels s = aw_store (snd (cancel_task demo_agents bob_actor ''planner'' ''t1'' ''task1'' (agent_start s no_jobs [])))"

lemma program_env: "safe m \<Longrightarrow> tasks_ok s \<Longrightarrow> agent_step\<^sup>*\<^sup>* s (aw_store (snd (m (agent_start s jobs []))))"
  unfolding aspec_def agent_path_def
  by (metis agent_env_ok_def agent_start_def agent_world.simps(1,3) agent_world_ok_def empty_iff list.set(1))

lemma cancels_ok: "agent_env_ok [(None, id, id), (None, cancels, id)]"
  using program_env [OF safe_cancel] by (simp add: agent_env_ok_def cancels_def)

section \<open>Tasks under interleaving\<close>

datatype agent_request =
    Rq_job nat TaskRecord AgentProfile "InputResponse option" bool
  | Rq_heartbeat TaskExecutionLease
  | Rq_send nat A2AActor string SendMessageRequest "string set"
  | Rq_get A2AActor string string string
  | Rq_recover nat A2AActor string string string bool
  | Rq_cancel A2AActor string string string
  | Rq_cancel_run A2AActor string

fun run_agent :: "agent_sys \<Rightarrow> agent_request \<Rightarrow> unit agent_co" where
  "run_agent sy (Rq_job n r p i a) = execute_job sy n r p i a"
| "run_agent sy (Rq_heartbeat l) = ebind (heartbeat_execution sy l) (\<lambda>_. eret ())"
| "run_agent sy (Rq_send n actor iface q ext) = ebind (send_message n sy actor iface q ext) (\<lambda>_. eret ())"
| "run_agent sy (Rq_get actor iface tenant i) = ebind (service_get_task sy actor iface tenant i) (\<lambda>_. eret ())"
| "run_agent sy (Rq_recover n actor iface run d wait) = ebind (recover_dispatch n sy actor iface run d wait) (\<lambda>_. eret ())"
| "run_agent sy (Rq_cancel actor iface tenant i) = ebind (cancel_task sy actor iface tenant i) (\<lambda>_. eret ())"
| "run_agent sy (Rq_cancel_run actor run) = ebind (cancel_run_tasks sy actor run) (\<lambda>_. eret ())"

lemma safe_run_agent: "safe (run_agent sy q)"
  by (cases q) (auto intro!: aspecs simp del: eret_def)

text \<open>
  C13. Tasks only move forward: whatever the service executes on a reachable store (a job, a request, a cancellation), whatever
  other workers and requests do at its suspensions by steps of the Task life cycle, and whatever exceptions are thrown in
  there, every store passed through has each Task of an earlier one, with its identity, with the events of before as the first of its
  events, with a higher version if anything changed, and unchanged if it was completed, failed, canceled or rejected. The service itself takes only
  steps of the life cycle.
\<close>

theorem agent_tasks_move_forward:
  assumes "agent_step\<^sup>*\<^sup>* empty_task_store s" and "agent_env_ok env"
  shows "sorted_wrt tasks_forward (aw_trace (snd (run_agent sy q (agent_start s jobs env)))) \<and>
    agent_step\<^sup>*\<^sup>* s (aw_store (snd (run_agent sy q (agent_start s jobs env))))"
proof -
  let ?w = "agent_start s jobs env" and ?w' = "snd (run_agent sy q (agent_start s jobs env))"
  have ok: "tasks_ok s" by (rule reached_ok [OF assms(1)])
  then have "agent_world_ok ?w" using assms(2) by (simp add: agent_world_ok_def agent_start_def)
  then have path: "agent_path ?w ?w'" using safe_run_agent [of sy q] by (simp add: aspec_def)
  then obtain new where new: "aw_trace ?w' = s # new" "sorted_wrt agent_step\<^sup>*\<^sup>* (s # new)"
    by (auto simp: agent_path_def agent_start_def sorted_wrt_append)
  have "tasks_forward x y" if "x \<in> set (s # new)" "agent_step\<^sup>*\<^sup>* x y" for x y
  proof -
    have "agent_step\<^sup>*\<^sup>* s x" using that(1) new(2) by auto
    then show ?thesis using agent_steps_forward [OF that(2)] agent_steps_ok ok by blast
  qed
  then have "sorted_wrt tasks_forward (s # new)" using sorted_wrt_mono_rel [OF _ new(2)] by blast
  with new(1) path show ?thesis by (simp add: agent_path_def agent_start_def)
qed

theorem agent_tasks_move_forward_witness:
  "sorted_wrt tasks_forward (aw_trace (snd (run_agent demo_agents (Rq_job 0 demo_task plan_profile None False)
     (agent_start tasks1 one_job [(None, id, id), (None, cancels, id)]))))"
  using agent_tasks_move_forward [OF tasks1_reached(1) cancels_ok] by blast


definition tasks_done :: task_store where
  "tasks_done = aw_store (snd (execute_job demo_agents 0 demo_task plan_profile None False (agent_start tasks1 one_job [])))"



section \<open>Jobs and waits end\<close>


definition still :: agent_sys where
  "still = demo_agents\<lparr>as_clock := (\<lambda>_. 100)\<rparr>"


text \<open>
  C16. Waiting for a Task ends: \<open>_wait_until_settled\<close>, whatever others do to the Tasks in steps of their life cycle at its
  suspensions, returns a settled version of its Task, at the latest when the clock has passed the deadline of the
  Task; as many rounds as the script has entries and the clock has readings before the deadline, and three more, are enough.
\<close>

theorem waiting_for_task_ends:
  assumes "agent_step\<^sup>*\<^sup>* empty_task_store s" and "dget (ts_records s) (record_key r) = Some r"
    and "agent_env_ok env" and "\<forall>(x, f, g) \<in> set env. x = None" and "\<forall>n \<ge> N. tr_deadline r \<le> as_clock sy n"
    and "length env + N + 3 \<le> rounds"
  shows "\<exists>r' w'. wait_until_settled rounds sy r (agent_start s jobs env) = (Inr r', w') \<and> same_task r r' \<and>
    task_state r' \<in> SETTLED_STATES"
proof (rule waiting_returns [OF assms(5)])
  show "agents_calm r (agent_start s jobs env)"
    using reached_ok [OF assms(1)] assms(2-4)
    by (auto simp: agents_calm_def agent_start_def agent_world_ok_def quiet_def seen_def)
  show "waiting N r (agent_start s jobs env) < rounds"
    using assms(6) by (simp add: waiting_def agent_start_def)
qed

theorem waiting_for_task_ends_witness:
  "\<exists>r' w'. wait_until_settled 100 demo_agents demo_task (agent_start tasks1 no_jobs [(None, id, id), (None, cancels, id)]) = (Inr r', w') \<and>
     task_state r' \<in> SETTLED_STATES"
proof -
  have "\<forall>n \<ge> 90. tr_deadline demo_task \<le> as_clock demo_agents n" by (auto simp: demo_task_def demo_agents_def)
  from waiting_for_task_ends [where jobs = no_jobs and rounds = 100, OF tasks1_reached(1,3) cancels_ok _ this] show ?thesis by auto
qed

section \<open>Reading Tasks\<close>

text \<open>
  C31. Subscribers miss nothing: a subscription to a stored Task from any version on yields, under any activity of others in steps of the life
  cycle, exactly the later events of some later version of the Task, each once and in order; and when it has ended and no exception was thrown in,
  that version is settled.
\<close>

theorem subscribers_miss_nothing:
  assumes "agent_step\<^sup>*\<^sup>* empty_task_store s" and "dget (ts_records s) (record_key r) = Some r" and "agent_env_ok env"
    and "subscribe (Suc n) sy r after (agent_start s jobs env) = (events, ended, w')"
  shows "\<exists>final. record_forward r final \<and> events = map ve_event (filter (\<lambda>e. ve_version e > after) (tr_events final)) \<and>
    ((\<forall>(x, f, g) \<in> set env. x = None) \<and> ended \<longrightarrow> task_state final \<in> SETTLED_STATES)"
proof -
  have ok: "tasks_ok s" by (rule reached_ok [OF assms(1)])
  have "\<forall>e \<in> set (tr_events r). ve_version e \<le> tr_version r"
    using tasks_okD(2) [OF ok assms(2)] by (force simp: record_ok_def)
  from subscription_complete [OF _ _ this assms(4)] ok assms(2,3) show ?thesis
    by (auto simp: agent_start_def agent_world_ok_def quiet_def seen_def)
qed

definition completes :: "task_store \<Rightarrow> task_store" where
  "completes s = aw_store (snd (execute_job still 0 demo_task plan_profile None False (agent_start s one_job [])))"

theorem subscribers_miss_nothing_witness:
  "\<exists>events w' final. subscribe 3 still demo_task 1 (agent_start tasks1 no_jobs [(None, completes, id)]) = (events, True, w') \<and>
     events = map ve_event (filter (\<lambda>e. ve_version e > 1) (tr_events final)) \<and> task_state final \<in> SETTLED_STATES \<and> length events = 3"
proof -
  let ?s = "subscribe (Suc 2) still demo_task 1 (agent_start tasks1 no_jobs [(None, completes, id)])"
  have "fst (snd ?s)" "length (fst ?s) = 3" by code_simp+
  then obtain events w' where e: "?s = (events, True, w')" "length events = 3" by (cases ?s) auto
  have "agent_env_ok [(None, completes, id)]"
    using program_env [OF safe_execute_job] by (simp add: agent_env_ok_def completes_def)
  from subscribers_miss_nothing [OF tasks1_reached(1,3) this e(1)] e show ?thesis by (auto simp: numeral_3_eq_3 numeral_2_eq_2)
qed

text \<open>The Tasks of all pages that a caller gets by following the page tokens.\<close>

primrec all_pages :: "nat \<Rightarrow> agent_sys \<Rightarrow> A2AActor \<Rightarrow> string \<Rightarrow> ListTasksRequest \<Rightarrow> agent_world \<Rightarrow> Task list" where
  "all_pages 0 sy actor iface q w = []"
| "all_pages (Suc n) sy actor iface q w =
     (case on_list_tasks sy (Some actor) iface q w of
        (Inl _, _) \<Rightarrow> []
      | (Inr p, w1) \<Rightarrow> lp_tasks p @ (if lp_next_page_token p = [] then []
          else all_pages n sy actor iface (q\<lparr>lq_page_token := lp_next_page_token p\<rparr>) w1))"

definition listed :: "ListTasksRequest \<Rightarrow> A2AActor \<Rightarrow> string \<Rightarrow> task_store \<Rightarrow> TaskRecord list" where
  "listed q actor iface s = list_tasks s (aa_tenant_id actor) iface
     (if lq_context_id q = [] then None else Some (lq_context_id q)) (if lq_status q = 0 then None else Some (lq_status q))"

definition page_size :: "ListTasksRequest \<Rightarrow> int" where
  "page_size q = (if lq_page_size q = 0 then 50 else lq_page_size q)"

lemma relaunch_all:
  "\<exists>t. efor (\<lambda>r. ewhen (task_state r \<in> {TASK_SUBMITTED, TASK_WORKING}) (relaunch r)) rs w = (Inr (), w\<lparr>aw_jobs := t\<rparr>)"
proof (induction rs arbitrary: w)
  case Nil
  show ?case by (rule exI [of _ "aw_jobs w"]) simp
next
  case (Cons r rs)
  have "\<exists>t. ewhen (task_state r \<in> {TASK_SUBMITTED, TASK_WORKING}) (relaunch r) w = (Inr (), w\<lparr>aw_jobs := t\<rparr>)"
    by (cases "task_state r \<in> {TASK_SUBMITTED, TASK_WORKING}") (auto simp: ewhen_def relaunch_world intro: exI [of _ "aw_jobs w"])
  then obtain t where t: "ewhen (task_state r \<in> {TASK_SUBMITTED, TASK_WORKING}) (relaunch r) w = (Inr (), w\<lparr>aw_jobs := t\<rparr>)" by blast
  obtain t' where "efor (\<lambda>r. ewhen (task_state r \<in> {TASK_SUBMITTED, TASK_WORKING}) (relaunch r)) rs (w\<lparr>aw_jobs := t\<rparr>) =
      (Inr (), w\<lparr>aw_jobs := t\<rparr>\<lparr>aw_jobs := t'\<rparr>)" using Cons.IH by blast
  with t show ?case by (auto simp: ebind_def)
qed

definition page_response :: "agent_sys \<Rightarrow> ListTasksRequest \<Rightarrow> TaskRecord list \<Rightarrow> nat \<Rightarrow> ListTasksResponse" where
  "page_response sy q records k =
     (let page = take (nat (page_size q)) (drop k records); after = int k + int (length page) in
      \<lparr>lp_tasks = map (\<lambda>r. project_task (tr_task r) (Some (lq_history_length q)) (lq_include_artifacts q)) page,
       lp_next_page_token = (if after < int (length records) then as_encode_page sy after else []),
       lp_page_size = int (length page), lp_total_size = int (length records)\<rparr>)"

lemma list_tasks_page:
  assumes "aw_env w = []" and "lq_tenant q = aa_tenant_id actor" and "aa_tenant_id actor \<noteq> []"
    and "dget (as_registry sy) iface \<noteq> None" and "1 \<le> page_size q" and "page_size q \<le> 100" and "0 \<le> lq_history_length q" and "lq_history_length q \<le> 100"
    and "lq_status_timestamp_after q = None" and "page_offset sy (lq_page_token q) = eret (int k)"
  shows "\<exists>w'. on_list_tasks sy (Some actor) iface q w = (Inr (page_response sy q (listed q actor iface (aw_store w)) k), w') \<and>
    aw_env w' = [] \<and> aw_store w' = aw_store w"
proof -
  obtain p where p: "dget (as_registry sy) iface = Some p" using assms(4) by blast
  obtain t where t: "efor (\<lambda>r. ewhen (task_state r \<in> {TASK_SUBMITTED, TASK_WORKING}) (relaunch r)) (listed q actor iface (aw_store w)) (noted w) =
      (Inr (), (noted w)\<lparr>aw_jobs := t\<rparr>)" using relaunch_all by blast
  have sz: "(if lq_page_size q = 0 then 50 else lq_page_size q) = page_size q" by (simp add: page_size_def)
  have l: "service_list_tasks sy actor iface (lq_tenant q) (if lq_context_id q = [] then None else Some (lq_context_id q))
      (if lq_status q = 0 then None else Some (lq_status q)) w = (Inr (listed q actor iface (aw_store w)), (noted w)\<lparr>aw_jobs := t\<rparr>)"
    using t assms(1-3) p
    by (simp add: service_list_tasks_def assert_tenant_of_def find_profile_def get_profile_def ebind_def agent_call_def perform_reads listed_def)
  show ?thesis
    unfolding on_list_tasks_def sz Let_def
    using assms(1,5-10) l by (simp add: ebind_def actor_of_def updated_after_def noted_def page_response_def Let_def del: length_take)
qed

text \<open>
  Paging lists every Task once: a caller who follows the page tokens of \<open>on_list_tasks\<close> on an unchanging store gets the Tasks
  that match the request, in order, without gaps or repetitions, whatever the page size; provided page tokens read back as the offsets
  they were made of.
\<close>

theorem pages_list_every_task:
  assumes "lq_tenant q = aa_tenant_id actor" and "aa_tenant_id actor \<noteq> []" and "dget (as_registry sy) iface \<noteq> None"
    and "1 \<le> page_size q" and "page_size q \<le> 100" and "0 \<le> lq_history_length q" and "lq_history_length q \<le> 100"
    and "lq_status_timestamp_after q = None" and "lq_page_token q = []"
    and "\<forall>k > 0. as_decode_page sy (as_encode_page sy k) = Some k \<and> as_encode_page sy k \<noteq> []"
    and "length (listed q actor iface s) < n"
  shows "all_pages n sy actor iface q (agent_start s jobs []) =
    map (\<lambda>r. project_task (tr_task r) (Some (lq_history_length q)) (lq_include_artifacts q)) (listed q actor iface s)"
proof -
  let ?all = "listed q actor iface s" and ?show = "\<lambda>r. project_task (tr_task r) (Some (lq_history_length q)) (lq_include_artifacts q)"
  have pages: "all_pages m sy actor iface (q\<lparr>lq_page_token := token\<rparr>) w = map ?show (drop k ?all)"
    if "aw_env w = []" "aw_store w = s" "page_offset sy token = eret (int k)" "length ?all < m + k" "k \<le> length ?all" for m token k w
    using that
  proof (induction m arbitrary: token k w)
    case (Suc m)
    let ?q = "q\<lparr>lq_page_token := token\<rparr>"
    have same: "listed ?q = listed q" "page_size ?q = page_size q" by (simp_all add: listed_def page_size_def fun_eq_iff)
    let ?page = "take (nat (page_size q)) (drop k ?all)"
    let ?after = "int k + int (length ?page)"
    let ?next = "if ?after < int (length ?all) then as_encode_page sy ?after else []"
    have po: "page_offset sy (lq_page_token ?q) = eret (int k)" using Suc.prems(3) by (simp del: eret_def)
    obtain w' where pg: "on_list_tasks sy (Some actor) iface ?q w = (Inr (page_response sy q ?all k), w')" and w': "aw_env w' = []" "aw_store w' = s"
      using list_tasks_page [OF Suc.prems(1) _ assms(2,3) _ _ _ _ _ po] assms Suc.prems(2) same by (auto simp: page_response_def)
    have w1: "lp_tasks (page_response sy q ?all k) = map ?show ?page" "lp_next_page_token (page_response sy q ?all k) = ?next"
      by (simp_all add: page_response_def Let_def del: length_take)
    show ?case
    proof (cases "?after < int (length ?all)")
      case True
      then have "length ?page = nat (page_size q)" by simp
      then have pos: "0 < length ?page" using assms(4) by simp
      then have tok: "as_decode_page sy (as_encode_page sy ?after) = Some ?after" "as_encode_page sy ?after \<noteq> []" using assms(10) by auto
      have off: "page_offset sy (as_encode_page sy ?after) = eret (int (k + length ?page))"
        using tok by (simp add: page_offset_def)
      have "length ?all < m + (k + length ?page)" "k + length ?page \<le> length ?all" using Suc.prems(4) pos True by linarith+
      from Suc.IH [OF w' off this] have "all_pages m sy actor iface (q\<lparr>lq_page_token := as_encode_page sy ?after\<rparr>) w' =
          map ?show (drop (k + length ?page) ?all)" .
      moreover have "drop k ?all = ?page @ drop (k + length ?page) ?all"
        by (metis \<open>length ?page = nat (page_size q)\<close> add.commute append_take_drop_id drop_drop)
      ultimately show ?thesis using pg w1 True tok(2) by (simp flip: map_append del: length_take)
    next
      case False
      then have "?page = drop k ?all" by (auto simp: min_def split: if_splits)
      with pg w1 False show ?thesis by (simp del: length_take)
    qed
  qed simp
  have "page_offset sy [] = eret (int 0)" by (simp add: page_offset_def)
  moreover have "q\<lparr>lq_page_token := []\<rparr> = q" using assms(9) by (cases q) simp
  ultimately show ?thesis using pages [of "agent_start s jobs []" "[]" 0 n] assms(11) by (simp add: agent_start_def del: eret_def)
qed

definition list_request :: ListTasksRequest where
  "list_request = \<lparr>lq_tenant = ''t1'', lq_page_size = 1, lq_history_length = 0, lq_status = 0, lq_context_id = [],
     lq_status_timestamp_after = None, lq_page_token = [], lq_include_artifacts = True\<rparr>"

definition two_tasks :: task_store where
  "two_tasks = snd (create_or_get (demo_task\<lparr>tr_dispatch_id := ''d2'', tr_task := (tr_task demo_task)\<lparr>tk_id := ''task2''\<rparr>\<rparr>) tasks1)"

theorem pages_list_every_task_witness:
  "map tk_id (all_pages 5 demo_agents bob_actor ''planner'' list_request (agent_start two_tasks no_jobs [])) = [''task1'', ''task2'']"
proof -
  have "map (tk_id \<circ> (\<lambda>r. project_task (tr_task r) (Some 0) True)) (listed list_request bob_actor ''planner'' two_tasks) = [''task1'', ''task2'']"
    "length (listed list_request bob_actor ''planner'' two_tasks) < 5" by code_simp+
  moreover have "\<forall>k > 0. as_decode_page demo_agents (as_encode_page demo_agents k) = Some k \<and> as_encode_page demo_agents k \<noteq> []"
    by (simp add: demo_agents_def)
  moreover have "all_pages 5 demo_agents bob_actor ''planner'' list_request (agent_start two_tasks no_jobs []) =
      map (\<lambda>r. project_task (tr_task r) (Some (lq_history_length list_request)) (lq_include_artifacts list_request)) (listed list_request bob_actor ''planner'' two_tasks)"
    by (rule pages_list_every_task)
      (use calculation in \<open>simp_all add: list_request_def bob_actor_def page_size_def demo_agents_def\<close>)
  ultimately show ?thesis by (simp add: list_request_def)
qed

section \<open>Where the service goes wrong\<close>







definition working :: task_store where
  "working = aw_store (snd (ebind (agent_call still (claim_execution ''t1'' ''planner'' ''task1'' ''w1'' 15000000))
     (transition_task still demo_task {TASK_SUBMITTED} TASK_WORKING None [] None) (agent_start tasks1 no_jobs [])))"

text \<open>
  A worker that never got the lease fails the Task of the one that has it: when claiming the lease raises (a lost database connection), the job
  has no lease and its handler marks the Task as failed without one, although another worker holds the lease and is executing the Task.
\<close>

theorem unclaimed_job_fails_others_task:
  "map_option (\<lambda>l. (tl_owner l, tl_lease_until l > 100)) (dget (ts_execution_leases working) (record_key demo_task)) = Some (''w1'', True) \<and>
   map_option task_state (dget (ts_records working) (record_key demo_task)) = Some TASK_WORKING \<and>
   map_option task_state (dget (ts_records (aw_store (snd (execute_job still 0 demo_task plan_profile None True
     (agent_start working one_job [(Some AgentError, id, id)]))))) (record_key demo_task)) = Some TASK_FAILED"
  by (intro conjI; code_simp)

text \<open>
  Listing Tasks by the time of their status raises: with \<open>status_timestamp_after\<close> set, the first listed Task that has ever been
  updated makes the comparison of a datetime without zone with one that has a zone raise.
\<close>

theorem listing_by_time_raises:
  "fst (on_list_tasks still (Some bob_actor) ''planner'' (list_request\<lparr>lq_status_timestamp_after := Some 0\<rparr>) (agent_start tasks_done no_jobs [])) =
     Inl PyTypeError"
  by code_simp

end
