(* ===== verification/Contracts.thy ===== *)
theory Contracts
  imports Money V1_Models
begin

text \<open>
  The versioned contracts of \<^verbatim>\<open>packages/python/routepilot_contracts\<close> (\<^verbatim>\<open>common.py\<close> and
  \<^verbatim>\<open>artifacts.py\<close>) that planning, validation and replanning exchange. A contract class is a record
  (artifact classes extend \<open>ArtifactBase\<close>, as in the source), a \<^verbatim>\<open>Literal\<close> or enumeration a datatype.
  For every class, \<open><class>_ok\<close> is what constructing an instance checks on its own level: field
  constraints and the model validator. Nested models were checked when they were built, and
  \<open>construct\<close> is the constructor call.

  A date is its ordinal and a wall-clock time the microseconds since midnight. Money amounts stay
  strings; other \<^verbatim>\<open>Decimal\<close> fields are rationals. Whether the zone database has a name is an
  argument, \<open>tz_known\<close>. URIs and texts are kept as given; whitespace stripping of pydantic is
  taken as done.
\<close>

section \<open>Scalars\<close>

definition is_lower :: "char \<Rightarrow> bool" where
  "is_lower c \<longleftrightarrow> c \<in> set ''abcdefghijklmnopqrstuvwxyz''"

definition identifier_char :: "char \<Rightarrow> bool" where
  "identifier_char c \<longleftrightarrow> is_lower c \<or> is_digit c \<or> c \<in> set ''_:-''"

definition Identifier :: "string \<Rightarrow> bool" where
  "Identifier s \<longleftrightarrow> 3 \<le> length s \<and> length s \<le> 128 \<and> is_lower (hd s) \<and> list_all identifier_char (tl s)"

definition NonEmptyText :: "string \<Rightarrow> bool" where
  "NonEmptyText s \<longleftrightarrow> 1 \<le> length s \<and> length s \<le> 2000"

definition ShortText :: "string \<Rightarrow> bool" where
  "ShortText s \<longleftrightarrow> 1 \<le> length s \<and> length s \<le> 256"

definition version_text :: "nat \<Rightarrow> string \<Rightarrow> bool" where
  "version_text n s \<longleftrightarrow> 1 \<le> length s \<and> length s \<le> n"

definition CountryCode :: "string \<Rightarrow> bool" where
  "CountryCode s \<longleftrightarrow> length s = 2 \<and> list_all (\<lambda>c. c \<in> set ''ABCDEFGHIJKLMNOPQRSTUVWXYZ'') s"

definition IanaTimezone :: "(string \<Rightarrow> bool) \<Rightarrow> string \<Rightarrow> bool" where
  "IanaTimezone tz_known s \<longleftrightarrow> 1 \<le> length s \<and> length s \<le> 64 \<and> tz_known s"

definition opt_ok :: "('a \<Rightarrow> bool) \<Rightarrow> 'a option \<Rightarrow> bool" where
  "opt_ok P x = (case x of None \<Rightarrow> True | Some a \<Rightarrow> P a)"

text \<open>Constructing an instance validates it; pydantic's \<^verbatim>\<open>ValidationError\<close> is a \<^verbatim>\<open>ValueError\<close>.\<close>

datatype contract_error = ValidationError | ValueErr string | IndexErr

definition construct :: "('a \<Rightarrow> bool) \<Rightarrow> 'a \<Rightarrow> contract_error + 'a" where
  "construct ok x = (if ok x then Inr x else Inl ValidationError)"

text \<open>Computations that may raise and keep no state.\<close>

definition sbind :: "'e + 'a \<Rightarrow> ('a \<Rightarrow> 'e + 'b) \<Rightarrow> 'e + 'b" where
  "sbind m f = (case m of Inl e \<Rightarrow> Inl e | Inr a \<Rightarrow> f a)"

fun sfold :: "('a \<Rightarrow> 's \<Rightarrow> 'e + 's) \<Rightarrow> 'a list \<Rightarrow> 's \<Rightarrow> 'e + 's" where
  "sfold f [] s = Inr s"
| "sfold f (x # xs) s = sbind (f x s) (sfold f xs)"

text \<open>A loop with \<^verbatim>\<open>break\<close>: the step says whether to stop.\<close>

fun sloop :: "('a \<Rightarrow> 's \<Rightarrow> 'e + bool \<times> 's) \<Rightarrow> 'a list \<Rightarrow> 's \<Rightarrow> 'e + 's" where
  "sloop f [] s = Inr s"
| "sloop f (x # xs) s = sbind (f x s) (\<lambda>(stop, s'). if stop then Inr s' else sloop f xs s')"

fun smap :: "('a \<Rightarrow> 'e + 'b) \<Rightarrow> 'a list \<Rightarrow> 'e + 'b list" where
  "smap f [] = Inr []"
| "smap f (x # xs) = sbind (f x) (\<lambda>y. sbind (smap f xs) (\<lambda>ys. Inr (y # ys)))"

lemma sbind_simps [simp]: "sbind (Inl e) f = Inl e" "sbind (Inr a) f = f a"
  by (simp_all add: sbind_def)

lemma sbind_Inr: "sbind m f = Inr b \<longleftrightarrow> (\<exists>a. m = Inr a \<and> f a = Inr b)"
  by (cases m) simp_all

lemma construct_Inr [simp]: "construct ok x = Inr y \<longleftrightarrow> y = x \<and> ok x"
  by (auto simp: construct_def)

section \<open>Enumerations\<close>

datatype ArtifactType =
    AT_TravelQuestion | AT_TravelAnswer | AT_TripBrief | AT_EvidenceBundle | AT_CandidateSet
  | AT_ItineraryPlan | AT_ConstraintReport | AT_SemanticRiskReport | AT_ValidationReport
  | AT_TripSnapshot | AT_ShareSnapshot

datatype SourceKind = SK_user | SK_rag | SK_provider | SK_agent | SK_policy | SK_system

datatype CoordinateSystem = WGS84 | GCJ02 | BD09

datatype FreshnessStatus = FRESH | STALE | EXPIRED | UNKNOWN

datatype Severity = Sev_info | Sev_low | Sev_medium | Sev_high | Sev_critical

datatype ActorType = Ac_user | Ac_agent | Ac_service | Ac_migration

datatype MoneyBasis = Per_person | Per_group | Per_room | Per_item | Total

datatype TransitMode = Walk | Bike | Transit | Taxi | Drive | Rail | Flight | Ferry

datatype PreferenceCategory =
  Pr_pace | Pr_food | Pr_culture | Pr_nature | Pr_shopping | Pr_lodging | Pr_mobility | Pr_other

datatype ConstraintType =
    Ct_date | Ct_budget | Ct_mobility | Ct_dietary | Ct_lodging | Ct_visit | Ct_avoid | Ct_other

datatype ClarificationStatus = Cl_open | Cl_answered | Cl_dismissed

datatype EvidenceKind =
  Ek_poi | Ek_area | Ek_lodging_area | Ek_opening_hours | Ek_weather | Ek_route | Ek_price | Ek_policy

datatype ResolutionStatus = Unresolved | Resolved | Accepted_risk

datatype CandidateCategory = Ca_area | Ca_poi | Ca_lodging_area | Ca_activity

datatype BlockCategory =
  Bl_visit | Bl_meal | Bl_lodging | Bl_transit | Bl_free_time | Bl_check_in | Bl_check_out

datatype BudgetCategory = Bu_lodging | Bu_food | Bu_transport | Bu_tickets | Bu_shopping | Bu_other

datatype PlanStatus =
  Ps_generated | Ps_candidate | Ps_selected | Ps_validated | Ps_published | Ps_superseded
  | Ps_rejected | Ps_revoked

datatype CheckCategory = Ck_time | Ck_route | Ck_budget | Ck_opening_hours | Ck_hard_constraint

datatype Outcome = Pass | Warning | Fail

datatype RiskCategory = Rk_evidence_gap | Rk_assumption | Rk_source_conflict | Rk_soft_constraint | Rk_ambiguity

datatype IssueOrigin = Or_constraint | Or_semantic | Or_policy

datatype SnapshotStatus = Sn_draft | Sn_planning | Sn_ready | Sn_archived

section \<open>Value objects\<close>

record ActorRef =
  ac_actor_type :: ActorType
  ac_actor_id :: string

definition ActorRef_ok :: "ActorRef \<Rightarrow> bool" where
  "ActorRef_ok a \<longleftrightarrow> Identifier (ac_actor_id a)"

record VersionedComponent =
  vc_name :: string
  vc_version :: string

definition VersionedComponent_ok :: "VersionedComponent \<Rightarrow> bool" where
  "VersionedComponent_ok c \<longleftrightarrow> ShortText (vc_name c) \<and> version_text 64 (vc_version c)"

record SourceRef =
  sr_source_id :: string
  sr_kind :: SourceKind
  sr_name :: string
  sr_version :: string
  sr_uri :: "string option"
  sr_retrieved_at :: instant
  sr_publisher :: "string option"
  sr_license :: "string option"

definition SourceRef_ok :: "SourceRef \<Rightarrow> bool" where
  "SourceRef_ok s \<longleftrightarrow> Identifier (sr_source_id s) \<and> ShortText (sr_name s) \<and>
     version_text 128 (sr_version s) \<and> opt_ok ShortText (sr_publisher s) \<and> opt_ok ShortText (sr_license s)"

record ArtifactRef =
  ar_artifact_type :: ArtifactType
  ar_artifact_id :: string
  ar_schema_version :: int
  ar_version :: int

definition ArtifactRef_ok :: "ArtifactRef \<Rightarrow> bool" where
  "ArtifactRef_ok r \<longleftrightarrow> Identifier (ar_artifact_id r) \<and> ar_schema_version r = 1 \<and> 1 \<le> ar_version r"

record GeoPoint =
  gp_latitude :: rat
  gp_longitude :: rat
  gp_coordinate_system :: CoordinateSystem
  gp_accuracy_meters :: "rat option"

definition GeoPoint_ok :: "GeoPoint \<Rightarrow> bool" where
  "GeoPoint_ok g \<longleftrightarrow> - 90 \<le> gp_latitude g \<and> gp_latitude g \<le> 90 \<and>
     - 180 \<le> gp_longitude g \<and> gp_longitude g \<le> 180 \<and> opt_ok (\<lambda>a. 0 < a) (gp_accuracy_meters g)"

record ProviderPlaceId =
  pp_provider :: string
  pp_place_id :: string
  pp_version :: string

definition ProviderPlaceId_ok :: "ProviderPlaceId \<Rightarrow> bool" where
  "ProviderPlaceId_ok p \<longleftrightarrow> ShortText (pp_provider p) \<and> ShortText (pp_place_id p) \<and> version_text 128 (pp_version p)"

record PlaceRef =
  pl_place_id :: string
  pl_display_name :: string
  pl_address :: "string option"
  pl_country_code :: string
  pl_timezone :: string
  pl_location :: GeoPoint
  pl_provider_ids :: "ProviderPlaceId list"
  pl_source :: SourceRef

definition PlaceRef_ok :: "(string \<Rightarrow> bool) \<Rightarrow> PlaceRef \<Rightarrow> bool" where
  "PlaceRef_ok tz p \<longleftrightarrow> Identifier (pl_place_id p) \<and> ShortText (pl_display_name p) \<and>
     opt_ok ShortText (pl_address p) \<and> CountryCode (pl_country_code p) \<and> IanaTimezone tz (pl_timezone p) \<and>
     length (pl_provider_ids p) \<le> 16"

record MoneyRange =
  mr_min_amount :: string
  mr_max_amount :: string
  mr_currency :: string
  mr_basis :: MoneyBasis
  mr_observed_at :: instant
  mr_source :: SourceRef

definition MoneyRange_ok :: "MoneyRange \<Rightarrow> bool" where
  "MoneyRange_ok m \<longleftrightarrow> decimal_amount_ok (mr_min_amount m) \<and> decimal_amount_ok (mr_max_amount m) \<and>
     currency_code_ok (mr_currency m) \<and>
     \<not> decimal_units (mr_min_amount m) > decimal_units (mr_max_amount m)"

record TripDateRange =
  td_start_date :: int
  td_end_date :: int
  td_timezone :: string
  td_flexibility_days :: int

definition TripDateRange_ok :: "(string \<Rightarrow> bool) \<Rightarrow> TripDateRange \<Rightarrow> bool" where
  "TripDateRange_ok tz d \<longleftrightarrow> IanaTimezone tz (td_timezone d) \<and> 0 \<le> td_flexibility_days d \<and>
     td_flexibility_days d \<le> 31 \<and> \<not> td_end_date d < td_start_date d"

record ZonedTimeRange =
  zt_local_date :: int
  zt_start_local_time :: int
  zt_end_local_time :: int
  zt_end_day_offset :: int
  zt_timezone :: string

definition ZonedTimeRange_ok :: "(string \<Rightarrow> bool) \<Rightarrow> ZonedTimeRange \<Rightarrow> bool" where
  "ZonedTimeRange_ok tz z \<longleftrightarrow> zt_end_day_offset z \<in> {0, 1} \<and> IanaTimezone tz (zt_timezone z) \<and>
     \<not> (zt_end_day_offset z = 0 \<and> zt_end_local_time z \<le> zt_start_local_time z)"

record Freshness =
  fr_observed_at :: instant
  fr_valid_until :: "instant option"
  fr_status :: FreshnessStatus
  fr_source :: SourceRef

definition Freshness_ok :: "Freshness \<Rightarrow> bool" where
  "Freshness_ok f \<longleftrightarrow> opt_ok (\<lambda>u. \<not> u < fr_observed_at f) (fr_valid_until f)"

record Citation =
  ci_citation_id :: string
  ci_evidence_id :: string
  ci_title :: string
  ci_locator :: string
  ci_source :: SourceRef

definition Citation_ok :: "Citation \<Rightarrow> bool" where
  "Citation_ok c \<longleftrightarrow> Identifier (ci_citation_id c) \<and> Identifier (ci_evidence_id c) \<and> ShortText (ci_title c) \<and>
     version_text 512 (ci_locator c)"

record TransitLeg =
  tg_mode :: TransitMode
  tg_duration_min_minutes :: int
  tg_duration_max_minutes :: int
  tg_distance_meters :: int
  tg_provider_snapshot_ref :: SourceRef

definition TransitLeg_ok :: "TransitLeg \<Rightarrow> bool" where
  "TransitLeg_ok t \<longleftrightarrow> 0 \<le> tg_duration_min_minutes t \<and> tg_duration_min_minutes t \<le> 10080 \<and>
     0 \<le> tg_duration_max_minutes t \<and> tg_duration_max_minutes t \<le> 10080 \<and> 0 \<le> tg_distance_meters t \<and>
     \<not> tg_duration_min_minutes t > tg_duration_max_minutes t"

record ArtifactBase =
  ab_artifact_id :: string
  ab_schema_version :: int
  ab_version :: int
  ab_created_at :: instant
  ab_created_by :: ActorRef
  ab_reason :: string

definition ArtifactBase_ok :: "'a ArtifactBase_scheme \<Rightarrow> bool" where
  "ArtifactBase_ok a \<longleftrightarrow> Identifier (ab_artifact_id a) \<and> ab_schema_version a = 1 \<and> 1 \<le> ab_version a \<and>
     NonEmptyText (ab_reason a)"

section \<open>The trip brief\<close>

record TravelerGroup =
  tv_adults :: int
  tv_children_ages :: "int list"
  tv_seniors :: int
  tv_rooms :: int
  tv_accessibility_needs :: "string list"

definition TravelerGroup_ok :: "TravelerGroup \<Rightarrow> bool" where
  "TravelerGroup_ok t \<longleftrightarrow> 0 \<le> tv_adults t \<and> tv_adults t \<le> 99 \<and> length (tv_children_ages t) \<le> 30 \<and>
     list_all (\<lambda>a. 0 \<le> a \<and> a \<le> 17) (tv_children_ages t) \<and> 0 \<le> tv_seniors t \<and> tv_seniors t \<le> 99 \<and>
     0 \<le> tv_rooms t \<and> tv_rooms t \<le> 50 \<and> length (tv_accessibility_needs t) \<le> 20 \<and>
     list_all ShortText (tv_accessibility_needs t) \<and>
     \<not> tv_adults t + int (length (tv_children_ages t)) + tv_seniors t < 1"

record TravelPreference =
  tp_preference_id :: string
  tp_category :: PreferenceCategory
  tp_value :: string
  tp_priority :: int

definition TravelPreference_ok :: "TravelPreference \<Rightarrow> bool" where
  "TravelPreference_ok p \<longleftrightarrow> Identifier (tp_preference_id p) \<and> ShortText (tp_value p) \<and>
     1 \<le> tp_priority p \<and> tp_priority p \<le> 5"

record ConstraintSpec =
  cs_constraint_id :: string
  cs_constraint_type :: ConstraintType
  cs_hard :: bool
  cs_priority :: int
  cs_description :: string
  cs_source :: SourceRef

definition ConstraintSpec_ok :: "ConstraintSpec \<Rightarrow> bool" where
  "ConstraintSpec_ok c \<longleftrightarrow> Identifier (cs_constraint_id c) \<and> 1 \<le> cs_priority c \<and> cs_priority c \<le> 5 \<and>
     NonEmptyText (cs_description c)"

record ClarificationItem =
  cl_question_id :: string
  cl_prompt :: string
  cl_required :: bool
  cl_status :: ClarificationStatus
  cl_answer :: "string option"

definition ClarificationItem_ok :: "ClarificationItem \<Rightarrow> bool" where
  "ClarificationItem_ok c \<longleftrightarrow> Identifier (cl_question_id c) \<and> NonEmptyText (cl_prompt c) \<and>
     opt_ok NonEmptyText (cl_answer c) \<and> \<not> (cl_status c = Cl_answered \<and> cl_answer c = None) \<and>
     \<not> (cl_status c \<noteq> Cl_answered \<and> cl_answer c \<noteq> None)"

record TripBrief = ArtifactBase +
  tb_destination :: PlaceRef
  tb_date_window :: TripDateRange
  tb_travelers :: TravelerGroup
  tb_budget :: MoneyRange
  tb_preferences :: "TravelPreference list"
  tb_constraints :: "ConstraintSpec list"
  tb_clarification_items :: "ClarificationItem list"
  tb_source :: SourceRef

text \<open>The validator's check for blanks in the budget's currency cannot fail: the pattern has capitals only.\<close>

definition TripBrief_ok :: "TripBrief \<Rightarrow> bool" where
  "TripBrief_ok b \<longleftrightarrow> ArtifactBase_ok b \<and> length (tb_preferences b) \<le> 50 \<and> length (tb_constraints b) \<le> 100 \<and>
     length (tb_clarification_items b) \<le> 30 \<and>
     \<not> pl_timezone (tb_destination b) \<noteq> td_timezone (tb_date_window b)"

section \<open>Evidence and candidates\<close>

record EvidenceClaim =
  ec_claim_id :: string
  ec_statement :: string
  ec_confidence :: rat

definition EvidenceClaim_ok :: "EvidenceClaim \<Rightarrow> bool" where
  "EvidenceClaim_ok c \<longleftrightarrow> Identifier (ec_claim_id c) \<and> NonEmptyText (ec_statement c) \<and>
     0 \<le> ec_confidence c \<and> ec_confidence c \<le> 1"

record EvidenceItem =
  ei_evidence_id :: string
  ei_kind :: EvidenceKind
  ei_title :: string
  ei_summary :: string
  ei_place_ref :: "PlaceRef option"
  ei_claims :: "EvidenceClaim list"
  ei_source :: SourceRef
  ei_freshness :: Freshness
  ei_retrieved_at :: instant

definition EvidenceItem_ok :: "EvidenceItem \<Rightarrow> bool" where
  "EvidenceItem_ok e \<longleftrightarrow> Identifier (ei_evidence_id e) \<and> ShortText (ei_title e) \<and> NonEmptyText (ei_summary e) \<and>
     1 \<le> length (ei_claims e) \<and> length (ei_claims e) \<le> 100 \<and>
     \<not> sr_source_id (fr_source (ei_freshness e)) \<noteq> sr_source_id (ei_source e)"

record EvidenceConflict =
  ef_conflict_id :: string
  ef_topic :: string
  ef_evidence_refs :: "string list"
  ef_detail :: string
  ef_resolution_status :: ResolutionStatus

definition EvidenceConflict_ok :: "EvidenceConflict \<Rightarrow> bool" where
  "EvidenceConflict_ok c \<longleftrightarrow> Identifier (ef_conflict_id c) \<and> ShortText (ef_topic c) \<and>
     2 \<le> length (ef_evidence_refs c) \<and> length (ef_evidence_refs c) \<le> 20 \<and>
     list_all Identifier (ef_evidence_refs c) \<and> NonEmptyText (ef_detail c)"

record EvidenceBundle = ArtifactBase +
  eb_trip_brief_ref :: ArtifactRef
  eb_timezone :: string
  eb_evidence :: "EvidenceItem list"
  eb_citations :: "Citation list"
  eb_conflicts :: "EvidenceConflict list"

definition EvidenceBundle_ok :: "(string \<Rightarrow> bool) \<Rightarrow> EvidenceBundle \<Rightarrow> bool" where
  "EvidenceBundle_ok tz b \<longleftrightarrow> ArtifactBase_ok b \<and> IanaTimezone tz (eb_timezone b) \<and>
     1 \<le> length (eb_evidence b) \<and> length (eb_evidence b) \<le> 1000 \<and> length (eb_citations b) \<le> 1000 \<and>
     length (eb_conflicts b) \<le> 200 \<and>
     \<not> ar_artifact_type (eb_trip_brief_ref b) \<noteq> AT_TripBrief \<and>
     distinct (map ei_evidence_id (eb_evidence b)) \<and>
     list_all (\<lambda>c. ci_evidence_id c \<in> set (map ei_evidence_id (eb_evidence b))) (eb_citations b) \<and>
     list_all (\<lambda>c. set (ef_evidence_refs c) \<subseteq> set (map ei_evidence_id (eb_evidence b))) (eb_conflicts b)"

record Candidate =
  cd_candidate_id :: string
  cd_category :: CandidateCategory
  cd_place_ref :: PlaceRef
  cd_rationale :: string
  cd_evidence_refs :: "string list"
  cd_score :: rat
  cd_estimated_cost :: "MoneyRange option"
  cd_recommended_duration_minutes :: "int option"
  cd_tags :: "string list"

definition Candidate_ok :: "Candidate \<Rightarrow> bool" where
  "Candidate_ok c \<longleftrightarrow> Identifier (cd_candidate_id c) \<and> NonEmptyText (cd_rationale c) \<and>
     1 \<le> length (cd_evidence_refs c) \<and> length (cd_evidence_refs c) \<le> 100 \<and>
     list_all Identifier (cd_evidence_refs c) \<and> 0 \<le> cd_score c \<and> cd_score c \<le> 1 \<and>
     opt_ok (\<lambda>d. 0 < d \<and> d \<le> 10080) (cd_recommended_duration_minutes c) \<and>
     length (cd_tags c) \<le> 30 \<and> list_all ShortText (cd_tags c)"

record CandidateSet = ArtifactBase +
  ct_trip_brief_ref :: ArtifactRef
  ct_evidence_bundle_ref :: ArtifactRef
  ct_timezone :: string
  ct_candidates :: "Candidate list"
  ct_selection_notes :: "string list"

definition CandidateSet_ok :: "(string \<Rightarrow> bool) \<Rightarrow> CandidateSet \<Rightarrow> bool" where
  "CandidateSet_ok tz s \<longleftrightarrow> ArtifactBase_ok s \<and> IanaTimezone tz (ct_timezone s) \<and>
     1 \<le> length (ct_candidates s) \<and> length (ct_candidates s) \<le> 500 \<and> length (ct_selection_notes s) \<le> 50 \<and>
     list_all NonEmptyText (ct_selection_notes s) \<and>
     \<not> ar_artifact_type (ct_trip_brief_ref s) \<noteq> AT_TripBrief \<and>
     \<not> ar_artifact_type (ct_evidence_bundle_ref s) \<noteq> AT_EvidenceBundle \<and>
     distinct (map cd_candidate_id (ct_candidates s)) \<and>
     \<not> list_ex (\<lambda>c. pl_timezone (cd_place_ref c) \<noteq> ct_timezone s) (ct_candidates s)"

section \<open>Itinerary plans\<close>

record PlanAssumption =
  pa_assumption_id :: string
  pa_text :: string
  pa_source :: SourceRef
  pa_evidence_refs :: "string list"

definition PlanAssumption_ok :: "PlanAssumption \<Rightarrow> bool" where
  "PlanAssumption_ok a \<longleftrightarrow> Identifier (pa_assumption_id a) \<and> NonEmptyText (pa_text a) \<and>
     length (pa_evidence_refs a) \<le> 50 \<and> list_all Identifier (pa_evidence_refs a)"

record PlaceAlternative =
  al_place_ref :: PlaceRef
  al_rationale :: string
  al_evidence_refs :: "string list"

definition PlaceAlternative_ok :: "PlaceAlternative \<Rightarrow> bool" where
  "PlaceAlternative_ok a \<longleftrightarrow> NonEmptyText (al_rationale a) \<and> 1 \<le> length (al_evidence_refs a) \<and>
     length (al_evidence_refs a) \<le> 50 \<and> list_all Identifier (al_evidence_refs a)"

record PlanTimeBlock =
  bk_block_id :: string
  bk_title :: string
  bk_category :: BlockCategory
  bk_place_ref :: PlaceRef
  bk_time_range :: ZonedTimeRange
  bk_duration_minutes :: int
  bk_transit_from_previous :: "TransitLeg option"
  bk_cost_range :: "MoneyRange option"
  bk_evidence_refs :: "string list"
  bk_alternatives :: "PlaceAlternative list"

definition PlanTimeBlock_ok :: "PlanTimeBlock \<Rightarrow> bool" where
  "PlanTimeBlock_ok b \<longleftrightarrow> Identifier (bk_block_id b) \<and> ShortText (bk_title b) \<and> 0 < bk_duration_minutes b \<and>
     bk_duration_minutes b \<le> 1440 \<and> 1 \<le> length (bk_evidence_refs b) \<and> length (bk_evidence_refs b) \<le> 100 \<and>
     list_all Identifier (bk_evidence_refs b) \<and> length (bk_alternatives b) \<le> 10 \<and>
     \<not> pl_timezone (bk_place_ref b) \<noteq> zt_timezone (bk_time_range b)"

record PlanDay =
  pd_date :: int
  pd_timezone :: string
  pd_time_blocks :: "PlanTimeBlock list"
  pd_day_summary :: string
  pd_daily_cost :: MoneyRange

definition PlanDay_ok :: "(string \<Rightarrow> bool) \<Rightarrow> PlanDay \<Rightarrow> bool" where
  "PlanDay_ok tz d \<longleftrightarrow> IanaTimezone tz (pd_timezone d) \<and> 1 \<le> length (pd_time_blocks d) \<and>
     length (pd_time_blocks d) \<le> 50 \<and> NonEmptyText (pd_day_summary d) \<and>
     distinct (map bk_block_id (pd_time_blocks d)) \<and>
     list_all (\<lambda>b. zt_local_date (bk_time_range b) = pd_date d \<and> zt_timezone (bk_time_range b) = pd_timezone d)
       (pd_time_blocks d) \<and>
     sorted (map (zt_start_local_time \<circ> bk_time_range) (pd_time_blocks d))"

record BudgetCategoryTotal =
  bc_category :: BudgetCategory
  bc_cost :: MoneyRange

record BudgetSummary =
  bs_estimated_total :: MoneyRange
  bs_category_totals :: "BudgetCategoryTotal list"
  bs_contingency_percent :: rat

definition BudgetSummary_ok :: "BudgetSummary \<Rightarrow> bool" where
  "BudgetSummary_ok b \<longleftrightarrow> length (bs_category_totals b) \<le> 20 \<and> 0 \<le> bs_contingency_percent b \<and>
     bs_contingency_percent b \<le> 100 \<and>
     \<not> list_ex (\<lambda>i. mr_currency (bc_cost i) \<noteq> mr_currency (bs_estimated_total b)) (bs_category_totals b)"

record RouteSummary =
  rs_total_distance_meters :: int
  rs_total_transit_duration_minutes :: int
  rs_legs_count :: int
  rs_source :: SourceRef

definition RouteSummary_ok :: "RouteSummary \<Rightarrow> bool" where
  "RouteSummary_ok r \<longleftrightarrow> 0 \<le> rs_total_distance_meters r \<and> 0 \<le> rs_total_transit_duration_minutes r \<and>
     0 \<le> rs_legs_count r"

record RiskSummary =
  ri_risk_id :: string
  ri_severity :: Severity
  ri_message :: string
  ri_evidence_refs :: "string list"
  ri_resolution :: "string option"

definition RiskSummary_ok :: "RiskSummary \<Rightarrow> bool" where
  "RiskSummary_ok r \<longleftrightarrow> Identifier (ri_risk_id r) \<and> NonEmptyText (ri_message r) \<and>
     length (ri_evidence_refs r) \<le> 100 \<and> list_all Identifier (ri_evidence_refs r) \<and>
     opt_ok NonEmptyText (ri_resolution r)"

record ItineraryPlan = ArtifactBase +
  ip_plan_id :: string
  ip_status :: PlanStatus
  ip_trip_brief_ref :: ArtifactRef
  ip_candidate_set_ref :: ArtifactRef
  ip_evidence_bundle_ref :: ArtifactRef
  ip_timezone :: string
  ip_assumptions :: "PlanAssumption list"
  ip_days :: "PlanDay list"
  ip_budget_summary :: BudgetSummary
  ip_route_summary :: RouteSummary
  ip_citations :: "Citation list"
  ip_unresolved_risks :: "RiskSummary list"
  ip_validation_ref :: "ArtifactRef option"

definition ItineraryPlan_ok :: "(string \<Rightarrow> bool) \<Rightarrow> ItineraryPlan \<Rightarrow> bool" where
  "ItineraryPlan_ok tz p \<longleftrightarrow> ArtifactBase_ok p \<and> Identifier (ip_plan_id p) \<and> IanaTimezone tz (ip_timezone p) \<and>
     length (ip_assumptions p) \<le> 100 \<and> 1 \<le> length (ip_days p) \<and> length (ip_days p) \<le> 60 \<and>
     1 \<le> length (ip_citations p) \<and> length (ip_citations p) \<le> 1000 \<and> length (ip_unresolved_risks p) \<le> 200 \<and>
     ar_artifact_type (ip_trip_brief_ref p) = AT_TripBrief \<and>
     ar_artifact_type (ip_candidate_set_ref p) = AT_CandidateSet \<and>
     ar_artifact_type (ip_evidence_bundle_ref p) = AT_EvidenceBundle \<and>
     opt_ok (\<lambda>v. ar_artifact_type v = AT_ValidationReport) (ip_validation_ref p) \<and>
     distinct (map pd_date (ip_days p)) \<and> sorted (map pd_date (ip_days p)) \<and>
     \<not> list_ex (\<lambda>d. pd_timezone d \<noteq> ip_timezone p) (ip_days p) \<and>
     \<not> list_ex (\<lambda>d. mr_currency (pd_daily_cost d) \<noteq> mr_currency (bs_estimated_total (ip_budget_summary p)))
         (ip_days p)"

section \<open>Reports\<close>

record MetricObservation =
  mo_metric :: string
  mo_value :: string
  mo_unit :: string

definition MetricObservation_ok :: "MetricObservation \<Rightarrow> bool" where
  "MetricObservation_ok m \<longleftrightarrow> ShortText (mo_metric m) \<and> version_text 128 (mo_value m) \<and> version_text 64 (mo_unit m)"

record ConstraintCheck =
  cc_check_id :: string
  cc_constraint_ref :: "string option"
  cc_category :: CheckCategory
  cc_outcome :: Outcome
  cc_message :: string
  cc_source :: SourceRef
  cc_related_block_ids :: "string list"
  cc_observations :: "MetricObservation list"

definition ConstraintCheck_ok :: "ConstraintCheck \<Rightarrow> bool" where
  "ConstraintCheck_ok c \<longleftrightarrow> Identifier (cc_check_id c) \<and> opt_ok Identifier (cc_constraint_ref c) \<and>
     NonEmptyText (cc_message c) \<and> length (cc_related_block_ids c) \<le> 100 \<and>
     list_all Identifier (cc_related_block_ids c) \<and> length (cc_observations c) \<le> 30"

record CheckSummary =
  sm_passed :: int
  sm_warnings :: int
  sm_failed :: int

definition CheckSummary_ok :: "CheckSummary \<Rightarrow> bool" where
  "CheckSummary_ok s \<longleftrightarrow> 0 \<le> sm_passed s \<and> 0 \<le> sm_warnings s \<and> 0 \<le> sm_failed s"

definition count_outcome :: "Outcome \<Rightarrow> ConstraintCheck list \<Rightarrow> int" where
  "count_outcome oc cs = int (length (filter (\<lambda>c. cc_outcome c = oc) cs))"

record ConstraintReport = ArtifactBase +
  cr_plan_ref :: ArtifactRef
  cr_timezone :: string
  cr_checked_at :: instant
  cr_engine :: VersionedComponent
  cr_outcome :: Outcome
  cr_checks :: "ConstraintCheck list"
  cr_summary :: CheckSummary

definition ConstraintReport_ok :: "(string \<Rightarrow> bool) \<Rightarrow> ConstraintReport \<Rightarrow> bool" where
  "ConstraintReport_ok tz r \<longleftrightarrow> ArtifactBase_ok r \<and> IanaTimezone tz (cr_timezone r) \<and>
     1 \<le> length (cr_checks r) \<and> length (cr_checks r) \<le> 2000 \<and>
     ar_artifact_type (cr_plan_ref r) = AT_ItineraryPlan \<and>
     cr_summary r = \<lparr>sm_passed = count_outcome Pass (cr_checks r),
                    sm_warnings = count_outcome Warning (cr_checks r),
                    sm_failed = count_outcome Fail (cr_checks r)\<rparr> \<and>
     cr_outcome r = (if count_outcome Fail (cr_checks r) \<noteq> 0 then Fail
                     else if count_outcome Warning (cr_checks r) \<noteq> 0 then Warning else Pass)"

record EvidenceCoverage =
  cv_claims_total :: int
  cv_claims_supported :: int
  cv_claims_missing :: int
  cv_coverage_ratio :: rat

definition EvidenceCoverage_ok :: "EvidenceCoverage \<Rightarrow> bool" where
  "EvidenceCoverage_ok e \<longleftrightarrow> 0 \<le> cv_claims_total e \<and> 0 \<le> cv_claims_supported e \<and> 0 \<le> cv_claims_missing e \<and>
     0 \<le> cv_coverage_ratio e \<and> cv_coverage_ratio e \<le> 1 \<and>
     cv_claims_supported e + cv_claims_missing e = cv_claims_total e \<and>
     \<not> \<bar>cv_coverage_ratio e - (if cv_claims_total e = 0 then 1
         else of_int (cv_claims_supported e) / of_int (cv_claims_total e))\<bar> > 1 / 10000"

record SemanticRisk =
  sk_risk_id :: string
  sk_category :: RiskCategory
  sk_severity :: Severity
  sk_message :: string
  sk_affected_block_ids :: "string list"
  sk_evidence_refs :: "string list"
  sk_suggested_resolution :: "string option"

definition SemanticRisk_ok :: "SemanticRisk \<Rightarrow> bool" where
  "SemanticRisk_ok r \<longleftrightarrow> Identifier (sk_risk_id r) \<and> NonEmptyText (sk_message r) \<and>
     length (sk_affected_block_ids r) \<le> 100 \<and> list_all Identifier (sk_affected_block_ids r) \<and>
     length (sk_evidence_refs r) \<le> 100 \<and> list_all Identifier (sk_evidence_refs r) \<and>
     opt_ok NonEmptyText (sk_suggested_resolution r)"

record SemanticRiskReport = ArtifactBase +
  se_plan_ref :: ArtifactRef
  se_evidence_bundle_ref :: ArtifactRef
  se_timezone :: string
  se_assessed_at :: instant
  se_reviewer :: VersionedComponent
  se_assessment_source :: SourceRef
  se_outcome :: Outcome
  se_evidence_coverage :: EvidenceCoverage
  se_risks :: "SemanticRisk list"
  se_source_conflicts :: "EvidenceConflict list"

definition SemanticRiskReport_ok :: "(string \<Rightarrow> bool) \<Rightarrow> SemanticRiskReport \<Rightarrow> bool" where
  "SemanticRiskReport_ok tz r \<longleftrightarrow> ArtifactBase_ok r \<and> IanaTimezone tz (se_timezone r) \<and>
     length (se_risks r) \<le> 1000 \<and> length (se_source_conflicts r) \<le> 200 \<and>
     ar_artifact_type (se_plan_ref r) = AT_ItineraryPlan \<and>
     ar_artifact_type (se_evidence_bundle_ref r) = AT_EvidenceBundle \<and>
     se_outcome r = (if {Sev_critical, Sev_high} \<inter> set (map sk_severity (se_risks r)) \<noteq> {} then Fail
                     else if se_risks r \<noteq> [] then Warning else Pass)"

record ValidationIssue =
  vi_issue_id :: string
  vi_origin :: IssueOrigin
  vi_severity :: Severity
  vi_message :: string
  vi_source_report_ref :: ArtifactRef

definition ValidationIssue_ok :: "ValidationIssue \<Rightarrow> bool" where
  "ValidationIssue_ok i \<longleftrightarrow> Identifier (vi_issue_id i) \<and> NonEmptyText (vi_message i)"

record ValidationReport = ArtifactBase +
  va_plan_ref :: ArtifactRef
  va_constraint_report_ref :: ArtifactRef
  va_semantic_risk_report_ref :: ArtifactRef
  va_timezone :: string
  va_generated_at :: instant
  va_policy_version :: string
  va_verdict :: Outcome
  va_publishable :: bool
  va_blockers :: "ValidationIssue list"
  va_warnings :: "ValidationIssue list"

definition ValidationReport_ok :: "(string \<Rightarrow> bool) \<Rightarrow> ValidationReport \<Rightarrow> bool" where
  "ValidationReport_ok tz r \<longleftrightarrow> ArtifactBase_ok r \<and> IanaTimezone tz (va_timezone r) \<and>
     version_text 128 (va_policy_version r) \<and> length (va_blockers r) \<le> 500 \<and> length (va_warnings r) \<le> 500 \<and>
     ar_artifact_type (va_plan_ref r) = AT_ItineraryPlan \<and>
     ar_artifact_type (va_constraint_report_ref r) = AT_ConstraintReport \<and>
     ar_artifact_type (va_semantic_risk_report_ref r) = AT_SemanticRiskReport \<and>
     \<not> (va_blockers r \<noteq> [] \<and> va_publishable r) \<and> \<not> (va_verdict r = Fail \<and> va_publishable r) \<and>
     \<not> (va_verdict r = Pass \<and> (va_blockers r \<noteq> [] \<or> va_warnings r \<noteq> []))"

record TripSnapshot = ArtifactBase +
  sn_trip_id :: string
  sn_title :: string
  sn_status :: SnapshotStatus
  sn_timezone :: string
  sn_brief :: TripBrief
  sn_itinerary :: ItineraryPlan
  sn_validation :: ValidationReport
  sn_generated_at :: instant
  sn_source_artifact_versions :: "ArtifactRef list"

definition TripSnapshot_ok :: "(string \<Rightarrow> bool) \<Rightarrow> TripSnapshot \<Rightarrow> bool" where
  "TripSnapshot_ok tz s \<longleftrightarrow> ArtifactBase_ok s \<and> Identifier (sn_trip_id s) \<and> ShortText (sn_title s) \<and>
     IanaTimezone tz (sn_timezone s) \<and> 3 \<le> length (sn_source_artifact_versions s) \<and>
     length (sn_source_artifact_versions s) \<le> 100 \<and>
     pl_timezone (tb_destination (sn_brief s)) = sn_timezone s \<and>
     ip_timezone (sn_itinerary s) = sn_timezone s \<and> va_timezone (sn_validation s) = sn_timezone s \<and>
     ar_artifact_id (ip_trip_brief_ref (sn_itinerary s)) = ab_artifact_id (sn_brief s) \<and>
     ar_artifact_id (va_plan_ref (sn_validation s)) = ab_artifact_id (sn_itinerary s) \<and>
     {(AT_TripBrief, ab_artifact_id (sn_brief s), ab_version (sn_brief s)),
      (AT_ItineraryPlan, ab_artifact_id (sn_itinerary s), ab_version (sn_itinerary s)),
      (AT_ValidationReport, ab_artifact_id (sn_validation s), ab_version (sn_validation s))}
       \<subseteq> set (map (\<lambda>r. (ar_artifact_type r, ar_artifact_id r, ar_version r)) (sn_source_artifact_versions s))"

section \<open>Provenance helpers of the runtime\<close>

text \<open>
  \<^verbatim>\<open>agent/travel_agent/runtime_v2/shared.py\<close>. \<open>token\<close> is \<^verbatim>\<open>secrets.token_hex(12)\<close>, whose documented result is
  24 hexadecimal digits.
\<close>

definition new_id :: "string \<Rightarrow> string \<Rightarrow> string" where
  "new_id token prefix = prefix @ ''_'' @ token"

definition system_actor :: "string \<Rightarrow> ActorRef" where
  "system_actor component = \<lparr>ac_actor_type = Ac_service, ac_actor_id = ''service:'' @ component\<rparr>"

definition system_source :: "instant \<Rightarrow> string \<Rightarrow> string \<Rightarrow> SourceRef" where
  "system_source now component v =
     \<lparr>sr_source_id = ''source:'' @ component, sr_kind = SK_system, sr_name = component, sr_version = v,
      sr_uri = None, sr_retrieved_at = now, sr_publisher = Some ''RoutePilot'', sr_license = Some ''internal''\<rparr>"

definition artifact_ref :: "'a ArtifactBase_scheme \<Rightarrow> ArtifactType \<Rightarrow> ArtifactRef" where
  "artifact_ref a ty = \<lparr>ar_artifact_type = ty, ar_artifact_id = ab_artifact_id a,
     ar_schema_version = ab_schema_version a, ar_version = ab_version a\<rparr>"

end
