(* ===== verification/Provider_Models.thy ===== *)
theory Provider_Models
  imports Contracts
begin

text \<open>
  The contracts of live travel data, \<^verbatim>\<open>agent/travel_agent/providers/models.py\<close>, and the server-derived
  call context of \<^verbatim>\<open>ports.py\<close>. As in the artifact contracts a class is a record and \<open><class>_ok\<close> what its
  constructor checks on its own level. Coordinates and temperatures are rationals, timestamps are
  instants (hence timezone-aware), \<^verbatim>\<open>ZoneInfo\<close> and \<^verbatim>\<open>date.fromisoformat\<close> are arguments. The request and the
  result classes the gateway handles are the cases of one datatype each.
\<close>

section \<open>Enumerations and provenance\<close>

datatype ProviderCapability = PLACE_SEARCH | GEOCODE | ROUTE_MATRIX | OPENING_HOURS | WEATHER

fun capability_value :: "ProviderCapability \<Rightarrow> string" where
  "capability_value PLACE_SEARCH = ''place_search''"
| "capability_value GEOCODE = ''geocode''"
| "capability_value ROUTE_MATRIX = ''route_matrix''"
| "capability_value OPENING_HOURS = ''opening_hours''"
| "capability_value WEATHER = ''weather''"

datatype ProviderFreshness = Pf_FRESH | Pf_STALE | Pf_UNKNOWN

definition provider_id_ok :: "string \<Rightarrow> bool" where
  "provider_id_ok s \<longleftrightarrow> 1 \<le> length s \<and> length s \<le> 80 \<and> (is_lower (hd s) \<or> is_digit (hd s)) \<and>
     list_all (\<lambda>c. is_lower c \<or> is_digit c \<or> c \<in> set ''._-'') (tl s)"

definition text_ok :: "nat \<Rightarrow> nat \<Rightarrow> string \<Rightarrow> bool" where
  "text_ok lo hi s \<longleftrightarrow> lo \<le> length s \<and> length s \<le> hi"

record ProviderProvenance =
  pv_provider_id :: string
  pv_provider_version :: string
  pv_capability :: ProviderCapability
  pv_observed_at :: instant
  pv_valid_until :: instant
  pv_freshness_status :: ProviderFreshness

definition ProviderProvenance_ok :: "ProviderProvenance \<Rightarrow> bool" where
  "ProviderProvenance_ok p \<longleftrightarrow> provider_id_ok (pv_provider_id p) \<and> text_ok 1 80 (pv_provider_version p) \<and>
     pv_observed_at p \<le> pv_valid_until p \<and>
     \<not> (pv_freshness_status p = Pf_FRESH \<and> pv_valid_until p = pv_observed_at p)"

section \<open>Requests and results\<close>

record ProviderCoordinate =
  pc_longitude :: rat
  pc_latitude :: rat
  pc_coordinate_system :: CoordinateSystem

definition ProviderCoordinate_ok :: "ProviderCoordinate \<Rightarrow> bool" where
  "ProviderCoordinate_ok c \<longleftrightarrow> - 180 \<le> pc_longitude c \<and> pc_longitude c \<le> 180 \<and>
     - 90 \<le> pc_latitude c \<and> pc_latitude c \<le> 90 \<and> pc_coordinate_system c \<noteq> BD09"

text \<open>\<^verbatim>\<open>str.isalnum\<close> of a Latin-1 code point.\<close>

definition py_isalnum :: "char \<Rightarrow> bool" where
  "py_isalnum c \<longleftrightarrow> (let n = (of_char c :: nat) in
     (48 \<le> n \<and> n \<le> 57) \<or> (65 \<le> n \<and> n \<le> 90) \<or> (97 \<le> n \<and> n \<le> 122) \<or>
     n \<in> {170, 178, 179, 181, 185, 186, 188, 189, 190} \<or> (192 \<le> n \<and> n \<noteq> 215 \<and> n \<noteq> 247))"

record PlaceSearchRequest =
  ps_query :: string
  ps_city :: "string option"
  ps_center :: "ProviderCoordinate option"
  ps_radius_meters :: int
  ps_category_codes :: "string list"
  ps_limit :: int
  ps_page :: int

definition category_code_ok :: "string \<Rightarrow> bool" where
  "category_code_ok s \<longleftrightarrow> s \<noteq> [] \<and> length s \<le> 16 \<and>
     (let t = filter (\<lambda>c. c \<noteq> CHR ''_'') s in t \<noteq> [] \<and> list_all py_isalnum t)"

definition PlaceSearchRequest_ok :: "PlaceSearchRequest \<Rightarrow> bool" where
  "PlaceSearchRequest_ok r \<longleftrightarrow> text_ok 1 100 (ps_query r) \<and> opt_ok (text_ok 0 80) (ps_city r) \<and>
     1 \<le> ps_radius_meters r \<and> ps_radius_meters r \<le> 50000 \<and> length (ps_category_codes r) \<le> 20 \<and>
     list_all category_code_ok (ps_category_codes r) \<and>
     1 \<le> ps_limit r \<and> ps_limit r \<le> 25 \<and> 1 \<le> ps_page r \<and> ps_page r \<le> 100"

record Place =
  pp_provider_place_id :: string
  pp_name :: string
  pp_coordinate :: ProviderCoordinate
  pp_address :: "string option"
  pp_category :: "string option"
  pp_category_code :: "string option"
  pp_administrative_code :: "string option"

definition Place_ok :: "Place \<Rightarrow> bool" where
  "Place_ok p \<longleftrightarrow> text_ok 1 128 (pp_provider_place_id p) \<and> text_ok 1 300 (pp_name p) \<and>
     opt_ok (text_ok 0 500) (pp_address p) \<and> opt_ok (text_ok 0 300) (pp_category p) \<and>
     opt_ok (text_ok 0 40) (pp_category_code p) \<and> opt_ok (text_ok 0 20) (pp_administrative_code p)"

record PlaceSearchResult =
  px_places :: "Place list"
  px_provenance :: ProviderProvenance

definition PlaceSearchResult_ok :: "PlaceSearchResult \<Rightarrow> bool" where
  "PlaceSearchResult_ok r \<longleftrightarrow> length (px_places r) \<le> 25"

record GeocodeRequest =
  gq_address :: string
  gq_city :: "string option"

definition GeocodeRequest_ok :: "GeocodeRequest \<Rightarrow> bool" where
  "GeocodeRequest_ok r \<longleftrightarrow> text_ok 2 500 (gq_address r) \<and> opt_ok (text_ok 0 80) (gq_city r)"

record GeocodeCandidate =
  gc_formatted_address :: string
  gc_coordinate :: ProviderCoordinate
  gc_country :: "string option"
  gc_province :: "string option"
  gc_city :: "string option"
  gc_district :: "string option"
  gc_administrative_code :: "string option"

definition GeocodeCandidate_ok :: "GeocodeCandidate \<Rightarrow> bool" where
  "GeocodeCandidate_ok c \<longleftrightarrow> text_ok 1 500 (gc_formatted_address c) \<and> opt_ok (text_ok 0 80) (gc_country c) \<and>
     opt_ok (text_ok 0 80) (gc_province c) \<and> opt_ok (text_ok 0 80) (gc_city c) \<and>
     opt_ok (text_ok 0 80) (gc_district c) \<and> opt_ok (text_ok 0 20) (gc_administrative_code c)"

record GeocodeResult =
  gx_candidates :: "GeocodeCandidate list"
  gx_provenance :: ProviderProvenance

definition GeocodeResult_ok :: "GeocodeResult \<Rightarrow> bool" where
  "GeocodeResult_ok r \<longleftrightarrow> length (gx_candidates r) \<le> 10"

datatype RouteMode = WALKING | DRIVING

record RouteMatrixRequest =
  rq_origins :: "ProviderCoordinate list"
  rq_destinations :: "ProviderCoordinate list"
  rq_mode :: RouteMode

definition RouteMatrixRequest_ok :: "RouteMatrixRequest \<Rightarrow> bool" where
  "RouteMatrixRequest_ok r \<longleftrightarrow> 1 \<le> length (rq_origins r) \<and> length (rq_origins r) \<le> 25 \<and>
     1 \<le> length (rq_destinations r) \<and> length (rq_destinations r) \<le> 10"

record RouteMatrixCell =
  ro_origin_index :: int
  ro_destination_index :: int
  ro_distance_meters :: int
  ro_duration_seconds :: int

definition RouteMatrixCell_ok :: "RouteMatrixCell \<Rightarrow> bool" where
  "RouteMatrixCell_ok c \<longleftrightarrow> 0 \<le> ro_origin_index c \<and> 0 \<le> ro_destination_index c \<and>
     0 \<le> ro_distance_meters c \<and> 0 \<le> ro_duration_seconds c"

record RouteMatrixResult =
  rm_cells :: "RouteMatrixCell list"
  rm_coordinate_system :: CoordinateSystem
  rm_provenance :: ProviderProvenance

definition RouteMatrixResult_ok :: "RouteMatrixResult \<Rightarrow> bool" where
  "RouteMatrixResult_ok r \<longleftrightarrow> length (rm_cells r) \<le> 250 \<and> rm_coordinate_system r \<noteq> BD09"

record OpeningHoursRequest =
  oh_provider_place_ids :: "string list"
  oh_local_date :: "string option"

definition place_id_ok :: "string \<Rightarrow> bool" where
  "place_id_ok s \<longleftrightarrow> length s \<le> 128 \<and>
     list_all (\<lambda>c. (of_char c :: nat) < 128 \<and> (c \<in> set ''._:-'' \<or> py_isalnum c)) s"

definition OpeningHoursRequest_ok :: "(string \<Rightarrow> bool) \<Rightarrow> OpeningHoursRequest \<Rightarrow> bool" where
  "OpeningHoursRequest_ok iso_date_ok r \<longleftrightarrow>
     1 \<le> length (oh_provider_place_ids r) \<and> length (oh_provider_place_ids r) \<le> 50 \<and>
     distinct (oh_provider_place_ids r) \<and> list_all place_id_ok (oh_provider_place_ids r) \<and>
     opt_ok iso_date_ok (oh_local_date r)"

datatype OpenStatus = Os_open | Os_closed | Os_unknown

record OpeningHoursEntry =
  oe_provider_place_id :: string
  oe_status :: OpenStatus
  oe_intervals :: "string list"
  oe_note :: "string option"

definition OpeningHoursEntry_ok :: "OpeningHoursEntry \<Rightarrow> bool" where
  "OpeningHoursEntry_ok e \<longleftrightarrow> text_ok 1 128 (oe_provider_place_id e) \<and> length (oe_intervals e) \<le> 14 \<and>
     opt_ok (text_ok 0 500) (oe_note e)"

record OpeningHoursResult =
  ox_entries :: "OpeningHoursEntry list"
  ox_provenance :: ProviderProvenance

definition OpeningHoursResult_ok :: "OpeningHoursResult \<Rightarrow> bool" where
  "OpeningHoursResult_ok r \<longleftrightarrow> length (ox_entries r) \<le> 50"

record WeatherRequest =
  wq_coordinate :: ProviderCoordinate
  wq_timezone :: string
  wq_forecast_hours :: int

definition WeatherRequest_ok :: "(string \<Rightarrow> bool) \<Rightarrow> WeatherRequest \<Rightarrow> bool" where
  "WeatherRequest_ok tz_known r \<longleftrightarrow> text_ok 1 64 (wq_timezone r) \<and> tz_known (wq_timezone r) \<and>
     1 \<le> wq_forecast_hours r \<and> wq_forecast_hours r \<le> 168"

record WeatherPeriod =
  wp_starts_at :: instant
  wp_ends_at :: instant
  wp_condition :: string
  wp_temperature_celsius :: rat
  wp_precipitation_probability :: "rat option"

definition WeatherPeriod_ok :: "WeatherPeriod \<Rightarrow> bool" where
  "WeatherPeriod_ok p \<longleftrightarrow> wp_starts_at p < wp_ends_at p \<and> text_ok 1 100 (wp_condition p) \<and>
     - 100 \<le> wp_temperature_celsius p \<and> wp_temperature_celsius p \<le> 80 \<and>
     opt_ok (\<lambda>q. 0 \<le> q \<and> q \<le> 1) (wp_precipitation_probability p)"

record WeatherResult =
  wx_periods :: "WeatherPeriod list"
  wx_provenance :: ProviderProvenance

definition WeatherResult_ok :: "WeatherResult \<Rightarrow> bool" where
  "WeatherResult_ok r \<longleftrightarrow> length (wx_periods r) \<le> 168"

datatype ProviderRequest =
    Q_place_search PlaceSearchRequest
  | Q_geocode GeocodeRequest
  | Q_route_matrix RouteMatrixRequest
  | Q_opening_hours OpeningHoursRequest
  | Q_weather WeatherRequest

datatype ProviderResult =
    X_place_search PlaceSearchResult
  | X_geocode GeocodeResult
  | X_route_matrix RouteMatrixResult
  | X_opening_hours OpeningHoursResult
  | X_weather WeatherResult

fun request_capability :: "ProviderRequest \<Rightarrow> ProviderCapability" where
  "request_capability (Q_place_search _) = PLACE_SEARCH"
| "request_capability (Q_geocode _) = GEOCODE"
| "request_capability (Q_route_matrix _) = ROUTE_MATRIX"
| "request_capability (Q_opening_hours _) = OPENING_HOURS"
| "request_capability (Q_weather _) = WEATHER"

text \<open>The capability whose expected type a result has, and its provenance.\<close>

fun result_capability :: "ProviderResult \<Rightarrow> ProviderCapability" where
  "result_capability (X_place_search _) = PLACE_SEARCH"
| "result_capability (X_geocode _) = GEOCODE"
| "result_capability (X_route_matrix _) = ROUTE_MATRIX"
| "result_capability (X_opening_hours _) = OPENING_HOURS"
| "result_capability (X_weather _) = WEATHER"

fun provenance :: "ProviderResult \<Rightarrow> ProviderProvenance" where
  "provenance (X_place_search r) = px_provenance r"
| "provenance (X_geocode r) = gx_provenance r"
| "provenance (X_route_matrix r) = rm_provenance r"
| "provenance (X_opening_hours r) = ox_provenance r"
| "provenance (X_weather r) = wx_provenance r"

fun with_provenance :: "ProviderProvenance \<Rightarrow> ProviderResult \<Rightarrow> ProviderResult" where
  "with_provenance p (X_place_search r) = X_place_search (r\<lparr>px_provenance := p\<rparr>)"
| "with_provenance p (X_geocode r) = X_geocode (r\<lparr>gx_provenance := p\<rparr>)"
| "with_provenance p (X_route_matrix r) = X_route_matrix (r\<lparr>rm_provenance := p\<rparr>)"
| "with_provenance p (X_opening_hours r) = X_opening_hours (r\<lparr>ox_provenance := p\<rparr>)"
| "with_provenance p (X_weather r) = X_weather (r\<lparr>wx_provenance := p\<rparr>)"

lemma provenance_with_provenance [simp]: "provenance (with_provenance p r) = p"
  by (cases r) simp_all

lemma result_capability_with_provenance [simp]: "result_capability (with_provenance p r) = result_capability r"
  by (cases r) simp_all

lemma with_provenance_twice [simp]: "with_provenance p (with_provenance q r) = with_provenance p r"
  by (cases r) simp_all

lemma with_own_provenance [simp]: "with_provenance (provenance r) r = r"
  by (cases r) simp_all

text \<open>\<^verbatim>\<open>model_validate(result.model_dump())\<close> validates the result again with everything nested in it.\<close>

fun ProviderResult_ok :: "ProviderResult \<Rightarrow> bool" where
  "ProviderResult_ok (X_place_search r) \<longleftrightarrow> PlaceSearchResult_ok r \<and> ProviderProvenance_ok (px_provenance r) \<and>
     list_all (\<lambda>p. Place_ok p \<and> ProviderCoordinate_ok (pp_coordinate p)) (px_places r)"
| "ProviderResult_ok (X_geocode r) \<longleftrightarrow> GeocodeResult_ok r \<and> ProviderProvenance_ok (gx_provenance r) \<and>
     list_all (\<lambda>c. GeocodeCandidate_ok c \<and> ProviderCoordinate_ok (gc_coordinate c)) (gx_candidates r)"
| "ProviderResult_ok (X_route_matrix r) \<longleftrightarrow> RouteMatrixResult_ok r \<and> ProviderProvenance_ok (rm_provenance r) \<and>
     list_all RouteMatrixCell_ok (rm_cells r)"
| "ProviderResult_ok (X_opening_hours r) \<longleftrightarrow> OpeningHoursResult_ok r \<and> ProviderProvenance_ok (ox_provenance r) \<and>
     list_all OpeningHoursEntry_ok (ox_entries r)"
| "ProviderResult_ok (X_weather r) \<longleftrightarrow> WeatherResult_ok r \<and> ProviderProvenance_ok (wx_provenance r) \<and>
     list_all WeatherPeriod_ok (wx_periods r)"

section \<open>Descriptors, health and call contexts\<close>

record ProviderDescriptor =
  ds_provider_id :: string
  ds_display_name :: string
  ds_api_family :: string
  ds_api_version :: string
  ds_capabilities :: "ProviderCapability set"
  ds_configured :: bool

definition ProviderDescriptor_ok :: "ProviderDescriptor \<Rightarrow> bool" where
  "ProviderDescriptor_ok d \<longleftrightarrow> provider_id_ok (ds_provider_id d) \<and> text_ok 1 120 (ds_display_name d) \<and>
     text_ok 1 120 (ds_api_family d) \<and> text_ok 1 80 (ds_api_version d) \<and> ds_capabilities d \<noteq> {}"

datatype CircuitState = Circuit_closed | Circuit_open | Circuit_half_open

record ProviderHealth =
  he_provider_id :: string
  he_configured :: bool
  he_allowed :: bool
  he_circuit_state :: CircuitState
  he_capabilities :: "ProviderCapability set"

datatype CacheScope = Scope_PUBLIC | Scope_TENANT | Scope_DISABLED

record ProviderCallContext =
  cx_tenant_id :: string
  cx_actor_id :: string
  cx_operation_id :: string
  cx_idempotency_key :: "string option"
  cx_deadline_monotonic :: "instant option"
  cx_cache_scope :: CacheScope

definition ProviderCallContext_ok :: "ProviderCallContext \<Rightarrow> bool" where
  "ProviderCallContext_ok c \<longleftrightarrow> cx_tenant_id c \<noteq> [] \<and> cx_actor_id c \<noteq> [] \<and> cx_operation_id c \<noteq> [] \<and>
     length (cx_tenant_id c) \<le> 128 \<and> length (cx_actor_id c) \<le> 128 \<and> length (cx_operation_id c) \<le> 200 \<and>
     opt_ok (text_ok 8 200) (cx_idempotency_key c) \<and> opt_ok (\<lambda>d. 0 < d) (cx_deadline_monotonic c)"

definition with_timeout ::
    "string \<Rightarrow> string \<Rightarrow> string \<Rightarrow> int \<Rightarrow> string option \<Rightarrow> CacheScope \<Rightarrow> instant \<Rightarrow> contract_error + ProviderCallContext"
where
  "with_timeout tenant_id actor_id operation_id timeout idempotency_key cache_scope now =
     (if timeout \<le> 0 then Inl (ValueErr ''timeout_seconds must be positive'')
      else construct ProviderCallContext_ok
        \<lparr>cx_tenant_id = tenant_id, cx_actor_id = actor_id, cx_operation_id = operation_id,
         cx_idempotency_key = idempotency_key, cx_deadline_monotonic = Some (now + timeout),
         cx_cache_scope = cache_scope\<rparr>)"

end
