(* ===== verification/Planner.thy ===== *)
theory Planner
  imports Provider_Models
begin

text \<open>
  The deterministic planner, \<^verbatim>\<open>agent/travel_agent/runtime_v2/planning.py\<close>: route services and
  \<open>build_candidate\<close>. A local date-time is the number of microseconds since midnight of ordinal 0.
  Arguments of the model are the clock and token draws, \<^verbatim>\<open>str.casefold\<close>, \<^verbatim>\<open>date.isoformat\<close>, the zone
  database, SHA-256, the great-circle distance (trigonometry on doubles) and the provider gateway.
  Money is summed with the rounding of the decimal context (28 digits, half even), and
  \<^verbatim>\<open>math.ceil(n * 1.35)\<close> with that of double multiplication. Chinese texts are given in English.
\<close>

section \<open>Arithmetic of the standard library\<close>

text \<open>The quotient \<open>n / d\<close> rounded to the nearest integer, ties to even.\<close>

definition round_half_even :: "int \<Rightarrow> int \<Rightarrow> int" where
  "round_half_even n d =
     (let q = n div d; r = n mod d in
      if 2 * r < d \<or> (2 * r = d \<and> even q) then q else q + 1)"

fun decimal_digits :: "nat \<Rightarrow> nat" where
  "decimal_digits n = (if n < 10 then 1 else Suc (decimal_digits (n div 10)))"

fun binary_digits :: "nat \<Rightarrow> nat" where
  "binary_digits n = (if n < 2 then 1 else Suc (binary_digits (n div 2)))"

text \<open>A non-negative sum of ten-thousandths, rounded to the 28 digits of the decimal context.\<close>

definition dec_round :: "int \<Rightarrow> int" where
  "dec_round u =
     (let k = decimal_digits (nat u) - 28 in
      if k = 0 then u else round_half_even u (10 ^ k) * 10 ^ k)"

definition dec_add :: "int \<Rightarrow> int \<Rightarrow> int" where
  "dec_add a b = dec_round (a + b)"

text \<open>\<^verbatim>\<open>math.ceil(n * 1.35)\<close>: the double nearest to 1.35 is 6079859496950170 / 2^52.\<close>

definition ceil_135 :: "int \<Rightarrow> int" where
  "ceil_135 n =
     (let p = n * 6079859496950170; k = binary_digits (nat p) - 53;
          v = round_half_even p (2 ^ k) * 2 ^ k
      in - ((- v) div 2 ^ 52))"

definition ceil_div :: "int \<Rightarrow> int \<Rightarrow> int" where
  "ceil_div n d = - ((- n) div d)"

definition MINUTE :: int where "MINUTE = 60000000"
definition HOUR :: int where "HOUR = 3600000000"
definition DAY :: int where "DAY = 86400000000"

definition time_of_day :: "int \<Rightarrow> int" where
  "time_of_day t = t mod DAY"

definition hour_of :: "int \<Rightarrow> int" where
  "hour_of t = time_of_day t div HOUR"

definition combine :: "int \<Rightarrow> int \<Rightarrow> int" where
  "combine date time = date * DAY + time"

section \<open>Policy and route services\<close>

record PlanningPolicy =
  po_version :: string
  po_day_start_hour :: int
  po_day_end_hour :: int
  po_max_blocks_per_day :: nat
  po_default_duration_minutes :: int
  po_minimum_buffer_minutes :: int

definition default_policy :: PlanningPolicy where
  "default_policy = \<lparr>po_version = ''planner-policy-1'', po_day_start_hour = 9, po_day_end_hour = 20,
     po_max_blocks_per_day = 4, po_default_duration_minutes = 120, po_minimum_buffer_minutes = 15\<rparr>"

type_synonym route_service = "nat \<Rightarrow> Candidate \<Rightarrow> Candidate \<Rightarrow> contract_error + TransitLeg"

definition haversine_distance_meters ::
    "(GeoPoint \<Rightarrow> GeoPoint \<Rightarrow> int) \<Rightarrow> Candidate \<Rightarrow> Candidate \<Rightarrow> contract_error + int" where
  "haversine_distance_meters great_circle origin dest =
     (let left = pl_location (cd_place_ref origin); right = pl_location (cd_place_ref dest) in
      if gp_coordinate_system left \<noteq> gp_coordinate_system right
      then Inl (ValueErr ''routing requires origin and destination in one coordinate system'')
      else Inr (great_circle left right))"

definition haversine_route :: "(GeoPoint \<Rightarrow> GeoPoint \<Rightarrow> int) \<Rightarrow> instant \<Rightarrow> route_service" where
  "haversine_route great_circle now _ origin dest =
     sbind (haversine_distance_meters great_circle origin dest) (\<lambda>distance.
       let (mode, speed) = (if distance \<le> 1500 then (Walk, 70) else (Transit, 300));
           minimum = max 0 (ceil_div distance speed);
           maximum = max minimum (ceil_135 minimum + 5)
       in construct TransitLeg_ok
            \<lparr>tg_mode = mode, tg_duration_min_minutes = minimum, tg_duration_max_minutes = maximum,
             tg_distance_meters = distance,
             tg_provider_snapshot_ref = system_source now ''route-estimate'' ''haversine-fallback-1''\<rparr>)"

definition provider_coordinate :: "Candidate \<Rightarrow> contract_error + ProviderCoordinate" where
  "provider_coordinate c =
     (let point = pl_location (cd_place_ref c) in
      if gp_coordinate_system point = BD09
      then Inl (ValueErr ''provider routing does not support BD-09 coordinates'')
      else Inr \<lparr>pc_longitude = gp_longitude point, pc_latitude = gp_latitude point,
                pc_coordinate_system = gp_coordinate_system point\<rparr>)"

text \<open>
  \<open>ProviderRouteService.route\<close>. \<open>gateway\<close> answers a one-by-one matrix request, \<^term>\<open>None\<close> for a
  \<^verbatim>\<open>ProviderError\<close>; the deadline check is \<open>expired\<close>; \<open>digest\<close> is the source digest computed with SHA-256.
\<close>

definition provider_route ::
    "(GeoPoint \<Rightarrow> GeoPoint \<Rightarrow> int) \<Rightarrow>
     (nat \<Rightarrow> ProviderCoordinate \<Rightarrow> ProviderCoordinate \<Rightarrow> RouteMode \<Rightarrow> RouteMatrixResult option) \<Rightarrow>
     (nat \<Rightarrow> bool) \<Rightarrow> (nat \<Rightarrow> RouteMatrixResult \<Rightarrow> string) \<Rightarrow> int \<Rightarrow> route_service \<Rightarrow> route_service" where
  "provider_route great_circle gateway expired digest walking_threshold fallback n origin dest =
     sbind (haversine_distance_meters great_circle origin dest) (\<lambda>straight.
     sbind (provider_coordinate origin) (\<lambda>po.
     sbind (provider_coordinate dest) (\<lambda>pd.
       if pc_coordinate_system po \<noteq> pc_coordinate_system pd
       then Inl (ValueErr ''provider routing cannot mix coordinate systems'')
       else
         let mode = (if straight \<le> walking_threshold then WALKING else DRIVING);
             result = (if expired n then None else gateway n po pd mode)
         in case result of
              None \<Rightarrow> fallback n origin dest
            | Some m \<Rightarrow>
                if rm_coordinate_system m \<noteq> pc_coordinate_system po
                then Inl (ValueErr ''route provider changed the coordinate system'')
                else case rm_cells m of
                  [cell] \<Rightarrow>
                    if ro_origin_index cell \<noteq> 0 \<or> ro_destination_index cell \<noteq> 0
                    then Inl (ValueErr ''route provider returned invalid matrix indexes'')
                    else
                      sbind (construct SourceRef_ok
                        \<lparr>sr_source_id = ''source:route_'' @ digest n m, sr_kind = SK_provider,
                         sr_name = pv_provider_id (rm_provenance m) @ '' route matrix'', sr_version = pv_provider_version (rm_provenance m),
                         sr_uri = None, sr_retrieved_at = pv_observed_at (rm_provenance m),
                         sr_publisher = Some (pv_provider_id (rm_provenance m)), sr_license = None\<rparr>) (\<lambda>src.
                      let minutes = ceil_div (ro_duration_seconds cell) 60 in
                      construct TransitLeg_ok
                        \<lparr>tg_mode = (if mode = WALKING then Walk else Drive),
                         tg_duration_min_minutes = minutes, tg_duration_max_minutes = minutes,
                         tg_distance_meters = ro_distance_meters cell, tg_provider_snapshot_ref = src\<rparr>)
                | _ \<Rightarrow> Inl (ValueErr ''route provider must return exactly one matrix cell''))))"

section \<open>Building a candidate plan\<close>

record planner_env =
  pe_policy :: PlanningPolicy
  pe_route :: route_service
  pe_token :: "nat \<Rightarrow> string"
  pe_now :: instant
  pe_casefold :: "string \<Rightarrow> string"
  pe_isoformat :: "int \<Rightarrow> string"
  pe_tz_known :: "string \<Rightarrow> bool"

record plan_acc =
  pc_days :: "PlanDay list"
  pc_total_min :: int
  pc_total_max :: int
  pc_route_distance :: int
  pc_route_duration :: int
  pc_route_legs :: int
  pc_cursor :: nat

record day_acc =
  da_blocks :: "PlanTimeBlock list"
  da_min :: int
  da_max :: int
  da_time :: int
  da_previous :: "Candidate option"

definition money :: "planner_env \<Rightarrow> int \<Rightarrow> int \<Rightarrow> string \<Rightarrow> SourceRef \<Rightarrow> contract_error + MoneyRange" where
  "money env minimum maximum currency source =
     construct MoneyRange_ok
       \<lparr>mr_min_amount = decimal_text minimum, mr_max_amount = decimal_text maximum, mr_currency = currency,
        mr_basis = Total, mr_observed_at = pe_now env, mr_source = source\<rparr>"

definition dates :: "int \<Rightarrow> int \<Rightarrow> int list" where
  "dates start end1 = map (\<lambda>i. start + int i) [0..<nat (end1 - start + 1)]"

definition citations :: "planner_env \<Rightarrow> EvidenceBundle \<Rightarrow> contract_error + Citation list" where
  "citations env ev =
     (if eb_citations ev \<noteq> [] then Inr (eb_citations ev)
      else case eb_evidence ev of
        [] \<Rightarrow> Inl IndexErr
      | first # _ \<Rightarrow>
          sbind (construct Citation_ok
            \<lparr>ci_citation_id = new_id (pe_token env 0) ''citation'', ci_evidence_id = ei_evidence_id first,
             ci_title = ei_title first, ci_locator = ''evidence:'' @ ei_evidence_id first,
             ci_source = ei_source first\<rparr>) (\<lambda>c. Inr [c]))"

text \<open>\<^verbatim>\<open>sub in s\<close>.\<close>

fun contains :: "string \<Rightarrow> string \<Rightarrow> bool" where
  "contains sub [] \<longleftrightarrow> sub = []"
| "contains sub (c # s) \<longleftrightarrow> take (length sub) (c # s) = sub \<or> contains sub s"

definition hard_terms :: "planner_env \<Rightarrow> ConstraintType \<Rightarrow> TripBrief \<Rightarrow> string list" where
  "hard_terms env ty brief =
     map (\<lambda>c. pe_casefold env (cs_description c))
       (filter (\<lambda>c. cs_hard c \<and> cs_constraint_type c = ty) (tb_constraints brief))"

definition names :: "planner_env \<Rightarrow> Candidate \<Rightarrow> string" where
  "names env c = pe_casefold env (pl_display_name (cd_place_ref c))"

definition eligible :: "planner_env \<Rightarrow> TripBrief \<Rightarrow> CandidateSet \<Rightarrow> Candidate list" where
  "eligible env brief cs =
     filter (\<lambda>c. \<not> list_ex (\<lambda>t. contains t (names env c)) (hard_terms env Ct_avoid brief)) (ct_candidates cs)"

definition planning_candidates :: "planner_env \<Rightarrow> TripBrief \<Rightarrow> CandidateSet \<Rightarrow> Candidate list" where
  "planning_candidates env brief cs =
     (let el = eligible env brief cs;
          retained = concat (map (\<lambda>t. filter (\<lambda>c. contains t (names env c)) el) (hard_terms env Ct_visit brief))
      in retained @ filter (\<lambda>c. cd_candidate_id c \<notin> set (map cd_candidate_id retained)) el)"

definition block_duration :: "planner_env \<Rightarrow> Candidate \<Rightarrow> int" where
  "block_duration env c =
     min 240 (case cd_recommended_duration_minutes c of
                None \<Rightarrow> po_default_duration_minutes (pe_policy env)
              | Some d \<Rightarrow> if d = 0 then po_default_duration_minutes (pe_policy env) else d)"

text \<open>The leg to the next candidate, with the totals it adds.\<close>

definition take_leg ::
    "planner_env \<Rightarrow> Candidate \<Rightarrow> plan_acc \<Rightarrow> day_acc \<Rightarrow> contract_error + TransitLeg option \<times> plan_acc \<times> int"
where
  "take_leg env cand acc day =
     (case da_previous day of
        None \<Rightarrow> Inr (None, acc, da_time day)
      | Some prev \<Rightarrow>
          sbind (pe_route env (pc_cursor acc) prev cand) (\<lambda>leg.
            Inr (Some leg,
                 acc\<lparr>pc_route_distance := pc_route_distance acc + tg_distance_meters leg,
                     pc_route_duration := pc_route_duration acc + tg_duration_max_minutes leg,
                     pc_route_legs := pc_route_legs acc + 1\<rparr>,
                 da_time day + (tg_duration_max_minutes leg + po_minimum_buffer_minutes (pe_policy env)) * MINUTE)))"

definition place_block ::
    "planner_env \<Rightarrow> Candidate list \<Rightarrow> string \<Rightarrow> string \<Rightarrow> SourceRef \<Rightarrow> nat \<Rightarrow> int \<Rightarrow> nat \<Rightarrow>
     plan_acc \<times> day_acc \<Rightarrow> contract_error + bool \<times> plan_acc \<times> day_acc" where
  "place_block env cands timezone currency source day_index local_date block_index = (\<lambda>(acc, day).
     let cand = cands ! (pc_cursor acc mod length cands);
         acc1 = acc\<lparr>pc_cursor := pc_cursor acc + 1\<rparr>
     in sbind (take_leg env cand acc1 day) (\<lambda>(transit, acc2, start).
       let duration = block_duration env cand;
           end_time = start + duration * MINUTE
       in if da_blocks day \<noteq> [] \<and> hour_of end_time \<ge> po_day_end_hour (pe_policy env)
          then Inr (True, acc2, day\<lparr>da_time := start\<rparr>)
          else
            sbind (case cd_estimated_cost cand of
                     Some c \<Rightarrow> Inr c | None \<Rightarrow> money env 0 0 currency source) (\<lambda>cost.
              if mr_currency cost \<noteq> currency
              then Inl (ValueErr ''candidate costs must use the trip budget currency'')
              else
                sbind (construct (ZonedTimeRange_ok (pe_tz_known env))
                  \<lparr>zt_local_date = local_date, zt_start_local_time = time_of_day start,
                   zt_end_local_time = time_of_day end_time, zt_end_day_offset = 0,
                   zt_timezone = timezone\<rparr>) (\<lambda>range.
                sbind (construct PlanTimeBlock_ok
                  \<lparr>bk_block_id = ''block_'' @ show_nat day_index @ ''_'' @ show_nat block_index @ ''_'' @
                     new_id (pe_token env (pc_cursor acc1 + 2)) ''item'',
                   bk_title = pl_display_name (cd_place_ref cand), bk_category = Bl_visit,
                   bk_place_ref = cd_place_ref cand, bk_time_range = range, bk_duration_minutes = duration,
                   bk_transit_from_previous = transit, bk_cost_range = Some cost,
                   bk_evidence_refs = cd_evidence_refs cand, bk_alternatives = []\<rparr>) (\<lambda>block.
                Inr (False, acc2,
                     \<lparr>da_blocks = da_blocks day @ [block],
                      da_min = dec_add (da_min day) (decimal_units (mr_min_amount cost)),
                      da_max = dec_add (da_max day) (decimal_units (mr_max_amount cost)),
                      da_time = end_time, da_previous = Some cand\<rparr>))))))"

definition start_day :: "planner_env \<Rightarrow> int \<Rightarrow> day_acc" where
  "start_day env local_date =
     \<lparr>da_blocks = [], da_min = 0, da_max = 0,
      da_time = combine local_date (po_day_start_hour (pe_policy env) * HOUR), da_previous = None\<rparr>"

definition plan_day ::
    "planner_env \<Rightarrow> Candidate list \<Rightarrow> string \<Rightarrow> string \<Rightarrow> SourceRef \<Rightarrow> nat \<times> int \<Rightarrow> plan_acc \<Rightarrow>
     contract_error + plan_acc" where
  "plan_day env cands timezone currency source = (\<lambda>(day_index, local_date) acc.
     sbind (sloop (place_block env cands timezone currency source day_index local_date)
              [0..<min (po_max_blocks_per_day (pe_policy env)) (length cands)]
              (acc, start_day env local_date)) (\<lambda>(acc1, day).
       if da_blocks day = []
       then Inl (ValueErr ''planning policy could not place at least one candidate per day'')
       else
         sbind (money env (da_min day) (da_max day) currency source) (\<lambda>daily_cost.
         sbind (construct (PlanDay_ok (pe_tz_known env))
           \<lparr>pd_date = local_date, pd_timezone = timezone, pd_time_blocks = da_blocks day,
            pd_day_summary = pe_isoformat env local_date @ '': candidate itinerary with '' @
              show_nat (length (da_blocks day)) @ '' places.'',
            pd_daily_cost = daily_cost\<rparr>) (\<lambda>plan_day.
         Inr (acc1\<lparr>pc_days := pc_days acc1 @ [plan_day],
                   pc_total_min := dec_add (pc_total_min acc1) (da_min day),
                   pc_total_max := dec_add (pc_total_max acc1) (da_max day)\<rparr>)))))"

definition start_plan :: plan_acc where
  "start_plan = \<lparr>pc_days = [], pc_total_min = 0, pc_total_max = 0, pc_route_distance = 0,
     pc_route_duration = 0, pc_route_legs = 0, pc_cursor = 0\<rparr>"

definition finish_plan ::
    "planner_env \<Rightarrow> TripBrief \<Rightarrow> CandidateSet \<Rightarrow> EvidenceBundle \<Rightarrow> SourceRef \<Rightarrow> plan_acc \<Rightarrow>
     contract_error + ItineraryPlan" where
  "finish_plan env brief cs ev source acc =
     sbind (money env (pc_total_min acc) (pc_total_max acc) (mr_currency (tb_budget brief)) source) (\<lambda>total.
     sbind (construct BudgetSummary_ok
       \<lparr>bs_estimated_total = total, bs_category_totals = [\<lparr>bc_category = Bu_other, bc_cost = total\<rparr>],
        bs_contingency_percent = 10\<rparr>) (\<lambda>budget.
     sbind (construct RouteSummary_ok
       \<lparr>rs_total_distance_meters = pc_route_distance acc,
        rs_total_transit_duration_minutes = pc_route_duration acc, rs_legs_count = pc_route_legs acc,
        rs_source = system_source (pe_now env) ''route-summary'' ''1''\<rparr>) (\<lambda>routes.
     sbind (citations env ev) (\<lambda>cits.
     construct (ItineraryPlan_ok (pe_tz_known env))
       \<lparr>ab_artifact_id = new_id (pe_token env 1) ''artifact'', ab_schema_version = 1, ab_version = 1,
        ab_created_at = pe_now env, ab_created_by = system_actor ''planner'',
        ab_reason = ''Candidate itinerary built from approved candidates and evidence.'',
        ip_plan_id = new_id (pe_token env 2) ''plan'', ip_status = Ps_candidate,
        ip_trip_brief_ref = artifact_ref brief AT_TripBrief,
        ip_candidate_set_ref = artifact_ref cs AT_CandidateSet,
        ip_evidence_bundle_ref = artifact_ref ev AT_EvidenceBundle,
        ip_timezone = ct_timezone cs, ip_assumptions = [], ip_days = pc_days acc,
        ip_budget_summary = budget, ip_route_summary = routes, ip_citations = cits,
        ip_unresolved_risks = [], ip_validation_ref = None\<rparr>))))"

definition build_candidate ::
    "planner_env \<Rightarrow> TripBrief \<Rightarrow> CandidateSet \<Rightarrow> EvidenceBundle \<Rightarrow> contract_error + ItineraryPlan" where
  "build_candidate env brief cs ev =
     (if ar_artifact_id (ct_trip_brief_ref cs) \<noteq> ab_artifact_id brief
      then Inl (ValueErr ''candidate set does not belong to the supplied trip brief'')
      else if ar_artifact_id (ct_evidence_bundle_ref cs) \<noteq> ab_artifact_id ev
      then Inl (ValueErr ''candidate set does not belong to the supplied evidence bundle'')
      else if pl_timezone (tb_destination brief) \<noteq> ct_timezone cs \<or> eb_timezone ev \<noteq> ct_timezone cs
      then Inl (ValueErr ''planner inputs must share one timezone'')
      else if eligible env brief cs = []
      then Inl (ValueErr ''hard avoid constraints removed every grounded candidate'')
      else
        let cands = planning_candidates env brief cs;
            days = dates (td_start_date (tb_date_window brief)) (td_end_date (tb_date_window brief))
        in sbind (construct SourceRef_ok
                    (system_source (pe_now env) ''deterministic-planner'' (po_version (pe_policy env)))) (\<lambda>source.
           sbind (sfold (plan_day env cands (ct_timezone cs) (mr_currency (tb_budget brief)) source)
                    (enumerate 0 days) start_plan)
             (finish_plan env brief cs ev source)))"

end
