(* ===== verification/Plan_Validation.thy ===== *)
theory Plan_Validation
  imports Planner
begin

text \<open>
  Constraint checks, semantic review and publication policy,
  \<^verbatim>\<open>agent/travel_agent/runtime_v2/validation.py\<close>. Messages are English renderings of the Chinese
  originals. The identifier of the n-th check, risk or issue uses the n-th token. A decimal quotient is
  the exact rational: 28 digits decide the comparisons with 0.9 and 0.0001 alike.
\<close>

record check_env =
  ve_token :: "nat \<Rightarrow> string"
  ve_now :: instant
  ve_casefold :: "string \<Rightarrow> string"
  ve_tz_known :: "string \<Rightarrow> bool"

section \<open>The constraint validator\<close>

definition observation :: "string \<Rightarrow> string \<Rightarrow> string \<Rightarrow> MetricObservation" where
  "observation metric v u = \<lparr>mo_metric = metric, mo_value = v, mo_unit = u\<rparr>"

text \<open>\<open>check\<close>, with the identifier to be filled in by the position of the check.\<close>

definition check ::
    "check_env \<Rightarrow> CheckCategory \<Rightarrow> bool \<Rightarrow> Outcome \<Rightarrow> string \<Rightarrow> string \<Rightarrow> string list \<Rightarrow> MetricObservation list \<Rightarrow>
     string option \<Rightarrow> ConstraintCheck" where
  "check env category good bad yes no block_ids observations constraint_ref =
     \<lparr>cc_check_id = [], cc_constraint_ref = constraint_ref, cc_category = category,
      cc_outcome = (if good then Pass else bad), cc_message = (if good then yes else no),
      cc_source = system_source (ve_now env) ''constraint-validator'' ''1'',
      cc_related_block_ids = block_ids, cc_observations = observations\<rparr>"

definition local_interval :: "int \<Rightarrow> ZonedTimeRange \<Rightarrow> int \<times> int" where
  "local_interval local_date r =
     (combine local_date (zt_start_local_time r),
      combine local_date (zt_end_local_time r) + zt_end_day_offset r * DAY)"

definition minutes_between :: "int \<Rightarrow> int \<Rightarrow> int" where
  "minutes_between a b = (b - a) div MINUTE"

definition plan_blocks :: "ItineraryPlan \<Rightarrow> PlanTimeBlock list" where
  "plan_blocks plan = concat (map pd_time_blocks (ip_days plan))"

definition dates_valid :: "TripBrief \<Rightarrow> ItineraryPlan \<Rightarrow> bool" where
  "dates_valid brief plan =
     (let ds = map pd_date (ip_days plan) in
      ds \<noteq> [] \<and> Min (set ds) \<ge> td_start_date (tb_date_window brief) \<and>
      Max (set ds) \<le> td_end_date (tb_date_window brief))"

definition has_concrete_place :: "TripBrief \<Rightarrow> ItineraryPlan \<Rightarrow> bool" where
  "has_concrete_place brief plan =
     list_ex (\<lambda>b. pl_place_id (bk_place_ref b) \<noteq> pl_place_id (tb_destination brief)) (plan_blocks plan)"

definition unique_places :: "PlanDay \<Rightarrow> bool" where
  "unique_places day = distinct (map (pl_place_id \<circ> bk_place_ref) (pd_time_blocks day))"

definition duration_check :: "check_env \<Rightarrow> PlanDay \<Rightarrow> PlanTimeBlock \<Rightarrow> ConstraintCheck" where
  "duration_check env day b =
     (let (start, end1) = local_interval (pd_date day) (bk_time_range b);
          actual = minutes_between start end1
      in check env Ck_time (actual = bk_duration_minutes b) Fail
           ''The stay matches its time range.'' ''The stay does not match its time range.''
           [bk_block_id b] [observation ''duration'' (show_int actual) ''minutes''] None)"

definition route_check :: "check_env \<Rightarrow> PlanDay \<Rightarrow> int \<Rightarrow> PlanTimeBlock \<Rightarrow> ConstraintCheck" where
  "route_check env day previous_end b =
     (let gap = minutes_between previous_end (fst (local_interval (pd_date day) (bk_time_range b)));
          required = (case bk_transit_from_previous b of None \<Rightarrow> 0 | Some leg \<Rightarrow> tg_duration_max_minutes leg)
      in check env Ck_route (gap \<ge> required) Fail
           ''The time between places covers the route.'' ''The time between places does not cover the route.''
           [bk_block_id b] [observation ''available'' (show_int gap) ''minutes'',
                            observation ''required'' (show_int required) ''minutes''] None)"

definition reference_check :: "check_env \<Rightarrow> string set \<Rightarrow> PlanTimeBlock \<Rightarrow> ConstraintCheck" where
  "reference_check env known b =
     check env Ck_hard_constraint (set (bk_evidence_refs b) \<subseteq> known) Fail
       ''Every evidence reference of the block resolves.''
       ''The block has evidence references that do not resolve.'' [bk_block_id b] [] None"

fun block_checks ::
    "check_env \<Rightarrow> string set \<Rightarrow> PlanDay \<Rightarrow> int option \<Rightarrow> PlanTimeBlock list \<Rightarrow> ConstraintCheck list" where
  "block_checks env known day previous_end [] = []"
| "block_checks env known day previous_end (b # bs) =
     duration_check env day b #
     (case previous_end of None \<Rightarrow> [] | Some e \<Rightarrow> [route_check env day e b]) @
     reference_check env known b #
     block_checks env known day (Some (snd (local_interval (pd_date day) (bk_time_range b)))) bs"

definition day_checks :: "check_env \<Rightarrow> string set \<Rightarrow> PlanDay \<Rightarrow> ConstraintCheck list" where
  "day_checks env known day =
     check env Ck_hard_constraint (unique_places day) Fail
       ''No place appears twice in a day.'' ''A place appears twice in a day; publication is forbidden.''
       (map bk_block_id (pd_time_blocks day)) [] None #
     block_checks env known day None (pd_time_blocks day)"

definition budget_ok :: "TripBrief \<Rightarrow> ItineraryPlan \<Rightarrow> bool" where
  "budget_ok brief plan =
     (let total = bs_estimated_total (ip_budget_summary plan) in
      mr_currency total = mr_currency (tb_budget brief) \<and>
      decimal_units (mr_max_amount total) \<le> decimal_units (mr_max_amount (tb_budget brief)))"

definition budget_check :: "check_env \<Rightarrow> TripBrief \<Rightarrow> ItineraryPlan \<Rightarrow> ConstraintCheck" where
  "budget_check env brief plan =
     check env Ck_budget (budget_ok brief plan) Fail
       ''The plan stays within the budget.'' ''The plan exceeds the budget or uses another currency.'' []
       [observation ''plan_max'' (mr_max_amount (bs_estimated_total (ip_budget_summary plan)))
          (mr_currency (tb_budget brief)),
        observation ''budget_max'' (mr_max_amount (tb_budget brief)) (mr_currency (tb_budget brief))] None"

text \<open>\<^verbatim>\<open>" ".join(words)\<close>.\<close>

fun join_words :: "string list \<Rightarrow> string" where
  "join_words [] = []"
| "join_words [w] = w"
| "join_words (w # v # ws) = w @ '' '' @ join_words (v # ws)"

definition plan_titles :: "check_env \<Rightarrow> ItineraryPlan \<Rightarrow> string" where
  "plan_titles env plan = join_words (map (ve_casefold env \<circ> bk_title) (plan_blocks plan))"

definition satisfied :: "check_env \<Rightarrow> ItineraryPlan \<Rightarrow> ConstraintSpec \<Rightarrow> bool" where
  "satisfied env plan c =
     (let mentioned = contains (ve_casefold env (cs_description c)) (plan_titles env plan) in
      if cs_constraint_type c = Ct_visit then mentioned else \<not> mentioned)"

definition constraint_checks :: "check_env \<Rightarrow> TripBrief \<Rightarrow> ItineraryPlan \<Rightarrow> ConstraintCheck list" where
  "constraint_checks env brief plan =
     map (\<lambda>c. check env Ck_hard_constraint (satisfied env plan c) Fail
                ''The checkable visit or avoid constraint holds.''
                ''The checkable visit or avoid constraint does not hold.'' [] [] (Some (cs_constraint_id c)))
       (filter (\<lambda>c. cs_hard c \<and> cs_constraint_type c \<in> {Ct_visit, Ct_avoid}) (tb_constraints brief))"

definition freshness_by_id :: "EvidenceBundle \<Rightarrow> string \<Rightarrow> FreshnessStatus option" where
  "freshness_by_id ev = map_of (rev (map (\<lambda>i. (ei_evidence_id i, fr_status (ei_freshness i))) (eb_evidence ev)))"

definition freshness_check :: "check_env \<Rightarrow> EvidenceBundle \<Rightarrow> PlanTimeBlock \<Rightarrow> ConstraintCheck" where
  "freshness_check env ev b =
     (let statuses = List.map_filter (freshness_by_id ev) (bk_evidence_refs b) in
      check env Ck_opening_hours (statuses \<noteq> [] \<and> list_all (\<lambda>s. s = FRESH) statuses) Warning
        ''The evidence is current.'' ''The evidence may be out of date; opening hours need a live check.''
        [bk_block_id b] [] None)"

definition raw_checks ::
    "check_env \<Rightarrow> TripBrief \<Rightarrow> ItineraryPlan \<Rightarrow> EvidenceBundle \<Rightarrow> ConstraintCheck list" where
  "raw_checks env brief plan ev =
     check env Ck_hard_constraint (dates_valid brief plan) Fail
       ''The plan lies in the date window.'' ''The plan leaves the date window.'' [] [] None #
     check env Ck_hard_constraint (has_concrete_place brief plan) Fail
       ''The plan has concrete places.''
       ''The plan has only the destination as a placeholder; publication is forbidden.''
       (map bk_block_id (plan_blocks plan)) [] None #
     concat (map (day_checks env (set (map ei_evidence_id (eb_evidence ev)))) (ip_days plan)) @
     budget_check env brief plan #
     constraint_checks env brief plan @
     map (freshness_check env ev) (plan_blocks plan)"

definition check_valid :: "ConstraintCheck \<Rightarrow> bool" where
  "check_valid c \<longleftrightarrow> ConstraintCheck_ok c \<and> list_all MetricObservation_ok (cc_observations c)"

definition number_check :: "check_env \<Rightarrow> nat \<times> ConstraintCheck \<Rightarrow> contract_error + ConstraintCheck" where
  "number_check env = (\<lambda>(n, c). construct check_valid (c\<lparr>cc_check_id := new_id (ve_token env n) ''check''\<rparr>))"

definition constraint_report :: "check_env \<Rightarrow> ItineraryPlan \<Rightarrow> ConstraintCheck list \<Rightarrow> ConstraintReport" where
  "constraint_report env plan checks =
     (let passed = count_outcome Pass checks; warnings = count_outcome Warning checks;
          failed = count_outcome Fail checks
      in \<lparr>ab_artifact_id = new_id (ve_token env (length checks)) ''artifact'', ab_schema_version = 1,
          ab_version = 1, ab_created_at = ve_now env, ab_created_by = system_actor ''constraint-validator'',
          ab_reason = ''Deterministic time, route, budget and hard constraint checks.'',
          cr_plan_ref = artifact_ref plan AT_ItineraryPlan, cr_timezone = ip_timezone plan,
          cr_checked_at = ve_now env,
          cr_engine = \<lparr>vc_name = ''RoutePilot Constraint Validator'', vc_version = ''constraint-validator-1''\<rparr>,
          cr_outcome = (if failed \<noteq> 0 then Fail else if warnings \<noteq> 0 then Warning else Pass),
          cr_checks = checks,
          cr_summary = \<lparr>sm_passed = passed, sm_warnings = warnings, sm_failed = failed\<rparr>\<rparr>)"

definition validate ::
    "check_env \<Rightarrow> TripBrief \<Rightarrow> ItineraryPlan \<Rightarrow> EvidenceBundle \<Rightarrow> contract_error + ConstraintReport" where
  "validate env brief plan ev =
     sbind (smap (number_check env) (enumerate 0 (raw_checks env brief plan ev))) (\<lambda>checks.
       construct (ConstraintReport_ok (ve_tz_known env)) (constraint_report env plan checks))"

section \<open>The semantic verifier\<close>

definition known_evidence :: "EvidenceBundle \<Rightarrow> string set" where
  "known_evidence ev = set (map ei_evidence_id (eb_evidence ev))"

definition used_refs :: "ItineraryPlan \<Rightarrow> string list list" where
  "used_refs plan = map bk_evidence_refs (plan_blocks plan) @ map pa_evidence_refs (ip_assumptions plan)"

definition supported_count :: "ItineraryPlan \<Rightarrow> EvidenceBundle \<Rightarrow> int" where
  "supported_count plan ev =
     int (length (filter (\<lambda>refs. refs \<noteq> [] \<and> set refs \<subseteq> known_evidence ev) (used_refs plan)))"

definition coverage_ratio :: "ItineraryPlan \<Rightarrow> EvidenceBundle \<Rightarrow> rat" where
  "coverage_ratio plan ev =
     (if used_refs plan = [] then 1
      else of_int (supported_count plan ev) / of_int (int (length (used_refs plan))))"

definition risk ::
    "RiskCategory \<Rightarrow> Severity \<Rightarrow> string \<Rightarrow> string list \<Rightarrow> string list \<Rightarrow> string \<Rightarrow> SemanticRisk" where
  "risk category severity message blocks refs resolution =
     \<lparr>sk_risk_id = [], sk_category = category, sk_severity = severity, sk_message = message,
      sk_affected_block_ids = blocks, sk_evidence_refs = refs, sk_suggested_resolution = Some resolution\<rparr>"

definition unknown_refs :: "EvidenceBundle \<Rightarrow> PlanTimeBlock \<Rightarrow> string list" where
  "unknown_refs ev b = sort (remdups (filter (\<lambda>r. r \<notin> known_evidence ev) (bk_evidence_refs b)))"

definition unknown_risks :: "ItineraryPlan \<Rightarrow> EvidenceBundle \<Rightarrow> SemanticRisk list" where
  "unknown_risks plan ev =
     map (\<lambda>b. risk Rk_evidence_gap Sev_high ''A block has unknown evidence references.'' [bk_block_id b]
                (unknown_refs ev b) ''Retrieve again and cite evidence of the bundle only.'')
       (filter (\<lambda>b. unknown_refs ev b \<noteq> []) (plan_blocks plan))"

definition evidence_by_id :: "EvidenceBundle \<Rightarrow> string \<Rightarrow> EvidenceItem option" where
  "evidence_by_id ev = map_of (rev (map (\<lambda>i. (ei_evidence_id i, i)) (eb_evidence ev)))"

definition stale_risks :: "ItineraryPlan \<Rightarrow> EvidenceBundle \<Rightarrow> SemanticRisk list" where
  "stale_risks plan ev =
     List.map_filter (\<lambda>i. case evidence_by_id ev i of
         None \<Rightarrow> None
       | Some item \<Rightarrow>
           if fr_status (ei_freshness item) = FRESH then None
           else Some (risk Rk_evidence_gap Sev_medium (''Evidence '' @ ei_title item @ '' is not fresh.'') [] [i]
             ''Refresh the fact through a live provider before publication.''))
       (sort (remdups (filter (\<lambda>r. r \<in> known_evidence ev) (concat (used_refs plan)))))"

definition assumption_risks :: "ItineraryPlan \<Rightarrow> SemanticRisk list" where
  "assumption_risks plan =
     map (\<lambda>_. risk Rk_assumption Sev_medium ''The plan has an assumption without evidence.'' [] []
                ''Add evidence or show the assumption to the user.'')
       (filter (\<lambda>a. pa_evidence_refs a = []) (ip_assumptions plan))"

definition unresolved_conflicts :: "EvidenceBundle \<Rightarrow> EvidenceConflict list" where
  "unresolved_conflicts ev = filter (\<lambda>c. ef_resolution_status c = Unresolved) (eb_conflicts ev)"

definition conflict_risks :: "EvidenceBundle \<Rightarrow> SemanticRisk list" where
  "conflict_risks ev =
     map (\<lambda>c. risk Rk_source_conflict Sev_high (''Unresolved source conflict: '' @ ef_topic c) []
                (ef_evidence_refs c) ''Choose an authoritative or newer source and validate again.'')
       (unresolved_conflicts ev)"

definition raw_risks :: "ItineraryPlan \<Rightarrow> EvidenceBundle \<Rightarrow> SemanticRisk list" where
  "raw_risks plan ev = unknown_risks plan ev @ stale_risks plan ev @ assumption_risks plan @ conflict_risks ev"

definition number_risk :: "check_env \<Rightarrow> nat \<times> SemanticRisk \<Rightarrow> contract_error + SemanticRisk" where
  "number_risk env = (\<lambda>(n, r). construct SemanticRisk_ok (r\<lparr>sk_risk_id := new_id (ve_token env n) ''risk''\<rparr>))"

definition verify :: "check_env \<Rightarrow> ItineraryPlan \<Rightarrow> EvidenceBundle \<Rightarrow> contract_error + SemanticRiskReport" where
  "verify env plan ev =
     sbind (smap (number_risk env) (enumerate 0 (raw_risks plan ev))) (\<lambda>risks.
     sbind (construct EvidenceCoverage_ok
       \<lparr>cv_claims_total = int (length (used_refs plan)), cv_claims_supported = supported_count plan ev,
        cv_claims_missing = int (length (used_refs plan)) - supported_count plan ev,
        cv_coverage_ratio = coverage_ratio plan ev\<rparr>) (\<lambda>coverage.
     construct (SemanticRiskReport_ok (ve_tz_known env))
       \<lparr>ab_artifact_id = new_id (ve_token env (length risks)) ''artifact'', ab_schema_version = 1,
        ab_version = 1, ab_created_at = ve_now env, ab_created_by = system_actor ''semantic-verifier'',
        ab_reason = ''Independent review of evidence coverage, assumptions and conflicts.'',
        se_plan_ref = artifact_ref plan AT_ItineraryPlan,
        se_evidence_bundle_ref = artifact_ref ev AT_EvidenceBundle, se_timezone = ip_timezone plan,
        se_assessed_at = ve_now env,
        se_reviewer = \<lparr>vc_name = ''RoutePilot Semantic Verifier'', vc_version = ''semantic-verifier-1''\<rparr>,
        se_assessment_source = system_source (ve_now env) ''semantic-verifier'' ''semantic-verifier-1'',
        se_outcome = (if list_ex (\<lambda>r. sk_severity r \<in> {Sev_high, Sev_critical}) risks then Fail
                      else if risks \<noteq> [] then Warning else Pass),
        se_evidence_coverage = coverage, se_risks = risks,
        se_source_conflicts = unresolved_conflicts ev\<rparr>))"

section \<open>The publication policy\<close>

definition issue :: "IssueOrigin \<Rightarrow> Severity \<Rightarrow> string \<Rightarrow> ArtifactRef \<Rightarrow> ValidationIssue" where
  "issue origin severity message ref =
     \<lparr>vi_issue_id = [], vi_origin = origin, vi_severity = severity, vi_message = message,
      vi_source_report_ref = ref\<rparr>"

definition constraint_issue :: "ArtifactRef \<Rightarrow> ConstraintCheck \<Rightarrow> ValidationIssue" where
  "constraint_issue ref c =
     issue Or_constraint (if cc_outcome c = Fail then Sev_high else Sev_medium) (cc_message c) ref"

definition risk_issue :: "ArtifactRef \<Rightarrow> SemanticRisk \<Rightarrow> ValidationIssue" where
  "risk_issue ref r = issue Or_semantic (sk_severity r) (sk_message r) ref"

definition raw_blockers :: "ConstraintReport \<Rightarrow> SemanticRiskReport \<Rightarrow> ValidationIssue list" where
  "raw_blockers constraints semantic =
     map (constraint_issue (artifact_ref constraints AT_ConstraintReport))
       (filter (\<lambda>c. cc_outcome c = Fail) (cr_checks constraints)) @
     map (risk_issue (artifact_ref semantic AT_SemanticRiskReport))
       (filter (\<lambda>r. sk_severity r \<in> {Sev_high, Sev_critical}) (se_risks semantic)) @
     (if cv_coverage_ratio (se_evidence_coverage semantic) < 9 / 10
      then [issue Or_policy Sev_high ''Evidence coverage is below the publication threshold of 90%.''
              (artifact_ref semantic AT_SemanticRiskReport)]
      else [])"

definition raw_warnings :: "ConstraintReport \<Rightarrow> SemanticRiskReport \<Rightarrow> ValidationIssue list" where
  "raw_warnings constraints semantic =
     map (constraint_issue (artifact_ref constraints AT_ConstraintReport))
       (filter (\<lambda>c. cc_outcome c = Warning) (cr_checks constraints)) @
     map (risk_issue (artifact_ref semantic AT_SemanticRiskReport))
       (filter (\<lambda>r. sk_severity r \<notin> {Sev_high, Sev_critical}) (se_risks semantic))"

definition number_issue :: "check_env \<Rightarrow> nat \<times> ValidationIssue \<Rightarrow> contract_error + ValidationIssue" where
  "number_issue env = (\<lambda>(n, i). construct ValidationIssue_ok (i\<lparr>vi_issue_id := new_id (ve_token env n) ''issue''\<rparr>))"

text \<open>\<open>combine\<close> of \<^verbatim>\<open>ValidationPolicyService\<close>.\<close>

definition combine_reports ::
    "check_env \<Rightarrow> ItineraryPlan \<Rightarrow> ConstraintReport \<Rightarrow> SemanticRiskReport \<Rightarrow> contract_error + ValidationReport" where
  "combine_reports env plan constraints semantic =
     (if ar_artifact_id (cr_plan_ref constraints) \<noteq> ab_artifact_id plan
      then Inl (ValueErr ''constraint report belongs to another plan'')
      else if ar_artifact_id (se_plan_ref semantic) \<noteq> ab_artifact_id plan
      then Inl (ValueErr ''semantic report belongs to another plan'')
      else
        let bs = raw_blockers constraints semantic; ws = raw_warnings constraints semantic in
        sbind (smap (number_issue env) (enumerate 0 bs)) (\<lambda>blockers.
        sbind (smap (number_issue env) (enumerate (length bs) ws)) (\<lambda>warnings.
        construct (ValidationReport_ok (ve_tz_known env))
          \<lparr>ab_artifact_id = new_id (ve_token env (length bs + length ws)) ''artifact'', ab_schema_version = 1,
           ab_version = 1, ab_created_at = ve_now env, ab_created_by = system_actor ''validation-policy'',
           ab_reason = ''Constraint checks and semantic review combined into the publication gate.'',
           va_plan_ref = artifact_ref plan AT_ItineraryPlan,
           va_constraint_report_ref = artifact_ref constraints AT_ConstraintReport,
           va_semantic_risk_report_ref = artifact_ref semantic AT_SemanticRiskReport,
           va_timezone = ip_timezone plan, va_generated_at = ve_now env,
           va_policy_version = ''publication-policy-1'',
           va_verdict = (if blockers \<noteq> [] then Fail else if warnings \<noteq> [] then Warning else Pass),
           va_publishable = (blockers = []), va_blockers = blockers, va_warnings = warnings\<rparr>)))"

end
