(* ===== verification/Validation_Meaning.thy ===== *)
theory Validation_Meaning
  imports Plan_Validation
begin

text \<open>
  What the reports mean. \<open>feasible\<close> states declaratively what a plan has to satisfy; the lemmas relate
  the checks, risks and issues of the reports to it and say when the reports are produced at all.
\<close>

section \<open>The specification\<close>

definition stay_matches :: "PlanDay \<Rightarrow> PlanTimeBlock \<Rightarrow> bool" where
  "stay_matches day b \<longleftrightarrow>
     minutes_between (fst (local_interval (pd_date day) (bk_time_range b)))
       (snd (local_interval (pd_date day) (bk_time_range b))) = bk_duration_minutes b"

definition reaches :: "PlanDay \<Rightarrow> PlanTimeBlock \<Rightarrow> PlanTimeBlock \<Rightarrow> bool" where
  "reaches day b b' \<longleftrightarrow>
     (case bk_transit_from_previous b' of None \<Rightarrow> 0 | Some leg \<Rightarrow> tg_duration_max_minutes leg)
       \<le> minutes_between (snd (local_interval (pd_date day) (bk_time_range b)))
            (fst (local_interval (pd_date day) (bk_time_range b')))"

definition feasible_day :: "EvidenceBundle \<Rightarrow> PlanDay \<Rightarrow> bool" where
  "feasible_day ev day \<longleftrightarrow> unique_places day \<and>
     (\<forall>b \<in> set (pd_time_blocks day). stay_matches day b \<and> set (bk_evidence_refs b) \<subseteq> known_evidence ev) \<and>
     successively (reaches day) (pd_time_blocks day)"

definition feasible :: "check_env \<Rightarrow> TripBrief \<Rightarrow> ItineraryPlan \<Rightarrow> EvidenceBundle \<Rightarrow> bool" where
  "feasible env brief plan ev \<longleftrightarrow>
     ip_days plan \<noteq> [] \<and>
     (\<forall>day \<in> set (ip_days plan). td_start_date (tb_date_window brief) \<le> pd_date day \<and>
        pd_date day \<le> td_end_date (tb_date_window brief)) \<and>
     (\<exists>b \<in> set (plan_blocks plan). pl_place_id (bk_place_ref b) \<noteq> pl_place_id (tb_destination brief)) \<and>
     (\<forall>day \<in> set (ip_days plan). feasible_day ev day) \<and>
     mr_currency (bs_estimated_total (ip_budget_summary plan)) = mr_currency (tb_budget brief) \<and>
     decimal_units (mr_max_amount (bs_estimated_total (ip_budget_summary plan)))
       \<le> decimal_units (mr_max_amount (tb_budget brief)) \<and>
     (\<forall>c \<in> set (tb_constraints brief). cs_hard c \<longrightarrow>
        (cs_constraint_type c = Ct_visit \<longrightarrow>
           contains (ve_casefold env (cs_description c)) (plan_titles env plan)) \<and>
        (cs_constraint_type c = Ct_avoid \<longrightarrow>
           \<not> contains (ve_casefold env (cs_description c)) (plan_titles env plan)))"

section \<open>Checks and their numbering\<close>

lemma smap_construct:
  "smap (\<lambda>x. construct ok (f x)) xs =
     (if list_all ok (map f xs) then Inr (map f xs) else Inl ValidationError)"
  by (induction xs) (auto simp: construct_def)

definition with_ids :: "('b \<Rightarrow> nat \<Rightarrow> 'b) \<Rightarrow> nat \<Rightarrow> 'b list \<Rightarrow> 'b list" where
  "with_ids f n xs = map (\<lambda>(i, x). f x i) (enumerate n xs)"

lemma with_ids_map:
  assumes "\<And>x i. g (f x i) = g x"
  shows "map g (with_ids f n xs) = map g xs"
  using assms by (induction xs arbitrary: n) (simp_all add: with_ids_def)

lemma length_with_ids [simp]: "length (with_ids f n xs) = length xs"
  by (simp add: with_ids_def)

lemma with_ids_Nil [simp]: "with_ids f n xs = [] \<longleftrightarrow> xs = []"
  by (auto simp: with_ids_def enumerate_eq_zip)

abbreviation numbered_checks :: "check_env \<Rightarrow> ConstraintCheck list \<Rightarrow> ConstraintCheck list" where
  "numbered_checks env \<equiv> with_ids (\<lambda>c n. c\<lparr>cc_check_id := new_id (ve_token env n) ''check''\<rparr>) 0"

abbreviation numbered_risks :: "check_env \<Rightarrow> SemanticRisk list \<Rightarrow> SemanticRisk list" where
  "numbered_risks env \<equiv> with_ids (\<lambda>r n. r\<lparr>sk_risk_id := new_id (ve_token env n) ''risk''\<rparr>) 0"

abbreviation numbered_issues :: "check_env \<Rightarrow> nat \<Rightarrow> ValidationIssue list \<Rightarrow> ValidationIssue list" where
  "numbered_issues env \<equiv> with_ids (\<lambda>i n. i\<lparr>vi_issue_id := new_id (ve_token env n) ''issue''\<rparr>)"

lemma smap_number:
  "smap (number_check env) (enumerate 0 cs) =
     (if list_all check_valid (numbered_checks env cs) then Inr (numbered_checks env cs) else Inl ValidationError)"
  "smap (number_risk env) (enumerate 0 rs) =
     (if list_all SemanticRisk_ok (numbered_risks env rs) then Inr (numbered_risks env rs)
      else Inl ValidationError)"
  "smap (number_issue env) (enumerate n xs) =
     (if list_all ValidationIssue_ok (numbered_issues env n xs) then Inr (numbered_issues env n xs)
      else Inl ValidationError)"
  unfolding number_check_def number_risk_def number_issue_def with_ids_def split_def
  by (rule smap_construct)+

lemma numbered_fields [simp]:
  "map cc_outcome (numbered_checks env cs) = map cc_outcome cs"
  "map cc_category (numbered_checks env cs) = map cc_category cs"
  "map sk_severity (numbered_risks env rs) = map sk_severity rs"
  by (simp_all add: with_ids_map)

definition no_fail :: "ConstraintCheck list \<Rightarrow> bool" where
  "no_fail cs \<longleftrightarrow> Fail \<notin> set (map cc_outcome cs)"

lemma no_fail_simps [simp]:
  "no_fail []" "no_fail (c # cs) \<longleftrightarrow> cc_outcome c \<noteq> Fail \<and> no_fail cs"
  "no_fail (cs @ ds) \<longleftrightarrow> no_fail cs \<and> no_fail ds"
  "no_fail (concat css) \<longleftrightarrow> (\<forall>cs \<in> set css. no_fail cs)"
  by (auto simp: no_fail_def)

lemma check_outcome [simp]:
  "cc_outcome (check env cat good bad yes no bs obs ref) = (if good then Pass else bad)"
  "cc_category (check env cat good bad yes no bs obs ref) = cat"
  by (simp_all add: check_def)

lemma count_Fail: "count_outcome Fail cs = 0 \<longleftrightarrow> no_fail cs"
  by (force simp: count_outcome_def no_fail_def filter_empty_conv)

lemma no_fail_numbered [simp]: "no_fail (numbered_checks env cs) = no_fail cs"
  unfolding no_fail_def by simp

lemma single_checks [simp]:
  "cc_outcome (duration_check env day b) = (if stay_matches day b then Pass else Fail)"
  "cc_outcome (reference_check env known b) = (if set (bk_evidence_refs b) \<subseteq> known then Pass else Fail)"
  "cc_outcome (route_check env day (snd (local_interval (pd_date day) (bk_time_range b0))) b) =
     (if reaches day b0 b then Pass else Fail)"
  "cc_outcome (freshness_check env ev b) \<noteq> Fail"
  by (simp_all add: duration_check_def reference_check_def route_check_def freshness_check_def stay_matches_def
      reaches_def split_def Let_def)

lemma block_checks_feasible:
  "no_fail (block_checks env known day (map_option (\<lambda>b0. snd (local_interval (pd_date day) (bk_time_range b0))) p) bs) \<longleftrightarrow>
     (\<forall>b \<in> set bs. stay_matches day b \<and> set (bk_evidence_refs b) \<subseteq> known) \<and>
     successively (reaches day) ((case p of None \<Rightarrow> [] | Some b0 \<Rightarrow> [b0]) @ bs)"
proof (induction bs arbitrary: p)
  case (Cons b bs)
  from Cons.IH [of "Some b"] show ?case
    by (cases p) (auto simp: successively_Cons)
qed (simp split: option.split)

lemma day_checks_feasible: "no_fail (day_checks env (known_evidence ev) day) \<longleftrightarrow> feasible_day ev day"
  using block_checks_feasible [of env "known_evidence ev" day None "pd_time_blocks day"]
  by (auto simp: day_checks_def feasible_day_def)

lemma dates_valid_iff:
  "dates_valid brief plan \<longleftrightarrow> ip_days plan \<noteq> [] \<and>
     (\<forall>day \<in> set (ip_days plan). td_start_date (tb_date_window brief) \<le> pd_date day \<and>
        pd_date day \<le> td_end_date (tb_date_window brief))"
  by (auto simp: dates_valid_def Let_def)

lemma constraint_checks_iff:
  "no_fail (constraint_checks env brief plan) \<longleftrightarrow>
     (\<forall>c \<in> set (tb_constraints brief). cs_hard c \<longrightarrow>
        (cs_constraint_type c = Ct_visit \<longrightarrow>
           contains (ve_casefold env (cs_description c)) (plan_titles env plan)) \<and>
        (cs_constraint_type c = Ct_avoid \<longrightarrow>
           \<not> contains (ve_casefold env (cs_description c)) (plan_titles env plan)))"
  by (auto simp: no_fail_def constraint_checks_def satisfied_def Let_def split: if_splits)

lemma freshness_never_fails [simp]: "no_fail (map (freshness_check env ev) bs)"
  by (induction bs) simp_all

lemma raw_checks_feasible: "no_fail (raw_checks env brief plan ev) \<longleftrightarrow> feasible env brief plan ev"
  unfolding raw_checks_def feasible_def known_evidence_def [symmetric]
  by (auto simp: day_checks_feasible dates_valid_iff constraint_checks_iff budget_check_def budget_ok_def
      has_concrete_place_def list_ex_iff Let_def split: if_splits)

section \<open>Meaning of the reports\<close>

lemma validate_Inr:
  assumes "validate env brief plan ev = Inr r"
  shows "cr_checks r = numbered_checks env (raw_checks env brief plan ev)"
    "cr_plan_ref r = artifact_ref plan AT_ItineraryPlan"
    "cr_outcome r = Fail \<longleftrightarrow> \<not> no_fail (raw_checks env brief plan ev)"
    "ConstraintReport_ok (ve_tz_known env) r"
  using assms by (auto simp: validate_def constraint_report_def sbind_Inr smap_number Let_def count_Fail split: if_splits)

lemma verify_Inr:
  assumes "verify env plan ev = Inr r"
  shows "se_risks r = numbered_risks env (raw_risks plan ev)"
    "se_plan_ref r = artifact_ref plan AT_ItineraryPlan"
    "cv_coverage_ratio (se_evidence_coverage r) = coverage_ratio plan ev"
    "SemanticRiskReport_ok (ve_tz_known env) r"
  using assms by (auto simp: verify_def sbind_Inr smap_number split: if_splits)

lemma raw_risks_severe:
  "(\<exists>x \<in> set (map sk_severity (raw_risks plan ev)). x \<in> {Sev_high, Sev_critical}) \<longleftrightarrow>
     (\<exists>b \<in> set (plan_blocks plan). \<not> set (bk_evidence_refs b) \<subseteq> known_evidence ev) \<or>
     unresolved_conflicts ev \<noteq> []"
proof -
  have u: "unknown_refs ev b \<noteq> [] \<longleftrightarrow> \<not> set (bk_evidence_refs b) \<subseteq> known_evidence ev" for b
  proof -
    have "unknown_refs ev b = [] \<longleftrightarrow> set (unknown_refs ev b) = {}" by simp
    also have "\<dots> \<longleftrightarrow> set (bk_evidence_refs b) \<subseteq> known_evidence ev" by (auto simp: unknown_refs_def)
    finally show ?thesis by blast
  qed
  have "sk_severity x = Sev_medium" if "x \<in> set (stale_risks plan ev)" for x
    using that by (auto simp: stale_risks_def List.map_filter_def risk_def split: option.splits if_splits)
  moreover have "sk_severity x = Sev_medium" if "x \<in> set (assumption_risks plan)" for x
    using that by (auto simp: assumption_risks_def risk_def)
  moreover have "sk_severity x = Sev_high" if "x \<in> set (unknown_risks plan ev)" for x
    using that by (auto simp: unknown_risks_def risk_def)
  moreover have "sk_severity x = Sev_high" if "x \<in> set (conflict_risks ev)" for x
    using that by (auto simp: conflict_risks_def risk_def)
  moreover have "unknown_risks plan ev \<noteq> [] \<longleftrightarrow> (\<exists>b \<in> set (plan_blocks plan). \<not> set (bk_evidence_refs b) \<subseteq> known_evidence ev)"
    by (simp only: unknown_risks_def map_is_Nil_conv filter_empty_conv u) blast
  moreover have "conflict_risks ev \<noteq> [] \<longleftrightarrow> unresolved_conflicts ev \<noteq> []" by (simp add: conflict_risks_def)
  moreover have "(\<exists>x \<in> set (map sk_severity (raw_risks plan ev)). x \<in> {Sev_high, Sev_critical}) \<longleftrightarrow>
      unknown_risks plan ev \<noteq> [] \<or> conflict_risks ev \<noteq> []"
    using calculation(1-4) by (fastforce simp: raw_risks_def neq_Nil_conv)
  ultimately show ?thesis by blast
qed

lemma combine_reports_Inr:
  assumes "combine_reports env plan c s = Inr v"
  shows "va_publishable v \<longleftrightarrow> raw_blockers c s = []"
    "va_blockers v = numbered_issues env 0 (raw_blockers c s)"
    "va_verdict v = (if raw_blockers c s \<noteq> [] then Fail else if raw_warnings c s \<noteq> [] then Warning else Pass)"
  using assms
  by (auto simp: combine_reports_def sbind_Inr smap_number Let_def split: if_splits)

lemma feasible_refs:
  "feasible env brief plan ev \<Longrightarrow> b \<in> set (plan_blocks plan) \<Longrightarrow> set (bk_evidence_refs b) \<subseteq> known_evidence ev"
  by (auto simp: feasible_def feasible_day_def plan_blocks_def)

section \<open>When the constraint report is produced\<close>

text \<open>\<^verbatim>\<open>secrets.token_hex(12)\<close> returns 24 hexadecimal digits.\<close>

definition hex_tokens :: "(nat \<Rightarrow> string) \<Rightarrow> bool" where
  "hex_tokens token \<longleftrightarrow>
     (\<forall>n. length (token n) = 24 \<and> (\<forall>c \<in> set (token n). is_digit c \<or> c \<in> set ''abcdef''))"

text \<open>Instances of the contract classes, nested values included; wall-clock times lie within a day.\<close>

definition block_valid :: "(string \<Rightarrow> bool) \<Rightarrow> PlanTimeBlock \<Rightarrow> bool" where
  "block_valid tz b \<longleftrightarrow> PlanTimeBlock_ok b \<and> ZonedTimeRange_ok tz (bk_time_range b) \<and>
     opt_ok TransitLeg_ok (bk_transit_from_previous b) \<and>
     0 \<le> zt_start_local_time (bk_time_range b) \<and> zt_start_local_time (bk_time_range b) < DAY \<and>
     0 \<le> zt_end_local_time (bk_time_range b) \<and> zt_end_local_time (bk_time_range b) < DAY"

definition plan_valid :: "(string \<Rightarrow> bool) \<Rightarrow> ItineraryPlan \<Rightarrow> bool" where
  "plan_valid tz plan \<longleftrightarrow> ItineraryPlan_ok tz plan \<and>
     MoneyRange_ok (bs_estimated_total (ip_budget_summary plan)) \<and>
     (\<forall>day \<in> set (ip_days plan). PlanDay_ok tz day \<and> (\<forall>b \<in> set (pd_time_blocks day). block_valid tz b))"

definition brief_valid :: "TripBrief \<Rightarrow> bool" where
  "brief_valid brief \<longleftrightarrow> TripBrief_ok brief \<and> MoneyRange_ok (tb_budget brief) \<and>
     (\<forall>c \<in> set (tb_constraints brief). ConstraintSpec_ok c)"

lemma show_nat_length: "n < 10 ^ k \<Longrightarrow> 0 < k \<Longrightarrow> length (show_nat n) \<le> k"
proof (induction k arbitrary: n)
  case (Suc k)
  show ?case
  proof (cases "n < 10")
    case True
    then show ?thesis by (subst show_nat.simps) simp
  next
    case False
    then have k: "k \<noteq> 0" using Suc.prems by (cases k) auto
    have "n div 10 < 10 ^ k" using Suc.prems by (simp add: div_less_iff_less_mult mult.commute)
    then have "length (show_nat (n div 10)) \<le> k" using Suc.IH k by blast
    then show ?thesis using False by (subst show_nat.simps) simp
  qed
qed simp

lemma show_int_length: "\<bar>z\<bar> < 10 ^ 18 \<Longrightarrow> 1 \<le> length (show_int z) \<and> length (show_int z) \<le> 19"
  using show_nat_length [of "nat z" 18] show_nat_length [of "nat (- z)" 18] show_nat_nonempty
  by (auto simp: show_int_def Suc_le_eq nat_less_iff)

lemma identifier_new_id:
  assumes "hex_tokens token" and "length p \<le> 100" and "p \<noteq> []" and "is_lower (hd p)"
    and "list_all identifier_char (tl p)"
  shows "Identifier (new_id (token n) p)"
proof -
  from assms(1) have t: "length (token n) = 24" "\<And>c. c \<in> set (token n) \<Longrightarrow> is_digit c \<or> c \<in> set ''abcdef''"
    by (auto simp: hex_tokens_def)
  have "identifier_char c" if "c \<in> set (token n)" for c
    using t(2) [OF that] by (auto simp: identifier_char_def is_lower_def)
  then show ?thesis
    using assms(2-5) t(1) by (cases p) (auto simp: Identifier_def new_id_def list_all_iff identifier_char_def)
qed

definition raw_valid :: "ConstraintCheck \<Rightarrow> bool" where
  "raw_valid c \<longleftrightarrow> (\<forall>i. Identifier i \<longrightarrow> check_valid (c\<lparr>cc_check_id := i\<rparr>))"

lemma raw_valid_check [simp]:
  "raw_valid (check env cat good bad yes no ids obs ref) \<longleftrightarrow>
     (\<exists>i. Identifier i) \<longrightarrow> opt_ok Identifier ref \<and> NonEmptyText (if good then yes else no) \<and> length ids \<le> 100 \<and>
     list_all Identifier ids \<and> length obs \<le> 30 \<and> list_all MetricObservation_ok obs"
  by (auto simp: raw_valid_def check_def check_valid_def ConstraintCheck_ok_def)

lemma observation_ok: "MetricObservation_ok (observation m v u) \<longleftrightarrow>
    1 \<le> length m \<and> length m \<le> 256 \<and> 1 \<le> length v \<and> length v \<le> 128 \<and> 1 \<le> length u \<and> length u \<le> 64"
  by (auto simp: observation_def MetricObservation_ok_def ShortText_def version_text_def)

lemma minutes_bounded: "\<bar>b - a\<bar> < 3 * DAY \<Longrightarrow> \<bar>minutes_between a b\<bar> < 10 ^ 18"
proof -
  assume "\<bar>b - a\<bar> < 3 * DAY"
  then have "- 300000000000 < b - a" "b - a < 300000000000" by (simp_all add: DAY_def)
  then have "- 300000000000 \<le> (b - a) div 60000000" "(b - a) div 60000000 < 300000000000" by linarith+
  then show ?thesis unfolding minutes_between_def MINUTE_def by (simp add: abs_less_iff)
qed

lemma interval_bounds:
  assumes "block_valid tz b" "local_interval d (bk_time_range b) = (s, e)"
  shows "d * DAY \<le> s \<and> s < (d + 1) * DAY \<and> d * DAY \<le> e \<and> e < (d + 2) * DAY"
  using assms by (auto simp: block_valid_def local_interval_def combine_def ZonedTimeRange_ok_def algebra_simps)

lemma block_checks_valid:
  assumes "\<forall>b \<in> set bs. block_valid tz b"
    and "\<And>e. p = Some e \<Longrightarrow> pd_date day * DAY \<le> e \<and> e < (pd_date day + 2) * DAY"
  shows "\<forall>c \<in> set (block_checks env known day p bs). raw_valid c"
  using assms
proof (induction bs arbitrary: p)
  case (Cons b bs)
  obtain s e where se: "local_interval (pd_date day) (bk_time_range b) = (s, e)" by force
  have bv: "block_valid tz b" using Cons.prems(1) by simp
  note bounds = interval_bounds [OF bv se]
  have id: "Identifier (bk_block_id b)" using bv by (simp add: block_valid_def PlanTimeBlock_ok_def)
  have "\<bar>e - s\<bar> < 3 * DAY" using bounds by (auto simp: DAY_def abs_less_iff)
  from show_int_length [OF minutes_bounded [OF this]] have 1: "raw_valid (duration_check env day b)"
    by (auto simp: duration_check_def se observation_ok NonEmptyText_def id opt_ok_def Let_def)
  have 2: "raw_valid (reference_check env known b)"
    by (auto simp: reference_check_def NonEmptyText_def id opt_ok_def)
  have 3: "raw_valid (route_check env day x b)" if "p = Some x" for x
  proof -
    have "\<bar>s - x\<bar> < 3 * DAY" using bounds Cons.prems(2) [OF that] by (auto simp: DAY_def abs_less_iff)
    note g = show_int_length [OF minutes_bounded [OF this]]
    let ?req = "case bk_transit_from_previous b of None \<Rightarrow> 0 | Some leg \<Rightarrow> tg_duration_max_minutes leg"
    have "\<bar>?req\<bar> < 10 ^ 18"
      using bv by (auto simp: block_valid_def opt_ok_def TransitLeg_ok_def split: option.splits)
    from g show_int_length [OF this] show ?thesis
      by (auto simp: route_check_def se observation_ok NonEmptyText_def id opt_ok_def Let_def)
  qed
  have "\<forall>c \<in> set (block_checks env known day (Some e) bs). raw_valid c"
    by (rule Cons.IH) (use Cons.prems(1) bounds in auto)
  with 1 2 3 show ?case by (cases p) (auto simp: se)
qed simp

lemma block_checks_length: "length (block_checks env known day p bs) \<le> 3 * length bs"
  by (induction bs arbitrary: p) (simp_all split: option.split add: le_SucI)

lemma day_checks_length: "length (day_checks env known day) \<le> 1 + 3 * length (pd_time_blocks day)"
  using block_checks_length [of env known day None "pd_time_blocks day"] by (simp add: day_checks_def)

lemma all_day_checks_length:
  "length (concat (map (day_checks env known) days)) \<le>
     length days + 3 * length (concat (map pd_time_blocks days))"
proof (induction days)
  case (Cons day days)
  then show ?case using day_checks_length [of env known day] by simp
qed simp

lemma money_lengths:
  assumes "MoneyRange_ok m"
  shows "1 \<le> length (mr_max_amount m)" "length (mr_max_amount m) \<le> 32" "length (mr_currency m) = 3"
  using assms
  by (auto simp: MoneyRange_ok_def decimal_amount_ok_def currency_code_ok_def Let_def Suc_le_eq)

lemma block_id_valid: "block_valid tz b \<Longrightarrow> Identifier (bk_block_id b)"
  by (simp add: block_valid_def PlanTimeBlock_ok_def)

lemma raw_checks_valid:
  assumes plan: "plan_valid tz plan" and brief: "brief_valid brief" and n: "length (plan_blocks plan) \<le> 100"
  shows "\<forall>c \<in> set (raw_checks env brief plan ev). raw_valid c"
proof -
  have bv: "block_valid tz b" if "b \<in> set (plan_blocks plan)" for b
    using that plan by (auto simp: plan_blocks_def plan_valid_def)
  have day: "raw_valid c" if "day \<in> set (ip_days plan)" "c \<in> set (day_checks env known day)" for day known c
  proof -
    have b: "\<forall>b \<in> set (pd_time_blocks day). block_valid tz b" and "PlanDay_ok tz day"
      using that(1) plan by (auto simp: plan_valid_def)
    then have "length (pd_time_blocks day) \<le> 50" "\<forall>i \<in> set (map bk_block_id (pd_time_blocks day)). Identifier i"
      using block_id_valid by (auto simp: PlanDay_ok_def)
    with that(2) block_checks_valid [OF b, of None day env known] show ?thesis
      by (auto simp: day_checks_def NonEmptyText_def opt_ok_def list_all_iff)
  qed
  have "raw_valid (budget_check env brief plan)"
    using money_lengths [of "bs_estimated_total (ip_budget_summary plan)"] money_lengths [of "tb_budget brief"]
      plan brief
    by (auto simp: budget_check_def plan_valid_def brief_valid_def NonEmptyText_def opt_ok_def observation_ok)
  moreover have "raw_valid c" if "c \<in> set (constraint_checks env brief plan)" for c
    using that brief by (auto simp: constraint_checks_def NonEmptyText_def opt_ok_def brief_valid_def ConstraintSpec_ok_def)
  moreover have "raw_valid (freshness_check env ev b)" if "b \<in> set (plan_blocks plan)" for b
    using bv [OF that] block_id_valid
    by (auto simp: freshness_check_def NonEmptyText_def opt_ok_def Let_def)
  moreover have "\<forall>i \<in> set (map bk_block_id (plan_blocks plan)). Identifier i"
    using bv block_id_valid by auto
  ultimately show ?thesis
    using day n by (auto simp: raw_checks_def NonEmptyText_def opt_ok_def list_all_iff)
qed

lemma raw_checks_length:
  assumes "plan_valid tz plan" and "brief_valid brief" and "length (plan_blocks plan) \<le> 100"
  shows "length (raw_checks env brief plan ev) \<le> 2000" "1 \<le> length (raw_checks env brief plan ev)"
proof -
  have "length (ip_days plan) \<le> 60" "length (tb_constraints brief) \<le> 100"
    using assms by (auto simp: plan_valid_def ItineraryPlan_ok_def brief_valid_def TripBrief_ok_def)
  moreover have "length (constraint_checks env brief plan) \<le> length (tb_constraints brief)"
    by (simp add: constraint_checks_def)
  moreover note all_day_checks_length [of env "set (map ei_evidence_id (eb_evidence ev))" "ip_days plan"]
  ultimately show "length (raw_checks env brief plan ev) \<le> 2000" "1 \<le> length (raw_checks env brief plan ev)"
    using assms(3) by (simp_all add: raw_checks_def plan_blocks_def)
qed

lemma numbered_checks_valid:
  assumes "hex_tokens (ve_token env)" and "\<forall>c \<in> set cs. raw_valid c"
  shows "list_all check_valid (numbered_checks env cs)"
proof -
  have "Identifier (new_id (ve_token env n) ''check'')" for n
    by (rule identifier_new_id [OF assms(1)]) (simp_all add: is_lower_def identifier_char_def)
  with assms(2) show ?thesis
    by (auto simp: list_all_iff with_ids_def raw_valid_def dest!: in_set_enumerate_eq [THEN iffD1] nth_mem)
qed

lemma validate_returns:
  assumes "hex_tokens (ve_token env)" and "plan_valid (ve_tz_known env) plan" and "brief_valid brief"
    and "length (plan_blocks plan) \<le> 100"
  shows "validate env brief plan ev =
    Inr (constraint_report env plan (numbered_checks env (raw_checks env brief plan ev)))"
proof -
  let ?cs = "numbered_checks env (raw_checks env brief plan ev)"
  have "list_all check_valid ?cs"
    by (rule numbered_checks_valid [OF assms(1) raw_checks_valid [OF assms(2-4)]])
  then have "validate env brief plan ev =
      construct (ConstraintReport_ok (ve_tz_known env)) (constraint_report env plan ?cs)"
    by (simp add: validate_def smap_number)
  moreover have "Identifier (new_id (ve_token env n) ''artifact'')" for n
    by (rule identifier_new_id [OF assms(1)]) (simp_all add: is_lower_def identifier_char_def)
  then have "ConstraintReport_ok (ve_tz_known env) (constraint_report env plan ?cs)"
    using raw_checks_length [OF assms(2-4)] assms(2)
    by (simp add: constraint_report_def ConstraintReport_ok_def ArtifactBase_ok_def NonEmptyText_def
        artifact_ref_def Let_def plan_valid_def ItineraryPlan_ok_def)
  ultimately show ?thesis by (simp add: construct_def)
qed

lemma validate_too_many_blocks:
  assumes "100 < length (plan_blocks plan)"
  shows "validate env brief plan ev = Inl ValidationError"
proof -
  let ?rest = "concat (map (day_checks env (set (map ei_evidence_id (eb_evidence ev)))) (ip_days plan)) @
     budget_check env brief plan # constraint_checks env brief plan @ map (freshness_check env ev) (plan_blocks plan)"
  have "\<not> check_valid ((check env Ck_hard_constraint (has_concrete_place brief plan) Fail m1 m2
      (map bk_block_id (plan_blocks plan)) [] None)\<lparr>cc_check_id := i\<rparr>)" for m1 m2 i
    using assms by (simp add: check_valid_def ConstraintCheck_ok_def check_def)
  then have "\<not> list_all check_valid (numbered_checks env (raw_checks env brief plan ev))"
    by (simp add: raw_checks_def with_ids_def)
  then show ?thesis by (simp add: validate_def smap_number)
qed

end
