(* ===== verification/Demo_Trip.thy ===== *)
theory Demo_Trip
  imports Validation_Meaning "HOL-Library.Code_Target_Nat"
begin

text \<open>
  A concrete trip: two days in Kyoto, three candidate places with evidence. The witnesses of the
  planning and validation properties evaluate the model on it.
\<close>

definition hex_token :: "nat \<Rightarrow> string" where
  "hex_token n = replicate 23 CHR ''a'' @ [char_of (48 + n mod 10)]"

definition demo_source :: SourceRef where
  "demo_source = \<lparr>sr_source_id = ''source:demo'', sr_kind = SK_user, sr_name = ''demo'', sr_version = ''1'',
     sr_uri = None, sr_retrieved_at = 0, sr_publisher = None, sr_license = None\<rparr>"

definition demo_place :: "string \<Rightarrow> string \<Rightarrow> PlaceRef" where
  "demo_place pid name = \<lparr>pl_place_id = pid, pl_display_name = name, pl_address = None,
     pl_country_code = ''JP'', pl_timezone = ''Asia/Tokyo'',
     pl_location = \<lparr>gp_latitude = 35, gp_longitude = 135, gp_coordinate_system = WGS84,
                    gp_accuracy_meters = None\<rparr>, pl_provider_ids = [], pl_source = demo_source\<rparr>"

definition demo_actor :: ActorRef where
  "demo_actor = \<lparr>ac_actor_type = Ac_user, ac_actor_id = ''user:demo''\<rparr>"

definition demo_constraint :: "string \<Rightarrow> ConstraintType \<Rightarrow> string \<Rightarrow> ConstraintSpec" where
  "demo_constraint cid ty text1 = \<lparr>cs_constraint_id = cid, cs_constraint_type = ty, cs_hard = True,
     cs_priority = 5, cs_description = text1, cs_source = demo_source\<rparr>"

definition demo_brief_with :: "int \<Rightarrow> ConstraintSpec list \<Rightarrow> TripBrief" where
  "demo_brief_with days cs = \<lparr>ab_artifact_id = ''artifact_brief'', ab_schema_version = 1, ab_version = 1,
     ab_created_at = 0, ab_created_by = demo_actor, ab_reason = ''demo'',
     tb_destination = demo_place ''place_kyoto'' ''Kyoto'',
     tb_date_window = \<lparr>td_start_date = 739000, td_end_date = 739000 + (days - 1), td_timezone = ''Asia/Tokyo'',
                       td_flexibility_days = 0\<rparr>,
     tb_travelers = \<lparr>tv_adults = 2, tv_children_ages = [], tv_seniors = 0, tv_rooms = 1,
                     tv_accessibility_needs = []\<rparr>,
     tb_budget = \<lparr>mr_min_amount = ''0'', mr_max_amount = ''500'', mr_currency = ''EUR'', mr_basis = Total,
                  mr_observed_at = 0, mr_source = demo_source\<rparr>,
     tb_preferences = [], tb_constraints = cs, tb_clarification_items = [], tb_source = demo_source\<rparr>"

definition demo_brief :: TripBrief where
  "demo_brief = demo_brief_with 2 [demo_constraint ''constraint_v'' Ct_visit ''temple'',
     demo_constraint ''constraint_a'' Ct_avoid ''casino'']"

definition demo_evidence :: EvidenceBundle where
  "demo_evidence = \<lparr>ab_artifact_id = ''artifact_evidence'', ab_schema_version = 1, ab_version = 1,
     ab_created_at = 0, ab_created_by = demo_actor, ab_reason = ''demo'',
     eb_trip_brief_ref = artifact_ref demo_brief AT_TripBrief, eb_timezone = ''Asia/Tokyo'',
     eb_evidence = map (\<lambda>i. \<lparr>ei_evidence_id = i, ei_kind = Ek_poi, ei_title = ''guide'', ei_summary = ''text'',
        ei_place_ref = None, ei_claims = [\<lparr>ec_claim_id = ''claim_1'', ec_statement = ''open'', ec_confidence = 1\<rparr>],
        ei_source = demo_source, ei_freshness = \<lparr>fr_observed_at = 0, fr_valid_until = None, fr_status = FRESH,
          fr_source = demo_source\<rparr>, ei_retrieved_at = 0\<rparr>) [''evidence_1'', ''evidence_2''],
     eb_citations = [], eb_conflicts = []\<rparr>"

definition demo_candidate :: "string \<Rightarrow> string \<Rightarrow> int \<Rightarrow> Candidate" where
  "demo_candidate cid name minutes = \<lparr>cd_candidate_id = cid, cd_category = Ca_poi,
     cd_place_ref = demo_place (''place_'' @ cid) name, cd_rationale = ''known'', cd_evidence_refs = [''evidence_1''],
     cd_score = 1, cd_estimated_cost = Some \<lparr>mr_min_amount = ''5'', mr_max_amount = ''12.5'',
        mr_currency = ''EUR'', mr_basis = Per_person, mr_observed_at = 0, mr_source = demo_source\<rparr>,
     cd_recommended_duration_minutes = Some minutes, cd_tags = []\<rparr>"

definition demo_candidates_with :: "Candidate list \<Rightarrow> CandidateSet" where
  "demo_candidates_with cs = \<lparr>ab_artifact_id = ''artifact_candidates'', ab_schema_version = 1, ab_version = 1,
     ab_created_at = 0, ab_created_by = demo_actor, ab_reason = ''demo'',
     ct_trip_brief_ref = artifact_ref demo_brief AT_TripBrief,
     ct_evidence_bundle_ref = artifact_ref demo_evidence AT_EvidenceBundle, ct_timezone = ''Asia/Tokyo'',
     ct_candidates = cs, ct_selection_notes = []\<rparr>"

definition demo_candidates :: CandidateSet where
  "demo_candidates = demo_candidates_with [demo_candidate ''park'' ''old park'' 60,
     demo_candidate ''temple'' ''golden temple'' 120, demo_candidate ''casino'' ''casino royal'' 90]"

definition demo_leg :: "int \<Rightarrow> TransitLeg" where
  "demo_leg minutes = \<lparr>tg_mode = Transit, tg_duration_min_minutes = minutes, tg_duration_max_minutes = minutes,
     tg_distance_meters = 300 * minutes, tg_provider_snapshot_ref = demo_source\<rparr>"

definition demo_planner_with :: "int \<Rightarrow> planner_env" where
  "demo_planner_with minutes = \<lparr>pe_policy = default_policy, pe_route = (\<lambda>_ _ _. Inr (demo_leg minutes)),
     pe_token = hex_token, pe_now = 0, pe_casefold = id, pe_isoformat = show_int, pe_tz_known = (\<lambda>_. True)\<rparr>"

definition demo_planner :: planner_env where
  "demo_planner = demo_planner_with 30"

definition demo_checker :: check_env where
  "demo_checker = \<lparr>ve_token = hex_token, ve_now = 0, ve_casefold = id, ve_tz_known = (\<lambda>_. True)\<rparr>"

definition demo_plan :: ItineraryPlan where
  "demo_plan = projr (build_candidate demo_planner demo_brief demo_candidates demo_evidence)"

definition demo_constraint_report :: ConstraintReport where
  "demo_constraint_report = constraint_report demo_checker demo_plan
     (numbered_checks demo_checker (raw_checks demo_checker demo_brief demo_plan demo_evidence))"

definition demo_semantic_report :: SemanticRiskReport where
  "demo_semantic_report = projr (verify demo_checker demo_plan demo_evidence)"

definition demo_validation_report :: ValidationReport where
  "demo_validation_report =
     projr (combine_reports demo_checker demo_plan demo_constraint_report demo_semantic_report)"

lemma projr_not_isl: "\<not> isl x \<Longrightarrow> x = Inr (projr x)"
  by simp

lemma hex_tokens_demo: "hex_tokens hex_token"
proof -
  have "is_digit (char_of (48 + n mod 10))" for n :: nat
    using mod_less_divisor [of 10 n] by (simp add: is_digit_def of_char_of)
  then show ?thesis by (auto simp: hex_tokens_def hex_token_def)
qed

lemma demo_plan_built: "build_candidate demo_planner demo_brief demo_candidates demo_evidence = Inr demo_plan"
proof -
  have "\<not> isl (build_candidate demo_planner demo_brief demo_candidates demo_evidence)" by code_simp
  then show ?thesis unfolding demo_plan_def by (rule projr_not_isl)
qed

lemma demo_valid: "plan_valid (\<lambda>_. True) demo_plan" "brief_valid demo_brief"
  "length (plan_blocks demo_plan) \<le> 100"
  by code_simp+

lemma demo_validated: "validate demo_checker demo_brief demo_plan demo_evidence = Inr demo_constraint_report"
  unfolding demo_constraint_report_def
  by (rule validate_returns) (simp_all add: demo_checker_def hex_tokens_demo demo_valid)

lemma demo_verified: "verify demo_checker demo_plan demo_evidence = Inr demo_semantic_report"
proof -
  have "\<not> isl (verify demo_checker demo_plan demo_evidence)" by code_simp
  then show ?thesis unfolding demo_semantic_report_def by (rule projr_not_isl)
qed

lemma demo_gate:
  "case combine_reports demo_checker demo_plan demo_constraint_report demo_semantic_report of
     Inl _ \<Rightarrow> False | Inr r \<Rightarrow> va_publishable r"
  by code_simp

lemma demo_combined:
  "combine_reports demo_checker demo_plan demo_constraint_report demo_semantic_report = Inr demo_validation_report"
  using demo_gate unfolding demo_validation_report_def by (auto split: sum.splits)

lemma demo_publishable: "va_publishable demo_validation_report"
  using demo_gate demo_combined by simp

end
