(* ===== verification/Validation_Properties.thy ===== *)
theory Validation_Properties
  imports Demo_Trip
begin

text \<open>
  The properties of validation: the constraint validator decides feasibility, the publication gate opens
  exactly for feasible plans without unresolved conflicts and with 90% evidence coverage, the
  report is produced for every contract-valid plan of at most 100 blocks and for none of more.
\<close>

text \<open>
  C20. The constraint validator decides feasibility: whenever it returns a report, the report's
  outcome is Fail exactly if the plan is not feasible, where feasible means: days inside the date window,
  some place other than the destination itself, no place twice in a day, every stay as long as its time
  range, every gap between consecutive stays at least as long as the leg between them, every evidence
  reference resolved, the total within the budget in its currency, and every hard visit or avoid
  constraint met.
\<close>

theorem constraint_report_decides_feasibility:
  "validate env brief plan ev = Inr r \<Longrightarrow> cr_outcome r = Fail \<longleftrightarrow> \<not> feasible env brief plan ev"
  by (simp add: validate_Inr(3) raw_checks_feasible)

theorem constraint_report_decides_feasibility_witness: "feasible demo_checker demo_brief demo_plan demo_evidence"
proof -
  have "no_fail (cr_checks demo_constraint_report)"
    using combine_reports_Inr(1) [OF demo_combined] demo_publishable by (force simp: raw_blockers_def filter_empty_conv no_fail_def)
  then have "cr_outcome demo_constraint_report \<noteq> Fail"
    by (simp add: validate_Inr(1) [OF demo_validated] validate_Inr(3) [OF demo_validated] raw_checks_feasible)
  with constraint_report_decides_feasibility [OF demo_validated] show ?thesis by blast
qed

text \<open>The gate, each report with the draws and readings of its own.\<close>

lemma gate_decides:
  assumes "validate env brief plan ev = Inr c" and "verify env' plan ev = Inr s" and "combine_reports env'' plan c s = Inr v"
  shows "va_publishable v \<longleftrightarrow>
    feasible env brief plan ev \<and> unresolved_conflicts ev = [] \<and> 9 / 10 \<le> coverage_ratio plan ev"
proof -
  have "(\<exists>x \<in> set (cr_checks c). cc_outcome x = Fail) \<longleftrightarrow> \<not> feasible env brief plan ev"
  proof -
    have "(\<exists>x \<in> set (cr_checks c). cc_outcome x = Fail) \<longleftrightarrow> \<not> no_fail (cr_checks c)" by (force simp: no_fail_def)
    then show ?thesis by (simp add: validate_Inr(1) [OF assms(1)] raw_checks_feasible)
  qed
  moreover have "(\<exists>x \<in> set (se_risks s). sk_severity x \<in> {Sev_high, Sev_critical}) \<longleftrightarrow>
      (\<exists>x \<in> set (map sk_severity (numbered_risks env' (raw_risks plan ev))). x \<in> {Sev_high, Sev_critical})"
    unfolding verify_Inr(1) [OF assms(2)] set_map by blast
  ultimately have "raw_blockers c s = [] \<longleftrightarrow> feasible env brief plan ev \<and>
      \<not> ((\<exists>b \<in> set (plan_blocks plan). \<not> set (bk_evidence_refs b) \<subseteq> known_evidence ev) \<or>
         unresolved_conflicts ev \<noteq> []) \<and> \<not> coverage_ratio plan ev < 9 / 10"
    unfolding numbered_fields raw_risks_severe
    by (auto simp: raw_blockers_def filter_empty_conv verify_Inr(3) [OF assms(2)])
  moreover have "feasible env brief plan ev \<Longrightarrow>
      \<not> (\<exists>b \<in> set (plan_blocks plan). \<not> set (bk_evidence_refs b) \<subseteq> known_evidence ev)"
    using feasible_refs by blast
  ultimately show ?thesis unfolding combine_reports_Inr(1) [OF assms(3)] by (metis not_le)
qed

text \<open>
  C3. The publication gate: when validator, verifier and policy produce their reports for a plan, the
  plan is publishable exactly if it is feasible, its evidence has no unresolved conflict and at least 90%
  of its blocks and assumptions are fully backed by evidence.
\<close>

theorem publication_gate_exact:
  assumes "validate env brief plan ev = Inr c" and "verify env plan ev = Inr s"
    and "combine_reports env plan c s = Inr v"
  shows "va_publishable v \<longleftrightarrow>
    feasible env brief plan ev \<and> unresolved_conflicts ev = [] \<and> 9 / 10 \<le> coverage_ratio plan ev"
  by (rule gate_decides [OF assms])

theorem publication_gate_exact_witness:
  "feasible demo_checker demo_brief demo_plan demo_evidence \<and> unresolved_conflicts demo_evidence = [] \<and>
   9 / 10 \<le> coverage_ratio demo_plan demo_evidence"
  using publication_gate_exact [OF demo_validated demo_verified demo_combined] demo_publishable by blast

text \<open>
  The constraint validator is total on contract-valid input of at most 100 blocks: it returns a
  report, whatever the plan contains.
\<close>

theorem constraint_validator_total:
  assumes "hex_tokens (ve_token env)" and "plan_valid (ve_tz_known env) plan" and "brief_valid brief"
    and "length (plan_blocks plan) \<le> 100"
  shows "\<exists>r. validate env brief plan ev = Inr r \<and> cr_plan_ref r = artifact_ref plan AT_ItineraryPlan"
  using validate_returns [OF assms] validate_Inr(2) by blast

theorem constraint_validator_total_witness:
  "\<exists>r. validate demo_checker demo_brief demo_plan demo_evidence = Inr r"
proof -
  have "hex_tokens (ve_token demo_checker)" "plan_valid (ve_tz_known demo_checker) demo_plan"
    by (simp_all add: demo_checker_def hex_tokens_demo demo_valid)
  from constraint_validator_total [OF this demo_valid(2,3)] show ?thesis by blast
qed

text \<open>
  A plan of more than 100 blocks, which the contract of plans allows (60 days of 50 blocks) and
  the planner makes from 26 days of four blocks on, cannot be validated at all: the
  check for concrete places lists every block and exceeds the limit of its own contract, and the
  validator raises.
\<close>

theorem long_plans_cannot_be_validated:
  "100 < length (plan_blocks plan) \<Longrightarrow> validate env brief plan ev = Inl ValidationError"
  by (rule validate_too_many_blocks)

definition long_plan :: ItineraryPlan where
  "long_plan = demo_plan\<lparr>ip_days := replicate 26 (hd (ip_days demo_plan)
     \<lparr>pd_time_blocks := replicate 4 (hd (plan_blocks demo_plan))\<rparr>)\<rparr>"

theorem long_plans_cannot_be_validated_witness:
  "validate demo_checker demo_brief long_plan demo_evidence = Inl ValidationError"
proof -
  have "length (plan_blocks long_plan) = 104"
    by (simp add: long_plan_def plan_blocks_def length_concat sum_list_replicate)
  then have "100 < length (plan_blocks long_plan)" by simp
  then show ?thesis by (rule long_plans_cannot_be_validated)
qed

end
