(* ===== verification/Planner_Facts.thy ===== *)
theory Planner_Facts
  imports Validation_Meaning
begin

text \<open>
  What \<open>build_candidate\<close> does to the days and blocks it places: loop invariants of the planner, where
  blocks come from, the clock of a day and the sums of money. The timing argument relates absolute
  times, which may run past midnight, to the wall-clock times the contract keeps.
\<close>

section \<open>Loops\<close>

lemma sloop_rule:
  assumes "sloop f xs s = Inr s'" and "I [] s"
    and "\<And>ds x rest t t'. xs = ds @ x # rest \<Longrightarrow> I ds t \<Longrightarrow> f x t = Inr (False, t') \<Longrightarrow> I (ds @ [x]) t'"
    and "\<And>ds x rest t t'. xs = ds @ x # rest \<Longrightarrow> I ds t \<Longrightarrow> f x t = Inr (True, t') \<Longrightarrow> Q t'"
    and "\<And>t. I xs t \<Longrightarrow> Q t"
  shows "Q s'"
proof -
  have "sloop f rest s = Inr s' \<Longrightarrow> I ds s \<Longrightarrow> xs = ds @ rest \<Longrightarrow> Q s'" for rest ds s
  proof (induction rest arbitrary: ds s)
    case (Cons x rest)
    from Cons.prems(1) obtain stop t
      where t: "f x s = Inr (stop, t)" "(if stop then Inr t else sloop f rest t) = Inr s'"
      by (auto simp: sbind_Inr)
    show ?case
    proof (cases stop)
      case True
      with t have "f x s = Inr (True, s')" by simp
      then show ?thesis by (rule assms(4) [OF Cons.prems(3,2)])
    next
      case False
      with t have "I (ds @ [x]) t" by (intro assms(3) [OF Cons.prems(3,2)]) simp
      moreover have "sloop f rest t = Inr s'" using False t by simp
      ultimately show ?thesis using Cons.IH [of t "ds @ [x]"] Cons.prems(3) by simp
    qed
  next
    case Nil
    then have "s = s'" "I xs s" by auto
    then show ?case using assms(5) by blast
  qed
  from this [of xs s "[]"] assms(1,2) show ?thesis by simp
qed

lemma sfold_invariant:
  assumes "sfold f xs s = Inr s'" and "I [] s"
    and "\<And>ds x rest t t'. xs = ds @ x # rest \<Longrightarrow> I ds t \<Longrightarrow> f x t = Inr t' \<Longrightarrow> I (ds @ [x]) t'"
  shows "I xs s'"
proof -
  have "sfold f rest s = Inr s' \<Longrightarrow> I ds s \<Longrightarrow> xs = ds @ rest \<Longrightarrow> I xs s'" for rest ds s
  proof (induction rest arbitrary: ds s)
    case (Cons x rest)
    from Cons.prems(1) obtain t where t: "f x s = Inr t" "sfold f rest t = Inr s'" by (auto simp: sbind_Inr)
    then have "I (ds @ [x]) t" using assms(3) Cons.prems(2,3) by blast
    then show ?case using Cons.IH [OF t(2)] Cons.prems(3) by simp
  qed simp
  from this [of xs s "[]"] assms(1,2) show ?thesis by simp
qed

section \<open>One block\<close>

definition block_of :: "planner_env \<Rightarrow> Candidate \<Rightarrow> PlanTimeBlock \<Rightarrow> bool" where
  "block_of env c b \<longleftrightarrow> bk_place_ref b = cd_place_ref c \<and> bk_title b = pl_display_name (cd_place_ref c) \<and>
     bk_evidence_refs b = cd_evidence_refs c \<and> bk_duration_minutes b = block_duration env c"

text \<open>The block occupies the wall-clock times of its absolute start and of its end.\<close>

definition occupies :: "PlanTimeBlock \<Rightarrow> int \<Rightarrow> bool" where
  "occupies b start \<longleftrightarrow>
     zt_start_local_time (bk_time_range b) = time_of_day start \<and>
     zt_end_local_time (bk_time_range b) = time_of_day (start + bk_duration_minutes b * MINUTE) \<and>
     zt_end_day_offset (bk_time_range b) = 0 \<and>
     zt_start_local_time (bk_time_range b) < zt_end_local_time (bk_time_range b) \<and>
     0 < bk_duration_minutes b \<and> bk_duration_minutes b \<le> 240"

lemma take_leg_cases:
  assumes "take_leg env c acc day = Inr (transit, acc', start)"
  obtains (first) "da_previous day = None" "transit = None" "acc' = acc" "start = da_time day"
  | (leg) prev leg where "da_previous day = Some prev" "pe_route env (pc_cursor acc) prev c = Inr leg"
      "transit = Some leg"
      "acc' = acc\<lparr>pc_route_distance := pc_route_distance acc + tg_distance_meters leg,
                  pc_route_duration := pc_route_duration acc + tg_duration_max_minutes leg,
                  pc_route_legs := pc_route_legs acc + 1\<rparr>"
      "start = da_time day + (tg_duration_max_minutes leg + po_minimum_buffer_minutes (pe_policy env)) * MINUTE"
  using assms by (cases "da_previous day") (auto simp: take_leg_def sbind_Inr)

lemma place_block_cases:
  assumes "place_block env cands tz cur src di ld bi (acc, day) = Inr (stop, acc', day')"
  obtains (stopped) transit start where "stop" "da_blocks day \<noteq> []"
      "take_leg env (cands ! (pc_cursor acc mod length cands)) (acc\<lparr>pc_cursor := pc_cursor acc + 1\<rparr>) day
         = Inr (transit, acc', start)"
      "day' = day\<lparr>da_time := start\<rparr>"
  | (placed) transit start cost b where "\<not> stop"
      "take_leg env (cands ! (pc_cursor acc mod length cands)) (acc\<lparr>pc_cursor := pc_cursor acc + 1\<rparr>) day
         = Inr (transit, acc', start)"
      "(case cd_estimated_cost (cands ! (pc_cursor acc mod length cands)) of Some c \<Rightarrow> Inr c
        | None \<Rightarrow> money env 0 0 cur src) = Inr cost" "mr_currency cost = cur"
      "block_of env (cands ! (pc_cursor acc mod length cands)) b" "occupies b start"
      "bk_transit_from_previous b = transit" "bk_cost_range b = Some cost" "PlanTimeBlock_ok b"
      "ZonedTimeRange_ok (pe_tz_known env) (bk_time_range b)"
      "day' = \<lparr>da_blocks = da_blocks day @ [b],
              da_min = dec_add (da_min day) (decimal_units (mr_min_amount cost)),
              da_max = dec_add (da_max day) (decimal_units (mr_max_amount cost)),
              da_time = start + bk_duration_minutes b * MINUTE,
              da_previous = Some (cands ! (pc_cursor acc mod length cands))\<rparr>"
proof -
  let ?c = "cands ! (pc_cursor acc mod length cands)"
  let ?acc = "acc\<lparr>pc_cursor := pc_cursor acc + 1\<rparr>"
  from assms obtain transit acc2 start where leg: "take_leg env ?c ?acc day = Inr (transit, acc2, start)"
    by (cases "take_leg env ?c ?acc day") (auto simp: place_block_def Let_def)
  show ?thesis
  proof (cases "da_blocks day \<noteq> [] \<and>
      hour_of (start + block_duration env ?c * MINUTE) \<ge> po_day_end_hour (pe_policy env)")
    case True
    with assms leg show ?thesis by (intro stopped) (auto simp: place_block_def Let_def)
  next
    case False
    from assms leg False obtain cost where cost: "(case cd_estimated_cost ?c of Some c \<Rightarrow> Inr c
        | None \<Rightarrow> money env 0 0 cur src) = Inr cost" "mr_currency cost = cur"
      by (auto simp: place_block_def Let_def sbind_Inr simp del: construct_Inr split: if_splits)
    let ?r = "\<lparr>zt_local_date = ld, zt_start_local_time = time_of_day start,
        zt_end_local_time = time_of_day (start + block_duration env ?c * MINUTE), zt_end_day_offset = 0,
        zt_timezone = tz\<rparr>"
    let ?b = "\<lparr>bk_block_id = ''block_'' @ show_nat di @ ''_'' @ show_nat bi @ ''_'' @
          new_id (pe_token env (pc_cursor ?acc + 2)) ''item'',
        bk_title = pl_display_name (cd_place_ref ?c), bk_category = Bl_visit,
        bk_place_ref = cd_place_ref ?c, bk_time_range = ?r, bk_duration_minutes = block_duration env ?c,
        bk_transit_from_previous = transit, bk_cost_range = Some cost,
        bk_evidence_refs = cd_evidence_refs ?c, bk_alternatives = []\<rparr>"
    from assms leg False cost have res: "ZonedTimeRange_ok (pe_tz_known env) ?r" "PlanTimeBlock_ok ?b"
      "\<not> stop" "acc' = acc2"
      "day' = \<lparr>da_blocks = da_blocks day @ [?b],
              da_min = dec_add (da_min day) (decimal_units (mr_min_amount cost)),
              da_max = dec_add (da_max day) (decimal_units (mr_max_amount cost)),
              da_time = start + block_duration env ?c * MINUTE, da_previous = Some ?c\<rparr>"
      by (auto simp: place_block_def Let_def sbind_Inr)
    have "block_duration env ?c \<le> 240" by (simp add: block_duration_def)
    moreover from res(1) have "time_of_day start < time_of_day (start + block_duration env ?c * MINUTE)"
      by (simp add: ZonedTimeRange_ok_def)
    moreover from res(2) have "0 < block_duration env ?c" by (simp add: PlanTimeBlock_ok_def)
    ultimately have "occupies ?b start" by (simp add: occupies_def)
    with res leg cost show ?thesis
      by (intro placed [of transit start cost ?b]) (simp_all add: block_of_def)
  qed
qed

section \<open>The clock of a day\<close>

inductive chain :: "int \<Rightarrow> PlanTimeBlock list \<Rightarrow> int \<Rightarrow> bool" for buf where
  first: "occupies b s \<Longrightarrow> bk_transit_from_previous b = None \<Longrightarrow>
    chain buf [b] (s + bk_duration_minutes b * MINUTE)"
| snoc: "chain buf bs e \<Longrightarrow> occupies b s \<Longrightarrow> bk_transit_from_previous b = Some leg \<Longrightarrow>
    s = e + (tg_duration_max_minutes leg + buf) * MINUTE \<Longrightarrow> chain buf (bs @ [b]) (s + bk_duration_minutes b * MINUTE)"

definition wall_reaches :: "PlanTimeBlock \<Rightarrow> PlanTimeBlock \<Rightarrow> bool" where
  "wall_reaches b b' \<longleftrightarrow>
     (case bk_transit_from_previous b' of None \<Rightarrow> 0 | Some leg \<Rightarrow> tg_duration_max_minutes leg) * MINUTE
       \<le> zt_start_local_time (bk_time_range b') - zt_end_local_time (bk_time_range b)"

lemma time_of_day_bounds: "0 \<le> time_of_day t" "time_of_day t < DAY"
  by (simp_all add: time_of_day_def DAY_def)

lemma time_of_day_plus:
  assumes "0 \<le> d" "d < DAY"
  shows "time_of_day (t + d) = (if time_of_day t + d < DAY then time_of_day t + d else time_of_day t + d - DAY)"
proof -
  have "time_of_day (t + d) = (time_of_day t + d) mod DAY" by (simp add: time_of_day_def mod_simps)
  moreover have "0 \<le> time_of_day t + d" "time_of_day t + d < 2 * DAY"
    using time_of_day_bounds [of t] assms by linarith+
  ultimately show ?thesis
  proof (cases "time_of_day t + d < DAY")
    case False
    then have "(time_of_day t + d) mod DAY = (time_of_day t + d - DAY) mod DAY" by (simp only: minus_mod_self2)
    also have "\<dots> = time_of_day t + d - DAY"
      using False \<open>time_of_day t + d < 2 * DAY\<close> by (intro mod_pos_pos_trivial) linarith+
    finally show ?thesis using False \<open>time_of_day (t + d) = _\<close> by simp
  qed (simp add: mod_pos_pos_trivial)
qed

lemma occupies_length:
  assumes "occupies b s"
  shows "zt_end_local_time (bk_time_range b) = zt_start_local_time (bk_time_range b) + bk_duration_minutes b * MINUTE"
proof -
  have "0 \<le> bk_duration_minutes b * MINUTE" "bk_duration_minutes b * MINUTE < DAY"
    using assms by (simp_all add: occupies_def MINUTE_def DAY_def)
  from time_of_day_plus [OF this, of s] this(2) assms show ?thesis
    by (auto simp: occupies_def split: if_splits)
qed

definition short_legs :: "int \<Rightarrow> PlanTimeBlock \<Rightarrow> bool" where
  "short_legs buf b \<longleftrightarrow> (case bk_transit_from_previous b of None \<Rightarrow> True
     | Some leg \<Rightarrow> 0 \<le> tg_duration_max_minutes leg \<and> tg_duration_max_minutes leg + buf < 1200)"

text \<open>
  A wait of less than 20 hours cannot run past midnight unnoticed: the next block would start earlier
  in the day than its predecessor, and the contract of a day refuses that.
\<close>

lemma chain_step:
  assumes prev: "occupies p s" and this1: "occupies b (s + bk_duration_minutes p * MINUTE + w * MINUTE)"
    and w: "0 \<le> w" "w < 1200"
    and ord: "zt_start_local_time (bk_time_range p) \<le> zt_start_local_time (bk_time_range b)"
  shows "zt_start_local_time (bk_time_range b) = zt_end_local_time (bk_time_range p) + w * MINUTE"
proof -
  let ?d = "bk_duration_minutes p * MINUTE + w * MINUTE"
  have d: "0 \<le> ?d" "?d < DAY" "0 < bk_duration_minutes p * MINUTE"
    using prev w by (simp_all add: occupies_def MINUTE_def DAY_def)
  have "zt_start_local_time (bk_time_range b) = time_of_day (s + ?d)"
    using this1 by (simp add: occupies_def add.assoc)
  with time_of_day_plus [OF d(1,2), of s] have "zt_start_local_time (bk_time_range b) =
      (if zt_start_local_time (bk_time_range p) + ?d < DAY then zt_start_local_time (bk_time_range p) + ?d
       else zt_start_local_time (bk_time_range p) + ?d - DAY)"
    using prev by (simp add: occupies_def)
  with ord d(2) occupies_length [OF prev] show ?thesis by (auto split: if_splits)
qed

lemma chain_wall:
  assumes "chain buf bs e" and "0 \<le> buf" and "\<forall>b \<in> set bs. short_legs buf b"
    and "sorted (map (zt_start_local_time \<circ> bk_time_range) bs)"
  shows "successively wall_reaches bs \<and> bs \<noteq> [] \<and>
    (\<exists>s. occupies (last bs) s \<and> e = s + bk_duration_minutes (last bs) * MINUTE)"
  using assms(1,3,4)
proof (induction rule: chain.induct)
  case (first b s)
  then show ?case by auto
next
  case (snoc bs e b s leg)
  then obtain t where IH: "successively wall_reaches bs" "bs \<noteq> []" "occupies (last bs) t"
      "e = t + bk_duration_minutes (last bs) * MINUTE" by (auto simp: sorted_append)
  have w: "0 \<le> tg_duration_max_minutes leg + buf" "tg_duration_max_minutes leg + buf < 1200"
      "0 \<le> tg_duration_max_minutes leg"
    using snoc.prems(1) snoc.hyps(3) assms(2) by (auto simp: short_legs_def)
  have "zt_start_local_time (bk_time_range (last bs)) \<le> zt_start_local_time (bk_time_range b)"
    using snoc.prems(2) IH(2) by (auto simp: sorted_append)
  from chain_step [OF IH(3) _ w(1,2) this] snoc.hyps(2,4) IH(4)
  have "zt_start_local_time (bk_time_range b) =
      zt_end_local_time (bk_time_range (last bs)) + (tg_duration_max_minutes leg + buf) * MINUTE" by simp
  then have "wall_reaches (last bs) b"
    using snoc.hyps(3) assms(2) by (simp add: wall_reaches_def MINUTE_def)
  with IH(1,2) snoc.hyps(2) show ?case by (auto simp: successively_append_iff)
qed

lemma chain_occupies: "chain buf bs e \<Longrightarrow> b \<in> set bs \<Longrightarrow> \<exists>s. occupies b s"
  by (induction rule: chain.induct) auto

end
