(* ===== verification/Planner_Days.thy ===== *)
theory Planner_Days
  imports Planner_Facts
begin

text \<open>
  The days of a plan: which candidates a day takes, its clock, its costs, and what follows for the
  whole plan when \<open>build_candidate\<close> returns.
\<close>

section \<open>Sums of money\<close>

definition cost_units :: "(MoneyRange \<Rightarrow> string) \<Rightarrow> PlanTimeBlock \<Rightarrow> int" where
  "cost_units f b = (case bk_cost_range b of None \<Rightarrow> 0 | Some c \<Rightarrow> decimal_units (f c))"

definition dec_sum :: "int list \<Rightarrow> int" where
  "dec_sum us = fold (\<lambda>u t. dec_add t u) us 0"

lemma dec_sum_snoc [simp]: "dec_sum (us @ [u]) = dec_add (dec_sum us) u" "dec_sum [] = 0"
  by (simp_all add: dec_sum_def)

lemma decimal_digits_le: "n < 10 ^ k \<Longrightarrow> 0 < k \<Longrightarrow> decimal_digits n \<le> k"
proof (induction k arbitrary: n)
  case (Suc k)
  show ?case
  proof (cases "n < 10")
    case False
    then have k: "k \<noteq> 0" using Suc.prems by (cases k) auto
    have "n div 10 < 10 ^ k" using Suc.prems by (simp add: div_less_iff_less_mult mult.commute)
    then have "decimal_digits (n div 10) \<le> k" using Suc.IH k by blast
    then show ?thesis using False by (subst decimal_digits.simps) simp
  qed simp
qed simp

lemma dec_add_exact: "0 \<le> a + b \<Longrightarrow> a + b < 10 ^ 28 \<Longrightarrow> dec_add a b = a + b"
proof -
  assume "0 \<le> a + b" "a + b < 10 ^ 28"
  then have "nat (a + b) < 10 ^ 28" by (simp add: nat_less_iff)
  then have "decimal_digits (nat (a + b)) \<le> 28" by (intro decimal_digits_le) simp_all
  then show ?thesis by (simp add: dec_add_def dec_round_def)
qed

lemma dec_sum_exact:
  "\<forall>u \<in> set us. 0 \<le> u \<Longrightarrow> sum_list us < 10 ^ 28 \<Longrightarrow> dec_sum us = sum_list us"
proof (induction us rule: rev_induct)
  case (snoc u us)
  have nn: "0 \<le> sum_list us" using snoc.prems by (intro sum_list_nonneg) auto
  with snoc have "dec_sum us = sum_list us" by simp
  with nn snoc.prems show ?case by (simp add: dec_add_exact)
qed simp

lemma cost_units_nonneg: "0 \<le> cost_units f b"
  by (auto simp: cost_units_def decimal_units_def Let_def split: option.split)

section \<open>A day\<close>

definition taken :: "Candidate list \<Rightarrow> nat \<Rightarrow> nat \<Rightarrow> Candidate list" where
  "taken cands k n = map (\<lambda>i. cands ! ((k + i) mod length cands)) [0..<n]"

lemma taken_Suc: "taken cands k (Suc n) = taken cands k n @ [cands ! ((k + n) mod length cands)]"
  by (simp add: taken_def)

lemma taken_0 [simp]: "taken cands k 0 = []"
  by (simp add: taken_def)

lemma taken_subset: "cands \<noteq> [] \<Longrightarrow> set (taken cands k n) \<subseteq> set cands"
  by (auto simp: taken_def)

lemma add_mod_inj:
  fixes i j k l :: nat
  assumes "(k + i) mod l = (k + j) mod l" and "i < l" and "j < l"
  shows "i = j"
proof -
  have "a = b" if "a \<le> b" "b < l" "(k + b) mod l = (k + a) mod l" for a b
  proof -
    have "l dvd b - a" using that mod_eq_dvd_iff_nat [of "k + a" "k + b" l] by simp
    moreover have "b - a < l" using that by linarith
    ultimately have "b - a = 0" using nat_dvd_not_less by blast
    with that(1) show ?thesis by simp
  qed
  from this [of i j] this [of j i] assms show ?thesis by (cases "i \<le> j") simp_all
qed

lemma distinct_taken: "n \<le> length cands \<Longrightarrow> distinct cands \<Longrightarrow> distinct (taken cands k n)"
proof -
  assume n: "n \<le> length cands" and d: "distinct cands"
  have "i = j" if "i < n" "j < n" "cands ! ((k + i) mod length cands) = cands ! ((k + j) mod length cands)" for i j
  proof -
    have l: "0 < length cands" using that(1) n by linarith
    with that(3) d have "(k + i) mod length cands = (k + j) mod length cands"
      by (simp add: nth_eq_iff_index_eq)
    then show ?thesis by (rule add_mod_inj) (use that(1,2) n in linarith)+
  qed
  then show ?thesis by (auto simp: taken_def distinct_map inj_on_def)
qed

definition from_route :: "planner_env \<Rightarrow> PlanTimeBlock \<Rightarrow> bool" where
  "from_route env b \<longleftrightarrow> (case bk_transit_from_previous b of None \<Rightarrow> True
     | Some leg \<Rightarrow> \<exists>n p c. pe_route env n p c = Inr leg)"

definition block_made :: "planner_env \<Rightarrow> string \<Rightarrow> PlanTimeBlock \<Rightarrow> bool" where
  "block_made env cur b \<longleftrightarrow> PlanTimeBlock_ok b \<and> ZonedTimeRange_ok (pe_tz_known env) (bk_time_range b) \<and>
     from_route env b \<and> (\<exists>c. bk_cost_range b = Some c \<and> mr_currency c = cur)"

definition day_made :: "planner_env \<Rightarrow> Candidate list \<Rightarrow> string \<Rightarrow> nat \<Rightarrow> PlanTimeBlock list \<Rightarrow> bool" where
  "day_made env cands cur k bs \<longleftrightarrow> list_all2 (block_of env) (taken cands k (length bs)) bs \<and>
     (\<forall>b \<in> set bs. block_made env cur b) \<and>
     (bs \<noteq> [] \<longrightarrow> (\<exists>e. chain (po_minimum_buffer_minutes (pe_policy env)) bs e))"

definition day_inv :: "planner_env \<Rightarrow> Candidate list \<Rightarrow> string \<Rightarrow> nat \<Rightarrow> nat \<Rightarrow> plan_acc \<times> day_acc \<Rightarrow> bool" where
  "day_inv env cands cur k n = (\<lambda>(acc, day).
     length (da_blocks day) = n \<and> pc_cursor acc = k + n \<and> day_made env cands cur k (da_blocks day) \<and>
     da_min day = dec_sum (map (cost_units mr_min_amount) (da_blocks day)) \<and>
     da_max day = dec_sum (map (cost_units mr_max_amount) (da_blocks day)) \<and>
     (da_previous day = None \<longleftrightarrow> n = 0) \<and>
     (0 < n \<longrightarrow> chain (po_minimum_buffer_minutes (pe_policy env)) (da_blocks day) (da_time day)))"

definition acc_frame :: "plan_acc \<Rightarrow> plan_acc \<Rightarrow> bool" where
  "acc_frame acc acc' \<longleftrightarrow> pc_days acc' = pc_days acc \<and> pc_total_min acc' = pc_total_min acc \<and>
     pc_total_max acc' = pc_total_max acc"

lemma take_leg_frame:
  "take_leg env c acc day = Inr (t, acc', s) \<Longrightarrow> acc_frame acc acc' \<and> pc_cursor acc' = pc_cursor acc"
  by (erule take_leg_cases) (auto simp: acc_frame_def)

lemma place_block_step:
  assumes inv: "day_inv env cands cur k n (acc, day)"
    and step: "place_block env cands tz cur src di ld bi (acc, day) = Inr (False, acc', day')"
  shows "day_inv env cands cur k (Suc n) (acc', day') \<and> acc_frame acc acc'"
  using step
proof (cases rule: place_block_cases)
  case (placed transit start cost b)
  let ?c = "cands ! (pc_cursor acc mod length cands)"
  note fr = take_leg_frame [OF placed(2)]
  from inv have i: "length (da_blocks day) = n" "pc_cursor acc = k + n"
    "day_made env cands cur k (da_blocks day)" "da_previous day = None \<longleftrightarrow> n = 0"
    "0 < n \<Longrightarrow> chain (po_minimum_buffer_minutes (pe_policy env)) (da_blocks day) (da_time day)"
    by (auto simp: day_inv_def)
  have ch: "chain (po_minimum_buffer_minutes (pe_policy env)) (da_blocks day @ [b])
      (start + bk_duration_minutes b * MINUTE) \<and> from_route env b"
    using placed(2)
  proof (cases rule: take_leg_cases)
    case first
    with i have "da_blocks day = []" by auto
    with first placed show ?thesis by (auto intro: chain.first simp: from_route_def)
  next
    case (leg prev leg')
    with i have "0 < n" by auto
    with leg placed i(5) show ?thesis by (auto intro!: chain.snoc simp: from_route_def)
  qed
  have "block_of env ?c b" by (fact placed(5))
  then have "list_all2 (block_of env) (taken cands k (Suc n)) (da_blocks day @ [b])"
    using i(1-3) by (simp add: taken_Suc day_made_def list_all2_appendI)
  moreover have "block_made env cur b"
    using placed ch by (auto simp: block_made_def)
  ultimately have "day_made env cands cur k (da_blocks day @ [b])"
    using i(1,3) ch by (auto simp: day_made_def)
  moreover have "cost_units mr_min_amount b = decimal_units (mr_min_amount cost)"
    "cost_units mr_max_amount b = decimal_units (mr_max_amount cost)"
    using placed by (simp_all add: cost_units_def)
  ultimately show ?thesis using inv placed fr ch by (auto simp: day_inv_def acc_frame_def)
qed simp

lemma place_block_stop:
  assumes "place_block env cands tz cur src di ld bi (acc, day) = Inr (True, acc', day')"
  shows "acc_frame acc acc' \<and> da_blocks day' = da_blocks day \<and> da_min day' = da_min day \<and>
    da_max day' = da_max day \<and> da_blocks day \<noteq> []"
  using assms
proof (cases rule: place_block_cases)
  case (stopped transit start)
  with take_leg_frame [OF stopped(3)] show ?thesis by (auto simp: acc_frame_def)
qed simp

text \<open>What the block loop of a day leaves.\<close>

lemma day_loop:
  assumes "sloop (place_block env cands tz cur src di ld) [0..<m] (acc, start_day env ld) = Inr (acc', day)"
  shows "acc_frame acc acc' \<and> day_made env cands cur (pc_cursor acc) (da_blocks day) \<and>
    length (da_blocks day) \<le> m \<and>
    da_min day = dec_sum (map (cost_units mr_min_amount) (da_blocks day)) \<and>
    da_max day = dec_sum (map (cost_units mr_max_amount) (da_blocks day))"
proof -
  let ?I = "\<lambda>ds s. day_inv env cands cur (pc_cursor acc) (length ds) s \<and> acc_frame acc (fst s)"
  let ?Q = "\<lambda>(acc', day). acc_frame acc acc' \<and> day_made env cands cur (pc_cursor acc) (da_blocks day) \<and>
    length (da_blocks day) \<le> m \<and>
    da_min day = dec_sum (map (cost_units mr_min_amount) (da_blocks day)) \<and>
    da_max day = dec_sum (map (cost_units mr_max_amount) (da_blocks day))"
  have len: "length ds \<le> m" if "[0..<m] = ds @ rest" for ds rest
    using arg_cong [OF that, of length] by simp
  have "?Q (acc', day)"
    using assms
  proof (rule sloop_rule [where I = ?I and Q = ?Q])
    show "?I [] (acc, start_day env ld)"
      by (simp add: day_inv_def start_day_def day_made_def acc_frame_def)
  next
    fix ds x rest t t'
    assume s: "[0..<m] = ds @ x # rest" "?I ds t" "place_block env cands tz cur src di ld x t = Inr (False, t')"
    obtain a d a' d' where t: "t = (a, d)" "t' = (a', d')" by (cases t; cases t')
    from place_block_step [of env cands cur "pc_cursor acc" "length ds" a d tz src di ld x a' d'] s t
    show "?I (ds @ [x]) t'" by (auto simp: acc_frame_def)
  next
    fix ds x rest t t'
    assume s: "[0..<m] = ds @ x # rest" "?I ds t" "place_block env cands tz cur src di ld x t = Inr (True, t')"
    obtain a d a' d' where t: "t = (a, d)" "t' = (a', d')" by (cases t; cases t')
    from place_block_stop [of env cands tz cur src di ld x a d a' d'] s t len [OF s(1)]
    show "?Q t'" by (auto simp: day_inv_def acc_frame_def)
  next
    fix t
    assume "?I [0..<m] t"
    then show "?Q t" by (auto simp: day_inv_def split: prod.splits)
  qed
  then show ?thesis by simp
qed

section \<open>The plan\<close>

definition day_units :: "(MoneyRange \<Rightarrow> string) \<Rightarrow> PlanDay \<Rightarrow> int" where
  "day_units f d = dec_sum (map (cost_units f) (pd_time_blocks d))"

definition planned_day :: "planner_env \<Rightarrow> Candidate list \<Rightarrow> string \<Rightarrow> PlanDay \<Rightarrow> bool" where
  "planned_day env cands cur d \<longleftrightarrow> PlanDay_ok (pe_tz_known env) d \<and> pd_time_blocks d \<noteq> [] \<and>
     length (pd_time_blocks d) \<le> min (po_max_blocks_per_day (pe_policy env)) (length cands) \<and>
     (\<exists>k. day_made env cands cur k (pd_time_blocks d)) \<and>
     mr_min_amount (pd_daily_cost d) = decimal_text (day_units mr_min_amount d) \<and>
     mr_max_amount (pd_daily_cost d) = decimal_text (day_units mr_max_amount d) \<and>
     MoneyRange_ok (pd_daily_cost d) \<and> mr_currency (pd_daily_cost d) = cur"

lemma plan_day_Inr:
  assumes "plan_day env cands tz cur src (di, ld) acc = Inr acc'"
  obtains d where "pc_days acc' = pc_days acc @ [d]" "pd_date d = ld" "planned_day env cands cur d"
    "pc_total_min acc' = dec_add (pc_total_min acc) (day_units mr_min_amount d)"
    "pc_total_max acc' = dec_add (pc_total_max acc) (day_units mr_max_amount d)"
proof -
  let ?m = "min (po_max_blocks_per_day (pe_policy env)) (length cands)"
  from assms obtain acc1 day where loop: "sloop (place_block env cands tz cur src di ld) [0..<?m]
      (acc, start_day env ld) = Inr (acc1, day)" by (auto simp: plan_day_def sbind_Inr)
  note l = day_loop [OF this]
  from assms loop obtain dc where dc: "da_blocks day \<noteq> []"
    "money env (da_min day) (da_max day) cur src = Inr dc"
    by (auto simp: plan_day_def sbind_Inr simp del: construct_Inr split: if_splits)
  let ?d = "\<lparr>pd_date = ld, pd_timezone = tz, pd_time_blocks = da_blocks day,
      pd_day_summary = pe_isoformat env ld @ '': candidate itinerary with '' @
        show_nat (length (da_blocks day)) @ '' places.'', pd_daily_cost = dc\<rparr>"
  from assms loop dc have r: "PlanDay_ok (pe_tz_known env) ?d"
    "acc' = acc1\<lparr>pc_days := pc_days acc1 @ [?d], pc_total_min := dec_add (pc_total_min acc1) (da_min day),
       pc_total_max := dec_add (pc_total_max acc1) (da_max day)\<rparr>"
    by (auto simp: plan_day_def sbind_Inr)
  show thesis
  proof (rule that [of ?d])
    show "planned_day env cands cur ?d"
      using l r(1) dc by (auto simp: planned_day_def day_units_def money_def)
  qed (use l r(2) in \<open>auto simp: acc_frame_def day_units_def\<close>)
qed

lemma enumerate_snd: "map snd (enumerate n xs) = xs"
  by (simp add: enumerate_eq_zip)

lemma plan_days_loop:
  assumes "sfold (plan_day env cands tz cur src) (enumerate 0 ds) start_plan = Inr acc"
  shows "map pd_date (pc_days acc) = ds \<and> (\<forall>d \<in> set (pc_days acc). planned_day env cands cur d) \<and>
    pc_total_min acc = dec_sum (map (day_units mr_min_amount) (pc_days acc)) \<and>
    pc_total_max acc = dec_sum (map (day_units mr_max_amount) (pc_days acc))"
proof -
  let ?I = "\<lambda>xs acc. map pd_date (pc_days acc) = map snd xs \<and>
    (\<forall>d \<in> set (pc_days acc). planned_day env cands cur d) \<and>
    pc_total_min acc = dec_sum (map (day_units mr_min_amount) (pc_days acc)) \<and>
    pc_total_max acc = dec_sum (map (day_units mr_max_amount) (pc_days acc))"
  have "?I (enumerate 0 ds) acc"
    using assms
  proof (rule sfold_invariant)
    show "?I [] start_plan" by (simp add: start_plan_def)
  next
    fix xs :: "(nat \<times> int) list" and x rest t t'
    assume I: "?I xs t" and s: "plan_day env cands tz cur src x t = Inr t'"
    obtain di ld where x: "x = (di, ld)" by force
    from s [unfolded x] show "?I (xs @ [x]) t'"
      by (rule plan_day_Inr) (use I x in auto)
  qed
  then show ?thesis by (simp add: enumerate_snd)
qed

definition plan_made :: "planner_env \<Rightarrow> TripBrief \<Rightarrow> CandidateSet \<Rightarrow> ItineraryPlan \<Rightarrow> bool" where
  "plan_made env brief cs plan \<longleftrightarrow>
     map pd_date (ip_days plan) =
       dates (td_start_date (tb_date_window brief)) (td_end_date (tb_date_window brief)) \<and>
     (\<forall>d \<in> set (ip_days plan). planned_day env (planning_candidates env brief cs) (mr_currency (tb_budget brief)) d) \<and>
     ItineraryPlan_ok (pe_tz_known env) plan \<and>
     MoneyRange_ok (bs_estimated_total (ip_budget_summary plan)) \<and>
     mr_currency (bs_estimated_total (ip_budget_summary plan)) = mr_currency (tb_budget brief) \<and>
     mr_min_amount (bs_estimated_total (ip_budget_summary plan)) =
       decimal_text (dec_sum (map (day_units mr_min_amount) (ip_days plan))) \<and>
     mr_max_amount (bs_estimated_total (ip_budget_summary plan)) =
       decimal_text (dec_sum (map (day_units mr_max_amount) (ip_days plan)))"

lemma build_candidate_made:
  assumes "build_candidate env brief cs ev = Inr plan"
  shows "plan_made env brief cs plan" "eligible env brief cs \<noteq> []"
proof -
  let ?cands = "planning_candidates env brief cs" and ?cur = "mr_currency (tb_budget brief)"
  from assms obtain src acc where
    loop: "sfold (plan_day env ?cands (ct_timezone cs) ?cur src) (enumerate 0 (dates
       (td_start_date (tb_date_window brief)) (td_end_date (tb_date_window brief)))) start_plan = Inr acc"
    and fin: "finish_plan env brief cs ev src acc = Inr plan" and el: "eligible env brief cs \<noteq> []"
    by (auto simp: build_candidate_def Let_def sbind_Inr split: if_splits)
  show "eligible env brief cs \<noteq> []" by (fact el)
  from plan_days_loop [OF loop] fin show "plan_made env brief cs plan"
    by (auto simp: finish_plan_def sbind_Inr plan_made_def money_def)
qed

lemma planning_candidates_from:
  "c \<in> set (planning_candidates env brief cs) \<Longrightarrow> c \<in> set (eligible env brief cs)"
  by (auto simp: planning_candidates_def Let_def)

lemma planning_candidates_nonempty: "eligible env brief cs \<noteq> [] \<Longrightarrow> planning_candidates env brief cs \<noteq> []"
proof -
  assume el: "eligible env brief cs \<noteq> []"
  obtain R where R: "planning_candidates env brief cs =
      R @ filter (\<lambda>c. cd_candidate_id c \<notin> set (map cd_candidate_id R)) (eligible env brief cs)"
    by (rule that) (unfold planning_candidates_def Let_def, rule refl)
  show ?thesis using el by (cases "R = []") (simp_all add: R)
qed

lemma block_from_candidate:
  assumes "plan_made env brief cs plan" and "eligible env brief cs \<noteq> []" and "b \<in> set (plan_blocks plan)"
  shows "\<exists>c \<in> set (eligible env brief cs). block_of env c b"
proof -
  from assms(1,3) obtain d k where d: "d \<in> set (ip_days plan)" "b \<in> set (pd_time_blocks d)"
      "day_made env (planning_candidates env brief cs) (mr_currency (tb_budget brief)) k (pd_time_blocks d)"
    by (auto simp: plan_blocks_def plan_made_def planned_day_def)
  from d(2,3) obtain c where "c \<in> set (taken (planning_candidates env brief cs) k (length (pd_time_blocks d)))"
      "block_of env c b" by (metis day_made_def in_set_conv_nth list_all2_conv_all_nth)
  with taken_subset [OF planning_candidates_nonempty [OF assms(2)]] planning_candidates_from show ?thesis by blast
qed

end
