(* ===== verification/Planner_Properties.thy ===== *)
theory Planner_Properties
  imports Planner_Days Demo_Trip
begin

text \<open>
  The properties of the planner: plans are grounded in the candidates, fit the validator's time and
  route checks, and add up; and where the planner falls short of its own comments.
\<close>

section \<open>Grounding\<close>

text \<open>
  C28. A plan the planner returns has exactly one day per date of the window, in order, each with
  at least one and at most the policy's number of blocks, and every block is a candidate of the set:
  its place, title and evidence references are the candidate's, and no hard avoid constraint's text
  occurs in the title.
\<close>

theorem plan_is_grounded:
  assumes "build_candidate env brief cs ev = Inr plan"
  shows "map pd_date (ip_days plan) =
      dates (td_start_date (tb_date_window brief)) (td_end_date (tb_date_window brief)) \<and>
    (\<forall>d \<in> set (ip_days plan). 1 \<le> length (pd_time_blocks d) \<and>
       length (pd_time_blocks d) \<le> po_max_blocks_per_day (pe_policy env)) \<and>
    (\<forall>b \<in> set (plan_blocks plan). \<exists>c \<in> set (ct_candidates cs).
       bk_place_ref b = cd_place_ref c \<and> bk_title b = pl_display_name (cd_place_ref c) \<and>
       bk_evidence_refs b = cd_evidence_refs c \<and>
       (\<forall>k \<in> set (tb_constraints brief). cs_hard k \<and> cs_constraint_type k = Ct_avoid \<longrightarrow>
          \<not> contains (pe_casefold env (cs_description k)) (pe_casefold env (bk_title b))))"
proof -
  note made = build_candidate_made [OF assms]
  have "\<forall>d \<in> set (ip_days plan). 1 \<le> length (pd_time_blocks d) \<and>
       length (pd_time_blocks d) \<le> po_max_blocks_per_day (pe_policy env)"
    using made(1) by (auto simp: plan_made_def planned_day_def Suc_le_eq)
  moreover have "\<exists>c \<in> set (ct_candidates cs).
       bk_place_ref b = cd_place_ref c \<and> bk_title b = pl_display_name (cd_place_ref c) \<and>
       bk_evidence_refs b = cd_evidence_refs c \<and>
       (\<forall>k \<in> set (tb_constraints brief). cs_hard k \<and> cs_constraint_type k = Ct_avoid \<longrightarrow>
          \<not> contains (pe_casefold env (cs_description k)) (pe_casefold env (bk_title b)))"
    if "b \<in> set (plan_blocks plan)" for b
    using block_from_candidate [OF made that]
    by (auto simp: eligible_def block_of_def hard_terms_def names_def list_ex_iff)
  ultimately show ?thesis using made(1) by (auto simp: plan_made_def)
qed

theorem plan_is_grounded_witness: "map pd_date (ip_days demo_plan) = [739000, 739001]"
proof -
  have "dates (td_start_date (tb_date_window demo_brief)) (td_end_date (tb_date_window demo_brief)) = [739000, 739001]"
    by code_simp
  with plan_is_grounded [OF demo_plan_built] show ?thesis by simp
qed

section \<open>Timing\<close>

text \<open>Legs of less than 20 hours, buffer included, in proper transit legs.\<close>

definition legs_short :: "planner_env \<Rightarrow> bool" where
  "legs_short env \<longleftrightarrow> 0 \<le> po_minimum_buffer_minutes (pe_policy env) \<and>
     (\<forall>n p c leg. pe_route env n p c = Inr leg \<longrightarrow> 0 \<le> tg_duration_max_minutes leg \<and>
        tg_duration_max_minutes leg + po_minimum_buffer_minutes (pe_policy env) < 1200)"

lemma le_minutes: "r * MINUTE \<le> b - a \<Longrightarrow> r \<le> minutes_between a b"
  using zdiv_mono1 [of "r * MINUTE" "b - a" MINUTE] by (simp add: minutes_between_def MINUTE_def)

lemma wall_reaches_reaches:
  assumes "wall_reaches b b'" and "zt_end_day_offset (bk_time_range b) = 0"
  shows "reaches day b b'"
  unfolding reaches_def
  by (rule le_minutes) (use assms in \<open>simp add: wall_reaches_def local_interval_def combine_def\<close>)

lemma occupies_stay: "occupies b s \<Longrightarrow> stay_matches day b"
proof -
  assume o: "occupies b s"
  from occupies_length [OF o] o show ?thesis
    by (simp add: stay_matches_def minutes_between_def local_interval_def combine_def occupies_def MINUTE_def)
qed

lemma planned_day_times:
  assumes "planned_day env cands cur d" and "legs_short env"
  shows "(\<forall>b \<in> set (pd_time_blocks d). stay_matches d b) \<and> successively (reaches d) (pd_time_blocks d)"
proof -
  let ?buf = "po_minimum_buffer_minutes (pe_policy env)"
  from assms(1) obtain k e where dm: "day_made env cands cur k (pd_time_blocks d)"
    and ch: "chain ?buf (pd_time_blocks d) e" and ok: "PlanDay_ok (pe_tz_known env) d"
    by (auto simp: planned_day_def day_made_def)
  have "\<forall>b \<in> set (pd_time_blocks d). short_legs ?buf b"
  proof
    fix b
    assume "b \<in> set (pd_time_blocks d)"
    with dm have "from_route env b" by (auto simp: day_made_def block_made_def)
    with assms(2) show "short_legs ?buf b"
      unfolding from_route_def short_legs_def legs_short_def by (auto split: option.splits)
  qed
  moreover have "0 \<le> ?buf" using assms(2) by (simp add: legs_short_def)
  moreover have "sorted (map (zt_start_local_time \<circ> bk_time_range) (pd_time_blocks d))"
    using ok by (simp add: PlanDay_ok_def)
  ultimately have w: "successively wall_reaches (pd_time_blocks d)" using chain_wall [OF ch] by blast
  have oc: "\<exists>s. occupies b s" if "b \<in> set (pd_time_blocks d)" for b
    using chain_occupies [OF ch that] .
  have "successively (reaches d) (pd_time_blocks d)"
    by (rule successively_mono [OF w])
      (use oc in \<open>auto simp: occupies_def intro: wall_reaches_reaches\<close>)
  with oc occupies_stay show ?thesis by blast
qed

text \<open>
  C6. Planner and validator agree on time: when route legs, buffer included, stay below 20 hours,
  a plan the planner returns never fails a time or route check of the constraint validator: every stay
  is as long as its time range says and every gap covers the leg before it.
\<close>

theorem planned_times_pass_validation:
  assumes "build_candidate env brief cs ev = Inr plan" and "legs_short env"
    and "validate venv brief plan ev' = Inr report"
  shows "\<forall>c \<in> set (cr_checks report). cc_category c \<in> {Ck_time, Ck_route} \<longrightarrow> cc_outcome c = Pass"
proof -
  have d: "(\<forall>b \<in> set (pd_time_blocks d). stay_matches d b) \<and> successively (reaches d) (pd_time_blocks d)"
    if "d \<in> set (ip_days plan)" for d
    using planned_day_times [OF _ assms(2)] build_candidate_made(1) [OF assms(1)] that
    by (auto simp: plan_made_def)
  have blocks: "cc_category c \<in> {Ck_time, Ck_route} \<longrightarrow> cc_outcome c = Pass"
    if "c \<in> set (block_checks venv known day (map_option (\<lambda>b0. snd (local_interval (pd_date day) (bk_time_range b0))) p) bs)"
      "\<forall>b \<in> set bs. stay_matches day b" "successively (reaches day) ((case p of None \<Rightarrow> [] | Some b0 \<Rightarrow> [b0]) @ bs)"
    for c known day p bs
    using that
  proof (induction bs arbitrary: p)
    case (Cons b bs)
    from Cons.IH [of "Some b"] Cons.prems show ?case
      by (cases p) (auto simp: successively_Cons reference_check_def)
  qed simp
  have raw: "cc_category c \<in> {Ck_time, Ck_route} \<longrightarrow> cc_outcome c = Pass"
    if "c \<in> set (raw_checks venv brief plan ev')" for c
  proof -
    have "cc_category c \<in> {Ck_time, Ck_route} \<longrightarrow> cc_outcome c = Pass"
      if "day \<in> set (ip_days plan)" "c \<in> set (day_checks venv known day)" for day known
      using that(2) d [OF that(1)] blocks [of c known day None "pd_time_blocks day"]
      by (auto simp: day_checks_def)
    with that show ?thesis
      by (auto simp: raw_checks_def budget_check_def constraint_checks_def freshness_check_def Let_def)
  qed
  show ?thesis
  proof
    fix c
    assume "c \<in> set (cr_checks report)"
    then obtain c0 n where "c0 \<in> set (raw_checks venv brief plan ev')" "cc_category c = cc_category c0"
        "cc_outcome c = cc_outcome c0"
      unfolding validate_Inr(1) [OF assms(3)] with_ids_def
      by (fastforce simp: in_set_enumerate_eq intro: nth_mem)
    with raw show "cc_category c \<in> {Ck_time, Ck_route} \<longrightarrow> cc_outcome c = Pass" by auto
  qed
qed

lemma demo_legs_short: "m < 1000 \<Longrightarrow> 0 \<le> m \<Longrightarrow> legs_short (demo_planner_with m)"
  by (auto simp: legs_short_def demo_planner_with_def demo_leg_def default_policy_def)

theorem planned_times_pass_validation_witness:
  "filter (\<lambda>c. cc_category c \<in> {Ck_time, Ck_route} \<and> cc_outcome c \<noteq> Pass) (cr_checks demo_constraint_report) = []"
proof -
  have "legs_short demo_planner" unfolding demo_planner_def by (rule demo_legs_short) simp_all
  from planned_times_pass_validation [OF demo_plan_built this demo_validated] show ?thesis
    by (auto simp: filter_empty_conv)
qed

section \<open>Money\<close>

definition exact_units :: "(MoneyRange \<Rightarrow> string) \<Rightarrow> PlanTimeBlock list \<Rightarrow> int" where
  "exact_units f bs = (\<Sum>b\<leftarrow>bs. cost_units f b)"

lemma exact_units_nonneg: "0 \<le> exact_units f bs"
  unfolding exact_units_def by (intro sum_list_nonneg) (auto simp: cost_units_nonneg)

lemma exact_units_blocks: "exact_units f (concat (map pd_time_blocks ds)) = (\<Sum>d\<leftarrow>ds. exact_units f (pd_time_blocks d))"
  by (induction ds) (simp_all add: exact_units_def)

lemma day_units_exact:
  assumes "exact_units f (pd_time_blocks d) < 10 ^ 28"
  shows "day_units f d = exact_units f (pd_time_blocks d)"
  unfolding day_units_def exact_units_def
  by (rule dec_sum_exact) (use assms in \<open>auto simp: cost_units_nonneg exact_units_def\<close>)

lemma part_of_sum:
  fixes g :: "'a \<Rightarrow> int"
  assumes "x \<in> set xs" "\<And>y. 0 \<le> g y"
  shows "g x \<le> (\<Sum>y\<leftarrow>xs. g y)"
proof -
  have "g x \<le> (\<Sum>y\<leftarrow>xs. g y) \<and> 0 \<le> (\<Sum>y\<leftarrow>xs. g y)"
    using assms(1)
  proof (induction xs)
    case (Cons a as)
    have "0 \<le> (\<Sum>y\<leftarrow>as. g y)" by (intro sum_list_nonneg) (auto simp: assms(2))
    with Cons assms(2) [of a] show ?case by auto
  qed simp
  then show ?thesis ..
qed

lemma total_units_exact:
  assumes "exact_units f (concat (map pd_time_blocks ds)) < 10 ^ 28"
  shows "dec_sum (map (day_units f) ds) = exact_units f (concat (map pd_time_blocks ds)) \<and>
    (\<forall>d \<in> set ds. day_units f d = exact_units f (pd_time_blocks d))"
proof -
  have e: "day_units f d = exact_units f (pd_time_blocks d)" if "d \<in> set ds" for d
    using part_of_sum [OF that, of "\<lambda>d. exact_units f (pd_time_blocks d)"] exact_units_nonneg assms
    by (intro day_units_exact) (auto simp: exact_units_blocks)
  then have m: "map (day_units f) ds = map (\<lambda>d. exact_units f (pd_time_blocks d)) ds" by simp
  have "dec_sum (map (day_units f) ds) = (\<Sum>d\<leftarrow>ds. exact_units f (pd_time_blocks d))"
    unfolding m by (rule dec_sum_exact) (use assms in \<open>auto simp: exact_units_nonneg exact_units_blocks\<close>)
  with e show ?thesis by (simp add: exact_units_blocks)
qed

text \<open>
  The budget adds up: in a returned plan whose costs, in ten-thousandths, sum to less than
  \<open>10\<^sup>2\<^sup>8\<close> (the precision of the decimal context), the maximum of every day is exactly the sum of the maxima of
  its blocks and the plan's maximum is exactly the sum over all blocks, in the budget's currency.
\<close>

theorem plan_costs_add_up:
  assumes "build_candidate env brief cs ev = Inr plan"
    and "exact_units mr_max_amount (plan_blocks plan) < 10 ^ 28"
  shows "decimal_units (mr_max_amount (bs_estimated_total (ip_budget_summary plan))) =
      exact_units mr_max_amount (plan_blocks plan) \<and>
    (\<forall>d \<in> set (ip_days plan). decimal_units (mr_max_amount (pd_daily_cost d)) =
       exact_units mr_max_amount (pd_time_blocks d)) \<and>
    mr_currency (bs_estimated_total (ip_budget_summary plan)) = mr_currency (tb_budget brief)"
proof -
  have made: "plan_made env brief cs plan" by (rule build_candidate_made(1) [OF assms(1)])
  from total_units_exact [of mr_max_amount "ip_days plan"] assms(2)
  have t: "dec_sum (map (day_units mr_max_amount) (ip_days plan)) = exact_units mr_max_amount (plan_blocks plan)"
    "\<forall>d \<in> set (ip_days plan). day_units mr_max_amount d = exact_units mr_max_amount (pd_time_blocks d)"
    by (simp_all add: plan_blocks_def)
  then show ?thesis
    using made exact_units_nonneg by (auto simp: plan_made_def planned_day_def decimal_units_decimal_text)
qed

section \<open>Where the planner falls short\<close>

definition built_titles :: "contract_error + ItineraryPlan \<Rightarrow> string list list" where
  "built_titles r = (case r of Inl _ \<Rightarrow> [] | Inr p \<Rightarrow> map (map bk_title \<circ> pd_time_blocks) (ip_days p))"

definition built_legs :: "contract_error + ItineraryPlan \<Rightarrow> int" where
  "built_legs r = (case r of Inl _ \<Rightarrow> 0 | Inr p \<Rightarrow> rs_legs_count (ip_route_summary p))"

text \<open>
  A comment in the planner says it never cycles a small candidate set; across days it does: one
  candidate and two days give the same place on both days.
\<close>

theorem planner_cycles_across_days:
  "built_titles (build_candidate demo_planner (demo_brief_with 2 [])
     (demo_candidates_with [demo_candidate ''park'' ''old park'' 60]) demo_evidence) = [[''old park''], [''old park'']]"
  by code_simp

text \<open>
  The day-end test looks at the hour of the end only: with three four-hour places two hours
  apart the third would end at 01:30, an hour below the limit, so it is not left for the next day and the
  construction of its time range raises; with the first two places alone the plan is made.
\<close>

definition far_places :: "Candidate list" where
  "far_places = [demo_candidate ''one'' ''one'' 240, demo_candidate ''two'' ''two'' 240, demo_candidate ''three'' ''three'' 240]"

theorem planner_raises_past_midnight:
  "build_candidate (demo_planner_with 120) (demo_brief_with 1 []) (demo_candidates_with far_places) demo_evidence
     = Inl ValidationError \<and>
   built_titles (build_candidate (demo_planner_with 120) (demo_brief_with 1 [])
     (demo_candidates_with (take 2 far_places)) demo_evidence) = [[''one'', ''two'']]"
  by code_simp

text \<open>
  A place that does not fit at the end of a day is not carried over: with three must-visit
  places of four hours and two days the planner visits the first two on both days and the third on
  none, and the route summary counts the legs to the place it dropped.
\<close>

theorem planner_drops_must_visit:
  "built_titles (build_candidate demo_planner
      (demo_brief_with 2 [demo_constraint ''constraint_1'' Ct_visit ''one'', demo_constraint ''constraint_2'' Ct_visit ''two'',
         demo_constraint ''constraint_3'' Ct_visit ''three''])
      (demo_candidates_with far_places) demo_evidence) = [[''one'', ''two''], [''one'', ''two'']] \<and>
   built_legs (build_candidate demo_planner
      (demo_brief_with 2 [demo_constraint ''constraint_1'' Ct_visit ''one'', demo_constraint ''constraint_2'' Ct_visit ''two'',
         demo_constraint ''constraint_3'' Ct_visit ''three''])
      (demo_candidates_with far_places) demo_evidence) = 4"
  by code_simp

end
