(* ===== verification/Replanning.thy ===== *)
theory Replanning
  imports Planner_Properties Run_Coordinator
begin

text \<open>
  Replanning: the structural patch of a pinned trip brief (\<^verbatim>\<open>backend/moyuan_web/v1/replanning.py\<close>) and
  \<^verbatim>\<open>RunCoordinator.submit\<close>, which applies it before the Run is created. \<^verbatim>\<open>model_copy\<close> does not validate,
  the constructors of the new constraints and preferences do. Identifiers drawn for the i-th object
  of a kind, the clock, \<^verbatim>\<open>str.casefold\<close>, \<^verbatim>\<open>date.isoformat\<close> and SHA-256 are arguments.
\<close>

section \<open>The patch\<close>

record replan_env =
  re_id :: "string \<Rightarrow> nat \<Rightarrow> string"
  re_now :: instant
  re_casefold :: "string \<Rightarrow> string"
  re_isoformat :: "int \<Rightarrow> string"
  re_sha256_hex :: "string \<Rightarrow> string"
  re_tz_known :: "string \<Rightarrow> bool"

definition replan_actor :: "replan_env \<Rightarrow> Principal \<Rightarrow> contract_error + ActorRef" where
  "replan_actor env p =
     construct ActorRef_ok \<lparr>ac_actor_type = Ac_user,
       ac_actor_id = ''user:'' @ take 32 (re_sha256_hex env (pr_user_id p))\<rparr>"

definition hard_constraint ::
    "replan_env \<Rightarrow> string \<Rightarrow> nat \<Rightarrow> ConstraintType \<Rightarrow> string \<Rightarrow> SourceRef \<Rightarrow> contract_error + ConstraintSpec" where
  "hard_constraint env kind n ty description source =
     construct ConstraintSpec_ok
       \<lparr>cs_constraint_id = re_id env kind n, cs_constraint_type = ty, cs_hard = True, cs_priority = 5,
        cs_description = description, cs_source = source\<rparr>"

definition patch_dates ::
    "replan_env \<Rightarrow> TripBrief \<Rightarrow> ReplanDatePatch option \<Rightarrow> ConstraintSpec list \<Rightarrow>
     contract_error + TripDateRange \<times> ConstraintSpec list" where
  "patch_dates env brief dates_patch constraints =
     (case dates_patch of
        None \<Rightarrow> Inr (tb_date_window brief, constraints)
      | Some d \<Rightarrow>
          sbind (construct (TripDateRange_ok (re_tz_known env))
            \<lparr>td_start_date = rd_start_date d, td_end_date = rd_end_date d,
             td_timezone = td_timezone (tb_date_window brief), td_flexibility_days = 0\<rparr>) (\<lambda>window.
          sbind (hard_constraint env ''date'' 0 Ct_date
            (''Travel dates are '' @ re_isoformat env (rd_start_date d) @ '' to '' @
             re_isoformat env (rd_end_date d) @ ''.'') (tb_source brief)) (\<lambda>c.
          Inr (window, filter (\<lambda>k. cs_constraint_type k \<noteq> Ct_date) constraints @ [c]))))"

definition patch_budget ::
    "replan_env \<Rightarrow> TripBrief \<Rightarrow> ReplanBudgetPatch option \<Rightarrow> ConstraintSpec list \<Rightarrow>
     contract_error + MoneyRange \<times> ConstraintSpec list" where
  "patch_budget env brief budget_patch constraints =
     (case budget_patch of
        None \<Rightarrow> Inr (tb_budget brief, constraints)
      | Some b \<Rightarrow>
          sbind (construct MoneyRange_ok
            \<lparr>mr_min_amount = rb_min_amount b, mr_max_amount = rb_max_amount b,
             mr_currency = (case rb_currency b of None \<Rightarrow> mr_currency (tb_budget brief)
                            | Some c \<Rightarrow> if c = [] then mr_currency (tb_budget brief) else c),
             mr_basis = mr_basis (tb_budget brief), mr_observed_at = re_now env,
             mr_source = tb_source brief\<rparr>) (\<lambda>budget.
          sbind (hard_constraint env ''budget'' 0 Ct_budget
            (''The total budget is '' @ mr_min_amount budget @ ''-'' @ mr_max_amount budget @ '' '' @
             mr_currency budget @ ''.'') (tb_source brief)) (\<lambda>c.
          Inr (budget, filter (\<lambda>k. cs_constraint_type k \<noteq> Ct_budget) constraints @ [c]))))"

definition add_preference ::
    "replan_env \<Rightarrow> nat \<times> string \<Rightarrow> TravelPreference list \<times> string set \<Rightarrow>
     contract_error + TravelPreference list \<times> string set" where
  "add_preference env = (\<lambda>(n, value) (preferences, known).
     if re_casefold env value \<in> known then Inr (preferences, known)
     else sbind (construct TravelPreference_ok
       \<lparr>tp_preference_id = re_id env ''preference'' n, tp_category = Pr_other, tp_value = value, tp_priority = 3\<rparr>)
       (\<lambda>p. Inr (preferences @ [p], insert (re_casefold env value) known)))"

definition patch_preferences ::
    "replan_env \<Rightarrow> ReplanPreferencePatch option \<Rightarrow> TravelPreference list \<Rightarrow> contract_error + TravelPreference list"
where
  "patch_preferences env patch preferences =
     (case patch of
        None \<Rightarrow> Inr preferences
      | Some q \<Rightarrow>
          let removed = set (map (re_casefold env) (rp_remove q));
              kept = filter (\<lambda>p. re_casefold env (tp_value p) \<notin> removed) preferences
          in sbind (sfold (add_preference env) (enumerate 0 (rp_add q))
                     (kept, set (map (re_casefold env \<circ> tp_value) kept))) (\<lambda>(ps, _). Inr ps))"

definition add_place ::
    "replan_env \<Rightarrow> string \<Rightarrow> ConstraintType \<Rightarrow> SourceRef \<Rightarrow> nat \<times> string \<Rightarrow> ConstraintSpec list \<times> string set \<Rightarrow>
     contract_error + ConstraintSpec list \<times> string set" where
  "add_place env kind ty source = (\<lambda>(n, place) (constraints, existing).
     if re_casefold env place \<in> existing then Inr (constraints, existing)
     else sbind (hard_constraint env kind n ty place source)
       (\<lambda>c. Inr (constraints @ [c], insert (re_casefold env place) existing)))"

definition patch_places ::
    "replan_env \<Rightarrow> SourceRef \<Rightarrow> string list \<Rightarrow> string list \<Rightarrow> ConstraintSpec list \<Rightarrow> contract_error + ConstraintSpec list"
where
  "patch_places env source exclude retain constraints =
     sbind (sfold (add_place env ''exclude'' Ct_avoid source) (enumerate 0 exclude)
              (constraints, set (map (re_casefold env \<circ> cs_description) constraints))) (\<lambda>s1.
     sbind (sfold (add_place env ''retain'' Ct_visit source) (enumerate 0 retain) s1)
       (\<lambda>(cs, _). Inr cs))"

definition apply_replan_patch ::
    "replan_env \<Rightarrow> TripBrief \<Rightarrow> ReplanPatch \<Rightarrow> Principal \<Rightarrow> contract_error + TripBrief" where
  "apply_replan_patch env brief patch p =
     sbind (patch_dates env brief (rpt_dates patch) (tb_constraints brief)) (\<lambda>(window, cs1).
     sbind (patch_budget env brief (rpt_budget patch) cs1) (\<lambda>(budget, cs2).
     sbind (patch_preferences env (rpt_preferences patch) (tb_preferences brief)) (\<lambda>prefs.
     sbind (patch_places env (tb_source brief) (rpt_exclude_places patch) (rpt_retain_places patch) cs2) (\<lambda>cs3.
     sbind (replan_actor env p) (\<lambda>actor.
     Inr (brief\<lparr>ab_artifact_id := re_id env ''artifact'' 0, ab_version := 1, ab_created_at := re_now env,
                ab_created_by := actor,
                ab_reason := ''Structured replan patch confirmed by the user on a pinned TripSnapshot.'',
                tb_date_window := window, tb_budget := budget, tb_preferences := prefs,
                tb_constraints := cs3\<rparr>))))))"

section \<open>Submitting a Run\<close>

text \<open>
  \<open>submit\<close>. \<open>parse_snapshot\<close> is \<^verbatim>\<open>validate_contract("TripSnapshot@1", content)\<close> with the type check of
  its result, \<open>parse_patch\<close> is \<^verbatim>\<open>ReplanPatch.model_validate\<close>, \<open>dump_brief\<close> is \<^verbatim>\<open>model_dump(mode="json")\<close>. The
  boolean result says whether an in-process execution task is started.
\<close>

datatype submit_exc = SubmitRun run_exc | SubmitValueError contract_error

definition lift_run :: "'a co \<Rightarrow> (world, submit_exc, 'a) eff" where
  "lift_run m w = (case m w of (Inl e, w') \<Rightarrow> (Inl (SubmitRun e), w') | (Inr a, w') \<Rightarrow> (Inr a, w'))"

definition raise_value :: "contract_error + 'a \<Rightarrow> (world, submit_exc, 'a) eff" where
  "raise_value r w = ((case r of Inl e \<Rightarrow> Inl (SubmitValueError e) | Inr a \<Rightarrow> Inr a), w)"

definition replan_command ::
    "runtime_sys \<Rightarrow> replan_env \<Rightarrow> (jobj \<Rightarrow> contract_error + TripSnapshot) \<Rightarrow> (json \<Rightarrow> contract_error + ReplanPatch) \<Rightarrow>
     (TripBrief \<Rightarrow> json) \<Rightarrow> Principal \<Rightarrow> string \<Rightarrow> RunCreateRequest \<Rightarrow> (world, submit_exc, RunCommand) eff" where
  "replan_command sy env parse_snapshot parse_patch dump_brief p tid request =
     (case (rq_base_artifact_id request, rq_base_artifact_version request) of
        (Some bid, Some bv) \<Rightarrow>
          ebind (lift_run (store_call sy (\<lambda>_ _ _. get_artifact p bid (Some bv)))) (\<lambda>base.
            if av_trip_id base \<noteq> tid \<or> av_artifact_type base \<noteq> ''TripSnapshot''
            then eraise (SubmitRun (StoreExc (VersionConflict (av_version base))))
            else
              ebind (raise_value (parse_snapshot (av_content base))) (\<lambda>snapshot.
              ebind (raise_value (parse_patch (jget (rc_payload (rq_command request)) ''patch''))) (\<lambda>patch.
              ebind (raise_value (apply_replan_patch env (sn_brief snapshot) patch p)) (\<lambda>patched.
              eret ((rq_command request)\<lparr>rc_payload :=
                dset ''base_snapshot_ref'' (JObj [(''artifact_id'', JStr (av_artifact_id base)),
                                                  (''version'', JInt (av_version base))])
                  (dset ''trip_brief'' (dump_brief patched) (rc_payload (rq_command request)))\<rparr>)))))
      | _ \<Rightarrow> eraise (SubmitValueError (ValueErr ''replan requires a pinned base Artifact'')))"

definition submit ::
    "runtime_sys \<Rightarrow> replan_env \<Rightarrow> (jobj \<Rightarrow> contract_error + TripSnapshot) \<Rightarrow> (json \<Rightarrow> contract_error + ReplanPatch) \<Rightarrow>
     (TripBrief \<Rightarrow> json) \<Rightarrow> bool \<Rightarrow> Principal \<Rightarrow> string \<Rightarrow> RunCreateRequest \<Rightarrow> string \<Rightarrow> string \<Rightarrow> string \<Rightarrow>
     (world, submit_exc, IdempotentRunResult \<times> bool) eff" where
  "submit sy env parse_snapshot parse_patch dump_brief in_process p tid request idem_key request_hash trace_id =
     ebind (if rc_type (rq_command request) = Trip_replan
            then replan_command sy env parse_snapshot parse_patch dump_brief p tid request
            else eret (rq_command request)) (\<lambda>command.
     ebind (lift_run (store_call sy (\<lambda>t1 _ u. create_run p tid command (rq_base_artifact_id request)
              (rq_base_artifact_version request) idem_key request_hash trace_id t1 (''run_'' @ u) (''ev_'' @ u))))
       (\<lambda>result. eret (result, \<not> ir_replayed result \<and> in_process)))"

end
