(* ===== verification/Replan_Properties.thy ===== *)
theory Replan_Properties
  imports Replanning
begin

text \<open>
  The properties of replanning: what a patch keeps, that an excluded place is not planned any more, and
  when an exclusion is silently dropped.
\<close>

section \<open>Places\<close>

abbreviation fold_descriptions :: "replan_env \<Rightarrow> ConstraintSpec list \<Rightarrow> string set" where
  "fold_descriptions env cs \<equiv> set (map (re_casefold env \<circ> cs_description) cs)"

definition places_added ::
    "replan_env \<Rightarrow> ConstraintType \<Rightarrow> string list \<Rightarrow> ConstraintSpec list \<Rightarrow> ConstraintSpec list \<Rightarrow> bool" where
  "places_added env ty places cs cs' \<longleftrightarrow>
     (\<exists>new. cs' = cs @ new \<and> (\<forall>c \<in> set new. cs_hard c \<and> cs_constraint_type c = ty \<and> cs_description c \<in> set places) \<and>
        (\<forall>p \<in> set places. re_casefold env p \<in> fold_descriptions env cs'))"

lemma add_places:
  assumes "sfold (add_place env kind ty src) (enumerate 0 places) (cs, fold_descriptions env cs) = Inr (cs', known)"
  shows "places_added env ty places cs cs' \<and> known = fold_descriptions env cs'"
proof -
  let ?I = "\<lambda>xs (ks, e). places_added env ty (map snd xs) cs ks \<and> e = fold_descriptions env ks"
  have "?I (enumerate 0 places) (cs', known)"
    using assms
  proof (rule sfold_invariant)
    show "?I [] (cs, fold_descriptions env cs)" by (simp add: places_added_def)
  next
    fix xs :: "(nat \<times> string) list" and x rest t t'
    assume I: "?I xs t" and s: "add_place env kind ty src x t = Inr t'"
    obtain n p ks e where x: "x = (n, p)" "t = (ks, e)" by (cases x; cases t)
    from I x have pa: "places_added env ty (map snd xs) cs ks" and e: "e = fold_descriptions env ks" by simp_all
    from pa obtain new where new: "ks = cs @ new"
      "\<forall>c \<in> set new. cs_hard c \<and> cs_constraint_type c = ty \<and> cs_description c \<in> set (map snd xs)"
      "\<forall>q \<in> set (map snd xs). re_casefold env q \<in> fold_descriptions env ks"
      unfolding places_added_def by blast
    show "?I (xs @ [x]) t'"
    proof (cases "re_casefold env p \<in> e")
      case True
      with s x have "t' = (ks, e)" by (simp add: add_place_def)
      moreover have "places_added env ty (map snd (xs @ [x])) cs ks"
        unfolding places_added_def
        by (rule exI [of _ new]) (use new True e x in auto)
      ultimately show ?thesis using e by simp
    next
      case False
      with s x obtain c where c: "t' = (ks @ [c], insert (re_casefold env p) e)" "cs_hard c"
          "cs_constraint_type c = ty" "cs_description c = p"
        by (auto simp: add_place_def hard_constraint_def sbind_Inr)
      have "places_added env ty (map snd (xs @ [x])) cs (ks @ [c])"
        unfolding places_added_def
        by (rule exI [of _ "new @ [c]"]) (use new c x in auto)
      with c e show ?thesis by auto
    qed
  qed
  then show ?thesis by (simp add: enumerate_snd)
qed

lemma patch_places_Inr:
  assumes "patch_places env src ex re cs = Inr cs'"
  obtains cs1 where "places_added env Ct_avoid ex cs cs1" "places_added env Ct_visit re cs1 cs'"
proof -
  from assms obtain cs1 e1 known where
    1: "sfold (add_place env ''exclude'' Ct_avoid src) (enumerate 0 ex) (cs, fold_descriptions env cs) = Inr (cs1, e1)"
    and 2: "sfold (add_place env ''retain'' Ct_visit src) (enumerate 0 re) (cs1, e1) = Inr (cs', known)"
    unfolding patch_places_def sbind_Inr by (auto split: prod.splits)
  from add_places [OF 1] have a: "places_added env Ct_avoid ex cs cs1" "e1 = fold_descriptions env cs1" by auto
  from add_places [OF 2 [unfolded a(2)]] have "places_added env Ct_visit re cs1 cs'" by blast
  with a(1) show thesis by (rule that)
qed

section \<open>What a patch keeps\<close>

definition untouched :: "ReplanPatch \<Rightarrow> ConstraintSpec \<Rightarrow> bool" where
  "untouched patch c \<longleftrightarrow> \<not> (rpt_dates patch \<noteq> None \<and> cs_constraint_type c = Ct_date) \<and>
     \<not> (rpt_budget patch \<noteq> None \<and> cs_constraint_type c = Ct_budget)"

lemma patch_dates_Inr:
  assumes "patch_dates env brief dp cs = Inr (window, cs')"
  shows "\<exists>new. cs' = filter (\<lambda>k. \<not> (dp \<noteq> None \<and> cs_constraint_type k = Ct_date)) cs @ new \<and>
    (\<forall>c \<in> set new. cs_constraint_type c = Ct_date)"
    "dp = None \<Longrightarrow> window = tb_date_window brief" "td_timezone window = td_timezone (tb_date_window brief)"
  using assms by (auto simp: patch_dates_def hard_constraint_def sbind_Inr split: option.splits)

lemma patch_budget_Inr:
  assumes "patch_budget env brief bp cs = Inr (budget, cs')"
  shows "\<exists>new. cs' = filter (\<lambda>k. \<not> (bp \<noteq> None \<and> cs_constraint_type k = Ct_budget)) cs @ new \<and>
    (\<forall>c \<in> set new. cs_constraint_type c = Ct_budget)"
    "bp = None \<Longrightarrow> budget = tb_budget brief"
  using assms by (auto simp: patch_budget_def hard_constraint_def sbind_Inr split: option.splits)

lemma add_preference_keeps:
  assumes "sfold (add_preference env) xs (ps, known) = Inr (ps', known')"
  shows "\<exists>new. ps' = ps @ new"
proof -
  have "(\<lambda>_ s. \<exists>new. fst s = ps @ new) xs (ps', known')"
    using assms
  proof (rule sfold_invariant)
    fix t t' :: "TravelPreference list \<times> string set" and ds x rest
    assume "\<exists>new. fst t = ps @ new" "add_preference env x t = Inr t'"
    then show "\<exists>new. fst t' = ps @ new"
      by (cases x; cases t) (auto simp: add_preference_def sbind_Inr split: if_splits)
  qed simp
  then show ?thesis by simp
qed

lemma patch_preferences_Inr:
  assumes "patch_preferences env pp ps = Inr ps'"
  shows "\<exists>new. ps' = filter (\<lambda>p. \<forall>q v. pp = Some q \<longrightarrow> v \<in> set (rp_remove q) \<longrightarrow>
     re_casefold env (tp_value p) \<noteq> re_casefold env v) ps @ new"
proof (cases pp)
  case None
  with assms show ?thesis by (auto simp: patch_preferences_def)
next
  case (Some q)
  let ?kept = "filter (\<lambda>p. re_casefold env (tp_value p) \<notin> set (map (re_casefold env) (rp_remove q))) ps"
  from assms Some obtain known where "sfold (add_preference env) (enumerate 0 (rp_add q))
      (?kept, set (map (re_casefold env \<circ> tp_value) ?kept)) = Inr (ps', known)"
    unfolding patch_preferences_def by (auto simp: sbind_Inr)
  from add_preference_keeps [OF this] obtain new where "ps' = ?kept @ new" by blast
  moreover have "?kept = filter (\<lambda>p. \<forall>q v. pp = Some q \<longrightarrow> v \<in> set (rp_remove q) \<longrightarrow>
      re_casefold env (tp_value p) \<noteq> re_casefold env v) ps"
    by (rule filter_cong) (auto simp: Some)
  ultimately show ?thesis by metis
qed

lemma apply_replan_patch_Inr:
  assumes "apply_replan_patch env brief patch p = Inr b'"
  obtains window cs1 budget cs2 prefs cs3 actor where
    "patch_dates env brief (rpt_dates patch) (tb_constraints brief) = Inr (window, cs1)"
    "patch_budget env brief (rpt_budget patch) cs1 = Inr (budget, cs2)"
    "patch_preferences env (rpt_preferences patch) (tb_preferences brief) = Inr prefs"
    "patch_places env (tb_source brief) (rpt_exclude_places patch) (rpt_retain_places patch) cs2 = Inr cs3"
    "b' = brief\<lparr>ab_artifact_id := re_id env ''artifact'' 0, ab_version := 1, ab_created_at := re_now env,
       ab_created_by := actor,
       ab_reason := ''Structured replan patch confirmed by the user on a pinned TripSnapshot.'',
       tb_date_window := window, tb_budget := budget, tb_preferences := prefs, tb_constraints := cs3\<rparr>"
  using assms unfolding apply_replan_patch_def sbind_Inr by (auto split: prod.splits simp: sbind_Inr)

lemma filter_new: "\<forall>c \<in> set new. \<not> P c \<Longrightarrow> filter (\<lambda>k. \<not> (x \<and> P k)) (cs @ new) = filter (\<lambda>k. \<not> (x \<and> P k)) cs @ new"
  by (induction new) auto

lemma replan_constraints:
  assumes "apply_replan_patch env brief patch p = Inr b'"
  obtains cs2 cs3 where "\<exists>new. cs2 = filter (untouched patch) (tb_constraints brief) @ new"
    "set cs2 \<subseteq> set (tb_constraints b')" "places_added env Ct_avoid (rpt_exclude_places patch) cs2 cs3"
    "places_added env Ct_visit (rpt_retain_places patch) cs3 (tb_constraints b')"
    "\<forall>c \<in> set cs2. c \<in> set (tb_constraints brief) \<or> cs_constraint_type c \<in> {Ct_date, Ct_budget}"
proof -
  from assms obtain window cs1 budget cs2 prefs cs' actor where
    d: "patch_dates env brief (rpt_dates patch) (tb_constraints brief) = Inr (window, cs1)"
    and b: "patch_budget env brief (rpt_budget patch) cs1 = Inr (budget, cs2)"
    and pl: "patch_places env (tb_source brief) (rpt_exclude_places patch) (rpt_retain_places patch) cs2 = Inr cs'"
    and b': "tb_constraints b' = cs'"
    by (rule apply_replan_patch_Inr) auto
  from patch_dates_Inr(1) [OF d] obtain n1 where n1: "cs1 = filter (\<lambda>k. \<not> (rpt_dates patch \<noteq> None \<and>
      cs_constraint_type k = Ct_date)) (tb_constraints brief) @ n1" "\<forall>c \<in> set n1. cs_constraint_type c = Ct_date" by blast
  from patch_budget_Inr(1) [OF b] obtain n2 where n2: "cs2 = filter (\<lambda>k. \<not> (rpt_budget patch \<noteq> None \<and>
      cs_constraint_type k = Ct_budget)) cs1 @ n2" "\<forall>c \<in> set n2. cs_constraint_type c = Ct_budget" by blast
  have "cs2 = filter (untouched patch) (tb_constraints brief) @ n1 @ n2"
  proof -
    have "filter (\<lambda>k. \<not> (rpt_budget patch \<noteq> None \<and> cs_constraint_type k = Ct_budget)) cs1 =
      filter (\<lambda>k. \<not> (rpt_budget patch \<noteq> None \<and> cs_constraint_type k = Ct_budget)) (filter (\<lambda>k. \<not> (rpt_dates patch \<noteq> None \<and>
      cs_constraint_type k = Ct_date)) (tb_constraints brief)) @ n1"
      unfolding n1(1) by (rule filter_new) (use n1(2) in auto)
    also have "\<dots> = filter (untouched patch) (tb_constraints brief) @ n1"
      by (simp add: untouched_def [abs_def] conj_commute)
    finally show ?thesis using n2(1) by simp
  qed
  moreover from patch_places_Inr [OF pl] obtain cs3 where
    "places_added env Ct_avoid (rpt_exclude_places patch) cs2 cs3"
    "places_added env Ct_visit (rpt_retain_places patch) cs3 cs'" by blast
  ultimately show thesis
    using n1 n2 b' by (intro that [of cs2 cs3]) (auto simp: places_added_def)
qed

lemma replan_constraints_prefix:
  assumes "apply_replan_patch env brief patch p = Inr b'"
  shows "\<exists>new. tb_constraints b' = filter (untouched patch) (tb_constraints brief) @ new"
proof -
  from assms obtain cs2 cs3 n1 where "cs2 = filter (untouched patch) (tb_constraints brief) @ n1"
    "places_added env Ct_avoid (rpt_exclude_places patch) cs2 cs3"
    "places_added env Ct_visit (rpt_retain_places patch) cs3 (tb_constraints b')"
    by (elim replan_constraints exE)
  then show ?thesis unfolding places_added_def by (metis append.assoc)
qed

text \<open>
  A replan patch changes what it names and nothing else: every constraint of the base brief that is
  not replaced by a patched date range or budget stays, in order and first, a date range or budget that is
  not patched stays as it is, every preference that is not removed stays, and destination, travellers and
  clarifications are those of the base.
\<close>

theorem replan_keeps_the_rest:
  assumes "apply_replan_patch env brief patch p = Inr b'"
  shows "(\<exists>new. tb_constraints b' = filter (untouched patch) (tb_constraints brief) @ new) \<and>
    (rpt_dates patch = None \<longrightarrow> tb_date_window b' = tb_date_window brief) \<and>
    (rpt_budget patch = None \<longrightarrow> tb_budget b' = tb_budget brief) \<and>
    (\<forall>x \<in> set (tb_preferences brief). (\<forall>q v. rpt_preferences patch = Some q \<longrightarrow> v \<in> set (rp_remove q) \<longrightarrow>
       re_casefold env (tp_value x) \<noteq> re_casefold env v) \<longrightarrow> x \<in> set (tb_preferences b')) \<and>
    tb_destination b' = tb_destination brief \<and> tb_travelers b' = tb_travelers brief \<and>
    tb_clarification_items b' = tb_clarification_items brief"
proof -
  have "\<exists>new. tb_constraints b' = filter (untouched patch) (tb_constraints brief) @ new"
    using replan_constraints_prefix [OF assms] .
  moreover from assms obtain window cs1 budget cs2 prefs cs3 actor where
    d: "patch_dates env brief (rpt_dates patch) (tb_constraints brief) = Inr (window, cs1)"
    and b: "patch_budget env brief (rpt_budget patch) cs1 = Inr (budget, cs2)"
    and p: "patch_preferences env (rpt_preferences patch) (tb_preferences brief) = Inr prefs"
    and b': "b' = brief\<lparr>ab_artifact_id := re_id env ''artifact'' 0, ab_version := 1, ab_created_at := re_now env,
       ab_created_by := actor,
       ab_reason := ''Structured replan patch confirmed by the user on a pinned TripSnapshot.'',
       tb_date_window := window, tb_budget := budget, tb_preferences := prefs, tb_constraints := cs3\<rparr>"
    by (rule apply_replan_patch_Inr)
  moreover have "\<forall>x \<in> set (tb_preferences brief). (\<forall>q v. rpt_preferences patch = Some q \<longrightarrow> v \<in> set (rp_remove q) \<longrightarrow>
       re_casefold env (tp_value x) \<noteq> re_casefold env v) \<longrightarrow> x \<in> set prefs"
    using patch_preferences_Inr [OF p] by auto
  ultimately show ?thesis using patch_dates_Inr(2) [OF d] patch_budget_Inr(2) [OF b] by simp
qed

definition demo_replanner :: replan_env where
  "demo_replanner = \<lparr>re_id = (\<lambda>kind n. ''id_'' @ kind @ show_nat n), re_now = 7, re_casefold = id,
     re_isoformat = show_int, re_sha256_hex = (\<lambda>_. replicate 64 CHR ''a''), re_tz_known = (\<lambda>_. True)\<rparr>"

definition demo_user :: Principal where
  "demo_user = \<lparr>pr_tenant_id = ''t1'', pr_user_id = ''alice'', pr_roles = {}, pr_authorization_epoch = 0\<rparr>"

definition exclude_patch :: "string \<Rightarrow> ReplanPatch" where
  "exclude_patch place = \<lparr>rpt_dates = None, rpt_budget = None, rpt_preferences = None,
     rpt_exclude_places = [place], rpt_retain_places = []\<rparr>"

definition demo_replanned_brief :: TripBrief where
  "demo_replanned_brief = projr (apply_replan_patch demo_replanner demo_brief (exclude_patch ''old park'') demo_user)"

lemma demo_replan_applied:
  "apply_replan_patch demo_replanner demo_brief (exclude_patch ''old park'') demo_user = Inr demo_replanned_brief"
proof -
  have "\<not> isl (apply_replan_patch demo_replanner demo_brief (exclude_patch ''old park'') demo_user)" by code_simp
  then show ?thesis unfolding demo_replanned_brief_def by (rule projr_not_isl)
qed

theorem replan_keeps_the_rest_witness: "tb_budget demo_replanned_brief = tb_budget demo_brief"
  using replan_keeps_the_rest [OF demo_replan_applied] by (simp add: exclude_patch_def)

text \<open>
  C29. An excluded place is not planned any more: when a patch excludes a place whose name is not
  already the text of another constraint, every plan the planner builds from the patched brief avoids all
  places whose name contains it.
\<close>

theorem excluded_place_not_planned:
  assumes "apply_replan_patch env brief patch p = Inr b'" and "place \<in> set (rpt_exclude_places patch)"
    and "re_casefold env place \<notin> fold_descriptions env (filter (untouched patch) (tb_constraints brief))"
    and "\<And>c. c \<in> set (tb_constraints b') \<Longrightarrow> cs_constraint_type c \<in> {Ct_date, Ct_budget} \<Longrightarrow>
           re_casefold env (cs_description c) \<noteq> re_casefold env place"
    and "pe_casefold penv = re_casefold env" and "build_candidate penv b' cs ev = Inr plan"
  shows "\<forall>b \<in> set (plan_blocks plan). \<not> contains (re_casefold env place) (re_casefold env (bk_title b))"
proof -
  from assms(1) obtain cs2 cs3 where
    c2: "\<exists>new. cs2 = filter (untouched patch) (tb_constraints brief) @ new" "set cs2 \<subseteq> set (tb_constraints b')"
    "\<forall>c \<in> set cs2. c \<in> set (tb_constraints brief) \<or> cs_constraint_type c \<in> {Ct_date, Ct_budget}"
    and ex: "places_added env Ct_avoid (rpt_exclude_places patch) cs2 cs3"
    and re: "places_added env Ct_visit (rpt_retain_places patch) cs3 (tb_constraints b')"
    by (rule replan_constraints)
  from c2(1) obtain dates1 where cs2: "cs2 = filter (untouched patch) (tb_constraints brief) @ dates1" by blast
  from ex obtain new where new: "cs3 = cs2 @ new" "\<forall>c \<in> set new. cs_hard c \<and> cs_constraint_type c = Ct_avoid"
      "re_casefold env place \<in> fold_descriptions env cs3"
    using assms(2) unfolding places_added_def by blast
  from new(3) obtain c where c: "c \<in> set cs3" "re_casefold env (cs_description c) = re_casefold env place" by auto
  have "c \<notin> set cs2"
  proof
    assume "c \<in> set cs2"
    then consider "c \<in> set (filter (untouched patch) (tb_constraints brief))" | "cs_constraint_type c \<in> {Ct_date, Ct_budget}"
      using c2(3) by (auto simp: untouched_def)
    then show False
      using assms(3) assms(4) [of c] c(2) c2(2) \<open>c \<in> set cs2\<close> by cases force+
  qed
  with c new have k: "cs_hard c" "cs_constraint_type c = Ct_avoid" by auto
  have "c \<in> set (tb_constraints b')" using re c(1) by (auto simp: places_added_def)
  with k c(2) assms(5) have "\<forall>b \<in> set (plan_blocks plan). \<not> contains (pe_casefold penv (cs_description c)) (pe_casefold penv (bk_title b))"
    using block_from_candidate [OF build_candidate_made [OF assms(6)]]
    by (fastforce simp: eligible_def block_of_def hard_terms_def names_def list_ex_iff)
  with c(2) assms(5) show ?thesis by simp
qed

definition for_brief :: "TripBrief \<Rightarrow> CandidateSet \<Rightarrow> CandidateSet" where
  "for_brief b cs = cs\<lparr>ct_trip_brief_ref := artifact_ref b AT_TripBrief\<rparr>"

definition evidence_for :: "TripBrief \<Rightarrow> EvidenceBundle" where
  "evidence_for b = demo_evidence\<lparr>eb_trip_brief_ref := artifact_ref b AT_TripBrief\<rparr>"

definition demo_new_plan :: ItineraryPlan where
  "demo_new_plan = projr (build_candidate demo_planner demo_replanned_brief (for_brief demo_replanned_brief demo_candidates) (evidence_for demo_replanned_brief))"

theorem excluded_place_not_planned_witness:
  "filter (\<lambda>b. contains ''old park'' (bk_title b)) (plan_blocks demo_new_plan) = []"
proof -
  have "\<not> isl (build_candidate demo_planner demo_replanned_brief (for_brief demo_replanned_brief demo_candidates) (evidence_for demo_replanned_brief))" by code_simp
  then have "build_candidate demo_planner demo_replanned_brief (for_brief demo_replanned_brief demo_candidates) (evidence_for demo_replanned_brief) = Inr demo_new_plan"
    unfolding demo_new_plan_def by (rule projr_not_isl)
  moreover have "''old park'' \<notin> fold_descriptions demo_replanner
      (filter (untouched (exclude_patch ''old park'')) (tb_constraints demo_brief))" by code_simp
  moreover have "map cs_constraint_type (tb_constraints demo_replanned_brief) = [Ct_visit, Ct_avoid, Ct_avoid]"
    by code_simp
  then have "cs_constraint_type ` set (tb_constraints demo_replanned_brief) = {Ct_visit, Ct_avoid}"
    unfolding set_map [symmetric] by (simp only:) simp
  then have "\<And>c. c \<in> set (tb_constraints demo_replanned_brief) \<Longrightarrow> cs_constraint_type c \<notin> {Ct_date, Ct_budget}"
    by force
  ultimately show ?thesis
    using excluded_place_not_planned [OF demo_replan_applied, of "''old park''" demo_planner "for_brief demo_replanned_brief demo_candidates" "evidence_for demo_replanned_brief" demo_new_plan]
    by (auto simp: exclude_patch_def demo_replanner_def demo_planner_def demo_planner_with_def filter_empty_conv)
qed

text \<open>
  An exclusion can be lost: a place whose name is already the text of a constraint, even of one that
  requires the place, is skipped. Excluding the must-visit temple returns the constraints unchanged and
  the planner goes on visiting it.
\<close>

theorem excluded_must_visit_still_planned:
  "map_sum id tb_constraints (apply_replan_patch demo_replanner demo_brief (exclude_patch ''temple'') demo_user) =
     Inr (tb_constraints demo_brief) \<and>
   built_titles (sbind (apply_replan_patch demo_replanner demo_brief (exclude_patch ''temple'') demo_user)
     (\<lambda>b. build_candidate demo_planner b (for_brief b demo_candidates) (evidence_for b))) =
     [[''golden temple'', ''old park''], [''golden temple'', ''old park'']]"
  by code_simp

end
