(* ===== verification/Provider_Gateway.thy ===== *)
theory Provider_Gateway
  imports Provider_Models
begin

text \<open>
  The gateway to live data providers, \<^verbatim>\<open>agent/travel_agent/providers/gateway.py\<close> and \<^verbatim>\<open>errors.py\<close>: allowlist,
  deadline, retry, rate window, circuit breaker, bulkhead, cache and idempotency. The sections under
  \<^verbatim>\<open>_state_lock\<close> contain no await, so on one event loop the lock is never contended and each section,
  with the clock reading before it, is one atomic state change. Monotonic readings and wall-clock
  readings are integers of microseconds (floating-point rounding of seconds is not modelled).
\<close>

section \<open>Errors\<close>

datatype ProviderErrorClass =
    E_Provider | E_Input | E_Unavailable | E_Timeout | E_RateLimited | E_CircuitOpen | E_Authentication
  | E_Response | E_Cancelled | E_IdempotencyConflict | E_NotAllowed

record ProviderError =
  pe_class :: ProviderErrorClass
  pe_provider_id :: "string option"

fun error_code :: "ProviderErrorClass \<Rightarrow> string" where
  "error_code E_Provider = ''PROVIDER_ERROR''"
| "error_code E_Input = ''PROVIDER_INPUT_INVALID''"
| "error_code E_Unavailable = ''PROVIDER_UNAVAILABLE''"
| "error_code E_Timeout = ''PROVIDER_TIMEOUT''"
| "error_code E_RateLimited = ''PROVIDER_RATE_LIMITED''"
| "error_code E_CircuitOpen = ''PROVIDER_CIRCUIT_OPEN''"
| "error_code E_Authentication = ''PROVIDER_CONFIGURATION_INVALID''"
| "error_code E_Response = ''PROVIDER_RESPONSE_INVALID''"
| "error_code E_Cancelled = ''PROVIDER_CANCELLED''"
| "error_code E_IdempotencyConflict = ''PROVIDER_IDEMPOTENCY_CONFLICT''"
| "error_code E_NotAllowed = ''PROVIDER_NOT_ALLOWED''"

definition retryable :: "ProviderErrorClass \<Rightarrow> bool" where
  "retryable c \<longleftrightarrow> c \<in> {E_Unavailable, E_Timeout, E_RateLimited, E_CircuitOpen, E_Response}"

definition counts_toward_circuit :: "ProviderErrorClass \<Rightarrow> bool" where
  "counts_toward_circuit c \<longleftrightarrow>
     c \<notin> {E_Input, E_RateLimited, E_CircuitOpen, E_Cancelled, E_IdempotencyConflict, E_NotAllowed}"

fun public_message :: "ProviderErrorClass \<Rightarrow> string" where
  "public_message E_Provider = ''The live data provider could not complete the request.''"
| "public_message E_Input = ''The live data request is invalid.''"
| "public_message E_Unavailable = ''The requested live data capability is unavailable.''"
| "public_message E_Timeout = ''The live data provider did not respond before the deadline.''"
| "public_message E_RateLimited = ''The live data request rate limit was reached.''"
| "public_message E_CircuitOpen = ''The live data provider is temporarily isolated.''"
| "public_message E_Authentication = ''The live data provider is not correctly configured.''"
| "public_message E_Response = ''The live data provider returned an invalid response.''"
| "public_message E_Cancelled = ''The live data request was cancelled.''"
| "public_message E_IdempotencyConflict = ''The operation key was reused with a different request.''"
| "public_message E_NotAllowed = ''No approved provider is available for this capability.''"

definition as_public_detail :: "ProviderError \<Rightarrow> jobj" where
  "as_public_detail e =
     [(''code'', JStr (error_code (pe_class e))), (''category'', JStr ''provider''),
      (''message'', JStr (public_message (pe_class e))), (''retryable'', JBool (retryable (pe_class e)))]"

text \<open>What a call can raise: a provider error, \<^verbatim>\<open>asyncio.CancelledError\<close>, or any other exception of an adapter.\<close>

datatype gw_exc = GwError ProviderError | GwTaskCancelled | GwOther

definition perr :: "ProviderErrorClass \<Rightarrow> string option \<Rightarrow> gw_exc" where
  "perr c pid = GwError \<lparr>pe_class = c, pe_provider_id = pid\<rparr>"

section \<open>Policy and state\<close>

record GatewayPolicy =
  gp_default_deadline :: int
  gp_maximum_deadline :: int
  gp_max_retries :: nat
  gp_backoff :: int
  gp_jitter :: int
  gp_rate_limit_requests :: nat
  gp_rate_limit_window :: int
  gp_circuit_failure_threshold :: nat
  gp_circuit_open :: int
  gp_max_concurrency :: nat
  gp_max_cache_entries :: nat
  gp_max_idempotency_entries :: nat
  gp_idempotency_ttl :: int

definition SECOND :: int where "SECOND = 1000000"

definition default_gateway_policy :: GatewayPolicy where
  "default_gateway_policy = \<lparr>gp_default_deadline = 4 * SECOND, gp_maximum_deadline = 15 * SECOND,
     gp_max_retries = 1, gp_backoff = 50000, gp_jitter = 50000, gp_rate_limit_requests = 60,
     gp_rate_limit_window = 60 * SECOND, gp_circuit_failure_threshold = 3, gp_circuit_open = 30 * SECOND,
     gp_max_concurrency = 8, gp_max_cache_entries = 2048, gp_max_idempotency_entries = 10000,
     gp_idempotency_ttl = 3600 * SECOND\<rparr>"

definition GatewayPolicy_ok :: "GatewayPolicy \<Rightarrow> bool" where
  "GatewayPolicy_ok p \<longleftrightarrow>
     100000 \<le> gp_default_deadline p \<and> gp_default_deadline p \<le> 30 * SECOND \<and>
     gp_default_deadline p \<le> gp_maximum_deadline p \<and> gp_maximum_deadline p \<le> 30 * SECOND \<and>
     gp_max_retries p \<le> 2 \<and>
     0 \<le> gp_backoff p \<and> gp_backoff p \<le> SECOND \<and> 0 \<le> gp_jitter p \<and> gp_jitter p \<le> SECOND \<and>
     1 \<le> gp_rate_limit_requests p \<and> gp_rate_limit_requests p \<le> 100000 \<and>
     100000 \<le> gp_rate_limit_window p \<and> gp_rate_limit_window p \<le> 3600 * SECOND \<and>
     1 \<le> gp_circuit_failure_threshold p \<and> gp_circuit_failure_threshold p \<le> 100 \<and>
     100000 \<le> gp_circuit_open p \<and> gp_circuit_open p \<le> 3600 * SECOND \<and>
     1 \<le> gp_max_concurrency p \<and> gp_max_concurrency p \<le> 1000 \<and>
     1 \<le> gp_max_cache_entries p \<and> gp_max_cache_entries p \<le> 100000 \<and>
     1 \<le> gp_max_idempotency_entries p \<and> gp_max_idempotency_entries p \<le> 1000000"

record Circuit =
  cb_failures :: nat
  cb_opened_at :: "instant option"
  cb_half_open_inflight :: bool

record CacheEntry =
  ce_result :: ProviderResult
  ce_fresh_expires_at :: instant
  ce_stale_expires_at :: instant
  ce_inserted_at :: instant

record IdempotencyEntry =
  ie_request_hash :: string
  ie_result :: ProviderResult
  ie_expires_at :: instant

type_synonym op_key = "string \<times> string \<times> string"

text \<open>
  The mutable state. A lock object is a number: \<open>gw_locks\<close> maps operation keys to lock objects, \<open>gw_locked\<close> holds
  those that are locked, \<open>gw_next_lock\<close> is the next new object. \<open>gw_bulkheads\<close> has the free permits per provider.
\<close>

record gateway =
  gw_circuits :: "(string, Circuit) dict"
  gw_bulkheads :: "(string, nat) dict"
  gw_rate_windows :: "(string \<times> string, instant list) dict"
  gw_cache :: "(string, CacheEntry) dict"
  gw_idempotency :: "(op_key, IdempotencyEntry) dict"
  gw_locks :: "(op_key, nat) dict"
  gw_locked :: "nat list"
  gw_next_lock :: nat

type_synonym 'a gw_op = "(gateway, gw_exc, 'a) eff"

text \<open>A registered provider: its descriptor and the capabilities whose port method the object has.\<close>

record Provider =
  prv_descriptor :: ProviderDescriptor
  prv_methods :: "ProviderCapability set"

record gateway_config =
  gc_policy :: GatewayPolicy
  gc_allowlist :: "string set"
  gc_cache_ttl :: "ProviderCapability \<Rightarrow> int"
  gc_stale_if_error :: "ProviderCapability \<Rightarrow> int"
  gc_providers :: "Provider list"

abbreviation prv_id :: "Provider \<Rightarrow> string" where
  "prv_id p \<equiv> ds_provider_id (prv_descriptor p)"

fun DEFAULT_CACHE_TTLS :: "ProviderCapability \<Rightarrow> int" where
  "DEFAULT_CACHE_TTLS PLACE_SEARCH = 900 * SECOND"
| "DEFAULT_CACHE_TTLS GEOCODE = 86400 * SECOND"
| "DEFAULT_CACHE_TTLS ROUTE_MATRIX = 180 * SECOND"
| "DEFAULT_CACHE_TTLS OPENING_HOURS = 300 * SECOND"
| "DEFAULT_CACHE_TTLS WEATHER = 300 * SECOND"

fun DEFAULT_STALE_IF_ERROR :: "ProviderCapability \<Rightarrow> int" where
  "DEFAULT_STALE_IF_ERROR PLACE_SEARCH = 3600 * SECOND"
| "DEFAULT_STALE_IF_ERROR GEOCODE = 604800 * SECOND"
| "DEFAULT_STALE_IF_ERROR ROUTE_MATRIX = 0"
| "DEFAULT_STALE_IF_ERROR OPENING_HOURS = 300 * SECOND"
| "DEFAULT_STALE_IF_ERROR WEATHER = 600 * SECOND"

definition all_capabilities :: "ProviderCapability list" where
  "all_capabilities = [PLACE_SEARCH, GEOCODE, ROUTE_MATRIX, OPENING_HOURS, WEATHER]"

definition with_overrides :: "(ProviderCapability \<Rightarrow> int) \<Rightarrow> (ProviderCapability, int) dict \<Rightarrow> ProviderCapability \<Rightarrow> int" where
  "with_overrides defaults d c = (case dget d c of None \<Rightarrow> defaults c | Some v \<Rightarrow> v)"

definition new_gateway ::
    "Provider list \<Rightarrow> string set \<Rightarrow> GatewayPolicy \<Rightarrow> (ProviderCapability, int) dict \<Rightarrow> (ProviderCapability, int) dict \<Rightarrow>
     contract_error + gateway_config \<times> gateway" where
  "new_gateway providers allowlist policy cache_ttls stale_if_error =
     (let ttl = with_overrides DEFAULT_CACHE_TTLS cache_ttls;
          stale = with_overrides DEFAULT_STALE_IF_ERROR stale_if_error
      in if list_ex (\<lambda>c. ttl c < 0 \<or> ttl c > 604800 * SECOND) all_capabilities
         then Inl (ValueErr ''cache TTL must be between 0 and seven days'')
         else if list_ex (\<lambda>c. stale c < 0 \<or> stale c > 604800 * SECOND) all_capabilities
         then Inl (ValueErr ''stale-if-error must be between 0 and seven days'')
         else if \<not> distinct (map prv_id providers) then Inl (ValueErr ''duplicate provider id'')
         else Inr
           (\<lparr>gc_policy = policy, gc_allowlist = allowlist, gc_cache_ttl = ttl, gc_stale_if_error = stale,
             gc_providers = providers\<rparr>,
            \<lparr>gw_circuits = map (\<lambda>p. (prv_id p, \<lparr>cb_failures = 0, cb_opened_at = None, cb_half_open_inflight = False\<rparr>)) providers,
             gw_bulkheads = map (\<lambda>p. (prv_id p, gp_max_concurrency policy)) providers,
             gw_rate_windows = [], gw_cache = [], gw_idempotency = [], gw_locks = [], gw_locked = [],
             gw_next_lock = 0\<rparr>))"

section \<open>Registered metadata\<close>

definition descriptors :: "gateway_config \<Rightarrow> ProviderDescriptor list" where
  "descriptors cfg = map prv_descriptor (sort_key prv_id (gc_providers cfg))"

definition circuit_state :: "GatewayPolicy \<Rightarrow> Circuit \<Rightarrow> instant \<Rightarrow> CircuitState" where
  "circuit_state policy c now =
     (case cb_opened_at c of
        None \<Rightarrow> Circuit_closed
      | Some t \<Rightarrow> if now - t \<ge> gp_circuit_open policy then Circuit_half_open else Circuit_open)"

definition circuit_of :: "gateway \<Rightarrow> string \<Rightarrow> Circuit" where
  "circuit_of g pid = the (dget (gw_circuits g) pid)"

definition health :: "gateway_config \<Rightarrow> instant \<Rightarrow> gateway \<Rightarrow> ProviderHealth list" where
  "health cfg now g =
     map (\<lambda>p. \<lparr>he_provider_id = prv_id p, he_configured = ds_configured (prv_descriptor p),
                he_allowed = prv_id p \<in> gc_allowlist cfg,
                he_circuit_state = circuit_state (gc_policy cfg) (circuit_of g (prv_id p)) now,
                he_capabilities = ds_capabilities (prv_descriptor p)\<rparr>)
       (sort_key prv_id (gc_providers cfg))"

section \<open>Keys and costs\<close>

definition cache_key :: "ProviderCapability \<Rightarrow> string \<Rightarrow> ProviderCallContext \<Rightarrow> string option" where
  "cache_key cap request_hash ctx =
     (case cx_cache_scope ctx of
        Scope_DISABLED \<Rightarrow> None
      | Scope_PUBLIC \<Rightarrow> Some (''public'' @ '':'' @ capability_value cap @ '':'' @ request_hash)
      | Scope_TENANT \<Rightarrow> Some (''tenant:'' @ cx_tenant_id ctx @ '':'' @ capability_value cap @ '':'' @ request_hash))"

definition rate_cost :: "ProviderRequest \<Rightarrow> nat" where
  "rate_cost r =
     (case r of
        Q_route_matrix q \<Rightarrow> length (rq_destinations q)
      | Q_opening_hours q \<Rightarrow> (length (oh_provider_place_ids q) + 9) div 10
      | _ \<Rightarrow> 1)"

definition with_current_freshness :: "instant \<Rightarrow> ProviderResult \<Rightarrow> ProviderResult" where
  "with_current_freshness wall r =
     (if pv_freshness_status (provenance r) = Pf_FRESH \<and> pv_valid_until (provenance r) \<le> wall
      then with_provenance ((provenance r)\<lparr>pv_freshness_status := Pf_STALE\<rparr>) r else r)"

definition validate_result :: "ProviderResult option \<Rightarrow> ProviderDescriptor \<Rightarrow> ProviderCapability \<Rightarrow> gw_exc + ProviderResult" where
  "validate_result value d cap =
     (case value of
        None \<Rightarrow> Inl (perr E_Response (Some (ds_provider_id d)))
      | Some r \<Rightarrow>
          if result_capability r \<noteq> cap \<or> \<not> ProviderResult_ok r \<or>
             pv_provider_id (provenance r) \<noteq> ds_provider_id d \<or>
             pv_provider_version (provenance r) \<noteq> ds_api_version d \<or> pv_capability (provenance r) \<noteq> cap
          then Inl (perr E_Response (Some (ds_provider_id d)))
          else Inr r)"

section \<open>Sections under the state lock\<close>

fun first_min :: "('v \<Rightarrow> int) \<Rightarrow> ('k, 'v) dict \<Rightarrow> ('k \<times> int) option" where
  "first_min f [] = None"
| "first_min f ((k, v) # d) =
     (case first_min f d of
        None \<Rightarrow> Some (k, f v)
      | Some (k', m) \<Rightarrow> if m < f v then Some (k', m) else Some (k, f v))"

text \<open>\<^verbatim>\<open>d.pop(min(d, key=f), None)\<close> when the dictionary is full.\<close>

definition make_room :: "nat \<Rightarrow> ('v \<Rightarrow> int) \<Rightarrow> ('k, 'v) dict \<Rightarrow> ('k, 'v) dict" where
  "make_room limit f d =
     (if length d \<ge> limit then (case first_min f d of None \<Rightarrow> d | Some (k, _) \<Rightarrow> dpop k d) else d)"

definition expire_window :: "int \<Rightarrow> instant list \<Rightarrow> instant list" where
  "expire_window cutoff w = dropWhile (\<lambda>t. t \<le> cutoff) w"

definition prune_state :: "gateway_config \<Rightarrow> instant \<Rightarrow> gateway \<Rightarrow> gateway" where
  "prune_state cfg now g =
     (let cache = filter (\<lambda>(_, e). ce_stale_expires_at e > now) (gw_cache g);
          idem = filter (\<lambda>(_, e). ie_expires_at e > now) (gw_idempotency g);
          cutoff = now - gp_rate_limit_window (gc_policy cfg);
          windows = filter (\<lambda>(_, w). w \<noteq> []) (dmap (expire_window cutoff) (gw_rate_windows g));
          locks = filter (\<lambda>(k, l). k \<in> fst ` set idem \<or> l \<in> set (gw_locked g)) (gw_locks g)
      in g\<lparr>gw_cache := cache, gw_idempotency := idem, gw_rate_windows := windows, gw_locks := locks\<rparr>)"

definition store_idempotency ::
    "gateway_config \<Rightarrow> op_key \<Rightarrow> string \<Rightarrow> ProviderResult \<Rightarrow> instant \<Rightarrow> gateway \<Rightarrow> gateway" where
  "store_idempotency cfg key request_hash result now g =
     g\<lparr>gw_idempotency :=
        dset key \<lparr>ie_request_hash = request_hash, ie_result = result,
                  ie_expires_at = now + gp_idempotency_ttl (gc_policy cfg)\<rparr>
          (make_room (gp_max_idempotency_entries (gc_policy cfg)) ie_expires_at (gw_idempotency g))\<rparr>"

definition store_if_keyed ::
    "gateway_config \<Rightarrow> op_key option \<Rightarrow> string \<Rightarrow> ProviderResult \<Rightarrow> instant \<Rightarrow> gateway \<Rightarrow> gateway" where
  "store_if_keyed cfg key request_hash result now g =
     (case key of None \<Rightarrow> g | Some k \<Rightarrow> store_idempotency cfg k request_hash result now g)"

text \<open>The first section of \<open>_execute_locked\<close>: prune, replay an idempotent result, or hit the cache.\<close>

definition lookup ::
    "gateway_config \<Rightarrow> ProviderCapability \<Rightarrow> string \<Rightarrow> ProviderCallContext \<Rightarrow> op_key option \<Rightarrow>
     instant \<Rightarrow> instant \<Rightarrow> ProviderResult option gw_op" where
  "lookup cfg cap request_hash ctx key now wall g0 =
     (let g = prune_state cfg now g0 in
      case (case key of None \<Rightarrow> None | Some k \<Rightarrow> dget (gw_idempotency g) k) of
        Some prior \<Rightarrow>
          if ie_request_hash prior \<noteq> request_hash then (Inl (perr E_IdempotencyConflict None), g)
          else (Inr (Some (with_current_freshness wall (ie_result prior))), g)
      | None \<Rightarrow>
          (case (case cache_key cap request_hash ctx of None \<Rightarrow> None | Some c \<Rightarrow> dget (gw_cache g) c) of
             None \<Rightarrow> (Inr None, g)
           | Some cached \<Rightarrow>
               if ce_fresh_expires_at cached > now
               then (Inr (Some (ce_result cached)), store_if_keyed cfg key request_hash (ce_result cached) now g)
               else (Inr None, g)))"

definition remember_success ::
    "gateway_config \<Rightarrow> ProviderCapability \<Rightarrow> string \<Rightarrow> ProviderCallContext \<Rightarrow> op_key option \<Rightarrow>
     ProviderResult \<Rightarrow> instant \<Rightarrow> instant \<Rightarrow> gateway \<Rightarrow> gateway" where
  "remember_success cfg cap request_hash ctx key result now wall g =
     (let wall_remaining = max 0 (pv_valid_until (provenance result) - wall);
          effective_ttl = min (gc_cache_ttl cfg cap) wall_remaining;
          g1 = (case cache_key cap request_hash ctx of
                  None \<Rightarrow> g
                | Some c \<Rightarrow>
                    if effective_ttl > 0
                    then g\<lparr>gw_cache :=
                           dset c \<lparr>ce_result = result, ce_fresh_expires_at = now + effective_ttl,
                                   ce_stale_expires_at = now + effective_ttl + gc_stale_if_error cfg cap,
                                   ce_inserted_at = now\<rparr>
                             (make_room (gp_max_cache_entries (gc_policy cfg)) ce_inserted_at (gw_cache g))\<rparr>
                    else g)
      in store_if_keyed cfg key request_hash result now g1)"

definition stale_fallback ::
    "gateway_config \<Rightarrow> ProviderCapability \<Rightarrow> string \<Rightarrow> ProviderCallContext \<Rightarrow> op_key option \<Rightarrow>
     instant \<Rightarrow> gateway \<Rightarrow> ProviderResult option \<times> gateway" where
  "stale_fallback cfg cap request_hash ctx key now g =
     (case cache_key cap request_hash ctx of
        None \<Rightarrow> (None, g)
      | Some c \<Rightarrow>
          if gc_stale_if_error cfg cap \<le> 0 then (None, g)
          else (case dget (gw_cache g) c of
                  None \<Rightarrow> (None, g)
                | Some cached \<Rightarrow>
                    if ce_fresh_expires_at cached > now \<or> ce_stale_expires_at cached \<le> now then (None, g)
                    else let r = with_provenance ((provenance (ce_result cached))\<lparr>pv_freshness_status := Pf_STALE\<rparr>)
                                   (ce_result cached)
                         in (Some r, store_if_keyed cfg key request_hash r now g)))"

definition set_circuit :: "string \<Rightarrow> Circuit \<Rightarrow> gateway \<Rightarrow> gateway" where
  "set_circuit pid c g = g\<lparr>gw_circuits := dset pid c (gw_circuits g)\<rparr>"

definition before_call :: "gateway_config \<Rightarrow> string \<Rightarrow> ProviderCallContext \<Rightarrow> nat \<Rightarrow> instant \<Rightarrow> unit gw_op" where
  "before_call cfg pid ctx cost now g =
     (let policy = gc_policy cfg; c = circuit_of g pid in
      if (case cb_opened_at c of None \<Rightarrow> False
          | Some t \<Rightarrow> now - t < gp_circuit_open policy \<or> cb_half_open_inflight c)
      then (Inl (perr E_CircuitOpen (Some pid)), g)
      else
        let probing = (cb_opened_at c \<noteq> None);
            g1 = (if probing then set_circuit pid (c\<lparr>cb_half_open_inflight := True\<rparr>) g else g);
            rate_key = (pid, cx_tenant_id ctx);
            cutoff = now - gp_rate_limit_window policy;
            window = expire_window cutoff (case dget (gw_rate_windows g1) rate_key of None \<Rightarrow> [] | Some w \<Rightarrow> w);
            g2 = g1\<lparr>gw_rate_windows := dset rate_key window (gw_rate_windows g1)\<rparr>
        in if length window + cost > gp_rate_limit_requests policy
           then (Inl (perr E_RateLimited (Some pid)),
                 if probing then set_circuit pid (c\<lparr>cb_half_open_inflight := False\<rparr>) g2 else g2)
           else (Inr (), g2\<lparr>gw_rate_windows := dset rate_key (window @ replicate cost now) (gw_rate_windows g2)\<rparr>))"

definition record_success :: "string \<Rightarrow> gateway \<Rightarrow> gateway" where
  "record_success pid g =
     set_circuit pid \<lparr>cb_failures = 0, cb_opened_at = None, cb_half_open_inflight = False\<rparr> g"

definition record_failure :: "gateway_config \<Rightarrow> string \<Rightarrow> ProviderErrorClass \<Rightarrow> instant \<Rightarrow> gateway \<Rightarrow> gateway" where
  "record_failure cfg pid err now g =
     (let c = circuit_of g pid;
          c1 = (if cb_opened_at c \<noteq> None then c\<lparr>cb_half_open_inflight := False\<rparr> else c)
      in if \<not> counts_toward_circuit err then set_circuit pid c1 g
         else
           let c2 = c1\<lparr>cb_failures := cb_failures c1 + 1\<rparr>
           in if cb_failures c2 \<ge> gp_circuit_failure_threshold (gc_policy cfg)
              then set_circuit pid (c2\<lparr>cb_opened_at := Some now, cb_half_open_inflight := False\<rparr>) g
              else set_circuit pid c2 g)"

definition release_half_open :: "string \<Rightarrow> gateway \<Rightarrow> gateway" where
  "release_half_open pid g = set_circuit pid ((circuit_of g pid)\<lparr>cb_half_open_inflight := False\<rparr>) g"

text \<open>\<^verbatim>\<open>_idempotency_locks.setdefault(key, asyncio.Lock())\<close>, acquiring and releasing.\<close>

definition reserve_lock :: "op_key \<Rightarrow> gateway \<Rightarrow> nat \<times> gateway" where
  "reserve_lock key g =
     (case dget (gw_locks g) key of
        Some l \<Rightarrow> (l, g)
      | None \<Rightarrow> (gw_next_lock g, g\<lparr>gw_locks := dset key (gw_next_lock g) (gw_locks g),
                                   gw_next_lock := gw_next_lock g + 1\<rparr>))"

definition lock_object :: "nat \<Rightarrow> gateway \<Rightarrow> gateway" where
  "lock_object l g = g\<lparr>gw_locked := l # gw_locked g\<rparr>"

definition unlock_object :: "nat \<Rightarrow> gateway \<Rightarrow> gateway" where
  "unlock_object l g = g\<lparr>gw_locked := remove1 l (gw_locked g)\<rparr>"

definition permits :: "gateway \<Rightarrow> string \<Rightarrow> nat" where
  "permits g pid = (case dget (gw_bulkheads g) pid of None \<Rightarrow> 0 | Some n \<Rightarrow> n)"

definition set_permits :: "string \<Rightarrow> nat \<Rightarrow> gateway \<Rightarrow> gateway" where
  "set_permits pid n g = g\<lparr>gw_bulkheads := dset pid n (gw_bulkheads g)\<rparr>"

section \<open>Calls\<close>

text \<open>
  A call is a coroutine that suspends while it waits for an idempotency lock, a bulkhead permit, the
  provider, or a backoff delay. The world holds the gateway, what the other calls do at each
  suspension (\<open>wg_env\<close>), the number of draws so far, and, as a ghost, the provider methods started with the
  clock reading before the start. What the call meets is given by draws: the monotonic and the wall clock,
  whether the cancellation event is set, how a wait ends (\<^term>\<open>None\<close>: it is granted), what an adapter does (a value that
  is no pydantic model is \<^term>\<open>Inr None\<close>) and the jitter; SHA-256 of the canonical JSON of a request is \<open>gs_hash\<close>.
\<close>

record gw_sys =
  gs_mono :: "nat \<Rightarrow> instant"
  gs_wall :: "nat \<Rightarrow> instant"
  gs_cancelled :: "nat \<Rightarrow> bool"
  gs_wait :: "nat \<Rightarrow> gw_exc option"
  gs_invoke :: "nat \<Rightarrow> string \<Rightarrow> ProviderRequest \<Rightarrow> ProviderCallContext \<Rightarrow> gw_exc + ProviderResult option"
  gs_jitter :: "nat \<Rightarrow> int"
  gs_hash :: "ProviderCapability \<Rightarrow> ProviderRequest \<Rightarrow> string"

record gw_world =
  wg_gateway :: gateway
  wg_env :: "(gateway \<Rightarrow> gateway) list"
  wg_tick :: nat
  wg_calls :: "(string \<times> instant) list"

type_synonym 'a gw_co = "(gw_world, gw_exc, 'a) eff"

definition draw :: "(nat \<Rightarrow> 'a) \<Rightarrow> 'a gw_co" where
  "draw f w = (Inr (f (wg_tick w)), w\<lparr>wg_tick := wg_tick w + 1\<rparr>)"

text \<open>One atomic section, with the draw of its clock readings.\<close>

definition atomic :: "(nat \<Rightarrow> 'a gw_op) \<Rightarrow> 'a gw_co" where
  "atomic op w =
     (case op (wg_tick w) (wg_gateway w) of
        (r, g) \<Rightarrow> (r, w\<lparr>wg_gateway := g, wg_tick := wg_tick w + 1\<rparr>))"

definition change :: "(gateway \<Rightarrow> gateway) \<Rightarrow> unit gw_op" where
  "change f g = (Inr (), f g)"

definition suspend :: "unit gw_co" where
  "suspend w =
     (case wg_env w of
        [] \<Rightarrow> (Inr (), w)
      | f # fs \<Rightarrow> (Inr (), w\<lparr>wg_gateway := f (wg_gateway w), wg_env := fs\<rparr>))"

definition started :: "string \<Rightarrow> instant \<Rightarrow> unit gw_co" where
  "started pid now w = (Inr (), w\<lparr>wg_calls := wg_calls w @ [(pid, now)]\<rparr>)"

text \<open>\<^verbatim>\<open>try: m finally: f\<close> for a cleanup that does not raise.\<close>

definition ensuring :: "'a gw_co \<Rightarrow> (gateway \<Rightarrow> gateway) \<Rightarrow> 'a gw_co" where
  "ensuring m f w = (case m w of (r, w') \<Rightarrow> (r, w'\<lparr>wg_gateway := f (wg_gateway w')\<rparr>))"

text \<open>\<open>_await_with_cancel\<close>: nothing is awaited after the deadline.\<close>

definition await_with_cancel :: "gw_sys \<Rightarrow> instant \<Rightarrow> (instant \<Rightarrow> unit gw_co) \<Rightarrow> 'a gw_co \<Rightarrow> 'a gw_co" where
  "await_with_cancel sy deadline begin_it outcome =
     ebind (draw (gs_mono sy)) (\<lambda>now.
       if deadline - now \<le> 0 then eraise (perr E_Timeout None)
       else ebind (begin_it now) (\<lambda>_. ebind suspend (\<lambda>_. outcome)))"

abbreviation quietly :: "instant \<Rightarrow> unit gw_co" where
  "quietly _ \<equiv> eret ()"

text \<open>A lock or a permit is granted only when it is free; the wait for a taken one ends at the deadline.\<close>

definition acquire :: "gw_sys \<Rightarrow> instant \<Rightarrow> (gateway \<Rightarrow> bool) \<Rightarrow> (gateway \<Rightarrow> gateway) \<Rightarrow> unit gw_co" where
  "acquire sy deadline free take_it =
     await_with_cancel sy deadline quietly
       (atomic (\<lambda>n g. case gs_wait sy n of
          Some e \<Rightarrow> (Inl e, g)
        | None \<Rightarrow> if free g then (Inr (), take_it g) else (Inl (perr E_Timeout None), g)))"

definition check_cancelled :: "gw_sys \<Rightarrow> unit gw_co" where
  "check_cancelled sy =
     ebind (draw (gs_cancelled sy)) (\<lambda>b. if b then eraise (perr E_Cancelled None) else eret ())"

definition delay :: "gw_sys \<Rightarrow> int \<Rightarrow> instant \<Rightarrow> unit gw_co" where
  "delay sy d deadline =
     (if d \<le> 0 then eret ()
      else await_with_cancel sy deadline quietly
        (atomic (\<lambda>n g. ((case gs_wait sy n of Some e \<Rightarrow> Inl e | None \<Rightarrow> Inr ()), g))))"

definition invoke ::
    "gw_sys \<Rightarrow> string \<Rightarrow> ProviderRequest \<Rightarrow> instant \<Rightarrow> ProviderCallContext \<Rightarrow> ProviderResult option gw_co" where
  "invoke sy pid request deadline ctx =
     ebind (acquire sy deadline (\<lambda>g. permits g pid > 0) (\<lambda>g. set_permits pid (permits g pid - 1) g)) (\<lambda>_.
       ensuring
         (await_with_cancel sy deadline (started pid)
            (atomic (\<lambda>n g. (gs_invoke sy n pid request ctx, g))))
         (\<lambda>g. set_permits pid (permits g pid + 1) g))"

text \<open>The body of the \<^verbatim>\<open>try\<close> of one attempt.\<close>

definition attempt_body ::
    "gw_sys \<Rightarrow> gateway_config \<Rightarrow> ProviderRequest \<Rightarrow> ProviderCallContext \<Rightarrow> op_key option \<Rightarrow> instant \<Rightarrow>
     Provider \<Rightarrow> ProviderResult gw_co" where
  "attempt_body sy cfg request ctx key deadline p =
     (let cap = request_capability request; h = gs_hash sy cap request in
      ebind (atomic (\<lambda>n. before_call cfg (prv_id p) ctx (rate_cost request) (gs_mono sy n))) (\<lambda>_.
      if cap \<notin> prv_methods p then eraise (perr E_Unavailable (Some (prv_id p)))
      else
        ebind (invoke sy (prv_id p) request deadline ctx) (\<lambda>value.
        case validate_result value (prv_descriptor p) cap of
          Inl e \<Rightarrow> eraise e
        | Inr result \<Rightarrow>
            ebind (atomic (\<lambda>_. change (record_success (prv_id p)))) (\<lambda>_.
            ebind (atomic (\<lambda>n. change (remember_success cfg cap h ctx key result (gs_mono sy n) (gs_wall sy n)))) (\<lambda>_.
            eret result)))))"

text \<open>
  One attempt with its handlers: a result, or the provider error that is recorded and may be retried.
\<close>

definition attempt ::
    "gw_sys \<Rightarrow> gateway_config \<Rightarrow> ProviderRequest \<Rightarrow> ProviderCallContext \<Rightarrow> op_key option \<Rightarrow> instant \<Rightarrow>
     Provider \<Rightarrow> (ProviderError + ProviderResult) gw_co" where
  "attempt sy cfg request ctx key deadline p =
     (let pid = prv_id p;
          released = (\<lambda>e. ebind (atomic (\<lambda>_. change (release_half_open pid))) (\<lambda>_. eraise e));
          failed = (\<lambda>e. ebind (atomic (\<lambda>n. change (record_failure cfg pid (pe_class e) (gs_mono sy n)))) (\<lambda>_. eret (Inl e)))
      in
      ebind (check_cancelled sy) (\<lambda>_.
      ebind (draw (gs_mono sy)) (\<lambda>now.
      if now \<ge> deadline then eraise (perr E_Timeout (Some pid))
      else
        ecatch (ebind (attempt_body sy cfg request ctx key deadline p) (\<lambda>r. eret (Inr r)))
          (\<lambda>e. case e of
             GwTaskCancelled \<Rightarrow> released e
           | GwError pe \<Rightarrow>
               if pe_class pe \<in> {E_Cancelled, E_Input} then released e else failed pe
           | GwOther \<Rightarrow> failed \<lparr>pe_class = E_Unavailable, pe_provider_id = Some pid\<rparr>))))"

text \<open>The attempts of one provider: attempt \<open>a\<close> with \<open>n\<close> retries left.\<close>

fun attempts ::
    "gw_sys \<Rightarrow> gateway_config \<Rightarrow> ProviderRequest \<Rightarrow> ProviderCallContext \<Rightarrow> op_key option \<Rightarrow> instant \<Rightarrow>
     Provider \<Rightarrow> nat \<Rightarrow> nat \<Rightarrow> (ProviderError + ProviderResult) gw_co" where
  "attempts sy cfg request ctx key deadline p a 0 = attempt sy cfg request ctx key deadline p"
| "attempts sy cfg request ctx key deadline p a (Suc n) =
     ebind (attempt sy cfg request ctx key deadline p) (\<lambda>x.
       case x of
         Inr r \<Rightarrow> eret (Inr r)
       | Inl e \<Rightarrow>
           if retryable (pe_class e)
           then ebind (draw (gs_jitter sy)) (\<lambda>jitter.
                ebind (delay sy (gp_backoff (gc_policy cfg) * 2 ^ a + jitter) deadline) (\<lambda>_.
                attempts sy cfg request ctx key deadline p (a + 1) n))
           else eret (Inl e))"

fun try_providers ::
    "gw_sys \<Rightarrow> gateway_config \<Rightarrow> ProviderRequest \<Rightarrow> ProviderCallContext \<Rightarrow> op_key option \<Rightarrow> instant \<Rightarrow>
     Provider list \<Rightarrow> ProviderError option \<Rightarrow> (ProviderError option + ProviderResult) gw_co" where
  "try_providers sy cfg request ctx key deadline [] last_error = eret (Inl last_error)"
| "try_providers sy cfg request ctx key deadline (p # ps) last_error =
     (if \<not> ds_configured (prv_descriptor p)
      then try_providers sy cfg request ctx key deadline ps
             (Some \<lparr>pe_class = E_Unavailable, pe_provider_id = Some (prv_id p)\<rparr>)
      else ebind (attempts sy cfg request ctx key deadline p 0 (gp_max_retries (gc_policy cfg))) (\<lambda>x.
             case x of
               Inr r \<Rightarrow> eret (Inr r)
             | Inl e \<Rightarrow> try_providers sy cfg request ctx key deadline ps (Some e)))"

definition allowed_providers :: "gateway_config \<Rightarrow> ProviderCapability \<Rightarrow> Provider list" where
  "allowed_providers cfg cap =
     filter (\<lambda>p. cap \<in> ds_capabilities (prv_descriptor p) \<and> prv_id p \<in> gc_allowlist cfg) (gc_providers cfg)"

definition stale_or_raise ::
    "gw_sys \<Rightarrow> gateway_config \<Rightarrow> ProviderRequest \<Rightarrow> ProviderCallContext \<Rightarrow> op_key option \<Rightarrow>
     ProviderError option \<Rightarrow> ProviderResult gw_co" where
  "stale_or_raise sy cfg request ctx key last_error =
     (let cap = request_capability request; h = gs_hash sy cap request;
          failing = (case last_error of None \<Rightarrow> perr E_Unavailable None | Some e \<Rightarrow> GwError e)
      in if (case last_error of None \<Rightarrow> False | Some e \<Rightarrow> retryable (pe_class e))
         then ebind (atomic (\<lambda>n g. case stale_fallback cfg cap h ctx key (gs_mono sy n) g of (r, g') \<Rightarrow> (Inr r, g'))) (\<lambda>stale.
                case stale of None \<Rightarrow> eraise failing | Some r \<Rightarrow> eret r)
         else eraise failing)"

definition execute_locked ::
    "gw_sys \<Rightarrow> gateway_config \<Rightarrow> ProviderRequest \<Rightarrow> ProviderCallContext \<Rightarrow> op_key option \<Rightarrow> instant \<Rightarrow>
     ProviderResult gw_co" where
  "execute_locked sy cfg request ctx key deadline =
     (let cap = request_capability request; h = gs_hash sy cap request in
      ebind (check_cancelled sy) (\<lambda>_.
      ebind (atomic (\<lambda>n. lookup cfg cap h ctx key (gs_mono sy n) (gs_wall sy n))) (\<lambda>known.
      case known of
        Some r \<Rightarrow> eret r
      | None \<Rightarrow>
          if allowed_providers cfg cap = [] then eraise (perr E_NotAllowed None)
          else
            ebind (try_providers sy cfg request ctx key deadline (allowed_providers cfg cap) None) (\<lambda>x.
            case x of
              Inr r \<Rightarrow> eret r
            | Inl last_error \<Rightarrow> stale_or_raise sy cfg request ctx key last_error))))"

definition operation_key :: "ProviderCapability \<Rightarrow> ProviderCallContext \<Rightarrow> op_key option" where
  "operation_key cap ctx =
     (case cx_idempotency_key ctx of
        None \<Rightarrow> None
      | Some k \<Rightarrow> if k = [] then None else Some (cx_tenant_id ctx, capability_value cap, k))"

definition call_deadline :: "GatewayPolicy \<Rightarrow> ProviderCallContext \<Rightarrow> instant \<Rightarrow> instant" where
  "call_deadline policy ctx now =
     min (case cx_deadline_monotonic ctx of None \<Rightarrow> now + gp_default_deadline policy | Some d \<Rightarrow> d)
       (now + gp_maximum_deadline policy)"

text \<open>\<open>_execute\<close>; \<open>search_places\<close>, \<open>geocode\<close>, \<open>route_matrix\<close>, \<open>opening_hours\<close> and \<open>weather\<close> are its instances by request type.\<close>

definition execute :: "gw_sys \<Rightarrow> gateway_config \<Rightarrow> ProviderRequest \<Rightarrow> ProviderCallContext \<Rightarrow> ProviderResult gw_co" where
  "execute sy cfg request ctx =
     ebind (draw (gs_mono sy)) (\<lambda>now.
       let deadline = call_deadline (gc_policy cfg) ctx now in
       case operation_key (request_capability request) ctx of
         None \<Rightarrow> execute_locked sy cfg request ctx None deadline
       | Some k \<Rightarrow>
           ebind (atomic (\<lambda>_ g. case reserve_lock k g of (l, g') \<Rightarrow> (Inr l, g'))) (\<lambda>l.
           ebind (acquire sy deadline (\<lambda>g. l \<notin> set (gw_locked g)) (lock_object l)) (\<lambda>_.
           ensuring (execute_locked sy cfg request ctx (Some k) deadline) (unlock_object l))))"

end
