(* ===== verification/Gateway_Steps.thy ===== *)
theory Gateway_Steps
  imports Provider_Gateway
begin

text \<open>
  The gateway as a transition system: every atomic section any call can run is a step with its clock
  reading and an event, a run is any interleaving of steps. Invariants of all runs: bounded
  dictionaries, the rate windows, where cached results come from.
\<close>

section \<open>Steps and runs\<close>

datatype gw_event =
    Admitted string string nat
  | Succeeded string
  | Answered ProviderCallContext ProviderCapability string ProviderResult instant
  | Quiet

type_synonym gw_trace = "(instant \<times> gw_event) list"

text \<open>Request hashes are hexadecimal digests.\<close>

definition is_digest :: "string \<Rightarrow> bool" where
  "is_digest h \<longleftrightarrow> list_all (\<lambda>c. is_digit c \<or> c \<in> set ''abcdef'') h"

inductive gw_step :: "gateway_config \<Rightarrow> gateway \<Rightarrow> instant \<times> gw_event \<Rightarrow> gateway \<Rightarrow> bool" for cfg g where
  st_lookup: "lookup cfg cap h ctx (operation_key cap ctx) now wall g = (r, g') \<Longrightarrow> is_digest h \<Longrightarrow>
    gw_step cfg g (now, Quiet) g'"
| st_admit: "before_call cfg pid ctx cost now g = (Inr (), g') \<Longrightarrow>
    gw_step cfg g (now, Admitted pid (cx_tenant_id ctx) cost) g'"
| st_refuse: "before_call cfg pid ctx cost now g = (Inl e, g') \<Longrightarrow> gw_step cfg g (now, Quiet) g'"
| st_success: "gw_step cfg g (now, Succeeded pid) (record_success pid g)"
| st_failure: "gw_step cfg g (now, Quiet) (record_failure cfg pid err now g)"
| st_release: "gw_step cfg g (now, Quiet) (release_half_open pid g)"
| st_answer: "is_digest h \<Longrightarrow> gw_step cfg g (now, Answered ctx cap h result wall)
    (remember_success cfg cap h ctx (operation_key cap ctx) result now wall g)"
| st_stale: "stale_fallback cfg cap h ctx (operation_key cap ctx) now g = (r, g') \<Longrightarrow> is_digest h \<Longrightarrow>
    gw_step cfg g (now, Quiet) g'"
| st_reserve: "reserve_lock k g = (l, g') \<Longrightarrow> gw_step cfg g (now, Quiet) g'"
| st_lock: "gw_step cfg g (now, Quiet) (lock_object l g)"
| st_unlock: "gw_step cfg g (now, Quiet) (unlock_object l g)"
| st_permits: "gw_step cfg g (now, Quiet) (set_permits pid n g)"

inductive gw_run :: "gateway_config \<Rightarrow> gateway \<Rightarrow> gw_trace \<Rightarrow> gateway \<Rightarrow> bool" for cfg g where
  run_start: "gw_run cfg g [] g"
| run_step: "gw_run cfg g tr g1 \<Longrightarrow> gw_step cfg g1 ev g2 \<Longrightarrow> gw_run cfg g (tr @ [ev]) g2"

lemma gw_run_append: "gw_run cfg g1 tr' g2 \<Longrightarrow> gw_run cfg g tr g1 \<Longrightarrow> gw_run cfg g (tr @ tr') g2"
  by (induction rule: gw_run.induct) (auto simp flip: append_assoc intro: gw_run.intros)

lemma gw_run_one: "gw_step cfg g ev g' \<Longrightarrow> gw_run cfg g [ev] g'"
  using run_step [OF run_start] by fastforce

text \<open>A gateway right after construction.\<close>

definition fresh_gateway :: "gateway_config \<Rightarrow> gateway \<Rightarrow> bool" where
  "fresh_gateway cfg g \<longleftrightarrow> GatewayPolicy_ok (gc_policy cfg) \<and> gw_rate_windows g = [] \<and> gw_cache g = [] \<and>
     gw_idempotency g = []"

lemma new_gateway_fresh:
  "new_gateway ps al pol ttls stales = Inr (cfg, g) \<Longrightarrow> GatewayPolicy_ok pol \<Longrightarrow> fresh_gateway cfg g"
  by (auto simp: new_gateway_def fresh_gateway_def Let_def split: if_splits)

lemma fresh_gateway_policy:
  "fresh_gateway cfg g \<Longrightarrow> 1 \<le> gp_max_cache_entries (gc_policy cfg) \<and> 1 \<le> gp_max_idempotency_entries (gc_policy cfg)"
  by (simp add: fresh_gateway_def GatewayPolicy_ok_def)

text \<open>An invariant may speak about the trace as well.\<close>

lemma gw_run_invariant:
  assumes "gw_run cfg g0 tr g" and "I [] g0"
    and "\<And>tr g ev g'. I tr g \<Longrightarrow> gw_step cfg g ev g' \<Longrightarrow> I (tr @ [ev]) g'"
  shows "I tr g"
  using assms(1) by (induction rule: gw_run.induct) (auto intro: assms(2,3))

section \<open>Bounded dictionaries\<close>

lemma first_min_in: "first_min f d = Some (k, m) \<Longrightarrow> k \<in> fst ` set d"
  by (induction d arbitrary: k m rule: first_min.induct) (auto split: option.splits if_splits)

lemma first_min_None [simp]: "first_min f d = None \<longleftrightarrow> d = []"
  by (induction d rule: first_min.induct) (auto split: option.splits)

lemma length_dset: "length (dset k v d) \<le> length d + 1"
  by (induction d) auto

lemma dpop_filter: "dpop k d = filter (\<lambda>e. fst e \<noteq> k) d"
  by (induction d) auto

lemma length_dpop: "k \<in> fst ` set d \<Longrightarrow> length (dpop k d) < length d"
  by (auto simp: dpop_filter intro!: length_filter_less)

lemma length_make_room: "1 \<le> n \<Longrightarrow> length d \<le> n \<Longrightarrow> length (make_room n f d) < n"
proof (cases "length d \<ge> n")
  case True
  assume n: "1 \<le> n" "length d \<le> n"
  with True obtain k m where k: "first_min f d = Some (k, m)"
    by (cases "first_min f d") auto
  from length_dpop [OF first_min_in [OF k]] n k True show ?thesis by (simp add: make_room_def)
qed (simp add: make_room_def)

lemma set_make_room: "set (make_room n f d) \<subseteq> set d"
  by (auto simp: make_room_def dpop_filter split: option.splits)

lemma set_dset: "set (dset k v d) \<subseteq> insert (k, v) (set d)"
  by (induction d) auto

lemma bounded_store: "1 \<le> n \<Longrightarrow> length d \<le> n \<Longrightarrow> length (dset k v (make_room n f d)) \<le> n"
  using length_dset [of k v "make_room n f d"] length_make_room [of n d f] by simp

lemma stored_entries: "set (dset k v (make_room n f d)) \<subseteq> insert (k, v) (set d)"
  using set_dset set_make_room by fastforce

definition bounded :: "gateway_config \<Rightarrow> gateway \<Rightarrow> bool" where
  "bounded cfg g \<longleftrightarrow> length (gw_cache g) \<le> gp_max_cache_entries (gc_policy cfg) \<and>
     length (gw_idempotency g) \<le> gp_max_idempotency_entries (gc_policy cfg)"

text \<open>What the sections do to the cache and to the idempotency records.\<close>

lemma store_if_keyed_simps [simp]:
  "gw_cache (store_if_keyed cfg key h r now g) = gw_cache g"
  "gw_rate_windows (store_if_keyed cfg key h r now g) = gw_rate_windows g"
  "gw_circuits (store_if_keyed cfg key h r now g) = gw_circuits g"
  by (simp_all add: store_if_keyed_def store_idempotency_def split: option.split)

lemma prune_state_simps [simp]:
  "gw_cache (prune_state cfg now g) = filter (\<lambda>(_, e). ce_stale_expires_at e > now) (gw_cache g)"
  "gw_idempotency (prune_state cfg now g) = filter (\<lambda>(_, e). ie_expires_at e > now) (gw_idempotency g)"
  "gw_rate_windows (prune_state cfg now g) =
     filter (\<lambda>(_, w). w \<noteq> []) (dmap (expire_window (now - gp_rate_limit_window (gc_policy cfg))) (gw_rate_windows g))"
  "gw_circuits (prune_state cfg now g) = gw_circuits g"
  by (simp_all add: prune_state_def Let_def)

lemma circuit_sections [simp]:
  "gw_cache (set_circuit pid c g) = gw_cache g" "gw_idempotency (set_circuit pid c g) = gw_idempotency g"
  "gw_rate_windows (set_circuit pid c g) = gw_rate_windows g"
  "gw_circuits (set_circuit pid c g) = dset pid c (gw_circuits g)"
  by (simp_all add: set_circuit_def)

lemma record_sections [simp]:
  "gw_cache (record_success pid g) = gw_cache g" "gw_idempotency (record_success pid g) = gw_idempotency g"
  "gw_rate_windows (record_success pid g) = gw_rate_windows g"
  "gw_cache (record_failure cfg pid e now g) = gw_cache g"
  "gw_idempotency (record_failure cfg pid e now g) = gw_idempotency g"
  "gw_rate_windows (record_failure cfg pid e now g) = gw_rate_windows g"
  "gw_cache (release_half_open pid g) = gw_cache g" "gw_idempotency (release_half_open pid g) = gw_idempotency g"
  "gw_rate_windows (release_half_open pid g) = gw_rate_windows g"
  by (simp_all add: record_success_def record_failure_def release_half_open_def Let_def)

lemma lock_sections [simp]:
  "gw_cache (lock_object l g) = gw_cache g" "gw_idempotency (lock_object l g) = gw_idempotency g"
  "gw_rate_windows (lock_object l g) = gw_rate_windows g" "gw_circuits (lock_object l g) = gw_circuits g"
  "gw_cache (unlock_object l g) = gw_cache g" "gw_idempotency (unlock_object l g) = gw_idempotency g"
  "gw_rate_windows (unlock_object l g) = gw_rate_windows g" "gw_circuits (unlock_object l g) = gw_circuits g"
  "gw_cache (set_permits pid n g) = gw_cache g" "gw_idempotency (set_permits pid n g) = gw_idempotency g"
  "gw_rate_windows (set_permits pid n g) = gw_rate_windows g" "gw_circuits (set_permits pid n g) = gw_circuits g"
  by (simp_all add: lock_object_def unlock_object_def set_permits_def)

lemma reserve_lock_simps:
  "reserve_lock k g = (l, g') \<Longrightarrow> gw_cache g' = gw_cache g \<and> gw_idempotency g' = gw_idempotency g \<and>
     gw_rate_windows g' = gw_rate_windows g \<and> gw_circuits g' = gw_circuits g"
  by (auto simp: reserve_lock_def split: option.splits)

lemma before_call_simps:
  "before_call cfg pid ctx cost now g = (r, g') \<Longrightarrow> gw_cache g' = gw_cache g \<and> gw_idempotency g' = gw_idempotency g"
  by (auto simp: before_call_def Let_def split: if_splits)

lemma idempotency_store_if_keyed:
  "gw_idempotency (store_if_keyed cfg key h r now g) =
     (case key of None \<Rightarrow> gw_idempotency g
      | Some k \<Rightarrow> dset k \<lparr>ie_request_hash = h, ie_result = r, ie_expires_at = now + gp_idempotency_ttl (gc_policy cfg)\<rparr>
          (make_room (gp_max_idempotency_entries (gc_policy cfg)) ie_expires_at (gw_idempotency g)))"
  by (simp add: store_if_keyed_def store_idempotency_def split: option.split)

lemma lookup_cases:
  assumes "lookup cfg cap h ctx key now wall g = (r, g')"
  obtains (untouched) "g' = prune_state cfg now g" "\<And>x. r = Inr (Some x) \<Longrightarrow>
      \<exists>k e. key = Some k \<and> dget (gw_idempotency (prune_state cfg now g)) k = Some e \<and> ie_request_hash e = h \<and>
        x = with_current_freshness wall (ie_result e)"
    | (hit) c e where "cache_key cap h ctx = Some c" "dget (gw_cache (prune_state cfg now g)) c = Some e"
      "ce_fresh_expires_at e > now" "r = Inr (Some (ce_result e))"
      "g' = store_if_keyed cfg key h (ce_result e) now (prune_state cfg now g)"
proof (cases "case key of None \<Rightarrow> None | Some k \<Rightarrow> dget (gw_idempotency (prune_state cfg now g)) k")
  case (Some e)
  then obtain k where "key = Some k" "dget (gw_idempotency (prune_state cfg now g)) k = Some e"
    by (cases key) (simp_all del: prune_state_simps)
  then show ?thesis
    using assms Some unfolding lookup_def Let_def
    by (intro untouched) (simp_all del: prune_state_simps split: if_splits)
next
  case none: None
  show ?thesis
  proof (cases "case cache_key cap h ctx of None \<Rightarrow> None | Some c \<Rightarrow> dget (gw_cache (prune_state cfg now g)) c")
    case None
    then show ?thesis
      using assms none unfolding lookup_def Let_def by (intro untouched) (simp_all del: prune_state_simps)
  next
    case (Some e)
    then obtain c where "cache_key cap h ctx = Some c" "dget (gw_cache (prune_state cfg now g)) c = Some e"
      by (cases "cache_key cap h ctx") (simp_all del: prune_state_simps)
    then show ?thesis
      using assms none unfolding lookup_def Let_def
      by (cases "ce_fresh_expires_at e > now")
        (auto simp del: prune_state_simps intro: hit untouched)
  qed
qed

lemma lookup_cache: "lookup cfg cap h ctx key now wall g = (r, g') \<Longrightarrow> gw_cache g' = gw_cache (prune_state cfg now g)"
  by (erule lookup_cases) simp_all

lemma stale_fallback_cases:
  assumes "stale_fallback cfg cap h ctx key now g = (r, g')"
  obtains (nothing) "r = None" "g' = g"
    | (stale) c e where "cache_key cap h ctx = Some c" "dget (gw_cache g) c = Some e"
      "ce_fresh_expires_at e \<le> now" "now < ce_stale_expires_at e"
      "r = Some (with_provenance ((provenance (ce_result e))\<lparr>pv_freshness_status := Pf_STALE\<rparr>) (ce_result e))"
      "g' = store_if_keyed cfg key h
         (with_provenance ((provenance (ce_result e))\<lparr>pv_freshness_status := Pf_STALE\<rparr>) (ce_result e)) now g"
proof (cases "cache_key cap h ctx")
  case None
  with assms have "r = None" "g' = g" by (simp_all add: stale_fallback_def)
    then show ?thesis by (rule nothing)
next
  case (Some c)
  show ?thesis
  proof (cases "gc_stale_if_error cfg cap \<le> 0")
    case True
    with assms Some have "r = None" "g' = g" by (simp_all add: stale_fallback_def)
    then show ?thesis by (rule nothing)
  next
    case False
    show ?thesis
    proof (cases "dget (gw_cache g) c")
      case None
      with assms Some False have "r = None" "g' = g" by (simp_all add: stale_fallback_def)
    then show ?thesis by (rule nothing)
    next
      case entry: (Some e)
      show ?thesis
      proof (cases "ce_fresh_expires_at e > now \<or> ce_stale_expires_at e \<le> now")
        case True
        with assms Some False entry have "r = None" "g' = g" by (simp_all add: stale_fallback_def)
    then show ?thesis by (rule nothing)
      next
        case unexpired: False
        with assms Some False entry show ?thesis
          by - (rule stale [of c e], simp_all add: stale_fallback_def Let_def)
      qed
    qed
  qed
qed

lemma remember_success_simps:
  "gw_cache (remember_success cfg cap h ctx key x now wall g) =
     (let ttl = min (gc_cache_ttl cfg cap) (max 0 (pv_valid_until (provenance x) - wall)) in
      case cache_key cap h ctx of
        None \<Rightarrow> gw_cache g
      | Some c \<Rightarrow> if ttl > 0
          then dset c \<lparr>ce_result = x, ce_fresh_expires_at = now + ttl,
                 ce_stale_expires_at = now + ttl + gc_stale_if_error cfg cap, ce_inserted_at = now\<rparr>
                 (make_room (gp_max_cache_entries (gc_policy cfg)) ce_inserted_at (gw_cache g))
          else gw_cache g)"
  "gw_idempotency (remember_success cfg cap h ctx key x now wall g) = gw_idempotency (store_if_keyed cfg key h x now g)"
  "gw_rate_windows (remember_success cfg cap h ctx key x now wall g) = gw_rate_windows g"
  "gw_circuits (remember_success cfg cap h ctx key x now wall g) = gw_circuits g"
  unfolding remember_success_def Let_def
  by (cases "cache_key cap h ctx"; simp add: idempotency_store_if_keyed split: option.split)+

lemma bounded_keyed:
  assumes "bounded cfg g" and "1 \<le> gp_max_idempotency_entries (gc_policy cfg)"
  shows "bounded cfg (store_if_keyed cfg key h r now g)"
  using assms by (auto simp: bounded_def idempotency_store_if_keyed intro: bounded_store split: option.split)

lemma bounded_prune: "bounded cfg g \<Longrightarrow> bounded cfg (prune_state cfg now g)"
  by (auto simp: bounded_def intro: order_trans [OF length_filter_le])

lemma bounded_same:
  "bounded cfg g \<Longrightarrow> gw_cache g' = gw_cache g \<Longrightarrow> gw_idempotency g' = gw_idempotency g \<Longrightarrow> bounded cfg g'"
  by (simp add: bounded_def)

lemma gw_step_bounded:
  assumes "gw_step cfg g ev g'" and "bounded cfg g"
    and "1 \<le> gp_max_cache_entries (gc_policy cfg)" "1 \<le> gp_max_idempotency_entries (gc_policy cfg)"
  shows "bounded cfg g'"
  using assms(1)
proof cases
  case (st_lookup cap h ctx now wall r)
  from st_lookup(2) show ?thesis
    by (cases rule: lookup_cases) (use assms in \<open>auto intro: bounded_prune bounded_keyed\<close>)
next
  case (st_stale cap h ctx now r)
  from st_stale(2) show ?thesis
    by (cases rule: stale_fallback_cases) (use assms in \<open>auto intro: bounded_keyed\<close>)
next
  case (st_answer h now ctx cap result wall)
  have "bounded cfg (store_if_keyed cfg (operation_key cap ctx) h result now g)"
    by (rule bounded_keyed) (rule assms)+
  then show ?thesis
    unfolding st_answer using assms
    by (auto simp: bounded_def remember_success_simps Let_def intro: bounded_store split: option.split)
qed (use assms(2) in \<open>auto dest!: before_call_simps reserve_lock_simps intro: bounded_same\<close>)

lemma gw_run_bounded:
  assumes "gw_run cfg g0 tr g" and "fresh_gateway cfg g0"
  shows "bounded cfg g"
  using assms(1)
proof (rule gw_run_invariant [where I = "\<lambda>_. bounded cfg"])
  show "bounded cfg g0" using assms(2) by (simp add: fresh_gateway_def bounded_def)
qed (use fresh_gateway_policy [OF assms(2)] gw_step_bounded in blast)

section \<open>Rate windows\<close>

text \<open>The clock readings of the physical calls admitted for one provider and tenant, one per unit of cost.\<close>

definition admissions :: "string \<Rightarrow> string \<Rightarrow> gw_trace \<Rightarrow> instant list" where
  "admissions pid tenant tr =
     concat (map (\<lambda>(t, ev). case ev of Admitted p u n \<Rightarrow> if p = pid \<and> u = tenant then replicate n t else [] | _ \<Rightarrow> []) tr)"

definition in_window :: "int \<Rightarrow> instant \<Rightarrow> instant list \<Rightarrow> nat" where
  "in_window w t xs = length (filter (\<lambda>x. t - w < x \<and> x \<le> t) xs)"

definition window_of :: "gateway \<Rightarrow> string \<Rightarrow> string \<Rightarrow> instant list" where
  "window_of g pid tenant = (case dget (gw_rate_windows g) (pid, tenant) of None \<Rightarrow> [] | Some w \<Rightarrow> w)"

lemma admissions_simps [simp]:
  "admissions pid u [] = []" "admissions pid u (tr @ tr') = admissions pid u tr @ admissions pid u tr'"
  "admissions pid u [(t, Quiet)] = []" "admissions pid u [(t, Succeeded p)] = []"
  "admissions pid u [(t, Answered c cap h r wall)] = []"
  "admissions pid u [(t, Admitted p v n)] = (if p = pid \<and> v = u then replicate n t else [])"
  by (simp_all add: admissions_def)

lemma admissions_times: "x \<in> set (admissions pid u tr) \<Longrightarrow> x \<in> fst ` set tr"
  by (force simp: admissions_def split: gw_event.splits if_splits)

lemma expire_window_split:
  assumes "\<forall>x \<in> set pre. x \<le> cutoff"
  shows "\<exists>pre'. pre @ w = pre' @ expire_window cutoff w \<and> (\<forall>x \<in> set pre'. x \<le> cutoff)"
proof (intro exI conjI)
  show "pre @ w = (pre @ takeWhile (\<lambda>t. t \<le> cutoff) w) @ expire_window cutoff w"
    by (simp add: expire_window_def)
  show "\<forall>x \<in> set (pre @ takeWhile (\<lambda>t. t \<le> cutoff) w). x \<le> cutoff"
    using assms by (auto dest: set_takeWhileD)
qed

text \<open>
  The window is what is left of the admissions after dropping some that are too old at the last reading,
  and no window of the past had more than the limit.
\<close>

definition rate_inv :: "gateway_config \<Rightarrow> gw_trace \<Rightarrow> gateway \<Rightarrow> bool" where
  "rate_inv cfg tr g \<longleftrightarrow> dkeys_distinct (gw_rate_windows g) \<and> (\<forall>pid u.
     (\<exists>pre. admissions pid u tr = pre @ window_of g pid u \<and>
        (\<forall>x \<in> set pre. \<forall>t. (\<forall>y \<in> fst ` set tr. y \<le> t) \<longrightarrow> x \<le> t - gp_rate_limit_window (gc_policy cfg))) \<and>
     (\<forall>t. in_window (gp_rate_limit_window (gc_policy cfg)) t (admissions pid u tr) \<le>
        gp_rate_limit_requests (gc_policy cfg)))"

definition shrunk :: "gateway_config \<Rightarrow> instant \<Rightarrow> gateway \<Rightarrow> gateway \<Rightarrow> bool" where
  "shrunk cfg t g g' \<longleftrightarrow> (dkeys_distinct (gw_rate_windows g) \<longrightarrow> dkeys_distinct (gw_rate_windows g') \<and>
     (\<forall>pid u. window_of g' pid u = window_of g pid u \<or>
        window_of g' pid u = expire_window (t - gp_rate_limit_window (gc_policy cfg)) (window_of g pid u)))"

lemma shrunk_same: "gw_rate_windows g' = gw_rate_windows g \<Longrightarrow> shrunk cfg t g g'"
  by (simp add: shrunk_def window_of_def)

lemma dget_filter: "dkeys_distinct d \<Longrightarrow> dget (filter P d) k = (case dget d k of None \<Rightarrow> None | Some v \<Rightarrow> if P (k, v) then Some v else None)"
  by (induction d) (auto simp: dkeys_distinct_def rev_image_eqI split: option.splits dest!: map_of_SomeD)

lemma dkeys_distinct_filter: "dkeys_distinct d \<Longrightarrow> dkeys_distinct (filter P d)"
  by (simp add: dkeys_distinct_def distinct_map_filter)

lemma expire_window_Nil: "expire_window c [] = []"
  by (simp add: expire_window_def)

lemma shrunk_prune: "shrunk cfg t g (prune_state cfg t g)"
  unfolding shrunk_def
  by (auto simp: window_of_def dget_filter dkeys_distinct_filter expire_window_Nil split: option.split)

lemma before_call_windows:
  assumes "before_call cfg pid ctx cost t g = (r, g')"
  shows "case r of
    Inl _ \<Rightarrow> shrunk cfg t g g'
  | Inr _ \<Rightarrow> (let w = expire_window (t - gp_rate_limit_window (gc_policy cfg)) (window_of g pid (cx_tenant_id ctx)) in
      length w + cost \<le> gp_rate_limit_requests (gc_policy cfg) \<and>
      (dkeys_distinct (gw_rate_windows g) \<longrightarrow> dkeys_distinct (gw_rate_windows g')) \<and>
      window_of g' pid (cx_tenant_id ctx) = w @ replicate cost t \<and>
      (\<forall>p u. (p, u) \<noteq> (pid, cx_tenant_id ctx) \<longrightarrow> window_of g' p u = window_of g p u))"
  using assms unfolding before_call_def Let_def
  by (auto simp: shrunk_def window_of_def split: if_splits)

lemma rate_inv_shrunk:
  assumes inv: "rate_inv cfg tr g" and sh: "shrunk cfg t g g'" and late: "\<forall>y \<in> fst ` set tr. y \<le> t"
    and ev: "\<And>p u. admissions p u [(t, ev)] = []"
  shows "rate_inv cfg (tr @ [(t, ev)]) g'"
proof -
  let ?W = "gp_rate_limit_window (gc_policy cfg)"
  have "\<exists>pre'. admissions pid u tr = pre' @ window_of g' pid u \<and>
      (\<forall>x \<in> set pre'. \<forall>t'. (\<forall>y \<in> fst ` set (tr @ [(t, ev)]). y \<le> t') \<longrightarrow> x \<le> t' - ?W)" for pid u
  proof -
    from inv obtain pre where pre: "admissions pid u tr = pre @ window_of g pid u"
      and old: "\<forall>x \<in> set pre. \<forall>t. (\<forall>y \<in> fst ` set tr. y \<le> t) \<longrightarrow> x \<le> t - ?W"
      unfolding rate_inv_def by blast
    have le: "\<forall>x \<in> set pre. x \<le> t - ?W" using old late by blast
    from sh inv consider "window_of g' pid u = window_of g pid u"
      | "window_of g' pid u = expire_window (t - ?W) (window_of g pid u)"
      unfolding shrunk_def rate_inv_def by blast
    then obtain pre' where p: "admissions pid u tr = pre' @ window_of g' pid u" "\<forall>x \<in> set pre'. x \<le> t - ?W"
      by cases (use pre le expire_window_split [OF le, of "window_of g pid u"] in auto)
    have "x \<le> t' - ?W" if "x \<in> set pre'" "\<forall>y \<in> fst ` set (tr @ [(t, ev)]). y \<le> t'" for x t'
      using p(2) that by force
    with p(1) show ?thesis by blast
  qed
  with inv sh ev show ?thesis unfolding rate_inv_def shrunk_def by simp
qed

lemma in_window_append: "in_window w t (xs @ ys) = in_window w t xs + in_window w t ys"
  by (simp add: in_window_def)

lemma in_window_le: "in_window w t xs \<le> length xs"
  by (simp add: in_window_def)

lemma in_window_old: "\<forall>x \<in> set xs. x \<le> t - w \<Longrightarrow> in_window w t xs = 0"
  by (force simp: in_window_def filter_empty_conv)

lemma rate_inv_admit:
  assumes inv: "rate_inv cfg tr g" and late: "\<forall>y \<in> fst ` set tr. y \<le> t"
    and step: "before_call cfg pid ctx cost t g = (Inr (), g')"
  shows "rate_inv cfg (tr @ [(t, Admitted pid (cx_tenant_id ctx) cost)]) g'"
proof -
  let ?W = "gp_rate_limit_window (gc_policy cfg)" and ?N = "gp_rate_limit_requests (gc_policy cfg)"
    and ?u = "cx_tenant_id ctx" and ?ev = "(t, Admitted pid (cx_tenant_id ctx) cost)"
  let ?w = "expire_window (t - ?W) (window_of g pid ?u)"
  from before_call_windows [OF step]
  have room: "length ?w + cost \<le> ?N" and d: "dkeys_distinct (gw_rate_windows g')"
    and w': "window_of g' pid ?u = ?w @ replicate cost t"
    and other: "\<And>p u. (p, u) \<noteq> (pid, ?u) \<Longrightarrow> window_of g' p u = window_of g p u"
    using inv by (auto simp: Let_def rate_inv_def)
  have conj: "(\<exists>pre. admissions p u (tr @ [?ev]) = pre @ window_of g' p u \<and>
        (\<forall>x \<in> set pre. \<forall>t'. (\<forall>y \<in> fst ` set (tr @ [?ev]). y \<le> t') \<longrightarrow> x \<le> t' - ?W)) \<and>
     (\<forall>t'. in_window ?W t' (admissions p u (tr @ [?ev])) \<le> ?N)" for p u
  proof -
    from inv obtain pre where pre: "admissions p u tr = pre @ window_of g p u"
      and old: "\<forall>x \<in> set pre. \<forall>t. (\<forall>y \<in> fst ` set tr. y \<le> t) \<longrightarrow> x \<le> t - ?W"
      and lim: "\<And>t. in_window ?W t (admissions p u tr) \<le> ?N"
      unfolding rate_inv_def by blast
    show ?thesis
    proof (cases "p = pid \<and> u = ?u")
      case False
      then have "admissions p u (tr @ [?ev]) = pre @ window_of g' p u" using pre other by auto
      moreover have "\<forall>x \<in> set pre. \<forall>t'. (\<forall>y \<in> fst ` set (tr @ [?ev]). y \<le> t') \<longrightarrow> x \<le> t' - ?W"
        using old by simp
      moreover have "admissions p u (tr @ [?ev]) = admissions p u tr" using False by auto
      ultimately show ?thesis using lim by metis
    next
      case True
      have le: "\<forall>x \<in> set pre. x \<le> t - ?W" using old late by blast
      from expire_window_split [OF le, of "window_of g p u"] obtain pre' where
        p': "pre @ window_of g p u = pre' @ ?w" "\<forall>x \<in> set pre'. x \<le> t - ?W" using True by auto
      have adm: "admissions p u (tr @ [?ev]) = pre' @ window_of g' p u"
        using pre p'(1) w' True by simp
      have "in_window ?W t' (admissions p u (tr @ [?ev])) \<le> ?N" for t'
      proof (cases "t' < t")
        case True
        then have "in_window ?W t' (replicate cost t) = 0" by (simp add: in_window_def)
        with lim [of t'] \<open>p = pid \<and> u = ?u\<close> show ?thesis by (simp add: in_window_append)
      next
        case False
        with p'(2) have "in_window ?W t' pre' = 0" by (intro in_window_old) force
        with adm room w' True in_window_le [of ?W t' "window_of g' p u"] show ?thesis
          by (simp add: in_window_append)
      qed
      moreover have "x \<le> t' - ?W" if "x \<in> set pre'" "\<forall>y \<in> fst ` set (tr @ [?ev]). y \<le> t'" for x t'
        using p'(2) that by force
      ultimately show ?thesis using adm by blast
    qed
  qed
  with d show ?thesis unfolding rate_inv_def by blast
qed

lemma rate_inv_step:
  assumes "rate_inv cfg tr g" and "gw_step cfg g ev g'" and "\<forall>y \<in> fst ` set tr. y \<le> fst ev"
  shows "rate_inv cfg (tr @ [ev]) g'"
  using assms(2)
proof cases
  case (st_lookup cap h ctx now wall r)
  have "gw_rate_windows g' = gw_rate_windows (prune_state cfg now g)"
    using st_lookup(2) by (cases rule: lookup_cases) simp_all
  with shrunk_prune [of cfg now g] have "shrunk cfg now g g'" by (simp add: shrunk_def window_of_def)
  with assms st_lookup(1) show ?thesis by (auto intro: rate_inv_shrunk)
next
  case (st_stale cap h ctx now r)
  have "gw_rate_windows g' = gw_rate_windows g"
    using st_stale(2) by (cases rule: stale_fallback_cases) simp_all
  with assms st_stale(1) show ?thesis by (auto intro: rate_inv_shrunk shrunk_same)
next
  case (st_refuse pid ctx cost now e)
  with assms before_call_windows [OF st_refuse(2)] show ?thesis by (auto intro: rate_inv_shrunk)
next
  case (st_reserve k l now)
  from reserve_lock_simps [OF st_reserve(2)] have "shrunk cfg now g g'" by (simp add: shrunk_same)
  with assms st_reserve(1) show ?thesis by (auto intro: rate_inv_shrunk)
next
  case (st_admit pid ctx cost now)
  with assms show ?thesis by (auto intro: rate_inv_admit)
qed (use assms in \<open>auto intro!: rate_inv_shrunk shrunk_same simp: remember_success_simps\<close>)

lemma sorted_snoc_times: "sorted (map fst (tr @ [ev])) \<longleftrightarrow> sorted (map fst tr) \<and> (\<forall>y \<in> fst ` set tr. y \<le> fst ev)"
  by (auto simp: sorted_append)

lemma gw_run_rate_inv:
  assumes "gw_run cfg g0 tr g" and "fresh_gateway cfg g0" and "sorted (map fst tr)"
  shows "rate_inv cfg tr g"
proof -
  have "sorted (map fst tr) \<longrightarrow> rate_inv cfg tr g"
    using assms(1)
  proof (rule gw_run_invariant)
    show "sorted (map fst ([] :: gw_trace)) \<longrightarrow> rate_inv cfg [] g0"
      using assms(2) by (simp add: rate_inv_def fresh_gateway_def window_of_def in_window_def)
  qed (use rate_inv_step sorted_snoc_times in blast)
  with assms(3) show ?thesis by blast
qed

end
