(* ===== verification/Gateway_Origin.thy ===== *)
theory Gateway_Origin
  imports Gateway_Steps
begin

text \<open>
  Where a result handed out by the cache, an idempotency record or the stale fallback comes from: a
  provider answer to the same request, of the same tenant unless the answering call was public.
\<close>

section \<open>Cache keys\<close>

lemma digest_no_colon: "is_digest h \<Longrightarrow> CHR '':'' \<notin> set h"
  by (auto simp: is_digest_def list_all_iff is_digit_def)

lemma capability_no_colon: "CHR '':'' \<notin> set (capability_value cap)"
  by (cases cap) simp_all

lemma capability_value_inj [simp]: "capability_value a = capability_value b \<longleftrightarrow> a = b"
  by (cases a; cases b) simp_all

lemma first_segment_inj:
  "xs @ c # ys = xs' @ c # ys' \<Longrightarrow> c \<notin> set xs \<Longrightarrow> c \<notin> set xs' \<Longrightarrow> xs = xs' \<and> ys = ys'"
proof (induction xs arbitrary: xs')
  case Nil
  then show ?case by (cases xs') auto
next
  case (Cons x xs)
  then show ?case by (cases xs') auto
qed

lemma last_segment_inj:
  assumes "xs @ CHR '':'' # ys = xs' @ CHR '':'' # ys'" and "CHR '':'' \<notin> set ys" and "CHR '':'' \<notin> set ys'"
  shows "xs = xs' \<and> ys = ys'"
proof -
  from assms(1) have "rev ys @ CHR '':'' # rev xs = rev ys' @ CHR '':'' # rev xs'"
    by (metis append_Cons append_Nil rev.simps(2) rev_append append_assoc)
  from first_segment_inj [OF this] assms(2,3) show ?thesis by simp
qed

lemma cache_key_inj:
  assumes "cache_key cap h ctx = Some k" and "cache_key cap' h' ctx' = Some k" and "is_digest h" and "is_digest h'"
  shows "cap = cap' \<and> h = h' \<and> (cx_tenant_id ctx = cx_tenant_id ctx' \<or> cx_cache_scope ctx' = Scope_PUBLIC)"
proof -
  have key: "\<exists>scope. k = scope @ CHR '':'' # capability_value cap @ CHR '':'' # h \<and>
      (cx_cache_scope ctx = Scope_PUBLIC \<and> scope = ''public'' \<or>
       cx_cache_scope ctx = Scope_TENANT \<and> scope = ''tenant:'' @ cx_tenant_id ctx)"
    if "cache_key cap h ctx = Some k" for cap h ctx
    using that by (auto simp: cache_key_def split: CacheScope.splits)
  from key [OF assms(1)] key [OF assms(2)] obtain s s' where
    k: "k = s @ CHR '':'' # capability_value cap @ CHR '':'' # h" "k = s' @ CHR '':'' # capability_value cap' @ CHR '':'' # h'"
    and s: "cx_cache_scope ctx = Scope_PUBLIC \<and> s = ''public'' \<or>
       cx_cache_scope ctx = Scope_TENANT \<and> s = ''tenant:'' @ cx_tenant_id ctx"
    and s': "cx_cache_scope ctx' = Scope_PUBLIC \<and> s' = ''public'' \<or>
       cx_cache_scope ctx' = Scope_TENANT \<and> s' = ''tenant:'' @ cx_tenant_id ctx'" by blast
  from k have "(s @ CHR '':'' # capability_value cap) @ CHR '':'' # h = (s' @ CHR '':'' # capability_value cap') @ CHR '':'' # h'"
    by simp
  from last_segment_inj [OF this] assms(3,4) have 1: "s @ CHR '':'' # capability_value cap = s' @ CHR '':'' # capability_value cap'"
    "h = h'" by (simp_all add: digest_no_colon)
  from last_segment_inj [OF 1(1)] have "s = s'" "cap = cap'" by (simp_all add: capability_no_colon)
  with 1(2) s s' show ?thesis by auto
qed

section \<open>Sources\<close>

text \<open>Two results state the same facts when they differ in the freshness status at most.\<close>

definition same_facts :: "ProviderResult \<Rightarrow> ProviderResult \<Rightarrow> bool" where
  "same_facts r r' \<longleftrightarrow> with_provenance ((provenance r)\<lparr>pv_freshness_status := Pf_UNKNOWN\<rparr>) r =
     with_provenance ((provenance r')\<lparr>pv_freshness_status := Pf_UNKNOWN\<rparr>) r'"

lemma same_facts_refl [simp]: "same_facts r r"
  by (simp add: same_facts_def)

lemma same_facts_trans: "same_facts r r' \<Longrightarrow> same_facts r' r'' \<Longrightarrow> same_facts r r''"
  by (simp add: same_facts_def)

lemma same_facts_restamped [simp]: "same_facts (with_provenance ((provenance r)\<lparr>pv_freshness_status := s\<rparr>) r) r"
  by (simp add: same_facts_def)

lemma same_facts_current [simp]: "same_facts (with_current_freshness wall r) r"
  by (simp add: with_current_freshness_def)

definition sourced :: "gw_trace \<Rightarrow> string \<Rightarrow> ProviderCapability \<Rightarrow> string \<Rightarrow> ProviderResult \<Rightarrow> bool" where
  "sourced tr tenant cap h r \<longleftrightarrow> (\<exists>t ctx r0 wall. (t, Answered ctx cap h r0 wall) \<in> set tr \<and> same_facts r r0 \<and>
     (cx_tenant_id ctx = tenant \<or> cx_cache_scope ctx = Scope_PUBLIC))"

lemma sourced_append: "sourced tr tenant cap h r \<Longrightarrow> sourced (tr @ tr') tenant cap h r"
  by (force simp: sourced_def)

lemma sourced_same: "sourced tr tenant cap h r' \<Longrightarrow> same_facts r r' \<Longrightarrow> sourced tr tenant cap h r"
  unfolding sourced_def by (blast intro: same_facts_trans)

text \<open>A cache entry: its answer, its key, and how long it is fresh and stale.\<close>

definition cache_entry_ok :: "gateway_config \<Rightarrow> gw_trace \<Rightarrow> string \<Rightarrow> CacheEntry \<Rightarrow> bool" where
  "cache_entry_ok cfg tr k e \<longleftrightarrow> (\<exists>t ctx cap h wall. (t, Answered ctx cap h (ce_result e) wall) \<in> set tr \<and>
     is_digest h \<and> cache_key cap h ctx = Some k \<and>
     ce_fresh_expires_at e \<le> t + (pv_valid_until (provenance (ce_result e)) - wall) \<and>
     ce_fresh_expires_at e \<le> t + gc_cache_ttl cfg cap \<and>
     ce_stale_expires_at e \<le> t + gc_cache_ttl cfg cap + gc_stale_if_error cfg cap)"

definition idempotency_entry_ok :: "gw_trace \<Rightarrow> op_key \<Rightarrow> IdempotencyEntry \<Rightarrow> bool" where
  "idempotency_entry_ok tr k e \<longleftrightarrow>
     (\<exists>cap. fst (snd k) = capability_value cap \<and> sourced tr (fst k) cap (ie_request_hash e) (ie_result e))"

definition origin_inv :: "gateway_config \<Rightarrow> gw_trace \<Rightarrow> gateway \<Rightarrow> bool" where
  "origin_inv cfg tr g \<longleftrightarrow> (\<forall>(k, e) \<in> set (gw_cache g). cache_entry_ok cfg tr k e) \<and>
     (\<forall>(k, e) \<in> set (gw_idempotency g). idempotency_entry_ok tr k e)"

lemma cache_entry_ok_append: "cache_entry_ok cfg tr k e \<Longrightarrow> cache_entry_ok cfg (tr @ tr') k e"
  unfolding cache_entry_ok_def by fastforce

lemma idempotency_entry_ok_append: "idempotency_entry_ok tr k e \<Longrightarrow> idempotency_entry_ok (tr @ tr') k e"
  unfolding idempotency_entry_ok_def by (blast intro: sourced_append)

lemma cache_entry_sourced:
  assumes "cache_entry_ok cfg tr k e" and "cache_key cap h ctx = Some k" and "is_digest h"
  shows "sourced tr (cx_tenant_id ctx) cap h (ce_result e)"
proof -
  from assms(1) obtain t ctx0 cap0 h0 wall where a: "(t, Answered ctx0 cap0 h0 (ce_result e) wall) \<in> set tr"
    "is_digest h0" "cache_key cap0 h0 ctx0 = Some k" unfolding cache_entry_ok_def by blast
  from cache_key_inj [OF assms(2) a(3) assms(3) a(2)] a(1) show ?thesis
    unfolding sourced_def by (metis same_facts_refl)
qed

lemma operation_key_Some: "operation_key cap ctx = Some k \<Longrightarrow> fst k = cx_tenant_id ctx \<and> fst (snd k) = capability_value cap"
  by (auto simp: operation_key_def split: option.splits if_splits)

lemma idempotent_sourced:
  assumes "idempotency_entry_ok tr k e" and "operation_key cap ctx = Some k"
  shows "sourced tr (cx_tenant_id ctx) cap (ie_request_hash e) (ie_result e)"
  using assms operation_key_Some [OF assms(2)] unfolding idempotency_entry_ok_def by auto

lemma origin_keyed:
  assumes "origin_inv cfg tr g" and "sourced tr (cx_tenant_id ctx) cap h r"
  shows "origin_inv cfg tr (store_if_keyed cfg (operation_key cap ctx) h r now g)"
proof (cases "operation_key cap ctx")
  case None
  with assms show ?thesis by (simp add: store_if_keyed_def)
next
  case (Some k)
  let ?e = "\<lparr>ie_request_hash = h, ie_result = r, ie_expires_at = now + gp_idempotency_ttl (gc_policy cfg)\<rparr>"
  have "idempotency_entry_ok tr k ?e"
    using operation_key_Some [OF Some] assms(2) by (auto simp: idempotency_entry_ok_def)
  moreover have "set (gw_idempotency (store_if_keyed cfg (Some k) h r now g)) \<subseteq> insert (k, ?e) (set (gw_idempotency g))"
    by (simp add: idempotency_store_if_keyed stored_entries)
  ultimately show ?thesis using assms(1) Some unfolding origin_inv_def by fastforce
qed

lemma origin_append: "origin_inv cfg tr g \<Longrightarrow> origin_inv cfg (tr @ tr') g"
  unfolding origin_inv_def by (blast intro: cache_entry_ok_append idempotency_entry_ok_append)

lemma origin_prune: "origin_inv cfg tr g \<Longrightarrow> origin_inv cfg tr (prune_state cfg now g)"
  by (auto simp: origin_inv_def)

lemma origin_same:
  "origin_inv cfg tr g \<Longrightarrow> gw_cache g' = gw_cache g \<Longrightarrow> gw_idempotency g' = gw_idempotency g \<Longrightarrow> origin_inv cfg tr g'"
  by (simp add: origin_inv_def)

section \<open>Results handed out\<close>

lemma lookup_sourced:
  assumes "origin_inv cfg tr g" and "is_digest h"
    and "lookup cfg cap h ctx (operation_key cap ctx) now wall g = (Inr (Some r), g')"
  shows "sourced tr (cx_tenant_id ctx) cap h r"
  using assms(3)
proof (cases rule: lookup_cases)
  case untouched
  then obtain k e where ke: "operation_key cap ctx = Some k"
    "dget (gw_idempotency (prune_state cfg now g)) k = Some e" "ie_request_hash e = h"
    "r = with_current_freshness wall (ie_result e)" by blast
  from map_of_SomeD [OF ke(2)] assms(1) have "idempotency_entry_ok tr k e"
    by (auto simp: origin_inv_def)
  from idempotent_sourced [OF this ke(1)] ke(3,4) show ?thesis
    by (auto intro: sourced_same)
next
  case (hit c e)
  from map_of_SomeD [OF hit(2)] assms(1) have "cache_entry_ok cfg tr c e" by (auto simp: origin_inv_def)
  from cache_entry_sourced [OF this hit(1) assms(2)] hit(4) show ?thesis by simp
qed

lemma stale_sourced:
  assumes "origin_inv cfg tr g" and "is_digest h"
    and "stale_fallback cfg cap h ctx (operation_key cap ctx) now g = (Some r, g')"
  shows "sourced tr (cx_tenant_id ctx) cap h r"
  using assms(3)
proof (cases rule: stale_fallback_cases)
  case (stale c e)
  from map_of_SomeD [OF stale(2)] assms(1) have "cache_entry_ok cfg tr c e" by (auto simp: origin_inv_def)
  from cache_entry_sourced [OF this stale(1) assms(2)] stale(5) show ?thesis
    by (auto intro: sourced_same)
qed simp

lemma answer_origin:
  assumes "origin_inv cfg tr g" and "is_digest h"
  shows "origin_inv cfg (tr @ [(now, Answered ctx cap h x wall)])
    (remember_success cfg cap h ctx (operation_key cap ctx) x now wall g)" (is "origin_inv cfg ?tr ?g'")
proof -
  have "sourced ?tr (cx_tenant_id ctx) cap h x"
    unfolding sourced_def by (rule exI [of _ now], rule exI [of _ ctx]) auto
  from origin_keyed [OF origin_append [OF assms(1)] this] have
    k: "origin_inv cfg ?tr (store_if_keyed cfg (operation_key cap ctx) h x now g)" .
  have "cache_entry_ok cfg ?tr c e" if "(c, e) \<in> set (gw_cache ?g')" for c e
  proof (cases "(c, e) \<in> set (gw_cache g)")
    case True
    with assms(1) show ?thesis by (auto simp: origin_inv_def intro: cache_entry_ok_append)
  next
    case False
    let ?ttl = "min (gc_cache_ttl cfg cap) (max 0 (pv_valid_until (provenance x) - wall))"
    from False that obtain c0 where c0: "cache_key cap h ctx = Some c0" "?ttl > 0"
      and in_new: "(c, e) \<in> set (dset c0 \<lparr>ce_result = x, ce_fresh_expires_at = now + ?ttl,
           ce_stale_expires_at = now + ?ttl + gc_stale_if_error cfg cap, ce_inserted_at = now\<rparr>
           (make_room (gp_max_cache_entries (gc_policy cfg)) ce_inserted_at (gw_cache g)))"
      unfolding remember_success_simps Let_def by (auto split: option.splits if_splits)
    from in_new stored_entries False have "c = c0" "e = \<lparr>ce_result = x, ce_fresh_expires_at = now + ?ttl,
        ce_stale_expires_at = now + ?ttl + gc_stale_if_error cfg cap, ce_inserted_at = now\<rparr>" by fast+
    with c0 assms(2) show ?thesis
      unfolding cache_entry_ok_def
      by (intro exI [of _ now] exI [of _ ctx] exI [of _ cap] exI [of _ h] exI [of _ wall]) auto
  qed
  with k show ?thesis by (auto simp: origin_inv_def remember_success_simps(2))
qed

lemma origin_step:
  assumes "origin_inv cfg tr g" and "gw_step cfg g ev g'"
  shows "origin_inv cfg (tr @ [ev]) g'"
  using assms(2)
proof cases
  case (st_lookup cap h ctx now wall r)
  from st_lookup(2) have "origin_inv cfg tr g'"
  proof (cases rule: lookup_cases)
    case untouched
    with assms(1) show ?thesis by (simp add: origin_prune)
  next
    case (hit c e)
    with lookup_sourced [OF assms(1) st_lookup(3)] st_lookup(2)
    have "sourced tr (cx_tenant_id ctx) cap h (ce_result e)" by blast
    from origin_keyed [OF origin_prune [OF assms(1)] this] hit(5) show ?thesis by simp
  qed
  then show ?thesis by (rule origin_append)
next
  case (st_stale cap h ctx now r)
  from st_stale(2) have "origin_inv cfg tr g'"
  proof (cases rule: stale_fallback_cases)
    case (stale c e)
    with stale_sourced [OF assms(1) st_stale(3)] st_stale(2)
    have "sourced tr (cx_tenant_id ctx) cap h
        (with_provenance ((provenance (ce_result e))\<lparr>pv_freshness_status := Pf_STALE\<rparr>) (ce_result e))" by blast
    from origin_keyed [OF assms(1) this] stale(6) show ?thesis by simp
  qed (simp add: assms)
  then show ?thesis by (rule origin_append)
next
  case (st_answer h now ctx cap result wall)
  with answer_origin [OF assms(1)] show ?thesis by simp
qed (use assms(1) in \<open>auto dest!: before_call_simps reserve_lock_simps intro: origin_same origin_append\<close>)

lemma gw_run_origin:
  assumes "gw_run cfg g0 tr g" and "fresh_gateway cfg g0"
  shows "origin_inv cfg tr g"
  using assms(1)
proof (rule gw_run_invariant [where I = "origin_inv cfg"])
  show "origin_inv cfg [] g0" using assms(2) by (simp add: fresh_gateway_def origin_inv_def)
qed (rule origin_step)

end
