(* ===== verification/Gateway_Calls.thy ===== *)
theory Gateway_Calls
  imports Gateway_Origin
begin

text \<open>
  Whole calls of the gateway: a call is a run of atomic sections, interleaved with the runs of others
  at its suspension points, so what holds for every run holds during and after every call; and a
  call starts a bounded number of provider methods, each before its deadline.
\<close>

named_theorems call_intros \<open>rules for the traces of calls\<close>
named_theorems starts_intros \<open>rules for the provider methods a call starts\<close>

section \<open>Calls as runs\<close>

definition gw_env_ok :: "gateway_config \<Rightarrow> (gateway \<Rightarrow> gateway) list \<Rightarrow> bool" where
  "gw_env_ok cfg fs \<longleftrightarrow> (\<forall>f \<in> set fs. \<forall>g. \<exists>tr. gw_run cfg g tr (f g))"

text \<open>From a state reached with a trace that satisfies \<open>P\<close>, the call extends the trace and a returned value satisfies \<open>Q\<close>.\<close>

definition call_spec ::
    "gateway_config \<Rightarrow> gateway \<Rightarrow> (gw_trace \<Rightarrow> bool) \<Rightarrow> 'a gw_co \<Rightarrow> (gw_trace \<Rightarrow> 'a \<Rightarrow> bool) \<Rightarrow> bool" where
  "call_spec cfg g0 P m Q \<longleftrightarrow> (\<forall>w tr. gw_run cfg g0 tr (wg_gateway w) \<longrightarrow> gw_env_ok cfg (wg_env w) \<longrightarrow> P tr \<longrightarrow>
     (\<exists>tr'. gw_run cfg g0 (tr @ tr') (wg_gateway (snd (m w))) \<and> gw_env_ok cfg (wg_env (snd (m w))) \<and>
        (\<forall>a. fst (m w) = Inr a \<longrightarrow> Q (tr @ tr') a)))"

abbreviation always :: "gw_trace \<Rightarrow> bool" where
  "always _ \<equiv> True"

abbreviation anything :: "gw_trace \<Rightarrow> 'a \<Rightarrow> bool" where
  "anything _ _ \<equiv> True"

lemma call_specI:
  assumes "\<And>w tr. gw_run cfg g0 tr (wg_gateway w) \<Longrightarrow> gw_env_ok cfg (wg_env w) \<Longrightarrow> P tr \<Longrightarrow>
     \<exists>tr'. gw_run cfg g0 (tr @ tr') (wg_gateway (snd (m w))) \<and> gw_env_ok cfg (wg_env (snd (m w))) \<and>
        (\<forall>a. fst (m w) = Inr a \<longrightarrow> Q (tr @ tr') a)"
  shows "call_spec cfg g0 P m Q"
  using assms unfolding call_spec_def by blast

lemma call_specE:
  assumes "call_spec cfg g0 P m Q" and "m w = (r, w')" and "gw_run cfg g0 tr (wg_gateway w)"
    and "gw_env_ok cfg (wg_env w)" and "P tr"
  obtains tr' where "gw_run cfg g0 (tr @ tr') (wg_gateway w')" "gw_env_ok cfg (wg_env w')"
    "\<forall>a. r = Inr a \<longrightarrow> Q (tr @ tr') a"
  using assms unfolding call_spec_def by (metis fst_conv snd_conv)

lemma call_spec_ret [call_intros]: "(\<And>tr. P tr \<Longrightarrow> Q tr a) \<Longrightarrow> call_spec cfg g0 P (eret a) Q"
  by (rule call_specI, rule exI [of _ "[]"]) simp

lemma call_spec_raise [call_intros]: "call_spec cfg g0 P (eraise e) Q"
  by (rule call_specI, rule exI [of _ "[]"]) simp

lemma call_spec_bind:
  assumes m: "call_spec cfg g0 P m R" and f: "\<And>a. call_spec cfg g0 (\<lambda>tr. R tr a) (f a) Q"
  shows "call_spec cfg g0 P (ebind m f) Q"
proof (rule call_specI)
  fix w :: gw_world and tr
  assume pre: "gw_run cfg g0 tr (wg_gateway w)" "gw_env_ok cfg (wg_env w)" "P tr"
  obtain r w1 where m1: "m w = (r, w1)" by fastforce
  obtain tr1 where
    1: "gw_run cfg g0 (tr @ tr1) (wg_gateway w1)" "gw_env_ok cfg (wg_env w1)" "\<forall>a. r = Inr a \<longrightarrow> R (tr @ tr1) a"
    by (rule call_specE [OF m m1 pre])
  show "\<exists>tr'. gw_run cfg g0 (tr @ tr') (wg_gateway (snd (ebind m f w))) \<and>
      gw_env_ok cfg (wg_env (snd (ebind m f w))) \<and> (\<forall>a. fst (ebind m f w) = Inr a \<longrightarrow> Q (tr @ tr') a)"
  proof (cases r)
    case (Inl e)
    with 1 m1 show ?thesis by (intro exI [of _ tr1]) simp
  next
    case (Inr a)
    obtain r2 w2 where f2: "f a w1 = (r2, w2)" by fastforce
    obtain tr2 where
      "gw_run cfg g0 ((tr @ tr1) @ tr2) (wg_gateway w2)" "gw_env_ok cfg (wg_env w2)"
      "\<forall>b. r2 = Inr b \<longrightarrow> Q ((tr @ tr1) @ tr2) b"
    by (rule call_specE [OF f f2 1(1,2) 1(3) [rule_format, OF Inr]])
    with m1 Inr f2 show ?thesis by (intro exI [of _ "tr1 @ tr2"]) simp
  qed
qed

lemma call_spec_seq [call_intros]:
  "call_spec cfg g0 P m anything \<Longrightarrow> (\<And>a. call_spec cfg g0 always (f a) Q) \<Longrightarrow> call_spec cfg g0 P (ebind m f) Q"
  by (rule call_spec_bind)

lemma call_spec_catch:
  assumes m: "call_spec cfg g0 P m Q" and h: "\<And>e. call_spec cfg g0 always (h e) Q"
  shows "call_spec cfg g0 P (ecatch m h) Q"
proof (rule call_specI)
  fix w :: gw_world and tr
  assume pre: "gw_run cfg g0 tr (wg_gateway w)" "gw_env_ok cfg (wg_env w)" "P tr"
  obtain r w1 where m1: "m w = (r, w1)" by fastforce
  obtain tr1 where
    1: "gw_run cfg g0 (tr @ tr1) (wg_gateway w1)" "gw_env_ok cfg (wg_env w1)" "\<forall>a. r = Inr a \<longrightarrow> Q (tr @ tr1) a"
    by (rule call_specE [OF m m1 pre])
  show "\<exists>tr'. gw_run cfg g0 (tr @ tr') (wg_gateway (snd (ecatch m h w))) \<and>
      gw_env_ok cfg (wg_env (snd (ecatch m h w))) \<and> (\<forall>a. fst (ecatch m h w) = Inr a \<longrightarrow> Q (tr @ tr') a)"
  proof (cases r)
    case (Inr a)
    with 1 m1 show ?thesis by (intro exI [of _ tr1]) (simp add: ecatch_def)
  next
    case (Inl e)
    obtain r2 w2 where f2: "h e w1 = (r2, w2)" by fastforce
    obtain tr2 where
      "gw_run cfg g0 ((tr @ tr1) @ tr2) (wg_gateway w2)" "gw_env_ok cfg (wg_env w2)"
      "\<forall>b. r2 = Inr b \<longrightarrow> Q ((tr @ tr1) @ tr2) b"
    by (rule call_specE [OF h f2 1(1,2) TrueI])
    with m1 Inl f2 show ?thesis by (intro exI [of _ "tr1 @ tr2"]) (simp add: ecatch_def)
  qed
qed

lemma call_spec_draw [call_intros]: "call_spec cfg g0 P (draw f) anything"
  by (rule call_specI, rule exI [of _ "[]"]) (simp add: draw_def)

lemma call_spec_started [call_intros]: "call_spec cfg g0 P (started pid now) anything"
  by (rule call_specI, rule exI [of _ "[]"]) (simp add: started_def)

lemma call_spec_suspend [call_intros]: "call_spec cfg g0 P suspend anything"
proof (rule call_specI)
  fix w :: gw_world and tr
  assume 1: "gw_run cfg g0 tr (wg_gateway w)" "gw_env_ok cfg (wg_env w)"
  show "\<exists>tr'. gw_run cfg g0 (tr @ tr') (wg_gateway (snd (suspend w))) \<and> gw_env_ok cfg (wg_env (snd (suspend w))) \<and>
      (\<forall>a. fst (suspend w) = Inr a \<longrightarrow> True)"
  proof (cases "wg_env w")
    case Nil
    with 1 show ?thesis by (intro exI [of _ "[]"]) (simp add: suspend_def)
  next
    case (Cons f fs)
    with 1(2) obtain tr' where "gw_run cfg (wg_gateway w) tr' (f (wg_gateway w))"
      unfolding gw_env_ok_def by (metis list.set_intros(1))
    with gw_run_append [OF this 1(1)] 1(2) Cons show ?thesis
      by (intro exI [of _ tr']) (simp add: suspend_def gw_env_ok_def)
  qed
qed

text \<open>An atomic section is one step or leaves the gateway as it is.\<close>

lemma call_spec_atomic:
  assumes "\<And>n g tr r g'. gw_run cfg g0 tr g \<Longrightarrow> P tr \<Longrightarrow> op n g = (r, g') \<Longrightarrow>
    (\<exists>ev. gw_step cfg g ev g' \<and> (\<forall>a. r = Inr a \<longrightarrow> Q (tr @ [ev]) a)) \<or> (g' = g \<and> (\<forall>a. r = Inr a \<longrightarrow> Q tr a))"
  shows "call_spec cfg g0 P (atomic op) Q"
proof (rule call_specI)
  fix w :: gw_world and tr
  assume 1: "gw_run cfg g0 tr (wg_gateway w)" "gw_env_ok cfg (wg_env w)" "P tr"
  obtain r g' where op: "op (wg_tick w) (wg_gateway w) = (r, g')" by fastforce
  from assms [OF 1(1,3) op] obtain tr' where
    "gw_run cfg (wg_gateway w) tr' g'" "\<forall>a. r = Inr a \<longrightarrow> Q (tr @ tr') a"
    using gw_run_one run_start by (metis append_Nil2)
  with gw_run_append [OF this(1) 1(1)] 1(2) op show "\<exists>tr'. gw_run cfg g0 (tr @ tr') (wg_gateway (snd (atomic op w))) \<and>
      gw_env_ok cfg (wg_env (snd (atomic op w))) \<and> (\<forall>a. fst (atomic op w) = Inr a \<longrightarrow> Q (tr @ tr') a)"
    by (intro exI [of _ tr']) (simp add: atomic_def)
qed

lemma call_spec_change:
  "(\<And>n g. \<exists>ev. gw_step cfg g ev (f n g)) \<Longrightarrow> call_spec cfg g0 P (atomic (\<lambda>n. change (f n))) anything"
  by (rule call_spec_atomic) (auto simp: change_def)

lemma call_spec_ensuring [call_intros]:
  assumes m: "call_spec cfg g0 P m Q" and f: "\<And>g. \<exists>t. gw_step cfg g (t, Quiet) (f g)"
    and mono: "\<And>tr tr' a. Q tr a \<Longrightarrow> Q (tr @ tr') a"
  shows "call_spec cfg g0 P (ensuring m f) Q"
proof (rule call_specI)
  fix w :: gw_world and tr
  assume pre: "gw_run cfg g0 tr (wg_gateway w)" "gw_env_ok cfg (wg_env w)" "P tr"
  obtain r w1 where m1: "m w = (r, w1)" by fastforce
  obtain tr1 where
    1: "gw_run cfg g0 (tr @ tr1) (wg_gateway w1)" "gw_env_ok cfg (wg_env w1)" "\<forall>a. r = Inr a \<longrightarrow> Q (tr @ tr1) a"
    by (rule call_specE [OF m m1 pre])
  obtain t where t: "gw_step cfg (wg_gateway w1) (t, Quiet) (f (wg_gateway w1))" using f by blast
  from run_step [OF 1(1) t] 1(2) mono [OF 1(3) [rule_format]] m1
  show "\<exists>tr'. gw_run cfg g0 (tr @ tr') (wg_gateway (snd (ensuring m f w))) \<and>
      gw_env_ok cfg (wg_env (snd (ensuring m f w))) \<and> (\<forall>a. fst (ensuring m f w) = Inr a \<longrightarrow> Q (tr @ tr') a)"
    by (intro exI [of _ "tr1 @ [(t, Quiet)]"]) (simp add: ensuring_def)
qed

lemma call_spec_if [call_intros]:
  "(b \<Longrightarrow> call_spec cfg g0 P m Q) \<Longrightarrow> (\<not> b \<Longrightarrow> call_spec cfg g0 P n Q) \<Longrightarrow> call_spec cfg g0 P (if b then m else n) Q"
  by simp

lemma call_spec_weaken: "call_spec cfg g0 P m Q \<Longrightarrow> (\<And>tr. P' tr \<Longrightarrow> P tr) \<Longrightarrow> call_spec cfg g0 P' m Q"
  unfolding call_spec_def by blast

lemma call_spec_any: "call_spec cfg g0 P m Q \<Longrightarrow> call_spec cfg g0 P m anything"
  unfolding call_spec_def by blast

section \<open>The parts of a call\<close>

lemma await_spec [call_intros]:
  assumes "\<And>t. call_spec cfg g0 always (b t) anything" and "call_spec cfg g0 always m Q"
  shows "call_spec cfg g0 P (await_with_cancel sy deadline b m) Q"
  unfolding await_with_cancel_def
  by (intro call_intros assms call_spec_draw [THEN call_spec_weaken] | simp)+

lemma quietly_spec [call_intros]: "call_spec cfg g0 P (quietly t) anything"
  by (intro call_intros) simp

lemma check_cancelled_spec [call_intros]: "call_spec cfg g0 P (check_cancelled sy) anything"
  unfolding check_cancelled_def by (intro call_intros) simp

lemma delay_spec [call_intros]: "call_spec cfg g0 P (delay sy d deadline) anything"
  unfolding delay_def by (intro call_intros call_spec_atomic) auto

lemma acquire_spec [call_intros]:
  assumes "\<And>g. \<exists>ev. gw_step cfg g ev (take_it g)"
  shows "call_spec cfg g0 P (acquire sy deadline free take_it) anything"
  unfolding acquire_def using assms by (intro call_intros call_spec_atomic) (auto split: option.splits if_splits)

lemma invoke_spec [call_intros]: "call_spec cfg g0 P (invoke sy pid request deadline ctx) anything"
  unfolding invoke_def by (intro call_intros call_spec_atomic) (auto intro: gw_step.intros)

definition sourced_for :: "gw_sys \<Rightarrow> ProviderRequest \<Rightarrow> ProviderCallContext \<Rightarrow> gw_trace \<Rightarrow> ProviderResult \<Rightarrow> bool" where
  "sourced_for sy request ctx tr r \<longleftrightarrow>
     sourced tr (cx_tenant_id ctx) (request_capability request) (gs_hash sy (request_capability request) request) r"

definition sourced_if_any ::
    "gw_sys \<Rightarrow> ProviderRequest \<Rightarrow> ProviderCallContext \<Rightarrow> gw_trace \<Rightarrow> 'e + ProviderResult \<Rightarrow> bool" where
  "sourced_if_any sy request ctx tr x \<longleftrightarrow> (case x of Inl _ \<Rightarrow> True | Inr r \<Rightarrow> sourced_for sy request ctx tr r)"

abbreviation digests :: "gw_sys \<Rightarrow> bool" where
  "digests sy \<equiv> (\<forall>cap request. is_digest (gs_hash sy cap request))"

abbreviation key_of :: "ProviderRequest \<Rightarrow> ProviderCallContext \<Rightarrow> op_key option" where
  "key_of request ctx \<equiv> operation_key (request_capability request) ctx"

lemma sourced_if_any_simps [simp]:
  "sourced_if_any sy request ctx tr (Inl e)"
  "sourced_if_any sy request ctx tr (Inr r) \<longleftrightarrow> sourced_for sy request ctx tr r"
  by (simp_all add: sourced_if_any_def)

lemma before_call_spec: "call_spec cfg g0 P (atomic (\<lambda>n. before_call cfg pid ctx cost (t n))) anything"
proof (rule call_spec_atomic)
  fix n g tr r g'
  assume "before_call cfg pid ctx cost (t n) g = (r, g')"
  then have "\<exists>ev. gw_step cfg g ev g'" by (cases r) (auto intro: st_admit st_refuse)
  then show "(\<exists>ev. gw_step cfg g ev g' \<and> (\<forall>a. r = Inr a \<longrightarrow> True)) \<or> (g' = g \<and> (\<forall>a. r = Inr a \<longrightarrow> True))" by blast
qed

lemma remember_spec:
  assumes "is_digest h"
  shows "call_spec cfg g0 P
    (atomic (\<lambda>n. change (remember_success cfg cap h ctx (operation_key cap ctx) r (t n) (u n))))
    (\<lambda>tr _. sourced tr (cx_tenant_id ctx) cap h r)"
proof (rule call_spec_atomic)
  fix n g tr x g'
  assume "change (remember_success cfg cap h ctx (operation_key cap ctx) r (t n) (u n)) g = (x, g')"
  then have "gw_step cfg g (t n, Answered ctx cap h r (u n)) g'"
    using st_answer [OF assms] by (auto simp: change_def)
  moreover have "sourced (tr @ [(t n, Answered ctx cap h r (u n))]) (cx_tenant_id ctx) cap h r"
    unfolding sourced_def by (intro exI [of _ "t n"] exI [of _ ctx] exI [of _ r] exI [of _ "u n"]) simp
  ultimately show "(\<exists>ev. gw_step cfg g ev g' \<and> (\<forall>a. x = Inr a \<longrightarrow> sourced (tr @ [ev]) (cx_tenant_id ctx) cap h r)) \<or>
      (g' = g \<and> (\<forall>a. x = Inr a \<longrightarrow> sourced tr (cx_tenant_id ctx) cap h r))" by blast
qed

lemma attempt_body_spec:
  assumes "digests sy"
  shows "call_spec cfg g0 P (attempt_body sy cfg request ctx (key_of request ctx) deadline p) (sourced_for sy request ctx)"
proof -
  let ?cap = "request_capability request"
  let ?h = "gs_hash sy ?cap request"
  have "call_spec cfg g0 always
    (case validate_result v (prv_descriptor p) ?cap of
       Inl e \<Rightarrow> eraise e
     | Inr result \<Rightarrow>
         ebind (atomic (\<lambda>_. change (record_success (prv_id p)))) (\<lambda>_.
         ebind (atomic (\<lambda>n. change (remember_success cfg ?cap ?h ctx (key_of request ctx) result (gs_mono sy n) (gs_wall sy n)))) (\<lambda>_.
         eret result))) (sourced_for sy request ctx)" for v
  proof (cases "validate_result v (prv_descriptor p) ?cap")
    case (Inr result)
    have "call_spec cfg g0 always (ebind (atomic (\<lambda>n. change (remember_success cfg ?cap ?h ctx (key_of request ctx) result
        (gs_mono sy n) (gs_wall sy n)))) (\<lambda>_. eret result)) (sourced_for sy request ctx)"
      by (rule call_spec_bind [OF remember_spec]) (use assms in \<open>auto simp: sourced_for_def intro: call_intros\<close>)
    from call_spec_seq [OF call_spec_change [where f = "\<lambda>_. record_success (prv_id p)"] this] show ?thesis
      unfolding Inr sum.case by (auto intro: st_success)
  qed (simp add: call_spec_raise)
  then show ?thesis
    unfolding attempt_body_def Let_def by (intro call_intros before_call_spec)
qed

lemma attempt_spec:
  assumes "digests sy"
  shows "call_spec cfg g0 P (attempt sy cfg request ctx (key_of request ctx) deadline p) (sourced_if_any sy request ctx)"
proof -
  have released: "call_spec cfg g0 always (ebind (atomic (\<lambda>_. change (release_half_open pid))) (\<lambda>_. eraise e))
      (sourced_if_any sy request ctx)" for pid e
    by (intro call_intros call_spec_change) (auto intro: st_release)
  have failed: "call_spec cfg g0 always (ebind (atomic (\<lambda>n. change (record_failure cfg pid c (gs_mono sy n)))) (\<lambda>_. eret (Inl e)))
      (sourced_if_any sy request ctx)" for pid e c
    by (intro call_intros call_spec_change) (auto intro: st_failure)
  have body: "call_spec cfg g0 always (ebind (attempt_body sy cfg request ctx (key_of request ctx) deadline p) (\<lambda>r. eret (Inr r)))
      (sourced_if_any sy request ctx)"
    by (rule call_spec_bind [OF attempt_body_spec [OF assms]]) (auto intro: call_intros)
  show ?thesis
    unfolding attempt_def Let_def
    by (intro call_intros call_spec_catch body) (auto intro: released failed split: gw_exc.split)
qed

lemma attempts_spec:
  assumes "digests sy"
  shows "call_spec cfg g0 P (attempts sy cfg request ctx (key_of request ctx) deadline p a n) (sourced_if_any sy request ctx)"
proof (induction n arbitrary: a P)
  case 0
  show ?case by (simp add: attempt_spec [OF assms])
next
  case (Suc n)
  show ?case
    unfolding attempts.simps
  proof (rule call_spec_bind [OF attempt_spec [OF assms]])
    fix x
    show "call_spec cfg g0 (\<lambda>tr. sourced_if_any sy request ctx tr x)
      (case x of Inl e \<Rightarrow> if retryable (pe_class e)
           then ebind (draw (gs_jitter sy)) (\<lambda>jitter.
                ebind (delay sy (gp_backoff (gc_policy cfg) * 2 ^ a + jitter) deadline) (\<lambda>_.
                attempts sy cfg request ctx (key_of request ctx) deadline p (a + 1) n))
           else eret (Inl e)
       | Inr r \<Rightarrow> eret (Inr r)) (sourced_if_any sy request ctx)"
      by (cases x) (auto intro!: call_intros Suc.IH)
  qed
qed

lemma try_providers_spec:
  assumes "digests sy"
  shows "call_spec cfg g0 P (try_providers sy cfg request ctx (key_of request ctx) deadline ps l) (sourced_if_any sy request ctx)"
proof (induction ps arbitrary: l P)
  case Nil
  show ?case unfolding try_providers.simps by (intro call_intros) simp
next
  case (Cons p ps)
  have "call_spec cfg g0 (\<lambda>tr. sourced_if_any sy request ctx tr x)
      (case x of Inl e \<Rightarrow> try_providers sy cfg request ctx (key_of request ctx) deadline ps (Some e)
       | Inr r \<Rightarrow> eret (Inr r)) (sourced_if_any sy request ctx)" for x
    by (cases x) (auto intro!: call_intros Cons.IH)
  then show ?case
    unfolding try_providers.simps
    by (intro call_spec_if Cons.IH call_spec_bind [OF attempts_spec [OF assms]])
qed

lemma lookup_spec:
  assumes "fresh_gateway cfg g0" and "is_digest h"
  shows "call_spec cfg g0 P (atomic (\<lambda>n. lookup cfg cap h ctx (operation_key cap ctx) (t n) (u n)))
    (\<lambda>tr x. \<forall>r. x = Some r \<longrightarrow> sourced tr (cx_tenant_id ctx) cap h r)"
proof (rule call_spec_atomic)
  fix n g tr x g'
  assume "gw_run cfg g0 tr g" and l: "lookup cfg cap h ctx (operation_key cap ctx) (t n) (u n) g = (x, g')"
  then have "origin_inv cfg tr g" using assms(1) by (blast intro: gw_run_origin)
  then have "\<forall>a. x = Inr a \<longrightarrow> (\<forall>r. a = Some r \<longrightarrow> sourced (tr @ [(t n, Quiet)]) (cx_tenant_id ctx) cap h r)"
    using l lookup_sourced [OF _ assms(2)] by (blast intro: sourced_append)
  with st_lookup [OF l assms(2)]
  show "(\<exists>ev. gw_step cfg g ev g' \<and> (\<forall>a. x = Inr a \<longrightarrow> (\<forall>r. a = Some r \<longrightarrow> sourced (tr @ [ev]) (cx_tenant_id ctx) cap h r))) \<or>
      (g' = g \<and> (\<forall>a. x = Inr a \<longrightarrow> (\<forall>r. a = Some r \<longrightarrow> sourced tr (cx_tenant_id ctx) cap h r)))" by blast
qed

lemma stale_spec:
  assumes "fresh_gateway cfg g0" and "is_digest h"
  shows "call_spec cfg g0 P
    (atomic (\<lambda>n g. case stale_fallback cfg cap h ctx (operation_key cap ctx) (t n) g of (r, g') \<Rightarrow> (Inr r, g')))
    (\<lambda>tr x. \<forall>r. x = Some r \<longrightarrow> sourced tr (cx_tenant_id ctx) cap h r)"
proof (rule call_spec_atomic)
  fix n g tr x g'
  assume "gw_run cfg g0 tr g"
    and "(case stale_fallback cfg cap h ctx (operation_key cap ctx) (t n) g of (r, g') \<Rightarrow> (Inr r, g')) = (x, g')"
  then obtain r where l: "stale_fallback cfg cap h ctx (operation_key cap ctx) (t n) g = (r, g')" and x: "x = Inr r"
    and "origin_inv cfg tr g"
    using assms(1) gw_run_origin by (cases "stale_fallback cfg cap h ctx (operation_key cap ctx) (t n) g") auto
  then have "\<forall>y. r = Some y \<longrightarrow> sourced (tr @ [(t n, Quiet)]) (cx_tenant_id ctx) cap h y"
    using stale_sourced [OF _ assms(2)] by (blast intro: sourced_append)
  with st_stale [OF l assms(2)] x
  show "(\<exists>ev. gw_step cfg g ev g' \<and> (\<forall>a. x = Inr a \<longrightarrow> (\<forall>r. a = Some r \<longrightarrow> sourced (tr @ [ev]) (cx_tenant_id ctx) cap h r))) \<or>
      (g' = g \<and> (\<forall>a. x = Inr a \<longrightarrow> (\<forall>r. a = Some r \<longrightarrow> sourced tr (cx_tenant_id ctx) cap h r)))" by blast
qed

lemma stale_or_raise_spec:
  assumes "fresh_gateway cfg g0" and "digests sy"
  shows "call_spec cfg g0 P (stale_or_raise sy cfg request ctx (key_of request ctx) l) (sourced_for sy request ctx)"
  unfolding stale_or_raise_def Let_def
  by (intro call_spec_if call_spec_raise call_spec_bind [OF stale_spec])
    (use assms in \<open>auto simp: sourced_for_def intro: call_intros split: option.split\<close>)

lemma execute_locked_spec:
  assumes "fresh_gateway cfg g0" and "digests sy"
  shows "call_spec cfg g0 P (execute_locked sy cfg request ctx (key_of request ctx) deadline) (sourced_for sy request ctx)"
proof -
  let ?tried = "ebind (try_providers sy cfg request ctx (key_of request ctx) deadline (allowed_providers cfg (request_capability request)) None)
    (\<lambda>x. case x of Inr r \<Rightarrow> eret r | Inl l \<Rightarrow> stale_or_raise sy cfg request ctx (key_of request ctx) l)"
  have "call_spec cfg g0 (\<lambda>tr. sourced_if_any sy request ctx tr x)
      (case x of Inr r \<Rightarrow> eret r | Inl l \<Rightarrow> stale_or_raise sy cfg request ctx (key_of request ctx) l)
      (sourced_for sy request ctx)" for x
    by (cases x) (auto intro!: call_intros stale_or_raise_spec assms)
  then have tried: "call_spec cfg g0 Q ?tried (sourced_for sy request ctx)" for Q
    by (intro call_spec_bind [OF try_providers_spec [OF assms(2)]])
  show ?thesis
    unfolding execute_locked_def Let_def
    by (intro call_spec_seq [OF check_cancelled_spec] call_spec_bind [OF lookup_spec])
      (use assms tried in \<open>auto simp: sourced_for_def intro!: call_intros split: option.split\<close>)
qed

lemma execute_spec:
  assumes "fresh_gateway cfg g0" and "digests sy"
  shows "call_spec cfg g0 always (execute sy cfg request ctx) (sourced_for sy request ctx)"
proof -
  have mono: "sourced_for sy request ctx (tr @ tr') r" if "sourced_for sy request ctx tr r" for tr tr' r
    using that by (simp add: sourced_for_def sourced_append)
  have reserve: "call_spec cfg g0 always (atomic (\<lambda>_ g. case reserve_lock k g of (l, g') \<Rightarrow> (Inr l, g'))) anything" for k
  proof (rule call_spec_atomic)
    fix g r g'
    assume "(case reserve_lock k g of (l, g') \<Rightarrow> (Inr l, g')) = (r, g')"
    then obtain l where "reserve_lock k g = (l, g')" by (cases "reserve_lock k g") auto
    from st_reserve [OF this] show "(\<exists>ev. gw_step cfg g ev g' \<and> (\<forall>a. r = Inr a \<longrightarrow> True)) \<or> (g' = g \<and> (\<forall>a. r = Inr a \<longrightarrow> True))"
      by blast
  qed
  show ?thesis
  proof (cases "key_of request ctx")
    case None
    have "call_spec cfg g0 always (execute_locked sy cfg request ctx None deadline) (sourced_for sy request ctx)" for deadline
      using execute_locked_spec [OF assms, where request = request and ctx = ctx] None by metis
    with None show ?thesis
      unfolding execute_def Let_def by (simp add: call_spec_seq [OF call_spec_draw])
  next
    case (Some k)
    have "call_spec cfg g0 always (execute_locked sy cfg request ctx (Some k) deadline) (sourced_for sy request ctx)" for deadline
      using execute_locked_spec [OF assms, where request = request and ctx = ctx] Some by metis
    then have "call_spec cfg g0 always
      (ebind (atomic (\<lambda>_ g. case reserve_lock k g of (l, g') \<Rightarrow> (Inr l, g'))) (\<lambda>l.
           ebind (acquire sy deadline (\<lambda>g. l \<notin> set (gw_locked g)) (lock_object l)) (\<lambda>_.
           ensuring (execute_locked sy cfg request ctx (Some k) deadline) (unlock_object l))))
      (sourced_for sy request ctx)" for deadline
      by (intro call_spec_seq reserve acquire_spec call_spec_ensuring) (auto intro: st_lock st_unlock mono)
    with Some show ?thesis
      unfolding execute_def Let_def by (simp add: call_spec_seq [OF call_spec_draw])
  qed
qed

section \<open>Provider methods started\<close>

text \<open>At most \<open>n\<close> provider methods are started, all satisfying \<open>D\<close>.\<close>

definition starts :: "(string \<times> instant \<Rightarrow> bool) \<Rightarrow> nat \<Rightarrow> 'a gw_co \<Rightarrow> bool" where
  "starts D n m \<longleftrightarrow> (\<forall>w. \<exists>new. wg_calls (snd (m w)) = wg_calls w @ new \<and> length new \<le> n \<and> (\<forall>c \<in> set new. D c))"

lemma startsD:
  assumes "starts D n m" and "m w = (r, w')"
  obtains new where "wg_calls w' = wg_calls w @ new" "length new \<le> n" "\<forall>c \<in> set new. D c"
  using assms unfolding starts_def by (metis snd_conv)

lemma starts_quiet: "(\<And>w. wg_calls (snd (m w)) = wg_calls w) \<Longrightarrow> starts D n m"
  by (simp add: starts_def)

lemma starts_more: "starts D n m \<Longrightarrow> n \<le> k \<Longrightarrow> starts D k m"
  unfolding starts_def by (meson le_trans)

lemma starts_bind:
  assumes "starts D n m" and "\<And>a. starts D k (f a)"
  shows "starts D (n + k) (ebind m f)"
  unfolding starts_def
proof
  fix w :: gw_world
  obtain r w1 where m1: "m w = (r, w1)" by fastforce
  obtain new where 1: "wg_calls w1 = wg_calls w @ new" "length new \<le> n" "\<forall>c \<in> set new. D c"
    by (rule startsD [OF assms(1) m1])
  show "\<exists>new. wg_calls (snd (ebind m f w)) = wg_calls w @ new \<and> length new \<le> n + k \<and> (\<forall>c \<in> set new. D c)"
  proof (cases r)
    case (Inl e)
    with m1 1 show ?thesis by (intro exI [of _ new]) simp
  next
    case (Inr a)
    obtain r2 w2 where f2: "f a w1 = (r2, w2)" by fastforce
    obtain new2 where "wg_calls w2 = wg_calls w1 @ new2" "length new2 \<le> k" "\<forall>c \<in> set new2. D c"
      by (rule startsD [OF assms(2) f2])
    with 1 m1 f2 Inr show ?thesis by (intro exI [of _ "new @ new2"]) auto
  qed
qed

lemma starts_then: "starts D 0 m \<Longrightarrow> (\<And>a. starts D k (f a)) \<Longrightarrow> starts D k (ebind m f)"
  using starts_bind [of D 0 m k f] by simp

lemma starts_after: "starts D n m \<Longrightarrow> (\<And>a. starts D 0 (f a)) \<Longrightarrow> starts D n (ebind m f)"
  using starts_bind [of D n m 0 f] by simp

lemma starts_catch: "starts D n m \<Longrightarrow> (\<And>e. starts D 0 (h e)) \<Longrightarrow> starts D n (ecatch m h)"
proof -
  assume m: "starts D n m" and h: "\<And>e. starts D 0 (h e)"
  have "\<exists>new. wg_calls (snd (ecatch m h w)) = wg_calls w @ new \<and> length new \<le> n \<and> (\<forall>c \<in> set new. D c)" for w
  proof -
    obtain r w1 where m1: "m w = (r, w1)" by fastforce
    obtain new where 1: "wg_calls w1 = wg_calls w @ new" "length new \<le> n" "\<forall>c \<in> set new. D c"
      by (rule startsD [OF m m1])
    have "wg_calls (snd (h e w1)) = wg_calls w1" for e
      using h [of e] unfolding starts_def by force
    with 1 m1 show ?thesis by (cases r) (auto simp: ecatch_def)
  qed
  then show ?thesis unfolding starts_def by blast
qed

lemma starts_basic [starts_intros]:
  "starts D n (eret a)" "starts D n (eraise e)" "starts D n (draw f)" "starts D n (atomic op)" "starts D n suspend"
  by (rule starts_quiet, simp add: draw_def atomic_def suspend_def split: prod.split list.split)+

lemma starts_ensuring [starts_intros]: "starts D n m \<Longrightarrow> starts D n (ensuring m f)"
  by (simp add: starts_def ensuring_def split: prod.split) (metis snd_conv)

lemma starts_if [starts_intros]: "(b \<Longrightarrow> starts D n m) \<Longrightarrow> (\<not> b \<Longrightarrow> starts D n k) \<Longrightarrow> starts D n (if b then m else k)"
  by simp

lemma starts_await_quietly [starts_intros]: "starts D 0 m \<Longrightarrow> starts D 0 (await_with_cancel sy deadline quietly m)"
  unfolding await_with_cancel_def by (intro starts_then starts_intros)

lemma starts_await:
  assumes "\<And>t. t < deadline \<Longrightarrow> D (pid, t)"
  shows "starts D 1 (await_with_cancel sy deadline (started pid) (atomic op))"
  unfolding await_with_cancel_def
proof (intro starts_then [OF starts_basic(3)] starts_if starts_basic starts_after [where n = 1])
  fix now
  assume "\<not> deadline - now \<le> 0"
  with assms show "starts D 1 (started pid now)" by (simp add: starts_def started_def)
  show "starts D 0 (ebind suspend (\<lambda>_. atomic op))" by (intro starts_then starts_intros)
qed

lemma starts_waits [starts_intros]:
  "starts D 0 (acquire sy deadline free take_it)" "starts D 0 (check_cancelled sy)" "starts D 0 (delay sy d deadline)"
  unfolding acquire_def check_cancelled_def delay_def by (intro starts_intros starts_then)+

lemma starts_attempt_body:
  "starts (\<lambda>(q, t). q = prv_id p \<and> t < deadline) 1 (attempt_body sy cfg request ctx key deadline p)"
proof -
  have i: "starts (\<lambda>(q, t). q = prv_id p \<and> t < deadline) 1 (invoke sy (prv_id p) request deadline ctx)"
    unfolding invoke_def by (intro starts_then starts_intros starts_await) simp
  have r: "starts D 0 (case x of Inl e \<Rightarrow> eraise e | Inr result \<Rightarrow> ebind (atomic f) (\<lambda>_. ebind (atomic (g result)) (\<lambda>_. eret result)))"
    for D x f g by (cases x) (auto intro: starts_then starts_intros simp del: eret_def eraise_def)
  show ?thesis
    unfolding attempt_body_def Let_def
    by (intro starts_then [OF starts_basic(4)] starts_if starts_basic starts_after [OF i] r)
qed

lemma starts_attempt:
  "starts (\<lambda>(q, t). q = prv_id p \<and> t < deadline) 1 (attempt sy cfg request ctx key deadline p)"
  unfolding attempt_def Let_def
  by (intro starts_then [OF starts_waits(2)] starts_then [OF starts_basic(3)] starts_if starts_basic
      starts_catch starts_after [OF starts_attempt_body])
    (auto intro!: starts_then starts_intros split: gw_exc.split simp del: eret_def eraise_def)

lemma starts_attempts:
  "starts (\<lambda>(q, t). q = prv_id p \<and> t < deadline) (Suc n) (attempts sy cfg request ctx key deadline p a n)"
proof (induction n arbitrary: a)
  case 0
  show ?case using starts_attempt by simp
next
  case (Suc n)
  have "starts (\<lambda>(q, t). q = prv_id p \<and> t < deadline) (Suc n)
      (case x of Inl e \<Rightarrow> if retryable (pe_class e)
           then ebind (draw (gs_jitter sy)) (\<lambda>jitter.
                ebind (delay sy (gp_backoff (gc_policy cfg) * 2 ^ a + jitter) deadline) (\<lambda>_.
                attempts sy cfg request ctx key deadline p (a + 1) n))
           else eret (Inl e)
       | Inr r \<Rightarrow> eret (Inr r))" for x
    by (cases x) (auto intro!: starts_then starts_intros Suc.IH simp del: eret_def)
  from starts_bind [OF starts_attempt this] show ?case by simp
qed

lemma starts_try_providers:
  "starts (\<lambda>(q, t). q \<in> prv_id ` set (filter (\<lambda>p. ds_configured (prv_descriptor p)) ps) \<and> t < deadline)
     (length ps * Suc (gp_max_retries (gc_policy cfg))) (try_providers sy cfg request ctx key deadline ps l)"
proof (induction ps arbitrary: l)
  case Nil
  show ?case by (simp add: starts_basic(1) del: eret_def)
next
  case (Cons p ps)
  let ?n = "Suc (gp_max_retries (gc_policy cfg))"
  let ?D = "\<lambda>(q, t). q \<in> prv_id ` set (filter (\<lambda>p. ds_configured (prv_descriptor p)) (p # ps)) \<and> t < deadline"
  have weaker: "starts ?D n m" if "starts D n m" "\<And>c. D c \<Longrightarrow> ?D c" for D n and m :: "'a gw_co"
    using that unfolding starts_def by meson
  have rest: "starts ?D (length ps * ?n) (try_providers sy cfg request ctx key deadline ps l)" for l
    by (rule weaker [OF Cons.IH]) auto
  have "starts ?D (length ps * ?n) (case x of Inr r \<Rightarrow> eret (Inr r)
      | Inl e \<Rightarrow> try_providers sy cfg request ctx key deadline ps (Some e))" for x :: "ProviderError + ProviderResult"
    using rest by (cases x) (auto intro: starts_intros simp del: eret_def)
  moreover have "starts ?D ?n (attempts sy cfg request ctx key deadline p 0 (gp_max_retries (gc_policy cfg)))"
    if "ds_configured (prv_descriptor p)"
    by (rule weaker [OF starts_attempts]) (use that in auto)
  ultimately have "starts ?D (?n + length ps * ?n)
      (ebind (attempts sy cfg request ctx key deadline p 0 (gp_max_retries (gc_policy cfg))) (\<lambda>x. case x of Inr r \<Rightarrow> eret (Inr r)
        | Inl e \<Rightarrow> try_providers sy cfg request ctx key deadline ps (Some e)))" if "ds_configured (prv_descriptor p)"
    using that by (intro starts_bind)
  moreover have "starts ?D (?n + length ps * ?n) (try_providers sy cfg request ctx key deadline ps l)" for l
    by (rule starts_more [OF rest]) simp
  ultimately show ?case unfolding try_providers.simps length_Cons mult_Suc by (intro starts_if) simp_all
qed

lemma starts_execute_locked:
  "starts (\<lambda>(q, t). q \<in> prv_id ` set (filter (\<lambda>p. ds_configured (prv_descriptor p))
       (allowed_providers cfg (request_capability request))) \<and> t < deadline)
     (length (allowed_providers cfg (request_capability request)) * Suc (gp_max_retries (gc_policy cfg)))
     (execute_locked sy cfg request ctx key deadline)"
proof -
  have stale: "starts D n (stale_or_raise sy cfg request ctx key l)" for D n l
  proof -
    have "starts D 0 (case x of None \<Rightarrow> eraise e | Some r \<Rightarrow> eret r)" for x :: "ProviderResult option" and e
      by (cases x) (auto intro: starts_intros simp del: eret_def eraise_def)
    then have "starts D 0 (stale_or_raise sy cfg request ctx key l)"
      unfolding stale_or_raise_def Let_def by (intro starts_if starts_then starts_basic)
    then show ?thesis by (rule starts_more) simp
  qed
  have "starts D 0 (case x of Inr r \<Rightarrow> eret r | Inl l \<Rightarrow> stale_or_raise sy cfg request ctx key l)"
    for D and x :: "ProviderError option + ProviderResult"
    using stale by (cases x) (auto intro: starts_intros simp del: eret_def)
  note tried = starts_after [OF starts_try_providers this]
  have known: "starts D n (case x of Some r \<Rightarrow> eret r | None \<Rightarrow> m)" if "starts D n m"
    for D n and x :: "ProviderResult option" and m
    using that by (cases x) (auto intro: starts_intros simp del: eret_def)
  show ?thesis
    unfolding execute_locked_def Let_def
    by (intro starts_then [OF starts_waits(2)] starts_then [OF starts_basic(4)] known starts_if starts_basic tried)
qed

lemma starts_execute:
  "\<exists>new. wg_calls (snd (execute sy cfg request ctx w)) = wg_calls w @ new \<and>
     length new \<le> length (allowed_providers cfg (request_capability request)) * Suc (gp_max_retries (gc_policy cfg)) \<and>
     (\<forall>(q, t) \<in> set new. q \<in> prv_id ` set (filter (\<lambda>p. ds_configured (prv_descriptor p))
        (allowed_providers cfg (request_capability request))) \<and>
        t < call_deadline (gc_policy cfg) ctx (gs_mono sy (wg_tick w)))"
proof -
  let ?d = "call_deadline (gc_policy cfg) ctx (gs_mono sy (wg_tick w))"
  let ?n = "length (allowed_providers cfg (request_capability request)) * Suc (gp_max_retries (gc_policy cfg))"
  let ?D = "\<lambda>(q, t). q \<in> prv_id ` set (filter (\<lambda>p. ds_configured (prv_descriptor p))
       (allowed_providers cfg (request_capability request))) \<and> t < ?d"
  let ?m = "case key_of request ctx of
      None \<Rightarrow> execute_locked sy cfg request ctx None ?d
    | Some k \<Rightarrow> ebind (atomic (\<lambda>_ g. case reserve_lock k g of (l, g') \<Rightarrow> (Inr l, g'))) (\<lambda>l.
           ebind (acquire sy ?d (\<lambda>g. l \<notin> set (gw_locked g)) (lock_object l)) (\<lambda>_.
           ensuring (execute_locked sy cfg request ctx (Some k) ?d) (unlock_object l)))"
  have st: "starts ?D ?n ?m"
  proof (cases "key_of request ctx")
    case None
    show ?thesis unfolding None option.case by (rule starts_execute_locked)
  next
    case (Some k)
    show ?thesis unfolding Some option.case
      by (intro starts_then [OF starts_basic(4)] starts_then [OF starts_waits(1)] starts_ensuring starts_execute_locked)
  qed
  have ex: "execute sy cfg request ctx w = ?m (w\<lparr>wg_tick := wg_tick w + 1\<rparr>)"
    by (simp add: execute_def draw_def Let_def ebind_def split: option.split)
  obtain r w' where mw: "?m (w\<lparr>wg_tick := wg_tick w + 1\<rparr>) = (r, w')" by (rule prod.exhaust)
  obtain new where "wg_calls w' = wg_calls (w\<lparr>wg_tick := wg_tick w + 1\<rparr>) @ new" "length new \<le> ?n" "\<forall>c \<in> set new. ?D c"
    by (rule startsD [OF st mw])
  then show ?thesis unfolding ex mw snd_conv by (intro exI [of _ new]) simp
qed

end
