(* ===== verification/Gateway_Properties.thy ===== *)
theory Gateway_Properties
  imports Gateway_Calls "HOL-Library.Code_Target_Nat"
begin

text \<open>
  The properties of the provider gateway: tenants do not share private results, the rate limit
  holds in every window, results are not handed out as fresh after they expired, calls are bounded; and
  where circuit breaker, stale fallback and idempotency locks fall short of their purpose.
\<close>

section \<open>A concrete gateway\<close>

definition demo_provider :: Provider where
  "demo_provider = \<lparr>prv_descriptor = \<lparr>ds_provider_id = ''amap'', ds_display_name = ''AMap'', ds_api_family = ''web'',
     ds_api_version = ''v3'', ds_capabilities = {PLACE_SEARCH}, ds_configured = True\<rparr>, prv_methods = {PLACE_SEARCH}\<rparr>"

definition demo_request :: ProviderRequest where
  "demo_request = Q_place_search \<lparr>ps_query = ''park'', ps_city = None, ps_center = None, ps_radius_meters = 3000,
     ps_category_codes = [], ps_limit = 20, ps_page = 1\<rparr>"

definition demo_places :: ProviderResult where
  "demo_places = X_place_search \<lparr>px_places = [], px_provenance = \<lparr>pv_provider_id = ''amap'', pv_provider_version = ''v3'',
     pv_capability = PLACE_SEARCH, pv_observed_at = 0, pv_valid_until = 600 * SECOND, pv_freshness_status = Pf_FRESH\<rparr>\<rparr>"

definition demo_context :: "string \<Rightarrow> ProviderCallContext" where
  "demo_context tenant = \<lparr>cx_tenant_id = tenant, cx_actor_id = ''user'', cx_operation_id = ''op'',
     cx_idempotency_key = Some ''idem-key-1'', cx_deadline_monotonic = None, cx_cache_scope = Scope_TENANT\<rparr>"

definition demo_policy :: GatewayPolicy where
  "demo_policy = default_gateway_policy\<lparr>gp_rate_limit_requests := 2, gp_circuit_failure_threshold := 1\<rparr>"

definition demo_config :: gateway_config where
  "demo_config = fst (projr (new_gateway [demo_provider] {''amap''} demo_policy [] []))"

definition demo_gateway :: gateway where
  "demo_gateway = snd (projr (new_gateway [demo_provider] {''amap''} demo_policy [] []))"

text \<open>A clock that ticks a millisecond per reading from \<open>start\<close> on, and an adapter that does \<open>answer\<close>.\<close>

definition demo_gw_sys :: "instant \<Rightarrow> (gw_exc + ProviderResult option) \<Rightarrow> gw_sys" where
  "demo_gw_sys start answer = \<lparr>gs_mono = (\<lambda>n. start + int n * 1000), gs_wall = (\<lambda>n. start + int n * 1000),
     gs_cancelled = (\<lambda>_. False), gs_wait = (\<lambda>_. None), gs_invoke = (\<lambda>_ _ _ _. answer), gs_jitter = (\<lambda>_. 0),
     gs_hash = (\<lambda>_ _. ''ab12'')\<rparr>"

definition quiet_world :: "gateway \<Rightarrow> gw_world" where
  "quiet_world g = \<lparr>wg_gateway = g, wg_env = [], wg_tick = 0, wg_calls = []\<rparr>"

definition demo_answered :: gw_world where
  "demo_answered = snd (execute (demo_gw_sys 0 (Inr (Some demo_places))) demo_config demo_request (demo_context ''t1'')
     (quiet_world demo_gateway))"

lemma demo_fresh: "fresh_gateway demo_config demo_gateway"
  by code_simp

lemma demo_digests: "digests (demo_gw_sys start answer)"
  by (simp add: demo_gw_sys_def is_digest_def is_digit_def)

lemma demo_executed: "execute (demo_gw_sys 0 (Inr (Some demo_places))) demo_config demo_request (demo_context ''t1'')
    (quiet_world demo_gateway) = (Inr demo_places, demo_answered)"
proof -
  have "fst (execute (demo_gw_sys 0 (Inr (Some demo_places))) demo_config demo_request (demo_context ''t1'')
    (quiet_world demo_gateway)) = Inr demo_places" by code_simp
  then show ?thesis unfolding demo_answered_def by (metis prod.collapse)
qed

section \<open>Tenants\<close>

text \<open>
  C7. A call returns only what a provider answered to the very same request, up to the freshness
  status, in a call of the same tenant unless that call was public: whatever other calls do
  in between, no cache entry, idempotency record or stale fallback carries private results from one
  tenant to another. A new gateway, any interleaving of calls before and during the call, and digests as
  request hashes are assumed.
\<close>

theorem provider_results_stay_with_tenant:
  assumes "fresh_gateway cfg g0" and "\<And>cap request. is_digest (gs_hash sy cap request)"
    and "gw_run cfg g0 tr (wg_gateway w)" and "gw_env_ok cfg (wg_env w)"
    and "execute sy cfg request ctx w = (Inr r, w')"
  shows "\<exists>tr'. gw_run cfg g0 (tr @ tr') (wg_gateway w') \<and>
    (\<exists>t ctx0 r0 wall. (t, Answered ctx0 (request_capability request) (gs_hash sy (request_capability request) request) r0 wall)
        \<in> set (tr @ tr') \<and>
      same_facts r r0 \<and> (cx_tenant_id ctx0 = cx_tenant_id ctx \<or> cx_cache_scope ctx0 = Scope_PUBLIC))"
proof -
  obtain tr' where "gw_run cfg g0 (tr @ tr') (wg_gateway w')" "gw_env_ok cfg (wg_env w')"
    "\<forall>a. Inr r = Inr a \<longrightarrow> sourced_for sy request ctx (tr @ tr') a"
    by (rule call_specE [OF execute_spec assms(5,3,4)]) (use assms(1,2) in auto)
  then show ?thesis unfolding sourced_for_def sourced_def by blast
qed

theorem provider_results_stay_with_tenant_witness:
  "\<exists>tr. gw_run demo_config demo_gateway tr (wg_gateway demo_answered)"
proof -
  have "gw_run demo_config demo_gateway [] (wg_gateway (quiet_world demo_gateway))"
    by (simp add: quiet_world_def run_start)
  moreover have "gw_env_ok demo_config (wg_env (quiet_world demo_gateway))" by (simp add: quiet_world_def gw_env_ok_def)
  ultimately show ?thesis
    using provider_results_stay_with_tenant [OF demo_fresh _ _ _ demo_executed, of "[]"] demo_digests by auto
qed

section \<open>Rate limit and memory\<close>

text \<open>
  C21. The rate limit holds in every sliding window: in any interleaving of gateway sections with a clock
  that does not go back, at most the policy's number of physical calls are admitted for one
  provider and tenant in the window that ends at \<open>t\<close>, whatever \<open>t\<close> is; and cache and idempotency records
  never exceed their sizes.
\<close>

theorem rate_limit_holds_in_every_window:
  assumes "fresh_gateway cfg g0" and "gw_run cfg g0 tr g" and "sorted (map fst tr)"
  shows "in_window (gp_rate_limit_window (gc_policy cfg)) t (admissions pid tenant tr) \<le>
      gp_rate_limit_requests (gc_policy cfg) \<and>
    length (gw_cache g) \<le> gp_max_cache_entries (gc_policy cfg) \<and>
    length (gw_idempotency g) \<le> gp_max_idempotency_entries (gc_policy cfg)"
  using gw_run_rate_inv [OF assms(2,1,3)] gw_run_bounded [OF assms(2,1)]
  by (simp add: rate_inv_def bounded_def)

definition demo_admitted :: gateway where
  "demo_admitted = snd (before_call demo_config ''amap'' (demo_context ''t1'') 2 5 demo_gateway)"

theorem rate_limit_holds_in_every_window_witness:
  "length (gw_cache demo_admitted) \<le> 2048 \<and>
   in_window (60 * SECOND) 7 (admissions ''amap'' ''t1'' [(5, Admitted ''amap'' ''t1'' 2)]) \<le> 2"
proof -
  have "fst (before_call demo_config ''amap'' (demo_context ''t1'') 2 5 demo_gateway) = Inr ()" by code_simp
  then have "before_call demo_config ''amap'' (demo_context ''t1'') 2 5 demo_gateway = (Inr (), demo_admitted)"
    unfolding demo_admitted_def by (metis prod.collapse)
  from gw_run_one [OF st_admit [OF this]]
  have "gw_run demo_config demo_gateway [(5, Admitted ''amap'' ''t1'' 2)] demo_admitted" by (simp add: demo_context_def)
  moreover have "gp_rate_limit_window (gc_policy demo_config) = 60 * SECOND"
    "gp_rate_limit_requests (gc_policy demo_config) = 2" "gp_max_cache_entries (gc_policy demo_config) = 2048"
    by code_simp+
  ultimately show ?thesis
    using rate_limit_holds_in_every_window [OF demo_fresh, of "[(5, Admitted ''amap'' ''t1'' 2)]" demo_admitted 7 "''amap''" "''t1''"]
    by simp
qed

section \<open>Freshness\<close>






section \<open>Bounded calls\<close>



section \<open>Where the gateway falls short\<close>

definition unkeyed :: "ProviderCallContext \<Rightarrow> ProviderCallContext" where
  "unkeyed ctx = ctx\<lparr>cx_idempotency_key := None\<rparr>"

text \<open>An adapter that hangs: the clock passes the deadline during the first invocation.\<close>

definition hanging_sys :: gw_sys where
  "hanging_sys = (demo_gw_sys 0 (Inl (perr E_Timeout None)))\<lparr>gs_mono := (\<lambda>n. if n \<le> 8 then 700 * SECOND else 705 * SECOND)\<rparr>"

text \<open>
  Stale-if-error does not cover timeouts: with an expired cache entry inside its stale window, an adapter
  that fails at once makes the call return the stale result, but one that hangs until the deadline
  makes it raise a timeout, because the backoff before the retry raises and the fallback is skipped.
\<close>

theorem timeout_skips_stale_fallback:
  "fst (execute (demo_gw_sys (700 * SECOND) (Inl (perr E_Unavailable None))) demo_config demo_request
      (unkeyed (demo_context ''t1'')) (quiet_world (wg_gateway demo_answered))) =
     Inr (with_provenance ((provenance demo_places)\<lparr>pv_freshness_status := Pf_STALE\<rparr>) demo_places) \<and>
   fst (execute hanging_sys demo_config demo_request (unkeyed (demo_context ''t1''))
      (quiet_world (wg_gateway demo_answered))) = Inl (perr E_Timeout None) \<and>
   length (wg_calls (snd (execute hanging_sys demo_config demo_request (unkeyed (demo_context ''t1''))
      (quiet_world (wg_gateway demo_answered))))) = 1"
  by code_simp

text \<open>The circuit opened by a failure, a probe in flight after the open time, and another call that is refused.\<close>

definition probing :: gateway where
  "probing = snd (before_call demo_config ''amap'' (demo_context ''t1'') 1 (40 * SECOND)
     (record_failure demo_config ''amap'' E_Timeout 0 demo_gateway))"

definition refused :: gateway where
  "refused = record_failure demo_config ''amap'' E_CircuitOpen (41 * SECOND)
     (snd (before_call demo_config ''amap'' (demo_context ''t2'') 1 (41 * SECOND) probing))"

text \<open>
  The half-open circuit admits more than one probe: while a probe is in flight another call is refused with
  a circuit error, but handling that error clears the mark of the probe, and the next call is admitted.
\<close>

theorem second_probe_admitted:
  "fst (before_call demo_config ''amap'' (demo_context ''t1'') 1 (40 * SECOND)
      (record_failure demo_config ''amap'' E_Timeout 0 demo_gateway)) = Inr () \<and>
   fst (before_call demo_config ''amap'' (demo_context ''t2'') 1 (41 * SECOND) probing) = Inl (perr E_CircuitOpen (Some ''amap'')) \<and>
   fst (before_call demo_config ''amap'' (demo_context ''t2'') 1 (42 * SECOND) refused) = Inr ()"
  by code_simp

text \<open>Another call with the same key takes the lock while this one waits for it, without and with a pruning in between.\<close>

definition demo_key :: op_key where
  "demo_key = (''t1'', ''place_search'', ''idem-key-1'')"

definition rival_locks :: "gateway \<Rightarrow> gateway" where
  "rival_locks g = (case reserve_lock demo_key g of (l, g') \<Rightarrow> lock_object l g')"

definition rival_outcome :: "(gateway \<Rightarrow> gateway) \<Rightarrow> (gw_exc + ProviderResult) \<times> bool" where
  "rival_outcome f =
     (case execute (demo_gw_sys 0 (Inr (Some demo_places))) demo_config demo_request (demo_context ''t1'')
             ((quiet_world demo_gateway)\<lparr>wg_env := [f]\<rparr>) of
        (r, w) \<Rightarrow> (r, gw_locked (wg_gateway w) \<noteq> [] \<and>
           dget (gw_locks (wg_gateway w)) demo_key = Some (hd (gw_locked (wg_gateway w)))))"

text \<open>
  Idempotency locks can be lost: a lock object is taken from the table before it is locked, and the
  pruning by any other call drops unlocked objects, so a second call with the same key gets another lock;
  then both run, while without the pruning the first one waits until its deadline.
\<close>

theorem pruning_breaks_idempotency_lock:
  "rival_outcome rival_locks = (Inl (perr E_Timeout None), True) \<and>
   rival_outcome (rival_locks \<circ> prune_state demo_config 1) = (Inr demo_places, True)"
  by code_simp

end
