(* ===== verification/Outbox.thy ===== *)
theory Outbox
  imports Prelude
begin

text \<open>
  The transactional outbox, \<^verbatim>\<open>backend/moyuan_web/v1/outbox.py\<close>. The table is a list of rows and every
  repository statement a transaction on it, written after its \<^verbatim>\<open>where\<close> and \<^verbatim>\<open>values\<close> clauses; \<open>skipped\<close> are the rows that
  other transactions hold locked (\<^verbatim>\<open>SKIP LOCKED\<close>). The Redis stream is the list of the entries ever added (trimming of a long
  stream is not modelled). A dispatcher suspends at each of its statements; others act in between.
\<close>

section \<open>Rows and statements\<close>

record OutboxRow =
  ob_outbox_id :: string
  ob_tenant_id :: string
  ob_aggregate_type :: string
  ob_aggregate_id :: string
  ob_event_type :: string
  ob_payload :: json
  ob_created_at :: instant
  ob_available_at :: instant
  ob_published_at :: "instant option"
  ob_locked_at :: "instant option"
  ob_locked_by :: "string option"
  ob_publish_attempts :: nat
  ob_last_error :: "string option"

record OutboxRecord =
  orc_outbox_id :: string
  orc_tenant_id :: string
  orc_aggregate_type :: string
  orc_aggregate_id :: string
  orc_event_type :: string
  orc_payload :: jobj
  orc_publish_attempts :: nat

record outbox_repository =
  orp_worker_id :: string
  orp_lease :: int

definition new_repository :: "string \<Rightarrow> bool \<Rightarrow> int \<Rightarrow> outbox_repository option" where
  "new_repository worker_id dedicated lease_seconds =
     (if \<not> dedicated \<or> worker_id = [] \<or> length worker_id > 128 then None
      else Some \<lparr>orp_worker_id = worker_id, orp_lease = max 10 lease_seconds * 1000000\<rparr>)"

text \<open>\<open>_insert_outbox\<close> of the PostgreSQL store inserts a row like this one.\<close>

definition enqueued :: "string \<Rightarrow> string \<Rightarrow> string \<Rightarrow> string \<Rightarrow> string \<Rightarrow> json \<Rightarrow> instant \<Rightarrow> instant \<Rightarrow> OutboxRow" where
  "enqueued oid tenant ag_type ag_id event_type payload t1 t2 =
     \<lparr>ob_outbox_id = oid, ob_tenant_id = tenant, ob_aggregate_type = ag_type, ob_aggregate_id = ag_id,
      ob_event_type = event_type, ob_payload = payload, ob_created_at = t1, ob_available_at = t2,
      ob_published_at = None, ob_locked_at = None, ob_locked_by = None, ob_publish_attempts = 0, ob_last_error = None\<rparr>"

definition claimable :: "outbox_repository \<Rightarrow> instant \<Rightarrow> OutboxRow \<Rightarrow> bool" where
  "claimable repo now r \<longleftrightarrow> ob_published_at r = None \<and> ob_available_at r \<le> now \<and>
     (case ob_locked_at r of None \<Rightarrow> True | Some t \<Rightarrow> t < now - orp_lease repo)"

definition batch :: "outbox_repository \<Rightarrow> nat \<Rightarrow> instant \<Rightarrow> string set \<Rightarrow> OutboxRow list \<Rightarrow> OutboxRow list" where
  "batch repo limit now skipped rows =
     take (max 1 (min limit 500))
       (filter (\<lambda>r. ob_outbox_id r \<notin> skipped) (sort_key ob_created_at (filter (claimable repo now) rows)))"

definition to_record :: "OutboxRow \<Rightarrow> OutboxRecord" where
  "to_record r =
     \<lparr>orc_outbox_id = ob_outbox_id r, orc_tenant_id = ob_tenant_id r, orc_aggregate_type = ob_aggregate_type r,
      orc_aggregate_id = ob_aggregate_id r, orc_event_type = ob_event_type r,
      orc_payload = (case ob_payload r of JObj kvs \<Rightarrow> kvs | _ \<Rightarrow> []),
      orc_publish_attempts = ob_publish_attempts r + 1\<rparr>"

definition update_where :: "(OutboxRow \<Rightarrow> bool) \<Rightarrow> (OutboxRow \<Rightarrow> OutboxRow) \<Rightarrow> OutboxRow list \<Rightarrow> OutboxRow list" where
  "update_where P f rows = map (\<lambda>r. if P r then f r else r) rows"

definition claim_batch ::
    "outbox_repository \<Rightarrow> nat \<Rightarrow> instant \<Rightarrow> string set \<Rightarrow> OutboxRow list \<Rightarrow> OutboxRecord list \<times> OutboxRow list" where
  "claim_batch repo limit now skipped rows =
     (let taken = batch repo limit now skipped rows
      in (map to_record taken,
          update_where (\<lambda>r. ob_outbox_id r \<in> ob_outbox_id ` set taken)
            (\<lambda>r. r\<lparr>ob_locked_at := Some now, ob_locked_by := Some (orp_worker_id repo),
                   ob_publish_attempts := ob_publish_attempts r + 1\<rparr>) rows))"

definition held :: "outbox_repository \<Rightarrow> OutboxRecord \<Rightarrow> OutboxRow \<Rightarrow> bool" where
  "held repo rec r \<longleftrightarrow> ob_outbox_id r = orc_outbox_id rec \<and> ob_locked_by r = Some (orp_worker_id repo) \<and>
     ob_published_at r = None"

definition mark_published :: "outbox_repository \<Rightarrow> OutboxRecord \<Rightarrow> instant \<Rightarrow> OutboxRow list \<Rightarrow> OutboxRow list" where
  "mark_published repo rec now =
     update_where (held repo rec)
       (\<lambda>r. r\<lparr>ob_published_at := Some now, ob_locked_at := None, ob_locked_by := None, ob_last_error := None\<rparr>)"

text \<open>\<^verbatim>\<open>re.sub("[^A-Z0-9_]", "_", code.upper())\<close> on Latin-1: the upper case of the sharp s is \<^verbatim>\<open>SS\<close>.\<close>

definition safe_char :: "char \<Rightarrow> string" where
  "safe_char c = (let n = (of_char c :: nat) in
     if 97 \<le> n \<and> n \<le> 122 then [char_of (n - 32)]
     else if (65 \<le> n \<and> n \<le> 90) \<or> (48 \<le> n \<and> n \<le> 57) \<or> n = 95 then [c]
     else if n = 223 then ''SS'' else ''_'')"

definition safe_code :: "string \<Rightarrow> string" where
  "safe_code error_code =
     (let s = take 96 (concat (map safe_char error_code)) in if s = [] then ''PUBLISH_FAILED'' else s)"

definition retry_delay :: "nat \<Rightarrow> int" where
  "retry_delay attempts = min 300 (2 ^ min attempts 8) * 1000000"

definition mark_failed :: "outbox_repository \<Rightarrow> OutboxRecord \<Rightarrow> string \<Rightarrow> instant \<Rightarrow> OutboxRow list \<Rightarrow> OutboxRow list" where
  "mark_failed repo rec error_code now =
     update_where (held repo rec)
       (\<lambda>r. r\<lparr>ob_available_at := now + retry_delay (orc_publish_attempts rec), ob_locked_at := None,
              ob_locked_by := None, ob_last_error := Some (safe_code error_code)\<rparr>)"

section \<open>The dispatcher\<close>

text \<open>
  How an \<^verbatim>\<open>xadd\<close> ends: added; an exception, with its type name, before or after Redis added the entry; a
  cancellation, likewise. A database transaction may fail and changes nothing then.
\<close>

datatype publish_outcome = Pub_ok | Pub_error string bool | Pub_cancelled bool

datatype outbox_exc = OutboxCancelled | OutboxDatabaseError

record outbox_state =
  os_rows :: "OutboxRow list"
  os_stream :: "OutboxRecord list"

record outbox_sys =
  ox_clock :: "nat \<Rightarrow> instant"
  ox_skipped :: "nat \<Rightarrow> string set"
  ox_database :: "nat \<Rightarrow> outbox_exc option"
  ox_publish :: "nat \<Rightarrow> OutboxRecord \<Rightarrow> publish_outcome"

record outbox_world =
  ow_state :: outbox_state
  ow_env :: "(outbox_state \<Rightarrow> outbox_state) list"
  ow_tick :: nat

type_synonym 'a outbox_co = "(outbox_world, outbox_exc, 'a) eff"

definition others_act :: "outbox_world \<Rightarrow> outbox_world" where
  "others_act w =
     (case ow_env w of [] \<Rightarrow> w | f # fs \<Rightarrow> w\<lparr>ow_state := f (ow_state w), ow_env := fs\<rparr>)"

definition transaction :: "outbox_sys \<Rightarrow> (nat \<Rightarrow> OutboxRow list \<Rightarrow> 'a \<times> OutboxRow list) \<Rightarrow> 'a outbox_co" where
  "transaction sy f w0 =
     (let w = others_act w0; n = ow_tick w; w1 = w\<lparr>ow_tick := n + 1\<rparr> in
      case ox_database sy n of
        Some e \<Rightarrow> (Inl e, w1)
      | None \<Rightarrow> (case f n (os_rows (ow_state w)) of
                   (a, rows) \<Rightarrow> (Inr a, w1\<lparr>ow_state := (ow_state w)\<lparr>os_rows := rows\<rparr>\<rparr>)))"

text \<open>\<open>publish\<close>: \<^term>\<open>Some\<close> is the type name of the exception caught by the dispatcher.\<close>

definition publish :: "outbox_sys \<Rightarrow> OutboxRecord \<Rightarrow> string option outbox_co" where
  "publish sy rec w0 =
     (let w = others_act w0; n = ow_tick w;
          out = ox_publish sy n rec;
          added = (case out of Pub_ok \<Rightarrow> True | Pub_error _ b \<Rightarrow> b | Pub_cancelled b \<Rightarrow> b);
          w1 = w\<lparr>ow_tick := n + 1,
                 ow_state := (ow_state w)\<lparr>os_stream := os_stream (ow_state w) @ (if added then [rec] else [])\<rparr>\<rparr>
      in ((case out of Pub_ok \<Rightarrow> Inr None | Pub_error name _ \<Rightarrow> Inr (Some name) | Pub_cancelled _ \<Rightarrow> Inl OutboxCancelled), w1))"

definition dispatch_record :: "outbox_sys \<Rightarrow> outbox_repository \<Rightarrow> OutboxRecord \<Rightarrow> unit outbox_co" where
  "dispatch_record sy repo rec =
     ebind (publish sy rec) (\<lambda>failure.
       case failure of
         Some name \<Rightarrow> transaction sy (\<lambda>n rows. ((), mark_failed repo rec name (ox_clock sy n) rows))
       | None \<Rightarrow> transaction sy (\<lambda>n rows. ((), mark_published repo rec (ox_clock sy n) rows)))"

definition dispatch_once :: "outbox_sys \<Rightarrow> outbox_repository \<Rightarrow> nat \<Rightarrow> nat outbox_co" where
  "dispatch_once sy repo limit =
     ebind (transaction sy (\<lambda>n rows. claim_batch repo limit (ox_clock sy n) (ox_skipped sy n) rows)) (\<lambda>records.
     ebind (efor (dispatch_record sy repo) records) (\<lambda>_. eret (length records)))"

text \<open>\<open>run_forever\<close> for \<open>n\<close> rounds; the stop event ends it sooner.\<close>

fun run_rounds :: "outbox_sys \<Rightarrow> outbox_repository \<Rightarrow> (nat \<Rightarrow> bool) \<Rightarrow> nat \<Rightarrow> unit outbox_co" where
  "run_rounds sy repo stop 0 = eret ()"
| "run_rounds sy repo stop (Suc n) =
     (if stop n then eret () else ebind (dispatch_once sy repo 100) (\<lambda>_. run_rounds sy repo stop n))"

section \<open>Nothing is published without being delivered\<close>

definition delivered :: "outbox_state \<Rightarrow> bool" where
  "delivered s \<longleftrightarrow> (\<forall>r \<in> set (os_rows s). ob_published_at r \<noteq> None \<longrightarrow> ob_outbox_id r \<in> orc_outbox_id ` set (os_stream s))"

text \<open>
  Others, producers of events and other dispatchers, may do anything that keeps this and does not take entries
  out of the stream. Every round of a dispatcher is itself such a step (\<open>dispatcher_rely\<close> below), so that
  any number of dispatchers may run side by side.
\<close>

definition outbox_rely :: "(outbox_state \<Rightarrow> outbox_state) \<Rightarrow> bool" where
  "outbox_rely f \<longleftrightarrow> (\<forall>s. delivered s \<longrightarrow> delivered (f s) \<and> orc_outbox_id ` set (os_stream s) \<subseteq> orc_outbox_id ` set (os_stream (f s)))"

definition calm_outbox :: "string set \<Rightarrow> outbox_world \<Rightarrow> bool" where
  "calm_outbox ids w \<longleftrightarrow> delivered (ow_state w) \<and> ids \<subseteq> orc_outbox_id ` set (os_stream (ow_state w)) \<and>
     (\<forall>f \<in> set (ow_env w). outbox_rely f)"

lemma calm_others:
  assumes "calm_outbox ids w"
  shows "calm_outbox ids (others_act w)"
proof (cases "ow_env w")
  case Nil
  with assms show ?thesis by (simp add: others_act_def)
next
  case (Cons f fs)
  with assms have f: "delivered (f (ow_state w))" "orc_outbox_id ` set (os_stream (ow_state w)) \<subseteq> orc_outbox_id ` set (os_stream (f (ow_state w)))"
    "\<forall>g \<in> set fs. outbox_rely g" by (auto simp: calm_outbox_def outbox_rely_def)
  have "ids \<subseteq> orc_outbox_id ` set (os_stream (f (ow_state w)))"
    using assms f(2) unfolding calm_outbox_def by blast
  with f(1,3) Cons show ?thesis by (simp add: calm_outbox_def others_act_def)
qed

lemma delivered_update:
  assumes "delivered s" and "\<And>r. r \<in> set (os_rows s) \<Longrightarrow> P r \<Longrightarrow> ob_published_at (f r) \<noteq> None \<Longrightarrow> ob_outbox_id (f r) \<in> orc_outbox_id ` set (os_stream s)"
  shows "delivered (s\<lparr>os_rows := update_where P f (os_rows s)\<rparr>)"
  unfolding delivered_def update_where_def
proof (intro ballI impI)
  fix r'
  assume "r' \<in> set (os_rows (s\<lparr>os_rows := map (\<lambda>r. if P r then f r else r) (os_rows s)\<rparr>))" and p: "ob_published_at r' \<noteq> None"
  then obtain r where "r \<in> set (os_rows s)" "r' = (if P r then f r else r)" by auto
  with p assms show "ob_outbox_id r' \<in> orc_outbox_id ` set (os_stream (s\<lparr>os_rows := map (\<lambda>r. if P r then f r else r) (os_rows s)\<rparr>))"
    unfolding delivered_def by (cases "P r") simp_all
qed

lemma calm_transaction:
  assumes "calm_outbox ids w"
    and "\<And>n s. delivered s \<Longrightarrow> ids \<subseteq> orc_outbox_id ` set (os_stream s) \<Longrightarrow> delivered (s\<lparr>os_rows := snd (f n (os_rows s))\<rparr>)"
  shows "calm_outbox ids (snd (transaction sy f w))"
proof -
  note 1 = calm_others [OF assms(1)]
  then have "delivered ((ow_state (others_act w))\<lparr>os_rows := snd (f (ow_tick (others_act w)) (os_rows (ow_state (others_act w))))\<rparr>)"
    by (intro assms(2)) (simp_all add: calm_outbox_def)
  with 1 show ?thesis
    by (cases "f (ow_tick (others_act w)) (os_rows (ow_state (others_act w)))")
      (simp add: transaction_def Let_def calm_outbox_def split: option.split)
qed

lemma calm_publish:
  assumes "calm_outbox ids w"
  shows "calm_outbox (case fst (publish sy rec w) of Inr None \<Rightarrow> insert (orc_outbox_id rec) ids | _ \<Rightarrow> ids) (snd (publish sy rec w))"
  using calm_others [OF assms]
  by (auto simp: publish_def Let_def calm_outbox_def delivered_def split: publish_outcome.split)

lemma calm_less: "calm_outbox ids w \<Longrightarrow> ids' \<subseteq> ids \<Longrightarrow> calm_outbox ids' w"
  by (auto simp: calm_outbox_def)

lemma delivered_mark_failed: "delivered s \<Longrightarrow> delivered (s\<lparr>os_rows := mark_failed repo rec name now (os_rows s)\<rparr>)"
  unfolding mark_failed_def by (erule delivered_update) (simp add: held_def)

lemma delivered_mark_published:
  "delivered s \<Longrightarrow> orc_outbox_id rec \<in> orc_outbox_id ` set (os_stream s) \<Longrightarrow>
   delivered (s\<lparr>os_rows := mark_published repo rec now (os_rows s)\<rparr>)"
  unfolding mark_published_def by (erule delivered_update) (simp add: held_def)

lemma delivered_claim: "delivered s \<Longrightarrow> delivered (s\<lparr>os_rows := snd (claim_batch repo limit now skipped (os_rows s))\<rparr>)"
  unfolding claim_batch_def Let_def snd_conv by (rule delivered_update) (auto simp: delivered_def)

lemma calm_dispatch_record: "keeps (calm_outbox ids) (dispatch_record sy repo rec)"
  unfolding keeps_def
proof (intro allI impI)
  fix w
  assume "calm_outbox ids w"
  note p = calm_publish [OF this, where sy = sy and rec = rec]
  obtain out w1 where pub: "publish sy rec w = (out, w1)" by fastforce
  show "calm_outbox ids (snd (dispatch_record sy repo rec w))"
  proof (cases out)
    case (Inl e)
    with p pub show ?thesis by (simp add: dispatch_record_def)
  next
    case (Inr failure)
    show ?thesis
    proof (cases failure)
      case None
      with p pub Inr have "calm_outbox (insert (orc_outbox_id rec) ids) w1" by simp
      then have "calm_outbox (insert (orc_outbox_id rec) ids)
          (snd (transaction sy (\<lambda>n rows. ((), mark_published repo rec (ox_clock sy n) rows)) w1))"
        by (rule calm_transaction) (simp add: delivered_mark_published)
      with pub Inr None show ?thesis by (auto simp: dispatch_record_def intro: calm_less)
    next
      case (Some name)
      with p pub Inr have "calm_outbox ids w1" by simp
      then have "calm_outbox ids (snd (transaction sy (\<lambda>n rows. ((), mark_failed repo rec name (ox_clock sy n) rows)) w1))"
        by (rule calm_transaction) (simp add: delivered_mark_failed)
      with pub Inr Some show ?thesis by (simp add: dispatch_record_def)
    qed
  qed
qed

lemma calm_dispatch_once: "keeps (calm_outbox ids) (dispatch_once sy repo limit)"
  unfolding dispatch_once_def
proof (rule keeps_ebind)
  show "keeps (calm_outbox ids) (transaction sy (\<lambda>n rows. claim_batch repo limit (ox_clock sy n) (ox_skipped sy n) rows))"
    unfolding keeps_def by (intro allI impI, erule calm_transaction) (rule delivered_claim)
qed (intro keeps_intros calm_dispatch_record)

lemma calm_rounds: "keeps (calm_outbox ids) (run_rounds sy repo stop n)"
  by (induction n) (auto intro!: keeps_intros calm_dispatch_once simp del: eret_def)

definition other_dispatcher :: "outbox_sys \<Rightarrow> outbox_repository \<Rightarrow> nat \<Rightarrow> outbox_state \<Rightarrow> outbox_state" where
  "other_dispatcher sy repo n s = ow_state (snd (run_rounds sy repo (\<lambda>_. False) n \<lparr>ow_state = s, ow_env = [], ow_tick = 0\<rparr>))"

lemma dispatcher_rely: "outbox_rely (other_dispatcher sy repo n)"
  unfolding outbox_rely_def
proof (intro allI impI)
  fix s
  assume "delivered s"
  then have "calm_outbox (orc_outbox_id ` set (os_stream s)) \<lparr>ow_state = s, ow_env = [], ow_tick = 0\<rparr>"
    by (simp add: calm_outbox_def)
  from keepsD [OF calm_rounds this] show "delivered (other_dispatcher sy repo n s) \<and>
    orc_outbox_id ` set (os_stream s) \<subseteq> orc_outbox_id ` set (os_stream (other_dispatcher sy repo n s))"
    by (simp add: calm_outbox_def other_dispatcher_def)
qed

lemma enqueue_rely: "outbox_rely (\<lambda>s. s\<lparr>os_rows := enqueued oid tenant ag_type ag_id event_type payload t1 t2 # os_rows s\<rparr>)"
  by (simp add: outbox_rely_def delivered_def enqueued_def)

definition demo_repository :: outbox_repository where
  "demo_repository = \<lparr>orp_worker_id = ''w1'', orp_lease = 60000000\<rparr>"

definition demo_outbox :: outbox_world where
  "demo_outbox = \<lparr>ow_state = \<lparr>os_rows = [enqueued ''o2'' ''t1'' ''run'' ''r2'' ''run.dispatch.requested'' (JObj []) 2 2,
     enqueued ''o1'' ''t1'' ''run'' ''r1'' ''run.dispatch.requested'' (JObj []) 1 1], os_stream = []\<rparr>, ow_env = [], ow_tick = 0\<rparr>"

definition demo_outbox_sys :: outbox_sys where
  "demo_outbox_sys = \<lparr>ox_clock = (\<lambda>n. 10 + int n), ox_skipped = (\<lambda>_. {}), ox_database = (\<lambda>_. None), ox_publish = (\<lambda>_ _. Pub_ok)\<rparr>"

text \<open>
  C23. No event is marked as published without having been added to the stream: whatever publications fail,
  before or after Redis took the entry, whatever transactions fail, wherever the dispatcher is cancelled and whatever
  others do between its statements, as long as they keep to this themselves.
\<close>

theorem published_events_were_delivered:
  assumes "delivered (ow_state w)" and "\<forall>f \<in> set (ow_env w). outbox_rely f"
  shows "delivered (ow_state (snd (run_rounds sy repo stop n w)))"
proof -
  have "calm_outbox {} w" using assms by (simp add: calm_outbox_def)
  with calm_rounds [of "{}" sy repo stop n] show ?thesis using keepsD by (fastforce simp: calm_outbox_def)
qed

theorem published_events_were_delivered_witness:
  "delivered (ow_state (snd (run_rounds demo_outbox_sys demo_repository (\<lambda>_. False) 3
     (demo_outbox\<lparr>ow_env := [id, other_dispatcher demo_outbox_sys (demo_repository\<lparr>orp_worker_id := ''w2''\<rparr>) 1]\<rparr>))))"
proof (rule published_events_were_delivered)
  have "outbox_rely id" by (simp add: outbox_rely_def)
  with dispatcher_rely show "\<forall>f \<in> set (ow_env (demo_outbox\<lparr>ow_env :=
      [id, other_dispatcher demo_outbox_sys (demo_repository\<lparr>orp_worker_id := ''w2''\<rparr>) 1]\<rparr>)). outbox_rely f" by simp
qed (simp add: demo_outbox_def delivered_def enqueued_def)

section \<open>Undisturbed dispatch\<close>

definition smooth :: "outbox_sys \<Rightarrow> bool" where
  "smooth sy \<longleftrightarrow> (\<forall>n. ox_database sy n = None \<and> ox_skipped sy n = {} \<and> (\<forall>rec. ox_publish sy n rec = Pub_ok))"

lemma smooth_record:
  assumes "smooth sy" and "ow_env w = []"
  shows "dispatch_record sy repo rec w = (Inr (), w\<lparr>ow_tick := ow_tick w + 2,
    ow_state := \<lparr>os_rows = mark_published repo rec (ox_clock sy (ow_tick w + 1)) (os_rows (ow_state w)),
                 os_stream = os_stream (ow_state w) @ [rec]\<rparr>\<rparr>)"
proof -
  have p: "publish sy rec w = (Inr None, w\<lparr>ow_tick := ow_tick w + 1,
      ow_state := (ow_state w)\<lparr>os_stream := os_stream (ow_state w) @ [rec]\<rparr>\<rparr>)"
    using assms by (simp add: publish_def others_act_def smooth_def Let_def)
  show ?thesis
    unfolding dispatch_record_def
    using assms by (simp add: p transaction_def others_act_def smooth_def)
qed

lemma mark_published_ids [simp]: "map ob_outbox_id (mark_published repo rec now rows) = map ob_outbox_id rows"
  by (simp add: mark_published_def update_where_def)

lemma smooth_records:
  assumes "smooth sy" and "ow_env w = []" and "distinct (map orc_outbox_id recs)"
    and "\<forall>rec \<in> set recs. \<forall>r \<in> set (os_rows (ow_state w)). ob_outbox_id r = orc_outbox_id rec \<longrightarrow> held repo rec r"
  shows "\<exists>w'. efor (dispatch_record sy repo) recs w = (Inr (), w') \<and> ow_env w' = [] \<and>
    os_stream (ow_state w') = os_stream (ow_state w) @ recs \<and>
    map ob_outbox_id (os_rows (ow_state w')) = map ob_outbox_id (os_rows (ow_state w)) \<and>
    (\<forall>r \<in> set (os_rows (ow_state w')).
       (ob_outbox_id r \<in> orc_outbox_id ` set recs \<longrightarrow> ob_published_at r \<noteq> None) \<and>
       (ob_outbox_id r \<notin> orc_outbox_id ` set recs \<longrightarrow> r \<in> set (os_rows (ow_state w))))"
  using assms(2-)
proof (induction recs arbitrary: w)
  case Nil
  then show ?case by simp
next
  case (Cons rec recs)
  let ?now = "ox_clock sy (ow_tick w + 1)"
  let ?w1 = "w\<lparr>ow_tick := ow_tick w + 2, ow_state := \<lparr>os_rows = mark_published repo rec ?now (os_rows (ow_state w)),
      os_stream = os_stream (ow_state w) @ [rec]\<rparr>\<rparr>"
  have step: "dispatch_record sy repo rec w = (Inr (), ?w1)" by (rule smooth_record [OF assms(1) Cons.prems(1)])
  have row: "(ob_outbox_id r = orc_outbox_id rec \<longrightarrow> ob_published_at r \<noteq> None) \<and>
      (ob_outbox_id r \<noteq> orc_outbox_id rec \<longrightarrow> r \<in> set (os_rows (ow_state w)))"
    if "r \<in> set (mark_published repo rec ?now (os_rows (ow_state w)))" for r
    using that Cons.prems(3) by (auto simp: mark_published_def update_where_def held_def)
  have "\<forall>rec' \<in> set recs. \<forall>r \<in> set (os_rows (ow_state ?w1)). ob_outbox_id r = orc_outbox_id rec' \<longrightarrow> held repo rec' r"
  proof (intro ballI impI)
    fix rec' r
    assume a: "rec' \<in> set recs" "r \<in> set (os_rows (ow_state ?w1))" "ob_outbox_id r = orc_outbox_id rec'"
    from a(1) Cons.prems(2) have "orc_outbox_id rec' \<noteq> orc_outbox_id rec" by (auto simp: rev_image_eqI)
    with row [of r] a Cons.prems(3) show "held repo rec' r" by simp
  qed
  from Cons.IH [of ?w1, OF _ _ this] Cons.prems(1,2) obtain w' where
    w': "efor (dispatch_record sy repo) recs ?w1 = (Inr (), w')" "ow_env w' = []"
    "os_stream (ow_state w') = (os_stream (ow_state w) @ [rec]) @ recs"
    "map ob_outbox_id (os_rows (ow_state w')) = map ob_outbox_id (os_rows (ow_state w))"
    "\<forall>r \<in> set (os_rows (ow_state w')). (ob_outbox_id r \<in> orc_outbox_id ` set recs \<longrightarrow> ob_published_at r \<noteq> None) \<and>
       (ob_outbox_id r \<notin> orc_outbox_id ` set recs \<longrightarrow> r \<in> set (mark_published repo rec ?now (os_rows (ow_state w))))"
    by auto
  have "efor (dispatch_record sy repo) (rec # recs) w = (Inr (), w')"
    using step w'(1) by simp
  moreover have "\<forall>r \<in> set (os_rows (ow_state w')).
       (ob_outbox_id r \<in> orc_outbox_id ` set (rec # recs) \<longrightarrow> ob_published_at r \<noteq> None) \<and>
       (ob_outbox_id r \<notin> orc_outbox_id ` set (rec # recs) \<longrightarrow> r \<in> set (os_rows (ow_state w)))"
    using w'(5) row by auto
  ultimately show ?case using w'(2,3,4) by auto
qed

lemma to_record_id [simp]: "orc_outbox_id (to_record r) = ob_outbox_id r"
  by (simp add: to_record_def)

lemma batch_facts:
  assumes "distinct (map ob_outbox_id rows)"
  shows "set (batch repo limit now skipped rows) \<subseteq> set (filter (claimable repo now) rows)"
    "distinct (map ob_outbox_id (batch repo limit now skipped rows))"
proof -
  let ?sorted = "filter (\<lambda>r. ob_outbox_id r \<notin> skipped) (sort_key ob_created_at (filter (claimable repo now) rows))"
  show "set (batch repo limit now skipped rows) \<subseteq> set (filter (claimable repo now) rows)"
    unfolding batch_def using set_take_subset [of _ ?sorted] by auto
  have "distinct rows" using assms by (simp add: distinct_map)
  then have "distinct ?sorted" by simp
  moreover have "inj_on ob_outbox_id (set ?sorted)"
    using assms by (auto simp: distinct_map inj_on_def)
  ultimately have "distinct (map ob_outbox_id ?sorted)" by (simp add: distinct_map)
  then show "distinct (map ob_outbox_id (batch repo limit now skipped rows))"
    unfolding batch_def by (simp add: take_map [symmetric])
qed

text \<open>
  Undisturbed, one dispatch publishes the oldest claimable events: when every publication and transaction
  succeeds, \<open>dispatch_once\<close> adds exactly the batch to the stream, in the order of creation, marks each of its rows as
  published, leaves all other rows as they are and returns the number of events.
\<close>

theorem dispatch_publishes_oldest_events:
  assumes "smooth sy" and "ow_env w = []" and "distinct (map ob_outbox_id (os_rows (ow_state w)))"
  shows "\<exists>w'. dispatch_once sy repo limit w =
      (Inr (length (batch repo limit (ox_clock sy (ow_tick w)) {} (os_rows (ow_state w)))), w') \<and>
    os_stream (ow_state w') = os_stream (ow_state w) @ map to_record (batch repo limit (ox_clock sy (ow_tick w)) {} (os_rows (ow_state w))) \<and>
    map ob_outbox_id (os_rows (ow_state w')) = map ob_outbox_id (os_rows (ow_state w)) \<and>
    (\<forall>r \<in> set (os_rows (ow_state w')).
       (ob_outbox_id r \<in> ob_outbox_id ` set (batch repo limit (ox_clock sy (ow_tick w)) {} (os_rows (ow_state w))) \<longrightarrow>
          ob_published_at r \<noteq> None) \<and>
       (ob_outbox_id r \<notin> ob_outbox_id ` set (batch repo limit (ox_clock sy (ow_tick w)) {} (os_rows (ow_state w))) \<longrightarrow>
          r \<in> set (os_rows (ow_state w))))"
proof -
  let ?now = "ox_clock sy (ow_tick w)"
  let ?rows = "os_rows (ow_state w)"
  let ?b = "batch repo limit ?now {} ?rows"
  define claimed where "claimed = snd (claim_batch repo limit ?now {} ?rows)"
  let ?w1 = "w\<lparr>ow_tick := ow_tick w + 1, ow_state := (ow_state w)\<lparr>os_rows := claimed\<rparr>\<rparr>"
  have t: "transaction sy (\<lambda>n rows. claim_batch repo limit (ox_clock sy n) (ox_skipped sy n) rows) w =
      (Inr (map to_record ?b), ?w1)"
    using assms(1,2) by (simp add: transaction_def others_act_def smooth_def claimed_def claim_batch_def Let_def)
  note b = batch_facts [OF assms(3), of repo limit ?now "{}"]
  have ids: "map ob_outbox_id claimed = map ob_outbox_id ?rows"
    by (simp add: claimed_def claim_batch_def update_where_def Let_def)
  have unique: "r = r'" if "r \<in> set ?rows" "r' \<in> set ?rows" "ob_outbox_id r = ob_outbox_id r'" for r r'
    using that assms(3) by (auto simp: distinct_map inj_on_def)
  have held: "\<forall>rec \<in> set (map to_record ?b). \<forall>r \<in> set (os_rows (ow_state ?w1)). ob_outbox_id r = orc_outbox_id rec \<longrightarrow> held repo rec r"
  proof (intro ballI impI)
    fix rec r
    assume a: "rec \<in> set (map to_record ?b)" "r \<in> set (os_rows (ow_state ?w1))" "ob_outbox_id r = orc_outbox_id rec"
    from a(1) obtain r0 where r0: "r0 \<in> set ?b" "rec = to_record r0" by auto
    from a(2) obtain r1 where r1: "r1 \<in> set ?rows"
      "r = (if ob_outbox_id r1 \<in> ob_outbox_id ` set ?b then r1\<lparr>ob_locked_at := Some ?now, ob_locked_by := Some (orp_worker_id repo),
          ob_publish_attempts := ob_publish_attempts r1 + 1\<rparr> else r1)"
      by (auto simp: claimed_def claim_batch_def update_where_def Let_def)
    then have id: "ob_outbox_id r1 = ob_outbox_id r0" using a(3) r0(2) by (auto split: if_splits)
    with unique r1(1) r0(1) b(1) have "r1 = r0" by auto
    moreover have "ob_published_at r0 = None" using r0(1) b(1) by (auto simp: claimable_def)
    ultimately show "held repo rec r" using r1(2) r0 id by (auto simp: held_def)
  qed
  have "distinct (map orc_outbox_id (map to_record ?b))" using b(2) by (simp add: comp_def)
  from smooth_records [OF assms(1) _ this held] assms(2) obtain w' where
    w': "efor (dispatch_record sy repo) (map to_record ?b) ?w1 = (Inr (), w')"
    "os_stream (ow_state w') = os_stream (ow_state w) @ map to_record ?b"
    "map ob_outbox_id (os_rows (ow_state w')) = map ob_outbox_id claimed"
    "\<forall>r \<in> set (os_rows (ow_state w')). (ob_outbox_id r \<in> ob_outbox_id ` set ?b \<longrightarrow> ob_published_at r \<noteq> None) \<and>
       (ob_outbox_id r \<notin> ob_outbox_id ` set ?b \<longrightarrow> r \<in> set claimed)" by (auto simp: image_image)
  have "dispatch_once sy repo limit w = (Inr (length ?b), w')"
    unfolding dispatch_once_def using t w'(1) by simp
  moreover have "r \<in> set ?rows" if "r \<in> set claimed" "ob_outbox_id r \<notin> ob_outbox_id ` set ?b" for r
    using that by (auto simp: claimed_def claim_batch_def update_where_def Let_def split: if_splits)
  ultimately show ?thesis using w' ids by auto
qed

theorem dispatch_publishes_oldest_events_witness:
  "map orc_outbox_id (os_stream (ow_state (snd (dispatch_once demo_outbox_sys demo_repository 100 demo_outbox)))) = [''o1'', ''o2'']"
proof -
  have s: "smooth demo_outbox_sys" by (simp add: smooth_def demo_outbox_sys_def)
  have e: "ow_env demo_outbox = []" "distinct (map ob_outbox_id (os_rows (ow_state demo_outbox)))"
    "os_stream (ow_state demo_outbox) = []" by (simp_all add: demo_outbox_def enqueued_def)
  have b: "map orc_outbox_id (map to_record (batch demo_repository 100 (ox_clock demo_outbox_sys (ow_tick demo_outbox)) {}
      (os_rows (ow_state demo_outbox)))) = [''o1'', ''o2'']" by code_simp
  from dispatch_publishes_oldest_events [OF s e(1,2), of demo_repository 100] obtain w' where
    "snd (dispatch_once demo_outbox_sys demo_repository 100 demo_outbox) = w'"
    "os_stream (ow_state w') = os_stream (ow_state demo_outbox) @ map to_record (batch demo_repository 100
       (ox_clock demo_outbox_sys (ow_tick demo_outbox)) {} (os_rows (ow_state demo_outbox)))" by (metis snd_conv)
  with b e(3) show ?thesis by simp
qed

section \<open>Retries\<close>

text \<open>
  Retries are not bounded, contrary to the description of the dispatcher: after a failed publication an event
  that is still unpublished is claimable again at every time from 256 seconds on, whatever the number of
  attempts so far, and no attempt count ever stops that.
\<close>

theorem failed_events_are_retried_forever:
  assumes "r \<in> set rows" and "held repo rec r" and "now + 256000000 \<le> t"
  shows "\<exists>r' \<in> set (mark_failed repo rec name now rows). ob_outbox_id r' = orc_outbox_id rec \<and> claimable repo t r' \<and>
    ob_publish_attempts r' = ob_publish_attempts r"
proof -
  have "(2 :: int) ^ min (orc_publish_attempts rec) 8 \<le> 2 ^ 8" by (rule power_increasing) simp_all
  then have "retry_delay (orc_publish_attempts rec) \<le> 256000000" by (simp add: retry_delay_def)
  with assms show ?thesis
    by (intro bexI [of _ "r\<lparr>ob_available_at := now + retry_delay (orc_publish_attempts rec), ob_locked_at := None,
              ob_locked_by := None, ob_last_error := Some (safe_code name)\<rparr>"])
      (auto simp: mark_failed_def update_where_def held_def claimable_def)
qed

theorem failed_events_are_retried_forever_witness:
  "length (filter (claimable demo_repository 256000010)
     (mark_failed demo_repository (to_record (enqueued ''o1'' ''t1'' ''run'' ''r1'' ''e'' JNull 1 1)) ''TimeoutError'' 10
       (snd (claim_batch demo_repository 1 5 {} [enqueued ''o1'' ''t1'' ''run'' ''r1'' ''e'' JNull 1 1])))) > 0"
proof -
  let ?row = "(enqueued ''o1'' ''t1'' ''run'' ''r1'' ''e'' JNull 1 1)\<lparr>ob_locked_at := Some 5, ob_locked_by := Some ''w1'', ob_publish_attempts := 1\<rparr>"
  have "snd (claim_batch demo_repository 1 5 {} [enqueued ''o1'' ''t1'' ''run'' ''r1'' ''e'' JNull 1 1]) = [?row]" by code_simp
  moreover have "held demo_repository (to_record (enqueued ''o1'' ''t1'' ''run'' ''r1'' ''e'' JNull 1 1)) ?row" by code_simp
  ultimately show ?thesis
    using failed_events_are_retried_forever [of ?row "[?row]" demo_repository "to_record (enqueued ''o1'' ''t1'' ''run'' ''r1'' ''e'' JNull 1 1)" 10 256000010 "''TimeoutError''"]
    by (force simp: filter_empty_conv)
qed

end
