(* ===== verification/Run_Worker.thy ===== *)
theory Run_Worker
  imports Coordinator_Properties
begin

text \<open>
  The Run worker, \<^verbatim>\<open>backend/moyuan_web/v1/worker.py\<close>: it takes dispatch entries from the Redis stream and executes
  their Runs through the coordinator. The world is that of the coordinator with the dead-letter entries and
  the acknowledgements sent so far. What Redis returns, JSON decoding with the validation of the message, and
  SHA-256 are arguments. \<^verbatim>\<open>CancelledError\<close> is no \<^verbatim>\<open>Exception\<close> and passes the handlers.
\<close>

section \<open>Entries\<close>

record RunDispatchMessage =
  dm_tenant_id :: string
  dm_actor_id :: string
  dm_trip_id :: string
  dm_run_id :: string
  dm_trace_id :: string
  dm_control_version :: int

definition RunDispatchMessage_ok :: "RunDispatchMessage \<Rightarrow> bool" where
  "RunDispatchMessage_ok m \<longleftrightarrow> dm_tenant_id m \<noteq> [] \<and> length (dm_tenant_id m) \<le> 128 \<and>
     dm_actor_id m \<noteq> [] \<and> length (dm_actor_id m) \<le> 128 \<and> dm_trip_id m \<noteq> [] \<and> length (dm_trip_id m) \<le> 96 \<and>
     dm_run_id m \<noteq> [] \<and> length (dm_run_id m) \<le> 96 \<and> dm_trace_id m \<noteq> [] \<and> length (dm_trace_id m) \<le> 96 \<and>
     1 \<le> dm_control_version m"

record run_worker =
  rw_consumer :: string
  rw_lease_us :: int
  rw_reclaim_idle_milliseconds :: int

definition new_worker :: "string \<Rightarrow> int \<Rightarrow> int option \<Rightarrow> run_worker option" where
  "new_worker consumer lease_us reclaim_idle =
     (let idle = (case reclaim_idle of None \<Rightarrow> lease_us div 1000 | Some n \<Rightarrow> n) in
      if consumer = [] \<or> length consumer > 128 \<or> lease_us < 50000 \<or> lease_us > 3600000000 \<or> idle < 1 \<or> idle > 86400000
      then None
      else Some \<lparr>rw_consumer = consumer, rw_lease_us = lease_us, rw_reclaim_idle_milliseconds = idle\<rparr>)"

record worker_world =
  ww_world :: world
  ww_dead :: "(string \<times> string) list"
  ww_acked :: "string list"

type_synonym 'a worker_co = "(worker_world, run_exc, 'a) eff"

definition on_world :: "'a co \<Rightarrow> 'a worker_co" where
  "on_world m w = (case m (ww_world w) of (r, w') \<Rightarrow> (r, w\<lparr>ww_world := w'\<rparr>))"

definition dead_letter :: "string \<Rightarrow> string \<Rightarrow> unit worker_co" where
  "dead_letter entry_id code w = (Inr (), w\<lparr>ww_dead := ww_dead w @ [(entry_id, take 96 code)]\<rparr>)"

definition acknowledge :: "string \<Rightarrow> unit worker_co" where
  "acknowledge entry_id w = (Inr (), w\<lparr>ww_acked := ww_acked w @ [entry_id]\<rparr>)"

definition worker_principal :: "RunDispatchMessage \<Rightarrow> Principal" where
  "worker_principal m =
     \<lparr>pr_tenant_id = dm_tenant_id m, pr_user_id = dm_actor_id m, pr_roles = {''owner''}, pr_authorization_epoch = 0\<rparr>"

text \<open>
  What the worker is given: the coordinator's system, JSON decoding with validation, SHA-256, and for the
  i-th execution whether its heartbeat loses the lease.
\<close>

record worker_sys =
  ws_runtime :: runtime_sys
  ws_parse :: "string \<Rightarrow> RunDispatchMessage option"
  ws_sha256_hex :: "string \<Rightarrow> string"
  ws_lost :: "string \<Rightarrow> bool"

definition process_dispatch :: "worker_sys \<Rightarrow> run_worker \<Rightarrow> string \<Rightarrow> RunDispatchMessage \<Rightarrow> bool worker_co" where
  "process_dispatch sy rw entry_id m =
     (let p = worker_principal m in
      ecatch
        (ebind (on_world (read_run (ws_runtime sy) p (dm_run_id m))) (\<lambda>run.
           if rv_trip_id run \<noteq> dm_trip_id m \<or> rv_trace_id run \<noteq> dm_trace_id m \<or>
              rv_actor_id run \<noteq> dm_actor_id m \<or> rv_control_version run < dm_control_version m
           then ebind (dead_letter entry_id ''DISPATCH_FENCE_MISMATCH'') (\<lambda>_. eret True)
           else
             ebind (on_world (execute_existing (ws_runtime sy) p (dm_run_id m)
                 (take 96 (rw_consumer rw) @ '':'' @ take 24 (ws_sha256_hex sy entry_id)) (rw_lease_us rw)
                 (ws_lost sy entry_id))) (\<lambda>_. eret True)))
        (\<lambda>e. if e = CancelledError then eraise e else eret False))"

definition process_entry :: "worker_sys \<Rightarrow> run_worker \<Rightarrow> string \<Rightarrow> (string, string) dict \<Rightarrow> bool worker_co" where
  "process_entry sy rw entry_id flds =
     (if dget flds ''event_type'' \<noteq> Some ''run.dispatch.requested'' then eret True
      else case dget flds ''payload'' of
        None \<Rightarrow> ebind (dead_letter entry_id ''INVALID_DISPATCH_PAYLOAD'') (\<lambda>_. eret True)
      | Some raw \<Rightarrow>
          if length raw > 32768 then ebind (dead_letter entry_id ''INVALID_DISPATCH_PAYLOAD'') (\<lambda>_. eret True)
          else (case ws_parse sy raw of
                  None \<Rightarrow> ebind (dead_letter entry_id ''INVALID_DISPATCH_PAYLOAD'') (\<lambda>_. eret True)
                | Some m \<Rightarrow> process_dispatch sy rw entry_id m))"





section \<open>Redelivery\<close>

lemma on_world_simps [simp]: "fst (on_world m w) = fst (m (ww_world w))" "ww_world (snd (on_world m w)) = snd (m (ww_world w))"
  by (simp_all add: on_world_def split: prod.split)

text \<open>A worker program takes the coordinator's world forward.\<close>

definition worker_forward :: "'a worker_co \<Rightarrow> bool" where
  "worker_forward m \<longleftrightarrow> (\<forall>w. world_ok (ww_world w) \<longrightarrow> world_step (ww_world w) (ww_world (snd (m w))))"

named_theorems worker_intros \<open>programs of the worker take the world forward\<close>

lemma worker_forward_pure [worker_intros]:
  "worker_forward (eret a)" "worker_forward (eraise e)" "worker_forward (dead_letter i c)" "worker_forward (acknowledge i)"
  by (simp_all add: worker_forward_def dead_letter_def acknowledge_def world_step_refl)


















section \<open>Acknowledgement\<close>

text \<open>
  An entry is acknowledged only when it is done with: if \<open>process_entry\<close> returns True, then the entry is no dispatch, or
  it is in the dead-letter stream, or the execution of the Run that the message names has returned normally, in
  the tenant of the message and after the Run's trip, trace and actor were compared with it.
\<close>

theorem acknowledged_entries_are_settled:
  assumes "process_entry sy rw i flds w = (Inr True, w')"
  shows "dget flds ''event_type'' \<noteq> Some ''run.dispatch.requested'' \<or> (\<exists>code. (i, code) \<in> set (ww_dead w')) \<or>
    (\<exists>raw m run w1 run'. dget flds ''payload'' = Some raw \<and> ws_parse sy raw = Some m \<and>
       read_run (ws_runtime sy) (worker_principal m) (dm_run_id m) (ww_world w) = (Inr run, w1) \<and>
       rv_trip_id run = dm_trip_id m \<and> rv_trace_id run = dm_trace_id m \<and> rv_actor_id run = dm_actor_id m \<and>
       dm_control_version m \<le> rv_control_version run \<and>
       execute_existing (ws_runtime sy) (worker_principal m) (dm_run_id m)
         (take 96 (rw_consumer rw) @ '':'' @ take 24 (ws_sha256_hex sy i)) (rw_lease_us rw) (ws_lost sy i) w1 =
         (Inr run', ww_world w'))"
proof -
  have dispatch: "(\<exists>code. (i, code) \<in> set (ww_dead w')) \<or>
    (\<exists>run w1 run'. read_run (ws_runtime sy) (worker_principal m) (dm_run_id m) (ww_world w) = (Inr run, w1) \<and>
       rv_trip_id run = dm_trip_id m \<and> rv_trace_id run = dm_trace_id m \<and> rv_actor_id run = dm_actor_id m \<and>
       dm_control_version m \<le> rv_control_version run \<and>
       execute_existing (ws_runtime sy) (worker_principal m) (dm_run_id m)
         (take 96 (rw_consumer rw) @ '':'' @ take 24 (ws_sha256_hex sy i)) (rw_lease_us rw) (ws_lost sy i) w1 =
         (Inr run', ww_world w'))" if "process_dispatch sy rw i m w = (Inr True, w')" for m
    using that unfolding process_dispatch_def Let_def
    by (auto simp: ecatch_def ebind_def on_world_def dead_letter_def not_less split: prod.splits sum.splits if_splits)
  show ?thesis
  proof (cases "dget flds ''event_type'' = Some ''run.dispatch.requested''")
    case True
    show ?thesis
    proof (cases "dget flds ''payload''")
      case None
      with assms True show ?thesis by (auto simp: process_entry_def ebind_def dead_letter_def)
    next
      case (Some raw)
      show ?thesis
      proof (cases "length raw > 32768 \<or> ws_parse sy raw = None")
        case True
        with assms Some \<open>dget flds ''event_type'' = _\<close> show ?thesis
          by (auto simp: process_entry_def ebind_def dead_letter_def split: if_splits)
      next
        case False
        then obtain m where m: "ws_parse sy raw = Some m" by auto
        with False assms Some True have "process_dispatch sy rw i m w = (Inr True, w')" by (simp add: process_entry_def)
        from dispatch [OF this] Some m show ?thesis by blast
      qed
    qed
  qed simp
qed

end
