(* ===== verification/Floats.thy ===== *)
theory Floats
  imports Prelude "HOL-Library.Log_Nat"
begin

text \<open>
  Python's floating point numbers, as far as the repository computes with them: a double is an exact rational number, every
  operation rounds its exact result to the nearest double, ties to even. Rounding is monotone, so comparisons of exact values
  survive it. Overflow to infinity does not occur in the ranges that are used.
\<close>

definition half_even :: "rat \<Rightarrow> int" where
  "half_even q =
     (let f = \<lfloor>q\<rfloor>; r = q - of_int f in if r < 1 / 2 \<or> (r = 1 / 2 \<and> even f) then f else f + 1)"

definition binary_exponent :: "rat \<Rightarrow> int" where
  "binary_exponent x =
     (case quotient_of \<bar>x\<bar> of (n, d) \<Rightarrow>
        let k = bitlen n - bitlen d in if 2 powi k \<le> \<bar>x\<bar> then k else k - 1)"

definition double :: "rat \<Rightarrow> rat" where
  "double x =
     (if x = 0 then 0
      else let u = max (- 1074) (binary_exponent x - 52) in of_int (half_even (x / 2 powi u)) * 2 powi u)"

definition fadd :: "rat \<Rightarrow> rat \<Rightarrow> rat" where
  "fadd x y = double (x + y)"

definition fdiv :: "rat \<Rightarrow> rat \<Rightarrow> rat" where
  "fdiv x y = double (x / y)"

lemma half_even_error: "\<bar>of_int (half_even q) - q\<bar> \<le> 1 / 2"
proof -
  have "of_int \<lfloor>q\<rfloor> \<le> q" "q < of_int \<lfloor>q\<rfloor> + 1" by linarith+
  then show ?thesis by (auto simp: half_even_def Let_def abs_le_iff)
qed

lemma binary_exponent_le:
  assumes "x \<noteq> 0"
  shows "2 powi (binary_exponent x) \<le> \<bar>x\<bar>"
proof -
  obtain n d where nd: "quotient_of \<bar>x\<bar> = (n, d)" by fastforce
  then have x: "\<bar>x\<bar> = of_int n / of_int d" and "d > 0" by (simp_all add: quotient_of_div quotient_of_denom_pos)
  with assms have "n > 0" by (metis abs_le_zero_iff divide_nonpos_pos not_le of_int_0_le_iff of_int_le_0_iff of_int_pos zero_less_abs_iff)
  have n: "2 ^ nat (bitlen n - 1) \<le> n" using bitlen_bounds [OF \<open>n > 0\<close>] by simp
  have d: "d < 2 ^ nat (bitlen d)" using bitlen_bounds [OF \<open>d > 0\<close>] by simp
  have bl: "bitlen n > 0" "bitlen d > 0" using \<open>n > 0\<close> \<open>d > 0\<close> using bitlen_eq_zero_iff bitlen_nonneg by (metis less_le linorder_not_le)+
  have "(2 :: rat) powi (bitlen n - bitlen d - 1) = 2 ^ nat (bitlen n - 1) / 2 ^ nat (bitlen d)"
  proof -
    have "(2 :: rat) powi (bitlen n - bitlen d - 1) = 2 powi (bitlen n - 1) / 2 powi (bitlen d)"
      by (simp flip: power_int_diff add: algebra_simps)
    with bl show ?thesis by (simp add: power_int_def)
  qed
  also have "\<dots> \<le> of_int n / of_int d"
  proof (rule frac_le)
    show "(2 :: rat) ^ nat (bitlen n - 1) \<le> of_int n" using n by (metis of_int_le_iff of_int_numeral of_int_power)
    show "of_int d \<le> (2 :: rat) ^ nat (bitlen d)" using d by (metis less_imp_le of_int_le_iff of_int_numeral of_int_power)
  qed (use \<open>n > 0\<close> \<open>d > 0\<close> in simp_all)
  finally show ?thesis using nd x by (auto simp: binary_exponent_def Let_def)
qed

lemma double_error:
  assumes "\<bar>x\<bar> < 256"
  shows "\<bar>double x - x\<bar> \<le> 1 / 2 ^ 45"
proof (cases "x = 0")
  case False
  define u where "u = max (- 1074) (binary_exponent x - 52)"
  have "(2 :: rat) powi (binary_exponent x) < 2 powi 8" using binary_exponent_le [OF False] assms by simp
  then have "binary_exponent x < 8" by (metis not_le one_le_numeral power_int_increasing)
  then have "u \<le> - 45" by (simp add: u_def)
  then have u: "(2 :: rat) powi u \<le> 2 powi (- 45)" by (intro power_int_increasing) simp_all
  have "double x - x = (of_int (half_even (x / 2 powi u)) - x / 2 powi u) * 2 powi u"
    using False by (simp add: double_def u_def Let_def algebra_simps)
  then have "\<bar>double x - x\<bar> = \<bar>of_int (half_even (x / 2 powi u)) - x / 2 powi u\<bar> * 2 powi u"
    by (simp add: abs_mult)
  also have "\<dots> \<le> 1 / 2 * 2 powi u" by (intro mult_right_mono half_even_error) simp
  also have "\<dots> \<le> 2 powi (- 45)" using u by simp
  finally show ?thesis by (simp add: power_int_def power_one_over)
qed (simp add: double_def)

section \<open>Monotonicity\<close>

lemma half_even_mono:
  assumes "x \<le> y"
  shows "half_even x \<le> half_even y"
proof (cases "\<lfloor>x\<rfloor> = \<lfloor>y\<rfloor>")
  case True
  with assms show ?thesis by (auto simp: half_even_def Let_def)
next
  case False
  then have "\<lfloor>x\<rfloor> + 1 \<le> \<lfloor>y\<rfloor>" using floor_mono [OF assms] by simp
  then show ?thesis by (auto simp: half_even_def Let_def)
qed

lemma half_even_int [simp]: "half_even (of_int i) = i"
  by (simp add: half_even_def)

lemma half_even_small: "q < 1 / 2 \<Longrightarrow> 0 \<le> q \<Longrightarrow> half_even q = 0"
proof -
  assume q: "q < 1 / 2" "0 \<le> q"
  then have "\<lfloor>q\<rfloor> = 0" by (simp add: floor_eq_iff)
  with q show ?thesis by (simp add: half_even_def Let_def)
qed

lemma binary_exponent_gr:
  assumes "x \<noteq> 0"
  shows "\<bar>x\<bar> < 2 powi (binary_exponent x + 1)"
proof -
  obtain n d where nd: "quotient_of \<bar>x\<bar> = (n, d)" by fastforce
  then have x: "\<bar>x\<bar> = of_int n / of_int d" and "d > 0" by (simp_all add: quotient_of_div quotient_of_denom_pos)
  with assms have "n > 0" by (metis abs_le_zero_iff divide_nonpos_pos not_le of_int_0_le_iff of_int_le_0_iff of_int_pos zero_less_abs_iff)
  have n: "n < 2 ^ nat (bitlen n)" using bitlen_bounds [OF \<open>n > 0\<close>] by simp
  have d: "2 ^ nat (bitlen d - 1) \<le> d" using bitlen_bounds [OF \<open>d > 0\<close>] by simp
  have bl: "bitlen n > 0" "bitlen d > 0" using \<open>n > 0\<close> \<open>d > 0\<close> using bitlen_eq_zero_iff bitlen_nonneg by (metis less_le linorder_not_le)+
  have "of_int n / of_int d < (2 :: rat) ^ nat (bitlen n) / 2 ^ nat (bitlen d - 1)"
  proof (rule frac_less)
    show "of_int n < (2 :: rat) ^ nat (bitlen n)" using n by (metis of_int_less_iff of_int_numeral of_int_power)
    show "(2 :: rat) ^ nat (bitlen d - 1) \<le> of_int d" using d by (metis of_int_le_iff of_int_numeral of_int_power)
  qed (use \<open>n > 0\<close> \<open>d > 0\<close> in simp_all)
  also have "\<dots> = 2 powi (bitlen n - bitlen d + 1)"
  proof -
    have "(2 :: rat) powi (bitlen n - bitlen d + 1) = 2 powi (bitlen n) / 2 powi (bitlen d - 1)"
      by (simp flip: power_int_diff add: algebra_simps)
    with bl show ?thesis by (simp add: power_int_def)
  qed
  finally have "\<bar>x\<bar> < 2 powi (bitlen n - bitlen d + 1)" using x by simp
  then show ?thesis using nd by (auto simp: binary_exponent_def Let_def)
qed

lemma powi_less: "(2 :: rat) powi a < 2 powi b \<longleftrightarrow> a < b"
  by (metis not_less one_le_numeral one_less_numeral_iff power_int_increasing power_int_strict_increasing semiring_norm(76) linorder_not_le)

lemma binary_exponent_mono:
  assumes "0 < x" and "x \<le> y"
  shows "binary_exponent x \<le> binary_exponent y"
proof -
  have "2 powi (binary_exponent x) \<le> x" using binary_exponent_le [of x] assms(1) by simp
  also have "\<dots> < 2 powi (binary_exponent y + 1)" using binary_exponent_gr [of y] assms by simp
  finally show ?thesis unfolding powi_less by simp
qed

definition ulp_exponent :: "rat \<Rightarrow> int" where
  "ulp_exponent x = max (- 1074) (binary_exponent x - 52)"

lemma double_ulp: "x \<noteq> 0 \<Longrightarrow> double x = of_int (half_even (x / 2 powi (ulp_exponent x))) * 2 powi (ulp_exponent x)"
  by (simp add: double_def ulp_exponent_def Let_def)

lemma double_ulp_le:
  assumes "x \<noteq> 0" and "half_even (x / 2 powi (ulp_exponent x)) \<le> m"
  shows "double x \<le> of_int m * 2 powi (ulp_exponent x)"
  unfolding double_ulp [OF assms(1)] using assms(2) by (intro mult_right_mono) simp_all

lemma powi_int: "a \<le> b \<Longrightarrow> (2 :: rat) powi b = of_int (2 ^ nat (b - a)) * 2 powi a"
proof -
  assume "a \<le> b"
  then have "(2 :: rat) powi (b - a) = 2 ^ nat (b - a)" by (simp add: power_int_def)
  moreover have "(2 :: rat) powi b = 2 powi (b - a) * 2 powi a" by (simp flip: power_int_add)
  ultimately show ?thesis by simp
qed

lemma double_nonneg: "0 \<le> x \<Longrightarrow> 0 \<le> double x"
proof (cases "x = 0")
  case False
  assume "0 \<le> x"
  then have "half_even (of_int 0) \<le> half_even (x / 2 powi (ulp_exponent x))" by (intro half_even_mono) simp
  then show ?thesis using False by (simp add: double_ulp del: of_int_0)
qed (simp add: double_def)

lemma double_mono:
  assumes "0 \<le> x" and "x \<le> y"
  shows "double x \<le> double y"
proof (cases "x = 0")
  case True
  then show ?thesis using double_nonneg [of y] assms by (simp add: double_def)
next
  case False
  then have x: "0 < x" and y: "y \<noteq> 0" using assms by auto
  let ?u = "ulp_exponent x" and ?v = "ulp_exponent y"
  have uv: "?u \<le> ?v" using binary_exponent_mono [OF x assms(2)] by (simp add: ulp_exponent_def)
  show ?thesis
  proof (cases "?u = ?v")
    case True
    then have "half_even (x / 2 powi ?u) \<le> half_even (y / 2 powi ?v)" using assms(2) by (intro half_even_mono) (simp add: divide_right_mono)
    then show ?thesis using False y True by (simp add: double_ulp mult_right_mono)
  next
    case ne: False
    let ?e = "binary_exponent y"
    have v: "?v = ?e - 52" and e: "binary_exponent x + 1 \<le> ?e" using ne uv by (auto simp: ulp_exponent_def)
    have "x \<le> 2 powi ?e"
    proof -
      have "x < 2 powi (binary_exponent x + 1)" using binary_exponent_gr [of x] x by simp
      also have "\<dots> \<le> 2 powi ?e" using e by (intro power_int_increasing) simp_all
      finally show ?thesis by simp
    qed
    moreover have ue: "?u \<le> ?e" using v uv by simp
    ultimately have "x / 2 powi ?u \<le> of_int (2 ^ nat (?e - ?u))" using powi_int [OF ue] by (simp add: divide_le_eq)
    then have "half_even (x / 2 powi ?u) \<le> 2 ^ nat (?e - ?u)" using half_even_mono by (metis half_even_int)
    then have "double x \<le> of_int (2 ^ nat (?e - ?u)) * 2 powi ?u"
      using False by (intro double_ulp_le) simp_all
    also have "\<dots> = 2 powi ?e" using powi_int [OF ue] by simp
    also have "\<dots> = of_int (2 ^ nat (?e - ?v)) * 2 powi ?v" by (rule powi_int) (simp add: v)
    also have "\<dots> \<le> double y"
    proof -
      have "2 powi ?e \<le> y" using binary_exponent_le [OF y] assms x by simp
      then have "of_int (2 ^ nat (?e - ?v)) \<le> y / 2 powi ?v"
        using powi_int [of ?v ?e] by (simp add: le_divide_eq v)
      then have "2 ^ nat (?e - ?v) \<le> half_even (y / 2 powi ?v)" using half_even_mono by (metis half_even_int)
      then show ?thesis
        using y by (simp only: double_ulp not_False_eq_True) (intro mult_right_mono, simp_all only: of_int_le_iff, simp)
    qed
    finally show ?thesis .
  qed
qed

section \<open>Rounding twice\<close>

lemma double_exact:
  assumes "y = of_int m * 2 powi (ulp_exponent y)"
  shows "double y = y"
proof (cases "y = 0")
  case False
  have "y / 2 powi (ulp_exponent y) = of_int m" by (subst assms) simp
  then have "double y = of_int m * 2 powi (ulp_exponent y)" using False by (simp add: double_ulp)
  then show ?thesis using assms by simp
qed (simp add: double_def)

lemma double_le_pow:
  assumes "0 < x"
  shows "double x \<le> 2 powi (binary_exponent x + 1)"
proof -
  let ?u = "ulp_exponent x" and ?e = "max (ulp_exponent x) (binary_exponent x + 1)"
  have le: "x < 2 powi ?e" using binary_exponent_gr [of x] assms power_int_increasing [of "binary_exponent x + 1" ?e "2 :: rat"] by simp
  show ?thesis
  proof (cases "?u \<le> binary_exponent x + 1")
    case True
    then have "x / 2 powi ?u \<le> of_int (2 ^ nat (?e - ?u))" using powi_int [of ?u ?e] le by (simp add: divide_le_eq)
    then have "half_even (x / 2 powi ?u) \<le> 2 ^ nat (?e - ?u)" using half_even_mono by (metis half_even_int)
    then have "double x \<le> of_int (2 ^ nat (?e - ?u)) * 2 powi ?u"
      using assms by (intro double_ulp_le) simp_all
    then show ?thesis using powi_int [of ?u ?e] True by simp
  next
    case False
    then have "x < 2 powi (?u - 1)" using binary_exponent_gr [of x] assms power_int_increasing [of "binary_exponent x + 1" "?u - 1" "2 :: rat"] by simp
    then have "x / 2 powi ?u < 1 / 2" by (simp add: divide_less_eq power_int_diff)
    moreover have "0 \<le> x / 2 powi ?u" using assms by simp
    ultimately have "half_even (x / 2 powi ?u) = 0" by (rule half_even_small)
    then show ?thesis using assms by (simp add: double_ulp)
  qed
qed

lemma double_double [simp]:
  assumes "0 \<le> x"
  shows "double (double x) = double x"
proof (cases "double x = 0 \<or> x = 0")
  case False
  let ?y = "double x" and ?u = "ulp_exponent x" and ?h = "half_even (x / 2 powi (ulp_exponent x))"
  have x: "0 < x" and y: "0 < ?y" using False assms double_nonneg [of x] by auto
  have yh: "?y = of_int ?h * 2 powi ?u" using x by (simp add: double_ulp)
  show ?thesis
  proof (cases "ulp_exponent ?y \<le> ?u")
    case True
    then have "?y = of_int (?h * 2 ^ nat (?u - ulp_exponent ?y)) * 2 powi (ulp_exponent ?y)"
      using powi_int [OF True] yh by (metis (no_types, opaque_lifting) mult.assoc of_int_mult)
    then show ?thesis by (rule double_exact)
  next
    case gr: False
    then have "binary_exponent x + 1 \<le> binary_exponent ?y" by (auto simp: ulp_exponent_def)
    then have "2 powi (binary_exponent x + 1) \<le> (2 powi (binary_exponent ?y) :: rat)" by (intro power_int_increasing) simp_all
    also have "\<dots> \<le> ?y" using binary_exponent_le [of ?y] y by simp
    finally have eq: "?y = 2 powi (binary_exponent x + 1)" "?y = 2 powi (binary_exponent ?y)"
      using double_le_pow [OF x] \<open>2 powi (binary_exponent ?y) \<le> ?y\<close> \<open>2 powi (binary_exponent x + 1) \<le> (2 powi (binary_exponent ?y) :: rat)\<close> by linarith+
    have "ulp_exponent ?y \<le> binary_exponent ?y" using gr by (auto simp: ulp_exponent_def)
    then have "?y = of_int (2 ^ nat (binary_exponent ?y - ulp_exponent ?y)) * 2 powi (ulp_exponent ?y)" using eq(2) powi_int by metis
    then show ?thesis by (rule double_exact)
  qed
qed (auto simp: double_def)

lemma fadd_mono: "0 \<le> x \<Longrightarrow> 0 \<le> y \<Longrightarrow> x \<le> x' \<Longrightarrow> y \<le> y' \<Longrightarrow> fadd x y \<le> fadd x' y'"
  by (simp add: fadd_def double_mono add_mono)

lemma fdiv_mono: "0 \<le> x \<Longrightarrow> x \<le> x' \<Longrightarrow> 0 < y \<Longrightarrow> fdiv x y \<le> fdiv x' y"
  by (simp add: fdiv_def double_mono divide_right_mono)

lemma fdiv_antimono: "0 \<le> x \<Longrightarrow> 0 < y \<Longrightarrow> y \<le> y' \<Longrightarrow> fdiv x y' \<le> fdiv x y"
  by (simp add: fdiv_def double_mono divide_left_mono)

lemma fadd_nonneg: "0 \<le> x \<Longrightarrow> 0 \<le> y \<Longrightarrow> 0 \<le> fadd x y"
  by (simp add: fadd_def double_nonneg)

lemma fdiv_nonneg: "0 \<le> x \<Longrightarrow> 0 \<le> y \<Longrightarrow> 0 \<le> fdiv x y"
  by (simp add: fdiv_def double_nonneg)

end
