(* ===== verification/Share_Projection.thy ===== *)
theory Share_Projection
  imports Contracts Floats
begin

text \<open>
  The public projection of a published trip: the share contracts of
  \<^verbatim>\<open>packages/python/routepilot_contracts/.../artifacts.py\<close> and \<open>project_share_snapshot\<close> of
  \<^verbatim>\<open>backend/moyuan_web/v1/share_service.py\<close>. Coordinates pass through a binary floating point number and
  \<^verbatim>\<open>round(x, 2)\<close>, which are modelled exactly.
\<close>

section \<open>Coarse coordinates\<close>

text \<open>
  \<^verbatim>\<open>float(d)\<close> is the nearest double. \<^verbatim>\<open>round(x, 2)\<close> rounds the exact value of the double to
  hundredths, ties to even, and the shortest representation that \<^verbatim>\<open>str\<close> prints for the result is that number
  of hundredths.
\<close>

definition round2 :: "rat \<Rightarrow> rat" where
  "round2 x = of_int (half_even (100 * double x)) / 100"

lemma round2_error:
  assumes "\<bar>x\<bar> < 256"
  shows "\<bar>round2 x - x\<bar> \<le> 1 / 200 + 1 / 2 ^ 45"
proof -
  have "\<bar>round2 x - double x\<bar> \<le> 1 / 200"
    using half_even_error [of "100 * double x"] by (simp add: round2_def abs_le_iff field_simps)
  with double_error [OF assms] show ?thesis by linarith
qed

lemma round2_range:
  assumes "- of_int k \<le> x" and "x \<le> of_int k" and "k < 256"
  shows "- of_int k \<le> round2 x \<and> round2 x \<le> of_int k"
proof -
  have "\<bar>x\<bar> < 256" using assms by linarith
  note e = double_error [OF this]
  let ?h = "half_even (100 * double x)"
  have "\<bar>double x - x\<bar> \<le> 1 / 1000" using e by (rule order_trans) simp
  then have "\<bar>of_int ?h - 100 * x\<bar> < 1" using half_even_error [of "100 * double x"] by linarith
  then have "of_int ?h < (of_int (100 * k + 1) :: rat)" "(of_int (- 100 * k - 1) :: rat) < of_int ?h"
    using assms by (auto simp: abs_less_iff)
  then have "?h \<le> 100 * k" "- 100 * k \<le> ?h" unfolding of_int_less_iff by linarith+
  then have "(of_int ?h :: rat) \<le> of_int (100 * k)" "(of_int (- 100 * k) :: rat) \<le> of_int ?h"
    unfolding of_int_le_iff by simp_all
  then show ?thesis by (simp add: round2_def field_simps)
qed

section \<open>Contracts\<close>

record PublicGeoPoint =
  pg_latitude :: rat
  pg_longitude :: rat
  pg_coordinate_system :: CoordinateSystem
  pg_accuracy_meters :: int

definition PublicGeoPoint_ok :: "PublicGeoPoint \<Rightarrow> bool" where
  "PublicGeoPoint_ok g \<longleftrightarrow> - 90 \<le> pg_latitude g \<and> pg_latitude g \<le> 90 \<and>
     - 180 \<le> pg_longitude g \<and> pg_longitude g \<le> 180 \<and> 100 \<le> pg_accuracy_meters g"

record PublicPlace =
  pb_display_name :: string
  pb_locality :: string
  pb_country_code :: string
  pb_approximate_location :: "PublicGeoPoint option"

definition PublicPlace_ok :: "PublicPlace \<Rightarrow> bool" where
  "PublicPlace_ok p \<longleftrightarrow> ShortText (pb_display_name p) \<and> ShortText (pb_locality p) \<and> CountryCode (pb_country_code p)"

record ShareTransitSummary =
  ts_mode :: TransitMode
  ts_duration_minutes :: int

definition ShareTransitSummary_ok :: "ShareTransitSummary \<Rightarrow> bool" where
  "ShareTransitSummary_ok t \<longleftrightarrow> 0 \<le> ts_duration_minutes t \<and> ts_duration_minutes t \<le> 10080"

record ShareTimeBlock =
  sb_block_id :: string
  sb_title :: string
  sb_category :: BlockCategory
  sb_time_range :: ZonedTimeRange
  sb_place :: PublicPlace
  sb_transit_from_previous :: "ShareTransitSummary option"
  sb_citation_refs :: "string list"

definition ShareTimeBlock_ok :: "ShareTimeBlock \<Rightarrow> bool" where
  "ShareTimeBlock_ok b \<longleftrightarrow> Identifier (sb_block_id b) \<and> ShortText (sb_title b) \<and>
     length (sb_citation_refs b) \<le> 100 \<and> list_all Identifier (sb_citation_refs b)"

record ShareDay =
  sd_date :: int
  sd_timezone :: string
  sd_summary :: string
  sd_time_blocks :: "ShareTimeBlock list"

definition ShareDay_ok :: "(string \<Rightarrow> bool) \<Rightarrow> ShareDay \<Rightarrow> bool" where
  "ShareDay_ok tz d \<longleftrightarrow> IanaTimezone tz (sd_timezone d) \<and> NonEmptyText (sd_summary d) \<and>
     1 \<le> length (sd_time_blocks d) \<and> length (sd_time_blocks d) \<le> 50 \<and>
     \<not> list_ex (\<lambda>b. zt_local_date (sb_time_range b) \<noteq> sd_date d \<or> zt_timezone (sb_time_range b) \<noteq> sd_timezone d)
         (sd_time_blocks d)"

record ShareSnapshot = ArtifactBase +
  ss_public_id :: string
  ss_trip_snapshot_ref :: ArtifactRef
  ss_title :: string
  ss_destination :: PublicPlace
  ss_date_window :: TripDateRange
  ss_days :: "ShareDay list"
  ss_citations :: "Citation list"
  ss_published_at :: instant

definition ShareSnapshot_ok :: "ShareSnapshot \<Rightarrow> bool" where
  "ShareSnapshot_ok s \<longleftrightarrow> ArtifactBase_ok s \<and> Identifier (ss_public_id s) \<and> ShortText (ss_title s) \<and>
     1 \<le> length (ss_days s) \<and> length (ss_days s) \<le> 60 \<and> length (ss_citations s) \<le> 1000 \<and>
     ar_artifact_type (ss_trip_snapshot_ref s) = AT_TripSnapshot \<and>
     \<not> list_ex (\<lambda>d. sd_timezone d \<noteq> td_timezone (ss_date_window s)) (ss_days s) \<and>
     sorted (map sd_date (ss_days s)) \<and> distinct (map sd_date (ss_days s))"

section \<open>The projection\<close>

definition public_place :: "PlaceRef \<Rightarrow> contract_error + PublicPlace" where
  "public_place p =
     sbind (construct PublicGeoPoint_ok
        \<lparr>pg_latitude = round2 (gp_latitude (pl_location p)), pg_longitude = round2 (gp_longitude (pl_location p)),
         pg_coordinate_system = gp_coordinate_system (pl_location p), pg_accuracy_meters = 2000\<rparr>) (\<lambda>point.
     construct PublicPlace_ok
        \<lparr>pb_display_name = pl_display_name p,
         pb_locality = take 256 (case pl_address p of None \<Rightarrow> pl_display_name p
                                 | Some a \<Rightarrow> if a = [] then pl_display_name p else a),
         pb_country_code = pl_country_code p, pb_approximate_location = Some point\<rparr>)"

definition citation_by_evidence :: "Citation list \<Rightarrow> (string, string) dict" where
  "citation_by_evidence cs = foldl (\<lambda>d c. dset (ci_evidence_id c) (ci_citation_id c) d) [] cs"

definition project_transit :: "TransitLeg option \<Rightarrow> contract_error + ShareTransitSummary option" where
  "project_transit leg =
     (case leg of None \<Rightarrow> Inr None
      | Some t \<Rightarrow> sbind (construct ShareTransitSummary_ok
                     \<lparr>ts_mode = tg_mode t, ts_duration_minutes = tg_duration_max_minutes t\<rparr>) (\<lambda>x. Inr (Some x)))"

definition project_block :: "(string, string) dict \<Rightarrow> PlanTimeBlock \<Rightarrow> contract_error + ShareTimeBlock" where
  "project_block cited b =
     sbind (public_place (bk_place_ref b)) (\<lambda>place.
     sbind (project_transit (bk_transit_from_previous b)) (\<lambda>transit.
     construct ShareTimeBlock_ok
       \<lparr>sb_block_id = bk_block_id b, sb_title = bk_title b, sb_category = bk_category b, sb_time_range = bk_time_range b,
        sb_place = place, sb_transit_from_previous = transit,
        sb_citation_refs = map (\<lambda>e. the (dget cited e)) (filter (\<lambda>e. dget cited e \<noteq> None) (bk_evidence_refs b))\<rparr>))"

definition project_day :: "(string \<Rightarrow> bool) \<Rightarrow> (string, string) dict \<Rightarrow> PlanDay \<Rightarrow> contract_error + ShareDay" where
  "project_day tz cited d =
     sbind (smap (project_block cited) (pd_time_blocks d)) (\<lambda>blocks.
     construct (ShareDay_ok tz)
       \<lparr>sd_date = pd_date d, sd_timezone = pd_timezone d, sd_summary = pd_day_summary d, sd_time_blocks = blocks\<rparr>)"

text \<open>\<open>snapshot_id\<close> is the identifier drawn for the share snapshot, \<open>now\<close> the clock reading.\<close>

definition project_share_snapshot ::
    "(string \<Rightarrow> bool) \<Rightarrow> string \<Rightarrow> instant \<Rightarrow> TripSnapshot \<Rightarrow> string \<Rightarrow> contract_error + ShareSnapshot" where
  "project_share_snapshot tz snapshot_id now source public_id =
     (let citations = ip_citations (sn_itinerary source) in
      sbind (smap (project_day tz (citation_by_evidence citations)) (ip_days (sn_itinerary source))) (\<lambda>days.
      sbind (construct ActorRef_ok \<lparr>ac_actor_type = Ac_service, ac_actor_id = ''service:share_projector''\<rparr>) (\<lambda>actor.
      sbind (construct ArtifactRef_ok
         \<lparr>ar_artifact_type = AT_TripSnapshot, ar_artifact_id = ab_artifact_id source, ar_schema_version = 1,
          ar_version = ab_version source\<rparr>) (\<lambda>reference.
      sbind (public_place (tb_destination (sn_brief source))) (\<lambda>destination.
      construct ShareSnapshot_ok
        \<lparr>ab_artifact_id = snapshot_id, ab_schema_version = 1, ab_version = 1, ab_created_at = now, ab_created_by = actor,
         ab_reason = ''explicit, immutable and minimal public projection of a published TripSnapshot'',
         ss_public_id = public_id, ss_trip_snapshot_ref = reference, ss_title = sn_title source,
         ss_destination = destination, ss_date_window = tb_date_window (sn_brief source), ss_days = days,
         ss_citations = citations, ss_published_at = now\<rparr>)))))"

section \<open>The projection never fails\<close>

definition place_valid :: "(string \<Rightarrow> bool) \<Rightarrow> PlaceRef \<Rightarrow> bool" where
  "place_valid tz p \<longleftrightarrow> PlaceRef_ok tz p \<and> GeoPoint_ok (pl_location p)"

text \<open>A TripSnapshot built from parts that satisfy their contracts, which is what validation returns.\<close>

definition snapshot_valid :: "(string \<Rightarrow> bool) \<Rightarrow> TripSnapshot \<Rightarrow> bool" where
  "snapshot_valid tz s \<longleftrightarrow> TripSnapshot_ok tz s \<and> TripBrief_ok (sn_brief s) \<and>
     place_valid tz (tb_destination (sn_brief s)) \<and> ItineraryPlan_ok tz (sn_itinerary s) \<and>
     list_all Citation_ok (ip_citations (sn_itinerary s)) \<and>
     list_all (\<lambda>d. PlanDay_ok tz d \<and>
       list_all (\<lambda>b. PlanTimeBlock_ok b \<and> place_valid tz (bk_place_ref b) \<and>
         opt_ok TransitLeg_ok (bk_transit_from_previous b)) (pd_time_blocks d)) (ip_days (sn_itinerary s))"

definition coarse_point :: "GeoPoint \<Rightarrow> PublicGeoPoint" where
  "coarse_point g = \<lparr>pg_latitude = round2 (gp_latitude g), pg_longitude = round2 (gp_longitude g),
     pg_coordinate_system = gp_coordinate_system g, pg_accuracy_meters = 2000\<rparr>"

definition shared_place :: "PlaceRef \<Rightarrow> PublicPlace" where
  "shared_place p = \<lparr>pb_display_name = pl_display_name p,
     pb_locality = (case pl_address p of None \<Rightarrow> pl_display_name p | Some a \<Rightarrow> a),
     pb_country_code = pl_country_code p, pb_approximate_location = Some (coarse_point (pl_location p))\<rparr>"

definition shared_block :: "(string, string) dict \<Rightarrow> PlanTimeBlock \<Rightarrow> ShareTimeBlock" where
  "shared_block cited b =
     \<lparr>sb_block_id = bk_block_id b, sb_title = bk_title b, sb_category = bk_category b, sb_time_range = bk_time_range b,
      sb_place = shared_place (bk_place_ref b),
      sb_transit_from_previous = map_option (\<lambda>t. \<lparr>ts_mode = tg_mode t, ts_duration_minutes = tg_duration_max_minutes t\<rparr>)
        (bk_transit_from_previous b),
      sb_citation_refs = map (\<lambda>e. the (dget cited e)) (filter (\<lambda>e. dget cited e \<noteq> None) (bk_evidence_refs b))\<rparr>"

definition shared_day :: "(string, string) dict \<Rightarrow> PlanDay \<Rightarrow> ShareDay" where
  "shared_day cited d =
     \<lparr>sd_date = pd_date d, sd_timezone = pd_timezone d, sd_summary = pd_day_summary d,
      sd_time_blocks = map (shared_block cited) (pd_time_blocks d)\<rparr>"

lemma smap_total: "(\<And>x. x \<in> set xs \<Longrightarrow> f x = Inr (g x)) \<Longrightarrow> smap f xs = Inr (map g xs)"
  by (induction xs) simp_all

lemma construct_total: "ok x \<Longrightarrow> construct ok x = Inr x"
  by (simp add: construct_def)

lemma public_place_total: "place_valid tz p \<Longrightarrow> public_place p = Inr (shared_place p)"
proof -
  assume v: "place_valid tz p"
  have "PublicGeoPoint_ok (coarse_point (pl_location p))"
    using v round2_range [of 90 "gp_latitude (pl_location p)"] round2_range [of 180 "gp_longitude (pl_location p)"]
    by (simp add: PublicGeoPoint_ok_def coarse_point_def place_valid_def GeoPoint_ok_def)
  moreover have "PublicPlace_ok (shared_place p)"
    using v by (auto simp: PublicPlace_ok_def shared_place_def place_valid_def PlaceRef_ok_def opt_ok_def split: option.splits)
  moreover have "take 256 (case pl_address p of None \<Rightarrow> pl_display_name p | Some a \<Rightarrow> if a = [] then pl_display_name p else a) =
      (case pl_address p of None \<Rightarrow> pl_display_name p | Some a \<Rightarrow> a)"
    using v by (auto simp: place_valid_def PlaceRef_ok_def opt_ok_def ShortText_def split: option.splits)
  ultimately show ?thesis
    by (simp add: public_place_def construct_total shared_place_def flip: coarse_point_def)
qed

lemma citation_by_evidence_from:
  assumes "dget (citation_by_evidence cs) e = Some i"
  shows "\<exists>c \<in> set cs. ci_citation_id c = i"
  using assms unfolding citation_by_evidence_def
  by (induction cs rule: rev_induct) (auto split: if_splits)

lemma project_block_total:
  assumes "PlanTimeBlock_ok b" and "place_valid tz (bk_place_ref b)" and "opt_ok TransitLeg_ok (bk_transit_from_previous b)"
    and "list_all Citation_ok cs"
  shows "project_block (citation_by_evidence cs) b = Inr (shared_block (citation_by_evidence cs) b)"
proof -
  let ?cited = "citation_by_evidence cs"
  have "project_transit (bk_transit_from_previous b) =
      Inr (map_option (\<lambda>t. \<lparr>ts_mode = tg_mode t, ts_duration_minutes = tg_duration_max_minutes t\<rparr>) (bk_transit_from_previous b))"
    using assms(3) by (auto simp: project_transit_def construct_total ShareTransitSummary_ok_def opt_ok_def TransitLeg_ok_def
      split: option.splits)
  moreover have "Identifier i" if "dget ?cited e = Some i" for e i
    using citation_by_evidence_from [OF that] assms(4) by (auto simp: list_all_iff Citation_ok_def)
  then have "ShareTimeBlock_ok (shared_block ?cited b)"
    using assms(1) order_trans [OF length_filter_le]
    by (auto simp: ShareTimeBlock_ok_def shared_block_def PlanTimeBlock_ok_def list_all_iff)
  ultimately show ?thesis
    using public_place_total [OF assms(2)] by (simp add: project_block_def construct_total shared_block_def)
qed

lemma project_day_total:
  assumes "PlanDay_ok tz d" and "list_all (\<lambda>b. PlanTimeBlock_ok b \<and> place_valid tz (bk_place_ref b) \<and>
      opt_ok TransitLeg_ok (bk_transit_from_previous b)) (pd_time_blocks d)" and "list_all Citation_ok cs"
  shows "project_day tz (citation_by_evidence cs) d = Inr (shared_day (citation_by_evidence cs) d)"
proof -
  have "smap (project_block (citation_by_evidence cs)) (pd_time_blocks d) =
      Inr (map (shared_block (citation_by_evidence cs)) (pd_time_blocks d))"
    by (rule smap_total) (use assms(2,3) in \<open>auto simp: list_all_iff intro: project_block_total\<close>)
  moreover have "ShareDay_ok tz (shared_day (citation_by_evidence cs) d)"
    using assms(1) by (auto simp: ShareDay_ok_def shared_day_def PlanDay_ok_def list_all_iff list_ex_iff shared_block_def)
  ultimately show ?thesis by (simp add: project_day_def construct_total shared_day_def)
qed

definition shared_snapshot :: "string \<Rightarrow> instant \<Rightarrow> TripSnapshot \<Rightarrow> string \<Rightarrow> ShareSnapshot" where
  "shared_snapshot snapshot_id now s public_id =
     \<lparr>ab_artifact_id = snapshot_id, ab_schema_version = 1, ab_version = 1, ab_created_at = now,
      ab_created_by = \<lparr>ac_actor_type = Ac_service, ac_actor_id = ''service:share_projector''\<rparr>,
      ab_reason = ''explicit, immutable and minimal public projection of a published TripSnapshot'',
      ss_public_id = public_id,
      ss_trip_snapshot_ref = \<lparr>ar_artifact_type = AT_TripSnapshot, ar_artifact_id = ab_artifact_id s, ar_schema_version = 1,
        ar_version = ab_version s\<rparr>,
      ss_title = sn_title s, ss_destination = shared_place (tb_destination (sn_brief s)),
      ss_date_window = tb_date_window (sn_brief s),
      ss_days = map (shared_day (citation_by_evidence (ip_citations (sn_itinerary s)))) (ip_days (sn_itinerary s)),
      ss_citations = ip_citations (sn_itinerary s), ss_published_at = now\<rparr>"

lemma projection_total:
  assumes "snapshot_valid tz s" and "Identifier snapshot_id" and "Identifier public_id"
  shows "project_share_snapshot tz snapshot_id now s public_id = Inr (shared_snapshot snapshot_id now s public_id)"
    "ShareSnapshot_ok (shared_snapshot snapshot_id now s public_id)"
proof -
  let ?cited = "citation_by_evidence (ip_citations (sn_itinerary s))"
  note v = assms(1) [unfolded snapshot_valid_def]
  have days: "smap (project_day tz ?cited) (ip_days (sn_itinerary s)) = Inr (map (shared_day ?cited) (ip_days (sn_itinerary s)))"
    by (rule smap_total) (use v in \<open>auto simp: list_all_iff [of _ "ip_days _"] intro!: project_day_total\<close>)
  have actor: "ActorRef_ok \<lparr>ac_actor_type = Ac_service, ac_actor_id = ''service:share_projector''\<rparr>" by code_simp
  have ref: "ArtifactRef_ok \<lparr>ar_artifact_type = AT_TripSnapshot, ar_artifact_id = ab_artifact_id s, ar_schema_version = 1,
      ar_version = ab_version s\<rparr>" using v by (simp add: ArtifactRef_ok_def TripSnapshot_ok_def ArtifactBase_ok_def)
  have place: "public_place (tb_destination (sn_brief s)) = Inr (shared_place (tb_destination (sn_brief s)))"
    using v by (intro public_place_total [of tz]) simp
  have "map sd_date (map (shared_day ?cited) (ip_days (sn_itinerary s))) = map pd_date (ip_days (sn_itinerary s))"
    by (simp add: shared_day_def)
  then show ok: "ShareSnapshot_ok (shared_snapshot snapshot_id now s public_id)"
    using v assms(2,3)
    by (auto simp: ShareSnapshot_ok_def shared_snapshot_def ArtifactBase_ok_def NonEmptyText_def TripSnapshot_ok_def
      ItineraryPlan_ok_def TripBrief_ok_def list_ex_iff shared_day_def comp_def)
  show "project_share_snapshot tz snapshot_id now s public_id = Inr (shared_snapshot snapshot_id now s public_id)"
    using ok by (simp add: project_share_snapshot_def days place construct_total [of ActorRef_ok, OF actor] construct_total [of ArtifactRef_ok, OF ref]
      construct_total shared_snapshot_def Let_def)
qed

end
