(* ===== verification/Share_Service.thy ===== *)
theory Share_Service
  imports Share_Projection Platform_Store
begin

text \<open>
  Public sharing of trips, \<^verbatim>\<open>backend/moyuan_web/v1/share_models.py\<close> and the in-memory half of
  \<^verbatim>\<open>share_service.py\<close>: the service with no engine, every method a transition under its lock. The keyed hash
  (HMAC-SHA-256 with the pepper, in base64url or hexadecimal), the hash of a request and the validation of a
  stored TripSnapshot are arguments, as are the clock, identifiers and tokens drawn by a call.
\<close>

section \<open>Models\<close>

datatype ShareStatus = Share_active | Share_revoked

record ShareCreateRequest =
  sq_artifact_id :: string
  sq_artifact_version :: int

definition ShareCreateRequest_ok :: "ShareCreateRequest \<Rightarrow> bool" where
  "ShareCreateRequest_ok r \<longleftrightarrow> 3 \<le> length (sq_artifact_id r) \<and> length (sq_artifact_id r) \<le> 96 \<and> 1 \<le> sq_artifact_version r"

record ShareView =
  sv_share_id :: string
  sv_public_id :: string
  sv_trip_id :: string
  sv_source_artifact_id :: string
  sv_source_artifact_version :: int
  sv_status :: ShareStatus
  sv_version :: int
  sv_capability_epoch :: int
  sv_created_by :: string
  sv_created_at :: instant
  sv_updated_at :: instant
  sv_revoked_at :: "instant option"

record ShareMutationResponse =
  mu_share :: ShareView
  mu_capability_secret :: "string option"
  mu_replayed :: bool

record ShareExchangeResponse =
  xr_session_token :: string
  xr_expires_at :: instant

record PublicShareSnapshotResponse =
  ps_public_id :: string
  ps_snapshot :: ShareSnapshot

text \<open>
  The errors of the service and what else its methods may raise: errors of the platform store, a failed
  contract validation, a missing key, a violated constraint of the database.
\<close>

datatype share_error =
    ShareNotFound
  | ShareConflict string "int option"
  | ShareCapabilityInvalid
  | ShareRateLimited int
  | ShareStoreError store_error
  | ShareContractError contract_error
  | ShareKeyError
  | ShareIntegrityError

definition rate_limited :: "int \<Rightarrow> share_error" where
  "rate_limited retry_after_seconds = ShareRateLimited (max 1 retry_after_seconds)"

record share_env =
  se_hmac_base64 :: "string \<Rightarrow> string"
  se_hmac_hex :: "string \<Rightarrow> string"
  se_request_hash :: "jobj \<Rightarrow> string"
  se_validate :: "jobj \<Rightarrow> TripSnapshot option"
  se_zones :: "string \<Rightarrow> bool"

text \<open>
  What one call of \<open>create\<close> draws: clock readings, identifiers, and, read by the PostgreSQL half only, the row of
  the trip joined with its artifact version.
\<close>

record share_call =
  sc_now :: instant
  sc_share_id :: string
  sc_public_id :: string
  sc_snapshot_id :: string
  sc_snapshot_now :: instant
  sc_current :: "(string option \<times> int option \<times> ArtifactStatus) option"

section \<open>Secrets\<close>

definition unit_separator :: string where
  "unit_separator = [char_of (31 :: nat)]"

definition derive_secret ::
    "share_env \<Rightarrow> string \<Rightarrow> Principal \<Rightarrow> string \<Rightarrow> string \<Rightarrow> string \<Rightarrow> int \<Rightarrow> string" where
  "derive_secret e operation p idempotency_key request_hash share_id epoch =
     se_hmac_base64 e (''capability'' @ unit_separator @ operation @ unit_separator @ pr_tenant_id p @ unit_separator @
       pr_user_id p @ unit_separator @ idempotency_key @ unit_separator @ request_hash @ unit_separator @ share_id @
       unit_separator @ show_int epoch)"

definition capability_hash :: "share_env \<Rightarrow> string \<Rightarrow> string \<Rightarrow> string" where
  "capability_hash e public_id secret =
     se_hmac_hex e (''capability-hash'' @ unit_separator @ public_id @ unit_separator @ secret)"

definition session_hash :: "share_env \<Rightarrow> string \<Rightarrow> string" where
  "session_hash e token = se_hmac_hex e (''share-session'' @ unit_separator @ token)"

section \<open>The source of a share\<close>

text \<open>\<open>_source\<close> reads the trip in store \<open>s1\<close> and, after an await, the artifact in store \<open>s2\<close>.\<close>

definition source ::
    "share_env \<Rightarrow> Principal \<Rightarrow> string \<Rightarrow> ShareCreateRequest \<Rightarrow> platform_store \<Rightarrow> platform_store \<Rightarrow>
     share_error + TripSnapshot" where
  "source e p trip_id r s1 s2 =
     (case trip_locked s1 p trip_id False of
        Inl err \<Rightarrow> Inl (ShareStoreError err)
      | Inr trip \<Rightarrow>
          if tv_current_artifact_id trip \<noteq> Some (sq_artifact_id r) \<or>
             tv_current_artifact_version trip \<noteq> Some (sq_artifact_version r)
          then Inl (ShareConflict ''only the current published TripSnapshot can be shared'' None)
          else
            (case artifact_locked s2 p (sq_artifact_id r) (Some (sq_artifact_version r)) False of
               Inl err \<Rightarrow> Inl (ShareStoreError err)
             | Inr artifact \<Rightarrow>
                 if av_trip_id artifact \<noteq> trip_id \<or> av_artifact_type artifact \<noteq> ''TripSnapshot'' \<or>
                    av_status artifact \<noteq> PUBLISHED
                 then Inl (ShareConflict ''only a published TripSnapshot can be shared'' None)
                 else (case se_validate e (av_content artifact) of
                         None \<Rightarrow> Inl (ShareContractError ValidationError)
                       | Some parsed \<Rightarrow> Inr parsed)))"

definition create_request_hash :: "share_env \<Rightarrow> string \<Rightarrow> ShareCreateRequest \<Rightarrow> string" where
  "create_request_hash e trip_id r =
     se_request_hash e [(''trip_id'', JStr trip_id),
       (''request'', JObj [(''artifact_id'', JStr (sq_artifact_id r)), (''artifact_version'', JInt (sq_artifact_version r))])]"

definition change_request_hash :: "share_env \<Rightarrow> string \<Rightarrow> string \<Rightarrow> int \<Rightarrow> string" where
  "change_request_hash e operation share_id expected_version =
     se_request_hash e [(''share_id'', JStr share_id), (''expected_version'', JInt expected_version),
       (''operation'', JStr operation)]"

definition new_share_view :: "Principal \<Rightarrow> string \<Rightarrow> TripSnapshot \<Rightarrow> share_call \<Rightarrow> ShareView" where
  "new_share_view p trip_id src c =
     \<lparr>sv_share_id = sc_share_id c, sv_public_id = sc_public_id c, sv_trip_id = trip_id,
      sv_source_artifact_id = ab_artifact_id src, sv_source_artifact_version = ab_version src,
      sv_status = Share_active, sv_version = 1, sv_capability_epoch = 1, sv_created_by = pr_user_id p,
      sv_created_at = sc_now c, sv_updated_at = sc_now c, sv_revoked_at = None\<rparr>"

section \<open>The service in memory\<close>

record MemoryShare =
  ms_view :: ShareView
  ms_secret_hash :: string

type_synonym share_scope = "string \<times> string \<times> string \<times> string"

record share_service =
  sh_shares :: "(string, MemoryShare) dict"
  sh_public_ids :: "string \<rightharpoonup> string"
  sh_snapshots :: "string \<rightharpoonup> ShareSnapshot"
  sh_sessions :: "string \<rightharpoonup> string \<times> int \<times> instant"
  sh_idempotency :: "share_scope \<rightharpoonup> string \<times> string \<times> int \<times> int"
  sh_failures :: "string \<rightharpoonup> int \<times> instant \<times> instant option"

type_synonym 'a share_method = "(share_service, share_error, 'a) eff"

definition new_share_service :: share_service where
  "new_share_service = \<lparr>sh_shares = [], sh_public_ids = Map.empty, sh_snapshots = Map.empty, sh_sessions = Map.empty,
     sh_idempotency = Map.empty, sh_failures = Map.empty\<rparr>"

definition create_memory ::
    "share_env \<Rightarrow> share_call \<Rightarrow> Principal \<Rightarrow> string \<Rightarrow> TripSnapshot \<Rightarrow> string \<Rightarrow> string \<Rightarrow>
     ShareMutationResponse share_method" where
  "create_memory e c p trip_id src request_hash idempotency_key st =
     (let scope = (pr_tenant_id p, pr_user_id p, ''share.create'', idempotency_key) in
      case sh_idempotency st scope of
        Some (old_hash, share_id, version, epoch) \<Rightarrow>
          if old_hash \<noteq> request_hash then (Inl (ShareConflict ''idempotency key reused with another request'' None), st)
          else (case dget (sh_shares st) share_id of
                  None \<Rightarrow> (Inl ShareKeyError, st)
                | Some stored \<Rightarrow>
                    (Inr \<lparr>mu_share = ms_view stored,
                          mu_capability_secret =
                            Some (derive_secret e ''share.create'' p idempotency_key request_hash share_id epoch),
                          mu_replayed = True\<rparr>, st))
      | None \<Rightarrow>
          let secret = derive_secret e ''share.create'' p idempotency_key request_hash (sc_share_id c) 1;
              view = new_share_view p trip_id src c;
              st1 = st\<lparr>sh_shares := dset (sc_share_id c)
                                     \<lparr>ms_view = view, ms_secret_hash = capability_hash e (sc_public_id c) secret\<rparr> (sh_shares st),
                       sh_public_ids := (sh_public_ids st)(sc_public_id c \<mapsto> sc_share_id c)\<rparr>
          in (case project_share_snapshot (se_zones e) (sc_snapshot_id c) (sc_snapshot_now c) src (sc_public_id c) of
                Inl err \<Rightarrow> (Inl (ShareContractError err), st1)
              | Inr snapshot \<Rightarrow>
                  (Inr \<lparr>mu_share = view, mu_capability_secret = Some secret, mu_replayed = False\<rparr>,
                   st1\<lparr>sh_snapshots := (sh_snapshots st)(sc_share_id c \<mapsto> snapshot),
                       sh_idempotency := (sh_idempotency st)(scope \<mapsto> (request_hash, sc_share_id c, 1, 1))\<rparr>)))"

definition list_memory :: "string \<Rightarrow> ShareView list share_method" where
  "list_memory trip_id st =
     (Inr (sort_key sv_created_at (filter (\<lambda>v. sv_trip_id v = trip_id) (map (ms_view \<circ> snd) (sh_shares st)))), st)"

definition drop_sessions :: "string \<Rightarrow> (string \<rightharpoonup> string \<times> int \<times> instant) \<Rightarrow> (string \<rightharpoonup> string \<times> int \<times> instant)" where
  "drop_sessions share_id sessions =
     (\<lambda>key. case sessions key of None \<Rightarrow> None | Some v \<Rightarrow> if fst v \<noteq> share_id then Some v else None)"

definition rotate_memory ::
    "share_env \<Rightarrow> instant \<Rightarrow> Principal \<Rightarrow> string \<Rightarrow> int \<Rightarrow> string \<Rightarrow> string \<Rightarrow> ShareMutationResponse share_method" where
  "rotate_memory e now p share_id expected_version idempotency_key request_hash st =
     (let scope = (pr_tenant_id p, pr_user_id p, ''share.rotate:'' @ share_id, idempotency_key) in
      case sh_idempotency st scope of
        Some (old_hash, replay_share_id, version, epoch) \<Rightarrow>
          if old_hash \<noteq> request_hash \<or> replay_share_id \<noteq> share_id
          then (Inl (ShareConflict ''idempotency key reused with another request'' None), st)
          else (case dget (sh_shares st) share_id of
                  None \<Rightarrow> (Inl ShareNotFound, st)
                | Some stored \<Rightarrow>
                    (Inr \<lparr>mu_share = ms_view stored,
                          mu_capability_secret =
                            (if sv_version (ms_view stored) = version \<and> sv_capability_epoch (ms_view stored) = epoch
                             then Some (derive_secret e ''share.rotate'' p idempotency_key request_hash share_id epoch)
                             else None),
                          mu_replayed = True\<rparr>, st))
      | None \<Rightarrow>
          (case dget (sh_shares st) share_id of
             None \<Rightarrow> (Inl ShareNotFound, st)
           | Some stored \<Rightarrow>
               if sv_created_by (ms_view stored) \<noteq> pr_user_id p then (Inl ShareNotFound, st)
               else if sv_status (ms_view stored) \<noteq> Share_active \<or> sv_version (ms_view stored) \<noteq> expected_version
               then (Inl (ShareConflict ''share changed'' (Some (sv_version (ms_view stored)))), st)
               else
                 let epoch = sv_capability_epoch (ms_view stored) + 1;
                     version = sv_version (ms_view stored) + 1;
                     secret = derive_secret e ''share.rotate'' p idempotency_key request_hash share_id epoch;
                     updated = (ms_view stored)\<lparr>sv_version := version, sv_capability_epoch := epoch, sv_updated_at := now\<rparr>
                 in (Inr \<lparr>mu_share = updated, mu_capability_secret = Some secret, mu_replayed = False\<rparr>,
                     st\<lparr>sh_shares := dset share_id \<lparr>ms_view = updated,
                                       ms_secret_hash = capability_hash e (sv_public_id updated) secret\<rparr> (sh_shares st),
                        sh_sessions := drop_sessions share_id (sh_sessions st),
                        sh_idempotency := (sh_idempotency st)(scope \<mapsto> (request_hash, share_id, version, epoch))\<rparr>)))"

definition revoke_memory ::
    "instant \<Rightarrow> Principal \<Rightarrow> string \<Rightarrow> int \<Rightarrow> string \<Rightarrow> string \<Rightarrow> ShareMutationResponse share_method" where
  "revoke_memory now p share_id expected_version idempotency_key request_hash st =
     (let scope = (pr_tenant_id p, pr_user_id p, ''share.revoke:'' @ share_id, idempotency_key) in
      case sh_idempotency st scope of
        Some replay \<Rightarrow>
          if fst replay \<noteq> request_hash
          then (Inl (ShareConflict ''idempotency key reused with another request'' None), st)
          else (case dget (sh_shares st) share_id of
                  None \<Rightarrow> (Inl ShareNotFound, st)
                | Some stored \<Rightarrow>
                    (Inr \<lparr>mu_share = ms_view stored, mu_capability_secret = None, mu_replayed = True\<rparr>, st))
      | None \<Rightarrow>
          (case dget (sh_shares st) share_id of
             None \<Rightarrow> (Inl ShareNotFound, st)
           | Some stored \<Rightarrow>
               if sv_created_by (ms_view stored) \<noteq> pr_user_id p then (Inl ShareNotFound, st)
               else if sv_status (ms_view stored) \<noteq> Share_active \<or> sv_version (ms_view stored) \<noteq> expected_version
               then (Inl (ShareConflict ''share changed'' (Some (sv_version (ms_view stored)))), st)
               else
                 let updated = (ms_view stored)\<lparr>sv_status := Share_revoked, sv_version := sv_version (ms_view stored) + 1,
                                 sv_capability_epoch := sv_capability_epoch (ms_view stored) + 1,
                                 sv_updated_at := now, sv_revoked_at := Some now\<rparr>
                 in (Inr \<lparr>mu_share = updated, mu_capability_secret = None, mu_replayed = False\<rparr>,
                     st\<lparr>sh_shares := dset share_id \<lparr>ms_view = updated, ms_secret_hash = ms_secret_hash stored\<rparr> (sh_shares st),
                        sh_sessions := drop_sessions share_id (sh_sessions st),
                        sh_idempotency := (sh_idempotency st)(scope \<mapsto>
                          (request_hash, share_id, sv_version updated, sv_capability_epoch updated))\<rparr>)))"

definition FAILURE_WINDOW :: int where "FAILURE_WINDOW = 600000000"

definition BLOCK_TIME :: int where "BLOCK_TIME = 900000000"

definition SESSION_TIME :: int where "SESSION_TIME = 900000000"

text \<open>The failure record after a wrong secret at time \<open>now\<close>.\<close>

definition failed_again :: "instant \<Rightarrow> int \<times> instant \<times> instant option \<Rightarrow> int \<times> instant \<times> instant option" where
  "failed_again now = (\<lambda>(attempts, window_start, _).
     let (attempts1, window1) = (if now - window_start > FAILURE_WINDOW then (0, now) else (attempts, window_start));
         attempts2 = attempts1 + 1
     in (attempts2, window1, if attempts2 \<ge> 5 then Some (now + BLOCK_TIME) else None))"

definition exchange_memory :: "share_env \<Rightarrow> instant \<Rightarrow> string \<Rightarrow> string \<Rightarrow> string \<Rightarrow> ShareExchangeResponse share_method" where
  "exchange_memory e now token public_id secret st =
     (let share_id = (case sh_public_ids st public_id of None \<Rightarrow> [] | Some i \<Rightarrow> i) in
      case dget (sh_shares st) share_id of
        None \<Rightarrow> (Inl ShareCapabilityInvalid, st)
      | Some stored \<Rightarrow>
          if sv_status (ms_view stored) \<noteq> Share_active then (Inl ShareCapabilityInvalid, st)
          else
            let (attempts, window_start, blocked_until) =
                  (case sh_failures st share_id of None \<Rightarrow> (0, now, None) | Some f \<Rightarrow> f)
            in if blocked_until \<noteq> None \<and> the blocked_until > now
               then (Inl (rate_limited ((the blocked_until - now) div 1000000 + 1)), st)
               else if capability_hash e public_id secret \<noteq> ms_secret_hash stored
               then let f = failed_again now (attempts, window_start, blocked_until)
                    in (Inl (if snd (snd f) \<noteq> None then rate_limited (15 * 60) else ShareCapabilityInvalid),
                        st\<lparr>sh_failures := (sh_failures st)(share_id \<mapsto> f)\<rparr>)
               else (Inr \<lparr>xr_session_token = token, xr_expires_at = now + SESSION_TIME\<rparr>,
                     st\<lparr>sh_failures := (sh_failures st)(share_id := None),
                        sh_sessions := (sh_sessions st)(session_hash e token \<mapsto>
                          (share_id, sv_capability_epoch (ms_view stored), now + SESSION_TIME))\<rparr>))"

definition public_snapshot_memory ::
    "share_env \<Rightarrow> instant \<Rightarrow> string \<Rightarrow> string \<Rightarrow> PublicShareSnapshotResponse share_method" where
  "public_snapshot_memory e now public_id session_token st =
     (case (sh_sessions st (session_hash e session_token),
            dget (sh_shares st) (case sh_public_ids st public_id of None \<Rightarrow> [] | Some i \<Rightarrow> i)) of
        (Some (sid, epoch, expires_at), Some stored) \<Rightarrow>
          if Some sid \<noteq> sh_public_ids st public_id \<or> epoch \<noteq> sv_capability_epoch (ms_view stored) \<or> expires_at \<le> now \<or>
             sv_status (ms_view stored) \<noteq> Share_active
          then (Inl ShareCapabilityInvalid, st)
          else (case sh_snapshots st sid of
                  None \<Rightarrow> (Inl ShareKeyError, st)
                | Some snapshot \<Rightarrow> (Inr \<lparr>ps_public_id = public_id, ps_snapshot = snapshot\<rparr>, st))
      | _ \<Rightarrow> (Inl ShareCapabilityInvalid, st))"

section \<open>Calls\<close>

text \<open>
  One call of a public method with everything it draws: \<open>create\<close> with the stores it reads, \<open>exchange\<close> with the token
  it makes up.
\<close>

datatype share_op =
    Op_create Principal string ShareCreateRequest string platform_store platform_store share_call
  | Op_list Principal string platform_store
  | Op_rotate Principal string int string instant
  | Op_revoke Principal string int string instant
  | Op_exchange string string instant string
  | Op_snapshot string string instant

datatype share_result =
    R_mutation ShareMutationResponse
  | R_list "ShareView list"
  | R_exchange ShareExchangeResponse
  | R_snapshot PublicShareSnapshotResponse

definition returning :: "('a \<Rightarrow> 'b) \<Rightarrow> ('s, 'e, 'a) eff \<Rightarrow> ('s, 'e, 'b) eff" where
  "returning f m = ebind m (\<lambda>a. eret (f a))"

definition create :: "share_env \<Rightarrow> (TripSnapshot \<Rightarrow> string \<Rightarrow> ('s, share_error, ShareMutationResponse) eff) \<Rightarrow>
    Principal \<Rightarrow> string \<Rightarrow> ShareCreateRequest \<Rightarrow> platform_store \<Rightarrow> platform_store \<Rightarrow> ('s, share_error, ShareMutationResponse) eff" where
  "create e half p trip_id r s1 s2 =
     (case source e p trip_id r s1 s2 of
        Inl err \<Rightarrow> eraise err
      | Inr src \<Rightarrow> half src (create_request_hash e trip_id r))"

definition list_shares :: "(string \<Rightarrow> ('s, share_error, ShareView list) eff) \<Rightarrow> Principal \<Rightarrow> string \<Rightarrow> platform_store \<Rightarrow>
    ('s, share_error, ShareView list) eff" where
  "list_shares half p trip_id s =
     (case trip_locked s p trip_id False of Inl err \<Rightarrow> eraise (ShareStoreError err) | Inr _ \<Rightarrow> half trip_id)"

fun exec_memory :: "share_env \<Rightarrow> share_op \<Rightarrow> share_result share_method" where
  "exec_memory e (Op_create p trip_id r key s1 s2 c) =
     returning R_mutation (create e (\<lambda>src h. create_memory e c p trip_id src h key) p trip_id r s1 s2)"
| "exec_memory e (Op_list p trip_id s) = returning R_list (list_shares list_memory p trip_id s)"
| "exec_memory e (Op_rotate p share_id expected key now) =
     returning R_mutation (rotate_memory e now p share_id expected key (change_request_hash e ''rotate'' share_id expected))"
| "exec_memory e (Op_revoke p share_id expected key now) =
     returning R_mutation (revoke_memory now p share_id expected key (change_request_hash e ''revoke'' share_id expected))"
| "exec_memory e (Op_exchange public_id secret now token) = returning R_exchange (exchange_memory e now token public_id secret)"
| "exec_memory e (Op_snapshot public_id token now) = returning R_snapshot (public_snapshot_memory e now public_id token)"

end
