(* ===== verification/Share_Postgres.thy ===== *)
theory Share_Postgres
  imports Share_Service
begin

text \<open>
  The PostgreSQL half of \<^verbatim>\<open>backend/moyuan_web/v1/share_service.py\<close>. A table is a list of rows with the columns of
  \<^verbatim>\<open>sql_tables.py\<close>, a method one transaction: its row locks and unique indices make it atomic, an
  exception rolls it back. Statements see the rows of one tenant only, by the row level security that
  \<^verbatim>\<open>_scope\<close> switches on. Widths of columns are not checked.
  The snapshot column holds JSON that reads back as the snapshot it was written from.
\<close>

section \<open>Tables\<close>

record ShareRow = ShareView +
  sw_tenant_id :: string
  sw_capability_secret_hash :: string
  sw_failed_attempts :: int
  sw_failure_window_started_at :: "instant option"
  sw_blocked_until :: "instant option"

record ShareLookupRow =
  lk_public_id :: string
  lk_tenant_id :: string
  lk_share_id :: string

record ShareSnapshotRow =
  sp_snapshot_id :: string
  sp_tenant_id :: string
  sp_share_id :: string
  sp_snapshot :: ShareSnapshot
  sp_created_at :: instant

record ShareSessionRow =
  sx_session_hash :: string
  sx_tenant_id :: string
  sx_share_id :: string
  sx_capability_epoch :: int
  sx_created_at :: instant
  sx_expires_at :: instant

record ShareIdempotencyRow =
  ik_tenant_id :: string
  ik_actor_id :: string
  ik_operation :: string
  ik_idempotency_key :: string
  ik_request_hash :: string
  ik_response_share_id :: string
  ik_response_version :: int
  ik_response_epoch :: int
  ik_created_at :: instant
  ik_expires_at :: instant

record share_db =
  db_shares :: "ShareRow list"
  db_lookup :: "ShareLookupRow list"
  db_snapshots :: "ShareSnapshotRow list"
  db_sessions :: "ShareSessionRow list"
  db_idempotency :: "ShareIdempotencyRow list"

definition empty_share_db :: share_db where
  "empty_share_db = \<lparr>db_shares = [], db_lookup = [], db_snapshots = [], db_sessions = [], db_idempotency = []\<rparr>"

type_synonym 'a share_transaction = "share_db \<Rightarrow> (share_error + 'a) \<times> share_db"

definition view_of :: "ShareRow \<Rightarrow> ShareView" where
  "view_of row = ShareView.truncate row"

definition find_share :: "string \<Rightarrow> (ShareRow \<Rightarrow> bool) \<Rightarrow> share_db \<Rightarrow> ShareRow option" where
  "find_share tenant P d = find (\<lambda>r. sw_tenant_id r = tenant \<and> P r) (db_shares d)"

definition update_share :: "string \<Rightarrow> (ShareRow \<Rightarrow> bool) \<Rightarrow> (ShareRow \<Rightarrow> ShareRow) \<Rightarrow> share_db \<Rightarrow> share_db" where
  "update_share tenant P f d =
     d\<lparr>db_shares := map (\<lambda>r. if sw_tenant_id r = tenant \<and> P r then f r else r) (db_shares d)\<rparr>"

definition delete_sessions :: "string \<Rightarrow> string \<Rightarrow> share_db \<Rightarrow> share_db" where
  "delete_sessions tenant share_id d =
     d\<lparr>db_sessions := filter (\<lambda>x. \<not> (sx_tenant_id x = tenant \<and> sx_share_id x = share_id)) (db_sessions d)\<rparr>"

definition idempotency_scope :: "ShareIdempotencyRow \<Rightarrow> share_scope" where
  "idempotency_scope k = (ik_tenant_id k, ik_actor_id k, ik_operation k, ik_idempotency_key k)"

definition find_idempotency :: "share_scope \<Rightarrow> share_db \<Rightarrow> ShareIdempotencyRow option" where
  "find_idempotency scope d = find (\<lambda>k. idempotency_scope k = scope) (db_idempotency d)"

text \<open>The expiry, 24 hours later, is stored and never read.\<close>

definition idempotency_row :: "share_scope \<Rightarrow> string \<Rightarrow> string \<Rightarrow> int \<Rightarrow> int \<Rightarrow> instant \<Rightarrow> ShareIdempotencyRow" where
  "idempotency_row scope request_hash share_id version epoch now =
     (case scope of (tenant, actor, operation, key) \<Rightarrow>
       \<lparr>ik_tenant_id = tenant, ik_actor_id = actor, ik_operation = operation, ik_idempotency_key = key,
        ik_request_hash = request_hash, ik_response_share_id = share_id, ik_response_version = version,
        ik_response_epoch = epoch, ik_created_at = now, ik_expires_at = now + 86400000000\<rparr>)"

text \<open>A unique index or primary key on the given columns refuses the row.\<close>

definition insert_unique :: "('r \<Rightarrow> 'r \<Rightarrow> bool) \<Rightarrow> 'r \<Rightarrow> 'r list \<Rightarrow> share_error + 'r list" where
  "insert_unique same r rows = (if list_ex (same r) rows then Inl ShareIntegrityError else Inr (rows @ [r]))"

section \<open>Transactions\<close>

definition insert_share ::
    "share_env \<Rightarrow> share_call \<Rightarrow> Principal \<Rightarrow> string \<Rightarrow> TripSnapshot \<Rightarrow> string \<Rightarrow> share_db \<Rightarrow> share_error + share_db" where
  "insert_share e c p trip_id src secret d =
     sbind (insert_unique (\<lambda>r r'. sv_share_id r = sv_share_id r' \<or> sv_public_id r = sv_public_id r')
        (ShareView.extend (new_share_view p trip_id src c)
          (ShareRow.fields (pr_tenant_id p) (capability_hash e (sc_public_id c) secret) 0 None None)) (db_shares d)) (\<lambda>shares.
     sbind (insert_unique (\<lambda>r r'. lk_public_id r = lk_public_id r' \<or> lk_share_id r = lk_share_id r')
        \<lparr>lk_public_id = sc_public_id c, lk_tenant_id = pr_tenant_id p, lk_share_id = sc_share_id c\<rparr> (db_lookup d)) (\<lambda>lookup.
     sbind (case project_share_snapshot (se_zones e) (sc_snapshot_id c) (sc_snapshot_now c) src (sc_public_id c) of
              Inl err \<Rightarrow> Inl (ShareContractError err) | Inr snapshot \<Rightarrow> Inr snapshot) (\<lambda>snapshot.
     sbind (insert_unique (\<lambda>r r'. sp_snapshot_id r = sp_snapshot_id r' \<or> sp_share_id r = sp_share_id r')
        \<lparr>sp_snapshot_id = ab_artifact_id snapshot, sp_tenant_id = pr_tenant_id p, sp_share_id = sc_share_id c,
         sp_snapshot = snapshot, sp_created_at = sc_now c\<rparr> (db_snapshots d)) (\<lambda>snapshots.
     Inr (d\<lparr>db_shares := shares, db_lookup := lookup, db_snapshots := snapshots\<rparr>)))))"

definition create_postgres ::
    "share_env \<Rightarrow> share_call \<Rightarrow> Principal \<Rightarrow> string \<Rightarrow> TripSnapshot \<Rightarrow> string \<Rightarrow> string \<Rightarrow>
     ShareMutationResponse share_transaction" where
  "create_postgres e c p trip_id src request_hash idempotency_key d =
     (let scope = (pr_tenant_id p, pr_user_id p, ''share.create'', idempotency_key) in
      case find_idempotency scope d of
        Some idem \<Rightarrow>
          if ik_request_hash idem \<noteq> request_hash
          then (Inl (ShareConflict ''idempotency key reused with another request'' None), d)
          else (case find_share (pr_tenant_id p) (\<lambda>r. sv_share_id r = ik_response_share_id idem) d of
                  None \<Rightarrow> (Inl ShareKeyError, d)
                | Some row \<Rightarrow>
                    (Inr \<lparr>mu_share = view_of row,
                          mu_capability_secret = Some (derive_secret e ''share.create'' p idempotency_key request_hash
                            (ik_response_share_id idem) (ik_response_epoch idem)),
                          mu_replayed = True\<rparr>, d))
      | None \<Rightarrow>
          let secret = derive_secret e ''share.create'' p idempotency_key request_hash (sc_share_id c) 1;
              reserved = d\<lparr>db_idempotency := db_idempotency d @
                [idempotency_row scope request_hash (sc_share_id c) 1 1 (sc_now c)]\<rparr>
          in if sc_current c \<noteq> Some (Some (ab_artifact_id src), Some (ab_version src), PUBLISHED)
             then (Inl (ShareConflict ''source snapshot changed before share creation'' None), d)
             else (case insert_share e c p trip_id src secret reserved of
                     Inl err \<Rightarrow> (Inl err, d)
                   | Inr d' \<Rightarrow>
                       (Inr \<lparr>mu_share = new_share_view p trip_id src c, mu_capability_secret = Some secret,
                             mu_replayed = False\<rparr>, d')))"

definition list_postgres :: "Principal \<Rightarrow> string \<Rightarrow> ShareView list share_transaction" where
  "list_postgres p trip_id d =
     (Inr (map view_of (sort_key sv_created_at
        (filter (\<lambda>r. sw_tenant_id r = pr_tenant_id p \<and> sv_trip_id r = trip_id) (db_shares d)))), d)"

definition change_share ::
    "Principal \<Rightarrow> string \<Rightarrow> int \<Rightarrow> (ShareRow \<Rightarrow> ShareRow) \<Rightarrow> ShareIdempotencyRow \<Rightarrow> share_db \<Rightarrow> share_db" where
  "change_share p share_id expected_version f idem d =
     (let d1 = delete_sessions (pr_tenant_id p) share_id
                 (update_share (pr_tenant_id p) (\<lambda>r. sv_share_id r = share_id \<and> sv_version r = expected_version) f d)
      in d1\<lparr>db_idempotency := db_idempotency d1 @ [idem]\<rparr>)"

definition rotate_postgres ::
    "share_env \<Rightarrow> instant \<Rightarrow> Principal \<Rightarrow> string \<Rightarrow> int \<Rightarrow> string \<Rightarrow> string \<Rightarrow> ShareMutationResponse share_transaction" where
  "rotate_postgres e now p share_id expected_version idempotency_key request_hash d =
     (let scope = (pr_tenant_id p, pr_user_id p, ''share.rotate:'' @ share_id, idempotency_key) in
      case find_share (pr_tenant_id p) (\<lambda>r. sv_share_id r = share_id \<and> sv_created_by r = pr_user_id p) d of
        None \<Rightarrow> (Inl ShareNotFound, d)
      | Some current \<Rightarrow>
          (case find_idempotency scope d of
             Some replay \<Rightarrow>
               if ik_request_hash replay \<noteq> request_hash
               then (Inl (ShareConflict ''idempotency key reused with another request'' None), d)
               else (Inr \<lparr>mu_share = view_of current,
                          mu_capability_secret =
                            (if sv_version current = ik_response_version replay \<and>
                                sv_capability_epoch current = ik_response_epoch replay
                             then Some (derive_secret e ''share.rotate'' p idempotency_key request_hash share_id
                                          (ik_response_epoch replay))
                             else None),
                          mu_replayed = True\<rparr>, d)
           | None \<Rightarrow>
               if sv_status current \<noteq> Share_active \<or> sv_version current \<noteq> expected_version
               then (Inl (ShareConflict ''share changed'' (Some (sv_version current))), d)
               else
                 let epoch = sv_capability_epoch current + 1;
                     version = sv_version current + 1;
                     secret = derive_secret e ''share.rotate'' p idempotency_key request_hash share_id epoch;
                     f = (\<lambda>r. r\<lparr>sv_version := version, sv_capability_epoch := epoch,
                            sw_capability_secret_hash := capability_hash e (sv_public_id current) secret,
                            sw_failed_attempts := 0, sw_failure_window_started_at := None, sw_blocked_until := None,
                            sv_updated_at := now\<rparr>)
                 in (Inr \<lparr>mu_share = view_of (f current), mu_capability_secret = Some secret, mu_replayed = False\<rparr>,
                     change_share p share_id expected_version f
                       (idempotency_row scope request_hash share_id version epoch now) d)))"

definition revoke_postgres ::
    "instant \<Rightarrow> Principal \<Rightarrow> string \<Rightarrow> int \<Rightarrow> string \<Rightarrow> string \<Rightarrow> ShareMutationResponse share_transaction" where
  "revoke_postgres now p share_id expected_version idempotency_key request_hash d =
     (let scope = (pr_tenant_id p, pr_user_id p, ''share.revoke:'' @ share_id, idempotency_key) in
      case find_share (pr_tenant_id p) (\<lambda>r. sv_share_id r = share_id \<and> sv_created_by r = pr_user_id p) d of
        None \<Rightarrow> (Inl ShareNotFound, d)
      | Some row \<Rightarrow>
          (case find_idempotency scope d of
             Some replay \<Rightarrow>
               if ik_request_hash replay \<noteq> request_hash
               then (Inl (ShareConflict ''idempotency key reused with another request'' None), d)
               else (Inr \<lparr>mu_share = view_of row, mu_capability_secret = None, mu_replayed = True\<rparr>, d)
           | None \<Rightarrow>
               if sv_status row \<noteq> Share_active \<or> sv_version row \<noteq> expected_version
               then (Inl (ShareConflict ''share changed'' (Some (sv_version row))), d)
               else
                 let version = sv_version row + 1;
                     epoch = sv_capability_epoch row + 1;
                     f = (\<lambda>r. r\<lparr>sv_status := Share_revoked, sv_version := version, sv_capability_epoch := epoch,
                            sv_updated_at := now, sv_revoked_at := Some now\<rparr>)
                 in (Inr \<lparr>mu_share = view_of (f row), mu_capability_secret = None, mu_replayed = False\<rparr>,
                     change_share p share_id expected_version f
                       (idempotency_row scope request_hash share_id version epoch now) d)))"

definition resolve_public_tenant :: "string \<Rightarrow> share_db \<Rightarrow> string option" where
  "resolve_public_tenant public_id d = map_option lk_tenant_id (find (\<lambda>r. lk_public_id r = public_id) (db_lookup d))"

text \<open>Lookup rows never change, so the resolution before the transaction reads what the transaction would read.\<close>

definition exchange_postgres ::
    "share_env \<Rightarrow> instant \<Rightarrow> string \<Rightarrow> string \<Rightarrow> string \<Rightarrow> ShareExchangeResponse share_transaction" where
  "exchange_postgres e now token public_id secret d =
     (case resolve_public_tenant public_id d of
        None \<Rightarrow> (Inl ShareCapabilityInvalid, d)
      | Some tenant \<Rightarrow>
          if tenant = [] then (Inl ShareCapabilityInvalid, d)
          else (case find_share tenant (\<lambda>r. sv_public_id r = public_id) d of
             None \<Rightarrow> (Inl ShareCapabilityInvalid, d)
           | Some row \<Rightarrow>
               if sv_status row \<noteq> Share_active then (Inl ShareCapabilityInvalid, d)
               else if sw_blocked_until row \<noteq> None \<and> the (sw_blocked_until row) > now
               then (Inl (rate_limited ((the (sw_blocked_until row) - now) div 1000000 + 1)), d)
               else if capability_hash e public_id secret \<noteq> sw_capability_secret_hash row
               then let (attempts1, window1) =
                          (case sw_failure_window_started_at row of
                             None \<Rightarrow> (0, now)
                           | Some w \<Rightarrow> if now - w > FAILURE_WINDOW then (0, now) else (sw_failed_attempts row, w));
                        attempts = attempts1 + 1;
                        blocked_until = (if attempts \<ge> 5 then Some (now + BLOCK_TIME) else None)
                    in (Inl (if blocked_until \<noteq> None then rate_limited (15 * 60) else ShareCapabilityInvalid),
                        update_share tenant (\<lambda>r. sv_share_id r = sv_share_id row)
                          (\<lambda>r. r\<lparr>sw_failed_attempts := attempts, sw_failure_window_started_at := Some window1,
                                 sw_blocked_until := blocked_until\<rparr>) d)
               else
                 (case insert_unique (\<lambda>x x'. sx_session_hash x = sx_session_hash x')
                         \<lparr>sx_session_hash = session_hash e token, sx_tenant_id = tenant, sx_share_id = sv_share_id row,
                          sx_capability_epoch = sv_capability_epoch row, sx_created_at = now,
                          sx_expires_at = now + SESSION_TIME\<rparr> (db_sessions d) of
                    Inl err \<Rightarrow> (Inl err, d)
                  | Inr sessions \<Rightarrow>
                      (Inr \<lparr>xr_session_token = token, xr_expires_at = now + SESSION_TIME\<rparr>,
                       (update_share tenant (\<lambda>r. sv_share_id r = sv_share_id row)
                          (\<lambda>r. r\<lparr>sw_failed_attempts := 0, sw_failure_window_started_at := None, sw_blocked_until := None\<rparr>) d)
                         \<lparr>db_sessions := sessions\<rparr>))))"

text \<open>The join of shares, sessions and snapshots on the share, restricted to one public id and session.\<close>

definition snapshot_join ::
    "string \<Rightarrow> string \<Rightarrow> string \<Rightarrow> share_db \<Rightarrow> (ShareRow \<times> ShareSessionRow \<times> ShareSnapshotRow) list" where
  "snapshot_join tenant public_id h d =
     [(r, x, n). r \<leftarrow> db_shares d, sw_tenant_id r = tenant \<and> sv_public_id r = public_id,
       x \<leftarrow> db_sessions d, sx_tenant_id x = tenant \<and> sx_share_id x = sv_share_id r \<and> sx_session_hash x = h,
       n \<leftarrow> db_snapshots d, sp_tenant_id n = tenant \<and> sp_share_id n = sv_share_id r]"

definition public_snapshot_postgres ::
    "share_env \<Rightarrow> instant \<Rightarrow> string \<Rightarrow> string \<Rightarrow> PublicShareSnapshotResponse share_transaction" where
  "public_snapshot_postgres e now public_id session_token d =
     (case resolve_public_tenant public_id d of
        None \<Rightarrow> (Inl ShareCapabilityInvalid, d)
      | Some tenant \<Rightarrow>
          if tenant = [] then (Inl ShareCapabilityInvalid, d)
          else (case snapshot_join tenant public_id (session_hash e session_token) d of
                  [] \<Rightarrow> (Inl ShareCapabilityInvalid, d)
                | [(r, x, n)] \<Rightarrow>
                    if sv_status r \<noteq> Share_active \<or> sx_expires_at x \<le> now \<or> sx_capability_epoch x \<noteq> sv_capability_epoch r
                    then (Inl ShareCapabilityInvalid, d)
                    else (Inr \<lparr>ps_public_id = public_id, ps_snapshot = sp_snapshot n\<rparr>, d)
                | _ \<Rightarrow> (Inl ShareIntegrityError, d)))"

fun exec_postgres :: "share_env \<Rightarrow> share_op \<Rightarrow> share_result share_transaction" where
  "exec_postgres e (Op_create p trip_id r key s1 s2 c) =
     returning R_mutation (create e (\<lambda>src h. create_postgres e c p trip_id src h key) p trip_id r s1 s2)"
| "exec_postgres e (Op_list p trip_id s) = returning R_list (list_shares (list_postgres p) p trip_id s)"
| "exec_postgres e (Op_rotate p share_id expected key now) =
     returning R_mutation (rotate_postgres e now p share_id expected key (change_request_hash e ''rotate'' share_id expected))"
| "exec_postgres e (Op_revoke p share_id expected key now) =
     returning R_mutation (revoke_postgres now p share_id expected key (change_request_hash e ''revoke'' share_id expected))"
| "exec_postgres e (Op_exchange public_id secret now token) = returning R_exchange (exchange_postgres e now token public_id secret)"
| "exec_postgres e (Op_snapshot public_id token now) = returning R_snapshot (public_snapshot_postgres e now public_id token)"

end
