(* ===== verification/Share_Access.thy ===== *)
theory Share_Access
  imports Share_Postgres
begin

text \<open>
  What sharing promises, independent of where the shares are kept: an abstract system of shares, sessions and
  snapshots with its steps, and an interface to the implementations. Both halves of the service implement it; what
  a reader of a shared trip must have shown is proved once for all implementations.
\<close>

section \<open>The abstract system\<close>

record share_access =
  ax_shares :: "string \<rightharpoonup> ShareView \<times> string"
  ax_public :: "string \<rightharpoonup> string"
  ax_snapshots :: "string \<rightharpoonup> ShareSnapshot"
  ax_sessions :: "string \<rightharpoonup> string \<times> int \<times> instant"

definition is_active :: "share_access \<Rightarrow> string \<Rightarrow> int \<Rightarrow> bool" where
  "is_active a share_id epoch \<longleftrightarrow>
     (\<exists>v h. ax_shares a share_id = Some (v, h) \<and> sv_status v = Share_active \<and> sv_capability_epoch v = epoch)"

fun is_opening :: "share_op \<Rightarrow> bool" where
  "is_opening (Op_exchange pid secret now token) \<longleftrightarrow> True"
| "is_opening (Op_snapshot pid token now) \<longleftrightarrow> True"
| "is_opening _ \<longleftrightarrow> False"

fun changes :: "share_op \<Rightarrow> string \<Rightarrow> bool" where
  "changes (Op_rotate p share_id expected key now) i \<longleftrightarrow> i = share_id"
| "changes (Op_revoke p share_id expected key now) i \<longleftrightarrow> i = share_id"
| "changes _ i \<longleftrightarrow> False"

inductive access_step ::
    "share_env \<Rightarrow> share_op \<Rightarrow> share_access \<Rightarrow> share_error + share_result \<Rightarrow> share_access \<Rightarrow> bool" for e where
  idle: "isl r \<or> \<not> is_opening op \<Longrightarrow> access_step e op a r a"
| created: "\<lbrakk>ax_shares a i = None; ax_public a pid = None; sv_status v = Share_active;
     n = None \<or> ax_snapshots a i = None\<rbrakk> \<Longrightarrow>
   access_step e (Op_create p trip q key s1 s2 c) a r
     (a\<lparr>ax_shares := (ax_shares a)(i \<mapsto> (v, h)), ax_public := (ax_public a)(pid \<mapsto> i),
        ax_snapshots := (case n of None \<Rightarrow> ax_snapshots a | Some m \<Rightarrow> (ax_snapshots a)(i \<mapsto> m))\<rparr>)"
| changed: "\<lbrakk>changes op i; ax_shares a i = Some (v, h); sv_status v = Share_active;
     sv_capability_epoch v' = sv_capability_epoch v + 1\<rbrakk> \<Longrightarrow>
   access_step e op a r
     (a\<lparr>ax_shares := (ax_shares a)(i \<mapsto> (v', h')), ax_sessions := drop_sessions i (ax_sessions a)\<rparr>)"
| granted: "\<lbrakk>ax_public a pid = Some i; ax_shares a i = Some (v, capability_hash e pid secret); sv_status v = Share_active\<rbrakk> \<Longrightarrow>
   access_step e (Op_exchange pid secret now token) a
     (Inr (R_exchange \<lparr>xr_session_token = token, xr_expires_at = now + SESSION_TIME\<rparr>))
     (a\<lparr>ax_sessions := (ax_sessions a)(session_hash e token \<mapsto> (i, sv_capability_epoch v, now + SESSION_TIME))\<rparr>)"
| served: "\<lbrakk>ax_public a pid = Some i; ax_sessions a (session_hash e token) = Some (i, epoch, expires); now < expires;
     is_active a i epoch; ax_snapshots a i = Some n\<rbrakk> \<Longrightarrow>
   access_step e (Op_snapshot pid token now) a (Inr (R_snapshot \<lparr>ps_public_id = pid, ps_snapshot = n\<rparr>)) a"


text \<open>Every session belongs to an active share in its current epoch; snapshots belong to shares.\<close>

definition access_inv :: "share_access \<Rightarrow> bool" where
  "access_inv a \<longleftrightarrow> (\<forall>h i epoch expires. ax_sessions a h = Some (i, epoch, expires) \<longrightarrow> is_active a i epoch) \<and>
     (\<forall>i. ax_snapshots a i \<noteq> None \<longrightarrow> ax_shares a i \<noteq> None)"

lemma access_invD:
  "access_inv a \<Longrightarrow> ax_sessions a h = Some (i, epoch, expires) \<Longrightarrow> is_active a i epoch"
  "access_inv a \<Longrightarrow> ax_shares a i = None \<Longrightarrow> ax_snapshots a i = None"
  by (auto simp: access_inv_def)

lemma access_step_inv: "access_step e op a r a' \<Longrightarrow> access_inv a \<Longrightarrow> access_inv a'"
proof (induction rule: access_step.induct)
  case created
  then show ?case by (fastforce simp: access_inv_def is_active_def split: option.splits)
next
  case changed
  then show ?case by (fastforce simp: access_inv_def is_active_def drop_sessions_def split: option.splits if_splits)
next
  case granted
  then show ?case by (fastforce simp: access_inv_def is_active_def)
qed simp_all

text \<open>Shares are never lost, epochs never fall, a share that is not active never changes, snapshots are immutable.\<close>

definition access_grows :: "share_access \<Rightarrow> share_access \<Rightarrow> bool" where
  "access_grows a a' \<longleftrightarrow>
     (\<forall>i v h. ax_shares a i = Some (v, h) \<longrightarrow> (\<exists>v' h'. ax_shares a' i = Some (v', h') \<and>
        sv_capability_epoch v \<le> sv_capability_epoch v' \<and>
        (sv_status v \<noteq> Share_active \<or> sv_capability_epoch v = sv_capability_epoch v' \<longrightarrow> v' = v \<and> h' = h))) \<and>
     (\<forall>pid i. ax_public a pid = Some i \<longrightarrow> ax_public a' pid = Some i) \<and>
     (\<forall>i n. ax_snapshots a i = Some n \<longrightarrow> ax_snapshots a' i = Some n)"

lemma access_grows_refl: "access_grows a a"
  by (simp add: access_grows_def)

lemma access_grows_trans:
  assumes "access_grows a b" and "access_grows b c"
  shows "access_grows a c"
proof -
  have "\<exists>v' h'. ax_shares c i = Some (v', h') \<and> sv_capability_epoch v \<le> sv_capability_epoch v' \<and>
      (sv_status v \<noteq> Share_active \<or> sv_capability_epoch v = sv_capability_epoch v' \<longrightarrow> v' = v \<and> h' = h)"
    if "ax_shares a i = Some (v, h)" for i v h
  proof -
    from assms(1) that obtain v1 h1 where 1: "ax_shares b i = Some (v1, h1)" "sv_capability_epoch v \<le> sv_capability_epoch v1"
      "sv_status v \<noteq> Share_active \<or> sv_capability_epoch v = sv_capability_epoch v1 \<longrightarrow> v1 = v \<and> h1 = h"
      unfolding access_grows_def by blast
    from assms(2) 1(1) obtain v2 h2 where 2: "ax_shares c i = Some (v2, h2)" "sv_capability_epoch v1 \<le> sv_capability_epoch v2"
      "sv_status v1 \<noteq> Share_active \<or> sv_capability_epoch v1 = sv_capability_epoch v2 \<longrightarrow> v2 = v1 \<and> h2 = h1"
      unfolding access_grows_def by blast
    from 1 2 show ?thesis by (metis order_antisym order_trans)
  qed
  with assms show ?thesis unfolding access_grows_def by blast
qed

lemma access_step_grows: "access_step e op a r a' \<Longrightarrow> access_inv a \<Longrightarrow> access_grows a a'"
proof (induction rule: access_step.induct)
  case created
  then show ?case by (auto simp: access_grows_def access_inv_def split: option.splits)
qed (auto simp: access_grows_def)

section \<open>The interface\<close>

primrec run_calls :: "(share_op \<Rightarrow> 's \<Rightarrow> 'r \<times> 's) \<Rightarrow> share_op list \<Rightarrow> 's \<Rightarrow> 's" where
  "run_calls exec [] s = s"
| "run_calls exec (op # ops) s = run_calls exec ops (snd (exec op s))"

lemma run_append: "run_calls exec (ops @ ops') s = run_calls exec ops' (run_calls exec ops s)"
  by (induction ops arbitrary: s) simp_all

text \<open>
  \<open>exec\<close> runs a call, \<open>abs\<close> is what a state means, \<open>ready\<close> what a call relies on (identifiers drawn are new).
\<close>

locale share_implementation =
  fixes e :: share_env
    and exec :: "share_op \<Rightarrow> 's \<Rightarrow> (share_error + share_result) \<times> 's"
    and abs :: "'s \<Rightarrow> share_access"
    and inv :: "'s \<Rightarrow> bool"
    and ready :: "share_op \<Rightarrow> 's \<Rightarrow> bool"
  assumes inv_exec: "inv s \<Longrightarrow> ready op s \<Longrightarrow> inv (snd (exec op s))"
    and exec_step: "inv s \<Longrightarrow> ready op s \<Longrightarrow> access_inv (abs s) \<Longrightarrow>
      access_step e op (abs s) (fst (exec op s)) (abs (snd (exec op s)))"
begin

abbreviation run :: "share_op list \<Rightarrow> 's \<Rightarrow> 's" where
  "run \<equiv> run_calls exec"

primrec legal :: "share_op list \<Rightarrow> 's \<Rightarrow> bool" where
  "legal [] s \<longleftrightarrow> True"
| "legal (op # ops) s \<longleftrightarrow> ready op s \<and> legal ops (snd (exec op s))"

definition good :: "'s \<Rightarrow> bool" where
  "good s \<longleftrightarrow> inv s \<and> access_inv (abs s)"

lemma legal_append: "legal (ops @ ops') s \<longleftrightarrow> legal ops s \<and> legal ops' (run ops s)"
  by (induction ops arbitrary: s) auto

lemma good_exec: "good s \<Longrightarrow> ready op s \<Longrightarrow> good (snd (exec op s))"
  using inv_exec exec_step access_step_inv unfolding good_def by blast

lemma good_run: "good s \<Longrightarrow> legal ops s \<Longrightarrow> good (run ops s)"
  by (induction ops arbitrary: s) (auto simp: good_exec)

lemma exec_grows: "good s \<Longrightarrow> ready op s \<Longrightarrow> access_grows (abs s) (abs (snd (exec op s)))"
  using exec_step access_step_grows unfolding good_def by blast

lemma run_grows: "good s \<Longrightarrow> legal ops s \<Longrightarrow> access_grows (abs s) (abs (run ops s))"
proof (induction ops arbitrary: s)
  case (Cons op ops)
  then have "access_grows (abs (snd (exec op s))) (abs (run ops (snd (exec op s))))" using good_exec by simp
  with exec_grows [of s op] Cons.prems show ?case using access_grows_trans by auto
qed (simp add: access_grows_refl)

text \<open>A session was granted by an exchange with the secret of its share, and the share's epoch is still the one of then.\<close>

lemma session_origin:
  assumes "good s" and "ax_sessions (abs s) = Map.empty" and "legal ops s"
    and "ax_sessions (abs (run ops s)) h = Some (i, epoch, expires)"
  shows "\<exists>pre pid secret t token post v. ops = pre @ Op_exchange pid secret t token # post \<and> session_hash e token = h \<and>
    expires = t + SESSION_TIME \<and> ax_public (abs (run pre s)) pid = Some i \<and>
    ax_shares (abs (run pre s)) i = Some (v, capability_hash e pid secret) \<and> sv_status v = Share_active \<and>
    sv_capability_epoch v = epoch"
  using assms(3,4)
proof (induction ops rule: rev_induct)
  case Nil
  with assms(2) show ?case by simp
next
  case (snoc op ops)
  let ?s = "run ops s"
  have l: "legal ops s" "ready op ?s" using snoc.prems(1) by (simp_all add: legal_append)
  have g: "good ?s" by (rule good_run [OF assms(1) l(1)])
  have now: "ax_sessions (abs (snd (exec op ?s))) h = Some (i, epoch, expires)"
    using snoc.prems(2) by (simp add: run_append)
  have step: "access_step e op (abs ?s) (fst (exec op ?s)) (abs (snd (exec op ?s)))"
    using g l(2) exec_step by (simp add: good_def)
  show ?case
  proof (cases "ax_sessions (abs ?s) h = Some (i, epoch, expires)")
    case True
    from snoc.IH [OF l(1) this] obtain pre pid secret t token post v where
      "ops = pre @ Op_exchange pid secret t token # post \<and> session_hash e token = h \<and>
       expires = t + SESSION_TIME \<and> ax_public (abs (run pre s)) pid = Some i \<and>
       ax_shares (abs (run pre s)) i = Some (v, capability_hash e pid secret) \<and> sv_status v = Share_active \<and>
       sv_capability_epoch v = epoch" by blast
    then have "ops @ [op] = pre @ Op_exchange pid secret t token # (post @ [op]) \<and> session_hash e token = h \<and>
       expires = t + SESSION_TIME \<and> ax_public (abs (run pre s)) pid = Some i \<and>
       ax_shares (abs (run pre s)) i = Some (v, capability_hash e pid secret) \<and> sv_status v = Share_active \<and>
       sv_capability_epoch v = epoch" by simp
    then show ?thesis by blast
  next
    case False
    from step show ?thesis
    proof (cases rule: access_step.cases)
      case (granted pid j v secret t token)
      with now False have "session_hash e token = h" "j = i" "sv_capability_epoch v = epoch" "expires = t + SESSION_TIME"
        by (auto split: if_splits)
      with granted show ?thesis by blast
    qed (use now False in \<open>auto simp: drop_sessions_def split: option.splits if_splits\<close>)
  qed
qed

lemma active_throughout:
  assumes "good s" and "legal ops s" and "is_active (abs s) i epoch" and "is_active (abs (run ops s)) i epoch"
    and "ops = q @ rest"
  shows "is_active (abs (run q s)) i epoch"
proof -
  have l: "legal q s" "legal rest (run q s)" using assms(2,5) by (simp_all add: legal_append)
  note g1 = run_grows [OF assms(1) l(1)]
  note g2 = run_grows [OF good_run [OF assms(1) l(1)] l(2)]
  from assms(3) obtain v h where v: "ax_shares (abs s) i = Some (v, h)" "sv_status v = Share_active" "sv_capability_epoch v = epoch"
    by (auto simp: is_active_def)
  with g1 obtain v1 h1 where v1: "ax_shares (abs (run q s)) i = Some (v1, h1)" "epoch \<le> sv_capability_epoch v1"
    "epoch = sv_capability_epoch v1 \<longrightarrow> v1 = v" unfolding access_grows_def by blast
  with g2 obtain v2 h2 where "ax_shares (abs (run rest (run q s))) i = Some (v2, h2)" "sv_capability_epoch v1 \<le> sv_capability_epoch v2"
    unfolding access_grows_def by blast
  with assms(4,5) have "sv_capability_epoch v1 \<le> epoch" by (simp add: is_active_def run_append)
  with v v1 show ?thesis by (auto simp: is_active_def)
qed

text \<open>Reading a shared trip takes a session that an exchange with the right secret made less than its life time ago.\<close>

lemma reading_needs_capability:
  assumes "good s" and "ax_sessions (abs s) = Map.empty" and "legal ops s" and "ready (Op_snapshot pid token now) (run ops s)"
    and "fst (exec (Op_snapshot pid token now) (run ops s)) = Inr r"
  shows "\<exists>pre pid' secret t token' post i v epoch n. ops = pre @ Op_exchange pid' secret t token' # post \<and>
    session_hash e token' = session_hash e token \<and> now < t + SESSION_TIME \<and>
    ax_public (abs (run pre s)) pid' = Some i \<and> ax_public (abs (run ops s)) pid = Some i \<and>
    ax_shares (abs (run pre s)) i = Some (v, capability_hash e pid' secret) \<and>
    (\<forall>q rest. Op_exchange pid' secret t token' # post = q @ rest \<longrightarrow> is_active (abs (run (pre @ q) s)) i epoch) \<and>
    ax_snapshots (abs (run ops s)) i = Some n \<and> r = R_snapshot \<lparr>ps_public_id = pid, ps_snapshot = n\<rparr>"
proof -
  let ?f = "run ops s"
  have g: "good ?f" by (rule good_run [OF assms(1,3)])
  then have "access_step e (Op_snapshot pid token now) (abs ?f) (Inr r) (abs (snd (exec (Op_snapshot pid token now) ?f)))"
    using exec_step [of ?f "Op_snapshot pid token now"] assms(4,5) by (simp add: good_def)
  then obtain i epoch expires n where serve: "ax_public (abs ?f) pid = Some i"
    "ax_sessions (abs ?f) (session_hash e token) = Some (i, epoch, expires)" "now < expires" "is_active (abs ?f) i epoch"
    "ax_snapshots (abs ?f) i = Some n" "r = R_snapshot \<lparr>ps_public_id = pid, ps_snapshot = n\<rparr>"
    by (cases rule: access_step.cases) auto
  from session_origin [OF assms(1-3) serve(2)] obtain pre pid' secret t token' post v where
    o: "ops = pre @ Op_exchange pid' secret t token' # post" "session_hash e token' = session_hash e token"
    "expires = t + SESSION_TIME" "ax_public (abs (run pre s)) pid' = Some i"
    "ax_shares (abs (run pre s)) i = Some (v, capability_hash e pid' secret)" "sv_status v = Share_active"
    "sv_capability_epoch v = epoch" by blast
  have l: "legal pre s" "legal (Op_exchange pid' secret t token' # post) (run pre s)"
    using assms(3) unfolding o(1) legal_append by simp_all
  have "is_active (abs (run (pre @ q) s)) i epoch" if "Op_exchange pid' secret t token' # post = q @ rest" for q rest
    unfolding run_append
    by (rule active_throughout [OF good_run [OF assms(1) l(1)] l(2) _ _ that])
      (use o serve(4) in \<open>auto simp: is_active_def run_append\<close>)
  then have act: "\<forall>q rest. Op_exchange pid' secret t token' # post = q @ rest \<longrightarrow> is_active (abs (run (pre @ q) s)) i epoch"
    by blast
  show ?thesis
    by (intro exI conjI) (rule o(1,2) serve(3) [unfolded o(3)] o(4) serve(1) o(5) act serve(5,6))+
qed

text \<open>A share that is not active stays closed.\<close>

lemma closed_for_good:
  assumes "good s" and "legal ops s" and "ready op (run ops s)"
    and "ax_public (abs s) pid = Some i" and "ax_shares (abs s) i = Some (v, h)" and "sv_status v \<noteq> Share_active"
    and "op = Op_exchange pid secret now token \<or> op = Op_snapshot pid token now"
  shows "isl (fst (exec op (run ops s)))"
proof -
  let ?f = "run ops s"
  have "ax_public (abs ?f) pid = Some i" "ax_shares (abs ?f) i = Some (v, h)"
    using run_grows [OF assms(1,2)] assms(4-6) unfolding access_grows_def by blast+
  note closed = this
  have "access_step e op (abs ?f) (fst (exec op ?f)) (abs (snd (exec op ?f)))"
    using good_run [OF assms(1,2)] assms(3) exec_step by (simp add: good_def)
  then show ?thesis
    using assms(6,7) closed by (cases rule: access_step.cases) (auto simp: is_active_def)
qed

end

end
