(* ===== verification/Share_Implementations.thy ===== *)
theory Share_Implementations
  imports Share_Access
begin

text \<open>
  Both halves of the share service implement the abstract system of shares: the dictionaries in memory, provided that
  drawn identifiers are new, and the tables in PostgreSQL, whose unique indices refuse identifiers that are not.
\<close>

lemma returning_simps [simp]:
  "fst (returning f m s) = map_sum id f (fst (m s))" "snd (returning f m s) = snd (m s)"
  by (simp_all add: returning_def ebind_def split: prod.split sum.split)

lemma isl_map_sum [simp]: "isl (map_sum f g r) = isl r"
  by (cases r) simp_all

section \<open>In memory\<close>

definition memory_access :: "share_service \<Rightarrow> share_access" where
  "memory_access st =
     \<lparr>ax_shares = (\<lambda>i. map_option (\<lambda>m. (ms_view m, ms_secret_hash m)) (dget (sh_shares st) i)),
      ax_public = sh_public_ids st, ax_snapshots = sh_snapshots st, ax_sessions = sh_sessions st\<rparr>"

definition memory_inv :: "share_service \<Rightarrow> bool" where
  "memory_inv st \<longleftrightarrow> dget (sh_shares st) [] = None"

fun memory_ready :: "share_op \<Rightarrow> share_service \<Rightarrow> bool" where
  "memory_ready (Op_create p trip_id r key s1 s2 c) st \<longleftrightarrow> sc_share_id c \<noteq> [] \<and>
     dget (sh_shares st) (sc_share_id c) = None \<and> sh_public_ids st (sc_public_id c) = None"
| "memory_ready _ st \<longleftrightarrow> True"

lemma memory_access_simps [simp]:
  "ax_shares (memory_access st) = (\<lambda>i. map_option (\<lambda>m. (ms_view m, ms_secret_hash m)) (dget (sh_shares st) i))"
  "ax_public (memory_access st) = sh_public_ids st"
  "ax_snapshots (memory_access st) = sh_snapshots st"
  "ax_sessions (memory_access st) = sh_sessions st"
  by (simp_all add: memory_access_def)

lemma access_eqI:
  assumes "ax_shares a = ax_shares b" "ax_public a = ax_public b" "ax_snapshots a = ax_snapshots b" "ax_sessions a = ax_sessions b"
  shows "a = (b :: share_access)"
  using assms by simp

text \<open>A rotation or revocation that goes through, as an abstract change.\<close>

lemma memory_change_step:
  assumes "changes op i" and "map_option (\<lambda>m. (sv_status (ms_view m), sv_capability_epoch (ms_view m) + 1)) (dget (sh_shares st) i) =
      Some (Share_active, sv_capability_epoch v)"
  shows "access_step e op (memory_access st) r
    (memory_access (st\<lparr>sh_shares := dset i \<lparr>ms_view = v, ms_secret_hash = h\<rparr> (sh_shares st),
       sh_sessions := drop_sessions i (sh_sessions st), sh_idempotency := idem\<rparr>))"
proof -
  have "memory_access (st\<lparr>sh_shares := dset i \<lparr>ms_view = v, ms_secret_hash = h\<rparr> (sh_shares st),
       sh_sessions := drop_sessions i (sh_sessions st), sh_idempotency := idem\<rparr>) =
      (memory_access st)\<lparr>ax_shares := (ax_shares (memory_access st))(i \<mapsto> (v, h)),
        ax_sessions := drop_sessions i (ax_sessions (memory_access st))\<rparr>"
    by (rule access_eqI) (simp_all add: fun_eq_iff)
  moreover from assms(2) obtain stored where "dget (sh_shares st) i = Some stored" "sv_status (ms_view stored) = Share_active"
    "sv_capability_epoch v = sv_capability_epoch (ms_view stored) + 1" by auto
  ultimately show ?thesis
    using access_step.changed [OF assms(1), of "memory_access st" "ms_view stored" "ms_secret_hash stored" v e r h] by simp
qed

lemma idle_step: "b = a \<Longrightarrow> isl r \<or> \<not> is_opening op \<Longrightarrow> access_step e op a r b"
  by (auto intro: access_step.idle)

lemma memory_create_step:
  assumes "memory_ready (Op_create p trip_id r key s1 s2 c) st" and "access_inv (memory_access st)"
  shows "access_step e (Op_create p trip_id r key s1 s2 c) (memory_access st) res
    (memory_access (snd (create_memory e c p trip_id src h key st)))"
proof (cases "sh_idempotency st (pr_tenant_id p, pr_user_id p, ''share.create'', key)")
  case (Some x)
  then show ?thesis by (cases x) (auto simp: create_memory_def Let_def split: option.split intro!: idle_step)
next
  case None
  let ?v = "new_share_view p trip_id src c"
  let ?h = "capability_hash e (sc_public_id c) (derive_secret e ''share.create'' p key h (sc_share_id c) 1)"
  let ?n = "case project_share_snapshot (se_zones e) (sc_snapshot_id c) (sc_snapshot_now c) src (sc_public_id c) of
    Inl err \<Rightarrow> None | Inr n \<Rightarrow> Some n"
  have "memory_access (snd (create_memory e c p trip_id src h key st)) =
      (memory_access st)\<lparr>ax_shares := (ax_shares (memory_access st))(sc_share_id c \<mapsto> (?v, ?h)),
        ax_public := (ax_public (memory_access st))(sc_public_id c \<mapsto> sc_share_id c),
        ax_snapshots := (case ?n of None \<Rightarrow> ax_snapshots (memory_access st)
          | Some m \<Rightarrow> (ax_snapshots (memory_access st))(sc_share_id c \<mapsto> m))\<rparr>"
    using None by (intro access_eqI) (auto simp: create_memory_def Let_def fun_eq_iff split: sum.split)
  moreover have "ax_snapshots (memory_access st) (sc_share_id c) = None"
    using assms by (intro access_invD(2)) simp_all
  ultimately show ?thesis
    using assms(1) access_step.created [of "memory_access st" "sc_share_id c" "sc_public_id c" ?v ?n e p trip_id r key s1 s2 c res ?h]
    by (simp add: new_share_view_def)
qed

lemma exchange_memory_cases:
  assumes "memory_inv st"
  shows "(\<exists>err f. exchange_memory e now token pid secret st = (Inl err, st\<lparr>sh_failures := f\<rparr>)) \<or>
    (\<exists>i stored f. sh_public_ids st pid = Some i \<and> dget (sh_shares st) i = Some stored \<and>
       sv_status (ms_view stored) = Share_active \<and> ms_secret_hash stored = capability_hash e pid secret \<and>
       exchange_memory e now token pid secret st =
         (Inr \<lparr>xr_session_token = token, xr_expires_at = now + SESSION_TIME\<rparr>,
          st\<lparr>sh_failures := f, sh_sessions := (sh_sessions st)(session_hash e token \<mapsto>
             (i, sv_capability_epoch (ms_view stored), now + SESSION_TIME))\<rparr>))"
proof (cases "\<exists>i stored. sh_public_ids st pid = Some i \<and> dget (sh_shares st) i = Some stored \<and>
    sv_status (ms_view stored) = Share_active")
  case True
  then obtain i stored where i: "sh_public_ids st pid = Some i" "dget (sh_shares st) i = Some stored"
    "sv_status (ms_view stored) = Share_active" by blast
  obtain attempts window blocked where f: "(case sh_failures st i of None \<Rightarrow> (0, now, None) | Some f \<Rightarrow> f) = (attempts, window, blocked)"
    using prod_cases3 by blast
  have same: "st = st\<lparr>sh_failures := sh_failures st\<rparr>" by simp
  show ?thesis
    using i f by (auto simp: exchange_memory_def Let_def intro: same)
next
  case False
  then have "exchange_memory e now token pid secret st = (Inl ShareCapabilityInvalid, st\<lparr>sh_failures := sh_failures st\<rparr>)"
    using assms by (auto simp: exchange_memory_def memory_inv_def Let_def split: option.split)
  then show ?thesis by blast
qed

lemma memory_exec_step:
  assumes "memory_inv st" and "memory_ready op st" and "access_inv (memory_access st)"
  shows "access_step e op (memory_access st) (fst (exec_memory e op st)) (memory_access (snd (exec_memory e op st)))"
proof (cases op)
  case (Op_create p trip_id r key s1 s2 c)
  then show ?thesis
    using memory_create_step assms by (auto simp: create_def split: sum.split intro!: idle_step)
next
  case (Op_list p trip_id s)
  then show ?thesis by (auto simp: list_shares_def list_memory_def split: sum.split intro!: idle_step)
next
  case (Op_rotate p i expected key now)
  then show ?thesis
    by (auto simp: rotate_memory_def Let_def split: option.split prod.split intro!: idle_step memory_change_step)
next
  case (Op_revoke p i expected key now)
  then show ?thesis
    by (auto simp: revoke_memory_def Let_def split: option.split prod.split intro!: idle_step memory_change_step)
next
  case (Op_exchange pid secret now token)
  from exchange_memory_cases [OF assms(1), of e now token pid secret] show ?thesis
  proof (elim disjE exE conjE)
    fix err f
    assume x: "exchange_memory e now token pid secret st = (Inl err, st\<lparr>sh_failures := f\<rparr>)"
    have "memory_access (st\<lparr>sh_failures := f\<rparr>) = memory_access st" by (rule access_eqI) simp_all
    with x Op_exchange show ?thesis by (auto intro: idle_step)
  next
    fix i stored f
    assume i: "sh_public_ids st pid = Some i" "dget (sh_shares st) i = Some stored"
      "sv_status (ms_view stored) = Share_active" "ms_secret_hash stored = capability_hash e pid secret"
      "exchange_memory e now token pid secret st = (Inr \<lparr>xr_session_token = token, xr_expires_at = now + SESSION_TIME\<rparr>,
          st\<lparr>sh_failures := f, sh_sessions := (sh_sessions st)(session_hash e token \<mapsto>
             (i, sv_capability_epoch (ms_view stored), now + SESSION_TIME))\<rparr>)"
    have eq: "memory_access (st\<lparr>sh_failures := f, sh_sessions := (sh_sessions st)(session_hash e token \<mapsto>
             (i, sv_capability_epoch (ms_view stored), now + SESSION_TIME))\<rparr>) =
        (memory_access st)\<lparr>ax_sessions := (ax_sessions (memory_access st))(session_hash e token \<mapsto>
           (i, sv_capability_epoch (ms_view stored), now + SESSION_TIME))\<rparr>"
      by (rule access_eqI) simp_all
    show ?thesis
      unfolding Op_exchange exec_memory.simps returning_simps i(5) fst_conv snd_conv eq map_sum.simps
      by (rule access_step.granted) (simp_all add: i)
  qed
next
  case (Op_snapshot pid token now)
  show ?thesis
  proof (cases "fst (public_snapshot_memory e now pid token st)")
    case (Inl err)
    then have "snd (public_snapshot_memory e now pid token st) = st"
      by (auto simp: public_snapshot_memory_def split: option.splits prod.splits if_splits)
    with Inl Op_snapshot show ?thesis by (auto intro: idle_step)
  next
    case (Inr x)
    then obtain i epoch expires n where i: "sh_public_ids st pid = Some i"
      "sh_sessions st (session_hash e token) = Some (i, epoch, expires)" "now < expires"
      "is_active (memory_access st) i epoch" "sh_snapshots st i = Some n"
      and x: "x = \<lparr>ps_public_id = pid, ps_snapshot = n\<rparr>" "snd (public_snapshot_memory e now pid token st) = st"
      by (auto simp: public_snapshot_memory_def is_active_def split: option.splits prod.splits if_splits)
    show ?thesis
      using Op_snapshot Inr x i access_step.served [of "memory_access st" pid i e token epoch expires now n] by simp
  qed
qed

lemma memory_inv_exec:
  assumes "memory_inv st" and "memory_ready op st"
  shows "memory_inv (snd (exec_memory e op st))"
proof (cases op)
  case (Op_create p trip_id r key s1 s2 c)
  with assms show ?thesis
    by (auto simp: create_def create_memory_def Let_def memory_inv_def split: sum.split option.split)
next
  case (Op_list p trip_id s)
  with assms show ?thesis by (simp add: list_shares_def list_memory_def split: sum.split)
next
  case (Op_rotate p i expected key now)
  with assms show ?thesis by (auto simp: rotate_memory_def Let_def memory_inv_def split: option.split)
next
  case (Op_revoke p i expected key now)
  with assms show ?thesis by (auto simp: revoke_memory_def Let_def memory_inv_def split: option.split)
next
  case (Op_exchange pid secret now token)
  with assms show ?thesis
    by (auto simp: exchange_memory_def Let_def memory_inv_def split: option.split prod.split)
next
  case (Op_snapshot pid token now)
  with assms show ?thesis
    by (auto simp: public_snapshot_memory_def memory_inv_def split: option.split prod.split)
qed

interpretation memory_shares: share_implementation e "exec_memory e" memory_access memory_inv memory_ready for e
  by unfold_locales (simp_all add: memory_inv_exec memory_exec_step)

section \<open>In PostgreSQL\<close>

definition postgres_access :: "share_db \<Rightarrow> share_access" where
  "postgres_access d =
     \<lparr>ax_shares = (\<lambda>i. map_option (\<lambda>r. (view_of r, sw_capability_secret_hash r)) (find (\<lambda>r. sv_share_id r = i) (db_shares d))),
      ax_public = (\<lambda>pid. map_option lk_share_id (find (\<lambda>l. lk_public_id l = pid) (db_lookup d))),
      ax_snapshots = (\<lambda>i. map_option sp_snapshot (find (\<lambda>n. sp_share_id n = i) (db_snapshots d))),
      ax_sessions = (\<lambda>h. map_option (\<lambda>x. (sx_share_id x, sx_capability_epoch x, sx_expires_at x))
        (find (\<lambda>x. sx_session_hash x = h) (db_sessions d)))\<rparr>"

definition postgres_inv :: "share_db \<Rightarrow> bool" where
  "postgres_inv d \<longleftrightarrow> distinct (map sv_share_id (db_shares d)) \<and> distinct (map sv_public_id (db_shares d)) \<and>
     distinct (map lk_public_id (db_lookup d)) \<and> distinct (map sx_session_hash (db_sessions d)) \<and>
     distinct (map sp_share_id (db_snapshots d)) \<and>
     (\<forall>l \<in> set (db_lookup d). \<exists>r \<in> set (db_shares d). sv_share_id r = lk_share_id l \<and> sv_public_id r = lk_public_id l \<and>
        sw_tenant_id r = lk_tenant_id l) \<and>
     (\<forall>x \<in> set (db_sessions d). \<exists>r \<in> set (db_shares d). sv_share_id r = sx_share_id x \<and> sw_tenant_id r = sx_tenant_id x) \<and>
     (\<forall>n \<in> set (db_snapshots d). \<exists>r \<in> set (db_shares d). sv_share_id r = sp_share_id n \<and> sw_tenant_id r = sp_tenant_id n)"

lemma postgres_access_simps [simp]:
  "ax_shares (postgres_access d) =
     (\<lambda>i. map_option (\<lambda>r. (view_of r, sw_capability_secret_hash r)) (find (\<lambda>r. sv_share_id r = i) (db_shares d)))"
  "ax_public (postgres_access d) = (\<lambda>pid. map_option lk_share_id (find (\<lambda>l. lk_public_id l = pid) (db_lookup d)))"
  "ax_snapshots (postgres_access d) = (\<lambda>i. map_option sp_snapshot (find (\<lambda>n. sp_share_id n = i) (db_snapshots d)))"
  "ax_sessions (postgres_access d) = (\<lambda>h. map_option (\<lambda>x. (sx_share_id x, sx_capability_epoch x, sx_expires_at x))
     (find (\<lambda>x. sx_session_hash x = h) (db_sessions d)))"
  by (simp_all add: postgres_access_def)

lemma view_of_simps [simp]:
  "sv_share_id (view_of r) = sv_share_id r" "sv_public_id (view_of r) = sv_public_id r" "sv_trip_id (view_of r) = sv_trip_id r"
  "sv_status (view_of r) = sv_status r" "sv_version (view_of r) = sv_version r"
  "sv_capability_epoch (view_of r) = sv_capability_epoch r" "sv_created_by (view_of r) = sv_created_by r"
  "sv_created_at (view_of r) = sv_created_at r"
  by (simp_all add: view_of_def ShareView.truncate_def)

subsection \<open>Rows by key\<close>

lemma find_key: "distinct (map key xs) \<Longrightarrow> x \<in> set xs \<Longrightarrow> find (\<lambda>y. key y = key x) xs = Some x"
  by (induction xs) auto

lemma find_key_eq: "distinct (map key xs) \<Longrightarrow> x \<in> set xs \<Longrightarrow> key x = k \<Longrightarrow> find (\<lambda>y. key y = k) xs = Some x"
  by (drule (1) find_key) simp

lemma find_map_key: "(\<And>x. key (f x) = key x) \<Longrightarrow> find (\<lambda>y. key y = k) (map f xs) = map_option f (find (\<lambda>y. key y = k) xs)"
  by (induction xs) auto

lemma find_snoc: "find P (xs @ [x]) = (case find P xs of None \<Rightarrow> if P x then Some x else None | Some y \<Rightarrow> Some y)"
  by (induction xs) auto

lemma find_filter_key:
  "distinct (map key xs) \<Longrightarrow> find (\<lambda>y. key y = k) (filter Q xs) =
     (case find (\<lambda>y. key y = k) xs of None \<Rightarrow> None | Some y \<Rightarrow> if Q y then Some y else None)"
proof (induction xs)
  case (Cons x xs)
  then have "find (\<lambda>y. key y = key x) xs = None" by (auto simp: find_None_iff image_iff)
  with Cons show ?case by (cases "key x = k") (auto split: option.split)
qed simp

lemma find_share_Some:
  assumes "find_share tenant P d = Some r"
  shows "r \<in> set (db_shares d)" "sw_tenant_id r = tenant" "P r"
  using find_SomeD [OF assms [unfolded find_share_def]] by simp_all

lemma insert_unique_Inr: "insert_unique same r rows = Inr rows' \<longleftrightarrow> rows' = rows @ [r] \<and> (\<forall>r' \<in> set rows. \<not> same r r')"
  by (auto simp: insert_unique_def list_ex_iff)

subsection \<open>Updates of a share\<close>

definition keeps_keys :: "(ShareRow \<Rightarrow> ShareRow) \<Rightarrow> bool" where
  "keeps_keys f \<longleftrightarrow> (\<forall>r. sv_share_id (f r) = sv_share_id r \<and> sv_public_id (f r) = sv_public_id r \<and> sw_tenant_id (f r) = sw_tenant_id r)"

lemma postgres_inv_update:
  assumes "postgres_inv d" and "keeps_keys f"
  shows "postgres_inv (update_share tenant P f d)"
proof -
  define g where "g = (\<lambda>r. if sw_tenant_id r = tenant \<and> P r then f r else r)"
  have k: "sv_share_id (g r) = sv_share_id r" "sv_public_id (g r) = sv_public_id r" "sw_tenant_id (g r) = sw_tenant_id r" for r
    using assms(2) by (simp_all add: keeps_keys_def g_def)
  show ?thesis using assms(1) unfolding postgres_inv_def update_share_def g_def [symmetric] by (simp add: k comp_def)
qed

lemma access_update:
  assumes "postgres_inv d" and "keeps_keys f" and "r \<in> set (db_shares d)"
  shows "ax_shares (postgres_access (update_share (sw_tenant_id r) (\<lambda>r'. sv_share_id r' = sv_share_id r \<and> Q r') f d)) =
    (if Q r then (ax_shares (postgres_access d))(sv_share_id r \<mapsto> (view_of (f r), sw_capability_secret_hash (f r)))
     else ax_shares (postgres_access d))"
proof
  fix i
  let ?g = "\<lambda>r'. if sw_tenant_id r' = sw_tenant_id r \<and> sv_share_id r' = sv_share_id r \<and> Q r' then f r' else r'"
  have "sv_share_id (?g r') = sv_share_id r'" for r' using assms(2) by (simp add: keeps_keys_def)
  from find_map_key [of sv_share_id ?g, OF this] have m:
    "find (\<lambda>r'. sv_share_id r' = i) (map ?g (db_shares d)) = map_option ?g (find (\<lambda>r'. sv_share_id r' = i) (db_shares d))" .
  have "distinct (map sv_share_id (db_shares d))" using assms(1) by (simp add: postgres_inv_def)
  note u = find_key [OF this assms(3)]
  show "ax_shares (postgres_access (update_share (sw_tenant_id r) (\<lambda>r'. sv_share_id r' = sv_share_id r \<and> Q r') f d)) i =
    (if Q r then (ax_shares (postgres_access d))(sv_share_id r \<mapsto> (view_of (f r), sw_capability_secret_hash (f r)))
     else ax_shares (postgres_access d)) i"
  proof (cases "i = sv_share_id r")
    case True
    with u m show ?thesis by (simp add: update_share_def)
  next
    case False
    have "?g r' = r'" if "find (\<lambda>r'. sv_share_id r' = i) (db_shares d) = Some r'" for r'
      using find_SomeD [OF that] False by simp
    with m False show ?thesis
      by (cases "find (\<lambda>r'. sv_share_id r' = i) (db_shares d)") (simp_all add: update_share_def)
  qed
qed

lemma access_update_frame [simp]:
  "ax_public (postgres_access (update_share t P f d)) = ax_public (postgres_access d)"
  "ax_snapshots (postgres_access (update_share t P f d)) = ax_snapshots (postgres_access d)"
  "ax_sessions (postgres_access (update_share t P f d)) = ax_sessions (postgres_access d)"
  by (simp_all add: update_share_def)

lemma sessions_of_tenant:
  assumes "postgres_inv d" and "r \<in> set (db_shares d)" and "x \<in> set (db_sessions d)" and "sx_share_id x = sv_share_id r"
  shows "sx_tenant_id x = sw_tenant_id r"
proof -
  from assms obtain r' where "r' \<in> set (db_shares d)" "sv_share_id r' = sv_share_id r" "sw_tenant_id r' = sx_tenant_id x"
    unfolding postgres_inv_def by metis
  with assms(1,2) show ?thesis unfolding postgres_inv_def by (metis distinct_map inj_onD)
qed

lemma access_delete_sessions:
  assumes "postgres_inv d" and "r \<in> set (db_shares d)"
  shows "ax_sessions (postgres_access (delete_sessions (sw_tenant_id r) (sv_share_id r) d)) =
    drop_sessions (sv_share_id r) (ax_sessions (postgres_access d))"
proof
  fix h
  have "distinct (map sx_session_hash (db_sessions d))" using assms(1) by (simp add: postgres_inv_def)
  note f = find_filter_key [OF this]
  have "sx_tenant_id x = sw_tenant_id r"
    if "find (\<lambda>x. sx_session_hash x = h) (db_sessions d) = Some x" "sx_share_id x = sv_share_id r" for x
    using sessions_of_tenant [OF assms] find_SomeD [OF that(1)] that(2) by blast
  then show "ax_sessions (postgres_access (delete_sessions (sw_tenant_id r) (sv_share_id r) d)) h =
      drop_sessions (sv_share_id r) (ax_sessions (postgres_access d)) h"
    by (cases "find (\<lambda>x. sx_session_hash x = h) (db_sessions d)") (auto simp: delete_sessions_def drop_sessions_def f)
qed

subsection \<open>Transactions\<close>

lemma inv_append_idempotency [simp]: "postgres_inv (d\<lparr>db_idempotency := ks\<rparr>) = postgres_inv d"
  "postgres_access (d\<lparr>db_idempotency := ks\<rparr>) = postgres_access d"
  by (simp_all add: postgres_inv_def postgres_access_def)

lemma postgres_inv_delete_sessions: "postgres_inv d \<Longrightarrow> postgres_inv (delete_sessions t i d)"
  by (auto simp: postgres_inv_def delete_sessions_def intro: distinct_map_filter)

lemma access_delete_frame [simp]:
  "ax_shares (postgres_access (delete_sessions t i d)) = ax_shares (postgres_access d)"
  "ax_public (postgres_access (delete_sessions t i d)) = ax_public (postgres_access d)"
  "ax_snapshots (postgres_access (delete_sessions t i d)) = ax_snapshots (postgres_access d)"
  by (simp_all add: delete_sessions_def)

lemma change_share_step:
  assumes "postgres_inv d" and "find_share (pr_tenant_id p) (\<lambda>r. sv_share_id r = i \<and> Q r) d = Some r"
    and "keeps_keys f" and "changes op i" and "sv_status r = Share_active"
    and "sv_capability_epoch (f r) = sv_capability_epoch r + 1"
  shows "access_step e op (postgres_access d) res (postgres_access (change_share p i (sv_version r) f idem d))"
    "postgres_inv (change_share p i (sv_version r) f idem d)"
proof -
  note r = find_share_Some [OF assms(2)]
  let ?d1 = "update_share (pr_tenant_id p) (\<lambda>r'. sv_share_id r' = i \<and> sv_version r' = sv_version r) f d"
  have i1: "postgres_inv ?d1" by (rule postgres_inv_update [OF assms(1,3)])
  then show "postgres_inv (change_share p i (sv_version r) f idem d)"
    by (simp add: change_share_def Let_def postgres_inv_delete_sessions)
  have "f r \<in> set (db_shares ?d1)" using r by (auto simp: update_share_def intro!: image_eqI [of _ _ r])
  from access_delete_sessions [OF i1 this] r assms(3)
  have s: "ax_sessions (postgres_access (delete_sessions (pr_tenant_id p) i ?d1)) = drop_sessions i (ax_sessions (postgres_access d))"
    by (simp add: keeps_keys_def del: postgres_access_simps)
  have "ax_shares (postgres_access ?d1) = (ax_shares (postgres_access d))(i \<mapsto> (view_of (f r), sw_capability_secret_hash (f r)))"
    using access_update [OF assms(1,3) r(1), of "\<lambda>r'. sv_version r' = sv_version r"] r by simp
  then have "postgres_access (change_share p i (sv_version r) f idem d) =
      (postgres_access d)\<lparr>ax_shares := (ax_shares (postgres_access d))(i \<mapsto> (view_of (f r), sw_capability_secret_hash (f r))),
        ax_sessions := drop_sessions i (ax_sessions (postgres_access d))\<rparr>"
    using s by (intro access_eqI) (simp_all add: change_share_def Let_def del: postgres_access_simps)
  moreover have "ax_shares (postgres_access d) i = Some (view_of r, sw_capability_secret_hash r)"
    using assms(1) r by (simp add: find_key_eq [of sv_share_id] postgres_inv_def)
  ultimately show "access_step e op (postgres_access d) res (postgres_access (change_share p i (sv_version r) f idem d))"
    using access_step.changed [OF assms(4), of "postgres_access d" "view_of r" "sw_capability_secret_hash r" "view_of (f r)"] assms(5,6)
    by simp
qed

definition share_row :: "share_env \<Rightarrow> share_call \<Rightarrow> Principal \<Rightarrow> string \<Rightarrow> TripSnapshot \<Rightarrow> string \<Rightarrow> ShareRow" where
  "share_row e c p trip_id src secret =
     ShareView.extend (new_share_view p trip_id src c)
       (ShareRow.fields (pr_tenant_id p) (capability_hash e (sc_public_id c) secret) 0 None None)"

lemma share_row_simps [simp]:
  "view_of (share_row e c p trip_id src secret) = new_share_view p trip_id src c"
  "sv_share_id (share_row e c p trip_id src secret) = sc_share_id c"
  "sv_public_id (share_row e c p trip_id src secret) = sc_public_id c"
  "sw_tenant_id (share_row e c p trip_id src secret) = pr_tenant_id p"
  "sw_capability_secret_hash (share_row e c p trip_id src secret) = capability_hash e (sc_public_id c) secret"
  "sw_failed_attempts (share_row e c p trip_id src secret) = 0"
  "sw_failure_window_started_at (share_row e c p trip_id src secret) = None"
  "sw_blocked_until (share_row e c p trip_id src secret) = None"
  by (simp_all add: share_row_def view_of_def ShareView.extend_def ShareRow.fields_def ShareView.truncate_def new_share_view_def)

lemma insert_share_Inr:
  assumes "insert_share e c p trip_id src secret d = Inr d'"
  obtains n where
    "project_share_snapshot (se_zones e) (sc_snapshot_id c) (sc_snapshot_now c) src (sc_public_id c) = Inr (sp_snapshot n)"
    "d' = d\<lparr>db_shares := db_shares d @ [share_row e c p trip_id src secret],
       db_lookup := db_lookup d @ [\<lparr>lk_public_id = sc_public_id c, lk_tenant_id = pr_tenant_id p, lk_share_id = sc_share_id c\<rparr>],
       db_snapshots := db_snapshots d @ [n]\<rparr>"
    "sp_tenant_id n = pr_tenant_id p" "sp_share_id n = sc_share_id c"
    "\<forall>r \<in> set (db_shares d). sv_share_id r \<noteq> sc_share_id c \<and> sv_public_id r \<noteq> sc_public_id c"
    "\<forall>l \<in> set (db_lookup d). lk_public_id l \<noteq> sc_public_id c" "\<forall>n \<in> set (db_snapshots d). sp_share_id n \<noteq> sc_share_id c"
proof -
  from assms obtain snapshot where s:
    "project_share_snapshot (se_zones e) (sc_snapshot_id c) (sc_snapshot_now c) src (sc_public_id c) = Inr snapshot"
    by (auto simp: insert_share_def sbind_Inr split: sum.splits)
  with assms show thesis
    by (intro that [of "\<lparr>sp_snapshot_id = ab_artifact_id snapshot, sp_tenant_id = pr_tenant_id p, sp_share_id = sc_share_id c,
         sp_snapshot = snapshot, sp_created_at = sc_now c\<rparr>"])
      (auto simp: insert_share_def sbind_Inr insert_unique_Inr simp flip: share_row_def)
qed

lemma find_None_key: "\<forall>x \<in> set xs. key x \<noteq> k \<Longrightarrow> find (\<lambda>x. key x = k) xs = None"
  by (auto simp: find_None_iff)

lemma insert_share_step:
  assumes "postgres_inv d" and "insert_share e c p trip_id src secret d = Inr d'"
  shows "access_step e (Op_create p trip_id q key s1 s2 c) (postgres_access d) res (postgres_access d')" "postgres_inv d'"
proof -
  from insert_share_Inr [OF assms(2)] obtain n where n:
    "d' = d\<lparr>db_shares := db_shares d @ [share_row e c p trip_id src secret],
       db_lookup := db_lookup d @ [\<lparr>lk_public_id = sc_public_id c, lk_tenant_id = pr_tenant_id p, lk_share_id = sc_share_id c\<rparr>],
       db_snapshots := db_snapshots d @ [n]\<rparr>"
    "sp_tenant_id n = pr_tenant_id p" "sp_share_id n = sc_share_id c"
    "\<forall>r \<in> set (db_shares d). sv_share_id r \<noteq> sc_share_id c \<and> sv_public_id r \<noteq> sc_public_id c"
    "\<forall>l \<in> set (db_lookup d). lk_public_id l \<noteq> sc_public_id c" "\<forall>n \<in> set (db_snapshots d). sp_share_id n \<noteq> sc_share_id c"
    by metis
  show "postgres_inv d'"
    using assms(1) n unfolding postgres_inv_def by (auto simp: image_iff)
  have new: "find (\<lambda>r. sv_share_id r = sc_share_id c) (db_shares d) = None" "find (\<lambda>l. lk_public_id l = sc_public_id c) (db_lookup d) = None"
    "find (\<lambda>n. sp_share_id n = sc_share_id c) (db_snapshots d) = None"
    using n(4-6) by (auto intro!: find_None_key)
  have "postgres_access d' = (postgres_access d)\<lparr>
      ax_shares := (ax_shares (postgres_access d))(sc_share_id c \<mapsto>
        (new_share_view p trip_id src c, capability_hash e (sc_public_id c) secret)),
      ax_public := (ax_public (postgres_access d))(sc_public_id c \<mapsto> sc_share_id c),
      ax_snapshots := (case Some (sp_snapshot n) of None \<Rightarrow> ax_snapshots (postgres_access d)
        | Some m \<Rightarrow> (ax_snapshots (postgres_access d))(sc_share_id c \<mapsto> m))\<rparr>"
    using new n(3) unfolding n(1)
    by (intro access_eqI) (auto simp: find_snoc fun_eq_iff split: option.split)
  then show "access_step e (Op_create p trip_id q key s1 s2 c) (postgres_access d) res (postgres_access d')"
    using access_step.created [of "postgres_access d" "sc_share_id c" "sc_public_id c" "new_share_view p trip_id src c"
        "Some (sp_snapshot n)" e p trip_id q key s1 s2 c res "capability_hash e (sc_public_id c) secret"] new
    by (simp add: new_share_view_def)
qed

lemma exchange_postgres_cases:
  assumes "postgres_inv d"
  shows "(\<exists>err d'. exchange_postgres e now token pid secret d = (Inl err, d') \<and>
       (d' = d \<or> (\<exists>t i a w b. d' = update_share t (\<lambda>r. sv_share_id r = i)
          (\<lambda>r. r\<lparr>sw_failed_attempts := a, sw_failure_window_started_at := Some w, sw_blocked_until := b\<rparr>) d))) \<or>
    (\<exists>l r. l \<in> set (db_lookup d) \<and> lk_public_id l = pid \<and> r \<in> set (db_shares d) \<and> sv_public_id r = pid \<and>
       sw_tenant_id r = lk_tenant_id l \<and> sv_status r = Share_active \<and> sw_capability_secret_hash r = capability_hash e pid secret \<and>
       (\<forall>x \<in> set (db_sessions d). sx_session_hash x \<noteq> session_hash e token) \<and>
       exchange_postgres e now token pid secret d =
         (Inr \<lparr>xr_session_token = token, xr_expires_at = now + SESSION_TIME\<rparr>,
          (update_share (lk_tenant_id l) (\<lambda>r'. sv_share_id r' = sv_share_id r)
             (\<lambda>r. r\<lparr>sw_failed_attempts := 0, sw_failure_window_started_at := None, sw_blocked_until := None\<rparr>) d)
            \<lparr>db_sessions := db_sessions d @ [\<lparr>sx_session_hash = session_hash e token, sx_tenant_id = lk_tenant_id l,
               sx_share_id = sv_share_id r, sx_capability_epoch = sv_capability_epoch r, sx_created_at = now,
               sx_expires_at = now + SESSION_TIME\<rparr>]\<rparr>))"
proof (cases "find (\<lambda>l. lk_public_id l = pid) (db_lookup d)")
  case None
  then show ?thesis by (simp add: exchange_postgres_def resolve_public_tenant_def)
next
  case (Some l)
  note l = find_SomeD [OF Some]
  show ?thesis
  proof (cases "find_share (lk_tenant_id l) (\<lambda>r. sv_public_id r = pid) d")
    case None
    with Some show ?thesis by (simp add: exchange_postgres_def resolve_public_tenant_def)
  next
    case (Some r)
    note r = find_share_Some [OF Some]
    show ?thesis
    proof (cases "sv_status r = Share_active \<and> lk_tenant_id l \<noteq> [] \<and>
        \<not> (sw_blocked_until r \<noteq> None \<and> the (sw_blocked_until r) > now) \<and> capability_hash e pid secret = sw_capability_secret_hash r \<and>
        (\<forall>x \<in> set (db_sessions d). sx_session_hash x \<noteq> session_hash e token)")
      case True
      with l r Some \<open>find _ (db_lookup d) = _\<close> show ?thesis
        by (intro disjI2 exI [of _ l] exI [of _ r])
          (auto simp: exchange_postgres_def resolve_public_tenant_def insert_unique_def list_ex_iff)
    next
      case False
      obtain a w where aw: "(case sw_failure_window_started_at r of None \<Rightarrow> (0, now)
          | Some w \<Rightarrow> if now - w > FAILURE_WINDOW then (0, now) else (sw_failed_attempts r, w)) = (a, w)" by fastforce
      note x = exchange_postgres_def resolve_public_tenant_def Some \<open>find _ (db_lookup d) = _\<close>
      show ?thesis
      proof (cases "sv_status r = Share_active \<and> lk_tenant_id l \<noteq> [] \<and>
          \<not> (sw_blocked_until r \<noteq> None \<and> the (sw_blocked_until r) > now) \<and> capability_hash e pid secret \<noteq> sw_capability_secret_hash r")
        case True
        then have "exchange_postgres e now token pid secret d =
            (Inl (if (if a + 1 \<ge> 5 then Some (now + BLOCK_TIME) else None) \<noteq> None then rate_limited (15 * 60) else ShareCapabilityInvalid),
             update_share (lk_tenant_id l) (\<lambda>r'. sv_share_id r' = sv_share_id r)
              (\<lambda>r. r\<lparr>sw_failed_attempts := a + 1, sw_failure_window_started_at := Some w,
                 sw_blocked_until := if a + 1 \<ge> 5 then Some (now + BLOCK_TIME) else None\<rparr>) d)"
          by (auto simp: x Let_def aw)
        then show ?thesis by blast
      next
        case wrong: False
        have "\<exists>err. exchange_postgres e now token pid secret d = (Inl err, d)"
        proof (cases "capability_hash e pid secret = sw_capability_secret_hash r")
          case True
          with False show ?thesis by (auto simp: x insert_unique_def list_ex_iff)
        next
          case False
          with wrong show ?thesis by (auto simp: x)
        qed
        then show ?thesis by blast
      qed
    qed
  qed
qed

lemma update_failures [simp]:
  assumes "postgres_inv d"
  shows "postgres_access (update_share t P (\<lambda>r. r\<lparr>sw_failed_attempts := a, sw_failure_window_started_at := w,
      sw_blocked_until := b\<rparr>) d) = postgres_access d"
    "postgres_inv (update_share t P (\<lambda>r. r\<lparr>sw_failed_attempts := a, sw_failure_window_started_at := w, sw_blocked_until := b\<rparr>) d)"
proof -
  define g where "g = (\<lambda>r. if sw_tenant_id r = t \<and> P r
    then r\<lparr>sw_failed_attempts := a, sw_failure_window_started_at := w, sw_blocked_until := b\<rparr> else r)"
  have g: "sv_share_id (g r) = sv_share_id r" "view_of (g r) = view_of r"
    "sw_capability_secret_hash (g r) = sw_capability_secret_hash r" for r
    by (simp_all add: g_def view_of_def ShareView.truncate_def)
  show "postgres_access (update_share t P (\<lambda>r. r\<lparr>sw_failed_attempts := a, sw_failure_window_started_at := w,
      sw_blocked_until := b\<rparr>) d) = postgres_access d"
    by (rule access_eqI) (simp_all add: update_share_def find_map_key [of sv_share_id, OF g(1)] option.map_comp comp_def g
      flip: g_def)
  show "postgres_inv (update_share t P (\<lambda>r. r\<lparr>sw_failed_attempts := a, sw_failure_window_started_at := w, sw_blocked_until := b\<rparr>) d)"
    by (rule postgres_inv_update [OF assms]) (simp add: keeps_keys_def)
qed

lemma exchange_postgres_step:
  assumes "postgres_inv d"
  shows "access_step e (Op_exchange pid secret now token) (postgres_access d)
      (map_sum id R_exchange (fst (exchange_postgres e now token pid secret d)))
      (postgres_access (snd (exchange_postgres e now token pid secret d)))"
    and "postgres_inv (snd (exchange_postgres e now token pid secret d))"
proof -
  have "access_step e (Op_exchange pid secret now token) (postgres_access d)
      (map_sum id R_exchange (fst (exchange_postgres e now token pid secret d)))
      (postgres_access (snd (exchange_postgres e now token pid secret d))) \<and>
    postgres_inv (snd (exchange_postgres e now token pid secret d))"
    using exchange_postgres_cases [OF assms, of e now token pid secret]
  proof (elim disjE exE conjE)
    fix err d' t i a w b
    assume "exchange_postgres e now token pid secret d = (Inl err, d')" "d' = update_share t (\<lambda>r. sv_share_id r = i)
        (\<lambda>r. r\<lparr>sw_failed_attempts := a, sw_failure_window_started_at := Some w, sw_blocked_until := b\<rparr>) d"
    then show ?thesis using assms by (auto intro: idle_step)
  next
    fix l r
    assume lr: "l \<in> set (db_lookup d)" "lk_public_id l = pid" "r \<in> set (db_shares d)" "sv_public_id r = pid"
      "sw_tenant_id r = lk_tenant_id l" "sv_status r = Share_active" "sw_capability_secret_hash r = capability_hash e pid secret"
      "\<forall>x \<in> set (db_sessions d). sx_session_hash x \<noteq> session_hash e token"
      and x: "exchange_postgres e now token pid secret d =
         (Inr \<lparr>xr_session_token = token, xr_expires_at = now + SESSION_TIME\<rparr>,
          (update_share (lk_tenant_id l) (\<lambda>r'. sv_share_id r' = sv_share_id r)
             (\<lambda>r. r\<lparr>sw_failed_attempts := 0, sw_failure_window_started_at := None, sw_blocked_until := None\<rparr>) d)
            \<lparr>db_sessions := db_sessions d @ [\<lparr>sx_session_hash = session_hash e token, sx_tenant_id = lk_tenant_id l,
               sx_share_id = sv_share_id r, sx_capability_epoch = sv_capability_epoch r, sx_created_at = now,
               sx_expires_at = now + SESSION_TIME\<rparr>]\<rparr>)"
    let ?u = "update_share (lk_tenant_id l) (\<lambda>r'. sv_share_id r' = sv_share_id r)
             (\<lambda>r. r\<lparr>sw_failed_attempts := 0, sw_failure_window_started_at := None, sw_blocked_until := None\<rparr>) d"
    let ?x = "\<lparr>sx_session_hash = session_hash e token, sx_tenant_id = lk_tenant_id l,
               sx_share_id = sv_share_id r, sx_capability_epoch = sv_capability_epoch r, sx_created_at = now,
               sx_expires_at = now + SESSION_TIME\<rparr>"
    have a: "postgres_access ?u = postgres_access d" and i: "postgres_inv ?u" using assms by simp_all
    have sess: "db_sessions ?u = db_sessions d" by (simp add: update_share_def)
    have new: "find (\<lambda>x. sx_session_hash x = session_hash e token) (db_sessions d) = None"
      using lr(8) by (rule find_None_key)
    have acc: "postgres_access (?u\<lparr>db_sessions := db_sessions d @ [?x]\<rparr>) =
        (postgres_access d)\<lparr>ax_sessions := (ax_sessions (postgres_access d))(session_hash e token \<mapsto>
           (sv_share_id r, sv_capability_epoch (view_of r), now + SESSION_TIME))\<rparr>"
      unfolding a [symmetric] using new
      by (intro access_eqI) (auto simp: find_snoc sess fun_eq_iff split: option.split)
    obtain r' where r': "r' \<in> set (db_shares d)" "sv_share_id r' = lk_share_id l" "sv_public_id r' = pid"
      using assms lr(1,2) unfolding postgres_inv_def by metis
    then have "r' = r" using assms lr(3,4) unfolding postgres_inv_def by (metis distinct_map inj_onD)
    then have pub: "ax_public (postgres_access d) pid = Some (sv_share_id r)"
      using assms lr(1,2) r'(2) by (simp add: find_key_eq [of lk_public_id] postgres_inv_def)
    have share: "ax_shares (postgres_access d) (sv_share_id r) = Some (view_of r, capability_hash e pid secret)"
      using assms lr(3,7) by (simp add: find_key_eq [of sv_share_id] postgres_inv_def)
    have "access_step e (Op_exchange pid secret now token) (postgres_access d)
        (Inr (R_exchange \<lparr>xr_session_token = token, xr_expires_at = now + SESSION_TIME\<rparr>))
        (postgres_access (?u\<lparr>db_sessions := db_sessions d @ [?x]\<rparr>))"
      unfolding acc by (rule access_step.granted [OF pub share]) (simp add: lr(6))
    moreover have "postgres_inv (?u\<lparr>db_sessions := db_sessions d @ [?x]\<rparr>)"
    proof -
      have "\<exists>r'' \<in> set (db_shares ?u). sv_share_id r'' = sv_share_id r \<and> sw_tenant_id r'' = lk_tenant_id l"
        by (rule bexI [of _ "r\<lparr>sw_failed_attempts := 0, sw_failure_window_started_at := None, sw_blocked_until := None\<rparr>"])
          (use lr(3,5) in \<open>auto simp: update_share_def intro!: image_eqI [of _ _ r]\<close>)
      then show ?thesis using i lr(8) unfolding postgres_inv_def by (auto simp: sess image_iff)
    qed
    ultimately show ?thesis by (simp add: x)
  qed (use assms in \<open>auto intro: idle_step\<close>)
  then show "access_step e (Op_exchange pid secret now token) (postgres_access d)
      (map_sum id R_exchange (fst (exchange_postgres e now token pid secret d)))
      (postgres_access (snd (exchange_postgres e now token pid secret d)))"
    "postgres_inv (snd (exchange_postgres e now token pid secret d))" by simp_all
qed

lemma public_snapshot_postgres_step:
  assumes "postgres_inv d"
  shows "access_step e (Op_snapshot pid token now) (postgres_access d)
      (map_sum id R_snapshot (fst (public_snapshot_postgres e now pid token d)))
      (postgres_access (snd (public_snapshot_postgres e now pid token d)))"
    and "snd (public_snapshot_postgres e now pid token d) = d"
proof -
  show same: "snd (public_snapshot_postgres e now pid token d) = d"
    by (auto simp: public_snapshot_postgres_def split: option.split list.split prod.split)
  show "access_step e (Op_snapshot pid token now) (postgres_access d)
      (map_sum id R_snapshot (fst (public_snapshot_postgres e now pid token d)))
      (postgres_access (snd (public_snapshot_postgres e now pid token d)))"
  proof (cases "fst (public_snapshot_postgres e now pid token d)")
    case (Inl err)
    then show ?thesis by (auto simp: same intro: idle_step)
  next
    case (Inr res)
    then obtain l r x n where l: "find (\<lambda>l. lk_public_id l = pid) (db_lookup d) = Some l"
      and join: "snapshot_join (lk_tenant_id l) pid (session_hash e token) d = [(r, x, n)]"
      and ok: "sv_status r = Share_active" "now < sx_expires_at x" "sx_capability_epoch x = sv_capability_epoch r"
      and res: "res = \<lparr>ps_public_id = pid, ps_snapshot = sp_snapshot n\<rparr>"
      by (auto simp: public_snapshot_postgres_def resolve_public_tenant_def split: option.splits list.splits prod.splits if_splits)
    have "(r, x, n) \<in> set (snapshot_join (lk_tenant_id l) pid (session_hash e token) d)" by (simp add: join)
    then have m: "r \<in> set (db_shares d)" "sw_tenant_id r = lk_tenant_id l" "sv_public_id r = pid"
      "x \<in> set (db_sessions d)" "sx_share_id x = sv_share_id r" "sx_session_hash x = session_hash e token"
      "n \<in> set (db_snapshots d)" "sp_share_id n = sv_share_id r" by (auto simp: snapshot_join_def split: if_splits)
    obtain r' where r': "r' \<in> set (db_shares d)" "sv_share_id r' = lk_share_id l" "sv_public_id r' = pid"
      using assms find_SomeD [OF l] unfolding postgres_inv_def by metis
    then have "r' = r" using assms m(1,3) unfolding postgres_inv_def by (metis distinct_map inj_onD)
    then have pub: "ax_public (postgres_access d) pid = Some (sv_share_id r)" using l r'(2) by simp
    have sess: "ax_sessions (postgres_access d) (session_hash e token) =
        Some (sv_share_id r, sv_capability_epoch r, sx_expires_at x)"
      using assms m(4-6) ok(3) by (simp add: find_key_eq [of sx_session_hash] postgres_inv_def)
    have act: "is_active (postgres_access d) (sv_share_id r) (sv_capability_epoch r)"
      using assms m(1) ok(1) by (simp add: is_active_def find_key_eq [of sv_share_id] postgres_inv_def)
    have snap: "ax_snapshots (postgres_access d) (sv_share_id r) = Some (sp_snapshot n)"
      using assms m(7,8) by (simp add: find_key_eq [of sp_share_id] postgres_inv_def)
    show ?thesis unfolding same Inr res map_sum.simps by (rule access_step.served [OF pub sess ok(2) act snap])
  qed
qed

lemma postgres_exec_step:
  assumes "postgres_inv d"
  shows "access_step e op (postgres_access d) (fst (exec_postgres e op d)) (postgres_access (snd (exec_postgres e op d)))"
    and "postgres_inv (snd (exec_postgres e op d))"
proof -
  have "access_step e op (postgres_access d) (fst (exec_postgres e op d)) (postgres_access (snd (exec_postgres e op d))) \<and>
    postgres_inv (snd (exec_postgres e op d))"
  proof (cases op)
    case (Op_create p trip_id q key s1 s2 c)
    have reserved: "postgres_inv (d\<lparr>db_idempotency := ks\<rparr>)" for ks using assms by simp
    show ?thesis
      using assms insert_share_step [OF reserved] Op_create
      by (auto simp: create_def create_postgres_def Let_def split: sum.split option.split intro!: idle_step)
  next
    case (Op_list p trip_id s)
    with assms show ?thesis by (auto simp: list_shares_def list_postgres_def split: sum.split intro!: idle_step)
  next
    case (Op_rotate p i expected key now)
    let ?h = "change_request_hash e ''rotate'' i expected"
    let ?scope = "(pr_tenant_id p, pr_user_id p, ''share.rotate:'' @ i, key)"
    show ?thesis
    proof (cases "\<exists>r. find_share (pr_tenant_id p) (\<lambda>r. sv_share_id r = i \<and> sv_created_by r = pr_user_id p) d = Some r \<and>
        find_idempotency ?scope d = None \<and> sv_status r = Share_active \<and> sv_version r = expected")
      case True
      then obtain r where r: "find_share (pr_tenant_id p) (\<lambda>r. sv_share_id r = i \<and> sv_created_by r = pr_user_id p) d = Some r"
        "find_idempotency ?scope d = None" "sv_status r = Share_active" "sv_version r = expected" by blast
      let ?secret = "derive_secret e ''share.rotate'' p key ?h i (sv_capability_epoch r + 1)"
      let ?f = "\<lambda>r'. r'\<lparr>sv_version := sv_version r + 1, sv_capability_epoch := sv_capability_epoch r + 1,
          sw_capability_secret_hash := capability_hash e (sv_public_id r) ?secret, sw_failed_attempts := 0,
          sw_failure_window_started_at := None, sw_blocked_until := None, sv_updated_at := now\<rparr>"
      have "snd (rotate_postgres e now p i expected key ?h d) =
          change_share p i (sv_version r) ?f (idempotency_row ?scope ?h i (sv_version r + 1) (sv_capability_epoch r + 1) now) d"
        using r by (simp add: rotate_postgres_def Let_def)
      moreover have "keeps_keys ?f" "sv_capability_epoch (?f r) = sv_capability_epoch r + 1" by (simp_all add: keeps_keys_def)
      ultimately show ?thesis
        using change_share_step [OF assms r(1) _ _ r(3), of ?f op] Op_rotate by simp
    next
      case False
      then have "snd (rotate_postgres e now p i expected key ?h d) = d"
        by (auto simp: rotate_postgres_def Let_def split: option.split)
      with assms Op_rotate show ?thesis by (auto intro: idle_step)
    qed
  next
    case (Op_revoke p i expected key now)
    let ?h = "change_request_hash e ''revoke'' i expected"
    let ?scope = "(pr_tenant_id p, pr_user_id p, ''share.revoke:'' @ i, key)"
    show ?thesis
    proof (cases "\<exists>r. find_share (pr_tenant_id p) (\<lambda>r. sv_share_id r = i \<and> sv_created_by r = pr_user_id p) d = Some r \<and>
        find_idempotency ?scope d = None \<and> sv_status r = Share_active \<and> sv_version r = expected")
      case True
      then obtain r where r: "find_share (pr_tenant_id p) (\<lambda>r. sv_share_id r = i \<and> sv_created_by r = pr_user_id p) d = Some r"
        "find_idempotency ?scope d = None" "sv_status r = Share_active" "sv_version r = expected" by blast
      let ?f = "\<lambda>r'. r'\<lparr>sv_status := Share_revoked, sv_version := sv_version r + 1,
          sv_capability_epoch := sv_capability_epoch r + 1, sv_updated_at := now, sv_revoked_at := Some now\<rparr>"
      have "snd (revoke_postgres now p i expected key ?h d) =
          change_share p i (sv_version r) ?f (idempotency_row ?scope ?h i (sv_version r + 1) (sv_capability_epoch r + 1) now) d"
        using r by (simp add: revoke_postgres_def Let_def)
      moreover have "keeps_keys ?f" "sv_capability_epoch (?f r) = sv_capability_epoch r + 1" by (simp_all add: keeps_keys_def)
      ultimately show ?thesis
        using change_share_step [OF assms r(1) _ _ r(3), of ?f op] Op_revoke by simp
    next
      case False
      then have "snd (revoke_postgres now p i expected key ?h d) = d"
        by (auto simp: revoke_postgres_def Let_def split: option.split)
      with assms Op_revoke show ?thesis by (auto intro: idle_step)
    qed
  qed (use assms exchange_postgres_step public_snapshot_postgres_step in simp_all)
  then show "access_step e op (postgres_access d) (fst (exec_postgres e op d)) (postgres_access (snd (exec_postgres e op d)))"
    "postgres_inv (snd (exec_postgres e op d))" by simp_all
qed

interpretation postgres_shares: share_implementation e "exec_postgres e" postgres_access postgres_inv "\<lambda>_ _. True" for e
  by unfold_locales (simp_all add: postgres_exec_step)

end
