(* ===== verification/Share_Parity.thy ===== *)
theory Share_Parity
  imports Share_Implementations
begin

text \<open>
  The two halves of the share service side by side. \<open>memory_of\<close> reads the tables as the dictionaries of the service in
  memory; calls on the tables are calls on the dictionaries as long as identifiers are new, users belong to one
  tenant, and a capability is rotated while no failed attempts are recorded.
\<close>

section \<open>The tables as dictionaries\<close>

definition stored_share :: "ShareRow \<Rightarrow> MemoryShare" where
  "stored_share r = \<lparr>ms_view = view_of r, ms_secret_hash = sw_capability_secret_hash r\<rparr>"

definition failure_record :: "ShareRow \<Rightarrow> (int \<times> instant \<times> instant option) option" where
  "failure_record r = map_option (\<lambda>w. (sw_failed_attempts r, w, sw_blocked_until r)) (sw_failure_window_started_at r)"

definition memory_of :: "share_db \<Rightarrow> share_service" where
  "memory_of d =
     \<lparr>sh_shares = map (\<lambda>r. (sv_share_id r, stored_share r)) (db_shares d),
      sh_public_ids = ax_public (postgres_access d), sh_snapshots = ax_snapshots (postgres_access d),
      sh_sessions = ax_sessions (postgres_access d),
      sh_idempotency = (\<lambda>scope. map_option (\<lambda>k. (ik_request_hash k, ik_response_share_id k, ik_response_version k, ik_response_epoch k))
        (find_idempotency scope d)),
      sh_failures = (\<lambda>i. Option.bind (find (\<lambda>r. sv_share_id r = i) (db_shares d)) failure_record)\<rparr>"

lemma memory_of_simps [simp]:
  "sh_shares (memory_of d) = map (\<lambda>r. (sv_share_id r, stored_share r)) (db_shares d)"
  "sh_public_ids (memory_of d) = ax_public (postgres_access d)"
  "sh_snapshots (memory_of d) = ax_snapshots (postgres_access d)"
  "sh_sessions (memory_of d) = ax_sessions (postgres_access d)"
  "sh_idempotency (memory_of d) = (\<lambda>scope. map_option
     (\<lambda>k. (ik_request_hash k, ik_response_share_id k, ik_response_version k, ik_response_epoch k)) (find_idempotency scope d))"
  "sh_failures (memory_of d) = (\<lambda>i. Option.bind (find (\<lambda>r. sv_share_id r = i) (db_shares d)) failure_record)"
  by (simp_all add: memory_of_def)

lemma stored_share_simps [simp]: "ms_view (stored_share r) = view_of r" "ms_secret_hash (stored_share r) = sw_capability_secret_hash r"
  by (simp_all add: stored_share_def)

lemma memory_of_empty: "memory_of empty_share_db = new_share_service"
  by (simp add: memory_of_def empty_share_db_def new_share_service_def find_idempotency_def fun_eq_iff)

text \<open>What the tables keep beyond the unique indices.\<close>

definition parity_inv :: "share_db \<Rightarrow> bool" where
  "parity_inv d \<longleftrightarrow> postgres_inv d \<and>
     (\<forall>r \<in> set (db_shares d). sv_share_id r \<noteq> [] \<and> (sw_failure_window_started_at r = None \<longrightarrow> sw_blocked_until r = None)) \<and>
     (\<forall>r \<in> set (db_shares d). \<exists>n \<in> set (db_snapshots d). sp_share_id n = sv_share_id r) \<and>
     (\<forall>l \<in> set (db_lookup d). lk_tenant_id l \<noteq> []) \<and>
     (\<forall>k \<in> set (db_idempotency d). \<exists>r \<in> set (db_shares d). sv_share_id r = ik_response_share_id k \<and>
        sv_created_by r = ik_actor_id k \<and> sw_tenant_id r = ik_tenant_id k) \<and>
     (\<forall>k \<in> set (db_idempotency d). \<forall>i. ik_operation k = ''share.rotate:'' @ i \<or> ik_operation k = ''share.revoke:'' @ i \<longrightarrow>
        ik_response_share_id k = i)"

text \<open>What a call relies on for both halves to agree.\<close>

fun parity_ready :: "share_env \<Rightarrow> share_op \<Rightarrow> share_db \<Rightarrow> bool" where
  "parity_ready e (Op_create p trip_id q key s1 s2 c) d \<longleftrightarrow> pr_tenant_id p \<noteq> [] \<and> sc_share_id c \<noteq> [] \<and>
     (\<forall>r \<in> set (db_shares d). sv_share_id r \<noteq> sc_share_id c \<and> sv_public_id r \<noteq> sc_public_id c) \<and>
     (\<forall>n \<in> set (db_snapshots d). sp_snapshot_id n \<noteq> sc_snapshot_id c) \<and>
     (case source e p trip_id q s1 s2 of Inl _ \<Rightarrow> True | Inr src \<Rightarrow>
        sc_current c = Some (Some (ab_artifact_id src), Some (ab_version src), PUBLISHED) \<and>
        project_share_snapshot (se_zones e) (sc_snapshot_id c) (sc_snapshot_now c) src (sc_public_id c) =
          Inr (shared_snapshot (sc_snapshot_id c) (sc_snapshot_now c) src (sc_public_id c)))"
| "parity_ready e (Op_list p trip_id s) d \<longleftrightarrow> (\<forall>r \<in> set (db_shares d). sv_trip_id r = trip_id \<longrightarrow> sw_tenant_id r = pr_tenant_id p)"
| "parity_ready e (Op_rotate p i expected key now) d \<longleftrightarrow> (\<forall>r \<in> set (db_shares d). sv_share_id r = i \<longrightarrow>
     (sv_created_by r = pr_user_id p \<longrightarrow> sw_tenant_id r = pr_tenant_id p) \<and> sw_failure_window_started_at r = None)"
| "parity_ready e (Op_revoke p i expected key now) d \<longleftrightarrow> (\<forall>r \<in> set (db_shares d). sv_share_id r = i \<longrightarrow>
     sv_created_by r = pr_user_id p \<longrightarrow> sw_tenant_id r = pr_tenant_id p)"
| "parity_ready e (Op_exchange pid secret now token) d \<longleftrightarrow>
     (\<forall>x \<in> set (db_sessions d). sx_session_hash x \<noteq> session_hash e token)"
| "parity_ready e (Op_snapshot pid token now) d \<longleftrightarrow> True"

lemma dget_rows: "dget (map (\<lambda>r. (key r, f r)) rows) k = map_option f (find (\<lambda>r. key r = k) rows)"
  by (induction rows) auto

lemma dset_new_row: "find (\<lambda>r. key r = k) rows = None \<Longrightarrow> dset k v (map (\<lambda>r. (key r, f r)) rows) = map (\<lambda>r. (key r, f r)) rows @ [(k, v)]"
  by (induction rows) (auto simp: dset_def split: if_splits)

lemma dset_row:
  assumes "distinct (map key rows)" and "r \<in> set rows" and "\<And>r. key (g r) = key r" and "\<And>r'. r' \<in> set rows \<Longrightarrow> key r' \<noteq> key r \<Longrightarrow> f (g r') = f r'"
    and "f (g r) = v"
  shows "dset (key r) v (map (\<lambda>r. (key r, f r)) rows) = map (\<lambda>r. (key r, f r)) (map g rows)"
  using assms(1,2,4)
proof (induction rows)
  case (Cons x rows)
  show ?case
  proof (cases "x = r")
    case True
    have "f (g r') = f r'" if "r' \<in> set rows" for r'
      using Cons.prems(1,3) that True by (auto simp: image_iff)
    with True assms(3,5) show ?thesis by (auto simp: dset_def)
  next
    case False
    with Cons.prems have "r \<in> set rows" "key x \<noteq> key r" by auto
    with Cons assms(3) show ?thesis by (auto simp: dset_def)
  qed
qed simp

lemma memory_eqI:
  assumes "sh_shares a = sh_shares b" "sh_public_ids a = sh_public_ids b" "sh_snapshots a = sh_snapshots b"
    "sh_sessions a = sh_sessions b" "sh_idempotency a = sh_idempotency b" "sh_failures a = sh_failures b"
  shows "a = (b :: share_service)"
  using assms by simp

lemma parity_invD:
  assumes "parity_inv d"
  shows "postgres_inv d" "distinct (map sv_share_id (db_shares d))" "distinct (map sv_public_id (db_shares d))"
    "distinct (map lk_public_id (db_lookup d))" "distinct (map sx_session_hash (db_sessions d))"
    "distinct (map sp_share_id (db_snapshots d))"
  using assms by (simp_all add: parity_inv_def postgres_inv_def)

section \<open>Reading\<close>

lemma sort_key_map: "sort_key f (map g xs) = map g (sort_key (f \<circ> g) xs)"
proof -
  have "insort_key f (g x) (map g ys) = map g (insort_key (f \<circ> g) x ys)" for x ys by (induction ys) simp_all
  then show ?thesis by (induction xs) simp_all
qed

lemma list_parity:
  assumes "parity_ready e (Op_list p trip_id s) d"
  shows "list_memory trip_id (memory_of d) = (fst (list_postgres p trip_id d), memory_of (snd (list_postgres p trip_id d)))"
proof -
  have "filter (\<lambda>r. sw_tenant_id r = pr_tenant_id p \<and> sv_trip_id r = trip_id) (db_shares d) =
      filter (\<lambda>r. sv_trip_id r = trip_id) (db_shares d)"
    using assms by (intro filter_cong) auto
  then show ?thesis by (simp add: list_memory_def list_postgres_def filter_map comp_def sort_key_map)
qed

lemma lookup_row:
  assumes "parity_inv d" and "find (\<lambda>l. lk_public_id l = pid) (db_lookup d) = Some l"
  obtains r where "r \<in> set (db_shares d)" "sv_share_id r = lk_share_id l" "sv_public_id r = pid" "sw_tenant_id r = lk_tenant_id l"
    "lk_tenant_id l \<noteq> []" "find_share (lk_tenant_id l) (\<lambda>r. sv_public_id r = pid) d = Some r"
    "find (\<lambda>r. sv_share_id r = lk_share_id l) (db_shares d) = Some r"
proof -
  note i = parity_invD [OF assms(1)]
  note l = find_SomeD [OF assms(2)]
  from l i(1) obtain r where r: "r \<in> set (db_shares d)" "sv_share_id r = lk_share_id l" "sv_public_id r = pid"
    "sw_tenant_id r = lk_tenant_id l" unfolding postgres_inv_def by metis
  have "find_share (lk_tenant_id l) (\<lambda>r. sv_public_id r = pid) d = Some r"
  proof (cases "find_share (lk_tenant_id l) (\<lambda>r. sv_public_id r = pid) d")
    case None
    with r show ?thesis by (auto simp: find_share_def find_None_iff)
  next
    case (Some r')
    note r' = find_share_Some [OF Some]
    with r i(3) have "r' = r" by (metis distinct_map inj_onD)
    with Some show ?thesis by simp
  qed
  moreover have "find (\<lambda>r. sv_share_id r = lk_share_id l) (db_shares d) = Some r"
    using i(2) r(1,2) by (rule find_key_eq)
  moreover have "lk_tenant_id l \<noteq> []" using assms(1) l by (auto simp: parity_inv_def)
  ultimately show thesis using r that by blast
qed

lemma no_empty_share: "parity_inv d \<Longrightarrow> find (\<lambda>r. sv_share_id r = []) (db_shares d) = None"
  by (auto simp: find_None_iff parity_inv_def)

lemma filter_unique:
  "distinct (map key xs) \<Longrightarrow> x \<in> set xs \<Longrightarrow> P x \<Longrightarrow> (\<And>y. y \<in> set xs \<Longrightarrow> P y \<Longrightarrow> key y = key x) \<Longrightarrow> filter P xs = [x]"
proof (induction xs)
  case (Cons y xs)
  show ?case
  proof (cases "y = x")
    case True
    have "\<not> P z" if "z \<in> set xs" for z
    proof
      assume "P z"
      with Cons.prems(4) [of z] that have "key z = key x" by simp
      with Cons.prems(1) that True show False by (auto simp: image_iff)
    qed
    then have "filter P xs = []" by (simp add: filter_empty_conv)
    with True Cons.prems(3) show ?thesis by simp
  next
    case False
    with Cons.prems have x: "x \<in> set xs" by simp
    have "\<not> P y"
    proof
      assume "P y"
      with Cons.prems(4) [of y] have "key y = key x" by simp
      with Cons.prems(1) x show False by (auto simp: image_iff)
    qed
    moreover have "filter P xs = [x]"
    proof (rule Cons.IH [OF _ x Cons.prems(3)])
      show "distinct (map key xs)" using Cons.prems(1) by simp
      show "key z = key x" if "z \<in> set xs" "P z" for z using Cons.prems(4) [of z] that by simp
    qed
    ultimately show ?thesis by simp
  qed
qed simp

lemma concat_if_filter: "concat (map (\<lambda>x. if P x then f x else []) xs) = concat (map f (filter P xs))"
  by (induction xs) simp_all

lemma snapshot_row:
  assumes "parity_inv d" and "r \<in> set (db_shares d)"
  obtains n where "n \<in> set (db_snapshots d)" "sp_share_id n = sv_share_id r" "sp_tenant_id n = sw_tenant_id r"
    "filter (\<lambda>n. sp_tenant_id n = sw_tenant_id r \<and> sp_share_id n = sv_share_id r) (db_snapshots d) = [n]"
proof -
  note i = parity_invD [OF assms(1)]
  from assms obtain n where n: "n \<in> set (db_snapshots d)" "sp_share_id n = sv_share_id r" unfolding parity_inv_def by metis
  from i(1) n(1) obtain r' where "r' \<in> set (db_shares d)" "sv_share_id r' = sp_share_id n" "sw_tenant_id r' = sp_tenant_id n"
    unfolding postgres_inv_def by metis
  with n(2) assms(2) i(2) have t: "sp_tenant_id n = sw_tenant_id r" by (metis distinct_map inj_onD)
  have "filter (\<lambda>m. sp_tenant_id m = sw_tenant_id r \<and> sp_share_id m = sv_share_id r) (db_snapshots d) = [n]"
    using i(6) n(1) by (rule filter_unique) (use n(2) t in auto)
  with n t that show thesis by blast
qed

lemma join_row:
  assumes "parity_inv d" and "r \<in> set (db_shares d)"
    and n: "filter (\<lambda>n. sp_tenant_id n = sw_tenant_id r \<and> sp_share_id n = sv_share_id r) (db_snapshots d) = [n]"
  shows "snapshot_join (sw_tenant_id r) (sv_public_id r) h d =
    (case find (\<lambda>x. sx_session_hash x = h) (db_sessions d) of
       None \<Rightarrow> [] | Some x \<Rightarrow> if sx_share_id x = sv_share_id r then [(r, x, n)] else [])"
proof -
  note i = parity_invD [OF assms(1)]
  have rows: "filter (\<lambda>r'. sw_tenant_id r' = sw_tenant_id r \<and> sv_public_id r' = sv_public_id r) (db_shares d) = [r]"
    using i(3) assms(2) by (rule filter_unique) auto
  let ?sessions = "filter (\<lambda>x. sx_tenant_id x = sw_tenant_id r \<and> sx_share_id x = sv_share_id r \<and> sx_session_hash x = h) (db_sessions d)"
  have "?sessions = (case find (\<lambda>x. sx_session_hash x = h) (db_sessions d) of
      None \<Rightarrow> [] | Some x \<Rightarrow> if sx_share_id x = sv_share_id r then [x] else [])"
  proof (cases "find (\<lambda>x. sx_session_hash x = h) (db_sessions d)")
    case None
    then have "?sessions = []" by (auto simp: find_None_iff filter_empty_conv)
    with None show ?thesis by simp
  next
    case (Some x)
    note x = find_SomeD [OF Some]
    show ?thesis
    proof (cases "sx_share_id x = sv_share_id r")
      case True
      have "?sessions = [x]"
        using i(5) conjunct1 [OF x]
        by (rule filter_unique) (use x True sessions_of_tenant [OF i(1) assms(2) _ True] in auto)
      with Some True show ?thesis by simp
    next
      case False
      have "?sessions = []"
        using x False i(5) by (auto simp: filter_empty_conv distinct_map inj_on_def)
      with Some False show ?thesis by simp
    qed
  qed
  then show ?thesis
    unfolding snapshot_join_def concat_if_filter rows by (simp add: concat_if_filter n split: option.split)
qed

lemma snapshot_parity:
  assumes "parity_inv d"
  shows "public_snapshot_memory e now pid token (memory_of d) =
    (fst (public_snapshot_postgres e now pid token d), memory_of (snd (public_snapshot_postgres e now pid token d)))"
proof (cases "find (\<lambda>l. lk_public_id l = pid) (db_lookup d)")
  case None
  then show ?thesis
    using no_empty_share [OF assms]
    by (simp add: public_snapshot_memory_def public_snapshot_postgres_def resolve_public_tenant_def dget_rows split: option.split prod.split)
next
  case (Some l)
  from lookup_row [OF assms Some] obtain r where r: "r \<in> set (db_shares d)" "sv_share_id r = lk_share_id l" "sv_public_id r = pid"
    "sw_tenant_id r = lk_tenant_id l" "lk_tenant_id l \<noteq> []" "find (\<lambda>r. sv_share_id r = lk_share_id l) (db_shares d) = Some r" by blast
  from snapshot_row [OF assms r(1)] obtain n where n: "n \<in> set (db_snapshots d)" "sp_share_id n = sv_share_id r"
    "filter (\<lambda>n. sp_tenant_id n = sw_tenant_id r \<and> sp_share_id n = sv_share_id r) (db_snapshots d) = [n]" by blast
  have snap: "find (\<lambda>n. sp_share_id n = lk_share_id l) (db_snapshots d) = Some n"
    using find_key_eq [OF parity_invD(6) [OF assms] n(1)] n(2) r(2) by simp
  note join = join_row [OF assms r(1) n(3), of "session_hash e token", unfolded r(3,4)]
  show ?thesis
    using Some r snap
    by (auto simp: public_snapshot_memory_def public_snapshot_postgres_def resolve_public_tenant_def dget_rows join
      split: option.split prod.split)
qed

section \<open>Updates of a share\<close>

lemma find_update_share:
  assumes "postgres_inv d" and "keeps_keys f" and "r \<in> set (db_shares d)" and "Q r"
  shows "find (\<lambda>r'. sv_share_id r' = i) (db_shares (update_share (sw_tenant_id r) (\<lambda>r'. sv_share_id r' = sv_share_id r \<and> Q r') f d)) =
    (if i = sv_share_id r then Some (f r) else find (\<lambda>r'. sv_share_id r' = i) (db_shares d))"
proof -
  define g where "g = (\<lambda>r'. if sw_tenant_id r' = sw_tenant_id r \<and> sv_share_id r' = sv_share_id r \<and> Q r' then f r' else r')"
  have k: "sv_share_id (g r') = sv_share_id r'" for r' using assms(2) by (simp add: keeps_keys_def g_def)
  have d: "distinct (map sv_share_id (db_shares d))" using assms(1) by (simp add: postgres_inv_def)
  have "find (\<lambda>r'. sv_share_id r' = i) (map g (db_shares d)) = map_option g (find (\<lambda>r'. sv_share_id r' = i) (db_shares d))"
    by (rule find_map_key) (rule k)
  also have "\<dots> = (if i = sv_share_id r then Some (f r) else find (\<lambda>r'. sv_share_id r' = i) (db_shares d))"
  proof (cases "i = sv_share_id r")
    case True
    with find_key [OF d assms(3)] assms(4) show ?thesis by (simp add: g_def)
  next
    case False
    then show ?thesis
      by (cases "find (\<lambda>r'. sv_share_id r' = i) (db_shares d)") (use False find_SomeD in \<open>fastforce simp: g_def\<close>)+
  qed
  finally show ?thesis by (simp add: update_share_def g_def)
qed

lemma shares_update_share:
  assumes "postgres_inv d" and "keeps_keys f" and "r \<in> set (db_shares d)" and "Q r"
  shows "map (\<lambda>r. (sv_share_id r, stored_share r))
      (db_shares (update_share (sw_tenant_id r) (\<lambda>r'. sv_share_id r' = sv_share_id r \<and> Q r') f d)) =
    dset (sv_share_id r) (stored_share (f r)) (map (\<lambda>r. (sv_share_id r, stored_share r)) (db_shares d))"
proof -
  define g where "g = (\<lambda>r'. if sw_tenant_id r' = sw_tenant_id r \<and> sv_share_id r' = sv_share_id r \<and> Q r' then f r' else r')"
  have "dset (sv_share_id r) (stored_share (f r)) (map (\<lambda>r. (sv_share_id r, stored_share r)) (db_shares d)) =
      map (\<lambda>r. (sv_share_id r, stored_share r)) (map g (db_shares d))"
  proof (rule dset_row)
    show "distinct (map sv_share_id (db_shares d))" using assms(1) by (simp add: postgres_inv_def)
  qed (use assms in \<open>simp_all add: g_def keeps_keys_def\<close>)
  then show ?thesis by (simp add: update_share_def g_def)
qed

lemma memory_of_failures:
  assumes "postgres_inv d" and "r \<in> set (db_shares d)" and "t = sw_tenant_id r" and "i = sv_share_id r"
  shows "memory_of (update_share t (\<lambda>r'. sv_share_id r' = i) (\<lambda>r. r\<lparr>sw_failed_attempts := a, sw_failure_window_started_at := w,
      sw_blocked_until := b\<rparr>) d) =
    (memory_of d)\<lparr>sh_failures := (sh_failures (memory_of d))(i := map_option (\<lambda>w. (a, w, b)) w)\<rparr>"
proof -
  let ?f = "\<lambda>r. r\<lparr>sw_failed_attempts := a, sw_failure_window_started_at := w, sw_blocked_until := b\<rparr> :: ShareRow"
  let ?d = "update_share t (\<lambda>r'. sv_share_id r' = i) ?f d"
  have k: "keeps_keys ?f" by (simp add: keeps_keys_def)
  note f = find_update_share [OF assms(1) k assms(2), where Q = "\<lambda>_. True", folded assms(3,4), simplified]
  have "map (\<lambda>r. (sv_share_id r, stored_share r)) (db_shares ?d) = map (\<lambda>r. (sv_share_id r, stored_share r)) (db_shares d)"
    by (simp add: update_share_def stored_share_def view_of_def ShareView.truncate_def)
  moreover have "postgres_access ?d = postgres_access d" using assms(1) by simp
  moreover have "find_idempotency scope ?d = find_idempotency scope d" for scope
    by (simp add: find_idempotency_def update_share_def)
  ultimately show ?thesis
    by (intro memory_eqI) (simp_all add: f fun_eq_iff failure_record_def)
qed

lemma memory_of_session:
  assumes "\<forall>x' \<in> set (db_sessions d). sx_session_hash x' \<noteq> sx_session_hash x"
  shows "memory_of (d\<lparr>db_sessions := db_sessions d @ [x]\<rparr>) =
    (memory_of d)\<lparr>sh_sessions := (sh_sessions (memory_of d))(sx_session_hash x \<mapsto> (sx_share_id x, sx_capability_epoch x, sx_expires_at x))\<rparr>"
  using find_None_key [OF assms]
  by (intro memory_eqI) (auto simp: find_snoc fun_eq_iff find_idempotency_def split: option.split)

lemma exchange_parity:
  assumes "parity_inv d" and "parity_ready e (Op_exchange pid secret now token) d"
  shows "exchange_memory e now token pid secret (memory_of d) =
    (fst (exchange_postgres e now token pid secret d), memory_of (snd (exchange_postgres e now token pid secret d)))"
proof (cases "find (\<lambda>l. lk_public_id l = pid) (db_lookup d)")
  case None
  then show ?thesis
    using no_empty_share [OF assms(1)]
    by (simp add: exchange_memory_def exchange_postgres_def resolve_public_tenant_def dget_rows)
next
  case (Some l)
  from lookup_row [OF assms(1) Some] obtain r where r: "r \<in> set (db_shares d)" "sv_share_id r = lk_share_id l" "sv_public_id r = pid"
    "sw_tenant_id r = lk_tenant_id l" "lk_tenant_id l \<noteq> []" "find_share (lk_tenant_id l) (\<lambda>r. sv_public_id r = pid) d = Some r"
    "find (\<lambda>r. sv_share_id r = lk_share_id l) (db_shares d) = Some r" by blast
  note i = parity_invD [OF assms(1)]
  note mf = memory_of_failures [OF i(1) r(1) r(4) [symmetric] r(2) [symmetric]]
  have new: "\<not> list_ex (\<lambda>x'. session_hash e token = sx_session_hash x') (db_sessions d)"
    using assms(2) by (auto simp: list_ex_iff)
  have block: "sw_failure_window_started_at r = None \<Longrightarrow> sw_blocked_until r = None"
    using assms(1) r(1) by (auto simp: parity_inv_def)
  note m = exchange_memory_def dget_rows Some r(7)
  note p = exchange_postgres_def resolve_public_tenant_def Some r(6) r(5)
  show ?thesis
  proof (cases "sv_status r = Share_active \<and> \<not> (sw_blocked_until r \<noteq> None \<and> the (sw_blocked_until r) > now)")
    case False
    then show ?thesis
      using block by (cases "sw_failure_window_started_at r") (auto simp: m p failure_record_def r(2))
  next
    case unblocked: True
    show ?thesis
    proof (cases "capability_hash e pid secret = sw_capability_secret_hash r")
      case True
      let ?u = "update_share (lk_tenant_id l) (\<lambda>r'. sv_share_id r' = lk_share_id l)
        (\<lambda>r. r\<lparr>sw_failed_attempts := 0, sw_failure_window_started_at := None, sw_blocked_until := None\<rparr>) d"
      let ?x = "\<lparr>sx_session_hash = session_hash e token, sx_tenant_id = lk_tenant_id l, sx_share_id = lk_share_id l,
        sx_capability_epoch = sv_capability_epoch r, sx_created_at = now, sx_expires_at = now + SESSION_TIME\<rparr>"
      have u: "db_sessions ?u = db_sessions d" by (simp add: update_share_def)
      have "memory_of (?u\<lparr>db_sessions := db_sessions d @ [?x]\<rparr>) = (memory_of ?u)\<lparr>sh_sessions := (sh_sessions (memory_of ?u))
          (session_hash e token \<mapsto> (lk_share_id l, sv_capability_epoch r, now + SESSION_TIME))\<rparr>"
        using memory_of_session [of ?u ?x] assms(2) by (simp add: u)
      then have mem: "memory_of (?u\<lparr>db_sessions := db_sessions d @ [?x]\<rparr>) =
          (memory_of d)\<lparr>sh_failures := (sh_failures (memory_of d))(lk_share_id l := None), sh_sessions := (sh_sessions (memory_of d))
             (session_hash e token \<mapsto> (lk_share_id l, sv_capability_epoch r, now + SESSION_TIME))\<rparr>"
        unfolding mf by simp
      have "exchange_postgres e now token pid secret d = (Inr \<lparr>xr_session_token = token, xr_expires_at = now + SESSION_TIME\<rparr>,
          ?u\<lparr>db_sessions := db_sessions d @ [?x]\<rparr>)"
        using True unblocked new by (auto simp: p insert_unique_def r(2))
      moreover have "exchange_memory e now token pid secret (memory_of d) =
          (Inr \<lparr>xr_session_token = token, xr_expires_at = now + SESSION_TIME\<rparr>,
           (memory_of d)\<lparr>sh_failures := (sh_failures (memory_of d))(lk_share_id l := None), sh_sessions := (sh_sessions (memory_of d))
             (session_hash e token \<mapsto> (lk_share_id l, sv_capability_epoch r, now + SESSION_TIME))\<rparr>)"
        using True unblocked block
        by (cases "sw_failure_window_started_at r") (auto simp: m failure_record_def Let_def)
      ultimately show ?thesis unfolding mem [symmetric] by simp
    next
      case False
      with unblocked block show ?thesis
        by (cases "sw_failure_window_started_at r")
          (auto simp: m p failure_record_def r(2) mf failed_again_def Let_def)
    qed
  qed
qed

section \<open>Rotation and revocation\<close>

lemma find_idempotency_snoc:
  "find_idempotency scope (d\<lparr>db_idempotency := db_idempotency d @ [k]\<rparr>) =
    (case find_idempotency scope d of None \<Rightarrow> if idempotency_scope k = scope then Some k else None | Some k' \<Rightarrow> Some k')"
  by (simp add: find_idempotency_def find_snoc)

lemma idempotency_row_simps [simp]:
  "idempotency_scope (idempotency_row scope h i v n now) = scope" "ik_request_hash (idempotency_row scope h i v n now) = h"
  "ik_response_share_id (idempotency_row scope h i v n now) = i" "ik_response_version (idempotency_row scope h i v n now) = v"
  "ik_response_epoch (idempotency_row scope h i v n now) = n" "ik_tenant_id (idempotency_row scope h i v n now) = fst scope"
  "ik_actor_id (idempotency_row scope h i v n now) = fst (snd scope)"
  "ik_operation (idempotency_row scope h i v n now) = fst (snd (snd scope))"
  by (simp_all add: idempotency_row_def idempotency_scope_def split: prod.split)

lemma memory_of_change:
  assumes "postgres_inv d" and "r \<in> set (db_shares d)" and "pr_tenant_id p = sw_tenant_id r" and "i = sv_share_id r"
    and "keeps_keys f" and "failure_record (f r) = failure_record r" and "find_idempotency (idempotency_scope k) d = None"
  shows "memory_of (change_share p i (sv_version r) f k d) =
    (memory_of d)\<lparr>sh_shares := dset i (stored_share (f r)) (sh_shares (memory_of d)),
      sh_sessions := drop_sessions i (sh_sessions (memory_of d)),
      sh_idempotency := (sh_idempotency (memory_of d))(idempotency_scope k \<mapsto>
        (ik_request_hash k, ik_response_share_id k, ik_response_version k, ik_response_epoch k))\<rparr>"
proof -
  let ?u = "update_share (sw_tenant_id r) (\<lambda>r'. sv_share_id r' = sv_share_id r \<and> sv_version r' = sv_version r) f d"
  let ?v = "delete_sessions (sw_tenant_id r) (sv_share_id r) ?u"
  have c: "change_share p i (sv_version r) f k d = ?v\<lparr>db_idempotency := db_idempotency ?v @ [k]\<rparr>"
    by (simp add: change_share_def assms(3,4) Let_def)
  note find = find_update_share [OF assms(1,5,2), where Q = "\<lambda>r'. sv_version r' = sv_version r", OF refl]
  note shares = shares_update_share [OF assms(1,5,2), where Q = "\<lambda>r'. sv_version r' = sv_version r", OF refl]
  have u: "postgres_inv ?u" by (rule postgres_inv_update [OF assms(1,5)])
  have "f r \<in> set (db_shares ?u)" using assms(2) by (auto simp: update_share_def intro!: image_eqI [of _ _ r])
  from access_delete_sessions [OF u this] assms(5)
  have sess: "ax_sessions (postgres_access ?v) = drop_sessions (sv_share_id r) (ax_sessions (postgres_access d))"
    by (simp add: keeps_keys_def del: postgres_access_simps)
  have same: "db_shares ?v = db_shares ?u" "find_idempotency scope ?v = find_idempotency scope d" for scope
    by (simp_all add: delete_sessions_def update_share_def find_idempotency_def)
  have fails: "(\<lambda>j. Option.bind (find (\<lambda>r. sv_share_id r = j) (db_shares ?u)) failure_record) =
      (\<lambda>j. Option.bind (find (\<lambda>r. sv_share_id r = j) (db_shares d)) failure_record)"
    using find_key [OF _ assms(2), of sv_share_id] assms(1,6) by (auto simp: find fun_eq_iff postgres_inv_def)
  show ?thesis
    unfolding c using assms(4,7)
    by (intro memory_eqI)
      (auto simp: same fails sess shares find_idempotency_snoc fun_eq_iff simp del: postgres_access_simps split: option.split)
qed

lemma own_row:
  assumes "parity_inv d" and "\<forall>r \<in> set (db_shares d). sv_share_id r = i \<longrightarrow> sv_created_by r = pr_user_id p \<longrightarrow> sw_tenant_id r = pr_tenant_id p"
  shows "find_share (pr_tenant_id p) (\<lambda>r. sv_share_id r = i \<and> sv_created_by r = pr_user_id p) d =
    (case find (\<lambda>r. sv_share_id r = i) (db_shares d) of
       None \<Rightarrow> None | Some r \<Rightarrow> if sv_created_by r = pr_user_id p then Some r else None)"
proof (cases "find (\<lambda>r. sv_share_id r = i) (db_shares d)")
  case None
  then have "find_share (pr_tenant_id p) (\<lambda>r. sv_share_id r = i \<and> sv_created_by r = pr_user_id p) d = None"
    by (auto simp: find_share_def find_None_iff)
  with None show ?thesis by simp
next
  case (Some r)
  note r = find_SomeD [OF Some]
  have u: "r' = r" if "r' \<in> set (db_shares d)" "sv_share_id r' = i" for r'
    using that r parity_invD(2) [OF assms(1)] by (metis distinct_map inj_onD)
  show ?thesis
  proof (cases "find_share (pr_tenant_id p) (\<lambda>r. sv_share_id r = i \<and> sv_created_by r = pr_user_id p) d")
    case None
    with Some r assms(2) show ?thesis by (auto simp: find_share_def find_None_iff)
  next
    case (Some r')
    note r' = find_share_Some [OF Some]
    with u have "r' = r" by blast
    with Some r' \<open>find _ (db_shares d) = _\<close> show ?thesis by simp
  qed
qed

text \<open>A replay of a change belongs to the owner of the share.\<close>

lemma replay_row:
  assumes "parity_inv d" and "find_idempotency (pr_tenant_id p, pr_user_id p, operation, key) d = Some k"
    and "operation = ''share.rotate:'' @ i \<or> operation = ''share.revoke:'' @ i"
  shows "ik_response_share_id k = i"
    and "\<exists>r. find (\<lambda>r. sv_share_id r = i) (db_shares d) = Some r \<and> sv_created_by r = pr_user_id p"
proof -
  have k: "k \<in> set (db_idempotency d)" "ik_tenant_id k = pr_tenant_id p" "ik_actor_id k = pr_user_id p" "ik_operation k = operation"
    using find_SomeD [OF assms(2) [unfolded find_idempotency_def]] by (simp_all add: idempotency_scope_def)
  then show i: "ik_response_share_id k = i" using assms(1,3) unfolding parity_inv_def by blast
  have "\<forall>k \<in> set (db_idempotency d). \<exists>r \<in> set (db_shares d). sv_share_id r = ik_response_share_id k \<and> sv_created_by r = ik_actor_id k \<and>
      sw_tenant_id r = ik_tenant_id k" using assms(1) unfolding parity_inv_def by blast
  from bspec [OF this k(1)] obtain r where r: "r \<in> set (db_shares d)" "sv_share_id r = i" "sv_created_by r = pr_user_id p"
    unfolding i k(3) by blast
  from find_key_eq [OF parity_invD(2) [OF assms(1)] r(1,2)] r(3)
  show "\<exists>r. find (\<lambda>r. sv_share_id r = i) (db_shares d) = Some r \<and> sv_created_by r = pr_user_id p" by blast
qed

lemma rotate_parity:
  assumes "parity_inv d" and "parity_ready e (Op_rotate p i expected key now) d"
  shows "rotate_memory e now p i expected key h (memory_of d) =
    (fst (rotate_postgres e now p i expected key h d), memory_of (snd (rotate_postgres e now p i expected key h d)))"
proof (cases "find_idempotency (pr_tenant_id p, pr_user_id p, ''share.rotate:'' @ i, key) d")
  case (Some k)
  from replay_row [OF assms(1) this] obtain r where "ik_response_share_id k = i" "find (\<lambda>r. sv_share_id r = i) (db_shares d) = Some r"
    "sv_created_by r = pr_user_id p" by blast
  with Some own_row [OF assms(1), of i p] assms(2) show ?thesis
    by (simp add: rotate_memory_def rotate_postgres_def dget_rows)
next
  case None
  note own = own_row [OF assms(1), of i p]
  show ?thesis
  proof (cases "find (\<lambda>r. sv_share_id r = i) (db_shares d)")
    case None
    with \<open>find_idempotency _ d = None\<close> own assms(2) show ?thesis
      by (simp add: rotate_memory_def rotate_postgres_def dget_rows)
  next
    case (Some r)
    note r = find_SomeD [OF Some]
    show ?thesis
    proof (cases "sv_created_by r = pr_user_id p \<and> sv_status r = Share_active \<and> sv_version r = expected")
      case False
      with Some \<open>find_idempotency _ d = None\<close> own assms(2) show ?thesis
        by (auto simp: rotate_memory_def rotate_postgres_def dget_rows)
    next
      case True
      let ?secret = "derive_secret e ''share.rotate'' p key h i (sv_capability_epoch r + 1)"
      let ?f = "\<lambda>r'. r'\<lparr>sv_version := sv_version r + 1, sv_capability_epoch := sv_capability_epoch r + 1,
        sw_capability_secret_hash := capability_hash e (sv_public_id r) ?secret, sw_failed_attempts := 0,
        sw_failure_window_started_at := None, sw_blocked_until := None, sv_updated_at := now\<rparr>"
      let ?k = "idempotency_row (pr_tenant_id p, pr_user_id p, ''share.rotate:'' @ i, key) h i (sv_version r + 1)
        (sv_capability_epoch r + 1) now"
      have "memory_of (change_share p i (sv_version r) ?f ?k d) =
          (memory_of d)\<lparr>sh_shares := dset i (stored_share (?f r)) (sh_shares (memory_of d)),
            sh_sessions := drop_sessions i (sh_sessions (memory_of d)),
            sh_idempotency := (sh_idempotency (memory_of d))(idempotency_scope ?k \<mapsto>
              (ik_request_hash ?k, ik_response_share_id ?k, ik_response_version ?k, ik_response_epoch ?k))\<rparr>"
        by (rule memory_of_change)
          (use parity_invD(1) [OF assms(1)] r assms(2) True \<open>find_idempotency _ d = None\<close> in
            \<open>auto simp: keeps_keys_def failure_record_def\<close>)
      note mem = this [unfolded idempotency_row_simps]
      let ?v = "(view_of r)\<lparr>sv_version := sv_version r + 1, sv_capability_epoch := sv_capability_epoch r + 1, sv_updated_at := now\<rparr>"
      have f: "stored_share (?f r) = \<lparr>ms_view = ?v, ms_secret_hash = capability_hash e (sv_public_id r) ?secret\<rparr>" "view_of (?f r) = ?v"
        by (simp_all add: stored_share_def view_of_def ShareView.truncate_def)
      have pg: "rotate_postgres e now p i expected key h d =
          (Inr \<lparr>mu_share = ?v, mu_capability_secret = Some ?secret, mu_replayed = False\<rparr>, change_share p i (sv_version r) ?f ?k d)"
        unfolding f(2) [symmetric]
        using True Some \<open>find_idempotency _ d = None\<close> own assms(2) by (simp add: rotate_postgres_def Let_def)
      show ?thesis
        unfolding pg fst_conv snd_conv mem f(1)
        using True Some \<open>find_idempotency _ d = None\<close> by (simp add: rotate_memory_def dget_rows Let_def)
    qed
  qed
qed

lemma revoke_parity:
  assumes "parity_inv d" and "parity_ready e (Op_revoke p i expected key now) d"
  shows "revoke_memory now p i expected key h (memory_of d) =
    (fst (revoke_postgres now p i expected key h d), memory_of (snd (revoke_postgres now p i expected key h d)))"
proof (cases "find_idempotency (pr_tenant_id p, pr_user_id p, ''share.revoke:'' @ i, key) d")
  case (Some k)
  from replay_row [OF assms(1) this] obtain r where "find (\<lambda>r. sv_share_id r = i) (db_shares d) = Some r"
    "sv_created_by r = pr_user_id p" by blast
  with Some own_row [OF assms(1), of i p] assms(2) show ?thesis
    by (simp add: revoke_memory_def revoke_postgres_def dget_rows)
next
  case None
  note own = own_row [OF assms(1), of i p]
  show ?thesis
  proof (cases "find (\<lambda>r. sv_share_id r = i) (db_shares d)")
    case None
    with \<open>find_idempotency _ d = None\<close> own assms(2) show ?thesis
      by (simp add: revoke_memory_def revoke_postgres_def dget_rows)
  next
    case (Some r)
    note r = find_SomeD [OF Some]
    show ?thesis
    proof (cases "sv_created_by r = pr_user_id p \<and> sv_status r = Share_active \<and> sv_version r = expected")
      case False
      with Some \<open>find_idempotency _ d = None\<close> own assms(2) show ?thesis
        by (auto simp: revoke_memory_def revoke_postgres_def dget_rows)
    next
      case True
      let ?f = "\<lambda>r'. r'\<lparr>sv_status := Share_revoked, sv_version := sv_version r + 1,
        sv_capability_epoch := sv_capability_epoch r + 1, sv_updated_at := now, sv_revoked_at := Some now\<rparr>"
      let ?k = "idempotency_row (pr_tenant_id p, pr_user_id p, ''share.revoke:'' @ i, key) h i (sv_version r + 1)
        (sv_capability_epoch r + 1) now"
      have "memory_of (change_share p i (sv_version r) ?f ?k d) =
          (memory_of d)\<lparr>sh_shares := dset i (stored_share (?f r)) (sh_shares (memory_of d)),
            sh_sessions := drop_sessions i (sh_sessions (memory_of d)),
            sh_idempotency := (sh_idempotency (memory_of d))(idempotency_scope ?k \<mapsto>
              (ik_request_hash ?k, ik_response_share_id ?k, ik_response_version ?k, ik_response_epoch ?k))\<rparr>"
        by (rule memory_of_change)
          (use parity_invD(1) [OF assms(1)] r assms(2) True \<open>find_idempotency _ d = None\<close> in
            \<open>auto simp: keeps_keys_def failure_record_def\<close>)
      note mem = this [unfolded idempotency_row_simps]
      let ?v = "(view_of r)\<lparr>sv_status := Share_revoked, sv_version := sv_version r + 1,
        sv_capability_epoch := sv_capability_epoch r + 1, sv_updated_at := now, sv_revoked_at := Some now\<rparr>"
      have f: "stored_share (?f r) = \<lparr>ms_view = ?v, ms_secret_hash = sw_capability_secret_hash r\<rparr>" "view_of (?f r) = ?v"
        by (simp_all add: stored_share_def view_of_def ShareView.truncate_def)
      have pg: "revoke_postgres now p i expected key h d =
          (Inr \<lparr>mu_share = ?v, mu_capability_secret = None, mu_replayed = False\<rparr>, change_share p i (sv_version r) ?f ?k d)"
        unfolding f(2) [symmetric]
        using True Some \<open>find_idempotency _ d = None\<close> own assms(2) by (simp add: revoke_postgres_def Let_def)
      show ?thesis
        unfolding pg fst_conv snd_conv mem f(1)
        using True Some \<open>find_idempotency _ d = None\<close> by (simp add: revoke_memory_def dget_rows Let_def)
    qed
  qed
qed

section \<open>Creation\<close>

lemma insert_share_fresh:
  assumes "postgres_inv d" and "parity_ready e (Op_create p trip_id q key s1 s2 c) d" and "source e p trip_id q s1 s2 = Inr src"
  shows "insert_share e c p trip_id src secret (d\<lparr>db_idempotency := ks\<rparr>) =
    Inr (d\<lparr>db_idempotency := ks, db_shares := db_shares d @ [share_row e c p trip_id src secret],
       db_lookup := db_lookup d @ [\<lparr>lk_public_id = sc_public_id c, lk_tenant_id = pr_tenant_id p, lk_share_id = sc_share_id c\<rparr>],
       db_snapshots := db_snapshots d @ [\<lparr>sp_snapshot_id = sc_snapshot_id c, sp_tenant_id = pr_tenant_id p, sp_share_id = sc_share_id c,
         sp_snapshot = shared_snapshot (sc_snapshot_id c) (sc_snapshot_now c) src (sc_public_id c), sp_created_at = sc_now c\<rparr>]\<rparr>)"
proof -
  have r: "\<forall>r \<in> set (db_shares d). sv_share_id r \<noteq> sc_share_id c \<and> sv_public_id r \<noteq> sc_public_id c"
    and n: "\<forall>n \<in> set (db_snapshots d). sp_snapshot_id n \<noteq> sc_snapshot_id c"
    and s: "project_share_snapshot (se_zones e) (sc_snapshot_id c) (sc_snapshot_now c) src (sc_public_id c) =
      Inr (shared_snapshot (sc_snapshot_id c) (sc_snapshot_now c) src (sc_public_id c))"
    using assms(2,3) by auto
  have l: "\<forall>l \<in> set (db_lookup d). lk_public_id l \<noteq> sc_public_id c \<and> lk_share_id l \<noteq> sc_share_id c"
    using assms(1) r unfolding postgres_inv_def by metis
  have n': "\<forall>n \<in> set (db_snapshots d). sp_share_id n \<noteq> sc_share_id c"
    using assms(1) r unfolding postgres_inv_def by metis
  have a: "ab_artifact_id (shared_snapshot (sc_snapshot_id c) (sc_snapshot_now c) src (sc_public_id c)) = sc_snapshot_id c"
    by (simp add: shared_snapshot_def)
  have u: "insert_unique same x xs = Inr (xs @ [x])" if "\<forall>y \<in> set xs. \<not> same x y" for same x and xs :: "'r list"
    using that by (auto simp: insert_unique_def list_ex_iff)
  have "insert_unique (\<lambda>r r'. sv_share_id r = sv_share_id r' \<or> sv_public_id r = sv_public_id r') (share_row e c p trip_id src secret) (db_shares d) =
      Inr (db_shares d @ [share_row e c p trip_id src secret])"
    by (rule u) (use r in force)
  moreover have "insert_unique (\<lambda>r r'. lk_public_id r = lk_public_id r' \<or> lk_share_id r = lk_share_id r')
      \<lparr>lk_public_id = sc_public_id c, lk_tenant_id = pr_tenant_id p, lk_share_id = sc_share_id c\<rparr> (db_lookup d) =
      Inr (db_lookup d @ [\<lparr>lk_public_id = sc_public_id c, lk_tenant_id = pr_tenant_id p, lk_share_id = sc_share_id c\<rparr>])"
    by (rule u) (use l in force)
  moreover have "insert_unique (\<lambda>r r'. sp_snapshot_id r = sp_snapshot_id r' \<or> sp_share_id r = sp_share_id r') x (db_snapshots d) =
      Inr (db_snapshots d @ [x])" if "sp_snapshot_id x = sc_snapshot_id c" "sp_share_id x = sc_share_id c" for x
    by (rule u) (use n n' that in force)
  ultimately show ?thesis by (simp add: insert_share_def s a flip: share_row_def)
qed

lemma create_parity:
  assumes "parity_inv d" and ready: "parity_ready e (Op_create p trip_id q key s1 s2 c) d" and src: "source e p trip_id q s1 s2 = Inr src"
  shows "create_memory e c p trip_id src h key (memory_of d) =
    (fst (create_postgres e c p trip_id src h key d), memory_of (snd (create_postgres e c p trip_id src h key d)))"
proof (cases "find_idempotency (pr_tenant_id p, pr_user_id p, ''share.create'', key) d")
  case (Some k)
  have k: "k \<in> set (db_idempotency d)" "ik_tenant_id k = pr_tenant_id p"
    using find_SomeD [OF Some [unfolded find_idempotency_def]] by (simp_all add: idempotency_scope_def)
  have "\<forall>k \<in> set (db_idempotency d). \<exists>r \<in> set (db_shares d). sv_share_id r = ik_response_share_id k \<and> sv_created_by r = ik_actor_id k \<and>
      sw_tenant_id r = ik_tenant_id k" using assms(1) unfolding parity_inv_def by blast
  from bspec [OF this k(1)] obtain r where r: "r \<in> set (db_shares d)" "sv_share_id r = ik_response_share_id k" "sw_tenant_id r = pr_tenant_id p"
    unfolding k(2) by blast
  note f = find_key_eq [OF parity_invD(2) [OF assms(1)] r(1,2)]
  have "find_share (pr_tenant_id p) (\<lambda>r. sv_share_id r = ik_response_share_id k) d = Some r"
  proof (cases "find_share (pr_tenant_id p) (\<lambda>r. sv_share_id r = ik_response_share_id k) d")
    case None
    with r show ?thesis by (auto simp: find_share_def find_None_iff)
  next
    case (Some r')
    note r' = find_share_Some [OF Some]
    with r parity_invD(2) [OF assms(1)] have "r' = r" by (metis distinct_map inj_onD)
    with Some show ?thesis by simp
  qed
  with Some f show ?thesis by (simp add: create_memory_def create_postgres_def dget_rows)
next
  case None
  let ?scope = "(pr_tenant_id p, pr_user_id p, ''share.create'', key)"
  let ?secret = "derive_secret e ''share.create'' p key h (sc_share_id c) 1"
  let ?n = "shared_snapshot (sc_snapshot_id c) (sc_snapshot_now c) src (sc_public_id c)"
  let ?d = "d\<lparr>db_idempotency := db_idempotency d @ [idempotency_row ?scope h (sc_share_id c) 1 1 (sc_now c)],
     db_shares := db_shares d @ [share_row e c p trip_id src ?secret],
     db_lookup := db_lookup d @ [\<lparr>lk_public_id = sc_public_id c, lk_tenant_id = pr_tenant_id p, lk_share_id = sc_share_id c\<rparr>],
     db_snapshots := db_snapshots d @ [\<lparr>sp_snapshot_id = sc_snapshot_id c, sp_tenant_id = pr_tenant_id p, sp_share_id = sc_share_id c,
         sp_snapshot = ?n, sp_created_at = sc_now c\<rparr>]\<rparr>"
  have r: "\<forall>r \<in> set (db_shares d). sv_share_id r \<noteq> sc_share_id c \<and> sv_public_id r \<noteq> sc_public_id c"
    and s: "project_share_snapshot (se_zones e) (sc_snapshot_id c) (sc_snapshot_now c) src (sc_public_id c) = Inr ?n"
    and cur: "sc_current c = Some (Some (ab_artifact_id src), Some (ab_version src), PUBLISHED)" using ready src by auto
  note i = parity_invD(1) [OF assms(1)]
  have new: "find (\<lambda>r. sv_share_id r = sc_share_id c) (db_shares d) = None" "find (\<lambda>l. lk_public_id l = sc_public_id c) (db_lookup d) = None"
    "find (\<lambda>n. sp_share_id n = sc_share_id c) (db_snapshots d) = None"
    using r i unfolding postgres_inv_def by (auto intro!: find_None_key)
  have pg: "create_postgres e c p trip_id src h key d =
      (Inr \<lparr>mu_share = new_share_view p trip_id src c, mu_capability_secret = Some ?secret, mu_replayed = False\<rparr>, ?d)"
    using None cur by (simp add: create_postgres_def Let_def insert_share_fresh [OF i ready src])
  have shares: "map (\<lambda>r. (sv_share_id r, stored_share r)) (db_shares ?d) =
      dset (sc_share_id c) \<lparr>ms_view = new_share_view p trip_id src c, ms_secret_hash = capability_hash e (sc_public_id c) ?secret\<rparr>
        (map (\<lambda>r. (sv_share_id r, stored_share r)) (db_shares d))"
    by (simp add: dset_new_row [OF new(1)] stored_share_def)
  have mem: "memory_of ?d = (memory_of d)\<lparr>
      sh_shares := dset (sc_share_id c) \<lparr>ms_view = new_share_view p trip_id src c, ms_secret_hash = capability_hash e (sc_public_id c) ?secret\<rparr>
        (sh_shares (memory_of d)),
      sh_public_ids := (sh_public_ids (memory_of d))(sc_public_id c \<mapsto> sc_share_id c),
      sh_snapshots := (sh_snapshots (memory_of d))(sc_share_id c \<mapsto> ?n),
      sh_idempotency := (sh_idempotency (memory_of d))(?scope \<mapsto> (h, sc_share_id c, 1, 1))\<rparr>"
  proof (rule memory_eqI)
    show "sh_failures (memory_of ?d) = sh_failures ((memory_of d)\<lparr>
      sh_shares := dset (sc_share_id c) \<lparr>ms_view = new_share_view p trip_id src c, ms_secret_hash = capability_hash e (sc_public_id c) ?secret\<rparr>
        (sh_shares (memory_of d)),
      sh_public_ids := (sh_public_ids (memory_of d))(sc_public_id c \<mapsto> sc_share_id c),
      sh_snapshots := (sh_snapshots (memory_of d))(sc_share_id c \<mapsto> ?n),
      sh_idempotency := (sh_idempotency (memory_of d))(?scope \<mapsto> (h, sc_share_id c, 1, 1))\<rparr>)"
      using new(1) by (auto simp: find_snoc fun_eq_iff failure_record_def split: option.split)
  qed (use new None shares in \<open>auto simp: find_snoc find_idempotency_def fun_eq_iff split: option.split\<close>)
  show ?thesis
    unfolding pg fst_conv snd_conv mem using None by (simp add: create_memory_def Let_def s)
qed

section \<open>The invariant\<close>

definition owners_kept :: "share_db \<Rightarrow> share_db \<Rightarrow> bool" where
  "owners_kept d d' \<longleftrightarrow> (\<forall>r \<in> set (db_shares d). \<exists>r' \<in> set (db_shares d'). sv_share_id r' = sv_share_id r \<and>
     sv_created_by r' = sv_created_by r \<and> sw_tenant_id r' = sw_tenant_id r)"

lemma parity_inv_rows:
  assumes "parity_inv d" and "postgres_inv d'" and "owners_kept d d'"
    and "\<forall>r \<in> set (db_shares d'). sv_share_id r \<noteq> [] \<and> (sw_failure_window_started_at r = None \<longrightarrow> sw_blocked_until r = None) \<and>
      (\<exists>n \<in> set (db_snapshots d'). sp_share_id n = sv_share_id r)"
    and "\<forall>l \<in> set (db_lookup d'). l \<in> set (db_lookup d) \<or> lk_tenant_id l \<noteq> []"
    and "\<forall>k \<in> set (db_idempotency d'). k \<in> set (db_idempotency d) \<or>
      (\<exists>r \<in> set (db_shares d'). sv_share_id r = ik_response_share_id k \<and> sv_created_by r = ik_actor_id k \<and> sw_tenant_id r = ik_tenant_id k) \<and>
      (\<forall>i. ik_operation k = ''share.rotate:'' @ i \<or> ik_operation k = ''share.revoke:'' @ i \<longrightarrow> ik_response_share_id k = i)"
  shows "parity_inv d'"
proof -
  have "\<exists>r \<in> set (db_shares d'). sv_share_id r = ik_response_share_id k \<and> sv_created_by r = ik_actor_id k \<and> sw_tenant_id r = ik_tenant_id k"
    if "k \<in> set (db_idempotency d')" for k
  proof (cases "k \<in> set (db_idempotency d)")
    case True
    with assms(1) obtain r where "r \<in> set (db_shares d)" "sv_share_id r = ik_response_share_id k" "sv_created_by r = ik_actor_id k"
      "sw_tenant_id r = ik_tenant_id k" unfolding parity_inv_def by blast
    with assms(3) show ?thesis unfolding owners_kept_def by metis
  next
    case False
    with assms(6) that show ?thesis by blast
  qed
  moreover have "lk_tenant_id l \<noteq> []" if "l \<in> set (db_lookup d')" for l
    using assms(1,5) that unfolding parity_inv_def by blast
  moreover have "\<forall>k \<in> set (db_idempotency d'). \<forall>i. ik_operation k = ''share.rotate:'' @ i \<or> ik_operation k = ''share.revoke:'' @ i \<longrightarrow>
      ik_response_share_id k = i"
    using assms(1,6) unfolding parity_inv_def by blast
  ultimately show ?thesis using assms(2,4) unfolding parity_inv_def by simp
qed

lemma owners_kept_update:
  assumes "keeps_keys f" and "\<forall>r. sv_created_by (f r) = sv_created_by r"
  shows "owners_kept d (update_share t P f d)"
  unfolding owners_kept_def
proof
  fix r
  assume r: "r \<in> set (db_shares d)"
  define g where "g = (\<lambda>r. if sw_tenant_id r = t \<and> P r then f r else r)"
  have "g r \<in> set (db_shares (update_share t P f d))" using r by (simp add: update_share_def flip: g_def)
  moreover have "sv_share_id (g r) = sv_share_id r \<and> sv_created_by (g r) = sv_created_by r \<and> sw_tenant_id (g r) = sw_tenant_id r"
    using assms by (simp add: g_def keeps_keys_def)
  ultimately show "\<exists>r' \<in> set (db_shares (update_share t P f d)). sv_share_id r' = sv_share_id r \<and>
     sv_created_by r' = sv_created_by r \<and> sw_tenant_id r' = sw_tenant_id r" by blast
qed

lemma parity_inv_update:
  assumes "parity_inv d" and "keeps_keys f" and "\<forall>r. sv_created_by (f r) = sv_created_by r"
    and "\<forall>r \<in> set (db_shares d). sw_failure_window_started_at (f r) = None \<longrightarrow> sw_blocked_until (f r) = None"
  shows "parity_inv (update_share t P f d)"
proof (rule parity_inv_rows [OF assms(1)])
  show "postgres_inv (update_share t P f d)" by (rule postgres_inv_update [OF parity_invD(1) [OF assms(1)] assms(2)])
  show "owners_kept d (update_share t P f d)" by (rule owners_kept_update [OF assms(2,3)])
qed (use assms in \<open>auto simp: update_share_def keeps_keys_def parity_inv_def\<close>)

lemma parity_inv_sessions: "parity_inv d \<Longrightarrow> postgres_inv (d\<lparr>db_sessions := xs\<rparr>) \<Longrightarrow> parity_inv (d\<lparr>db_sessions := xs\<rparr>)"
  by (simp add: parity_inv_def)

lemma parity_inv_idempotency:
  assumes "parity_inv d" and "\<exists>r \<in> set (db_shares d). sv_share_id r = ik_response_share_id k \<and> sv_created_by r = ik_actor_id k \<and>
      sw_tenant_id r = ik_tenant_id k"
    and "\<And>i. ik_operation k = ''share.rotate:'' @ i \<or> ik_operation k = ''share.revoke:'' @ i \<Longrightarrow> ik_response_share_id k = i"
  shows "parity_inv (d\<lparr>db_idempotency := db_idempotency d @ [k]\<rparr>)"
  using assms unfolding parity_inv_def by simp

lemma parity_inv_change:
  assumes "parity_inv d" and "find_share (pr_tenant_id p) (\<lambda>r. sv_share_id r = i \<and> sv_created_by r = pr_user_id p) d = Some r"
    and "keeps_keys f" and "\<forall>r. sv_created_by (f r) = sv_created_by r"
    and "\<forall>r \<in> set (db_shares d). sw_failure_window_started_at (f r) = None \<longrightarrow> sw_blocked_until (f r) = None"
    and "operation = ''share.rotate:'' @ i \<or> operation = ''share.revoke:'' @ i"
  shows "parity_inv (change_share p i v f (idempotency_row (pr_tenant_id p, pr_user_id p, operation, key) h i n m now) d)"
proof -
  let ?k = "idempotency_row (pr_tenant_id p, pr_user_id p, operation, key) h i n m now"
  let ?u = "delete_sessions (pr_tenant_id p) i (update_share (pr_tenant_id p) (\<lambda>r. sv_share_id r = i \<and> sv_version r = v) f d)"
  have u: "parity_inv (update_share (pr_tenant_id p) (\<lambda>r. sv_share_id r = i \<and> sv_version r = v) f d)"
    by (rule parity_inv_update [OF assms(1,3-5)])
  then have "parity_inv ?u"
    using postgres_inv_delete_sessions [OF parity_invD(1) [OF u]] unfolding delete_sessions_def by (rule parity_inv_sessions)
  moreover note r = find_share_Some [OF assms(2)]
  have "\<exists>r \<in> set (db_shares ?u). sv_share_id r = i \<and> sv_created_by r = pr_user_id p \<and> sw_tenant_id r = pr_tenant_id p"
    using r owners_kept_update [OF assms(3,4), of d "pr_tenant_id p" "\<lambda>r. sv_share_id r = i \<and> sv_version r = v"]
    unfolding owners_kept_def delete_sessions_def by force
  ultimately have "parity_inv (?u\<lparr>db_idempotency := db_idempotency ?u @ [?k]\<rparr>)"
    by (intro parity_inv_idempotency) (use assms(6) in auto)
  then show ?thesis by (simp add: change_share_def Let_def)
qed

lemma rotate_parity_inv:
  assumes "parity_inv d"
  shows "parity_inv (snd (rotate_postgres e now p i expected key h d))"
  using assms by (auto simp: rotate_postgres_def Let_def keeps_keys_def split: option.split intro!: parity_inv_change)

lemma revoke_parity_inv:
  assumes "parity_inv d"
  shows "parity_inv (snd (revoke_postgres now p i expected key h d))"
  using assms
  by (auto simp: revoke_postgres_def Let_def keeps_keys_def split: option.split intro!: parity_inv_change)
    (auto simp: parity_inv_def)

lemma create_parity_inv:
  assumes "parity_inv d" and ready: "parity_ready e (Op_create p trip_id q key s1 s2 c) d" and src: "source e p trip_id q s1 s2 = Inr src"
  shows "parity_inv (snd (create_postgres e c p trip_id src (create_request_hash e trip_id q) key d))"
proof -
  let ?h = "create_request_hash e trip_id q"
  let ?d = "snd (create_postgres e c p trip_id src ?h key d)"
  let ?scope = "(pr_tenant_id p, pr_user_id p, ''share.create'', key)"
  note i = parity_invD(1) [OF assms(1)]
  have pg: "postgres_inv ?d"
    using postgres_exec_step(2) [OF i, of e "Op_create p trip_id q key s1 s2 c"] src by (simp add: create_def)
  show ?thesis
  proof (cases "find_idempotency ?scope d")
    case None
    have d: "db_shares ?d = db_shares d @ [share_row e c p trip_id src (derive_secret e ''share.create'' p key ?h (sc_share_id c) 1)]"
      "db_lookup ?d = db_lookup d @ [\<lparr>lk_public_id = sc_public_id c, lk_tenant_id = pr_tenant_id p, lk_share_id = sc_share_id c\<rparr>]"
      "db_idempotency ?d = db_idempotency d @ [idempotency_row ?scope ?h (sc_share_id c) 1 1 (sc_now c)]"
      "sp_share_id ` set (db_snapshots ?d) = insert (sc_share_id c) (sp_share_id ` set (db_snapshots d))"
      using None ready src by (simp_all add: create_postgres_def Let_def insert_share_fresh [OF i ready src])
    have c: "sv_created_by (share_row e c p trip_id src x) = pr_user_id p" for x
      by (simp add: share_row_def ShareView.extend_def new_share_view_def)
    show ?thesis
    proof (rule parity_inv_rows [OF assms(1) pg])
      show "owners_kept d ?d" by (auto simp: owners_kept_def d)
      have "\<exists>n \<in> set (db_snapshots ?d). sp_share_id n = j" if "j = sc_share_id c \<or> (\<exists>n \<in> set (db_snapshots d). sp_share_id n = j)" for j
      proof -
        from that have "j \<in> sp_share_id ` set (db_snapshots ?d)" unfolding d(4) by auto
        then show ?thesis by auto
      qed
      then show "\<forall>r \<in> set (db_shares ?d). sv_share_id r \<noteq> [] \<and> (sw_failure_window_started_at r = None \<longrightarrow> sw_blocked_until r = None) \<and>
          (\<exists>n \<in> set (db_snapshots ?d). sp_share_id n = sv_share_id r)"
        using assms(1) ready unfolding d(1) parity_inv_def by auto
    qed (use ready in \<open>auto simp: d c\<close>)
  next
    case (Some k)
    then have "?d = d" by (auto simp: create_postgres_def Let_def split: option.split)
    with assms(1) show ?thesis by simp
  qed
qed

lemma exchange_parity_inv:
  assumes "parity_inv d"
  shows "parity_inv (snd (exchange_postgres e now token pid secret d))"
proof -
  note i = parity_invD(1) [OF assms]
  note pg = exchange_postgres_step(2) [OF i, of e now token pid secret]
  have u: "parity_inv (update_share t P (\<lambda>r. r\<lparr>sw_failed_attempts := a, sw_failure_window_started_at := w, sw_blocked_until := b\<rparr>) d)"
    if "w = None \<longrightarrow> b = None" for t P a w b
    by (rule parity_inv_update [OF assms]) (use that in \<open>simp_all add: keeps_keys_def\<close>)
  from exchange_postgres_cases [OF i, of e now token pid secret] show ?thesis
  proof (elim disjE exE conjE)
    fix l r
    assume x: "exchange_postgres e now token pid secret d =
         (Inr \<lparr>xr_session_token = token, xr_expires_at = now + SESSION_TIME\<rparr>,
          (update_share (lk_tenant_id l) (\<lambda>r'. sv_share_id r' = sv_share_id r)
             (\<lambda>r. r\<lparr>sw_failed_attempts := 0, sw_failure_window_started_at := None, sw_blocked_until := None\<rparr>) d)
            \<lparr>db_sessions := db_sessions d @ [\<lparr>sx_session_hash = session_hash e token, sx_tenant_id = lk_tenant_id l,
               sx_share_id = sv_share_id r, sx_capability_epoch = sv_capability_epoch r, sx_created_at = now,
               sx_expires_at = now + SESSION_TIME\<rparr>]\<rparr>)"
    show ?thesis
      using pg unfolding x snd_conv by (intro parity_inv_sessions u) simp_all
  qed (use assms u in simp_all)
qed

section \<open>Both halves give the same answers\<close>

lemma exec_parity:
  assumes "parity_inv d" and "parity_ready e op d"
  shows "exec_memory e op (memory_of d) = (fst (exec_postgres e op d), memory_of (snd (exec_postgres e op d)))"
    and "parity_inv (snd (exec_postgres e op d))"
proof -
  have same: "returning f m s = (map_sum id f (fst (m' t)), memory_of (snd (m' t)))"
    if "m s = (fst (m' t), memory_of (snd (m' t)))"
    for f :: "'x \<Rightarrow> share_result" and m :: "'x share_method" and m' :: "'x share_transaction" and s t
    using that by (simp add: returning_def ebind_def split: prod.split sum.split)
  show "exec_memory e op (memory_of d) = (fst (exec_postgres e op d), memory_of (snd (exec_postgres e op d)))"
  proof (cases op)
    case (Op_create p trip_id q key s1 s2 c)
    show ?thesis
    proof (cases "source e p trip_id q s1 s2")
      case (Inl err)
      with Op_create show ?thesis by (simp add: create_def returning_def ebind_def)
    next
      case (Inr src)
      with Op_create assms create_parity [OF assms(1) _ Inr] show ?thesis by (simp add: create_def same)
    qed
  next
    case (Op_list p trip_id s)
    show ?thesis
    proof (cases "trip_locked s p trip_id False")
      case (Inl err)
      with Op_list show ?thesis by (simp add: list_shares_def returning_def ebind_def)
    next
      case (Inr t)
      with Op_list assms list_parity [of e p trip_id s d] show ?thesis by (simp add: list_shares_def same)
    qed
  next
    case (Op_rotate p i expected key now)
    with assms rotate_parity show ?thesis by (auto intro!: same)
  next
    case (Op_revoke p i expected key now)
    with assms revoke_parity show ?thesis by (auto intro!: same)
  next
    case (Op_exchange pid secret now token)
    with assms exchange_parity show ?thesis by (auto intro!: same)
  next
    case (Op_snapshot pid token now)
    with assms snapshot_parity show ?thesis by (auto intro!: same)
  qed
  show "parity_inv (snd (exec_postgres e op d))"
  proof (cases op)
    case (Op_create p trip_id q key s1 s2 c)
    with assms create_parity_inv show ?thesis by (auto simp: create_def split: sum.split)
  next
    case (Op_list p trip_id s)
    with assms show ?thesis by (auto simp: list_shares_def list_postgres_def split: sum.split)
  next
    case (Op_snapshot pid token now)
    with assms public_snapshot_postgres_step(2) [OF parity_invD(1) [OF assms(1)]] show ?thesis by simp
  qed (use assms rotate_parity_inv revoke_parity_inv exchange_parity_inv in simp_all)
qed

primrec answers :: "(share_op \<Rightarrow> 's \<Rightarrow> 'r \<times> 's) \<Rightarrow> share_op list \<Rightarrow> 's \<Rightarrow> 'r list" where
  "answers exec [] s = []"
| "answers exec (op # ops) s = fst (exec op s) # answers exec ops (snd (exec op s))"

primrec parity_calls :: "share_env \<Rightarrow> share_op list \<Rightarrow> share_db \<Rightarrow> bool" where
  "parity_calls e [] d \<longleftrightarrow> True"
| "parity_calls e (op # ops) d \<longleftrightarrow> parity_ready e op d \<and> parity_calls e ops (snd (exec_postgres e op d))"

lemma answers_parity:
  "parity_inv d \<Longrightarrow> parity_calls e ops d \<Longrightarrow> answers (exec_memory e) ops (memory_of d) = answers (exec_postgres e) ops d"
  by (induction ops arbitrary: d) (simp_all add: exec_parity)

lemma parity_inv_empty: "parity_inv empty_share_db"
  by (simp add: parity_inv_def postgres_inv_def empty_share_db_def)

end
