(* ===== verification/Share_Properties.thy ===== *)
theory Share_Properties
  imports Share_Parity "HOL-Library.Code_Target_Nat"
begin

text \<open>
  The properties of sharing: reading takes a session that the right secret opened, revocation is final, the
  projection never fails and hides what is private, guessing is limited, both halves answer alike; and where
  they do not. A small published trip serves the witnesses.
\<close>

section \<open>A published trip\<close>

definition share_demo_source :: SourceRef where
  "share_demo_source = \<lparr>sr_source_id = ''source:x'', sr_kind = SK_user, sr_name = ''x'', sr_version = ''1'',
     sr_uri = None, sr_retrieved_at = 0, sr_publisher = None, sr_license = None\<rparr>"

definition share_demo_place :: PlaceRef where
  "share_demo_place = \<lparr>pl_place_id = ''place_x'', pl_display_name = ''Temple'', pl_address = None,
     pl_country_code = ''JP'', pl_timezone = ''Asia/Tokyo'',
     pl_location = \<lparr>gp_latitude = 35039 / 1000, gp_longitude = 135729 / 1000, gp_coordinate_system = WGS84,
                    gp_accuracy_meters = None\<rparr>, pl_provider_ids = [], pl_source = share_demo_source\<rparr>"

definition share_demo_ref :: "ArtifactType \<Rightarrow> string \<Rightarrow> ArtifactRef" where
  "share_demo_ref ty i = \<lparr>ar_artifact_type = ty, ar_artifact_id = i, ar_schema_version = 1, ar_version = 1\<rparr>"

definition share_demo_money :: MoneyRange where
  "share_demo_money = \<lparr>mr_min_amount = ''0'', mr_max_amount = ''9'', mr_currency = ''EUR'', mr_basis = Total,
     mr_observed_at = 0, mr_source = share_demo_source\<rparr>"

definition share_demo_actor :: ActorRef where
  "share_demo_actor = \<lparr>ac_actor_type = Ac_user, ac_actor_id = ''user:x''\<rparr>"

definition share_demo_brief :: TripBrief where
  "share_demo_brief = \<lparr>ab_artifact_id = ''artifact_b'', ab_schema_version = 1, ab_version = 1, ab_created_at = 0,
     ab_created_by = share_demo_actor, ab_reason = ''x'', tb_destination = share_demo_place,
     tb_date_window = \<lparr>td_start_date = 739000, td_end_date = 739000, td_timezone = ''Asia/Tokyo'', td_flexibility_days = 0\<rparr>,
     tb_travelers = \<lparr>tv_adults = 2, tv_children_ages = [], tv_seniors = 0, tv_rooms = 1, tv_accessibility_needs = []\<rparr>,
     tb_budget = share_demo_money, tb_preferences = [], tb_constraints = [], tb_clarification_items = [],
     tb_source = share_demo_source\<rparr>"

definition share_demo_block :: PlanTimeBlock where
  "share_demo_block = \<lparr>bk_block_id = ''block_1'', bk_title = ''Visit'', bk_category = Bl_visit, bk_place_ref = share_demo_place,
     bk_time_range = \<lparr>zt_local_date = 739000, zt_start_local_time = 32400000000, zt_end_local_time = 36000000000,
       zt_end_day_offset = 0, zt_timezone = ''Asia/Tokyo''\<rparr>,
     bk_duration_minutes = 60, bk_transit_from_previous = None, bk_cost_range = Some share_demo_money,
     bk_evidence_refs = [''evidence_1'', ''evidence_2''], bk_alternatives = []\<rparr>"

definition share_demo_plan :: ItineraryPlan where
  "share_demo_plan = \<lparr>ab_artifact_id = ''artifact_p'', ab_schema_version = 1, ab_version = 1, ab_created_at = 0,
     ab_created_by = share_demo_actor, ab_reason = ''x'', ip_plan_id = ''plan_1'', ip_status = Ps_published,
     ip_trip_brief_ref = share_demo_ref AT_TripBrief ''artifact_b'', ip_candidate_set_ref = share_demo_ref AT_CandidateSet ''artifact_c'',
     ip_evidence_bundle_ref = share_demo_ref AT_EvidenceBundle ''artifact_e'', ip_timezone = ''Asia/Tokyo'', ip_assumptions = [],
     ip_days = [\<lparr>pd_date = 739000, pd_timezone = ''Asia/Tokyo'', pd_time_blocks = [share_demo_block], pd_day_summary = ''x'',
       pd_daily_cost = share_demo_money\<rparr>],
     ip_budget_summary = \<lparr>bs_estimated_total = share_demo_money, bs_category_totals = [], bs_contingency_percent = 0\<rparr>,
     ip_route_summary = \<lparr>rs_total_distance_meters = 0, rs_total_transit_duration_minutes = 0, rs_legs_count = 0,
       rs_source = share_demo_source\<rparr>,
     ip_citations = [\<lparr>ci_citation_id = ''citation_1'', ci_evidence_id = ''evidence_1'', ci_title = ''x'', ci_locator = ''x'',
       ci_source = share_demo_source\<rparr>], ip_unresolved_risks = [], ip_validation_ref = None\<rparr>"

definition share_demo_validation :: ValidationReport where
  "share_demo_validation = \<lparr>ab_artifact_id = ''artifact_v'', ab_schema_version = 1, ab_version = 1, ab_created_at = 0,
     ab_created_by = share_demo_actor, ab_reason = ''x'', va_plan_ref = share_demo_ref AT_ItineraryPlan ''artifact_p'',
     va_constraint_report_ref = share_demo_ref AT_ConstraintReport ''artifact_r'',
     va_semantic_risk_report_ref = share_demo_ref AT_SemanticRiskReport ''artifact_s'', va_timezone = ''Asia/Tokyo'',
     va_generated_at = 0, va_policy_version = ''1'', va_verdict = Pass, va_publishable = True, va_blockers = [], va_warnings = []\<rparr>"

definition share_demo_snapshot :: TripSnapshot where
  "share_demo_snapshot = \<lparr>ab_artifact_id = ''artifact_t'', ab_schema_version = 1, ab_version = 1, ab_created_at = 0,
     ab_created_by = share_demo_actor, ab_reason = ''x'', sn_trip_id = ''trip_1'', sn_title = ''Kyoto'', sn_status = Sn_ready,
     sn_timezone = ''Asia/Tokyo'', sn_brief = share_demo_brief, sn_itinerary = share_demo_plan, sn_validation = share_demo_validation,
     sn_generated_at = 0, sn_source_artifact_versions = [share_demo_ref AT_TripBrief ''artifact_b'',
       share_demo_ref AT_ItineraryPlan ''artifact_p'', share_demo_ref AT_ValidationReport ''artifact_v'']\<rparr>"

lemma share_demo_valid: "snapshot_valid (\<lambda>_. True) share_demo_snapshot" "Identifier ''share_snapshot_1''" "Identifier ''public_1''"
  by code_simp+

definition ann :: Principal where
  "ann = \<lparr>pr_tenant_id = ''t1'', pr_user_id = ''ann'', pr_roles = {}, pr_authorization_epoch = 0\<rparr>"

definition other_ann :: Principal where
  "other_ann = ann\<lparr>pr_tenant_id := ''t2''\<rparr>"

definition share_demo_store :: platform_store where
  "share_demo_store = empty_store\<lparr>
     st_trips := [(''trip_1'', \<lparr>tv_trip_id = ''trip_1'', tv_tenant_id = ''t1'', tv_owner_id = ''ann'', tv_title = Some ''Kyoto'',
       tv_locale = None, tv_timezone = None, tv_status = Trip_ACTIVE, tv_version = 1, tv_current_artifact_id = Some ''artifact_t'',
       tv_current_artifact_version = Some 1, tv_created_at = 0, tv_updated_at = 0\<rparr>)],
     st_artifacts := [(''artifact_t'', [\<lparr>av_artifact_id = ''artifact_t'', av_version = 1, av_trip_id = ''trip_1'', av_tenant_id = ''t1'',
       av_artifact_type = ''TripSnapshot'', av_schema_version = 1, av_status = PUBLISHED, av_content = [], av_created_by = ''ann'',
       av_created_at = 0, av_parent_version = None\<rparr>])]\<rparr>"

text \<open>The keyed hash of the demonstration is the identity.\<close>

definition share_demo_env :: share_env where
  "share_demo_env = \<lparr>se_hmac_base64 = id, se_hmac_hex = id, se_request_hash = (\<lambda>_. ''hash''),
     se_validate = (\<lambda>_. Some share_demo_snapshot), se_zones = (\<lambda>_. True)\<rparr>"

definition share_demo_call :: share_call where
  "share_demo_call = \<lparr>sc_now = 10, sc_share_id = ''share_1'', sc_public_id = ''public_1'', sc_snapshot_id = ''share_snapshot_1'',
     sc_snapshot_now = 11, sc_current = Some (Some ''artifact_t'', Some 1, PUBLISHED)\<rparr>"

definition share_demo_create :: share_op where
  "share_demo_create = Op_create ann ''trip_1'' \<lparr>sq_artifact_id = ''artifact_t'', sq_artifact_version = 1\<rparr> ''key''
     share_demo_store share_demo_store share_demo_call"

definition share_demo_secret :: string where
  "share_demo_secret = derive_secret share_demo_env ''share.create'' ann ''key'' ''hash'' ''share_1'' 1"

definition share_demo_ops :: "share_op list" where
  "share_demo_ops = [share_demo_create, Op_exchange ''public_1'' share_demo_secret 20 ''token'']"

lemma share_demo_served:
  "\<not> isl (fst (exec_postgres share_demo_env (Op_snapshot ''public_1'' ''token'' 30)
     (run_calls (exec_postgres share_demo_env) share_demo_ops empty_share_db)))"
  by code_simp

section \<open>The projection\<close>

definition places :: "TripSnapshot \<Rightarrow> PlaceRef list" where
  "places s = tb_destination (sn_brief s) # concat (map (map bk_place_ref \<circ> pd_time_blocks) (ip_days (sn_itinerary s)))"

definition public_places :: "ShareSnapshot \<Rightarrow> PublicPlace list" where
  "public_places s = ss_destination s # concat (map (map sb_place \<circ> sd_time_blocks) (ss_days s))"

definition coarse :: "PlaceRef \<Rightarrow> PublicPlace \<Rightarrow> bool" where
  "coarse p q \<longleftrightarrow> (\<exists>m n. pb_approximate_location q = Some \<lparr>pg_latitude = of_int m / 100, pg_longitude = of_int n / 100,
       pg_coordinate_system = gp_coordinate_system (pl_location p), pg_accuracy_meters = 2000\<rparr> \<and>
     \<bar>of_int m / 100 - gp_latitude (pl_location p)\<bar> \<le> 1 / 200 + 1 / 2 ^ 45 \<and>
     \<bar>of_int n / 100 - gp_longitude (pl_location p)\<bar> \<le> 1 / 200 + 1 / 2 ^ 45)"

lemma public_places_shared: "public_places (shared_snapshot i now s pid) = map shared_place (places s)"
  by (simp add: public_places_def places_def shared_snapshot_def shared_day_def shared_block_def map_concat comp_def)

lemma shared_place_coarse:
  assumes "place_valid tz p"
  shows "coarse p (shared_place p)"
proof -
  have "\<bar>gp_latitude (pl_location p)\<bar> < 256" "\<bar>gp_longitude (pl_location p)\<bar> < 256"
    using assms by (auto simp: place_valid_def GeoPoint_ok_def abs_less_iff)
  note e = round2_error [OF this(1)] round2_error [OF this(2)]
  show ?thesis
    unfolding coarse_def
    by (rule exI [of _ "half_even (100 * double (gp_latitude (pl_location p)))"],
        rule exI [of _ "half_even (100 * double (gp_longitude (pl_location p)))"])
      (use e in \<open>simp add: shared_place_def coarse_point_def round2_def\<close>)
qed

text \<open>
  The public projection never fails and keeps the itinerary: for every TripSnapshot that satisfies its contract,
  \<open>project_share_snapshot\<close> returns a snapshot that satisfies the contract of share snapshots, with the same days and
  blocks in the same order; and every published coordinate is a whole number of hundredths of a degree, at most
  half of one (and \<open>2\<^sup>-\<^sup>4\<^sup>5\<close> degrees) away from the exact one.
\<close>

theorem share_projection_total:
  assumes "snapshot_valid tz s" and "Identifier snapshot_id" and "Identifier public_id"
  shows "\<exists>sh. project_share_snapshot tz snapshot_id now s public_id = Inr sh \<and> ShareSnapshot_ok sh \<and>
    map sd_date (ss_days sh) = map pd_date (ip_days (sn_itinerary s)) \<and>
    map (map sb_block_id \<circ> sd_time_blocks) (ss_days sh) = map (map bk_block_id \<circ> pd_time_blocks) (ip_days (sn_itinerary s)) \<and>
    list_all2 coarse (places s) (public_places sh)"
proof -
  note t = projection_total [OF assms]
  have "\<forall>p \<in> set (places s). place_valid tz p"
    using assms(1) by (auto simp: places_def snapshot_valid_def list_all_iff)
  then have "list_all2 coarse (places s) (public_places (shared_snapshot snapshot_id now s public_id))"
    by (simp add: public_places_shared list_all2_map2 list.rel_refl_strong shared_place_coarse [where tz = tz] list_all2_same)
  with t show ?thesis by (auto simp: shared_snapshot_def shared_day_def shared_block_def comp_def)
qed

theorem share_projection_total_witness:
  "\<exists>sh. project_share_snapshot (\<lambda>_. True) ''share_snapshot_1'' 7 share_demo_snapshot ''public_1'' = Inr sh \<and>
    map sd_date (ss_days sh) = [739000]"
proof -
  have "map pd_date (ip_days (sn_itinerary share_demo_snapshot)) = [739000]"
    by (simp add: share_demo_snapshot_def share_demo_plan_def)
  with share_projection_total [OF share_demo_valid, of 7] show ?thesis by auto
qed

definition place_view :: "PlaceRef \<Rightarrow> string \<times> string option \<times> string \<times> rat \<times> rat \<times> CoordinateSystem" where
  "place_view p = (pl_display_name p, pl_address p, pl_country_code p, round2 (gp_latitude (pl_location p)),
     round2 (gp_longitude (pl_location p)), gp_coordinate_system (pl_location p))"

definition block_view where
  "block_view b = (bk_block_id b, bk_title b, bk_category b, bk_time_range b, place_view (bk_place_ref b),
     map_option (\<lambda>t. (tg_mode t, tg_duration_max_minutes t)) (bk_transit_from_previous b), bk_evidence_refs b)"

definition day_view where
  "day_view d = (pd_date d, pd_timezone d, pd_day_summary d, map block_view (pd_time_blocks d))"

definition trip_view where
  "trip_view s = (ab_artifact_id s, ab_version s, sn_title s, place_view (tb_destination (sn_brief s)), tb_date_window (sn_brief s),
     ip_citations (sn_itinerary s), map day_view (ip_days (sn_itinerary s)))"

lemma smap_view:
  assumes "map view xs = map view ys" and "\<And>x y. view x = view y \<Longrightarrow> f x = f y"
  shows "smap f xs = smap f ys"
  using assms(1)
proof (induction xs arbitrary: ys)
  case (Cons x xs)
  then obtain y ys' where "ys = y # ys'" "view x = view y" "map view xs = map view ys'" by auto
  with Cons.IH assms(2) [of x y] show ?case by simp
qed simp

lemma public_place_view: "place_view p = place_view q \<Longrightarrow> public_place p = public_place q"
  by (cases "pl_address q") (simp_all add: place_view_def public_place_def)

lemma project_block_view: "block_view b = block_view c \<Longrightarrow> project_block cited b = project_block cited c"
  unfolding project_block_def block_view_def
  by (auto simp: project_transit_def dest!: public_place_view split: option.splits)

lemma project_day_view: "day_view d = day_view d' \<Longrightarrow> project_day tz cited d = project_day tz cited d'"
  using smap_view [of block_view "pd_time_blocks d" "pd_time_blocks d'" "project_block cited", OF _ project_block_view]
  by (simp add: project_day_def day_view_def)

text \<open>
  C36. What is private stays private: the projection is a function of identity, title, destination, dates, citations, and
  of every block's title, time, place name, address, rounded coordinates, means and longest duration of the leg to it,
  and evidence. Two trips that agree on these have the same public snapshot: travellers, budget, preferences, constraints, costs,
  alternatives, risks, validation and exact coordinates have no influence on it.
\<close>

theorem share_hides_private_data:
  assumes "trip_view s = trip_view s'"
  shows "project_share_snapshot tz i now s public_id = project_share_snapshot tz i now s' public_id"
proof -
  have "smap (project_day tz cited) (ip_days (sn_itinerary s)) = smap (project_day tz cited) (ip_days (sn_itinerary s'))" for cited
    using assms by (intro smap_view [of day_view] project_day_view) (simp_all add: trip_view_def)
  moreover have "public_place (tb_destination (sn_brief s)) = public_place (tb_destination (sn_brief s'))"
    using assms by (intro public_place_view) (simp add: trip_view_def)
  ultimately show ?thesis using assms by (simp add: project_share_snapshot_def trip_view_def Let_def)
qed

definition other_budget :: TripSnapshot where
  "other_budget = share_demo_snapshot\<lparr>sn_brief := share_demo_brief\<lparr>tb_budget := share_demo_money\<lparr>mr_max_amount := ''999''\<rparr>,
     tb_travelers := (tb_travelers share_demo_brief)\<lparr>tv_adults := 9\<rparr>\<rparr>\<rparr>"

theorem share_hides_private_data_witness:
  "project_share_snapshot (\<lambda>_. True) ''share_snapshot_1'' 7 share_demo_snapshot ''public_1'' =
   project_share_snapshot (\<lambda>_. True) ''share_snapshot_1'' 7 other_budget ''public_1''"
  by (rule share_hides_private_data) (simp add: trip_view_def other_budget_def share_demo_snapshot_def share_demo_brief_def)

section \<open>Access\<close>

lemma postgres_good_empty: "postgres_shares.good empty_share_db" "ax_sessions (postgres_access empty_share_db) = Map.empty"
  by (simp_all add: postgres_shares.good_def access_inv_def postgres_inv_def empty_share_db_def fun_eq_iff)

lemma postgres_legal [simp]: "postgres_shares.legal e ops d"
  by (induction ops arbitrary: d) simp_all

text \<open>
  C10. Reading a shared trip needs its secret: whatever was called on the tables before, when \<open>public_snapshot\<close> answers a
  request, then its token (or one with the same keyed hash) was issued less than 15 minutes ago by an exchange that
  presented a secret with the keyed hash stored for that share at that time; the share has been active in the same
  epoch ever since, so neither rotated nor revoked; and the answer is the snapshot stored for this very share.
\<close>

theorem shared_trip_needs_capability:
  fixes e :: share_env and ops :: "share_op list"
  defines "access \<equiv> \<lambda>calls. postgres_access (run_calls (exec_postgres e) calls empty_share_db)"
  assumes "fst (exec_postgres e (Op_snapshot pid token now) (run_calls (exec_postgres e) ops empty_share_db)) = Inr r"
  shows "\<exists>pre pid' secret t token' post i v epoch n. ops = pre @ Op_exchange pid' secret t token' # post \<and>
    session_hash e token' = session_hash e token \<and> now < t + SESSION_TIME \<and>
    ax_public (access pre) pid' = Some i \<and> ax_public (access ops) pid = Some i \<and>
    ax_shares (access pre) i = Some (v, capability_hash e pid' secret) \<and>
    (\<forall>q rest. Op_exchange pid' secret t token' # post = q @ rest \<longrightarrow> is_active (access (pre @ q)) i epoch) \<and>
    ax_snapshots (access ops) i = Some n \<and> r = R_snapshot \<lparr>ps_public_id = pid, ps_snapshot = n\<rparr>"
  unfolding access_def
  by (rule postgres_shares.reading_needs_capability [OF postgres_good_empty postgres_legal TrueI assms(2)])

theorem shared_trip_needs_capability_witness:
  "\<exists>pre pid' secret t token' post. share_demo_ops = pre @ Op_exchange pid' secret t token' # post \<and>
     session_hash share_demo_env token' = session_hash share_demo_env ''token'' \<and> 30 < t + SESSION_TIME"
proof -
  obtain r where "fst (exec_postgres share_demo_env (Op_snapshot ''public_1'' ''token'' 30)
      (run_calls (exec_postgres share_demo_env) share_demo_ops empty_share_db)) = Inr r"
    using share_demo_served by (auto simp: isl_def split: sum.splits intro: sum.exhaust)
  from shared_trip_needs_capability [OF this] show ?thesis by blast
qed

lemma opened_is_active:
  assumes "access_step e op a r a'" and "\<not> isl r" and "op = Op_exchange pid secret now token \<or> op = Op_snapshot pid token now"
  shows "\<exists>j v h. ax_public a pid = Some j \<and> ax_shares a j = Some (v, h) \<and> sv_status v = Share_active"
  using assms by (cases rule: access_step.cases) (auto simp: is_active_def)

lemma revoked_row:
  assumes "revoke_postgres now0 p i expected key h d = (Inr m, d')" and "\<not> mu_replayed m" and "postgres_inv d"
  shows "ax_shares (postgres_access d') i = Some (mu_share m, snd (the (ax_shares (postgres_access d') i)))"
    "sv_status (mu_share m) = Share_revoked"
proof -
  from assms(1,2) obtain r where r: "find_share (pr_tenant_id p) (\<lambda>r. sv_share_id r = i \<and> sv_created_by r = pr_user_id p) d = Some r"
    "sv_status r = Share_active" "sv_version r = expected"
    by (auto simp: revoke_postgres_def Let_def split: option.splits if_splits)
  let ?f = "\<lambda>r'. r'\<lparr>sv_status := Share_revoked, sv_version := sv_version r + 1,
      sv_capability_epoch := sv_capability_epoch r + 1, sv_updated_at := now0, sv_revoked_at := Some now0\<rparr>"
  from assms(1,2) r obtain idem where m: "mu_share m = view_of (?f r)" "d' = change_share p i (sv_version r) ?f idem d"
    by (auto simp: revoke_postgres_def Let_def split: option.splits if_splits)
  note i = find_share_Some [OF r(1)]
  have "keeps_keys ?f" by (simp add: keeps_keys_def)
  from access_update [OF assms(3) this i(1), of "\<lambda>r'. sv_version r' = sv_version r"] i m
  show "ax_shares (postgres_access d') i = Some (mu_share m, snd (the (ax_shares (postgres_access d') i)))"
    by (simp add: change_share_def Let_def del: postgres_access_simps)
  show "sv_status (mu_share m) = Share_revoked" using m(1) by simp
qed

text \<open>
  C27. Revocation is final: once \<open>revoke\<close> has succeeded on the tables, no later exchange on the public id of the share
  and no later read of it is answered, whatever secret or session token it presents, whenever it comes, and
  whatever was called in between.
\<close>

theorem revoked_share_stays_closed:
  fixes e :: share_env
  defines "run \<equiv> run_calls (exec_postgres e)"
  assumes "exec_postgres e (Op_revoke p i expected key now0) (run before empty_share_db) = (Inr (R_mutation m), d)"
    and "\<not> mu_replayed m"
  shows "isl (fst (exec_postgres e (Op_exchange (sv_public_id (mu_share m)) secret now token) (run between d))) \<and>
    isl (fst (exec_postgres e (Op_snapshot (sv_public_id (mu_share m)) token now) (run between d)))"
proof -
  let ?d0 = "run before empty_share_db" and ?f = "run between d" and ?pid = "sv_public_id (mu_share m)"
  have g0: "postgres_shares.good ?d0" unfolding run_def by (rule postgres_shares.good_run [OF postgres_good_empty(1) postgres_legal])
  have d: "d = snd (exec_postgres e (Op_revoke p i expected key now0) ?d0)" using assms(2) by simp
  have g: "postgres_shares.good d" unfolding d by (rule postgres_shares.good_exec [OF g0 TrueI])
  have gf: "postgres_shares.good ?f" unfolding run_def by (rule postgres_shares.good_run [OF g postgres_legal])
  then have i0: "postgres_inv ?d0" and jf: "postgres_inv ?f" using g0 by (simp_all add: postgres_shares.good_def)
  have "revoke_postgres now0 p i expected key (change_request_hash e ''revoke'' i expected) ?d0 = (Inr m, d)"
    using assms(2) by (auto simp: returning_def ebind_def eret_def split: prod.splits sum.splits)
  note rev = revoked_row [OF this assms(3) i0]
  obtain h where h: "ax_shares (postgres_access ?f) i = Some (mu_share m, h)"
    using postgres_shares.run_grows [OF g postgres_legal, of e between] rev
    unfolding run_def access_grows_def by (metis ShareStatus.distinct(1))
  have "isl (fst (exec_postgres e op ?f))" if op: "op = Op_exchange ?pid secret now token \<or> op = Op_snapshot ?pid token now" for op
  proof (rule ccontr)
    assume "\<not> isl (fst (exec_postgres e op ?f))"
    moreover have "access_step e op (postgres_access ?f) (fst (exec_postgres e op ?f)) (postgres_access (snd (exec_postgres e op ?f)))"
      using gf by (intro postgres_shares.exec_step) (simp_all add: postgres_shares.good_def)
    ultimately obtain j v k where j: "ax_public (postgres_access ?f) ?pid = Some j" "ax_shares (postgres_access ?f) j = Some (v, k)"
      "sv_status v = Share_active" using opened_is_active op by blast
    then obtain l where l: "l \<in> set (db_lookup ?f)" "lk_public_id l = ?pid" "lk_share_id l = j"
      by (auto dest: find_SomeD)
    with jf obtain r where r: "r \<in> set (db_shares ?f)" "sv_share_id r = j" "sv_public_id r = ?pid"
      unfolding postgres_inv_def by metis
    from h obtain r' where r': "r' \<in> set (db_shares ?f)" "view_of r' = mu_share m" "sv_share_id r' = i"
      by (auto dest: find_SomeD)
    then have "sv_public_id r' = ?pid" by (metis view_of_simps(2))
    with r r' jf have "r = r'" unfolding postgres_inv_def by (metis distinct_map inj_onD)
    with r(2) r'(3) have "j = i" by simp
    with j(2,3) h rev(2) show False by (simp del: postgres_access_simps)
  qed
  then show ?thesis by blast
qed

theorem revoked_share_stays_closed_witness:
  "isl (fst (exec_postgres share_demo_env (Op_exchange ''public_1'' share_demo_secret 50 ''again'')
     (snd (exec_postgres share_demo_env (Op_revoke ann ''share_1'' 1 ''k2'' 40)
       (run_calls (exec_postgres share_demo_env) share_demo_ops empty_share_db)))))"
proof -
  let ?r = "exec_postgres share_demo_env (Op_revoke ann ''share_1'' 1 ''k2'' 40)
    (run_calls (exec_postgres share_demo_env) share_demo_ops empty_share_db)"
  have "(case fst ?r of Inr (R_mutation m) \<Rightarrow> \<not> mu_replayed m \<and> sv_public_id (mu_share m) = ''public_1'' | _ \<Rightarrow> False)"
    by code_simp
  then obtain m where "?r = (Inr (R_mutation m), snd ?r)" "\<not> mu_replayed m" "sv_public_id (mu_share m) = ''public_1''"
    by (auto split: sum.splits share_result.splits simp: prod_eq_iff)
  from revoked_share_stays_closed [OF this(1,2), of share_demo_secret 50 "''again''" "[]"] this(3) show ?thesis by simp
qed

section \<open>The two halves\<close>

text \<open>
  C26. The service in memory behaves as the one on PostgreSQL: for every sequence of calls, from empty stores, every answer is
  the same, as long as the identifiers and tokens drawn are new, a trip and a user id belong to one tenant, and no
  capability is rotated while failed attempts are on record.
\<close>

theorem memory_matches_postgres:
  assumes "parity_calls e ops empty_share_db"
  shows "answers (exec_memory e) ops new_share_service = answers (exec_postgres e) ops empty_share_db"
  using answers_parity [OF parity_inv_empty assms] by (simp add: memory_of_empty)

definition share_demo_calls :: "share_op list" where
  "share_demo_calls = [share_demo_create, Op_exchange ''public_1'' ''guess'' 15 ''token'', Op_exchange ''public_1'' share_demo_secret 20 ''token'',
     Op_revoke ann ''share_1'' 1 ''k2'' 40, Op_snapshot ''public_1'' ''token'' 50]"

text \<open>The answers of both halves to these calls, the rejected ones included.\<close>

theorem memory_matches_postgres_witness:
  "answers (exec_memory share_demo_env) share_demo_calls new_share_service =
     answers (exec_postgres share_demo_env) share_demo_calls empty_share_db \<and>
   map isl (answers (exec_postgres share_demo_env) share_demo_calls empty_share_db) = [False, True, False, False, True]"
proof -
  have "parity_calls share_demo_env share_demo_calls empty_share_db" by code_simp
  moreover have "map isl (answers (exec_postgres share_demo_env) share_demo_calls empty_share_db) =
      [False, True, False, False, True]" by code_simp
  ultimately show ?thesis using memory_matches_postgres by blast
qed

text \<open>
  The service in memory compares user ids without their tenant: a principal of another tenant with the same user id
  rotates the capability of a share it does not own, which ends the sessions of its readers, while the service on
  PostgreSQL answers that there is no such share.
\<close>

theorem memory_rotation_crosses_tenants:
  "isl (fst (exec_memory share_demo_env (Op_rotate other_ann ''share_1'' 1 ''k1'' 30)
     (run_calls (exec_memory share_demo_env) share_demo_ops new_share_service))) = False \<and>
   fst (exec_postgres share_demo_env (Op_rotate other_ann ''share_1'' 1 ''k1'' 30)
     (run_calls (exec_postgres share_demo_env) share_demo_ops empty_share_db)) = Inl ShareNotFound"
  by (rule conjI; code_simp)

text \<open>
  A replayed creation hands out a dead secret: after a rotation, repeating the creating request with its idempotency key
  returns the secret of the first epoch as the capability of the share, and the next exchange refuses exactly this secret and counts
  it as a failed attempt.
\<close>

theorem replayed_creation_returns_dead_secret:
  "(case exec_postgres share_demo_env share_demo_create
      (run_calls (exec_postgres share_demo_env) [share_demo_create, Op_rotate ann ''share_1'' 1 ''k1'' 30] empty_share_db) of
      (Inr (R_mutation m), d) \<Rightarrow> mu_replayed m \<and> sv_capability_epoch (mu_share m) = 2 \<and> mu_capability_secret m = Some share_demo_secret \<and>
        fst (exec_postgres share_demo_env (Op_exchange ''public_1'' share_demo_secret 40 ''token'') d) = Inl ShareCapabilityInvalid
    | _ \<Rightarrow> False)"
  by code_simp

end
