(* ===== verification/RAG_Models.thy ===== *)
theory RAG_Models
  imports Contracts
begin

text \<open>
  The contracts of knowledge ingestion and retrieval, \<^verbatim>\<open>agent/travel_agent/rag/models.py\<close> and the errors of
  \<^verbatim>\<open>ports.py\<close>. Documents and queries are texts: lists of Unicode code points. Identifiers, titles and other metadata
  are strings. Times carry their zone, so their conversion to UTC is the identity.
\<close>

type_synonym utext = "nat list"

definition MAX_DOCUMENT_CHARS :: nat where "MAX_DOCUMENT_CHARS = 262144"
definition MAX_QUERY_CHARS :: nat where "MAX_QUERY_CHARS = 2000"
definition MAX_CHUNK_CHARS :: nat where "MAX_CHUNK_CHARS = 8000"
definition MAX_SNIPPET_CHARS :: nat where "MAX_SNIPPET_CHARS = 2000"
definition MAX_TOP_K :: nat where "MAX_TOP_K = 20"

datatype knowledge_error =
    KnowledgeAuthorizationError
  | KnowledgeConflictError
  | KnowledgeNotFoundError
  | KnowledgeVersionConflictError int
  | KnowledgeValueError
  | KnowledgeKeyError

section \<open>Enumerations\<close>

datatype VisibilityScope = Vs_public | Vs_tenant

datatype TrustTier = Tt_official | Tt_operator | Tt_trusted_media | Tt_community | Tt_user_private

datatype IngestionStatus = Is_published | Is_quarantined | Is_tombstoned

datatype KnowledgeFreshness = Kf_fresh | Kf_stale | Kf_not_yet_valid | Kf_unknown

section \<open>Requests and stored objects\<close>

text \<open>
  The URL of a license is left out: it is not used. The source URI is the canonical one, as \<^verbatim>\<open>canonicalize_source_uri\<close>
  has returned it.
\<close>

record LicenseMetadata =
  lic_license_id :: string
  lic_usage_policy :: string
  lic_indexing_allowed :: bool
  lic_retention_days :: "int option"

definition LicenseMetadata_ok :: "LicenseMetadata \<Rightarrow> bool" where
  "LicenseMetadata_ok l \<longleftrightarrow> 1 \<le> length (lic_license_id l) \<and> length (lic_license_id l) \<le> 128 \<and>
     1 \<le> length (lic_usage_policy l) \<and> length (lic_usage_policy l) \<le> 2000 \<and>
     opt_ok (\<lambda>n. 1 \<le> n \<and> n \<le> 36500) (lic_retention_days l)"

record AuthorizedKnowledgeContext =
  kctx_tenant_id :: string
  kctx_actor_id :: string
  kctx_roles :: "string set"
  kctx_authorization_epoch :: int

definition can_manage_tenant_knowledge :: "AuthorizedKnowledgeContext \<Rightarrow> bool" where
  "can_manage_tenant_knowledge x \<longleftrightarrow> kctx_roles x \<inter> {''admin'', ''tenant_admin''} \<noteq> {}"

definition can_manage_public_knowledge :: "AuthorizedKnowledgeContext \<Rightarrow> bool" where
  "can_manage_public_knowledge x \<longleftrightarrow> ''admin'' \<in> kctx_roles x"

record IngestDocumentRequest =
  ing_canonical_source_uri :: string
  ing_source_type :: string
  ing_source_version :: string
  ing_title :: string
  ing_content :: utext
  ing_visibility_scope :: VisibilityScope
  ing_language :: string
  ing_geo_entities :: "string list"
  ing_tags :: "string list"
  ing_published_at :: "instant option"
  ing_observed_at :: instant
  ing_valid_from :: "instant option"
  ing_valid_until :: "instant option"
  ing_corpus_revision :: string
  ing_trust_tier :: TrustTier
  ing_license :: LicenseMetadata
  ing_parser_version :: string
  ing_chunker_version :: string
  ing_metadata :: jobj

text \<open>\<^verbatim>\<open>normalize_bounded_values\<close> and \<^verbatim>\<open>normalize_filters\<close> are the same loop.\<close>

fun normalize_bounded_values :: "string list \<Rightarrow> string list \<Rightarrow> knowledge_error + string list" where
  "normalize_bounded_values result [] = Inr result"
| "normalize_bounded_values result (raw # values) =
     (let v = py_strip raw in
      if v = [] \<or> length v > 128 then Inl KnowledgeValueError
      else normalize_bounded_values (if v \<in> set result then result else result @ [v]) values)"

definition validity_window_ok :: "instant option \<Rightarrow> instant option \<Rightarrow> bool" where
  "validity_window_ok from until = (case (from, until) of (Some f, Some u) \<Rightarrow> f < u | _ \<Rightarrow> True)"

definition bounded_values :: "nat \<Rightarrow> string list \<Rightarrow> bool" where
  "bounded_values n vs \<longleftrightarrow> length vs \<le> n \<and> normalize_bounded_values [] vs = Inr vs"

text \<open>What a validated request satisfies; the size of its metadata is left to \<^verbatim>\<open>validate_metadata_size\<close>.\<close>

definition IngestDocumentRequest_ok :: "IngestDocumentRequest \<Rightarrow> bool" where
  "IngestDocumentRequest_ok q \<longleftrightarrow>
     1 \<le> length (ing_source_type q) \<and> length (ing_source_type q) \<le> 64 \<and>
     1 \<le> length (ing_source_version q) \<and> length (ing_source_version q) \<le> 128 \<and>
     1 \<le> length (ing_title q) \<and> length (ing_title q) \<le> 256 \<and>
     1 \<le> length (ing_content q) \<and> length (ing_content q) \<le> MAX_DOCUMENT_CHARS \<and>
     2 \<le> length (ing_language q) \<and> length (ing_language q) \<le> 32 \<and>
     bounded_values 64 (ing_geo_entities q) \<and> bounded_values 64 (ing_tags q) \<and>
     1 \<le> length (ing_corpus_revision q) \<and> length (ing_corpus_revision q) \<le> 128 \<and>
     LicenseMetadata_ok (ing_license q) \<and>
     1 \<le> length (ing_parser_version q) \<and> length (ing_parser_version q) \<le> 64 \<and>
     1 \<le> length (ing_chunker_version q) \<and> length (ing_chunker_version q) \<le> 64 \<and>
     validity_window_ok (ing_valid_from q) (ing_valid_until q) \<and> lic_indexing_allowed (ing_license q)"

record KnowledgeSource =
  src_source_id :: string
  src_tenant_id :: "string option"
  src_visibility_scope :: VisibilityScope
  src_canonical_source_uri :: string
  src_source_type :: string
  src_trust_tier :: TrustTier
  src_license :: LicenseMetadata
  src_created_at :: instant
  src_updated_at :: instant

record KnowledgeDocument =
  doc_document_id :: string
  doc_source_id :: string
  doc_tenant_id :: "string option"
  doc_visibility_scope :: VisibilityScope
  doc_source_version :: string
  doc_title :: string
  doc_language :: string
  doc_geo_entities :: "string list"
  doc_tags :: "string list"
  doc_published_at :: "instant option"
  doc_observed_at :: instant
  doc_valid_from :: "instant option"
  doc_valid_until :: "instant option"
  doc_content_hash :: string
  doc_parser_version :: string
  doc_chunker_version :: string
  doc_tokenizer_version :: string
  doc_corpus_revision :: string
  doc_trust_tier :: TrustTier
  doc_license :: LicenseMetadata
  doc_status :: IngestionStatus
  doc_quarantine_reason :: "string option"
  doc_injection_suspected :: bool
  doc_metadata :: jobj
  doc_version :: int
  doc_created_at :: instant
  doc_updated_at :: instant

record KnowledgeDocumentAdminView = KnowledgeDocument +
  adm_chunk_count :: int

record KnowledgeDocumentPage =
  dpg_items :: "KnowledgeDocumentAdminView list"
  dpg_next_cursor :: "string option"

record KnowledgeDocumentStatusCommand =
  cmd_target_status :: IngestionStatus
  cmd_expected_version :: int
  cmd_reason :: "string option"

definition KnowledgeDocumentStatusCommand_ok :: "KnowledgeDocumentStatusCommand \<Rightarrow> bool" where
  "KnowledgeDocumentStatusCommand_ok c \<longleftrightarrow> 1 \<le> cmd_expected_version c \<and>
     opt_ok (\<lambda>r. 3 \<le> length r \<and> length r \<le> 512) (cmd_reason c) \<and>
     (cmd_target_status c = Is_published \<or> cmd_reason c \<noteq> None)"

record KnowledgeDocumentStatusResult =
  dsr_document :: KnowledgeDocumentAdminView
  dsr_idempotent_replay :: bool

record KnowledgeChunk =
  chk_chunk_id :: string
  chk_document_id :: string
  chk_source_id :: string
  chk_tenant_id :: "string option"
  chk_visibility_scope :: VisibilityScope
  chk_ordinal :: nat
  chk_content :: utext
  chk_content_hash :: string
  chk_token_count :: nat
  chk_lexical_terms :: utext
  chk_canonical_source_uri :: string
  chk_source_version :: string
  chk_source_type :: string
  chk_source_title :: string
  chk_language :: string
  chk_geo_entities :: "string list"
  chk_tags :: "string list"
  chk_published_at :: "instant option"
  chk_observed_at :: instant
  chk_valid_from :: "instant option"
  chk_valid_until :: "instant option"
  chk_corpus_revision :: string
  chk_tokenizer_version :: string
  chk_trust_tier :: TrustTier
  chk_license :: LicenseMetadata
  chk_injection_suspected :: bool

definition KnowledgeChunk_ok :: "KnowledgeChunk \<Rightarrow> bool" where
  "KnowledgeChunk_ok c \<longleftrightarrow> 1 \<le> length (chk_content c) \<and> length (chk_content c) \<le> MAX_CHUNK_CHARS \<and> 1 \<le> chk_token_count c"

datatype vector_index_status = Vi_indexed | Vi_disabled | Vi_unavailable | Vi_provider_not_semantic

record IngestResult =
  ires_source_id :: string
  ires_document_id :: string
  ires_content_hash :: string
  ires_chunk_count :: nat
  ires_status :: IngestionStatus
  ires_idempotent_replay :: bool
  ires_vector_indexed :: bool
  ires_vector_status :: vector_index_status

section \<open>Queries and results\<close>

record RetrievalFilters =
  flt_languages :: "string list"
  flt_source_types :: "string list"
  flt_trust_tiers :: "TrustTier list"
  flt_geo_entities :: "string list"
  flt_tags :: "string list"
  flt_valid_at :: instant
  flt_include_stale :: bool

record ResearchQuery =
  qry_query :: utext
  qry_claim_scope :: string
  qry_corpus_revision :: string
  qry_filters :: RetrievalFilters
  qry_top_k :: nat
  qry_score_threshold :: rat

definition RetrievalFilters_ok :: "RetrievalFilters \<Rightarrow> bool" where
  "RetrievalFilters_ok f \<longleftrightarrow> bounded_values 16 (flt_languages f) \<and> bounded_values 16 (flt_source_types f) \<and>
     length (flt_trust_tiers f) \<le> 8 \<and> bounded_values 32 (flt_geo_entities f) \<and> bounded_values 32 (flt_tags f)"

definition ResearchQuery_ok :: "ResearchQuery \<Rightarrow> bool" where
  "ResearchQuery_ok q \<longleftrightarrow> 1 \<le> length (qry_query q) \<and> length (qry_query q) \<le> MAX_QUERY_CHARS \<and>
     1 \<le> length (qry_claim_scope q) \<and> length (qry_claim_scope q) \<le> 128 \<and>
     1 \<le> length (qry_corpus_revision q) \<and> length (qry_corpus_revision q) \<le> 128 \<and> RetrievalFilters_ok (qry_filters q) \<and>
     1 \<le> qry_top_k q \<and> qry_top_k q \<le> MAX_TOP_K \<and> 0 \<le> qry_score_threshold q \<and> qry_score_threshold q \<le> 1"

record EvidenceScores =
  scr_lexical :: "rat option"
  scr_vector :: "rat option"
  scr_fused :: rat

datatype match_kind = Mk_lexical | Mk_vector

record KnowledgeEvidence =
  kev_evidence_id :: string
  kev_chunk_id :: string
  kev_document_id :: string
  kev_source_id :: string
  kev_content_hash :: string
  kev_claim_scope :: string
  kev_snippet :: utext
  kev_source_uri :: string
  kev_source_title :: string
  kev_source_type :: string
  kev_source_version :: string
  kev_published_at :: "instant option"
  kev_observed_at :: instant
  kev_retrieved_at :: instant
  kev_valid_until :: "instant option"
  kev_freshness_status :: KnowledgeFreshness
  kev_trust_tier :: TrustTier
  kev_license_id :: string
  kev_visibility_scope :: VisibilityScope
  kev_corpus_revision :: string
  kev_scores :: EvidenceScores
  kev_matched_by :: "match_kind list"
  kev_injection_suspected :: bool

datatype retrieval_mode = Rm_lexical | Rm_hybrid

datatype vector_query_status = Vq_used | Vq_disabled | Vq_unavailable | Vq_provider_not_semantic

record RetrievalTrace =
  trc_query_id :: string
  trc_query_hash :: string
  trc_corpus_revision :: string
  trc_tokenizer_version :: string
  trc_embedding_model_version :: "string option"
  trc_retrieval_mode :: retrieval_mode
  trc_vector_status :: vector_query_status
  trc_degraded_reason :: "string option"
  trc_lexical_candidates :: nat
  trc_vector_candidates :: nat
  trc_returned_items :: nat

record RetrievalResult =
  ret_query_id :: string
  ret_corpus_revision :: string
  ret_items :: "KnowledgeEvidence list"
  ret_conflicts :: "jobj list"
  ret_trace :: RetrievalTrace

text \<open>The patterns of the identifiers and of SHA-256 digests, and the bounds of an item.\<close>

definition knowledge_id_ok :: "string \<Rightarrow> bool" where
  "knowledge_id_ok s \<longleftrightarrow> 3 \<le> length s \<and> length s \<le> 128 \<and> hd s \<in> set ''abcdefghijklmnopqrstuvwxyz'' \<and>
     list_all (\<lambda>c. c \<in> set ''abcdefghijklmnopqrstuvwxyz0123456789_:-'') (tl s)"

definition sha256_hex_ok :: "string \<Rightarrow> bool" where
  "sha256_hex_ok s \<longleftrightarrow> length s = 64 \<and> list_all (\<lambda>c. c \<in> set ''0123456789abcdef'') s"

definition unit_score :: "rat \<Rightarrow> bool" where
  "unit_score x \<longleftrightarrow> 0 \<le> x \<and> x \<le> 1"

definition EvidenceScores_ok :: "EvidenceScores \<Rightarrow> bool" where
  "EvidenceScores_ok s \<longleftrightarrow> opt_ok unit_score (scr_lexical s) \<and> opt_ok unit_score (scr_vector s) \<and> unit_score (scr_fused s)"

definition KnowledgeEvidence_ok :: "KnowledgeEvidence \<Rightarrow> bool" where
  "KnowledgeEvidence_ok e \<longleftrightarrow> knowledge_id_ok (kev_evidence_id e) \<and> knowledge_id_ok (kev_chunk_id e) \<and>
     knowledge_id_ok (kev_document_id e) \<and> knowledge_id_ok (kev_source_id e) \<and> sha256_hex_ok (kev_content_hash e) \<and>
     1 \<le> length (kev_claim_scope e) \<and> length (kev_claim_scope e) \<le> 128 \<and>
     1 \<le> length (kev_snippet e) \<and> length (kev_snippet e) \<le> MAX_SNIPPET_CHARS \<and>
     8 \<le> length (kev_source_uri e) \<and> length (kev_source_uri e) \<le> 2048 \<and>
     1 \<le> length (kev_source_title e) \<and> length (kev_source_title e) \<le> 256 \<and>
     1 \<le> length (kev_source_type e) \<and> length (kev_source_type e) \<le> 64 \<and>
     1 \<le> length (kev_source_version e) \<and> length (kev_source_version e) \<le> 128 \<and>
     EvidenceScores_ok (kev_scores e) \<and> 1 \<le> length (kev_matched_by e) \<and> length (kev_matched_by e) \<le> 2"

definition freshness_status :: "instant option \<Rightarrow> instant option \<Rightarrow> instant \<Rightarrow> KnowledgeFreshness" where
  "freshness_status valid_from valid_until t =
     (if (case valid_from of None \<Rightarrow> False | Some f \<Rightarrow> t < f) then Kf_not_yet_valid
      else if (case valid_until of None \<Rightarrow> False | Some u \<Rightarrow> t > u) then Kf_stale
      else if valid_from = None \<and> valid_until = None then Kf_unknown
      else Kf_fresh)"

end
