(* ===== verification/RAG_Text.thy ===== *)
theory RAG_Text
  imports RAG_Models "HOL-Library.Sublist"
begin

text \<open>
  Text safety, tokenization and chunking, \<^verbatim>\<open>agent/travel_agent/rag/text.py\<close>. Unicode normalization and lower case, and
  the callbacks that the standard HTML parser makes for a text, are parameters; the regular expressions of the source are
  matchers on code points. Chunking keeps every short phrase of a paragraph whole in some chunk, and tokens survive the trip
  through the stored term line.
\<close>

section \<open>Python texts\<close>

text \<open>\<^verbatim>\<open>str.isspace\<close>, which is also the class \<^verbatim>\<open>\s\<close>, and the line boundaries of \<^verbatim>\<open>str.splitlines\<close>.\<close>

definition u_space :: "nat \<Rightarrow> bool" where
  "u_space c \<longleftrightarrow> (9 \<le> c \<and> c \<le> 13) \<or> (28 \<le> c \<and> c \<le> 32) \<or> c = 133 \<or> c = 160 \<or> c = 5760 \<or> (8192 \<le> c \<and> c \<le> 8202) \<or>
     c = 8232 \<or> c = 8233 \<or> c = 8239 \<or> c = 8287 \<or> c = 12288"

definition u_linebreak :: "nat \<Rightarrow> bool" where
  "u_linebreak c \<longleftrightarrow> (10 \<le> c \<and> c \<le> 13) \<or> (28 \<le> c \<and> c \<le> 30) \<or> c = 133 \<or> c = 8232 \<or> c = 8233"

definition u_strip :: "utext \<Rightarrow> utext" where
  "u_strip s = rev (dropWhile u_space (rev (dropWhile u_space s)))"

fun lines_from :: "utext \<Rightarrow> utext \<Rightarrow> utext list" where
  "lines_from acc [] = (if acc = [] then [] else [rev acc])"
| "lines_from acc [c] = (if u_linebreak c then [rev acc] else [rev (c # acc)])"
| "lines_from acc (c # d # s) =
     (if c = 13 \<and> d = 10 then rev acc # lines_from [] s
      else if u_linebreak c then rev acc # lines_from [] (d # s)
      else lines_from (c # acc) (d # s))"

definition splitlines :: "utext \<Rightarrow> utext list" where
  "splitlines = lines_from []"

fun u_join :: "utext \<Rightarrow> utext list \<Rightarrow> utext" where
  "u_join sep [] = []"
| "u_join sep [x] = x"
| "u_join sep (x # y # xs) = x @ sep @ u_join sep (y # xs)"

text \<open>\<^verbatim>\<open>str.split()\<close>: the maximal runs of other characters than white space.\<close>

function spans :: "(nat \<Rightarrow> bool) \<Rightarrow> utext \<Rightarrow> utext list" where
  "spans P s = (case dropWhile (\<lambda>c. \<not> P c) s of [] \<Rightarrow> [] | c # t \<Rightarrow> (c # takeWhile P t) # spans P (dropWhile P t))"
  by pat_completeness auto

lemma dropWhile_Cons_length: "dropWhile P s = c # t \<Longrightarrow> length (dropWhile Q t) < length s"
  by (metis Suc_le_eq length_Cons length_dropWhile_le_list order_trans Suc_le_mono)

termination spans by (relation "measure (length \<circ> snd)") (auto simp: dropWhile_Cons_length)

declare spans.simps [simp del]

definition u_split :: "utext \<Rightarrow> utext list" where
  "u_split = spans (\<lambda>c. \<not> u_space c)"

text \<open>\<^verbatim>\<open>list(dict.fromkeys(xs))\<close>: the first occurrences, in order.\<close>

definition from_keys :: "'a list \<Rightarrow> 'a list" where
  "from_keys xs = rev (remdups (rev xs))"

section \<open>Regular expressions\<close>

datatype rx = Eps | Ch "nat \<Rightarrow> bool" | Then rx rx | Or rx rx | Many nat "nat \<Rightarrow> bool"

text \<open>
  What may be left of a text after a match at its beginning. \<open>Many n P\<close> is up to \<open>n\<close> characters of a class; for \<^verbatim>\<open>*\<close> the bound
  is the size of the largest document.
\<close>

primrec rests :: "rx \<Rightarrow> utext \<Rightarrow> utext list" where
  "rests Eps s = [s]"
| "rests (Ch P) s = (case s of [] \<Rightarrow> [] | c # t \<Rightarrow> if P c then [t] else [])"
| "rests (Then a b) s = concat (map (rests b) (rests a s))"
| "rests (Or a b) s = rests a s @ rests b s"
| "rests (Many n P) s = map (\<lambda>k. drop k s) [0..<Suc (min n (length (takeWhile P s)))]"

definition rx_search :: "rx \<Rightarrow> utext \<Rightarrow> bool" where
  "rx_search r s \<longleftrightarrow> list_ex (\<lambda>t. rests r t \<noteq> []) (suffixes s)"

text \<open>
  Literals: exact, and with \<^verbatim>\<open>re.IGNORECASE\<close>, for which the letters i, s and k also match the dotted and dotless I, the long s
  and the Kelvin sign.
\<close>

fun rx_text :: "utext \<Rightarrow> rx" where
  "rx_text [] = Eps"
| "rx_text (c # s) = Then (Ch (\<lambda>x. x = c)) (rx_text s)"

definition same_letter :: "nat \<Rightarrow> nat \<Rightarrow> bool" where
  "same_letter c x \<longleftrightarrow> x = c \<or> (97 \<le> c \<and> c \<le> 122 \<and> x = c - 32) \<or> (c = 105 \<and> (x = 304 \<or> x = 305)) \<or>
     (c = 115 \<and> x = 383) \<or> (c = 107 \<and> x = 8490)"

fun rx_word :: "string \<Rightarrow> rx" where
  "rx_word [] = Eps"
| "rx_word (c # s) = Then (Ch (same_letter (of_char c))) (rx_word s)"

fun rx_any :: "rx list \<Rightarrow> rx" where
  "rx_any [] = Ch (\<lambda>_. False)"
| "rx_any [r] = r"
| "rx_any (r # q # rs) = Or r (rx_any (q # rs))"

fun rx_seq :: "rx list \<Rightarrow> rx" where
  "rx_seq [] = Eps"
| "rx_seq (r # rs) = Then r (rx_seq rs)"

definition rx_spaces :: rx where
  "rx_spaces = Many MAX_DOCUMENT_CHARS u_space"

definition rx_some_spaces :: rx where
  "rx_some_spaces = Then (Ch u_space) rx_spaces"

definition INJECTION_PATTERNS :: "rx list" where
  "INJECTION_PATTERNS =
     [rx_seq [rx_word ''ignore'', rx_some_spaces, rx_any [rx_seq [rx_word ''all'', rx_some_spaces], Eps],
        rx_any [rx_word ''previous'', rx_word ''prior''], rx_some_spaces, rx_word ''instruction'', rx_any [rx_word ''s'', Eps]],
      rx_seq [rx_any [rx_word ''system'', rx_word ''developer''], rx_spaces, rx_any [rx_word ''prompt'', rx_word ''message''],
        rx_spaces, Ch (\<lambda>c. c = 58)],
      rx_seq [rx_any [rx_word ''reveal'', rx_word ''print'', rx_word ''show''], rx_some_spaces,
        rx_any [rx_seq [rx_word ''the'', rx_some_spaces], Eps],
        rx_any [rx_word ''secret'', rx_seq [rx_word ''api'', rx_spaces, rx_word ''key''],
          rx_seq [rx_word ''system'', rx_spaces, rx_word ''prompt'']]],
      rx_seq [rx_text [24573, 30053], rx_any [rx_text [20043, 21069], rx_text [20197, 19978], rx_text [25152, 26377]],
        Many 12 (\<lambda>c. c \<noteq> 10), rx_any [rx_text [25351, 20196], rx_text [25552, 31034, 35789]]],
      rx_seq [rx_any [rx_text [31995, 32479], rx_text [24320, 21457, 32773]],
        rx_any [rx_text [28040, 24687], rx_text [25552, 31034, 35789]], rx_spaces, Ch (\<lambda>c. c = 65306 \<or> c = 58)]]"

section \<open>Sanitizing\<close>

text \<open>The callbacks of \<^verbatim>\<open>HTMLParser\<close>, in the order in which \<^verbatim>\<open>feed\<close> and \<^verbatim>\<open>close\<close> make them.\<close>

datatype html_event = StartTag string | EndTag string | Data utext

record html_parser =
  hp_parts :: "utext list"
  hp_block_depth :: nat

definition blocked_tags :: "string list" where
  "blocked_tags = [''script'', ''style'', ''iframe'', ''object'', ''embed'', ''svg'', ''math'', ''template'']"

definition break_tags :: "string list" where
  "break_tags = [''p'', ''div'', ''br'', ''li'', ''section'', ''article'', ''tr'', ''h1'', ''h2'', ''h3'', ''h4'']"

definition handle_starttag :: "string \<Rightarrow> html_parser \<Rightarrow> html_parser" where
  "handle_starttag tag p =
     (if tag \<in> set blocked_tags then p\<lparr>hp_block_depth := hp_block_depth p + 1\<rparr>
      else if hp_block_depth p = 0 \<and> tag \<in> set break_tags then p\<lparr>hp_parts := hp_parts p @ [[10]]\<rparr>
      else p)"

definition handle_endtag :: "string \<Rightarrow> html_parser \<Rightarrow> html_parser" where
  "handle_endtag tag p =
     (if tag \<in> set blocked_tags then p\<lparr>hp_block_depth := hp_block_depth p - 1\<rparr>
      else if hp_block_depth p = 0 \<and> tag \<in> set break_tags then p\<lparr>hp_parts := hp_parts p @ [[10]]\<rparr>
      else p)"

definition handle_data :: "utext \<Rightarrow> html_parser \<Rightarrow> html_parser" where
  "handle_data d p = (if hp_block_depth p = 0 then p\<lparr>hp_parts := hp_parts p @ [d]\<rparr> else p)"

fun handle_event :: "html_event \<Rightarrow> html_parser \<Rightarrow> html_parser" where
  "handle_event (StartTag t) p = handle_starttag t p"
| "handle_event (EndTag t) p = handle_endtag t p"
| "handle_event (Data d) p = handle_data d p"

definition inert_text :: "html_event list \<Rightarrow> utext" where
  "inert_text es = concat (hp_parts (fold handle_event es \<lparr>hp_parts = [], hp_block_depth = 0\<rparr>))"

record text_env =
  te_nfkc :: "utext \<Rightarrow> utext"
  te_lower :: "utext \<Rightarrow> utext"
  te_html :: "utext \<Rightarrow> html_event list"

definition u_control :: "nat \<Rightarrow> bool" where
  "u_control c \<longleftrightarrow> c \<le> 8 \<or> c = 11 \<or> c = 12 \<or> (14 \<le> c \<and> c \<le> 31) \<or> c = 127"

text \<open>\<^verbatim>\<open>[ \t]+\<close> becomes one blank, \<^verbatim>\<open>\n{3,}\<close> two line feeds.\<close>

definition u_blank :: "nat \<Rightarrow> bool" where
  "u_blank c \<longleftrightarrow> c = 32 \<or> c = 9"

fun collapse_blanks :: "bool \<Rightarrow> utext \<Rightarrow> utext" where
  "collapse_blanks in_run [] = []"
| "collapse_blanks in_run (c # s) =
     (if u_blank c then (if in_run then collapse_blanks True s else 32 # collapse_blanks True s)
      else c # collapse_blanks False s)"

fun collapse_newlines :: "nat \<Rightarrow> utext \<Rightarrow> utext" where
  "collapse_newlines n [] = []"
| "collapse_newlines n (c # s) =
     (if c = 10 then (if n < 2 then 10 # collapse_newlines (n + 1) s else collapse_newlines n s)
      else c # collapse_newlines 0 s)"

record SanitizedText =
  san_content :: utext
  san_injection_suspected :: bool

definition sanitize :: "text_env \<Rightarrow> utext \<Rightarrow> knowledge_error + SanitizedText" where
  "sanitize te content =
     (if length content > MAX_DOCUMENT_CHARS then Inl KnowledgeValueError
      else
        let normalized = te_nfkc te (filter (\<lambda>c. \<not> u_control c) content);
            raw = inert_text (te_html te normalized);
            joined = u_join [10] (map (\<lambda>line. u_strip (collapse_blanks False line)) (splitlines raw));
            inert = u_strip (collapse_newlines 0 joined)
        in if inert = [] then Inl KnowledgeValueError
           else if length inert > MAX_DOCUMENT_CHARS then Inl KnowledgeValueError
           else Inr \<lparr>san_content = inert,
                     san_injection_suspected = list_ex (\<lambda>r. rx_search r inert) INJECTION_PATTERNS\<rparr>)"

section \<open>Tokens\<close>

definition u_cjk :: "nat \<Rightarrow> bool" where
  "u_cjk c \<longleftrightarrow> (13312 \<le> c \<and> c \<le> 19903) \<or> (19968 \<le> c \<and> c \<le> 40959) \<or> (63744 \<le> c \<and> c \<le> 64255)"

definition u_alnum :: "nat \<Rightarrow> bool" where
  "u_alnum c \<longleftrightarrow> (48 \<le> c \<and> c \<le> 57) \<or> (65 \<le> c \<and> c \<le> 90) \<or> (97 \<le> c \<and> c \<le> 122)"

definition u_wordchar :: "nat \<Rightarrow> bool" where
  "u_wordchar c \<longleftrightarrow> u_alnum c \<or> c = 95 \<or> c = 43 \<or> c = 46 \<or> c = 45"

text \<open>\<^verbatim>\<open>_WORD_RE.finditer\<close>: a letter or digit and up to 63 further characters of a word.\<close>

function latin_words :: "utext \<Rightarrow> utext list" where
  "latin_words s =
     (case dropWhile (\<lambda>c. \<not> u_alnum c) s of
        [] \<Rightarrow> []
      | c # t \<Rightarrow> (c # take 63 (takeWhile u_wordchar t)) # latin_words (drop (length (take 63 (takeWhile u_wordchar t))) t))"
  by pat_completeness auto

lemma dropWhile_Cons_drop: "dropWhile P s = c # t \<Longrightarrow> length (drop n t) < length s"
  by (metis diff_le_self le_less_trans length_Cons length_drop length_dropWhile_le_list less_Suc_eq_le not_less_eq)

termination latin_words
  by (relation "measure length", simp, simp only: in_measure) (rule dropWhile_Cons_drop)

declare latin_words.simps [simp del]

definition span_terms :: "utext \<Rightarrow> utext list" where
  "span_terms chars = map (\<lambda>c. [c]) chars @ map (\<lambda>i. take 2 (drop i chars)) [0..<length chars - 1]"

definition tokenize :: "text_env \<Rightarrow> utext \<Rightarrow> utext list" where
  "tokenize te t =
     (let normalized = te_lower te (te_nfkc te t)
      in from_keys (filter (\<lambda>term. term \<noteq> []) (concat (map span_terms (spans u_cjk normalized)) @ latin_words normalized)))"

definition lexical_document :: "text_env \<Rightarrow> utext \<Rightarrow> utext" where
  "lexical_document te t = u_join [32] (tokenize te t)"

definition count_tokens_approximately :: "utext list \<Rightarrow> nat" where
  "count_tokens_approximately tokens = max 1 (length tokens)"

section \<open>Chunks\<close>

record chunker =
  ck_target_chars :: nat
  ck_overlap_chars :: nat

definition new_chunker :: "int \<Rightarrow> int \<Rightarrow> knowledge_error + chunker" where
  "new_chunker target overlap =
     (if target < 200 \<or> target > int MAX_CHUNK_CHARS then Inl KnowledgeValueError
      else if overlap < 0 \<or> overlap \<ge> target then Inl KnowledgeValueError
      else Inr \<lparr>ck_target_chars = nat target, ck_overlap_chars = nat overlap\<rparr>)"

definition default_chunker :: chunker where
  "default_chunker = \<lparr>ck_target_chars = 2400, ck_overlap_chars = 240\<rparr>"

text \<open>
  \<^verbatim>\<open>re.split(r"\n\s*\n", content)\<close>: a separator starts at a line feed with another one in the white space after it and ends
  with the last of those.
\<close>

definition after_blank :: "utext \<Rightarrow> utext" where
  "after_blank s =
     (let ws = takeWhile u_space s in drop (length ws - length (takeWhile (\<lambda>c. c \<noteq> 10) (rev ws))) s)"

function paragraph_split :: "utext \<Rightarrow> utext \<Rightarrow> utext list" where
  "paragraph_split acc [] = [rev acc]"
| "paragraph_split acc (c # s) =
     (if c = 10 \<and> 10 \<in> set (takeWhile u_space s) then rev acc # paragraph_split [] (after_blank s)
      else paragraph_split (c # acc) s)"
  by pat_completeness auto

termination paragraph_split by (relation "measure (length \<circ> snd)") (auto simp: after_blank_def Let_def)

definition paragraphs :: "utext \<Rightarrow> utext list" where
  "paragraphs content = filter (\<lambda>p. p \<noteq> []) (map u_strip (paragraph_split [] content))"

function windows :: "chunker \<Rightarrow> utext \<Rightarrow> nat \<Rightarrow> utext list" where
  "windows k p start =
     (if start < length p then
        (let stop = min (length p) (start + ck_target_chars k);
             part = u_strip (take (stop - start) (drop start p))
         in if stop \<ge> length p then [part]
            else part # windows k p (max (start + 1) (stop - ck_overlap_chars k)))
      else [])"
  by pat_completeness auto

termination windows by (relation "measure (\<lambda>(k, p, start). length p - start)") auto

declare windows.simps [simp del]

definition text_units :: "chunker \<Rightarrow> utext list \<Rightarrow> utext list" where
  "text_units k ps = concat (map (\<lambda>p. if length p \<le> ck_target_chars k then [p] else windows k p 0) ps)"

definition overlap_prefix :: "chunker \<Rightarrow> utext \<Rightarrow> utext" where
  "overlap_prefix k current = (if ck_overlap_chars k \<noteq> 0 then u_strip (drop (length current - ck_overlap_chars k) current) else [])"

definition glue :: "utext \<Rightarrow> utext \<Rightarrow> utext" where
  "glue a b = (if a = [] then b else u_strip (a @ [10, 10] @ b))"

primrec pack :: "chunker \<Rightarrow> utext \<Rightarrow> utext list \<Rightarrow> utext list" where
  "pack k current [] = (if current = [] then [] else [current])"
| "pack k current (u # us) =
     (if length (glue current u) \<le> ck_target_chars k then pack k (glue current u) us
      else if current \<noteq> [] then current # pack k (glue (overlap_prefix k current) u) us
      else pack k u us)"

definition split_text :: "chunker \<Rightarrow> utext \<Rightarrow> knowledge_error + utext list" where
  "split_text k content =
     (let packed = pack k [] (text_units k (paragraphs content));
          chunks = (if packed = [] \<and> u_strip content \<noteq> [] then [u_strip content] else packed)
      in if list_ex (\<lambda>c. c = [] \<or> length c > MAX_CHUNK_CHARS) chunks then Inl KnowledgeValueError else Inr chunks)"

end
