(* ===== verification/RAG_Chunks.thy ===== *)
theory RAG_Chunks
  imports RAG_Text
begin

text \<open>
  Facts about texts, tokens and chunks: stripping keeps every phrase, stored term lines read back as the tokens they were made
  of, chunks are bounded and no phrase that fits the overlap is cut.
\<close>

section \<open>Stripping\<close>

definition stripped :: "utext \<Rightarrow> bool" where
  "stripped s \<longleftrightarrow> s = [] \<or> \<not> u_space (hd s) \<and> \<not> u_space (last s)"

definition phrase :: "utext \<Rightarrow> bool" where
  "phrase w \<longleftrightarrow> w \<noteq> [] \<and> \<not> u_space (hd w) \<and> \<not> u_space (last w)"

lemma stripped_Nil [simp]: "stripped []"
  by (simp add: stripped_def)

lemma u_strip_split:
  obtains a b where "s = a @ u_strip s @ b" and "list_all u_space a" and "list_all u_space b"
proof -
  let ?t = "dropWhile u_space s"
  have "s = takeWhile u_space s @ ?t" by simp
  moreover have "?t = u_strip s @ rev (takeWhile u_space (rev ?t))"
    unfolding u_strip_def by (metis rev_append rev_rev_ident takeWhile_dropWhile_id)
  ultimately have "s = takeWhile u_space s @ u_strip s @ rev (takeWhile u_space (rev ?t))" by simp
  moreover have "list_all u_space (takeWhile u_space s)" "list_all u_space (rev (takeWhile u_space (rev ?t)))"
    by (auto simp: list_all_iff dest: set_takeWhileD)
  ultimately show thesis using that by blast
qed

lemma dropWhile_hd: "s = [] \<or> \<not> P (hd s) \<Longrightarrow> dropWhile P s = s"
  by (cases s) auto

lemma dropWhile_phrase: "w \<noteq> [] \<Longrightarrow> \<not> P (hd w) \<Longrightarrow> dropWhile P (p @ w @ q) = dropWhile P p @ w @ q"
  by (induction p) (auto simp: dropWhile_hd)

lemma stripped_u_strip [simp]: "stripped (u_strip s)"
proof (cases "u_strip s = []")
  case False
  let ?t = "dropWhile u_space s"
  let ?r = "dropWhile u_space (rev ?t)"
  have r: "?r \<noteq> []" and u: "u_strip s = rev ?r" using False by (simp_all add: u_strip_def del: dropWhile_eq_Nil_conv)
  then have t: "?t \<noteq> []" by (metis dropWhile.simps(1) rev.simps(1))
  have "\<not> u_space (last (u_strip s))" unfolding u last_rev by (rule hd_dropWhile [OF r])
  moreover have "last ?r = last (rev ?t)" using r by (metis last_appendR takeWhile_dropWhile_id)
  then have "hd (u_strip s) = hd ?t" unfolding u hd_rev by (simp only: last_rev)
  ultimately show ?thesis using hd_dropWhile [OF t] by (simp add: stripped_def)
qed simp

lemma u_strip_id: "stripped s \<Longrightarrow> u_strip s = s"
  by (auto simp: stripped_def u_strip_def dropWhile_hd hd_rev)

lemma u_strip_length: "length (u_strip s) \<le> length s"
  by (metis length_append le_add1 le_add2 order_trans u_strip_split)

lemma u_strip_Nil: "u_strip s = [] \<longleftrightarrow> list_all u_space s"
proof
  assume "u_strip s = []"
  then show "list_all u_space s" using u_strip_split [of s] by (metis append_Nil list_all_append)
next
  assume "list_all u_space s"
  then have "dropWhile u_space s = []" by (simp add: list_all_iff)
  then show "u_strip s = []" by (simp only: u_strip_def rev.simps dropWhile.simps)
qed

text \<open>A phrase begins and ends with something visible, so stripping does not touch it.\<close>

lemma phrase_u_strip:
  assumes "phrase w" and "sublist w s"
  shows "sublist w (u_strip s)"
proof -
  obtain p q where s: "s = p @ w @ q" using assms(2) by (auto simp: sublist_def)
  let ?p = "dropWhile u_space p"
  have 1: "dropWhile u_space s = ?p @ w @ q" using assms(1) unfolding s phrase_def by (intro dropWhile_phrase) simp_all
  have "dropWhile u_space (rev q @ rev w @ rev ?p) = dropWhile u_space (rev q) @ rev w @ rev ?p"
    using assms(1) by (intro dropWhile_phrase) (simp_all add: phrase_def hd_rev)
  then have "u_strip s = ?p @ w @ rev (dropWhile u_space (rev q))"
    unfolding u_strip_def 1 by simp
  then show ?thesis unfolding sublist_def by blast
qed

lemma glue_stripped: "stripped a \<Longrightarrow> stripped b \<Longrightarrow> stripped (glue a b)"
  by (simp add: glue_def)

lemma glue_length: "length (glue a b) \<le> length a + 2 + length b"
  using u_strip_length [of "a @ [10, 10] @ b"] by (auto simp: glue_def)

lemma glue_keeps:
  assumes "phrase w" and "sublist w a \<or> sublist w b"
  shows "sublist w (glue a b)"
proof (cases "a = []")
  case True
  with assms show ?thesis by (auto simp: glue_def phrase_def)
next
  case False
  have "sublist w (a @ [10, 10] @ b)" using assms(2) by (metis sublist_append append_assoc)
  with assms(1) False show ?thesis by (simp add: glue_def phrase_u_strip)
qed

section \<open>Chunks\<close>

lemma windows_bounded: "x \<in> set (windows k p start) \<Longrightarrow> stripped x \<and> length x \<le> ck_target_chars k"
proof (induction k p start rule: windows.induct)
  case (1 k p start)
  let ?stop = "min (length p) (start + ck_target_chars k)"
  let ?part = "u_strip (take (?stop - start) (drop start p))"
  have len: "length ?part \<le> ck_target_chars k" by (rule order_trans [OF u_strip_length]) simp
  consider "x = ?part" | "start < length p" "\<not> length p \<le> ?stop" "x \<in> set (windows k p (max (start + 1) (?stop - ck_overlap_chars k)))"
    using 1(2) unfolding windows.simps [of k p start] Let_def by (auto simp del: take_eq_Nil split: if_split_asm)
  then show ?case
  proof cases
    case 1
    then show ?thesis using len by simp
  next
    case 2
    show ?thesis by (rule 1(1) [OF 2(1) refl refl 2(2,3)])
  qed
qed

lemma windows_cover:
  assumes "phrase w" and "p = a @ w @ b" and "length w \<le> ck_overlap_chars k + 1" and "ck_overlap_chars k < ck_target_chars k"
    and "start \<le> length a"
  shows "\<exists>x \<in> set (windows k p start). sublist w x"
  using assms
proof (induction k p start rule: windows.induct)
  case (1 k p start)
  let ?stop = "min (length p) (start + ck_target_chars k)"
  let ?next = "max (start + 1) (?stop - ck_overlap_chars k)"
  have lt: "start < length p" using 1(2,3,6) by (cases w) (auto simp: phrase_def)
  have whole: "sublist w (u_strip (take (?stop - start) (drop start p)))" if "length a + length w \<le> ?stop"
  proof -
    have "drop start p = drop start a @ w @ b" using 1(3,6) by simp
    then have "take (?stop - start) (drop start p) = drop start a @ w @ take (?stop - length a - length w) b"
      using that 1(6) by (simp add: take_Cons' min_def)
    then show ?thesis using 1(2) by (intro phrase_u_strip) (auto simp: sublist_def)
  qed
  show ?case
  proof (cases "?stop \<ge> length p")
    case True
    then have "length a + length w \<le> ?stop" using 1(3) by simp
    with True lt whole show ?thesis unfolding windows.simps [of k p start] Let_def by simp
  next
    case False
    then have stop: "?stop = start + ck_target_chars k" by simp
    have ws: "windows k p start = u_strip (take (?stop - start) (drop start p)) # windows k p ?next"
      using False lt unfolding windows.simps [of k p start] Let_def by simp
    show ?thesis
    proof (cases "?next \<le> length a")
      case True
      then show ?thesis using 1(1) [OF lt refl refl False 1(2-5)] ws by (simp add: Let_def)
    next
      case nlt: False
      then have "length a + length w \<le> ?stop" using stop 1(4-6) by linarith
      with whole ws show ?thesis by simp
    qed
  qed
qed

lemma text_units_ok: "list_all stripped ps \<Longrightarrow> x \<in> set (text_units k ps) \<Longrightarrow> stripped x \<and> length x \<le> ck_target_chars k"
  by (fastforce simp: text_units_def list_all_iff dest: windows_bounded split: if_splits)

lemma text_units_cover:
  assumes "p \<in> set ps" and "phrase w" and "sublist w p" and "length w \<le> ck_overlap_chars k + 1" and "ck_overlap_chars k < ck_target_chars k"
  shows "\<exists>x \<in> set (text_units k ps). sublist w x"
proof -
  obtain a b where "p = a @ w @ b" using assms(3) by (auto simp: sublist_def)
  then have "\<exists>x \<in> set (windows k p 0). sublist w x" using windows_cover [OF assms(2) _ assms(4,5)] by simp
  then obtain x where x: "x \<in> set (windows k p 0)" "sublist w x" by blast
  let ?f = "\<lambda>p. if length p \<le> ck_target_chars k then [p] else windows k p 0"
  have "\<exists>y \<in> set (?f p). sublist w y" using x assms(3) by auto
  with assms(1) show ?thesis by (simp only: text_units_def set_concat set_map UN_iff) blast
qed

lemma overlap_prefix_ok: "stripped (overlap_prefix k c)" "length (overlap_prefix k c) \<le> ck_overlap_chars k"
  using u_strip_length [of "drop (length c - ck_overlap_chars k) c"] by (auto simp: overlap_prefix_def)

lemma pack_bounded:
  assumes "stripped current" and "length current \<le> ck_target_chars k + ck_overlap_chars k + 2"
    and "\<forall>u \<in> set us. stripped u \<and> length u \<le> ck_target_chars k"
  shows "\<forall>c \<in> set (pack k current us). phrase c \<and> length c \<le> ck_target_chars k + ck_overlap_chars k + 2"
  using assms
proof (induction us arbitrary: current)
  case Nil
  then show ?case by (auto simp: stripped_def phrase_def)
next
  case (Cons u us)
  have u: "stripped u" "length u \<le> ck_target_chars k" and us: "\<forall>u \<in> set us. stripped u \<and> length u \<le> ck_target_chars k"
    using Cons.prems(3) by auto
  have g: "stripped (glue current u)" by (rule glue_stripped [OF Cons.prems(1) u(1)])
  have o: "stripped (glue (overlap_prefix k current) u)" by (rule glue_stripped [OF overlap_prefix_ok(1) u(1)])
  have ol: "length (glue (overlap_prefix k current) u) \<le> ck_target_chars k + ck_overlap_chars k + 2"
    using glue_length [of "overlap_prefix k current" u] overlap_prefix_ok(2) [of k current] u(2) by linarith
  show ?case
    using Cons.IH [OF g _ us] Cons.IH [OF o ol us] Cons.IH [OF u(1) _ us] u(2) Cons.prems(1,2)
    by (auto simp: stripped_def phrase_def)
qed

lemma pack_keeps:
  assumes "phrase w" and "sublist w current \<or> (\<exists>u \<in> set us. sublist w u)"
  shows "\<exists>c \<in> set (pack k current us). sublist w c"
  using assms(2)
proof (induction us arbitrary: current)
  case Nil
  with assms(1) show ?case by (auto simp: phrase_def)
next
  case (Cons u us)
  show ?case
  proof (cases "sublist w current \<or> sublist w u")
    case True
    note g = glue_keeps [OF assms(1) True]
    have o: "sublist w u \<Longrightarrow> sublist w (glue (overlap_prefix k current) u)" by (rule glue_keeps [OF assms(1)]) simp
    have n: "current = [] \<Longrightarrow> sublist w u" using True assms(1) by (auto simp: phrase_def)
    show ?thesis using Cons.IH [of "glue current u"] Cons.IH [of "glue (overlap_prefix k current) u"] Cons.IH [of u] g o n True by auto
  next
    case False
    then have "\<exists>u \<in> set us. sublist w u" using Cons.prems by auto
    then show ?thesis using Cons.IH by auto
  qed
qed

text \<open>
  What the splitter gives, for a chunker whose target and overlap together fit the public bound: chunks without outer white space,
  within the bound, that contain every phrase of a paragraph that is at most one character longer than the overlap.
\<close>

lemma paragraphs_stripped: "list_all stripped (paragraphs content)"
  by (auto simp: paragraphs_def list_all_iff)

abbreviation visible :: "utext \<Rightarrow> utext" where
  "visible s \<equiv> filter (\<lambda>c. \<not> u_space c) s"

lemma u_space_newline [simp]: "u_space 10"
  by (simp add: u_space_def)

lemma visible_spaces: "list_all u_space s \<Longrightarrow> visible s = []"
  by (simp add: list_all_iff filter_empty_conv)

lemma after_blank_visible: "visible (after_blank s) = visible s"
proof -
  let ?ws = "takeWhile u_space s"
  let ?n = "length ?ws - length (takeWhile (\<lambda>c. c \<noteq> 10) (rev ?ws))"
  have "take ?n s = take ?n ?ws" by (metis append_eq_conv_conj take_add takeWhile_dropWhile_id take_append diff_le_self diff_is_0_eq' take0 append_Nil2)
  then have "visible (take ?n s) = []" by (auto simp: filter_empty_conv dest!: in_set_takeD set_takeWhileD)
  then show ?thesis by (metis after_blank_def append_Nil append_take_drop_id filter_append)
qed

lemma paragraph_split_visible: "visible (concat (paragraph_split acc s)) = visible (rev acc @ s)"
  by (induction acc s rule: paragraph_split.induct) (auto simp: after_blank_visible)

lemma u_strip_visible: "visible (u_strip s) = visible s"
proof -
  obtain a b where "s = a @ u_strip s @ b" and "list_all u_space a" and "list_all u_space b" by (rule u_strip_split)
  then show ?thesis by (metis append_Nil append_Nil2 filter_append visible_spaces)
qed

lemma paragraphs_visible: "visible (concat (paragraphs content)) = visible content"
proof -
  have "concat (filter (\<lambda>p. p \<noteq> []) xs) = concat xs" for xs :: "utext list" by (induction xs) auto
  moreover have "visible (concat (map u_strip xs)) = visible (concat xs)" for xs
    by (induction xs) (simp_all add: u_strip_visible)
  ultimately show ?thesis using paragraph_split_visible [of "[]" content] by (simp add: paragraphs_def)
qed

lemma stripped_phrase: "stripped p \<Longrightarrow> p \<noteq> [] \<Longrightarrow> phrase [hd p] \<and> sublist [hd p] p"
  by (cases p) (auto simp: stripped_def phrase_def)

lemma split_text_total:
  assumes "ck_target_chars k + ck_overlap_chars k + 2 \<le> MAX_CHUNK_CHARS" and "ck_overlap_chars k < ck_target_chars k"
  shows "split_text k content = Inr (pack k [] (text_units k (paragraphs content))) \<and>
    (\<forall>c \<in> set (pack k [] (text_units k (paragraphs content))). phrase c \<and> length c \<le> ck_target_chars k + ck_overlap_chars k + 2)"
proof -
  let ?chunks = "pack k [] (text_units k (paragraphs content))"
  have b: "\<forall>c \<in> set ?chunks. phrase c \<and> length c \<le> ck_target_chars k + ck_overlap_chars k + 2"
    by (rule pack_bounded) (auto dest: text_units_ok [OF paragraphs_stripped])
  have "u_strip content = []" if empty: "?chunks = []"
  proof -
    have "paragraphs content = []"
    proof (rule ccontr)
      assume "paragraphs content \<noteq> []"
      then obtain p where p: "p \<in> set (paragraphs content)" by (cases "paragraphs content") auto
      then have "stripped p" "p \<noteq> []" using paragraphs_stripped by (auto simp: list_all_iff paragraphs_def)
      note w = stripped_phrase [OF this]
      have "\<exists>x \<in> set (text_units k (paragraphs content)). sublist [hd p] x"
        by (rule text_units_cover [OF p]) (use w assms(2) in auto)
      then have "\<exists>c \<in> set ?chunks. sublist [hd p] c" using pack_keeps w by blast
      with empty show False by simp
    qed
    then have "visible content = []" using paragraphs_visible [of content] by simp
    then show ?thesis by (simp add: u_strip_Nil list_all_iff filter_empty_conv)
  qed
  with b assms(1) show ?thesis
    by (fastforce simp: split_text_def Let_def list_ex_iff phrase_def)
qed

section \<open>Tokens\<close>

lemma list_all_takeWhile: "list_all P (takeWhile P s)"
  by (auto simp: list_all_iff dest: set_takeWhileD)

lemma list_all_take: "list_all P s \<Longrightarrow> list_all P (take n s)"
  by (auto simp: list_all_iff dest: in_set_takeD)

lemma spans_parts: "x \<in> set (spans P s) \<Longrightarrow> x \<noteq> [] \<and> list_all P x"
proof (induction P s rule: spans.induct)
  case (1 P s)
  show ?case
  proof (cases "dropWhile (\<lambda>c. \<not> P c) s")
    case Nil
    have "spans P s = []" unfolding spans.simps [of P s] Nil by simp
    with 1(2) show ?thesis by simp
  next
    case (Cons c t)
    have "P c" using hd_dropWhile [of "\<lambda>c. \<not> P c" s] unfolding Cons by simp
    then have first: "list_all P (c # takeWhile P t)" by (simp add: list_all_takeWhile)
    have "x = c # takeWhile P t \<or> x \<in> set (spans P (dropWhile P t))"
      using 1(2) unfolding spans.simps [of P s] Cons by simp
    then show ?thesis using 1(1) [OF Cons] first by blast
  qed
qed

lemma latin_words_parts: "x \<in> set (latin_words s) \<Longrightarrow> x \<noteq> [] \<and> list_all u_wordchar x"
proof (induction s rule: latin_words.induct)
  case (1 s)
  show ?case
  proof (cases "dropWhile (\<lambda>c. \<not> u_alnum c) s")
    case Nil
    have "latin_words s = []" unfolding latin_words.simps [of s] Nil by simp
    with 1(2) show ?thesis by simp
  next
    case (Cons c t)
    let ?w = "take 63 (takeWhile u_wordchar t)"
    have "u_wordchar c" using hd_dropWhile [of "\<lambda>c. \<not> u_alnum c" s] unfolding Cons by (simp add: u_wordchar_def)
    then have first: "list_all u_wordchar (c # ?w)" by (simp add: list_all_take list_all_takeWhile)
    have "x = c # ?w \<or> x \<in> set (latin_words (drop (length ?w) t))"
      using 1(2) unfolding latin_words.simps [of s] Cons by simp
    then show ?thesis using 1(1) [OF Cons] first by blast
  qed
qed

lemma spans_skip: "\<not> P c \<Longrightarrow> spans P (c # s) = spans P s"
  by (simp add: spans.simps [of P "c # s"] spans.simps [of P s])

lemma spans_append:
  assumes "x \<noteq> []" and "list_all P x" and "s = [] \<or> \<not> P (hd s)"
  shows "spans P (x @ s) = x # spans P s"
proof -
  obtain c t where x: "x = c # t" using assms(1) by (cases x) auto
  have "takeWhile P (t @ s) = t \<and> dropWhile P (t @ s) = s"
    using assms(2,3) unfolding x by (cases s) (auto simp: list_all_iff takeWhile_append dropWhile_append)
  with assms(2) show ?thesis unfolding x by (simp add: spans.simps [of P "c # t @ s"])
qed

lemma u_split_join:
  assumes "\<forall>t \<in> set ts. t \<noteq> [] \<and> list_all (\<lambda>c. \<not> u_space c) t"
  shows "u_split (u_join [32] ts) = ts"
  using assms
proof (induction "[32 :: nat]" ts rule: u_join.induct)
  case 1
  then show ?case by (simp add: u_split_def spans.simps)
next
  case (2 x)
  have "spans (\<lambda>c. \<not> u_space c) (x @ []) = x # spans (\<lambda>c. \<not> u_space c) []" by (rule spans_append) (use 2 in auto)
  then show ?case by (simp add: u_split_def spans.simps [of _ "[]"])
next
  case (3 x y xs)
  have sp: "u_space 32" by (simp add: u_space_def)
  have "spans (\<lambda>c. \<not> u_space c) (x @ 32 # u_join [32] (y # xs)) = x # spans (\<lambda>c. \<not> u_space c) (32 # u_join [32] (y # xs))"
    by (rule spans_append) (use 3 sp in auto)
  with 3 sp show ?case by (simp add: u_split_def spans_skip)
qed

lemma set_from_keys [simp]: "set (from_keys xs) = set xs"
  by (simp add: from_keys_def)

lemma distinct_from_keys [simp]: "distinct (from_keys xs)"
  by (simp add: from_keys_def)

lemma cjk_visible: "u_cjk c \<Longrightarrow> \<not> u_space c"
  by (auto simp: u_cjk_def u_space_def)

lemma wordchar_visible: "u_wordchar c \<Longrightarrow> \<not> u_space c"
  by (auto simp: u_wordchar_def u_alnum_def u_space_def)

lemma span_terms_parts: "t \<in> set (span_terms x) \<Longrightarrow> set t \<subseteq> set x"
  by (auto simp: span_terms_def dest: in_set_takeD in_set_dropD)

lemma tokenize_parts:
  assumes "t \<in> set (tokenize te text)"
  shows "t \<noteq> [] \<and> list_all (\<lambda>c. \<not> u_space c) t"
proof -
  let ?n = "te_lower te (te_nfkc te text)"
  have "t \<noteq> []" using assms unfolding tokenize_def Let_def set_from_keys set_filter by blast
  consider x where "x \<in> set (spans u_cjk ?n)" "t \<in> set (span_terms x)" | "t \<in> set (latin_words ?n)"
    using assms unfolding tokenize_def Let_def set_from_keys set_filter set_append set_concat set_map by blast
  then have "\<forall>c \<in> set t. \<not> u_space c"
  proof cases
    case (1 x)
    have "\<forall>c \<in> set x. u_cjk c" using spans_parts [OF 1(1)] by (simp add: list_all_iff)
    then show ?thesis using span_terms_parts [OF 1(2)] cjk_visible by blast
  next
    case 2
    then have "\<forall>c \<in> set t. u_wordchar c" using latin_words_parts [of t] by (simp add: list_all_iff)
    then show ?thesis using wordchar_visible by blast
  qed
  with \<open>t \<noteq> []\<close> show ?thesis by (simp add: list_all_iff)
qed

end
