(* ===== verification/RAG_Memory.thy ===== *)
theory RAG_Memory
  imports RAG_Text Floats
begin

text \<open>
  Ingestion and retrieval of knowledge: \<^verbatim>\<open>agent/travel_agent/rag/pipeline.py\<close>, the repository of
  \<^verbatim>\<open>memory.py\<close> and the tenant-bound retriever of \<^verbatim>\<open>service.py\<close>. The repository works under a lock, so
  each operation is a function on its state; retrieval takes a snapshot and does not change it. Hashes, the embedding
  provider and the similarity of vectors are parameters, drawn identifiers and clock readings arguments. Scores are doubles.
\<close>

section \<open>Preparing a document\<close>

record embedding_provider =
  emb_semantic_capable :: bool
  emb_dimension :: nat
  emb_model_version :: string
  emb_embed_documents :: "utext list \<Rightarrow> knowledge_error + pyfloat list list"
  emb_embed_query :: "utext \<Rightarrow> knowledge_error + pyfloat list"

record rag_env =
  rag_text :: text_env
  rag_sha256_text :: "utext \<Rightarrow> string"
  rag_request_hash :: "IngestDocumentRequest \<Rightarrow> string \<Rightarrow> string"
  rag_command_hash :: "KnowledgeDocumentStatusCommand \<Rightarrow> string"
  rag_embedding_provider :: "embedding_provider option"
  rag_cosine_similarity :: "rat list \<Rightarrow> rat list \<Rightarrow> rat"

record PreparedIngestion =
  prep_source :: KnowledgeSource
  prep_document :: KnowledgeDocument
  prep_chunks :: "KnowledgeChunk list"
  prep_request_hash :: string

definition scope_key :: "string \<Rightarrow> VisibilityScope \<Rightarrow> string" where
  "scope_key tenant_id v = (if v = Vs_public then ''__public__'' else tenant_id)"

definition TOKENIZER_VERSION :: string where "TOKENIZER_VERSION = ''routepilot-cjk-bigram@1''"
definition CHUNKER_VERSION :: string where "CHUNKER_VERSION = ''paragraph-window@1''"

text \<open>The hash of the request covers everything but the content, and the hash of the sanitized content.\<close>

definition request_hash_of :: "rag_env \<Rightarrow> IngestDocumentRequest \<Rightarrow> string \<Rightarrow> string" where
  "request_hash_of env q content_hash = rag_request_hash env (q\<lparr>ing_content := []\<rparr>) content_hash"

definition persisted_tenant :: "string \<Rightarrow> IngestDocumentRequest \<Rightarrow> string option" where
  "persisted_tenant tenant_id q = (if ing_visibility_scope q = Vs_tenant then Some tenant_id else None)"

definition prepared_source :: "string \<Rightarrow> IngestDocumentRequest \<Rightarrow> string \<Rightarrow> instant \<Rightarrow> KnowledgeSource" where
  "prepared_source tenant_id q source_id now =
     \<lparr>src_source_id = source_id, src_tenant_id = persisted_tenant tenant_id q, src_visibility_scope = ing_visibility_scope q,
      src_canonical_source_uri = ing_canonical_source_uri q, src_source_type = ing_source_type q, src_trust_tier = ing_trust_tier q,
      src_license = ing_license q, src_created_at = now, src_updated_at = now\<rparr>"

definition prepared_document ::
    "string \<Rightarrow> IngestDocumentRequest \<Rightarrow> string \<Rightarrow> string \<Rightarrow> string \<Rightarrow> bool \<Rightarrow> instant \<Rightarrow> KnowledgeDocument" where
  "prepared_document tenant_id q source_id document_id content_hash suspected now =
     \<lparr>doc_document_id = document_id, doc_source_id = source_id, doc_tenant_id = persisted_tenant tenant_id q,
      doc_visibility_scope = ing_visibility_scope q, doc_source_version = ing_source_version q, doc_title = ing_title q,
      doc_language = ing_language q, doc_geo_entities = ing_geo_entities q, doc_tags = ing_tags q,
      doc_published_at = ing_published_at q, doc_observed_at = ing_observed_at q, doc_valid_from = ing_valid_from q,
      doc_valid_until = ing_valid_until q, doc_content_hash = content_hash, doc_parser_version = ing_parser_version q,
      doc_chunker_version = CHUNKER_VERSION, doc_tokenizer_version = TOKENIZER_VERSION, doc_corpus_revision = ing_corpus_revision q,
      doc_trust_tier = ing_trust_tier q, doc_license = ing_license q,
      doc_status = (if suspected then Is_quarantined else Is_published),
      doc_quarantine_reason = (if suspected then Some ''automated prompt-injection signal requires administrator review'' else None),
      doc_injection_suspected = suspected, doc_metadata = ing_metadata q, doc_version = 1,
      doc_created_at = now, doc_updated_at = now\<rparr>"

definition prepared_chunk ::
    "rag_env \<Rightarrow> string \<Rightarrow> IngestDocumentRequest \<Rightarrow> string \<Rightarrow> string \<Rightarrow> bool \<Rightarrow> string \<Rightarrow> nat \<Rightarrow> utext \<Rightarrow> KnowledgeChunk" where
  "prepared_chunk env tenant_id q source_id document_id suspected chunk_id ordinal content =
     (let terms = tokenize (rag_text env) content
      in \<lparr>chk_chunk_id = chunk_id, chk_document_id = document_id, chk_source_id = source_id,
          chk_tenant_id = persisted_tenant tenant_id q, chk_visibility_scope = ing_visibility_scope q, chk_ordinal = ordinal,
          chk_content = content, chk_content_hash = rag_sha256_text env content,
          chk_token_count = count_tokens_approximately terms, chk_lexical_terms = u_join [32] terms,
          chk_canonical_source_uri = ing_canonical_source_uri q, chk_source_version = ing_source_version q,
          chk_source_type = ing_source_type q, chk_source_title = ing_title q, chk_language = ing_language q,
          chk_geo_entities = ing_geo_entities q, chk_tags = ing_tags q, chk_published_at = ing_published_at q,
          chk_observed_at = ing_observed_at q, chk_valid_from = ing_valid_from q, chk_valid_until = ing_valid_until q,
          chk_corpus_revision = ing_corpus_revision q, chk_tokenizer_version = TOKENIZER_VERSION,
          chk_trust_tier = ing_trust_tier q, chk_license = ing_license q, chk_injection_suspected = suspected\<rparr>)"

text \<open>
  The draws are the identifiers of source, document and chunks in this order; a known source keeps its identifier.
\<close>

definition prepare_ingestion ::
    "rag_env \<Rightarrow> string \<Rightarrow> IngestDocumentRequest \<Rightarrow> string option \<Rightarrow> (nat \<Rightarrow> string) \<Rightarrow> instant \<Rightarrow> knowledge_error + PreparedIngestion" where
  "prepare_ingestion env tenant_id q source draw now =
     (if ing_parser_version q \<noteq> ''plain-text@1'' then Inl KnowledgeValueError
      else if ing_chunker_version q \<noteq> CHUNKER_VERSION then Inl KnowledgeValueError
      else
        sbind (sanitize (rag_text env) (ing_content q)) (\<lambda>sanitized.
        let content_hash = rag_sha256_text env (san_content sanitized);
            suspected = san_injection_suspected sanitized;
            source_id = (case source of Some i \<Rightarrow> i | None \<Rightarrow> draw 0);
            document_id = draw 1
        in sbind (split_text default_chunker (san_content sanitized)) (\<lambda>contents.
           let chunks = map (\<lambda>(i, c). prepared_chunk env tenant_id q source_id document_id suspected (draw (2 + i)) i c)
                          (enumerate 0 contents)
           in if \<not> list_all KnowledgeChunk_ok chunks then Inl KnowledgeValueError
              else Inr \<lparr>prep_source = prepared_source tenant_id q source_id now,
                        prep_document = prepared_document tenant_id q source_id document_id content_hash suspected now,
                        prep_chunks = chunks, prep_request_hash = request_hash_of env q content_hash\<rparr>)))"

section \<open>The repository\<close>

record knowledge_repo =
  kr_sources_by_scope_uri :: "(string \<times> string, string) dict"
  kr_documents :: "(string, KnowledgeDocument) dict"
  kr_chunks :: "(string, KnowledgeChunk) dict"
  kr_vectors :: "(string, rat list) dict"
  kr_idempotency :: "(string \<times> string, string \<times> IngestResult) dict"
  kr_content_results :: "(string \<times> string \<times> string \<times> string \<times> string, IngestResult) dict"
  kr_status_idempotency :: "(string \<times> string, string \<times> KnowledgeDocumentStatusResult) dict"

type_synonym 'a rag_op = "knowledge_repo \<Rightarrow> (knowledge_error + 'a) \<times> knowledge_repo"

definition empty_repo :: knowledge_repo where
  "empty_repo = \<lparr>kr_sources_by_scope_uri = [], kr_documents = [], kr_chunks = [], kr_vectors = [], kr_idempotency = [],
     kr_content_results = [], kr_status_idempotency = []\<rparr>"

definition authorize_ingest :: "AuthorizedKnowledgeContext \<Rightarrow> IngestDocumentRequest \<Rightarrow> bool" where
  "authorize_ingest ctx q \<longleftrightarrow> can_manage_tenant_knowledge ctx \<and>
     (ing_visibility_scope q = Vs_public \<longrightarrow> can_manage_public_knowledge ctx)"

fun finite_floats :: "pyfloat list \<Rightarrow> knowledge_error + rat list" where
  "finite_floats [] = Inr []"
| "finite_floats (PyFinite x # xs) = sbind (finite_floats xs) (\<lambda>ys. Inr (x # ys))"
| "finite_floats (_ # xs) = Inl KnowledgeValueError"

definition validate_embedding :: "pyfloat list \<Rightarrow> nat \<Rightarrow> knowledge_error + rat list" where
  "validate_embedding v dimension = (if length v \<noteq> dimension then Inl KnowledgeValueError else finite_floats v)"

definition embed_chunks :: "rag_env \<Rightarrow> KnowledgeChunk list \<Rightarrow> knowledge_error + rat list list \<times> vector_index_status" where
  "embed_chunks env chunks =
     (case rag_embedding_provider env of
        None \<Rightarrow> Inr ([], Vi_disabled)
      | Some p \<Rightarrow>
          if emb_semantic_capable p then
            sbind (emb_embed_documents p (map chk_content chunks)) (\<lambda>raw.
            sbind (smap (\<lambda>v. validate_embedding v (emb_dimension p)) raw) (\<lambda>vectors.
              if length vectors \<noteq> length chunks then Inl KnowledgeValueError else Inr (vectors, Vi_indexed)))
          else Inr ([], Vi_provider_not_semantic))"

definition dset_all :: "('k \<times> 'v) list \<Rightarrow> ('k, 'v) dict \<Rightarrow> ('k, 'v) dict" where
  "dset_all kvs d = fold (\<lambda>(k, v). dset k v) kvs d"

definition content_key :: "string \<Rightarrow> IngestDocumentRequest \<Rightarrow> string \<Rightarrow> string \<times> string \<times> string \<times> string \<times> string" where
  "content_key scope q content_hash =
     (scope, ing_canonical_source_uri q, ing_source_version q, ing_corpus_revision q, content_hash)"

definition ingest_new ::
    "rag_env \<Rightarrow> IngestDocumentRequest \<Rightarrow> string \<Rightarrow> string \<times> string \<Rightarrow> PreparedIngestion \<Rightarrow> IngestResult rag_op" where
  "ingest_new env q scope key prepared s =
     (case embed_chunks env (prep_chunks prepared) of
        Inl e \<Rightarrow> (Inl e, s)
      | Inr (vectors, vector_status) \<Rightarrow>
          let d = prep_document prepared;
              chunks = prep_chunks prepared;
              result = \<lparr>ires_source_id = src_source_id (prep_source prepared), ires_document_id = doc_document_id d,
                        ires_content_hash = doc_content_hash d, ires_chunk_count = length chunks, ires_status = doc_status d,
                        ires_idempotent_replay = False, ires_vector_indexed = (vectors \<noteq> []), ires_vector_status = vector_status\<rparr>
          in (Inr result,
              s\<lparr>kr_sources_by_scope_uri := dset (scope, ing_canonical_source_uri q) (src_source_id (prep_source prepared)) (kr_sources_by_scope_uri s),
                kr_documents := dset (doc_document_id d) d (kr_documents s),
                kr_chunks := dset_all (map (\<lambda>c. (chk_chunk_id c, c)) chunks) (kr_chunks s),
                kr_vectors := dset_all (zip (map chk_chunk_id chunks) vectors) (kr_vectors s),
                kr_idempotency := dset key (prep_request_hash prepared, result) (kr_idempotency s),
                kr_content_results := dset (content_key scope q (doc_content_hash d)) result (kr_content_results s)\<rparr>))"

definition idempotency_key_ok :: "string \<Rightarrow> bool" where
  "idempotency_key_ok key \<longleftrightarrow> 8 \<le> length key \<and> length key \<le> 200"

definition ingest ::
    "rag_env \<Rightarrow> AuthorizedKnowledgeContext \<Rightarrow> IngestDocumentRequest \<Rightarrow> string \<Rightarrow> (nat \<Rightarrow> string) \<Rightarrow> instant \<Rightarrow> IngestResult rag_op" where
  "ingest env ctx q idempotency_key draw now s =
     (if \<not> authorize_ingest ctx q then (Inl KnowledgeAuthorizationError, s)
      else if \<not> idempotency_key_ok idempotency_key then (Inl KnowledgeValueError, s)
      else
        let scope = scope_key (kctx_tenant_id ctx) (ing_visibility_scope q);
            key = (scope, idempotency_key)
        in case prepare_ingestion env (kctx_tenant_id ctx) q None draw now of
             Inl e \<Rightarrow> (Inl e, s)
           | Inr probe \<Rightarrow>
               (case dget (kr_idempotency s) key of
                  Some (h, result) \<Rightarrow>
                    if h \<noteq> prep_request_hash probe then (Inl KnowledgeConflictError, s)
                    else (Inr (result\<lparr>ires_idempotent_replay := True\<rparr>), s)
                | None \<Rightarrow>
                    (case dget (kr_content_results s) (content_key scope q (doc_content_hash (prep_document probe))) of
                       Some result \<Rightarrow>
                         (Inr (result\<lparr>ires_idempotent_replay := True\<rparr>),
                          s\<lparr>kr_idempotency := dset key (prep_request_hash probe, result) (kr_idempotency s)\<rparr>)
                     | None \<Rightarrow>
                         (case prepare_ingestion env (kctx_tenant_id ctx) q
                                 (dget (kr_sources_by_scope_uri s) (scope, ing_canonical_source_uri q)) draw now of
                            Inl e \<Rightarrow> (Inl e, s)
                          | Inr prepared \<Rightarrow> ingest_new env q scope key prepared s))))"

section \<open>Administration\<close>

definition document_visible :: "AuthorizedKnowledgeContext \<Rightarrow> KnowledgeDocument \<Rightarrow> bool" where
  "document_visible ctx d \<longleftrightarrow> doc_visibility_scope d = Vs_public \<or> doc_tenant_id d = Some (kctx_tenant_id ctx)"

definition admin_view :: "knowledge_repo \<Rightarrow> KnowledgeDocument \<Rightarrow> KnowledgeDocumentAdminView" where
  "admin_view s d = KnowledgeDocument.extend d
     \<lparr>adm_chunk_count = int (length (filter (\<lambda>c. chk_document_id c = doc_document_id d) (map snd (kr_chunks s))))\<rparr>"

definition list_documents ::
    "AuthorizedKnowledgeContext \<Rightarrow> IngestionStatus option \<Rightarrow> int \<Rightarrow> string option \<Rightarrow> knowledge_repo \<Rightarrow> knowledge_error + KnowledgeDocumentPage" where
  "list_documents ctx status limit cursor s =
     (if \<not> can_manage_tenant_knowledge ctx then Inl KnowledgeAuthorizationError
      else if \<not> (1 \<le> limit \<and> limit \<le> 100) then Inl KnowledgeValueError
      else
        let documents = sort_key doc_document_id (map snd (kr_documents s));
            visible = filter (\<lambda>d. document_visible ctx d \<and> (case status of None \<Rightarrow> True | Some x \<Rightarrow> doc_status d = x) \<and>
                        (case cursor of None \<Rightarrow> True | Some c \<Rightarrow> doc_document_id d > c)) documents;
            selected = take (nat limit + 1) visible;
            items = map (admin_view s) (take (nat limit) selected)
        in Inr \<lparr>dpg_items = items,
                dpg_next_cursor = (if length selected > nat limit \<and> items \<noteq> [] then Some (doc_document_id (last items)) else None)\<rparr>)"

definition get_document :: "AuthorizedKnowledgeContext \<Rightarrow> string \<Rightarrow> knowledge_repo \<Rightarrow> knowledge_error + KnowledgeDocumentAdminView" where
  "get_document ctx document_id s =
     (if \<not> can_manage_tenant_knowledge ctx then Inl KnowledgeAuthorizationError
      else case dget (kr_documents s) document_id of
             None \<Rightarrow> Inl KnowledgeNotFoundError
           | Some d \<Rightarrow> if document_visible ctx d then Inr (admin_view s d) else Inl KnowledgeNotFoundError)"

definition apply_status :: "KnowledgeDocumentStatusCommand \<Rightarrow> instant \<Rightarrow> KnowledgeDocument \<Rightarrow> KnowledgeDocument" where
  "apply_status command now d =
     (if doc_status d = cmd_target_status command then d
      else d\<lparr>doc_status := cmd_target_status command,
             doc_quarantine_reason := (if cmd_target_status command = Is_published then None else cmd_reason command),
             doc_version := doc_version d + 1, doc_updated_at := now\<rparr>)"

definition change_document_status ::
    "rag_env \<Rightarrow> AuthorizedKnowledgeContext \<Rightarrow> string \<Rightarrow> KnowledgeDocumentStatusCommand \<Rightarrow> string \<Rightarrow> instant \<Rightarrow>
     KnowledgeDocumentStatusResult rag_op" where
  "change_document_status env ctx document_id command idempotency_key now s =
     (if \<not> can_manage_tenant_knowledge ctx then (Inl KnowledgeAuthorizationError, s)
      else if \<not> idempotency_key_ok idempotency_key then (Inl KnowledgeValueError, s)
      else
        let request_hash = rag_command_hash env command
        in case dget (kr_documents s) document_id of
             None \<Rightarrow> (Inl KnowledgeNotFoundError, s)
           | Some d \<Rightarrow>
               if \<not> document_visible ctx d then (Inl KnowledgeNotFoundError, s)
               else if doc_visibility_scope d = Vs_public \<and> \<not> can_manage_public_knowledge ctx then (Inl KnowledgeAuthorizationError, s)
               else
                 let key = (scope_key (kctx_tenant_id ctx) (doc_visibility_scope d), idempotency_key)
                 in case dget (kr_status_idempotency s) key of
                      Some (h, result) \<Rightarrow>
                        if h \<noteq> request_hash then (Inl KnowledgeConflictError, s)
                        else (Inr (result\<lparr>dsr_idempotent_replay := True\<rparr>), s)
                    | None \<Rightarrow>
                        if doc_version d \<noteq> cmd_expected_version command then (Inl (KnowledgeVersionConflictError (doc_version d)), s)
                        else
                          let updated = apply_status command now d;
                              documents = (if doc_status d = cmd_target_status command then kr_documents s
                                           else dset document_id updated (kr_documents s));
                              result = \<lparr>dsr_document = admin_view s updated, dsr_idempotent_replay = False\<rparr>
                          in (Inr result,
                              s\<lparr>kr_documents := documents,
                                kr_status_idempotency := dset key (request_hash, result) (kr_status_idempotency s)\<rparr>))"

section \<open>Retrieval\<close>

fun trust_order :: "TrustTier \<Rightarrow> int" where
  "trust_order Tt_official = 5"
| "trust_order Tt_operator = 4"
| "trust_order Tt_trusted_media = 3"
| "trust_order Tt_community = 2"
| "trust_order Tt_user_private = 1"

definition eligible_chunk :: "AuthorizedKnowledgeContext \<Rightarrow> ResearchQuery \<Rightarrow> KnowledgeChunk \<Rightarrow> bool" where
  "eligible_chunk ctx q c =
     (let f = qry_filters q in
      if chk_visibility_scope c = Vs_tenant \<and> chk_tenant_id c \<noteq> Some (kctx_tenant_id ctx) then False
      else if chk_corpus_revision c \<noteq> qry_corpus_revision q then False
      else if chk_tokenizer_version c \<noteq> TOKENIZER_VERSION then False
      else if flt_languages f \<noteq> [] \<and> chk_language c \<notin> set (flt_languages f) then False
      else if flt_source_types f \<noteq> [] \<and> chk_source_type c \<notin> set (flt_source_types f) then False
      else if flt_trust_tiers f \<noteq> [] \<and> chk_trust_tier c \<notin> set (flt_trust_tiers f) then False
      else if flt_geo_entities f \<noteq> [] \<and> set (flt_geo_entities f) \<inter> set (chk_geo_entities c) = {} then False
      else if flt_tags f \<noteq> [] \<and> set (flt_tags f) \<inter> set (chk_tags c) = {} then False
      else flt_include_stale f \<or>
        freshness_status (chk_valid_from c) (chk_valid_until c) (flt_valid_at f) \<notin> {Kf_stale, Kf_not_yet_valid})"

text \<open>\<^verbatim>\<open>sort(key=..., reverse=True)\<close> keeps the order of equal elements.\<close>

definition sort_desc :: "('a \<Rightarrow> 'k :: linorder) \<Rightarrow> 'a list \<Rightarrow> 'a list" where
  "sort_desc key xs = rev (sort_key key (rev xs))"

definition lexical_scores :: "utext list \<Rightarrow> KnowledgeChunk list \<Rightarrow> (KnowledgeChunk \<times> rat) list" where
  "lexical_scores terms chunks =
     (if terms = [] then []
      else
        sort_desc (\<lambda>(c, score). (score, trust_order (chk_trust_tier c), chk_chunk_id c))
          (concat (map (\<lambda>c.
             let overlap = length (filter (\<lambda>t. t \<in> set (u_split (chk_lexical_terms c))) terms)
             in if overlap = 0 then [] else [(c, min 1 (fdiv (of_nat overlap) (of_nat (max 1 (length terms)))))]) chunks)))"

definition vector_scores ::
    "rag_env \<Rightarrow> ResearchQuery \<Rightarrow> (string, rat list) dict \<Rightarrow> KnowledgeChunk list \<Rightarrow>
     knowledge_error + (KnowledgeChunk \<times> rat) list \<times> vector_query_status" where
  "vector_scores env q vectors chunks =
     (case rag_embedding_provider env of
        None \<Rightarrow> Inr ([], Vq_disabled)
      | Some p \<Rightarrow>
          if emb_semantic_capable p \<and> vectors \<noteq> [] then
            sbind (emb_embed_query p (qry_query q)) (\<lambda>raw.
            sbind (validate_embedding raw (emb_dimension p)) (\<lambda>query_vector.
              Inr (sort_desc (\<lambda>(c, score). (score, chk_chunk_id c))
                     (concat (map (\<lambda>c. case dget vectors (chk_chunk_id c) of
                          None \<Rightarrow> []
                        | Some v \<Rightarrow> let similarity = max 0 (rag_cosine_similarity env query_vector v)
                                    in if similarity > 0 then [(c, similarity)] else []) chunks)), Vq_used)))
          else if \<not> emb_semantic_capable p then Inr ([], Vq_provider_not_semantic)
          else Inr ([], Vq_unavailable))"

definition RRF_LEXICAL_WEIGHT :: rat where "RRF_LEXICAL_WEIGHT = double (45 / 100)"
definition RRF_VECTOR_WEIGHT :: rat where "RRF_VECTOR_WEIGHT = double (55 / 100)"

record rag_candidate =
  rcd_chunk :: KnowledgeChunk
  rcd_lexical :: "rat option"
  rcd_vector :: "rat option"
  rcd_lexical_rank :: "nat option"
  rcd_vector_rank :: "nat option"

definition lexical_candidate :: "nat \<times> KnowledgeChunk \<times> rat \<Rightarrow> rag_candidate" where
  "lexical_candidate = (\<lambda>(rank, c, score).
     \<lparr>rcd_chunk = c, rcd_lexical = Some score, rcd_vector = None, rcd_lexical_rank = Some rank, rcd_vector_rank = None\<rparr>)"

definition add_vector :: "nat \<times> KnowledgeChunk \<times> rat \<Rightarrow> (string, rag_candidate) dict \<Rightarrow> (string, rag_candidate) dict" where
  "add_vector = (\<lambda>(rank, c, score) by_id.
     let previous = dget by_id (chk_chunk_id c)
     in dset (chk_chunk_id c)
          \<lparr>rcd_chunk = c, rcd_lexical = Option.bind previous rcd_lexical, rcd_vector = Some score,
           rcd_lexical_rank = Option.bind previous rcd_lexical_rank, rcd_vector_rank = Some rank\<rparr> by_id)"

definition rrf_share :: "rat \<Rightarrow> nat option \<Rightarrow> rat \<Rightarrow> rat" where
  "rrf_share weight rank raw = (case rank of None \<Rightarrow> raw | Some r \<Rightarrow> fadd raw (fdiv weight (of_nat (60 + r))))"

definition fused_score :: "bool \<Rightarrow> nat option \<Rightarrow> nat option \<Rightarrow> rat" where
  "fused_score has_vector lexical_rank vector_rank =
     (let maximum = fdiv (fadd RRF_LEXICAL_WEIGHT (if has_vector then RRF_VECTOR_WEIGHT else 0)) 61;
          raw = rrf_share RRF_VECTOR_WEIGHT vector_rank (rrf_share RRF_LEXICAL_WEIGHT lexical_rank 0)
      in if maximum \<noteq> 0 then min 1 (fdiv raw maximum) else 0)"

definition fuse :: "(KnowledgeChunk \<times> rat) list \<Rightarrow> (KnowledgeChunk \<times> rat) list \<Rightarrow> (rag_candidate \<times> rat) list" where
  "fuse lexical vector =
     (let by_lexical = dset_all (map (\<lambda>x. (chk_chunk_id (fst (snd x)), lexical_candidate x)) (enumerate 1 lexical)) [];
          by_id = fold add_vector (enumerate 1 vector) by_lexical
      in sort_desc (\<lambda>(x, score). (score, trust_order (chk_trust_tier (rcd_chunk x)), chk_chunk_id (rcd_chunk x)))
           (map (\<lambda>x. (x, fused_score (vector \<noteq> []) (rcd_lexical_rank x) (rcd_vector_rank x))) (map snd by_id)))"

definition to_evidence :: "rag_candidate \<Rightarrow> ResearchQuery \<Rightarrow> rat \<Rightarrow> string \<Rightarrow> instant \<Rightarrow> knowledge_error + KnowledgeEvidence" where
  "to_evidence x q fused evidence_id now =
     (let c = rcd_chunk x;
          e = \<lparr>kev_evidence_id = evidence_id, kev_chunk_id = chk_chunk_id c, kev_document_id = chk_document_id c,
               kev_source_id = chk_source_id c, kev_content_hash = chk_content_hash c, kev_claim_scope = qry_claim_scope q,
               kev_snippet = u_strip (take 2000 (chk_content c)), kev_source_uri = chk_canonical_source_uri c,
               kev_source_title = chk_source_title c, kev_source_type = chk_source_type c, kev_source_version = chk_source_version c,
               kev_published_at = chk_published_at c, kev_observed_at = chk_observed_at c, kev_retrieved_at = now,
               kev_valid_until = chk_valid_until c,
               kev_freshness_status = freshness_status (chk_valid_from c) (chk_valid_until c) (flt_valid_at (qry_filters q)),
               kev_trust_tier = chk_trust_tier c, kev_license_id = lic_license_id (chk_license c),
               kev_visibility_scope = chk_visibility_scope c, kev_corpus_revision = chk_corpus_revision c,
               kev_scores = \<lparr>scr_lexical = rcd_lexical x, scr_vector = rcd_vector x, scr_fused = fused\<rparr>,
               kev_matched_by = (if rcd_lexical_rank x \<noteq> None then [Mk_lexical] else []) @ (if rcd_vector_rank x \<noteq> None then [Mk_vector] else []),
               kev_injection_suspected = chk_injection_suspected c\<rparr>
      in if KnowledgeEvidence_ok e then Inr e else Inl KnowledgeValueError)"

text \<open>The loop over the ranked candidates; \<open>n\<close> counts the evidence so far, which also numbers the draws.\<close>

fun select_evidence ::
    "ResearchQuery \<Rightarrow> (nat \<Rightarrow> string) \<Rightarrow> (nat \<Rightarrow> instant) \<Rightarrow> nat \<Rightarrow> string set \<Rightarrow> (rag_candidate \<times> rat) list \<Rightarrow> knowledge_error + KnowledgeEvidence list" where
  "select_evidence q draw clock n seen_hashes [] = Inr []"
| "select_evidence q draw clock n seen_hashes ((x, fused) # rest) =
     (let component_score = max (case rcd_lexical x of None \<Rightarrow> 0 | Some v \<Rightarrow> v) (case rcd_vector x of None \<Rightarrow> 0 | Some v \<Rightarrow> v)
      in if fused < qry_score_threshold q \<or> component_score < qry_score_threshold q \<or> chk_content_hash (rcd_chunk x) \<in> seen_hashes
         then select_evidence q draw clock n seen_hashes rest
         else sbind (to_evidence x q fused (draw (Suc n)) (clock n)) (\<lambda>e.
                if Suc n \<ge> qry_top_k q then Inr [e]
                else sbind (select_evidence q draw clock (Suc n) (insert (chk_content_hash (rcd_chunk x)) seen_hashes) rest)
                       (\<lambda>es. Inr (e # es))))"

fun degraded_reason :: "vector_query_status \<Rightarrow> string option" where
  "degraded_reason Vq_provider_not_semantic = Some ''configured embedding provider is explicitly non-semantic''"
| "degraded_reason Vq_unavailable = Some ''semantic vectors are unavailable; lexical results only''"
| "degraded_reason Vq_disabled = Some ''no semantic embedding provider is configured''"
| "degraded_reason Vq_used = None"

definition published_chunk :: "knowledge_repo \<Rightarrow> KnowledgeChunk \<Rightarrow> bool" where
  "published_chunk s c = (case dget (kr_documents s) (chk_document_id c) of None \<Rightarrow> False | Some d \<Rightarrow> doc_status d = Is_published)"

definition retrieve ::
    "rag_env \<Rightarrow> AuthorizedKnowledgeContext \<Rightarrow> ResearchQuery \<Rightarrow> (nat \<Rightarrow> string) \<Rightarrow> (nat \<Rightarrow> instant) \<Rightarrow> knowledge_repo \<Rightarrow> knowledge_error + RetrievalResult" where
  "retrieve env ctx q draw clock s =
     (let chunks = map snd (kr_chunks s);
          terms = tokenize (rag_text env) (qry_query q)
      in if list_ex (\<lambda>c. dget (kr_documents s) (chk_document_id c) = None) chunks then Inl KnowledgeKeyError
         else
           let eligible = filter (\<lambda>c. published_chunk s c \<and> eligible_chunk ctx q c) chunks;
               lexical = lexical_scores terms eligible
           in sbind (vector_scores env q (kr_vectors s) eligible) (\<lambda>(vector, status).
              sbind (select_evidence q draw clock 0 {} (fuse lexical vector)) (\<lambda>items.
              Inr \<lparr>ret_query_id = draw 0, ret_corpus_revision = qry_corpus_revision q, ret_items = items, ret_conflicts = [],
                   ret_trace = \<lparr>trc_query_id = draw 0, trc_query_hash = rag_sha256_text env (qry_query q),
                     trc_corpus_revision = qry_corpus_revision q, trc_tokenizer_version = TOKENIZER_VERSION,
                     trc_embedding_model_version = map_option emb_model_version (rag_embedding_provider env),
                     trc_retrieval_mode = (if status = Vq_used then Rm_hybrid else Rm_lexical), trc_vector_status = status,
                     trc_degraded_reason = degraded_reason status, trc_lexical_candidates = length lexical,
                     trc_vector_candidates = length vector, trc_returned_items = length items\<rparr>\<rparr>)))"

text \<open>The port handed to the research agent: the context is fixed, the agent chooses the query only.\<close>

record TenantBoundResearchRetriever =
  tbr_repository :: rag_env
  tbr_context :: AuthorizedKnowledgeContext

definition bind_research :: "rag_env \<Rightarrow> AuthorizedKnowledgeContext \<Rightarrow> TenantBoundResearchRetriever" where
  "bind_research env ctx = \<lparr>tbr_repository = env, tbr_context = ctx\<rparr>"

definition bound_search ::
    "TenantBoundResearchRetriever \<Rightarrow> ResearchQuery \<Rightarrow> (nat \<Rightarrow> string) \<Rightarrow> (nat \<Rightarrow> instant) \<Rightarrow> knowledge_repo \<Rightarrow> knowledge_error + RetrievalResult" where
  "bound_search r q = retrieve (tbr_repository r) (tbr_context r) q"

end
