(* ===== verification/RAG_Invariant.thy ===== *)
theory RAG_Invariant
  imports RAG_Chunks RAG_Memory
begin

text \<open>
  The knowledge repository as a transition system, the invariant of its reachable states, and what retrieval selects
  from them.
\<close>

section \<open>Dictionaries and sorting\<close>

lemma dset_all_simps [simp]: "dset_all [] d = d" "dset_all ((k, v) # kvs) d = dset_all kvs (dset k v d)"
  by (simp_all add: dset_all_def)

lemma dget_dset_all: "dget (dset_all kvs d) k = (case map_of (rev kvs) k of None \<Rightarrow> dget d k | Some v \<Rightarrow> Some v)"
  by (induction kvs arbitrary: d) (auto simp: map_add_def split: option.splits)

lemma distinct_dset_all: "dkeys_distinct d \<Longrightarrow> dkeys_distinct (dset_all kvs d)"
  by (induction kvs arbitrary: d) (auto simp: dkeys_distinct_def dset_def distinct_update)

lemma dget_values: "dkeys_distinct d \<Longrightarrow> v \<in> set (map snd d) \<Longrightarrow> \<exists>k. dget d k = Some v"
  unfolding dkeys_distinct_def by (auto intro: map_of_is_SomeI)

lemma set_sort_desc [simp]: "set (sort_desc key xs) = set xs"
  by (simp add: sort_desc_def)

lemma sorted_sort_desc: "sorted_wrt (\<lambda>a b. key a \<ge> key b) (sort_desc key xs)"
  unfolding sort_desc_def sorted_wrt_rev
  using sorted_sort_key [of key "rev xs"] by (simp add: sorted_map)

section \<open>Reachable repositories\<close>

definition new_ids :: "(nat \<Rightarrow> string) \<Rightarrow> knowledge_repo \<Rightarrow> bool" where
  "new_ids draw s \<longleftrightarrow> inj draw \<and> (\<forall>i. dget (kr_documents s) (draw i) = None \<and> dget (kr_chunks s) (draw i) = None)"

inductive knowledge_step :: "rag_env \<Rightarrow> knowledge_repo \<Rightarrow> knowledge_repo \<Rightarrow> bool" for env where
  ingest_step: "new_ids draw s \<Longrightarrow> knowledge_step env s (snd (ingest env ctx q key draw now s))"
| status_step: "knowledge_step env s (snd (change_document_status env ctx document_id command key now s))"

definition document_ok :: "string \<Rightarrow> KnowledgeDocument \<Rightarrow> bool" where
  "document_ok k d \<longleftrightarrow> doc_document_id d = k \<and> 1 \<le> doc_version d \<and>
     (doc_injection_suspected d \<and> doc_status d = Is_published \<longrightarrow> 2 \<le> doc_version d)"

text \<open>A chunk repeats the provenance of its document.\<close>

definition chunk_of :: "KnowledgeChunk \<Rightarrow> KnowledgeDocument \<Rightarrow> bool" where
  "chunk_of c d \<longleftrightarrow> chk_document_id c = doc_document_id d \<and> chk_source_id c = doc_source_id d \<and> chk_tenant_id c = doc_tenant_id d \<and>
     chk_visibility_scope c = doc_visibility_scope d \<and> chk_corpus_revision c = doc_corpus_revision d \<and>
     chk_valid_from c = doc_valid_from d \<and> chk_valid_until c = doc_valid_until d \<and>
     chk_injection_suspected c = doc_injection_suspected d"

definition chunk_ok :: "rag_env \<Rightarrow> knowledge_repo \<Rightarrow> string \<Rightarrow> KnowledgeChunk \<Rightarrow> bool" where
  "chunk_ok env s k c \<longleftrightarrow> chk_chunk_id c = k \<and> (\<exists>d. dget (kr_documents s) (chk_document_id c) = Some d \<and> chunk_of c d) \<and>
     phrase (chk_content c) \<and> length (chk_content c) \<le> 2642 \<and>
     chk_lexical_terms c = lexical_document (rag_text env) (chk_content c)"

definition repo_ok :: "rag_env \<Rightarrow> knowledge_repo \<Rightarrow> bool" where
  "repo_ok env s \<longleftrightarrow> dkeys_distinct (kr_chunks s) \<and> (\<forall>k d. dget (kr_documents s) k = Some d \<longrightarrow> document_ok k d) \<and>
     (\<forall>k c. dget (kr_chunks s) k = Some c \<longrightarrow> chunk_ok env s k c)"

lemma prepare_ingestion_chunks:
  assumes "prepare_ingestion env tenant q source draw now = Inr p"
  shows "doc_document_id (prep_document p) = draw 1 \<and> doc_version (prep_document p) = 1 \<and>
    (doc_injection_suspected (prep_document p) \<longrightarrow> doc_status (prep_document p) = Is_quarantined) \<and>
    map chk_chunk_id (prep_chunks p) = map (\<lambda>i. draw (2 + i)) [0..<length (prep_chunks p)] \<and>
    (\<forall>c \<in> set (prep_chunks p). chunk_of c (prep_document p) \<and> phrase (chk_content c) \<and> length (chk_content c) \<le> 2642 \<and>
       chk_lexical_terms c = lexical_document (rag_text env) (chk_content c))"
proof -
  obtain san contents where s: "sanitize (rag_text env) (ing_content q) = Inr san"
    and c: "split_text default_chunker (san_content san) = Inr contents"
    and p: "p = \<lparr>prep_source = prepared_source tenant q (case source of Some i \<Rightarrow> i | None \<Rightarrow> draw 0) now,
       prep_document = prepared_document tenant q (case source of Some i \<Rightarrow> i | None \<Rightarrow> draw 0) (draw 1)
         (rag_sha256_text env (san_content san)) (san_injection_suspected san) now,
       prep_chunks = map (\<lambda>(i, c). prepared_chunk env tenant q (case source of Some i \<Rightarrow> i | None \<Rightarrow> draw 0) (draw 1)
         (san_injection_suspected san) (draw (2 + i)) i c) (enumerate 0 contents),
       prep_request_hash = request_hash_of env q (rag_sha256_text env (san_content san))\<rparr>"
    using assms by (auto simp: prepare_ingestion_def sbind_Inr Let_def split: if_splits)
  have b: "\<forall>c \<in> set contents. phrase c \<and> length c \<le> 2642"
    using split_text_total [of default_chunker "san_content san"] c by (auto simp: default_chunker_def MAX_CHUNK_CHARS_def)
  have "map chk_chunk_id (prep_chunks p) = map (\<lambda>i. draw (2 + i)) [0..<length (prep_chunks p)]"
    by (rule nth_equalityI) (simp_all add: p prepared_chunk_def Let_def nth_enumerate_eq)
  then show ?thesis
    using b by (auto simp: p prepared_document_def prepared_chunk_def chunk_of_def lexical_document_def Let_def
      dest!: in_set_enumerate_eq [THEN iffD1] nth_mem)
qed

lemma repo_ok_documents:
  assumes "repo_ok env s" and "dget (kr_documents s) k = Some d" and "document_ok k d'"
    and "\<And>c. chunk_of c d \<Longrightarrow> chunk_of c d'" and "kr_documents s' = dset k d' (kr_documents s)" and "kr_chunks s' = kr_chunks s"
  shows "repo_ok env s'"
proof -
  have "chunk_ok env s' i c" if old: "chunk_ok env s i c" for i c
  proof -
    obtain d0 where d0: "dget (kr_documents s) (chk_document_id c) = Some d0" "chunk_of c d0" using old unfolding chunk_ok_def by blast
    then have "\<exists>e. dget (kr_documents s') (chk_document_id c) = Some e \<and> chunk_of c e"
      using assms(2,4) by (cases "chk_document_id c = k") (simp_all add: assms(5))
    with old show ?thesis by (simp add: chunk_ok_def)
  qed
  moreover have "document_ok i e" if "dget (kr_documents s') i = Some e" for i e
    using that assms(1,3) by (cases "i = k") (simp_all add: assms(5) repo_ok_def)
  ultimately show ?thesis using assms(1) by (simp add: repo_ok_def assms(6))
qed

lemma repo_ok_eq:
  "repo_ok env s \<Longrightarrow> kr_documents s' = kr_documents s \<Longrightarrow> kr_chunks s' = kr_chunks s \<Longrightarrow> repo_ok env s'"
  by (simp add: repo_ok_def chunk_ok_def)

lemma map_of_ids:
  assumes "map_of (rev (map (\<lambda>c. (chk_chunk_id c, c)) cs)) k = Some c"
  shows "c \<in> set cs \<and> chk_chunk_id c = k"
  using map_of_SomeD [OF assms] by auto

lemma ingest_new_ok:
  assumes "repo_ok env s" and "new_ids draw s" and "prepare_ingestion env tenant q source draw now = Inr p"
  shows "repo_ok env (snd (ingest_new env q scope key p s))"
proof (cases "embed_chunks env (prep_chunks p)")
  case (Inl e)
  with assms(1) show ?thesis by (simp add: ingest_new_def)
next
  case (Inr r)
  let ?d = "prep_document p" and ?s = "snd (ingest_new env q scope key p s)"
  note p = prepare_ingestion_chunks [OF assms(3)]
  have docs: "kr_documents ?s = dset (draw 1) ?d (kr_documents s)"
    and chunks: "kr_chunks ?s = dset_all (map (\<lambda>c. (chk_chunk_id c, c)) (prep_chunks p)) (kr_chunks s)"
    using Inr p by (auto simp: ingest_new_def Let_def split: prod.splits)
  have old: "chunk_ok env s k c" if "dget (kr_chunks s) k = Some c" for k c using assms(1) that by (simp add: repo_ok_def)
  have keep: "chunk_ok env ?s k c" if "chunk_ok env s k c" for k c
  proof -
    have "dget (kr_documents s) (draw 1) = None" using assms(2) by (simp add: new_ids_def)
    then show ?thesis using that by (auto simp: chunk_ok_def docs)
  qed
  have new: "chunk_ok env ?s k c" if "c \<in> set (prep_chunks p)" and "chk_chunk_id c = k" for k c
  proof -
    have "chunk_of c ?d" using p that(1) by blast
    then have "chk_document_id c = draw 1" using p by (simp add: chunk_of_def)
    with p that show ?thesis by (auto simp: chunk_ok_def docs)
  qed
  have "chunk_ok env ?s k c" if "dget (kr_chunks ?s) k = Some c" for k c
  proof (cases "map_of (rev (map (\<lambda>c. (chk_chunk_id c, c)) (prep_chunks p))) k")
    case None
    then show ?thesis using that old keep by (simp add: chunks dget_dset_all)
  next
    case (Some c')
    then show ?thesis using that map_of_ids [OF Some] new by (simp add: chunks dget_dset_all)
  qed
  moreover have "document_ok k d" if "dget (kr_documents ?s) k = Some d" for k d
    using that assms(1) p by (auto simp: docs repo_ok_def document_ok_def split: if_splits)
  moreover have "dkeys_distinct (kr_chunks ?s)" unfolding chunks using assms(1) by (simp add: distinct_dset_all repo_ok_def)
  ultimately show ?thesis by (simp add: repo_ok_def)
qed

lemma ingest_ok:
  assumes "repo_ok env s" and "new_ids draw s"
  shows "repo_ok env (snd (ingest env ctx q key draw now s))"
  using ingest_new_ok [OF assms] repo_ok_eq [OF assms(1)] assms(1)
  by (auto simp: ingest_def Let_def split: sum.splits option.splits)

lemma apply_status_ok: "document_ok k d \<Longrightarrow> document_ok k (apply_status command now d)"
  by (auto simp: document_ok_def apply_status_def)

lemma chunk_of_apply_status: "chunk_of c d \<Longrightarrow> chunk_of c (apply_status command now d)"
  by (simp add: chunk_of_def apply_status_def)

lemma change_document_status_ok:
  assumes "repo_ok env s"
  shows "repo_ok env (snd (change_document_status env ctx document_id command key now s))"
proof (cases "kr_documents (snd (change_document_status env ctx document_id command key now s)) = kr_documents s")
  case True
  then show ?thesis using repo_ok_eq [OF assms]
    by (auto simp: change_document_status_def Let_def split: sum.splits option.splits if_splits)
next
  case False
  then obtain d where d: "dget (kr_documents s) document_id = Some d"
    and s': "kr_documents (snd (change_document_status env ctx document_id command key now s)) =
      dset document_id (apply_status command now d) (kr_documents s)"
    "kr_chunks (snd (change_document_status env ctx document_id command key now s)) = kr_chunks s"
    by (auto simp: change_document_status_def Let_def split: option.splits if_splits prod.splits)
  have "document_ok document_id d" using assms d by (simp add: repo_ok_def)
  then show ?thesis using repo_ok_documents [OF assms d apply_status_ok chunk_of_apply_status s'] by blast
qed

lemma reachable_repo_ok:
  assumes "(knowledge_step env)\<^sup>*\<^sup>* empty_repo s"
  shows "repo_ok env s"
  using assms
proof (induction rule: rtranclp_induct)
  case base
  then show ?case by (simp add: repo_ok_def empty_repo_def dkeys_distinct_def)
next
  case (step s s')
  from step.hyps(2) show ?case by cases (use step.IH ingest_ok change_document_status_ok in auto)
qed

section \<open>What retrieval selects\<close>

lemma lexical_scores_from: "(c, v) \<in> set (lexical_scores terms chunks) \<Longrightarrow> c \<in> set chunks \<and> 0 \<le> v \<and> v \<le> 1"
  by (auto simp: lexical_scores_def Let_def fdiv_nonneg split: if_splits)

lemma vector_scores_from:
  "vector_scores env q vectors chunks = Inr (scored, status) \<Longrightarrow> (c, v) \<in> set scored \<Longrightarrow> c \<in> set chunks"
  by (auto simp: vector_scores_def sbind_Inr Let_def split: option.splits if_splits)

text \<open>The ranks of a fused candidate are its places in the two rankings.\<close>

definition rank_in :: "(KnowledgeChunk \<times> rat) list \<Rightarrow> string \<Rightarrow> nat option" where
  "rank_in xs k = map_of (map (\<lambda>(r, c, v). (chk_chunk_id c, r)) (enumerate 1 xs)) k"

definition ids_of :: "(KnowledgeChunk \<times> rat) list \<Rightarrow> string list" where
  "ids_of xs = map (\<lambda>(c, v). chk_chunk_id c) xs"

abbreviation ranked :: "(nat \<times> KnowledgeChunk \<times> rat) list \<Rightarrow> (string \<times> nat \<times> KnowledgeChunk \<times> rat) list" where
  "ranked xs \<equiv> map (\<lambda>x. (chk_chunk_id (fst (snd x)), x)) xs"

lemma fst_ranked: "map fst (ranked (enumerate n xs)) = ids_of xs"
  by (induction xs arbitrary: n) (auto simp: ids_of_def)

lemma rank_in_ranked: "rank_in xs k = map_option fst (map_of (ranked (enumerate 1 xs)) k)"
proof -
  have "map_of (map (\<lambda>(r, c, v). (chk_chunk_id c, r)) ys) k = map_option fst (map_of (ranked ys) k)" for ys :: "(nat \<times> KnowledgeChunk \<times> rat) list"
    by (induction ys) auto
  then show ?thesis by (simp add: rank_in_def)
qed

lemma dget_candidates:
  "map_of (map (\<lambda>x. (chk_chunk_id (fst (snd x)), lexical_candidate x)) ys) k = map_option lexical_candidate (map_of (ranked ys) k)"
  by (induction ys) auto

lemma dget_lexical:
  assumes "distinct (ids_of xs)"
  shows "dget (dset_all (map (\<lambda>x. (chk_chunk_id (fst (snd x)), lexical_candidate x)) (enumerate 1 xs)) []) k =
    map_option lexical_candidate (map_of (ranked (enumerate 1 xs)) k)"
proof -
  let ?l = "map (\<lambda>x. (chk_chunk_id (fst (snd x)), lexical_candidate x)) (enumerate 1 xs)"
  have "map fst ?l = ids_of xs" using fst_ranked [of 1 xs] by (simp add: comp_def)
  then have "distinct (map fst ?l)" using assms by (simp only:)
  then have "map_of (rev ?l) = map_of ?l" by (subst map_of_inject_set) (simp_all add: rev_map [symmetric])
  moreover have "map_of ?l k = map_option lexical_candidate (map_of (ranked (enumerate 1 xs)) k)"
    by (rule dget_candidates)
  ultimately show ?thesis by (simp add: dget_dset_all split: option.splits)
qed

definition vector_candidate :: "nat \<times> KnowledgeChunk \<times> rat \<Rightarrow> rag_candidate option \<Rightarrow> rag_candidate" where
  "vector_candidate = (\<lambda>(rank, c, score) previous.
     \<lparr>rcd_chunk = c, rcd_lexical = Option.bind previous rcd_lexical, rcd_vector = Some score,
      rcd_lexical_rank = Option.bind previous rcd_lexical_rank, rcd_vector_rank = Some rank\<rparr>)"

lemma add_vector_candidate: "add_vector x d = dset (chk_chunk_id (fst (snd x))) (vector_candidate x (dget d (chk_chunk_id (fst (snd x))))) d"
  by (cases x) (simp add: add_vector_def vector_candidate_def Let_def)

lemma dget_vector:
  assumes "distinct (map fst (ranked xs))"
  shows "dget (fold add_vector xs d) k =
    (case map_of (ranked xs) k of None \<Rightarrow> dget d k | Some x \<Rightarrow> Some (vector_candidate x (dget d k)))"
  using assms
proof (induction xs arbitrary: d)
  case (Cons x xs)
  let ?i = "chk_chunk_id (fst (snd x))"
  have "map_of (ranked xs) ?i = None" using Cons.prems by (simp add: map_of_eq_None_iff image_image)
  with Cons show ?case by (auto simp: add_vector_candidate split: option.splits)
qed simp

lemma distinct_fold_vector: "dkeys_distinct d \<Longrightarrow> dkeys_distinct (fold add_vector xs d)"
  by (induction xs arbitrary: d) (auto simp: add_vector_candidate dkeys_distinct_def dset_def distinct_update)

lemma lexical_vector_ranks:
  "rcd_lexical_rank (lexical_candidate x) = Some (fst x)" "rcd_vector_rank (lexical_candidate x) = None"
  "rcd_chunk (lexical_candidate x) = fst (snd x)" "rcd_vector_rank (vector_candidate x p) = Some (fst x)"
  "rcd_lexical_rank (vector_candidate x p) = Option.bind p rcd_lexical_rank" "rcd_chunk (vector_candidate x p) = fst (snd x)"
  by (cases x; simp add: lexical_candidate_def vector_candidate_def)+

lemma fuse_ranks:
  assumes "distinct (ids_of lexical)" and "distinct (ids_of vector)" and "(x, f) \<in> set (fuse lexical vector)"
  shows "rcd_lexical_rank x = rank_in lexical (chk_chunk_id (rcd_chunk x)) \<and> rcd_vector_rank x = rank_in vector (chk_chunk_id (rcd_chunk x)) \<and>
    f = fused_score (vector \<noteq> []) (rcd_lexical_rank x) (rcd_vector_rank x) \<and> rcd_chunk x \<in> fst ` (set lexical \<union> set vector)"
proof -
  let ?lx = "ranked (enumerate 1 lexical)" and ?vx = "ranked (enumerate 1 vector)"
  let ?l = "dset_all (map (\<lambda>x. (chk_chunk_id (fst (snd x)), lexical_candidate x)) (enumerate 1 lexical)) []"
  let ?d = "fold add_vector (enumerate 1 vector) ?l"
  have f: "f = fused_score (vector \<noteq> []) (rcd_lexical_rank x) (rcd_vector_rank x)" and x: "x \<in> set (map snd ?d)"
    using assms(3) by (auto simp: fuse_def Let_def)
  have "dkeys_distinct ?d" by (intro distinct_fold_vector distinct_dset_all) (simp add: dkeys_distinct_def)
  from dget_values [OF this x] obtain k where k: "dget ?d k = Some x" by blast
  have dv: "distinct (map fst ?vx)" using assms(2) by (simp only: fst_ranked)
  note dl = dget_lexical [OF assms(1)]
  have key: "map_of (ranked ys) k = Some y \<Longrightarrow> chk_chunk_id (fst (snd y)) = k \<and> y \<in> set ys" for ys y by (auto dest: map_of_SomeD)
  have sub: "y \<in> set (enumerate 1 zs) \<Longrightarrow> fst (snd y) \<in> fst ` set zs" for y and zs :: "(KnowledgeChunk \<times> rat) list"
    by (metis enumerate_eq_zip image_eqI prod.collapse set_zip_rightD)
  show ?thesis
  proof (cases "map_of ?vx k")
    case None
    then have "map_option lexical_candidate (map_of ?lx k) = Some x" using k by (simp only: dget_vector [OF dv] dl option.case)
    then obtain y where y: "map_of ?lx k = Some y" "x = lexical_candidate y" by auto
    then show ?thesis using None f key [OF y(1)] sub [of y lexical] by (auto simp: rank_in_ranked lexical_vector_ranks)
  next
    case (Some y)
    then have x: "x = vector_candidate y (map_option lexical_candidate (map_of ?lx k))" using k by (simp only: dget_vector [OF dv] dl option.case option.inject)
    have "rcd_lexical_rank x = rank_in lexical k"
      unfolding x by (cases "map_of ?lx k") (simp_all add: lexical_vector_ranks rank_in_ranked)
    then show ?thesis using Some f key [OF Some] sub [of y vector] unfolding x by (auto simp: rank_in_ranked lexical_vector_ranks)
  qed
qed

section \<open>Fused scores\<close>

text \<open>A place in a ranking is at least as good as another; no place at all is the worst.\<close>

fun no_worse :: "nat option \<Rightarrow> nat option \<Rightarrow> bool" where
  "no_worse _ None \<longleftrightarrow> True"
| "no_worse None (Some _) \<longleftrightarrow> False"
| "no_worse (Some a) (Some b) \<longleftrightarrow> a \<le> b"

definition rounded :: "rat \<Rightarrow> bool" where
  "rounded x \<longleftrightarrow> 0 \<le> x \<and> double x = x"

lemma rounded_double: "0 \<le> x \<Longrightarrow> rounded (double x)"
  by (simp add: rounded_def double_nonneg)

lemma rounded_share: "rounded raw \<Longrightarrow> 0 \<le> w \<Longrightarrow> rounded (rrf_share w r raw)"
  by (auto simp: rrf_share_def fadd_def rounded_def fdiv_nonneg double_nonneg split: option.splits)

lemma rrf_share_mono:
  assumes "no_worse r r'" and "rounded raw'" and "raw' \<le> raw" and "0 \<le> w"
  shows "rrf_share w r' raw' \<le> rrf_share w r raw"
proof (cases r')
  case None
  show ?thesis
  proof (cases r)
    case (Some n)
    have "raw' = double raw'" using assms(2) by (simp add: rounded_def)
    moreover have "0 \<le> fdiv w (of_nat (60 + n))" using assms(4) by (intro fdiv_nonneg) simp_all
    ultimately have "raw' \<le> double (raw + fdiv w (of_nat (60 + n)))"
      using assms(2,3) double_mono [of raw' "raw + fdiv w (of_nat (60 + n))"] by (simp add: rounded_def)
    then show ?thesis using None Some by (simp add: rrf_share_def fadd_def)
  qed (use None assms in \<open>simp add: rrf_share_def\<close>)
next
  case (Some m)
  then obtain n where n: "r = Some n" "n \<le> m" using assms(1) by (cases r) auto
  have "fdiv w (of_nat (60 + m)) \<le> fdiv w (of_nat (60 + n))" using assms(4) n by (intro fdiv_antimono) auto
  then show ?thesis unfolding Some n(1) rrf_share_def option.case
    using assms(2-4) by (intro fadd_mono) (auto simp: rounded_def intro: fdiv_nonneg)
qed

lemma weights_pos: "0 \<le> RRF_LEXICAL_WEIGHT" "0 \<le> RRF_VECTOR_WEIGHT"
  by (simp_all add: RRF_LEXICAL_WEIGHT_def RRF_VECTOR_WEIGHT_def double_nonneg)

lemma fused_score_mono:
  assumes "no_worse l l'" and "no_worse v v'"
  shows "fused_score b l' v' \<le> fused_score b l v \<and> 0 \<le> fused_score b l' v' \<and> fused_score b l v \<le> 1"
proof -
  let ?max = "fdiv (fadd RRF_LEXICAL_WEIGHT (if b then RRF_VECTOR_WEIGHT else 0)) 61"
  let ?raw = "\<lambda>l v. rrf_share RRF_VECTOR_WEIGHT v (rrf_share RRF_LEXICAL_WEIGHT l 0)"
  have max: "0 \<le> ?max" using weights_pos by (auto intro!: fdiv_nonneg fadd_nonneg)
  have zero: "rounded 0" by (simp add: rounded_def double_def)
  have raw: "?raw l' v' \<le> ?raw l v"
    using assms weights_pos zero by (intro rrf_share_mono rounded_share) simp_all
  have nonneg: "0 \<le> ?raw l' v'" using rounded_share weights_pos zero unfolding rounded_def by blast
  show ?thesis
  proof (cases "?max = 0")
    case False
    then have "fdiv (?raw l' v') ?max \<le> fdiv (?raw l v) ?max" using max raw nonneg by (intro fdiv_mono) simp_all
    with False show ?thesis using fdiv_nonneg [OF nonneg max] unfolding fused_score_def Let_def by (simp add: min.coboundedI1 min.mono)
  qed (simp add: fused_score_def Let_def)
qed

section \<open>The selected evidence\<close>

lemma to_evidence_Inr:
  assumes "to_evidence x q f i t = Inr e"
  shows "kev_chunk_id e = chk_chunk_id (rcd_chunk x) \<and> kev_document_id e = chk_document_id (rcd_chunk x) \<and>
    kev_content_hash e = chk_content_hash (rcd_chunk x) \<and> kev_snippet e = u_strip (take 2000 (chk_content (rcd_chunk x))) \<and>
    scr_fused (kev_scores e) = f \<and> kev_evidence_id e = i"
  using assms by (auto simp: to_evidence_def Let_def split: if_splits)

lemma select_evidence_facts:
  assumes "select_evidence q draw clock n seen cands = Inr es" and "n < qry_top_k q"
  shows "length es + n \<le> qry_top_k q \<and> distinct (map kev_content_hash es) \<and> set (map kev_content_hash es) \<inter> seen = {} \<and>
    (\<forall>e \<in> set es. \<exists>(x, f) \<in> set cands. qry_score_threshold q \<le> f \<and> (\<exists>i t. to_evidence x q f i t = Inr e)) \<and>
    subseq (map (scr_fused \<circ> kev_scores) es) (map snd cands)"
  using assms
proof (induction q draw clock n seen cands arbitrary: es rule: select_evidence.induct)
  case (1 q draw clock n seen)
  then show ?case by simp
next
  case (2 q draw clock n seen x f rest)
  let ?h = "chk_content_hash (rcd_chunk x)"
  let ?c = "max (case rcd_lexical x of None \<Rightarrow> 0 | Some v \<Rightarrow> v) (case rcd_vector x of None \<Rightarrow> 0 | Some v \<Rightarrow> v)"
  let ?skip = "f < qry_score_threshold q \<or> ?c < qry_score_threshold q \<or> ?h \<in> seen"
  show ?case
  proof (cases ?skip)
    case True
    then have "select_evidence q draw clock n seen rest = Inr es" using 2(3) by (simp add: Let_def)
    from 2(1) [OF refl True this 2(4)] show ?thesis by auto
  next
    case False
    then obtain e where e: "to_evidence x q f (draw (Suc n)) (clock n) = Inr e"
      and es: "(if Suc n \<ge> qry_top_k q then Inr [e]
        else sbind (select_evidence q draw clock (Suc n) (insert ?h seen) rest) (\<lambda>es. Inr (e # es))) = Inr es"
      using 2(3) by (auto simp: Let_def sbind_Inr)
    note ev = to_evidence_Inr [OF e]
    show ?thesis
    proof (cases "Suc n \<ge> qry_top_k q")
      case True
      then have "es = [e]" using es by simp
      with True False ev e 2(4) show ?thesis by auto
    next
      case go: False
      then obtain es' where es': "select_evidence q draw clock (Suc n) (insert ?h seen) rest = Inr es'" "es = e # es'"
        using es by (auto simp: sbind_Inr)
      have n: "Suc n < qry_top_k q" using go by simp
      note IH = 2(2) [OF refl False go es'(1) n]
      have h: "?h \<notin> seen" and f: "qry_score_threshold q \<le> f" using False by auto
      show ?thesis unfolding es'(2) using IH ev h f e by (auto simp: image_iff)
    qed
  qed
qed

end
