(* ===== verification/RAG_Properties.thy ===== *)
theory RAG_Properties
  imports RAG_Invariant "HOL-Library.Code_Target_Nat"
begin

text \<open>
  The properties of knowledge retrieval: chunks keep phrases whole, stored terms read back as tokens, retrieval stays within
  the tenant and the published documents, fusion respects both rankings, ingestion is idempotent; and where commands and
  texts get lost. A small knowledge base serves the witnesses.
\<close>

section \<open>A small knowledge base\<close>

definition ascii :: "string \<Rightarrow> utext" where
  "ascii = map of_char"

definition lower_ascii :: "nat \<Rightarrow> nat" where
  "lower_ascii c = (if 65 \<le> c \<and> c \<le> 90 then c + 32 else c)"

definition demo_rag :: rag_env where
  "demo_rag = \<lparr>rag_text = \<lparr>te_nfkc = id, te_lower = map lower_ascii, te_html = (\<lambda>t. [Data t])\<rparr>,
     rag_sha256_text = (\<lambda>t. map (\<lambda>i. if i < length t then CHR ''1'' else CHR ''0'') [0..<64]),
     rag_request_hash = (\<lambda>q h. ing_title q @ h), rag_command_hash = (\<lambda>c. show_int (cmd_expected_version c)),
     rag_embedding_provider = None, rag_cosine_similarity = (\<lambda>_ _. 0)\<rparr>"

definition rag_admin :: AuthorizedKnowledgeContext where
  "rag_admin = \<lparr>kctx_tenant_id = ''t1'', kctx_actor_id = ''ann'', kctx_roles = {''tenant_admin''}, kctx_authorization_epoch = 0\<rparr>"

definition demo_license :: LicenseMetadata where
  "demo_license = \<lparr>lic_license_id = ''cc'', lic_usage_policy = ''cite'', lic_indexing_allowed = True, lic_retention_days = None\<rparr>"

definition demo_document :: "string \<Rightarrow> string \<Rightarrow> IngestDocumentRequest" where
  "demo_document title content = \<lparr>ing_canonical_source_uri = ''https://a.org/'', ing_source_type = ''guide'', ing_source_version = ''1'',
     ing_title = title, ing_content = ascii content, ing_visibility_scope = Vs_tenant, ing_language = ''en'', ing_geo_entities = [],
     ing_tags = [], ing_published_at = None, ing_observed_at = 0, ing_valid_from = None, ing_valid_until = None,
     ing_corpus_revision = ''r1'', ing_trust_tier = Tt_official, ing_license = demo_license, ing_parser_version = ''plain-text@1'',
     ing_chunker_version = CHUNKER_VERSION, ing_metadata = []\<rparr>"

definition id_draws :: "string \<Rightarrow> nat \<Rightarrow> string" where
  "id_draws p n = p @ replicate n CHR ''x''"

definition demo_query :: ResearchQuery where
  "demo_query = \<lparr>qry_query = ascii ''temple'', qry_claim_scope = ''travel'', qry_corpus_revision = ''r1'',
     qry_filters = \<lparr>flt_languages = [], flt_source_types = [], flt_trust_tiers = [], flt_geo_entities = [], flt_tags = [],
       flt_valid_at = 0, flt_include_stale = False\<rparr>, qry_top_k = 5, qry_score_threshold = 1 / 20\<rparr>"

definition repo1 :: knowledge_repo where
  "repo1 = snd (ingest demo_rag rag_admin (demo_document ''temples'' ''Temple in the hills'') ''key-0001'' (id_draws ''ka_'') 1 empty_repo)"

definition repo2 :: knowledge_repo where
  "repo2 = snd (ingest demo_rag rag_admin (demo_document ''gardens'' ''Garden by the temple'') ''key-0002'' (id_draws ''kb_'') 2 repo1)"

lemma inj_id_draws: "inj (id_draws p)"
  by (auto simp: id_draws_def inj_def)

lemma repo1_reached: "(knowledge_step demo_rag)\<^sup>*\<^sup>* empty_repo repo1"
  unfolding repo1_def
  by (rule r_into_rtranclp, rule ingest_step) (simp add: new_ids_def inj_id_draws empty_repo_def)

section \<open>Chunks and tokens\<close>

text \<open>
  C33. Chunking cuts no short phrase: if target and overlap fit the public bound, as those of the default chunker do, splitting
  never fails, every chunk is without outer white space and within the bound, and whatever is at most one character longer than the overlap
  and stands in one paragraph, with visible characters at both ends, stands whole in some chunk.
\<close>

theorem chunks_keep_phrases:
  assumes "ck_overlap_chars k < ck_target_chars k" and "ck_target_chars k + ck_overlap_chars k + 2 \<le> MAX_CHUNK_CHARS"
  shows "\<exists>chunks. split_text k content = Inr chunks \<and>
    (\<forall>c \<in> set chunks. phrase c \<and> length c \<le> ck_target_chars k + ck_overlap_chars k + 2) \<and>
    (\<forall>p \<in> set (paragraphs content). \<forall>w. phrase w \<and> sublist w p \<and> length w \<le> ck_overlap_chars k + 1 \<longrightarrow> (\<exists>c \<in> set chunks. sublist w c)) \<and>
    filter (\<lambda>c. \<not> u_space c) (concat (paragraphs content)) = filter (\<lambda>c. \<not> u_space c) content"
proof -
  let ?chunks = "pack k [] (text_units k (paragraphs content))"
  have "\<exists>c \<in> set ?chunks. sublist w c"
    if "p \<in> set (paragraphs content)" "phrase w" "sublist w p" "length w \<le> ck_overlap_chars k + 1" for p w
    using pack_keeps [OF that(2)] text_units_cover [OF that assms(1)] by blast
  then show ?thesis using split_text_total [OF assms(2,1), of content] paragraphs_visible [of content] by blast
qed

theorem chunks_keep_phrases_witness:
  "\<exists>chunks. split_text default_chunker (ascii ''Temple in the hills'') = Inr chunks \<and> (\<exists>c \<in> set chunks. sublist (ascii ''in the'') c)"
proof -
  let ?t = "ascii ''Temple in the hills''" and ?w = "ascii ''in the''"
  have p: "?t \<in> set (paragraphs ?t)" and w: "phrase ?w" and l: "length ?w \<le> ck_overlap_chars default_chunker + 1"
    by code_simp+
  have s: "sublist ?w ?t" unfolding sublist_def by (rule exI [of _ "ascii ''Temple ''"], rule exI [of _ "ascii '' hills''"]) code_simp
  have "ck_overlap_chars default_chunker < ck_target_chars default_chunker"
    "ck_target_chars default_chunker + ck_overlap_chars default_chunker + 2 \<le> MAX_CHUNK_CHARS"
    by (simp_all add: default_chunker_def MAX_CHUNK_CHARS_def)
  from chunks_keep_phrases [OF this, of ?t] show ?thesis using p w l s by blast
qed


section \<open>Retrieval\<close>

text \<open>
  What a piece of evidence must be for the caller to be given it: a chunk of a stored, published document that is public or of the
  caller's tenant, of the requested revision and valid at the requested time unless stale evidence was asked for; and if the
  document looked like an attempt at prompt injection, an administrator has changed its status since.
\<close>

definition citable :: "AuthorizedKnowledgeContext \<Rightarrow> ResearchQuery \<Rightarrow> knowledge_repo \<Rightarrow> KnowledgeEvidence \<Rightarrow> bool" where
  "citable ctx q s e \<longleftrightarrow> (\<exists>c d. dget (kr_chunks s) (kev_chunk_id e) = Some c \<and> dget (kr_documents s) (kev_document_id e) = Some d \<and>
     chunk_of c d \<and> kev_snippet e = u_strip (take 2000 (chk_content c)) \<and> doc_status d = Is_published \<and>
     (doc_visibility_scope d = Vs_public \<or> doc_tenant_id d = Some (kctx_tenant_id ctx)) \<and>
     doc_corpus_revision d = qry_corpus_revision q \<and>
     (flt_include_stale (qry_filters q) \<or> opt_ok (\<lambda>t. t \<le> flt_valid_at (qry_filters q)) (doc_valid_from d) \<and>
        opt_ok (\<lambda>t. flt_valid_at (qry_filters q) \<le> t) (doc_valid_until d)) \<and>
     (doc_injection_suspected d \<longrightarrow> 2 \<le> doc_version d))"

lemma eligible_citable:
  assumes "repo_ok env s" and "c \<in> set (map snd (kr_chunks s))" and "published_chunk s c" and "eligible_chunk ctx q c"
    and "to_evidence x q f i t = Inr e" and "rcd_chunk x = c"
  shows "citable ctx q s e"
proof -
  obtain k where k: "dget (kr_chunks s) k = Some c" using assms(1,2) dget_values by (metis repo_ok_def)
  then have ck: "chunk_ok env s k c" using assms(1) by (simp add: repo_ok_def)
  then obtain d where d: "dget (kr_documents s) (chk_document_id c) = Some d" "chunk_of c d" and id: "chk_chunk_id c = k"
    by (auto simp: chunk_ok_def)
  have "document_ok (chk_document_id c) d" using assms(1) d(1) by (simp add: repo_ok_def)
  moreover have "doc_status d = Is_published" using assms(3) d(1) by (simp add: published_chunk_def)
  moreover have "chk_visibility_scope c = Vs_public \<or> chk_tenant_id c = Some (kctx_tenant_id ctx)"
    using assms(4) by (cases "chk_visibility_scope c") (auto simp: eligible_chunk_def Let_def split: if_splits)
  moreover have "chk_corpus_revision c = qry_corpus_revision q" using assms(4) by (auto simp: eligible_chunk_def Let_def split: if_splits)
  moreover have "flt_include_stale (qry_filters q) \<or>
      freshness_status (chk_valid_from c) (chk_valid_until c) (flt_valid_at (qry_filters q)) \<notin> {Kf_stale, Kf_not_yet_valid}"
    using assms(4) by (auto simp: eligible_chunk_def Let_def split: if_splits)
  ultimately show ?thesis
    using to_evidence_Inr [OF assms(5)] k d id assms(6) unfolding citable_def
    by (auto simp: chunk_of_def document_ok_def freshness_status_def opt_ok_def not_less intro!: exI [of _ c] exI [of _ d] split: option.splits if_splits)
qed

lemma distinct_ids_sort_desc: "distinct (ids_of (sort_desc key xs)) = distinct (ids_of xs)"
  by (simp add: ids_of_def sort_desc_def distinct_map rev_map [symmetric])

lemma distinct_ids_concat:
  assumes "distinct (map chk_chunk_id cs)" and "\<And>c. f c = [] \<or> (\<exists>v. f c = [(c, v)])"
  shows "distinct (ids_of (concat (map f cs)))"
proof -
  have sub: "set (ids_of (concat (map f ds))) \<subseteq> set (map chk_chunk_id ds)" for ds
  proof (induction ds)
    case (Cons c ds)
    then show ?case using assms(2) [of c] by (auto simp: ids_of_def)
  qed (simp add: ids_of_def)
  show ?thesis using assms(1)
  proof (induction cs)
    case (Cons c cs)
    then have c: "chk_chunk_id c \<notin> set (ids_of (concat (map f cs)))" using sub [of cs] by auto
    from assms(2) [of c] show ?case
    proof
      assume "f c = []"
      with Cons show ?thesis by simp
    next
      assume "\<exists>v. f c = [(c, v)]"
      then have "ids_of (concat (map f (c # cs))) = chk_chunk_id c # ids_of (concat (map f cs))" by (auto simp: ids_of_def)
      with Cons c show ?thesis by simp
    qed
  qed (simp add: ids_of_def)
qed

lemma distinct_lexical: "distinct (map chk_chunk_id cs) \<Longrightarrow> distinct (ids_of (lexical_scores terms cs))"
  by (cases "terms = []") (simp_all add: lexical_scores_def distinct_ids_sort_desc ids_of_def [of "[]"] distinct_ids_concat Let_def)

lemma distinct_vector:
  assumes "distinct (map chk_chunk_id cs)" and "vector_scores env q vectors cs = Inr (v, st)"
  shows "distinct (ids_of v)"
  using assms(2)
  by (auto simp: vector_scores_def sbind_Inr distinct_ids_sort_desc Let_def ids_of_def [of "[]"] split: option.splits if_splits
      intro!: distinct_ids_concat [OF assms(1)])

lemma distinct_chunk_ids:
  assumes "repo_ok env s"
  shows "distinct (map chk_chunk_id (filter P (map snd (kr_chunks s))))"
proof -
  have "chk_chunk_id c = k" if "(k, c) \<in> set (kr_chunks s)" for k c
    using assms that map_of_is_SomeI [of "kr_chunks s" k c] by (auto simp: repo_ok_def dkeys_distinct_def chunk_ok_def)
  then have "map chk_chunk_id (map snd (kr_chunks s)) = map fst (kr_chunks s)" by auto
  then have "distinct (map chk_chunk_id (map snd (kr_chunks s)))" using assms unfolding repo_ok_def dkeys_distinct_def by (simp only:)
  then show ?thesis by (rule distinct_map_filter)
qed

lemma subseq_sorted_wrt: "subseq xs ys \<Longrightarrow> sorted_wrt P ys \<Longrightarrow> sorted_wrt P xs"
proof (induction rule: list_emb.induct)
  case (list_emb_Cons2 x y xs ys)
  then show ?case by (auto elim: list_emb_set)
qed simp_all

text \<open>
  C11. Retrieval stays in scope: in every repository that ingestion and status commands can lead to, whatever retrieval returns is
  citable for the caller, at least as good as the threshold, in descending order of score, without two items of the same content and
  not more than asked for.
\<close>

theorem retrieval_stays_in_scope:
  assumes "(knowledge_step env)\<^sup>*\<^sup>* empty_repo s" and "retrieve env ctx q draw clock s = Inr r" and "0 < qry_top_k q"
  shows "(\<forall>e \<in> set (ret_items r). citable ctx q s e \<and> qry_score_threshold q \<le> scr_fused (kev_scores e)) \<and>
    sorted_wrt (\<ge>) (map (scr_fused \<circ> kev_scores) (ret_items r)) \<and> distinct (map kev_content_hash (ret_items r)) \<and>
    length (ret_items r) \<le> qry_top_k q"
proof -
  let ?cs = "filter (\<lambda>c. published_chunk s c \<and> eligible_chunk ctx q c) (map snd (kr_chunks s))"
  let ?l = "lexical_scores (tokenize (rag_text env) (qry_query q)) ?cs"
  note ok = reachable_repo_ok [OF assms(1)]
  note ids = distinct_chunk_ids [OF ok, of "\<lambda>c. published_chunk s c \<and> eligible_chunk ctx q c"]
  obtain v st where v: "vector_scores env q (kr_vectors s) ?cs = Inr (v, st)"
    and items: "select_evidence q draw clock 0 {} (fuse ?l v) = Inr (ret_items r)"
    using assms(2) by (auto simp: retrieve_def Let_def sbind_Inr split: if_splits)
  note sel = select_evidence_facts [OF items assms(3)]
  have "citable ctx q s e \<and> qry_score_threshold q \<le> scr_fused (kev_scores e)" if e: "e \<in> set (ret_items r)" for e
  proof -
    obtain x f i t where x: "(x, f) \<in> set (fuse ?l v)" "qry_score_threshold q \<le> f" "to_evidence x q f i t = Inr e"
      using sel e by fastforce
    have "rcd_chunk x \<in> fst ` (set ?l \<union> set v)"
      using fuse_ranks [OF distinct_lexical [OF ids] distinct_vector [OF ids v] x(1)] by blast
    then consider a where "(rcd_chunk x, a) \<in> set ?l" | a where "(rcd_chunk x, a) \<in> set v" by fastforce
    then have "rcd_chunk x \<in> set ?cs" by cases (use lexical_scores_from vector_scores_from [OF v] in blast)+
    then have "citable ctx q s e" by (intro eligible_citable [OF ok _ _ _ x(3) refl]) auto
    with x(2) to_evidence_Inr [OF x(3)] show ?thesis by simp
  qed
  moreover have "sorted_wrt (\<ge>) (map (scr_fused \<circ> kev_scores) (ret_items r))"
  proof (rule subseq_sorted_wrt)
    show "subseq (map (scr_fused \<circ> kev_scores) (ret_items r)) (map snd (fuse ?l v))" using sel by blast
    show "sorted_wrt (\<ge>) (map snd (fuse ?l v))"
      unfolding fuse_def Let_def sorted_wrt_map
      by (rule sorted_wrt_mono_rel [OF _ sorted_sort_desc]) (auto simp: less_eq_prod_def split: prod.splits)
  qed
  ultimately show ?thesis using sel by simp
qed

lemma fused_first: "fused_score False (Some 1) None = 1"
proof -
  let ?w = "RRF_LEXICAL_WEIGHT"
  have w: "fadd ?w 0 = ?w" by (simp add: fadd_def RRF_LEXICAL_WEIGHT_def)
  have pos: "0 < fdiv ?w 61" by code_simp
  have raw: "fadd 0 (fdiv ?w 61) = fdiv ?w 61" using weights_pos by (simp add: fadd_def fdiv_def)
  have one: "fdiv 1 1 = 1" by code_simp
  have "fdiv (fdiv ?w 61) (fdiv ?w 61) = 1" using pos one by (simp add: fdiv_def)
  then show ?thesis using pos w raw by (simp add: fused_score_def rrf_share_def Let_def)
qed

lemma fuse_single:
  "fuse [(c, v)] [] = [(\<lparr>rcd_chunk = c, rcd_lexical = Some v, rcd_vector = None, rcd_lexical_rank = Some 1, rcd_vector_rank = None\<rparr>, 1)]"
  using fused_first by (simp add: fuse_def sort_desc_def lexical_candidate_def)

definition temple :: KnowledgeChunk where
  "temple = snd (hd (kr_chunks repo1))"

lemma retrieve_temple:
  "\<exists>e r. retrieve demo_rag rag_admin demo_query (id_draws ''ke_'') (\<lambda>n. 9) repo1 = Inr r \<and> ret_items r = [e] \<and> kev_document_id e = ''ka_x''"
proof -
  have one: "map snd (kr_chunks repo1) = [temple]" and doc: "map_option doc_status (dget (kr_documents repo1) (chk_document_id temple)) = Some Is_published"
    and el: "eligible_chunk rag_admin demo_query temple" by code_simp+
  have lx: "lexical_scores (tokenize (rag_text demo_rag) (qry_query demo_query)) [temple] = [(temple, 1)]" by code_simp
  let ?x = "\<lparr>rcd_chunk = temple, rcd_lexical = Some 1, rcd_vector = None, rcd_lexical_rank = Some 1, rcd_vector_rank = None\<rparr>"
  have "case to_evidence ?x demo_query 1 (id_draws ''ke_'' (Suc 0)) 9 of Inr e \<Rightarrow> kev_document_id e = ''ka_x'' | Inl _ \<Rightarrow> False" by code_simp
  then obtain e where e: "to_evidence ?x demo_query 1 (id_draws ''ke_'' (Suc 0)) 9 = Inr e" "kev_document_id e = ''ka_x''" by (auto split: sum.splits)
  have q: "qry_score_threshold demo_query = 1 / 20" "qry_top_k demo_query = 5" by (simp_all add: demo_query_def)
  have "select_evidence demo_query (id_draws ''ke_'') (\<lambda>n. 9) 0 {} [(?x, 1)] = Inr [e]"
    using e by (simp add: q Let_def)
  moreover have "rag_embedding_provider demo_rag = None" by (simp add: demo_rag_def)
  ultimately show ?thesis
    using doc el e(2) unfolding retrieve_def one
    by (auto simp: Let_def published_chunk_def vector_scores_def lx fuse_single split: option.splits)
qed

theorem retrieval_stays_in_scope_witness:
  "\<exists>e r. retrieve demo_rag rag_admin demo_query (id_draws ''ke_'') (\<lambda>n. 9) repo1 = Inr r \<and> ret_items r = [e] \<and> kev_document_id e = ''ka_x'' \<and>
     citable rag_admin demo_query repo1 e"
proof -
  obtain e r where r: "retrieve demo_rag rag_admin demo_query (id_draws ''ke_'') (\<lambda>n. 9) repo1 = Inr r" "ret_items r = [e]" "kev_document_id e = ''ka_x''"
    using retrieve_temple by blast
  have "0 < qry_top_k demo_query" by (simp add: demo_query_def)
  from retrieval_stays_in_scope [OF repo1_reached r(1) this] r show ?thesis by auto
qed

text \<open>
  C34. Fusion respects both rankings: of two candidates of a fused ranking, the one that is not behind the other in the lexical
  and in the vector ranking (where missing in a ranking is behind everybody) has no lower fused score, in spite of the rounding of floating
  point numbers; and scores are between 0 and 1.
\<close>

theorem fusion_respects_rankings:
  assumes "distinct (ids_of lexical)" and "distinct (ids_of vector)"
    and "(x, f) \<in> set (fuse lexical vector)" and "(y, g) \<in> set (fuse lexical vector)"
    and "no_worse (rank_in lexical (chk_chunk_id (rcd_chunk x))) (rank_in lexical (chk_chunk_id (rcd_chunk y)))"
    and "no_worse (rank_in vector (chk_chunk_id (rcd_chunk x))) (rank_in vector (chk_chunk_id (rcd_chunk y)))"
  shows "0 \<le> g \<and> g \<le> f \<and> f \<le> 1"
proof -
  note x = fuse_ranks [OF assms(1-3)] and y = fuse_ranks [OF assms(1,2,4)]
  have "no_worse (rcd_lexical_rank x) (rcd_lexical_rank y)" "no_worse (rcd_vector_rank x) (rcd_vector_rank y)"
    using assms(5,6) x y by simp_all
  from fused_score_mono [OF this, of "vector \<noteq> []"] show ?thesis using x y by simp
qed

definition two_ranked :: "(KnowledgeChunk \<times> rat) list" where
  "two_ranked = map (\<lambda>(k, c). (c, 1)) (kr_chunks repo2)"

theorem fusion_respects_rankings_witness:
  "\<exists>x f y g. (x, f) \<in> set (fuse two_ranked []) \<and> (y, g) \<in> set (fuse two_ranked []) \<and>
     chk_chunk_id (rcd_chunk x) = ''ka_xx'' \<and> chk_chunk_id (rcd_chunk y) = ''kb_xx'' \<and> g \<le> f"
proof -
  have "ids_of two_ranked = [''ka_xx'', ''kb_xx'']" by code_simp
  then obtain c d v w where t: "two_ranked = [(c, v), (d, w)]" and ids: "chk_chunk_id c = ''ka_xx''" "chk_chunk_id d = ''kb_xx''"
    by (auto simp: ids_of_def map_eq_Cons_conv)
  let ?x = "lexical_candidate (1, c, v)" and ?y = "lexical_candidate (2, d, w)"
  let ?f = "\<lambda>x. fused_score False (rcd_lexical_rank x) (rcd_vector_rank x)"
  have xy: "(?x, ?f ?x) \<in> set (fuse two_ranked [])" "(?y, ?f ?y) \<in> set (fuse two_ranked [])"
    by (simp_all add: t fuse_def Let_def ids numeral_2_eq_2)
  have d: "distinct (ids_of two_ranked)" "distinct (ids_of [])" by (simp_all add: t ids ids_of_def)
  have "?f ?y \<le> ?f ?x"
    by (rule fusion_respects_rankings [OF d xy, THEN conjunct2, THEN conjunct1])
      (simp_all add: t rank_in_def lexical_candidate_def ids)
  with xy ids show ?thesis by (metis lexical_vector_ranks(3) fst_conv snd_conv)
qed

section \<open>Idempotent ingestion\<close>

lemma prepared_chunks_ok:
  "list_all KnowledgeChunk_ok (map (\<lambda>(i, c). prepared_chunk env tenant q source_id document_id suspected (draw i) i c) (enumerate n cs)) \<longleftrightarrow>
   list_all (\<lambda>c. 1 \<le> length c \<and> length c \<le> MAX_CHUNK_CHARS) cs"
  by (induction cs arbitrary: n)
    (auto simp: KnowledgeChunk_ok_def prepared_chunk_def count_tokens_approximately_def Let_def)

lemma prepare_hash:
  assumes "prepare_ingestion env tenant q source draw now = Inr p"
  shows "\<exists>p'. prepare_ingestion env tenant q source' draw' now' = Inr p' \<and> prep_request_hash p' = prep_request_hash p"
  using assms by (auto simp: prepare_ingestion_def sbind_Inr Let_def prepared_chunks_ok split: if_splits)

lemma step_keeps_keys:
  assumes "knowledge_step env s s'" and "dget (kr_idempotency s) k = Some v"
  shows "dget (kr_idempotency s') k = Some v"
  using assms
  by cases (auto simp: ingest_def ingest_new_def change_document_status_def Let_def split: sum.splits option.splits if_splits prod.splits)

lemma steps_keep_keys:
  assumes "(knowledge_step env)\<^sup>*\<^sup>* s s'" and "dget (kr_idempotency s) k = Some v"
  shows "dget (kr_idempotency s') k = Some v"
  using assms by (induction rule: rtranclp_induct) (auto intro: step_keeps_keys)

lemma ingest_records:
  assumes "ingest env ctx q key draw now s = (Inr r, s1)"
  shows "\<exists>p result. prepare_ingestion env (kctx_tenant_id ctx) q None draw now = Inr p \<and> authorize_ingest ctx q \<and> idempotency_key_ok key \<and>
    dget (kr_idempotency s1) (scope_key (kctx_tenant_id ctx) (ing_visibility_scope q), key) = Some (prep_request_hash p, result) \<and>
    result\<lparr>ires_idempotent_replay := True\<rparr> = r\<lparr>ires_idempotent_replay := True\<rparr>"
proof -
  obtain p where p: "prepare_ingestion env (kctx_tenant_id ctx) q None draw now = Inr p" and ok: "authorize_ingest ctx q" "idempotency_key_ok key"
    using assms by (auto simp: ingest_def Let_def split: if_splits sum.splits)
  let ?k = "(scope_key (kctx_tenant_id ctx) (ing_visibility_scope q), key)"
  have hash: "prep_request_hash p' = prep_request_hash p"
    if "prepare_ingestion env (kctx_tenant_id ctx) q source draw now = Inr p'" for p' source
    using prepare_hash [OF p, of source draw now] that by auto
  have "\<exists>result. dget (kr_idempotency s1) ?k = Some (prep_request_hash p, result) \<and>
    result\<lparr>ires_idempotent_replay := True\<rparr> = r\<lparr>ires_idempotent_replay := True\<rparr>"
    using assms p ok by (auto simp: ingest_def ingest_new_def Let_def dest!: hash split: if_splits sum.splits option.splits prod.splits)
  with p ok show ?thesis by blast
qed

text \<open>
  C32. Ingestion is idempotent for ever: once an ingestion has succeeded with a key, repeating it with the same key at any later time
  gives the same result again, marked as a replay, and changes nothing; another request with that key (one whose hash differs) is refused
  as a conflict and changes nothing either.
\<close>

theorem ingestion_is_idempotent:
  assumes "ingest env ctx q key draw now s = (Inr r, s1)" and "(knowledge_step env)\<^sup>*\<^sup>* s1 s2"
  shows "ingest env ctx q key draw' now' s2 = (Inr (r\<lparr>ires_idempotent_replay := True\<rparr>), s2) \<and>
    (\<forall>q' p p'. authorize_ingest ctx q' \<and> ing_visibility_scope q' = ing_visibility_scope q \<and>
       prepare_ingestion env (kctx_tenant_id ctx) q None draw now = Inr p \<and>
       prepare_ingestion env (kctx_tenant_id ctx) q' None draw' now' = Inr p' \<and> prep_request_hash p' \<noteq> prep_request_hash p \<longrightarrow>
       ingest env ctx q' key draw' now' s2 = (Inl KnowledgeConflictError, s2))"
proof -
  obtain p result where p: "prepare_ingestion env (kctx_tenant_id ctx) q None draw now = Inr p" "authorize_ingest ctx q" "idempotency_key_ok key"
    and k: "dget (kr_idempotency s1) (scope_key (kctx_tenant_id ctx) (ing_visibility_scope q), key) = Some (prep_request_hash p, result)"
    and r: "result\<lparr>ires_idempotent_replay := True\<rparr> = r\<lparr>ires_idempotent_replay := True\<rparr>"
    using ingest_records [OF assms(1)] by blast
  note k2 = steps_keep_keys [OF assms(2) k]
  obtain p' where "prepare_ingestion env (kctx_tenant_id ctx) q None draw' now' = Inr p'" "prep_request_hash p' = prep_request_hash p"
    using prepare_hash [OF p(1)] by blast
  then have "ingest env ctx q key draw' now' s2 = (Inr (r\<lparr>ires_idempotent_replay := True\<rparr>), s2)"
    using p(2,3) k2 r by (simp add: ingest_def Let_def)
  moreover have "ingest env ctx q' key draw' now' s2 = (Inl KnowledgeConflictError, s2)"
    if "authorize_ingest ctx q'" "ing_visibility_scope q' = ing_visibility_scope q"
      "prepare_ingestion env (kctx_tenant_id ctx) q' None draw' now' = Inr p'" "prep_request_hash p' \<noteq> prep_request_hash p" for q' p'
    using that p(3) k2 by (simp add: ingest_def Let_def)
  ultimately show ?thesis using p(1) by auto
qed

theorem ingestion_is_idempotent_witness:
  "\<exists>r. fst (ingest demo_rag rag_admin (demo_document ''temples'' ''Temple in the hills'') ''key-0001'' (id_draws ''ka_'') 1 empty_repo) = Inr r \<and>
     ingest demo_rag rag_admin (demo_document ''temples'' ''Temple in the hills'') ''key-0001'' (id_draws ''kc_'') 7 repo1 =
       (Inr (r\<lparr>ires_idempotent_replay := True\<rparr>), repo1)"
proof -
  let ?i = "ingest demo_rag rag_admin (demo_document ''temples'' ''Temple in the hills'') ''key-0001'' (id_draws ''ka_'') 1 empty_repo"
  have "case fst ?i of Inr _ \<Rightarrow> True | Inl _ \<Rightarrow> False" by code_simp
  then obtain r where r: "fst ?i = Inr r" by (auto split: sum.splits)
  then have "?i = (Inr r, repo1)" unfolding repo1_def by (metis prod.collapse)
  from ingestion_is_idempotent [OF this rtranclp.rtrancl_refl] r show ?thesis by blast
qed

section \<open>Where things get lost\<close>

definition quarantine :: KnowledgeDocumentStatusCommand where
  "quarantine = \<lparr>cmd_target_status = Is_quarantined, cmd_expected_version = 1, cmd_reason = Some ''outdated''\<rparr>"

definition repo3 :: knowledge_repo where
  "repo3 = snd (change_document_status demo_rag rag_admin ''ka_x'' quarantine ''cmd-0001'' 3 repo2)"

text \<open>
  A status command is lost when its key was used for another document: the repository in memory looks a key up without
  comparing the document, so the command to quarantine a second document with the same wording is answered with success, and the
  status of the first document, while the second stays published.
\<close>

theorem status_command_lost:
  "(case fst (change_document_status demo_rag rag_admin ''kb_x'' quarantine ''cmd-0001'' 4 repo3) of
      Inr r \<Rightarrow> doc_document_id (dsr_document r) = ''ka_x'' \<and> doc_status (dsr_document r) = Is_quarantined
    | Inl _ \<Rightarrow> False) \<and>
   map_option doc_status (dget (kr_documents (snd (change_document_status demo_rag rag_admin ''kb_x'' quarantine ''cmd-0001'' 4 repo3))) ''kb_x'')
     = Some Is_published"
  by (rule conjI; code_simp)

text \<open>
  An embedded object hides the rest of a document: \<^verbatim>\<open>embed\<close> is an element without end tag, but its start tag opens a blocked
  region like that of a script. Whatever follows is dropped, up to an end tag of some blocked element, and without one up to the end of the document.
\<close>

theorem embed_hides_rest:
  assumes "list_all (\<lambda>e. case e of EndTag t \<Rightarrow> t \<notin> set blocked_tags | _ \<Rightarrow> True) rest"
  shows "inert_text (StartTag ''embed'' # rest) = []"
proof -
  have "hp_parts (fold handle_event rest p) = hp_parts p" if "hp_block_depth p > 0" for p
    using assms that
  proof (induction rest arbitrary: p)
    case (Cons e rest)
    then show ?case by (cases e) (auto simp: handle_starttag_def handle_endtag_def handle_data_def)
  qed simp
  then show ?thesis by (simp add: inert_text_def handle_starttag_def blocked_tags_def)
qed

theorem embed_hides_rest_witness:
  "inert_text [StartTag ''embed'', StartTag ''p'', Data (ascii ''Closed on Mondays''), EndTag ''p''] = []"
  using embed_hides_rest [of "[StartTag ''p'', Data (ascii ''Closed on Mondays''), EndTag ''p'']"] by (simp add: blocked_tags_def)

end
