(* ===== verification/Intake.thy ===== *)
theory Intake
  imports Provider_Gateway Validation_Meaning Floats "HOL-Library.Code_Target_Nat"
begin

text \<open>
  Intake of structured trip requests, \<^verbatim>\<open>agent/travel_agent/runtime_v2/intake.py\<close>: the request model, the catalog of city centroids, geocoding with the catalog
  as its fallback, and \<open>TripBriefFactory\<close>, which turns a request into a \<open>TripBrief\<close>. A geocoder is any program on a state of its own that
  answers or raises what the provider gateway raises. The names of Chinese cities are given in English; SHA-256, ISO dates, the decimal text of
  a float, the zone database, clock readings and drawn tokens are arguments.
\<close>

section \<open>Environment and errors\<close>

record intake_env =
  ie_tz_known :: "string \<Rightarrow> bool"
  ie_sha256_hex :: "string \<Rightarrow> string"
  ie_isoformat :: "instant \<Rightarrow> string"
  ie_date_isoformat :: "int \<Rightarrow> string"
  ie_float_text :: "rat \<Rightarrow> rat"
  ie_token :: "nat \<Rightarrow> string"
  ie_monotonic :: instant
  ie_catalog_now :: instant
  ie_now :: instant

datatype intake_exc = GeocodeExc gw_exc | ContractExc contract_error | TripIntakeError string

type_synonym 's geocoder = "GeocodeRequest \<Rightarrow> ProviderCallContext \<Rightarrow> ('s, gw_exc, GeocodeResult) eff"

definition raising :: "('e \<Rightarrow> 'f) \<Rightarrow> ('s, 'e, 'a) eff \<Rightarrow> ('s, 'f, 'a) eff" where
  "raising h m s = (case m s of (Inl e, s') \<Rightarrow> (Inl (h e), s') | (Inr a, s') \<Rightarrow> (Inr a, s'))"

definition checked :: "contract_error + 'a \<Rightarrow> ('s, intake_exc, 'a) eff" where
  "checked x = raising ContractExc (elift (\<lambda>_. x))"

section \<open>Geocoding\<close>

definition CITIES :: "(string, string \<times> rat \<times> rat) dict" where
  "CITIES =
     [(''Beijing'', ''Beijing City'', 1164074 / 10000, 399042 / 10000),
      (''Beijing City'', ''Beijing City'', 1164074 / 10000, 399042 / 10000),
      (''Shanghai'', ''Shanghai City'', 1214737 / 10000, 312304 / 10000),
      (''Shanghai City'', ''Shanghai City'', 1214737 / 10000, 312304 / 10000),
      (''Guangzhou'', ''Guangzhou City'', 1132644 / 10000, 231291 / 10000),
      (''Guangzhou City'', ''Guangzhou City'', 1132644 / 10000, 231291 / 10000),
      (''Hangzhou'', ''Hangzhou City'', 1201551 / 10000, 302741 / 10000),
      (''Hangzhou City'', ''Hangzhou City'', 1201551 / 10000, 302741 / 10000),
      (''Chengdu'', ''Chengdu City'', 1040665 / 10000, 305723 / 10000),
      (''Chengdu City'', ''Chengdu City'', 1040665 / 10000, 305723 / 10000),
      (''Xian'', ''Xian City'', 1089398 / 10000, 343416 / 10000),
      (''Xian City'', ''Xian City'', 1089398 / 10000, 343416 / 10000)]"

text \<open>The literals of the source are floats.\<close>

definition catalog_candidate :: "string \<times> rat \<times> rat \<Rightarrow> GeocodeCandidate" where
  "catalog_candidate = (\<lambda>(address, longitude, latitude).
     \<lparr>gc_formatted_address = address,
      gc_coordinate = \<lparr>pc_longitude = double longitude, pc_latitude = double latitude, pc_coordinate_system = WGS84\<rparr>,
      gc_country = Some ''China'', gc_province = None, gc_city = Some address, gc_district = None,
      gc_administrative_code = None\<rparr>)"

definition catalog_result :: "intake_env \<Rightarrow> GeocodeRequest \<Rightarrow> GeocodeResult" where
  "catalog_result env request =
     \<lparr>gx_candidates = (case dget CITIES (py_strip (gq_address request)) of None \<Rightarrow> [] | Some entry \<Rightarrow> [catalog_candidate entry]),
      gx_provenance =
        \<lparr>pv_provider_id = ''routepilot-destination-catalog'', pv_provider_version = ''cn-city-centroids-2026-07-12'',
         pv_capability = GEOCODE, pv_observed_at = ie_catalog_now env, pv_valid_until = ie_catalog_now env + 365 * DAY,
         pv_freshness_status = Pf_FRESH\<rparr>\<rparr>"

definition catalog_geocode :: "intake_env \<Rightarrow> 's geocoder" where
  "catalog_geocode env request context =
     (let result = catalog_result env request in
      if ProviderResult_ok (X_geocode result) then eret result else eraise GwOther)"

definition resilient_geocode :: "'s geocoder \<Rightarrow> 's geocoder \<Rightarrow> 's geocoder" where
  "resilient_geocode primary fallback request context =
     etry (primary request context)
       (\<lambda>e. case e of
          GwError pe \<Rightarrow> if pe_class pe = E_Cancelled then eraise e else fallback request context
        | _ \<Rightarrow> eraise e)
       (\<lambda>result. if gx_candidates result \<noteq> [] then eret result else fallback request context)"

section \<open>The request\<close>

record StructuredTripRequest =
  sq_destination :: string
  sq_country_code :: string
  sq_timezone :: string
  sq_start_date :: int
  sq_end_date :: int
  sq_adults :: int
  sq_seniors :: int
  sq_children_ages :: "int list"
  sq_accessibility_needs :: "string list"
  sq_budget_min :: string
  sq_budget_max :: string
  sq_currency :: string
  sq_preferences :: "string list"

definition bound_text_list :: "string list \<Rightarrow> string list option" where
  "bound_text_list values =
     (let cleaned = map py_strip values in
      if list_ex (\<lambda>item. item = [] \<or> length item > 256) cleaned then None else Some cleaned)"

definition StructuredTripRequest_ok :: "StructuredTripRequest \<Rightarrow> bool" where
  "StructuredTripRequest_ok q \<longleftrightarrow>
     text_ok 1 100 (sq_destination q) \<and> CountryCode (sq_country_code q) \<and> text_ok 1 64 (sq_timezone q) \<and>
     0 \<le> sq_adults q \<and> sq_adults q \<le> 99 \<and> 0 \<le> sq_seniors q \<and> sq_seniors q \<le> 99 \<and>
     length (sq_children_ages q) \<le> 30 \<and> \<not> list_ex (\<lambda>age. age < 0 \<or> age > 17) (sq_children_ages q) \<and>
     length (sq_accessibility_needs q) \<le> 20 \<and> bound_text_list (sq_accessibility_needs q) = Some (sq_accessibility_needs q) \<and>
     decimal_amount_ok (sq_budget_min q) \<and> decimal_amount_ok (sq_budget_max q) \<and> currency_code_ok (sq_currency q) \<and>
     length (sq_preferences q) \<le> 20 \<and> bound_text_list (sq_preferences q) = Some (sq_preferences q) \<and>
     \<not> sq_end_date q < sq_start_date q \<and> \<not> sq_end_date q - sq_start_date q > 30 \<and>
     \<not> sq_adults q + sq_seniors q + int (length (sq_children_ages q)) < 1 \<and>
     \<not> decimal_units (sq_budget_min q) > decimal_units (sq_budget_max q)"

section \<open>The brief\<close>

definition stable_identifier :: "intake_env \<Rightarrow> string \<Rightarrow> string \<Rightarrow> string" where
  "stable_identifier env kind v = kind @ '':'' @ take 32 (ie_sha256_hex env v)"

definition provider_source :: "intake_env \<Rightarrow> StructuredTripRequest \<Rightarrow> ProviderProvenance \<Rightarrow> SourceRef" where
  "provider_source env q p =
     \<lparr>sr_source_id = stable_identifier env ''source''
        (pv_provider_id p @ '':'' @ sq_destination q @ '':'' @ ie_isoformat env (pv_observed_at p)),
      sr_kind = SK_provider, sr_name = pv_provider_id p @ '' geocode'', sr_version = pv_provider_version p, sr_uri = None,
      sr_retrieved_at = pv_observed_at p, sr_publisher = Some (pv_provider_id p), sr_license = None\<rparr>"

definition user_source :: "intake_env \<Rightarrow> SourceRef" where
  "user_source env =
     \<lparr>sr_source_id = new_id (ie_token env 0) ''source'', sr_kind = SK_user, sr_name = ''Trip workbench constraints'',
      sr_version = ''1'', sr_uri = None, sr_retrieved_at = ie_now env, sr_publisher = Some ''RoutePilot user'', sr_license = None\<rparr>"

definition intake_point :: "intake_env \<Rightarrow> ProviderCoordinate \<Rightarrow> GeoPoint" where
  "intake_point env c =
     \<lparr>gp_latitude = ie_float_text env (pc_latitude c), gp_longitude = ie_float_text env (pc_longitude c),
      gp_coordinate_system = pc_coordinate_system c, gp_accuracy_meters = None\<rparr>"

definition intake_place :: "intake_env \<Rightarrow> StructuredTripRequest \<Rightarrow> ProviderProvenance \<Rightarrow> GeocodeCandidate \<Rightarrow> contract_error + PlaceRef" where
  "intake_place env q p c =
     sbind (construct SourceRef_ok (provider_source env q p)) (\<lambda>source.
     sbind (construct GeoPoint_ok (intake_point env (gc_coordinate c))) (\<lambda>point.
     construct (PlaceRef_ok (ie_tz_known env))
       \<lparr>pl_place_id = stable_identifier env ''place'' (pv_provider_id p @ '':'' @ gc_formatted_address c),
        pl_display_name = sq_destination q, pl_address = Some (gc_formatted_address c), pl_country_code = sq_country_code q,
        pl_timezone = sq_timezone q, pl_location = point, pl_provider_ids = [], pl_source = source\<rparr>))"

definition intake_preference :: "intake_env \<Rightarrow> nat \<times> string \<Rightarrow> contract_error + TravelPreference" where
  "intake_preference env = (\<lambda>(index, v).
     construct TravelPreference_ok
       \<lparr>tp_preference_id = ''preference_'' @ show_nat index @ ''_'' @ new_id (ie_token env (2 + index)) ''pref'',
        tp_category = Pr_other, tp_value = v, tp_priority = 3\<rparr>)"

definition intake_constraint :: "intake_env \<Rightarrow> nat \<Rightarrow> ConstraintType \<Rightarrow> string \<Rightarrow> contract_error + ConstraintSpec" where
  "intake_constraint env n ty description =
     construct ConstraintSpec_ok
       \<lparr>cs_constraint_id = new_id (ie_token env n) ''constraint'', cs_constraint_type = ty, cs_hard = True, cs_priority = 5,
        cs_description = description, cs_source = user_source env\<rparr>"

definition date_description :: "intake_env \<Rightarrow> StructuredTripRequest \<Rightarrow> string" where
  "date_description env q =
     ''Travel dates are '' @ ie_date_isoformat env (sq_start_date q) @ '' to '' @ ie_date_isoformat env (sq_end_date q) @ ''.''"

definition budget_description :: "StructuredTripRequest \<Rightarrow> string" where
  "budget_description q = ''The total budget is '' @ sq_budget_min q @ ''-'' @ sq_budget_max q @ '' '' @ sq_currency q @ ''.''"

definition intake_brief ::
    "intake_env \<Rightarrow> StructuredTripRequest \<Rightarrow> string \<Rightarrow> GeocodeResult \<Rightarrow> GeocodeCandidate \<Rightarrow> contract_error + TripBrief" where
  "intake_brief env q actor_id result candidate =
     sbind (construct SourceRef_ok (user_source env)) (\<lambda>user.
     sbind (intake_place env q (gx_provenance result) candidate) (\<lambda>place.
     sbind (construct MoneyRange_ok
       \<lparr>mr_min_amount = sq_budget_min q, mr_max_amount = sq_budget_max q, mr_currency = sq_currency q, mr_basis = Total,
        mr_observed_at = ie_now env, mr_source = user\<rparr>) (\<lambda>budget.
     sbind (construct (TripDateRange_ok (ie_tz_known env))
       \<lparr>td_start_date = sq_start_date q, td_end_date = sq_end_date q, td_timezone = sq_timezone q, td_flexibility_days = 0\<rparr>) (\<lambda>window.
     sbind (construct ActorRef_ok \<lparr>ac_actor_type = Ac_user, ac_actor_id = stable_identifier env ''user'' actor_id\<rparr>) (\<lambda>creator.
     sbind (construct TravelerGroup_ok
       \<lparr>tv_adults = sq_adults q, tv_children_ages = sq_children_ages q, tv_seniors = sq_seniors q, tv_rooms = 0,
        tv_accessibility_needs = sq_accessibility_needs q\<rparr>) (\<lambda>travelers.
     sbind (smap (intake_preference env) (enumerate 0 (sq_preferences q))) (\<lambda>preferences.
     sbind (intake_constraint env (2 + length (sq_preferences q)) Ct_date
       (date_description env q)) (\<lambda>dates.
     sbind (intake_constraint env (3 + length (sq_preferences q)) Ct_budget
       (budget_description q)) (\<lambda>amount.
     construct TripBrief_ok
       \<lparr>ab_artifact_id = new_id (ie_token env 1) ''artifact'', ab_schema_version = 1, ab_version = 1, ab_created_at = ie_now env,
        ab_created_by = creator,
        ab_reason = ''Explicit constraints of the user and the destination resolved by an approved provider become the input of planning.'',
        tb_destination = place, tb_date_window = window, tb_travelers = travelers, tb_budget = budget,
        tb_preferences = preferences, tb_constraints = [dates, amount], tb_clarification_items = [], tb_source = user\<rparr>)))))))))"

definition factory_timeout :: "int \<Rightarrow> int" where
  "factory_timeout timeout = max 500000 (min timeout 15000000)"

definition build_brief ::
    "intake_env \<Rightarrow> 's geocoder \<Rightarrow> int \<Rightarrow> StructuredTripRequest \<Rightarrow> string \<Rightarrow> string \<Rightarrow> string \<Rightarrow> ('s, intake_exc, TripBrief) eff" where
  "build_brief env geocode timeout q tenant_id actor_id run_id =
     ebind (checked (with_timeout tenant_id actor_id (run_id @ '':trip-intake-geocode'') (factory_timeout timeout) None
       Scope_TENANT (ie_monotonic env))) (\<lambda>context.
     ebind (checked (construct GeocodeRequest_ok \<lparr>gq_address = sq_destination q, gq_city = Some (sq_destination q)\<rparr>)) (\<lambda>request.
     ebind (raising GeocodeExc (geocode request context)) (\<lambda>result.
       case gx_candidates result of
         [] \<Rightarrow> eraise (TripIntakeError ''DESTINATION_NOT_FOUND'')
       | candidate # _ \<Rightarrow> checked (intake_brief env q actor_id result candidate))))"

section \<open>What the arguments promise\<close>

lemma half_even_minus: "half_even (- q) = - half_even q"
proof (cases "q = of_int \<lfloor>q\<rfloor>")
  case True
  then obtain i where "q = of_int i" by blast
  then show ?thesis using half_even_int [of "- i"] by simp
next
  case False
  then have f: "\<lfloor>- q\<rfloor> = - \<lfloor>q\<rfloor> - 1" by linarith
  show ?thesis unfolding half_even_def Let_def f by auto
qed

lemma double_minus: "double (- x) = - double x"
  by (simp add: double_def binary_exponent_def half_even_minus Let_def minus_divide_left [symmetric] del: minus_divide_left)

lemma double_degrees: "double 90 = 90" "double 180 = 180"
  by code_simp+
text \<open>
  The text of a float reads back as that float, and the text of a whole number is exact. SHA-256 digests are 64 hexadecimal digits and ISO dates have
  ten characters.
\<close>

definition shortest_text :: "(rat \<Rightarrow> rat) \<Rightarrow> bool" where
  "shortest_text d \<longleftrightarrow> (\<forall>x. double x = x \<longrightarrow> double (d x) = x) \<and> (\<forall>i. \<bar>i\<bar> \<le> 1000 \<longrightarrow> d (of_int i) = of_int i)"

definition hex_digests :: "(string \<Rightarrow> string) \<Rightarrow> bool" where
  "hex_digests h \<longleftrightarrow> (\<forall>v. length (h v) = 64 \<and> (\<forall>c \<in> set (h v). is_digit c \<or> c \<in> set ''abcdef''))"

definition intake_env_ok :: "intake_env \<Rightarrow> bool" where
  "intake_env_ok env \<longleftrightarrow> hex_tokens (ie_token env) \<and> hex_digests (ie_sha256_hex env) \<and>
     (\<forall>d. length (ie_date_isoformat env d) = 10) \<and> shortest_text (ie_float_text env) \<and> 0 \<le> ie_monotonic env"

lemma float_text_le:
  assumes "shortest_text d" and "double x = x" and "x \<le> of_int b" and "0 \<le> b" and "b \<le> 1000" and "double (of_int b) = of_int b"
  shows "d x \<le> of_int b"
proof (rule ccontr)
  assume "\<not> ?thesis"
  then have "double (of_int b) \<le> double (d x)" using assms(4) by (intro double_mono) simp_all
  then have "x = of_int b" using assms unfolding shortest_text_def by fastforce
  with assms have "d x = of_int b" unfolding shortest_text_def by auto
  with \<open>\<not> ?thesis\<close> show False by simp
qed

lemma float_text_ge:
  assumes "shortest_text d" and "double x = x" and "- of_int b \<le> x" and "0 \<le> b" and "b \<le> 1000" and "double (of_int b) = of_int b"
  shows "- of_int b \<le> d x"
proof (rule ccontr)
  assume "\<not> ?thesis"
  then have "double (of_int b) \<le> double (- d x)" using assms(4) by (intro double_mono) simp_all
  then have "x = of_int (- b)" using assms unfolding shortest_text_def double_minus by fastforce
  with assms have "d x = of_int (- b)" unfolding shortest_text_def by (metis abs_minus_cancel abs_of_nonneg)
  with \<open>\<not> ?thesis\<close> show False by simp
qed

section \<open>The intake of valid requests\<close>

lemma stable_identifier_ok:
  assumes "hex_digests (ie_sha256_hex env)" and "kind \<in> {''source'', ''place'', ''user''}"
  shows "Identifier (stable_identifier env kind v)"
proof -
  have h: "length (take 32 (ie_sha256_hex env v)) = 32"
    "\<And>c. c \<in> set (take 32 (ie_sha256_hex env v)) \<Longrightarrow> is_digit c \<or> c \<in> set ''abcdef''"
    using assms(1) in_set_takeD [of _ 32 "ie_sha256_hex env v"] by (auto simp: hex_digests_def)
  have i: "list_all identifier_char (take 32 (ie_sha256_hex env v))"
    using h(2) by (auto simp: list_all_iff identifier_char_def is_lower_def)
  have k: "kind \<noteq> [] \<and> is_lower (hd kind) \<and> list_all identifier_char (tl kind) \<and> length kind \<le> 6"
    using assms(2) by (auto simp: identifier_char_def is_lower_def)
  have "identifier_char CHR '':''" by (simp add: identifier_char_def)
  with i k h(1) show ?thesis by (cases kind) (auto simp: Identifier_def stable_identifier_def)
qed

lemma preference_id_ok:
  assumes "hex_tokens (ie_token env)" and "n < 100"
  shows "Identifier (''preference_'' @ show_nat n @ ''_'' @ new_id (ie_token env k) ''pref'')"
proof -
  have "Identifier (new_id (ie_token env k) ''pref'')"
    using assms(1) by (rule identifier_new_id) (simp_all add: is_lower_def identifier_char_def)
  then have i: "list_all identifier_char (new_id (ie_token env k) ''pref'')"
    by (auto simp: Identifier_def identifier_char_def new_id_def is_lower_def)
  have l: "length (new_id (ie_token env k) ''pref'') = 29" using assms(1) by (simp add: new_id_def hex_tokens_def)
  have "length (show_nat n) \<le> 2" using show_nat_length [of n 2] assms(2) by simp
  moreover have "list_all identifier_char (show_nat n)"
    using show_nat_list_all [of n] by (auto simp: list_all_iff identifier_char_def)
  moreover have "is_lower CHR ''p'' \<and> identifier_char CHR ''_'' \<and> list_all identifier_char ''reference_''"
    by (simp add: is_lower_def identifier_char_def)
  ultimately show ?thesis using i l by (simp add: Identifier_def)
qed

lemma bound_text_listD:
  assumes "bound_text_list xs = Some xs"
  shows "list_all ShortText xs"
proof -
  from assms have "map py_strip xs = xs" "\<not> list_ex (\<lambda>x. x = [] \<or> length x > 256) (map py_strip xs)"
    by (auto simp: bound_text_list_def Let_def split: if_splits)
  then have "\<not> list_ex (\<lambda>x. x = [] \<or> length x > 256) xs" by simp
  then show ?thesis by (auto simp: ShortText_def list_all_iff list_ex_iff not_less Suc_le_eq)
qed

lemma smap_InrI:
  assumes "\<And>x. x \<in> set xs \<Longrightarrow> \<exists>y. f x = Inr y \<and> P x y"
  shows "\<exists>ys. smap f xs = Inr ys \<and> list_all2 P xs ys"
  using assms
proof (induction xs)
  case (Cons x xs)
  then obtain y ys where "f x = Inr y" "P x y" "smap f xs = Inr ys" "list_all2 P xs ys" by fastforce
  then show ?case by auto
qed simp

text \<open>A brief that is valid with everything in it.\<close>

definition brief_complete :: "(string \<Rightarrow> bool) \<Rightarrow> TripBrief \<Rightarrow> bool" where
  "brief_complete tz b \<longleftrightarrow> brief_valid b \<and> PlaceRef_ok tz (tb_destination b) \<and> GeoPoint_ok (pl_location (tb_destination b)) \<and>
     SourceRef_ok (pl_source (tb_destination b)) \<and> TripDateRange_ok tz (tb_date_window b) \<and> TravelerGroup_ok (tb_travelers b) \<and>
     list_all TravelPreference_ok (tb_preferences b) \<and> SourceRef_ok (tb_source b) \<and> ActorRef_ok (ab_created_by b)"

definition brief_states :: "StructuredTripRequest \<Rightarrow> GeocodeCandidate \<Rightarrow> TripBrief \<Rightarrow> bool" where
  "brief_states q c b \<longleftrightarrow>
     pl_display_name (tb_destination b) = sq_destination q \<and> pl_address (tb_destination b) = Some (gc_formatted_address c) \<and>
     td_start_date (tb_date_window b) = sq_start_date q \<and> td_end_date (tb_date_window b) = sq_end_date q \<and>
     td_timezone (tb_date_window b) = sq_timezone q \<and>
     mr_min_amount (tb_budget b) = sq_budget_min q \<and> mr_max_amount (tb_budget b) = sq_budget_max q \<and> mr_currency (tb_budget b) = sq_currency q \<and>
     tv_adults (tb_travelers b) = sq_adults q \<and> tv_seniors (tb_travelers b) = sq_seniors q \<and>
     tv_children_ages (tb_travelers b) = sq_children_ages q \<and> tv_accessibility_needs (tb_travelers b) = sq_accessibility_needs q \<and>
     map tp_value (tb_preferences b) = sq_preferences q \<and> map cs_constraint_type (tb_constraints b) = [Ct_date, Ct_budget]"

definition double_coordinate :: "ProviderCoordinate \<Rightarrow> bool" where
  "double_coordinate c \<longleftrightarrow> double (pc_latitude c) = pc_latitude c \<and> double (pc_longitude c) = pc_longitude c"

lemma intake_point_ok:
  assumes "intake_env_ok env" and "ProviderCoordinate_ok c" and "double_coordinate c"
  shows "GeoPoint_ok (intake_point env c)"
  using assms float_text_le [of "ie_float_text env" "pc_latitude c" 90] float_text_ge [of "ie_float_text env" "pc_latitude c" 90]
    float_text_le [of "ie_float_text env" "pc_longitude c" 180] float_text_ge [of "ie_float_text env" "pc_longitude c" 180]
  by (simp add: GeoPoint_ok_def intake_point_def intake_env_ok_def ProviderCoordinate_ok_def double_coordinate_def opt_ok_def double_degrees)

lemma provider_source_ok:
  assumes "intake_env_ok env" and "ProviderProvenance_ok p"
  shows "SourceRef_ok (provider_source env q p)"
  using assms stable_identifier_ok [of env]
  by (auto simp: SourceRef_ok_def provider_source_def intake_env_ok_def ProviderProvenance_ok_def provider_id_ok_def text_ok_def
      ShortText_def version_text_def opt_ok_def)

lemma user_source_ok: "intake_env_ok env \<Longrightarrow> SourceRef_ok (user_source env)"
  using identifier_new_id [of "ie_token env" "''source''" 0]
  by (simp add: SourceRef_ok_def user_source_def intake_env_ok_def ShortText_def version_text_def opt_ok_def is_lower_def identifier_char_def)

lemma intake_place_built:
  assumes env: "intake_env_ok env" and q: "StructuredTripRequest_ok q" "ie_tz_known env (sq_timezone q)"
    and p: "ProviderProvenance_ok p" and c: "GeocodeCandidate_ok c" "ProviderCoordinate_ok (gc_coordinate c)" "double_coordinate (gc_coordinate c)"
      "length (gc_formatted_address c) \<le> 256"
  shows "\<exists>place. intake_place env q p c = Inr place \<and> PlaceRef_ok (ie_tz_known env) place \<and> GeoPoint_ok (pl_location place) \<and>
    SourceRef_ok (pl_source place) \<and> pl_display_name place = sq_destination q \<and> pl_address place = Some (gc_formatted_address c) \<and>
    pl_timezone place = sq_timezone q"
  using intake_point_ok [OF env c(2,3)] provider_source_ok [OF env p, of q] stable_identifier_ok [of env "''place''"] env q c(1,4)
  by (auto simp: intake_place_def construct_def PlaceRef_ok_def intake_env_ok_def StructuredTripRequest_ok_def GeocodeCandidate_ok_def
      text_ok_def ShortText_def opt_ok_def IanaTimezone_def)

lemma intake_preferences_built:
  assumes "intake_env_ok env" and "length xs \<le> 20" and "list_all ShortText xs"
  shows "\<exists>ps. smap (intake_preference env) (enumerate 0 xs) = Inr ps \<and> list_all TravelPreference_ok ps \<and> map tp_value ps = xs"
proof -
  have "\<exists>p. intake_preference env y = Inr p \<and> TravelPreference_ok p \<and> tp_value p = snd y" if y: "y \<in> set (enumerate 0 xs)" for y
  proof -
    obtain n v where e: "y = (n, v)" by (cases y)
    with y have "n < length xs" "xs ! n = v" by (auto simp: in_set_enumerate_eq)
    with assms have "n < 100" "ShortText v" by (auto simp: list_all_length)
    then show ?thesis using e assms(1) preference_id_ok [of env n "2 + n"]
      by (simp add: intake_preference_def construct_def TravelPreference_ok_def intake_env_ok_def)
  qed
  from smap_InrI [of "enumerate 0 xs" "intake_preference env" "\<lambda>y p. TravelPreference_ok p \<and> tp_value p = snd y", OF this]
  obtain ps where ps: "smap (intake_preference env) (enumerate 0 xs) = Inr ps"
    "list_all2 (\<lambda>y p. TravelPreference_ok p \<and> tp_value p = snd y) (enumerate 0 xs) ps" by blast
  then have "list_all TravelPreference_ok ps" by (auto simp: list_all2_conv_all_nth list_all_length)
  moreover have "map tp_value ps = xs"
    using ps(2) by (intro nth_equalityI [of "map tp_value ps" xs]) (simp_all add: list_all2_conv_all_nth nth_enumerate_eq)
  ultimately show ?thesis using ps(1) by auto
qed

lemma intake_constraint_built:
  assumes "intake_env_ok env" and "NonEmptyText d"
  shows "\<exists>c. intake_constraint env n ty d = Inr c \<and> ConstraintSpec_ok c \<and> cs_constraint_type c = ty"
  using assms identifier_new_id [of "ie_token env" "''constraint''" n]
  by (simp add: intake_constraint_def construct_def ConstraintSpec_ok_def intake_env_ok_def is_lower_def identifier_char_def)

lemma decimal_amount_length: "decimal_amount_ok s \<Longrightarrow> length s \<le> 32"
  by (simp add: decimal_amount_ok_def Let_def)

lemma intake_brief_built:
  assumes env: "intake_env_ok env" and q: "StructuredTripRequest_ok q" "ie_tz_known env (sq_timezone q)"
    and r: "ProviderResult_ok (X_geocode result)" "c \<in> set (gx_candidates result)" "double_coordinate (gc_coordinate c)"
      "length (gc_formatted_address c) \<le> 256"
  shows "\<exists>b. intake_brief env q actor_id result c = Inr b \<and> brief_complete (ie_tz_known env) b \<and> brief_states q c b"
proof -
  have user: "construct SourceRef_ok (user_source env) = Inr (user_source env)" "SourceRef_ok (user_source env)"
    using user_source_ok [OF env] by simp_all
  have "ProviderProvenance_ok (gx_provenance result)" "GeocodeCandidate_ok c" "ProviderCoordinate_ok (gc_coordinate c)"
    using r by (auto simp: list_all_iff)
  from intake_place_built [OF env q this r(3,4)] obtain place where place:
    "intake_place env q (gx_provenance result) c = Inr place" "PlaceRef_ok (ie_tz_known env) place" "GeoPoint_ok (pl_location place)"
    "SourceRef_ok (pl_source place)" "pl_display_name place = sq_destination q" "pl_address place = Some (gc_formatted_address c)"
    "pl_timezone place = sq_timezone q" by blast
  from q have fields: "length (sq_preferences q) \<le> 20" "list_all ShortText (sq_preferences q)" "list_all ShortText (sq_accessibility_needs q)"
    by (auto simp: StructuredTripRequest_ok_def intro: bound_text_listD)
  from intake_preferences_built [OF env fields(1,2)] obtain ps where ps:
    "smap (intake_preference env) (enumerate 0 (sq_preferences q)) = Inr ps" "list_all TravelPreference_ok ps"
    "map tp_value ps = sq_preferences q" by blast
  then have n: "length ps \<le> 20" using fields(1) by (metis length_map)
  have "NonEmptyText (date_description env q)" using env by (simp add: date_description_def NonEmptyText_def intake_env_ok_def)
  from intake_constraint_built [OF env this] obtain c1 where c1:
    "intake_constraint env (2 + length (sq_preferences q)) Ct_date (date_description env q) = Inr c1" "ConstraintSpec_ok c1" "cs_constraint_type c1 = Ct_date" by blast
  have "NonEmptyText (budget_description q)"
    using q(1) decimal_amount_length [of "sq_budget_min q"] decimal_amount_length [of "sq_budget_max q"]
    by (simp add: budget_description_def NonEmptyText_def StructuredTripRequest_ok_def currency_code_ok_def)
  from intake_constraint_built [OF env this] obtain c2 where c2:
    "intake_constraint env (3 + length (sq_preferences q)) Ct_budget (budget_description q) = Inr c2" "ConstraintSpec_ok c2" "cs_constraint_type c2 = Ct_budget" by blast
  have creator: "Identifier (stable_identifier env ''user'' actor_id)"
    using env stable_identifier_ok [of env "''user''"] by (simp add: intake_env_ok_def)
  have artifact: "Identifier (new_id (ie_token env 1) ''artifact'')"
    using env identifier_new_id [of "ie_token env" "''artifact''" 1] by (simp add: intake_env_ok_def is_lower_def identifier_char_def)
  show ?thesis
    using q user place ps(2,3) n c1(2,3) c2(2,3) creator artifact fields(3)
    by (simp add: intake_brief_def place(1) ps(1) c1(1) [simplified] c2(1) brief_complete_def brief_states_def brief_valid_def TripBrief_ok_def
        ArtifactBase_ok_def NonEmptyText_def ActorRef_ok_def MoneyRange_ok_def TripDateRange_ok_def TravelerGroup_ok_def IanaTimezone_def
        StructuredTripRequest_ok_def text_ok_def list_ex_iff list_all_iff construct_def not_less)
qed

definition caller_ok :: "string \<Rightarrow> string \<Rightarrow> string \<Rightarrow> bool" where
  "caller_ok tenant_id actor_id run_id \<longleftrightarrow> text_ok 1 128 tenant_id \<and> text_ok 1 128 actor_id \<and> length run_id \<le> 180"

definition intake_context :: "intake_env \<Rightarrow> int \<Rightarrow> string \<Rightarrow> string \<Rightarrow> string \<Rightarrow> ProviderCallContext" where
  "intake_context env timeout tenant_id actor_id run_id =
     \<lparr>cx_tenant_id = tenant_id, cx_actor_id = actor_id, cx_operation_id = run_id @ '':trip-intake-geocode'', cx_idempotency_key = None,
      cx_deadline_monotonic = Some (ie_monotonic env + factory_timeout timeout), cx_cache_scope = Scope_TENANT\<rparr>"

lemma intake_context_built:
  assumes "intake_env_ok env" and "caller_ok tenant_id actor_id run_id"
  shows "with_timeout tenant_id actor_id (run_id @ '':trip-intake-geocode'') (factory_timeout timeout) None Scope_TENANT (ie_monotonic env) =
    Inr (intake_context env timeout tenant_id actor_id run_id)"
  using assms
  by (auto simp: with_timeout_def construct_def ProviderCallContext_ok_def caller_ok_def text_ok_def opt_ok_def intake_env_ok_def factory_timeout_def
      intake_context_def)

lemma checked_simps [simp]: "checked (Inr a) w = (Inr a, w)" "checked (Inl e) w = (Inl (ContractExc e), w)"
  by (simp_all add: checked_def raising_def elift_def)

lemma build_brief_asks:
  assumes "intake_env_ok env" and "caller_ok tenant_id actor_id run_id" and "text_ok 2 80 (sq_destination q)"
  shows "build_brief env geocode timeout q tenant_id actor_id run_id w =
    (case geocode \<lparr>gq_address = sq_destination q, gq_city = Some (sq_destination q)\<rparr> (intake_context env timeout tenant_id actor_id run_id) w of
       (Inl e, w') \<Rightarrow> (Inl (GeocodeExc e), w')
     | (Inr result, w') \<Rightarrow>
         (case gx_candidates result of
            [] \<Rightarrow> (Inl (TripIntakeError ''DESTINATION_NOT_FOUND''), w')
          | c # _ \<Rightarrow> checked (intake_brief env q actor_id result c) w'))"
  using assms(3)
  by (simp add: build_brief_def intake_context_built [OF assms(1,2)] ebind_def raising_def construct_def GeocodeRequest_ok_def text_ok_def opt_ok_def
      split: prod.split sum.split list.split)

end
