(* ===== verification/Orchestrator.thy ===== *)
theory Orchestrator
  imports A2A_Requests Intake Run_Coordinator
begin

text \<open>
  The orchestration of a Run over agent Tasks: \<^verbatim>\<open>agent/travel_agent/runtime_v2/orchestrator.py\<close> and its adapter
  \<open>OrchestratedWholeRunExecutor\<close> in \<^verbatim>\<open>backend/moyuan_web/v1/runtime.py\<close>. The programs run in the world of the Task service, so others act at all its
  suspensions. \<open>raising\<close> embeds the exceptions of a component in those of the orchestrator. Pydantic's parsing and dumping of contracts, UUIDs of version 5,
  JSON texts and drawn tokens are arguments, and so is the progress callback of the coordinator.
\<close>

section \<open>Questions and answers\<close>

record TravelQuestion = ArtifactBase +
  tq_question :: string
  tq_locale :: string
  tq_destination_hint :: "string option"
  tq_asked_at :: instant
  tq_source :: SourceRef

definition TravelQuestion_ok :: "TravelQuestion \<Rightarrow> bool" where
  "TravelQuestion_ok q \<longleftrightarrow> ArtifactBase_ok q \<and> NonEmptyText (tq_question q) \<and> 2 \<le> length (tq_locale q) \<and> length (tq_locale q) \<le> 32 \<and>
     opt_ok ShortText (tq_destination_hint q) \<and> \<not> sr_kind (tq_source q) \<noteq> SK_user"

record AnswerEvidence =
  an_evidence_id :: string
  an_title :: string
  an_statement :: string
  an_source :: SourceRef
  an_freshness :: Freshness

definition AnswerEvidence_ok :: "AnswerEvidence \<Rightarrow> bool" where
  "AnswerEvidence_ok e \<longleftrightarrow> Identifier (an_evidence_id e) \<and> ShortText (an_title e) \<and> NonEmptyText (an_statement e) \<and>
     \<not> sr_source_id (fr_source (an_freshness e)) \<noteq> sr_source_id (an_source e)"

record AnswerSection =
  as_heading :: string
  as_body :: string
  as_evidence_refs :: "string list"

definition AnswerSection_ok :: "AnswerSection \<Rightarrow> bool" where
  "AnswerSection_ok s \<longleftrightarrow> ShortText (as_heading s) \<and> NonEmptyText (as_body s) \<and> length (as_evidence_refs s) \<le> 20 \<and>
     list_all Identifier (as_evidence_refs s)"

datatype AnswerStatus = Answered | Needs_clarification | Insufficient_evidence

record TravelAnswer = ArtifactBase +
  ta_question_ref :: ArtifactRef
  ta_question :: string
  ta_answer_status :: AnswerStatus
  ta_summary :: string
  ta_sections :: "AnswerSection list"
  ta_evidence :: "AnswerEvidence list"
  ta_citations :: "Citation list"
  ta_assumptions :: "string list"
  ta_limitations :: "string list"
  ta_suggested_questions :: "string list"
  ta_generated_at :: instant

definition TravelAnswer_ok :: "TravelAnswer \<Rightarrow> bool" where
  "TravelAnswer_ok a \<longleftrightarrow>
     (let known = set (map an_evidence_id (ta_evidence a)) in
      ArtifactBase_ok a \<and> NonEmptyText (ta_question a) \<and> NonEmptyText (ta_summary a) \<and> length (ta_sections a) \<le> 8 \<and>
      length (ta_evidence a) \<le> 30 \<and> length (ta_citations a) \<le> 100 \<and>
      length (ta_assumptions a) \<le> 20 \<and> list_all ShortText (ta_assumptions a) \<and>
      length (ta_limitations a) \<le> 20 \<and> list_all NonEmptyText (ta_limitations a) \<and>
      length (ta_suggested_questions a) \<le> 6 \<and> list_all ShortText (ta_suggested_questions a) \<and>
      \<not> ar_artifact_type (ta_question_ref a) \<noteq> AT_TravelQuestion \<and>
      distinct (map an_evidence_id (ta_evidence a)) \<and> distinct (map ci_citation_id (ta_citations a)) \<and>
      \<not> list_ex (\<lambda>c. ci_evidence_id c \<notin> known) (ta_citations a) \<and>
      \<not> list_ex (\<lambda>x. \<not> set (as_evidence_refs x) \<subseteq> known) (ta_sections a) \<and>
      (ta_answer_status a = Answered \<longrightarrow>
         ta_evidence a \<noteq> [] \<and> ta_sections a \<noteq> [] \<and> \<not> list_ex (\<lambda>x. as_evidence_refs x = []) (ta_sections a)))"

section \<open>Environment and errors\<close>

datatype orch_exc =
    ServiceExc agent_exc
  | AgentTaskFailed string string
  | AgentInputRequired string string TypedInputRequest
  | OrchContract contract_error
  | OrchIntake intake_exc
  | ProgressExc run_exc

type_synonym 'a orch = "(agent_world, orch_exc, 'a) eff"

text \<open>An instance of a contract model; \<open>Cv_other\<close> stands for the models the orchestrator never reads.\<close>

datatype contract_value =
    Cv_question TravelQuestion
  | Cv_answer TravelAnswer
  | Cv_brief TripBrief
  | Cv_evidence EvidenceBundle
  | Cv_candidates CandidateSet
  | Cv_plan ItineraryPlan
  | Cv_constraints ConstraintReport
  | Cv_semantics SemanticRiskReport
  | Cv_validation ValidationReport
  | Cv_snapshot TripSnapshot
  | Cv_other jobj

record orch_sys =
  os_service :: agent_sys
  os_rounds :: nat
  os_timeout :: int
  os_uuid5 :: "string \<Rightarrow> string"
  os_json_text :: "json \<Rightarrow> string"
  os_model_validate :: "string \<Rightarrow> jobj \<Rightarrow> contract_error + contract_value"
  os_dump :: "contract_value \<Rightarrow> jobj"
  os_parse_input_request :: "json \<Rightarrow> TypedInputRequest option"
  os_parse_request :: "jobj \<Rightarrow> contract_error + StructuredTripRequest"
  os_policy :: check_env
  os_token :: "nat \<Rightarrow> string"
  os_intake :: intake_env
  os_geocode :: "agent_world geocoder"
  os_geocode_timeout :: int

definition given :: "contract_error + 'a \<Rightarrow> 'a orch" where
  "given x = raising OrchContract (elift (\<lambda>_. x))"

definition CONTRACT_NAMES :: "string list" where
  "CONTRACT_NAMES = [''TravelQuestion@1'', ''TravelAnswer@1'', ''TripBrief@1'', ''EvidenceBundle@1'', ''CandidateSet@1'', ''ItineraryPlan@1'',
     ''ConstraintReport@1'', ''SemanticRiskReport@1'', ''ValidationReport@1'', ''TripSnapshot@1'', ''ShareSnapshot@1'']"

definition validate_contract :: "orch_sys \<Rightarrow> string \<Rightarrow> jobj \<Rightarrow> contract_error + contract_value" where
  "validate_contract sy contract payload =
     (if contract = ''RunEvent@1'' \<or> contract \<in> set CONTRACT_NAMES then os_model_validate sy contract payload
      else Inl (ValueErr ''unsupported contract''))"

definition A2AActor_ok :: "A2AActor \<Rightarrow> bool" where
  "A2AActor_ok a \<longleftrightarrow> 1 \<le> length (aa_tenant_id a) \<and> length (aa_tenant_id a) \<le> 128 \<and> 1 \<le> length (aa_actor_id a) \<and>
     length (aa_actor_id a) \<le> 128 \<and> 0 \<le> aa_authorization_epoch a"

section \<open>The mesh\<close>

record AgentArtifact =
  ga_contract :: string
  ga_payload :: jobj
  ga_artifact_id :: string

record AgentTaskResult =
  gr_interface_id :: string
  gr_task_id :: string
  gr_context_id :: string
  gr_artifacts :: "AgentArtifact list"

text \<open>In microseconds; the margin below the maximum is a second.\<close>

definition mesh_timeout :: "int \<Rightarrow> int" where
  "mesh_timeout timeout = max 5000000 (min timeout (MAX_TASK_TIMEOUT - 1000000))"

definition dispatch_separator :: string where
  "dispatch_separator = [char_of (31 :: nat)]"

definition deterministic_dispatch_id :: "orch_sys \<Rightarrow> string \<Rightarrow> string \<Rightarrow> string \<Rightarrow> string \<Rightarrow> string" where
  "deterministic_dispatch_id sy tenant_id run_id interface_id key =
     os_uuid5 sy (''routepilot-v1'' @ dispatch_separator @ tenant_id @ dispatch_separator @ run_id @ dispatch_separator @ interface_id @ dispatch_separator @ key)"

fun state_name :: "int \<Rightarrow> string" where
  "state_name st =
     (if st = TASK_SUBMITTED then ''TASK_STATE_SUBMITTED'' else if st = TASK_WORKING then ''TASK_STATE_WORKING''
      else if st = TASK_COMPLETED then ''TASK_STATE_COMPLETED'' else if st = TASK_FAILED then ''TASK_STATE_FAILED''
      else if st = TASK_CANCELED then ''TASK_STATE_CANCELED'' else if st = TASK_INPUT_REQUIRED then ''TASK_STATE_INPUT_REQUIRED''
      else if st = TASK_REJECTED then ''TASK_STATE_REJECTED'' else if st = TASK_AUTH_REQUIRED then ''TASK_STATE_AUTH_REQUIRED''
      else ''TASK_STATE_UNSPECIFIED'')"

definition wire_message :: "string \<Rightarrow> string \<Rightarrow> string \<Rightarrow> jobj \<Rightarrow> string \<Rightarrow> jobj \<Rightarrow> Message" where
  "wire_message message_id task_id context_id data schema_uri dispatch =
     \<lparr>ms_message_id = message_id, ms_task_id = task_id, ms_context_id = context_id, ms_role = Role_user,
      ms_parts = [\<lparr>pt_data = Some (JObj data), pt_metadata = [(''schema_uri'', JStr schema_uri), (''schema_version'', JInt 1)]\<rparr>],
      ms_metadata = [(TRAVEL_ARTIFACT_EXTENSION_URI, JObj dispatch)], ms_extensions = [TRAVEL_ARTIFACT_EXTENSION_URI],
      ms_reference_task_ids = []\<rparr>"

definition wire_request :: "string \<Rightarrow> Message \<Rightarrow> SendMessageRequest" where
  "wire_request tenant m =
     \<lparr>sm_tenant = tenant, sm_message = m, sm_accepted_output_modes = [''application/json''], sm_push_notification = False,
      sm_history_length = 0, sm_return_immediately = False, sm_metadata = []\<rparr>"

definition dispatch_message :: "orch_sys \<Rightarrow> string \<Rightarrow> string \<Rightarrow> string \<Rightarrow> string \<Rightarrow> ArtifactInput list \<Rightarrow> instant \<Rightarrow> Message" where
  "dispatch_message sy iface run_id dispatch_id goal artifacts deadline =
     wire_message dispatch_id [] []
       [(''goal'', JStr goal),
        (''artifacts'', JList (map (\<lambda>a. JObj [(''contract'', JStr (ai_contract a)), (''payload'', JObj (ai_payload a))]) artifacts)),
        (''options'', JObj [])]
       (schema_uri_of_interface iface)
       [(''dispatch_id'', JStr dispatch_id), (''run_id'', JStr run_id), (''deadline'', JStr (as_iso (os_service sy) deadline))]"

definition response_dump :: "InputResponse \<Rightarrow> jobj" where
  "response_dump r = [(''request_id'', JStr (ip_request_id r)), (''values'', JObj (ip_values r))]"

definition resume_message :: "orch_sys \<Rightarrow> string \<Rightarrow> string \<Rightarrow> Task \<Rightarrow> InputResponse \<Rightarrow> Message" where
  "resume_message sy run_id dispatch_id task response =
     wire_message
       (os_uuid5 sy (''routepilot-v1-resume'' @ dispatch_separator @ tk_id task @ dispatch_separator @ os_json_text sy (JObj (response_dump response))))
       (tk_id task) (tk_context_id task) (response_dump response) INPUT_RESPONSE_SCHEMA_URI
       [(''dispatch_id'', JStr dispatch_id), (''run_id'', JStr run_id)]"

definition resume_agent_task :: "orch_sys \<Rightarrow> A2AActor \<Rightarrow> string \<Rightarrow> string \<Rightarrow> string \<Rightarrow> Task \<Rightarrow> InputResponse \<Rightarrow> Task agent_co" where
  "resume_agent_task sy actor iface run_id dispatch_id task response =
     send_message (os_rounds sy) (os_service sy) actor iface
       (wire_request (aa_tenant_id actor) (resume_message sy run_id dispatch_id task response)) {TRAVEL_ARTIFACT_EXTENSION_URI}"

definition dispatch_task :: "orch_sys \<Rightarrow> A2AActor \<Rightarrow> string \<Rightarrow> string \<Rightarrow> string \<Rightarrow> string \<Rightarrow> ArtifactInput list \<Rightarrow> InputResponse option \<Rightarrow>
    Task agent_co" where
  "dispatch_task sy actor iface run_id dispatch_id goal artifacts response =
     (let recover = recover_dispatch (os_rounds sy) (os_service sy) actor iface run_id dispatch_id True in
      ebind recover (\<lambda>found. case found of
        Some task \<Rightarrow>
          (case response of
             Some r \<Rightarrow> if tk_state task = TASK_INPUT_REQUIRED then resume_agent_task sy actor iface run_id dispatch_id task r else eret task
           | None \<Rightarrow> eret task)
      | None \<Rightarrow>
          ebind (utc_now (os_service sy)) (\<lambda>now.
          ecatch
            (send_message (os_rounds sy) (os_service sy) actor iface
              (wire_request (aa_tenant_id actor)
                (dispatch_message sy iface run_id dispatch_id goal artifacts (now + mesh_timeout (os_timeout sy))))
              {TRAVEL_ARTIFACT_EXTENSION_URI})
            (\<lambda>e. if e = InvalidParamsError
              then ebind recover (\<lambda>again. case again of Some task \<Rightarrow> eret task | None \<Rightarrow> eraise e)
              else eraise e))))"

definition asked_for :: "orch_sys \<Rightarrow> Task \<Rightarrow> TypedInputRequest option" where
  "asked_for sy task =
     (case ts_message (tk_status task) of
        Some m \<Rightarrow> (case ms_parts m of [part] \<Rightarrow> Option.bind (pt_data part) (os_parse_input_request sy) | _ \<Rightarrow> None)
      | None \<Rightarrow> None)"

definition task_artifact :: "orch_sys \<Rightarrow> string \<Rightarrow> Artifact \<Rightarrow> orch_exc + AgentArtifact" where
  "task_artifact sy iface a =
     (let contract = (case dget (at_metadata a) TRAVEL_ARTIFACT_EXTENSION_URI of
                        Some (JObj extension) \<Rightarrow> (case dget extension ''contract'' of Some (JStr c) \<Rightarrow> Some c | _ \<Rightarrow> None)
                      | _ \<Rightarrow> None)
      in case (contract, at_parts a) of
           (Some c, [part]) \<Rightarrow>
             (case pt_data part of
                Some (JObj body) \<Rightarrow>
                  (case validate_contract sy c body of
                     Inl e \<Rightarrow> Inl (OrchContract e)
                   | Inr v \<Rightarrow> Inr \<lparr>ga_contract = c, ga_payload = os_dump sy v, ga_artifact_id = at_artifact_id a\<rparr>)
              | _ \<Rightarrow> Inl (AgentTaskFailed iface ''INVALID_ARTIFACT''))
         | _ \<Rightarrow> Inl (AgentTaskFailed iface ''INVALID_ARTIFACT''))"

definition task_result :: "orch_sys \<Rightarrow> string \<Rightarrow> Task \<Rightarrow> orch_exc + AgentTaskResult" where
  "task_result sy iface task =
     (if tk_state task = TASK_INPUT_REQUIRED then
        (case asked_for sy task of
           None \<Rightarrow> Inl (AgentTaskFailed iface ''INVALID_INPUT_REQUEST'')
         | Some request \<Rightarrow> Inl (AgentInputRequired iface (tk_id task) request))
      else if tk_state task \<noteq> TASK_COMPLETED then Inl (AgentTaskFailed iface (state_name (tk_state task)))
      else sbind (smap (task_artifact sy iface) (tk_artifacts task)) (\<lambda>outputs.
        Inr \<lparr>gr_interface_id = iface, gr_task_id = tk_id task, gr_context_id = tk_context_id task, gr_artifacts = outputs\<rparr>))"

definition mesh_dispatch :: "orch_sys \<Rightarrow> A2AActor \<Rightarrow> string \<Rightarrow> string \<Rightarrow> string \<Rightarrow> ArtifactInput list \<Rightarrow> string option \<Rightarrow> InputResponse option \<Rightarrow>
    AgentTaskResult orch" where
  "mesh_dispatch sy actor iface run_id goal artifacts key response =
     (let stage_key = py_strip (case key of Some k \<Rightarrow> if k = [] then iface else k | None \<Rightarrow> iface) in
      if stage_key = [] \<or> length stage_key > 96
      then eraise (OrchContract (ValueErr ''dispatch_key must contain between 1 and 96 characters''))
      else
        ebind (raising ServiceExc
          (dispatch_task sy actor iface run_id (deterministic_dispatch_id sy (aa_tenant_id actor) run_id iface stage_key) goal artifacts response))
          (\<lambda>task. elift (\<lambda>_. task_result sy iface task)))"

section \<open>The orchestrator\<close>

definition artifact_input :: "orch_sys \<Rightarrow> string \<Rightarrow> contract_value \<Rightarrow> ArtifactInput" where
  "artifact_input sy contract v = \<lparr>ai_contract = contract, ai_payload = os_dump sy v\<rparr>"

text \<open>\<open>_result\<close>; \<open>pick\<close> is the \<^verbatim>\<open>isinstance\<close> test for the expected class.\<close>

definition agent_output :: "orch_sys \<Rightarrow> AgentTaskResult \<Rightarrow> string \<Rightarrow> (contract_value \<Rightarrow> 'a option) \<Rightarrow> 'a orch" where
  "agent_output sy result contract pick =
     (case filter (\<lambda>a. ga_contract a = contract) (gr_artifacts result) of
        [match] \<Rightarrow>
          ebind (given (validate_contract sy contract (ga_payload match))) (\<lambda>parsed.
            case pick parsed of
              None \<Rightarrow> eraise (AgentTaskFailed (gr_interface_id result) ''INCOMPATIBLE_ARTIFACT'')
            | Some v \<Rightarrow> eret v)
      | _ \<Rightarrow> eraise (AgentTaskFailed (gr_interface_id result) (''MISSING_'' @ contract)))"

definition as_evidence :: "contract_value \<Rightarrow> EvidenceBundle option" where
  "as_evidence v = (case v of Cv_evidence e \<Rightarrow> Some e | _ \<Rightarrow> None)"

definition as_candidates :: "contract_value \<Rightarrow> CandidateSet option" where
  "as_candidates v = (case v of Cv_candidates c \<Rightarrow> Some c | _ \<Rightarrow> None)"

definition as_plan :: "contract_value \<Rightarrow> ItineraryPlan option" where
  "as_plan v = (case v of Cv_plan p \<Rightarrow> Some p | _ \<Rightarrow> None)"

definition as_constraints :: "contract_value \<Rightarrow> ConstraintReport option" where
  "as_constraints v = (case v of Cv_constraints r \<Rightarrow> Some r | _ \<Rightarrow> None)"

definition as_semantics :: "contract_value \<Rightarrow> SemanticRiskReport option" where
  "as_semantics v = (case v of Cv_semantics r \<Rightarrow> Some r | _ \<Rightarrow> None)"

definition as_brief :: "contract_value \<Rightarrow> TripBrief option" where
  "as_brief v = (case v of Cv_brief b \<Rightarrow> Some b | _ \<Rightarrow> None)"

record OrchestrationResult =
  or_brief :: TripBrief
  or_evidence :: EvidenceBundle
  or_candidates :: CandidateSet
  or_plan :: ItineraryPlan
  or_constraints :: ConstraintReport
  or_semantics :: SemanticRiskReport
  or_validation :: ValidationReport
  or_snapshot :: TripSnapshot
  or_task_refs :: "AgentTaskResult list"

type_synonym progress = "string \<Rightarrow> string \<Rightarrow> int \<Rightarrow> unit orch"

definition validated_plan :: "ItineraryPlan \<Rightarrow> ValidationReport \<Rightarrow> ItineraryPlan" where
  "validated_plan plan validation =
     plan\<lparr>ip_status := (if va_publishable validation then Ps_validated else Ps_candidate),
          ip_validation_ref := Some (artifact_ref validation AT_ValidationReport)\<rparr>"

definition trip_snapshot :: "orch_sys \<Rightarrow> instant \<Rightarrow> instant \<Rightarrow> string \<Rightarrow> string \<Rightarrow> TripBrief \<Rightarrow> EvidenceBundle \<Rightarrow> CandidateSet \<Rightarrow> ItineraryPlan \<Rightarrow>
    ConstraintReport \<Rightarrow> SemanticRiskReport \<Rightarrow> ValidationReport \<Rightarrow> TripSnapshot" where
  "trip_snapshot sy t1 t2 trip_id title brief evidence candidates plan constraints semantics validation =
     \<lparr>ab_artifact_id = new_id (os_token sy 0) ''artifact'', ab_schema_version = 1, ab_version = 1, ab_created_at = t1,
      ab_created_by = system_actor ''travel-orchestrator'',
      ab_reason = ''The results of the professional agents, through the versioned publication gate.'',
      sn_trip_id = trip_id, sn_title = take 256 title,
      sn_status = (if va_publishable validation then Sn_ready else Sn_planning),
      sn_timezone = pl_timezone (tb_destination brief), sn_brief = brief, sn_itinerary = validated_plan plan validation,
      sn_validation = validation, sn_generated_at = t2,
      sn_source_artifact_versions =
        [artifact_ref brief AT_TripBrief, artifact_ref (validated_plan plan validation) AT_ItineraryPlan,
         artifact_ref validation AT_ValidationReport, artifact_ref evidence AT_EvidenceBundle,
         artifact_ref candidates AT_CandidateSet, artifact_ref constraints AT_ConstraintReport,
         artifact_ref semantics AT_SemanticRiskReport]\<rparr>"

definition orchestrate :: "orch_sys \<Rightarrow> string \<Rightarrow> string \<Rightarrow> string \<Rightarrow> string \<Rightarrow> string \<Rightarrow> TripBrief \<Rightarrow> string \<Rightarrow> progress \<Rightarrow>
    TripSnapshot option \<Rightarrow> ItineraryPlan option \<Rightarrow> InputResponse option \<Rightarrow> OrchestrationResult orch" where
  "orchestrate sy tenant_id actor_id run_id trip_id title brief goal progress base_snapshot base_plan response =
     (let brief_input = artifact_input sy ''TripBrief@1'' (Cv_brief brief);
          base_inputs = (case base_snapshot of None \<Rightarrow> [] | Some s \<Rightarrow> [artifact_input sy ''TripSnapshot@1'' (Cv_snapshot s)]) @
            (case base_plan of None \<Rightarrow> [] | Some p \<Rightarrow> [artifact_input sy ''ItineraryPlan@1'' (Cv_plan p)])
      in
        ebind (given (construct A2AActor_ok
          \<lparr>aa_tenant_id = tenant_id, aa_actor_id = actor_id, aa_roles = {''owner''}, aa_authorization_epoch = 0\<rparr>)) (\<lambda>actor.
        ebind (progress ''research'' ''Retrieving and checking travel evidence'' 20) (\<lambda>_.
        ebind (mesh_dispatch sy actor ''research'' run_id goal (brief_input # base_inputs) (Some ''research'') response) (\<lambda>research.
        ebind (agent_output sy research ''EvidenceBundle@1'' as_evidence) (\<lambda>evidence.
        ebind (agent_output sy research ''CandidateSet@1'' as_candidates) (\<lambda>candidates.
        ebind (progress ''planning'' ''Building structured candidate plans'' 45) (\<lambda>_.
        ebind (mesh_dispatch sy actor ''planner'' run_id goal
          ([brief_input, artifact_input sy ''EvidenceBundle@1'' (Cv_evidence evidence),
            artifact_input sy ''CandidateSet@1'' (Cv_candidates candidates)] @ base_inputs) (Some ''planning'') response) (\<lambda>planning.
        ebind (agent_output sy planning ''ItineraryPlan@1'' as_plan) (\<lambda>plan.
        ebind (progress ''validation'' ''Checking the hard constraints of time, route and budget'' 65) (\<lambda>_.
        ebind (mesh_dispatch sy actor ''validation'' run_id ''Validate the candidate plan independently, do not change it''
          [brief_input, artifact_input sy ''ItineraryPlan@1'' (Cv_plan plan), artifact_input sy ''EvidenceBundle@1'' (Cv_evidence evidence)]
          (Some ''constraint-validation'') response) (\<lambda>validation_task.
        ebind (agent_output sy validation_task ''ConstraintReport@1'' as_constraints) (\<lambda>constraints.
        ebind (progress ''validation'' ''Reviewing evidence coverage and semantic risks'' 80) (\<lambda>_.
        ebind (mesh_dispatch sy actor ''semantic-verifier'' run_id ''Review evidence coverage, source conflicts, assumptions and soft risks, do not change the plan''
          [brief_input, artifact_input sy ''ItineraryPlan@1'' (Cv_plan plan), artifact_input sy ''EvidenceBundle@1'' (Cv_evidence evidence),
           artifact_input sy ''ConstraintReport@1'' (Cv_constraints constraints)] (Some ''semantic-validation'') response) (\<lambda>semantic_task.
        ebind (agent_output sy semantic_task ''SemanticRiskReport@1'' as_semantics) (\<lambda>semantics.
        ebind (given (combine_reports (os_policy sy) plan constraints semantics)) (\<lambda>validation.
        ebind (raising ServiceExc (utc_now (os_service sy))) (\<lambda>t1.
        ebind (raising ServiceExc (utc_now (os_service sy))) (\<lambda>t2.
        ebind (given (construct (TripSnapshot_ok (ve_tz_known (os_policy sy)))
          (trip_snapshot sy t1 t2 trip_id title brief evidence candidates plan constraints semantics validation))) (\<lambda>snapshot.
        ebind (progress ''publishing'' ''Storing a recoverable trip snapshot'' 95) (\<lambda>_.
          eret \<lparr>or_brief = brief, or_evidence = evidence, or_candidates = candidates, or_plan = validated_plan plan validation,
                or_constraints = constraints, or_semantics = semantics, or_validation = validation, or_snapshot = snapshot,
                or_task_refs = [research, planning, validation_task, semantic_task]\<rparr>))))))))))))))))))))"

section \<open>Executing a Run\<close>

definition jget_or :: "jobj \<Rightarrow> string \<Rightarrow> json \<Rightarrow> json" where
  "jget_or kvs k d = (case dget kvs k of None \<Rightarrow> d | Some v \<Rightarrow> v)"

text \<open>The request a resumed Run was answered with. \<open>text_of\<close> is Python's \<^verbatim>\<open>str\<close> of a JSON value.\<close>

definition resumed_request :: "(json \<Rightarrow> string) \<Rightarrow> jobj \<Rightarrow> jobj" where
  "resumed_request text_of values =
     [(''destination'', jget values ''destination''), (''start_date'', jget values ''start_date''), (''end_date'', jget values ''end_date''),
      (''adults'', jget_or values ''adults'' (JInt 1)), (''seniors'', jget_or values ''seniors'' (JInt 0)),
      (''budget_min'', JStr (text_of (jget_or values ''budget_min'' (JStr [])))),
      (''budget_max'', JStr (text_of (jget_or values ''budget_max'' (JStr [])))),
      (''currency'', jget_or values ''currency'' (JStr ''CNY'')), (''preferences'', jget_or values ''preferences'' (JList [])),
      (''accessibility_needs'', jget_or values ''accessibility_needs'' (JList []))]"

definition raw_request :: "(json \<Rightarrow> string) \<Rightarrow> jobj \<Rightarrow> jobj option" where
  "raw_request text_of payload =
     (case jget payload ''trip_request'' of
        JObj request \<Rightarrow> Some request
      | _ \<Rightarrow>
          (case jget payload ''resume_input'' of
             JObj given_input \<Rightarrow> (case jget given_input ''values'' of JObj values \<Rightarrow> Some (resumed_request text_of values) | _ \<Rightarrow> None)
           | _ \<Rightarrow> None))"

definition run_brief :: "orch_sys \<Rightarrow> (json \<Rightarrow> string) \<Rightarrow> bool \<Rightarrow> RunView \<Rightarrow> Principal \<Rightarrow> TripBrief orch" where
  "run_brief sy text_of has_factory run p =
     (case jget (rc_payload (rv_command run)) ''trip_brief'' of
        JObj raw \<Rightarrow>
          ebind (given (validate_contract sy ''TripBrief@1'' raw)) (\<lambda>v.
            case as_brief v of
              None \<Rightarrow> eraise (OrchContract (ValueErr ''trip_brief contract is incompatible''))
            | Some brief \<Rightarrow> eret brief)
      | _ \<Rightarrow>
          (case raw_request text_of (rc_payload (rv_command run)) of
             None \<Rightarrow> eraise (OrchContract (ValueErr ''v2 execution requires command.payload.trip_brief or trip_request''))
           | Some raw \<Rightarrow>
               if \<not> has_factory
               then eraise (OrchContract (ValueErr ''v2 execution requires command.payload.trip_brief or trip_request''))
               else ebind (given (os_parse_request sy raw)) (\<lambda>q.
                 raising OrchIntake (build_brief (os_intake sy) (os_geocode sy) (os_geocode_timeout sy) q
                   (pr_tenant_id p) (pr_user_id p) (rv_run_id run)))))"

definition run_title :: "RunView \<Rightarrow> TripBrief \<Rightarrow> string" where
  "run_title run brief =
     (case jget (rc_payload (rv_command run)) ''title'' of
        JStr t \<Rightarrow> if py_strip t \<noteq> [] then py_strip t else pl_display_name (tb_destination brief) @ '' travel plan''
      | _ \<Rightarrow> pl_display_name (tb_destination brief) @ '' travel plan'')"

definition execution_artifact :: "orch_sys \<Rightarrow> string \<Rightarrow> 'a ArtifactBase_scheme \<Rightarrow> contract_value \<Rightarrow> ArtifactStatus \<Rightarrow> ExecutionArtifact" where
  "execution_artifact sy ty base v status =
     \<lparr>ea_artifact_id = Some (ab_artifact_id base), ea_artifact_type = ty, ea_schema_version = ab_schema_version base,
      ea_content = os_dump sy v, ea_status = status\<rparr>"

definition execution_result :: "orch_sys \<Rightarrow> OrchestrationResult \<Rightarrow> ExecutionResult" where
  "execution_result sy r =
     \<lparr>er_artifact_type = ''TripSnapshot'', er_schema_version = 1, er_content = os_dump sy (Cv_snapshot (or_snapshot r)),
      er_artifact_id = Some (ab_artifact_id (or_snapshot r)),
      er_supporting_artifacts =
        [execution_artifact sy ''TripBrief'' (or_brief r) (Cv_brief (or_brief r)) VALIDATED,
         execution_artifact sy ''EvidenceBundle'' (or_evidence r) (Cv_evidence (or_evidence r)) VALIDATED,
         execution_artifact sy ''CandidateSet'' (or_candidates r) (Cv_candidates (or_candidates r)) VALIDATED,
         execution_artifact sy ''ItineraryPlan'' (or_plan r) (Cv_plan (or_plan r))
           (if va_publishable (or_validation r) then VALIDATED else CANDIDATE),
         execution_artifact sy ''ConstraintReport'' (or_constraints r) (Cv_constraints (or_constraints r)) VALIDATED,
         execution_artifact sy ''SemanticRiskReport'' (or_semantics r) (Cv_semantics (or_semantics r)) VALIDATED,
         execution_artifact sy ''ValidationReport'' (or_validation r) (Cv_validation (or_validation r)) VALIDATED],
      er_publishable = va_publishable (or_validation r)\<rparr>"

text \<open>Here the token is what \<^verbatim>\<open>new_public_id\<close> puts behind its prefix.\<close>

definition run_question :: "orch_sys \<Rightarrow> instant \<Rightarrow> (json \<Rightarrow> string) \<Rightarrow> RunView \<Rightarrow> Principal \<Rightarrow> TravelQuestion" where
  "run_question sy now text_of run p =
     (let payload = rc_payload (rv_command run); locale_value = jget payload ''locale'' in
      \<lparr>ab_artifact_id = new_id (os_token sy 0) ''question'', ab_schema_version = 1, ab_version = 1, ab_created_at = now,
       ab_created_by = \<lparr>ac_actor_type = Ac_user,
         ac_actor_id = ''user:'' @ take 24 (ie_sha256_hex (os_intake sy) (pr_tenant_id p @ dispatch_separator @ pr_user_id p))\<rparr>,
       ab_reason = ''User submitted a lightweight travel question'',
       tq_question = rc_message (rv_command run),
       tq_locale = take 32 (if py_truthy locale_value then text_of locale_value else ''zh-CN''),
       tq_destination_hint =
         (case jget payload ''destination_hint'' of JStr h \<Rightarrow> if py_strip h \<noteq> [] then Some (py_strip h) else None | _ \<Rightarrow> None),
       tq_asked_at = now,
       tq_source = \<lparr>sr_source_id = ''source:user:'' @ take 96 (map lower_char (rv_run_id run)), sr_kind = SK_user,
         sr_name = ''Question of the traveller'', sr_version = ''1'', sr_uri = None, sr_retrieved_at = now, sr_publisher = None,
         sr_license = None\<rparr>\<rparr>)"

definition execute_answer :: "orch_sys \<Rightarrow> (json \<Rightarrow> string) \<Rightarrow> bool \<Rightarrow> RunView \<Rightarrow> Principal \<Rightarrow> progress \<Rightarrow> ExecutionResult orch" where
  "execute_answer sy text_of has_mesh run p progress =
     (if \<not> has_mesh then eraise (OrchContract (ValueErr ''answering agent mesh is unavailable''))
      else
        ebind (progress ''research'' ''Retrieving reliable information for the question'' 25) (\<lambda>_.
        ebind (raising ServiceExc (utc_now (os_service sy))) (\<lambda>now.
        ebind (given (construct (\<lambda>q. TravelQuestion_ok q \<and> ActorRef_ok (ab_created_by q) \<and> SourceRef_ok (tq_source q)) (run_question sy now text_of run p))) (\<lambda>question.
        ebind (given (construct A2AActor_ok
          \<lparr>aa_tenant_id = pr_tenant_id p, aa_actor_id = pr_user_id p, aa_roles = pr_roles p, aa_authorization_epoch = 0\<rparr>)) (\<lambda>actor.
        ebind (mesh_dispatch sy actor ''answering'' (rv_run_id run) (rc_message (rv_command run)) [artifact_input sy ''TravelQuestion@1'' (Cv_question question)]
          (Some ''answering'') None) (\<lambda>task.
        ebind (case find (\<lambda>a. ga_contract a = ''TravelAnswer@1'') (gr_artifacts task) of
            None \<Rightarrow> eraise (OrchContract (ValueErr ''answering agent did not return TravelAnswer@1''))
          | Some a \<Rightarrow> given (validate_contract sy ''TravelAnswer@1'' (ga_payload a))) (\<lambda>v.
        ebind (case v of Cv_answer a \<Rightarrow> eret a
          | _ \<Rightarrow> eraise (OrchContract (ValueErr ''answering agent returned an incompatible artifact''))) (\<lambda>answer.
        ebind (progress ''finalizing'' ''Preparing a concise answer with sources'' 85) (\<lambda>_.
          eret \<lparr>er_artifact_type = ''TravelAnswer'', er_schema_version = 1, er_content = os_dump sy (Cv_answer answer),
                er_artifact_id = Some (ab_artifact_id answer),
                er_supporting_artifacts =
                  [\<lparr>ea_artifact_id = Some (ab_artifact_id question), ea_artifact_type = ''TravelQuestion'', ea_schema_version = 1,
                    ea_content = os_dump sy (Cv_question question), ea_status = VALIDATED\<rparr>],
                er_publishable = True\<rparr>)))))))))"

definition execute_whole_run :: "orch_sys \<Rightarrow> (json \<Rightarrow> string) \<Rightarrow> bool \<Rightarrow> bool \<Rightarrow> RunView \<Rightarrow> Principal \<Rightarrow> progress \<Rightarrow> ExecutionResult orch" where
  "execute_whole_run sy text_of has_factory has_mesh run p progress =
     (if rc_type (rv_command run) = Trip_ask then execute_answer sy text_of has_mesh run p progress
      else
        ebind (run_brief sy text_of has_factory run p) (\<lambda>brief.
        ebind (orchestrate sy (pr_tenant_id p) (pr_user_id p) (rv_run_id run) (rv_trip_id run) (run_title run brief) brief
          (rc_message (rv_command run)) progress None None None) (\<lambda>result. eret (execution_result sy result))))"

end
