(* ===== verification/Orchestrator_Safety.thy ===== *)
theory Orchestrator_Safety
  imports Orchestrator A2A_Safety
begin

text \<open>
  Where the results of the orchestrator come from: the specifications of the Task service, refined to say which record a request returns, and the
  same logic for the programs of the orchestrator.
\<close>

section \<open>Rules\<close>

lemma aspec_frame:
  assumes "task_stable P" and "aspec R m Q"
  shows "aspec (\<lambda>s. P s \<and> R s) m (\<lambda>a s. P s \<and> Q a s)"
proof (rule aspecI)
  fix w
  assume w: "agent_world_ok w" and p: "P (aw_store w) \<and> R (aw_store w)"
  with assms(2) have m: "agent_path w (snd (m w))" "case fst (m w) of Inl _ \<Rightarrow> True | Inr a \<Rightarrow> Q a (aw_store (snd (m w)))"
    unfolding aspec_def by blast+
  have "P (aw_store (snd (m w)))"
    using assms(1) w p m(1) unfolding task_stable_def agent_world_ok_def agent_path_def by blast
  with m show "agent_path w (snd (m w)) \<and> (case fst (m w) of Inl _ \<Rightarrow> True | Inr a \<Rightarrow> P (aw_store (snd (m w))) \<and> Q a (aw_store (snd (m w))))"
    by (auto split: sum.splits)
qed

lemma aspec_keep: "task_stable P \<Longrightarrow> safe m \<Longrightarrow> aspec P m (\<lambda>_. P)"
  using aspec_frame [of P "\<lambda>_. True" m "\<lambda>_ _. True"] by simp

lemma aspec_skip: "safe m \<Longrightarrow> (\<And>a. aspec (\<lambda>_. True) (k a) Q) \<Longrightarrow> aspec (\<lambda>_. True) (ebind m k) Q"
  by (rule aspec_bind)

lemma aspec_conj: "task_stable P \<Longrightarrow> task_stable R \<Longrightarrow> task_stable (\<lambda>s. P s \<and> R s)"
  unfolding task_stable_def by blast

lemma aspec_if: "(b \<Longrightarrow> aspec P m Q) \<Longrightarrow> (\<not> b \<Longrightarrow> aspec P n Q) \<Longrightarrow> aspec P (if b then m else n) Q"
  by simp

section \<open>The record of a dispatch\<close>

definition indexed :: "task_key \<Rightarrow> task_key \<Rightarrow> task_store \<Rightarrow> bool" where
  "indexed d k s \<longleftrightarrow> dget (ts_dispatch_index s) d = Some k"

lemma indexed_stable: "task_stable (indexed d k)"
proof -
  have "indexed d k s'" if "agent_step\<^sup>*\<^sup>* s s'" "indexed d k s" for s s'
    using that
  proof (induction rule: rtranclp_induct)
    case (step t u)
    then show ?case using task_steps_dispatch [of t u d k] agent_step_task_step unfolding indexed_def by blast
  qed
  then show ?thesis unfolding task_stable_def by blast
qed

abbreviation found :: "task_key \<Rightarrow> TaskRecord \<Rightarrow> task_store \<Rightarrow> bool" where
  "found k r s \<equiv> seen r s \<and> record_key r = k"

lemma found_stable: "task_stable (found k r)"
  using seen_stable [of r] unfolding task_stable_def by blast

lemma stored_found: "tasks_ok s \<Longrightarrow> dget (ts_records s) k = Some r \<Longrightarrow> found k r s"
  using tasks_ok_key [of s k r] by (auto simp: seen_def)

lemma found_terminal: "found k r s \<Longrightarrow> task_state r \<in> TERMINAL_STATES \<Longrightarrow> dget (ts_records s) k = Some r"
  by (auto simp: seen_def record_forward_def)

lemma wait_found: "aspec (found k r) (wait_until_settled n sy r) (\<lambda>r' s. found k r' s)"
proof (induction n arbitrary: r)
  case (Suc n)
  let ?wait = "agent_call sy (\<lambda>_. wait_for_change (tr_tenant_id r) (tr_agent_interface_id r) (tk_id (tr_task r)) (tr_version r))"
  have change: "aspec (found k r) ?wait (\<lambda>c s. found k r s \<and> (\<forall>r'. c = Some r' \<longrightarrow> found k r' s))"
  proof (rule aspec_call [OF found_stable])
    fix s t a
    assume s: "tasks_ok s" and f: "found k r s"
      and a: "fst (wait_for_change (tr_tenant_id r) (tr_agent_interface_id r) (tk_id (tr_task r)) (tr_version r) s) = Inr a"
    have same: "snd (wait_for_change (tr_tenant_id r) (tr_agent_interface_id r) (tk_id (tr_task r)) (tr_version r) s) = s"
      by (simp add: wait_for_change_def elift_def)
    have "found k r' s" if "a = Some r'" for r'
      using a that f stored_found [OF s, of k r'] by (auto simp: wait_for_change_def elift_def record_key_def split: if_splits option.splits)
    then show "found k r (snd (wait_for_change (tr_tenant_id r) (tr_agent_interface_id r) (tk_id (tr_task r)) (tr_version r) s)) \<and>
        (\<forall>r'. a = Some r' \<longrightarrow> found k r' (snd (wait_for_change (tr_tenant_id r) (tr_agent_interface_id r) (tk_id (tr_task r)) (tr_version r) s)))"
      using f same by auto
  qed (simp add: wait_for_change_def elift_def)
  have reread: "aspec (found k r) (ebind (reread_task sy r) (wait_until_settled n sy)) (\<lambda>r' s. found k r' s)"
  proof (rule aspec_bind)
    show "aspec (found k r) (reread_task sy r) (\<lambda>r' s. found k r s \<and> found (record_key r) r' s)"
      using aspec_frame [OF found_stable [where k = k and r = r] read_seen [of sy "tr_tenant_id r" "tr_agent_interface_id r" "tk_id (tr_task r)"]]
      by (rule aspec_weaken) (auto simp: record_key_def)
    show "aspec (\<lambda>s. found k r s \<and> found (record_key r) r' s) (wait_until_settled n sy r') (\<lambda>r' s. found k r' s)" for r'
      using Suc.IH [of r'] by (rule aspec_weaken) auto
  qed
  have again: "aspec (found k r) (ebind (utc_now sy) (\<lambda>t.
      ebind (ewhen (t \<ge> tr_deadline r)
        (fail_if_working sy r ''AGENT_DEADLINE_EXCEEDED'' ''The agent task exceeded its deadline.'' None)) (\<lambda>_.
      ebind (reread_task sy r) (wait_until_settled n sy)))) (\<lambda>r' s. found k r' s)"
    by (intro aspec_bind [OF aspec_keep [OF found_stable safe_local(1)]]
        aspec_bind [OF aspec_keep [OF found_stable safe_when [OF safe_fail]]] reread)
  have next_round: "aspec (\<lambda>s. found k r s \<and> (\<forall>r'. c = Some r' \<longrightarrow> found k r' s)) (case c of
      Some c \<Rightarrow> wait_until_settled n sy c
    | None \<Rightarrow> ebind (utc_now sy) (\<lambda>t.
        ebind (ewhen (t \<ge> tr_deadline r)
          (fail_if_working sy r ''AGENT_DEADLINE_EXCEEDED'' ''The agent task exceeded its deadline.'' None)) (\<lambda>_.
        ebind (reread_task sy r) (wait_until_settled n sy)))) (\<lambda>r' s. found k r' s)" for c
  proof (cases c)
    case None
    show ?thesis unfolding None option.case by (rule aspec_weaken [OF again]) auto
  next
    case (Some a)
    show ?thesis unfolding Some option.case by (rule aspec_weaken [OF Suc.IH [of a]]) auto
  qed
  have first: "aspec (found k r) (eret r) (\<lambda>r' s. found k r' s)" by (rule aspec_ret)
  show ?case
    unfolding wait_until_settled.simps
    by (intro aspec_if first aspec_bind [OF aspec_keep [OF found_stable safe_local(4)]] aspec_bind [OF aspec_keep [OF found_stable safe_local(1)]]
        aspec_bind [OF change] next_round)
qed (unfold wait_until_settled.simps, rule aspec_raise)

text \<open>The record that a dispatch key leads to.\<close>

definition dispatched :: "task_key \<Rightarrow> Task \<Rightarrow> task_store \<Rightarrow> bool" where
  "dispatched d t s \<longleftrightarrow> (\<exists>k r. indexed d k s \<and> found k r s \<and> tr_task r = t)"

lemma dispatched_wait:
  "aspec (\<lambda>s. indexed d k s \<and> found k r s) (ebind (wait_until_settled n sy r) (\<lambda>settled. eret (f (tr_task settled))))
     (\<lambda>x s. \<exists>t. x = f t \<and> dispatched d t s)"
proof (rule aspec_bind [OF aspec_frame [OF indexed_stable wait_found]])
  show "aspec (\<lambda>s. indexed d k s \<and> found k a s) (eret (f (tr_task a))) (\<lambda>x s. \<exists>t. x = f t \<and> dispatched d t s)" for a
    unfolding dispatched_def by (rule aspec_ret) blast
qed

lemma dispatch_read:
  "aspec (\<lambda>_. True) (agent_call sy (\<lambda>_. get_by_dispatch tenant iface did)) (\<lambda>r s. indexed (tenant, iface, did) (record_key r) s \<and> found (record_key r) r s)"
proof (rule aspec_call)
  fix s t a
  assume s: "tasks_ok s" and a: "fst (get_by_dispatch tenant iface did s) = Inr a"
  then obtain k where "dget (ts_dispatch_index s) (tenant, iface, did) = Some k" "dget (ts_records s) k = Some a"
    by (auto simp: get_by_dispatch_def elift_def split: option.splits)
  with stored_found [OF s this(2)]
  show "indexed (tenant, iface, did) (record_key a) (snd (get_by_dispatch tenant iface did s)) \<and>
      found (record_key a) a (snd (get_by_dispatch tenant iface did s))"
    by (auto simp: get_by_dispatch_def elift_def indexed_def)
qed (simp_all add: get_by_dispatch_def elift_def)

lemma recover_dispatched:
  "aspec (\<lambda>_. True) (recover_dispatch n sy actor iface run_id did True)
     (\<lambda>x s. \<forall>t. x = Some t \<longrightarrow> dispatched (aa_tenant_id actor, iface, did) t s)"
  unfolding recover_dispatch_def if_True
proof (rule aspec_skip [OF safe_find_profile], rule aspec_try [OF dispatch_read])
  fix r
  let ?P = "\<lambda>s. indexed (aa_tenant_id actor, iface, did) (record_key r) s \<and> found (record_key r) r s"
  have "task_stable ?P" by (intro aspec_conj indexed_stable seen_stable) (simp add: task_stable_def)
  note keep = aspec_bind [OF aspec_keep [OF this safe_when [OF safe_local(4)]]]
  show "aspec ?P
      (if tr_run_id r \<noteq> run_id then eraise InvalidParamsError
       else ebind (ewhen (task_state r \<in> {TASK_SUBMITTED, TASK_WORKING}) (relaunch r)) (\<lambda>_.
         ebind (wait_until_settled n sy r) (\<lambda>settled. eret (Some (tr_task settled)))))
      (\<lambda>x s. \<forall>t. x = Some t \<longrightarrow> dispatched (aa_tenant_id actor, iface, did) t s)"
    by (intro aspec_if aspec_raise keep aspec_weaken [OF dispatched_wait [where f = Some]]) auto
qed (auto intro: aspec_raise aspec_ret simp del: eret_def eraise_def)

definition registry_keyed :: "agent_sys \<Rightarrow> bool" where
  "registry_keyed sy \<longleftrightarrow> (\<forall>i p. dget (as_registry sy) i = Some p \<longrightarrow> pf_interface_id p = i)"

lemma profile_interface:
  assumes "registry_keyed sy"
  shows "aspec (\<lambda>_. True) (find_profile sy iface) (\<lambda>p _. pf_interface_id p = iface)"
  using assms unfolding find_profile_def registry_keyed_def get_profile_def
  by (auto intro: aspec_raise aspec_ret simp del: eret_def eraise_def split: option.split)

lemma create_found:
  assumes "fresh_task r"
  shows "aspec (\<lambda>_. True) (agent_call sy (\<lambda>_. create_or_get r))
    (\<lambda>x s. indexed (dispatch_key r) (record_key (fst x)) s \<and> found (record_key (fst x)) (fst x) s)"
proof (rule aspec_call)
  fix s t a
  assume s: "tasks_ok s" and a: "fst (create_or_get r s) = Inr a"
  show "indexed (dispatch_key r) (record_key (fst a)) (snd (create_or_get r s)) \<and> found (record_key (fst a)) (fst a) (snd (create_or_get r s))"
    using a tasks_ok_key [OF s] by (auto simp: create_or_get_def indexed_def seen_def split: option.splits if_splits)
qed (auto intro: agent_step.created assms)

lemma create_task_dispatched:
  assumes "pf_interface_id p = iface"
  shows "aspec (\<lambda>_. True) (create_task sy actor p m md)
    (\<lambda>r s. indexed (aa_tenant_id actor, iface, ms_message_id m) (record_key r) s \<and> found (record_key r) r s)"
proof -
  have key: "dispatch_key (new_record sy actor p m md v d tid cid now) = (aa_tenant_id actor, iface, dsp_dispatch_id md)" for v d tid cid now
    using assms by (simp add: dispatch_key_def new_record_def Let_def)
  have after: "aspec (\<lambda>s. indexed x (record_key r) s \<and> found (record_key r) r s)
      (ebind (ewhen b (relaunch r)) (\<lambda>_. eret r)) (\<lambda>r s. indexed x (record_key r) s \<and> found (record_key r) r s)" for x r b
    by (rule aspec_bind [OF aspec_keep [OF aspec_conj [OF indexed_stable found_stable] safe_when [OF safe_local(4)]]], rule aspec_ret)
  have store: "aspec (\<lambda>_. True) (etry (agent_call sy (\<lambda>_. create_or_get (new_record sy actor p m md v d tid cid now)))
      (\<lambda>e. if e = TaskExc DispatchConflict then eraise InvalidParamsError else eraise e)
      (\<lambda>(r, created). ebind (ewhen (created \<or> task_state r \<in> {TASK_SUBMITTED, TASK_WORKING}) (relaunch r)) (\<lambda>_. eret r)))
      (\<lambda>r s. indexed (aa_tenant_id actor, iface, dsp_dispatch_id md) (record_key r) s \<and> found (record_key r) r s)" for v d tid cid now
  proof (rule aspec_try [OF create_found [OF fresh_new_record [of sy actor p m md v d tid cid now], unfolded key]])
    show "aspec (\<lambda>s. indexed (aa_tenant_id actor, iface, dsp_dispatch_id md) (record_key (fst a)) s \<and> found (record_key (fst a)) (fst a) s)
        (case a of (r, created) \<Rightarrow> ebind (ewhen (created \<or> task_state r \<in> {TASK_SUBMITTED, TASK_WORKING}) (relaunch r)) (\<lambda>_. eret r))
        (\<lambda>r s. indexed (aa_tenant_id actor, iface, dsp_dispatch_id md) (record_key r) s \<and> found (record_key r) r s)" for a
      unfolding case_prod_beta by (rule after)
  qed (auto intro: aspec_raise simp del: eraise_def)
  show ?thesis
  proof (cases "dsp_dispatch_id md = ms_message_id m")
    case True
    show ?thesis unfolding create_task_def True [symmetric]
      by (intro aspec_if aspec_raise aspec_skip [OF safe_parse_bodies(1)] aspec_skip [OF safe_parsers(2)] aspec_skip [OF safe_references]
          aspec_skip [OF safe_local(2)] aspec_skip [OF safe_local(1)] aspec_skip [OF safe_if [OF safe_local(2) safe_ret]] store)
  qed (auto simp: create_task_def intro: aspec_raise simp del: eraise_def)
qed

section \<open>Dispatching\<close>

lemma settle_dispatched:
  assumes "\<not> sm_return_immediately q"
  shows "aspec (\<lambda>s. indexed d k s \<and> found k r s)
    (if sm_return_immediately q then eret (tr_task r) else ebind (wait_until_settled n sy r) (\<lambda>settled. eret (tr_task settled)))
    (dispatched d)"
  unfolding if_not_P [OF assms] by (rule aspec_weaken [OF dispatched_wait [where f = id, unfolded id_def]]) auto

lemma send_dispatched:
  assumes "registry_keyed sy" and "\<not> sm_return_immediately q" and "ms_task_id (sm_message q) = []"
  shows "aspec (\<lambda>_. True) (send_message n sy actor iface q req) (dispatched (aa_tenant_id actor, iface, ms_message_id (sm_message q)))"
proof -
  let ?P = "\<lambda>p (_ :: task_store). pf_interface_id p = iface" and ?d = "(aa_tenant_id actor, iface, ms_message_id (sm_message q))"
  have keep: "task_stable (?P p)" for p by (simp add: task_stable_def)
  have task: "aspec (?P p)
      (if ms_task_id (sm_message q) \<noteq> [] then resume_input sy actor p (sm_message q) md else create_task sy actor p (sm_message q) md)
      (\<lambda>r s. indexed ?d (record_key r) s \<and> found (record_key r) r s)" for p :: AgentProfile and md
    using create_task_dispatched [of p iface sy actor "sm_message q" md] assms(3) by (auto simp: aspec_def)
  have rest: "aspec (?P p) (ebind
      (if ms_task_id (sm_message q) \<noteq> [] then resume_input sy actor p (sm_message q) md else create_task sy actor p (sm_message q) md) (\<lambda>r.
      if sm_return_immediately q then eret (tr_task r) else ebind (wait_until_settled n sy r) (\<lambda>settled. eret (tr_task settled))))
      (dispatched ?d)" for p md
    by (rule aspec_bind [OF task]) (rule settle_dispatched [OF assms(2)])
  show ?thesis
    unfolding send_message_def Let_def
    by (intro aspec_skip [OF safe_checks(2)] aspec_bind [OF profile_interface [OF assms(1)]] aspec_bind [OF aspec_keep [OF keep safe_checks(4)]]
        aspec_if aspec_raise aspec_bind [OF aspec_keep [OF keep safe_checks(1)]]
        aspec_bind [OF aspec_keep [OF keep safe_checks(3)]] aspec_bind [OF aspec_keep [OF keep safe_parsers(1)]] rest)
qed

lemma wire_request_simps [simp]:
  "sm_message (wire_request tenant m) = m" "\<not> sm_return_immediately (wire_request tenant m)"
  "ms_message_id (wire_message i t c data uri dispatch) = i" "ms_task_id (wire_message i t c data uri dispatch) = t"
  by (simp_all add: wire_request_def wire_message_def)

lemma dispatch_task_dispatched:
  assumes "registry_keyed (os_service sy)"
  shows "aspec (\<lambda>_. True) (dispatch_task sy actor iface run_id did goal artifacts None) (dispatched (aa_tenant_id actor, iface, did))"
proof -
  let ?d = "(aa_tenant_id actor, iface, did)"
  let ?recover = "recover_dispatch (os_rounds sy) (os_service sy) actor iface run_id did True"
  have known: "aspec (\<lambda>s. \<forall>t. Some task = Some t \<longrightarrow> dispatched ?d t s) (eret task) (dispatched ?d)" for task
    by (rule aspec_ret) blast
  have again: "aspec (\<lambda>_. True) (ebind ?recover (\<lambda>again. case again of Some task \<Rightarrow> eret task | None \<Rightarrow> eraise e)) (dispatched ?d)" for e
    by (rule aspec_bind [OF recover_dispatched]) (auto intro: aspec_ret aspec_raise simp del: eret_def eraise_def split: option.split)
  have send: "aspec (\<lambda>_. True) (send_message (os_rounds sy) (os_service sy) actor iface
      (wire_request (aa_tenant_id actor) (dispatch_message sy iface run_id did goal artifacts deadline)) {TRAVEL_ARTIFACT_EXTENSION_URI}) (dispatched ?d)" for deadline
    using send_dispatched [OF assms, of "wire_request (aa_tenant_id actor) (dispatch_message sy iface run_id did goal artifacts deadline)"]
    by (simp add: dispatch_message_def)
  have create: "aspec (\<lambda>_. True) (ebind (utc_now (os_service sy)) (\<lambda>now. ecatch
      (send_message (os_rounds sy) (os_service sy) actor iface
        (wire_request (aa_tenant_id actor) (dispatch_message sy iface run_id did goal artifacts (now + mesh_timeout (os_timeout sy)))) {TRAVEL_ARTIFACT_EXTENSION_URI})
      (\<lambda>e. if e = InvalidParamsError then ebind ?recover (\<lambda>again. case again of Some task \<Rightarrow> eret task | None \<Rightarrow> eraise e) else eraise e)))
      (dispatched ?d)"
    by (intro aspec_skip [OF safe_local(1)] aspec_catch send aspec_if again aspec_raise)
  show ?thesis
    unfolding dispatch_task_def Let_def
  proof (rule aspec_bind [OF recover_dispatched])
    fix x
    show "aspec (\<lambda>s. \<forall>t. x = Some t \<longrightarrow> dispatched ?d t s) (case x of
        Some task \<Rightarrow> (case None of Some r \<Rightarrow> if tk_state task = TASK_INPUT_REQUIRED then resume_agent_task sy actor iface run_id did task r else eret task
          | None \<Rightarrow> eret task)
      | None \<Rightarrow> ebind (utc_now (os_service sy)) (\<lambda>now. ecatch
          (send_message (os_rounds sy) (os_service sy) actor iface
            (wire_request (aa_tenant_id actor) (dispatch_message sy iface run_id did goal artifacts (now + mesh_timeout (os_timeout sy)))) {TRAVEL_ARTIFACT_EXTENSION_URI})
          (\<lambda>e. if e = InvalidParamsError then ebind ?recover (\<lambda>again. case again of Some task \<Rightarrow> eret task | None \<Rightarrow> eraise e) else eraise e)))
      (dispatched ?d)"
      using create known by (cases x) (simp_all del: eret_def)
  qed
qed

section \<open>Programs of the orchestrator\<close>

definition ospec :: "(task_store \<Rightarrow> bool) \<Rightarrow> 'a orch \<Rightarrow> ('a \<Rightarrow> task_store \<Rightarrow> bool) \<Rightarrow> bool" where
  "ospec P m Q \<longleftrightarrow> (\<forall>w. agent_world_ok w \<longrightarrow> P (aw_store w) \<longrightarrow> agent_path w (snd (m w)) \<and>
     (\<forall>a. fst (m w) = Inr a \<longrightarrow> Q a (aw_store (snd (m w)))))"

abbreviation unobtrusive :: "'a orch \<Rightarrow> bool" where
  "unobtrusive m \<equiv> ospec (\<lambda>_. True) m (\<lambda>_ _. True)"

lemma ospec_ret: "(\<And>s. P s \<Longrightarrow> Q a s) \<Longrightarrow> ospec P (eret a) Q"
  by (simp add: ospec_def)

lemma ospec_raise: "ospec P (eraise e) Q"
  by (simp add: ospec_def)

lemma ospec_bind:
  assumes m: "ospec P m R" and k: "\<And>a. ospec (R a) (k a) Q"
  shows "ospec P (ebind m k) Q"
  unfolding ospec_def
proof (intro allI impI)
  fix w
  assume w: "agent_world_ok w" "P (aw_store w)"
  obtain x v where x: "m w = (x, v)" by force
  with m w have v: "agent_path w v" "\<And>a. x = Inr a \<Longrightarrow> R a (aw_store v)" by (auto simp: ospec_def)
  show "agent_path w (snd (ebind m k w)) \<and> (\<forall>a. fst (ebind m k w) = Inr a \<longrightarrow> Q a (aw_store (snd (ebind m k w))))"
  proof (cases x)
    case (Inl e)
    then show ?thesis using x v by simp
  next
    case (Inr a)
    then have "agent_path v (snd (k a v)) \<and> (\<forall>b. fst (k a v) = Inr b \<longrightarrow> Q b (aw_store (snd (k a v))))"
      using k [of a] v agent_path_ok [OF v(1) w(1)] by (simp add: ospec_def)
    then show ?thesis using x Inr v(1) agent_path_trans by auto
  qed
qed

lemma ospec_frame: "task_stable P \<Longrightarrow> ospec R m Q \<Longrightarrow> ospec (\<lambda>s. P s \<and> R s) m (\<lambda>a s. P s \<and> Q a s)"
  unfolding ospec_def task_stable_def agent_world_ok_def agent_path_def by blast

lemma ospec_service: "aspec P m Q \<Longrightarrow> ospec P (raising ServiceExc m) Q"
  unfolding ospec_def aspec_def raising_def by (fastforce split: prod.split sum.split)

lemma ospec_then:
  assumes "task_stable P" and "ospec (\<lambda>_. True) m R" and "\<And>a. ospec (\<lambda>s. P s \<and> R a s) (k a) Q"
  shows "ospec P (ebind m k) Q"
  using ospec_bind [OF ospec_frame [OF assms(1,2)] assms(3)] by simp

lemma ospec_given:
  assumes "\<And>a. x = Inr a \<Longrightarrow> ospec P (k a) Q"
  shows "ospec P (ebind (given x) k) Q"
  by (cases x) (use assms in \<open>auto simp: given_def raising_def elift_def ebind_def ospec_def\<close>)

text \<open>What an agent's result holds for a contract.\<close>

definition output_of :: "orch_sys \<Rightarrow> AgentTaskResult \<Rightarrow> string \<Rightarrow> (contract_value \<Rightarrow> 'a option) \<Rightarrow> 'a \<Rightarrow> bool" where
  "output_of sy result contract pick v \<longleftrightarrow> (\<forall>w. agent_output sy result contract pick w = (Inr v, w))"

lemma agent_output_pure: "\<exists>x. \<forall>w. agent_output sy result contract pick w = (x, w)"
  by (rule exI [of _ "fst (agent_output sy result contract pick undefined)"])
    (auto simp: agent_output_def given_def raising_def elift_def ebind_def split: list.split sum.split option.split)

lemma ospec_output:
  assumes "\<And>v. output_of sy result contract pick v \<Longrightarrow> ospec P (k v) Q"
  shows "ospec P (ebind (agent_output sy result contract pick) k) Q"
proof -
  obtain x where x: "\<And>w. agent_output sy result contract pick w = (x, w)" using agent_output_pure by metis
  show ?thesis
  proof (cases x)
    case (Inl e)
    then show ?thesis using x by (simp add: ospec_def ebind_def)
  next
    case (Inr v)
    then have "ospec P (k v) Q" using assms x by (simp add: output_of_def)
    then show ?thesis using x Inr by (simp add: ospec_def ebind_def)
  qed
qed

lemma output_unique: "output_of sy result contract pick v \<Longrightarrow> output_of sy result contract pick v' \<Longrightarrow> v = v'"
  by (simp add: output_of_def)

section \<open>Outcomes of Tasks\<close>

text \<open>The completed Task of a stage of a Run is in the store, and its result is the given one.\<close>

definition task_outcome :: "orch_sys \<Rightarrow> string \<Rightarrow> string \<Rightarrow> string \<Rightarrow> string \<Rightarrow> AgentTaskResult \<Rightarrow> task_store \<Rightarrow> bool" where
  "task_outcome sy tenant run_id iface key result s \<longleftrightarrow>
     (\<exists>k r. dget (ts_dispatch_index s) (tenant, iface, deterministic_dispatch_id sy tenant run_id iface key) = Some k \<and>
        dget (ts_records s) k = Some r \<and> task_state r = TASK_COMPLETED \<and> task_result sy iface (tr_task r) = Inr result)"

lemma outcome_unique: "task_outcome sy tenant run_id iface key a s \<Longrightarrow> task_outcome sy tenant run_id iface key b s \<Longrightarrow> a = b"
  by (auto simp: task_outcome_def)

lemma outcome_stable: "task_stable (task_outcome sy tenant run_id iface key result)"
  unfolding task_stable_def
proof (intro allI impI)
  fix s s'
  assume s: "tasks_ok s" "agent_step\<^sup>*\<^sup>* s s'" and "task_outcome sy tenant run_id iface key result s"
  then obtain k r where r: "indexed (tenant, iface, deterministic_dispatch_id sy tenant run_id iface key) k s" "dget (ts_records s) k = Some r"
    "task_state r = TASK_COMPLETED" "task_result sy iface (tr_task r) = Inr result" by (auto simp: task_outcome_def indexed_def)
  from s r(1) have "indexed (tenant, iface, deterministic_dispatch_id sy tenant run_id iface key) k s'"
    using indexed_stable unfolding task_stable_def by blast
  moreover have "dget (ts_records s') k = Some r"
  proof (rule found_terminal)
    show "found k r s'" using stored_found [OF s(1) r(2)] found_stable s unfolding task_stable_def by blast
    show "task_state r \<in> TERMINAL_STATES" using r(3) by (simp add: TERMINAL_STATES_def)
  qed
  ultimately show "task_outcome sy tenant run_id iface key result s'" using r by (auto simp: task_outcome_def indexed_def)
qed

lemma mesh_outcome:
  assumes "registry_keyed (os_service sy)" and "py_strip key = key" and "key \<noteq> []" and "length key \<le> 96"
  shows "ospec (\<lambda>_. True) (mesh_dispatch sy actor iface run_id goal artifacts (Some key) None)
    (task_outcome sy (aa_tenant_id actor) run_id iface key)"
proof -
  let ?did = "deterministic_dispatch_id sy (aa_tenant_id actor) run_id iface key"
  have result: "ospec (dispatched (aa_tenant_id actor, iface, ?did) t) (elift (\<lambda>_. task_result sy iface t))
      (task_outcome sy (aa_tenant_id actor) run_id iface key)" for t
    unfolding ospec_def
  proof (intro allI impI)
    fix w :: agent_world
    assume "dispatched (aa_tenant_id actor, iface, ?did) t (aw_store w)"
    then obtain k r where r: "indexed (aa_tenant_id actor, iface, ?did) k (aw_store w)" "found k r (aw_store w)" "tr_task r = t"
      unfolding dispatched_def by blast
    have "task_outcome sy (aa_tenant_id actor) run_id iface key a (aw_store w)" if a: "task_result sy iface t = Inr a" for a
    proof -
      have done_: "task_state r = TASK_COMPLETED" using a r(3) by (auto simp: task_result_def split: if_splits option.splits)
      then have "dget (ts_records (aw_store w)) k = Some r" by (intro found_terminal [OF r(2)]) (simp add: TERMINAL_STATES_def)
      then show ?thesis using r a done_ by (auto simp: task_outcome_def indexed_def)
    qed
    then show "agent_path w (snd (elift (\<lambda>_. task_result sy iface t) w)) \<and>
        (\<forall>a. fst (elift (\<lambda>_. task_result sy iface t) w) = Inr a \<longrightarrow>
           task_outcome sy (aa_tenant_id actor) run_id iface key a (aw_store (snd (elift (\<lambda>_. task_result sy iface t) w))))"
      by (simp add: elift_def)
  qed
  show ?thesis
    using assms ospec_bind [OF ospec_service [OF dispatch_task_dispatched [OF assms(1)]] result]
    by (simp add: mesh_dispatch_def Let_def)
qed

text \<open>What an orchestration that returns has done.\<close>

definition orchestration_ok :: "orch_sys \<Rightarrow> string \<Rightarrow> string \<Rightarrow> string \<Rightarrow> string \<Rightarrow> TripBrief \<Rightarrow> OrchestrationResult \<Rightarrow> task_store \<Rightarrow> bool" where
  "orchestration_ok sy tenant_id run_id trip_id title brief res s \<longleftrightarrow>
     (\<exists>research planning checking reviewing plan t1 t2.
        or_task_refs res = [research, planning, checking, reviewing] \<and>
        task_outcome sy tenant_id run_id ''research'' ''research'' research s \<and>
        task_outcome sy tenant_id run_id ''planner'' ''planning'' planning s \<and>
        task_outcome sy tenant_id run_id ''validation'' ''constraint-validation'' checking s \<and>
        task_outcome sy tenant_id run_id ''semantic-verifier'' ''semantic-validation'' reviewing s \<and>
        output_of sy research ''EvidenceBundle@1'' as_evidence (or_evidence res) \<and>
        output_of sy research ''CandidateSet@1'' as_candidates (or_candidates res) \<and>
        output_of sy planning ''ItineraryPlan@1'' as_plan plan \<and>
        output_of sy checking ''ConstraintReport@1'' as_constraints (or_constraints res) \<and>
        output_of sy reviewing ''SemanticRiskReport@1'' as_semantics (or_semantics res) \<and>
        combine_reports (os_policy sy) plan (or_constraints res) (or_semantics res) = Inr (or_validation res) \<and>
        or_brief res = brief \<and> or_plan res = validated_plan plan (or_validation res) \<and>
        or_snapshot res = trip_snapshot sy t1 t2 trip_id title brief (or_evidence res) (or_candidates res) plan (or_constraints res)
          (or_semantics res) (or_validation res) \<and>
        TripSnapshot_ok (ve_tz_known (os_policy sy)) (or_snapshot res))"

lemma outcomes_stable:
  "task_stable (\<lambda>_. True)" "task_stable P \<Longrightarrow> task_stable (\<lambda>s. P s \<and> task_outcome sy tenant run_id iface key result s)"
  using aspec_conj [OF _ outcome_stable] by simp_all

lemma ospec_skip:
  assumes "task_stable P" and "unobtrusive m" and "\<And>a. ospec P (k a) Q"
  shows "ospec P (ebind m k) Q"
  by (rule ospec_then [OF assms(1,2)]) (simp add: assms(3))

lemma orchestrate_spec:
  assumes reg: "registry_keyed (os_service sy)" and progress: "\<And>phase label percent. unobtrusive (progress phase label percent)"
  shows "ospec (\<lambda>_. True) (orchestrate sy tenant_id actor_id run_id trip_id title brief goal progress base_snapshot base_plan None)
    (orchestration_ok sy tenant_id run_id trip_id title brief)"
proof -
  have key: "py_strip k = k" "k \<noteq> []" "length k \<le> 96"
    if "k \<in> {''research'', ''planning'', ''constraint-validation'', ''semantic-validation''}" for k
    using that by (auto simp: py_strip_def py_isspace_def)
  note mesh = ospec_then [OF _ mesh_outcome [OF reg key]]
  show ?thesis
    unfolding orchestrate_def Let_def
    by (intro ospec_given ospec_skip [OF _ progress] ospec_output ospec_skip [OF _ ospec_service [OF safe_local(1)]] mesh outcomes_stable ospec_ret;
        (simp; fail)?) (auto simp: orchestration_ok_def)
qed

end
