(* ===== verification/Intake_Properties.thy ===== *)
theory Intake_Properties
  imports Intake
begin

text \<open>Properties of the intake of trip requests.\<close>

section \<open>The catalog\<close>







section \<open>A request to try the properties on\<close>

definition demo_intake :: intake_env where
  "demo_intake = \<lparr>ie_tz_known = (\<lambda>_. True), ie_sha256_hex = (\<lambda>_. replicate 64 CHR ''a''), ie_isoformat = show_int,
     ie_date_isoformat = (\<lambda>_. ''2026-07-12''), ie_float_text = (\<lambda>x. x), ie_token = (\<lambda>_. replicate 24 CHR ''a''),
     ie_monotonic = 0, ie_catalog_now = 0, ie_now = 0\<rparr>"

definition demo_trip_request :: "string \<Rightarrow> StructuredTripRequest" where
  "demo_trip_request destination = \<lparr>sq_destination = destination, sq_country_code = ''CN'', sq_timezone = ''Asia/Shanghai'', sq_start_date = 739000,
     sq_end_date = 739002, sq_adults = 2, sq_seniors = 0, sq_children_ages = [7], sq_accessibility_needs = [], sq_budget_min = ''0'',
     sq_budget_max = ''500.5'', sq_currency = ''CNY'', sq_preferences = [''tea'']\<rparr>"

definition demo_geocoded :: GeocodeResult where
  "demo_geocoded =
     \<lparr>gx_candidates = [\<lparr>gc_formatted_address = ''Lhasa City'',
        gc_coordinate = \<lparr>pc_longitude = 90, pc_latitude = 90, pc_coordinate_system = GCJ02\<rparr>, gc_country = None, gc_province = None,
        gc_city = None, gc_district = None, gc_administrative_code = None\<rparr>],
      gx_provenance = \<lparr>pv_provider_id = ''amap'', pv_provider_version = ''v3'', pv_capability = GEOCODE, pv_observed_at = 0, pv_valid_until = 1,
        pv_freshness_status = Pf_FRESH\<rparr>\<rparr>"


lemma demo_intake_ok: "intake_env_ok demo_intake" "caller_ok ''t1'' ''alice'' ''run1''"
  by (simp_all add: intake_env_ok_def demo_intake_def hex_tokens_def hex_digests_def shortest_text_def caller_ok_def text_ok_def)

lemma demo_trip_request_ok:
  "text_ok 1 100 destination \<Longrightarrow> StructuredTripRequest_ok (demo_trip_request destination)" "ie_tz_known demo_intake (sq_timezone (demo_trip_request destination))"
proof -
  have "decimal_amount_ok ''0'' \<and> decimal_amount_ok ''500.5'' \<and> decimal_units ''0'' \<le> decimal_units ''500.5'' \<and>
    bound_text_list [''tea''] = Some [''tea''] \<and> CountryCode ''CN'' \<and> currency_code_ok ''CNY'' \<and> bound_text_list [] = Some []" by code_simp
  then show "text_ok 1 100 destination \<Longrightarrow> StructuredTripRequest_ok (demo_trip_request destination)"
    by (simp add: StructuredTripRequest_ok_def demo_trip_request_def text_ok_def)
  show "ie_tz_known demo_intake (sq_timezone (demo_trip_request destination))" by (simp add: demo_intake_def)
qed

lemma demo_request_destination [simp]: "sq_destination (demo_trip_request destination) = destination"
  by (simp add: demo_trip_request_def)

section \<open>Properties\<close>





text \<open>
  Requests that the request model accepts are refused by the intake: a destination of one character or of more than 80 characters passes
  \<open>StructuredTripRequest\<close>, which allows 1 to 100, and then fails in \<open>GeocodeRequest\<close>, which wants 2 to 500 for the address and at most 80 for the
  city. No geocoder is asked, and the exception is not the \<open>TripIntakeError\<close> meant for destinations that cannot be resolved.
\<close>

theorem accepted_destination_refused:
  assumes "intake_env_ok env" and "caller_ok tenant_id actor_id run_id" and "StructuredTripRequest_ok q" and "\<not> text_ok 2 80 (sq_destination q)"
  shows "build_brief env geocode timeout q tenant_id actor_id run_id w = (Inl (ContractExc ValidationError), w)"
  using assms(3,4)
  by (auto simp: build_brief_def intake_context_built [OF assms(1,2)] construct_def GeocodeRequest_ok_def StructuredTripRequest_ok_def text_ok_def opt_ok_def)

theorem accepted_destination_refused_witness:
  "StructuredTripRequest_ok (demo_trip_request (replicate 90 CHR ''x'')) \<and>
   build_brief demo_intake (\<lambda>_ _. eret demo_geocoded) 5000000 (demo_trip_request (replicate 90 CHR ''x'')) ''t1'' ''alice'' ''run1'' () =
     (Inl (ContractExc ValidationError), ())"
proof -
  have q: "StructuredTripRequest_ok (demo_trip_request (replicate 90 CHR ''x''))" by (rule demo_trip_request_ok) (simp add: text_ok_def)
  then show ?thesis using accepted_destination_refused [OF demo_intake_ok q] by (simp add: text_ok_def)
qed

end
