(* ===== verification/Orchestrator_Properties.thy ===== *)
theory Orchestrator_Properties
  imports Orchestrator_Safety Validation_Properties Intake_Properties
begin

text \<open>Properties of the orchestration of Runs.\<close>

lemma ospec_weaken: "ospec P m Q \<Longrightarrow> (\<And>s. P' s \<Longrightarrow> P s) \<Longrightarrow> (\<And>a s. Q a s \<Longrightarrow> Q' a s) \<Longrightarrow> ospec P' m Q'"
  unfolding ospec_def by blast


section \<open>The snapshot\<close>

lemma combined_refs:
  assumes "combine_reports env plan c s = Inr v"
  shows "va_timezone v = ip_timezone plan" and "va_plan_ref v = artifact_ref plan AT_ItineraryPlan"
  using assms by (auto simp: combine_reports_def sbind_Inr Let_def split: if_splits)

lemma trip_snapshot_valid:
  assumes "combine_reports env plan c s = Inr v"
  shows "TripSnapshot_ok tz (trip_snapshot sy t1 t2 trip_id title brief ev cs plan c s v) \<longleftrightarrow>
    Identifier (new_id (os_token sy 0) ''artifact'') \<and> Identifier trip_id \<and> ShortText (take 256 title) \<and>
    IanaTimezone tz (pl_timezone (tb_destination brief)) \<and> ip_timezone plan = pl_timezone (tb_destination brief) \<and>
    ar_artifact_id (ip_trip_brief_ref plan) = ab_artifact_id brief"
  using combined_refs [OF assms]
  by (auto simp: TripSnapshot_ok_def trip_snapshot_def ArtifactBase_ok_def NonEmptyText_def validated_plan_def artifact_ref_def)



section \<open>Taking over a Run\<close>

lemma intake_brief_id: "intake_brief env q actor_id result c = Inr b \<Longrightarrow> ab_artifact_id b = new_id (ie_token env 1) ''artifact''"
  by (auto simp: intake_brief_def sbind_Inr)

definition steady_geocoder :: "agent_world geocoder \<Rightarrow> bool" where
  "steady_geocoder g \<longleftrightarrow> (\<forall>request context w. agent_world_ok w \<longrightarrow> agent_path w (snd (g request context w)))"

lemma build_brief_path:
  assumes "steady_geocoder geocode"
  shows "ospec (\<lambda>_. True) (raising OrchIntake (build_brief env geocode timeout q tenant_id actor_id run_id))
    (\<lambda>b _. ab_artifact_id b = new_id (ie_token env 1) ''artifact'')"
  unfolding ospec_def
proof (intro allI impI)
  fix w :: agent_world
  assume w: "agent_world_ok w"
  have path: "geocode request ctx w = (x, v) \<Longrightarrow> agent_path w v" for request ctx x v
    using assms w unfolding steady_geocoder_def by (metis snd_conv)
  show "agent_path w (snd (raising OrchIntake (build_brief env geocode timeout q tenant_id actor_id run_id) w)) \<and>
    (\<forall>b. fst (raising OrchIntake (build_brief env geocode timeout q tenant_id actor_id run_id) w) = Inr b \<longrightarrow>
       ab_artifact_id b = new_id (ie_token env 1) ''artifact'')"
    using path intake_brief_id [of env q actor_id]
    by (auto simp: raising_def build_brief_def ebind_def checked_def elift_def split: prod.split sum.split list.split)
qed

lemma run_brief_path:
  assumes "steady_geocoder (os_geocode sy)" and "\<not> is_jobj (jget (rc_payload (rv_command run)) ''trip_brief'')"
  shows "ospec (\<lambda>_. True) (run_brief sy text_of has_factory run p)
    (\<lambda>b _. ab_artifact_id b = new_id (ie_token (os_intake sy) 1) ''artifact'')"
proof -
  have "ospec (\<lambda>_. True) (ebind (given (os_parse_request sy raw)) (\<lambda>q. raising OrchIntake
      (build_brief (os_intake sy) (os_geocode sy) (os_geocode_timeout sy) q (pr_tenant_id p) (pr_user_id p) (rv_run_id run))))
      (\<lambda>b _. ab_artifact_id b = new_id (ie_token (os_intake sy) 1) ''artifact'')" for raw
    by (rule ospec_given) (rule build_brief_path [OF assms(1)])
  then show ?thesis
    using assms(2) by (auto simp: run_brief_def ospec_raise simp del: eraise_def split: json.split option.split)
qed

text \<open>
  C40. A Run that is taken over after its planning cannot be completed: the Tasks of a Run are found again by identifiers derived from the Run, so
  that \<^emph>\<open>a reclaimed Product Run resumes the same Task\<close>, but the brief of a structured request is built anew with another identifier. The
  recovered plan refers to the brief of the first execution, and the snapshot of the new brief and the old plan is refused. Nothing others do helps.
\<close>

theorem reclaimed_request_fails:
  assumes "registry_keyed (os_service sy)" and "\<And>phase label percent. unobtrusive (progress phase label percent)" and "steady_geocoder (os_geocode sy)"
    and "agent_world_ok w" and "rc_type (rv_command run) \<noteq> Trip_ask" and "\<not> is_jobj (jget (rc_payload (rv_command run)) ''trip_brief'')"
    and "task_outcome sy (pr_tenant_id p) (rv_run_id run) ''planner'' ''planning'' planning (aw_store w)"
    and "output_of sy planning ''ItineraryPlan@1'' as_plan plan"
    and "ar_artifact_id (ip_trip_brief_ref plan) \<noteq> new_id (ie_token (os_intake sy) 1) ''artifact''"
  shows "isl (fst (execute_whole_run sy text_of has_factory has_mesh run p progress w))"
proof (rule ccontr)
  let ?P = "task_outcome sy (pr_tenant_id p) (rv_run_id run) ''planner'' ''planning'' planning"
  let ?new = "new_id (ie_token (os_intake sy) 1) ''artifact''"
  have brief: "ospec ?P (run_brief sy text_of has_factory run p) (\<lambda>b s. ?P s \<and> ab_artifact_id b = ?new)"
    using ospec_frame [OF outcome_stable run_brief_path [OF assms(3,6)]] by simp
  have orch: "ospec (\<lambda>s. ?P s \<and> ab_artifact_id b = ?new)
      (ebind (orchestrate sy (pr_tenant_id p) (pr_user_id p) (rv_run_id run) (rv_trip_id run) (run_title run b) b
        (rc_message (rv_command run)) progress None None None) (\<lambda>result. eret (execution_result sy result))) (\<lambda>_ _. False)" for b
  proof (cases "ab_artifact_id b = ?new")
    case True
    have no: "\<not> (?P s \<and> orchestration_ok sy (pr_tenant_id p) (rv_run_id run) (rv_trip_id run) (run_title run b) b res s)" for res s
    proof
      assume "?P s \<and> orchestration_ok sy (pr_tenant_id p) (rv_run_id run) (rv_trip_id run) (run_title run b) b res s"
      then obtain planning' plan' t1 t2 where r: "?P s" "task_outcome sy (pr_tenant_id p) (rv_run_id run) ''planner'' ''planning'' planning' s"
        "output_of sy planning' ''ItineraryPlan@1'' as_plan plan'"
        "combine_reports (os_policy sy) plan' (or_constraints res) (or_semantics res) = Inr (or_validation res)"
        "TripSnapshot_ok (ve_tz_known (os_policy sy)) (trip_snapshot sy t1 t2 (rv_trip_id run) (run_title run b) b (or_evidence res) (or_candidates res) plan'
           (or_constraints res) (or_semantics res) (or_validation res))"
        unfolding orchestration_ok_def by metis
      have "plan' = plan" using outcome_unique [OF r(1,2)] output_unique [OF assms(8)] r(3) by blast
      with r(5) trip_snapshot_valid [OF r(4)] True assms(9) show False by simp
    qed
    show ?thesis
    proof (rule ospec_bind)
      show "ospec (\<lambda>s. ?P s \<and> ab_artifact_id b = ?new) (orchestrate sy (pr_tenant_id p) (pr_user_id p) (rv_run_id run) (rv_trip_id run)
          (run_title run b) b (rc_message (rv_command run)) progress None None None) (\<lambda>_ _. False)"
        by (rule ospec_weaken [OF ospec_frame [OF outcome_stable orchestrate_spec [OF assms(1,2)]]]) (use no in blast)+
      show "ospec (\<lambda>_. False) (eret (execution_result sy result)) (\<lambda>_ _. False)" for result by (rule ospec_ret)
    qed
  qed (simp add: ospec_def)
  assume "\<not> ?thesis"
  then show False
    using ospec_bind [OF brief orch] assms(4,5,7) by (cases "fst (execute_whole_run sy text_of has_factory has_mesh run p progress w)") (auto simp: execute_whole_run_def ospec_def)
qed

section \<open>Finishing without agents\<close>








definition completed_task :: "orch_sys \<Rightarrow> string \<Rightarrow> string \<Rightarrow> string \<Rightarrow> string \<Rightarrow> AgentTaskResult \<Rightarrow> task_store \<Rightarrow> bool" where
  "completed_task sy tenant run_id iface key result s \<longleftrightarrow>
     (\<exists>k r prof. dget (ts_dispatch_index s) (tenant, iface, deterministic_dispatch_id sy tenant run_id iface key) = Some k \<and>
        dget (ts_records s) k = Some r \<and> tr_run_id r = run_id \<and> task_state r = TASK_COMPLETED \<and> task_result sy iface (tr_task r) = Inr result \<and>
        get_profile (as_registry (os_service sy)) iface = Inr prof)"





section \<open>A Run to try the properties on\<close>

definition stage_profile :: "string \<Rightarrow> AgentProfile" where
  "stage_profile iface = (specified_profile ''http://x'' (hd specifications))\<lparr>pf_interface_id := iface\<rparr>"

definition stage_agents :: agent_sys where
  "stage_agents = \<lparr>as_clock = int, as_uuid = (\<lambda>n. replicate (n + 1) CHR ''u''), as_iso = (\<lambda>_. ''2026''), as_fingerprint = ms_message_id,
     as_size = (\<lambda>_. 1), as_parse_dispatch = (\<lambda>_. None), as_parse_part = (\<lambda>_. None), as_parse_invocation = (\<lambda>_. None), as_parse_input = (\<lambda>_. None),
     as_decode_page = (\<lambda>_. None), as_encode_page = (\<lambda>_. []), as_contract_valid = (\<lambda>_ _. True),
     as_registry = map (\<lambda>i. (i, stage_profile i)) [''research'', ''planner'', ''validation'', ''semantic-verifier''],
     as_executor = (\<lambda>_ _ _ _. Inr Unsupported), as_service_id = ''s'', as_lease_us = 1000000\<rparr>"

text \<open>Pydantic for one value of each contract.\<close>

definition demo_values :: "string \<Rightarrow> jobj \<Rightarrow> contract_error + contract_value" where
  "demo_values contract _ =
     (case dget [(''EvidenceBundle@1'', Cv_evidence demo_evidence), (''CandidateSet@1'', Cv_candidates demo_candidates), (''ItineraryPlan@1'', Cv_plan demo_plan),
        (''ConstraintReport@1'', Cv_constraints demo_constraint_report), (''SemanticRiskReport@1'', Cv_semantics demo_semantic_report)] contract of
        None \<Rightarrow> Inl ValidationError | Some v \<Rightarrow> Inr v)"

definition demo_orch :: orch_sys where
  "demo_orch = \<lparr>os_service = stage_agents, os_rounds = 1, os_timeout = 1800000000, os_uuid5 = id, os_json_text = (\<lambda>_. []), os_model_validate = demo_values,
     os_dump = (\<lambda>_. []), os_parse_input_request = (\<lambda>_. None), os_parse_request = (\<lambda>_. Inr (demo_trip_request ''Hangzhou'')), os_policy = demo_checker,
     os_token = hex_token, os_intake = demo_intake, os_geocode = catalog_geocode demo_intake, os_geocode_timeout = 5000000\<rparr>"

definition stage_record :: "string \<Rightarrow> string \<Rightarrow> TaskRecord" where
  "stage_record iface key = demo_task\<lparr>tr_agent_interface_id := iface, tr_dispatch_id := deterministic_dispatch_id demo_orch ''t1'' ''run1'' iface key,
     tr_task := (tr_task demo_task)\<lparr>tk_id := key\<rparr>\<rparr>"

definition stage_done :: "string \<Rightarrow> string \<Rightarrow> string list \<Rightarrow> TaskRecord" where
  "stage_done iface key contracts =
     updated_record stage_agents (updated_record stage_agents (stage_record iface key) TASK_WORKING None [] None 0 0) TASK_COMPLETED None
       (map (\<lambda>c. output_artifact (stage_record iface key) c
          \<lparr>ao_contract = c, ao_payload = [], ao_artifact_id = None, ao_name = c, ao_description = None\<rparr>) contracts) None 0 0"

definition finish_stage :: "string \<Rightarrow> string \<Rightarrow> string list \<Rightarrow> task_store \<Rightarrow> task_store" where
  "finish_stage iface key contracts s =
     snd (replace_task (stage_done iface key contracts) 2 None 0
       (snd (replace_task (updated_record stage_agents (stage_record iface key) TASK_WORKING None [] None 0 0) 1 None 0
         (snd (create_or_get (stage_record iface key) s)))))"

definition demo_stages :: task_store where
  "demo_stages =
     finish_stage ''semantic-verifier'' ''semantic-validation'' [''SemanticRiskReport@1'']
       (finish_stage ''validation'' ''constraint-validation'' [''ConstraintReport@1'']
         (finish_stage ''planner'' ''planning'' [''ItineraryPlan@1'']
           (finish_stage ''research'' ''research'' [''EvidenceBundle@1'', ''CandidateSet@1''] empty_task_store)))"

definition stage_result :: "string \<Rightarrow> string \<Rightarrow> string list \<Rightarrow> AgentTaskResult" where
  "stage_result iface key contracts = \<lparr>gr_interface_id = iface, gr_task_id = key, gr_context_id = ''c'',
     gr_artifacts = map (\<lambda>c. \<lparr>ga_contract = c, ga_payload = [], ga_artifact_id = c\<rparr>) contracts\<rparr>"

definition demo_world :: agent_world where
  "demo_world = \<lparr>aw_store = demo_stages, aw_jobs = \<lparr>jt_jobs = [], jt_info = []\<rparr>, aw_env = [], aw_tick = 0, aw_trace = []\<rparr>"

lemma replace_steps:
  assumes "task_move r r'" and "seen r s"
  shows "agent_step\<^sup>*\<^sup>* s (snd (replace_task r' (tr_version r) lease t s))"
proof -
  from assms(2) obtain cur where cur: "dget (ts_records s) (record_key r) = Some cur" "record_forward r cur" by (auto simp: seen_def)
  have key: "record_key r' = record_key r" using assms same_task_key by (simp add: task_move_def)
  obtain res s' where c: "replace_task r' (tr_version r) lease t s = (res, s')" by force
  then show ?thesis
  proof (cases rule: replace_task_cases)
    case (refused x)
    with c show ?thesis by simp
  next
    case (replaced old)
    with cur key have "cur = r" by (auto simp: record_forward_def)
    with cur agent_step.moved [OF _ assms(1), of s lease t] show ?thesis by auto
  qed
qed

lemma replace_stored:
  assumes "dget (ts_records s) (record_key r) = Some cur" and "tr_version cur = e" and "tr_version r = e + 1"
  shows "ts_records (snd (replace_task r e None t s)) = dset (record_key r) r (ts_records s)"
    and "ts_dispatch_index (snd (replace_task r e None t s)) = ts_dispatch_index s"
  using assms by (simp_all add: replace_task_def Let_def)

lemma finish_stage_steps: "agent_step\<^sup>*\<^sup>* s (finish_stage iface key contracts s)" if s: "tasks_ok s"
  "dget (ts_dispatch_index s) (dispatch_key (stage_record iface key)) = None" "dget (ts_records s) (record_key (stage_record iface key)) = None"
proof -
  let ?r = "stage_record iface key"
  let ?r1 = "updated_record stage_agents ?r TASK_WORKING None [] None 0 0"
  let ?s1 = "snd (create_or_get ?r s)"
  let ?s2 = "snd (replace_task ?r1 1 None 0 ?s1)"
  have fresh: "fresh_task ?r" by (simp add: fresh_task_def stage_record_def demo_task_def state_numbers)
  have v: "tr_version ?r = 1" "task_state ?r = TASK_SUBMITTED" using fresh by (simp_all add: fresh_task_def)
  have m1: "task_move ?r ?r1" by (rule updated_move) (simp_all add: v next_states_def)
  have v1: "tr_version ?r1 = 2" "task_state ?r1 = TASK_WORKING" "record_key ?r1 = record_key ?r"
    using v by (simp_all add: updated_record_def Let_def record_key_def)
  have m2: "task_move ?r1 (stage_done iface key contracts)"
    unfolding stage_done_def
  proof (rule updated_move)
    show "TASK_COMPLETED \<in> next_states (task_state ?r1)" unfolding v1(2) by (simp add: next_states_def state_numbers)
  qed simp
  have s1: "dget (ts_records ?s1) (record_key ?r) = Some ?r" using s by (simp add: create_or_get_def)
  have a1: "agent_step\<^sup>*\<^sup>* s ?s1" using agent_step.created [OF fresh] by blast
  have a2: "agent_step\<^sup>*\<^sup>* ?s1 ?s2" using replace_steps [OF m1, of ?s1 None 0] s1 by (auto simp: seen_def v)
  have s2: "dget (ts_records ?s2) (record_key ?r1) = Some ?r1"
    using s1 v1 v by (simp add: replace_task_def Let_def)
  have "agent_step\<^sup>*\<^sup>* ?s2 (finish_stage iface key contracts s)"
    unfolding finish_stage_def using replace_steps [OF m2, of ?s2 None 0] s2 by (auto simp: seen_def v1)
  with a1 a2 show ?thesis by (meson rtranclp_trans)
qed

lemma stage_record_simps:
  "record_key (stage_record iface key) = (''t1'', iface, key)"
  "dispatch_key (stage_record iface key) = (''t1'', iface, deterministic_dispatch_id demo_orch ''t1'' ''run1'' iface key)"
  "tr_version (stage_record iface key) = 1"
  by (simp_all add: dispatch_key_def record_key_def stage_record_def demo_task_def)

lemma updated_simps:
  "record_key (updated_record sy r st m a p t1 t2) = record_key r" "tr_version (updated_record sy r st m a p t1 t2) = tr_version r + 1"
  by (simp_all add: updated_record_def Let_def record_key_def)

lemma finish_stage_store:
  assumes "dget (ts_dispatch_index s) (''t1'', iface, deterministic_dispatch_id demo_orch ''t1'' ''run1'' iface key) = None"
    and "dget (ts_records s) (''t1'', iface, key) = None"
  shows "dget (ts_records (finish_stage iface key contracts s)) k =
      (if k = (''t1'', iface, key) then Some (stage_done iface key contracts) else dget (ts_records s) k)"
    and "dget (ts_dispatch_index (finish_stage iface key contracts s)) d =
      (if d = (''t1'', iface, deterministic_dispatch_id demo_orch ''t1'' ''run1'' iface key) then Some (''t1'', iface, key) else dget (ts_dispatch_index s) d)"
proof -
  let ?r = "stage_record iface key"
  let ?r1 = "updated_record stage_agents ?r TASK_WORKING None [] None 0 0"
  let ?s1 = "snd (create_or_get ?r s)"
  let ?s2 = "snd (replace_task ?r1 1 None 0 ?s1)"
  note keys = stage_record_simps updated_simps
  have s1: "ts_records ?s1 = dset (''t1'', iface, key) ?r (ts_records s)"
    "ts_dispatch_index ?s1 = dset (dispatch_key ?r) (''t1'', iface, key) (ts_dispatch_index s)"
    using assms by (simp_all add: create_or_get_def keys)
  have s2: "ts_records ?s2 = dset (''t1'', iface, key) ?r1 (ts_records ?s1)" "ts_dispatch_index ?s2 = ts_dispatch_index ?s1"
    using replace_stored [of ?s1 ?r1 ?r 1 0] by (simp_all add: keys s1)
  have d: "record_key (stage_done iface key contracts) = (''t1'', iface, key)" "tr_version (stage_done iface key contracts) = 3"
    by (simp_all add: stage_done_def keys)
  have s3: "ts_records (finish_stage iface key contracts s) = dset (''t1'', iface, key) (stage_done iface key contracts) (ts_records ?s2)"
    "ts_dispatch_index (finish_stage iface key contracts s) = ts_dispatch_index ?s2"
    unfolding finish_stage_def using replace_stored [of ?s2 "stage_done iface key contracts" ?r1 2 0] by (simp_all add: keys s2 d)
  show "dget (ts_records (finish_stage iface key contracts s)) k =
      (if k = (''t1'', iface, key) then Some (stage_done iface key contracts) else dget (ts_records s) k)"
    by (simp add: s1 s2 s3)
  show "dget (ts_dispatch_index (finish_stage iface key contracts s)) d =
      (if d = (''t1'', iface, deterministic_dispatch_id demo_orch ''t1'' ''run1'' iface key) then Some (''t1'', iface, key) else dget (ts_dispatch_index s) d)"
    by (simp add: s1 s2 s3 keys)
qed

lemma stage_task_result:
  assumes "\<And>c. c \<in> set contracts \<Longrightarrow> c \<in> set CONTRACT_NAMES \<and> \<not> isl (demo_values c [])"
  shows "task_result demo_orch iface (tr_task (stage_done iface key contracts)) = Inr (stage_result iface key contracts)"
proof -
  have one: "task_artifact demo_orch iface (output_artifact (stage_record iface key) c
      \<lparr>ao_contract = c, ao_payload = [], ao_artifact_id = None, ao_name = c, ao_description = None\<rparr>) =
      Inr \<lparr>ga_contract = c, ga_payload = [], ga_artifact_id = c\<rparr>" if "c \<in> set contracts" for c
    using assms [OF that] by (auto simp: task_artifact_def output_artifact_def validate_contract_def demo_orch_def split: sum.split)
  have "smap (task_artifact demo_orch iface) (map (\<lambda>c. output_artifact (stage_record iface key) c
      \<lparr>ao_contract = c, ao_payload = [], ao_artifact_id = None, ao_name = c, ao_description = None\<rparr>) xs) =
      Inr (map (\<lambda>c. \<lparr>ga_contract = c, ga_payload = [], ga_artifact_id = c\<rparr>) xs)" if "set xs \<subseteq> set contracts" for xs
    using that one by (induction xs) auto
  then show ?thesis
    by (simp add: task_result_def stage_done_def updated_record_def Let_def stage_result_def state_numbers stage_record_def demo_task_def)
qed

lemma stage_done_simps [simp]: "tr_run_id (stage_done iface key contracts) = ''run1''" "task_state (stage_done iface key contracts) = TASK_COMPLETED"
  by (simp_all add: stage_done_def updated_record_def Let_def stage_record_def demo_task_def)

lemma demo_stages_ok: "tasks_ok demo_stages"
proof -
  have "tasks_ok empty_task_store" by (simp add: tasks_ok_def empty_task_store_def task_inv_def)
  moreover have "tasks_ok (finish_stage iface key contracts s)" if "tasks_ok s"
    "dget (ts_dispatch_index s) (''t1'', iface, deterministic_dispatch_id demo_orch ''t1'' ''run1'' iface key) = None"
    "dget (ts_records s) (''t1'', iface, key) = None" for iface key contracts s
    using agent_steps_ok [OF finish_stage_steps] that by (simp add: stage_record_simps)
  ultimately show ?thesis unfolding demo_stages_def by (simp add: finish_stage_store empty_task_store_def)
qed

lemma demo_stages_completed:
  "completed_task demo_orch ''t1'' ''run1'' ''research'' ''research'' (stage_result ''research'' ''research'' [''EvidenceBundle@1'', ''CandidateSet@1'']) demo_stages"
  "completed_task demo_orch ''t1'' ''run1'' ''planner'' ''planning'' (stage_result ''planner'' ''planning'' [''ItineraryPlan@1'']) demo_stages"
  "completed_task demo_orch ''t1'' ''run1'' ''validation'' ''constraint-validation'' (stage_result ''validation'' ''constraint-validation'' [''ConstraintReport@1'']) demo_stages"
  "completed_task demo_orch ''t1'' ''run1'' ''semantic-verifier'' ''semantic-validation''
     (stage_result ''semantic-verifier'' ''semantic-validation'' [''SemanticRiskReport@1'']) demo_stages"
proof -
  have registered: "\<exists>p. get_profile (as_registry (os_service demo_orch)) i = Inr p"
    if "i \<in> {''research'', ''planner'', ''validation'', ''semantic-verifier''}" for i
    using that by (auto simp: demo_orch_def stage_agents_def get_profile_def)
  have valid: "c \<in> set CONTRACT_NAMES \<and> \<not> isl (demo_values c [])"
    if "c \<in> {''EvidenceBundle@1'', ''CandidateSet@1'', ''ItineraryPlan@1'', ''ConstraintReport@1'', ''SemanticRiskReport@1''}" for c
    using that by (auto simp: CONTRACT_NAMES_def demo_values_def)
  have result: "task_result demo_orch iface (tr_task (stage_done iface key contracts)) = Inr (stage_result iface key contracts)"
    if "set contracts \<subseteq> {''EvidenceBundle@1'', ''CandidateSet@1'', ''ItineraryPlan@1'', ''ConstraintReport@1'', ''SemanticRiskReport@1''}" for iface key contracts
    using that valid by (intro stage_task_result) blast
  note facts = completed_task_def demo_stages_def finish_stage_store empty_task_store_def registered result
  show "completed_task demo_orch ''t1'' ''run1'' ''research'' ''research'' (stage_result ''research'' ''research'' [''EvidenceBundle@1'', ''CandidateSet@1'']) demo_stages"
    by (simp add: facts)
  show "completed_task demo_orch ''t1'' ''run1'' ''planner'' ''planning'' (stage_result ''planner'' ''planning'' [''ItineraryPlan@1'']) demo_stages"
    by (simp add: facts)
  show "completed_task demo_orch ''t1'' ''run1'' ''validation'' ''constraint-validation'' (stage_result ''validation'' ''constraint-validation'' [''ConstraintReport@1'']) demo_stages"
    by (simp add: facts)
  show "completed_task demo_orch ''t1'' ''run1'' ''semantic-verifier'' ''semantic-validation''
     (stage_result ''semantic-verifier'' ''semantic-validation'' [''SemanticRiskReport@1'']) demo_stages"
    by (simp add: facts)
qed

lemma demo_outputs:
  "output_of demo_orch (stage_result ''research'' ''research'' [''EvidenceBundle@1'', ''CandidateSet@1'']) ''EvidenceBundle@1'' as_evidence demo_evidence"
  "output_of demo_orch (stage_result ''research'' ''research'' [''EvidenceBundle@1'', ''CandidateSet@1'']) ''CandidateSet@1'' as_candidates demo_candidates"
  "output_of demo_orch (stage_result ''planner'' ''planning'' [''ItineraryPlan@1'']) ''ItineraryPlan@1'' as_plan demo_plan"
  "output_of demo_orch (stage_result ''validation'' ''constraint-validation'' [''ConstraintReport@1'']) ''ConstraintReport@1'' as_constraints demo_constraint_report"
  "output_of demo_orch (stage_result ''semantic-verifier'' ''semantic-validation'' [''SemanticRiskReport@1'']) ''SemanticRiskReport@1'' as_semantics
     demo_semantic_report"
  by (simp_all add: output_of_def agent_output_def stage_result_def validate_contract_def CONTRACT_NAMES_def demo_orch_def demo_values_def given_def
      raising_def elift_def ebind_def as_evidence_def as_candidates_def as_plan_def as_constraints_def as_semantics_def)

lemma built_refs:
  assumes "build_candidate env brief cs ev = Inr plan"
  shows "ip_trip_brief_ref plan = artifact_ref brief AT_TripBrief" and "ip_timezone plan = pl_timezone (tb_destination brief)"
  using assms by (auto simp: build_candidate_def finish_plan_def sbind_Inr Let_def split: if_splits)

lemma demo_orch_simps [simp]:
  "os_service demo_orch = stage_agents" "os_rounds demo_orch = 1" "os_policy demo_orch = demo_checker" "os_token demo_orch = hex_token"
  "os_intake demo_orch = demo_intake" "os_geocode demo_orch = catalog_geocode demo_intake" "aw_store demo_world = demo_stages" "aw_env demo_world = []"
  by (simp_all add: demo_orch_def demo_world_def)

lemma demo_orch_ok: "registry_keyed stage_agents" "agent_world_ok demo_world"
  using demo_stages_ok by (auto simp: registry_keyed_def stage_agents_def stage_profile_def agent_world_ok_def agent_env_ok_def split: if_splits)






definition reclaimed_view :: RunView where
  "reclaimed_view = \<lparr>rv_run_id = ''run1'', rv_trip_id = ''trip_1'', rv_tenant_id = ''t1'', rv_actor_id = ''alice'', rv_trace_id = [],
     rv_lifecycle_state = RUNNING, rv_phase = ''planning'', rv_control_version = 1,
     rv_command = \<lparr>rc_type = Trip_plan, rc_message = ''plan'', rc_payload = [(''trip_request'', JObj [])]\<rparr>, rv_base_artifact_id = None,
     rv_base_artifact_version = None, rv_pending_input = None, rv_result_artifact_id = None, rv_result_artifact_version = None,
     rv_public_error_code = None, rv_created_at = 0, rv_updated_at = 0\<rparr>"

theorem reclaimed_request_fails_witness:
  "isl (fst (execute_whole_run demo_orch (\<lambda>_. []) True True reclaimed_view
     \<lparr>pr_tenant_id = ''t1'', pr_user_id = ''alice'', pr_roles = {}, pr_authorization_epoch = 0\<rparr> (\<lambda>_ _ _. eret ()) demo_world))"
proof -
  have "steady_geocoder (os_geocode demo_orch)"
    by (simp add: steady_geocoder_def catalog_geocode_def Let_def agent_path_def)
  moreover have "task_outcome demo_orch ''t1'' ''run1'' ''planner'' ''planning'' (stage_result ''planner'' ''planning'' [''ItineraryPlan@1'']) demo_stages"
    using demo_stages_completed(2) by (auto simp: completed_task_def task_outcome_def)
  moreover have "ab_artifact_id demo_brief \<noteq> new_id (ie_token demo_intake 1) ''artifact''"
    by (auto simp: demo_brief_def demo_brief_with_def demo_intake_def new_id_def dest: arg_cong [of _ _ length])
  then have "ar_artifact_id (ip_trip_brief_ref demo_plan) \<noteq> new_id (ie_token demo_intake 1) ''artifact''"
    using built_refs [OF demo_plan_built] by (simp add: artifact_ref_def)
  ultimately show ?thesis
    using demo_orch_ok demo_outputs(3)
    by (intro reclaimed_request_fails) (auto simp: reclaimed_view_def jget_def intro: ospec_ret)
qed

end
