(* ===== verification/Spec2Isabelle.thy ===== *)
theory Spec2Isabelle
  imports Coordinator_Properties A2A_Properties Validation_Properties Replan_Properties Gateway_Properties Outbox Run_Worker Share_Properties RAG_Properties Orchestrator_Properties
begin

text \<open>
  RoutePilot plans trips. This development models the Python services of the repository and proves what makes them
  correct. Names of files are relative to \<^verbatim>\<open>src/\<close>.

  \<^bold>\<open>The program.\<close> A user creates a Trip and starts Runs on it (\<^verbatim>\<open>backend/moyuan_web/v1\<close>). The platform
  store keeps Trips, Runs, their events and Artifacts; the Run coordinator executes a Run, in process or from a worker that
  takes dispatch entries from a stream fed by the transactional outbox. Executing a Run asks agents
  (\<^verbatim>\<open>agent/travel_agent/a2a\<close>), whose Tasks have a store and a service of their own with the same lease and version
  discipline. The planning agents (\<^verbatim>\<open>agent/travel_agent/runtime_v2\<close>) build an itinerary from candidate places,
  validate it and decide on its publication, with live data through the provider gateway (\<^verbatim>\<open>agent/travel_agent/providers\<close>).
  A published itinerary can be shared with a capability link and replanned with a structural patch. The values that pass
  between the parts are the versioned contracts of \<^verbatim>\<open>packages/python/routepilot_contracts\<close>.

  \<^bold>\<open>Theories and sources.\<close>
    \<^item> \<open>Prelude\<close>: dictionaries, exceptions with state (\<open>eff\<close>, \<open>ebind\<close>, \<open>ecatch\<close>, \<open>etry\<close>, \<open>efinally\<close>), JSON, numerals. \<open>Lease_Contract\<close>:
      the locales \<open>fenced_lease\<close> and \<open>versioned_cas\<close>, what both stores promise their clients.
    \<^item> \<open>V1_Models\<close>, \<open>Platform_Store\<close>, \<open>Store_Invariant\<close>, \<open>Store_Steps\<close>, \<open>Store_Reach\<close>, \<open>Store_Properties\<close>: \<^verbatim>\<open>v1/models.py\<close> and
      \<^verbatim>\<open>v1/store.py\<close>. Every operation of \<^verbatim>\<open>InMemoryPlatformStore\<close> is a function on \<open>platform_store\<close>, atomic as under its lock; all
      together are the step relation \<open>store_step\<close>.
    \<^item> \<open>Public_Events\<close>, \<open>Run_Coordinator\<close>, \<open>Coordinator_Safety\<close>, \<open>Coordinator_Liveness\<close>, \<open>Coordinator_Properties\<close>: \<^verbatim>\<open>v1/runtime.py\<close>. Coroutines are programs
      over atomic store calls; at each suspension a script says which steps others take and whether an exception
      (cancellation, a lost connection) arrives.
    \<^item> \<open>Outbox\<close> and \<open>Run_Worker\<close>: \<^verbatim>\<open>v1/outbox.py\<close> and \<^verbatim>\<open>v1/worker.py\<close>, transactions on a table of rows and the worker over the coordinator.
    \<^item> \<open>A2A_Models\<close>, \<open>A2A_Task_Store\<close>, \<open>A2A_Service\<close>, \<open>A2A_Requests\<close>: \<^verbatim>\<open>a2a/constants.py\<close>, \<^verbatim>\<open>models.py\<close>, \<^verbatim>\<open>registry.py\<close>, \<^verbatim>\<open>store.py\<close>, \<^verbatim>\<open>service.py\<close> and
      \<^verbatim>\<open>handler.py\<close>, in the same style as the coordinator; \<open>A2A_Safety\<close> has the life cycle of Tasks as the step relation \<open>agent_step\<close> and
      a logic for programs that others interrupt, \<open>A2A_Progress\<close>, \<open>A2A_Outcome\<close> and \<open>A2A_Jobs\<close> what ends and how, \<open>A2A_Properties\<close> the properties.
    \<^item> \<open>Money\<close>, \<open>Contracts\<close>: decimal amounts and the contracts \<^verbatim>\<open>common.py\<close> and \<^verbatim>\<open>artifacts.py\<close> as records with \<open>_ok\<close> predicates for
      their validators; \<open>construct\<close> is pydantic's refusal.
    \<^item> \<open>Provider_Models\<close>, \<open>Provider_Gateway\<close>, \<open>Gateway_Steps\<close>, \<open>Gateway_Origin\<close>, \<open>Gateway_Calls\<close>, \<open>Gateway_Properties\<close>: \<^verbatim>\<open>providers/models.py\<close>, \<^verbatim>\<open>ports.py\<close>,
      \<^verbatim>\<open>errors.py\<close> and \<^verbatim>\<open>gateway.py\<close>; every section under the state lock is a step, whole calls are runs of them.
    \<^item> \<open>Planner\<close>, \<open>Planner_Facts\<close>, \<open>Planner_Days\<close>, \<open>Planner_Properties\<close>: \<^verbatim>\<open>runtime_v2/planning.py\<close>; \<open>Plan_Validation\<close>, \<open>Validation_Meaning\<close>, \<open>Validation_Properties\<close>:
      \<^verbatim>\<open>runtime_v2/validation.py\<close>; \<open>Replanning\<close>, \<open>Replan_Properties\<close>: \<^verbatim>\<open>v1/replanning.py\<close> and the replan branch of submission; \<open>Demo_Trip\<close>: a trip
      the witnesses use.
    \<^item> \<open>Share_Projection\<close>, \<open>Share_Service\<close>, \<open>Share_Postgres\<close>, \<open>Share_Access\<close>, \<open>Share_Implementations\<close>, \<open>Share_Parity\<close>, \<open>Share_Properties\<close>: \<^verbatim>\<open>v1/share_service.py\<close>
      and \<^verbatim>\<open>share_models.py\<close>, with its two halves, in memory and on PostgreSQL, as implementations of one abstract system.
    \<^item> \<open>Floats\<close>: the rounding of rationals to doubles and the operations on them the code uses. \<open>RAG_Models\<close>, \<open>RAG_Text\<close>, \<open>RAG_Chunks\<close>, \<open>RAG_Memory\<close>, \<open>RAG_Invariant\<close>,
      \<open>RAG_Properties\<close>: \<^verbatim>\<open>agent/travel_agent/rag\<close>, its \<^verbatim>\<open>models.py\<close>, \<^verbatim>\<open>ports.py\<close>, \<^verbatim>\<open>text.py\<close>, \<^verbatim>\<open>pipeline.py\<close>, \<^verbatim>\<open>memory.py\<close> and \<^verbatim>\<open>service.py\<close>: the normal form and
      chunks of documents, the repository in memory with its two rankings and their fusion, ingestion, retrieval and its answer to a prompt.
    \<^item> \<open>Intake\<close>, \<open>Intake_Properties\<close>: \<^verbatim>\<open>runtime_v2/intake.py\<close>, from a structured request over a geocoder to the \<open>TripBrief\<close>. \<open>Orchestrator\<close>, \<open>Orchestrator_Safety\<close>,
      \<open>Orchestrator_Properties\<close>: \<^verbatim>\<open>runtime_v2/orchestrator.py\<close>, \<^verbatim>\<open>routepilot_contracts/validation.py\<close> and the whole-run executor of \<^verbatim>\<open>v1/runtime.py\<close>; they run in the
      world of the Task service, with the intake, validators and publication gate of the other theories.
  \<^bold>\<open>What is shown.\<close>
    \<^item> Platform store: a representation invariant of every reachable store (contiguous event logs and Artifact versions,
      consistent owners, one published snapshot per Trip); no lost updates; a worker whose lease was superseded changes nothing;
      repeated creation is idempotent; tenants are isolated; histories only grow.
    \<^item> Coordinator, outbox and worker: under every interleaving a Run only moves forward, a Run left alone settles, redelivered entries
      are harmless and an event is marked published only after its delivery.
    \<^item> Agents: a dispatch creates one Task; Tasks only move forward and are what their events say; a job left alone settles its
      Task and frees its lease; waiting ends; subscribers miss nothing.
    \<^item> Planner, validation, replanning: plans consist of given candidates, their times pass the validator, costs add up, excluded
      places are not planned; the constraint report decides a declarative feasibility; the publication gate is exact.
    \<^item> Gateway: private results stay with their tenant, the rate limit holds in every window, results are not passed off as fresh, calls are
      bounded.
    \<^item> Sharing: a shared trip is read only with a session that the right secret opened, revocation is final, the projection hides what
      is private, the two halves answer alike (a simulation).
    \<^item> Intake and orchestration: a valid request with a resolved destination becomes a valid brief, cities of the catalog without the live provider too; a returned
      snapshot holds what the completed Tasks of the Run hold and is ready exactly if the plan is feasible, whatever others do to the Tasks; a Run with
      completed Tasks is finished from them, but one that rebuilds its brief cannot be.
    \<^item> Retrieval: a phrase no longer than the overlap stays whole in some chunk; term lines read back; the repository invariant of every reachable
      repository; results are in the scope, time and place of the request and of its tenant; fusion respects both rankings, floating point
      included; ingestion twice is ingestion once.
    \<^item> Theorems about errors show, on concrete inputs, behaviours the code does not mean to have.
  \<^bold>\<open>Conventions.\<close> Instants are integers of microseconds, dates are day ordinals, decimal amounts are integers of ten-thousandths. Python's unbounded
  integers are \<^typ>\<open>int\<close>. A dictionary is an association list in insertion order where the order can be observed.
  Every exception of the source is a value. Clock readings, drawn identifiers and what
  others do at suspensions are arguments, so theorems hold for all of them. Code that is not in the repository is a parameter with the
  documented behaviour that is relied on as a hypothesis: hashes, HMAC, case folding, pydantic's parsing, ISO formats, time zones, page
  tokens, executors, provider adapters, Redis, Unicode normal forms, the callbacks of the HTML parser, embeddings and their similarity. Chinese texts are given in English.

  \<^bold>\<open>Bounds and fuel.\<close> Loops over data are structural. The compare-and-set loops of the Task service have as many rounds as the script of others has
  entries, and one more; \<open>A2A_Progress.transition_enough_fuel\<close> shows that they never run out. Waiting for a Task has explicit fuel and
  a termination theorem: script length plus clock readings before the deadline plus three rounds are enough. The orchestrator's waits share that
  fuel (\<open>os_rounds\<close>); a run out of it is an exception, and finishing from completed Tasks needs one round. A subscription and the
  dispatcher's \<open>run_forever\<close> need not end; their theorems hold for every number of rounds. The retry loop of the gateway is bounded by its policy.
  An unbounded repetition in a regular expression has the largest document size as its bound, which no text exceeds.

  \<^bold>\<open>Not modelled.\<close> The PostgreSQL stores of the platform and of agent Tasks and the persistence of RAG: their SQL is the
  behaviour of PostgreSQL and SQLAlchemy (the share service's PostgreSQL half is modelled, as tables of rows). The HTTP
  routes, authentication by a JWT library, schema generation, backups, migrations and the
  frontend: glue and input/output. The executors behind the agents and the provider adapters: they call
  language models, geocoders and map services. Within modelled parts: the trimming of the Redis stream and its reconnection, fractional seconds of
  intervals as floating-point numbers, the registry of in-process tasks of the coordinator, the shutdown of the Task service.
\<close>

end
